(* ===== verification/Prelude.thy ===== *)
theory Prelude
  imports Main "HOL-Library.Word"
begin

text \<open>
  Shared vocabulary of the development: machine types, byte blocks, little-endian numbers,
  C-style memory copies and the allocator.  Every component theory imports this one.

  \<^item> \<open>bytes\<close> is the contents of a memory block; a pointer that may be NULL is a \<open>bytes option\<close>.
  \<^item> \<open>le_nat\<close> and \<open>le_bytes\<close> read and write unsigned little-endian numbers, the representation
    of every target of the library.
  \<^item> \<open>overlay\<close> is \<open>memcpy\<close> of a source block over a destination at an offset.
  \<^item> \<open>heap\<close> is what an operation sees of \<open>malloc\<close>, \<open>calloc\<close> and \<open>realloc\<close>: which sizes can be
    served, what fresh memory holds, and whether \<open>errno\<close> was already \<open>ENOMEM\<close>.  Theorems
    quantify over every heap.
\<close>

section \<open>Types\<close>

type_synonym u8 = "8 word"
type_synonym u16 = "16 word"
type_synonym u32 = "32 word"
type_synonym bytes = "u8 list"

named_theorems word_nat \<open>rules that move 32-bit arithmetic to natural numbers\<close>
named_theorems layout \<open>sizes and member offsets of the packed structures\<close>
named_theorems struct_defs \<open>definitions of the packed structures\<close>
named_theorems const_defs \<open>numeric constants of proto.h\<close>

section \<open>Little-endian numbers\<close>

fun le_nat :: "bytes \<Rightarrow> nat" where
  "le_nat [] = 0"
| "le_nat (b # bs) = unat b + 256 * le_nat bs"

fun le_bytes :: "nat \<Rightarrow> nat \<Rightarrow> bytes" where
  "le_bytes 0 x = []"
| "le_bytes (Suc n) x = of_nat (x mod 256) # le_bytes n (x div 256)"

definition u32_bytes :: "u32 \<Rightarrow> bytes" where
  "u32_bytes w = le_bytes 4 (unat w)"

definition bytes_u32 :: "bytes \<Rightarrow> u32" where
  "bytes_u32 bs = of_nat (le_nat bs)"

definition u16_bytes :: "u16 \<Rightarrow> bytes" where
  "u16_bytes w = le_bytes 2 (unat w)"

definition bytes_u16 :: "bytes \<Rightarrow> u16" where
  "bytes_u16 bs = of_nat (le_nat bs)"

section \<open>Memory blocks\<close>

definition seg :: "nat \<Rightarrow> nat \<Rightarrow> 'a list \<Rightarrow> 'a list" where
  "seg off n xs = take n (drop off xs)"

text \<open>\<open>overlay off src dst\<close>: the block \<open>dst\<close> after \<open>memcpy(dst + off, src, length src)\<close>.\<close>

definition overlay :: "nat \<Rightarrow> 'a list \<Rightarrow> 'a list \<Rightarrow> 'a list" where
  "overlay off src dst = take off dst @ src @ drop (off + length src) dst"

text \<open>C strings: the bytes up to the first NUL.\<close>

definition c_str :: "bytes \<Rightarrow> bytes" where
  "c_str s = takeWhile (\<lambda>c. c \<noteq> 0) s"

text \<open>\<open>strncpy(dst, s, n)\<close>: the new contents of \<open>dst\<close>; the rest is filled with zeros.\<close>

definition strncpy :: "bytes \<Rightarrow> nat \<Rightarrow> bytes" where
  "strncpy s n = take n (c_str s @ replicate n 0)"

record heap =
  heap_ok :: "nat \<Rightarrow> bool"
  heap_junk :: "nat \<Rightarrow> u8"
  heap_errno_enomem :: bool

definition realloc :: "heap \<Rightarrow> bytes \<Rightarrow> nat \<Rightarrow> bytes option" where
  "realloc h old n =
     (if heap_ok h n then Some (take n old @ map (heap_junk h) [length old..<n]) else None)"

definition malloc :: "heap \<Rightarrow> nat \<Rightarrow> bytes option" where
  "malloc h n = realloc h [] n"

definition calloc :: "heap \<Rightarrow> nat \<Rightarrow> bytes option" where
  "calloc h n = (if heap_ok h n then Some (replicate n 0) else None)"

text \<open>Conversion of an unsigned value to the signed 32-bit \<open>int\<close> (two's complement), and the
  comparison \<open>size > n\<close> of such an \<open>int\<close> with an unsigned \<open>size_t\<close>: a negative value is
  converted to a huge unsigned one.\<close>

definition c_int :: "nat \<Rightarrow> int" where
  "c_int x = sint (of_nat x :: u32)"

definition exceeds :: "int \<Rightarrow> nat \<Rightarrow> bool" where
  "exceeds i n \<longleftrightarrow> i < 0 \<or> int n < i"

section \<open>Lemmas\<close>

lemma unat_u8_bound: "unat (b :: u8) < 256"
  using unsigned_less [of b, where ?'a = nat] by simp

lemma unat_u32_bound: "unat (w :: u32) < 2 ^ 32"
  using unsigned_less [of w, where ?'a = nat] by simp

lemma unat_u16_bound: "unat (w :: u16) < 2 ^ 16"
  using unsigned_less [of w, where ?'a = nat] by simp

lemma unat_ucast_u16_u32 [simp]: "unat (ucast (w :: u16) :: u32) = unat w"
  using unat_u16_bound [of w] by (simp add: unsigned_ucast_eq take_bit_nat_eq_self)

lemma le_nat_bound: "le_nat bs < 256 ^ length bs"
proof (induction bs)
  case Nil
  then show ?case by simp
next
  case (Cons b bs)
  have "unat b < 256" by (rule unat_u8_bound)
  with Cons show ?case by simp
qed

lemma length_le_bytes [simp]: "length (le_bytes n x) = n"
  by (induction n arbitrary: x) auto

lemma unat_of_nat_byte: "unat (of_nat (x mod 256) :: u8) = x mod 256"
  by (simp add: unat_of_nat)

lemma le_nat_le_bytes: "le_nat (le_bytes n x) = x mod 256 ^ n"
proof (induction n arbitrary: x)
  case 0
  then show ?case by simp
next
  case (Suc n)
  have "le_nat (le_bytes (Suc n) x) = x mod 256 + 256 * (x div 256 mod 256 ^ n)"
    using Suc by (simp add: unat_of_nat_byte)
  also have "\<dots> = x mod 256 ^ Suc n"
    by (simp add: mod_mult2_eq)
  finally show ?case .
qed

lemma le_bytes_le_nat: "le_bytes (length bs) (le_nat bs) = bs"
proof (induction bs)
  case Nil
  then show ?case by simp
next
  case (Cons b bs)
  have b: "unat b < 256" by (rule unat_u8_bound)
  then have "(unat b + 256 * le_nat bs) mod 256 = unat b"
    and "(unat b + 256 * le_nat bs) div 256 = le_nat bs"
    by simp_all
  with Cons show ?case by simp
qed

lemma le_bytes_4: "le_bytes 4 x = [of_nat (x mod 256), of_nat (x div 256 mod 256),
  of_nat (x div 65536 mod 256), of_nat (x div 16777216 mod 256)]"
proof -
  have "4 = Suc (Suc (Suc (Suc 0)))" by simp
  moreover have "x div 256 div 256 = x div 65536" "x div 65536 div 256 = x div 16777216"
    by (simp_all add: div_mult2_eq [symmetric])
  ultimately show ?thesis by (simp only: le_bytes.simps)
qed

lemma length_u32_bytes [simp]: "length (u32_bytes w) = 4"
  by (simp add: u32_bytes_def)

lemma bytes_u32_u32_bytes [simp]: "bytes_u32 (u32_bytes w) = w"
proof -
  have "le_nat (le_bytes 4 (unat w)) = unat w"
    using unat_u32_bound [of w] by (simp add: le_nat_le_bytes)
  then show ?thesis by (simp add: bytes_u32_def u32_bytes_def)
qed

lemma u32_bytes_bytes_u32: "length bs = 4 \<Longrightarrow> u32_bytes (bytes_u32 bs) = bs"
proof -
  assume len: "length bs = 4"
  then have "le_nat bs < 2 ^ 32" using le_nat_bound [of bs] by simp
  then have "unat (bytes_u32 bs) = le_nat bs"
    by (simp add: bytes_u32_def unat_of_nat)
  then show ?thesis using le_bytes_le_nat [of bs] len by (simp add: u32_bytes_def)
qed

lemma bytes_u16_u16_bytes [simp]: "bytes_u16 (u16_bytes w) = w"
proof -
  have "le_nat (le_bytes 2 (unat w)) = unat w"
    using unat_u16_bound [of w] by (simp add: le_nat_le_bytes)
  then show ?thesis by (simp add: bytes_u16_def u16_bytes_def)
qed

lemma length_u16_bytes [simp]: "length (u16_bytes w) = 2"
  by (simp add: u16_bytes_def)

lemma length_seg [simp]: "length (seg off n xs) = min n (length xs - off)"
  by (simp add: seg_def)

lemma seg_append_left: "off + n \<le> length xs \<Longrightarrow> seg off n (xs @ ys) = seg off n xs"
  by (simp add: seg_def)

lemma seg_append_right: "length xs \<le> off \<Longrightarrow> seg off n (xs @ ys) = seg (off - length xs) n ys"
  by (simp add: seg_def)

lemma seg_0: "seg 0 n xs = take n xs"
  by (simp add: seg_def)

lemma seg_take: "off + n \<le> m \<Longrightarrow> seg off n (take m xs) = seg off n xs"
  by (simp add: seg_def drop_take min_absorb1)

lemma length_overlay:
  "off + length src \<le> length dst \<Longrightarrow> length (overlay off src dst) = length dst"
  by (simp add: overlay_def)

lemma take_overlay [simp]: "off \<le> length dst \<Longrightarrow> take off (overlay off src dst) = take off dst"
  by (simp add: overlay_def)

lemma seg_overlay_same:
  "off \<le> length dst \<Longrightarrow> seg off (length src) (overlay off src dst) = src"
  by (simp add: overlay_def seg_def)

lemma take_overlay_all:
  "off \<le> length dst \<Longrightarrow> take (off + length src) (overlay off src dst) = take off dst @ src"
  by (simp add: overlay_def)

lemma overlay_0: "overlay 0 src dst = src @ drop (length src) dst"
  by (simp add: overlay_def)

lemma seg_overlay_before: "off' + n \<le> off \<Longrightarrow> off \<le> length dst \<Longrightarrow> seg off' n (overlay off src dst) = seg off' n dst"
  by (simp add: overlay_def seg_def drop_take min_absorb1)

lemma seg_overlay_after:
  "off + length src \<le> off' \<Longrightarrow> off \<le> length dst \<Longrightarrow> seg off' n (overlay off src dst) = seg off' n dst"
  by (simp add: overlay_def seg_def)

lemma length_realloc: "realloc h old n = Some new \<Longrightarrow> length new = n"
  by (auto simp: realloc_def split: if_splits)

lemma take_realloc: "realloc h old n = Some new \<Longrightarrow> k \<le> n \<Longrightarrow> k \<le> length old \<Longrightarrow> take k new = take k old"
  by (auto simp: realloc_def split: if_splits)

lemma length_malloc: "malloc h n = Some new \<Longrightarrow> length new = n"
  by (simp add: malloc_def length_realloc)

lemma length_calloc: "calloc h n = Some new \<Longrightarrow> length new = n"
  by (auto simp: calloc_def split: if_splits)

lemma c_str_stop: "list_all (\<lambda>c. c \<noteq> 0) xs \<Longrightarrow> c_str (xs @ 0 # ys) = xs"
  by (induction xs) (auto simp: c_str_def)

lemma c_str_no_nul: "list_all (\<lambda>c. c \<noteq> 0) (take k (c_str s))"
  by (auto simp: c_str_def list_all_iff dest!: in_set_takeD set_takeWhileD)

lemma c_str_c_str [simp]: "c_str (c_str s) = c_str s"
  by (simp add: c_str_def)

lemma c_str_append_zeros: "c_str (c_str s @ replicate n 0) = c_str s"
  by (cases n) (auto simp: c_str_stop c_str_no_nul [of "length (c_str s)" s, simplified])

lemma c_str_take: "c_str (take n s) = take n (c_str s)"
proof (induction s arbitrary: n)
  case (Cons c s)
  then show ?case by (cases n) (auto simp: c_str_def)
qed (simp add: c_str_def)

lemma c_str_strncpy: "c_str (strncpy k n) = take n (c_str k)"
  by (simp only: strncpy_def c_str_take c_str_append_zeros)

lemma strncpy_strncpy [simp]: "strncpy (strncpy k n) n = strncpy k n"
  unfolding strncpy_def [of "strncpy k n"] c_str_strncpy by (simp add: strncpy_def min_def)

lemma length_strncpy [simp]: "length (strncpy s n) = n"
  by (simp add: strncpy_def)

subsection \<open>32-bit arithmetic without wrap-around\<close>

lemma unat_add_u32 [word_nat]:
  "unat (a :: u32) + unat b < 2 ^ 32 \<Longrightarrow> unat (a + b) = unat a + unat b"
  by (simp add: unat_word_ariths)

lemma unat_sub_u32 [word_nat]: "b \<le> a \<Longrightarrow> unat ((a :: u32) - b) = unat a - unat b"
  by (simp add: unat_sub)

lemma unat_of_nat_u32 [word_nat]: "n < 2 ^ 32 \<Longrightarrow> unat (of_nat n :: u32) = n"
  by (simp add: unat_of_nat)

lemma of_nat_unat_u32 [simp]: "of_nat (unat (a :: u32)) = a"
  by simp

lemma c_int_small: "n < 2 ^ 31 \<Longrightarrow> c_int n = int n"
  by (simp add: c_int_def signed_of_nat signed_take_bit_eq_if_positive bit_iff_odd take_bit_int_eq_self)

end
