(* ===== verification/Proto_Const.thy ===== *)
theory Proto_Const
  imports Prelude
begin

text \<open>
  The build targets of the library and the constants of \<open>proto.h\<close>.

  The \<open>#if\<close> chains of \<open>proto.h\<close>, \<open>proto.c\<close>, \<open>srpc.h\<close>, \<open>srpc.c\<close> and \<open>lck.c\<close> select constants by
  predefined macros.  A \<open>target\<close> is one combination of those macros that a supported build
  defines; each chain is a function on targets.  A \<open>build\<close> adds the width of \<open>size_t\<close>, on which
  the arithmetic of \<open>VALID_SIZE\<close> depends.

  \<^item> \<open>AVR\<close>: Arduino Mega (\<open>__AVR__\<close>, \<open>ARDUINO\<close>, \<open>ARDUINO_ARCH_AVR\<close>).
  \<^item> \<open>ARDUINO_ESP\<close>: Arduino on ESP8266 or ESP32 (\<open>ARDUINO\<close>, \<open>ARDUINO_ARCH_ESP..\<close>, \<open>ESP..\<close>).
  \<^item> \<open>ESP8266_SDK\<close>: the non-OS SDK (\<open>ESP8266\<close> only).
  \<^item> \<open>DEVICE\<close>: every other device build, ESP-IDF and Linux (\<open>SUPLA_DEVICE\<close>).
  \<^item> \<open>OTHER\<close>: none of these macros, the server and client side of the protocol.
\<close>

section \<open>Targets\<close>

datatype target = AVR | ARDUINO_ESP | ESP8266_SDK | DEVICE | OTHER

record build =
  target :: target
  size_t_bits :: nat

fun SUPLA_MAX_DATA_SIZE :: "target \<Rightarrow> nat" where
  "SUPLA_MAX_DATA_SIZE AVR = 600"
| "SUPLA_MAX_DATA_SIZE ARDUINO_ESP = 600"
| "SUPLA_MAX_DATA_SIZE DEVICE = 600"
| "SUPLA_MAX_DATA_SIZE ESP8266_SDK = 1536"
| "SUPLA_MAX_DATA_SIZE OTHER = 10240"

fun SUPLA_CHANNELEXTENDEDVALUE_SIZE :: "target \<Rightarrow> nat" where
  "SUPLA_CHANNELEXTENDEDVALUE_SIZE OTHER = 1024"
| "SUPLA_CHANNELEXTENDEDVALUE_SIZE _ = 256"

fun EM_MEASUREMENT_COUNT :: "target \<Rightarrow> nat" where
  "EM_MEASUREMENT_COUNT OTHER = 5"
| "EM_MEASUREMENT_COUNT _ = 1"

definition SUPLA_CHANNELEXTENDEDVALUE_PACK_MAXDATASIZE :: "target \<Rightarrow> nat" where
  "SUPLA_CHANNELEXTENDEDVALUE_PACK_MAXDATASIZE t = SUPLA_MAX_DATA_SIZE t - 50"

text \<open>Buffer bounds of \<open>proto.c\<close>.\<close>

fun BUFFER_MIN_SIZE :: "target \<Rightarrow> nat" where
  "BUFFER_MIN_SIZE AVR = 32"
| "BUFFER_MIN_SIZE OTHER = 0"
| "BUFFER_MIN_SIZE _ = 512"

fun BUFFER_MAX_SIZE :: "target \<Rightarrow> nat" where
  "BUFFER_MAX_SIZE AVR = 1024"
| "BUFFER_MAX_SIZE OTHER = 131072"
| "BUFFER_MAX_SIZE _ = 2048"

text \<open>Buffer, queue and feature selection of \<open>srpc.c\<close>, \<open>srpc.h\<close> and \<open>lck.c\<close>.\<close>

fun SRPC_BUFFER_SIZE :: "target \<Rightarrow> nat" where
  "SRPC_BUFFER_SIZE ARDUINO_ESP = 256"
| "SRPC_BUFFER_SIZE ESP8266_SDK = 256"
| "SRPC_BUFFER_SIZE AVR = 32"
| "SRPC_BUFFER_SIZE DEVICE = 1024"
| "SRPC_BUFFER_SIZE OTHER = 32768"

fun SRPC_QUEUE_SIZE :: "target \<Rightarrow> nat" where
  "SRPC_QUEUE_SIZE ARDUINO_ESP = 2"
| "SRPC_QUEUE_SIZE ESP8266_SDK = 2"
| "SRPC_QUEUE_SIZE AVR = 1"
| "SRPC_QUEUE_SIZE _ = 10"

fun SRPC_QUEUE_MIN_ALLOC_COUNT :: "target \<Rightarrow> nat" where
  "SRPC_QUEUE_MIN_ALLOC_COUNT ARDUINO_ESP = 2"
| "SRPC_QUEUE_MIN_ALLOC_COUNT ESP8266_SDK = 2"
| "SRPC_QUEUE_MIN_ALLOC_COUNT AVR = 1"
| "SRPC_QUEUE_MIN_ALLOC_COUNT _ = 0"

text \<open>\<open>SRPC_WITHOUT_IN_QUEUE\<close> and \<open>SRPC_WITHOUT_OUT_QUEUE\<close> are always defined together.\<close>

fun srpc_without_queues :: "target \<Rightarrow> bool" where
  "srpc_without_queues ESP8266_SDK = False"
| "srpc_without_queues OTHER = False"
| "srpc_without_queues _ = True"

definition SRPC_EXCLUDE_CLIENT :: "target \<Rightarrow> bool" where
  "SRPC_EXCLUDE_CLIENT t \<longleftrightarrow> t \<noteq> OTHER"

definition EH_DISABLED :: "target \<Rightarrow> bool" where
  "EH_DISABLED t \<longleftrightarrow> t \<noteq> OTHER"

fun single_thread :: "target \<Rightarrow> bool" where
  "single_thread ESP8266_SDK = False"
| "single_thread OTHER = False"
| "single_thread _ = True"

section \<open>Protocol version, tag and results\<close>

definition SUPLA_PROTO_VERSION :: nat where
  [const_defs]: "SUPLA_PROTO_VERSION = 28"

definition SUPLA_PROTO_VERSION_MIN :: nat where
  [const_defs]: "SUPLA_PROTO_VERSION_MIN = 1"

definition sproto_tag :: bytes where
  "sproto_tag = [0x53, 0x55, 0x50, 0x4C, 0x41]"

definition SUPLA_RESULT_DATA_TOO_LARGE :: int where
  [simp]: "SUPLA_RESULT_DATA_TOO_LARGE = -4"

definition SUPLA_RESULT_BUFFER_OVERFLOW :: int where
  [simp]: "SUPLA_RESULT_BUFFER_OVERFLOW = -3"

definition SUPLA_RESULT_DATA_ERROR :: int where
  [simp]: "SUPLA_RESULT_DATA_ERROR = -2"

definition SUPLA_RESULT_VERSION_ERROR :: int where
  [simp]: "SUPLA_RESULT_VERSION_ERROR = -1"

definition SUPLA_RESULT_FALSE :: int where
  [simp]: "SUPLA_RESULT_FALSE = 0"

definition SUPLA_RESULT_TRUE :: int where
  [simp]: "SUPLA_RESULT_TRUE = 1"

section \<open>Sizes\<close>

definition SUPLA_TAG_SIZE :: nat where
  [const_defs]: "SUPLA_TAG_SIZE = 5"

definition SUPLA_SOFTVER_MAXSIZE :: nat where
  [const_defs]: "SUPLA_SOFTVER_MAXSIZE = 21"

definition SUPLA_CAPTION_MAXSIZE :: nat where
  [const_defs]: "SUPLA_CAPTION_MAXSIZE = 401"

definition SUPLA_GUID_SIZE :: nat where
  [const_defs]: "SUPLA_GUID_SIZE = 16"

definition SUPLA_GUID_HEXSIZE :: nat where
  [const_defs]: "SUPLA_GUID_HEXSIZE = 33"

definition SUPLA_LOCATION_PWD_MAXSIZE :: nat where
  [const_defs]: "SUPLA_LOCATION_PWD_MAXSIZE = 33"

definition SUPLA_ACCESSID_PWD_MAXSIZE :: nat where
  [const_defs]: "SUPLA_ACCESSID_PWD_MAXSIZE = 33"

definition SUPLA_LOCATION_CAPTION_MAXSIZE :: nat where
  [const_defs]: "SUPLA_LOCATION_CAPTION_MAXSIZE = SUPLA_CAPTION_MAXSIZE"

definition SUPLA_LOCATIONPACK_MAXCOUNT :: nat where
  [const_defs]: "SUPLA_LOCATIONPACK_MAXCOUNT = 20"

definition SUPLA_CHANNEL_CAPTION_MAXSIZE :: nat where
  [const_defs]: "SUPLA_CHANNEL_CAPTION_MAXSIZE = SUPLA_CAPTION_MAXSIZE"

definition SUPLA_CHANNELPACK_MAXCOUNT :: nat where
  [const_defs]: "SUPLA_CHANNELPACK_MAXCOUNT = 20"

definition SUPLA_URL_HOST_MAXSIZE :: nat where
  [const_defs]: "SUPLA_URL_HOST_MAXSIZE = 101"

definition SUPLA_URL_PATH_MAXSIZE :: nat where
  [const_defs]: "SUPLA_URL_PATH_MAXSIZE = 101"

definition SUPLA_SERVER_NAME_MAXSIZE :: nat where
  [const_defs]: "SUPLA_SERVER_NAME_MAXSIZE = 65"

definition SUPLA_EMAIL_MAXSIZE :: nat where
  [const_defs]: "SUPLA_EMAIL_MAXSIZE = 256"

definition SUPLA_PASSWORD_MAXSIZE :: nat where
  [const_defs]: "SUPLA_PASSWORD_MAXSIZE = 64"

definition SUPLA_AUTHKEY_SIZE :: nat where
  [const_defs]: "SUPLA_AUTHKEY_SIZE = 16"

definition SUPLA_AUTHKEY_HEXSIZE :: nat where
  [const_defs]: "SUPLA_AUTHKEY_HEXSIZE = 33"

definition SUPLA_OAUTH_TOKEN_MAXSIZE :: nat where
  [const_defs]: "SUPLA_OAUTH_TOKEN_MAXSIZE = 256"

definition SUPLA_CHANNELGROUP_PACK_MAXCOUNT :: nat where
  [const_defs]: "SUPLA_CHANNELGROUP_PACK_MAXCOUNT = 20"

definition SUPLA_CHANNELGROUP_CAPTION_MAXSIZE :: nat where
  [const_defs]: "SUPLA_CHANNELGROUP_CAPTION_MAXSIZE = 401"

definition SUPLA_CHANNELVALUE_PACK_MAXCOUNT :: nat where
  [const_defs]: "SUPLA_CHANNELVALUE_PACK_MAXCOUNT = 20"

definition SUPLA_CHANNELEXTENDEDVALUE_PACK_MAXCOUNT :: nat where
  [const_defs]: "SUPLA_CHANNELEXTENDEDVALUE_PACK_MAXCOUNT = 5"

definition SUPLA_CALCFG_DATA_MAXSIZE :: nat where
  [const_defs]: "SUPLA_CALCFG_DATA_MAXSIZE = 128"

definition SUPLA_TIMEZONE_MAXSIZE :: nat where
  [const_defs]: "SUPLA_TIMEZONE_MAXSIZE = 51"

definition SUPLA_ACTION_PARAM_MAXSIZE :: nat where
  [const_defs]: "SUPLA_ACTION_PARAM_MAXSIZE = 500"

definition SUPLA_CHANNELGROUP_RELATION_PACK_MAXCOUNT :: nat where
  [const_defs]: "SUPLA_CHANNELGROUP_RELATION_PACK_MAXCOUNT = 100"

definition SUPLA_SCENE_CAPTION_MAXSIZE :: nat where
  [const_defs]: "SUPLA_SCENE_CAPTION_MAXSIZE = SUPLA_CAPTION_MAXSIZE"

definition SUPLA_SCENE_PACK_MAXCOUNT :: nat where
  [const_defs]: "SUPLA_SCENE_PACK_MAXCOUNT = 20"

definition SUPLA_SCENE_STATE_PACK_MAXCOUNT :: nat where
  [const_defs]: "SUPLA_SCENE_STATE_PACK_MAXCOUNT = 20"

definition SUPLA_CHANNEL_RELATION_PACK_MAXCOUNT :: nat where
  [const_defs]: "SUPLA_CHANNEL_RELATION_PACK_MAXCOUNT = 100"

definition SUPLA_CHANNEL_STATE_PACK_MAXCOUNT :: nat where
  [const_defs]: "SUPLA_CHANNEL_STATE_PACK_MAXCOUNT = 20"

definition SUPLA_DEVICE_NAME_MAXSIZE :: nat where
  [const_defs]: "SUPLA_DEVICE_NAME_MAXSIZE = 201"

definition SUPLA_CLIENT_NAME_MAXSIZE :: nat where
  [const_defs]: "SUPLA_CLIENT_NAME_MAXSIZE = 201"

definition SUPLA_SENDER_NAME_MAXSIZE :: nat where
  [const_defs]: "SUPLA_SENDER_NAME_MAXSIZE = 201"

definition SUPLA_INITIATOR_NAME_MAXSIZE :: nat where
  [const_defs]: "SUPLA_INITIATOR_NAME_MAXSIZE = SUPLA_SENDER_NAME_MAXSIZE"

definition SUPLA_CHANNELMAXCOUNT :: nat where
  [const_defs]: "SUPLA_CHANNELMAXCOUNT = 128"

definition SUPLA_CHANNELVALUE_SIZE :: nat where
  [const_defs]: "SUPLA_CHANNELVALUE_SIZE = 8"

definition CHANNEL_REPORT_MAXSIZE :: nat where
  [const_defs]: "CHANNEL_REPORT_MAXSIZE = 256"

definition SUPLA_CHANNEL_CONFIG_MAXSIZE :: nat where
  [const_defs]: "SUPLA_CHANNEL_CONFIG_MAXSIZE = 512"

definition SUPLA_DEVICE_CONFIG_MAXSIZE :: nat where
  [const_defs]: "SUPLA_DEVICE_CONFIG_MAXSIZE = 512"

definition SUPLA_PN_TITLE_MAXSIZE :: nat where
  [const_defs]: "SUPLA_PN_TITLE_MAXSIZE = 101"

definition SUPLA_PN_BODY_MAXSIZE :: nat where
  [const_defs]: "SUPLA_PN_BODY_MAXSIZE = 256"

definition SUPLA_PN_PROFILE_NAME_MAXSIZE :: nat where
  [const_defs]: "SUPLA_PN_PROFILE_NAME_MAXSIZE = 51"

definition SUPLA_SUBDEVICE_PRODUCT_CODE_MAXSIZE :: nat where
  [const_defs]: "SUPLA_SUBDEVICE_PRODUCT_CODE_MAXSIZE = 51"

definition SUPLA_SUBDEVICE_SERIAL_NUMBER_MAXSIZE :: nat where
  [const_defs]: "SUPLA_SUBDEVICE_SERIAL_NUMBER_MAXSIZE = 51"

definition SUPLA_PN_CLIENT_TOKEN_MAXSIZE :: nat where
  [const_defs]: "SUPLA_PN_CLIENT_TOKEN_MAXSIZE = 256"

section \<open>Call identifiers\<close>

definition SUPLA_DCS_CALL_GETVERSION :: u32 where
  [const_defs]: "SUPLA_DCS_CALL_GETVERSION = 10"

definition SUPLA_SDC_CALL_GETVERSION_RESULT :: u32 where
  [const_defs]: "SUPLA_SDC_CALL_GETVERSION_RESULT = 20"

definition SUPLA_SDC_CALL_VERSIONERROR :: u32 where
  [const_defs]: "SUPLA_SDC_CALL_VERSIONERROR = 30"

definition SUPLA_DCS_CALL_PING_SERVER :: u32 where
  [const_defs]: "SUPLA_DCS_CALL_PING_SERVER = 40"

definition SUPLA_SDC_CALL_PING_SERVER_RESULT :: u32 where
  [const_defs]: "SUPLA_SDC_CALL_PING_SERVER_RESULT = 50"

definition SUPLA_DS_CALL_REGISTER_DEVICE :: u32 where
  [const_defs]: "SUPLA_DS_CALL_REGISTER_DEVICE = 60"

definition SUPLA_DS_CALL_REGISTER_DEVICE_B :: u32 where
  [const_defs]: "SUPLA_DS_CALL_REGISTER_DEVICE_B = 65"

definition SUPLA_DS_CALL_REGISTER_DEVICE_C :: u32 where
  [const_defs]: "SUPLA_DS_CALL_REGISTER_DEVICE_C = 67"

definition SUPLA_DS_CALL_REGISTER_DEVICE_D :: u32 where
  [const_defs]: "SUPLA_DS_CALL_REGISTER_DEVICE_D = 68"

definition SUPLA_DS_CALL_REGISTER_DEVICE_E :: u32 where
  [const_defs]: "SUPLA_DS_CALL_REGISTER_DEVICE_E = 69"

definition SUPLA_SD_CALL_REGISTER_DEVICE_RESULT :: u32 where
  [const_defs]: "SUPLA_SD_CALL_REGISTER_DEVICE_RESULT = 70"

definition SUPLA_SD_CALL_REGISTER_DEVICE_RESULT_B :: u32 where
  [const_defs]: "SUPLA_SD_CALL_REGISTER_DEVICE_RESULT_B = 71"

definition SUPLA_DS_CALL_REGISTER_DEVICE_F :: u32 where
  [const_defs]: "SUPLA_DS_CALL_REGISTER_DEVICE_F = 75"

definition SUPLA_DS_CALL_REGISTER_DEVICE_G :: u32 where
  [const_defs]: "SUPLA_DS_CALL_REGISTER_DEVICE_G = 76"

definition SUPLA_CS_CALL_REGISTER_CLIENT :: u32 where
  [const_defs]: "SUPLA_CS_CALL_REGISTER_CLIENT = 80"

definition SUPLA_CS_CALL_REGISTER_CLIENT_B :: u32 where
  [const_defs]: "SUPLA_CS_CALL_REGISTER_CLIENT_B = 85"

definition SUPLA_CS_CALL_REGISTER_CLIENT_C :: u32 where
  [const_defs]: "SUPLA_CS_CALL_REGISTER_CLIENT_C = 86"

definition SUPLA_CS_CALL_REGISTER_CLIENT_D :: u32 where
  [const_defs]: "SUPLA_CS_CALL_REGISTER_CLIENT_D = 87"

definition SUPLA_SC_CALL_REGISTER_CLIENT_RESULT :: u32 where
  [const_defs]: "SUPLA_SC_CALL_REGISTER_CLIENT_RESULT = 90"

definition SUPLA_SC_CALL_REGISTER_CLIENT_RESULT_B :: u32 where
  [const_defs]: "SUPLA_SC_CALL_REGISTER_CLIENT_RESULT_B = 92"

definition SUPLA_SC_CALL_REGISTER_CLIENT_RESULT_C :: u32 where
  [const_defs]: "SUPLA_SC_CALL_REGISTER_CLIENT_RESULT_C = 94"

definition SUPLA_SC_CALL_REGISTER_CLIENT_RESULT_D :: u32 where
  [const_defs]: "SUPLA_SC_CALL_REGISTER_CLIENT_RESULT_D = 96"

definition SUPLA_DS_CALL_DEVICE_CHANNEL_VALUE_CHANGED :: u32 where
  [const_defs]: "SUPLA_DS_CALL_DEVICE_CHANNEL_VALUE_CHANGED = 100"

definition SUPLA_DS_CALL_DEVICE_CHANNEL_VALUE_CHANGED_B :: u32 where
  [const_defs]: "SUPLA_DS_CALL_DEVICE_CHANNEL_VALUE_CHANGED_B = 102"

definition SUPLA_DS_CALL_DEVICE_CHANNEL_VALUE_CHANGED_C :: u32 where
  [const_defs]: "SUPLA_DS_CALL_DEVICE_CHANNEL_VALUE_CHANGED_C = 103"

definition SUPLA_DS_CALL_DEVICE_CHANNEL_EXTENDEDVALUE_CHANGED :: u32 where
  [const_defs]: "SUPLA_DS_CALL_DEVICE_CHANNEL_EXTENDEDVALUE_CHANGED = 105"

definition SUPLA_SD_CALL_CHANNEL_SET_VALUE :: u32 where
  [const_defs]: "SUPLA_SD_CALL_CHANNEL_SET_VALUE = 110"

definition SUPLA_SD_CALL_CHANNELGROUP_SET_VALUE :: u32 where
  [const_defs]: "SUPLA_SD_CALL_CHANNELGROUP_SET_VALUE = 115"

definition SUPLA_DS_CALL_CHANNEL_SET_VALUE_RESULT :: u32 where
  [const_defs]: "SUPLA_DS_CALL_CHANNEL_SET_VALUE_RESULT = 120"

definition SUPLA_SC_CALL_LOCATION_UPDATE :: u32 where
  [const_defs]: "SUPLA_SC_CALL_LOCATION_UPDATE = 130"

definition SUPLA_SC_CALL_LOCATIONPACK_UPDATE :: u32 where
  [const_defs]: "SUPLA_SC_CALL_LOCATIONPACK_UPDATE = 140"

definition SUPLA_SC_CALL_CHANNELPACK_UPDATE :: u32 where
  [const_defs]: "SUPLA_SC_CALL_CHANNELPACK_UPDATE = 160"

definition SUPLA_SC_CALL_CHANNEL_VALUE_UPDATE :: u32 where
  [const_defs]: "SUPLA_SC_CALL_CHANNEL_VALUE_UPDATE = 170"

definition SUPLA_SC_CALL_CHANNEL_VALUE_UPDATE_B :: u32 where
  [const_defs]: "SUPLA_SC_CALL_CHANNEL_VALUE_UPDATE_B = 171"

definition SUPLA_CS_CALL_GET_NEXT :: u32 where
  [const_defs]: "SUPLA_CS_CALL_GET_NEXT = 180"

definition SUPLA_SC_CALL_EVENT :: u32 where
  [const_defs]: "SUPLA_SC_CALL_EVENT = 190"

definition SUPLA_CS_CALL_CHANNEL_SET_VALUE :: u32 where
  [const_defs]: "SUPLA_CS_CALL_CHANNEL_SET_VALUE = 200"

definition SUPLA_CS_CALL_CHANNEL_SET_VALUE_B :: u32 where
  [const_defs]: "SUPLA_CS_CALL_CHANNEL_SET_VALUE_B = 205"

definition SUPLA_DCS_CALL_SET_ACTIVITY_TIMEOUT :: u32 where
  [const_defs]: "SUPLA_DCS_CALL_SET_ACTIVITY_TIMEOUT = 210"

definition SUPLA_SDC_CALL_SET_ACTIVITY_TIMEOUT_RESULT :: u32 where
  [const_defs]: "SUPLA_SDC_CALL_SET_ACTIVITY_TIMEOUT_RESULT = 220"

definition SUPLA_DS_CALL_GET_FIRMWARE_UPDATE_URL :: u32 where
  [const_defs]: "SUPLA_DS_CALL_GET_FIRMWARE_UPDATE_URL = 300"

definition SUPLA_SD_CALL_GET_FIRMWARE_UPDATE_URL_RESULT :: u32 where
  [const_defs]: "SUPLA_SD_CALL_GET_FIRMWARE_UPDATE_URL_RESULT = 310"

definition SUPLA_DCS_CALL_GET_REGISTRATION_ENABLED :: u32 where
  [const_defs]: "SUPLA_DCS_CALL_GET_REGISTRATION_ENABLED = 320"

definition SUPLA_SDC_CALL_GET_REGISTRATION_ENABLED_RESULT :: u32 where
  [const_defs]: "SUPLA_SDC_CALL_GET_REGISTRATION_ENABLED_RESULT = 330"

definition SUPLA_CS_CALL_OAUTH_TOKEN_REQUEST :: u32 where
  [const_defs]: "SUPLA_CS_CALL_OAUTH_TOKEN_REQUEST = 340"

definition SUPLA_SC_CALL_OAUTH_TOKEN_REQUEST_RESULT :: u32 where
  [const_defs]: "SUPLA_SC_CALL_OAUTH_TOKEN_REQUEST_RESULT = 350"

definition SUPLA_SC_CALL_CHANNELPACK_UPDATE_B :: u32 where
  [const_defs]: "SUPLA_SC_CALL_CHANNELPACK_UPDATE_B = 360"

definition SUPLA_SC_CALL_CHANNELPACK_UPDATE_C :: u32 where
  [const_defs]: "SUPLA_SC_CALL_CHANNELPACK_UPDATE_C = 361"

definition SUPLA_SC_CALL_CHANNELPACK_UPDATE_D :: u32 where
  [const_defs]: "SUPLA_SC_CALL_CHANNELPACK_UPDATE_D = 362"

definition SUPLA_SC_CALL_CHANNELPACK_UPDATE_E :: u32 where
  [const_defs]: "SUPLA_SC_CALL_CHANNELPACK_UPDATE_E = 363"

definition SUPLA_SC_CALL_CHANNELGROUP_PACK_UPDATE :: u32 where
  [const_defs]: "SUPLA_SC_CALL_CHANNELGROUP_PACK_UPDATE = 380"

definition SUPLA_SC_CALL_CHANNELGROUP_PACK_UPDATE_B :: u32 where
  [const_defs]: "SUPLA_SC_CALL_CHANNELGROUP_PACK_UPDATE_B = 381"

definition SUPLA_SC_CALL_CHANNELGROUP_RELATION_PACK_UPDATE :: u32 where
  [const_defs]: "SUPLA_SC_CALL_CHANNELGROUP_RELATION_PACK_UPDATE = 390"

definition SUPLA_SC_CALL_CHANNEL_RELATION_PACK_UPDATE :: u32 where
  [const_defs]: "SUPLA_SC_CALL_CHANNEL_RELATION_PACK_UPDATE = 395"

definition SUPLA_SC_CALL_CHANNELVALUE_PACK_UPDATE :: u32 where
  [const_defs]: "SUPLA_SC_CALL_CHANNELVALUE_PACK_UPDATE = 400"

definition SUPLA_SC_CALL_CHANNELVALUE_PACK_UPDATE_B :: u32 where
  [const_defs]: "SUPLA_SC_CALL_CHANNELVALUE_PACK_UPDATE_B = 401"

definition SUPLA_SC_CALL_CHANNELEXTENDEDVALUE_PACK_UPDATE :: u32 where
  [const_defs]: "SUPLA_SC_CALL_CHANNELEXTENDEDVALUE_PACK_UPDATE = 405"

definition SUPLA_SC_CALL_CHANNEL_STATE_PACK_UPDATE :: u32 where
  [const_defs]: "SUPLA_SC_CALL_CHANNEL_STATE_PACK_UPDATE = 408"

definition SUPLA_CS_CALL_SET_VALUE :: u32 where
  [const_defs]: "SUPLA_CS_CALL_SET_VALUE = 410"

definition SUPLA_CS_CALL_SUPERUSER_AUTHORIZATION_REQUEST :: u32 where
  [const_defs]: "SUPLA_CS_CALL_SUPERUSER_AUTHORIZATION_REQUEST = 420"

definition SUPLA_CS_CALL_GET_SUPERUSER_AUTHORIZATION_RESULT :: u32 where
  [const_defs]: "SUPLA_CS_CALL_GET_SUPERUSER_AUTHORIZATION_RESULT = 425"

definition SUPLA_SC_CALL_SUPERUSER_AUTHORIZATION_RESULT :: u32 where
  [const_defs]: "SUPLA_SC_CALL_SUPERUSER_AUTHORIZATION_RESULT = 430"

definition SUPLA_CS_CALL_DEVICE_CALCFG_REQUEST :: u32 where
  [const_defs]: "SUPLA_CS_CALL_DEVICE_CALCFG_REQUEST = 440"

definition SUPLA_CS_CALL_DEVICE_CALCFG_REQUEST_B :: u32 where
  [const_defs]: "SUPLA_CS_CALL_DEVICE_CALCFG_REQUEST_B = 445"

definition SUPLA_SC_CALL_DEVICE_CALCFG_RESULT :: u32 where
  [const_defs]: "SUPLA_SC_CALL_DEVICE_CALCFG_RESULT = 450"

definition SUPLA_SD_CALL_DEVICE_CALCFG_REQUEST :: u32 where
  [const_defs]: "SUPLA_SD_CALL_DEVICE_CALCFG_REQUEST = 460"

definition SUPLA_DS_CALL_DEVICE_CALCFG_RESULT :: u32 where
  [const_defs]: "SUPLA_DS_CALL_DEVICE_CALCFG_RESULT = 470"

definition SUPLA_DCS_CALL_GET_USER_LOCALTIME :: u32 where
  [const_defs]: "SUPLA_DCS_CALL_GET_USER_LOCALTIME = 480"

definition SUPLA_DCS_CALL_GET_USER_LOCALTIME_RESULT :: u32 where
  [const_defs]: "SUPLA_DCS_CALL_GET_USER_LOCALTIME_RESULT = 490"

definition SUPLA_CSD_CALL_GET_CHANNEL_STATE :: u32 where
  [const_defs]: "SUPLA_CSD_CALL_GET_CHANNEL_STATE = 500"

definition SUPLA_DSC_CALL_CHANNEL_STATE_RESULT :: u32 where
  [const_defs]: "SUPLA_DSC_CALL_CHANNEL_STATE_RESULT = 510"

definition SUPLA_CS_CALL_GET_CHANNEL_BASIC_CFG :: u32 where
  [const_defs]: "SUPLA_CS_CALL_GET_CHANNEL_BASIC_CFG = 520"

definition SUPLA_SC_CALL_CHANNEL_BASIC_CFG_RESULT :: u32 where
  [const_defs]: "SUPLA_SC_CALL_CHANNEL_BASIC_CFG_RESULT = 530"

definition SUPLA_CS_CALL_SET_CHANNEL_FUNCTION :: u32 where
  [const_defs]: "SUPLA_CS_CALL_SET_CHANNEL_FUNCTION = 540"

definition SUPLA_SC_CALL_SET_CHANNEL_FUNCTION_RESULT :: u32 where
  [const_defs]: "SUPLA_SC_CALL_SET_CHANNEL_FUNCTION_RESULT = 550"

definition SUPLA_CS_CALL_CLIENTS_RECONNECT_REQUEST :: u32 where
  [const_defs]: "SUPLA_CS_CALL_CLIENTS_RECONNECT_REQUEST = 560"

definition SUPLA_SC_CALL_CLIENTS_RECONNECT_REQUEST_RESULT :: u32 where
  [const_defs]: "SUPLA_SC_CALL_CLIENTS_RECONNECT_REQUEST_RESULT = 570"

definition SUPLA_CS_CALL_SET_REGISTRATION_ENABLED :: u32 where
  [const_defs]: "SUPLA_CS_CALL_SET_REGISTRATION_ENABLED = 580"

definition SUPLA_SC_CALL_SET_REGISTRATION_ENABLED_RESULT :: u32 where
  [const_defs]: "SUPLA_SC_CALL_SET_REGISTRATION_ENABLED_RESULT = 590"

definition SUPLA_CS_CALL_DEVICE_RECONNECT_REQUEST :: u32 where
  [const_defs]: "SUPLA_CS_CALL_DEVICE_RECONNECT_REQUEST = 600"

definition SUPLA_SC_CALL_DEVICE_RECONNECT_REQUEST_RESULT :: u32 where
  [const_defs]: "SUPLA_SC_CALL_DEVICE_RECONNECT_REQUEST_RESULT = 610"

definition SUPLA_DS_CALL_GET_CHANNEL_FUNCTIONS :: u32 where
  [const_defs]: "SUPLA_DS_CALL_GET_CHANNEL_FUNCTIONS = 620"

definition SUPLA_SD_CALL_GET_CHANNEL_FUNCTIONS_RESULT :: u32 where
  [const_defs]: "SUPLA_SD_CALL_GET_CHANNEL_FUNCTIONS_RESULT = 630"

definition SUPLA_DCS_CALL_SET_CHANNEL_CAPTION :: u32 where
  [const_defs]: "SUPLA_DCS_CALL_SET_CHANNEL_CAPTION = 640"

definition SUPLA_SCD_CALL_SET_CHANNEL_CAPTION_RESULT :: u32 where
  [const_defs]: "SUPLA_SCD_CALL_SET_CHANNEL_CAPTION_RESULT = 650"

definition SUPLA_CS_CALL_SET_CHANNEL_GROUP_CAPTION :: u32 where
  [const_defs]: "SUPLA_CS_CALL_SET_CHANNEL_GROUP_CAPTION = 642"

definition SUPLA_SC_CALL_SET_CHANNEL_GROUP_CAPTION_RESULT :: u32 where
  [const_defs]: "SUPLA_SC_CALL_SET_CHANNEL_GROUP_CAPTION_RESULT = 652"

definition SUPLA_CS_CALL_SET_LOCATION_CAPTION :: u32 where
  [const_defs]: "SUPLA_CS_CALL_SET_LOCATION_CAPTION = 645"

definition SUPLA_SC_CALL_SET_LOCATION_CAPTION_RESULT :: u32 where
  [const_defs]: "SUPLA_SC_CALL_SET_LOCATION_CAPTION_RESULT = 655"

definition SUPLA_DS_CALL_GET_CHANNEL_CONFIG :: u32 where
  [const_defs]: "SUPLA_DS_CALL_GET_CHANNEL_CONFIG = 680"

definition SUPLA_SD_CALL_GET_CHANNEL_CONFIG_RESULT :: u32 where
  [const_defs]: "SUPLA_SD_CALL_GET_CHANNEL_CONFIG_RESULT = 690"

definition SUPLA_DS_CALL_SET_CHANNEL_CONFIG :: u32 where
  [const_defs]: "SUPLA_DS_CALL_SET_CHANNEL_CONFIG = 681"

definition SUPLA_SD_CALL_SET_CHANNEL_CONFIG_RESULT :: u32 where
  [const_defs]: "SUPLA_SD_CALL_SET_CHANNEL_CONFIG_RESULT = 691"

definition SUPLA_SD_CALL_SET_CHANNEL_CONFIG :: u32 where
  [const_defs]: "SUPLA_SD_CALL_SET_CHANNEL_CONFIG = 682"

definition SUPLA_DS_CALL_SET_CHANNEL_CONFIG_RESULT :: u32 where
  [const_defs]: "SUPLA_DS_CALL_SET_CHANNEL_CONFIG_RESULT = 692"

definition SUPLA_SD_CALL_CHANNEL_CONFIG_FINISHED :: u32 where
  [const_defs]: "SUPLA_SD_CALL_CHANNEL_CONFIG_FINISHED = 683"

definition SUPLA_DS_CALL_SET_DEVICE_CONFIG :: u32 where
  [const_defs]: "SUPLA_DS_CALL_SET_DEVICE_CONFIG = 684"

definition SUPLA_SD_CALL_SET_DEVICE_CONFIG_RESULT :: u32 where
  [const_defs]: "SUPLA_SD_CALL_SET_DEVICE_CONFIG_RESULT = 694"

definition SUPLA_SD_CALL_SET_DEVICE_CONFIG :: u32 where
  [const_defs]: "SUPLA_SD_CALL_SET_DEVICE_CONFIG = 685"

definition SUPLA_DS_CALL_SET_DEVICE_CONFIG_RESULT :: u32 where
  [const_defs]: "SUPLA_DS_CALL_SET_DEVICE_CONFIG_RESULT = 695"

definition SUPLA_DS_CALL_ACTIONTRIGGER :: u32 where
  [const_defs]: "SUPLA_DS_CALL_ACTIONTRIGGER = 700"

definition SUPLA_CS_CALL_TIMER_ARM :: u32 where
  [const_defs]: "SUPLA_CS_CALL_TIMER_ARM = 800"

definition SUPLA_SC_CALL_SCENE_PACK_UPDATE :: u32 where
  [const_defs]: "SUPLA_SC_CALL_SCENE_PACK_UPDATE = 900"

definition SUPLA_SC_CALL_SCENE_STATE_PACK_UPDATE :: u32 where
  [const_defs]: "SUPLA_SC_CALL_SCENE_STATE_PACK_UPDATE = 910"

definition SUPLA_CS_CALL_EXECUTE_ACTION :: u32 where
  [const_defs]: "SUPLA_CS_CALL_EXECUTE_ACTION = 1000"

definition SUPLA_CS_CALL_EXECUTE_ACTION_WITH_AUTH :: u32 where
  [const_defs]: "SUPLA_CS_CALL_EXECUTE_ACTION_WITH_AUTH = 1010"

definition SUPLA_SC_CALL_ACTION_EXECUTION_RESULT :: u32 where
  [const_defs]: "SUPLA_SC_CALL_ACTION_EXECUTION_RESULT = 1020"

definition SUPLA_CS_CALL_GET_CHANNEL_VALUE_WITH_AUTH :: u32 where
  [const_defs]: "SUPLA_CS_CALL_GET_CHANNEL_VALUE_WITH_AUTH = 1030"

definition SUPLA_SC_CALL_GET_CHANNEL_VALUE_RESULT :: u32 where
  [const_defs]: "SUPLA_SC_CALL_GET_CHANNEL_VALUE_RESULT = 1040"

definition SUPLA_CS_CALL_SET_SCENE_CAPTION :: u32 where
  [const_defs]: "SUPLA_CS_CALL_SET_SCENE_CAPTION = 1045"

definition SUPLA_SC_CALL_SET_SCENE_CAPTION_RESULT :: u32 where
  [const_defs]: "SUPLA_SC_CALL_SET_SCENE_CAPTION_RESULT = 1055"

definition SUPLA_DS_CALL_REGISTER_PUSH_NOTIFICATION :: u32 where
  [const_defs]: "SUPLA_DS_CALL_REGISTER_PUSH_NOTIFICATION = 1100"

definition SUPLA_DS_CALL_SEND_PUSH_NOTIFICATION :: u32 where
  [const_defs]: "SUPLA_DS_CALL_SEND_PUSH_NOTIFICATION = 1110"

definition SUPLA_CS_CALL_REGISTER_PN_CLIENT_TOKEN :: u32 where
  [const_defs]: "SUPLA_CS_CALL_REGISTER_PN_CLIENT_TOKEN = 1120"

definition SUPLA_SC_CALL_REGISTER_PN_CLIENT_TOKEN_RESULT :: u32 where
  [const_defs]: "SUPLA_SC_CALL_REGISTER_PN_CLIENT_TOKEN_RESULT = 1121"

definition SUPLA_CS_CALL_GET_CHANNEL_CONFIG :: u32 where
  [const_defs]: "SUPLA_CS_CALL_GET_CHANNEL_CONFIG = 1200"

definition SUPLA_SC_CALL_CHANNEL_CONFIG_UPDATE_OR_RESULT :: u32 where
  [const_defs]: "SUPLA_SC_CALL_CHANNEL_CONFIG_UPDATE_OR_RESULT = 1210"

definition SUPLA_CS_CALL_SET_CHANNEL_CONFIG :: u32 where
  [const_defs]: "SUPLA_CS_CALL_SET_CHANNEL_CONFIG = 1220"

definition SUPLA_CS_CALL_GET_DEVICE_CONFIG :: u32 where
  [const_defs]: "SUPLA_CS_CALL_GET_DEVICE_CONFIG = 1240"

definition SUPLA_SC_CALL_DEVICE_CONFIG_UPDATE_OR_RESULT :: u32 where
  [const_defs]: "SUPLA_SC_CALL_DEVICE_CONFIG_UPDATE_OR_RESULT = 1250"

definition SUPLA_DS_CALL_SET_SUBDEVICE_DETAILS :: u32 where
  [const_defs]: "SUPLA_DS_CALL_SET_SUBDEVICE_DETAILS = 1260"

section \<open>Flags and extended value types\<close>

definition SUPLA_CHANNEL_OFFLINE_FLAG_OFFLINE :: u8 where
  [const_defs]: "SUPLA_CHANNEL_OFFLINE_FLAG_OFFLINE = 1"

definition SUPLA_CHANNEL_OFFLINE_FLAG_FIRMWARE_UPDATE_ONGOING :: u8 where
  [const_defs]: "SUPLA_CHANNEL_OFFLINE_FLAG_FIRMWARE_UPDATE_ONGOING = 4"

definition SUPLA_CHANNEL_OFFLINE_FLAG_MAX :: u8 where
  [const_defs]: "SUPLA_CHANNEL_OFFLINE_FLAG_MAX = SUPLA_CHANNEL_OFFLINE_FLAG_FIRMWARE_UPDATE_ONGOING"

definition EV_TYPE_NONE :: nat where
  [const_defs]: "EV_TYPE_NONE = 0"

definition EV_TYPE_ELECTRICITY_METER_MEASUREMENT_V1 :: nat where
  [const_defs]: "EV_TYPE_ELECTRICITY_METER_MEASUREMENT_V1 = 10"

definition EV_TYPE_ELECTRICITY_METER_MEASUREMENT_V2 :: nat where
  [const_defs]: "EV_TYPE_ELECTRICITY_METER_MEASUREMENT_V2 = 12"

definition EV_TYPE_ELECTRICITY_METER_MEASUREMENT_V3 :: nat where
  [const_defs]: "EV_TYPE_ELECTRICITY_METER_MEASUREMENT_V3 = 14"

definition EV_TYPE_IMPULSE_COUNTER_DETAILS_V1 :: nat where
  [const_defs]: "EV_TYPE_IMPULSE_COUNTER_DETAILS_V1 = 20"

definition EV_TYPE_THERMOSTAT_DETAILS_V1 :: nat where
  [const_defs]: "EV_TYPE_THERMOSTAT_DETAILS_V1 = 30"

definition EV_TYPE_MULTI_VALUE :: nat where
  [const_defs]: "EV_TYPE_MULTI_VALUE = 100"

definition EM_VAR_FORWARD_ACTIVE_ENERGY_BALANCED :: u32 where
  [const_defs]: "EM_VAR_FORWARD_ACTIVE_ENERGY_BALANCED = 8192"

definition EM_VAR_REVERSE_ACTIVE_ENERGY_BALANCED :: u32 where
  [const_defs]: "EM_VAR_REVERSE_ACTIVE_ENERGY_BALANCED = 16384"

definition EM_VAR_VOLTAGE_PHASE_ANGLE_12 :: u32 where
  [const_defs]: "EM_VAR_VOLTAGE_PHASE_ANGLE_12 = 65536"

definition EM_VAR_VOLTAGE_PHASE_ANGLE_13 :: u32 where
  [const_defs]: "EM_VAR_VOLTAGE_PHASE_ANGLE_13 = 131072"

definition EM_VAR_VOLTAGE_PHASE_SEQUENCE :: u32 where
  [const_defs]: "EM_VAR_VOLTAGE_PHASE_SEQUENCE = 262144"

definition EM_VAR_CURRENT_PHASE_SEQUENCE :: u32 where
  [const_defs]: "EM_VAR_CURRENT_PHASE_SEQUENCE = 524288"

definition THERMOSTAT_FIELD_MeasuredTemperatures :: u32 where
  [const_defs]: "THERMOSTAT_FIELD_MeasuredTemperatures = 1"

definition THERMOSTAT_FIELD_PresetTemperatures :: u32 where
  [const_defs]: "THERMOSTAT_FIELD_PresetTemperatures = 2"

definition THERMOSTAT_FIELD_Flags :: u32 where
  [const_defs]: "THERMOSTAT_FIELD_Flags = 4"

definition THERMOSTAT_FIELD_Values :: u32 where
  [const_defs]: "THERMOSTAT_FIELD_Values = 8"

definition THERMOSTAT_FIELD_Time :: u32 where
  [const_defs]: "THERMOSTAT_FIELD_Time = 16"

definition THERMOSTAT_FIELD_Schedule :: u32 where
  [const_defs]: "THERMOSTAT_FIELD_Schedule = 32"

section \<open>Lemmas\<close>

lemma length_sproto_tag [simp]: "length sproto_tag = 5"
  by (simp add: sproto_tag_def)

lemma SUPLA_TAG_SIZE_eq: "SUPLA_TAG_SIZE = 5"
  by (simp add: const_defs)

lemma SUPLA_MAX_DATA_SIZE_bounds: "600 \<le> SUPLA_MAX_DATA_SIZE t" "SUPLA_MAX_DATA_SIZE t \<le> 10240"
  by (cases t; simp)+

lemma BUFFER_bounds:
  "BUFFER_MIN_SIZE t \<le> 512" "BUFFER_MIN_SIZE t < BUFFER_MAX_SIZE t"
  "1024 \<le> BUFFER_MAX_SIZE t" "BUFFER_MAX_SIZE t \<le> 131072"
  by (cases t; simp)+

end
