(* ===== verification/Proto_Structs.thy ===== *)
theory Proto_Structs
  imports Proto_Const
begin

text \<open>
  The packed structures of \<open>proto.h\<close> that \<open>srpc.c\<close> sends, receives or converts.

  A \<open>ctype\<close> describes the object representation under \<open>#pragma pack(push, 1)\<close>: members follow
  each other without padding.  \<open>sizeof\<close> is the number of bytes of an object; \<open>member T path\<close> is the
  offset and type of a (nested) member; \<open>field T path bs\<close> reads an integer member of an object
  given as its bytes.  One definition per structure, in the order of the header; a structure
  whose size depends on the target takes the target as an argument.  The lemmas of the
  collection \<open>layout\<close> evaluate all sizes once.
\<close>

section \<open>Object representations\<close>

datatype ctype =
    CChar | SChar | UChar | I16 | U16 | I32 | U32 | I64 | U64
  | Arr ctype nat
  | Struct "(string \<times> ctype) list"
  | Union "(string \<times> ctype) list"

fun sizeof :: "ctype \<Rightarrow> nat" where
  "sizeof CChar = 1"
| "sizeof SChar = 1"
| "sizeof UChar = 1"
| "sizeof I16 = 2"
| "sizeof U16 = 2"
| "sizeof I32 = 4"
| "sizeof U32 = 4"
| "sizeof I64 = 8"
| "sizeof U64 = 8"
| "sizeof (Arr t n) = sizeof t * n"
| "sizeof (Struct fs) = sum_list (map (\<lambda>f. sizeof (snd f)) fs)"
| "sizeof (Union fs) = fold max (map (\<lambda>f. sizeof (snd f)) fs) 0"

text \<open>Offset and type of a member of a structure.\<close>

fun field_of :: "(string \<times> ctype) list \<Rightarrow> nat \<Rightarrow> string \<Rightarrow> (nat \<times> ctype) option" where
  "field_of [] off n = None"
| "field_of ((m, t) # fs) off n =
     (if m = n then Some (off, t) else field_of fs (off + sizeof t) n)"

fun member :: "ctype \<Rightarrow> string list \<Rightarrow> (nat \<times> ctype) option" where
  "member t [] = Some (0, t)"
| "member (Struct fs) (n # ns) =
     (case field_of fs 0 n of
        None \<Rightarrow> None
      | Some (off, t) \<Rightarrow> map_option (\<lambda>(off', t'). (off + off', t')) (member t ns))"
| "member _ (n # ns) = None"

definition offsetof :: "ctype \<Rightarrow> string list \<Rightarrow> nat" where
  "offsetof T p = (case member T p of Some (off, t) \<Rightarrow> off | None \<Rightarrow> 0)"

definition typeof :: "ctype \<Rightarrow> string list \<Rightarrow> ctype" where
  "typeof T p = (case member T p of Some (off, t) \<Rightarrow> t | None \<Rightarrow> UChar)"

definition field :: "ctype \<Rightarrow> string list \<Rightarrow> bytes \<Rightarrow> nat" where
  "field T p bs = le_nat (seg (offsetof T p) (sizeof (typeof T p)) bs)"

definition set_field :: "ctype \<Rightarrow> string list \<Rightarrow> nat \<Rightarrow> bytes \<Rightarrow> bytes" where
  "set_field T p v bs = overlay (offsetof T p) (le_bytes (sizeof (typeof T p)) v) bs"

text \<open>A signed member.\<close>

definition sfield :: "ctype \<Rightarrow> string list \<Rightarrow> bytes \<Rightarrow> int" where
  "sfield T p bs =
     (let v = field T p bs; n = 256 ^ sizeof (typeof T p)
      in if 2 * v < n then int v else int v - int n)"

section \<open>Structures of proto.h\<close>

definition supla_timeval :: ctype where
  [struct_defs]: "supla_timeval = Struct [(''tv_sec'', I64), (''tv_usec'', I64)]"

definition timeval_compat :: ctype where
  [struct_defs]: "timeval_compat = Struct [(''tv_sec'', I32), (''tv_usec'', I32)]"

definition TSuplaDataPacket :: "target \<Rightarrow> ctype" where
  [struct_defs]: "TSuplaDataPacket t = Struct
     [(''tag'', (Arr CChar SUPLA_TAG_SIZE)),
      (''version'', UChar),
      (''rr_id'', U32),
      (''call_id'', U32),
      (''data_size'', U32),
      (''data'', (Arr CChar (SUPLA_MAX_DATA_SIZE t)))]"

definition TSDC_SuplaGetVersionResult :: ctype where
  [struct_defs]: "TSDC_SuplaGetVersionResult = Struct
     [(''proto_version_min'', UChar),
      (''proto_version'', UChar),
      (''SoftVer'', (Arr CChar SUPLA_SOFTVER_MAXSIZE))]"

definition TSDC_SuplaVersionError :: ctype where
  [struct_defs]: "TSDC_SuplaVersionError = Struct
     [(''server_version_min'', UChar),
      (''server_version'', UChar)]"

definition TDCS_SuplaPingServer :: ctype where
  [struct_defs]: "TDCS_SuplaPingServer = Struct
     [(''now'', supla_timeval)]"

definition TDCS_SuplaPingServer_COMPAT :: ctype where
  [struct_defs]: "TDCS_SuplaPingServer_COMPAT = Struct
     [(''now'', timeval_compat)]"

definition TSDC_SuplaPingServerResult :: ctype where
  [struct_defs]: "TSDC_SuplaPingServerResult = Struct
     [(''now'', supla_timeval)]"

definition TDCS_SuplaSetActivityTimeout :: ctype where
  [struct_defs]: "TDCS_SuplaSetActivityTimeout = Struct
     [(''activity_timeout'', UChar)]"

definition TSDC_SuplaSetActivityTimeoutResult :: ctype where
  [struct_defs]: "TSDC_SuplaSetActivityTimeoutResult = Struct
     [(''activity_timeout'', UChar),
      (''min'', UChar),
      (''max'', UChar)]"

definition TSuplaChannelValue :: ctype where
  [struct_defs]: "TSuplaChannelValue = Struct
     [(''value'', (Arr CChar SUPLA_CHANNELVALUE_SIZE)),
      (''sub_value'', (Arr CChar SUPLA_CHANNELVALUE_SIZE))]"

definition TSuplaChannelValue_B :: ctype where
  [struct_defs]: "TSuplaChannelValue_B = Struct
     [(''value'', (Arr CChar SUPLA_CHANNELVALUE_SIZE)),
      (''sub_value'', (Arr CChar SUPLA_CHANNELVALUE_SIZE)),
      (''sub_value_type'', CChar)]"

definition TSuplaChannelExtendedValue :: "target \<Rightarrow> ctype" where
  [struct_defs]: "TSuplaChannelExtendedValue t = Struct
     [(''type'', CChar),
      (''size'', U32),
      (''value'', (Arr CChar (SUPLA_CHANNELEXTENDEDVALUE_SIZE t)))]"

definition TSC_SuplaLocation :: ctype where
  [struct_defs]: "TSC_SuplaLocation = Struct
     [(''EOL'', CChar),
      (''Id'', I32),
      (''CaptionSize'', U32),
      (''Caption'', (Arr CChar SUPLA_LOCATION_CAPTION_MAXSIZE))]"

definition TSC_SuplaLocationPack :: ctype where
  [struct_defs]: "TSC_SuplaLocationPack = Struct
     [(''count'', I32),
      (''total_left'', I32),
      (''items'', (Arr TSC_SuplaLocation SUPLA_LOCATIONPACK_MAXCOUNT))]"

definition TDS_SuplaDeviceChannel :: ctype where
  [struct_defs]: "TDS_SuplaDeviceChannel = Struct
     [(''Number'', UChar),
      (''Type'', I32),
      (''value'', (Arr CChar SUPLA_CHANNELVALUE_SIZE))]"

definition TDS_SuplaRegisterDevice :: ctype where
  [struct_defs]: "TDS_SuplaRegisterDevice = Struct
     [(''LocationID'', I32),
      (''LocationPWD'', (Arr CChar SUPLA_LOCATION_PWD_MAXSIZE)),
      (''GUID'', (Arr CChar SUPLA_GUID_SIZE)),
      (''Name'', (Arr CChar SUPLA_DEVICE_NAME_MAXSIZE)),
      (''SoftVer'', (Arr CChar SUPLA_SOFTVER_MAXSIZE)),
      (''channel_count'', UChar),
      (''channels'', (Arr TDS_SuplaDeviceChannel SUPLA_CHANNELMAXCOUNT))]"

definition TDS_SuplaDeviceChannel_B :: ctype where
  [struct_defs]: "TDS_SuplaDeviceChannel_B = Struct
     [(''Number'', UChar),
      (''Type'', I32),
      (''FuncList'', I32),
      (''Default'', I32),
      (''value'', (Arr CChar SUPLA_CHANNELVALUE_SIZE))]"

definition TActionTriggerProperties :: ctype where
  [struct_defs]: "TActionTriggerProperties = Struct
     [(''relatedChannelNumber'', UChar),
      (''disablesLocalOperation'', U32)]"

definition THVACValue :: ctype where
  [struct_defs]: "THVACValue = Struct
     [(''IsOn'', UChar),
      (''Mode'', UChar),
      (''SetpointTemperatureHeat'', I16),
      (''SetpointTemperatureCool'', I16),
      (''Flags'', U16)]"

definition TDS_SuplaDeviceChannel_C :: ctype where
  [struct_defs]: "TDS_SuplaDeviceChannel_C = Struct
     [(''Number'', UChar),
      (''Type'', I32),
      ('''', (Union [(''FuncList'', I32), (''ActionTriggerCaps'', U32)])),
      (''Default'', I32),
      (''Flags'', I32),
      ('''', (Union [(''value'', (Arr CChar SUPLA_CHANNELVALUE_SIZE)), (''actionTriggerProperties'', TActionTriggerProperties), (''hvacValue'', THVACValue)]))]"

definition TDS_SuplaDeviceChannel_D :: ctype where
  [struct_defs]: "TDS_SuplaDeviceChannel_D = Struct
     [(''Number'', UChar),
      (''Type'', I32),
      ('''', (Union [(''FuncList'', I32), (''ActionTriggerCaps'', U32)])),
      (''Default'', I32),
      (''Flags'', I64),
      (''Offline'', UChar),
      (''ValueValidityTimeSec'', U32),
      ('''', (Union [(''value'', (Arr CChar SUPLA_CHANNELVALUE_SIZE)), (''actionTriggerProperties'', TActionTriggerProperties), (''hvacValue'', THVACValue)])),
      (''DefaultIcon'', UChar)]"

definition TDS_SuplaDeviceChannel_E :: ctype where
  [struct_defs]: "TDS_SuplaDeviceChannel_E = Struct
     [(''Number'', UChar),
      (''Type'', I32),
      ('''', (Union [(''FuncList'', I32), (''ActionTriggerCaps'', U32), (''RGBW_FuncList'', U32)])),
      (''Default'', I32),
      (''Flags'', I64),
      (''Offline'', UChar),
      (''ValueValidityTimeSec'', U32),
      ('''', (Union [(''value'', (Arr CChar SUPLA_CHANNELVALUE_SIZE)), (''actionTriggerProperties'', TActionTriggerProperties), (''hvacValue'', THVACValue)])),
      (''DefaultIcon'', UChar),
      (''SubDeviceId'', UChar)]"

definition TDS_SuplaRegisterDevice_B :: ctype where
  [struct_defs]: "TDS_SuplaRegisterDevice_B = Struct
     [(''LocationID'', I32),
      (''LocationPWD'', (Arr CChar SUPLA_LOCATION_PWD_MAXSIZE)),
      (''GUID'', (Arr CChar SUPLA_GUID_SIZE)),
      (''Name'', (Arr CChar SUPLA_DEVICE_NAME_MAXSIZE)),
      (''SoftVer'', (Arr CChar SUPLA_SOFTVER_MAXSIZE)),
      (''channel_count'', UChar),
      (''channels'', (Arr TDS_SuplaDeviceChannel_B SUPLA_CHANNELMAXCOUNT))]"

definition TDS_SuplaRegisterDevice_C :: ctype where
  [struct_defs]: "TDS_SuplaRegisterDevice_C = Struct
     [(''LocationID'', I32),
      (''LocationPWD'', (Arr CChar SUPLA_LOCATION_PWD_MAXSIZE)),
      (''GUID'', (Arr CChar SUPLA_GUID_SIZE)),
      (''Name'', (Arr CChar SUPLA_DEVICE_NAME_MAXSIZE)),
      (''SoftVer'', (Arr CChar SUPLA_SOFTVER_MAXSIZE)),
      (''ServerName'', (Arr CChar SUPLA_SERVER_NAME_MAXSIZE)),
      (''channel_count'', UChar),
      (''channels'', (Arr TDS_SuplaDeviceChannel_B SUPLA_CHANNELMAXCOUNT))]"

definition TDS_SuplaRegisterDevice_D :: ctype where
  [struct_defs]: "TDS_SuplaRegisterDevice_D = Struct
     [(''Email'', (Arr CChar SUPLA_EMAIL_MAXSIZE)),
      (''AuthKey'', (Arr CChar SUPLA_AUTHKEY_SIZE)),
      (''GUID'', (Arr CChar SUPLA_GUID_SIZE)),
      (''Name'', (Arr CChar SUPLA_DEVICE_NAME_MAXSIZE)),
      (''SoftVer'', (Arr CChar SUPLA_SOFTVER_MAXSIZE)),
      (''ServerName'', (Arr CChar SUPLA_SERVER_NAME_MAXSIZE)),
      (''channel_count'', UChar),
      (''channels'', (Arr TDS_SuplaDeviceChannel_B SUPLA_CHANNELMAXCOUNT))]"

definition TDS_SuplaRegisterDevice_E :: ctype where
  [struct_defs]: "TDS_SuplaRegisterDevice_E = Struct
     [(''Email'', (Arr CChar SUPLA_EMAIL_MAXSIZE)),
      (''AuthKey'', (Arr CChar SUPLA_AUTHKEY_SIZE)),
      (''GUID'', (Arr CChar SUPLA_GUID_SIZE)),
      (''Name'', (Arr CChar SUPLA_DEVICE_NAME_MAXSIZE)),
      (''SoftVer'', (Arr CChar SUPLA_SOFTVER_MAXSIZE)),
      (''ServerName'', (Arr CChar SUPLA_SERVER_NAME_MAXSIZE)),
      (''Flags'', I32),
      (''ManufacturerID'', I16),
      (''ProductID'', I16),
      (''channel_count'', UChar),
      (''channels'', (Arr TDS_SuplaDeviceChannel_C SUPLA_CHANNELMAXCOUNT))]"

definition TDS_SuplaRegisterDeviceHeader :: ctype where
  [struct_defs]: "TDS_SuplaRegisterDeviceHeader = Struct
     [(''Email'', (Arr CChar SUPLA_EMAIL_MAXSIZE)),
      (''AuthKey'', (Arr CChar SUPLA_AUTHKEY_SIZE)),
      (''GUID'', (Arr CChar SUPLA_GUID_SIZE)),
      (''Name'', (Arr CChar SUPLA_DEVICE_NAME_MAXSIZE)),
      (''SoftVer'', (Arr CChar SUPLA_SOFTVER_MAXSIZE)),
      (''ServerName'', (Arr CChar SUPLA_SERVER_NAME_MAXSIZE)),
      (''Flags'', I32),
      (''ManufacturerID'', I16),
      (''ProductID'', I16),
      (''channel_count'', UChar)]"

definition TDS_SuplaRegisterDevice_F :: ctype where
  [struct_defs]: "TDS_SuplaRegisterDevice_F = Struct
     [(''Email'', (Arr CChar SUPLA_EMAIL_MAXSIZE)),
      (''AuthKey'', (Arr CChar SUPLA_AUTHKEY_SIZE)),
      (''GUID'', (Arr CChar SUPLA_GUID_SIZE)),
      (''Name'', (Arr CChar SUPLA_DEVICE_NAME_MAXSIZE)),
      (''SoftVer'', (Arr CChar SUPLA_SOFTVER_MAXSIZE)),
      (''ServerName'', (Arr CChar SUPLA_SERVER_NAME_MAXSIZE)),
      (''Flags'', I32),
      (''ManufacturerID'', I16),
      (''ProductID'', I16),
      (''channel_count'', UChar),
      (''channels'', (Arr TDS_SuplaDeviceChannel_D SUPLA_CHANNELMAXCOUNT))]"

definition TDS_SuplaRegisterDevice_G :: ctype where
  [struct_defs]: "TDS_SuplaRegisterDevice_G = Struct
     [(''Email'', (Arr CChar SUPLA_EMAIL_MAXSIZE)),
      (''AuthKey'', (Arr CChar SUPLA_AUTHKEY_SIZE)),
      (''GUID'', (Arr CChar SUPLA_GUID_SIZE)),
      (''Name'', (Arr CChar SUPLA_DEVICE_NAME_MAXSIZE)),
      (''SoftVer'', (Arr CChar SUPLA_SOFTVER_MAXSIZE)),
      (''ServerName'', (Arr CChar SUPLA_SERVER_NAME_MAXSIZE)),
      (''Flags'', I32),
      (''ManufacturerID'', I16),
      (''ProductID'', I16),
      (''channel_count'', UChar),
      (''channels'', (Arr TDS_SuplaDeviceChannel_E SUPLA_CHANNELMAXCOUNT))]"

definition TSD_SuplaRegisterDeviceResult :: ctype where
  [struct_defs]: "TSD_SuplaRegisterDeviceResult = Struct
     [(''result_code'', I32),
      (''activity_timeout'', UChar),
      (''version'', UChar),
      (''version_min'', UChar)]"

definition TSD_SuplaRegisterDeviceResult_B :: ctype where
  [struct_defs]: "TSD_SuplaRegisterDeviceResult_B = Struct
     [(''result_code'', I32),
      (''activity_timeout'', UChar),
      (''version'', UChar),
      (''version_min'', UChar),
      (''channel_report_size'', U16),
      (''channel_report'', (Arr UChar CHANNEL_REPORT_MAXSIZE))]"

definition TDS_SuplaDeviceChannelValue :: ctype where
  [struct_defs]: "TDS_SuplaDeviceChannelValue = Struct
     [(''ChannelNumber'', UChar),
      (''value'', (Arr CChar SUPLA_CHANNELVALUE_SIZE))]"

definition TDS_SuplaDeviceChannelValue_B :: ctype where
  [struct_defs]: "TDS_SuplaDeviceChannelValue_B = Struct
     [(''ChannelNumber'', UChar),
      (''Offline'', UChar),
      (''value'', (Arr CChar SUPLA_CHANNELVALUE_SIZE))]"

definition TDS_SuplaDeviceChannelValue_C :: ctype where
  [struct_defs]: "TDS_SuplaDeviceChannelValue_C = Struct
     [(''ChannelNumber'', UChar),
      (''Offline'', UChar),
      (''ValidityTimeSec'', U32),
      (''value'', (Arr CChar SUPLA_CHANNELVALUE_SIZE))]"

definition TDS_SuplaDeviceChannelExtendedValue :: "target \<Rightarrow> ctype" where
  [struct_defs]: "TDS_SuplaDeviceChannelExtendedValue t = Struct
     [(''ChannelNumber'', UChar),
      (''value'', (TSuplaChannelExtendedValue t))]"

definition TSD_SuplaChannelNewValue :: ctype where
  [struct_defs]: "TSD_SuplaChannelNewValue = Struct
     [(''SenderID'', I32),
      (''ChannelNumber'', UChar),
      ('''', (Union [(''DurationMS'', U32), (''DurationSec'', U32)])),
      (''value'', (Arr CChar SUPLA_CHANNELVALUE_SIZE))]"

definition TSD_SuplaChannelGroupNewValue :: ctype where
  [struct_defs]: "TSD_SuplaChannelGroupNewValue = Struct
     [(''SenderID'', I32),
      (''GroupID'', I32),
      (''EOL'', UChar),
      (''ChannelNumber'', UChar),
      ('''', (Union [(''DurationMS'', U32), (''DurationSec'', U32)])),
      (''value'', (Arr CChar SUPLA_CHANNELVALUE_SIZE))]"

definition TDS_SuplaChannelNewValueResult :: ctype where
  [struct_defs]: "TDS_SuplaChannelNewValueResult = Struct
     [(''ChannelNumber'', UChar),
      (''SenderID'', I32),
      (''Success'', CChar)]"

definition TSC_SuplaChannelValue :: ctype where
  [struct_defs]: "TSC_SuplaChannelValue = Struct
     [(''EOL'', CChar),
      (''Id'', I32),
      (''online'', CChar),
      (''value'', TSuplaChannelValue)]"

definition TSC_SuplaChannelValue_B :: ctype where
  [struct_defs]: "TSC_SuplaChannelValue_B = Struct
     [(''EOL'', CChar),
      (''Id'', I32),
      (''online'', CChar),
      (''value'', TSuplaChannelValue_B)]"

definition TSC_SuplaChannelValuePack :: ctype where
  [struct_defs]: "TSC_SuplaChannelValuePack = Struct
     [(''count'', I32),
      (''total_left'', I32),
      (''items'', (Arr TSC_SuplaChannelValue SUPLA_CHANNELVALUE_PACK_MAXCOUNT))]"

definition TSC_SuplaChannelValuePack_B :: ctype where
  [struct_defs]: "TSC_SuplaChannelValuePack_B = Struct
     [(''count'', I32),
      (''total_left'', I32),
      (''items'', (Arr TSC_SuplaChannelValue_B SUPLA_CHANNELVALUE_PACK_MAXCOUNT))]"

definition TSC_SuplaChannelExtendedValuePack :: "target \<Rightarrow> ctype" where
  [struct_defs]: "TSC_SuplaChannelExtendedValuePack t = Struct
     [(''count'', I32),
      (''total_left'', I32),
      (''pack_size'', U32),
      (''pack'', (Arr CChar (SUPLA_CHANNELEXTENDEDVALUE_PACK_MAXDATASIZE t)))]"

definition TSC_SuplaChannel :: ctype where
  [struct_defs]: "TSC_SuplaChannel = Struct
     [(''EOL'', CChar),
      (''Id'', I32),
      (''LocationID'', I32),
      (''Func'', I32),
      (''online'', CChar),
      (''value'', TSuplaChannelValue),
      (''CaptionSize'', U32),
      (''Caption'', (Arr CChar SUPLA_CHANNEL_CAPTION_MAXSIZE))]"

definition TSC_SuplaChannelPack :: ctype where
  [struct_defs]: "TSC_SuplaChannelPack = Struct
     [(''count'', I32),
      (''total_left'', I32),
      (''items'', (Arr TSC_SuplaChannel SUPLA_CHANNELPACK_MAXCOUNT))]"

definition TSC_SuplaChannel_B :: ctype where
  [struct_defs]: "TSC_SuplaChannel_B = Struct
     [(''EOL'', CChar),
      (''Id'', I32),
      (''LocationID'', I32),
      (''Func'', I32),
      (''AltIcon'', I32),
      (''Flags'', U32),
      (''ProtocolVersion'', UChar),
      (''online'', CChar),
      (''value'', TSuplaChannelValue),
      (''CaptionSize'', U32),
      (''Caption'', (Arr CChar SUPLA_CHANNEL_CAPTION_MAXSIZE))]"

definition TSC_SuplaChannelPack_B :: ctype where
  [struct_defs]: "TSC_SuplaChannelPack_B = Struct
     [(''count'', I32),
      (''total_left'', I32),
      (''items'', (Arr TSC_SuplaChannel_B SUPLA_CHANNELPACK_MAXCOUNT))]"

definition TSC_SuplaChannel_C :: ctype where
  [struct_defs]: "TSC_SuplaChannel_C = Struct
     [(''EOL'', CChar),
      (''Id'', I32),
      (''DeviceID'', I32),
      (''LocationID'', I32),
      (''Type'', I32),
      (''Func'', I32),
      (''AltIcon'', I32),
      (''UserIcon'', I32),
      (''ManufacturerID'', I16),
      (''ProductID'', I16),
      (''Flags'', U32),
      (''ProtocolVersion'', UChar),
      (''online'', CChar),
      (''value'', TSuplaChannelValue),
      (''CaptionSize'', U32),
      (''Caption'', (Arr CChar SUPLA_CHANNEL_CAPTION_MAXSIZE))]"

definition TSC_SuplaChannel_D :: ctype where
  [struct_defs]: "TSC_SuplaChannel_D = Struct
     [(''EOL'', CChar),
      (''Id'', I32),
      (''DeviceID'', I32),
      (''LocationID'', I32),
      (''Type'', I32),
      (''Func'', I32),
      (''AltIcon'', I32),
      (''UserIcon'', I32),
      (''ManufacturerID'', I16),
      (''ProductID'', I16),
      (''Flags'', U32),
      (''ProtocolVersion'', UChar),
      (''online'', CChar),
      (''value'', TSuplaChannelValue_B),
      (''CaptionSize'', U32),
      (''Caption'', (Arr CChar SUPLA_CHANNEL_CAPTION_MAXSIZE))]"

definition TSC_SuplaChannel_E :: ctype where
  [struct_defs]: "TSC_SuplaChannel_E = Struct
     [(''EOL'', CChar),
      (''Id'', I32),
      (''DeviceID'', I32),
      (''LocationID'', I32),
      (''Type'', I32),
      (''Func'', I32),
      (''AltIcon'', I32),
      (''UserIcon'', I32),
      (''ManufacturerID'', I16),
      (''ProductID'', I16),
      (''DefaultConfigCRC32'', U32),
      (''Flags'', U64),
      (''ProtocolVersion'', UChar),
      (''online'', CChar),
      (''value'', TSuplaChannelValue_B),
      (''CaptionSize'', U32),
      (''Caption'', (Arr CChar SUPLA_CHANNEL_CAPTION_MAXSIZE))]"

definition TSC_SuplaChannelPack_C :: ctype where
  [struct_defs]: "TSC_SuplaChannelPack_C = Struct
     [(''count'', I32),
      (''total_left'', I32),
      (''items'', (Arr TSC_SuplaChannel_C SUPLA_CHANNELPACK_MAXCOUNT))]"

definition TSC_SuplaChannelPack_D :: ctype where
  [struct_defs]: "TSC_SuplaChannelPack_D = Struct
     [(''count'', I32),
      (''total_left'', I32),
      (''items'', (Arr TSC_SuplaChannel_D SUPLA_CHANNELPACK_MAXCOUNT))]"

definition TSC_SuplaChannelPack_E :: ctype where
  [struct_defs]: "TSC_SuplaChannelPack_E = Struct
     [(''count'', I32),
      (''total_left'', I32),
      (''items'', (Arr TSC_SuplaChannel_E SUPLA_CHANNELPACK_MAXCOUNT))]"

definition TSC_SuplaChannelGroup :: ctype where
  [struct_defs]: "TSC_SuplaChannelGroup = Struct
     [(''EOL'', CChar),
      (''Id'', I32),
      (''LocationID'', I32),
      (''Func'', I32),
      (''AltIcon'', I32),
      (''Flags'', U32),
      (''CaptionSize'', U32),
      (''Caption'', (Arr CChar SUPLA_CHANNELGROUP_CAPTION_MAXSIZE))]"

definition TSC_SuplaChannelGroup_B :: ctype where
  [struct_defs]: "TSC_SuplaChannelGroup_B = Struct
     [(''EOL'', CChar),
      (''Id'', I32),
      (''LocationID'', I32),
      (''Func'', I32),
      (''AltIcon'', I32),
      (''UserIcon'', I32),
      (''Flags'', U32),
      (''CaptionSize'', U32),
      (''Caption'', (Arr CChar SUPLA_CHANNELGROUP_CAPTION_MAXSIZE))]"

definition TSC_SuplaChannelGroupPack :: ctype where
  [struct_defs]: "TSC_SuplaChannelGroupPack = Struct
     [(''count'', I32),
      (''total_left'', I32),
      (''items'', (Arr TSC_SuplaChannelGroup SUPLA_CHANNELGROUP_PACK_MAXCOUNT))]"

definition TSC_SuplaChannelGroupPack_B :: ctype where
  [struct_defs]: "TSC_SuplaChannelGroupPack_B = Struct
     [(''count'', I32),
      (''total_left'', I32),
      (''items'', (Arr TSC_SuplaChannelGroup_B SUPLA_CHANNELGROUP_PACK_MAXCOUNT))]"

definition TSC_SuplaChannelGroupRelation :: ctype where
  [struct_defs]: "TSC_SuplaChannelGroupRelation = Struct
     [(''EOL'', CChar),
      (''ChannelGroupID'', I32),
      (''ChannelID'', I32)]"

definition TSC_SuplaChannelGroupRelationPack :: ctype where
  [struct_defs]: "TSC_SuplaChannelGroupRelationPack = Struct
     [(''count'', I32),
      (''total_left'', I32),
      (''items'', (Arr TSC_SuplaChannelGroupRelation SUPLA_CHANNELGROUP_RELATION_PACK_MAXCOUNT))]"

definition TSC_SuplaChannelRelation :: ctype where
  [struct_defs]: "TSC_SuplaChannelRelation = Struct
     [(''EOL'', CChar),
      (''Id'', I32),
      (''ParentId'', I32),
      (''Type'', I16)]"

definition TSC_SuplaChannelRelationPack :: ctype where
  [struct_defs]: "TSC_SuplaChannelRelationPack = Struct
     [(''count'', I32),
      (''total_left'', I32),
      (''items'', (Arr TSC_SuplaChannelRelation SUPLA_CHANNEL_RELATION_PACK_MAXCOUNT))]"

definition TSC_SuplaScene :: ctype where
  [struct_defs]: "TSC_SuplaScene = Struct
     [(''EOL'', CChar),
      (''Id'', I32),
      (''LocationId'', I32),
      (''AltIcon'', I32),
      (''UserIcon'', I32),
      (''CaptionSize'', U16),
      (''Caption'', (Arr CChar SUPLA_SCENE_CAPTION_MAXSIZE))]"

definition TSC_SuplaScenePack :: ctype where
  [struct_defs]: "TSC_SuplaScenePack = Struct
     [(''count'', I32),
      (''total_left'', I32),
      (''items'', (Arr TSC_SuplaScene SUPLA_SCENE_PACK_MAXCOUNT))]"

definition TSC_SuplaSceneState :: ctype where
  [struct_defs]: "TSC_SuplaSceneState = Struct
     [(''EOL'', CChar),
      (''SceneId'', I32),
      (''MillisecondsFromStart'', U32),
      (''MillisecondsLeft'', U32),
      (''InitiatorId'', I32),
      (''InitiatorNameSize'', U16),
      (''InitiatorName'', (Arr CChar SUPLA_INITIATOR_NAME_MAXSIZE))]"

definition TSC_SuplaSceneStatePack :: ctype where
  [struct_defs]: "TSC_SuplaSceneStatePack = Struct
     [(''count'', I32),
      (''total_left'', I32),
      (''items'', (Arr TSC_SuplaSceneState SUPLA_SCENE_STATE_PACK_MAXCOUNT))]"

definition TCS_Action :: ctype where
  [struct_defs]: "TCS_Action = Struct
     [(''ActionId'', I32),
      (''SubjectId'', I32),
      (''SubjectType'', UChar),
      (''ParamSize'', U16),
      (''Param'', (Arr CChar SUPLA_ACTION_PARAM_MAXSIZE))]"

definition TCS_ClientAuthorizationDetails :: ctype where
  [struct_defs]: "TCS_ClientAuthorizationDetails = Struct
     [(''AccessID'', I32),
      (''AccessIDpwd'', (Arr CChar SUPLA_ACCESSID_PWD_MAXSIZE)),
      (''Email'', (Arr CChar SUPLA_EMAIL_MAXSIZE)),
      (''AuthKey'', (Arr CChar SUPLA_AUTHKEY_SIZE)),
      (''GUID'', (Arr CChar SUPLA_GUID_SIZE)),
      (''ServerName'', (Arr CChar SUPLA_SERVER_NAME_MAXSIZE))]"

definition TCS_ActionWithAuth :: ctype where
  [struct_defs]: "TCS_ActionWithAuth = Struct
     [(''Auth'', TCS_ClientAuthorizationDetails),
      (''Action'', TCS_Action)]"

definition TSC_ActionExecutionResult :: ctype where
  [struct_defs]: "TSC_ActionExecutionResult = Struct
     [(''ResultCode'', UChar),
      (''ActionId'', I32),
      (''SubjectId'', I32),
      (''SubjectType'', I32)]"

definition TSC_GetChannelValueResult :: "target \<Rightarrow> ctype" where
  [struct_defs]: "TSC_GetChannelValueResult t = Struct
     [(''ResultCode'', UChar),
      (''ChannelId'', I32),
      (''Function'', I32),
      (''Value'', TSuplaChannelValue_B),
      (''ExtendedValue'', (TSuplaChannelExtendedValue t))]"

definition TCS_GetChannelValueWithAuth :: ctype where
  [struct_defs]: "TCS_GetChannelValueWithAuth = Struct
     [(''Auth'', TCS_ClientAuthorizationDetails),
      (''ChannelId'', I32)]"

definition TCS_SuplaRegisterClient :: ctype where
  [struct_defs]: "TCS_SuplaRegisterClient = Struct
     [(''AccessID'', I32),
      (''AccessIDpwd'', (Arr CChar SUPLA_ACCESSID_PWD_MAXSIZE)),
      (''GUID'', (Arr CChar SUPLA_GUID_SIZE)),
      (''Name'', (Arr CChar SUPLA_CLIENT_NAME_MAXSIZE)),
      (''SoftVer'', (Arr CChar SUPLA_SOFTVER_MAXSIZE))]"

definition TCS_SuplaRegisterClient_B :: ctype where
  [struct_defs]: "TCS_SuplaRegisterClient_B = Struct
     [(''AccessID'', I32),
      (''AccessIDpwd'', (Arr CChar SUPLA_ACCESSID_PWD_MAXSIZE)),
      (''GUID'', (Arr CChar SUPLA_GUID_SIZE)),
      (''Name'', (Arr CChar SUPLA_CLIENT_NAME_MAXSIZE)),
      (''SoftVer'', (Arr CChar SUPLA_SOFTVER_MAXSIZE)),
      (''ServerName'', (Arr CChar SUPLA_SERVER_NAME_MAXSIZE))]"

definition TCS_SuplaRegisterClient_C :: ctype where
  [struct_defs]: "TCS_SuplaRegisterClient_C = Struct
     [(''Email'', (Arr CChar SUPLA_EMAIL_MAXSIZE)),
      (''AuthKey'', (Arr CChar SUPLA_AUTHKEY_SIZE)),
      (''GUID'', (Arr CChar SUPLA_GUID_SIZE)),
      (''Name'', (Arr CChar SUPLA_CLIENT_NAME_MAXSIZE)),
      (''SoftVer'', (Arr CChar SUPLA_SOFTVER_MAXSIZE)),
      (''ServerName'', (Arr CChar SUPLA_SERVER_NAME_MAXSIZE))]"

definition TCS_SuplaRegisterClient_D :: ctype where
  [struct_defs]: "TCS_SuplaRegisterClient_D = Struct
     [(''Email'', (Arr CChar SUPLA_EMAIL_MAXSIZE)),
      (''Password'', (Arr CChar SUPLA_PASSWORD_MAXSIZE)),
      (''AuthKey'', (Arr CChar SUPLA_AUTHKEY_SIZE)),
      (''GUID'', (Arr CChar SUPLA_GUID_SIZE)),
      (''Name'', (Arr CChar SUPLA_CLIENT_NAME_MAXSIZE)),
      (''SoftVer'', (Arr CChar SUPLA_SOFTVER_MAXSIZE)),
      (''ServerName'', (Arr CChar SUPLA_SERVER_NAME_MAXSIZE))]"

definition TSC_SuplaRegisterClientResult :: ctype where
  [struct_defs]: "TSC_SuplaRegisterClientResult = Struct
     [(''result_code'', I32),
      (''ClientID'', I32),
      (''LocationCount'', I32),
      (''ChannelCount'', I32),
      (''activity_timeout'', UChar),
      (''version'', UChar),
      (''version_min'', UChar)]"

definition TSC_SuplaRegisterClientResult_B :: ctype where
  [struct_defs]: "TSC_SuplaRegisterClientResult_B = Struct
     [(''result_code'', I32),
      (''ClientID'', I32),
      (''LocationCount'', I32),
      (''ChannelCount'', I32),
      (''ChannelGroupCount'', I32),
      (''Flags'', I32),
      (''activity_timeout'', UChar),
      (''version'', UChar),
      (''version_min'', UChar)]"

definition TSC_SuplaRegisterClientResult_C :: ctype where
  [struct_defs]: "TSC_SuplaRegisterClientResult_C = Struct
     [(''result_code'', I32),
      (''ClientID'', I32),
      (''LocationCount'', I32),
      (''ChannelCount'', I32),
      (''ChannelGroupCount'', I32),
      (''Flags'', I32),
      (''activity_timeout'', UChar),
      (''version'', UChar),
      (''version_min'', UChar),
      (''serverUnixTimestamp'', U32)]"

definition TSC_SuplaRegisterClientResult_D :: ctype where
  [struct_defs]: "TSC_SuplaRegisterClientResult_D = Struct
     [(''result_code'', I32),
      (''ClientID'', I32),
      (''LocationCount'', I16),
      (''ChannelCount'', I16),
      (''ChannelGroupCount'', I16),
      (''SceneCount'', I16),
      (''Flags'', I32),
      (''activity_timeout'', UChar),
      (''version'', UChar),
      (''version_min'', UChar),
      (''serverUnixTimestamp'', U32)]"

definition TCS_SuplaChannelNewValue :: ctype where
  [struct_defs]: "TCS_SuplaChannelNewValue = Struct
     [(''ChannelId'', UChar),
      (''value'', (Arr CChar SUPLA_CHANNELVALUE_SIZE))]"

definition TCS_SuplaChannelNewValue_B :: ctype where
  [struct_defs]: "TCS_SuplaChannelNewValue_B = Struct
     [(''ChannelId'', I32),
      (''value'', (Arr CChar SUPLA_CHANNELVALUE_SIZE))]"

definition TCS_SuplaNewValue :: ctype where
  [struct_defs]: "TCS_SuplaNewValue = Struct
     [(''Id'', I32),
      (''Target'', CChar),
      (''value'', (Arr CChar SUPLA_CHANNELVALUE_SIZE))]"

definition TSC_SuplaEvent :: ctype where
  [struct_defs]: "TSC_SuplaEvent = Struct
     [(''Event'', I32),
      (''ChannelID'', I32),
      (''DurationMS'', U32),
      (''SenderID'', I32),
      (''SenderNameSize'', U32),
      (''SenderName'', (Arr CChar SUPLA_SENDER_NAME_MAXSIZE))]"

definition TDS_FirmwareUpdateParams :: ctype where
  [struct_defs]: "TDS_FirmwareUpdateParams = Struct
     [(''Platform'', CChar),
      (''Param1'', I32),
      (''Param2'', I32),
      (''Param3'', I32),
      (''Param4'', I32)]"

definition TSD_FirmwareUpdate_Url :: ctype where
  [struct_defs]: "TSD_FirmwareUpdate_Url = Struct
     [(''available_protocols'', CChar),
      (''host'', (Arr CChar SUPLA_URL_HOST_MAXSIZE)),
      (''port'', I32),
      (''path'', (Arr CChar SUPLA_URL_PATH_MAXSIZE))]"

definition TSD_FirmwareUpdate_UrlResult :: ctype where
  [struct_defs]: "TSD_FirmwareUpdate_UrlResult = Struct
     [(''exists'', CChar),
      (''url'', TSD_FirmwareUpdate_Url)]"

definition TSDC_RegistrationEnabled :: ctype where
  [struct_defs]: "TSDC_RegistrationEnabled = Struct
     [(''client_timestamp'', U32),
      (''iodevice_timestamp'', U32)]"

definition TSC_OAuthToken :: ctype where
  [struct_defs]: "TSC_OAuthToken = Struct
     [(''ExpiresIn'', U32),
      (''TokenSize'', U32),
      (''Token'', (Arr CChar SUPLA_OAUTH_TOKEN_MAXSIZE))]"

definition TSC_OAuthTokenRequestResult :: ctype where
  [struct_defs]: "TSC_OAuthTokenRequestResult = Struct
     [(''ResultCode'', UChar),
      (''Token'', TSC_OAuthToken)]"

definition TElectricityMeter_Measurement :: ctype where
  [struct_defs]: "TElectricityMeter_Measurement = Struct
     [(''freq'', U16),
      (''voltage'', (Arr U16 3)),
      (''current'', (Arr U16 3)),
      (''power_active'', (Arr I32 3)),
      (''power_reactive'', (Arr I32 3)),
      (''power_apparent'', (Arr I32 3)),
      (''power_factor'', (Arr I16 3)),
      (''phase_angle'', (Arr I16 3))]"

definition TElectricityMeter_ExtendedValue :: "target \<Rightarrow> ctype" where
  [struct_defs]: "TElectricityMeter_ExtendedValue t = Struct
     [(''total_forward_active_energy'', (Arr U64 3)),
      (''total_reverse_active_energy'', (Arr U64 3)),
      (''total_forward_reactive_energy'', (Arr U64 3)),
      (''total_reverse_reactive_energy'', (Arr U64 3)),
      (''total_cost'', I32),
      (''price_per_unit'', I32),
      (''currency'', (Arr CChar 3)),
      (''measured_values'', I32),
      (''period'', I32),
      (''m_count'', I32),
      (''m'', (Arr TElectricityMeter_Measurement (EM_MEASUREMENT_COUNT t)))]"

definition TElectricityMeter_ExtendedValue_V2 :: "target \<Rightarrow> ctype" where
  [struct_defs]: "TElectricityMeter_ExtendedValue_V2 t = Struct
     [(''total_forward_active_energy'', (Arr U64 3)),
      (''total_reverse_active_energy'', (Arr U64 3)),
      (''total_forward_reactive_energy'', (Arr U64 3)),
      (''total_reverse_reactive_energy'', (Arr U64 3)),
      (''total_forward_active_energy_balanced'', U64),
      (''total_reverse_active_energy_balanced'', U64),
      (''total_cost'', I32),
      (''total_cost_balanced'', I32),
      (''price_per_unit'', I32),
      (''currency'', (Arr CChar 3)),
      (''measured_values'', I32),
      (''period'', I32),
      (''m_count'', I32),
      (''m'', (Arr TElectricityMeter_Measurement (EM_MEASUREMENT_COUNT t)))]"

definition TElectricityMeter_ExtendedValue_V3 :: "target \<Rightarrow> ctype" where
  [struct_defs]: "TElectricityMeter_ExtendedValue_V3 t = Struct
     [(''total_forward_active_energy'', (Arr U64 3)),
      (''total_reverse_active_energy'', (Arr U64 3)),
      (''total_forward_reactive_energy'', (Arr U64 3)),
      (''total_reverse_reactive_energy'', (Arr U64 3)),
      (''total_forward_active_energy_balanced'', U64),
      (''total_reverse_active_energy_balanced'', U64),
      (''voltage_phase_angle_12'', U16),
      (''voltage_phase_angle_13'', U16),
      (''phase_sequence'', UChar),
      (''total_cost'', I32),
      (''total_cost_balanced'', I32),
      (''price_per_unit'', I32),
      (''currency'', (Arr CChar 3)),
      (''measured_values'', I32),
      (''period'', I32),
      (''m_count'', I32),
      (''m'', (Arr TElectricityMeter_Measurement (EM_MEASUREMENT_COUNT t)))]"

definition TSC_ImpulseCounter_ExtendedValue :: ctype where
  [struct_defs]: "TSC_ImpulseCounter_ExtendedValue = Struct
     [(''total_cost'', I32),
      (''price_per_unit'', I32),
      (''currency'', (Arr CChar 3)),
      (''custom_unit'', (Arr CChar 9)),
      (''impulses_per_unit'', I32),
      (''counter'', U64),
      (''calculated_value'', I64)]"

definition TCS_SuperUserAuthorizationRequest :: ctype where
  [struct_defs]: "TCS_SuperUserAuthorizationRequest = Struct
     [(''Email'', (Arr CChar SUPLA_EMAIL_MAXSIZE)),
      (''Password'', (Arr CChar SUPLA_PASSWORD_MAXSIZE))]"

definition TSC_SuperUserAuthorizationResult :: ctype where
  [struct_defs]: "TSC_SuperUserAuthorizationResult = Struct
     [(''Result'', I32)]"

definition TCS_DeviceCalCfgRequest :: ctype where
  [struct_defs]: "TCS_DeviceCalCfgRequest = Struct
     [(''ChannelID'', I32),
      (''Command'', I32),
      (''DataType'', I32),
      (''DataSize'', U32),
      (''Data'', (Arr CChar SUPLA_CALCFG_DATA_MAXSIZE))]"

definition TCS_DeviceCalCfgRequest_B :: ctype where
  [struct_defs]: "TCS_DeviceCalCfgRequest_B = Struct
     [(''Id'', I32),
      (''Target'', CChar),
      (''Command'', I32),
      (''DataType'', I32),
      (''DataSize'', U32),
      (''Data'', (Arr CChar SUPLA_CALCFG_DATA_MAXSIZE))]"

definition TSC_DeviceCalCfgResult :: ctype where
  [struct_defs]: "TSC_DeviceCalCfgResult = Struct
     [(''ChannelID'', I32),
      (''Command'', I32),
      (''Result'', I32),
      (''DataSize'', U32),
      (''Data'', (Arr CChar SUPLA_CALCFG_DATA_MAXSIZE))]"

definition TSD_DeviceCalCfgRequest :: ctype where
  [struct_defs]: "TSD_DeviceCalCfgRequest = Struct
     [(''SenderID'', I32),
      (''ChannelNumber'', I32),
      (''Command'', I32),
      (''SuperUserAuthorized'', CChar),
      (''DataType'', I32),
      (''DataSize'', U32),
      (''Data'', (Arr CChar SUPLA_CALCFG_DATA_MAXSIZE))]"

definition TDS_DeviceCalCfgResult :: ctype where
  [struct_defs]: "TDS_DeviceCalCfgResult = Struct
     [(''ReceiverID'', I32),
      (''ChannelNumber'', I32),
      (''Command'', I32),
      (''Result'', I32),
      (''DataSize'', U32),
      (''Data'', (Arr CChar SUPLA_CALCFG_DATA_MAXSIZE))]"

definition TThermostat_Time :: ctype where
  [struct_defs]: "TThermostat_Time = Struct
     [(''sec'', UChar),
      (''min'', UChar),
      (''hour'', UChar),
      (''dayOfWeek'', UChar)]"

definition TThermostat_Schedule :: ctype where
  [struct_defs]: "TThermostat_Schedule = Struct
     [(''ValueType'', UChar),
      (''HourValue'', (Arr (Arr CChar 24) 7))]"

definition TThermostat_ExtendedValue :: ctype where
  [struct_defs]: "TThermostat_ExtendedValue = Struct
     [(''Fields'', UChar),
      (''MeasuredTemperature'', (Arr I16 10)),
      (''PresetTemperature'', (Arr I16 10)),
      (''Flags'', (Arr I16 8)),
      (''Values'', (Arr I16 8)),
      (''Time'', TThermostat_Time),
      (''Schedule'', TThermostat_Schedule)]"

definition TSDC_UserLocalTimeResult :: ctype where
  [struct_defs]: "TSDC_UserLocalTimeResult = Struct
     [(''year'', U16),
      (''month'', UChar),
      (''day'', UChar),
      (''dayOfWeek'', UChar),
      (''hour'', UChar),
      (''min'', UChar),
      (''sec'', UChar),
      (''timezoneSize'', U32),
      (''timezone'', (Arr CChar SUPLA_TIMEZONE_MAXSIZE))]"

definition TCSD_ChannelStateRequest :: ctype where
  [struct_defs]: "TCSD_ChannelStateRequest = Struct
     [(''SenderID'', I32),
      ('''', (Union [(''ChannelID'', I32), (''ChannelNumber'', UChar)]))]"

definition TDSC_ChannelState :: ctype where
  [struct_defs]: "TDSC_ChannelState = Struct
     [(''ReceiverID'', I32),
      ('''', (Union [(''ChannelID'', I32), (''ChannelNumber'', UChar)])),
      (''Fields'', I32),
      ('''', (Union [(''defaultIconField'', I32), (''SwitchCycleCount'', U32)])),
      (''IPv4'', U32),
      (''MAC'', (Arr UChar 6)),
      (''BatteryLevel'', UChar),
      (''BatteryPowered'', UChar),
      (''WiFiRSSI'', CChar),
      (''WiFiSignalStrength'', UChar),
      (''BridgeNodeOnline'', UChar),
      (''BridgeNodeSignalStrength'', UChar),
      (''Uptime'', U32),
      (''ConnectionUptime'', U32),
      (''BatteryHealth'', UChar),
      (''LastConnectionResetCause'', UChar),
      (''LightSourceLifespan'', U16),
      ('''', (Union [(''LightSourceLifespanLeft'', I16), (''LightSourceOperatingTime'', I32), (''OperatingTime'', U32)])),
      (''EOL'', CChar),
      (''EmptySpace'', (Arr CChar 1))]"

definition TCS_ChannelBasicCfgRequest :: ctype where
  [struct_defs]: "TCS_ChannelBasicCfgRequest = Struct
     [(''ChannelID'', I32)]"

definition TSC_ChannelBasicCfg :: ctype where
  [struct_defs]: "TSC_ChannelBasicCfg = Struct
     [(''DeviceName'', (Arr CChar SUPLA_DEVICE_NAME_MAXSIZE)),
      (''DeviceSoftVer'', (Arr CChar SUPLA_SOFTVER_MAXSIZE)),
      (''DeviceID'', I32),
      (''DeviceFlags'', I32),
      (''ManufacturerID'', I16),
      (''ProductID'', I16),
      (''ID'', I32),
      (''Number'', UChar),
      (''Type'', I32),
      (''Func'', I32),
      (''FuncList'', I32),
      (''ChannelFlags'', U32),
      (''CaptionSize'', U32),
      (''Caption'', (Arr CChar SUPLA_CHANNEL_CAPTION_MAXSIZE))]"

definition TCS_SetChannelFunction :: ctype where
  [struct_defs]: "TCS_SetChannelFunction = Struct
     [(''ChannelID'', I32),
      (''Func'', I32)]"

definition TSC_SetChannelFunctionResult :: ctype where
  [struct_defs]: "TSC_SetChannelFunctionResult = Struct
     [(''ChannelID'', I32),
      (''Func'', I32),
      (''ResultCode'', UChar)]"

definition TDCS_SetCaption :: ctype where
  [struct_defs]: "TDCS_SetCaption = Struct
     [('''', (Union [(''ChannelNumber'', UChar), (''ID'', I32)])),
      (''CaptionSize'', U32),
      (''Caption'', (Arr CChar SUPLA_CAPTION_MAXSIZE))]"

definition TSCD_SetCaptionResult :: ctype where
  [struct_defs]: "TSCD_SetCaptionResult = Struct
     [('''', (Union [(''ChannelNumber'', UChar), (''ID'', I32)])),
      (''ResultCode'', UChar),
      (''CaptionSize'', U32),
      (''Caption'', (Arr CChar SUPLA_CAPTION_MAXSIZE))]"

definition TSC_ClientsReconnectRequestResult :: ctype where
  [struct_defs]: "TSC_ClientsReconnectRequestResult = Struct
     [(''ResultCode'', UChar)]"

definition TCS_SetRegistrationEnabled :: ctype where
  [struct_defs]: "TCS_SetRegistrationEnabled = Struct
     [(''IODeviceRegistrationTimeSec'', I32),
      (''ClientRegistrationTimeSec'', I32)]"

definition TSC_SetRegistrationEnabledResult :: ctype where
  [struct_defs]: "TSC_SetRegistrationEnabledResult = Struct
     [(''ResultCode'', UChar)]"

definition TCS_DeviceReconnectRequest :: ctype where
  [struct_defs]: "TCS_DeviceReconnectRequest = Struct
     [(''DeviceID'', I32)]"

definition TSC_DeviceReconnectRequestResult :: ctype where
  [struct_defs]: "TSC_DeviceReconnectRequestResult = Struct
     [(''DeviceID'', I32),
      (''ResultCode'', UChar)]"

definition TSD_ChannelFunctions :: ctype where
  [struct_defs]: "TSD_ChannelFunctions = Struct
     [(''ChannelCount'', UChar),
      (''Functions'', (Arr I32 SUPLA_CHANNELMAXCOUNT))]"

definition TSDS_SetDeviceConfig :: ctype where
  [struct_defs]: "TSDS_SetDeviceConfig = Struct
     [(''EndOfDataFlag'', UChar),
      (''zero'', (Arr UChar 8)),
      (''AvailableFields'', U64),
      (''Fields'', U64),
      (''ConfigSize'', U16),
      (''Config'', (Arr CChar SUPLA_DEVICE_CONFIG_MAXSIZE))]"

definition TSDS_SetDeviceConfigResult :: ctype where
  [struct_defs]: "TSDS_SetDeviceConfigResult = Struct
     [(''Result'', UChar),
      (''zero'', (Arr UChar 9))]"

definition TSCS_DeviceConfig :: ctype where
  [struct_defs]: "TSCS_DeviceConfig = Struct
     [(''DeviceId'', I32),
      (''EndOfDataFlag'', UChar),
      (''zero'', (Arr UChar 8)),
      (''AvailableFields'', U64),
      (''Fields'', U64),
      (''ConfigSize'', U16),
      (''Config'', (Arr CChar SUPLA_DEVICE_CONFIG_MAXSIZE))]"

definition TSC_DeviceConfigUpdateOrResult :: ctype where
  [struct_defs]: "TSC_DeviceConfigUpdateOrResult = Struct
     [(''Result'', UChar),
      (''Config'', TSCS_DeviceConfig)]"

definition TCS_GetDeviceConfigRequest :: ctype where
  [struct_defs]: "TCS_GetDeviceConfigRequest = Struct
     [(''DeviceId'', I32),
      (''Fields'', U64),
      (''zero'', (Arr UChar 8))]"

definition TCS_GetChannelConfigRequest :: ctype where
  [struct_defs]: "TCS_GetChannelConfigRequest = Struct
     [(''ChannelId'', I32),
      (''ConfigType'', UChar),
      (''Flags'', U32)]"

definition TSCS_ChannelConfig :: ctype where
  [struct_defs]: "TSCS_ChannelConfig = Struct
     [(''ChannelId'', I32),
      (''Func'', I32),
      (''ConfigType'', UChar),
      (''ConfigSize'', U16),
      (''Config'', (Arr CChar SUPLA_CHANNEL_CONFIG_MAXSIZE))]"

definition TSC_ChannelConfigUpdateOrResult :: ctype where
  [struct_defs]: "TSC_ChannelConfigUpdateOrResult = Struct
     [(''Result'', UChar),
      (''Config'', TSCS_ChannelConfig)]"

definition TDS_GetChannelConfigRequest :: ctype where
  [struct_defs]: "TDS_GetChannelConfigRequest = Struct
     [(''ChannelNumber'', UChar),
      (''ConfigType'', UChar),
      (''Flags'', U32)]"

definition TSD_ChannelConfig :: ctype where
  [struct_defs]: "TSD_ChannelConfig = Struct
     [(''ChannelNumber'', UChar),
      (''Func'', I32),
      (''ConfigType'', UChar),
      (''ConfigSize'', U16),
      (''Config'', (Arr CChar SUPLA_CHANNEL_CONFIG_MAXSIZE))]"

definition TSDS_SetChannelConfigResult :: ctype where
  [struct_defs]: "TSDS_SetChannelConfigResult = Struct
     [(''Result'', UChar),
      (''ConfigType'', UChar),
      (''ChannelNumber'', UChar)]"

definition TSD_ChannelConfigFinished :: ctype where
  [struct_defs]: "TSD_ChannelConfigFinished = Struct
     [(''ChannelNumber'', UChar)]"

definition TCS_TimerArmRequest :: ctype where
  [struct_defs]: "TCS_TimerArmRequest = Struct
     [(''ChannelID'', I32),
      ('''', (Union [(''DurationMS'', U32), (''DurationSec'', U32)])),
      (''On'', UChar)]"

definition TDS_ActionTrigger :: ctype where
  [struct_defs]: "TDS_ActionTrigger = Struct
     [(''ChannelNumber'', UChar),
      (''ActionTrigger'', I32),
      (''zero'', (Arr UChar 10))]"

definition TDS_RegisterPushNotification :: ctype where
  [struct_defs]: "TDS_RegisterPushNotification = Struct
     [(''ServerManagedFields'', UChar),
      (''Context'', I16),
      (''Reserved'', (Arr SChar 8))]"

definition TDS_PushNotification :: ctype where
  [struct_defs]: "TDS_PushNotification = Struct
     [(''Context'', I16),
      (''Reserved'', (Arr SChar 32)),
      (''SoundId'', I32),
      (''TitleSize'', U16),
      (''BodySize'', U16),
      (''TitleAndBody'', (Arr SChar (SUPLA_PN_TITLE_MAXSIZE + SUPLA_PN_BODY_MAXSIZE)))]"

definition TDS_SubdeviceDetails :: ctype where
  [struct_defs]: "TDS_SubdeviceDetails = Struct
     [(''SubDeviceId'', UChar),
      (''Name'', (Arr CChar SUPLA_DEVICE_NAME_MAXSIZE)),
      (''SoftVer'', (Arr CChar SUPLA_SOFTVER_MAXSIZE)),
      (''ProductCode'', (Arr CChar SUPLA_SUBDEVICE_PRODUCT_CODE_MAXSIZE)),
      (''SerialNumber'', (Arr CChar SUPLA_SUBDEVICE_SERIAL_NUMBER_MAXSIZE))]"

definition TCS_PnClientToken :: ctype where
  [struct_defs]: "TCS_PnClientToken = Struct
     [(''DevelopmentEnv'', UChar),
      (''Platform'', I32),
      (''AppId'', I32),
      (''ProfileName'', (Arr SChar SUPLA_PN_PROFILE_NAME_MAXSIZE)),
      (''RealTokenSize'', U16),
      (''TokenSize'', U16),
      (''Token'', (Arr SChar SUPLA_PN_CLIENT_TOKEN_MAXSIZE))]"

definition TCS_RegisterPnClientToken :: ctype where
  [struct_defs]: "TCS_RegisterPnClientToken = Struct
     [(''Auth'', TCS_ClientAuthorizationDetails),
      (''Token'', TCS_PnClientToken)]"

definition TSC_RegisterPnClientTokenResult :: ctype where
  [struct_defs]: "TSC_RegisterPnClientTokenResult = Struct
     [(''ResultCode'', I32)]"

definition TSC_SuplaChannelStatePack :: ctype where
  [struct_defs]: "TSC_SuplaChannelStatePack = Struct
     [(''count'', I32),
      (''total_left'', I32),
      (''items'', (Arr TDSC_ChannelState SUPLA_CHANNEL_STATE_PACK_MAXCOUNT))]"

section \<open>Sizes\<close>

lemma sizeof_supla_timeval [layout]: "sizeof supla_timeval = 16"
  by (simp add: supla_timeval_def)

lemma sizeof_timeval_compat [layout]: "sizeof timeval_compat = 8"
  by (simp add: timeval_compat_def)

lemma sizeof_TSuplaDataPacket [layout]: "sizeof (TSuplaDataPacket t) = 18 + SUPLA_MAX_DATA_SIZE t"
  by (simp add: TSuplaDataPacket_def layout const_defs)

lemma sizeof_TSDC_SuplaGetVersionResult [layout]: "sizeof TSDC_SuplaGetVersionResult = 23"
  by (simp add: TSDC_SuplaGetVersionResult_def layout const_defs)

lemma sizeof_TSDC_SuplaVersionError [layout]: "sizeof TSDC_SuplaVersionError = 2"
  by (simp add: TSDC_SuplaVersionError_def layout const_defs)

lemma sizeof_TDCS_SuplaPingServer [layout]: "sizeof TDCS_SuplaPingServer = 16"
  by (simp add: TDCS_SuplaPingServer_def layout const_defs)

lemma sizeof_TDCS_SuplaPingServer_COMPAT [layout]: "sizeof TDCS_SuplaPingServer_COMPAT = 8"
  by (simp add: TDCS_SuplaPingServer_COMPAT_def layout const_defs)

lemma sizeof_TSDC_SuplaPingServerResult [layout]: "sizeof TSDC_SuplaPingServerResult = 16"
  by (simp add: TSDC_SuplaPingServerResult_def layout const_defs)

lemma sizeof_TDCS_SuplaSetActivityTimeout [layout]: "sizeof TDCS_SuplaSetActivityTimeout = 1"
  by (simp add: TDCS_SuplaSetActivityTimeout_def layout const_defs)

lemma sizeof_TSDC_SuplaSetActivityTimeoutResult [layout]: "sizeof TSDC_SuplaSetActivityTimeoutResult = 3"
  by (simp add: TSDC_SuplaSetActivityTimeoutResult_def layout const_defs)

lemma sizeof_TSuplaChannelValue [layout]: "sizeof TSuplaChannelValue = 16"
  by (simp add: TSuplaChannelValue_def layout const_defs)

lemma sizeof_TSuplaChannelValue_B [layout]: "sizeof TSuplaChannelValue_B = 17"
  by (simp add: TSuplaChannelValue_B_def layout const_defs)

lemma sizeof_TSuplaChannelExtendedValue [layout]: "sizeof (TSuplaChannelExtendedValue t) = 5 + SUPLA_CHANNELEXTENDEDVALUE_SIZE t"
  by (simp add: TSuplaChannelExtendedValue_def layout const_defs)

lemma sizeof_TSC_SuplaLocation [layout]: "sizeof TSC_SuplaLocation = 410"
  by (simp add: TSC_SuplaLocation_def layout const_defs)

lemma sizeof_TSC_SuplaLocationPack [layout]: "sizeof TSC_SuplaLocationPack = 8208"
  by (simp add: TSC_SuplaLocationPack_def layout const_defs)

lemma sizeof_TDS_SuplaDeviceChannel [layout]: "sizeof TDS_SuplaDeviceChannel = 13"
  by (simp add: TDS_SuplaDeviceChannel_def layout const_defs)

lemma sizeof_TDS_SuplaRegisterDevice [layout]: "sizeof TDS_SuplaRegisterDevice = 1940"
  by (simp add: TDS_SuplaRegisterDevice_def layout const_defs)

lemma sizeof_TDS_SuplaDeviceChannel_B [layout]: "sizeof TDS_SuplaDeviceChannel_B = 21"
  by (simp add: TDS_SuplaDeviceChannel_B_def layout const_defs)

lemma sizeof_TActionTriggerProperties [layout]: "sizeof TActionTriggerProperties = 5"
  by (simp add: TActionTriggerProperties_def layout const_defs)

lemma sizeof_THVACValue [layout]: "sizeof THVACValue = 8"
  by (simp add: THVACValue_def layout const_defs)

lemma sizeof_TDS_SuplaDeviceChannel_C [layout]: "sizeof TDS_SuplaDeviceChannel_C = 25"
  by (simp add: TDS_SuplaDeviceChannel_C_def layout const_defs)

lemma sizeof_TDS_SuplaDeviceChannel_D [layout]: "sizeof TDS_SuplaDeviceChannel_D = 35"
  by (simp add: TDS_SuplaDeviceChannel_D_def layout const_defs)

lemma sizeof_TDS_SuplaDeviceChannel_E [layout]: "sizeof TDS_SuplaDeviceChannel_E = 36"
  by (simp add: TDS_SuplaDeviceChannel_E_def layout const_defs)

lemma sizeof_TDS_SuplaRegisterDevice_B [layout]: "sizeof TDS_SuplaRegisterDevice_B = 2964"
  by (simp add: TDS_SuplaRegisterDevice_B_def layout const_defs)

lemma sizeof_TDS_SuplaRegisterDevice_C [layout]: "sizeof TDS_SuplaRegisterDevice_C = 3029"
  by (simp add: TDS_SuplaRegisterDevice_C_def layout const_defs)

lemma sizeof_TDS_SuplaRegisterDevice_D [layout]: "sizeof TDS_SuplaRegisterDevice_D = 3264"
  by (simp add: TDS_SuplaRegisterDevice_D_def layout const_defs)

lemma sizeof_TDS_SuplaRegisterDevice_E [layout]: "sizeof TDS_SuplaRegisterDevice_E = 3784"
  by (simp add: TDS_SuplaRegisterDevice_E_def layout const_defs)

lemma sizeof_TDS_SuplaRegisterDeviceHeader [layout]: "sizeof TDS_SuplaRegisterDeviceHeader = 584"
  by (simp add: TDS_SuplaRegisterDeviceHeader_def layout const_defs)

lemma sizeof_TDS_SuplaRegisterDevice_F [layout]: "sizeof TDS_SuplaRegisterDevice_F = 5064"
  by (simp add: TDS_SuplaRegisterDevice_F_def layout const_defs)

lemma sizeof_TDS_SuplaRegisterDevice_G [layout]: "sizeof TDS_SuplaRegisterDevice_G = 5192"
  by (simp add: TDS_SuplaRegisterDevice_G_def layout const_defs)

lemma sizeof_TSD_SuplaRegisterDeviceResult [layout]: "sizeof TSD_SuplaRegisterDeviceResult = 7"
  by (simp add: TSD_SuplaRegisterDeviceResult_def layout const_defs)

lemma sizeof_TSD_SuplaRegisterDeviceResult_B [layout]: "sizeof TSD_SuplaRegisterDeviceResult_B = 265"
  by (simp add: TSD_SuplaRegisterDeviceResult_B_def layout const_defs)

lemma sizeof_TDS_SuplaDeviceChannelValue [layout]: "sizeof TDS_SuplaDeviceChannelValue = 9"
  by (simp add: TDS_SuplaDeviceChannelValue_def layout const_defs)

lemma sizeof_TDS_SuplaDeviceChannelValue_B [layout]: "sizeof TDS_SuplaDeviceChannelValue_B = 10"
  by (simp add: TDS_SuplaDeviceChannelValue_B_def layout const_defs)

lemma sizeof_TDS_SuplaDeviceChannelValue_C [layout]: "sizeof TDS_SuplaDeviceChannelValue_C = 14"
  by (simp add: TDS_SuplaDeviceChannelValue_C_def layout const_defs)

lemma sizeof_TDS_SuplaDeviceChannelExtendedValue [layout]: "sizeof (TDS_SuplaDeviceChannelExtendedValue t) = 6 + SUPLA_CHANNELEXTENDEDVALUE_SIZE t"
  by (simp add: TDS_SuplaDeviceChannelExtendedValue_def layout const_defs)

lemma sizeof_TSD_SuplaChannelNewValue [layout]: "sizeof TSD_SuplaChannelNewValue = 17"
  by (simp add: TSD_SuplaChannelNewValue_def layout const_defs)

lemma sizeof_TSD_SuplaChannelGroupNewValue [layout]: "sizeof TSD_SuplaChannelGroupNewValue = 22"
  by (simp add: TSD_SuplaChannelGroupNewValue_def layout const_defs)

lemma sizeof_TDS_SuplaChannelNewValueResult [layout]: "sizeof TDS_SuplaChannelNewValueResult = 6"
  by (simp add: TDS_SuplaChannelNewValueResult_def layout const_defs)

lemma sizeof_TSC_SuplaChannelValue [layout]: "sizeof TSC_SuplaChannelValue = 22"
  by (simp add: TSC_SuplaChannelValue_def layout const_defs)

lemma sizeof_TSC_SuplaChannelValue_B [layout]: "sizeof TSC_SuplaChannelValue_B = 23"
  by (simp add: TSC_SuplaChannelValue_B_def layout const_defs)

lemma sizeof_TSC_SuplaChannelValuePack [layout]: "sizeof TSC_SuplaChannelValuePack = 448"
  by (simp add: TSC_SuplaChannelValuePack_def layout const_defs)

lemma sizeof_TSC_SuplaChannelValuePack_B [layout]: "sizeof TSC_SuplaChannelValuePack_B = 468"
  by (simp add: TSC_SuplaChannelValuePack_B_def layout const_defs)

lemma sizeof_TSC_SuplaChannelExtendedValuePack [layout]: "sizeof (TSC_SuplaChannelExtendedValuePack t) = 12 + SUPLA_CHANNELEXTENDEDVALUE_PACK_MAXDATASIZE t"
  by (simp add: TSC_SuplaChannelExtendedValuePack_def layout const_defs)

lemma sizeof_TSC_SuplaChannel [layout]: "sizeof TSC_SuplaChannel = 435"
  by (simp add: TSC_SuplaChannel_def layout const_defs)

lemma sizeof_TSC_SuplaChannelPack [layout]: "sizeof TSC_SuplaChannelPack = 8708"
  by (simp add: TSC_SuplaChannelPack_def layout const_defs)

lemma sizeof_TSC_SuplaChannel_B [layout]: "sizeof TSC_SuplaChannel_B = 444"
  by (simp add: TSC_SuplaChannel_B_def layout const_defs)

lemma sizeof_TSC_SuplaChannelPack_B [layout]: "sizeof TSC_SuplaChannelPack_B = 8888"
  by (simp add: TSC_SuplaChannelPack_B_def layout const_defs)

lemma sizeof_TSC_SuplaChannel_C [layout]: "sizeof TSC_SuplaChannel_C = 460"
  by (simp add: TSC_SuplaChannel_C_def layout const_defs)

lemma sizeof_TSC_SuplaChannel_D [layout]: "sizeof TSC_SuplaChannel_D = 461"
  by (simp add: TSC_SuplaChannel_D_def layout const_defs)

lemma sizeof_TSC_SuplaChannel_E [layout]: "sizeof TSC_SuplaChannel_E = 469"
  by (simp add: TSC_SuplaChannel_E_def layout const_defs)

lemma sizeof_TSC_SuplaChannelPack_C [layout]: "sizeof TSC_SuplaChannelPack_C = 9208"
  by (simp add: TSC_SuplaChannelPack_C_def layout const_defs)

lemma sizeof_TSC_SuplaChannelPack_D [layout]: "sizeof TSC_SuplaChannelPack_D = 9228"
  by (simp add: TSC_SuplaChannelPack_D_def layout const_defs)

lemma sizeof_TSC_SuplaChannelPack_E [layout]: "sizeof TSC_SuplaChannelPack_E = 9388"
  by (simp add: TSC_SuplaChannelPack_E_def layout const_defs)

lemma sizeof_TSC_SuplaChannelGroup [layout]: "sizeof TSC_SuplaChannelGroup = 426"
  by (simp add: TSC_SuplaChannelGroup_def layout const_defs)

lemma sizeof_TSC_SuplaChannelGroup_B [layout]: "sizeof TSC_SuplaChannelGroup_B = 430"
  by (simp add: TSC_SuplaChannelGroup_B_def layout const_defs)

lemma sizeof_TSC_SuplaChannelGroupPack [layout]: "sizeof TSC_SuplaChannelGroupPack = 8528"
  by (simp add: TSC_SuplaChannelGroupPack_def layout const_defs)

lemma sizeof_TSC_SuplaChannelGroupPack_B [layout]: "sizeof TSC_SuplaChannelGroupPack_B = 8608"
  by (simp add: TSC_SuplaChannelGroupPack_B_def layout const_defs)

lemma sizeof_TSC_SuplaChannelGroupRelation [layout]: "sizeof TSC_SuplaChannelGroupRelation = 9"
  by (simp add: TSC_SuplaChannelGroupRelation_def layout const_defs)

lemma sizeof_TSC_SuplaChannelGroupRelationPack [layout]: "sizeof TSC_SuplaChannelGroupRelationPack = 908"
  by (simp add: TSC_SuplaChannelGroupRelationPack_def layout const_defs)

lemma sizeof_TSC_SuplaChannelRelation [layout]: "sizeof TSC_SuplaChannelRelation = 11"
  by (simp add: TSC_SuplaChannelRelation_def layout const_defs)

lemma sizeof_TSC_SuplaChannelRelationPack [layout]: "sizeof TSC_SuplaChannelRelationPack = 1108"
  by (simp add: TSC_SuplaChannelRelationPack_def layout const_defs)

lemma sizeof_TSC_SuplaScene [layout]: "sizeof TSC_SuplaScene = 420"
  by (simp add: TSC_SuplaScene_def layout const_defs)

lemma sizeof_TSC_SuplaScenePack [layout]: "sizeof TSC_SuplaScenePack = 8408"
  by (simp add: TSC_SuplaScenePack_def layout const_defs)

lemma sizeof_TSC_SuplaSceneState [layout]: "sizeof TSC_SuplaSceneState = 220"
  by (simp add: TSC_SuplaSceneState_def layout const_defs)

lemma sizeof_TSC_SuplaSceneStatePack [layout]: "sizeof TSC_SuplaSceneStatePack = 4408"
  by (simp add: TSC_SuplaSceneStatePack_def layout const_defs)

lemma sizeof_TCS_Action [layout]: "sizeof TCS_Action = 511"
  by (simp add: TCS_Action_def layout const_defs)

lemma sizeof_TCS_ClientAuthorizationDetails [layout]: "sizeof TCS_ClientAuthorizationDetails = 390"
  by (simp add: TCS_ClientAuthorizationDetails_def layout const_defs)

lemma sizeof_TCS_ActionWithAuth [layout]: "sizeof TCS_ActionWithAuth = 901"
  by (simp add: TCS_ActionWithAuth_def layout const_defs)

lemma sizeof_TSC_ActionExecutionResult [layout]: "sizeof TSC_ActionExecutionResult = 13"
  by (simp add: TSC_ActionExecutionResult_def layout const_defs)

lemma sizeof_TSC_GetChannelValueResult [layout]: "sizeof (TSC_GetChannelValueResult t) = 31 + SUPLA_CHANNELEXTENDEDVALUE_SIZE t"
  by (simp add: TSC_GetChannelValueResult_def layout const_defs)

lemma sizeof_TCS_GetChannelValueWithAuth [layout]: "sizeof TCS_GetChannelValueWithAuth = 394"
  by (simp add: TCS_GetChannelValueWithAuth_def layout const_defs)

lemma sizeof_TCS_SuplaRegisterClient [layout]: "sizeof TCS_SuplaRegisterClient = 275"
  by (simp add: TCS_SuplaRegisterClient_def layout const_defs)

lemma sizeof_TCS_SuplaRegisterClient_B [layout]: "sizeof TCS_SuplaRegisterClient_B = 340"
  by (simp add: TCS_SuplaRegisterClient_B_def layout const_defs)

lemma sizeof_TCS_SuplaRegisterClient_C [layout]: "sizeof TCS_SuplaRegisterClient_C = 575"
  by (simp add: TCS_SuplaRegisterClient_C_def layout const_defs)

lemma sizeof_TCS_SuplaRegisterClient_D [layout]: "sizeof TCS_SuplaRegisterClient_D = 639"
  by (simp add: TCS_SuplaRegisterClient_D_def layout const_defs)

lemma sizeof_TSC_SuplaRegisterClientResult [layout]: "sizeof TSC_SuplaRegisterClientResult = 19"
  by (simp add: TSC_SuplaRegisterClientResult_def layout const_defs)

lemma sizeof_TSC_SuplaRegisterClientResult_B [layout]: "sizeof TSC_SuplaRegisterClientResult_B = 27"
  by (simp add: TSC_SuplaRegisterClientResult_B_def layout const_defs)

lemma sizeof_TSC_SuplaRegisterClientResult_C [layout]: "sizeof TSC_SuplaRegisterClientResult_C = 31"
  by (simp add: TSC_SuplaRegisterClientResult_C_def layout const_defs)

lemma sizeof_TSC_SuplaRegisterClientResult_D [layout]: "sizeof TSC_SuplaRegisterClientResult_D = 27"
  by (simp add: TSC_SuplaRegisterClientResult_D_def layout const_defs)

lemma sizeof_TCS_SuplaChannelNewValue [layout]: "sizeof TCS_SuplaChannelNewValue = 9"
  by (simp add: TCS_SuplaChannelNewValue_def layout const_defs)

lemma sizeof_TCS_SuplaChannelNewValue_B [layout]: "sizeof TCS_SuplaChannelNewValue_B = 12"
  by (simp add: TCS_SuplaChannelNewValue_B_def layout const_defs)

lemma sizeof_TCS_SuplaNewValue [layout]: "sizeof TCS_SuplaNewValue = 13"
  by (simp add: TCS_SuplaNewValue_def layout const_defs)

lemma sizeof_TSC_SuplaEvent [layout]: "sizeof TSC_SuplaEvent = 221"
  by (simp add: TSC_SuplaEvent_def layout const_defs)

lemma sizeof_TDS_FirmwareUpdateParams [layout]: "sizeof TDS_FirmwareUpdateParams = 17"
  by (simp add: TDS_FirmwareUpdateParams_def layout const_defs)

lemma sizeof_TSD_FirmwareUpdate_Url [layout]: "sizeof TSD_FirmwareUpdate_Url = 207"
  by (simp add: TSD_FirmwareUpdate_Url_def layout const_defs)

lemma sizeof_TSD_FirmwareUpdate_UrlResult [layout]: "sizeof TSD_FirmwareUpdate_UrlResult = 208"
  by (simp add: TSD_FirmwareUpdate_UrlResult_def layout const_defs)

lemma sizeof_TSDC_RegistrationEnabled [layout]: "sizeof TSDC_RegistrationEnabled = 8"
  by (simp add: TSDC_RegistrationEnabled_def layout const_defs)

lemma sizeof_TSC_OAuthToken [layout]: "sizeof TSC_OAuthToken = 264"
  by (simp add: TSC_OAuthToken_def layout const_defs)

lemma sizeof_TSC_OAuthTokenRequestResult [layout]: "sizeof TSC_OAuthTokenRequestResult = 265"
  by (simp add: TSC_OAuthTokenRequestResult_def layout const_defs)

lemma sizeof_TElectricityMeter_Measurement [layout]: "sizeof TElectricityMeter_Measurement = 62"
  by (simp add: TElectricityMeter_Measurement_def layout const_defs)

lemma sizeof_TElectricityMeter_ExtendedValue [layout]: "sizeof (TElectricityMeter_ExtendedValue t) = 119 + 62 * EM_MEASUREMENT_COUNT t"
  by (simp add: TElectricityMeter_ExtendedValue_def layout const_defs)

lemma sizeof_TElectricityMeter_ExtendedValue_V2 [layout]: "sizeof (TElectricityMeter_ExtendedValue_V2 t) = 139 + 62 * EM_MEASUREMENT_COUNT t"
  by (simp add: TElectricityMeter_ExtendedValue_V2_def layout const_defs)

lemma sizeof_TElectricityMeter_ExtendedValue_V3 [layout]: "sizeof (TElectricityMeter_ExtendedValue_V3 t) = 144 + 62 * EM_MEASUREMENT_COUNT t"
  by (simp add: TElectricityMeter_ExtendedValue_V3_def layout const_defs)

lemma sizeof_TSC_ImpulseCounter_ExtendedValue [layout]: "sizeof TSC_ImpulseCounter_ExtendedValue = 40"
  by (simp add: TSC_ImpulseCounter_ExtendedValue_def layout const_defs)

lemma sizeof_TCS_SuperUserAuthorizationRequest [layout]: "sizeof TCS_SuperUserAuthorizationRequest = 320"
  by (simp add: TCS_SuperUserAuthorizationRequest_def layout const_defs)

lemma sizeof_TSC_SuperUserAuthorizationResult [layout]: "sizeof TSC_SuperUserAuthorizationResult = 4"
  by (simp add: TSC_SuperUserAuthorizationResult_def layout const_defs)

lemma sizeof_TCS_DeviceCalCfgRequest [layout]: "sizeof TCS_DeviceCalCfgRequest = 144"
  by (simp add: TCS_DeviceCalCfgRequest_def layout const_defs)

lemma sizeof_TCS_DeviceCalCfgRequest_B [layout]: "sizeof TCS_DeviceCalCfgRequest_B = 145"
  by (simp add: TCS_DeviceCalCfgRequest_B_def layout const_defs)

lemma sizeof_TSC_DeviceCalCfgResult [layout]: "sizeof TSC_DeviceCalCfgResult = 144"
  by (simp add: TSC_DeviceCalCfgResult_def layout const_defs)

lemma sizeof_TSD_DeviceCalCfgRequest [layout]: "sizeof TSD_DeviceCalCfgRequest = 149"
  by (simp add: TSD_DeviceCalCfgRequest_def layout const_defs)

lemma sizeof_TDS_DeviceCalCfgResult [layout]: "sizeof TDS_DeviceCalCfgResult = 148"
  by (simp add: TDS_DeviceCalCfgResult_def layout const_defs)

lemma sizeof_TThermostat_Time [layout]: "sizeof TThermostat_Time = 4"
  by (simp add: TThermostat_Time_def layout const_defs)

lemma sizeof_TThermostat_Schedule [layout]: "sizeof TThermostat_Schedule = 169"
  by (simp add: TThermostat_Schedule_def layout const_defs)

lemma sizeof_TThermostat_ExtendedValue [layout]: "sizeof TThermostat_ExtendedValue = 246"
  by (simp add: TThermostat_ExtendedValue_def layout const_defs)

lemma sizeof_TSDC_UserLocalTimeResult [layout]: "sizeof TSDC_UserLocalTimeResult = 63"
  by (simp add: TSDC_UserLocalTimeResult_def layout const_defs)

lemma sizeof_TCSD_ChannelStateRequest [layout]: "sizeof TCSD_ChannelStateRequest = 8"
  by (simp add: TCSD_ChannelStateRequest_def layout const_defs)

lemma sizeof_TDSC_ChannelState [layout]: "sizeof TDSC_ChannelState = 50"
  by (simp add: TDSC_ChannelState_def layout const_defs)

lemma sizeof_TCS_ChannelBasicCfgRequest [layout]: "sizeof TCS_ChannelBasicCfgRequest = 4"
  by (simp add: TCS_ChannelBasicCfgRequest_def layout const_defs)

lemma sizeof_TSC_ChannelBasicCfg [layout]: "sizeof TSC_ChannelBasicCfg = 660"
  by (simp add: TSC_ChannelBasicCfg_def layout const_defs)

lemma sizeof_TCS_SetChannelFunction [layout]: "sizeof TCS_SetChannelFunction = 8"
  by (simp add: TCS_SetChannelFunction_def layout const_defs)

lemma sizeof_TSC_SetChannelFunctionResult [layout]: "sizeof TSC_SetChannelFunctionResult = 9"
  by (simp add: TSC_SetChannelFunctionResult_def layout const_defs)

lemma sizeof_TDCS_SetCaption [layout]: "sizeof TDCS_SetCaption = 409"
  by (simp add: TDCS_SetCaption_def layout const_defs)

lemma sizeof_TSCD_SetCaptionResult [layout]: "sizeof TSCD_SetCaptionResult = 410"
  by (simp add: TSCD_SetCaptionResult_def layout const_defs)

lemma sizeof_TSC_ClientsReconnectRequestResult [layout]: "sizeof TSC_ClientsReconnectRequestResult = 1"
  by (simp add: TSC_ClientsReconnectRequestResult_def layout const_defs)

lemma sizeof_TCS_SetRegistrationEnabled [layout]: "sizeof TCS_SetRegistrationEnabled = 8"
  by (simp add: TCS_SetRegistrationEnabled_def layout const_defs)

lemma sizeof_TSC_SetRegistrationEnabledResult [layout]: "sizeof TSC_SetRegistrationEnabledResult = 1"
  by (simp add: TSC_SetRegistrationEnabledResult_def layout const_defs)

lemma sizeof_TCS_DeviceReconnectRequest [layout]: "sizeof TCS_DeviceReconnectRequest = 4"
  by (simp add: TCS_DeviceReconnectRequest_def layout const_defs)

lemma sizeof_TSC_DeviceReconnectRequestResult [layout]: "sizeof TSC_DeviceReconnectRequestResult = 5"
  by (simp add: TSC_DeviceReconnectRequestResult_def layout const_defs)

lemma sizeof_TSD_ChannelFunctions [layout]: "sizeof TSD_ChannelFunctions = 513"
  by (simp add: TSD_ChannelFunctions_def layout const_defs)

lemma sizeof_TSDS_SetDeviceConfig [layout]: "sizeof TSDS_SetDeviceConfig = 539"
  by (simp add: TSDS_SetDeviceConfig_def layout const_defs)

lemma sizeof_TSDS_SetDeviceConfigResult [layout]: "sizeof TSDS_SetDeviceConfigResult = 10"
  by (simp add: TSDS_SetDeviceConfigResult_def layout const_defs)

lemma sizeof_TSCS_DeviceConfig [layout]: "sizeof TSCS_DeviceConfig = 543"
  by (simp add: TSCS_DeviceConfig_def layout const_defs)

lemma sizeof_TSC_DeviceConfigUpdateOrResult [layout]: "sizeof TSC_DeviceConfigUpdateOrResult = 544"
  by (simp add: TSC_DeviceConfigUpdateOrResult_def layout const_defs)

lemma sizeof_TCS_GetDeviceConfigRequest [layout]: "sizeof TCS_GetDeviceConfigRequest = 20"
  by (simp add: TCS_GetDeviceConfigRequest_def layout const_defs)

lemma sizeof_TCS_GetChannelConfigRequest [layout]: "sizeof TCS_GetChannelConfigRequest = 9"
  by (simp add: TCS_GetChannelConfigRequest_def layout const_defs)

lemma sizeof_TSCS_ChannelConfig [layout]: "sizeof TSCS_ChannelConfig = 523"
  by (simp add: TSCS_ChannelConfig_def layout const_defs)

lemma sizeof_TSC_ChannelConfigUpdateOrResult [layout]: "sizeof TSC_ChannelConfigUpdateOrResult = 524"
  by (simp add: TSC_ChannelConfigUpdateOrResult_def layout const_defs)

lemma sizeof_TDS_GetChannelConfigRequest [layout]: "sizeof TDS_GetChannelConfigRequest = 6"
  by (simp add: TDS_GetChannelConfigRequest_def layout const_defs)

lemma sizeof_TSD_ChannelConfig [layout]: "sizeof TSD_ChannelConfig = 520"
  by (simp add: TSD_ChannelConfig_def layout const_defs)

lemma sizeof_TSDS_SetChannelConfigResult [layout]: "sizeof TSDS_SetChannelConfigResult = 3"
  by (simp add: TSDS_SetChannelConfigResult_def layout const_defs)

lemma sizeof_TSD_ChannelConfigFinished [layout]: "sizeof TSD_ChannelConfigFinished = 1"
  by (simp add: TSD_ChannelConfigFinished_def layout const_defs)

lemma sizeof_TCS_TimerArmRequest [layout]: "sizeof TCS_TimerArmRequest = 9"
  by (simp add: TCS_TimerArmRequest_def layout const_defs)

lemma sizeof_TDS_ActionTrigger [layout]: "sizeof TDS_ActionTrigger = 15"
  by (simp add: TDS_ActionTrigger_def layout const_defs)

lemma sizeof_TDS_RegisterPushNotification [layout]: "sizeof TDS_RegisterPushNotification = 11"
  by (simp add: TDS_RegisterPushNotification_def layout const_defs)

lemma sizeof_TDS_PushNotification [layout]: "sizeof TDS_PushNotification = 399"
  by (simp add: TDS_PushNotification_def layout const_defs)

lemma sizeof_TDS_SubdeviceDetails [layout]: "sizeof TDS_SubdeviceDetails = 325"
  by (simp add: TDS_SubdeviceDetails_def layout const_defs)

lemma sizeof_TCS_PnClientToken [layout]: "sizeof TCS_PnClientToken = 320"
  by (simp add: TCS_PnClientToken_def layout const_defs)

lemma sizeof_TCS_RegisterPnClientToken [layout]: "sizeof TCS_RegisterPnClientToken = 710"
  by (simp add: TCS_RegisterPnClientToken_def layout const_defs)

lemma sizeof_TSC_RegisterPnClientTokenResult [layout]: "sizeof TSC_RegisterPnClientTokenResult = 4"
  by (simp add: TSC_RegisterPnClientTokenResult_def layout const_defs)

lemma sizeof_TSC_SuplaChannelStatePack [layout]: "sizeof TSC_SuplaChannelStatePack = 1008"
  by (simp add: TSC_SuplaChannelStatePack_def layout const_defs)

end
