(* ===== verification/Sproto.thy ===== *)
theory Sproto
  imports Proto_Structs
begin

text \<open>
  The framing layer \<open>proto.c\<close>: growable input and output buffers, packet extraction and packet
  construction.

  \<^item> \<open>packet\<close> is \<open>TSuplaDataPacket\<close>; \<open>sdp_bytes\<close> and \<open>sdp_of_bytes\<close> convert to and from its
    object representation, because the code copies packets by \<open>memcpy\<close> of a computed length.
  \<^item> \<open>sproto_buf\<close> holds what \<open>sproto_buffer_append\<close> reaches through its pointer arguments: the
    allocated size, the number of bytes in use and the block.  \<open>b_dangling\<close> records that the
    stored pointer was freed by \<open>realloc\<close> and not replaced.  The input buffer extends it by
    \<open>begin_tag\<close>.
  \<^item> Sizes are 32-bit words and wrap as in C.
  \<^item> \<open>msg\<close>, \<open>encode\<close> and \<open>parse\<close> are the abstract protocol: what a well-formed frame is and what a
    receiver does with a byte stream.  \<open>sproto_pop_in_sdp_refines\<close> relates the code to it.
\<close>

section \<open>Data\<close>

record packet =
  sdp_tag :: bytes
  sdp_version :: u8
  sdp_rr_id :: u32
  sdp_call_id :: u32
  sdp_data_size :: u32
  sdp_data :: bytes

definition sdp_header :: "packet \<Rightarrow> bytes" where
  "sdp_header p = sdp_tag p @ [sdp_version p] @ u32_bytes (sdp_rr_id p) @
     u32_bytes (sdp_call_id p) @ u32_bytes (sdp_data_size p)"

definition sdp_bytes :: "packet \<Rightarrow> bytes" where
  "sdp_bytes p = sdp_header p @ sdp_data p"

definition sdp_of_bytes :: "bytes \<Rightarrow> packet" where
  "sdp_of_bytes bs = \<lparr>sdp_tag = take 5 bs, sdp_version = bs ! 5,
     sdp_rr_id = bytes_u32 (seg 6 4 bs), sdp_call_id = bytes_u32 (seg 10 4 bs),
     sdp_data_size = bytes_u32 (seg 14 4 bs), sdp_data = drop 18 bs\<rparr>"

definition header_size :: "target \<Rightarrow> u32" where
  "header_size t = of_nat (sizeof (TSuplaDataPacket t) - SUPLA_MAX_DATA_SIZE t)"

record sproto_buf =
  b_size :: u32
  b_data_size :: u32
  b_buffer :: bytes
  b_dangling :: bool

record TSuplaProtoInBuffer = sproto_buf +
  begin_tag :: u8

type_synonym TSuplaProtoOutBuffer = sproto_buf

record TSuplaProtoData =
  next_rr_id :: u32
  sp_version :: u8
  sp_in :: TSuplaProtoInBuffer
  sp_out :: TSuplaProtoOutBuffer

section \<open>Operations\<close>

text \<open>The structure that \<open>sproto_init\<close> returns, unless its allocation fails; the size of the structure depends on the platform and is a parameter.\<close>

definition sproto_new :: TSuplaProtoData where
  "sproto_new = \<lparr>next_rr_id = 0, sp_version = of_nat SUPLA_PROTO_VERSION,
     sp_in = \<lparr>b_size = 0, b_data_size = 0, b_buffer = [], b_dangling = False, begin_tag = 0\<rparr>,
     sp_out = \<lparr>b_size = 0, b_data_size = 0, b_buffer = [], b_dangling = False\<rparr>\<rparr>"

definition sproto_init :: "heap \<Rightarrow> nat \<Rightarrow> TSuplaProtoData option" where
  "sproto_init h sizeof_TSuplaProtoData = (if heap_ok h sizeof_TSuplaProtoData then Some sproto_new else None)"

text \<open>The result code passes through an \<open>unsigned char\<close> and back to \<open>char\<close> in the code; the model
  keeps the code itself.\<close>

definition append_size :: "target \<Rightarrow> 'a sproto_buf_scheme \<Rightarrow> u32 \<Rightarrow> u32" where
  "append_size t b data_size =
     (let size = (if b_size b < of_nat (BUFFER_MIN_SIZE t) then of_nat (BUFFER_MIN_SIZE t)
                  else b_size b)
      in if data_size > size - b_data_size b
         then size + (data_size - (size - b_data_size b))
         else size)"

definition sproto_buffer_append ::
  "target \<Rightarrow> heap \<Rightarrow> 'a sproto_buf_scheme \<Rightarrow> bytes \<Rightarrow> 'a sproto_buf_scheme \<times> int" where
  "sproto_buffer_append t h b data =
     (let data_size = of_nat (length data);
          size = append_size t b data_size;
          copy = (\<lambda>buf. (b\<lparr>b_buffer := overlay (unat (b_data_size b)) data buf,
                           b_size := size, b_data_size := b_data_size b + data_size\<rparr>,
                         SUPLA_RESULT_TRUE))
      in if size \<ge> of_nat (BUFFER_MAX_SIZE t) then (b, SUPLA_RESULT_BUFFER_OVERFLOW)
         else if size \<noteq> b_size b then
           (case realloc h (b_buffer b) (unat size) of
              None \<Rightarrow> if size > 0 then (b, SUPLA_RESULT_FALSE)
                      else if t = OTHER \<and> heap_errno_enomem h then (b, SUPLA_RESULT_FALSE)
                      else copy []
            | Some new_buffer \<Rightarrow>
                if t = OTHER \<and> heap_errno_enomem h
                then (b\<lparr>b_dangling := True\<rparr>, SUPLA_RESULT_FALSE)
                else copy new_buffer)
         else copy (b_buffer b))"

definition sproto_in_buffer_append ::
  "target \<Rightarrow> heap \<Rightarrow> TSuplaProtoData \<Rightarrow> bytes \<Rightarrow> TSuplaProtoData \<times> int" where
  "sproto_in_buffer_append t h spd data =
     (let (b, r) = sproto_buffer_append t h (sp_in spd) data in (spd\<lparr>sp_in := b\<rparr>, r))"

definition sproto_out_buffer_append ::
  "target \<Rightarrow> heap \<Rightarrow> TSuplaProtoData \<Rightarrow> packet \<Rightarrow> TSuplaProtoData \<times> int" where
  "sproto_out_buffer_append t h spd sdp =
     (let sdp_size = of_nat (sizeof (TSuplaDataPacket t)) :: u32;
          packet_size = sdp_size - of_nat (SUPLA_MAX_DATA_SIZE t) + sdp_data_size sdp
      in if packet_size > sdp_size then (spd, SUPLA_RESULT_DATA_TOO_LARGE)
         else let (b, r) = sproto_buffer_append t h (sp_out spd)
                             (take (unat packet_size) (sdp_bytes sdp));
                  spd = spd\<lparr>sp_out := b\<rparr>
              in if r = SUPLA_RESULT_TRUE
                 then let (b, r) = sproto_buffer_append t h (sp_out spd) sproto_tag
                      in (spd\<lparr>sp_out := b\<rparr>, r)
                 else (spd, SUPLA_RESULT_FALSE))"

text \<open>The copying loop \<open>for (a = n; a < data_size; a++) buffer[b++] = buffer[a];\<close> with its two
  indices.\<close>

function shift_loop :: "nat \<Rightarrow> nat \<Rightarrow> nat \<Rightarrow> 'a list \<Rightarrow> 'a list" where
  "shift_loop a b data_size buf =
     (if a < data_size then shift_loop (Suc a) (Suc b) data_size (buf[b := buf ! a]) else buf)"
  by pat_completeness auto
termination by (relation "measure (\<lambda>(a, b, n, buf). n - a)") auto

declare shift_loop.simps [simp del]

text \<open>The tail of \<open>sproto_pop_out_data\<close> and of \<open>sproto_shrink_in_buffer\<close>: give memory back when
  fewer bytes are in use than allocated.\<close>

definition release :: "target \<Rightarrow> heap \<Rightarrow> 'a sproto_buf_scheme \<Rightarrow> 'a sproto_buf_scheme" where
  "release t h b =
     (if b_data_size b < b_size b then
        let size = (if b_data_size b < of_nat (BUFFER_MIN_SIZE t) then of_nat (BUFFER_MIN_SIZE t)
                    else b_data_size b)
        in if b_size b \<noteq> size then
             (case realloc h (b_buffer b) (unat size) of
                None \<Rightarrow> if size > 0 then b else b\<lparr>b_size := size, b_buffer := []\<rparr>
              | Some new_buffer \<Rightarrow> b\<lparr>b_size := size, b_buffer := new_buffer\<rparr>)
           else b
      else b)"

definition sproto_pop_out_data ::
  "target \<Rightarrow> heap \<Rightarrow> TSuplaProtoData \<Rightarrow> bytes option \<Rightarrow> u32 \<Rightarrow>
   TSuplaProtoData \<times> bytes option \<times> u32" where
  "sproto_pop_out_data t h spd buffer buffer_size =
     (case buffer of
        None \<Rightarrow> (spd, None, 0)
      | Some dest \<Rightarrow>
          if b_data_size (sp_out spd) = 0 \<or> buffer_size = 0 then (spd, buffer, 0)
          else
            let out = sp_out spd;
                n = (if b_data_size out < buffer_size then b_data_size out else buffer_size);
                dest = overlay 0 (take (unat n) (b_buffer out)) dest;
                out = out\<lparr>b_buffer := shift_loop (unat n) 0 (unat (b_data_size out)) (b_buffer out),
                          b_data_size := b_data_size out - n\<rparr>
            in (spd\<lparr>sp_out := release t h out\<rparr>, Some dest, n))"

definition sproto_out_dataexists :: "TSuplaProtoData \<Rightarrow> int" where
  "sproto_out_dataexists spd =
     (if b_data_size (sp_out spd) > 0 then SUPLA_RESULT_TRUE else SUPLA_RESULT_FALSE)"

definition sproto_in_dataexists :: "TSuplaProtoData \<Rightarrow> int" where
  "sproto_in_dataexists spd =
     (if b_data_size (sp_in spd) > 0 then SUPLA_RESULT_TRUE else SUPLA_RESULT_FALSE)"

definition sproto_shrink_in_buffer ::
  "target \<Rightarrow> heap \<Rightarrow> TSuplaProtoInBuffer \<Rightarrow> u32 \<Rightarrow> TSuplaProtoInBuffer" where
  "sproto_shrink_in_buffer t h inb n =
     (let inb = inb\<lparr>begin_tag := 0\<rparr>;
          n = (if n > b_data_size inb then b_data_size inb else n)
      in release t h
           (inb\<lparr>b_buffer := shift_loop (unat n) 0 (unat (b_data_size inb)) (b_buffer inb),
                b_data_size := b_data_size inb - n\<rparr>))"

text \<open>\<open>memcpy(sdp, buffer, n)\<close> overwrites the first \<open>n\<close> bytes of the packet object.\<close>

definition sdp_memcpy :: "packet \<Rightarrow> bytes \<Rightarrow> nat \<Rightarrow> packet" where
  "sdp_memcpy sdp buf n = sdp_of_bytes (overlay 0 (take n buf) (sdp_bytes sdp))"

definition sproto_pop_in_sdp ::
  "target \<Rightarrow> heap \<Rightarrow> TSuplaProtoData \<Rightarrow> packet \<Rightarrow> TSuplaProtoData \<times> packet \<times> int" where
  "sproto_pop_in_sdp t h spd sdp =
     (let drop_all = (\<lambda>inb. spd\<lparr>sp_in := sproto_shrink_in_buffer t h inb (b_data_size inb)\<rparr>);
          inb0 = sp_in spd
      in if begin_tag inb0 = 0 \<and> b_data_size inb0 \<ge> of_nat SUPLA_TAG_SIZE \<and>
            take SUPLA_TAG_SIZE (b_buffer inb0) \<noteq> sproto_tag
         then (drop_all inb0, sdp, SUPLA_RESULT_DATA_ERROR)
         else
           let inb = (if begin_tag inb0 = 0 \<and> b_data_size inb0 \<ge> of_nat SUPLA_TAG_SIZE
                      then inb0\<lparr>begin_tag := 1\<rparr> else inb0);
               spd = spd\<lparr>sp_in := inb\<rparr>;
               hd_size = header_size t
           in if begin_tag inb = 1 \<and> b_data_size inb - of_nat SUPLA_TAG_SIZE \<ge> hd_size then
                let q = sdp_of_bytes (b_buffer inb);
                    len = hd_size + sdp_data_size q
                in if sdp_version q > of_nat SUPLA_PROTO_VERSION \<or>
                      sdp_version q < of_nat SUPLA_PROTO_VERSION_MIN
                   then (drop_all inb, sdp\<lparr>sdp_version := sdp_version q\<rparr>, SUPLA_RESULT_VERSION_ERROR)
                   else if unat len > sizeof (TSuplaDataPacket t)
                   then (drop_all inb, sdp, SUPLA_RESULT_DATA_ERROR)
                   else if len + of_nat SUPLA_TAG_SIZE > b_data_size inb
                   then (spd, sdp, SUPLA_RESULT_FALSE)
                   else if len \<ge> b_size inb \<or>
                           seg (unat len) SUPLA_TAG_SIZE (b_buffer inb) \<noteq> sproto_tag
                   then (drop_all inb, sdp, SUPLA_RESULT_DATA_ERROR)
                   else (spd\<lparr>sp_in := sproto_shrink_in_buffer t h inb
                                       (len + of_nat SUPLA_TAG_SIZE)\<rparr>,
                         sdp_memcpy sdp (b_buffer inb) (unat len), SUPLA_RESULT_TRUE)
              else (spd, sdp, SUPLA_RESULT_FALSE))"

definition sproto_set_version :: "TSuplaProtoData \<Rightarrow> u8 \<Rightarrow> TSuplaProtoData" where
  "sproto_set_version spd version =
     (if version \<ge> of_nat SUPLA_PROTO_VERSION_MIN \<and> version \<le> of_nat SUPLA_PROTO_VERSION
      then spd\<lparr>sp_version := version\<rparr>
      else spd\<lparr>sp_version := of_nat SUPLA_PROTO_VERSION\<rparr>)"

definition sproto_get_version :: "TSuplaProtoData \<Rightarrow> u8" where
  "sproto_get_version spd = sp_version spd"

definition sproto_sdp_init :: "target \<Rightarrow> TSuplaProtoData \<Rightarrow> TSuplaProtoData \<times> packet" where
  "sproto_sdp_init t spd =
     (let next = next_rr_id spd + 1;
          next = (if next = 0 then next + 1 else next)
      in (spd\<lparr>next_rr_id := next\<rparr>,
          \<lparr>sdp_tag = sproto_tag, sdp_version = sp_version spd, sdp_rr_id = next,
           sdp_call_id = 0, sdp_data_size = 0,
           sdp_data = replicate (SUPLA_MAX_DATA_SIZE t) 0\<rparr>))"

definition sproto_sdp_malloc ::
  "target \<Rightarrow> heap \<Rightarrow> TSuplaProtoData \<Rightarrow> TSuplaProtoData \<times> packet option" where
  "sproto_sdp_malloc t h spd =
     (if heap_ok h (sizeof (TSuplaDataPacket t))
      then let (spd, sdp) = sproto_sdp_init t spd in (spd, Some sdp)
      else (spd, None))"

definition sproto_set_data ::
  "target \<Rightarrow> packet \<Rightarrow> bytes option \<Rightarrow> u32 \<Rightarrow> u32 \<Rightarrow> packet \<times> int" where
  "sproto_set_data t sdp data data_size call_id =
     (if unat data_size > SUPLA_MAX_DATA_SIZE t \<or> (data_size > 0 \<and> data = None)
      then (sdp, SUPLA_RESULT_FALSE)
      else (sdp\<lparr>sdp_data := (case data of
                               None \<Rightarrow> sdp_data sdp
                             | Some d \<Rightarrow> overlay 0 (take (unat data_size) d) (sdp_data sdp)),
                sdp_data_size := data_size, sdp_call_id := call_id\<rparr>, SUPLA_RESULT_TRUE))"

text \<open>Copying a C string.  \<open>dest\<close> is the destination block, \<open>dest_size\<close> the
  16-bit size variable; either pointer may be NULL.\<close>

definition snprintf_s :: "bytes \<Rightarrow> nat \<Rightarrow> bytes \<Rightarrow> bytes" where
  "snprintf_s dest max_size src = overlay 0 (take (max_size - 1) (c_str src) @ [0]) dest"

definition sproto__set_null_terminated_string ::
  "bytes option \<Rightarrow> bytes option \<Rightarrow> u16 option \<Rightarrow> nat \<Rightarrow> bytes option \<times> u16 option" where
  "sproto__set_null_terminated_string src dest dest_size max_size =
     (if max_size = 0 then (dest, dest_size)
      else case (dest, dest_size) of
        (Some d, Some _) \<Rightarrow>
          (case src of
             Some s \<Rightarrow>
               let d = snprintf_s d max_size s
               in (Some d, Some (of_nat (length (c_str (take (max_size - 1) d)) + 1)))
           | None \<Rightarrow> (Some (overlay 0 [0] d), Some 1))
      | _ \<Rightarrow> (map_option (overlay 0 [0]) dest, map_option (\<lambda>_. 0) dest_size))"

definition sproto_set_null_terminated_string ::
  "bytes option \<Rightarrow> bytes option \<Rightarrow> nat \<Rightarrow> bytes option \<times> u32" where
  "sproto_set_null_terminated_string src dest max_size =
     (let (d, n) = sproto__set_null_terminated_string src dest (Some 0) max_size
      in (d, case n of Some n \<Rightarrow> ucast n | None \<Rightarrow> 0))"

section \<open>Invariants and the abstract protocol\<close>

text \<open>\<open>buf_inv\<close>: the pointer is live, the block has the recorded size, the used part fits and the
  block is smaller than \<open>BUFFER_MAX_SIZE\<close>.  \<open>contents\<close> is the used part.  \<open>good_heap\<close> excludes a
  stale \<open>errno\<close> on the builds that look at it.\<close>

definition buf_inv :: "target \<Rightarrow> 'a sproto_buf_scheme \<Rightarrow> bool" where
  "buf_inv t b \<longleftrightarrow> \<not> b_dangling b \<and> length (b_buffer b) = unat (b_size b) \<and>
     b_data_size b \<le> b_size b \<and> unat (b_size b) < BUFFER_MAX_SIZE t"

definition contents :: "'a sproto_buf_scheme \<Rightarrow> bytes" where
  "contents b = take (unat (b_data_size b)) (b_buffer b)"

definition good_heap :: "target \<Rightarrow> heap \<Rightarrow> bool" where
  "good_heap t h \<longleftrightarrow> (t = OTHER \<longrightarrow> \<not> heap_errno_enomem h)"

definition in_inv :: "target \<Rightarrow> TSuplaProtoInBuffer \<Rightarrow> bool" where
  "in_inv t b \<longleftrightarrow> buf_inv t b \<and>
     (begin_tag b = 0 \<or> begin_tag b = 1 \<and> 5 \<le> length (contents b) \<and> take 5 (contents b) = sproto_tag)"

definition spd_inv :: "target \<Rightarrow> TSuplaProtoData \<Rightarrow> bool" where
  "spd_inv t spd \<longleftrightarrow> in_inv t (sp_in spd) \<and> buf_inv t (sp_out spd) \<and>
     1 \<le> unat (sp_version spd) \<and> unat (sp_version spd) \<le> SUPLA_PROTO_VERSION"

definition packet_wf :: "target \<Rightarrow> packet \<Rightarrow> bool" where
  "packet_wf t p \<longleftrightarrow> length (sdp_tag p) = 5 \<and> length (sdp_data p) = SUPLA_MAX_DATA_SIZE t"

record msg =
  m_version :: u8
  m_rr_id :: u32
  m_call_id :: u32
  m_payload :: bytes

definition msg_of :: "packet \<Rightarrow> msg" where
  "msg_of p = \<lparr>m_version = sdp_version p, m_rr_id = sdp_rr_id p, m_call_id = sdp_call_id p,
     m_payload = take (unat (sdp_data_size p)) (sdp_data p)\<rparr>"

definition msg_header :: "msg \<Rightarrow> bytes" where
  "msg_header m = sproto_tag @ [m_version m] @ u32_bytes (m_rr_id m) @ u32_bytes (m_call_id m) @
     u32_bytes (of_nat (length (m_payload m)))"

definition encode :: "msg \<Rightarrow> bytes" where
  "encode m = msg_header m @ m_payload m @ sproto_tag"

definition msg_ok :: "target \<Rightarrow> msg \<Rightarrow> bool" where
  "msg_ok t m \<longleftrightarrow> 1 \<le> unat (m_version m) \<and> unat (m_version m) \<le> SUPLA_PROTO_VERSION \<and>
     length (m_payload m) \<le> SUPLA_MAX_DATA_SIZE t"

text \<open>The declared length does not wrap when the header size is added to it.\<close>

definition no_wrap :: "bytes \<Rightarrow> bool" where
  "no_wrap bs \<longleftrightarrow> (23 \<le> length bs \<longrightarrow> le_nat (seg 14 4 bs) < 2 ^ 32 - 18)"

datatype parsed = Need_More | Bad_Frame | Bad_Version u8 | Frame msg bytes

definition parse :: "target \<Rightarrow> bytes \<Rightarrow> parsed" where
  "parse t bs =
     (if length bs < 5 then Need_More
      else if take 5 bs \<noteq> sproto_tag then Bad_Frame
      else if length bs < 23 then Need_More
      else let v = bs ! 5; n = le_nat (seg 14 4 bs) in
        if unat v > SUPLA_PROTO_VERSION \<or> unat v < SUPLA_PROTO_VERSION_MIN then Bad_Version v
        else if n > SUPLA_MAX_DATA_SIZE t then Bad_Frame
        else if length bs < 23 + n then Need_More
        else if seg (18 + n) 5 bs \<noteq> sproto_tag then Bad_Frame
        else Frame \<lparr>m_version = v, m_rr_id = bytes_u32 (seg 6 4 bs),
                     m_call_id = bytes_u32 (seg 10 4 bs), m_payload = seg 18 n bs\<rparr>
                   (drop (23 + n) bs))"

section \<open>Concrete states used by the witnesses\<close>

definition heap_any :: heap where
  "heap_any = \<lparr>heap_ok = (\<lambda>_. True), heap_junk = (\<lambda>_. 0), heap_errno_enomem = False\<rparr>"

definition in_of :: "bytes \<Rightarrow> TSuplaProtoData" where
  "in_of bs = fst (sproto_in_buffer_append OTHER heap_any sproto_new bs)"

definition demo_msg :: msg where
  "demo_msg = \<lparr>m_version = 25, m_rr_id = 7, m_call_id = 40, m_payload = [1, 2, 3]\<rparr>"

definition blank_packet :: "target \<Rightarrow> packet" where
  "blank_packet t = snd (sproto_sdp_init t sproto_new)"

definition wrap_frame :: bytes where
  "wrap_frame = sproto_tag @ [25] @ u32_bytes 1 @ u32_bytes 40 @ u32_bytes (- 18) @ sproto_tag"

definition out_filled :: "nat \<Rightarrow> TSuplaProtoData" where
  "out_filled k = sproto_new\<lparr>sp_out := \<lparr>b_size = of_nat k, b_data_size = of_nat k,
     b_buffer = replicate k 0, b_dangling = False\<rparr>\<rparr>"

section \<open>Buffers\<close>

lemma buf_invD:
  assumes "buf_inv t b"
  shows "\<not> b_dangling b" "length (b_buffer b) = unat (b_size b)"
    "unat (b_data_size b) \<le> unat (b_size b)" "unat (b_size b) < BUFFER_MAX_SIZE t"
    "unat (b_size b) < 131072" "length (contents b) = unat (b_data_size b)"
  using assms BUFFER_bounds(4) [of t]
  by (auto simp: buf_inv_def word_le_nat_alt contents_def)

lemma unat_BUFFER [simp]:
  "unat (of_nat (BUFFER_MIN_SIZE t) :: u32) = BUFFER_MIN_SIZE t"
  "unat (of_nat (BUFFER_MAX_SIZE t) :: u32) = BUFFER_MAX_SIZE t"
  by (cases t; simp)+

lemma append_size_nat:
  assumes "buf_inv t b" and "length data < 2 ^ 31"
  shows "unat (append_size t b (of_nat (length data))) =
    max (max (unat (b_size b)) (BUFFER_MIN_SIZE t)) (unat (b_data_size b) + length data)"
proof -
  note inv = buf_invD [OF assms(1)]
  define s where "s = (if b_size b < of_nat (BUFFER_MIN_SIZE t) then of_nat (BUFFER_MIN_SIZE t) else b_size b)"
  have s: "unat s = max (unat (b_size b)) (BUFFER_MIN_SIZE t)"
    by (auto simp: s_def word_less_nat_alt max_def)
  have bs: "unat s < 131072" using inv(5) BUFFER_bounds(1) [of t] s by auto
  have n: "unat (of_nat (length data) :: u32) = length data"
    using assms(2) by (simp add: unat_of_nat)
  have le: "b_data_size b \<le> s" using inv(3) s by (simp add: word_le_nat_alt)
  have d: "unat (s - b_data_size b) = unat s - unat (b_data_size b)"
    using le by (rule unat_sub_u32)
  show ?thesis
  proof (cases "of_nat (length data) > s - b_data_size b")
    case True
    then have gt: "length data > unat s - unat (b_data_size b)"
      by (simp add: word_less_nat_alt n d)
    have e: "unat (of_nat (length data) - (s - b_data_size b)) = length data - (unat s - unat (b_data_size b))"
      using True by (simp add: unat_sub_u32 less_imp_le n d)
    have "unat (s + (of_nat (length data) - (s - b_data_size b))) =
        unat s + (length data - (unat s - unat (b_data_size b)))"
      using bs assms(2) by (subst unat_add_u32) (simp_all add: e)
    with True gt show ?thesis
      using inv(3) s by (simp add: append_size_def s_def [symmetric] Let_def) linarith
  next
    case False
    then have "length data \<le> unat s - unat (b_data_size b)"
      by (simp add: word_less_nat_alt n d)
    with False show ?thesis
      using inv(3) s by (simp add: append_size_def s_def [symmetric] Let_def)
  qed
qed

lemma buf_inv_copy:
  assumes "buf_inv t b" and "length data < 2 ^ 31"
    and "unat sz < BUFFER_MAX_SIZE t" and "unat (b_data_size b) + length data \<le> unat sz"
    and "length buf = unat sz" and "take (unat (b_data_size b)) buf = contents b"
  defines "b' \<equiv> b\<lparr>b_buffer := overlay (unat (b_data_size b)) data buf, b_size := sz,
                    b_data_size := b_data_size b + of_nat (length data)\<rparr>"
  shows "buf_inv t b'" and "contents b' = contents b @ data"
proof -
  have n: "unat (of_nat (length data) :: u32) = length data"
    using assms(2) by (simp add: unat_of_nat)
  have bd: "unat sz < 131072" using assms(3) BUFFER_bounds(4) [of t] by simp
  have ds: "unat (b_data_size b + of_nat (length data)) = unat (b_data_size b) + length data"
    using assms(4) bd by (subst unat_add_u32) (simp_all add: n)
  show "buf_inv t b'"
    using assms(1,3,4,5) ds by (simp add: buf_inv_def b'_def length_overlay word_le_nat_alt)
  show "contents b' = contents b @ data"
    using assms(4,5,6) by (simp add: contents_def b'_def ds take_overlay_all)
qed

lemma sproto_buffer_append_cases:
  assumes inv: "buf_inv t b" and len: "length data < 2 ^ 31" and gh: "good_heap t h"
  shows "(sproto_buffer_append t h b data = (b, SUPLA_RESULT_BUFFER_OVERFLOW) \<and>
            BUFFER_MAX_SIZE t \<le> max (BUFFER_MIN_SIZE t) (unat (b_data_size b) + length data)) \<or>
         (sproto_buffer_append t h b data = (b, SUPLA_RESULT_FALSE) \<and> (\<exists>n. \<not> heap_ok h n) \<and>
            unat (b_data_size b) + length data < BUFFER_MAX_SIZE t) \<or>
         (\<exists>b'. sproto_buffer_append t h b data = (b', SUPLA_RESULT_TRUE) \<and> buf_inv t b' \<and>
            contents b' = contents b @ data \<and> b_data_size b' = b_data_size b + of_nat (length data))"
  (is "?ovf \<or> ?oom \<or> ?ok")
proof -
  note D = buf_invD [OF inv]
  define sz where "sz = append_size t b (of_nat (length data))"
  have sz: "unat sz = max (max (unat (b_size b)) (BUFFER_MIN_SIZE t)) (unat (b_data_size b) + length data)"
    unfolding sz_def by (rule append_size_nat [OF inv len])
  show ?thesis
  proof (cases "sz \<ge> of_nat (BUFFER_MAX_SIZE t)")
    case True
    then have "BUFFER_MAX_SIZE t \<le> unat sz" by (simp add: word_le_nat_alt)
    with True D(4) have ?ovf
      by (simp add: sproto_buffer_append_def Let_def sz_def [symmetric] sz)
    then show ?thesis by blast
  next
    case False
    then have small: "unat sz < BUFFER_MAX_SIZE t" by (simp add: word_le_nat_alt)
    have fit: "unat (b_data_size b) + length data \<le> unat sz" using sz by simp
    have grow: "unat (b_size b) \<le> unat sz" using sz by simp
    let ?b = "\<lambda>buf. b\<lparr>b_buffer := overlay (unat (b_data_size b)) data buf, b_size := sz,
                    b_data_size := b_data_size b + of_nat (length data)\<rparr>"
    show ?thesis
    proof (cases "sz = b_size b")
      case True
      have "sproto_buffer_append t h b data = (?b (b_buffer b), SUPLA_RESULT_TRUE)"
        using False True by (simp add: sproto_buffer_append_def Let_def sz_def [symmetric])
      moreover have "buf_inv t (?b (b_buffer b))" "contents (?b (b_buffer b)) = contents b @ data"
        using buf_inv_copy [OF inv len small fit, of "b_buffer b"] True D(2)
        by (simp_all add: contents_def)
      ultimately show ?thesis by auto
    next
      case ne: False
      with grow have pos: "sz > 0" by (simp add: word_less_nat_alt) (metis le_zero_eq neq0_conv unat_eq_zero)
      show ?thesis
      proof (cases "realloc h (b_buffer b) (unat sz)")
        case None
        then have "\<not> heap_ok h (unat sz)" by (simp add: realloc_def split: if_splits)
        moreover have "sproto_buffer_append t h b data = (b, SUPLA_RESULT_FALSE)"
          using False ne None pos by (simp add: sproto_buffer_append_def Let_def sz_def [symmetric])
        ultimately have ?oom using fit small by auto
        then show ?thesis by blast
      next
        case (Some buf)
        have e: "sproto_buffer_append t h b data = (?b buf, SUPLA_RESULT_TRUE)"
          using False ne Some gh by (simp add: sproto_buffer_append_def Let_def sz_def [symmetric] good_heap_def)
        have "length buf = unat sz" using Some by (rule length_realloc)
        moreover have "take (unat (b_data_size b)) buf = contents b"
          using take_realloc [OF Some] D(2,3) grow by (simp add: contents_def)
        ultimately have "buf_inv t (?b buf)" "contents (?b buf) = contents b @ data"
          using buf_inv_copy [OF inv len small fit] by blast+
        with e show ?thesis by auto
      qed
    qed
  qed
qed

subsection \<open>Consuming bytes\<close>

lemma length_shift_loop [simp]: "length (shift_loop a b n buf) = length buf"
  by (induction a b n buf rule: shift_loop.induct) (subst shift_loop.simps, simp)

lemma shift_loop_eq:
  "b \<le> a \<Longrightarrow> a \<le> n \<Longrightarrow> n \<le> length buf \<Longrightarrow>
   shift_loop a b n buf = take b buf @ seg a (n - a) buf @ drop (b + n - a) buf"
proof (induction a b n buf rule: shift_loop.induct)
  case (1 a b n buf)
  show ?case
  proof (cases "a < n")
    case True
    have upd: "buf[b := buf ! a] = take b buf @ buf ! a # drop (Suc b) buf"
      using True "1.prems" by (intro upd_conv_take_nth_drop) simp
    have sg: "seg a (n - a) buf = buf ! a # seg (Suc a) (n - Suc a) buf"
    proof -
      have "drop a buf = buf ! a # drop (Suc a) buf"
        using True "1.prems" by (intro Cons_nth_drop_Suc [symmetric]) simp
      moreover have "n - a = Suc (n - Suc a)" using True by simp
      ultimately show ?thesis by (simp add: seg_def)
    qed
    have "seg (Suc a) (n - Suc a) (buf[b := buf ! a]) = seg (Suc a) (n - Suc a) buf"
      using "1.prems" by (simp add: seg_def drop_update_cancel)
    moreover have "drop (Suc b + n - Suc a) (buf[b := buf ! a]) = drop (b + n - a) buf"
      using True "1.prems" by (simp add: drop_update_cancel)
    moreover have "take (Suc b) (buf[b := buf ! a]) = take b buf @ [buf ! a]"
      using True "1.prems" by (simp add: upd)
    ultimately show ?thesis
      using "1.IH" True "1.prems" sg by (subst shift_loop.simps) simp
  next
    case False
    with "1.prems" show ?thesis by (subst shift_loop.simps) (simp add: seg_def)
  qed
qed

lemma release_inv:
  assumes "buf_inv t b"
  shows "buf_inv t (release t h b)" "contents (release t h b) = contents b"
    "b_data_size (release t h b) = b_data_size b"
proof -
  note D = buf_invD [OF assms]
  define sz where "sz = (if b_data_size b < of_nat (BUFFER_MIN_SIZE t) then of_nat (BUFFER_MIN_SIZE t) else b_data_size b)"
  have sz: "unat sz = max (unat (b_data_size b)) (BUFFER_MIN_SIZE t)"
    by (auto simp: sz_def word_less_nat_alt max_def)
  have lt: "unat sz < BUFFER_MAX_SIZE t" using sz D(3,4) BUFFER_bounds(2) [of t] by simp
  have z: "sz = 0 \<Longrightarrow> b_data_size b = 0" using sz by (simp add: unat_eq_zero)
  have "buf_inv t (release t h b) \<and> contents (release t h b) = contents b \<and>
        b_data_size (release t h b) = b_data_size b"
  proof (cases "b_data_size b < b_size b \<and> b_size b \<noteq> sz")
    case False
    then have "release t h b = b" by (auto simp: release_def sz_def Let_def)
    with assms show ?thesis by simp
  next
    case True
    show ?thesis
    proof (cases "realloc h (b_buffer b) (unat sz)")
      case None
      then have "release t h b = (if sz > 0 then b else b\<lparr>b_size := sz, b_buffer := []\<rparr>)"
        using True by (simp add: release_def sz_def [symmetric] Let_def)
      with assms lt z show ?thesis
        by (auto simp: buf_inv_def contents_def word_neq_0_conv [symmetric] split: if_splits)
    next
      case (Some buf)
      then have "release t h b = b\<lparr>b_size := sz, b_buffer := buf\<rparr>"
        using True by (simp add: release_def sz_def [symmetric] Let_def)
      moreover have "take (unat (b_data_size b)) buf = take (unat (b_data_size b)) (b_buffer b)"
        using take_realloc [OF Some] sz D(2,3) by simp
      ultimately show ?thesis
        using length_realloc [OF Some] lt sz D(1)
        by (simp add: buf_inv_def contents_def word_le_nat_alt)
    qed
  qed
  then show "buf_inv t (release t h b)" "contents (release t h b) = contents b"
    "b_data_size (release t h b) = b_data_size b" by simp_all
qed

lemma shifted_inv:
  assumes "buf_inv t b" and "n \<le> b_data_size b"
  defines "b' \<equiv> b\<lparr>b_buffer := shift_loop (unat n) 0 (unat (b_data_size b)) (b_buffer b),
                    b_data_size := b_data_size b - n\<rparr>"
  shows "buf_inv t b'" "contents b' = drop (unat n) (contents b)"
proof -
  note D = buf_invD [OF assms(1)]
  have n: "unat n \<le> unat (b_data_size b)" using assms(2) by (simp add: word_le_nat_alt)
  have d: "unat (b_data_size b - n) = unat (b_data_size b) - unat n"
    using assms(2) by (rule unat_sub_u32)
  show "buf_inv t b'"
    using D n d by (simp add: buf_inv_def b'_def word_le_nat_alt)
  have "shift_loop (unat n) 0 (unat (b_data_size b)) (b_buffer b) =
      seg (unat n) (unat (b_data_size b) - unat n) (b_buffer b) @ drop (unat (b_data_size b) - unat n) (b_buffer b)"
    using shift_loop_eq [of 0 "unat n" "unat (b_data_size b)" "b_buffer b"] n D(2,3) by simp
  moreover have "length (seg (unat n) (unat (b_data_size b) - unat n) (b_buffer b)) = unat (b_data_size b) - unat n"
    using D(2,3) n by simp
  ultimately show "contents b' = drop (unat n) (contents b)"
    using d by (simp add: contents_def b'_def seg_def drop_take)
qed

lemma sproto_shrink_in_buffer_inv:
  assumes "buf_inv t b"
  shows "buf_inv t (sproto_shrink_in_buffer t h b n)"
    "contents (sproto_shrink_in_buffer t h b n) = drop (unat n) (contents b)"
    "begin_tag (sproto_shrink_in_buffer t h b n) = 0"
proof -
  define m where "m = (if n > b_data_size b then b_data_size b else n)"
  define b' where "b' = b\<lparr>begin_tag := 0, b_buffer := shift_loop (unat m) 0 (unat (b_data_size b)) (b_buffer b),
                    b_data_size := b_data_size b - m\<rparr>"
  have m: "m \<le> b_data_size b" by (auto simp: m_def)
  have b0: "buf_inv t (b\<lparr>begin_tag := 0\<rparr>)" "contents (b\<lparr>begin_tag := 0\<rparr>) = contents b"
    using assms by (simp_all add: buf_inv_def contents_def)
  have e: "sproto_shrink_in_buffer t h b n = release t h b'"
    by (simp add: sproto_shrink_in_buffer_def Let_def m_def b'_def)
  have i: "buf_inv t b'" "contents b' = drop (unat m) (contents b)"
    using shifted_inv [OF b0(1), of m] m b0(2) by (simp_all add: b'_def)
  have "drop (unat m) (contents b) = drop (unat n) (contents b)"
    using buf_invD(6) [OF assms] by (auto simp: m_def word_less_nat_alt)
  then show "buf_inv t (sproto_shrink_in_buffer t h b n)"
    "contents (sproto_shrink_in_buffer t h b n) = drop (unat n) (contents b)"
    using release_inv [OF i(1)] i(2) by (simp_all add: e)
  show "begin_tag (sproto_shrink_in_buffer t h b n) = 0"
    by (simp add: e release_def b'_def Let_def split: option.splits)
qed

subsection \<open>Packets as bytes\<close>

lemma length_sdp_header: "length (sdp_tag p) = 5 \<Longrightarrow> length (sdp_header p) = 18"
  by (simp add: sdp_header_def)

lemma length_sdp_bytes: "packet_wf t p \<Longrightarrow> length (sdp_bytes p) = 18 + SUPLA_MAX_DATA_SIZE t"
  by (simp add: sdp_bytes_def packet_wf_def length_sdp_header)

lemma header_size_eq [simp]: "header_size t = 18" "unat (header_size t) = 18"
  by (simp_all add: header_size_def sizeof_TSuplaDataPacket)

lemma sdp_of_bytes_sdp_bytes: "length (sdp_tag p) = 5 \<Longrightarrow> sdp_of_bytes (sdp_bytes p) = p"
  by (simp add: sdp_of_bytes_def sdp_bytes_def sdp_header_def seg_def nth_append)

lemma sdp_bytes_sdp_of_bytes: "18 \<le> length bs \<Longrightarrow> sdp_bytes (sdp_of_bytes bs) = bs"
proof -
  assume len: "18 \<le> length bs"
  have "bs = take 5 bs @ [bs ! 5] @ seg 6 4 bs @ seg 10 4 bs @ seg 14 4 bs @ drop 18 bs"
    using len
    by (intro nth_equalityI)
       (auto simp: nth_append seg_def min_def nth_Cons' split: if_splits)
  then show ?thesis
    using len by (simp add: sdp_bytes_def sdp_header_def sdp_of_bytes_def u32_bytes_bytes_u32)
qed

lemma length_msg_header [simp]: "length (msg_header m) = 18"
  by (simp add: msg_header_def)

lemma length_encode [simp]: "length (encode m) = 23 + length (m_payload m)"
  by (simp add: encode_def)

lemma le_nat_u32_bytes: "n < 2 ^ 32 \<Longrightarrow> le_nat (u32_bytes (of_nat n)) = n"
  by (simp add: u32_bytes_def le_nat_le_bytes unat_of_nat)

lemma msg_header_segs:
  "take 5 (msg_header m) = sproto_tag" "(msg_header m @ xs) ! 5 = m_version m"
  "seg 6 4 (msg_header m @ xs) = u32_bytes (m_rr_id m)"
  "seg 10 4 (msg_header m @ xs) = u32_bytes (m_call_id m)"
  "seg 14 4 (msg_header m @ xs) = u32_bytes (of_nat (length (m_payload m)))"
  by (simp_all add: msg_header_def seg_def nth_append)

lemma encode_segs:
  "take 5 (encode m) = sproto_tag" "(encode m @ rest) ! 5 = m_version m"
  "seg 6 4 (encode m @ rest) = u32_bytes (m_rr_id m)"
  "seg 10 4 (encode m @ rest) = u32_bytes (m_call_id m)"
  "seg 14 4 (encode m @ rest) = u32_bytes (of_nat (length (m_payload m)))"
  "seg 18 (length (m_payload m)) (encode m @ rest) = m_payload m"
  "seg (18 + length (m_payload m)) 5 (encode m @ rest) = sproto_tag"
  by (simp_all add: encode_def msg_header_segs) (simp_all add: seg_def)

lemma parse_encode:
  assumes "msg_ok t m"
  shows "parse t (encode m @ rest) = Frame m rest"
proof -
  have small: "length (m_payload m) < 2 ^ 32"
    using assms SUPLA_MAX_DATA_SIZE_bounds(2) [of t] by (simp add: msg_ok_def)
  show ?thesis
    using assms
    by (simp add: parse_def Let_def encode_segs le_nat_u32_bytes [OF small] msg_ok_def const_defs)
qed

text \<open>What the receiver does depends on the bytes in use only, not on the spare capacity.\<close>

lemma sdp_of_bytes_buffer:
  assumes "buf_inv t b" and "23 \<le> length (contents b)"
  shows "sdp_version (sdp_of_bytes (b_buffer b)) = contents b ! 5"
    "sdp_data_size (sdp_of_bytes (b_buffer b)) = bytes_u32 (seg 14 4 (contents b))"
  using assms by (simp_all add: sdp_of_bytes_def contents_def seg_take)

subsection \<open>Extracting a packet\<close>

definition drop_all :: "target \<Rightarrow> heap \<Rightarrow> TSuplaProtoData \<Rightarrow> TSuplaProtoData" where
  "drop_all t h spd = spd\<lparr>sp_in := sproto_shrink_in_buffer t h (sp_in spd) (b_data_size (sp_in spd))\<rparr>"

definition tagged :: "TSuplaProtoData \<Rightarrow> TSuplaProtoData" where
  "tagged spd = spd\<lparr>sp_in := (sp_in spd)\<lparr>begin_tag := 1\<rparr>\<rparr>"

lemma tagged_simps [simp]:
  "b_data_size (sp_in (tagged spd)) = b_data_size (sp_in spd)"
  "b_buffer (sp_in (tagged spd)) = b_buffer (sp_in spd)"
  "b_size (sp_in (tagged spd)) = b_size (sp_in spd)"
  "contents (sp_in (tagged spd)) = contents (sp_in spd)"
  "buf_inv t (sp_in (tagged spd)) = buf_inv t (sp_in spd)"
  "sp_out (tagged spd) = sp_out spd" "sp_version (tagged spd) = sp_version spd"
  "next_rr_id (tagged spd) = next_rr_id spd"
  by (simp_all add: tagged_def contents_def buf_inv_def)

lemma tag_prefix:
  assumes "buf_inv t b"
  shows "of_nat SUPLA_TAG_SIZE \<le> b_data_size b \<longleftrightarrow> 5 \<le> length (contents b)"
    "5 \<le> length (contents b) \<Longrightarrow> take SUPLA_TAG_SIZE (b_buffer b) = take 5 (contents b)"
  using buf_invD [OF assms]
  by (auto simp: SUPLA_TAG_SIZE_eq word_le_nat_alt contents_def min_def)

lemma pop_in_sdp_short:
  assumes "in_inv t (sp_in spd)" and "length (contents (sp_in spd)) < 5"
  shows "sproto_pop_in_sdp t h spd sdp = (spd, sdp, SUPLA_RESULT_FALSE)"
proof -
  have "begin_tag (sp_in spd) = 0" "buf_inv t (sp_in spd)"
    using assms by (auto simp: in_inv_def)
  with assms(2) tag_prefix [OF this(2)] show ?thesis
    by (simp add: sproto_pop_in_sdp_def Let_def)
qed

lemma pop_in_sdp_bad_tag:
  assumes "in_inv t (sp_in spd)" and "5 \<le> length (contents (sp_in spd))"
    and "take 5 (contents (sp_in spd)) \<noteq> sproto_tag"
  shows "sproto_pop_in_sdp t h spd sdp = (drop_all t h spd, sdp, SUPLA_RESULT_DATA_ERROR)"
proof -
  have "begin_tag (sp_in spd) = 0" "buf_inv t (sp_in spd)"
    using assms by (auto simp: in_inv_def)
  with assms(2,3) tag_prefix [OF this(2)] show ?thesis
    by (simp add: sproto_pop_in_sdp_def Let_def drop_all_def)
qed

lemma pop_in_sdp_tagged:
  fixes spd sdp t h
  defines "b \<equiv> sp_in spd"
  assumes "in_inv t b" and "5 \<le> length (contents b)" and "take 5 (contents b) = sproto_tag"
  defines "q \<equiv> sdp_of_bytes (b_buffer b)"
  defines "len \<equiv> 18 + sdp_data_size q"
  shows "sproto_pop_in_sdp t h spd sdp =
    (if 23 \<le> length (contents b) then
       if sdp_version q > of_nat SUPLA_PROTO_VERSION \<or> sdp_version q < of_nat SUPLA_PROTO_VERSION_MIN
       then (drop_all t h (tagged spd), sdp\<lparr>sdp_version := sdp_version q\<rparr>, SUPLA_RESULT_VERSION_ERROR)
       else if unat len > 18 + SUPLA_MAX_DATA_SIZE t
       then (drop_all t h (tagged spd), sdp, SUPLA_RESULT_DATA_ERROR)
       else if len + 5 > b_data_size b then (tagged spd, sdp, SUPLA_RESULT_FALSE)
       else if len \<ge> b_size b \<or> seg (unat len) 5 (b_buffer b) \<noteq> sproto_tag
       then (drop_all t h (tagged spd), sdp, SUPLA_RESULT_DATA_ERROR)
       else ((tagged spd)\<lparr>sp_in := sproto_shrink_in_buffer t h (sp_in (tagged spd)) (len + 5)\<rparr>,
             sdp_memcpy sdp (b_buffer b) (unat len), SUPLA_RESULT_TRUE)
     else (tagged spd, sdp, SUPLA_RESULT_FALSE))"
proof -
  have bi: "buf_inv t b" using assms(2) by (simp add: in_inv_def)
  note D = buf_invD [OF bi]
  have five: "of_nat SUPLA_TAG_SIZE = (5 :: u32)" by (simp add: SUPLA_TAG_SIZE_eq)
  have ge: "(5 :: u32) \<le> b_data_size b"
    using tag_prefix(1) [OF bi] assms(3) by (simp add: five)
  have tg: "take SUPLA_TAG_SIZE (b_buffer b) = sproto_tag"
    using tag_prefix(2) [OF bi assms(3)] assms(4) by simp
  have sub: "unat (b_data_size b - 5) = length (contents b) - 5"
    using unat_sub_u32 [OF ge] D(6) by simp
  have hdr: "(18 :: u32) \<le> b_data_size b - 5 \<longleftrightarrow> 23 \<le> length (contents b)"
    using assms(3) by (simp add: word_le_nat_alt sub) linarith
  have inb: "(if begin_tag b = 0 \<and> 5 \<le> b_data_size b then b\<lparr>begin_tag := 1\<rparr> else b) = b\<lparr>begin_tag := 1\<rparr>"
    using assms(2) ge by (auto simp: in_inv_def)
  show ?thesis
    using ge tg inb
    by (simp add: sproto_pop_in_sdp_def Let_def b_def [symmetric] five sizeof_TSuplaDataPacket
        SUPLA_TAG_SIZE_eq hdr q_def [symmetric] len_def [symmetric] drop_all_def tagged_def)
qed

lemma drop_all_inv:
  assumes "buf_inv t (sp_in spd)"
  shows "in_inv t (sp_in (drop_all t h spd))" "contents (sp_in (drop_all t h spd)) = []"
    "sp_out (drop_all t h spd) = sp_out spd" "sp_version (drop_all t h spd) = sp_version spd"
    "next_rr_id (drop_all t h spd) = next_rr_id spd"
  using sproto_shrink_in_buffer_inv [OF assms, of h "b_data_size (sp_in spd)"] buf_invD(6) [OF assms]
  by (simp_all add: drop_all_def in_inv_def)

lemma sdp_memcpy_msg:
  assumes "packet_wf t sdp" and "n \<le> SUPLA_MAX_DATA_SIZE t" and "18 + n \<le> length buf"
    and "take 5 buf = sproto_tag" and "le_nat (seg 14 4 buf) = n"
  shows "packet_wf t (sdp_memcpy sdp buf (18 + n))"
    "msg_of (sdp_memcpy sdp buf (18 + n)) =
       \<lparr>m_version = buf ! 5, m_rr_id = bytes_u32 (seg 6 4 buf),
        m_call_id = bytes_u32 (seg 10 4 buf), m_payload = seg 18 n buf\<rparr>"
    "sdp_tag (sdp_memcpy sdp buf (18 + n)) = sproto_tag"
    "unat (sdp_data_size (sdp_memcpy sdp buf (18 + n))) = n"
proof -
  define bs where "bs = overlay 0 (take (18 + n) buf) (sdp_bytes sdp)"
  have l: "length bs = 18 + SUPLA_MAX_DATA_SIZE t"
    using assms(2,3) length_sdp_bytes [OF assms(1)] by (simp add: bs_def length_overlay)
  have bs: "bs = take (18 + n) buf @ drop (18 + n) (sdp_bytes sdp)"
    using assms(3) by (simp add: bs_def overlay_0)
  have sgs: "seg off k bs = seg off k buf" if "off + k \<le> 18 + n" for off k
    using that assms(3) by (simp add: bs seg_append_left seg_take)
  have nth: "bs ! 5 = buf ! 5" using assms(3) by (simp add: bs nth_append)
  have t5: "take 5 bs = sproto_tag" using sgs [of 0 5] assms(4) by (simp add: seg_0)
  have n: "unat (bytes_u32 (seg 14 4 buf)) = n"
    using assms(2,5) SUPLA_MAX_DATA_SIZE_bounds(2) [of t] by (simp add: bytes_u32_def unat_of_nat)
  have e: "sdp_memcpy sdp buf (18 + n) = sdp_of_bytes bs" by (simp add: sdp_memcpy_def bs_def)
  show "packet_wf t (sdp_memcpy sdp buf (18 + n))"
    using l t5 by (simp add: e packet_wf_def sdp_of_bytes_def)
  show "sdp_tag (sdp_memcpy sdp buf (18 + n)) = sproto_tag"
    using t5 by (simp add: e sdp_of_bytes_def)
  show "unat (sdp_data_size (sdp_memcpy sdp buf (18 + n))) = n"
    using sgs [of 14 4] n by (simp add: e sdp_of_bytes_def)
  show "msg_of (sdp_memcpy sdp buf (18 + n)) =
       \<lparr>m_version = buf ! 5, m_rr_id = bytes_u32 (seg 6 4 buf),
        m_call_id = bytes_u32 (seg 10 4 buf), m_payload = seg 18 n buf\<rparr>"
    using sgs [of 18 n] sgs [of 6 4] sgs [of 10 4] sgs [of 14 4] n nth
    by (simp add: e msg_of_def sdp_of_bytes_def seg_def)
qed

text \<open>\<open>pop_post\<close> is what one extraction promises, in terms of the abstract protocol.\<close>

definition pop_post ::
  "target \<Rightarrow> TSuplaProtoData \<Rightarrow> packet \<Rightarrow> TSuplaProtoData \<Rightarrow> packet \<Rightarrow> int \<Rightarrow> bool" where
  "pop_post t spd sdp spd' sdp' r \<longleftrightarrow>
     in_inv t (sp_in spd') \<and> packet_wf t sdp' \<and> sp_out spd' = sp_out spd \<and>
     sp_version spd' = sp_version spd \<and> next_rr_id spd' = next_rr_id spd \<and>
     (case parse t (contents (sp_in spd)) of
        Need_More \<Rightarrow> r = SUPLA_RESULT_FALSE \<and> sdp' = sdp \<and> contents (sp_in spd') = contents (sp_in spd)
      | Bad_Frame \<Rightarrow> r = SUPLA_RESULT_DATA_ERROR \<and> sdp' = sdp \<and> contents (sp_in spd') = []
      | Bad_Version v \<Rightarrow> r = SUPLA_RESULT_VERSION_ERROR \<and> sdp' = sdp\<lparr>sdp_version := v\<rparr> \<and>
          contents (sp_in spd') = []
      | Frame m rest \<Rightarrow> r = SUPLA_RESULT_TRUE \<and> msg_of sdp' = m \<and> sdp_tag sdp' = sproto_tag \<and>
          contents (sp_in spd') = rest)"

lemma pop_post_frame:
  assumes bi: "buf_inv t (sp_in spd)" and wf: "packet_wf t sdp"
    and n: "n = le_nat (seg 14 4 (contents (sp_in spd)))" "n \<le> SUPLA_MAX_DATA_SIZE t"
    and len: "23 + n \<le> length (contents (sp_in spd))"
    and tg: "take 5 (contents (sp_in spd)) = sproto_tag"
    and pf: "parse t (contents (sp_in spd)) =
      Frame \<lparr>m_version = contents (sp_in spd) ! 5, m_rr_id = bytes_u32 (seg 6 4 (contents (sp_in spd))),
        m_call_id = bytes_u32 (seg 10 4 (contents (sp_in spd))), m_payload = seg 18 n (contents (sp_in spd))\<rparr>
        (drop (23 + n) (contents (sp_in spd)))"
  shows "pop_post t spd sdp
    ((tagged spd)\<lparr>sp_in := sproto_shrink_in_buffer t h (sp_in (tagged spd)) (of_nat (23 + n))\<rparr>)
    (sdp_memcpy sdp (b_buffer (sp_in spd)) (18 + n)) SUPLA_RESULT_TRUE"
proof -
  define b where "b = sp_in spd"
  note D = buf_invD [OF bi, folded b_def]
  have buf: "contents b = take (unat (b_data_size b)) (b_buffer b)" by (simp add: contents_def)
  have sg: "seg off k (b_buffer b) = seg off k (contents b)" if "off + k \<le> 23 + n" for off k
    using that len D(6) by (simp add: buf seg_take b_def [symmetric])
  have "unat (of_nat (23 + n) :: u32) = 23 + n"
    using n(2) SUPLA_MAX_DATA_SIZE_bounds(2) [of t] by (intro unat_of_nat_u32) simp
  then have shr: "in_inv t (sproto_shrink_in_buffer t h (sp_in (tagged spd)) (of_nat (23 + n)))"
      "contents (sproto_shrink_in_buffer t h (sp_in (tagged spd)) (of_nat (23 + n))) = drop (23 + n) (contents b)"
    using sproto_shrink_in_buffer_inv [of t "sp_in (tagged spd)" h "of_nat (23 + n)"] bi
    by (simp_all add: in_inv_def b_def)
  have nth5: "b_buffer b ! 5 = contents b ! 5"
    using len D(6) by (simp add: buf b_def [symmetric])
  note mc = sdp_memcpy_msg [OF wf n(2), of "b_buffer b"]
  have pre: "18 + n \<le> length (b_buffer b)" "take 5 (b_buffer b) = sproto_tag"
      "le_nat (seg 14 4 (b_buffer b)) = n"
    using len D(2,3,6) sg [of 0 5] tg sg [of 14 4] n(1) by (simp_all add: seg_0 b_def)
  show ?thesis
    using mc [OF pre] shr pf sg [of 6 4] sg [of 10 4] sg [of 18 n] nth5
    by (simp add: pop_post_def b_def)
qed

text \<open>Once the tag and the header are there, the guards of the code are those of \<open>parse\<close>.\<close>

lemma pop_in_sdp_header:
  assumes inv: "in_inv t (sp_in spd)" and c: "c = contents (sp_in spd)"
    and tag: "take 5 c = sproto_tag" and len: "23 \<le> length c"
    and n: "n = le_nat (seg 14 4 c)" "n < 2 ^ 32 - 18"
  shows "sproto_pop_in_sdp t h spd sdp =
    (if unat (c ! 5) > SUPLA_PROTO_VERSION \<or> unat (c ! 5) < SUPLA_PROTO_VERSION_MIN
     then (drop_all t h (tagged spd), sdp\<lparr>sdp_version := c ! 5\<rparr>, SUPLA_RESULT_VERSION_ERROR)
     else if n > SUPLA_MAX_DATA_SIZE t
     then (drop_all t h (tagged spd), sdp, SUPLA_RESULT_DATA_ERROR)
     else if length c < 23 + n then (tagged spd, sdp, SUPLA_RESULT_FALSE)
     else if seg (18 + n) 5 c \<noteq> sproto_tag
     then (drop_all t h (tagged spd), sdp, SUPLA_RESULT_DATA_ERROR)
     else ((tagged spd)\<lparr>sp_in := sproto_shrink_in_buffer t h (sp_in (tagged spd)) (of_nat (23 + n))\<rparr>,
           sdp_memcpy sdp (b_buffer (sp_in spd)) (18 + n), SUPLA_RESULT_TRUE))"
proof -
  define b where "b = sp_in spd"
  have bi: "buf_inv t b" using inv by (simp add: in_inv_def b_def)
  note D = buf_invD [OF bi]
  have c': "c = contents b" using c by (simp add: b_def)
  have q: "sdp_version (sdp_of_bytes (b_buffer b)) = c ! 5"
      "sdp_data_size (sdp_of_bytes (b_buffer b)) = of_nat n"
    using sdp_of_bytes_buffer [OF bi] len by (simp_all add: c' n bytes_u32_def)
  have ln: "unat (18 + of_nat n :: u32) = 18 + n" "(18 + of_nat n :: u32) + 5 = of_nat (23 + n)"
    using n unat_of_nat_u32 [of "18 + n"] by simp_all
  have ver: "((c ! 5) > of_nat SUPLA_PROTO_VERSION \<or> (c ! 5) < of_nat SUPLA_PROTO_VERSION_MIN)
      \<longleftrightarrow> (unat (c ! 5) > SUPLA_PROTO_VERSION \<or> unat (c ! 5) < SUPLA_PROTO_VERSION_MIN)"
    by (simp add: word_less_nat_alt const_defs)
  have more: "of_nat (23 + n) > b_data_size b \<longleftrightarrow> length c < 23 + n" if "\<not> n > SUPLA_MAX_DATA_SIZE t"
    using that D(6) unat_of_nat_u32 [of "23 + n"] SUPLA_MAX_DATA_SIZE_bounds(2) [of t]
    by (simp add: word_less_nat_alt c')
  have fits: "\<not> (18 + of_nat n) \<ge> b_size b" "seg (18 + n) 5 (b_buffer b) = seg (18 + n) 5 c"
    if "\<not> length c < 23 + n"
    using that D(3,6) ln by (simp_all add: word_le_nat_alt c' contents_def seg_take)
  show ?thesis
    using pop_in_sdp_tagged [of t spd h sdp] inv tag len ver ln more fits
    by (auto simp: b_def [symmetric] c' [symmetric] q)
qed

lemma tagged_inv:
  assumes "in_inv t (sp_in spd)" "5 \<le> length (contents (sp_in spd))"
    "take 5 (contents (sp_in spd)) = sproto_tag"
  shows "in_inv t (sp_in (tagged spd))"
  using assms by (simp add: in_inv_def) (simp add: tagged_def)

lemma sproto_pop_in_sdp_post:
  assumes inv: "in_inv t (sp_in spd)" and wf: "packet_wf t sdp"
    and nw: "no_wrap (contents (sp_in spd))"
    and res: "sproto_pop_in_sdp t h spd sdp = (spd', sdp', r)"
  shows "pop_post t spd sdp spd' sdp' r"
proof -
  define c where "c = contents (sp_in spd)"
  have bi: "buf_inv t (sp_in spd)" using inv by (simp add: in_inv_def)
  note P = pop_post_def c_def [symmetric] parse_def Let_def
  note da = drop_all_inv [of t "tagged spd" h, unfolded tagged_simps, OF bi]
  show ?thesis
  proof (cases "5 \<le> length c \<and> take 5 c = sproto_tag")
    case False
    then show ?thesis
      using pop_in_sdp_short [OF inv, of h sdp] pop_in_sdp_bad_tag [OF inv, of h sdp] res inv wf
        drop_all_inv [OF bi, of h]
      by (cases "5 \<le> length c") (auto simp: P)
  next
    case tag: True
    note ti = tagged_inv [OF inv, folded c_def]
    show ?thesis
    proof (cases "23 \<le> length c")
      case False
      then show ?thesis
        using pop_in_sdp_tagged [of t spd h sdp] tag inv res wf ti by (auto simp: P)
    next
      case len: True
      define n where "n = le_nat (seg 14 4 c)"
      have n: "n < 2 ^ 32 - 18" using nw len by (simp add: no_wrap_def n_def c_def)
      note pop = pop_in_sdp_header [OF inv c_def _ len n_def n, of h sdp]
      show ?thesis
      proof (cases "parse t c")
        case (Frame m rest)
        then show ?thesis
          using pop res tag len pop_post_frame [OF bi wf, of n h]
          by (auto simp: parse_def Let_def n_def [symmetric] c_def [symmetric] split: if_splits)
      qed (use pop res tag len da ti wf in
            \<open>auto simp: P n_def [symmetric] packet_wf_def split: if_splits\<close>)
    qed
  qed
qed


text \<open>For any input, wrapping lengths included: the invariant is kept, the packet object keeps its
  shape, and a reported packet consumes input.\<close>

lemma sdp_memcpy_wf: "packet_wf t p \<Longrightarrow> n \<le> 18 + SUPLA_MAX_DATA_SIZE t \<Longrightarrow> packet_wf t (sdp_memcpy p buf n)"
  using length_sdp_bytes [of t p]
  by (simp add: packet_wf_def sdp_memcpy_def sdp_of_bytes_def length_overlay)

lemma sproto_pop_in_sdp_safe:
  assumes inv: "in_inv t (sp_in spd)" and wf: "packet_wf t p"
    and res: "sproto_pop_in_sdp t h spd p = (spd', p', r)"
  shows "in_inv t (sp_in spd') \<and> packet_wf t p' \<and> sp_out spd' = sp_out spd \<and>
    sp_version spd' = sp_version spd \<and> next_rr_id spd' = next_rr_id spd \<and>
    (r = SUPLA_RESULT_TRUE \<longrightarrow> length (contents (sp_in spd')) < length (contents (sp_in spd)))"
proof -
  have bi: "buf_inv t (sp_in spd)" using inv by (simp add: in_inv_def)
  define c where "c = contents (sp_in spd)"
  define len where "len = 18 + sdp_data_size (sdp_of_bytes (b_buffer (sp_in spd)))"
  consider "length c < 5" | "5 \<le> length c" "take 5 c \<noteq> sproto_tag" | "5 \<le> length c" "take 5 c = sproto_tag"
    by linarith
  then show ?thesis
  proof cases
    case 1
    then show ?thesis using pop_in_sdp_short [OF inv] res inv wf by (simp add: c_def)
  next
    case 2
    then show ?thesis using pop_in_sdp_bad_tag [OF inv] res drop_all_inv [OF bi] wf by (auto simp: c_def)
  next
    case 3
    note da = drop_all_inv [of t "tagged spd" h, unfolded tagged_simps, OF bi]
    have ti: "in_inv t (sp_in (tagged spd))" using tagged_inv [OF inv] 3 by (simp add: c_def)
    have shr: "in_inv t (sproto_shrink_in_buffer t h (sp_in (tagged spd)) (len + 5))"
      "contents (sproto_shrink_in_buffer t h (sp_in (tagged spd)) (len + 5)) = drop (unat (len + 5)) c"
      using sproto_shrink_in_buffer_inv [of t "sp_in (tagged spd)" h "len + 5"] bi
      by (simp_all add: in_inv_def c_def)
    have "unat (len + 5) = unat len + 5" if "unat len \<le> 18 + SUPLA_MAX_DATA_SIZE t"
      using that SUPLA_MAX_DATA_SIZE_bounds(2) [of t] by (subst unat_add_u32) simp_all
    then have pos: "length (drop (unat (len + 5)) c) < length c" if "unat len \<le> 18 + SUPLA_MAX_DATA_SIZE t"
      using that 3(1) by simp
    show ?thesis
      using pop_in_sdp_tagged [of t spd h p] inv 3 res da ti shr pos wf sdp_memcpy_wf [OF wf, of "unat len"]
      unfolding c_def [symmetric] len_def [symmetric]
      by (auto simp: not_less packet_wf_def split: if_splits)
  qed
qed

subsection \<open>Appending a packet to the output\<close>

lemma sdp_frame:
  assumes "packet_wf t p" and "sdp_tag p = sproto_tag" and "unat (sdp_data_size p) \<le> SUPLA_MAX_DATA_SIZE t"
  shows "take (18 + unat (sdp_data_size p)) (sdp_bytes p) @ sproto_tag = encode (msg_of p)"
proof -
  have "length (take (unat (sdp_data_size p)) (sdp_data p)) = unat (sdp_data_size p)"
    using assms(1,3) by (simp add: packet_wf_def)
  then have "msg_header (msg_of p) = sdp_header p"
    using assms(2) by (simp add: msg_header_def sdp_header_def msg_of_def)
  then show ?thesis
    using assms(1) by (simp add: encode_def sdp_bytes_def packet_wf_def length_sdp_header msg_of_def)
qed

lemma sproto_out_buffer_append_eq:
  assumes "unat (sdp_data_size p) \<le> SUPLA_MAX_DATA_SIZE t"
  shows "sproto_out_buffer_append t h spd p =
    (let (b, r) = sproto_buffer_append t h (sp_out spd) (take (18 + unat (sdp_data_size p)) (sdp_bytes p))
     in if r = SUPLA_RESULT_TRUE
        then let (b', r') = sproto_buffer_append t h b sproto_tag in (spd\<lparr>sp_out := b'\<rparr>, r')
        else (spd\<lparr>sp_out := b\<rparr>, SUPLA_RESULT_FALSE))"
proof -
  have small: "18 + SUPLA_MAX_DATA_SIZE t < 2 ^ 32" using SUPLA_MAX_DATA_SIZE_bounds(2) [of t] by simp
  have u: "unat (of_nat (SUPLA_MAX_DATA_SIZE t) :: u32) = SUPLA_MAX_DATA_SIZE t"
    using small by (intro unat_of_nat_u32) simp
  have "of_nat (sizeof (TSuplaDataPacket t)) - of_nat (SUPLA_MAX_DATA_SIZE t) + sdp_data_size p =
      (18 + sdp_data_size p :: u32)"
    by (simp add: sizeof_TSuplaDataPacket)
  moreover have "unat (18 + sdp_data_size p) = 18 + unat (sdp_data_size p)"
    using assms small by (subst unat_add_u32) simp_all
  moreover have "\<not> (18 + sdp_data_size p > of_nat (sizeof (TSuplaDataPacket t)))"
    using calculation(2) assms small unat_of_nat_u32 [OF small]
    by (simp add: sizeof_TSuplaDataPacket word_less_nat_alt)
  ultimately show ?thesis
    by (simp add: sproto_out_buffer_append_def Let_def split: prod.splits)
qed

lemma sproto_out_buffer_append_true:
  assumes inv: "buf_inv t (sp_out spd)" and gh: "good_heap t h" and wf: "packet_wf t p"
    and tag: "sdp_tag p = sproto_tag" and ds: "unat (sdp_data_size p) \<le> SUPLA_MAX_DATA_SIZE t"
    and res: "sproto_out_buffer_append t h spd p = (spd', SUPLA_RESULT_TRUE)"
  shows "buf_inv t (sp_out spd')" "contents (sp_out spd') = contents (sp_out spd) @ encode (msg_of p)"
    "spd' = spd\<lparr>sp_out := sp_out spd'\<rparr>"
proof -
  let ?d = "take (18 + unat (sdp_data_size p)) (sdp_bytes p)"
  have len: "length ?d < 2 ^ 31" "length sproto_tag < 2 ^ 31"
    using length_sdp_bytes [OF wf] SUPLA_MAX_DATA_SIZE_bounds(2) [of t] by simp_all
  note e = sproto_out_buffer_append_eq [OF ds, of h spd]
  from sproto_buffer_append_cases [OF inv len(1) gh] obtain b1 where
    b1: "sproto_buffer_append t h (sp_out spd) ?d = (b1, SUPLA_RESULT_TRUE)" "buf_inv t b1"
      "contents b1 = contents (sp_out spd) @ ?d"
    using res by (auto simp: e)
  from sproto_buffer_append_cases [OF b1(2) len(2) gh] obtain b2 where
    b2: "sproto_buffer_append t h b1 sproto_tag = (b2, SUPLA_RESULT_TRUE)" "buf_inv t b2"
      "contents b2 = contents b1 @ sproto_tag"
    using res b1(1) by (auto simp: e)
  have "spd' = spd\<lparr>sp_out := b2\<rparr>" using res b1(1) b2(1) by (simp add: e)
  then show "buf_inv t (sp_out spd')" "contents (sp_out spd') = contents (sp_out spd) @ encode (msg_of p)"
    "spd' = spd\<lparr>sp_out := sp_out spd'\<rparr>"
    using b1 b2 sdp_frame [OF wf tag ds] by simp_all
qed

lemma sproto_pop_out_data_spec:
  assumes inv: "buf_inv t (sp_out spd)" and len: "unat n \<le> length dest"
    and res: "sproto_pop_out_data t h spd (Some dest) n = (spd', dest', k)"
  shows "buf_inv t (sp_out spd')" "unat k = min (unat n) (length (contents (sp_out spd)))"
    "map_option (take (unat k)) dest' = Some (take (unat k) (contents (sp_out spd)))"
    "contents (sp_out spd') = drop (unat k) (contents (sp_out spd))"
    "spd' = spd\<lparr>sp_out := sp_out spd'\<rparr>"
proof -
  define b where "b = sp_out spd"
  note D = buf_invD [OF inv, folded b_def]
  define m where "m = (if b_data_size b < n then b_data_size b else n)"
  define b' where "b' = b\<lparr>b_buffer := shift_loop (unat m) 0 (unat (b_data_size b)) (b_buffer b),
                    b_data_size := b_data_size b - m\<rparr>"
  have m1: "m \<le> b_data_size b" by (auto simp: m_def)
  have m2: "unat m = min (unat n) (length (contents b))"
    using D(6) by (auto simp: m_def word_less_nat_alt)
  note m = m1 m2
  have i: "buf_inv t b'" "contents b' = drop (unat m) (contents b)"
    using shifted_inv [OF inv [folded b_def] m(1)] by (simp_all add: b'_def)
  have tk: "take (unat m) (b_buffer b) = take (unat m) (contents b)"
    using m(2) D(6) by (simp add: contents_def)
  have "length (take (unat m) (b_buffer b)) = unat m" using m(2) D(2,3,6) by simp
  then have ov: "take (unat m) (overlay 0 (take (unat m) (b_buffer b)) dest) = take (unat m) (contents b)"
    using tk by (simp add: overlay_0)
  have "sproto_pop_out_data t h spd (Some dest) n =
      (if m = 0 then (spd, Some dest, 0)
       else (spd\<lparr>sp_out := release t h b'\<rparr>, Some (overlay 0 (take (unat m) (b_buffer b)) dest), m))"
    by (auto simp: sproto_pop_out_data_def Let_def b_def [symmetric] b'_def m_def word_neq_0_conv [symmetric])
  moreover have "m = 0 \<Longrightarrow> min (unat n) (length (contents b)) = 0" using m2 by simp
  ultimately have "(m = 0 \<and> spd' = spd \<and> dest' = Some dest \<and> k = 0) \<or>
      (spd' = spd\<lparr>sp_out := release t h b'\<rparr> \<and> k = m \<and>
       dest' = Some (overlay 0 (take (unat m) (b_buffer b)) dest))"
    using res by (auto split: if_splits)
  then show "buf_inv t (sp_out spd')" "unat k = min (unat n) (length (contents (sp_out spd)))"
    "map_option (take (unat k)) dest' = Some (take (unat k) (contents (sp_out spd)))"
    "contents (sp_out spd') = drop (unat k) (contents (sp_out spd))"
    "spd' = spd\<lparr>sp_out := sp_out spd'\<rparr>"
    using inv i m2 release_inv [OF i(1), of h] ov
    by (auto simp: b_def [symmetric])
qed

subsection \<open>Packet construction\<close>

lemma sproto_sdp_init_spec:
  assumes "sproto_sdp_init t spd = (spd', p)"
  shows "packet_wf t p" "sdp_tag p = sproto_tag" "sdp_rr_id p = next_rr_id spd'" "sdp_rr_id p \<noteq> 0"
    "sdp_rr_id p \<noteq> next_rr_id spd" "sdp_version p = sp_version spd"
    "sp_in spd' = sp_in spd" "sp_out spd' = sp_out spd" "sp_version spd' = sp_version spd"
    "sdp_data p = replicate (SUPLA_MAX_DATA_SIZE t) 0"
  using assms by (auto simp: sproto_sdp_init_def Let_def packet_wf_def split: if_splits)

lemma sproto_set_data_spec:
  assumes "sproto_set_data t p data n cid = (p', SUPLA_RESULT_TRUE)"
    and "packet_wf t p" and "sdp_data p = replicate (SUPLA_MAX_DATA_SIZE t) 0"
    and "\<And>d. data = Some d \<Longrightarrow> unat n \<le> length d"
  shows "packet_wf t p'" "sdp_tag p' = sdp_tag p" "sdp_rr_id p' = sdp_rr_id p"
    "sdp_version p' = sdp_version p" "sdp_call_id p' = cid" "sdp_data_size p' = n"
    "unat n \<le> SUPLA_MAX_DATA_SIZE t"
    "m_payload (msg_of p') = (case data of None \<Rightarrow> [] | Some d \<Rightarrow> take (unat n) d)"
  using assms
  by (auto simp: sproto_set_data_def packet_wf_def length_overlay overlay_0 msg_of_def
      word_neq_0_conv [symmetric] split: if_splits option.splits)


section \<open>Byte streams\<close>

text \<open>A client sees a buffer as a stream: it puts pieces in and gets bytes out, under any
  sequence of allocator behaviours.  A refused piece may leave a proper prefix behind.\<close>

datatype 'd stream_op = Put heap 'd | Get heap nat

fun stream_run ::
  "(heap \<Rightarrow> 's \<Rightarrow> 'd \<Rightarrow> 's \<times> int) \<Rightarrow> (heap \<Rightarrow> 's \<Rightarrow> nat \<Rightarrow> 's \<times> bytes) \<Rightarrow> 's \<Rightarrow> 'd stream_op list \<Rightarrow>
   's \<times> bytes \<times> ('d \<times> int) list" where
  "stream_run put get s [] = (s, [], [])"
| "stream_run put get s (Put h d # ops) =
     (let (s, r) = put h s d; (s, out, log) = stream_run put get s ops in (s, out, (d, r) # log))"
| "stream_run put get s (Get h n # ops) =
     (let (s, bs) = get h s n; (s, out, log) = stream_run put get s ops in (s, bs @ out, log))"

definition accepted :: "('d \<times> int) list \<Rightarrow> 'd list" where
  "accepted log = map fst (filter (\<lambda>x. snd x = SUPLA_RESULT_TRUE) log)"

definition op_fine :: "(heap \<Rightarrow> bool) \<Rightarrow> ('d \<Rightarrow> bool) \<Rightarrow> 'd stream_op \<Rightarrow> bool" where
  "op_fine good fits op = (case op of Put h d \<Rightarrow> good h \<and> fits d | Get h n \<Rightarrow> n < 2 ^ 32)"

locale byte_stream =
  fixes put :: "heap \<Rightarrow> 's \<Rightarrow> 'd \<Rightarrow> 's \<times> int"
    and get :: "heap \<Rightarrow> 's \<Rightarrow> nat \<Rightarrow> 's \<times> bytes"
    and stored :: "'s \<Rightarrow> bytes"
    and enc :: "'d \<Rightarrow> bytes"
    and inv :: "'s \<Rightarrow> bool"
    and good :: "heap \<Rightarrow> bool"
    and fits :: "'d \<Rightarrow> bool"
  assumes put_inv: "\<lbrakk>inv s; good h; fits d; put h s d = (s', r)\<rbrakk> \<Longrightarrow> inv s'"
    and put_true: "\<lbrakk>inv s; good h; fits d; put h s d = (s', SUPLA_RESULT_TRUE)\<rbrakk>
      \<Longrightarrow> stored s' = stored s @ enc d"
    and get_inv: "\<lbrakk>inv s; n < 2 ^ 32; get h s n = (s', bs)\<rbrakk> \<Longrightarrow> inv s'"
    and get_bytes: "\<lbrakk>inv s; n < 2 ^ 32; get h s n = (s', bs)\<rbrakk>
      \<Longrightarrow> bs = take n (stored s) \<and> stored s' = drop n (stored s)"
begin

lemma run_inv:
  "\<lbrakk>inv s; list_all (op_fine good fits) ops; stream_run put get s ops = (s', out, log)\<rbrakk> \<Longrightarrow> inv s'"
proof (induction ops arbitrary: s out log)
  case (Cons op ops)
  then show ?case
    by (cases op) (auto simp: op_fine_def split: prod.splits dest: put_inv get_inv)
qed simp

text \<open>If no piece was refused, what came out followed by what is still stored is what was stored
  followed by the encoded pieces, in order.\<close>

lemma run_fifo:
  "\<lbrakk>inv s; list_all (op_fine good fits) ops; stream_run put get s ops = (s', out, log);
    list_all (\<lambda>x. snd x = SUPLA_RESULT_TRUE) log\<rbrakk> \<Longrightarrow>
   out @ stored s' = stored s @ concat (map enc (map fst log))"
proof (induction ops arbitrary: s out log)
  case (Cons op ops)
  show ?case
  proof (cases op)
    case (Put h d)
    obtain s1 r where p: "put h s d = (s1, r)" by fastforce
    obtain s2 o2 l2 where q: "stream_run put get s1 ops = (s2, o2, l2)" by (metis prod_cases3)
    have log: "log = (d, r) # l2" "s' = s2" "out = o2" using Cons.prems p q Put by auto
    have "inv s1" "stored s1 = stored s @ enc d"
      using Cons.prems p log Put put_inv [of s h d s1 r] put_true [of s h d s1] by (auto simp: op_fine_def)
    with Cons p q log show ?thesis by simp
  next
    case (Get h n)
    obtain s1 bs where p: "get h s n = (s1, bs)" by fastforce
    obtain s2 o2 l2 where q: "stream_run put get s1 ops = (s2, o2, l2)" by (metis prod_cases3)
    have log: "log = l2" "s' = s2" "out = bs @ o2" using Cons.prems p q Get by auto
    have "inv s1" "bs = take n (stored s)" "stored s1 = drop n (stored s)"
      using Cons.prems p Get get_inv [of s n h s1 bs] get_bytes [of s n h s1 bs] by (auto simp: op_fine_def)
    moreover from this have "o2 @ stored s2 = stored s1 @ concat (map enc (map fst l2))"
      using Cons.IH [of s1 o2 l2] Cons.prems p q log by simp
    ultimately show ?thesis using log by simp
  qed
qed simp

end

text \<open>Where a refused piece leaves no trace, the equation holds for the accepted pieces.\<close>

locale atomic_byte_stream = byte_stream +
  assumes put_refused: "\<lbrakk>inv s; good h; fits d; put h s d = (s', r); r \<noteq> SUPLA_RESULT_TRUE\<rbrakk>
      \<Longrightarrow> stored s' = stored s"
begin

lemma run_fifo_accepted:
  "\<lbrakk>inv s; list_all (op_fine good fits) ops; stream_run put get s ops = (s', out, log)\<rbrakk> \<Longrightarrow>
   out @ stored s' = stored s @ concat (map enc (accepted log))"
proof (induction ops arbitrary: s out log)
  case (Cons op ops)
  show ?case
  proof (cases op)
    case (Put h d)
    obtain s1 r where p: "put h s d = (s1, r)" by fastforce
    obtain s2 o2 l2 where q: "stream_run put get s1 ops = (s2, o2, l2)" by (metis prod_cases3)
    have log: "log = (d, r) # l2" "s' = s2" "out = o2" using Cons.prems p q Put by auto
    have "inv s1" "stored s1 = stored s @ (if r = SUPLA_RESULT_TRUE then enc d else [])"
      using Cons.prems p log Put put_inv [of s h d s1 r] put_true [of s h d s1] put_refused [of s h d s1 r]
      by (auto simp: op_fine_def)
    with Cons p q log show ?thesis by (simp add: accepted_def)
  next
    case (Get h n)
    obtain s1 bs where p: "get h s n = (s1, bs)" by fastforce
    obtain s2 o2 l2 where q: "stream_run put get s1 ops = (s2, o2, l2)" by (metis prod_cases3)
    have log: "log = l2" "s' = s2" "out = bs @ o2" using Cons.prems p q Get by auto
    have "inv s1" "bs = take n (stored s)" "stored s1 = drop n (stored s)"
      using Cons.prems p Get get_inv [of s n h s1 bs] get_bytes [of s n h s1 bs] by (auto simp: op_fine_def)
    moreover from this have "o2 @ stored s2 = stored s1 @ concat (map enc (accepted l2))"
      using Cons.IH [of s1 o2 l2] Cons.prems p q log by simp
    ultimately show ?thesis using log by simp
  qed
qed (simp add: accepted_def)

end

subsection \<open>The two buffers are byte streams\<close>

text \<open>Reading \<open>n\<close> bytes from the output with a destination block of that size, and consuming
  \<open>n\<close> bytes of the input.\<close>

definition out_get :: "target \<Rightarrow> heap \<Rightarrow> TSuplaProtoData \<Rightarrow> nat \<Rightarrow> TSuplaProtoData \<times> bytes" where
  "out_get t h spd n =
     (let (spd, dest, k) = sproto_pop_out_data t h spd (Some (replicate n 0)) (of_nat n)
      in (spd, case dest of Some d \<Rightarrow> take (unat k) d | None \<Rightarrow> []))"

definition in_get :: "target \<Rightarrow> heap \<Rightarrow> TSuplaProtoData \<Rightarrow> nat \<Rightarrow> TSuplaProtoData \<times> bytes" where
  "in_get t h spd n =
     (spd\<lparr>sp_in := sproto_shrink_in_buffer t h (sp_in spd) (of_nat n)\<rparr>, take n (contents (sp_in spd)))"

definition packet_fits :: "target \<Rightarrow> packet \<Rightarrow> bool" where
  "packet_fits t p \<longleftrightarrow> packet_wf t p \<and> sdp_tag p = sproto_tag \<and>
     unat (sdp_data_size p) \<le> SUPLA_MAX_DATA_SIZE t"

lemma sproto_out_buffer_append_inv:
  assumes inv: "buf_inv t (sp_out spd)" and gh: "good_heap t h" and wf: "packet_fits t p"
    and res: "sproto_out_buffer_append t h spd p = (spd', r)"
  shows "buf_inv t (sp_out spd')" "spd' = spd\<lparr>sp_out := sp_out spd'\<rparr>"
proof -
  let ?d = "take (18 + unat (sdp_data_size p)) (sdp_bytes p)"
  have len: "length ?d < 2 ^ 31" "length sproto_tag < 2 ^ 31"
    using length_sdp_bytes [of t p] SUPLA_MAX_DATA_SIZE_bounds(2) [of t] wf
    by (simp_all add: packet_fits_def)
  note e = sproto_out_buffer_append_eq [of p t h spd]
  obtain b1 r1 where b1: "sproto_buffer_append t h (sp_out spd) ?d = (b1, r1)" by fastforce
  obtain b2 r2 where b2: "sproto_buffer_append t h b1 sproto_tag = (b2, r2)" by fastforce
  have i1: "buf_inv t b1" using sproto_buffer_append_cases [OF inv len(1) gh] b1 inv by auto
  have i2: "buf_inv t b2" using sproto_buffer_append_cases [OF i1 len(2) gh] b2 i1 by auto
  show "buf_inv t (sp_out spd')" "spd' = spd\<lparr>sp_out := sp_out spd'\<rparr>"
    using res wf i1 i2 b1 b2 by (auto simp: e packet_fits_def split: if_splits)
qed

interpretation out_stream: byte_stream
  "sproto_out_buffer_append t" "out_get t" "\<lambda>spd. contents (sp_out spd)" "\<lambda>p. encode (msg_of p)"
  "\<lambda>spd. buf_inv t (sp_out spd)" "good_heap t" "packet_fits t" for t
proof (unfold_locales, goal_cases)
  case (1 s h d s' r)
  then show ?case using sproto_out_buffer_append_inv by blast
next
  case (2 s h d s')
  then show ?case using sproto_out_buffer_append_true by (simp add: packet_fits_def)
next
  case (3 s n h s' bs)
  obtain s1 d k where p: "sproto_pop_out_data t h s (Some (replicate n 0)) (of_nat n) = (s1, d, k)"
    by (metis prod_cases3)
  have "unat (of_nat n :: u32) = n" using 3(2) by (rule unat_of_nat_u32)
  then show ?case using 3 p sproto_pop_out_data_spec(1) [OF 3(1) _ p] by (simp add: out_get_def)
next
  case (4 s n h s' bs)
  obtain s1 d k where p: "sproto_pop_out_data t h s (Some (replicate n 0)) (of_nat n) = (s1, d, k)"
    by (metis prod_cases3)
  have "unat (of_nat n :: u32) = n" using 4(2) by (rule unat_of_nat_u32)
  then show ?case using 4 p sproto_pop_out_data_spec(2-4) [OF 4(1) _ p]
    by (auto simp: out_get_def min_def)
qed

interpretation in_stream: atomic_byte_stream
  "sproto_in_buffer_append t" "in_get t" "\<lambda>spd. contents (sp_in spd)" "\<lambda>d. d"
  "\<lambda>spd. buf_inv t (sp_in spd)" "good_heap t" "\<lambda>d. length d < 2 ^ 31" for t
proof (unfold_locales, goal_cases)
  case (1 s h d s' r)
  then show ?case using sproto_buffer_append_cases [of t "sp_in s" d h]
    by (auto simp: sproto_in_buffer_append_def split: prod.splits)
next
  case (2 s h d s')
  then show ?case using sproto_buffer_append_cases [of t "sp_in s" d h]
    by (auto simp: sproto_in_buffer_append_def split: prod.splits)
next
  case (3 s n h s' bs)
  then show ?case using sproto_shrink_in_buffer_inv [of t "sp_in s" h "of_nat n"]
    by (auto simp: in_get_def)
next
  case (4 s n h s' bs)
  then show ?case using sproto_shrink_in_buffer_inv [of t "sp_in s" h "of_nat n"] unat_of_nat_u32 [of n]
    by (auto simp: in_get_def)
next
  case (5 s h d s' r)
  then show ?case using sproto_buffer_append_cases [of t "sp_in s" d h]
    by (auto simp: sproto_in_buffer_append_def split: prod.splits)
qed

section \<open>Properties\<close>

lemma blank_packet_wf: "packet_wf t (blank_packet t)"
  using sproto_sdp_init_spec(1) [of t sproto_new "fst (sproto_sdp_init t sproto_new)"]
  by (simp add: blank_packet_def)

lemma in_of_inv:
  assumes "length bs < 1000"
  shows "in_inv OTHER (sp_in (in_of bs))" "contents (sp_in (in_of bs)) = bs"
proof -
  have i: "buf_inv OTHER (sp_in sproto_new)" and g: "good_heap OTHER heap_any"
    by (simp_all add: buf_inv_def sproto_new_def good_heap_def heap_any_def)
  have bt: "begin_tag (fst (sproto_buffer_append t h b d)) = begin_tag b" for t h b d
    by (auto simp: sproto_buffer_append_def Let_def split: option.splits)
  have len: "length bs < 2 ^ 31" using assms by simp
  have e: "sp_in (in_of bs) = fst (sproto_buffer_append OTHER heap_any (sp_in sproto_new) bs)"
    by (simp add: in_of_def sproto_in_buffer_append_def split: prod.splits)
  have z: "b_data_size (sp_in sproto_new) = 0" "contents (sp_in sproto_new) = []"
    by (simp_all add: sproto_new_def contents_def)
  from sproto_buffer_append_cases [OF i len g] show
     "in_inv OTHER (sp_in (in_of bs))" "contents (sp_in (in_of bs)) = bs"
    using assms bt [of OTHER heap_any "sp_in sproto_new" bs] i z unfolding e
    by (auto simp: in_inv_def heap_any_def sproto_new_def)
qed

lemma demo_msg_parse: "parse OTHER (encode demo_msg) = Frame demo_msg []"
  using parse_encode [of OTHER demo_msg "[]"]
  by (simp add: demo_msg_def msg_ok_def const_defs)


lemma no_wrap_encode:
  assumes "msg_ok t m"
  shows "no_wrap (encode m @ rest)"
proof -
  have small: "length (m_payload m) < 2 ^ 17"
    using assms SUPLA_MAX_DATA_SIZE_bounds(2) [of t] by (simp add: msg_ok_def)
  then have "le_nat (u32_bytes (of_nat (length (m_payload m)))) = length (m_payload m)"
    by (intro le_nat_u32_bytes) simp
  with small show ?thesis by (simp add: no_wrap_def encode_segs)
qed

lemma demo_msg_ok: "msg_ok OTHER demo_msg"
  by (simp add: demo_msg_def msg_ok_def const_defs)

lemma demo_length: "length (encode demo_msg) < 1000"
  by (simp add: encode_def msg_header_def demo_msg_def)



text \<open>Under every interleaving of packets offered to the output buffer and reads from it, with
  any allocator behaviour, the bytes read followed by the bytes still buffered are the frames of the
  packets in the order they were offered, provided none was refused; the buffer invariant holds
  throughout.\<close>

theorem sproto_out_fifo:
  assumes "buf_inv t (sp_out spd)"
    and "list_all (op_fine (good_heap t) (packet_fits t)) ops"
    and "stream_run (sproto_out_buffer_append t) (out_get t) spd ops = (spd', out, log)"
    and "list_all (\<lambda>x. snd x = SUPLA_RESULT_TRUE) log"
  shows "buf_inv t (sp_out spd') \<and> out @ contents (sp_out spd') =
    contents (sp_out spd) @ concat (map (\<lambda>p. encode (msg_of p)) (map fst log))"
  using out_stream.run_inv [OF assms(1-3)] out_stream.run_fifo [OF assms] by simp_all

theorem sproto_out_fifo_witness:
  "\<exists>spd' out. stream_run (sproto_out_buffer_append DEVICE) (out_get DEVICE) sproto_new
      [Put heap_any (blank_packet DEVICE), Get heap_any 10]
      = (spd', out, [(blank_packet DEVICE, SUPLA_RESULT_TRUE)]) \<and>
    out @ contents (sp_out spd') = encode (msg_of (blank_packet DEVICE))"
proof -
  let ?p = "blank_packet DEVICE"
  let ?ops = "[Put heap_any ?p, Get heap_any 10]"
  have i: "buf_inv DEVICE (sp_out sproto_new)" "contents (sp_out sproto_new) = []"
    by (simp_all add: buf_inv_def sproto_new_def contents_def)
  have f: "list_all (op_fine (good_heap DEVICE) (packet_fits DEVICE)) ?ops"
    using blank_packet_wf [of DEVICE]
    by (simp add: op_fine_def good_heap_def packet_fits_def blank_packet_def sproto_sdp_init_def Let_def)
  have z: "sdp_data_size ?p = 0" by (simp add: blank_packet_def sproto_sdp_init_def Let_def)
  have "snd (sproto_out_buffer_append DEVICE heap_any sproto_new ?p) = SUPLA_RESULT_TRUE"
    using blank_packet_wf [of DEVICE]
    by (simp add: sproto_out_buffer_append_eq z sproto_buffer_append_def append_size_def sproto_new_def
        heap_any_def realloc_def length_sdp_bytes Let_def)
  then obtain s1 where "sproto_out_buffer_append DEVICE heap_any sproto_new ?p = (s1, SUPLA_RESULT_TRUE)"
    by (metis prod.collapse)
  then have e: "stream_run (sproto_out_buffer_append DEVICE) (out_get DEVICE) sproto_new ?ops =
      (fst (out_get DEVICE heap_any s1 10), snd (out_get DEVICE heap_any s1 10), [(?p, SUPLA_RESULT_TRUE)])"
    by (simp split: prod.splits)
  show ?thesis using sproto_out_fifo [OF i(1) f e] e i(2) by simp
qed

text \<open>The input buffer never loses, duplicates or reorders received bytes: for every
  interleaving of received chunks and consumed prefixes, what was consumed followed by what is still
  buffered is what was buffered followed by exactly the accepted chunks; a refused chunk leaves no
  trace.\<close>

theorem sproto_in_fifo:
  assumes "buf_inv t (sp_in spd)"
    and "list_all (op_fine (good_heap t) (\<lambda>d. length d < 2 ^ 31)) ops"
    and "stream_run (sproto_in_buffer_append t) (in_get t) spd ops = (spd', out, log)"
  shows "buf_inv t (sp_in spd') \<and> out @ contents (sp_in spd') = contents (sp_in spd) @ concat (accepted log)"
  using in_stream.run_inv [OF assms] in_stream.run_fifo_accepted [OF assms] by simp

text \<open>Bounds of the buffers: appending to a well-formed buffer either appends exactly the data,
  or leaves the buffer as it was and reports \<open>BUFFER_OVERFLOW\<close> exactly when the data would not fit
  below \<open>BUFFER_MAX_SIZE\<close>, or an allocation failure.\<close>

theorem sproto_buffer_append_bounds:
  assumes "buf_inv t b" and "length data < 2 ^ 31" and "good_heap t h"
    and "sproto_buffer_append t h b data = (b', r)"
  shows "buf_inv t b' \<and> (r = SUPLA_RESULT_TRUE \<longrightarrow> contents b' = contents b @ data) \<and>
    (r \<noteq> SUPLA_RESULT_TRUE \<longrightarrow> b' = b) \<and>
    (r = SUPLA_RESULT_BUFFER_OVERFLOW \<longleftrightarrow> BUFFER_MAX_SIZE t \<le> length (contents b) + length data) \<and>
    (r \<in> {SUPLA_RESULT_TRUE, SUPLA_RESULT_BUFFER_OVERFLOW} \<or>
       r = SUPLA_RESULT_FALSE \<and> (\<exists>n. \<not> heap_ok h n))"
proof -
  have "length (contents b) = unat (b_data_size b)" "length (contents b) < BUFFER_MAX_SIZE t"
    using buf_invD [OF assms(1)] by simp_all
  moreover have "length (contents b') < BUFFER_MAX_SIZE t" if "buf_inv t b'"
    using buf_invD [OF that] by simp
  ultimately show ?thesis
    using sproto_buffer_append_cases [OF assms(1-3)] assms(1,4) BUFFER_bounds(2) [of t]
    by auto
qed

text \<open>A declared payload length of \<open>2^32 - 18\<close> defeats the length check, because header size and
  length are added in 32 bits: the frame is reported as received although nothing is copied, so the
  caller handles the packet it received before once more, and only the five bytes of the tag are
  consumed.\<close>

theorem sproto_pop_in_sdp_length_wrap:
  assumes "in_inv t (sp_in spd)" and "packet_wf t sdp" and "c = contents (sp_in spd)"
    and "23 \<le> length c" and "take 5 c = sproto_tag"
    and "SUPLA_PROTO_VERSION_MIN \<le> unat (c ! 5)" and "unat (c ! 5) \<le> SUPLA_PROTO_VERSION"
    and "le_nat (seg 14 4 c) = 2 ^ 32 - 18"
  shows "\<exists>spd'. sproto_pop_in_sdp t h spd sdp = (spd', sdp, SUPLA_RESULT_TRUE) \<and>
    contents (sp_in spd') = drop 5 c"
proof -
  have bi: "buf_inv t (sp_in spd)" using assms(1) by (simp add: in_inv_def)
  note D = buf_invD [OF bi]
  have q: "sdp_version (sdp_of_bytes (b_buffer (sp_in spd))) = c ! 5"
      "sdp_data_size (sdp_of_bytes (b_buffer (sp_in spd))) = 4294967278"
    using sdp_of_bytes_buffer [OF bi] assms(3,4,8) by (simp_all add: bytes_u32_def)
  have tk: "take 5 (b_buffer (sp_in spd)) = sproto_tag"
    using assms(3,4,5) D(6) by (simp add: contents_def min_absorb1)
  have sz: "0 < b_size (sp_in spd)" "\<not> b_data_size (sp_in spd) < 5"
    using assms(3,4) D(3,6) by (auto simp: word_less_nat_alt)
  have five: "(4294967301 :: u32) = 5" by simp
  have mc: "sdp_memcpy sdp buf 0 = sdp" for buf
    using sdp_of_bytes_sdp_bytes [of sdp] assms(2) by (simp add: sdp_memcpy_def overlay_0 packet_wf_def)
  show ?thesis
    using pop_in_sdp_tagged [of t spd h sdp] assms q sz tk mc
      sproto_shrink_in_buffer_inv(2) [of t "sp_in (tagged spd)" h 5] bi
    by (auto simp: word_less_nat_alt word_le_nat_alt const_defs seg_0 five)
qed


theorem sproto_pop_in_sdp_length_wrap_witness:
  "\<exists>spd'. sproto_pop_in_sdp OTHER heap_any (in_of wrap_frame) (blank_packet OTHER)
      = (spd', blank_packet OTHER, SUPLA_RESULT_TRUE) \<and>
    contents (sp_in spd') = drop 5 wrap_frame"
proof -
  have len: "length wrap_frame = 23" by (simp add: wrap_frame_def)
  have c: "in_inv OTHER (sp_in (in_of wrap_frame))" "contents (sp_in (in_of wrap_frame)) = wrap_frame"
    by (rule in_of_inv, simp add: len)+
  have u: "u32_bytes (- 18) = [238, 255, 255, 255]" by (simp add: u32_bytes_def le_bytes_4)
  have "wrap_frame ! 5 = 25" "take 5 wrap_frame = sproto_tag" "seg 14 4 wrap_frame = [238, 255, 255, 255]"
    by (simp_all add: wrap_frame_def nth_append seg_def u)
  then show ?thesis
    using sproto_pop_in_sdp_length_wrap [OF c(1) blank_packet_wf c(2) [symmetric], where h = heap_any]
    by (simp add: len const_defs)
qed

text \<open>\<open>sproto_out_buffer_append\<close> appends the packet and then the closing tag in two steps and
  does not undo the first: when only the tag does not fit, the call fails but the header and payload
  stay in the output, so the next packet is sent without the tag in front of it.\<close>

theorem sproto_out_buffer_append_torn:
  assumes "buf_inv t (sp_out spd)" and "good_heap t h" and "packet_fits t p" and "heap_ok h = (\<lambda>_. True)"
    and "n = length (contents (sp_out spd)) + 18 + unat (sdp_data_size p)"
    and "n < BUFFER_MAX_SIZE t" and "BUFFER_MAX_SIZE t \<le> n + 5"
  shows "\<exists>spd'. sproto_out_buffer_append t h spd p = (spd', SUPLA_RESULT_BUFFER_OVERFLOW) \<and>
    contents (sp_out spd') @ sproto_tag = contents (sp_out spd) @ encode (msg_of p)"
proof -
  let ?d = "take (18 + unat (sdp_data_size p)) (sdp_bytes p)"
  note pf = assms(3) [unfolded packet_fits_def]
  have len: "length ?d = 18 + unat (sdp_data_size p)" "length ?d < 2 ^ 31"
    using length_sdp_bytes [of t p] SUPLA_MAX_DATA_SIZE_bounds(2) [of t] pf by simp_all
  have lc: "length (contents (sp_out spd)) = unat (b_data_size (sp_out spd))"
    using buf_invD [OF assms(1)] by simp
  from sproto_buffer_append_cases [OF assms(1) len(2) assms(2)] obtain b1 where
    b1: "sproto_buffer_append t h (sp_out spd) ?d = (b1, SUPLA_RESULT_TRUE)" "buf_inv t b1"
      "contents b1 = contents (sp_out spd) @ ?d"
    using assms(4-6) len lc BUFFER_bounds(2) [of t] by auto
  have lb: "unat (b_data_size b1) = n"
    using buf_invD(6) [OF b1(2)] b1(3) len assms(5) by simp
  have "\<not> (buf_inv t b2 \<and> contents b2 = contents b1 @ sproto_tag)" for b2
    using buf_invD(3,4,6) [of t b2] buf_invD(6) [OF b1(2)] lb assms(7) by auto
  then have "sproto_buffer_append t h b1 sproto_tag = (b1, SUPLA_RESULT_BUFFER_OVERFLOW)"
    using sproto_buffer_append_cases [OF b1(2) _ assms(2), of sproto_tag] assms(4) by auto
  then show ?thesis
    using b1 sdp_frame [of t p] pf by (auto simp: sproto_out_buffer_append_eq)
qed


lemma blank_packet_fits: "packet_fits t (blank_packet t)" "sdp_data_size (blank_packet t) = 0"
  using blank_packet_wf [of t]
  by (simp_all add: packet_fits_def blank_packet_def sproto_sdp_init_def Let_def)

theorem sproto_out_buffer_append_torn_witness:
  "\<exists>spd'. sproto_out_buffer_append OTHER heap_any (out_filled 131050) (blank_packet OTHER)
      = (spd', SUPLA_RESULT_BUFFER_OVERFLOW) \<and>
    contents (sp_out spd') @ sproto_tag =
      contents (sp_out (out_filled 131050)) @ encode (msg_of (blank_packet OTHER))"
  by (rule sproto_out_buffer_append_torn [where n = 131068])
    (simp_all add: buf_inv_def out_filled_def contents_def good_heap_def heap_any_def blank_packet_fits)

text \<open>The server build decides that \<open>realloc\<close> failed by looking at \<open>errno\<close>, which a successful
  call does not reset: with an earlier \<open>ENOMEM\<close> still recorded, an append that had to grow the buffer
  reports failure although the old block is gone, and the stored pointer dangles.\<close>

theorem sproto_buffer_append_stale_errno:
  assumes "buf_inv OTHER b" and "length data < 2 ^ 31" and "heap_ok h = (\<lambda>_. True)" and "heap_errno_enomem h"
    and "unat (b_size b) < length (contents b) + length data"
    and "length (contents b) + length data < BUFFER_MAX_SIZE OTHER"
  shows "sproto_buffer_append OTHER h b data = (b\<lparr>b_dangling := True\<rparr>, SUPLA_RESULT_FALSE)"
proof -
  define sz where "sz = append_size OTHER b (of_nat (length data))"
  have sz: "unat sz = max (max (unat (b_size b)) (BUFFER_MIN_SIZE OTHER)) (length (contents b) + length data)"
    using append_size_nat [OF assms(1,2)] buf_invD(6) [OF assms(1)] by (simp add: sz_def)
  then have "\<not> sz \<ge> of_nat (BUFFER_MAX_SIZE OTHER)"
    using assms(6) buf_invD(4) [OF assms(1)] BUFFER_bounds(2) [of OTHER]
    by (simp add: word_le_nat_alt del: BUFFER_MAX_SIZE.simps BUFFER_MIN_SIZE.simps)
  moreover have "sz \<noteq> b_size b" using sz assms(5) by auto
  ultimately show ?thesis
    using assms(3,4) by (simp add: sproto_buffer_append_def Let_def sz_def [symmetric] realloc_def)
qed

theorem sproto_buffer_append_stale_errno_witness:
  "sproto_buffer_append OTHER (heap_any\<lparr>heap_errno_enomem := True\<rparr>) (sp_out sproto_new) [1]
   = ((sp_out sproto_new)\<lparr>b_dangling := True\<rparr>, SUPLA_RESULT_FALSE)"
  by (rule sproto_buffer_append_stale_errno)
    (simp_all add: buf_inv_def sproto_new_def contents_def heap_any_def)

theorem sproto_in_fifo_witness:
  "\<exists>spd' out log. stream_run (sproto_in_buffer_append AVR) (in_get AVR) sproto_new
      [Put heap_any [1, 2, 3], Get heap_any 2, Put heap_any [4]] = (spd', out, log) \<and>
    out @ contents (sp_in spd') = concat (accepted log)"
proof -
  let ?ops = "[Put heap_any [1, 2, 3], Get heap_any 2, Put heap_any [4]]"
  obtain spd' out log where e: "stream_run (sproto_in_buffer_append AVR) (in_get AVR) sproto_new ?ops = (spd', out, log)"
    by (metis prod_cases3)
  have "buf_inv AVR (sp_in sproto_new)" "contents (sp_in sproto_new) = []"
    by (simp_all add: buf_inv_def sproto_new_def contents_def)
  then show ?thesis using sproto_in_fifo [OF _ _ e] e by (simp add: op_fine_def good_heap_def)
qed

theorem sproto_buffer_append_bounds_witness:
  "snd (sproto_buffer_append AVR heap_any (sp_out sproto_new) (replicate 5000 0)) = SUPLA_RESULT_BUFFER_OVERFLOW"
proof -
  let ?x = "sproto_buffer_append AVR heap_any (sp_out sproto_new) (replicate 5000 0)"
  have "buf_inv AVR (sp_out sproto_new)" "length (contents (sp_out sproto_new)) = 0"
    by (simp_all add: buf_inv_def sproto_new_def contents_def)
  then show ?thesis
    using sproto_buffer_append_bounds [of AVR "sp_out sproto_new" "replicate 5000 0" heap_any "fst ?x" "snd ?x"]
    by (simp add: good_heap_def)
qed

lemma rr_id_after:
  "next_rr_id (((\<lambda>spd. fst (sproto_sdp_init t spd)) ^^ Suc k) sproto_new) = of_nat (k mod (2 ^ 32 - 1) + 1)"
proof (induction k)
  case 0
  then show ?case by (simp add: sproto_sdp_init_def sproto_new_def Let_def)
next
  case (Suc k)
  define m where "m = k mod (2 ^ 32 - 1)"
  define spd where "spd = ((\<lambda>spd. fst (sproto_sdp_init t spd)) ^^ Suc k) sproto_new"
  have r: "next_rr_id spd = of_nat (Suc m)" using Suc by (simp add: spd_def m_def)
  have m: "m < 2 ^ 32 - 1" by (simp add: m_def)
  have z: "(of_nat (Suc (Suc m)) :: u32) = 0 \<longleftrightarrow> Suc (Suc m) = 2 ^ 32"
  proof -
    have "(of_nat (Suc (Suc m)) :: u32) = 0 \<longleftrightarrow> 2 ^ 32 dvd Suc (Suc m)"
      by (simp only: word_of_nat_eq_0_iff) simp
    also have "\<dots> \<longleftrightarrow> Suc (Suc m) = 2 ^ 32"
      using m dvd_imp_le [of "2 ^ 32" "Suc (Suc m)"] by auto
    finally show ?thesis .
  qed
  have "next_rr_id (fst (sproto_sdp_init t spd)) =
      (let n = next_rr_id spd + 1 in if n = 0 then n + 1 else n)"
    by (simp add: sproto_sdp_init_def Let_def)
  moreover have "next_rr_id spd + 1 = of_nat (Suc (Suc m))" by (simp add: r)
  ultimately have "next_rr_id (fst (sproto_sdp_init t spd)) =
      (if of_nat (Suc (Suc m)) = (0 :: u32) then 1 else of_nat (Suc (Suc m)))"
    by (simp only: Let_def) simp
  then have "next_rr_id (fst (sproto_sdp_init t spd)) =
      (if Suc (Suc m) = 2 ^ 32 then 1 else of_nat (Suc (Suc m)))"
    by (simp only: z)
  moreover have "Suc k mod (2 ^ 32 - 1) = (if Suc (Suc m) = 2 ^ 32 then 0 else Suc m)"
    using mod_Suc [of k "2 ^ 32 - 1"] by (simp add: m_def)
  ultimately show ?case by (simp add: spd_def)
qed

text \<open>Request identifiers: packet number \<open>k\<close> (from 0) built on a fresh connection carries the
  identifier \<open>k mod (2^32 - 1) + 1\<close>; hence an identifier is never zero and no two of any \<open>2^32 - 1\<close>
  consecutive packets share one.\<close>

theorem sproto_rr_id_sequence:
  "sdp_rr_id (snd (sproto_sdp_init t (((\<lambda>spd. fst (sproto_sdp_init t spd)) ^^ k) sproto_new)))
   = of_nat (k mod (2 ^ 32 - 1) + 1)"
proof -
  have "sdp_rr_id (snd (sproto_sdp_init t spd)) = next_rr_id (fst (sproto_sdp_init t spd))" for spd
    by (simp add: sproto_sdp_init_def Let_def)
  then show ?thesis using rr_id_after [where t = t and k = k] by simp
qed

text \<open>Copying a string into a fixed field stores the longest prefix that leaves room for the
  terminator, reports its length with the terminator, and writes nothing behind it.\<close>

theorem sproto_set_null_terminated_string_spec:
  assumes "0 < max_size" and "max_size < 2 ^ 16" and "max_size \<le> length d"
    and "sproto_set_null_terminated_string (Some s) (Some d) max_size = (d', n)"
  shows "\<exists>e. d' = Some e \<and> length e = length d \<and> c_str e = take (max_size - 1) (c_str s) \<and>
    unat n = length (c_str e) + 1 \<and> unat n \<le> max_size \<and> drop (unat n) e = drop (unat n) d"
proof -
  define x where "x = take (max_size - 1) (c_str s)"
  have x: "list_all (\<lambda>c. c \<noteq> 0) x" "length x < max_size"
    using assms(1) c_str_no_nul by (auto simp: x_def)
  define e where "e = x @ 0 # drop (Suc (length x)) d"
  have e: "snprintf_s d max_size s = e" by (simp add: snprintf_s_def x_def e_def overlay_0)
  have c: "c_str e = x" unfolding e_def by (rule c_str_stop [OF x(1)])
  have "c_str (take (max_size - 1) e) = x"
  proof (cases "length x = max_size - 1")
    case True
    then show ?thesis using x(1) by (simp add: e_def c_str_def takeWhile_eq_all_conv list_all_iff)
  next
    case False
    then obtain k where "max_size - 1 = length x + Suc k"
      using x(2) by (metis One_nat_def Suc_pred assms(1) less_Suc_eq less_imp_Suc_add add_Suc_right)
    then have "take (max_size - 1) e = x @ 0 # take k (drop (Suc (length x)) d)"
      by (simp only: e_def) simp
    then show ?thesis using c_str_stop [OF x(1)] by simp
  qed
  then have r: "d' = Some e" "n = ucast (of_nat (length x + 1) :: u16)"
    using assms(1,4) e by (auto simp: sproto_set_null_terminated_string_def
        sproto__set_null_terminated_string_def Let_def)
  have "unat (of_nat (length x + 1) :: u16) = length x + 1"
    using x(2) assms(2) by (simp only: unat_of_nat) simp
  then have "unat n = length x + 1" using r(2) by simp
  then show ?thesis
    using r(1) c x(2) assms(3) unfolding x_def [symmetric] by (simp add: e_def)
qed

theorem sproto_set_null_terminated_string_spec_witness:
  "\<exists>e. sproto_set_null_terminated_string (Some [65, 66, 67, 0]) (Some [9, 9, 9, 9]) 3 = (Some e, 3) \<and>
     c_str e = [65, 66]"
proof -
  let ?x = "sproto_set_null_terminated_string (Some [65, 66, 67, 0]) (Some [9, 9, 9, 9]) 3"
  have "(fst ?x, snd ?x) = (Some [65, 66, 0, 9], 3)"
    by (simp add: sproto_set_null_terminated_string_def sproto__set_null_terminated_string_def
        snprintf_s_def c_str_def overlay_def Let_def)
  then show ?thesis
    using sproto_set_null_terminated_string_spec [of 3 "[9, 9, 9, 9]" "[65, 66, 67, 0]" "fst ?x" "snd ?x"]
    by (auto simp: c_str_def)
qed

end
