(* ===== verification/Srpc_Queue.thy ===== *)
theory Srpc_Queue
  imports Sproto "HOL-Library.Multiset"
begin

text \<open>
  The packet queues of \<open>srpc.c\<close>: an array of \<open>SRPC_QUEUE_SIZE\<close> packet pointers, of which the first
  \<open>item_count\<close> are in use; blocks of popped packets are kept for reuse up to
  \<open>SRPC_QUEUE_MIN_ALLOC_COUNT\<close>.  A slot is a \<open>packet option\<close>, \<open>None\<close> the null pointer; reading through
  a null pointer is the unspecified \<open>the None\<close>, and \<open>queue_inv\<close> shows that it does not happen.

  \<open>packet_queue\<close> is the contract of the queues: a bounded list, pushed at the end, from which the
  oldest packet with a given identifier is taken.
\<close>

section \<open>Data and operations\<close>

record Tsrpc_Queue =
  item_count :: u8
  alloc_count :: u8
  item :: "packet option list"

text \<open>The zeroed queue of \<open>srpc_init\<close>.\<close>

definition queue_zero :: "target \<Rightarrow> Tsrpc_Queue" where
  "queue_zero t = \<lparr>item_count = 0, alloc_count = 0, item = replicate (SRPC_QUEUE_SIZE t) None\<rparr>"

text \<open>The blocks \<open>srpc_queue_free\<close> gives back are its second result; the pointers themselves are
  left in place.\<close>

definition srpc_queue_free :: "Tsrpc_Queue \<Rightarrow> Tsrpc_Queue \<times> packet list" where
  "srpc_queue_free queue =
     (queue\<lparr>item_count := 0, alloc_count := 0\<rparr>, map the (filter (\<lambda>p. p \<noteq> None) (item queue)))"

definition srpc_queue_push ::
  "target \<Rightarrow> heap \<Rightarrow> Tsrpc_Queue \<Rightarrow> packet \<Rightarrow> Tsrpc_Queue \<times> int" where
  "srpc_queue_push t h queue sdp =
     (let i = unat (item_count queue)
      in if i \<ge> SRPC_QUEUE_SIZE t then (queue, SUPLA_RESULT_FALSE)
         else if item queue ! i = None \<and> \<not> heap_ok h (sizeof (TSuplaDataPacket t))
         then (queue, SUPLA_RESULT_FALSE)
         else (queue\<lparr>alloc_count := alloc_count queue + 1, item := (item queue)[i := Some sdp],
                     item_count := item_count queue + 1\<rparr>, SUPLA_RESULT_TRUE))"

text \<open>The search loop: the first index from \<open>a\<close> below \<open>n\<close> whose packet matches.\<close>

function queue_find :: "packet option list \<Rightarrow> u32 \<Rightarrow> nat \<Rightarrow> nat \<Rightarrow> nat option" where
  "queue_find items rr_id a n =
     (if a < n then
        if rr_id = 0 \<or> sdp_rr_id (the (items ! a)) = rr_id then Some a
        else queue_find items rr_id (Suc a) n
      else None)"
  by pat_completeness auto
termination by (relation "measure (\<lambda>(items, rr_id, a, n). n - a)") auto

declare queue_find.simps [simp del]

definition srpc_queue_pop ::
  "target \<Rightarrow> Tsrpc_Queue \<Rightarrow> packet \<Rightarrow> u32 \<Rightarrow> Tsrpc_Queue \<times> packet \<times> int" where
  "srpc_queue_pop t queue sdp rr_id =
     (let n = unat (item_count queue)
      in case queue_find (item queue) rr_id 0 n of
           None \<Rightarrow> (queue, sdp, SUPLA_RESULT_FALSE)
         | Some a \<Rightarrow>
             let sdp = the (item queue ! a);
                 queue = (if unat (alloc_count queue) > SRPC_QUEUE_MIN_ALLOC_COUNT t
                          then queue\<lparr>alloc_count := alloc_count queue - 1,
                                     item := (item queue)[a := None]\<rparr>
                          else queue);
                 it = item queue ! a;
                 items = shift_loop (Suc a) a n (item queue)
             in (queue\<lparr>item_count := item_count queue - 1, item := items[n - 1 := it]\<rparr>,
                 sdp, SUPLA_RESULT_TRUE))"

section \<open>Invariant and abstraction\<close>

definition blocks :: "packet option list \<Rightarrow> nat" where
  "blocks items = length (filter (\<lambda>p. p \<noteq> None) items)"

definition queue_inv :: "target \<Rightarrow> Tsrpc_Queue \<Rightarrow> bool" where
  "queue_inv t q \<longleftrightarrow> length (item q) = SRPC_QUEUE_SIZE t \<and> unat (item_count q) \<le> SRPC_QUEUE_SIZE t \<and>
     list_all (\<lambda>p. p \<noteq> None) (take (unat (item_count q)) (item q)) \<and>
     blocks (item q) \<le> unat (alloc_count q) \<and>
     unat (alloc_count q) \<le> SRPC_QUEUE_MIN_ALLOC_COUNT t + unat (item_count q)"

definition queued :: "Tsrpc_Queue \<Rightarrow> packet list" where
  "queued q = map the (take (unat (item_count q)) (item q))"

definition matches :: "u32 \<Rightarrow> packet \<Rightarrow> bool" where
  "matches rr p \<longleftrightarrow> rr = 0 \<or> sdp_rr_id p = rr"

section \<open>Lemmas\<close>

lemma SRPC_QUEUE_bounds: "SRPC_QUEUE_SIZE t \<le> 10" "SRPC_QUEUE_MIN_ALLOC_COUNT t \<le> 2" "0 < SRPC_QUEUE_SIZE t"
  by (cases t; simp)+

lemma queue_find_Some:
  "queue_find items rr a n = Some i \<Longrightarrow>
   a \<le> i \<and> i < n \<and> (rr = 0 \<or> sdp_rr_id (the (items ! i)) = rr) \<and>
   (\<forall>j. a \<le> j \<and> j < i \<longrightarrow> \<not> (rr = 0 \<or> sdp_rr_id (the (items ! j)) = rr))"
proof (induction items rr a n rule: queue_find.induct)
  case (1 items rr a n)
  show ?case
  proof (cases "a < n \<and> \<not> (rr = 0 \<or> sdp_rr_id (the (items ! a)) = rr)")
    case True
    then have "queue_find items rr (Suc a) n = Some i"
      using "1.prems" by (subst (asm) queue_find.simps) simp
    then show ?thesis
      using "1.IH" True by (auto simp: Suc_le_eq) (metis le_neq_implies_less Suc_leI)+
  next
    case False
    then show ?thesis
      using "1.prems" by (subst (asm) queue_find.simps) (auto split: if_splits)
  qed
qed

lemma queue_find_None:
  "queue_find items rr a n = None \<Longrightarrow> a \<le> j \<Longrightarrow> j < n \<Longrightarrow>
   \<not> (rr = 0 \<or> sdp_rr_id (the (items ! j)) = rr)"
proof (induction items rr a n rule: queue_find.induct)
  case (1 items rr a n)
  have lt: "a < n" using "1.prems" by simp
  then have n: "\<not> (rr = 0 \<or> sdp_rr_id (the (items ! a)) = rr)"
    "queue_find items rr (Suc a) n = None"
    using "1.prems"(1) by (subst (asm) queue_find.simps, simp split: if_splits)+
  show ?case
  proof (cases "j = a")
    case False
    then show ?thesis using "1.IH" [OF lt n] "1.prems" by simp
  qed (use n in simp)
qed

lemma blocks_simps [simp]:
  "blocks [] = 0" "blocks (xs @ ys) = blocks xs + blocks ys"
  "blocks (x # xs) = (if x = None then 0 else 1) + blocks xs"
  by (simp_all add: blocks_def)

lemma blocks_split: "i < length xs \<Longrightarrow> blocks xs = blocks (take i xs) + blocks [xs ! i] + blocks (drop (Suc i) xs)"
  by (subst id_take_nth_drop [of i xs]) simp_all

lemma blocks_update:
  assumes "i < length xs"
  shows "blocks (xs[i := Some x]) \<le> Suc (blocks xs)"
    "xs ! i \<noteq> None \<Longrightarrow> Suc (blocks (xs[i := None])) = blocks xs"
  using blocks_split [OF assms] assms by (auto simp: upd_conv_take_nth_drop)

text \<open>What the two index loops of \<open>srpc_queue_pop\<close> leave: the slot moves behind the used part.\<close>

lemma rotate_slot:
  assumes "a < n" and "n \<le> length xs"
  shows "(shift_loop (Suc a) a n xs)[n - 1 := x] =
    take a xs @ seg (Suc a) (n - Suc a) xs @ x # drop n xs"
proof -
  have "shift_loop (Suc a) a n xs = (take a xs @ seg (Suc a) (n - Suc a) xs) @ drop (n - 1) xs"
    using shift_loop_eq [of a "Suc a" n xs] assms by simp
  moreover have "length (take a xs @ seg (Suc a) (n - Suc a) xs) = n - 1"
    using assms by simp
  moreover have "drop (n - 1) xs = xs ! (n - 1) # drop n xs"
    using assms Cons_nth_drop_Suc [of "n - 1" xs] by simp
  ultimately show ?thesis by (simp only: list_update_append) simp
qed

lemma srpc_queue_push_spec:
  assumes inv: "queue_inv t q" and res: "srpc_queue_push t h q p = (q', r)"
  shows "queue_inv t q'"
    "r = SUPLA_RESULT_TRUE \<Longrightarrow> queued q' = queued q @ [p] \<and> length (queued q') \<le> SRPC_QUEUE_SIZE t"
    "r \<noteq> SUPLA_RESULT_TRUE \<Longrightarrow> q' = q \<and> r = SUPLA_RESULT_FALSE \<and>
       (length (queued q) = SRPC_QUEUE_SIZE t \<or> \<not> heap_ok h (sizeof (TSuplaDataPacket t)))"
proof -
  define i where "i = unat (item_count q)"
  have len: "length (item q) = SRPC_QUEUE_SIZE t" "i \<le> SRPC_QUEUE_SIZE t"
    using inv by (simp_all add: queue_inv_def i_def)
  note b = SRPC_QUEUE_bounds [of t]
  have "queue_inv t q' \<and>
    (r = SUPLA_RESULT_TRUE \<and> queued q' = queued q @ [p] \<and> length (queued q') \<le> SRPC_QUEUE_SIZE t \<or>
     r = SUPLA_RESULT_FALSE \<and> q' = q \<and>
       (length (queued q) = SRPC_QUEUE_SIZE t \<or> \<not> heap_ok h (sizeof (TSuplaDataPacket t))))"
  proof (cases "i < SRPC_QUEUE_SIZE t \<and> (item q ! i \<noteq> None \<or> heap_ok h (sizeof (TSuplaDataPacket t)))")
    case True
    have q': "q' = q\<lparr>alloc_count := alloc_count q + 1, item := (item q)[i := Some p], item_count := item_count q + 1\<rparr>"
      and r: "r = SUPLA_RESULT_TRUE"
      using res True by (auto simp: srpc_queue_push_def i_def Let_def)
    have ic: "unat (item_count q + 1) = Suc i"
      using True b by (simp add: i_def unat_word_ariths)
    have ac: "unat (alloc_count q + 1) = Suc (unat (alloc_count q))"
      using inv b len by (simp add: unat_word_ariths queue_inv_def)
    have tk: "take (Suc i) ((item q)[i := Some p]) = take i (item q) @ [Some p]"
      using True len by (simp add: take_Suc_conv_app_nth)
    have "queue_inv t q'"
      using inv True len ic ac tk blocks_update(1) [of i "item q" p]
      by (auto simp: queue_inv_def q' i_def [symmetric])
    moreover have "queued q' = queued q @ [p] \<and> length (queued q') \<le> SRPC_QUEUE_SIZE t"
      using ic tk True len by (simp add: queued_def q' i_def [symmetric])
    ultimately show ?thesis using r by blast
  next
    case False
    then have "q' = q \<and> r = SUPLA_RESULT_FALSE"
      using res by (auto simp: srpc_queue_push_def i_def Let_def split: if_splits)
    then show ?thesis
      using False len inv by (auto simp: queued_def i_def [symmetric])
  qed
  then show "queue_inv t q'"
    "r = SUPLA_RESULT_TRUE \<Longrightarrow> queued q' = queued q @ [p] \<and> length (queued q') \<le> SRPC_QUEUE_SIZE t"
    "r \<noteq> SUPLA_RESULT_TRUE \<Longrightarrow> q' = q \<and> r = SUPLA_RESULT_FALSE \<and>
       (length (queued q) = SRPC_QUEUE_SIZE t \<or> \<not> heap_ok h (sizeof (TSuplaDataPacket t)))"
    by auto
qed

lemma srpc_queue_pop_spec:
  assumes inv: "queue_inv t q" and res: "srpc_queue_pop t q sdp rr = (q', sdp', r)"
  shows "r = SUPLA_RESULT_TRUE \<and> queue_inv t q' \<and>
      (\<exists>xs ys. queued q = xs @ sdp' # ys \<and> queued q' = xs @ ys \<and> matches rr sdp' \<and>
               list_all (\<lambda>p. \<not> matches rr p) xs) \<or>
    r = SUPLA_RESULT_FALSE \<and> q' = q \<and> sdp' = sdp \<and> list_all (\<lambda>p. \<not> matches rr p) (queued q)"
proof -
  define n where "n = unat (item_count q)"
  have len: "length (item q) = SRPC_QUEUE_SIZE t" "n \<le> length (item q)"
    and nn: "\<And>j. j < n \<Longrightarrow> item q ! j \<noteq> None"
    and bl: "blocks (item q) \<le> unat (alloc_count q)"
    using inv by (auto simp: queue_inv_def n_def list_all_length)
  show ?thesis
  proof (cases "queue_find (item q) rr 0 n")
    case None
    then have "list_all (\<lambda>p. \<not> matches rr p) (queued q)"
      using queue_find_None [OF None] len
      by (auto simp: list_all_length queued_def n_def [symmetric] matches_def)
    then show ?thesis using res None by (auto simp: srpc_queue_pop_def n_def [symmetric] Let_def)
  next
    case (Some a)
    note f = queue_find_Some [OF Some]
    have a: "a < n" "matches rr (the (item q ! a))" "\<And>j. j < a \<Longrightarrow> \<not> matches rr (the (item q ! j))"
      using f by (auto simp: matches_def)
    define fr where "fr \<longleftrightarrow> unat (alloc_count q) > SRPC_QUEUE_MIN_ALLOC_COUNT t"
    define its where "its = (if fr then (item q)[a := None] else item q)"
    define ac where "ac = (if fr then alloc_count q - 1 else alloc_count q)"
    have li: "length its = length (item q)" by (simp add: its_def)
    have tk: "take a its = take a (item q)" "drop n its = drop n (item q)"
        "seg (Suc a) (n - Suc a) its = seg (Suc a) (n - Suc a) (item q)"
      using a(1) by (simp_all add: its_def seg_def)
    have "srpc_queue_pop t q sdp rr = (q\<lparr>item_count := item_count q - 1, alloc_count := ac,
          item := (shift_loop (Suc a) a n its)[n - 1 := its ! a]\<rparr>, the (item q ! a), SUPLA_RESULT_TRUE)"
      using Some by (simp add: srpc_queue_pop_def n_def [symmetric] Let_def its_def ac_def fr_def)
    then have q': "q' = q\<lparr>item_count := item_count q - 1, alloc_count := ac,
          item := take a (item q) @ seg (Suc a) (n - Suc a) (item q) @ its ! a # drop n (item q)\<rparr>"
      "sdp' = the (item q ! a)" "r = SUPLA_RESULT_TRUE"
      using res rotate_slot [OF a(1), of its "its ! a"] len(2) by (simp_all add: li tk)
    have ic: "unat (item_count q - 1) = n - 1"
      using a(1) unat_sub [of 1 "item_count q"] by (simp add: n_def word_le_nat_alt)
    have used: "take n (item q) = take a (item q) @ item q ! a # seg (Suc a) (n - Suc a) (item q)"
    proof -
      have "take n (item q) = take a (take n (item q)) @ take n (item q) ! a # drop (Suc a) (take n (item q))"
        using a(1) len(2) by (intro id_take_nth_drop) simp
      then show ?thesis using a(1) by (simp add: seg_def drop_take min_absorb1)
    qed
    have ln: "length (take a (item q) @ seg (Suc a) (n - Suc a) (item q)) = n - 1"
      using a(1) len(2) by simp
    have tk': "take (n - 1) (item q') = take a (item q) @ seg (Suc a) (n - Suc a) (item q)"
      unfolding q'(1) using a(1) len(2) by (simp add: min_absorb2)
    have old: "queued q = map the (take a (item q)) @ the (item q ! a) # map the (seg (Suc a) (n - Suc a) (item q))"
      by (simp add: queued_def n_def [symmetric] used)
    have new: "queued q' = map the (take a (item q)) @ map the (seg (Suc a) (n - Suc a) (item q))"
      using tk' by (simp add: queued_def q' ic n_def [symmetric])
    have "blocks (item q) = blocks (take n (item q)) + blocks (drop n (item q))"
      by (metis append_take_drop_id blocks_simps(2))
    then have bs: "blocks (item q) = blocks (take a (item q)) + 1 + blocks (seg (Suc a) (n - Suc a) (item q))
        + blocks (drop n (item q))"
      using nn [OF a(1)] by (simp add: used)
    have pos: "fr \<Longrightarrow> unat (alloc_count q - 1) = unat (alloc_count q) - 1"
      unfolding fr_def using unat_sub [of 1 "alloc_count q"] by (simp add: word_le_nat_alt)
    have it: "its ! a = (if fr then None else item q ! a)"
      using a(1) len(2) by (simp add: its_def)
    have "queue_inv t q'"
      using inv ic len a(1) tk' bs pos nn [OF a(1)] bl used
      by (auto simp: queue_inv_def q' it n_def [symmetric] fr_def ac_def split: if_splits)
    moreover have "list_all (\<lambda>p. \<not> matches rr p) (map the (take a (item q)))"
      using a(3) by (auto simp: list_all_length)
    ultimately show ?thesis using old new q' a(2) by auto
  qed
qed


section \<open>The contract of the queues\<close>

datatype queue_op = Push heap packet | Pop u32

text \<open>Running operations on a queue: the final queue, the packets accepted and the packets taken
  out, both in order.\<close>

fun queue_run ::
  "(heap \<Rightarrow> 'q \<Rightarrow> packet \<Rightarrow> 'q \<times> int) \<Rightarrow> ('q \<Rightarrow> packet \<Rightarrow> u32 \<Rightarrow> 'q \<times> packet \<times> int) \<Rightarrow> packet \<Rightarrow>
   'q \<Rightarrow> queue_op list \<Rightarrow> 'q \<times> packet list \<times> packet list" where
  "queue_run push pop sdp q [] = (q, [], [])"
| "queue_run push pop sdp q (Push h p # ops) =
     (let (q, r) = push h q p; (q, ins, outs) = queue_run push pop sdp q ops
      in (q, (if r = SUPLA_RESULT_TRUE then p # ins else ins), outs))"
| "queue_run push pop sdp q (Pop rr # ops) =
     (let (q, x, r) = pop q sdp rr; (q, ins, outs) = queue_run push pop sdp q ops
      in (q, ins, if r = SUPLA_RESULT_TRUE then x # outs else outs))"

definition pops_oldest :: "queue_op \<Rightarrow> bool" where
  "pops_oldest op \<longleftrightarrow> (case op of Push h p \<Rightarrow> True | Pop rr \<Rightarrow> rr = 0)"

locale packet_queue =
  fixes push :: "heap \<Rightarrow> 'q \<Rightarrow> packet \<Rightarrow> 'q \<times> int"
    and pop :: "'q \<Rightarrow> packet \<Rightarrow> u32 \<Rightarrow> 'q \<times> packet \<times> int"
    and items :: "'q \<Rightarrow> packet list"
    and inv :: "'q \<Rightarrow> bool"
    and capacity :: nat
  assumes inv_capacity: "inv q \<Longrightarrow> length (items q) \<le> capacity"
    and push_law: "\<lbrakk>inv q; push h q p = (q', r)\<rbrakk> \<Longrightarrow> inv q' \<and>
      items q' = (if r = SUPLA_RESULT_TRUE then items q @ [p] else items q)"
    and pop_hit: "\<lbrakk>inv q; pop q sdp rr = (q', x, r); r = SUPLA_RESULT_TRUE\<rbrakk> \<Longrightarrow> inv q' \<and>
      (\<exists>xs ys. items q = xs @ x # ys \<and> items q' = xs @ ys \<and> matches rr x \<and>
               list_all (\<lambda>p. \<not> matches rr p) xs)"
    and pop_miss: "\<lbrakk>inv q; pop q sdp rr = (q', x, r); r \<noteq> SUPLA_RESULT_TRUE\<rbrakk> \<Longrightarrow> q' = q \<and> x = sdp \<and>
      list_all (\<lambda>p. \<not> matches rr p) (items q)"
begin

lemma pop_step:
  assumes "inv q" and "pop q sdp rr = (q', x, r)"
  shows "inv q'" and "r = SUPLA_RESULT_TRUE \<Longrightarrow> mset (items q) = add_mset x (mset (items q'))"
    and "r \<noteq> SUPLA_RESULT_TRUE \<Longrightarrow> items q' = items q"
    and "rr = 0 \<Longrightarrow> items q = (if r = SUPLA_RESULT_TRUE then [x] else []) @ items q'"
proof -
  have "inv q' \<and> (r = SUPLA_RESULT_TRUE \<longrightarrow> mset (items q) = add_mset x (mset (items q'))) \<and>
      (r \<noteq> SUPLA_RESULT_TRUE \<longrightarrow> items q' = items q) \<and>
      (rr = 0 \<longrightarrow> items q = (if r = SUPLA_RESULT_TRUE then [x] else []) @ items q')"
  proof (cases "r = SUPLA_RESULT_TRUE")
    case True
    with pop_hit [OF assms] obtain xs ys where "inv q'" and i: "items q = xs @ x # ys" "items q' = xs @ ys"
        "list_all (\<lambda>p. \<not> matches rr p) xs" by blast
    moreover have "rr = 0 \<Longrightarrow> xs = []" using i(3) by (cases xs) (simp_all add: matches_def)
    ultimately show ?thesis using True by auto
  next
    case False
    with pop_miss [OF assms] show ?thesis using assms(1) by simp
  qed
  then show "inv q'" and "r = SUPLA_RESULT_TRUE \<Longrightarrow> mset (items q) = add_mset x (mset (items q'))"
    and "r \<noteq> SUPLA_RESULT_TRUE \<Longrightarrow> items q' = items q"
    and "rr = 0 \<Longrightarrow> items q = (if r = SUPLA_RESULT_TRUE then [x] else []) @ items q'" by blast+
qed

text \<open>No packet is lost, duplicated or invented, whatever identifiers are asked for, and the
  invariant with its capacity bound holds at the end of every run.\<close>

lemma run_conserves:
  "\<lbrakk>inv q; queue_run push pop sdp q ops = (q', ins, outs)\<rbrakk> \<Longrightarrow>
   inv q' \<and> mset (items q) + mset ins = mset outs + mset (items q')"
proof (induction ops arbitrary: q ins outs)
  case (Cons op ops)
  show ?case
  proof (cases op)
    case (Push h p)
    obtain q1 r where s: "push h q p = (q1, r)" by fastforce
    obtain q2 i2 o2 where n: "queue_run push pop sdp q1 ops = (q2, i2, o2)" by (metis prod_cases3)
    have "inv q' \<and> mset (items q1) + mset i2 = mset o2 + mset (items q2)"
      using Cons.IH [of q1 i2 o2] push_law [OF Cons.prems(1) s] Cons.prems(2) n s Push by auto
    then show ?thesis using push_law [OF Cons.prems(1) s] Cons.prems(2) n s Push by auto
  next
    case (Pop rr)
    obtain q1 x r where s: "pop q sdp rr = (q1, x, r)" by (metis prod_cases3)
    obtain q2 i2 o2 where n: "queue_run push pop sdp q1 ops = (q2, i2, o2)" by (metis prod_cases3)
    have "inv q' \<and> mset (items q1) + mset i2 = mset o2 + mset (items q2)"
      using Cons.IH [of q1 i2 o2] pop_step(1) [OF Cons.prems(1) s] Cons.prems(2) n s Pop by auto
    then show ?thesis
      using pop_step(2,3) [OF Cons.prems(1) s] Cons.prems(2) n s Pop
      by (cases "r = SUPLA_RESULT_TRUE") auto
  qed
qed simp

text \<open>When only the oldest packet is ever asked for, the queue is first-in first-out.\<close>

lemma run_in_order:
  "\<lbrakk>inv q; list_all pops_oldest ops; queue_run push pop sdp q ops = (q', ins, outs)\<rbrakk> \<Longrightarrow>
   items q @ ins = outs @ items q'"
proof (induction ops arbitrary: q ins outs)
  case (Cons op ops)
  show ?case
  proof (cases op)
    case (Push h p)
    obtain q1 r where s: "push h q p = (q1, r)" by fastforce
    obtain q2 i2 o2 where n: "queue_run push pop sdp q1 ops = (q2, i2, o2)" by (metis prod_cases3)
    have "items q1 @ i2 = o2 @ items q2"
      using Cons.IH [of q1 i2 o2] push_law [OF Cons.prems(1) s] Cons.prems n s Push by auto
    then show ?thesis
      using push_law [OF Cons.prems(1) s] Cons.prems(3) n s Push by (auto split: if_splits)
  next
    case (Pop rr)
    obtain q1 x r where s: "pop q sdp rr = (q1, x, r)" by (metis prod_cases3)
    obtain q2 i2 o2 where n: "queue_run push pop sdp q1 ops = (q2, i2, o2)" by (metis prod_cases3)
    have "items q1 @ i2 = o2 @ items q2"
      using Cons.IH [of q1 i2 o2] pop_step(1) [OF Cons.prems(1) s] Cons.prems n s Pop by auto
    moreover have "rr = 0" using Cons.prems(2) Pop by (simp add: pops_oldest_def)
    ultimately show ?thesis
      using pop_step(4) [OF Cons.prems(1) s] Cons.prems(3) n s Pop by (auto split: if_splits)
  qed
qed simp

end

interpretation srpc_queue: packet_queue
  "srpc_queue_push t" "srpc_queue_pop t" queued "queue_inv t" "SRPC_QUEUE_SIZE t" for t
proof (unfold_locales, goal_cases)
  case (1 q)
  then show ?case by (simp add: queue_inv_def queued_def)
next
  case (2 q h p q' r)
  then show ?case using srpc_queue_push_spec [OF 2] by (cases "r = SUPLA_RESULT_TRUE") auto
next
  case (3 q sdp rr q' x r)
  then show ?case using srpc_queue_pop_spec [OF 3(1,2)] by auto
next
  case (4 q sdp rr q' x r)
  then show ?case using srpc_queue_pop_spec [OF 4(1,2)] by auto
qed


section \<open>Properties\<close>

lemma queue_zero_inv: "queue_inv t (queue_zero t)" "queued (queue_zero t) = []"
  by (simp_all add: queue_inv_def queue_zero_def queued_def blocks_def)

text \<open>C33. Every run of pushes and pops on a new queue, under any allocator behaviour, keeps at most
  \<open>SRPC_QUEUE_SIZE\<close> packets, conserves packets (accepted packets are those taken out and those still
  queued), holds at most \<open>SRPC_QUEUE_MIN_ALLOC_COUNT\<close> blocks beyond the queued ones, and is
  first-in first-out when packets are taken without naming an identifier.\<close>

theorem srpc_queue_runs:
  assumes "queue_run (srpc_queue_push t) (srpc_queue_pop t) sdp (queue_zero t) ops = (q', ins, outs)"
  shows "length (queued q') \<le> SRPC_QUEUE_SIZE t \<and> mset ins = mset outs + mset (queued q') \<and>
    blocks (item q') \<le> SRPC_QUEUE_MIN_ALLOC_COUNT t + length (queued q') \<and>
    (list_all pops_oldest ops \<longrightarrow> ins = outs @ queued q')"
proof -
  have c: "queue_inv t q'" "mset ins = mset outs + mset (queued q')"
    using srpc_queue.run_conserves [OF queue_zero_inv(1) assms] by (simp_all add: queue_zero_inv)
  moreover have "length (queued q') = unat (item_count q')"
    using c(1) by (simp add: queue_inv_def queued_def)
  ultimately show ?thesis
    using srpc_queue.run_in_order [OF queue_zero_inv(1) _ assms] srpc_queue.inv_capacity [OF c(1)]
    by (auto simp: queue_inv_def queue_zero_inv)
qed

definition pkt :: "u32 \<Rightarrow> packet" where
  "pkt rr = (blank_packet ESP8266_SDK)\<lparr>sdp_rr_id := rr\<rparr>"

theorem srpc_queue_runs_witness:
  "\<exists>q' ins outs. queue_run (srpc_queue_push ESP8266_SDK) (srpc_queue_pop ESP8266_SDK) (pkt 0)
      (queue_zero ESP8266_SDK) [Push heap_any (pkt 1), Push heap_any (pkt 2), Push heap_any (pkt 3), Pop 0]
      = (q', ins, outs) \<and> ins = outs @ queued q' \<and> length (queued q') \<le> 2"
proof -
  let ?ops = "[Push heap_any (pkt 1), Push heap_any (pkt 2), Push heap_any (pkt 3), Pop 0]"
  obtain q' ins outs where e: "queue_run (srpc_queue_push ESP8266_SDK) (srpc_queue_pop ESP8266_SDK) (pkt 0)
      (queue_zero ESP8266_SDK) ?ops = (q', ins, outs)" by (metis prod_cases3)
  have "list_all pops_oldest ?ops" by (simp add: pops_oldest_def)
  then show ?thesis using srpc_queue_runs [OF e] e by auto
qed

text \<open>Taking a packet by identifier returns the oldest queued packet with that identifier (the
  oldest of all for identifier 0), removes only that one and keeps the order of the others; when
  there is none the queue and the caller's packet are unchanged.\<close>

theorem srpc_queue_pop_oldest_match:
  assumes "queue_inv t q" and "srpc_queue_pop t q sdp rr = (q', sdp', r)"
  shows "(case List.find (matches rr) (queued q) of
      Some p \<Rightarrow> r = SUPLA_RESULT_TRUE \<and> sdp' = p \<and> queued q' = remove1 p (queued q)
    | None \<Rightarrow> r = SUPLA_RESULT_FALSE \<and> sdp' = sdp \<and> q' = q) \<and> queue_inv t q'"
proof -
  have f: "List.find P (xs @ x # ys) = Some x" if "list_all (\<lambda>p. \<not> P p) xs" "P x" for P xs x ys
    using that by (induction xs) auto
  have n: "List.find P xs = None" if "list_all (\<lambda>p. \<not> P p) xs" for P xs
    using that by (induction xs) auto
  have r: "remove1 x (xs @ x # ys) = xs @ ys" if "list_all (\<lambda>p. \<not> P p) xs" "P x" for P xs x ys
    using that by (induction xs) auto
  show ?thesis
    using srpc_queue_pop_spec [OF assms] assms(1) f [of "matches rr"] n [of "matches rr"] r [of "matches rr"]
    by (auto split: option.splits)
qed

theorem srpc_queue_pop_oldest_match_witness:
  "\<exists>q'. srpc_queue_pop ESP8266_SDK \<lparr>item_count = 2, alloc_count = 2, item = [Some (pkt 1), Some (pkt 2)]\<rparr>
      (pkt 0) 2 = (q', pkt 2, SUPLA_RESULT_TRUE) \<and> queued q' = [pkt 1]"
proof -
  let ?q = "\<lparr>item_count = 2, alloc_count = 2, item = [Some (pkt 1), Some (pkt 2)]\<rparr>"
  have i: "queue_inv ESP8266_SDK ?q" by (simp add: queue_inv_def blocks_def)
  have m: "\<not> matches 2 (pkt 1)" "matches 2 (pkt 2)" by (simp_all add: matches_def pkt_def)
  have q: "queued ?q = [pkt 1, pkt 2]" by (simp add: queued_def)
  have ne: "pkt 1 \<noteq> pkt 2" using m by metis
  obtain q' x r where e: "srpc_queue_pop ESP8266_SDK ?q (pkt 0) 2 = (q', x, r)" by (metis prod_cases3)
  show ?thesis using srpc_queue_pop_oldest_match [OF i e] e ne by (simp add: q m)
qed

end
