(* ===== verification/Lck.thy ===== *)
theory Lck
  imports Proto_Const
begin

text \<open>
  The recursive lock of \<open>lck.c\<close> as its owner sees it: \<open>None\<close> is the null pointer of single-threaded
  builds and of a failed allocation, \<open>Some n\<close> a mutex held \<open>n\<close> times.  What a second thread may do
  between an unlock and the next lock is the callers' concern and not part of this model.
\<close>

type_synonym lock = "nat option"

text \<open>The size of \<open>TLckData\<close> is that of a \<open>pthread_mutex_t\<close> and a parameter.\<close>

definition lck_init :: "target \<Rightarrow> nat \<Rightarrow> heap \<Rightarrow> lock" where
  "lck_init t sizeof_TLckData h =
     (if single_thread t then None else if heap_ok h sizeof_TLckData then Some 0 else None)"

definition lck_lock :: "target \<Rightarrow> lock \<Rightarrow> lock" where
  "lck_lock t l = (if single_thread t then l else case l of None \<Rightarrow> None | Some n \<Rightarrow> Some (n + 1))"

definition lck_unlock :: "target \<Rightarrow> lock \<Rightarrow> lock" where
  "lck_unlock t l = (if single_thread t then l else case l of None \<Rightarrow> None | Some n \<Rightarrow> Some (n - 1))"

definition lck_unlock_r :: "target \<Rightarrow> lock \<Rightarrow> int \<Rightarrow> lock \<times> int" where
  "lck_unlock_r t l result = (if single_thread t then (l, result) else (lck_unlock t l, result))"

lemma lck_unlock_lock [simp]: "lck_unlock t (lck_lock t l) = l"
  by (simp add: lck_lock_def lck_unlock_def split: option.splits)

lemma lck_unlock_r_eq [simp]: "lck_unlock_r t l r = (lck_unlock t l, r)"
  by (simp add: lck_unlock_r_def lck_unlock_def)

end
