(* ===== verification/Eh.thy ===== *)
theory Eh
  imports Prelude "HOL-Library.Signed_Division"
begin

text \<open>
  The event handler of \<open>eh.c\<close>, in its Linux branch: an \<open>eventfd\<close> that wakes the loop, up to two
  further descriptors, and an epoll instance with \<open>select\<close> as the fallback.  The results of the
  system calls are arguments; \<open>pending\<close> is the counter of the \<open>eventfd\<close> behind \<open>fd1\<close>.
\<close>

section \<open>Data and operations\<close>

record TEventHandler =
  epoll_fd :: int
  fd1 :: int
  fd2 :: int
  fd3 :: int
  nfds :: int
  tv_sec :: int
  tv_usec :: int
  pending :: nat

text \<open>\<open>ctl fd\<close>: whether \<open>epoll_ctl(EPOLL_CTL_ADD)\<close> of that descriptor succeeds.\<close>

definition epoll_add :: "(int \<Rightarrow> bool) \<Rightarrow> int \<Rightarrow> TEventHandler \<Rightarrow> TEventHandler" where
  "epoll_add ctl fd eh = (if epoll_fd eh \<noteq> -1 \<and> \<not> ctl fd then eh\<lparr>epoll_fd := -1\<rparr> else eh)"

definition eh_init :: "heap \<Rightarrow> nat \<Rightarrow> int \<Rightarrow> int \<Rightarrow> (int \<Rightarrow> bool) \<Rightarrow> TEventHandler option" where
  "eh_init h sizeof_TEventHandler epoll_create eventfd ctl =
     (if heap_ok h sizeof_TEventHandler
      then Some (epoll_add ctl eventfd
             \<lparr>epoll_fd = epoll_create, fd1 = eventfd, fd2 = -1, fd3 = -1, nfds = eventfd + 1,
              tv_sec = 0, tv_usec = 0, pending = 0\<rparr>)
      else None)"

definition eh_add_fd :: "(int \<Rightarrow> bool) \<Rightarrow> TEventHandler option \<Rightarrow> int \<Rightarrow> TEventHandler option" where
  "eh_add_fd ctl eh fd =
     (case eh of
        None \<Rightarrow> None
      | Some eh \<Rightarrow>
          if fd \<noteq> -1 then
            let (eh, fd) = (if fd2 eh = -1 then (eh\<lparr>fd2 := fd\<rparr>, fd)
                            else if fd3 eh = -1 then (eh\<lparr>fd3 := fd\<rparr>, fd)
                            else (eh, -1))
            in if fd \<noteq> -1
               then let eh = epoll_add ctl fd eh
                    in Some (if fd + 1 > nfds eh then eh\<lparr>nfds := fd + 1\<rparr> else eh)
               else Some eh
          else Some eh)"

text \<open>Writing 1 to the \<open>eventfd\<close>; the write is refused when the counter would reach its maximum.\<close>

definition eh_raise_event :: "TEventHandler option \<Rightarrow> TEventHandler option" where
  "eh_raise_event eh =
     (case eh of
        None \<Rightarrow> None
      | Some eh \<Rightarrow> Some (if fd1 eh \<noteq> -1 \<and> pending eh < 2 ^ 64 - 2 then eh\<lparr>pending := pending eh + 1\<rparr> else eh))"

text \<open>\<open>ready\<close> is the result of \<open>epoll_wait\<close> or \<open>select\<close>.  The outer option is the assertion
  \<open>fd3 == -1\<close>.\<close>

definition eh_wait :: "TEventHandler option \<Rightarrow> int \<Rightarrow> int \<Rightarrow> (TEventHandler option \<times> int) option" where
  "eh_wait eh usec ready =
     (case eh of
        None \<Rightarrow> Some (None, -1)
      | Some eh \<Rightarrow>
          if fd3 eh \<noteq> -1 then None
          else let eh = eh\<lparr>tv_sec := usec sdiv 1000000, tv_usec := usec smod 1000000\<rparr>
               in if nfds eh > 0
                  then Some (Some (if ready > 0 \<and> fd1 eh \<noteq> -1 then eh\<lparr>pending := 0\<rparr> else eh), ready)
                  else Some (Some eh, -1))"

section \<open>Lemmas\<close>

definition eh_inv :: "TEventHandler \<Rightarrow> bool" where
  "eh_inv eh \<longleftrightarrow> fd1 eh < nfds eh \<and> fd2 eh < nfds eh \<and> fd3 eh < nfds eh \<and> (fd2 eh = -1 \<longrightarrow> fd3 eh = -1)"

lemma eh_init_inv: "-1 < eventfd \<Longrightarrow> eh_init h n e eventfd ctl = Some eh \<Longrightarrow> eh_inv eh"
  by (auto simp: eh_init_def eh_inv_def epoll_add_def split: if_splits)

lemma eh_add_fd_Some: "\<exists>z. eh_add_fd ctl (Some x) fd = Some z"
  by (simp add: eh_add_fd_def Let_def)

lemma eh_add_fd_inv: "eh_inv eh \<Longrightarrow> eh_add_fd ctl (Some eh) fd = Some eh' \<Longrightarrow> eh_inv eh'"
  by (auto simp: eh_add_fd_def eh_inv_def epoll_add_def Let_def split: if_splits)

lemma eh_raise_event_inv: "eh_inv eh \<Longrightarrow> eh_raise_event (Some eh) = Some eh' \<Longrightarrow> eh_inv eh'"
  by (auto simp: eh_raise_event_def eh_inv_def)

text \<open>Every descriptor the handler watches is below \<open>nfds\<close>, the bound \<open>select\<close> is given, after any
  sequence of registrations.\<close>

theorem eh_select_bound:
  assumes "-1 < eventfd" and "eh_init h n e eventfd ctl = Some eh"
    and "fold (\<lambda>fd x. eh_add_fd ctl x fd) fds (Some eh) = Some eh'"
  shows "fd1 eh' < nfds eh' \<and> fd2 eh' < nfds eh' \<and> fd3 eh' < nfds eh'"
proof -
  have "\<lbrakk>eh_inv x; fold (\<lambda>fd x. eh_add_fd ctl x fd) fds (Some x) = Some y\<rbrakk> \<Longrightarrow> eh_inv y" for x y
  proof (induction fds arbitrary: x)
    case (Cons fd fds)
    obtain z where z: "eh_add_fd ctl (Some x) fd = Some z"
      using eh_add_fd_Some by blast
    then show ?case using Cons eh_add_fd_inv [OF Cons.prems(1) z] by simp
  qed simp
  from this [OF eh_init_inv [OF assms(1,2)] assms(3)] show ?thesis by (simp add: eh_inv_def)
qed

theorem eh_select_bound_witness:
  "\<exists>eh'. fold (\<lambda>fd x. eh_add_fd (\<lambda>_. True) x fd) [9, 4]
      (eh_init \<lparr>heap_ok = (\<lambda>_. True), heap_junk = (\<lambda>_. 0), heap_errno_enomem = False\<rparr> 40 3 5 (\<lambda>_. True))
      = Some eh' \<and> fd2 eh' < nfds eh'"
proof -
  let ?h = "\<lparr>heap_ok = (\<lambda>_. True), heap_junk = (\<lambda>_. 0), heap_errno_enomem = False\<rparr>"
  obtain eh where e: "eh_init ?h 40 3 5 (\<lambda>_. True) = Some eh" by (simp add: eh_init_def)
  obtain eh' where f: "fold (\<lambda>fd x. eh_add_fd (\<lambda>_. True) x fd) [9, 4] (Some eh) = Some eh'"
    using eh_add_fd_Some by (metis fold_simps)
  show ?thesis using eh_select_bound [OF _ e f] e f by simp
qed

end
