(* ===== verification/Srpc.thy ===== *)
theory Srpc
  imports Srpc_Queue Lck Eh
begin

text \<open>
  The remote-call layer of \<open>srpc.c\<close>: construction, the receive and send loops, call permission by
  protocol version, and asynchronous calls.  Typed payloads are in the theories \<open>Srpc_Pack\<close>,
  \<open>Srpc_Getdata\<close> and \<open>Srpc_Send\<close>.

  \<^item> \<open>Tsrpc\<close> is the handle; \<open>user\<close> is the state behind \<open>user_params\<close>, which only the callbacks read
    and write.  A callback that receives the handle may do anything to it, so it is a function on
    handles.
  \<^item> \<open>TsrpcParams\<close> are the callbacks; an optional callback is an \<open>option\<close>.  \<open>data_read\<close> gets the size
    of the destination and returns its result code and the contents of the destination.
  \<^item> \<open>env\<close> bundles what an operation runs in: the build, the callbacks and the allocator.
\<close>

section \<open>Data\<close>

record 'u Tsrpc =
  proto :: TSuplaProtoData
  sdp :: packet
  in_queue :: Tsrpc_Queue
  out_queue :: Tsrpc_Queue
  lck :: lock
  eh :: "TEventHandler option"
  user :: 'u

record 'u TsrpcParams =
  data_read :: "nat \<Rightarrow> 'u \<Rightarrow> 'u \<times> int \<times> bytes"
  data_write :: "bytes \<Rightarrow> 'u \<Rightarrow> 'u"
  on_remote_call_received :: "('u Tsrpc \<Rightarrow> u32 \<Rightarrow> u32 \<Rightarrow> u8 \<Rightarrow> 'u Tsrpc) option"
  on_version_error :: "('u Tsrpc \<Rightarrow> u8 \<Rightarrow> 'u Tsrpc) option"
  before_async_call :: "('u Tsrpc \<Rightarrow> u32 \<Rightarrow> 'u Tsrpc) option"
  on_min_version_required :: "('u Tsrpc \<Rightarrow> u32 \<Rightarrow> u8 \<Rightarrow> 'u Tsrpc) option"

record 'u env =
  build_of :: build
  params :: "'u TsrpcParams"
  heap_of :: heap

abbreviation tgt :: "'u env \<Rightarrow> target" where
  "tgt e \<equiv> target (build_of e)"

section \<open>Construction and locking\<close>

text \<open>\<open>sizeof_Tsrpc\<close>, \<open>sizeof_TSuplaProtoData\<close> and \<open>sizeof_TLckData\<close> depend on the platform and are
  parameters.  The packet of a new handle is zeroed.  \<open>srpc_init\<close> does not check the result of \<open>sproto_init\<close>: a handle
  whose protocol pointer is null is the result \<open>Without_proto\<close>, and no operation may be called on it.\<close>

datatype 'u srpc_init_result = No_handle | Without_proto | Handle "'u Tsrpc"

definition sdp_zero :: "target \<Rightarrow> packet" where
  "sdp_zero t = \<lparr>sdp_tag = replicate 5 0, sdp_version = 0, sdp_rr_id = 0, sdp_call_id = 0,
     sdp_data_size = 0, sdp_data = replicate (SUPLA_MAX_DATA_SIZE t) 0\<rparr>"

definition srpc_init ::
  "'u env \<Rightarrow> nat \<Rightarrow> nat \<Rightarrow> nat \<Rightarrow> TEventHandler option \<Rightarrow> 'u \<Rightarrow> 'u srpc_init_result" where
  "srpc_init e sizeof_Tsrpc sizeof_TSuplaProtoData sizeof_TLckData eh0 u =
     (if heap_ok (heap_of e) sizeof_Tsrpc
      then case sproto_init (heap_of e) sizeof_TSuplaProtoData of
             None \<Rightarrow> Without_proto
           | Some spd \<Rightarrow>
               Handle \<lparr>proto = spd, sdp = sdp_zero (tgt e), in_queue = queue_zero (tgt e),
                 out_queue = queue_zero (tgt e), lck = lck_init (tgt e) sizeof_TLckData (heap_of e),
                 eh = eh0, user = u\<rparr>
      else No_handle)"

text \<open>\<open>srpc_free\<close> destroys the handle; its value is the list of packet blocks it frees.\<close>

definition srpc_free :: "'u env \<Rightarrow> 'u Tsrpc option \<Rightarrow> packet list" where
  "srpc_free e srpc =
     (case srpc of
        None \<Rightarrow> []
      | Some s \<Rightarrow> if srpc_without_queues (tgt e) then []
                  else snd (srpc_queue_free (in_queue s)) @ snd (srpc_queue_free (out_queue s)))"

definition srpc_lock :: "'u env \<Rightarrow> 'u Tsrpc \<Rightarrow> 'u Tsrpc" where
  "srpc_lock e s = s\<lparr>lck := lck_lock (tgt e) (lck s)\<rparr>"

definition srpc_unlock :: "'u env \<Rightarrow> 'u Tsrpc \<Rightarrow> 'u Tsrpc" where
  "srpc_unlock e s = s\<lparr>lck := lck_unlock (tgt e) (lck s)\<rparr>"

definition unlock_r :: "'u env \<Rightarrow> 'u Tsrpc \<Rightarrow> int \<Rightarrow> 'u Tsrpc \<times> int" where
  "unlock_r e s result =
     (let (l, r) = lck_unlock_r (tgt e) (lck s) result in (s\<lparr>lck := l\<rparr>, r))"

section \<open>Queues\<close>

definition srpc_in_queue_pop :: "'u env \<Rightarrow> 'u Tsrpc \<Rightarrow> u32 \<Rightarrow> 'u Tsrpc \<times> int" where
  "srpc_in_queue_pop e s rr_id =
     (if srpc_without_queues (tgt e) then (s, 1)
      else let (q, p, r) = srpc_queue_pop (tgt e) (in_queue s) (sdp s) rr_id
           in (s\<lparr>in_queue := q, sdp := p\<rparr>, r))"

definition srpc_in_queue_push :: "'u env \<Rightarrow> 'u Tsrpc \<Rightarrow> packet \<Rightarrow> 'u Tsrpc \<times> int" where
  "srpc_in_queue_push e s p =
     (let (q, r) = srpc_queue_push (tgt e) (heap_of e) (in_queue s) p in (s\<lparr>in_queue := q\<rparr>, r))"

text \<open>Without queues a packet goes straight to \<open>data_write\<close>, followed by the tag; every build without
  queues also defines \<open>PACKET_INTEGRITY_BUFFER_DISABLED\<close>.\<close>

definition direct_size :: "target \<Rightarrow> packet \<Rightarrow> u32" where
  "direct_size t p =
     (if unat (sdp_data_size p) < SUPLA_MAX_DATA_SIZE t
      then of_nat (sizeof (TSuplaDataPacket t)) - (of_nat (SUPLA_MAX_DATA_SIZE t) - sdp_data_size p)
      else of_nat (sizeof (TSuplaDataPacket t)))"

definition srpc_out_queue_push :: "'u env \<Rightarrow> 'u Tsrpc \<Rightarrow> packet \<Rightarrow> 'u Tsrpc \<times> int" where
  "srpc_out_queue_push e s p =
     (if srpc_without_queues (tgt e)
      then let u = data_write (params e) (take (unat (direct_size (tgt e) p)) (sdp_bytes p)) (user s);
               u = data_write (params e) sproto_tag u
           in (s\<lparr>user := u\<rparr>, 1)
      else let (q, r) = srpc_queue_push (tgt e) (heap_of e) (out_queue s) p
           in (s\<lparr>out_queue := q\<rparr>, r))"

definition srpc_out_queue_pop :: "'u env \<Rightarrow> 'u Tsrpc \<Rightarrow> u32 \<Rightarrow> 'u Tsrpc \<times> int" where
  "srpc_out_queue_pop e s rr_id =
     (let (q, p, r) = srpc_queue_pop (tgt e) (out_queue s) (sdp s) rr_id
      in (s\<lparr>out_queue := q, sdp := p\<rparr>, r))"

definition srpc_out_queue_item_count :: "'u env \<Rightarrow> 'u Tsrpc \<Rightarrow> u8" where
  "srpc_out_queue_item_count e s =
     (if srpc_without_queues (tgt e) then 0 else item_count (out_queue s))"

definition srpc_input_dataexists :: "'u env \<Rightarrow> 'u Tsrpc \<Rightarrow> 'u Tsrpc \<times> int" where
  "srpc_input_dataexists e s =
     (let s = srpc_lock e s; result = sproto_in_dataexists (proto s) in unlock_r e s result)"

definition srpc_output_dataexists :: "'u env \<Rightarrow> 'u Tsrpc \<Rightarrow> 'u Tsrpc \<times> int" where
  "srpc_output_dataexists e s =
     (let s = srpc_lock e s; result = sproto_out_dataexists (proto s) in unlock_r e s result)"

section \<open>The loops\<close>

text \<open>The steps both loops are made of: reading, appending what was read, taking a packet out of the
  input, and the two notifications, which run unlocked.\<close>

definition read_data :: "'u env \<Rightarrow> 'u Tsrpc \<Rightarrow> 'u Tsrpc \<times> int \<times> bytes" where
  "read_data e s =
     (let (u, n, buf) = data_read (params e) (SRPC_BUFFER_SIZE (tgt e)) (user s)
      in (s\<lparr>user := u\<rparr>, n, buf))"

definition append_data :: "'u env \<Rightarrow> 'u Tsrpc \<Rightarrow> int \<Rightarrow> bytes \<Rightarrow> 'u Tsrpc \<times> int" where
  "append_data e s n buf =
     (let (spd, r) = sproto_in_buffer_append (tgt e) (heap_of e) (proto s) (take (nat n) buf)
      in (s\<lparr>proto := spd\<rparr>, r))"

definition pop_sdp :: "'u env \<Rightarrow> 'u Tsrpc \<Rightarrow> 'u Tsrpc \<times> int" where
  "pop_sdp e s =
     (let (spd, p, r) = sproto_pop_in_sdp (tgt e) (heap_of e) (proto s) (sdp s)
      in (s\<lparr>proto := spd, sdp := p\<rparr>, r))"

definition call_received :: "'u env \<Rightarrow> 'u Tsrpc \<Rightarrow> 'u Tsrpc" where
  "call_received e s =
     (case on_remote_call_received (params e) of
        None \<Rightarrow> s
      | Some f \<Rightarrow>
          let s = srpc_unlock e s;
              s = f s (sdp_rr_id (sdp s)) (sdp_call_id (sdp s)) (sdp_version (sdp s))
          in srpc_lock e s)"

definition pop_failed :: "'u env \<Rightarrow> 'u Tsrpc \<Rightarrow> int \<Rightarrow> 'u Tsrpc \<times> int" where
  "pop_failed e s result =
     (case on_version_error (params e) of
        Some f \<Rightarrow>
          if result = SUPLA_RESULT_VERSION_ERROR
          then let version = sdp_version (sdp s); s = srpc_unlock e s
               in (f s version, SUPLA_RESULT_FALSE)
          else unlock_r e s SUPLA_RESULT_FALSE
      | None \<Rightarrow> unlock_r e s SUPLA_RESULT_FALSE)"

text \<open>The sending half of \<open>srpc_iterate\<close>: the oldest queued packet goes to the output buffer, and
  one block of the output buffer to \<open>data_write\<close>.\<close>

definition append_out :: "'u env \<Rightarrow> 'u Tsrpc \<Rightarrow> 'u Tsrpc \<times> int" where
  "append_out e s =
     (let (s, r) = srpc_out_queue_pop e s 0
      in if r = SUPLA_RESULT_TRUE
         then let (spd, result) = sproto_out_buffer_append (tgt e) (heap_of e) (proto s) (sdp s)
              in (s\<lparr>proto := spd\<rparr>, result)
         else (s, SUPLA_RESULT_TRUE))"

definition write_out :: "'u env \<Rightarrow> 'u Tsrpc \<Rightarrow> 'u Tsrpc" where
  "write_out e s =
     (let data_buffer = replicate (SRPC_BUFFER_SIZE (tgt e)) 0;
          (spd, buf, n) = sproto_pop_out_data (tgt e) (heap_of e) (proto s) (Some data_buffer)
                            (of_nat (SRPC_BUFFER_SIZE (tgt e)));
          s = s\<lparr>proto := spd\<rparr>
      in if n \<noteq> 0 then s\<lparr>user := data_write (params e) (take (unat n) (the buf)) (user s)\<rparr> else s)"

definition raise_if :: "'u env \<Rightarrow> bool \<Rightarrow> 'u Tsrpc \<Rightarrow> 'u Tsrpc" where
  "raise_if e c s = (if \<not> EH_DISABLED (tgt e) \<and> c then s\<lparr>eh := eh_raise_event (eh s)\<rparr> else s)"

definition iterate_out :: "'u env \<Rightarrow> 'u Tsrpc \<Rightarrow> bool \<Rightarrow> 'u Tsrpc \<times> int" where
  "iterate_out e s raise_event =
     (if srpc_without_queues (tgt e) then unlock_r e (raise_if e raise_event s) SUPLA_RESULT_TRUE
      else
        let (s, result) = append_out e s
        in if result \<noteq> SUPLA_RESULT_TRUE \<and> result \<noteq> SUPLA_RESULT_FALSE
           then unlock_r e s SUPLA_RESULT_FALSE
           else
             let s = write_out e s;
                 s = raise_if e (sproto_out_dataexists (proto s) = 1 \<or>
                       srpc_out_queue_item_count e s \<noteq> 0 \<or> raise_event) s
             in unlock_r e s SUPLA_RESULT_TRUE)"

definition srpc_iterate :: "'u env \<Rightarrow> 'u Tsrpc \<Rightarrow> 'u Tsrpc \<times> int" where
  "srpc_iterate e s =
     (let s = srpc_lock e s;
          (s, data_size, buf) = read_data e s
      in if data_size = 0 then unlock_r e s SUPLA_RESULT_FALSE
         else
           let (s, result) = (if data_size > 0 then append_data e s data_size buf
                              else (s, SUPLA_RESULT_TRUE))
           in if result \<noteq> SUPLA_RESULT_TRUE then unlock_r e s SUPLA_RESULT_FALSE
              else
                let (s, result) = pop_sdp e s
                in if result = SUPLA_RESULT_TRUE then
                     let raise_event = (sproto_in_dataexists (proto s) = 1)
                     in if srpc_without_queues (tgt e) then iterate_out e (call_received e s) raise_event
                        else let (s, r) = srpc_in_queue_push e s (sdp s)
                             in if r = SUPLA_RESULT_TRUE
                                then iterate_out e (call_received e s) raise_event
                                else unlock_r e s SUPLA_RESULT_FALSE
                   else if result \<noteq> SUPLA_RESULT_FALSE then pop_failed e s result
                   else iterate_out e s False)"

text \<open>The inner loop of \<open>srpc_iterate_device\<close>: packets are taken out until none is complete.  The
  callback may change anything, so the loop need not end; \<open>None\<close> is a loop that does not.\<close>

partial_function (option) drain_in :: "'u env \<Rightarrow> 'u Tsrpc \<Rightarrow> ('u Tsrpc \<times> int) option" where
  "drain_in e s =
     (let (s, result) = pop_sdp e s
      in if result = SUPLA_RESULT_TRUE then drain_in e (call_received e s)
         else Some (s, result))"

text \<open>The outer \<open>while\<close> runs its body at most once: every path through the body returns or breaks.\<close>

definition srpc_iterate_device :: "'u env \<Rightarrow> 'u Tsrpc \<Rightarrow> ('u Tsrpc \<times> int) option" where
  "srpc_iterate_device e s =
     (let s = srpc_lock e s;
          (s, data_size, buf) = read_data e s
      in if data_size > 0 then
           let (s, result) = append_data e s data_size buf
           in if result \<noteq> SUPLA_RESULT_TRUE then Some (unlock_r e s SUPLA_RESULT_FALSE)
              else (case drain_in e s of
                      None \<Rightarrow> None
                    | Some (s, result) \<Rightarrow>
                        if result \<noteq> SUPLA_RESULT_FALSE then Some (pop_failed e s result)
                        else Some (unlock_r e s SUPLA_RESULT_TRUE))
         else if data_size = 0 then Some (unlock_r e s SUPLA_RESULT_FALSE)
         else Some (unlock_r e s SUPLA_RESULT_TRUE))"

section \<open>Calls\<close>

definition srpc_call_min_version_required :: "u32 \<Rightarrow> u8" where
  "srpc_call_min_version_required call_id =
     (if call_id \<in> set [
          SUPLA_DCS_CALL_GETVERSION, SUPLA_SDC_CALL_GETVERSION_RESULT,
          SUPLA_SDC_CALL_VERSIONERROR, SUPLA_DCS_CALL_PING_SERVER,
          SUPLA_SDC_CALL_PING_SERVER_RESULT, SUPLA_DS_CALL_REGISTER_DEVICE,
          SUPLA_SD_CALL_REGISTER_DEVICE_RESULT, SUPLA_CS_CALL_REGISTER_CLIENT,
          SUPLA_SC_CALL_REGISTER_CLIENT_RESULT, SUPLA_DS_CALL_DEVICE_CHANNEL_VALUE_CHANGED,
          SUPLA_SD_CALL_CHANNEL_SET_VALUE, SUPLA_DS_CALL_CHANNEL_SET_VALUE_RESULT,
          SUPLA_SC_CALL_LOCATION_UPDATE, SUPLA_SC_CALL_LOCATIONPACK_UPDATE,
          SUPLA_SC_CALL_CHANNELPACK_UPDATE, SUPLA_SC_CALL_CHANNEL_VALUE_UPDATE,
          SUPLA_CS_CALL_GET_NEXT, SUPLA_SC_CALL_EVENT, SUPLA_CS_CALL_CHANNEL_SET_VALUE] then 1
      else if call_id \<in> set [
          SUPLA_DS_CALL_REGISTER_DEVICE_B, SUPLA_DCS_CALL_SET_ACTIVITY_TIMEOUT,
          SUPLA_SDC_CALL_SET_ACTIVITY_TIMEOUT_RESULT] then 2
      else if call_id \<in> set [
          SUPLA_CS_CALL_CHANNEL_SET_VALUE_B] then 3
      else if call_id \<in> set [
          SUPLA_DS_CALL_GET_FIRMWARE_UPDATE_URL, SUPLA_SD_CALL_GET_FIRMWARE_UPDATE_URL_RESULT] then 5
      else if call_id \<in> set [
          SUPLA_DS_CALL_REGISTER_DEVICE_C, SUPLA_CS_CALL_REGISTER_CLIENT_B] then 6
      else if call_id \<in> set [
          SUPLA_CS_CALL_REGISTER_CLIENT_C, SUPLA_DS_CALL_REGISTER_DEVICE_D,
          SUPLA_DCS_CALL_GET_REGISTRATION_ENABLED,
          SUPLA_SDC_CALL_GET_REGISTRATION_ENABLED_RESULT] then 7
      else if call_id \<in> set [
          SUPLA_SC_CALL_CHANNELPACK_UPDATE_B] then 8
      else if call_id \<in> set [
          SUPLA_SC_CALL_REGISTER_CLIENT_RESULT_B, SUPLA_SC_CALL_CHANNELGROUP_PACK_UPDATE,
          SUPLA_SC_CALL_CHANNELGROUP_RELATION_PACK_UPDATE,
          SUPLA_SC_CALL_CHANNELVALUE_PACK_UPDATE, SUPLA_CS_CALL_SET_VALUE] then 9
      else if call_id \<in> set [
          SUPLA_DS_CALL_DEVICE_CHANNEL_EXTENDEDVALUE_CHANGED,
          SUPLA_SC_CALL_CHANNELEXTENDEDVALUE_PACK_UPDATE, SUPLA_CS_CALL_OAUTH_TOKEN_REQUEST,
          SUPLA_SC_CALL_OAUTH_TOKEN_REQUEST_RESULT, SUPLA_DS_CALL_REGISTER_DEVICE_E,
          SUPLA_CS_CALL_SUPERUSER_AUTHORIZATION_REQUEST,
          SUPLA_SC_CALL_SUPERUSER_AUTHORIZATION_RESULT, SUPLA_CS_CALL_DEVICE_CALCFG_REQUEST,
          SUPLA_SC_CALL_DEVICE_CALCFG_RESULT, SUPLA_SD_CALL_DEVICE_CALCFG_REQUEST,
          SUPLA_DS_CALL_DEVICE_CALCFG_RESULT, SUPLA_SC_CALL_CHANNELGROUP_PACK_UPDATE_B,
          SUPLA_SC_CALL_CHANNELPACK_UPDATE_C] then 10
      else if call_id \<in> set [
          SUPLA_DCS_CALL_GET_USER_LOCALTIME, SUPLA_DCS_CALL_GET_USER_LOCALTIME_RESULT,
          SUPLA_CS_CALL_DEVICE_CALCFG_REQUEST_B] then 11
      else if call_id \<in> set [
          SUPLA_CS_CALL_REGISTER_CLIENT_D, SUPLA_CSD_CALL_GET_CHANNEL_STATE,
          SUPLA_DSC_CALL_CHANNEL_STATE_RESULT, SUPLA_CS_CALL_GET_CHANNEL_BASIC_CFG,
          SUPLA_SC_CALL_CHANNEL_BASIC_CFG_RESULT, SUPLA_CS_CALL_SET_CHANNEL_FUNCTION,
          SUPLA_SC_CALL_SET_CHANNEL_FUNCTION_RESULT, SUPLA_DCS_CALL_SET_CHANNEL_CAPTION,
          SUPLA_SCD_CALL_SET_CHANNEL_CAPTION_RESULT, SUPLA_CS_CALL_CLIENTS_RECONNECT_REQUEST,
          SUPLA_SC_CALL_CLIENTS_RECONNECT_REQUEST_RESULT,
          SUPLA_CS_CALL_SET_REGISTRATION_ENABLED,
          SUPLA_SC_CALL_SET_REGISTRATION_ENABLED_RESULT,
          SUPLA_CS_CALL_DEVICE_RECONNECT_REQUEST,
          SUPLA_SC_CALL_DEVICE_RECONNECT_REQUEST_RESULT,
          SUPLA_DS_CALL_DEVICE_CHANNEL_VALUE_CHANGED_B,
          SUPLA_DS_CALL_DEVICE_CHANNEL_VALUE_CHANGED_C, SUPLA_DS_CALL_GET_CHANNEL_FUNCTIONS,
          SUPLA_SD_CALL_GET_CHANNEL_FUNCTIONS_RESULT,
          SUPLA_CS_CALL_GET_SUPERUSER_AUTHORIZATION_RESULT] then 12
      else if call_id \<in> set [
          SUPLA_SD_CALL_CHANNELGROUP_SET_VALUE] then 13
      else if call_id \<in> set [
          SUPLA_CS_CALL_SET_LOCATION_CAPTION, SUPLA_SC_CALL_SET_LOCATION_CAPTION_RESULT] then 14
      else if call_id \<in> set [
          SUPLA_SC_CALL_CHANNELPACK_UPDATE_D, SUPLA_SC_CALL_CHANNEL_VALUE_UPDATE_B,
          SUPLA_SC_CALL_CHANNELVALUE_PACK_UPDATE_B] then 15
      else if call_id \<in> set [
          SUPLA_DS_CALL_GET_CHANNEL_CONFIG, SUPLA_SD_CALL_GET_CHANNEL_CONFIG_RESULT,
          SUPLA_DS_CALL_ACTIONTRIGGER] then 16
      else if call_id \<in> set [
          SUPLA_SC_CALL_REGISTER_CLIENT_RESULT_C, SUPLA_CS_CALL_TIMER_ARM] then 17
      else if call_id \<in> set [
          SUPLA_SC_CALL_SCENE_PACK_UPDATE, SUPLA_SC_CALL_SCENE_STATE_PACK_UPDATE] then 18
      else if call_id \<in> set [
          SUPLA_CS_CALL_EXECUTE_ACTION, SUPLA_CS_CALL_EXECUTE_ACTION_WITH_AUTH,
          SUPLA_SC_CALL_ACTION_EXECUTION_RESULT, SUPLA_SC_CALL_REGISTER_CLIENT_RESULT_D,
          SUPLA_CS_CALL_GET_CHANNEL_VALUE_WITH_AUTH, SUPLA_SC_CALL_GET_CHANNEL_VALUE_RESULT,
          SUPLA_CS_CALL_SET_SCENE_CAPTION, SUPLA_SC_CALL_SET_SCENE_CAPTION_RESULT] then 19
      else if call_id \<in> set [
          SUPLA_DS_CALL_REGISTER_PUSH_NOTIFICATION, SUPLA_DS_CALL_SEND_PUSH_NOTIFICATION,
          SUPLA_CS_CALL_REGISTER_PN_CLIENT_TOKEN,
          SUPLA_SC_CALL_REGISTER_PN_CLIENT_TOKEN_RESULT,
          SUPLA_CS_CALL_SET_CHANNEL_GROUP_CAPTION,
          SUPLA_SC_CALL_SET_CHANNEL_GROUP_CAPTION_RESULT] then 20
      else if call_id \<in> set [
          SUPLA_DS_CALL_SET_CHANNEL_CONFIG, SUPLA_SD_CALL_SET_CHANNEL_CONFIG_RESULT,
          SUPLA_SD_CALL_SET_CHANNEL_CONFIG, SUPLA_DS_CALL_SET_CHANNEL_CONFIG_RESULT,
          SUPLA_DS_CALL_SET_DEVICE_CONFIG, SUPLA_SD_CALL_SET_DEVICE_CONFIG_RESULT,
          SUPLA_SD_CALL_SET_DEVICE_CONFIG, SUPLA_DS_CALL_SET_DEVICE_CONFIG_RESULT,
          SUPLA_SC_CALL_CHANNEL_RELATION_PACK_UPDATE, SUPLA_CS_CALL_GET_CHANNEL_CONFIG,
          SUPLA_SC_CALL_CHANNEL_CONFIG_UPDATE_OR_RESULT, SUPLA_CS_CALL_SET_CHANNEL_CONFIG,
          SUPLA_CS_CALL_GET_DEVICE_CONFIG, SUPLA_SC_CALL_DEVICE_CONFIG_UPDATE_OR_RESULT,
          SUPLA_SD_CALL_CHANNEL_CONFIG_FINISHED] then 21
      else if call_id \<in> set [
          SUPLA_SC_CALL_CHANNELPACK_UPDATE_E, SUPLA_DS_CALL_REGISTER_DEVICE_F] then 23
      else if call_id \<in> set [
          SUPLA_DS_CALL_REGISTER_DEVICE_G, SUPLA_SD_CALL_REGISTER_DEVICE_RESULT_B,
          SUPLA_DS_CALL_SET_SUBDEVICE_DETAILS] then 25
      else if call_id \<in> set [
          SUPLA_SC_CALL_CHANNEL_STATE_PACK_UPDATE] then 26
      else 255)"

definition srpc_get_proto_version :: "'u env \<Rightarrow> 'u Tsrpc option \<Rightarrow> 'u Tsrpc option \<times> u8" where
  "srpc_get_proto_version e srpc =
     (case srpc of
        None \<Rightarrow> (None, 0)
      | Some s \<Rightarrow>
          let s = srpc_lock e s; version = sproto_get_version (proto s)
          in (Some (srpc_unlock e s), version))"

definition srpc_set_proto_version :: "'u env \<Rightarrow> 'u Tsrpc \<Rightarrow> u8 \<Rightarrow> 'u Tsrpc" where
  "srpc_set_proto_version e s version =
     (let s = srpc_lock e s; s = s\<lparr>proto := sproto_set_version (proto s) version\<rparr>
      in srpc_unlock e s)"

definition srpc_call_allowed :: "'u env \<Rightarrow> 'u Tsrpc \<Rightarrow> u32 \<Rightarrow> 'u Tsrpc \<times> bool" where
  "srpc_call_allowed e s call_id =
     (let min_ver = srpc_call_min_version_required call_id
      in if min_ver = 0 then (s, True)
         else case srpc_get_proto_version e (Some s) of
                (Some s, version) \<Rightarrow> (s, version \<ge> min_ver)
              | (None, version) \<Rightarrow> (s, version \<ge> min_ver))"

text \<open>The result is the packet identifier converted to a signed integer, or 0.  \<open>data\<close> is the payload
  block, \<open>None\<close> for a null pointer.\<close>

definition srpc_async__call ::
  "'u env \<Rightarrow> 'u Tsrpc option \<Rightarrow> u32 \<Rightarrow> bytes option \<Rightarrow> u32 \<Rightarrow> u8 option \<Rightarrow> 'u Tsrpc option \<times> int" where
  "srpc_async__call e srpc call_id data data_size version =
     (case srpc of
        None \<Rightarrow> (None, SUPLA_RESULT_FALSE)
      | Some s \<Rightarrow>
          let (s, allowed) = srpc_call_allowed e s call_id
          in if \<not> allowed then
               (Some (case on_min_version_required (params e) of
                        Some f \<Rightarrow> f s call_id (srpc_call_min_version_required call_id)
                      | None \<Rightarrow> s), SUPLA_RESULT_FALSE)
             else
               let s = (case before_async_call (params e) of Some f \<Rightarrow> f s call_id | None \<Rightarrow> s);
                   s = srpc_lock e s;
                   (spd, p) = sproto_sdp_init (tgt e) (proto s);
                   p = (case version of Some v \<Rightarrow> p\<lparr>sdp_version := v\<rparr> | None \<Rightarrow> p);
                   (p, r) = sproto_set_data (tgt e) p data data_size call_id;
                   s = s\<lparr>proto := spd, sdp := p\<rparr>;
                   (s, sent) = (if r = SUPLA_RESULT_TRUE then srpc_out_queue_push e s p else (s, 0))
               in if r = SUPLA_RESULT_TRUE \<and> sent \<noteq> 0 then
                    let s = raise_if e True s;
                        (s, result) = unlock_r e s (sint (sdp_rr_id (sdp s)))
                    in (Some s, result)
                  else let (s, result) = unlock_r e s SUPLA_RESULT_FALSE in (Some s, result))"

definition srpc_async_call ::
  "'u env \<Rightarrow> 'u Tsrpc option \<Rightarrow> u32 \<Rightarrow> bytes option \<Rightarrow> u32 \<Rightarrow> 'u Tsrpc option \<times> int" where
  "srpc_async_call e srpc call_id data data_size = srpc_async__call e srpc call_id data data_size None"

section \<open>Invariant\<close>

text \<open>\<open>env_ok\<close>: \<open>data_read\<close> does not claim more bytes than it was given room for, and \<open>errno\<close> is not
  stale.  \<open>callbacks_keep\<close>: the callbacks that receive the handle preserve a predicate.\<close>

definition srpc_inv :: "target \<Rightarrow> 'u Tsrpc \<Rightarrow> bool" where
  "srpc_inv t s \<longleftrightarrow> spd_inv t (proto s) \<and> packet_wf t (sdp s) \<and>
     queue_inv t (in_queue s) \<and> list_all (packet_wf t) (queued (in_queue s)) \<and>
     queue_inv t (out_queue s) \<and> list_all (packet_fits t) (queued (out_queue s))"

definition env_ok :: "'u env \<Rightarrow> bool" where
  "env_ok e \<longleftrightarrow> good_heap (tgt e) (heap_of e) \<and>
     (\<forall>k u. fst (snd (data_read (params e) k u)) \<le> int k)"

definition callbacks_keep :: "'u env \<Rightarrow> ('u Tsrpc \<Rightarrow> bool) \<Rightarrow> bool" where
  "callbacks_keep e P \<longleftrightarrow>
     (\<forall>f s rr c v. on_remote_call_received (params e) = Some f \<and> P s \<longrightarrow> P (f s rr c v)) \<and>
     (\<forall>f s v. on_version_error (params e) = Some f \<and> P s \<longrightarrow> P (f s v)) \<and>
     (\<forall>f s c. before_async_call (params e) = Some f \<and> P s \<longrightarrow> P (f s c)) \<and>
     (\<forall>f s c v. on_min_version_required (params e) = Some f \<and> P s \<longrightarrow> P (f s c v))"

section \<open>Lemmas\<close>

lemma callbacks_keepD:
  assumes "callbacks_keep e P" "P s"
  shows "on_remote_call_received (params e) = Some f \<Longrightarrow> P (f s rr c v)"
    "on_version_error (params e) = Some g \<Longrightarrow> P (g s v)"
    "before_async_call (params e) = Some k \<Longrightarrow> P (k s c)"
    "on_min_version_required (params e) = Some m \<Longrightarrow> P (m s c v)"
  using assms unfolding callbacks_keep_def by blast+

subsection \<open>Locking\<close>

lemma unlock_r_eq [simp]: "unlock_r e s r = (srpc_unlock e s, r)"
  by (simp add: unlock_r_def srpc_unlock_def)

lemma lck_srpc_lock [simp]:
  "lck (srpc_lock e s) = lck_lock (tgt e) (lck s)" "lck (srpc_unlock e s) = lck_unlock (tgt e) (lck s)"
  by (simp_all add: srpc_lock_def srpc_unlock_def)

lemma srpc_unlock_lock [simp]: "srpc_unlock e (srpc_lock e s) = s"
  by (simp add: srpc_lock_def srpc_unlock_def)

lemma lck_step:
  "read_data e s = (s', n, b) \<Longrightarrow> lck s' = lck s" "append_data e s n b = (s', r) \<Longrightarrow> lck s' = lck s"
  "pop_sdp e s = (s', r) \<Longrightarrow> lck s' = lck s" "srpc_in_queue_push e s p = (s', r) \<Longrightarrow> lck s' = lck s"
  "srpc_out_queue_push e s p = (s', r) \<Longrightarrow> lck s' = lck s" "append_out e s = (s', r) \<Longrightarrow> lck s' = lck s"
  by (auto simp: read_data_def append_data_def pop_sdp_def srpc_in_queue_push_def append_out_def
      srpc_out_queue_push_def srpc_out_queue_pop_def Let_def split: prod.splits if_splits)

lemma lck_out [simp]: "lck (write_out e s) = lck s" "lck (raise_if e c s) = lck s"
  by (simp_all add: write_out_def raise_if_def Let_def split: prod.splits)

text \<open>The callbacks that are entered at depth \<open>l\<close> leave it unchanged; nothing is required of them at other depths.\<close>

definition callbacks_balanced :: "lock \<Rightarrow> 'u env \<Rightarrow> bool" where
  "callbacks_balanced l e \<longleftrightarrow> callbacks_keep e (\<lambda>s. lck s = l)"

lemma lck_call_received:
  "callbacks_balanced l e \<Longrightarrow> lck s = lck_lock (tgt e) l \<Longrightarrow> lck (call_received e s) = lck_lock (tgt e) l"
  using callbacks_keepD(1) [of e "\<lambda>s. lck s = l" "srpc_unlock e s"]
  by (auto simp: callbacks_balanced_def call_received_def Let_def split: option.splits)

lemma lck_pop_failed:
  "callbacks_balanced l e \<Longrightarrow> lck s = lck_lock (tgt e) l \<Longrightarrow> lck (fst (pop_failed e s r)) = l"
  using callbacks_keepD(2) [of e "\<lambda>s. lck s = l" "srpc_unlock e s"]
  by (auto simp: callbacks_balanced_def pop_failed_def Let_def split: option.splits)

lemma lck_iterate_out: "lck (fst (iterate_out e s ev)) = lck_unlock (tgt e) (lck s)"
  using lck_step(6) [of e s] by (simp add: iterate_out_def Let_def split: prod.splits)

lemma lck_srpc_iterate:
  assumes "callbacks_balanced (lck s) e"
  shows "lck (fst (srpc_iterate e s)) = lck s"
proof -
  obtain s1 n b where 1: "read_data e (srpc_lock e s) = (s1, n, b)" by (metis prod_cases3)
  obtain s2 r2 where 2: "(if n > 0 then append_data e s1 n b else (s1, SUPLA_RESULT_TRUE)) = (s2, r2)"
    by fastforce
  obtain s3 r3 where 3: "pop_sdp e s2 = (s3, r3)" by fastforce
  obtain s4 r4 where 4: "srpc_in_queue_push e s3 (sdp s3) = (s4, r4)" by fastforce
  let ?l = "lck_lock (tgt e) (lck s)"
  have l1: "lck s1 = ?l" using lck_step(1) [OF 1] by simp
  have l2: "lck s2 = ?l" using lck_step(2) [of e s1 n b s2] 2 l1 by (auto split: if_splits)
  have l3: "lck s3 = ?l" using lck_step(3) [OF 3] l2 by simp
  have l4: "lck s4 = ?l" using lck_step(4) [OF 4] l3 by simp
  show ?thesis
    unfolding srpc_iterate_def Let_def 1 prod.case 2 3 4
    using l1 l2 l3 l4 lck_call_received [OF assms l3] lck_call_received [OF assms l4] lck_pop_failed [OF assms l3]
    by (auto simp: lck_iterate_out)
qed

text \<open>Partial correctness of the inner loop: an invariant that the step keeps holds when it ends.\<close>

lemma drain_in_rule:
  assumes step: "\<And>s s1. \<lbrakk>P s; pop_sdp e s = (s1, SUPLA_RESULT_TRUE)\<rbrakk> \<Longrightarrow> P (call_received e s1)"
    and stop: "\<And>s s1 r. \<lbrakk>P s; pop_sdp e s = (s1, r); r \<noteq> SUPLA_RESULT_TRUE\<rbrakk> \<Longrightarrow> Q s1 r"
    and "drain_in e s = Some (s', r)" and "P s"
  shows "Q s' r"
proof -
  have "e = e \<longrightarrow> P s \<longrightarrow> (case (s', r) of (s', r) \<Rightarrow> Q s' r)"
  proof (rule drain_in.raw_induct [OF _ assms(3), where P = "\<lambda>x s y. x = e \<longrightarrow> P s \<longrightarrow> (case y of (s', r) \<Rightarrow> Q s' r)"])
    fix drain x s y
    assume IH: "\<And>x s y. drain x s = Some y \<Longrightarrow> x = e \<longrightarrow> P s \<longrightarrow> (case y of (s', r) \<Rightarrow> Q s' r)"
      and b: "(let (s, result) = pop_sdp x s in if result = SUPLA_RESULT_TRUE then drain x (call_received x s)
          else Some (s, result)) = Some y"
    obtain s1 r1 where p: "pop_sdp x s = (s1, r1)" by fastforce
    show "x = e \<longrightarrow> P s \<longrightarrow> (case y of (s', r) \<Rightarrow> Q s' r)"
      using b IH [of x "call_received x s1" y] step [of s s1] stop [of s s1 r1] p
      by (auto split: if_splits)
  qed
  with assms(4) show ?thesis by simp
qed

lemma lck_drain_in:
  assumes "callbacks_balanced l e" and "drain_in e s = Some (s', r)" and "lck s = lck_lock (tgt e) l"
  shows "lck s' = lck_lock (tgt e) l"
proof (rule drain_in_rule [where P = "\<lambda>s. lck s = lck_lock (tgt e) l", OF _ _ assms(2,3)])
  show "lck (call_received e s1) = lck_lock (tgt e) l"
    if "lck s = lck_lock (tgt e) l" "pop_sdp e s = (s1, SUPLA_RESULT_TRUE)" for s s1
    using lck_call_received [OF assms(1)] lck_step(3) [OF that(2)] that(1) by simp
qed (auto dest: lck_step(3))

lemma lck_srpc_iterate_device:
  assumes "callbacks_balanced (lck s) e" and "srpc_iterate_device e s = Some (s', r)"
  shows "lck s' = lck s"
proof -
  let ?l = "lck_lock (tgt e) (lck s)"
  obtain s1 n b where 1: "read_data e (srpc_lock e s) = (s1, n, b)" by (metis prod_cases3)
  obtain s2 r2 where 2: "append_data e s1 n b = (s2, r2)" by fastforce
  have l1: "lck s1 = ?l" using lck_step(1) [OF 1] by simp
  have l2: "lck s2 = ?l" using lck_step(2) [OF 2] l1 by simp
  have l3: "drain_in e s2 = Some (s3, r3) \<Longrightarrow> lck s3 = ?l" for s3 r3
    using lck_drain_in [OF assms(1) _ l2] by blast
  have "drain_in e s2 = Some (s3, r3) \<Longrightarrow> lck (fst (pop_failed e s3 r3)) = lck s" for s3 r3
    by (rule lck_pop_failed [OF assms(1) l3])
  then show ?thesis
    using assms(2) l1 l2 l3 unfolding srpc_iterate_device_def Let_def 1 prod.case 2
    by (fastforce split: if_splits option.splits)
qed

lemma srpc_call_allowed_eq: "srpc_call_allowed e s c =
   (s, srpc_call_min_version_required c = 0 \<or> sp_version (proto s) \<ge> srpc_call_min_version_required c)"
  by (simp add: srpc_call_allowed_def srpc_get_proto_version_def sproto_get_version_def srpc_lock_def Let_def srpc_unlock_def)

lemma lck_srpc_async__call:
  assumes "callbacks_balanced (lck s) e"
  shows "map_option lck (fst (srpc_async__call e (Some s) c d n v)) = Some (lck s)"
proof -
  have cb: "lck (case before_async_call (params e) of Some f \<Rightarrow> f s c | None \<Rightarrow> s) = lck s"
    "lck (case on_min_version_required (params e) of Some f \<Rightarrow> f s c m | None \<Rightarrow> s) = lck s" for m
    using assms callbacks_keepD(3,4) [of e "\<lambda>x. lck x = lck s" s]
    by (auto simp: callbacks_balanced_def split: option.splits)
  show ?thesis
    using cb by (auto simp: srpc_async__call_def srpc_call_allowed_eq Let_def dest: lck_step(5)
        split: prod.splits option.splits)
qed


text \<open>Two environments whose callbacks differ only at other depths than \<open>l\<close>.\<close>

definition same_at :: "lock \<Rightarrow> 'u env \<Rightarrow> 'u env \<Rightarrow> bool" where
  "same_at l e e' \<longleftrightarrow> build_of e' = build_of e \<and> heap_of e' = heap_of e \<and>
     data_read (params e') = data_read (params e) \<and> data_write (params e') = data_write (params e) \<and>
     rel_option (\<lambda>f g. \<forall>s rr c v. lck s = l \<longrightarrow> f s rr c v = g s rr c v)
       (on_remote_call_received (params e)) (on_remote_call_received (params e')) \<and>
     rel_option (\<lambda>f g. \<forall>s v. lck s = l \<longrightarrow> f s v = g s v) (on_version_error (params e)) (on_version_error (params e')) \<and>
     rel_option (\<lambda>f g. \<forall>s c. lck s = l \<longrightarrow> f s c = g s c) (before_async_call (params e)) (before_async_call (params e')) \<and>
     rel_option (\<lambda>f g. \<forall>s c v. lck s = l \<longrightarrow> f s c v = g s c v)
       (on_min_version_required (params e)) (on_min_version_required (params e'))"

lemma same_at_sym: "same_at l e e' \<Longrightarrow> same_at l e' e"
  by (auto simp: same_at_def option_rel_Some1 option_rel_Some2 rel_option_iff split: option.splits)

lemma same_at_balanced: "same_at l e e' \<Longrightarrow> callbacks_balanced l e \<Longrightarrow> callbacks_balanced l e'"
  unfolding same_at_def callbacks_balanced_def callbacks_keep_def
  by (auto simp: rel_option_iff split: option.splits)

lemma same_at_parts:
  assumes "same_at l e e'"
  shows "srpc_lock e' = srpc_lock e" "srpc_unlock e' = srpc_unlock e" "read_data e' = read_data e" "append_data e' = append_data e"
    "pop_sdp e' = pop_sdp e" "srpc_in_queue_push e' = srpc_in_queue_push e" "srpc_out_queue_push e' = srpc_out_queue_push e"
    "iterate_out e' = iterate_out e" "raise_if e' = raise_if e" "tgt e' = tgt e" "unlock_r e' = unlock_r e"
proof -
  have q: "build_of e' = build_of e" "heap_of e' = heap_of e" "data_read (params e') = data_read (params e)"
    "data_write (params e') = data_write (params e)" using assms by (simp_all add: same_at_def)
  show p: "srpc_lock e' = srpc_lock e" "srpc_unlock e' = srpc_unlock e" "read_data e' = read_data e" "append_data e' = append_data e"
    "pop_sdp e' = pop_sdp e" "srpc_in_queue_push e' = srpc_in_queue_push e" "srpc_out_queue_push e' = srpc_out_queue_push e"
    "raise_if e' = raise_if e" "tgt e' = tgt e" "unlock_r e' = unlock_r e"
    by (unfold srpc_lock_def srpc_unlock_def read_data_def append_data_def pop_sdp_def srpc_in_queue_push_def
        srpc_out_queue_push_def raise_if_def unlock_r_def q, (rule refl)+)
  have o: "append_out e' = append_out e" "write_out e' = write_out e" "srpc_out_queue_item_count e' = srpc_out_queue_item_count e"
    by (unfold append_out_def write_out_def srpc_out_queue_pop_def srpc_out_queue_item_count_def q, (rule refl)+)
  show "iterate_out e' = iterate_out e" by (unfold iterate_out_def o p, rule refl)
qed

lemma same_at_callbacks:
  assumes "same_at l e e'"
  shows "lck s = lck_lock (tgt e) l \<Longrightarrow> call_received e' s = call_received e s"
    "lck s = lck_lock (tgt e) l \<Longrightarrow> pop_failed e' s r = pop_failed e s r"
    "lck s = l \<Longrightarrow> srpc_async__call e' (Some s) c d n v = srpc_async__call e (Some s) c d n v"
proof -
  note p = same_at_parts [OF assms]
  show "lck s = lck_lock (tgt e) l \<Longrightarrow> call_received e' s = call_received e s"
    using assms by (auto simp: call_received_def p same_at_def rel_option_iff Let_def split: option.splits)
  show "lck s = lck_lock (tgt e) l \<Longrightarrow> pop_failed e' s r = pop_failed e s r"
    using assms by (auto simp: pop_failed_def p same_at_def rel_option_iff Let_def split: option.splits)
  assume l: "lck s = l"
  have b: "(case before_async_call (params e') of Some f \<Rightarrow> f s c | None \<Rightarrow> s) = (case before_async_call (params e) of Some f \<Rightarrow> f s c | None \<Rightarrow> s)"
    "(case on_min_version_required (params e') of Some f \<Rightarrow> f s c m | None \<Rightarrow> s) = (case on_min_version_required (params e) of Some f \<Rightarrow> f s c m | None \<Rightarrow> s)" for m
    using assms l by (auto simp: same_at_def rel_option_iff split: option.splits)
  show "srpc_async__call e' (Some s) c d n v = srpc_async__call e (Some s) c d n v"
    unfolding srpc_async__call_def srpc_call_allowed_eq p option.case Let_def b prod.case ..
qed

lemma same_at_iterate:
  assumes "same_at (lck s) e e'"
  shows "srpc_iterate e' s = srpc_iterate e s"
proof -
  note p = same_at_parts [OF assms]
  obtain s1 n b where 1: "read_data e (srpc_lock e s) = (s1, n, b)" by (metis prod_cases3)
  obtain s2 r2 where 2: "(if n > 0 then append_data e s1 n b else (s1, SUPLA_RESULT_TRUE)) = (s2, r2)"
    by fastforce
  obtain s3 r3 where 3: "pop_sdp e s2 = (s3, r3)" by fastforce
  obtain s4 r4 where 4: "srpc_in_queue_push e s3 (sdp s3) = (s4, r4)" by fastforce
  let ?l = "lck_lock (tgt e) (lck s)"
  have l1: "lck s1 = ?l" using lck_step(1) [OF 1] by simp
  have l2: "lck s2 = ?l" using lck_step(2) [of e s1 n b s2] 2 l1 by (auto split: if_splits)
  have l3: "lck s3 = ?l" using lck_step(3) [OF 3] l2 by simp
  have l4: "lck s4 = ?l" using lck_step(4) [OF 4] l3 by simp
  note c = same_at_callbacks(1,2) [OF assms l3] same_at_callbacks(1) [OF assms l4]
  show ?thesis unfolding srpc_iterate_def Let_def p 1 prod.case 2 3 4 unlock_r_eq c ..
qed

lemma same_at_drain:
  assumes "same_at l e e'" "callbacks_balanced l e" "lck s = lck_lock (tgt e) l" "drain_in e s = Some y"
  shows "drain_in e' s = Some y"
proof -
  have "e = e \<longrightarrow> lck s = lck_lock (tgt e) l \<longrightarrow> drain_in e' s = Some y"
  proof (rule drain_in.raw_induct [OF _ assms(4), where P = "\<lambda>x s y. x = e \<longrightarrow> lck s = lck_lock (tgt e) l \<longrightarrow> drain_in e' s = Some y"])
    fix drain x s y
    assume IH: "\<And>x s y. drain x s = Some y \<Longrightarrow> x = e \<longrightarrow> lck s = lck_lock (tgt e) l \<longrightarrow> drain_in e' s = Some y"
      and b: "(let (s, result) = pop_sdp x s in if result = SUPLA_RESULT_TRUE then drain x (call_received x s)
          else Some (s, result)) = Some y"
    obtain s1 r1 where q: "pop_sdp x s = (s1, r1)" by fastforce
    show "x = e \<longrightarrow> lck s = lck_lock (tgt e) l \<longrightarrow> drain_in e' s = Some y"
    proof (intro impI)
      assume a: "x = e" "lck s = lck_lock (tgt e) l"
      have l: "lck s1 = lck_lock (tgt e) l" using lck_step(3) [of e s s1 r1] q a by simp
      note c = same_at_callbacks(1) [OF assms(1) l] lck_call_received [OF assms(2) l]
      show "drain_in e' s = Some y"
        using b IH [of x "call_received x s1" y] q a c
        by (subst drain_in.simps) (auto simp: same_at_parts [OF assms(1)] split: if_splits)
    qed
  qed
  then show ?thesis using assms(3) by simp
qed

lemma same_at_iterate_device:
  assumes "same_at (lck s) e e'" "callbacks_balanced (lck s) e"
  shows "srpc_iterate_device e' s = srpc_iterate_device e s"
proof -
  note p = same_at_parts [OF assms(1)]
  obtain s1 n b where 1: "read_data e (srpc_lock e s) = (s1, n, b)" by (metis prod_cases3)
  obtain s2 r2 where 2: "append_data e s1 n b = (s2, r2)" by fastforce
  let ?l = "lck_lock (tgt e) (lck s)"
  have l2: "lck s2 = ?l" using lck_step(1) [OF 1] lck_step(2) [OF 2] by simp
  have d: "drain_in e' s2 = drain_in e s2"
    using same_at_drain [OF assms l2] same_at_drain [OF same_at_sym [OF assms(1)] same_at_balanced [OF assms], of s2] l2 p(10)
    by (metis option.exhaust)
  have c: "pop_failed e' s3 r3 = pop_failed e s3 r3" if "drain_in e s2 = Some (s3, r3)" for s3 r3
    by (rule same_at_callbacks(2) [OF assms(1) lck_drain_in [OF assms(2) that l2]])
  show ?thesis
    unfolding srpc_iterate_device_def Let_def p 1 prod.case 2 unlock_r_eq d using c by (auto split: option.splits)
qed

subsection \<open>The invariant is kept\<close>

lemma srpc_inv_lock [simp]:
  "srpc_inv t (srpc_lock e s) = srpc_inv t s" "srpc_inv t (srpc_unlock e s) = srpc_inv t s"
  "srpc_inv t (s\<lparr>user := u\<rparr>) = srpc_inv t s" "srpc_inv t (raise_if e c s) = srpc_inv t s"
  by (simp_all add: srpc_inv_def srpc_lock_def srpc_unlock_def raise_if_def)

lemma SRPC_BUFFER_SIZE_bounds: "SRPC_BUFFER_SIZE t \<le> 32768" "0 < SRPC_BUFFER_SIZE t"
  by (cases t; simp)+

lemma read_data_inv:
  assumes "srpc_inv (tgt e) s" "env_ok e" "read_data e s = (s', n, b)"
  shows "srpc_inv (tgt e) s'" "length (take (nat n) b) < 2 ^ 31" "proto s' = proto s"
proof -
  have "n \<le> int (SRPC_BUFFER_SIZE (tgt e))"
    using assms(2,3) by (auto simp: env_ok_def read_data_def Let_def split: prod.splits) (metis fst_conv snd_conv)
  then show "length (take (nat n) b) < 2 ^ 31"
    using SRPC_BUFFER_SIZE_bounds(1) [of "tgt e"] by simp
  show "srpc_inv (tgt e) s'" "proto s' = proto s"
    using assms(1,3) by (auto simp: read_data_def Let_def split: prod.splits)
qed

lemma sproto_in_buffer_append_in_inv:
  assumes "in_inv t (sp_in spd)" and "length d < 2 ^ 31" and "good_heap t h"
    and "sproto_in_buffer_append t h spd d = (spd', r)"
  shows "in_inv t (sp_in spd')" and "spd' = spd\<lparr>sp_in := sp_in spd'\<rparr>"
    and "r = SUPLA_RESULT_TRUE \<Longrightarrow> contents (sp_in spd') = contents (sp_in spd) @ d"
    and "r \<noteq> SUPLA_RESULT_TRUE \<Longrightarrow> contents (sp_in spd') = contents (sp_in spd)"
proof -
  obtain b where b: "sproto_buffer_append t h (sp_in spd) d = (b, r)" "spd' = spd\<lparr>sp_in := b\<rparr>"
    using assms(4) by (auto simp: sproto_in_buffer_append_def split: prod.splits)
  have bt: "begin_tag b = begin_tag (sp_in spd)"
    using b(1) by (auto simp: sproto_buffer_append_def Let_def split: option.splits if_splits)
  have bi: "buf_inv t (sp_in spd)" using assms(1) by (simp add: in_inv_def)
  from sproto_buffer_append_cases [OF bi assms(2,3)] b(1)
  have "buf_inv t b" "r = SUPLA_RESULT_TRUE \<and> contents b = contents (sp_in spd) @ d \<or>
      r \<noteq> SUPLA_RESULT_TRUE \<and> b = sp_in spd" using bi by auto
  then show "in_inv t (sp_in spd')" and "spd' = spd\<lparr>sp_in := sp_in spd'\<rparr>"
    and "r = SUPLA_RESULT_TRUE \<Longrightarrow> contents (sp_in spd') = contents (sp_in spd) @ d"
    and "r \<noteq> SUPLA_RESULT_TRUE \<Longrightarrow> contents (sp_in spd') = contents (sp_in spd)"
    using b(2) bt assms(1) by (auto simp: in_inv_def)
qed

lemma append_data_inv:
  assumes "srpc_inv (tgt e) s" "env_ok e" "length (take (nat n) b) < 2 ^ 31" "append_data e s n b = (s', r)"
  shows "srpc_inv (tgt e) s'"
proof -
  obtain spd where a: "sproto_in_buffer_append (tgt e) (heap_of e) (proto s) (take (nat n) b) = (spd, r)"
      "s' = s\<lparr>proto := spd\<rparr>"
    using assms(4) by (auto simp: append_data_def Let_def split: prod.splits)
  have i: "in_inv (tgt e) (sp_in (proto s))" using assms(1) by (simp add: srpc_inv_def spd_inv_def)
  have "spd_inv (tgt e) spd"
    using sproto_in_buffer_append_in_inv(1,2) [OF i assms(3) _ a(1)] assms(1,2)
    by (cases spd; cases "proto s") (simp add: srpc_inv_def spd_inv_def env_ok_def)
  then show ?thesis using assms(1) a(2) by (simp add: srpc_inv_def)
qed

lemma pop_sdp_inv:
  assumes "srpc_inv (tgt e) s" "pop_sdp e s = (s', r)"
  shows "srpc_inv (tgt e) s'"
    "r = SUPLA_RESULT_TRUE \<Longrightarrow> length (contents (sp_in (proto s'))) < length (contents (sp_in (proto s)))"
proof -
  obtain spd p where a: "sproto_pop_in_sdp (tgt e) (heap_of e) (proto s) (sdp s) = (spd, p, r)"
      "s' = s\<lparr>proto := spd, sdp := p\<rparr>"
    using assms(2) by (auto simp: pop_sdp_def Let_def split: prod.splits)
  have "in_inv (tgt e) (sp_in (proto s))" "packet_wf (tgt e) (sdp s)"
    using assms(1) by (simp_all add: srpc_inv_def spd_inv_def)
  from sproto_pop_in_sdp_safe [OF this a(1)] show "srpc_inv (tgt e) s'"
    "r = SUPLA_RESULT_TRUE \<Longrightarrow> length (contents (sp_in (proto s'))) < length (contents (sp_in (proto s)))"
    using assms(1) a(2) by (auto simp: srpc_inv_def spd_inv_def)
qed

lemma call_received_inv:
  "callbacks_keep e (srpc_inv (tgt e)) \<Longrightarrow> srpc_inv (tgt e) s \<Longrightarrow> srpc_inv (tgt e) (call_received e s)"
  using callbacks_keepD(1) [of e "srpc_inv (tgt e)" "srpc_unlock e s"]
  by (auto simp: call_received_def Let_def split: option.splits)

lemma pop_failed_inv:
  "callbacks_keep e (srpc_inv (tgt e)) \<Longrightarrow> srpc_inv (tgt e) s \<Longrightarrow> srpc_inv (tgt e) (fst (pop_failed e s r))"
  using callbacks_keepD(2) [of e "srpc_inv (tgt e)" "srpc_unlock e s"]
  by (auto simp: pop_failed_def Let_def split: option.splits)

lemma srpc_in_queue_push_inv:
  assumes "srpc_inv (tgt e) s" "packet_wf (tgt e) p" "srpc_in_queue_push e s p = (s', r)"
  shows "srpc_inv (tgt e) s'"
proof -
  obtain q where a: "srpc_queue_push (tgt e) (heap_of e) (in_queue s) p = (q, r)" "s' = s\<lparr>in_queue := q\<rparr>"
    using assms(3) by (auto simp: srpc_in_queue_push_def Let_def split: prod.splits)
  have "queue_inv (tgt e) (in_queue s)" using assms(1) by (simp add: srpc_inv_def)
  from srpc_queue.push_law [OF this a(1)] show ?thesis
    using assms(1,2) a(2) by (auto simp: srpc_inv_def)
qed

lemma append_out_inv:
  assumes "srpc_inv (tgt e) s" "env_ok e" "append_out e s = (s', r)"
  shows "srpc_inv (tgt e) s'"
proof -
  obtain q p r1 where a: "srpc_queue_pop (tgt e) (out_queue s) (sdp s) 0 = (q, p, r1)" by (metis prod_cases3)
  define s1 where "s1 = s\<lparr>out_queue := q, sdp := p\<rparr>"
  have qi: "queue_inv (tgt e) (out_queue s)" "list_all (packet_fits (tgt e)) (queued (out_queue s))"
    using assms(1) by (simp_all add: srpc_inv_def)
  have q: "queue_inv (tgt e) q" "list_all (packet_fits (tgt e)) (queued q)"
      "r1 = SUPLA_RESULT_TRUE \<Longrightarrow> packet_fits (tgt e) p" "r1 \<noteq> SUPLA_RESULT_TRUE \<Longrightarrow> p = sdp s"
    using srpc_queue_pop_spec [OF qi(1) a] qi by auto
  have pw: "packet_wf (tgt e) p"
    using q(3,4) assms(1) by (cases "r1 = SUPLA_RESULT_TRUE") (simp_all add: packet_fits_def srpc_inv_def)
  have i1: "srpc_inv (tgt e) s1" using assms(1) q pw by (simp add: srpc_inv_def s1_def)
  obtain spd r2 where b: "sproto_out_buffer_append (tgt e) (heap_of e) (proto s) p = (spd, r2)" by fastforce
  have res: "(s', r) = (if r1 = SUPLA_RESULT_TRUE then (s1\<lparr>proto := spd\<rparr>, r2) else (s1, SUPLA_RESULT_TRUE))"
    using assms(3) a b
    by (cases "r1 = SUPLA_RESULT_TRUE") (simp_all add: append_out_def srpc_out_queue_pop_def s1_def)
  have "spd_inv (tgt e) spd" if "r1 = SUPLA_RESULT_TRUE"
    using sproto_out_buffer_append_inv [OF _ _ q(3) [OF that] b] assms(1,2)
    by (cases spd; cases "proto s") (simp add: srpc_inv_def spd_inv_def env_ok_def)
  then show ?thesis using res i1 by (auto simp: srpc_inv_def split: if_splits)
qed

lemma write_out_inv:
  assumes "srpc_inv (tgt e) s"
  shows "srpc_inv (tgt e) (write_out e s)"
proof -
  let ?n = "SRPC_BUFFER_SIZE (tgt e)"
  obtain spd d k where a: "sproto_pop_out_data (tgt e) (heap_of e) (proto s) (Some (replicate ?n 0)) (of_nat ?n) = (spd, d, k)"
    by (metis prod_cases3)
  have "unat (of_nat ?n :: u32) = ?n"
    using SRPC_BUFFER_SIZE_bounds(1) [of "tgt e"] by (intro unat_of_nat_u32) simp
  then have "spd_inv (tgt e) spd"
    using sproto_pop_out_data_spec(1,5) [OF _ _ a] assms
    by (cases spd; cases "proto s") (simp add: srpc_inv_def spd_inv_def)
  then show ?thesis using assms a by (simp add: write_out_def Let_def srpc_inv_def)
qed

lemma iterate_out_inv:
  "srpc_inv (tgt e) s \<Longrightarrow> env_ok e \<Longrightarrow> srpc_inv (tgt e) (fst (iterate_out e s ev))"
  using append_out_inv [of e s] write_out_inv [of e]
  by (auto simp: iterate_out_def Let_def split: prod.splits)

lemma srpc_iterate_inv:
  assumes "srpc_inv (tgt e) s" "env_ok e" "callbacks_keep e (srpc_inv (tgt e))"
  shows "srpc_inv (tgt e) (fst (srpc_iterate e s))"
proof -
  let ?I = "srpc_inv (tgt e)"
  obtain s1 n b where 1: "read_data e (srpc_lock e s) = (s1, n, b)" by (metis prod_cases3)
  obtain s2 r2 where 2: "(if n > 0 then append_data e s1 n b else (s1, SUPLA_RESULT_TRUE)) = (s2, r2)"
    by fastforce
  obtain s3 r3 where 3: "pop_sdp e s2 = (s3, r3)" by fastforce
  obtain s4 r4 where 4: "srpc_in_queue_push e s3 (sdp s3) = (s4, r4)" by fastforce
  have i1: "?I s1" "length (take (nat n) b) < 2 ^ 31"
    using read_data_inv(1,2) [OF _ assms(2) 1] assms(1) by simp_all
  have i2: "?I s2" using append_data_inv [OF i1(1) assms(2) i1(2), of s2 r2] 2 i1 by (auto split: if_splits)
  have i3: "?I s3" by (rule pop_sdp_inv(1) [OF i2 3])
  have i4: "?I s4" using srpc_in_queue_push_inv [OF i3 _ 4] i3 by (simp add: srpc_inv_def)
  show ?thesis
    unfolding srpc_iterate_def Let_def 1 prod.case 2 3 4
    using i1 i2 i3 i4 call_received_inv [OF assms(3) i3] call_received_inv [OF assms(3) i4]
      pop_failed_inv [OF assms(3) i3] iterate_out_inv [OF _ assms(2)]
    by auto
qed


lemma srpc_iterate_device_inv:
  assumes "srpc_inv (tgt e) s" "env_ok e" "callbacks_keep e (srpc_inv (tgt e))"
    and "srpc_iterate_device e s = Some (s', r)"
  shows "srpc_inv (tgt e) s'"
proof -
  let ?I = "srpc_inv (tgt e)"
  obtain s1 n b where 1: "read_data e (srpc_lock e s) = (s1, n, b)" by (metis prod_cases3)
  obtain s2 r2 where 2: "append_data e s1 n b = (s2, r2)" by fastforce
  have i1: "?I s1" "length (take (nat n) b) < 2 ^ 31"
    using read_data_inv(1,2) [OF _ assms(2) 1] assms(1) by simp_all
  have i2: "?I s2" by (rule append_data_inv [OF i1(1) assms(2) i1(2) 2])
  have i3: "?I s3" if "drain_in e s2 = Some (s3, r3)" for s3 r3
    by (rule drain_in_rule [where P = ?I and Q = "\<lambda>s r. ?I s", OF _ _ that i2])
      (erule (1) call_received_inv [OF assms(3), OF pop_sdp_inv(1)] pop_sdp_inv(1))+
  have "?I (fst (pop_failed e s3 r3))" if "drain_in e s2 = Some (s3, r3)" for s3 r3
    by (rule pop_failed_inv [OF assms(3) i3 [OF that]])
  then show ?thesis
    using assms(4) i1 i2 i3 unfolding srpc_iterate_device_def Let_def 1 prod.case 2
    by (fastforce split: if_splits option.splits)
qed

text \<open>The inner loop ends when the callback leaves the input buffer alone: every packet consumes
  input.\<close>

definition keeps_input :: "'u env \<Rightarrow> bool" where
  "keeps_input e \<longleftrightarrow> (\<forall>f s rr c v. on_remote_call_received (params e) = Some f \<longrightarrow>
     sp_in (proto (f s rr c v)) = sp_in (proto s))"

lemma call_received_input:
  "keeps_input e \<Longrightarrow> sp_in (proto (call_received e s)) = sp_in (proto s)"
  by (simp add: call_received_def keeps_input_def srpc_lock_def srpc_unlock_def Let_def split: option.splits)

lemma drain_in_returns:
  assumes k: "keeps_input e" and c: "callbacks_keep e (srpc_inv (tgt e))"
  shows "srpc_inv (tgt e) s \<Longrightarrow> \<exists>s' r. drain_in e s = Some (s', r)"
proof (induction "length (contents (sp_in (proto s)))" arbitrary: s rule: less_induct)
  case less
  obtain s1 r1 where p: "pop_sdp e s = (s1, r1)" by fastforce
  note i = pop_sdp_inv [OF less.prems p]
  show ?case
  proof (cases "r1 = SUPLA_RESULT_TRUE")
    case True
    have "\<exists>s' r. drain_in e (call_received e s1) = Some (s', r)"
      using i True by (intro less.hyps) (simp_all add: call_received_input [OF k] call_received_inv [OF c])
    then show ?thesis using True p by (subst drain_in.simps) simp
  next
    case False
    then show ?thesis using p by (subst drain_in.simps) simp
  qed
qed

section \<open>Delivery\<close>

text \<open>A client that reads its input from a list of chunks and records the messages it is notified
  of.\<close>

type_synonym inbox = "bytes list \<times> msg list"

definition recorder :: "inbox TsrpcParams" where
  "recorder = \<lparr>data_read = (\<lambda>k u. case fst u of
       [] \<Rightarrow> (u, -1, [])
     | c # cs \<Rightarrow> ((cs, snd u), int (length c), c)),
     data_write = (\<lambda>d u. u),
     on_remote_call_received = Some (\<lambda>s rr c v. s\<lparr>user := (fst (user s), snd (user s) @ [msg_of (sdp s)])\<rparr>),
     on_version_error = None, before_async_call = None, on_min_version_required = None\<rparr>"

definition recorder_env :: "target \<Rightarrow> nat \<Rightarrow> heap \<Rightarrow> inbox env" where
  "recorder_env t w h = \<lparr>build_of = \<lparr>target = t, size_t_bits = w\<rparr>, params = recorder, heap_of = h\<rparr>"

lemma prefix_parse:
  assumes ok: "msg_ok t m" and c: "c @ rest = encode m @ nxt"
  shows "length (encode m) \<le> length c \<Longrightarrow> parse t c = Frame m (drop (length (encode m)) c)"
    "length c < length (encode m) \<Longrightarrow> parse t c = Need_More" "no_wrap c"
proof -
  have lp: "length (m_payload m) \<le> SUPLA_MAX_DATA_SIZE t" using ok by (simp add: msg_ok_def)
  have small: "length (m_payload m) < 2 ^ 32" using lp SUPLA_MAX_DATA_SIZE_bounds(2) [of t] by simp
  have le: "length (encode m) = 23 + length (m_payload m)" by simp
  {
    assume "length (encode m) \<le> length c"
    then have "c = encode m @ drop (length (encode m)) c"
      using c by (metis append_eq_append_conv_if append_take_drop_id)
    then show "parse t c = Frame m (drop (length (encode m)) c)"
      using parse_encode [OF ok] by metis
  }
  have pre: "take k c = take k (encode m @ nxt)" if "k \<le> length c" for k
    using c that by (metis append_eq_conv_conj take_append diff_is_0_eq take_0 append_Nil2)
  have sg: "seg off k c = seg off k (encode m @ nxt)" if "off + k \<le> length c" for off k
    using pre [OF that] seg_take [of off k "off + k"] by (metis order_refl)
  show "no_wrap c"
    using sg [of 14 4] small lp SUPLA_MAX_DATA_SIZE_bounds(2) [of t]
    by (simp add: no_wrap_def encode_segs le_nat_u32_bytes)
  assume short: "length c < length (encode m)"
  have "c ! 5 = m_version m" if "23 \<le> length c"
    using pre [of 6] that encode_segs(2) [of m nxt] nth_take [of 5 6 c] nth_take [of 5 6 "encode m @ nxt"] by simp
  moreover have "take 5 c = sproto_tag" if "5 \<le> length c"
    using pre [OF that] encode_segs(1) [of m] by simp
  moreover have "le_nat (seg 14 4 c) = length (m_payload m)" if "23 \<le> length c"
    using sg [of 14 4] that small by (simp add: encode_segs le_nat_u32_bytes)
  ultimately show "parse t c = Need_More"
    using short ok lp le by (auto simp: parse_def Let_def msg_ok_def const_defs)
qed


lemma pop_sdp_frame:
  assumes "srpc_inv (tgt e) s" "no_wrap (contents (sp_in (proto s)))" "pop_sdp e s = (s', r)"
  shows "pop_post (tgt e) (proto s) (sdp s) (proto s') (sdp s') r" "user s' = user s"
  using assms sproto_pop_in_sdp_post [of "tgt e" "proto s" "sdp s" "heap_of e"]
  by (auto simp: pop_sdp_def Let_def srpc_inv_def spd_inv_def split: prod.splits)

text \<open>Emptying the input of a stream of encoded messages: some of them are recorded, in order, and
  what remains is shorter than the next one.\<close>

lemma drain_recorder:
  assumes e: "e = recorder_env t w h"
  shows "\<lbrakk>srpc_inv t s; contents (sp_in (proto s)) @ rest = concat (map encode ms); list_all (msg_ok t) ms\<rbrakk> \<Longrightarrow>
    \<exists>s' k. drain_in e s = Some (s', SUPLA_RESULT_FALSE) \<and> srpc_inv t s' \<and> k \<le> length ms \<and>
      user s' = (fst (user s), snd (user s) @ take k ms) \<and>
      contents (sp_in (proto s')) @ rest = concat (map encode (drop k ms)) \<and>
      (k < length ms \<longrightarrow> length (contents (sp_in (proto s'))) < length (encode (ms ! k)))"
proof (induction ms arbitrary: s)
  case Nil
  have te: "tgt e = t" by (simp add: e recorder_env_def)
  obtain s1 r1 where p: "pop_sdp e s = (s1, r1)" by fastforce
  have c: "contents (sp_in (proto s)) = []" "rest = []" using Nil.prems(2) by auto
  then have "pop_post t (proto s) (sdp s) (proto s1) (sdp s1) r1" "user s1 = user s"
    using pop_sdp_frame [OF _ _ p] Nil.prems(1) by (simp_all add: te no_wrap_def)
  moreover have "srpc_inv t s1" using pop_sdp_inv(1) [OF _ p] Nil.prems(1) by (simp add: te)
  ultimately show ?case
    using c p by (subst drain_in.simps) (auto simp: pop_post_def parse_def)
next
  case (Cons m ms)
  have te: "tgt e = t" by (simp add: e recorder_env_def)
  obtain s1 r1 where p: "pop_sdp e s = (s1, r1)" by fastforce
  define c where "c = contents (sp_in (proto s))"
  have ok: "msg_ok t m" "list_all (msg_ok t) ms" using Cons.prems(3) by simp_all
  have cm: "c @ rest = encode m @ concat (map encode ms)" using Cons.prems(2) by (simp add: c_def)
  note pp = prefix_parse [OF ok(1) cm]
  have post: "pop_post t (proto s) (sdp s) (proto s1) (sdp s1) r1" "user s1 = user s"
    using pop_sdp_frame [OF _ _ p] Cons.prems(1) pp(3) by (simp_all add: te c_def)
  have i1: "srpc_inv t s1" using pop_sdp_inv(1) [OF _ p] Cons.prems(1) by (simp add: te)
  show ?case
  proof (cases "length (encode m) \<le> length c")
    case True
    have r: "r1 = SUPLA_RESULT_TRUE" "msg_of (sdp s1) = m" "contents (sp_in (proto s1)) = drop (length (encode m)) c"
      using post(1) pp(1) [OF True] by (simp_all add: pop_post_def c_def [symmetric])
    define s2 where "s2 = call_received e s1"
    have s2: "proto s2 = proto s1" "user s2 = (fst (user s), snd (user s) @ [m])"
      using r(2) post(2)
      by (simp_all add: s2_def call_received_def e recorder_env_def recorder_def srpc_lock_def srpc_unlock_def)
    have "callbacks_keep e (srpc_inv (tgt e))"
      by (auto simp: callbacks_keep_def e recorder_env_def recorder_def)
    then have i2: "srpc_inv t s2" using call_received_inv [of e s1] i1 by (simp add: s2_def te)
    have "contents (sp_in (proto s2)) @ rest = concat (map encode ms)"
      using cm True r(3) s2(1) by (metis append_eq_conv_conj append_take_drop_id append.assoc
          drop_append diff_is_0_eq drop_0)
    from Cons.IH [OF i2 this ok(2)] obtain s' k where
      d: "drain_in e s2 = Some (s', SUPLA_RESULT_FALSE)" "srpc_inv t s'" "k \<le> length ms"
        "user s' = (fst (user s2), snd (user s2) @ take k ms)"
        "contents (sp_in (proto s')) @ rest = concat (map encode (drop k ms))"
        "k < length ms \<longrightarrow> length (contents (sp_in (proto s'))) < length (encode (ms ! k))" by blast
    have "drain_in e s = Some (s', SUPLA_RESULT_FALSE)"
      using d(1) p r(1) by (subst drain_in.simps) (simp add: s2_def)
    with d s2 show ?thesis by (intro exI [of _ s'] exI [of _ "Suc k"]) auto
  next
    case False
    then have r: "r1 = SUPLA_RESULT_FALSE" "contents (sp_in (proto s1)) = c"
      using post(1) pp(2) by (simp_all add: pop_post_def c_def [symmetric])
    have "drain_in e s = Some (s1, SUPLA_RESULT_FALSE)"
      using p r(1) by (subst drain_in.simps) simp
    with False r post(2) i1 cm show ?thesis
      by (intro exI [of _ s1] exI [of _ 0]) simp
  qed
qed


text \<open>Running the device loop once per chunk.\<close>

fun device_loop :: "'u env \<Rightarrow> nat \<Rightarrow> 'u Tsrpc \<Rightarrow> ('u Tsrpc \<times> int list) option" where
  "device_loop e 0 s = Some (s, [])"
| "device_loop e (Suc n) s =
     (case srpc_iterate_device e s of
        None \<Rightarrow> None
      | Some (s, r) \<Rightarrow> (case device_loop e n s of None \<Rightarrow> None | Some (s, rs) \<Rightarrow> Some (s, r # rs)))"

lemma chunk_fits: "22 + SUPLA_MAX_DATA_SIZE t + SRPC_BUFFER_SIZE t < BUFFER_MAX_SIZE t"
  by (cases t) simp_all

lemma iterate_device_recorder:
  assumes e: "e = recorder_env t w h" and h: "good_heap t h" "heap_ok h = (\<lambda>_. True)"
    and inv: "srpc_inv t s" and u: "user s = (ch # chs, got)"
    and len: "0 < length ch" "length ch \<le> SRPC_BUFFER_SIZE t"
    and c: "contents (sp_in (proto s)) @ ch @ rest = concat (map encode ms)" and ok: "list_all (msg_ok t) ms"
    and short: "length (contents (sp_in (proto s))) \<le> 22 + SUPLA_MAX_DATA_SIZE t"
  shows "\<exists>s' k. srpc_iterate_device e s = Some (s', SUPLA_RESULT_TRUE) \<and> srpc_inv t s' \<and> k \<le> length ms \<and>
      user s' = (chs, got @ take k ms) \<and>
      contents (sp_in (proto s')) @ rest = concat (map encode (drop k ms)) \<and>
      (k < length ms \<longrightarrow> length (contents (sp_in (proto s'))) < length (encode (ms ! k)))"
proof -
  have te: "tgt e = t" "heap_of e = h" "params e = recorder" by (simp_all add: e recorder_env_def)
  define s1 where "s1 = (srpc_lock e s)\<lparr>user := (chs, got)\<rparr>"
  have 1: "read_data e (srpc_lock e s) = (s1, int (length ch), ch)"
    using u by (simp add: read_data_def te recorder_def s1_def srpc_lock_def)
  obtain spd r where a: "sproto_in_buffer_append t h (proto s1) ch = (spd, r)" by fastforce
  have lb: "length ch < 2 ^ 31" using len(2) SRPC_BUFFER_SIZE_bounds(1) [of t] by simp
  have i: "in_inv t (sp_in (proto s1))" "buf_inv t (sp_in (proto s1))" "proto s1 = proto s"
    using inv by (simp_all add: srpc_inv_def spd_inv_def s1_def srpc_lock_def in_inv_def)
  have "length (contents (sp_in (proto s))) = unat (b_data_size (sp_in (proto s1)))"
    using buf_invD(6) [OF i(2)] i(3) by simp
  then have r: "r = SUPLA_RESULT_TRUE"
    using sproto_buffer_append_cases [OF i(2) lb h(1)] a h(2) len(2) short chunk_fits [of t] BUFFER_bounds(2) [of t]
    by (auto simp: sproto_in_buffer_append_def split: prod.splits)
  define s2 where "s2 = s1\<lparr>proto := spd\<rparr>"
  have 2: "append_data e s1 (int (length ch)) ch = (s2, SUPLA_RESULT_TRUE)"
    using a r by (simp add: append_data_def te s2_def)
  have c2: "contents (sp_in (proto s2)) = contents (sp_in (proto s)) @ ch"
    using sproto_in_buffer_append_in_inv(3) [OF i(1) lb h(1) a r] i(3) by (simp add: s2_def)
  have i2: "srpc_inv t s2"
  proof -
    have "spd_inv t spd"
      using sproto_in_buffer_append_in_inv(1,2) [OF i(1) lb h(1) a] inv i(3)
      by (cases spd; cases "proto s") (simp add: srpc_inv_def spd_inv_def)
    then show ?thesis using inv by (simp add: srpc_inv_def s2_def s1_def srpc_lock_def)
  qed
  have "contents (sp_in (proto s2)) @ rest = concat (map encode ms)" using c c2 by simp
  from drain_recorder [OF e i2 this ok] obtain s3 k where
    d: "drain_in e s2 = Some (s3, SUPLA_RESULT_FALSE)" "srpc_inv t s3" "k \<le> length ms"
      "user s3 = (fst (user s2), snd (user s2) @ take k ms)"
      "contents (sp_in (proto s3)) @ rest = concat (map encode (drop k ms))"
      "k < length ms \<longrightarrow> length (contents (sp_in (proto s3))) < length (encode (ms ! k))" by blast
  have "srpc_iterate_device e s = Some (srpc_unlock e s3, SUPLA_RESULT_TRUE)"
    using len(1) d(1) by (simp add: srpc_iterate_device_def 1 2)
  moreover have "user s2 = (chs, got)" by (simp add: s2_def s1_def)
  ultimately show ?thesis
    using d by (intro exI [of _ "srpc_unlock e s3"] exI [of _ k]) (simp add: srpc_unlock_def srpc_inv_def)
qed

lemma device_loop_recorder:
  assumes e: "e = recorder_env t w h" and h: "good_heap t h" "heap_ok h = (\<lambda>_. True)"
  shows "\<lbrakk>srpc_inv t s; user s = (chs, got); list_all (\<lambda>c. 0 < length c \<and> length c \<le> SRPC_BUFFER_SIZE t) chs;
    contents (sp_in (proto s)) @ concat chs = concat (map encode ms); list_all (msg_ok t) ms;
    ms \<noteq> [] \<longrightarrow> length (contents (sp_in (proto s))) < length (encode (hd ms))\<rbrakk> \<Longrightarrow>
    \<exists>s'. device_loop e (length chs) s = Some (s', replicate (length chs) SUPLA_RESULT_TRUE) \<and>
      user s' = ([], got @ ms) \<and> contents (sp_in (proto s')) = [] \<and> srpc_inv t s'"
proof (induction chs arbitrary: s got ms)
  case Nil
  have "ms = []" using Nil.prems(4,6) by (cases ms) (auto dest: arg_cong [where f = length])
  with Nil.prems show ?case by simp
next
  case (Cons ch chs)
  define c where "c = contents (sp_in (proto s))"
  have short: "length c \<le> 22 + SUPLA_MAX_DATA_SIZE t"
  proof (cases ms)
    case Nil
    then show ?thesis using Cons.prems(4) by (simp add: c_def)
  next
    case (Cons m ms')
    then show ?thesis using Cons.prems(5,6) by (simp add: c_def msg_ok_def)
  qed
  from iterate_device_recorder [OF e h Cons.prems(1,2), of "concat chs" ms] Cons.prems(3-5) short obtain s1 k where
    s1: "srpc_iterate_device e s = Some (s1, SUPLA_RESULT_TRUE)" "srpc_inv t s1" "k \<le> length ms"
      "user s1 = (chs, got @ take k ms)"
      "contents (sp_in (proto s1)) @ concat chs = concat (map encode (drop k ms))"
      "k < length ms \<longrightarrow> length (contents (sp_in (proto s1))) < length (encode (ms ! k))"
    by (auto simp: c_def)
  have "\<exists>s'. device_loop e (length chs) s1 = Some (s', replicate (length chs) SUPLA_RESULT_TRUE) \<and>
      user s' = ([], (got @ take k ms) @ drop k ms) \<and> contents (sp_in (proto s')) = [] \<and> srpc_inv t s'"
    using Cons.prems(3,5) s1(6)
    by (intro Cons.IH [OF s1(2,4) _ s1(5)]) (auto simp: list_all_iff hd_drop_conv_nth dest: in_set_dropD)
  with s1(1) show ?case by auto
qed


section \<open>Calls\<close>

definition call_msg :: "'u Tsrpc \<Rightarrow> u32 \<Rightarrow> bytes \<Rightarrow> msg" where
  "call_msg s c d = \<lparr>m_version = sp_version (proto s),
     m_rr_id = (if next_rr_id (proto s) + 1 = 0 then 1 else next_rr_id (proto s) + 1),
     m_call_id = c, m_payload = d\<rparr>"

definition payload :: "bytes option \<Rightarrow> u32 \<Rightarrow> bytes" where
  "payload data n = (case data of None \<Rightarrow> [] | Some d \<Rightarrow> take (unat n) d)"

text \<open>The payload pointer is usable: it is null only for an empty payload and its block is long
  enough.\<close>

definition payload_ok :: "target \<Rightarrow> bytes option \<Rightarrow> u32 \<Rightarrow> bool" where
  "payload_ok t data n \<longleftrightarrow> unat n \<le> SUPLA_MAX_DATA_SIZE t \<and>
     (case data of None \<Rightarrow> n = 0 | Some d \<Rightarrow> unat n \<le> length d)"

lemma sproto_call_packet:
  fixes c :: u32
  assumes inv: "spd_inv t (proto s)" and ok: "payload_ok t data n"
  defines "p \<equiv> fst (sproto_set_data t (snd (sproto_sdp_init t (proto s))) data n c)"
  shows "snd (sproto_set_data t (snd (sproto_sdp_init t (proto s))) data n c) = SUPLA_RESULT_TRUE"
    "packet_fits t p" "msg_of p = call_msg s c (payload data n)"
    "spd_inv t (fst (sproto_sdp_init t (proto s)))"
    "sp_out (fst (sproto_sdp_init t (proto s))) = sp_out (proto s)"
proof -
  obtain spd q where i: "sproto_sdp_init t (proto s) = (spd, q)" by fastforce
  note I = sproto_sdp_init_spec [OF i]
  have r: "snd (sproto_set_data t q data n c) = SUPLA_RESULT_TRUE"
    using ok by (auto simp: sproto_set_data_def payload_ok_def split: option.splits)
  then have e: "sproto_set_data t q data n c = (p, SUPLA_RESULT_TRUE)"
    by (simp add: p_def i prod_eq_iff)
  have len: "data = Some d \<Longrightarrow> unat n \<le> length d" for d using ok by (simp add: payload_ok_def)
  note D = sproto_set_data_spec [OF e I(1,10) len]
  show "snd (sproto_set_data t (snd (sproto_sdp_init t (proto s))) data n c) = SUPLA_RESULT_TRUE"
    using r by (simp add: i)
  show "packet_fits t p" using D I(2) by (simp add: packet_fits_def)
  have "m_payload (msg_of p) = payload data n" using D(8) by (simp add: payload_def)
  moreover have "sdp_rr_id p = (if next_rr_id (proto s) + 1 = 0 then 1 else next_rr_id (proto s) + 1)"
    using D(3) i by (auto simp: sproto_sdp_init_def Let_def)
  ultimately show "msg_of p = call_msg s c (payload data n)"
    using D(3-6) I(6) by (simp add: msg_of_def call_msg_def)
  show "spd_inv t (fst (sproto_sdp_init t (proto s)))" "sp_out (fst (sproto_sdp_init t (proto s))) = sp_out (proto s)"
    using inv I(7-9) by (simp_all add: i spd_inv_def)
qed

lemma direct_size_eq:
  assumes "packet_fits t p"
  shows "take (unat (direct_size t p)) (sdp_bytes p) @ sproto_tag = encode (msg_of p)"
proof -
  let ?M = "SUPLA_MAX_DATA_SIZE t"
  have le: "unat (sdp_data_size p) \<le> ?M" using assms by (simp add: packet_fits_def)
  have M: "unat (of_nat ?M :: u32) = ?M" "18 + ?M < 2 ^ 32"
    using SUPLA_MAX_DATA_SIZE_bounds(2) [of t] by (simp_all add: unat_of_nat_u32)
  have z: "unat (of_nat (18 + ?M) :: u32) = 18 + ?M" by (rule unat_of_nat_u32 [OF M(2)])
  have "unat (direct_size t p) = 18 + unat (sdp_data_size p)"
  proof (cases "unat (sdp_data_size p) < ?M")
    case True
    have "(of_nat (18 + ?M) :: u32) - (of_nat ?M - sdp_data_size p) = 18 + sdp_data_size p" by simp
    moreover have "unat (18 + sdp_data_size p) = 18 + unat (sdp_data_size p)"
      using le M(2) by (subst unat_add_u32) simp_all
    ultimately show ?thesis using True by (simp add: direct_size_def sizeof_TSuplaDataPacket)
  next
    case False
    then show ?thesis using le z by (simp add: direct_size_def sizeof_TSuplaDataPacket)
  qed
  then show ?thesis using sdp_frame [of t p] assms by (simp add: packet_fits_def)
qed

lemma srpc_async__call_denied:
  assumes "sp_version (proto s) < srpc_call_min_version_required c"
  shows "srpc_async__call e (Some s) c data n v =
    (Some (case on_min_version_required (params e) of
       Some f \<Rightarrow> f s c (srpc_call_min_version_required c) | None \<Rightarrow> s), SUPLA_RESULT_FALSE)"
  using assms by (auto simp: srpc_async__call_def srpc_call_allowed_eq)

lemma min_version_pos: "srpc_call_min_version_required c \<noteq> 0"
  unfolding srpc_call_min_version_required_def by simp

lemma srpc_async_call_eq:
  fixes data :: "bytes option" and n :: u32
  assumes "srpc_call_min_version_required c \<le> sp_version (proto s)" and "before_async_call (params e) = None"
  defines "x \<equiv> sproto_sdp_init (tgt e) (proto s)"
  defines "y \<equiv> sproto_set_data (tgt e) (snd x) data n c"
  defines "z \<equiv> srpc_out_queue_push e ((srpc_lock e s)\<lparr>proto := fst x, sdp := fst y\<rparr>) (fst y)"
  shows "srpc_async_call e (Some s) c data n =
    (if snd y = SUPLA_RESULT_TRUE \<and> snd z \<noteq> 0
     then (Some (srpc_unlock e (raise_if e True (fst z))), sint (sdp_rr_id (sdp (fst z))))
     else if snd y = SUPLA_RESULT_TRUE then (Some (srpc_unlock e (fst z)), SUPLA_RESULT_FALSE)
     else (Some (s\<lparr>proto := fst x, sdp := fst y\<rparr>), SUPLA_RESULT_FALSE))"
proof -
  have l: "proto (srpc_lock e s) = proto s" by (simp add: srpc_lock_def)
  have "srpc_unlock e ((srpc_lock e s)\<lparr>proto := a, sdp := b\<rparr>) = s\<lparr>proto := a, sdp := b\<rparr>" for a b
    by (simp add: srpc_lock_def srpc_unlock_def)
  moreover have "sdp (raise_if e True s') = sdp s'" for s' :: "'a Tsrpc" by (simp add: raise_if_def)
  ultimately show ?thesis
    using assms(1) unfolding srpc_async_call_def srpc_async__call_def z_def y_def x_def
    by (simp add: srpc_call_allowed_eq Let_def assms(2) l split: prod.splits)
qed


text \<open>A permitted call with a usable payload on a build without queues writes exactly its frame.\<close>

lemma srpc_async_call_direct:
  assumes "srpc_inv (tgt e) s" "srpc_without_queues (tgt e)" "before_async_call (params e) = None"
    and "srpc_call_min_version_required c \<le> sp_version (proto s)" "payload_ok (tgt e) data n"
  shows "\<exists>s' a. srpc_async_call e (Some s) c data n =
      (Some s', sint (m_rr_id (call_msg s c (payload data n)))) \<and>
    a @ sproto_tag = encode (call_msg s c (payload data n)) \<and>
    user s' = data_write (params e) sproto_tag (data_write (params e) a (user s)) \<and>
    srpc_inv (tgt e) s' \<and> sp_version (proto s') = sp_version (proto s)"
proof -
  define p where "p = fst (sproto_set_data (tgt e) (snd (sproto_sdp_init (tgt e) (proto s))) data n c)"
  define spd where "spd = fst (sproto_sdp_init (tgt e) (proto s))"
  define a where "a = take (unat (direct_size (tgt e) p)) (sdp_bytes p)"
  have si: "spd_inv (tgt e) (proto s)" using assms(1) by (simp add: srpc_inv_def)
  note P = sproto_call_packet(1-3) [OF si assms(5), of c, folded p_def]
    sproto_call_packet(4) [OF si assms(5), folded spd_def]
  have "sp_version spd = sp_version (proto s)"
    by (simp add: spd_def sproto_sdp_init_def Let_def)
  moreover have "sdp_rr_id p = m_rr_id (call_msg s c (payload data n))"
    using P(3) by (metis msg.select_convs(2) msg_of_def)
  ultimately show ?thesis
    using srpc_async_call_eq [OF assms(4,3), of data n, folded p_def spd_def] P(1,2,4) assms(1,2)
      direct_size_eq [OF P(2)] P(3)
    by (auto simp: srpc_out_queue_push_def a_def srpc_inv_def packet_fits_def srpc_lock_def
        srpc_unlock_def raise_if_def Let_def)
qed


text \<open>On a build with queues the packet is appended to the output queue, unless that is full.\<close>

lemma srpc_async_call_queued:
  assumes "srpc_inv (tgt e) s" "\<not> srpc_without_queues (tgt e)" "before_async_call (params e) = None"
    and "srpc_call_min_version_required c \<le> sp_version (proto s)" "payload_ok (tgt e) data n"
    and "heap_ok (heap_of e) (sizeof (TSuplaDataPacket (tgt e)))"
  shows "\<exists>s' r. srpc_async_call e (Some s) c data n = (Some s', r) \<and> user s' = user s \<and>
    sp_out (proto s') = sp_out (proto s) \<and> srpc_inv (tgt e) s' \<and> sp_version (proto s') = sp_version (proto s) \<and>
    (if length (queued (out_queue s)) < SRPC_QUEUE_SIZE (tgt e)
     then r = sint (m_rr_id (call_msg s c (payload data n))) \<and>
       map msg_of (queued (out_queue s')) = map msg_of (queued (out_queue s)) @ [call_msg s c (payload data n)]
     else r = 0 \<and> out_queue s' = out_queue s)"
proof -
  define p where "p = fst (sproto_set_data (tgt e) (snd (sproto_sdp_init (tgt e) (proto s))) data n c)"
  define spd where "spd = fst (sproto_sdp_init (tgt e) (proto s))"
  have si: "spd_inv (tgt e) (proto s)" and qi: "queue_inv (tgt e) (out_queue s)"
    using assms(1) by (simp_all add: srpc_inv_def)
  note P = sproto_call_packet(1-3) [OF si assms(5), of c, folded p_def]
    sproto_call_packet(4,5) [OF si assms(5), folded spd_def]
  obtain q r where q: "srpc_queue_push (tgt e) (heap_of e) (out_queue s) p = (q, r)" by fastforce
  define s1 where "s1 = s\<lparr>proto := spd, sdp := p, out_queue := q\<rparr>"
  have e1: "srpc_async_call e (Some s) c data n =
      (if r \<noteq> 0 then (Some (raise_if e True s1), sint (sdp_rr_id p)) else (Some s1, 0))"
    using srpc_async_call_eq [OF assms(4,3), of data n, folded p_def spd_def] P(1) q assms(2)
    by (auto simp: srpc_out_queue_push_def s1_def srpc_lock_def srpc_unlock_def raise_if_def Let_def)
  have v: "sp_version spd = sp_version (proto s)" by (simp add: spd_def sproto_sdp_init_def Let_def)
  have rr: "sdp_rr_id p = m_rr_id (call_msg s c (payload data n))"
    using P(3) by (metis msg.select_convs(2) msg_of_def)
  note S = srpc_queue_push_spec [OF qi q]
  have cap: "length (queued (out_queue s)) \<le> SRPC_QUEUE_SIZE (tgt e)" by (rule srpc_queue.inv_capacity [OF qi])
  show ?thesis
  proof (cases "r = SUPLA_RESULT_TRUE")
    case True
    then have "queued q = queued (out_queue s) @ [p]" "length (queued (out_queue s)) < SRPC_QUEUE_SIZE (tgt e)"
      using S(2) by auto
    then show ?thesis
      using e1 True S(1) P assms(1) v rr
      by (auto simp: s1_def srpc_inv_def packet_fits_def raise_if_def)
  next
    case False
    then show ?thesis
      using e1 S(3) [OF False] P assms(1,6) v cap by (auto simp: s1_def srpc_inv_def packet_fits_def)
  qed
qed

text \<open>The sending half of \<open>srpc_iterate\<close> moves bytes from the queue through the output buffer to
  \<open>data_write\<close> without loss or reordering, as long as the output buffer takes the packet.\<close>

definition outgoing :: "'u Tsrpc \<Rightarrow> bytes" where
  "outgoing s = contents (sp_out (proto s)) @ concat (map (\<lambda>p. encode (msg_of p)) (queued (out_queue s)))"

lemma append_out_conserves:
  assumes "srpc_inv (tgt e) s" "env_ok e" "append_out e s = (s', SUPLA_RESULT_TRUE)"
  shows "outgoing s' = outgoing s" "user s' = user s" "outgoing s \<noteq> [] \<Longrightarrow> contents (sp_out (proto s')) \<noteq> []"
    "sp_in (proto s') = sp_in (proto s)"
proof -
  obtain q p r1 where a: "srpc_queue_pop (tgt e) (out_queue s) (sdp s) 0 = (q, p, r1)" by (metis prod_cases3)
  have qi: "queue_inv (tgt e) (out_queue s)" "list_all (packet_fits (tgt e)) (queued (out_queue s))"
      "buf_inv (tgt e) (sp_out (proto s))" "good_heap (tgt e) (heap_of e)"
    using assms(1,2) by (simp_all add: srpc_inv_def spd_inv_def env_ok_def)
  note st = srpc_queue.pop_step [OF qi(1) a]
  obtain spd r2 where b: "sproto_out_buffer_append (tgt e) (heap_of e) (proto s) p = (spd, r2)" by fastforce
  have res: "(s', SUPLA_RESULT_TRUE) = (if r1 = SUPLA_RESULT_TRUE
      then (s\<lparr>out_queue := q, sdp := p, proto := spd\<rparr>, r2) else (s\<lparr>out_queue := q, sdp := p\<rparr>, SUPLA_RESULT_TRUE))"
    using assms(3) a b
    by (cases "r1 = SUPLA_RESULT_TRUE") (simp_all add: append_out_def srpc_out_queue_pop_def)
  have "outgoing s' = outgoing s \<and> user s' = user s \<and> (outgoing s \<noteq> [] \<longrightarrow> contents (sp_out (proto s')) \<noteq> []) \<and>
      sp_in (proto s') = sp_in (proto s)"
  proof (cases "r1 = SUPLA_RESULT_TRUE")
    case True
    then have q: "queued (out_queue s) = p # queued q" using st(4) by simp
    then have pf: "packet_fits (tgt e) p" using qi(2) by simp
    have b': "sproto_out_buffer_append (tgt e) (heap_of e) (proto s) p = (spd, SUPLA_RESULT_TRUE)"
      using b res True by simp
    note ap = sproto_out_buffer_append_true(2,3) [OF qi(3,4) _ _ _ b'] pf [unfolded packet_fits_def]
    have "contents (sp_out spd) = contents (sp_out (proto s)) @ encode (msg_of p)"
        "spd = (proto s)\<lparr>sp_out := sp_out spd\<rparr>"
      using ap by blast+
    moreover from this(2) have "sp_in spd = sp_in (proto s)" by (metis TSuplaProtoData.select_convs(3)
        TSuplaProtoData.surjective TSuplaProtoData.update_convs(4))
    moreover have "encode (msg_of p) \<noteq> []" by (simp add: encode_def msg_header_def)
    ultimately show ?thesis using res q True by (simp add: outgoing_def)
  next
    case False
    then have "queued (out_queue s) = []"
      using srpc_queue.pop_miss [OF qi(1) a] by (cases "queued (out_queue s)") (simp_all add: matches_def)
    moreover have "queued q = queued (out_queue s)" using st(3) False by simp
    ultimately show ?thesis using res False by (simp add: outgoing_def)
  qed
  then show "outgoing s' = outgoing s" "user s' = user s" "outgoing s \<noteq> [] \<Longrightarrow> contents (sp_out (proto s')) \<noteq> []"
    "sp_in (proto s') = sp_in (proto s)" by blast+
qed

lemma append_out_room:
  assumes "srpc_inv (tgt e) s" "env_ok e" "heap_ok (heap_of e) = (\<lambda>_. True)"
    and "length (contents (sp_out (proto s))) + 23 + SUPLA_MAX_DATA_SIZE (tgt e) < BUFFER_MAX_SIZE (tgt e)"
  shows "snd (append_out e s) = SUPLA_RESULT_TRUE"
proof -
  let ?t = "tgt e"
  obtain q p r1 where a: "srpc_queue_pop ?t (out_queue s) (sdp s) 0 = (q, p, r1)" by (metis prod_cases3)
  have qi: "queue_inv ?t (out_queue s)" "list_all (packet_fits ?t) (queued (out_queue s))"
      "buf_inv ?t (sp_out (proto s))" "good_heap ?t (heap_of e)"
    using assms(1,2) by (simp_all add: srpc_inv_def spd_inv_def env_ok_def)
  have "snd (sproto_out_buffer_append ?t (heap_of e) (proto s) p) = SUPLA_RESULT_TRUE"
    if "r1 = SUPLA_RESULT_TRUE"
  proof -
    have pf: "packet_fits ?t p" using srpc_queue.pop_step(4) [OF qi(1) a] that qi(2) by simp
    let ?d = "take (18 + unat (sdp_data_size p)) (sdp_bytes p)"
    have len: "length ?d \<le> 18 + SUPLA_MAX_DATA_SIZE ?t" "length ?d < 2 ^ 31" "length sproto_tag < 2 ^ 31"
      using pf length_sdp_bytes [of ?t p] SUPLA_MAX_DATA_SIZE_bounds(2) [of ?t] by (auto simp: packet_fits_def)
    have lc: "unat (b_data_size (sp_out (proto s))) = length (contents (sp_out (proto s)))"
      using buf_invD(6) [OF qi(3)] by simp
    from sproto_buffer_append_cases [OF qi(3) len(2) qi(4)] obtain b1 where
      b1: "sproto_buffer_append ?t (heap_of e) (sp_out (proto s)) ?d = (b1, SUPLA_RESULT_TRUE)" "buf_inv ?t b1"
        "contents b1 = contents (sp_out (proto s)) @ ?d"
      using assms(3,4) len(1) lc BUFFER_bounds(2) [of ?t] by auto
    have l1: "unat (b_data_size b1) \<le> length (contents (sp_out (proto s))) + (18 + SUPLA_MAX_DATA_SIZE ?t)"
      using buf_invD(6) [OF b1(2)] b1(3) len(1) by simp
    from sproto_buffer_append_cases [OF b1(2) len(3) qi(4)] obtain b2 where
      "sproto_buffer_append ?t (heap_of e) b1 sproto_tag = (b2, SUPLA_RESULT_TRUE)"
      using assms(3,4) l1 BUFFER_bounds(2) [of ?t] by auto
    then show ?thesis using b1(1) pf by (simp add: sproto_out_buffer_append_eq packet_fits_def)
  qed
  then show ?thesis
    using a by (cases "r1 = SUPLA_RESULT_TRUE") (auto simp: append_out_def srpc_out_queue_pop_def split: prod.splits)
qed

lemma write_out_conserves:
  assumes "srpc_inv (tgt e) s"
  shows "\<exists>a. contents (sp_out (proto s)) = a @ contents (sp_out (proto (write_out e s))) \<and>
    length a = min (SRPC_BUFFER_SIZE (tgt e)) (length (contents (sp_out (proto s)))) \<and>
    user (write_out e s) = (if a = [] then user s else data_write (params e) a (user s)) \<and>
    out_queue (write_out e s) = out_queue s"
proof -
  let ?n = "SRPC_BUFFER_SIZE (tgt e)"
  obtain spd d k where a: "sproto_pop_out_data (tgt e) (heap_of e) (proto s) (Some (replicate ?n 0)) (of_nat ?n) = (spd, d, k)"
    by (metis prod_cases3)
  have n: "unat (of_nat ?n :: u32) = ?n"
    using SRPC_BUFFER_SIZE_bounds(1) [of "tgt e"] by (intro unat_of_nat_u32) simp
  have bi: "buf_inv (tgt e) (sp_out (proto s))" using assms by (simp add: srpc_inv_def spd_inv_def)
  note S = sproto_pop_out_data_spec [OF bi _ a, unfolded n length_replicate, OF order_refl]
  obtain d' where d: "d = Some d'" "take (unat k) d' = take (unat k) (contents (sp_out (proto s)))"
    using S(3) by auto
  define A where "A = take (unat k) (contents (sp_out (proto s)))"
  have A: "length A = unat k" "contents (sp_out (proto s)) = A @ contents (sp_out spd)"
    using S(2,4) by (simp_all add: A_def)
  then have "A = [] \<longleftrightarrow> k = 0" by (metis length_0_conv unat_eq_zero)
  moreover have "write_out e s = (if k \<noteq> 0 then s\<lparr>proto := spd, user := data_write (params e) A (user s)\<rparr>
      else s\<lparr>proto := spd\<rparr>)"
    using d by (simp add: write_out_def a A_def)
  ultimately show ?thesis using A S(2) by (intro exI [of _ A]) (cases "k = 0"; simp)
qed


definition writer :: "bytes TsrpcParams" where
  "writer = \<lparr>data_read = (\<lambda>k u. (u, -1, [])), data_write = (\<lambda>d u. u @ d), on_remote_call_received = None,
     on_version_error = None, before_async_call = None, on_min_version_required = None\<rparr>"

definition writer_env :: "target \<Rightarrow> nat \<Rightarrow> heap \<Rightarrow> bytes env" where
  "writer_env t w h = \<lparr>build_of = \<lparr>target = t, size_t_bits = w\<rparr>, params = writer, heap_of = h\<rparr>"

lemma writer_env_simps [simp]:
  "tgt (writer_env t w h) = t" "params (writer_env t w h) = writer" "heap_of (writer_env t w h) = h"
  "tgt (recorder_env t w h) = t" "params (recorder_env t w h) = recorder" "heap_of (recorder_env t w h) = h"
  by (simp_all add: writer_env_def recorder_env_def)

definition fresh :: "target \<Rightarrow> 'u \<Rightarrow> 'u Tsrpc" where
  "fresh t u = \<lparr>proto = sproto_new, sdp = sdp_zero t, in_queue = queue_zero t, out_queue = queue_zero t,
     lck = None, eh = None, user = u\<rparr>"

lemma sproto_new_inv: "spd_inv t sproto_new" "contents (sp_in sproto_new) = []" "contents (sp_out sproto_new) = []"
  by (cases t; simp add: spd_inv_def in_inv_def buf_inv_def sproto_new_def contents_def const_defs)+

lemma srpc_init_inv:
  assumes "srpc_init e n k m ev u = Handle s"
  shows "srpc_inv (tgt e) s" "user s = u" "proto s = sproto_new"
  using assms queue_zero_inv [of "tgt e"] sproto_new_inv(1) [of "tgt e"]
  by (auto simp: srpc_init_def sproto_init_def srpc_inv_def sdp_zero_def packet_wf_def split: if_splits)

text \<open>When only the protocol object cannot be allocated, \<open>srpc_init\<close> returns a handle all the same.\<close>

lemma srpc_init_unchecked:
  "heap_ok (heap_of e) n \<Longrightarrow> \<not> heap_ok (heap_of e) k \<Longrightarrow> srpc_init e n k m ev u = Without_proto"
  by (simp add: srpc_init_def sproto_init_def)

lemma fresh_inv: "srpc_inv t (fresh t u)" "user (fresh t u) = u" "proto (fresh t u) = sproto_new"
  using queue_zero_inv [of t] sproto_new_inv(1) [of t]
  by (simp_all add: fresh_def srpc_inv_def sdp_zero_def packet_wf_def)

lemma srpc_iterate_writer:
  assumes e: "e = writer_env t w h" and q: "\<not> srpc_without_queues t"
    and inv: "srpc_inv t s" and h: "good_heap t h" "heap_ok h = (\<lambda>_. True)"
    and empty: "contents (sp_in (proto s)) = []"
    and room: "length (contents (sp_out (proto s))) + 23 + SUPLA_MAX_DATA_SIZE t < BUFFER_MAX_SIZE t"
    and res: "srpc_iterate e s = (s', r)"
  shows "r = SUPLA_RESULT_TRUE \<and> user s' @ outgoing s' = user s @ outgoing s \<and>
    (outgoing s \<noteq> [] \<longrightarrow> length (outgoing s') < length (outgoing s))"
proof -
  have te: "tgt e = t" "params e = writer" "heap_of e = h" by (simp_all add: e)
  define s1 where "s1 = srpc_lock e s"
  have 1: "read_data e s1 = (s1, -1, [])" by (simp add: read_data_def te writer_def)
  obtain s2 r2 where 2: "pop_sdp e s1 = (s2, r2)" by fastforce
  have i1: "srpc_inv (tgt e) s1" "contents (sp_in (proto s1)) = []" "proto s1 = proto s" "user s1 = user s"
      "out_queue s1 = out_queue s" using inv empty te by (simp_all add: s1_def) (simp_all add: srpc_lock_def)
  have "pop_post (tgt e) (proto s1) (sdp s1) (proto s2) (sdp s2) r2" "user s2 = user s1"
    using pop_sdp_frame [OF i1(1) _ 2] i1(2) by (simp_all add: no_wrap_def)
  moreover have "out_queue s2 = out_queue s1" using 2 by (auto simp: pop_sdp_def Let_def split: prod.splits)
  ultimately have p: "r2 = SUPLA_RESULT_FALSE" "sp_out (proto s2) = sp_out (proto s)" "user s2 = user s"
      "outgoing s2 = outgoing s"
    using i1 by (simp_all add: pop_post_def parse_def outgoing_def)
  have i2: "srpc_inv (tgt e) s2" by (rule pop_sdp_inv(1) [OF i1(1) 2])
  have ek: "env_ok e" by (simp add: env_ok_def te h writer_def)
  have "snd (append_out e s2) = SUPLA_RESULT_TRUE"
    by (rule append_out_room [OF i2 ek]) (simp only: te h(2), simp only: te p(2) room)
  then obtain s3 where 3: "append_out e s2 = (s3, SUPLA_RESULT_TRUE)"
    by (cases "append_out e s2") simp
  note c3 = append_out_conserves [OF i2 ek 3]
  have i3: "srpc_inv (tgt e) s3" by (rule append_out_inv [OF i2 ek 3])
  from write_out_conserves [OF i3] obtain a where
    a: "contents (sp_out (proto s3)) = a @ contents (sp_out (proto (write_out e s3)))"
      "length a = min (SRPC_BUFFER_SIZE t) (length (contents (sp_out (proto s3))))"
      "user (write_out e s3) = (if a = [] then user s3 else user s3 @ a)"
      "out_queue (write_out e s3) = out_queue s3"
    unfolding te writer_def TsrpcParams.select_convs by blast
  have s': "r = SUPLA_RESULT_TRUE" "user s' = user (write_out e s3)" "outgoing s' = outgoing (write_out e s3)"
    using res 1 2 3 p(1) q te
    by (auto simp: srpc_iterate_def s1_def [symmetric] Let_def iterate_out_def raise_if_def srpc_unlock_def outgoing_def)
  have o: "outgoing s3 = a @ outgoing (write_out e s3)" using a(1,4) by (simp add: outgoing_def)
  have "a \<noteq> []" if "outgoing s \<noteq> []"
    using c3(3) p(4) that a(2) SRPC_BUFFER_SIZE_bounds(2) [of t] by (auto simp: min_def split: if_splits)
  moreover have "outgoing s = a @ outgoing s'" unfolding s'(3) using o c3(1) p(4) by simp
  moreover have "user s' = user s @ a" unfolding s'(2) a(3) using c3(2) p(3) by simp
  ultimately show ?thesis using s'(1) by (cases "outgoing s = []") auto
qed

section \<open>Properties\<close>

text \<open>C23. Locking discipline: on every path, error returns included, each operation of the handle
  leaves the lock at the depth at which it found it, provided that the callbacks that get the handle keep that depth when they are entered at
  it.  Those callbacks are entered at that depth only: what they would do at any other depth makes no difference to the result.  (The callbacks
  for reading and writing bytes, which do not get the handle, run under the lock.)\<close>

theorem srpc_lock_balanced:
  assumes "callbacks_balanced (lck s) e"
  shows "lck (fst (srpc_iterate e s)) = lck s \<and>
    (case srpc_iterate_device e s of Some (s', r) \<Rightarrow> lck s' = lck s | None \<Rightarrow> True) \<and>
    map_option lck (fst (srpc_async__call e (Some s) c d n v)) = Some (lck s) \<and>
    lck (fst (srpc_input_dataexists e s)) = lck s \<and> lck (fst (srpc_output_dataexists e s)) = lck s \<and>
    lck (srpc_set_proto_version e s ver) = lck s \<and>
    map_option lck (fst (srpc_get_proto_version e (Some s))) = Some (lck s) \<and>
    (same_at (lck s) e e' \<longrightarrow>
       srpc_iterate e' s = srpc_iterate e s \<and> srpc_iterate_device e' s = srpc_iterate_device e s \<and>
       srpc_async__call e' (Some s) c d n v = srpc_async__call e (Some s) c d n v)"
proof -
  have "same_at (lck s) e e' \<longrightarrow> srpc_iterate e' s = srpc_iterate e s \<and> srpc_iterate_device e' s = srpc_iterate_device e s \<and>
      srpc_async__call e' (Some s) c d n v = srpc_async__call e (Some s) c d n v"
    using same_at_iterate [of s e e'] same_at_iterate_device [OF _ assms, of e'] same_at_callbacks(3) [of "lck s" e e' s c d n v] by blast
  then show ?thesis
    using lck_srpc_iterate [OF assms] lck_srpc_iterate_device [OF assms] lck_srpc_async__call [OF assms]
    by (simp add: srpc_input_dataexists_def srpc_output_dataexists_def srpc_set_proto_version_def
        srpc_get_proto_version_def Let_def split: option.splits)
qed

lemma recorder_callbacks:
  "callbacks_balanced l (recorder_env t w h)" "callbacks_keep (recorder_env t w h) (srpc_inv t)"
  "keeps_input (recorder_env t w h)" "good_heap t h \<Longrightarrow> env_ok (writer_env t w h)"
  by (auto simp: callbacks_balanced_def callbacks_keep_def recorder_def keeps_input_def env_ok_def writer_def)

text \<open>The recorder, and one whose notification destroys the lock unless it is entered at depth 0.\<close>

definition trap_env :: "(bytes list \<times> msg list) env \<Rightarrow> (bytes list \<times> msg list) env" where
  "trap_env e = e\<lparr>params := (params e)\<lparr>on_remote_call_received := map_option
     (\<lambda>f s rr c v. if lck s = Some 0 then f s rr c v else s\<lparr>lck := None\<rparr>) (on_remote_call_received (params e))\<rparr>\<rparr>"

theorem srpc_lock_balanced_witness:
  "let e = recorder_env OTHER 64 heap_any; s = (fresh OTHER ([encode demo_msg], []))\<lparr>lck := Some 0\<rparr>
   in lck (fst (srpc_iterate (trap_env e) s)) = Some 0 \<and> srpc_iterate (trap_env e) s = srpc_iterate e s"
proof -
  let ?e = "recorder_env OTHER 64 heap_any" and ?s = "(fresh OTHER ([encode demo_msg], []))\<lparr>lck := Some 0\<rparr>"
  have "same_at (lck ?s) ?e (trap_env ?e)"
    by (auto simp: same_at_def trap_env_def rel_option_iff split: option.splits)
  then show ?thesis
    using srpc_lock_balanced [where s = ?s and e = ?e and e' = "trap_env ?e"] recorder_callbacks(1)
    by (auto simp: Let_def)
qed

text \<open>C22. The handle invariant (well-formed buffers, packets and queues, so that no copy leaves its
  block and no null packet is read) holds after every construction that got its protocol object (the code
  returns a handle without it when that allocation fails, on which nothing may be called), and is kept by both loops, whatever is
  received and however the allocator behaves, provided the callbacks keep it, \<open>data_read\<close> claims no more bytes than it had
  room for and \<open>errno\<close> is not stale.\<close>

theorem srpc_invariant:
  assumes "env_ok e" and "callbacks_keep e (srpc_inv (tgt e))"
  shows "(case srpc_init e n k m ev u of Handle s \<Rightarrow> srpc_inv (tgt e) s | Without_proto \<Rightarrow> \<not> heap_ok (heap_of e) k | No_handle \<Rightarrow> \<not> heap_ok (heap_of e) n) \<and>
    (srpc_inv (tgt e) s \<longrightarrow> srpc_inv (tgt e) (fst (srpc_iterate e s)) \<and>
      (case srpc_iterate_device e s of Some (s', r) \<Rightarrow> srpc_inv (tgt e) s' | None \<Rightarrow> True))"
proof -
  have "case srpc_init e n k m ev u of Handle s \<Rightarrow> srpc_inv (tgt e) s | Without_proto \<Rightarrow> \<not> heap_ok (heap_of e) k
      | No_handle \<Rightarrow> \<not> heap_ok (heap_of e) n"
    using srpc_init_inv(1) [of e n k m ev u] by (auto simp: srpc_init_def sproto_init_def split: srpc_init_result.splits if_splits)
  then show ?thesis
    using srpc_iterate_inv [OF _ assms, of s] srpc_iterate_device_inv [OF _ assms, of s] by (auto split: option.splits)
qed

theorem srpc_invariant_witness:
  "\<exists>s. srpc_init (writer_env DEVICE 32 heap_any) 1 1 1 None [] = Handle s \<and> srpc_inv DEVICE s \<and>
     srpc_inv DEVICE (fst (srpc_iterate (writer_env DEVICE 32 heap_any) s))"
proof -
  obtain s where s: "srpc_init (writer_env DEVICE 32 heap_any) 1 1 1 None [] = Handle s"
    by (simp add: srpc_init_def sproto_init_def heap_any_def)
  have "env_ok (writer_env DEVICE 32 heap_any)" "callbacks_keep (writer_env DEVICE 32 heap_any) (srpc_inv DEVICE)"
    by (simp_all add: recorder_callbacks good_heap_def callbacks_keep_def writer_def)
  then show ?thesis
    using srpc_invariant [of "writer_env DEVICE 32 heap_any" 1 1 1 None "[]" s] s by simp
qed

text \<open>C35. The device loop returns: it empties the input buffer in finitely many rounds for every
  input, provided the application does not itself append to that buffer.\<close>

theorem srpc_iterate_device_returns:
  assumes "env_ok e" and "callbacks_keep e (srpc_inv (tgt e))" and "keeps_input e" and "srpc_inv (tgt e) s"
  shows "\<exists>s' r. srpc_iterate_device e s = Some (s', r)"
proof -
  obtain s1 n b where 1: "read_data e (srpc_lock e s) = (s1, n, b)" by (metis prod_cases3)
  obtain s2 r2 where 2: "append_data e s1 n b = (s2, r2)" by fastforce
  have i1: "srpc_inv (tgt e) s1" "length (take (nat n) b) < 2 ^ 31"
    using read_data_inv(1,2) [OF _ assms(1) 1] assms(4) by simp_all
  have "srpc_inv (tgt e) s2" by (rule append_data_inv [OF i1(1) assms(1) i1(2) 2])
  then obtain s3 r3 where "drain_in e s2 = Some (s3, r3)" using drain_in_returns [OF assms(3,2)] by blast
  then show ?thesis by (simp add: srpc_iterate_device_def 1 2)
qed

theorem srpc_iterate_device_returns_witness:
  "\<exists>s' r. srpc_iterate_device (writer_env AVR 16 heap_any) (fresh AVR []) = Some (s', r)"
  by (rule srpc_iterate_device_returns)
    (simp_all add: recorder_callbacks good_heap_def callbacks_keep_def writer_def keeps_input_def fresh_inv)

text \<open>C1. Delivery: if the bytes a device receives are the frames of a sequence of messages, cut into
  blocks in any way the network likes, then running the device loop once per block notifies the
  application of exactly those messages in order, every run succeeds, and no byte is left over; on no
  target can the input buffer overflow.\<close>

theorem srpc_device_delivery:
  assumes "good_heap t h" and "heap_ok h = (\<lambda>_. True)"
    and "list_all (\<lambda>c. 0 < length c \<and> length c \<le> SRPC_BUFFER_SIZE t) chunks"
    and "concat chunks = concat (map encode ms)" and "list_all (msg_ok t) ms"
    and "srpc_init (recorder_env t w h) n k m ev (chunks, []) = Handle s"
  shows "\<exists>s'. device_loop (recorder_env t w h) (length chunks) s
      = Some (s', replicate (length chunks) SUPLA_RESULT_TRUE) \<and>
    user s' = ([], ms) \<and> contents (sp_in (proto s')) = []"
proof -
  note i = srpc_init_inv [OF assms(6), unfolded writer_env_simps]
  have "ms \<noteq> [] \<longrightarrow> length (contents (sp_in (proto s))) < length (encode (hd ms))"
    by (simp add: i(3) sproto_new_inv)
  with device_loop_recorder [OF refl assms(1,2) i(1,2) assms(3) _ assms(5), of w] assms(4)
  show ?thesis by (auto simp: i(3) sproto_new_inv)
qed

theorem srpc_device_delivery_witness:
  "\<exists>s s'. srpc_init (recorder_env DEVICE 32 heap_any) 1 1 1 None
      ([take 20 (encode demo_msg), drop 20 (encode demo_msg)], []) = Handle s \<and>
    device_loop (recorder_env DEVICE 32 heap_any) (Suc (Suc 0)) s = Some (s', [SUPLA_RESULT_TRUE, SUPLA_RESULT_TRUE]) \<and>
    user s' = ([], [demo_msg])"
proof -
  let ?c = "[take 20 (encode demo_msg), drop 20 (encode demo_msg)]"
  have ne: "encode demo_msg \<noteq> []" by (simp add: encode_def msg_header_def)
  have l: "length (encode demo_msg) = 26" by (simp add: encode_def msg_header_def demo_msg_def)
  obtain s where s: "srpc_init (recorder_env DEVICE 32 heap_any) 1 1 1 None (?c, []) = Handle s"
    by (simp add: srpc_init_def sproto_init_def heap_any_def)
  have "msg_ok DEVICE demo_msg" by (simp add: msg_ok_def demo_msg_def const_defs)
  then have "\<exists>s'. device_loop (recorder_env DEVICE 32 heap_any) (length ?c) s
      = Some (s', replicate (length ?c) SUPLA_RESULT_TRUE) \<and>
    user s' = ([], [demo_msg]) \<and> contents (sp_in (proto s')) = []"
    using l ne by (intro srpc_device_delivery [OF _ _ _ _ _ s]) (auto simp: good_heap_def heap_any_def)
  then show ?thesis using s by (auto simp del: device_loop.simps)
qed


text \<open>C34. The sending half of the server loop, on builds with queues: a run of \<open>srpc_iterate\<close> that receives
  nothing and has no received bytes left neither loses nor reorders outgoing bytes (what was written, followed by the output buffer
  and the frames of the queued packets, is unchanged) and makes progress while anything is outgoing, provided that the output
  buffer has room for one more frame and that allocations succeed; without room a packet may be lost, as shown below.\<close>

theorem srpc_iterate_sends:
  assumes "\<not> srpc_without_queues t" and "srpc_inv t s" and "good_heap t h" and "heap_ok h = (\<lambda>_. True)"
    and "contents (sp_in (proto s)) = []"
    and "length (contents (sp_out (proto s))) + 23 + SUPLA_MAX_DATA_SIZE t < BUFFER_MAX_SIZE t"
    and "srpc_iterate (writer_env t w h) s = (s', r)"
  shows "r = SUPLA_RESULT_TRUE \<and> user s' @ outgoing s' = user s @ outgoing s \<and>
    (outgoing s \<noteq> [] \<longrightarrow> length (outgoing s') < length (outgoing s))"
  by (rule srpc_iterate_writer [OF refl assms])

text \<open>A handle with \<open>k\<close> bytes in the output buffer and one queued packet.\<close>

definition full_queue :: "nat \<Rightarrow> bytes Tsrpc" where
  "full_queue k = (fresh OTHER [])\<lparr>proto := out_filled k,
     out_queue := \<lparr>item_count = 1, alloc_count = 1, item = Some (blank_packet OTHER) # replicate 9 None\<rparr>\<rparr>"

lemma full_queue_inv:
  assumes "k < 131072"
  shows "srpc_inv OTHER (full_queue k)" "contents (sp_out (proto (full_queue k))) = replicate k 0"
    "queued (out_queue (full_queue k)) = [blank_packet OTHER]"
proof -
  have u: "unat (of_nat k :: u32) = k" using assms by (intro unat_of_nat_u32) simp
  have "buf_inv OTHER (sp_out (out_filled k))" using u assms by (simp add: out_filled_def buf_inv_def)
  moreover have "queue_inv OTHER (out_queue (full_queue k))" "queued (out_queue (full_queue k)) = [blank_packet OTHER]"
    by (simp_all add: full_queue_def queue_inv_def blocks_def queued_def)
  moreover have "sp_in (out_filled k) = sp_in sproto_new" "sp_version (out_filled k) = sp_version sproto_new"
    by (simp_all add: out_filled_def)
  moreover have "proto (full_queue k) = out_filled k" "sdp (full_queue k) = sdp (fresh OTHER ([] :: bytes))"
    "in_queue (full_queue k) = in_queue (fresh OTHER ([] :: bytes))" by (simp_all add: full_queue_def)
  ultimately show "srpc_inv OTHER (full_queue k)"
    using fresh_inv(1) [of OTHER "[] :: bytes"] blank_packet_fits(1) [of OTHER]
    by (simp add: srpc_inv_def spd_inv_def fresh_inv(3))
  show "contents (sp_out (proto (full_queue k))) = replicate k 0" "queued (out_queue (full_queue k)) = [blank_packet OTHER]"
    using u by (simp_all add: full_queue_def out_filled_def contents_def queued_def)
qed

theorem srpc_iterate_sends_witness:
  "\<exists>s'. srpc_iterate (writer_env OTHER 64 heap_any) (full_queue 5) = (s', SUPLA_RESULT_TRUE) \<and> outgoing (full_queue 5) \<noteq> [] \<and>
    user s' @ outgoing s' = outgoing (full_queue 5) \<and> length (outgoing s') < length (outgoing (full_queue 5))"
proof -
  obtain s' r where r: "srpc_iterate (writer_env OTHER 64 heap_any) (full_queue 5) = (s', r)" by fastforce
  note q = full_queue_inv [of 5]
  have "contents (sp_in (proto (full_queue 5))) = []" "user (full_queue 5) = []" "outgoing (full_queue 5) \<noteq> []"
    using q(2) by (simp_all add: full_queue_def out_filled_def sproto_new_inv fresh_inv outgoing_def)
  then show ?thesis
    using srpc_iterate_sends [OF _ q(1) _ _ _ _ r] r q(2) by (simp add: good_heap_def heap_any_def)
qed

text \<open>When the output buffer has no room for the header and payload of the packet at the front of
  the queue, \<open>sproto_out_buffer_append\<close> reports plain failure and \<open>srpc_iterate\<close> takes that for
  nothing to do: the packet is removed from the queue, never sent, and the run still succeeds.\<close>

theorem srpc_iterate_drops_packet:
  assumes "\<not> srpc_without_queues (tgt e)" and "srpc_inv (tgt e) s" and "env_ok e"
    and "queued (out_queue s) = p # ps"
    and "BUFFER_MAX_SIZE (tgt e) \<le> length (contents (sp_out (proto s))) + 18 + unat (sdp_data_size p)"
  shows "\<exists>s1. append_out e s = (s1, SUPLA_RESULT_FALSE) \<and> queued (out_queue s1) = ps \<and>
    contents (sp_out (proto s1)) = contents (sp_out (proto s)) \<and> snd (iterate_out e s ev) = SUPLA_RESULT_TRUE"
proof -
  let ?t = "tgt e"
  obtain q x r1 where a: "srpc_queue_pop ?t (out_queue s) (sdp s) 0 = (q, x, r1)" by (metis prod_cases3)
  have qi: "queue_inv ?t (out_queue s)" "packet_fits ?t p" "buf_inv ?t (sp_out (proto s))" "good_heap ?t (heap_of e)"
    using assms(2-4) by (simp_all add: srpc_inv_def spd_inv_def env_ok_def)
  have hit: "r1 = SUPLA_RESULT_TRUE"
    using srpc_queue.pop_miss [OF qi(1) a] assms(4) by (auto simp: matches_def)
  have q: "x = p" "queued q = ps"
    using srpc_queue.pop_step(4) [OF qi(1) a] hit assms(4) by simp_all
  let ?d = "take (18 + unat (sdp_data_size p)) (sdp_bytes p)"
  have len: "length ?d = 18 + unat (sdp_data_size p)" "length ?d < 2 ^ 31"
    using length_sdp_bytes [of ?t p] SUPLA_MAX_DATA_SIZE_bounds(2) [of ?t] qi(2) by (simp_all add: packet_fits_def)
  have lc: "unat (b_data_size (sp_out (proto s))) = length (contents (sp_out (proto s)))"
    using buf_invD(6) [OF qi(3)] by simp
  have "\<not> (buf_inv ?t b \<and> contents b = contents (sp_out (proto s)) @ ?d)" for b
    using buf_invD(3,4,6) [of ?t b] assms(5) len(1) by auto
  then have "sproto_buffer_append ?t (heap_of e) (sp_out (proto s)) ?d = (sp_out (proto s), SUPLA_RESULT_BUFFER_OVERFLOW)"
    using sproto_buffer_append_cases [OF qi(3) len(2) qi(4)] assms(5) len(1) lc by auto
  then have f: "sproto_out_buffer_append ?t (heap_of e) (proto s) p = (proto s, SUPLA_RESULT_FALSE)"
    using qi(2) by (simp add: sproto_out_buffer_append_eq packet_fits_def)
  define s1 where "s1 = s\<lparr>out_queue := q, sdp := p\<rparr>"
  have 1: "append_out e s = (s1, SUPLA_RESULT_FALSE)"
    using a hit q f by (simp add: append_out_def srpc_out_queue_pop_def s1_def)
  then have "snd (iterate_out e s ev) = SUPLA_RESULT_TRUE"
    using assms(1) by (simp add: iterate_out_def Let_def)
  with 1 q show ?thesis by (simp add: s1_def)
qed


theorem srpc_iterate_drops_packet_witness:
  "\<exists>s1. append_out (writer_env OTHER 64 heap_any) (full_queue 131060) = (s1, SUPLA_RESULT_FALSE) \<and>
    queued (out_queue s1) = [] \<and>
    snd (iterate_out (writer_env OTHER 64 heap_any) (full_queue 131060) False) = SUPLA_RESULT_TRUE"
  using srpc_iterate_drops_packet [of "writer_env OTHER 64 heap_any" "full_queue 131060" "blank_packet OTHER" "[]" False]
    full_queue_inv [of 131060] blank_packet_fits(2) [of OTHER] recorder_callbacks(4) [of OTHER heap_any 64]
  by (auto simp: good_heap_def heap_any_def)

text \<open>A permitted call with a usable payload on a build without queues, which is every Arduino,
  ESP-IDF and Linux device, hands exactly the frame of one message with the given call identifier and
  payload to \<open>data_write\<close>, and returns its request identifier.\<close>

theorem srpc_async_call_frame:
  assumes "srpc_inv (tgt e) s" and "srpc_without_queues (tgt e)" and "before_async_call (params e) = None"
    and "srpc_call_min_version_required c \<le> sp_version (proto s)" and "payload_ok (tgt e) data n"
  shows "\<exists>s' m a. srpc_async_call e (Some s) c data n = (Some s', sint (m_rr_id m)) \<and>
    m_call_id m = c \<and> m_payload m = payload data n \<and> msg_ok (tgt e) m \<and> m_rr_id m \<noteq> 0 \<and>
    a @ sproto_tag = encode m \<and>
    user s' = data_write (params e) sproto_tag (data_write (params e) a (user s)) \<and> srpc_inv (tgt e) s'"
proof -
  have "length (payload data n) \<le> SUPLA_MAX_DATA_SIZE (tgt e)"
    using assms(5) by (auto simp: payload_ok_def payload_def split: option.splits)
  then have "msg_ok (tgt e) (call_msg s c (payload data n))"
    using assms(1) by (simp add: msg_ok_def call_msg_def srpc_inv_def spd_inv_def)
  moreover have "m_call_id (call_msg s c (payload data n)) = c"
      "m_payload (call_msg s c (payload data n)) = payload data n" "m_rr_id (call_msg s c (payload data n)) \<noteq> 0"
    by (simp_all add: call_msg_def)
  ultimately show ?thesis using srpc_async_call_direct [OF assms] by blast
qed

theorem srpc_async_call_frame_witness:
  "\<exists>s' m a. srpc_async_call (writer_env DEVICE 32 heap_any) (Some (fresh DEVICE [])) SUPLA_DCS_CALL_PING_SERVER
      (Some [1, 2]) 2 = (Some s', sint (m_rr_id m)) \<and> m_payload m = [1, 2] \<and> user s' = a @ sproto_tag \<and>
    a @ sproto_tag = encode m"
proof -
  have v: "srpc_call_min_version_required SUPLA_DCS_CALL_PING_SERVER = 1"
    by (simp add: srpc_call_min_version_required_def)
  have p: "payload (Some [1, 2]) 2 = [1, 2]" "payload_ok DEVICE (Some [1, 2]) 2"
    by (simp_all add: payload_def payload_ok_def)
  have "\<exists>s' m a. srpc_async_call (writer_env DEVICE 32 heap_any) (Some (fresh DEVICE [])) SUPLA_DCS_CALL_PING_SERVER
      (Some [1, 2]) 2 = (Some s', sint (m_rr_id m)) \<and>
    m_call_id m = SUPLA_DCS_CALL_PING_SERVER \<and> m_payload m = payload (Some [1, 2]) 2 \<and> msg_ok (tgt (writer_env DEVICE 32 heap_any)) m \<and>
    m_rr_id m \<noteq> 0 \<and> a @ sproto_tag = encode m \<and>
    user s' = data_write (params (writer_env DEVICE 32 heap_any)) sproto_tag
      (data_write (params (writer_env DEVICE 32 heap_any)) a (user (fresh DEVICE []))) \<and>
    srpc_inv (tgt (writer_env DEVICE 32 heap_any)) s'"
    by (rule srpc_async_call_frame)
      (simp_all add: fresh_inv v p writer_def sproto_new_def SUPLA_PROTO_VERSION_def)
  then show ?thesis by (auto simp: p writer_def fresh_inv)
qed

text \<open>A call whose identifier needs a newer protocol version than the connection has, or whose
  payload is larger than \<open>SUPLA_MAX_DATA_SIZE\<close> or missing, returns 0 and sends nothing: the queues,
  the output buffer and the transport are untouched.\<close>

theorem srpc_async_call_refused:
  assumes "before_async_call (params e) = None" and "on_min_version_required (params e) = None"
    and "sp_version (proto s) < srpc_call_min_version_required c \<or>
      SUPLA_MAX_DATA_SIZE (tgt e) < unat n \<or> data = None \<and> n \<noteq> 0"
  shows "\<exists>s'. srpc_async_call e (Some s) c data n = (Some s', SUPLA_RESULT_FALSE) \<and> user s' = user s \<and>
    out_queue s' = out_queue s \<and> sp_out (proto s') = sp_out (proto s)"
proof (cases "sp_version (proto s) < srpc_call_min_version_required c")
  case True
  then show ?thesis using srpc_async__call_denied [OF True] assms(2) by (simp add: srpc_async_call_def)
next
  case False
  then have r: "snd (sproto_set_data (tgt e) p data n c) = SUPLA_RESULT_FALSE" for p
    using assms(3) by (auto simp: sproto_set_data_def word_neq_0_conv)
  have "sp_out (fst (sproto_sdp_init t spd)) = sp_out spd" for t spd
    by (simp add: sproto_sdp_init_def Let_def)
  then show ?thesis
    using False srpc_async_call_eq [OF _ assms(1), of c s data n] r by (simp add: not_less)
qed

theorem srpc_async_call_refused_witness:
  "\<exists>s'. srpc_async_call (writer_env AVR 16 heap_any) (Some (fresh AVR [])) SUPLA_DCS_CALL_PING_SERVER
      (Some (replicate 601 0)) 601 = (Some s', SUPLA_RESULT_FALSE) \<and> user s' = []"
  using srpc_async_call_refused [of "writer_env AVR 16 heap_any" "fresh AVR []" SUPLA_DCS_CALL_PING_SERVER 601
      "Some (replicate 601 0)"]
  by (auto simp: writer_def fresh_inv)

end
