(* ===== verification/Srpc_Pack.thy ===== *)
theory Srpc_Pack
  imports Srpc
begin

text \<open>
  Packs of \<open>srpc.c\<close>: arrays of items that end in a caption of variable length.  In memory an item has
  its full size; on the wire the unused part of each caption is left out.

  \<^item> \<open>srpc_getpack\<close> expands a received pack, \<open>srpc_set_pack\<close> squeezes one for sending; both take the
    functions that know the layout of the pack as arguments, as in the code.
  \<^item> Ten families instantiate them: channels (five versions), channel groups (two), locations, scenes and
    scene states.  A pointer to an item is its offset in the pack.
  \<^item> \<open>wire_pack\<close> is what the generic code expects of a family; its lemmas show that the expansion stays
    inside its block and that it inverts the squeezing.  Each family is an interpretation.
\<close>

section \<open>Receiving\<close>

text \<open>The copying loop of \<open>srpc_getpack\<close>.  \<open>offset\<close> never exceeds \<open>data_size\<close>, so the unsigned
  difference \<open>data_size - offset\<close> is a difference of natural numbers.\<close>

function getpack_loop ::
  "bytes \<Rightarrow> nat \<Rightarrow> nat \<Rightarrow> nat \<Rightarrow> (bytes \<Rightarrow> int \<Rightarrow> bool \<Rightarrow> bytes) \<Rightarrow> (int \<Rightarrow> nat) \<Rightarrow> (bytes \<Rightarrow> nat) \<Rightarrow>
   nat \<Rightarrow> nat \<Rightarrow> nat \<Rightarrow> bytes \<Rightarrow> bytes" where
  "getpack_loop data data_size c_header_size caption_max_size pack_set_count get_item_ptr
     get_item_caption_size a cnt offset pack =
     (if a < cnt then
        if data_size - offset \<ge> c_header_size then
          let size = c_int (get_item_caption_size (drop offset data))
          in if size \<ge> 0 \<and> size \<le> int caption_max_size \<and>
                data_size - offset \<ge> c_header_size + nat size
             then let n = c_header_size + nat size;
                      pack = overlay (get_item_ptr (int a)) (seg offset n data) pack;
                      pack = pack_set_count pack 1 True
                  in getpack_loop data data_size c_header_size caption_max_size pack_set_count
                       get_item_ptr get_item_caption_size (Suc a) cnt (offset + n) pack
             else pack
        else getpack_loop data data_size c_header_size caption_max_size pack_set_count
               get_item_ptr get_item_caption_size (Suc a) cnt offset pack
      else pack)"
  by pat_completeness auto
termination by (relation "measure (\<lambda>(data, ds, c, m, sc, ip, cs, a, cnt, off, pack). cnt - a)") auto

declare getpack_loop.simps [simp del]

text \<open>The results are the packet, whose \<open>data_size\<close> is cleared on success, and \<open>rd->data\<close>.\<close>

definition srpc_getpack ::
  "heap \<Rightarrow> packet \<Rightarrow> nat \<Rightarrow> nat \<Rightarrow> nat \<Rightarrow> nat \<Rightarrow> (bytes \<Rightarrow> int) \<Rightarrow> (bytes \<Rightarrow> int \<Rightarrow> bool \<Rightarrow> bytes) \<Rightarrow>
   (int \<Rightarrow> nat) \<Rightarrow> (bytes \<Rightarrow> nat) \<Rightarrow> packet \<times> bytes option" where
  "srpc_getpack h p pack_sizeof item_sizeof pack_max_count caption_max_size
     pack_get_count pack_set_count get_item_ptr get_item_caption_size =
     (let header_size = pack_sizeof - item_sizeof * pack_max_count;
          c_header_size = item_sizeof - caption_max_size;
          data_size = unat (sdp_data_size p)
      in if data_size < header_size \<or> data_size > pack_sizeof then (p, None)
         else
           let cnt = pack_get_count (sdp_data p)
           in if cnt < 0 \<or> cnt > int pack_max_count then (p, None)
              else (case calloc h (header_size + item_sizeof * nat cnt) of
                      None \<Rightarrow> (p, None)
                    | Some pack \<Rightarrow>
                        let pack = overlay 0 (take header_size (sdp_data p)) pack;
                            pack = pack_set_count pack 0 False;
                            pack = getpack_loop (sdp_data p) data_size c_header_size caption_max_size
                                     pack_set_count get_item_ptr get_item_caption_size 0 (nat cnt)
                                     header_size pack
                        in if cnt = pack_get_count pack
                           then (p\<lparr>sdp_data_size := 0\<rparr>, Some pack)
                           else (p, None)))"

section \<open>Sending\<close>

text \<open>The loop of \<open>srpc_set_pack\<close>; \<open>offset\<close> and \<open>size\<close> (\<open>sz\<close> here) agree at its head.  \<open>None\<close> is the failed
  \<open>realloc\<close>.\<close>

function set_pack_loop ::
  "heap \<Rightarrow> bytes \<Rightarrow> (bytes \<Rightarrow> int \<Rightarrow> nat) \<Rightarrow> (int \<Rightarrow> nat) \<Rightarrow> nat \<Rightarrow> nat \<Rightarrow> nat \<Rightarrow> nat \<Rightarrow> nat \<Rightarrow> nat \<Rightarrow>
   bytes \<Rightarrow> (bytes \<times> nat \<times> nat) option" where
  "set_pack_loop h pack get_caption_size get_item_ptr caption_max_size item_sizeof a cnt sz n buffer =
     (if a < cnt then
        if get_caption_size pack (int a) \<le> caption_max_size then
          let sz' = sz + (item_sizeof - caption_max_size + get_caption_size pack (int a))
          in (case realloc h buffer sz' of
                None \<Rightarrow> None
              | Some new_buffer \<Rightarrow>
                  set_pack_loop h pack get_caption_size get_item_ptr caption_max_size item_sizeof
                    (Suc a) cnt sz' (Suc n)
                    (overlay sz (seg (get_item_ptr (int a)) (sz' - sz) pack) new_buffer))
        else set_pack_loop h pack get_caption_size get_item_ptr caption_max_size item_sizeof
               (Suc a) cnt sz n buffer
      else Some (buffer, sz, n))"
  by pat_completeness auto
termination by (relation "measure (\<lambda>(h, pack, cs, ip, m, i, a, cnt, sz, n, b). cnt - a)") auto

declare set_pack_loop.simps [simp del]

definition set_pack_buffer ::
  "heap \<Rightarrow> bytes \<Rightarrow> int \<Rightarrow> (bytes \<Rightarrow> int \<Rightarrow> nat) \<Rightarrow> (int \<Rightarrow> nat) \<Rightarrow>
   (bytes \<Rightarrow> int \<Rightarrow> bool \<Rightarrow> bytes) \<Rightarrow> nat \<Rightarrow> nat \<Rightarrow> nat \<Rightarrow> nat \<Rightarrow> (bytes \<times> nat) option" where
  "set_pack_buffer h pack cnt get_caption_size get_item_ptr set_pack_count pack_sizeof
     pack_max_count caption_max_size item_sizeof =
     (if cnt < 1 \<or> cnt > int pack_max_count then None
      else
        let size = pack_sizeof - item_sizeof * pack_max_count
        in (case malloc h size of
              None \<Rightarrow> None
            | Some buffer \<Rightarrow>
                (case set_pack_loop h pack get_caption_size get_item_ptr caption_max_size
                        item_sizeof 0 (nat cnt) size 0 (overlay 0 (take size pack) buffer) of
                   None \<Rightarrow> None
                 | Some (buffer, sz, n) \<Rightarrow> Some (set_pack_count buffer (int n) False, sz))))"

definition srpc_set_pack ::
  "'u env \<Rightarrow> 'u Tsrpc option \<Rightarrow> bytes \<Rightarrow> int \<Rightarrow> (bytes \<Rightarrow> int \<Rightarrow> nat) \<Rightarrow> (int \<Rightarrow> nat) \<Rightarrow>
   (bytes \<Rightarrow> int \<Rightarrow> bool \<Rightarrow> bytes) \<Rightarrow> nat \<Rightarrow> nat \<Rightarrow> nat \<Rightarrow> nat \<Rightarrow> u32 \<Rightarrow> 'u Tsrpc option \<times> int" where
  "srpc_set_pack e srpc pack cnt get_caption_size get_item_ptr set_pack_count pack_sizeof
     pack_max_count caption_max_size item_sizeof call_id =
     (case set_pack_buffer (heap_of e) pack cnt get_caption_size get_item_ptr set_pack_count
             pack_sizeof pack_max_count caption_max_size item_sizeof of
        None \<Rightarrow> (srpc, 0)
      | Some (buffer, sz) \<Rightarrow> srpc_async_call e srpc call_id (Some buffer) (of_nat sz))"

section \<open>Families\<close>

subsection \<open>TSC_SuplaChannelPack\<close>

definition srpc_channelpack_get_item_ptr :: "int \<Rightarrow> nat" where
  "srpc_channelpack_get_item_ptr idx =
     offsetof TSC_SuplaChannelPack [''items''] + nat idx * sizeof TSC_SuplaChannel"

definition srpc_channelpack_get_pack_count :: "bytes \<Rightarrow> int" where
  "srpc_channelpack_get_pack_count pack = sfield TSC_SuplaChannelPack [''count''] pack"

definition srpc_channelpack_set_pack_count :: "bytes \<Rightarrow> int \<Rightarrow> bool \<Rightarrow> bytes" where
  "srpc_channelpack_set_pack_count pack cnt increment =
     (if \<not> increment then set_field TSC_SuplaChannelPack [''count''] (nat (cnt mod 2 ^ 32)) pack
      else set_field TSC_SuplaChannelPack [''count''] (nat ((sfield TSC_SuplaChannelPack [''count''] pack + cnt) mod 2 ^ 32)) pack)"

definition srpc_channelpack_get_item_caption_size :: "bytes \<Rightarrow> nat" where
  "srpc_channelpack_get_item_caption_size it = field TSC_SuplaChannel [''CaptionSize''] it"

definition srpc_getchannelpack :: "heap \<Rightarrow> packet \<Rightarrow> packet \<times> bytes option" where
  "srpc_getchannelpack h p =
     srpc_getpack h p (sizeof TSC_SuplaChannelPack) (sizeof TSC_SuplaChannel) SUPLA_CHANNELPACK_MAXCOUNT
       SUPLA_CHANNEL_CAPTION_MAXSIZE srpc_channelpack_get_pack_count srpc_channelpack_set_pack_count
       srpc_channelpack_get_item_ptr srpc_channelpack_get_item_caption_size"

definition srpc_channelpack_get_caption_size :: "bytes \<Rightarrow> int \<Rightarrow> nat" where
  "srpc_channelpack_get_caption_size pack idx =
     field TSC_SuplaChannel [''CaptionSize''] (drop (offsetof TSC_SuplaChannelPack [''items''] + nat idx * sizeof TSC_SuplaChannel) pack)"

definition srpc_sc_async_channelpack_update :: "'u env \<Rightarrow> 'u Tsrpc option \<Rightarrow> bytes \<Rightarrow> 'u Tsrpc option \<times> int" where
  "srpc_sc_async_channelpack_update e srpc pack =
     srpc_set_pack e srpc pack (sfield TSC_SuplaChannelPack [''count''] pack)
       srpc_channelpack_get_caption_size srpc_channelpack_get_item_ptr srpc_channelpack_set_pack_count
       (sizeof TSC_SuplaChannelPack) SUPLA_CHANNELPACK_MAXCOUNT SUPLA_CHANNEL_CAPTION_MAXSIZE (sizeof TSC_SuplaChannel)
       SUPLA_SC_CALL_CHANNELPACK_UPDATE"

subsection \<open>TSC_SuplaChannelPack_B\<close>

definition srpc_channelpack_get_item_ptr_b :: "int \<Rightarrow> nat" where
  "srpc_channelpack_get_item_ptr_b idx =
     offsetof TSC_SuplaChannelPack_B [''items''] + nat idx * sizeof TSC_SuplaChannel_B"

definition srpc_channelpack_get_pack_count_b :: "bytes \<Rightarrow> int" where
  "srpc_channelpack_get_pack_count_b pack = sfield TSC_SuplaChannelPack_B [''count''] pack"

definition srpc_channelpack_set_pack_count_b :: "bytes \<Rightarrow> int \<Rightarrow> bool \<Rightarrow> bytes" where
  "srpc_channelpack_set_pack_count_b pack cnt increment =
     (if \<not> increment then set_field TSC_SuplaChannelPack_B [''count''] (nat (cnt mod 2 ^ 32)) pack
      else set_field TSC_SuplaChannelPack_B [''count''] (nat ((sfield TSC_SuplaChannelPack_B [''count''] pack + cnt) mod 2 ^ 32)) pack)"

definition srpc_channelpack_get_item_caption_size_b :: "bytes \<Rightarrow> nat" where
  "srpc_channelpack_get_item_caption_size_b it = field TSC_SuplaChannel_B [''CaptionSize''] it"

definition srpc_getchannelpack_b :: "heap \<Rightarrow> packet \<Rightarrow> packet \<times> bytes option" where
  "srpc_getchannelpack_b h p =
     srpc_getpack h p (sizeof TSC_SuplaChannelPack_B) (sizeof TSC_SuplaChannel_B) SUPLA_CHANNELPACK_MAXCOUNT
       SUPLA_CHANNEL_CAPTION_MAXSIZE srpc_channelpack_get_pack_count_b srpc_channelpack_set_pack_count_b
       srpc_channelpack_get_item_ptr_b srpc_channelpack_get_item_caption_size_b"

definition srpc_channelpack_get_caption_size_b :: "bytes \<Rightarrow> int \<Rightarrow> nat" where
  "srpc_channelpack_get_caption_size_b pack idx =
     field TSC_SuplaChannel_B [''CaptionSize''] (drop (offsetof TSC_SuplaChannelPack_B [''items''] + nat idx * sizeof TSC_SuplaChannel_B) pack)"

definition srpc_sc_async_channelpack_update_b :: "'u env \<Rightarrow> 'u Tsrpc option \<Rightarrow> bytes \<Rightarrow> 'u Tsrpc option \<times> int" where
  "srpc_sc_async_channelpack_update_b e srpc pack =
     srpc_set_pack e srpc pack (sfield TSC_SuplaChannelPack_B [''count''] pack)
       srpc_channelpack_get_caption_size_b srpc_channelpack_get_item_ptr_b srpc_channelpack_set_pack_count_b
       (sizeof TSC_SuplaChannelPack_B) SUPLA_CHANNELPACK_MAXCOUNT SUPLA_CHANNEL_CAPTION_MAXSIZE (sizeof TSC_SuplaChannel_B)
       SUPLA_SC_CALL_CHANNELPACK_UPDATE_B"

subsection \<open>TSC_SuplaChannelPack_C\<close>

definition srpc_channelpack_get_item_ptr_c :: "int \<Rightarrow> nat" where
  "srpc_channelpack_get_item_ptr_c idx =
     offsetof TSC_SuplaChannelPack_C [''items''] + nat idx * sizeof TSC_SuplaChannel_C"

definition srpc_channelpack_get_pack_count_c :: "bytes \<Rightarrow> int" where
  "srpc_channelpack_get_pack_count_c pack = sfield TSC_SuplaChannelPack_C [''count''] pack"

definition srpc_channelpack_set_pack_count_c :: "bytes \<Rightarrow> int \<Rightarrow> bool \<Rightarrow> bytes" where
  "srpc_channelpack_set_pack_count_c pack cnt increment =
     (if \<not> increment then set_field TSC_SuplaChannelPack_C [''count''] (nat (cnt mod 2 ^ 32)) pack
      else set_field TSC_SuplaChannelPack_C [''count''] (nat ((sfield TSC_SuplaChannelPack_C [''count''] pack + cnt) mod 2 ^ 32)) pack)"

definition srpc_channelpack_get_item_caption_size_c :: "bytes \<Rightarrow> nat" where
  "srpc_channelpack_get_item_caption_size_c it = field TSC_SuplaChannel_C [''CaptionSize''] it"

definition srpc_getchannelpack_c :: "heap \<Rightarrow> packet \<Rightarrow> packet \<times> bytes option" where
  "srpc_getchannelpack_c h p =
     srpc_getpack h p (sizeof TSC_SuplaChannelPack_C) (sizeof TSC_SuplaChannel_C) SUPLA_CHANNELPACK_MAXCOUNT
       SUPLA_CHANNEL_CAPTION_MAXSIZE srpc_channelpack_get_pack_count_c srpc_channelpack_set_pack_count_c
       srpc_channelpack_get_item_ptr_c srpc_channelpack_get_item_caption_size_c"

definition srpc_channelpack_get_caption_size_c :: "bytes \<Rightarrow> int \<Rightarrow> nat" where
  "srpc_channelpack_get_caption_size_c pack idx =
     field TSC_SuplaChannel_C [''CaptionSize''] (drop (offsetof TSC_SuplaChannelPack_C [''items''] + nat idx * sizeof TSC_SuplaChannel_C) pack)"

definition srpc_sc_async_channelpack_update_c :: "'u env \<Rightarrow> 'u Tsrpc option \<Rightarrow> bytes \<Rightarrow> 'u Tsrpc option \<times> int" where
  "srpc_sc_async_channelpack_update_c e srpc pack =
     srpc_set_pack e srpc pack (sfield TSC_SuplaChannelPack_C [''count''] pack)
       srpc_channelpack_get_caption_size_c srpc_channelpack_get_item_ptr_c srpc_channelpack_set_pack_count_c
       (sizeof TSC_SuplaChannelPack_C) SUPLA_CHANNELPACK_MAXCOUNT SUPLA_CHANNEL_CAPTION_MAXSIZE (sizeof TSC_SuplaChannel_C)
       SUPLA_SC_CALL_CHANNELPACK_UPDATE_C"

subsection \<open>TSC_SuplaChannelPack_D\<close>

definition srpc_channelpack_get_item_ptr_d :: "int \<Rightarrow> nat" where
  "srpc_channelpack_get_item_ptr_d idx =
     offsetof TSC_SuplaChannelPack_D [''items''] + nat idx * sizeof TSC_SuplaChannel_D"

definition srpc_channelpack_get_pack_count_d :: "bytes \<Rightarrow> int" where
  "srpc_channelpack_get_pack_count_d pack = sfield TSC_SuplaChannelPack_D [''count''] pack"

definition srpc_channelpack_set_pack_count_d :: "bytes \<Rightarrow> int \<Rightarrow> bool \<Rightarrow> bytes" where
  "srpc_channelpack_set_pack_count_d pack cnt increment =
     (if \<not> increment then set_field TSC_SuplaChannelPack_D [''count''] (nat (cnt mod 2 ^ 32)) pack
      else set_field TSC_SuplaChannelPack_D [''count''] (nat ((sfield TSC_SuplaChannelPack_D [''count''] pack + cnt) mod 2 ^ 32)) pack)"

definition srpc_channelpack_get_item_caption_size_d :: "bytes \<Rightarrow> nat" where
  "srpc_channelpack_get_item_caption_size_d it = field TSC_SuplaChannel_D [''CaptionSize''] it"

definition srpc_getchannelpack_d :: "heap \<Rightarrow> packet \<Rightarrow> packet \<times> bytes option" where
  "srpc_getchannelpack_d h p =
     srpc_getpack h p (sizeof TSC_SuplaChannelPack_D) (sizeof TSC_SuplaChannel_D) SUPLA_CHANNELPACK_MAXCOUNT
       SUPLA_CHANNEL_CAPTION_MAXSIZE srpc_channelpack_get_pack_count_d srpc_channelpack_set_pack_count_d
       srpc_channelpack_get_item_ptr_d srpc_channelpack_get_item_caption_size_d"

definition srpc_channelpack_get_caption_size_d :: "bytes \<Rightarrow> int \<Rightarrow> nat" where
  "srpc_channelpack_get_caption_size_d pack idx =
     field TSC_SuplaChannel_D [''CaptionSize''] (drop (offsetof TSC_SuplaChannelPack_D [''items''] + nat idx * sizeof TSC_SuplaChannel_D) pack)"

definition srpc_sc_async_channelpack_update_d :: "'u env \<Rightarrow> 'u Tsrpc option \<Rightarrow> bytes \<Rightarrow> 'u Tsrpc option \<times> int" where
  "srpc_sc_async_channelpack_update_d e srpc pack =
     srpc_set_pack e srpc pack (sfield TSC_SuplaChannelPack_D [''count''] pack)
       srpc_channelpack_get_caption_size_d srpc_channelpack_get_item_ptr_d srpc_channelpack_set_pack_count_d
       (sizeof TSC_SuplaChannelPack_D) SUPLA_CHANNELPACK_MAXCOUNT SUPLA_CHANNEL_CAPTION_MAXSIZE (sizeof TSC_SuplaChannel_D)
       SUPLA_SC_CALL_CHANNELPACK_UPDATE_D"

subsection \<open>TSC_SuplaChannelPack_E\<close>

definition srpc_channelpack_get_item_ptr_e :: "int \<Rightarrow> nat" where
  "srpc_channelpack_get_item_ptr_e idx =
     offsetof TSC_SuplaChannelPack_E [''items''] + nat idx * sizeof TSC_SuplaChannel_E"

definition srpc_channelpack_get_pack_count_e :: "bytes \<Rightarrow> int" where
  "srpc_channelpack_get_pack_count_e pack = sfield TSC_SuplaChannelPack_E [''count''] pack"

definition srpc_channelpack_set_pack_count_e :: "bytes \<Rightarrow> int \<Rightarrow> bool \<Rightarrow> bytes" where
  "srpc_channelpack_set_pack_count_e pack cnt increment =
     (if \<not> increment then set_field TSC_SuplaChannelPack_E [''count''] (nat (cnt mod 2 ^ 32)) pack
      else set_field TSC_SuplaChannelPack_E [''count''] (nat ((sfield TSC_SuplaChannelPack_E [''count''] pack + cnt) mod 2 ^ 32)) pack)"

definition srpc_channelpack_get_item_caption_size_e :: "bytes \<Rightarrow> nat" where
  "srpc_channelpack_get_item_caption_size_e it = field TSC_SuplaChannel_E [''CaptionSize''] it"

definition srpc_getchannelpack_e :: "heap \<Rightarrow> packet \<Rightarrow> packet \<times> bytes option" where
  "srpc_getchannelpack_e h p =
     srpc_getpack h p (sizeof TSC_SuplaChannelPack_E) (sizeof TSC_SuplaChannel_E) SUPLA_CHANNELPACK_MAXCOUNT
       SUPLA_CHANNEL_CAPTION_MAXSIZE srpc_channelpack_get_pack_count_e srpc_channelpack_set_pack_count_e
       srpc_channelpack_get_item_ptr_e srpc_channelpack_get_item_caption_size_e"

definition srpc_channelpack_get_caption_size_e :: "bytes \<Rightarrow> int \<Rightarrow> nat" where
  "srpc_channelpack_get_caption_size_e pack idx =
     field TSC_SuplaChannel_E [''CaptionSize''] (drop (offsetof TSC_SuplaChannelPack_E [''items''] + nat idx * sizeof TSC_SuplaChannel_E) pack)"

definition srpc_sc_async_channelpack_update_e :: "'u env \<Rightarrow> 'u Tsrpc option \<Rightarrow> bytes \<Rightarrow> 'u Tsrpc option \<times> int" where
  "srpc_sc_async_channelpack_update_e e srpc pack =
     srpc_set_pack e srpc pack (sfield TSC_SuplaChannelPack_E [''count''] pack)
       srpc_channelpack_get_caption_size_e srpc_channelpack_get_item_ptr_e srpc_channelpack_set_pack_count_e
       (sizeof TSC_SuplaChannelPack_E) SUPLA_CHANNELPACK_MAXCOUNT SUPLA_CHANNEL_CAPTION_MAXSIZE (sizeof TSC_SuplaChannel_E)
       SUPLA_SC_CALL_CHANNELPACK_UPDATE_E"

subsection \<open>TSC_SuplaChannelGroupPack\<close>

definition srpc_channelgroup_pack_get_item_ptr :: "int \<Rightarrow> nat" where
  "srpc_channelgroup_pack_get_item_ptr idx =
     offsetof TSC_SuplaChannelGroupPack [''items''] + nat idx * sizeof TSC_SuplaChannelGroup"

definition srpc_channelgroup_pack_get_pack_count :: "bytes \<Rightarrow> int" where
  "srpc_channelgroup_pack_get_pack_count pack = sfield TSC_SuplaChannelGroupPack [''count''] pack"

definition srpc_channelgroup_pack_set_pack_count :: "bytes \<Rightarrow> int \<Rightarrow> bool \<Rightarrow> bytes" where
  "srpc_channelgroup_pack_set_pack_count pack cnt increment =
     (if \<not> increment then set_field TSC_SuplaChannelGroupPack [''count''] (nat (cnt mod 2 ^ 32)) pack
      else set_field TSC_SuplaChannelGroupPack [''count''] (nat ((sfield TSC_SuplaChannelGroupPack [''count''] pack + cnt) mod 2 ^ 32)) pack)"

definition srpc_channelgroup_pack_get_item_caption_size :: "bytes \<Rightarrow> nat" where
  "srpc_channelgroup_pack_get_item_caption_size it = field TSC_SuplaChannelGroup [''CaptionSize''] it"

definition srpc_getchannelgroup_pack :: "heap \<Rightarrow> packet \<Rightarrow> packet \<times> bytes option" where
  "srpc_getchannelgroup_pack h p =
     srpc_getpack h p (sizeof TSC_SuplaChannelGroupPack) (sizeof TSC_SuplaChannelGroup) SUPLA_CHANNELGROUP_PACK_MAXCOUNT
       SUPLA_CHANNELGROUP_CAPTION_MAXSIZE srpc_channelgroup_pack_get_pack_count srpc_channelgroup_pack_set_pack_count
       srpc_channelgroup_pack_get_item_ptr srpc_channelgroup_pack_get_item_caption_size"

definition srpc_channelgroup_pack_get_caption_size :: "bytes \<Rightarrow> int \<Rightarrow> nat" where
  "srpc_channelgroup_pack_get_caption_size pack idx =
     field TSC_SuplaChannelGroup [''CaptionSize''] (drop (offsetof TSC_SuplaChannelGroupPack [''items''] + nat idx * sizeof TSC_SuplaChannelGroup) pack)"

definition srpc_sc_async_channelgroup_pack_update :: "'u env \<Rightarrow> 'u Tsrpc option \<Rightarrow> bytes \<Rightarrow> 'u Tsrpc option \<times> int" where
  "srpc_sc_async_channelgroup_pack_update e srpc pack =
     srpc_set_pack e srpc pack (sfield TSC_SuplaChannelGroupPack [''count''] pack)
       srpc_channelgroup_pack_get_caption_size srpc_channelgroup_pack_get_item_ptr srpc_channelgroup_pack_set_pack_count
       (sizeof TSC_SuplaChannelGroupPack) SUPLA_CHANNELGROUP_PACK_MAXCOUNT SUPLA_CHANNELGROUP_CAPTION_MAXSIZE (sizeof TSC_SuplaChannelGroup)
       SUPLA_SC_CALL_CHANNELGROUP_PACK_UPDATE"

subsection \<open>TSC_SuplaChannelGroupPack_B\<close>

definition srpc_channelgroup_pack_b_get_item_ptr :: "int \<Rightarrow> nat" where
  "srpc_channelgroup_pack_b_get_item_ptr idx =
     offsetof TSC_SuplaChannelGroupPack_B [''items''] + nat idx * sizeof TSC_SuplaChannelGroup_B"

definition srpc_channelgroup_pack_b_get_pack_count :: "bytes \<Rightarrow> int" where
  "srpc_channelgroup_pack_b_get_pack_count pack = sfield TSC_SuplaChannelGroupPack_B [''count''] pack"

definition srpc_channelgroup_pack_b_set_pack_count :: "bytes \<Rightarrow> int \<Rightarrow> bool \<Rightarrow> bytes" where
  "srpc_channelgroup_pack_b_set_pack_count pack cnt increment =
     (if \<not> increment then set_field TSC_SuplaChannelGroupPack_B [''count''] (nat (cnt mod 2 ^ 32)) pack
      else set_field TSC_SuplaChannelGroupPack_B [''count''] (nat ((sfield TSC_SuplaChannelGroupPack_B [''count''] pack + cnt) mod 2 ^ 32)) pack)"

definition srpc_channelgroup_pack_b_get_item_caption_size :: "bytes \<Rightarrow> nat" where
  "srpc_channelgroup_pack_b_get_item_caption_size it = field TSC_SuplaChannelGroup_B [''CaptionSize''] it"

definition srpc_getchannelgroup_pack_b :: "heap \<Rightarrow> packet \<Rightarrow> packet \<times> bytes option" where
  "srpc_getchannelgroup_pack_b h p =
     srpc_getpack h p (sizeof TSC_SuplaChannelGroupPack_B) (sizeof TSC_SuplaChannelGroup_B) SUPLA_CHANNELGROUP_PACK_MAXCOUNT
       SUPLA_CHANNELGROUP_CAPTION_MAXSIZE srpc_channelgroup_pack_b_get_pack_count srpc_channelgroup_pack_b_set_pack_count
       srpc_channelgroup_pack_b_get_item_ptr srpc_channelgroup_pack_b_get_item_caption_size"

definition srpc_channelgroup_pack_b_get_caption_size :: "bytes \<Rightarrow> int \<Rightarrow> nat" where
  "srpc_channelgroup_pack_b_get_caption_size pack idx =
     field TSC_SuplaChannelGroup_B [''CaptionSize''] (drop (offsetof TSC_SuplaChannelGroupPack_B [''items''] + nat idx * sizeof TSC_SuplaChannelGroup_B) pack)"

definition srpc_sc_async_channelgroup_pack_update_b :: "'u env \<Rightarrow> 'u Tsrpc option \<Rightarrow> bytes \<Rightarrow> 'u Tsrpc option \<times> int" where
  "srpc_sc_async_channelgroup_pack_update_b e srpc pack =
     srpc_set_pack e srpc pack (sfield TSC_SuplaChannelGroupPack_B [''count''] pack)
       srpc_channelgroup_pack_b_get_caption_size srpc_channelgroup_pack_b_get_item_ptr srpc_channelgroup_pack_b_set_pack_count
       (sizeof TSC_SuplaChannelGroupPack_B) SUPLA_CHANNELGROUP_PACK_MAXCOUNT SUPLA_CHANNELGROUP_CAPTION_MAXSIZE (sizeof TSC_SuplaChannelGroup_B)
       SUPLA_SC_CALL_CHANNELGROUP_PACK_UPDATE_B"

subsection \<open>TSC_SuplaLocationPack\<close>

definition srpc_locationpack_get_item_ptr :: "int \<Rightarrow> nat" where
  "srpc_locationpack_get_item_ptr idx =
     offsetof TSC_SuplaLocationPack [''items''] + nat idx * sizeof TSC_SuplaLocation"

definition srpc_locationpack_get_pack_count :: "bytes \<Rightarrow> int" where
  "srpc_locationpack_get_pack_count pack = sfield TSC_SuplaLocationPack [''count''] pack"

definition srpc_locationpack_set_pack_count :: "bytes \<Rightarrow> int \<Rightarrow> bool \<Rightarrow> bytes" where
  "srpc_locationpack_set_pack_count pack cnt increment =
     (if \<not> increment then set_field TSC_SuplaLocationPack [''count''] (nat (cnt mod 2 ^ 32)) pack
      else set_field TSC_SuplaLocationPack [''count''] (nat ((sfield TSC_SuplaLocationPack [''count''] pack + cnt) mod 2 ^ 32)) pack)"

definition srpc_locationpack_get_item_caption_size :: "bytes \<Rightarrow> nat" where
  "srpc_locationpack_get_item_caption_size it = field TSC_SuplaLocation [''CaptionSize''] it"

definition srpc_getlocationpack :: "heap \<Rightarrow> packet \<Rightarrow> packet \<times> bytes option" where
  "srpc_getlocationpack h p =
     srpc_getpack h p (sizeof TSC_SuplaLocationPack) (sizeof TSC_SuplaLocation) SUPLA_LOCATIONPACK_MAXCOUNT
       SUPLA_LOCATION_CAPTION_MAXSIZE srpc_locationpack_get_pack_count srpc_locationpack_set_pack_count
       srpc_locationpack_get_item_ptr srpc_locationpack_get_item_caption_size"

definition srpc_locationpack_get_caption_size :: "bytes \<Rightarrow> int \<Rightarrow> nat" where
  "srpc_locationpack_get_caption_size pack idx =
     field TSC_SuplaLocation [''CaptionSize''] (drop (offsetof TSC_SuplaLocationPack [''items''] + nat idx * sizeof TSC_SuplaLocation) pack)"

definition srpc_sc_async_locationpack_update :: "'u env \<Rightarrow> 'u Tsrpc option \<Rightarrow> bytes \<Rightarrow> 'u Tsrpc option \<times> int" where
  "srpc_sc_async_locationpack_update e srpc pack =
     srpc_set_pack e srpc pack (sfield TSC_SuplaLocationPack [''count''] pack)
       srpc_locationpack_get_caption_size srpc_locationpack_get_item_ptr srpc_locationpack_set_pack_count
       (sizeof TSC_SuplaLocationPack) SUPLA_LOCATIONPACK_MAXCOUNT SUPLA_LOCATION_CAPTION_MAXSIZE (sizeof TSC_SuplaLocation)
       SUPLA_SC_CALL_LOCATIONPACK_UPDATE"

subsection \<open>TSC_SuplaScenePack\<close>

definition srpc_scenepack_get_item_ptr :: "int \<Rightarrow> nat" where
  "srpc_scenepack_get_item_ptr idx =
     offsetof TSC_SuplaScenePack [''items''] + nat idx * sizeof TSC_SuplaScene"

definition srpc_scenepack_get_pack_count :: "bytes \<Rightarrow> int" where
  "srpc_scenepack_get_pack_count pack = sfield TSC_SuplaScenePack [''count''] pack"

definition srpc_scenepack_set_pack_count :: "bytes \<Rightarrow> int \<Rightarrow> bool \<Rightarrow> bytes" where
  "srpc_scenepack_set_pack_count pack cnt increment =
     (if \<not> increment then set_field TSC_SuplaScenePack [''count''] (nat (cnt mod 2 ^ 32)) pack
      else set_field TSC_SuplaScenePack [''count''] (nat ((sfield TSC_SuplaScenePack [''count''] pack + cnt) mod 2 ^ 32)) pack)"

definition srpc_scenepack_get_item_caption_size :: "bytes \<Rightarrow> nat" where
  "srpc_scenepack_get_item_caption_size it = field TSC_SuplaScene [''CaptionSize''] it"

definition srpc_get_scene_pack :: "heap \<Rightarrow> packet \<Rightarrow> packet \<times> bytes option" where
  "srpc_get_scene_pack h p =
     srpc_getpack h p (sizeof TSC_SuplaScenePack) (sizeof TSC_SuplaScene) SUPLA_SCENE_PACK_MAXCOUNT
       SUPLA_SCENE_CAPTION_MAXSIZE srpc_scenepack_get_pack_count srpc_scenepack_set_pack_count
       srpc_scenepack_get_item_ptr srpc_scenepack_get_item_caption_size"

definition srpc_scenepack_get_caption_size :: "bytes \<Rightarrow> int \<Rightarrow> nat" where
  "srpc_scenepack_get_caption_size pack idx =
     field TSC_SuplaScene [''CaptionSize''] (drop (offsetof TSC_SuplaScenePack [''items''] + nat idx * sizeof TSC_SuplaScene) pack)"

definition srpc_sc_async_scene_pack_update :: "'u env \<Rightarrow> 'u Tsrpc option \<Rightarrow> bytes \<Rightarrow> 'u Tsrpc option \<times> int" where
  "srpc_sc_async_scene_pack_update e srpc pack =
     srpc_set_pack e srpc pack (sfield TSC_SuplaScenePack [''count''] pack)
       srpc_scenepack_get_caption_size srpc_scenepack_get_item_ptr srpc_scenepack_set_pack_count
       (sizeof TSC_SuplaScenePack) SUPLA_SCENE_PACK_MAXCOUNT SUPLA_SCENE_CAPTION_MAXSIZE (sizeof TSC_SuplaScene)
       SUPLA_SC_CALL_SCENE_PACK_UPDATE"

subsection \<open>TSC_SuplaSceneStatePack\<close>

definition srpc_scenestatepack_get_item_ptr :: "int \<Rightarrow> nat" where
  "srpc_scenestatepack_get_item_ptr idx =
     offsetof TSC_SuplaSceneStatePack [''items''] + nat idx * sizeof TSC_SuplaSceneState"

definition srpc_scenestatepack_get_pack_count :: "bytes \<Rightarrow> int" where
  "srpc_scenestatepack_get_pack_count pack = sfield TSC_SuplaSceneStatePack [''count''] pack"

definition srpc_scenestatepack_set_pack_count :: "bytes \<Rightarrow> int \<Rightarrow> bool \<Rightarrow> bytes" where
  "srpc_scenestatepack_set_pack_count pack cnt increment =
     (if \<not> increment then set_field TSC_SuplaSceneStatePack [''count''] (nat (cnt mod 2 ^ 32)) pack
      else set_field TSC_SuplaSceneStatePack [''count''] (nat ((sfield TSC_SuplaSceneStatePack [''count''] pack + cnt) mod 2 ^ 32)) pack)"

definition srpc_scenestatepack_get_item_initiatorname_size :: "bytes \<Rightarrow> nat" where
  "srpc_scenestatepack_get_item_initiatorname_size it = field TSC_SuplaSceneState [''InitiatorNameSize''] it"

definition srpc_get_scene_state_pack :: "heap \<Rightarrow> packet \<Rightarrow> packet \<times> bytes option" where
  "srpc_get_scene_state_pack h p =
     srpc_getpack h p (sizeof TSC_SuplaSceneStatePack) (sizeof TSC_SuplaSceneState) SUPLA_SCENE_STATE_PACK_MAXCOUNT
       SUPLA_INITIATOR_NAME_MAXSIZE srpc_scenestatepack_get_pack_count srpc_scenestatepack_set_pack_count
       srpc_scenestatepack_get_item_ptr srpc_scenestatepack_get_item_initiatorname_size"

definition srpc_scenestatepack_get_initiatorname_size :: "bytes \<Rightarrow> int \<Rightarrow> nat" where
  "srpc_scenestatepack_get_initiatorname_size pack idx =
     field TSC_SuplaSceneState [''InitiatorNameSize''] (drop (offsetof TSC_SuplaSceneStatePack [''items''] + nat idx * sizeof TSC_SuplaSceneState) pack)"

definition srpc_sc_async_scene_state_pack_update :: "'u env \<Rightarrow> 'u Tsrpc option \<Rightarrow> bytes \<Rightarrow> 'u Tsrpc option \<times> int" where
  "srpc_sc_async_scene_state_pack_update e srpc pack =
     srpc_set_pack e srpc pack (sfield TSC_SuplaSceneStatePack [''count''] pack)
       srpc_scenestatepack_get_initiatorname_size srpc_scenestatepack_get_item_ptr srpc_scenestatepack_set_pack_count
       (sizeof TSC_SuplaSceneStatePack) SUPLA_SCENE_STATE_PACK_MAXCOUNT SUPLA_INITIATOR_NAME_MAXSIZE (sizeof TSC_SuplaSceneState)
       SUPLA_SC_CALL_SCENE_STATE_PACK_UPDATE"

section \<open>The contract of a family\<close>

text \<open>\<open>pad\<close>: an item as it stands in memory, the unused caption zeroed.\<close>

definition pad :: "nat \<Rightarrow> bytes \<Rightarrow> bytes" where
  "pad n it = it @ replicate (n - length it) 0"

definition wire_item :: "nat \<Rightarrow> nat \<Rightarrow> (bytes \<Rightarrow> nat) \<Rightarrow> bytes \<Rightarrow> bool" where
  "wire_item c_header caption_max caption_size it \<longleftrightarrow>
     length it = c_header + caption_size it \<and> caption_size it \<le> caption_max"

locale wire_pack =
  fixes pack_sizeof item_sizeof max_count caption_max :: nat
    and get_count :: "bytes \<Rightarrow> int"
    and set_count :: "bytes \<Rightarrow> int \<Rightarrow> bool \<Rightarrow> bytes"
    and item_ptr :: "int \<Rightarrow> nat"
    and caption_size :: "bytes \<Rightarrow> nat"
    and pack_caption_size :: "bytes \<Rightarrow> int \<Rightarrow> nat"
    and header c_header :: nat
  assumes sizes: "pack_sizeof = header + item_sizeof * max_count" "item_sizeof = c_header + caption_max"
      "caption_max < 2 ^ 31" "max_count < 2 ^ 31" "0 < c_header"
    and ptr: "item_ptr (int a) = header + a * item_sizeof"
    and pack_caption: "pack_caption_size p (int a) = caption_size (drop (header + a * item_sizeof) p)"
    and set_length: "header \<le> length p \<Longrightarrow> length (set_count p n inc) = length p"
    and set_tail: "header \<le> length p \<Longrightarrow> drop header (set_count p n inc) = drop header p"
    and get_set: "\<lbrakk>header \<le> length p; 0 \<le> n; n < 2 ^ 31\<rbrakk> \<Longrightarrow> get_count (set_count p n False) = n"
    and get_inc: "\<lbrakk>header \<le> length p; 0 \<le> get_count p; get_count p < 2 ^ 31 - 1\<rbrakk> \<Longrightarrow>
      get_count (set_count p 1 True) = get_count p + 1"
    and get_local: "\<lbrakk>header \<le> length p; header \<le> length q; take header p = take header q\<rbrakk> \<Longrightarrow> get_count p = get_count q"
    and caption_local: "\<lbrakk>c_header \<le> length x\<rbrakk> \<Longrightarrow> caption_size (x @ y) = caption_size x"
begin

abbreviation expand :: "bytes \<Rightarrow> nat \<Rightarrow> nat \<Rightarrow> nat \<Rightarrow> nat \<Rightarrow> bytes \<Rightarrow> bytes" where
  "expand data ds a n off pack \<equiv>
     getpack_loop data ds c_header caption_max set_count item_ptr caption_size a n off pack"

lemma c_header_eq: "item_sizeof - caption_max = c_header" "pack_sizeof - item_sizeof * max_count = header"
  using sizes by simp_all

text \<open>The loop never writes outside the block: a copy out of range would change its length.\<close>

lemma expand_length:
  "\<lbrakk>length pack = header + item_sizeof * n; a \<le> n\<rbrakk> \<Longrightarrow> length (expand data ds a n off pack) = length pack"
proof (induction "n - a" arbitrary: a off pack)
  case 0
  then show ?case by (subst getpack_loop.simps) simp
next
  case (Suc k)
  let ?s = "c_int (caption_size (drop off data))"
  let ?n = "c_header + nat ?s"
  let ?p = "overlay (item_ptr (int a)) (seg off ?n data) pack"
  have an: "a < n" using Suc.hyps(2) by simp
  show ?case
  proof (cases "ds - off \<ge> c_header \<and> ?s \<ge> 0 \<and> ?s \<le> int caption_max \<and> ds - off \<ge> ?n")
    case True
    have "nat ?s \<le> caption_max" using True by (simp add: nat_le_iff)
    then have "length (seg off ?n data) \<le> item_sizeof" using sizes by (simp add: min.coboundedI1)
    moreover have "a * item_sizeof + item_sizeof \<le> n * item_sizeof"
      using mult_le_mono1 [of "Suc a" n item_sizeof] an by simp
    ultimately have lp: "length ?p = length pack"
      using Suc.prems(1) by (intro length_overlay) (simp add: ptr mult.commute)
    then have "length (set_count ?p 1 True) = length pack"
      using Suc.prems(1) by (simp add: set_length)
    then show ?thesis
      using Suc.hyps(1) [of "Suc a" "set_count ?p 1 True" "off + ?n"] Suc.hyps(2) Suc.prems an True
      by (subst getpack_loop.simps) (simp add: Let_def)
  next
    case False
    then show ?thesis
      using Suc.hyps(1) [of "Suc a" pack off] Suc.hyps(2) Suc.prems an
      by (subst getpack_loop.simps) (auto simp: Let_def)
  qed
qed

text \<open>On well-formed wire items the loop reconstructs every item in its slot.\<close>

lemma expand_items:
  "\<lbrakk>data = pre @ concat its @ post; off = length pre; ds = length (pre @ concat its);
    list_all (wire_item c_header caption_max caption_size) its; n = a + length its;
    pack = hd0 @ concat (map (pad item_sizeof) done) @ replicate (item_sizeof * length its) 0;
    length hd0 = header; length done = a; list_all (\<lambda>x. length x \<le> item_sizeof) done;
    get_count hd0 = int a; n \<le> max_count\<rbrakk> \<Longrightarrow>
   \<exists>hd1. expand data ds a n off pack = hd1 @ concat (map (pad item_sizeof) (done @ its)) \<and>
     length hd1 = header \<and> get_count hd1 = int n"
proof (induction its arbitrary: pre off a hd0 "done" pack)
  case Nil
  then show ?case by (subst getpack_loop.simps) auto
next
  case (Cons it its)
  let ?P = "concat (map (pad item_sizeof) done)"
  have wi: "wire_item c_header caption_max caption_size it"
    "list_all (wire_item c_header caption_max caption_size) its" using Cons.prems(4) by simp_all
  note w = wi(1) [unfolded wire_item_def, THEN conjunct1] wi(1) [unfolded wire_item_def, THEN conjunct2] wi(2)
  have lp: "length ?P = a * item_sizeof"
    using Cons.prems(8,9) by (induction "done" arbitrary: a) (auto simp: pad_def)
  define x where "x = concat its @ post"
  have d: "drop off data = it @ x" using Cons.prems(1,2) by (simp add: x_def)
  have sz: "c_int (caption_size (drop off data)) = int (caption_size it)"
    using w sizes by (simp add: d caption_local c_int_small)
  have sg: "seg off (c_header + caption_size it) data = it" by (simp add: seg_def d w(1))
  define Z where "Z = replicate (item_sizeof - length it) (0::u8) @ replicate (item_sizeof * length its) 0"
  have le: "length it \<le> item_sizeof" using w sizes by simp
  have pk: "pack = (hd0 @ ?P) @ replicate (length it) 0 @ Z"
    using le Cons.prems(6)
    by (simp add: Z_def replicate_add [symmetric] algebra_simps)
  have ov: "overlay (item_ptr (int a)) it pack = (hd0 @ ?P) @ it @ Z"
    using Cons.prems(7) lp by (simp add: pk overlay_def ptr)
  define hd1 where "hd1 = take header (set_count ((hd0 @ ?P) @ it @ Z) 1 True)"
  have len: "header \<le> length ((hd0 @ ?P) @ it @ Z)" using Cons.prems(7) by simp
  have sc: "set_count ((hd0 @ ?P) @ it @ Z) 1 True = hd1 @ ?P @ it @ Z"
  proof -
    have "drop header (set_count ((hd0 @ ?P) @ it @ Z) 1 True) = ?P @ it @ Z"
      using set_tail [OF len] Cons.prems(7) by simp
    then show ?thesis by (metis append_take_drop_id hd1_def)
  qed
  have l1: "length hd1 = header" using set_length [OF len] len by (simp add: hd1_def)
  have gc: "get_count ((hd0 @ ?P) @ it @ Z) = int a"
    using get_local [OF len, of hd0] Cons.prems(7,10) by simp
  have "get_count (set_count ((hd0 @ ?P) @ it @ Z) 1 True) = int a + 1"
    using get_inc [OF len] gc Cons.prems(5,11) sizes(4) by simp
  then have g1: "get_count hd1 = int (Suc a)"
    using get_local [of hd1 "hd1 @ ?P @ it @ Z"] l1 unfolding sc by simp
  have step: "expand data ds a n off pack =
      expand data ds (Suc a) n (off + (c_header + caption_size it)) (hd1 @ ?P @ it @ Z)"
    using Cons.prems(2,3,5) w sz sg ov sc by (subst getpack_loop.simps) (simp add: Let_def)
  have pi: "pad item_sizeof it = it @ replicate (item_sizeof - length it) 0" by (simp add: pad_def)
  have "\<exists>hd2. expand data ds (Suc a) n (off + (c_header + caption_size it)) (hd1 @ ?P @ it @ Z) =
      hd2 @ concat (map (pad item_sizeof) ((done @ [it]) @ its)) \<and> length hd2 = header \<and> get_count hd2 = int n"
    by (rule Cons.IH [of "pre @ it"])
      (use Cons.prems w l1 g1 le in \<open>simp_all add: Z_def pi\<close>)
  with step show ?case by simp
qed

abbreviation receive :: "heap \<Rightarrow> packet \<Rightarrow> packet \<times> bytes option" where
  "receive h p \<equiv> srpc_getpack h p pack_sizeof item_sizeof max_count caption_max get_count set_count item_ptr caption_size"

lemma concat_wire_length:
  "list_all (wire_item c_header caption_max caption_size) its \<Longrightarrow> length (concat its) \<le> item_sizeof * length its"
  using sizes by (induction its) (auto simp: wire_item_def)

lemma receive_wire:
  assumes d: "sdp_data p = hd0 @ concat its @ post" and h0: "length hd0 = header" "get_count hd0 = int (length its)"
    and n: "length its \<le> max_count" and w: "list_all (wire_item c_header caption_max caption_size) its"
    and ds: "unat (sdp_data_size p) = header + length (concat its)"
    and ok: "heap_ok h (header + item_sizeof * length its)"
  shows "\<exists>hd1. receive h p = (p\<lparr>sdp_data_size := 0\<rparr>, Some (hd1 @ concat (map (pad item_sizeof) its))) \<and>
    length hd1 = header \<and> get_count hd1 = int (length its)"
proof -
  have gc: "get_count (sdp_data p) = int (length its)"
    using get_local [of "sdp_data p" hd0] h0 by (simp add: d)
  have le: "unat (sdp_data_size p) \<le> pack_sizeof"
    using order_trans [OF concat_wire_length [OF w] mult_le_mono2 [OF n]] ds sizes(1) by simp
  define Z where "Z = replicate (item_sizeof * length its) (0 :: u8)"
  have o: "overlay 0 (take header (sdp_data p)) (replicate (header + item_sizeof * length its) 0) = hd0 @ Z"
    using h0(1) by (simp add: d overlay_0 Z_def)
  define hd1 where "hd1 = take header (set_count (hd0 @ Z) 0 False)"
  have len: "header \<le> length (hd0 @ Z)" using h0 by simp
  have sc: "set_count (hd0 @ Z) 0 False = hd1 @ Z"
  proof -
    have "drop header (set_count (hd0 @ Z) 0 False) = Z" using set_tail [OF len] h0(1) by simp
    then show ?thesis by (metis append_take_drop_id hd1_def)
  qed
  have l1: "length hd1 = header" using set_length [OF len] len by (simp add: hd1_def)
  have "get_count (set_count (hd0 @ Z) 0 False) = 0" using get_set [OF len] by simp
  then have g1: "get_count hd1 = int 0" using get_local [of hd1 "hd1 @ Z"] l1 unfolding sc by simp
  have "\<exists>hd2. expand (sdp_data p) (unat (sdp_data_size p)) 0 (length its) header (hd1 @ Z) =
      hd2 @ concat (map (pad item_sizeof) ([] @ its)) \<and> length hd2 = header \<and> get_count hd2 = int (length its)"
    by (rule expand_items [where pre = hd0 and post = post and ?hd0.0 = hd1]) (use d h0 ds w l1 g1 n in \<open>simp_all add: Z_def\<close>)
  then obtain hd2 where e: "expand (sdp_data p) (unat (sdp_data_size p)) 0 (length its) header (hd1 @ Z) =
      hd2 @ concat (map (pad item_sizeof) its)" "length hd2 = header" "get_count hd2 = int (length its)" by auto
  have "get_count (hd2 @ concat (map (pad item_sizeof) its)) = int (length its)"
    using get_local [of "hd2 @ concat (map (pad item_sizeof) its)" hd2] e(2,3) by simp
  then have "receive h p = (p\<lparr>sdp_data_size := 0\<rparr>, Some (hd2 @ concat (map (pad item_sizeof) its)))"
    using gc le ds n ok o sc e(1)
    by (simp add: srpc_getpack_def c_header_eq Let_def calloc_def not_less)
  with e show ?thesis by blast
qed

lemma receive_safe:
  assumes "receive h p = (p', Some pack)" "header \<le> length (sdp_data p)"
  shows "length pack = header + item_sizeof * nat (get_count pack)" "0 \<le> get_count pack"
    "get_count pack \<le> int max_count" "sdp_data_size p' = 0"
proof -
  let ?n = "nat (get_count (sdp_data p))"
  define x where "x = set_count (overlay 0 (take header (sdp_data p)) (replicate (header + item_sizeof * ?n) 0)) 0 False"
  have l: "length x = header + item_sizeof * ?n"
    using assms(2) by (simp add: x_def set_length length_overlay)
  have r: "0 \<le> get_count (sdp_data p)" "get_count (sdp_data p) \<le> int max_count"
    "pack = expand (sdp_data p) (unat (sdp_data_size p)) 0 ?n header x" "get_count (sdp_data p) = get_count pack"
    "p' = p\<lparr>sdp_data_size := 0\<rparr>"
    using assms(1) by (auto simp: srpc_getpack_def c_header_eq Let_def calloc_def x_def split: if_splits)
  have "length pack = length x" unfolding r(3) using expand_length [OF l, of 0] by simp
  then show "length pack = header + item_sizeof * nat (get_count pack)" using l r(4) by simp
  show "0 \<le> get_count pack" "get_count pack \<le> int max_count" using r(1,2) unfolding r(4) by simp_all
  show "sdp_data_size p' = 0" using r(5) by simp
qed

text \<open>The items of a pack in memory, and the wire form of an item.\<close>

definition slot :: "bytes \<Rightarrow> nat \<Rightarrow> bytes" where
  "slot p a = seg (header + a * item_sizeof) item_sizeof p"

definition squeeze :: "bytes \<Rightarrow> bytes" where
  "squeeze it = take (c_header + caption_size it) it"

definition sendable :: "bytes \<Rightarrow> nat \<Rightarrow> bytes list" where
  "sendable p n = map squeeze (filter (\<lambda>it. caption_size it \<le> caption_max) (map (slot p) [0..<n]))"

lemma slot_caption:
  assumes "header + Suc a * item_sizeof \<le> length p"
  shows "pack_caption_size p (int a) = caption_size (slot p a)" "length (slot p a) = item_sizeof"
proof -
  show l: "length (slot p a) = item_sizeof" using assms by (simp add: slot_def)
  have "drop (header + a * item_sizeof) p = slot p a @ drop item_sizeof (drop (header + a * item_sizeof) p)"
    by (simp only: slot_def seg_def append_take_drop_id)
  then show "pack_caption_size p (int a) = caption_size (slot p a)"
    using caption_local [of "slot p a"] l sizes(2) by (metis pack_caption le_add1)
qed

lemma squeeze_wire:
  assumes "length it = item_sizeof" "caption_size it \<le> caption_max"
  shows "wire_item c_header caption_max caption_size (squeeze it)" "length (squeeze it) = c_header + caption_size it"
proof -
  show l: "length (squeeze it) = c_header + caption_size it" using assms sizes(2) by (simp add: squeeze_def)
  have "it = squeeze it @ drop (c_header + caption_size it) it" by (simp add: squeeze_def)
  then have "caption_size it = caption_size (squeeze it)" using caption_local [of "squeeze it"] l by (metis le_add1)
  then show "wire_item c_header caption_max caption_size (squeeze it)" using l assms(2) by (simp add: wire_item_def)
qed

lemma squeeze_loop:
  assumes "heap_ok h = (\<lambda>_. True)" "header + n * item_sizeof \<le> length p"
  shows "\<lbrakk>a \<le> n; length buf = sz; ws = map squeeze (filter (\<lambda>it. caption_size it \<le> caption_max) (map (slot p) [a..<n]))\<rbrakk> \<Longrightarrow>
    set_pack_loop h p pack_caption_size item_ptr caption_max item_sizeof a n sz k buf =
      Some (buf @ concat ws, sz + length (concat ws), k + length ws)"
proof (induction "n - a" arbitrary: a sz k buf ws)
  case 0
  then show ?case by (subst set_pack_loop.simps) simp
next
  case (Suc m)
  have an: "a < n" using Suc.hyps(2) by simp
  have fit: "header + Suc a * item_sizeof \<le> length p"
    using mult_le_mono1 [of "Suc a" n item_sizeof] an assms(2) by (simp add: Suc_le_eq)
  note sl = slot_caption [OF fit]
  have up: "[a..<n] = a # [Suc a..<n]" by (rule upt_conv_Cons [OF an])
  let ?ws = "map squeeze (filter (\<lambda>it. caption_size it \<le> caption_max) (map (slot p) [Suc a..<n]))"
  show ?case
  proof (cases "caption_size (slot p a) \<le> caption_max")
    case True
    let ?q = "squeeze (slot p a)"
    let ?sz = "sz + (item_sizeof - caption_max + pack_caption_size p (int a))"
    have lq: "length ?q = c_header + caption_size (slot p a)" by (rule squeeze_wire(2) [OF sl(2) True])
    have szq: "?sz = sz + length ?q" using sizes(2) sl(1) lq by simp
    have k: "c_header + caption_size (slot p a) \<le> item_sizeof" using True sizes(2) by simp
    have "seg (item_ptr (int a)) (length ?q) p = take (length ?q) (slot p a)"
      using k lq by (simp add: slot_def seg_def ptr min_absorb1)
    then have sg: "seg (item_ptr (int a)) (?sz - sz) p = ?q" using lq by (simp add: szq squeeze_def)
    obtain nb where nb: "realloc h buf ?sz = Some nb" "take sz nb = buf" "length nb = ?sz"
      using assms(1) Suc.prems(2) by (simp add: realloc_def)
    have "overlay sz ?q nb = buf @ ?q" using nb szq by (simp add: overlay_def)
    then have st: "set_pack_loop h p pack_caption_size item_ptr caption_max item_sizeof a n sz k buf =
        set_pack_loop h p pack_caption_size item_ptr caption_max item_sizeof (Suc a) n ?sz (Suc k) (buf @ ?q)"
      using an True sl(1) nb(1) sg by (subst set_pack_loop.simps) (simp add: Let_def)
    have "set_pack_loop h p pack_caption_size item_ptr caption_max item_sizeof (Suc a) n ?sz (Suc k) (buf @ ?q) =
        Some ((buf @ ?q) @ concat ?ws, ?sz + length (concat ?ws), Suc k + length ?ws)"
      using Suc.hyps(2) an szq Suc.prems(2) by (intro Suc.hyps(1)) simp_all
    moreover have "ws = ?q # ?ws" using Suc.prems(3) True by (simp add: up)
    ultimately show ?thesis using st szq by simp
  next
    case False
    have "ws = ?ws" using Suc.prems(3) False by (simp add: up)
    moreover have "set_pack_loop h p pack_caption_size item_ptr caption_max item_sizeof a n sz k buf =
        set_pack_loop h p pack_caption_size item_ptr caption_max item_sizeof (Suc a) n sz k buf"
      using an False sl(1) by (subst set_pack_loop.simps) simp
    ultimately show ?thesis
      using Suc.hyps(1) [of "Suc a" buf sz ?ws k] Suc.hyps(2) an Suc.prems(2) by simp
  qed
qed

lemma set_pack_buffer_wire:
  assumes ok: "heap_ok h = (\<lambda>_. True)" and n: "1 \<le> n" "n \<le> max_count" and len: "header + n * item_sizeof \<le> length p"
  shows "\<exists>hd1. set_pack_buffer h p (int n) pack_caption_size item_ptr set_count pack_sizeof max_count caption_max item_sizeof =
      Some (hd1 @ concat (sendable p n), header + length (concat (sendable p n))) \<and>
    length hd1 = header \<and> get_count hd1 = int (length (sendable p n))"
proof -
  have m: "malloc h header = Some (map (heap_junk h) [0..<header])" using ok by (simp add: malloc_def realloc_def)
  have o: "overlay 0 (take header p) (map (heap_junk h) [0..<header]) = take header p"
    using len by (simp add: overlay_0)
  have lt: "length (take header p) = header" using len by simp
  let ?b = "take header p @ concat (sendable p n)"
  have loop: "set_pack_loop h p pack_caption_size item_ptr caption_max item_sizeof 0 n header 0 (take header p) =
      Some (?b, header + length (concat (sendable p n)), 0 + length (sendable p n))"
    by (rule squeeze_loop [OF ok len]) (use len in \<open>simp_all add: sendable_def\<close>)
  define k where "k = int (length (sendable p n))"
  have k: "0 \<le> k" "k < 2 ^ 31"
  proof -
    have "length (sendable p n) \<le> n" by (simp add: sendable_def) (metis length_filter_le length_map length_upt diff_zero)
    then show "0 \<le> k" "k < 2 ^ 31" using n(2) sizes(4) by (simp_all add: k_def)
  qed
  have lb: "header \<le> length ?b" using lt by simp
  define hd1 where "hd1 = take header (set_count ?b k False)"
  have "drop header (set_count ?b k False) = concat (sendable p n)" using set_tail [OF lb] lt by simp
  then have sc: "set_count ?b k False = hd1 @ concat (sendable p n)" by (metis append_take_drop_id hd1_def)
  have l1: "length hd1 = header" using set_length [OF lb] lb by (simp add: hd1_def)
  have "get_count (set_count ?b k False) = k" using get_set [OF lb k] .
  then have "get_count hd1 = k" using get_local [of hd1 "hd1 @ concat (sendable p n)"] l1 unfolding sc by simp
  moreover have "set_pack_buffer h p (int n) pack_caption_size item_ptr set_count pack_sizeof max_count caption_max item_sizeof =
      Some (set_count ?b k False, header + length (concat (sendable p n)))"
    using n m o loop by (simp add: set_pack_buffer_def c_header_eq k_def)
  ultimately show ?thesis using sc l1 k_def by auto
qed

lemma sendable_all:
  assumes "header + n * item_sizeof \<le> length p" "\<forall>i<n. pack_caption_size p (int i) \<le> caption_max"
  shows "sendable p n = map (\<lambda>i. squeeze (slot p i)) [0..<n]"
    "list_all (wire_item c_header caption_max caption_size) (sendable p n)"
proof -
  have f: "header + Suc i * item_sizeof \<le> length p" if "i < n" for i
    using mult_le_mono1 [of "Suc i" n item_sizeof] that assms(1) by (simp add: Suc_le_eq)
  have c: "caption_size (slot p i) \<le> caption_max" "length (slot p i) = item_sizeof" if "i < n" for i
    using slot_caption [OF f [OF that]] assms(2) that by auto
  then have "filter (\<lambda>it. caption_size it \<le> caption_max) (map (slot p) [0..<n]) = map (slot p) [0..<n]"
    by (auto simp: filter_id_conv)
  then show e: "sendable p n = map (\<lambda>i. squeeze (slot p i)) [0..<n]" by (simp add: sendable_def comp_def)
  show "list_all (wire_item c_header caption_max caption_size) (sendable p n)"
    unfolding e using c squeeze_wire(1) by (auto simp: list_all_iff)
qed

lemma concat_pad_item:
  "\<lbrakk>list_all (\<lambda>x. length x \<le> m) its; i < length its\<rbrakk> \<Longrightarrow>
   take (length (its ! i)) (drop (i * m) (concat (map (pad m) its))) = its ! i"
proof (induction its arbitrary: i)
  case (Cons it its)
  then show ?case by (cases i) (auto simp: pad_def)
qed simp

lemma round_trip:
  assumes ok: "heap_ok h = (\<lambda>_. True)" "heap_ok h' = (\<lambda>_. True)" and n: "1 \<le> n" "n \<le> max_count"
    and len: "pack_sizeof \<le> length p" and cap: "\<forall>i<n. pack_caption_size p (int i) \<le> caption_max"
  shows "\<exists>d. set_pack_buffer h p (int n) pack_caption_size item_ptr set_count pack_sizeof max_count caption_max item_sizeof =
      Some (d, length d) \<and>
    (\<forall>q. take (length d) (sdp_data q) = d \<and> unat (sdp_data_size q) = length d \<longrightarrow>
      (\<exists>pack. receive h' q = (q\<lparr>sdp_data_size := 0\<rparr>, Some pack) \<and> get_count pack = int n \<and>
        (\<forall>i<n. let k = c_header + pack_caption_size p (int i)
                in take k (drop (item_ptr (int i)) pack) = take k (drop (item_ptr (int i)) p))))"
proof -
  have "header + item_sizeof * n \<le> pack_sizeof" using n(2) sizes(1) by simp
  with len have len': "header + n * item_sizeof \<le> length p" by (metis le_trans mult.commute)
  note S = sendable_all [OF len' cap]
  let ?its = "sendable p n"
  have ln: "length ?its = n" by (simp add: S(1))
  from set_pack_buffer_wire [OF ok(1) n len'] obtain hd1 where
    b: "set_pack_buffer h p (int n) pack_caption_size item_ptr set_count pack_sizeof max_count caption_max item_sizeof =
      Some (hd1 @ concat ?its, header + length (concat ?its))" "length hd1 = header" "get_count hd1 = int (length ?its)"
    by blast
  have items: "let k = c_header + pack_caption_size p (int i)
      in take k (drop (item_ptr (int i)) (hd2 @ concat (map (pad item_sizeof) ?its))) = take k (drop (item_ptr (int i)) p)"
    if i: "i < n" and h2: "length hd2 = header" for i hd2
  proof -
    have f: "header + Suc i * item_sizeof \<le> length p"
      using mult_le_mono1 [of "Suc i" n item_sizeof] i len' by (simp add: Suc_le_eq)
    note sc = slot_caption [OF f]
    have it: "?its ! i = squeeze (slot p i)" using i by (simp add: S(1))
    have cc: "caption_size (slot p i) \<le> caption_max" using cap i sc(1) by metis
    have k1: "length (?its ! i) = c_header + pack_caption_size p (int i)"
      unfolding it sc(1) by (rule squeeze_wire(2) [OF sc(2) cc])
    have k2: "c_header + pack_caption_size p (int i) \<le> item_sizeof" using cap i sizes(2) by simp
    note k = k1 k2
    have "list_all (\<lambda>x. length x \<le> item_sizeof) ?its"
      using S(2) sizes(2) by (auto simp: list_all_iff wire_item_def)
    then have "take (length (?its ! i)) (drop (i * item_sizeof) (concat (map (pad item_sizeof) ?its))) = ?its ! i"
      using concat_pad_item i ln by metis
    moreover have "?its ! i = take (c_header + pack_caption_size p (int i)) (drop (item_ptr (int i)) p)"
      using k(2) sc(1) by (simp add: it squeeze_def slot_def seg_def ptr min_absorb1)
    ultimately show ?thesis using h2 k(1) by (simp add: ptr)
  qed
  have "\<exists>pack. receive h' q = (q\<lparr>sdp_data_size := 0\<rparr>, Some pack) \<and> get_count pack = int n \<and>
        (\<forall>i<n. let k = c_header + pack_caption_size p (int i)
                in take k (drop (item_ptr (int i)) pack) = take k (drop (item_ptr (int i)) p))"
    if q: "take (length (hd1 @ concat ?its)) (sdp_data q) = hd1 @ concat ?its" "unat (sdp_data_size q) = length (hd1 @ concat ?its)" for q
  proof -
    have d: "sdp_data q = hd1 @ concat ?its @ drop (length (hd1 @ concat ?its)) (sdp_data q)"
      using q(1) by (metis append_take_drop_id append.assoc)
    have "\<exists>hd2. receive h' q = (q\<lparr>sdp_data_size := 0\<rparr>, Some (hd2 @ concat (map (pad item_sizeof) ?its))) \<and>
        length hd2 = header \<and> get_count hd2 = int (length ?its)"
      by (rule receive_wire [OF d b(2,3) _ S(2)]) (use ok(2) n(2) ln q(2) b(2) in simp_all)
    then obtain hd2 where
      r: "receive h' q = (q\<lparr>sdp_data_size := 0\<rparr>, Some (hd2 @ concat (map (pad item_sizeof) ?its)))"
        "length hd2 = header" "get_count hd2 = int n"
      using ln by auto
    have "get_count (hd2 @ concat (map (pad item_sizeof) ?its)) = int n"
      using get_local [of "hd2 @ concat (map (pad item_sizeof) ?its)" hd2] r(2,3) by simp
    with r items [OF _ r(2)] show ?thesis by blast
  qed
  with b show ?thesis by (intro exI [of _ "hd1 @ concat ?its"]) simp
qed

end

section \<open>The families\<close>

text \<open>The laws hold for every structure that starts with a 32-bit \<open>count\<close>.\<close>

lemma sfield_u32_range:
  "sizeof (typeof T q) = 4 \<Longrightarrow> - (2 ^ 31) \<le> sfield T q bs \<and> sfield T q bs < 2 ^ 31"
proof -
  assume s: "sizeof (typeof T q) = 4"
  have "le_nat (seg (offsetof T q) 4 bs) < 256 ^ length (seg (offsetof T q) 4 bs)" by (rule le_nat_bound)
  also have "\<dots> \<le> 256 ^ 4" by (rule power_increasing) auto
  finally show ?thesis by (auto simp: sfield_def field_def s Let_def)
qed

lemma sfield_set_field:
  assumes "sizeof (typeof T q) = 4" "offsetof T q + 4 \<le> length bs" "0 \<le> n" "n < 2 ^ 31"
  shows "sfield T q (set_field T q (nat (n mod 2 ^ 32)) bs) = n"
proof -
  have "seg (offsetof T q) 4 (overlay (offsetof T q) (le_bytes 4 (nat n)) bs) = le_bytes 4 (nat n)"
    using seg_overlay_same [of "offsetof T q" bs "le_bytes 4 (nat n)"] assms(2) by simp
  then show ?thesis
    using assms by (simp add: sfield_def field_def set_field_def le_nat_le_bytes Let_def)
qed

lemma count_laws:
  fixes T :: ctype
  assumes T: "offsetof T [''count''] = 0" "sizeof (typeof T [''count'']) = 4" and h: "4 \<le> header"
    and sc: "\<And>p n inc. set_count p n inc =
      (if \<not> inc then set_field T [''count''] (nat (n mod 2 ^ 32)) p
       else set_field T [''count''] (nat ((sfield T [''count''] p + n) mod 2 ^ 32)) p)"
    and gc: "\<And>p. get_count p = sfield T [''count''] p"
  shows "header \<le> length p \<Longrightarrow> length (set_count p n inc) = length p"
    "header \<le> length p \<Longrightarrow> drop header (set_count p n inc) = drop header p"
    "\<lbrakk>header \<le> length p; 0 \<le> n; n < 2 ^ 31\<rbrakk> \<Longrightarrow> get_count (set_count p n False) = n"
    "\<lbrakk>header \<le> length p; 0 \<le> get_count p; get_count p < 2 ^ 31 - 1\<rbrakk> \<Longrightarrow> get_count (set_count p 1 True) = get_count p + 1"
    "\<lbrakk>header \<le> length p; header \<le> length q; take header p = take header q\<rbrakk> \<Longrightarrow> get_count p = get_count q"
proof -
  show "header \<le> length p \<Longrightarrow> length (set_count p n inc) = length p"
    using T h by (simp add: sc set_field_def length_overlay)
  show "header \<le> length p \<Longrightarrow> drop header (set_count p n inc) = drop header p"
    using T h by (simp add: sc set_field_def overlay_def)
  show "\<lbrakk>header \<le> length p; 0 \<le> n; n < 2 ^ 31\<rbrakk> \<Longrightarrow> get_count (set_count p n False) = n"
    using sfield_set_field [of T "[''count'']" p n] T h by (simp add: sc gc)
  show "\<lbrakk>header \<le> length p; 0 \<le> get_count p; get_count p < 2 ^ 31 - 1\<rbrakk> \<Longrightarrow> get_count (set_count p 1 True) = get_count p + 1"
    using sfield_set_field [of T "[''count'']" p "sfield T [''count''] p + 1"] T h by (simp add: sc gc)
  assume a: "header \<le> length p" "header \<le> length q" "take header p = take header q"
  have "take 4 (take header p) = take 4 (take header q)" using a(3) by simp
  then have "take 4 p = take 4 q" using h by (simp add: min_absorb1)
  then show "get_count p = get_count q" using T by (simp add: gc sfield_def field_def seg_def)
qed

lemma field_append: "offsetof T q + sizeof (typeof T q) \<le> length x \<Longrightarrow> field T q (x @ y) = field T q x"
  by (simp add: field_def seg_append_left)

interpretation channelpack: wire_pack
  "sizeof TSC_SuplaChannelPack" "sizeof TSC_SuplaChannel" SUPLA_CHANNELPACK_MAXCOUNT SUPLA_CHANNEL_CAPTION_MAXSIZE srpc_channelpack_get_pack_count
  srpc_channelpack_set_pack_count srpc_channelpack_get_item_ptr srpc_channelpack_get_item_caption_size
  srpc_channelpack_get_caption_size 8 "sizeof TSC_SuplaChannel - SUPLA_CHANNEL_CAPTION_MAXSIZE"
proof (unfold_locales, goal_cases)
  case (6 a)
  then show ?case by (simp add: srpc_channelpack_get_item_ptr_def offsetof_def TSC_SuplaChannelPack_def)
next
  case (7 p a)
  then show ?case by (simp add: srpc_channelpack_get_caption_size_def srpc_channelpack_get_item_caption_size_def offsetof_def TSC_SuplaChannelPack_def)
next
  case (8 p n inc)
  then show ?case by (rule count_laws(1) [of TSC_SuplaChannelPack, OF _ _ _ srpc_channelpack_set_pack_count_def srpc_channelpack_get_pack_count_def, rotated -1]) (simp_all add: offsetof_def typeof_def TSC_SuplaChannelPack_def)
next
  case (9 p n inc)
  then show ?case by (rule count_laws(2) [of TSC_SuplaChannelPack, OF _ _ _ srpc_channelpack_set_pack_count_def srpc_channelpack_get_pack_count_def, rotated -1]) (simp_all add: offsetof_def typeof_def TSC_SuplaChannelPack_def)
next
  case (10 p n)
  then show ?case by (rule count_laws(3) [of TSC_SuplaChannelPack, OF _ _ _ srpc_channelpack_set_pack_count_def srpc_channelpack_get_pack_count_def, rotated -3]) (simp_all add: offsetof_def typeof_def TSC_SuplaChannelPack_def)
next
  case (11 p)
  then show ?case by (rule count_laws(4) [of TSC_SuplaChannelPack, OF _ _ _ srpc_channelpack_set_pack_count_def srpc_channelpack_get_pack_count_def, rotated -3]) (simp_all add: offsetof_def typeof_def TSC_SuplaChannelPack_def)
next
  case (12 p q)
  then show ?case by (rule count_laws(5) [of TSC_SuplaChannelPack, OF _ _ _ srpc_channelpack_set_pack_count_def srpc_channelpack_get_pack_count_def, rotated -3]) (simp_all add: offsetof_def typeof_def TSC_SuplaChannelPack_def)
next
  case (13 x y)
  then show ?case unfolding srpc_channelpack_get_item_caption_size_def
    by (intro field_append) (simp add: offsetof_def typeof_def TSC_SuplaChannel_def layout const_defs)
qed (simp_all add: layout const_defs)

interpretation channelpack_b: wire_pack
  "sizeof TSC_SuplaChannelPack_B" "sizeof TSC_SuplaChannel_B" SUPLA_CHANNELPACK_MAXCOUNT SUPLA_CHANNEL_CAPTION_MAXSIZE srpc_channelpack_get_pack_count_b
  srpc_channelpack_set_pack_count_b srpc_channelpack_get_item_ptr_b srpc_channelpack_get_item_caption_size_b
  srpc_channelpack_get_caption_size_b 8 "sizeof TSC_SuplaChannel_B - SUPLA_CHANNEL_CAPTION_MAXSIZE"
proof (unfold_locales, goal_cases)
  case (6 a)
  then show ?case by (simp add: srpc_channelpack_get_item_ptr_b_def offsetof_def TSC_SuplaChannelPack_B_def)
next
  case (7 p a)
  then show ?case by (simp add: srpc_channelpack_get_caption_size_b_def srpc_channelpack_get_item_caption_size_b_def offsetof_def TSC_SuplaChannelPack_B_def)
next
  case (8 p n inc)
  then show ?case by (rule count_laws(1) [of TSC_SuplaChannelPack_B, OF _ _ _ srpc_channelpack_set_pack_count_b_def srpc_channelpack_get_pack_count_b_def, rotated -1]) (simp_all add: offsetof_def typeof_def TSC_SuplaChannelPack_B_def)
next
  case (9 p n inc)
  then show ?case by (rule count_laws(2) [of TSC_SuplaChannelPack_B, OF _ _ _ srpc_channelpack_set_pack_count_b_def srpc_channelpack_get_pack_count_b_def, rotated -1]) (simp_all add: offsetof_def typeof_def TSC_SuplaChannelPack_B_def)
next
  case (10 p n)
  then show ?case by (rule count_laws(3) [of TSC_SuplaChannelPack_B, OF _ _ _ srpc_channelpack_set_pack_count_b_def srpc_channelpack_get_pack_count_b_def, rotated -3]) (simp_all add: offsetof_def typeof_def TSC_SuplaChannelPack_B_def)
next
  case (11 p)
  then show ?case by (rule count_laws(4) [of TSC_SuplaChannelPack_B, OF _ _ _ srpc_channelpack_set_pack_count_b_def srpc_channelpack_get_pack_count_b_def, rotated -3]) (simp_all add: offsetof_def typeof_def TSC_SuplaChannelPack_B_def)
next
  case (12 p q)
  then show ?case by (rule count_laws(5) [of TSC_SuplaChannelPack_B, OF _ _ _ srpc_channelpack_set_pack_count_b_def srpc_channelpack_get_pack_count_b_def, rotated -3]) (simp_all add: offsetof_def typeof_def TSC_SuplaChannelPack_B_def)
next
  case (13 x y)
  then show ?case unfolding srpc_channelpack_get_item_caption_size_b_def
    by (intro field_append) (simp add: offsetof_def typeof_def TSC_SuplaChannel_B_def layout const_defs)
qed (simp_all add: layout const_defs)

interpretation channelpack_c: wire_pack
  "sizeof TSC_SuplaChannelPack_C" "sizeof TSC_SuplaChannel_C" SUPLA_CHANNELPACK_MAXCOUNT SUPLA_CHANNEL_CAPTION_MAXSIZE srpc_channelpack_get_pack_count_c
  srpc_channelpack_set_pack_count_c srpc_channelpack_get_item_ptr_c srpc_channelpack_get_item_caption_size_c
  srpc_channelpack_get_caption_size_c 8 "sizeof TSC_SuplaChannel_C - SUPLA_CHANNEL_CAPTION_MAXSIZE"
proof (unfold_locales, goal_cases)
  case (6 a)
  then show ?case by (simp add: srpc_channelpack_get_item_ptr_c_def offsetof_def TSC_SuplaChannelPack_C_def)
next
  case (7 p a)
  then show ?case by (simp add: srpc_channelpack_get_caption_size_c_def srpc_channelpack_get_item_caption_size_c_def offsetof_def TSC_SuplaChannelPack_C_def)
next
  case (8 p n inc)
  then show ?case by (rule count_laws(1) [of TSC_SuplaChannelPack_C, OF _ _ _ srpc_channelpack_set_pack_count_c_def srpc_channelpack_get_pack_count_c_def, rotated -1]) (simp_all add: offsetof_def typeof_def TSC_SuplaChannelPack_C_def)
next
  case (9 p n inc)
  then show ?case by (rule count_laws(2) [of TSC_SuplaChannelPack_C, OF _ _ _ srpc_channelpack_set_pack_count_c_def srpc_channelpack_get_pack_count_c_def, rotated -1]) (simp_all add: offsetof_def typeof_def TSC_SuplaChannelPack_C_def)
next
  case (10 p n)
  then show ?case by (rule count_laws(3) [of TSC_SuplaChannelPack_C, OF _ _ _ srpc_channelpack_set_pack_count_c_def srpc_channelpack_get_pack_count_c_def, rotated -3]) (simp_all add: offsetof_def typeof_def TSC_SuplaChannelPack_C_def)
next
  case (11 p)
  then show ?case by (rule count_laws(4) [of TSC_SuplaChannelPack_C, OF _ _ _ srpc_channelpack_set_pack_count_c_def srpc_channelpack_get_pack_count_c_def, rotated -3]) (simp_all add: offsetof_def typeof_def TSC_SuplaChannelPack_C_def)
next
  case (12 p q)
  then show ?case by (rule count_laws(5) [of TSC_SuplaChannelPack_C, OF _ _ _ srpc_channelpack_set_pack_count_c_def srpc_channelpack_get_pack_count_c_def, rotated -3]) (simp_all add: offsetof_def typeof_def TSC_SuplaChannelPack_C_def)
next
  case (13 x y)
  then show ?case unfolding srpc_channelpack_get_item_caption_size_c_def
    by (intro field_append) (simp add: offsetof_def typeof_def TSC_SuplaChannel_C_def layout const_defs)
qed (simp_all add: layout const_defs)

interpretation channelpack_d: wire_pack
  "sizeof TSC_SuplaChannelPack_D" "sizeof TSC_SuplaChannel_D" SUPLA_CHANNELPACK_MAXCOUNT SUPLA_CHANNEL_CAPTION_MAXSIZE srpc_channelpack_get_pack_count_d
  srpc_channelpack_set_pack_count_d srpc_channelpack_get_item_ptr_d srpc_channelpack_get_item_caption_size_d
  srpc_channelpack_get_caption_size_d 8 "sizeof TSC_SuplaChannel_D - SUPLA_CHANNEL_CAPTION_MAXSIZE"
proof (unfold_locales, goal_cases)
  case (6 a)
  then show ?case by (simp add: srpc_channelpack_get_item_ptr_d_def offsetof_def TSC_SuplaChannelPack_D_def)
next
  case (7 p a)
  then show ?case by (simp add: srpc_channelpack_get_caption_size_d_def srpc_channelpack_get_item_caption_size_d_def offsetof_def TSC_SuplaChannelPack_D_def)
next
  case (8 p n inc)
  then show ?case by (rule count_laws(1) [of TSC_SuplaChannelPack_D, OF _ _ _ srpc_channelpack_set_pack_count_d_def srpc_channelpack_get_pack_count_d_def, rotated -1]) (simp_all add: offsetof_def typeof_def TSC_SuplaChannelPack_D_def)
next
  case (9 p n inc)
  then show ?case by (rule count_laws(2) [of TSC_SuplaChannelPack_D, OF _ _ _ srpc_channelpack_set_pack_count_d_def srpc_channelpack_get_pack_count_d_def, rotated -1]) (simp_all add: offsetof_def typeof_def TSC_SuplaChannelPack_D_def)
next
  case (10 p n)
  then show ?case by (rule count_laws(3) [of TSC_SuplaChannelPack_D, OF _ _ _ srpc_channelpack_set_pack_count_d_def srpc_channelpack_get_pack_count_d_def, rotated -3]) (simp_all add: offsetof_def typeof_def TSC_SuplaChannelPack_D_def)
next
  case (11 p)
  then show ?case by (rule count_laws(4) [of TSC_SuplaChannelPack_D, OF _ _ _ srpc_channelpack_set_pack_count_d_def srpc_channelpack_get_pack_count_d_def, rotated -3]) (simp_all add: offsetof_def typeof_def TSC_SuplaChannelPack_D_def)
next
  case (12 p q)
  then show ?case by (rule count_laws(5) [of TSC_SuplaChannelPack_D, OF _ _ _ srpc_channelpack_set_pack_count_d_def srpc_channelpack_get_pack_count_d_def, rotated -3]) (simp_all add: offsetof_def typeof_def TSC_SuplaChannelPack_D_def)
next
  case (13 x y)
  then show ?case unfolding srpc_channelpack_get_item_caption_size_d_def
    by (intro field_append) (simp add: offsetof_def typeof_def TSC_SuplaChannel_D_def layout const_defs)
qed (simp_all add: layout const_defs)

interpretation channelpack_e: wire_pack
  "sizeof TSC_SuplaChannelPack_E" "sizeof TSC_SuplaChannel_E" SUPLA_CHANNELPACK_MAXCOUNT SUPLA_CHANNEL_CAPTION_MAXSIZE srpc_channelpack_get_pack_count_e
  srpc_channelpack_set_pack_count_e srpc_channelpack_get_item_ptr_e srpc_channelpack_get_item_caption_size_e
  srpc_channelpack_get_caption_size_e 8 "sizeof TSC_SuplaChannel_E - SUPLA_CHANNEL_CAPTION_MAXSIZE"
proof (unfold_locales, goal_cases)
  case (6 a)
  then show ?case by (simp add: srpc_channelpack_get_item_ptr_e_def offsetof_def TSC_SuplaChannelPack_E_def)
next
  case (7 p a)
  then show ?case by (simp add: srpc_channelpack_get_caption_size_e_def srpc_channelpack_get_item_caption_size_e_def offsetof_def TSC_SuplaChannelPack_E_def)
next
  case (8 p n inc)
  then show ?case by (rule count_laws(1) [of TSC_SuplaChannelPack_E, OF _ _ _ srpc_channelpack_set_pack_count_e_def srpc_channelpack_get_pack_count_e_def, rotated -1]) (simp_all add: offsetof_def typeof_def TSC_SuplaChannelPack_E_def)
next
  case (9 p n inc)
  then show ?case by (rule count_laws(2) [of TSC_SuplaChannelPack_E, OF _ _ _ srpc_channelpack_set_pack_count_e_def srpc_channelpack_get_pack_count_e_def, rotated -1]) (simp_all add: offsetof_def typeof_def TSC_SuplaChannelPack_E_def)
next
  case (10 p n)
  then show ?case by (rule count_laws(3) [of TSC_SuplaChannelPack_E, OF _ _ _ srpc_channelpack_set_pack_count_e_def srpc_channelpack_get_pack_count_e_def, rotated -3]) (simp_all add: offsetof_def typeof_def TSC_SuplaChannelPack_E_def)
next
  case (11 p)
  then show ?case by (rule count_laws(4) [of TSC_SuplaChannelPack_E, OF _ _ _ srpc_channelpack_set_pack_count_e_def srpc_channelpack_get_pack_count_e_def, rotated -3]) (simp_all add: offsetof_def typeof_def TSC_SuplaChannelPack_E_def)
next
  case (12 p q)
  then show ?case by (rule count_laws(5) [of TSC_SuplaChannelPack_E, OF _ _ _ srpc_channelpack_set_pack_count_e_def srpc_channelpack_get_pack_count_e_def, rotated -3]) (simp_all add: offsetof_def typeof_def TSC_SuplaChannelPack_E_def)
next
  case (13 x y)
  then show ?case unfolding srpc_channelpack_get_item_caption_size_e_def
    by (intro field_append) (simp add: offsetof_def typeof_def TSC_SuplaChannel_E_def layout const_defs)
qed (simp_all add: layout const_defs)

interpretation channelgroup_pack: wire_pack
  "sizeof TSC_SuplaChannelGroupPack" "sizeof TSC_SuplaChannelGroup" SUPLA_CHANNELGROUP_PACK_MAXCOUNT SUPLA_CHANNELGROUP_CAPTION_MAXSIZE srpc_channelgroup_pack_get_pack_count
  srpc_channelgroup_pack_set_pack_count srpc_channelgroup_pack_get_item_ptr srpc_channelgroup_pack_get_item_caption_size
  srpc_channelgroup_pack_get_caption_size 8 "sizeof TSC_SuplaChannelGroup - SUPLA_CHANNELGROUP_CAPTION_MAXSIZE"
proof (unfold_locales, goal_cases)
  case (6 a)
  then show ?case by (simp add: srpc_channelgroup_pack_get_item_ptr_def offsetof_def TSC_SuplaChannelGroupPack_def)
next
  case (7 p a)
  then show ?case by (simp add: srpc_channelgroup_pack_get_caption_size_def srpc_channelgroup_pack_get_item_caption_size_def offsetof_def TSC_SuplaChannelGroupPack_def)
next
  case (8 p n inc)
  then show ?case by (rule count_laws(1) [of TSC_SuplaChannelGroupPack, OF _ _ _ srpc_channelgroup_pack_set_pack_count_def srpc_channelgroup_pack_get_pack_count_def, rotated -1]) (simp_all add: offsetof_def typeof_def TSC_SuplaChannelGroupPack_def)
next
  case (9 p n inc)
  then show ?case by (rule count_laws(2) [of TSC_SuplaChannelGroupPack, OF _ _ _ srpc_channelgroup_pack_set_pack_count_def srpc_channelgroup_pack_get_pack_count_def, rotated -1]) (simp_all add: offsetof_def typeof_def TSC_SuplaChannelGroupPack_def)
next
  case (10 p n)
  then show ?case by (rule count_laws(3) [of TSC_SuplaChannelGroupPack, OF _ _ _ srpc_channelgroup_pack_set_pack_count_def srpc_channelgroup_pack_get_pack_count_def, rotated -3]) (simp_all add: offsetof_def typeof_def TSC_SuplaChannelGroupPack_def)
next
  case (11 p)
  then show ?case by (rule count_laws(4) [of TSC_SuplaChannelGroupPack, OF _ _ _ srpc_channelgroup_pack_set_pack_count_def srpc_channelgroup_pack_get_pack_count_def, rotated -3]) (simp_all add: offsetof_def typeof_def TSC_SuplaChannelGroupPack_def)
next
  case (12 p q)
  then show ?case by (rule count_laws(5) [of TSC_SuplaChannelGroupPack, OF _ _ _ srpc_channelgroup_pack_set_pack_count_def srpc_channelgroup_pack_get_pack_count_def, rotated -3]) (simp_all add: offsetof_def typeof_def TSC_SuplaChannelGroupPack_def)
next
  case (13 x y)
  then show ?case unfolding srpc_channelgroup_pack_get_item_caption_size_def
    by (intro field_append) (simp add: offsetof_def typeof_def TSC_SuplaChannelGroup_def layout const_defs)
qed (simp_all add: layout const_defs)

interpretation channelgroup_pack_b: wire_pack
  "sizeof TSC_SuplaChannelGroupPack_B" "sizeof TSC_SuplaChannelGroup_B" SUPLA_CHANNELGROUP_PACK_MAXCOUNT SUPLA_CHANNELGROUP_CAPTION_MAXSIZE srpc_channelgroup_pack_b_get_pack_count
  srpc_channelgroup_pack_b_set_pack_count srpc_channelgroup_pack_b_get_item_ptr srpc_channelgroup_pack_b_get_item_caption_size
  srpc_channelgroup_pack_b_get_caption_size 8 "sizeof TSC_SuplaChannelGroup_B - SUPLA_CHANNELGROUP_CAPTION_MAXSIZE"
proof (unfold_locales, goal_cases)
  case (6 a)
  then show ?case by (simp add: srpc_channelgroup_pack_b_get_item_ptr_def offsetof_def TSC_SuplaChannelGroupPack_B_def)
next
  case (7 p a)
  then show ?case by (simp add: srpc_channelgroup_pack_b_get_caption_size_def srpc_channelgroup_pack_b_get_item_caption_size_def offsetof_def TSC_SuplaChannelGroupPack_B_def)
next
  case (8 p n inc)
  then show ?case by (rule count_laws(1) [of TSC_SuplaChannelGroupPack_B, OF _ _ _ srpc_channelgroup_pack_b_set_pack_count_def srpc_channelgroup_pack_b_get_pack_count_def, rotated -1]) (simp_all add: offsetof_def typeof_def TSC_SuplaChannelGroupPack_B_def)
next
  case (9 p n inc)
  then show ?case by (rule count_laws(2) [of TSC_SuplaChannelGroupPack_B, OF _ _ _ srpc_channelgroup_pack_b_set_pack_count_def srpc_channelgroup_pack_b_get_pack_count_def, rotated -1]) (simp_all add: offsetof_def typeof_def TSC_SuplaChannelGroupPack_B_def)
next
  case (10 p n)
  then show ?case by (rule count_laws(3) [of TSC_SuplaChannelGroupPack_B, OF _ _ _ srpc_channelgroup_pack_b_set_pack_count_def srpc_channelgroup_pack_b_get_pack_count_def, rotated -3]) (simp_all add: offsetof_def typeof_def TSC_SuplaChannelGroupPack_B_def)
next
  case (11 p)
  then show ?case by (rule count_laws(4) [of TSC_SuplaChannelGroupPack_B, OF _ _ _ srpc_channelgroup_pack_b_set_pack_count_def srpc_channelgroup_pack_b_get_pack_count_def, rotated -3]) (simp_all add: offsetof_def typeof_def TSC_SuplaChannelGroupPack_B_def)
next
  case (12 p q)
  then show ?case by (rule count_laws(5) [of TSC_SuplaChannelGroupPack_B, OF _ _ _ srpc_channelgroup_pack_b_set_pack_count_def srpc_channelgroup_pack_b_get_pack_count_def, rotated -3]) (simp_all add: offsetof_def typeof_def TSC_SuplaChannelGroupPack_B_def)
next
  case (13 x y)
  then show ?case unfolding srpc_channelgroup_pack_b_get_item_caption_size_def
    by (intro field_append) (simp add: offsetof_def typeof_def TSC_SuplaChannelGroup_B_def layout const_defs)
qed (simp_all add: layout const_defs)

interpretation locationpack: wire_pack
  "sizeof TSC_SuplaLocationPack" "sizeof TSC_SuplaLocation" SUPLA_LOCATIONPACK_MAXCOUNT SUPLA_LOCATION_CAPTION_MAXSIZE srpc_locationpack_get_pack_count
  srpc_locationpack_set_pack_count srpc_locationpack_get_item_ptr srpc_locationpack_get_item_caption_size
  srpc_locationpack_get_caption_size 8 "sizeof TSC_SuplaLocation - SUPLA_LOCATION_CAPTION_MAXSIZE"
proof (unfold_locales, goal_cases)
  case (6 a)
  then show ?case by (simp add: srpc_locationpack_get_item_ptr_def offsetof_def TSC_SuplaLocationPack_def)
next
  case (7 p a)
  then show ?case by (simp add: srpc_locationpack_get_caption_size_def srpc_locationpack_get_item_caption_size_def offsetof_def TSC_SuplaLocationPack_def)
next
  case (8 p n inc)
  then show ?case by (rule count_laws(1) [of TSC_SuplaLocationPack, OF _ _ _ srpc_locationpack_set_pack_count_def srpc_locationpack_get_pack_count_def, rotated -1]) (simp_all add: offsetof_def typeof_def TSC_SuplaLocationPack_def)
next
  case (9 p n inc)
  then show ?case by (rule count_laws(2) [of TSC_SuplaLocationPack, OF _ _ _ srpc_locationpack_set_pack_count_def srpc_locationpack_get_pack_count_def, rotated -1]) (simp_all add: offsetof_def typeof_def TSC_SuplaLocationPack_def)
next
  case (10 p n)
  then show ?case by (rule count_laws(3) [of TSC_SuplaLocationPack, OF _ _ _ srpc_locationpack_set_pack_count_def srpc_locationpack_get_pack_count_def, rotated -3]) (simp_all add: offsetof_def typeof_def TSC_SuplaLocationPack_def)
next
  case (11 p)
  then show ?case by (rule count_laws(4) [of TSC_SuplaLocationPack, OF _ _ _ srpc_locationpack_set_pack_count_def srpc_locationpack_get_pack_count_def, rotated -3]) (simp_all add: offsetof_def typeof_def TSC_SuplaLocationPack_def)
next
  case (12 p q)
  then show ?case by (rule count_laws(5) [of TSC_SuplaLocationPack, OF _ _ _ srpc_locationpack_set_pack_count_def srpc_locationpack_get_pack_count_def, rotated -3]) (simp_all add: offsetof_def typeof_def TSC_SuplaLocationPack_def)
next
  case (13 x y)
  then show ?case unfolding srpc_locationpack_get_item_caption_size_def
    by (intro field_append) (simp add: offsetof_def typeof_def TSC_SuplaLocation_def layout const_defs)
qed (simp_all add: layout const_defs)

interpretation scenepack: wire_pack
  "sizeof TSC_SuplaScenePack" "sizeof TSC_SuplaScene" SUPLA_SCENE_PACK_MAXCOUNT SUPLA_SCENE_CAPTION_MAXSIZE srpc_scenepack_get_pack_count
  srpc_scenepack_set_pack_count srpc_scenepack_get_item_ptr srpc_scenepack_get_item_caption_size
  srpc_scenepack_get_caption_size 8 "sizeof TSC_SuplaScene - SUPLA_SCENE_CAPTION_MAXSIZE"
proof (unfold_locales, goal_cases)
  case (6 a)
  then show ?case by (simp add: srpc_scenepack_get_item_ptr_def offsetof_def TSC_SuplaScenePack_def)
next
  case (7 p a)
  then show ?case by (simp add: srpc_scenepack_get_caption_size_def srpc_scenepack_get_item_caption_size_def offsetof_def TSC_SuplaScenePack_def)
next
  case (8 p n inc)
  then show ?case by (rule count_laws(1) [of TSC_SuplaScenePack, OF _ _ _ srpc_scenepack_set_pack_count_def srpc_scenepack_get_pack_count_def, rotated -1]) (simp_all add: offsetof_def typeof_def TSC_SuplaScenePack_def)
next
  case (9 p n inc)
  then show ?case by (rule count_laws(2) [of TSC_SuplaScenePack, OF _ _ _ srpc_scenepack_set_pack_count_def srpc_scenepack_get_pack_count_def, rotated -1]) (simp_all add: offsetof_def typeof_def TSC_SuplaScenePack_def)
next
  case (10 p n)
  then show ?case by (rule count_laws(3) [of TSC_SuplaScenePack, OF _ _ _ srpc_scenepack_set_pack_count_def srpc_scenepack_get_pack_count_def, rotated -3]) (simp_all add: offsetof_def typeof_def TSC_SuplaScenePack_def)
next
  case (11 p)
  then show ?case by (rule count_laws(4) [of TSC_SuplaScenePack, OF _ _ _ srpc_scenepack_set_pack_count_def srpc_scenepack_get_pack_count_def, rotated -3]) (simp_all add: offsetof_def typeof_def TSC_SuplaScenePack_def)
next
  case (12 p q)
  then show ?case by (rule count_laws(5) [of TSC_SuplaScenePack, OF _ _ _ srpc_scenepack_set_pack_count_def srpc_scenepack_get_pack_count_def, rotated -3]) (simp_all add: offsetof_def typeof_def TSC_SuplaScenePack_def)
next
  case (13 x y)
  then show ?case unfolding srpc_scenepack_get_item_caption_size_def
    by (intro field_append) (simp add: offsetof_def typeof_def TSC_SuplaScene_def layout const_defs)
qed (simp_all add: layout const_defs)

interpretation scenestatepack: wire_pack
  "sizeof TSC_SuplaSceneStatePack" "sizeof TSC_SuplaSceneState" SUPLA_SCENE_STATE_PACK_MAXCOUNT SUPLA_INITIATOR_NAME_MAXSIZE srpc_scenestatepack_get_pack_count
  srpc_scenestatepack_set_pack_count srpc_scenestatepack_get_item_ptr srpc_scenestatepack_get_item_initiatorname_size
  srpc_scenestatepack_get_initiatorname_size 8 "sizeof TSC_SuplaSceneState - SUPLA_INITIATOR_NAME_MAXSIZE"
proof (unfold_locales, goal_cases)
  case (6 a)
  then show ?case by (simp add: srpc_scenestatepack_get_item_ptr_def offsetof_def TSC_SuplaSceneStatePack_def)
next
  case (7 p a)
  then show ?case by (simp add: srpc_scenestatepack_get_initiatorname_size_def srpc_scenestatepack_get_item_initiatorname_size_def offsetof_def TSC_SuplaSceneStatePack_def)
next
  case (8 p n inc)
  then show ?case by (rule count_laws(1) [of TSC_SuplaSceneStatePack, OF _ _ _ srpc_scenestatepack_set_pack_count_def srpc_scenestatepack_get_pack_count_def, rotated -1]) (simp_all add: offsetof_def typeof_def TSC_SuplaSceneStatePack_def)
next
  case (9 p n inc)
  then show ?case by (rule count_laws(2) [of TSC_SuplaSceneStatePack, OF _ _ _ srpc_scenestatepack_set_pack_count_def srpc_scenestatepack_get_pack_count_def, rotated -1]) (simp_all add: offsetof_def typeof_def TSC_SuplaSceneStatePack_def)
next
  case (10 p n)
  then show ?case by (rule count_laws(3) [of TSC_SuplaSceneStatePack, OF _ _ _ srpc_scenestatepack_set_pack_count_def srpc_scenestatepack_get_pack_count_def, rotated -3]) (simp_all add: offsetof_def typeof_def TSC_SuplaSceneStatePack_def)
next
  case (11 p)
  then show ?case by (rule count_laws(4) [of TSC_SuplaSceneStatePack, OF _ _ _ srpc_scenestatepack_set_pack_count_def srpc_scenestatepack_get_pack_count_def, rotated -3]) (simp_all add: offsetof_def typeof_def TSC_SuplaSceneStatePack_def)
next
  case (12 p q)
  then show ?case by (rule count_laws(5) [of TSC_SuplaSceneStatePack, OF _ _ _ srpc_scenestatepack_set_pack_count_def srpc_scenestatepack_get_pack_count_def, rotated -3]) (simp_all add: offsetof_def typeof_def TSC_SuplaSceneStatePack_def)
next
  case (13 x y)
  then show ?case unfolding srpc_scenestatepack_get_item_initiatorname_size_def
    by (intro field_append) (simp add: offsetof_def typeof_def TSC_SuplaSceneState_def layout const_defs)
qed (simp_all add: layout const_defs)

section \<open>Properties\<close>

text \<open>\<open>pack_round_trip\<close>: every pack with a valid count whose captions fit is squeezed into some payload,
  and a packet with that payload is expanded to a pack with the same count whose items agree with the
  original ones up to the end of their captions.  \<open>pack_safe\<close>: whatever is received, the block handed
  out is exactly as long as its count says, and the count is in range.\<close>

definition pack_round_trip ::
  "(heap \<Rightarrow> packet \<Rightarrow> packet \<times> bytes option) \<Rightarrow> (heap \<Rightarrow> bytes \<Rightarrow> int \<Rightarrow> (bytes \<times> nat) option) \<Rightarrow>
   ctype \<Rightarrow> ctype \<Rightarrow> nat \<Rightarrow> nat \<Rightarrow> (bytes \<Rightarrow> int \<Rightarrow> nat) \<Rightarrow> (int \<Rightarrow> nat) \<Rightarrow> bool" where
  "pack_round_trip receive build P I max_count caption_max caption_size item_ptr \<longleftrightarrow>
     (\<forall>h h' p n. heap_ok h = (\<lambda>_. True) \<and> heap_ok h' = (\<lambda>_. True) \<and> 1 \<le> n \<and> n \<le> max_count \<and>
        sizeof P \<le> length p \<and> (\<forall>i<n. caption_size p (int i) \<le> caption_max) \<longrightarrow>
        (\<exists>d. build h p (int n) = Some (d, length d) \<and>
          (\<forall>q. take (length d) (sdp_data q) = d \<and> unat (sdp_data_size q) = length d \<longrightarrow>
            (\<exists>pack. receive h' q = (q\<lparr>sdp_data_size := 0\<rparr>, Some pack) \<and> sfield P [''count''] pack = int n \<and>
              (\<forall>i<n. let k = sizeof I - caption_max + caption_size p (int i)
                      in take k (drop (item_ptr (int i)) pack) = take k (drop (item_ptr (int i)) p))))))"

definition pack_safe ::
  "(heap \<Rightarrow> packet \<Rightarrow> packet \<times> bytes option) \<Rightarrow> ctype \<Rightarrow> ctype \<Rightarrow> nat \<Rightarrow> bool" where
  "pack_safe receive P I max_count \<longleftrightarrow>
     (\<forall>h p p' pack. 8 \<le> length (sdp_data p) \<and> receive h p = (p', Some pack) \<longrightarrow>
        (let n = sfield P [''count''] pack
         in 0 \<le> n \<and> n \<le> int max_count \<and> length pack = 8 + sizeof I * nat n \<and> sdp_data_size p' = 0))"

text \<open>C20. Sending and receiving packs are inverse for all ten families of packs: channels in five
  versions, channel groups in two, locations, scenes and scene states.\<close>

theorem srpc_packs_round_trip:
  "pack_round_trip srpc_getchannelpack
     (\<lambda>h p n. set_pack_buffer h p n srpc_channelpack_get_caption_size srpc_channelpack_get_item_ptr srpc_channelpack_set_pack_count
        (sizeof TSC_SuplaChannelPack) SUPLA_CHANNELPACK_MAXCOUNT SUPLA_CHANNEL_CAPTION_MAXSIZE (sizeof TSC_SuplaChannel))
     TSC_SuplaChannelPack TSC_SuplaChannel SUPLA_CHANNELPACK_MAXCOUNT SUPLA_CHANNEL_CAPTION_MAXSIZE srpc_channelpack_get_caption_size srpc_channelpack_get_item_ptr \<and>
   pack_round_trip srpc_getchannelpack_b
     (\<lambda>h p n. set_pack_buffer h p n srpc_channelpack_get_caption_size_b srpc_channelpack_get_item_ptr_b srpc_channelpack_set_pack_count_b
        (sizeof TSC_SuplaChannelPack_B) SUPLA_CHANNELPACK_MAXCOUNT SUPLA_CHANNEL_CAPTION_MAXSIZE (sizeof TSC_SuplaChannel_B))
     TSC_SuplaChannelPack_B TSC_SuplaChannel_B SUPLA_CHANNELPACK_MAXCOUNT SUPLA_CHANNEL_CAPTION_MAXSIZE srpc_channelpack_get_caption_size_b srpc_channelpack_get_item_ptr_b \<and>
   pack_round_trip srpc_getchannelpack_c
     (\<lambda>h p n. set_pack_buffer h p n srpc_channelpack_get_caption_size_c srpc_channelpack_get_item_ptr_c srpc_channelpack_set_pack_count_c
        (sizeof TSC_SuplaChannelPack_C) SUPLA_CHANNELPACK_MAXCOUNT SUPLA_CHANNEL_CAPTION_MAXSIZE (sizeof TSC_SuplaChannel_C))
     TSC_SuplaChannelPack_C TSC_SuplaChannel_C SUPLA_CHANNELPACK_MAXCOUNT SUPLA_CHANNEL_CAPTION_MAXSIZE srpc_channelpack_get_caption_size_c srpc_channelpack_get_item_ptr_c \<and>
   pack_round_trip srpc_getchannelpack_d
     (\<lambda>h p n. set_pack_buffer h p n srpc_channelpack_get_caption_size_d srpc_channelpack_get_item_ptr_d srpc_channelpack_set_pack_count_d
        (sizeof TSC_SuplaChannelPack_D) SUPLA_CHANNELPACK_MAXCOUNT SUPLA_CHANNEL_CAPTION_MAXSIZE (sizeof TSC_SuplaChannel_D))
     TSC_SuplaChannelPack_D TSC_SuplaChannel_D SUPLA_CHANNELPACK_MAXCOUNT SUPLA_CHANNEL_CAPTION_MAXSIZE srpc_channelpack_get_caption_size_d srpc_channelpack_get_item_ptr_d \<and>
   pack_round_trip srpc_getchannelpack_e
     (\<lambda>h p n. set_pack_buffer h p n srpc_channelpack_get_caption_size_e srpc_channelpack_get_item_ptr_e srpc_channelpack_set_pack_count_e
        (sizeof TSC_SuplaChannelPack_E) SUPLA_CHANNELPACK_MAXCOUNT SUPLA_CHANNEL_CAPTION_MAXSIZE (sizeof TSC_SuplaChannel_E))
     TSC_SuplaChannelPack_E TSC_SuplaChannel_E SUPLA_CHANNELPACK_MAXCOUNT SUPLA_CHANNEL_CAPTION_MAXSIZE srpc_channelpack_get_caption_size_e srpc_channelpack_get_item_ptr_e \<and>
   pack_round_trip srpc_getchannelgroup_pack
     (\<lambda>h p n. set_pack_buffer h p n srpc_channelgroup_pack_get_caption_size srpc_channelgroup_pack_get_item_ptr srpc_channelgroup_pack_set_pack_count
        (sizeof TSC_SuplaChannelGroupPack) SUPLA_CHANNELGROUP_PACK_MAXCOUNT SUPLA_CHANNELGROUP_CAPTION_MAXSIZE (sizeof TSC_SuplaChannelGroup))
     TSC_SuplaChannelGroupPack TSC_SuplaChannelGroup SUPLA_CHANNELGROUP_PACK_MAXCOUNT SUPLA_CHANNELGROUP_CAPTION_MAXSIZE srpc_channelgroup_pack_get_caption_size srpc_channelgroup_pack_get_item_ptr \<and>
   pack_round_trip srpc_getchannelgroup_pack_b
     (\<lambda>h p n. set_pack_buffer h p n srpc_channelgroup_pack_b_get_caption_size srpc_channelgroup_pack_b_get_item_ptr srpc_channelgroup_pack_b_set_pack_count
        (sizeof TSC_SuplaChannelGroupPack_B) SUPLA_CHANNELGROUP_PACK_MAXCOUNT SUPLA_CHANNELGROUP_CAPTION_MAXSIZE (sizeof TSC_SuplaChannelGroup_B))
     TSC_SuplaChannelGroupPack_B TSC_SuplaChannelGroup_B SUPLA_CHANNELGROUP_PACK_MAXCOUNT SUPLA_CHANNELGROUP_CAPTION_MAXSIZE srpc_channelgroup_pack_b_get_caption_size srpc_channelgroup_pack_b_get_item_ptr \<and>
   pack_round_trip srpc_getlocationpack
     (\<lambda>h p n. set_pack_buffer h p n srpc_locationpack_get_caption_size srpc_locationpack_get_item_ptr srpc_locationpack_set_pack_count
        (sizeof TSC_SuplaLocationPack) SUPLA_LOCATIONPACK_MAXCOUNT SUPLA_LOCATION_CAPTION_MAXSIZE (sizeof TSC_SuplaLocation))
     TSC_SuplaLocationPack TSC_SuplaLocation SUPLA_LOCATIONPACK_MAXCOUNT SUPLA_LOCATION_CAPTION_MAXSIZE srpc_locationpack_get_caption_size srpc_locationpack_get_item_ptr \<and>
   pack_round_trip srpc_get_scene_pack
     (\<lambda>h p n. set_pack_buffer h p n srpc_scenepack_get_caption_size srpc_scenepack_get_item_ptr srpc_scenepack_set_pack_count
        (sizeof TSC_SuplaScenePack) SUPLA_SCENE_PACK_MAXCOUNT SUPLA_SCENE_CAPTION_MAXSIZE (sizeof TSC_SuplaScene))
     TSC_SuplaScenePack TSC_SuplaScene SUPLA_SCENE_PACK_MAXCOUNT SUPLA_SCENE_CAPTION_MAXSIZE srpc_scenepack_get_caption_size srpc_scenepack_get_item_ptr \<and>
   pack_round_trip srpc_get_scene_state_pack
     (\<lambda>h p n. set_pack_buffer h p n srpc_scenestatepack_get_initiatorname_size srpc_scenestatepack_get_item_ptr srpc_scenestatepack_set_pack_count
        (sizeof TSC_SuplaSceneStatePack) SUPLA_SCENE_STATE_PACK_MAXCOUNT SUPLA_INITIATOR_NAME_MAXSIZE (sizeof TSC_SuplaSceneState))
     TSC_SuplaSceneStatePack TSC_SuplaSceneState SUPLA_SCENE_STATE_PACK_MAXCOUNT SUPLA_INITIATOR_NAME_MAXSIZE srpc_scenestatepack_get_initiatorname_size srpc_scenestatepack_get_item_ptr"
  (is "?c0 \<and> ?c1 \<and> ?c2 \<and> ?c3 \<and> ?c4 \<and> ?c5 \<and> ?c6 \<and> ?c7 \<and> ?c8 \<and> ?c9")
proof (intro conjI)
  show ?c0
    unfolding pack_round_trip_def srpc_getchannelpack_def using channelpack.round_trip
    by (auto simp: srpc_channelpack_get_pack_count_def)
  show ?c1
    unfolding pack_round_trip_def srpc_getchannelpack_b_def using channelpack_b.round_trip
    by (auto simp: srpc_channelpack_get_pack_count_b_def)
  show ?c2
    unfolding pack_round_trip_def srpc_getchannelpack_c_def using channelpack_c.round_trip
    by (auto simp: srpc_channelpack_get_pack_count_c_def)
  show ?c3
    unfolding pack_round_trip_def srpc_getchannelpack_d_def using channelpack_d.round_trip
    by (auto simp: srpc_channelpack_get_pack_count_d_def)
  show ?c4
    unfolding pack_round_trip_def srpc_getchannelpack_e_def using channelpack_e.round_trip
    by (auto simp: srpc_channelpack_get_pack_count_e_def)
  show ?c5
    unfolding pack_round_trip_def srpc_getchannelgroup_pack_def using channelgroup_pack.round_trip
    by (auto simp: srpc_channelgroup_pack_get_pack_count_def)
  show ?c6
    unfolding pack_round_trip_def srpc_getchannelgroup_pack_b_def using channelgroup_pack_b.round_trip
    by (auto simp: srpc_channelgroup_pack_b_get_pack_count_def)
  show ?c7
    unfolding pack_round_trip_def srpc_getlocationpack_def using locationpack.round_trip
    by (auto simp: srpc_locationpack_get_pack_count_def)
  show ?c8
    unfolding pack_round_trip_def srpc_get_scene_pack_def using scenepack.round_trip
    by (auto simp: srpc_scenepack_get_pack_count_def)
  show ?c9
    unfolding pack_round_trip_def srpc_get_scene_state_pack_def using scenestatepack.round_trip
    by (auto simp: srpc_scenestatepack_get_pack_count_def)
qed

text \<open>Expanding a received pack never writes outside the block it allocated, whatever the packet
  contains: the block has exactly the size its own count calls for, and the count is between zero
  and the maximum of the family.\<close>

theorem srpc_packs_safe:
  "pack_safe srpc_getchannelpack TSC_SuplaChannelPack TSC_SuplaChannel SUPLA_CHANNELPACK_MAXCOUNT \<and>
   pack_safe srpc_getchannelpack_b TSC_SuplaChannelPack_B TSC_SuplaChannel_B SUPLA_CHANNELPACK_MAXCOUNT \<and>
   pack_safe srpc_getchannelpack_c TSC_SuplaChannelPack_C TSC_SuplaChannel_C SUPLA_CHANNELPACK_MAXCOUNT \<and>
   pack_safe srpc_getchannelpack_d TSC_SuplaChannelPack_D TSC_SuplaChannel_D SUPLA_CHANNELPACK_MAXCOUNT \<and>
   pack_safe srpc_getchannelpack_e TSC_SuplaChannelPack_E TSC_SuplaChannel_E SUPLA_CHANNELPACK_MAXCOUNT \<and>
   pack_safe srpc_getchannelgroup_pack TSC_SuplaChannelGroupPack TSC_SuplaChannelGroup SUPLA_CHANNELGROUP_PACK_MAXCOUNT \<and>
   pack_safe srpc_getchannelgroup_pack_b TSC_SuplaChannelGroupPack_B TSC_SuplaChannelGroup_B SUPLA_CHANNELGROUP_PACK_MAXCOUNT \<and>
   pack_safe srpc_getlocationpack TSC_SuplaLocationPack TSC_SuplaLocation SUPLA_LOCATIONPACK_MAXCOUNT \<and>
   pack_safe srpc_get_scene_pack TSC_SuplaScenePack TSC_SuplaScene SUPLA_SCENE_PACK_MAXCOUNT \<and>
   pack_safe srpc_get_scene_state_pack TSC_SuplaSceneStatePack TSC_SuplaSceneState SUPLA_SCENE_STATE_PACK_MAXCOUNT"
  (is "?c0 \<and> ?c1 \<and> ?c2 \<and> ?c3 \<and> ?c4 \<and> ?c5 \<and> ?c6 \<and> ?c7 \<and> ?c8 \<and> ?c9")
proof (intro conjI)
  show ?c0
    unfolding pack_safe_def srpc_getchannelpack_def using channelpack.receive_safe
    by (auto simp: srpc_channelpack_get_pack_count_def Let_def)
  show ?c1
    unfolding pack_safe_def srpc_getchannelpack_b_def using channelpack_b.receive_safe
    by (auto simp: srpc_channelpack_get_pack_count_b_def Let_def)
  show ?c2
    unfolding pack_safe_def srpc_getchannelpack_c_def using channelpack_c.receive_safe
    by (auto simp: srpc_channelpack_get_pack_count_c_def Let_def)
  show ?c3
    unfolding pack_safe_def srpc_getchannelpack_d_def using channelpack_d.receive_safe
    by (auto simp: srpc_channelpack_get_pack_count_d_def Let_def)
  show ?c4
    unfolding pack_safe_def srpc_getchannelpack_e_def using channelpack_e.receive_safe
    by (auto simp: srpc_channelpack_get_pack_count_e_def Let_def)
  show ?c5
    unfolding pack_safe_def srpc_getchannelgroup_pack_def using channelgroup_pack.receive_safe
    by (auto simp: srpc_channelgroup_pack_get_pack_count_def Let_def)
  show ?c6
    unfolding pack_safe_def srpc_getchannelgroup_pack_b_def using channelgroup_pack_b.receive_safe
    by (auto simp: srpc_channelgroup_pack_b_get_pack_count_def Let_def)
  show ?c7
    unfolding pack_safe_def srpc_getlocationpack_def using locationpack.receive_safe
    by (auto simp: srpc_locationpack_get_pack_count_def Let_def)
  show ?c8
    unfolding pack_safe_def srpc_get_scene_pack_def using scenepack.receive_safe
    by (auto simp: srpc_scenepack_get_pack_count_def Let_def)
  show ?c9
    unfolding pack_safe_def srpc_get_scene_state_pack_def using scenestatepack.receive_safe
    by (auto simp: srpc_scenestatepack_get_pack_count_def Let_def)
qed


end
