(* ===== verification/Srpc_Getdata.thy ===== *)
theory Srpc_Getdata
  imports Srpc_Pack
begin

text \<open>
  Decoding of received packets: \<open>srpc_getdata\<close> and \<open>srpc_rd_free\<close> of \<open>srpc.c\<close>.

  The \<open>switch\<close> of \<open>srpc_getdata\<close> has one branch per call identifier, and every branch has one of six
  shapes.  A \<open>getdata_case\<close> is the shape of a branch with its types and limits; the tables
  \<open>getdata_common\<close>, \<open>getdata_device1\<close> to \<open>getdata_client4\<close> list the branches in the order of the
  source, and \<open>getdata_switch\<close> executes a branch.  The result of \<open>srpc_getdata\<close> is \<open>None\<close> when the
  code dereferences a null pointer.
\<close>

section \<open>Data\<close>

record TsrpcReceivedData =
  rd_call_id :: u32
  rd_rr_id :: u32
  rd_data :: "bytes option"

text \<open>
  \<^item> \<open>No_Data\<close>: the call carries no payload.
  \<^item> \<open>Exact z T\<close>: the payload must have the size of \<open>T\<close>; the object is zeroed (\<open>calloc\<close>) if \<open>z\<close>,
    otherwise allocated by \<open>malloc\<close>.
  \<^item> \<open>Counted z T I vars max\<close>: \<open>VALID_SIZE(T, I, vars, max)\<close>, where \<open>vars\<close> are the members whose sum
    is the number of items of type \<open>I\<close> at the end of \<open>T\<close>.
  \<^item> \<open>Ping\<close> and \<open>Firmware_Url\<close>: the two calls with an alternative payload size.
  \<^item> \<open>Pack g\<close>: a pack, expanded by the function \<open>g\<close>.
\<close>

datatype getdata_case =
    No_Data
  | Exact bool ctype
  | Counted bool ctype ctype "string list list" nat
  | Ping
  | Firmware_Url
  | Pack "heap \<Rightarrow> packet \<Rightarrow> packet \<times> bytes option"

abbreviation TSDS_SetChannelConfig :: ctype where
  "TSDS_SetChannelConfig \<equiv> TSD_ChannelConfig"

section \<open>The branches of the switch\<close>

definition getdata_common :: "target \<Rightarrow> (u32 \<times> getdata_case) list" where
  "getdata_common t =
    [(SUPLA_DCS_CALL_GETVERSION, No_Data),
     (SUPLA_CS_CALL_GET_NEXT, No_Data),
     (SUPLA_DCS_CALL_GET_REGISTRATION_ENABLED, No_Data),
     (SUPLA_SDC_CALL_GETVERSION_RESULT, Exact True TSDC_SuplaGetVersionResult),
     (SUPLA_SDC_CALL_VERSIONERROR, Exact True TSDC_SuplaVersionError),
     (SUPLA_DCS_CALL_PING_SERVER, Ping),
     (SUPLA_SDC_CALL_PING_SERVER_RESULT, Exact True TSDC_SuplaPingServerResult),
     (SUPLA_DCS_CALL_SET_ACTIVITY_TIMEOUT, Exact True TDCS_SuplaSetActivityTimeout),
     (SUPLA_SDC_CALL_SET_ACTIVITY_TIMEOUT_RESULT, Exact True TSDC_SuplaSetActivityTimeoutResult),
     (SUPLA_SDC_CALL_GET_REGISTRATION_ENABLED_RESULT, Exact True TSDC_RegistrationEnabled),
     (SUPLA_DCS_CALL_GET_USER_LOCALTIME, No_Data),
     (SUPLA_DCS_CALL_GET_USER_LOCALTIME_RESULT, Counted True TSDC_UserLocalTimeResult CChar [[''timezoneSize'']] SUPLA_TIMEZONE_MAXSIZE),
     (SUPLA_CSD_CALL_GET_CHANNEL_STATE, Exact True TCSD_ChannelStateRequest),
     (SUPLA_DSC_CALL_CHANNEL_STATE_RESULT, Exact True TDSC_ChannelState),
     (SUPLA_SCD_CALL_SET_CHANNEL_CAPTION_RESULT, Counted True TSCD_SetCaptionResult CChar [[''CaptionSize'']] SUPLA_CAPTION_MAXSIZE)]"

definition getdata_device1 :: "target \<Rightarrow> (u32 \<times> getdata_case) list" where
  "getdata_device1 t =
    [(SUPLA_DS_CALL_REGISTER_DEVICE, Counted True TDS_SuplaRegisterDevice TDS_SuplaDeviceChannel [[''channel_count'']] SUPLA_CHANNELMAXCOUNT),
     (SUPLA_DS_CALL_REGISTER_DEVICE_B, Counted True TDS_SuplaRegisterDevice_B TDS_SuplaDeviceChannel_B [[''channel_count'']] SUPLA_CHANNELMAXCOUNT),
     (SUPLA_DS_CALL_REGISTER_DEVICE_C, Counted True TDS_SuplaRegisterDevice_C TDS_SuplaDeviceChannel_B [[''channel_count'']] SUPLA_CHANNELMAXCOUNT),
     (SUPLA_DS_CALL_REGISTER_DEVICE_D, Counted True TDS_SuplaRegisterDevice_D TDS_SuplaDeviceChannel_B [[''channel_count'']] SUPLA_CHANNELMAXCOUNT),
     (SUPLA_DS_CALL_REGISTER_DEVICE_E, Counted True TDS_SuplaRegisterDevice_E TDS_SuplaDeviceChannel_C [[''channel_count'']] SUPLA_CHANNELMAXCOUNT),
     (SUPLA_DS_CALL_REGISTER_DEVICE_F, Counted True TDS_SuplaRegisterDevice_F TDS_SuplaDeviceChannel_D [[''channel_count'']] SUPLA_CHANNELMAXCOUNT),
     (SUPLA_DS_CALL_REGISTER_DEVICE_G, Counted True TDS_SuplaRegisterDevice_G TDS_SuplaDeviceChannel_E [[''channel_count'']] SUPLA_CHANNELMAXCOUNT),
     (SUPLA_SD_CALL_REGISTER_DEVICE_RESULT, Exact True TSD_SuplaRegisterDeviceResult),
     (SUPLA_SD_CALL_REGISTER_DEVICE_RESULT_B, Counted True TSD_SuplaRegisterDeviceResult_B UChar [[''channel_report_size'']] CHANNEL_REPORT_MAXSIZE),
     (SUPLA_DS_CALL_DEVICE_CHANNEL_VALUE_CHANGED, Exact True TDS_SuplaDeviceChannelValue),
     (SUPLA_DS_CALL_DEVICE_CHANNEL_VALUE_CHANGED_B, Exact True TDS_SuplaDeviceChannelValue_B),
     (SUPLA_DS_CALL_DEVICE_CHANNEL_VALUE_CHANGED_C, Exact True TDS_SuplaDeviceChannelValue_C),
     (SUPLA_DS_CALL_DEVICE_CHANNEL_EXTENDEDVALUE_CHANGED, Counted True (TDS_SuplaDeviceChannelExtendedValue t) CChar [[''value'', ''size'']] (SUPLA_CHANNELEXTENDEDVALUE_SIZE t)),
     (SUPLA_SD_CALL_CHANNEL_SET_VALUE, Exact True TSD_SuplaChannelNewValue),
     (SUPLA_SD_CALL_CHANNELGROUP_SET_VALUE, Exact True TSD_SuplaChannelGroupNewValue),
     (SUPLA_DS_CALL_CHANNEL_SET_VALUE_RESULT, Exact True TDS_SuplaChannelNewValueResult)]"

definition getdata_device2 :: "target \<Rightarrow> (u32 \<times> getdata_case) list" where
  "getdata_device2 t =
    [(SUPLA_DS_CALL_GET_FIRMWARE_UPDATE_URL, Exact True TDS_FirmwareUpdateParams),
     (SUPLA_SD_CALL_GET_FIRMWARE_UPDATE_URL_RESULT, Firmware_Url),
     (SUPLA_SD_CALL_DEVICE_CALCFG_REQUEST, Counted True TSD_DeviceCalCfgRequest CChar [[''DataSize'']] SUPLA_CALCFG_DATA_MAXSIZE),
     (SUPLA_DS_CALL_DEVICE_CALCFG_RESULT, Counted True TDS_DeviceCalCfgResult CChar [[''DataSize'']] SUPLA_CALCFG_DATA_MAXSIZE),
     (SUPLA_DS_CALL_GET_CHANNEL_FUNCTIONS, No_Data),
     (SUPLA_SD_CALL_GET_CHANNEL_FUNCTIONS_RESULT, Counted True TSD_ChannelFunctions I32 [[''ChannelCount'']] SUPLA_CHANNELMAXCOUNT),
     (SUPLA_DS_CALL_GET_CHANNEL_CONFIG, Exact True TDS_GetChannelConfigRequest),
     (SUPLA_SD_CALL_GET_CHANNEL_CONFIG_RESULT, Counted True TSD_ChannelConfig CChar [[''ConfigSize'']] SUPLA_CHANNEL_CONFIG_MAXSIZE),
     (SUPLA_DS_CALL_ACTIONTRIGGER, Exact True TDS_ActionTrigger),
     (SUPLA_DS_CALL_REGISTER_PUSH_NOTIFICATION, Exact True TDS_RegisterPushNotification),
     (SUPLA_DS_CALL_SEND_PUSH_NOTIFICATION, Counted True TDS_PushNotification CChar [[''TitleSize''], [''BodySize'']] (SUPLA_PN_TITLE_MAXSIZE + SUPLA_PN_BODY_MAXSIZE)),
     (SUPLA_DS_CALL_SET_CHANNEL_CONFIG, Counted False TSDS_SetChannelConfig CChar [[''ConfigSize'']] SUPLA_CHANNEL_CONFIG_MAXSIZE),
     (SUPLA_SD_CALL_SET_CHANNEL_CONFIG, Counted False TSDS_SetChannelConfig CChar [[''ConfigSize'']] SUPLA_CHANNEL_CONFIG_MAXSIZE),
     (SUPLA_DS_CALL_SET_CHANNEL_CONFIG_RESULT, Exact False TSDS_SetChannelConfigResult),
     (SUPLA_SD_CALL_SET_CHANNEL_CONFIG_RESULT, Exact False TSDS_SetChannelConfigResult),
     (SUPLA_SD_CALL_CHANNEL_CONFIG_FINISHED, Exact False TSD_ChannelConfigFinished),
     (SUPLA_DS_CALL_SET_DEVICE_CONFIG, Counted False TSDS_SetDeviceConfig CChar [[''ConfigSize'']] SUPLA_DEVICE_CONFIG_MAXSIZE),
     (SUPLA_SD_CALL_SET_DEVICE_CONFIG, Counted False TSDS_SetDeviceConfig CChar [[''ConfigSize'']] SUPLA_DEVICE_CONFIG_MAXSIZE),
     (SUPLA_SD_CALL_SET_DEVICE_CONFIG_RESULT, Exact False TSDS_SetDeviceConfigResult),
     (SUPLA_DS_CALL_SET_DEVICE_CONFIG_RESULT, Exact False TSDS_SetDeviceConfigResult),
     (SUPLA_DS_CALL_SET_SUBDEVICE_DETAILS, Exact False TDS_SubdeviceDetails)]"

definition getdata_client1 :: "target \<Rightarrow> (u32 \<times> getdata_case) list" where
  "getdata_client1 t =
    [(SUPLA_CS_CALL_REGISTER_CLIENT, Exact True TCS_SuplaRegisterClient),
     (SUPLA_CS_CALL_REGISTER_CLIENT_B, Exact True TCS_SuplaRegisterClient_B),
     (SUPLA_CS_CALL_REGISTER_CLIENT_C, Exact True TCS_SuplaRegisterClient_C),
     (SUPLA_CS_CALL_REGISTER_CLIENT_D, Exact True TCS_SuplaRegisterClient_D),
     (SUPLA_SC_CALL_REGISTER_CLIENT_RESULT, Exact True TSC_SuplaRegisterClientResult),
     (SUPLA_SC_CALL_REGISTER_CLIENT_RESULT_B, Exact True TSC_SuplaRegisterClientResult_B),
     (SUPLA_SC_CALL_REGISTER_CLIENT_RESULT_C, Exact True TSC_SuplaRegisterClientResult_C),
     (SUPLA_SC_CALL_REGISTER_CLIENT_RESULT_D, Exact True TSC_SuplaRegisterClientResult_D),
     (SUPLA_SC_CALL_LOCATION_UPDATE, Counted True TSC_SuplaLocation CChar [[''CaptionSize'']] SUPLA_LOCATION_CAPTION_MAXSIZE),
     (SUPLA_SC_CALL_LOCATIONPACK_UPDATE, Pack srpc_getlocationpack),
     (SUPLA_SC_CALL_CHANNELPACK_UPDATE, Pack srpc_getchannelpack),
     (SUPLA_SC_CALL_CHANNELPACK_UPDATE_B, Pack srpc_getchannelpack_b),
     (SUPLA_SC_CALL_CHANNELPACK_UPDATE_C, Pack srpc_getchannelpack_c),
     (SUPLA_SC_CALL_CHANNELPACK_UPDATE_D, Pack srpc_getchannelpack_d),
     (SUPLA_SC_CALL_CHANNELPACK_UPDATE_E, Pack srpc_getchannelpack_e),
     (SUPLA_SC_CALL_CHANNEL_VALUE_UPDATE, Exact True TSC_SuplaChannelValue),
     (SUPLA_SC_CALL_CHANNEL_VALUE_UPDATE_B, Exact True TSC_SuplaChannelValue_B),
     (SUPLA_SC_CALL_CHANNELGROUP_PACK_UPDATE, Pack srpc_getchannelgroup_pack),
     (SUPLA_SC_CALL_CHANNELGROUP_PACK_UPDATE_B, Pack srpc_getchannelgroup_pack_b),
     (SUPLA_SC_CALL_CHANNELGROUP_RELATION_PACK_UPDATE, Counted True TSC_SuplaChannelGroupRelationPack TSC_SuplaChannelGroupRelation [[''count'']] SUPLA_CHANNELGROUP_RELATION_PACK_MAXCOUNT)]"

definition getdata_client2 :: "target \<Rightarrow> (u32 \<times> getdata_case) list" where
  "getdata_client2 t =
    [(SUPLA_SC_CALL_CHANNEL_RELATION_PACK_UPDATE, Counted True TSC_SuplaChannelRelationPack TSC_SuplaChannelRelation [[''count'']] SUPLA_CHANNEL_RELATION_PACK_MAXCOUNT),
     (SUPLA_SC_CALL_CHANNELVALUE_PACK_UPDATE, Counted True TSC_SuplaChannelValuePack TSC_SuplaChannelValue [[''count'']] SUPLA_CHANNELVALUE_PACK_MAXCOUNT),
     (SUPLA_SC_CALL_CHANNELVALUE_PACK_UPDATE_B, Counted True TSC_SuplaChannelValuePack_B TSC_SuplaChannelValue_B [[''count'']] SUPLA_CHANNELVALUE_PACK_MAXCOUNT),
     (SUPLA_SC_CALL_CHANNELEXTENDEDVALUE_PACK_UPDATE, Counted True (TSC_SuplaChannelExtendedValuePack t) CChar [[''pack_size'']] (SUPLA_CHANNELEXTENDEDVALUE_PACK_MAXDATASIZE t)),
     (SUPLA_SC_CALL_CHANNEL_STATE_PACK_UPDATE, Counted True TSC_SuplaChannelStatePack TDSC_ChannelState [[''count'']] SUPLA_CHANNEL_STATE_PACK_MAXCOUNT),
     (SUPLA_CS_CALL_CHANNEL_SET_VALUE, Exact True TCS_SuplaChannelNewValue),
     (SUPLA_CS_CALL_SET_VALUE, Exact True TCS_SuplaNewValue),
     (SUPLA_CS_CALL_CHANNEL_SET_VALUE_B, Exact True TCS_SuplaChannelNewValue_B),
     (SUPLA_SC_CALL_EVENT, Counted True TSC_SuplaEvent CChar [[''SenderNameSize'']] SUPLA_SENDER_NAME_MAXSIZE),
     (SUPLA_CS_CALL_OAUTH_TOKEN_REQUEST, No_Data),
     (SUPLA_SC_CALL_OAUTH_TOKEN_REQUEST_RESULT, Counted True TSC_OAuthTokenRequestResult CChar [[''Token'', ''TokenSize'']] SUPLA_OAUTH_TOKEN_MAXSIZE),
     (SUPLA_CS_CALL_SUPERUSER_AUTHORIZATION_REQUEST, Exact True TCS_SuperUserAuthorizationRequest),
     (SUPLA_CS_CALL_GET_SUPERUSER_AUTHORIZATION_RESULT, No_Data),
     (SUPLA_SC_CALL_SUPERUSER_AUTHORIZATION_RESULT, Exact True TSC_SuperUserAuthorizationResult),
     (SUPLA_CS_CALL_DEVICE_CALCFG_REQUEST, Counted True TCS_DeviceCalCfgRequest CChar [[''DataSize'']] SUPLA_CALCFG_DATA_MAXSIZE),
     (SUPLA_CS_CALL_DEVICE_CALCFG_REQUEST_B, Counted True TCS_DeviceCalCfgRequest_B CChar [[''DataSize'']] SUPLA_CALCFG_DATA_MAXSIZE),
     (SUPLA_SC_CALL_DEVICE_CALCFG_RESULT, Counted True TSC_DeviceCalCfgResult CChar [[''DataSize'']] SUPLA_CALCFG_DATA_MAXSIZE)]"

definition getdata_client3 :: "target \<Rightarrow> (u32 \<times> getdata_case) list" where
  "getdata_client3 t =
    [(SUPLA_CS_CALL_GET_CHANNEL_BASIC_CFG, Exact True TCS_ChannelBasicCfgRequest),
     (SUPLA_SC_CALL_CHANNEL_BASIC_CFG_RESULT, Counted True TSC_ChannelBasicCfg CChar [[''CaptionSize'']] SUPLA_CHANNEL_CAPTION_MAXSIZE),
     (SUPLA_CS_CALL_SET_CHANNEL_FUNCTION, Exact True TCS_SetChannelFunction),
     (SUPLA_SC_CALL_SET_CHANNEL_FUNCTION_RESULT, Exact True TSC_SetChannelFunctionResult),
     (SUPLA_DCS_CALL_SET_CHANNEL_CAPTION, Counted True TDCS_SetCaption CChar [[''CaptionSize'']] SUPLA_CAPTION_MAXSIZE),
     (SUPLA_CS_CALL_SET_CHANNEL_GROUP_CAPTION, Counted True TDCS_SetCaption CChar [[''CaptionSize'']] SUPLA_CAPTION_MAXSIZE),
     (SUPLA_CS_CALL_SET_LOCATION_CAPTION, Counted True TDCS_SetCaption CChar [[''CaptionSize'']] SUPLA_CAPTION_MAXSIZE),
     (SUPLA_CS_CALL_SET_SCENE_CAPTION, Counted True TDCS_SetCaption CChar [[''CaptionSize'']] SUPLA_CAPTION_MAXSIZE),
     (SUPLA_SC_CALL_SET_CHANNEL_GROUP_CAPTION_RESULT, Counted True TSCD_SetCaptionResult CChar [[''CaptionSize'']] SUPLA_CAPTION_MAXSIZE),
     (SUPLA_SC_CALL_SET_LOCATION_CAPTION_RESULT, Counted True TSCD_SetCaptionResult CChar [[''CaptionSize'']] SUPLA_CAPTION_MAXSIZE),
     (SUPLA_SC_CALL_SET_SCENE_CAPTION_RESULT, Counted True TSCD_SetCaptionResult CChar [[''CaptionSize'']] SUPLA_CAPTION_MAXSIZE),
     (SUPLA_CS_CALL_CLIENTS_RECONNECT_REQUEST, No_Data),
     (SUPLA_SC_CALL_CLIENTS_RECONNECT_REQUEST_RESULT, Exact True TSC_ClientsReconnectRequestResult),
     (SUPLA_CS_CALL_SET_REGISTRATION_ENABLED, Exact True TCS_SetRegistrationEnabled),
     (SUPLA_SC_CALL_SET_REGISTRATION_ENABLED_RESULT, Exact True TSC_SetRegistrationEnabledResult),
     (SUPLA_CS_CALL_DEVICE_RECONNECT_REQUEST, Exact True TCS_DeviceReconnectRequest),
     (SUPLA_SC_CALL_DEVICE_RECONNECT_REQUEST_RESULT, Exact True TSC_DeviceReconnectRequestResult),
     (SUPLA_CS_CALL_TIMER_ARM, Exact True TCS_TimerArmRequest),
     (SUPLA_SC_CALL_SCENE_PACK_UPDATE, Pack srpc_get_scene_pack),
     (SUPLA_SC_CALL_SCENE_STATE_PACK_UPDATE, Pack srpc_get_scene_state_pack)]"

definition getdata_client4 :: "target \<Rightarrow> (u32 \<times> getdata_case) list" where
  "getdata_client4 t =
    [(SUPLA_CS_CALL_EXECUTE_ACTION, Counted True TCS_Action CChar [[''ParamSize'']] SUPLA_ACTION_PARAM_MAXSIZE),
     (SUPLA_CS_CALL_EXECUTE_ACTION_WITH_AUTH, Counted True TCS_ActionWithAuth CChar [[''Action'', ''ParamSize'']] SUPLA_ACTION_PARAM_MAXSIZE),
     (SUPLA_SC_CALL_ACTION_EXECUTION_RESULT, Exact True TSC_ActionExecutionResult),
     (SUPLA_CS_CALL_GET_CHANNEL_VALUE_WITH_AUTH, Exact True TCS_GetChannelValueWithAuth),
     (SUPLA_SC_CALL_GET_CHANNEL_VALUE_RESULT, Counted True (TSC_GetChannelValueResult t) CChar [[''ExtendedValue'', ''size'']] (SUPLA_CHANNELEXTENDEDVALUE_SIZE t)),
     (SUPLA_CS_CALL_REGISTER_PN_CLIENT_TOKEN, Counted True TCS_RegisterPnClientToken CChar [[''Token'', ''TokenSize'']] SUPLA_PN_CLIENT_TOKEN_MAXSIZE),
     (SUPLA_SC_CALL_REGISTER_PN_CLIENT_TOKEN_RESULT, Exact True TSC_RegisterPnClientTokenResult),
     (SUPLA_CS_CALL_SET_CHANNEL_CONFIG, Counted False TSCS_ChannelConfig CChar [[''ConfigSize'']] SUPLA_CHANNEL_CONFIG_MAXSIZE),
     (SUPLA_CS_CALL_GET_CHANNEL_CONFIG, Exact True TCS_GetChannelConfigRequest),
     (SUPLA_SC_CALL_CHANNEL_CONFIG_UPDATE_OR_RESULT, Counted True TSC_ChannelConfigUpdateOrResult CChar [[''Config'', ''ConfigSize'']] SUPLA_CHANNEL_CONFIG_MAXSIZE),
     (SUPLA_CS_CALL_GET_DEVICE_CONFIG, Exact False TCS_GetDeviceConfigRequest),
     (SUPLA_SC_CALL_DEVICE_CONFIG_UPDATE_OR_RESULT, Counted False TSC_DeviceConfigUpdateOrResult CChar [[''Config'', ''ConfigSize'']] SUPLA_DEVICE_CONFIG_MAXSIZE)]"

text \<open>No target of this development excludes the device part; the client part is excluded by
  \<open>SRPC_EXCLUDE_CLIENT\<close>.\<close>

definition getdata_cases :: "target \<Rightarrow> (u32 \<times> getdata_case) list" where
  "getdata_cases t = getdata_common t @ getdata_device1 t @ getdata_device2 t @
     (if SRPC_EXCLUDE_CLIENT t then []
      else getdata_client1 t @ getdata_client2 t @ getdata_client3 t @ getdata_client4 t)"

section \<open>Operations\<close>

text \<open>An integer member by its declared type.\<close>

definition cfield :: "ctype \<Rightarrow> string list \<Rightarrow> bytes \<Rightarrow> int" where
  "cfield T p bs = (if typeof T p \<in> {SChar, I16, I32, I64} then sfield T p bs else int (field T p bs))"

text \<open>The product of \<open>VALID_SIZE\<close> has the wider of \<open>size_t\<close> and the types of the members that count the
  items.  The sum of two members is computed in \<open>int\<close>, which is as wide as \<open>size_t\<close> on AVR, so its
  wrap-around there is the one of the product; on the other builds two 16-bit members cannot overflow an
  \<open>int\<close>.  The product is then compared in 32 bits, the width of \<open>data_size\<close>, or more.\<close>

definition product_bits :: "build \<Rightarrow> ctype \<Rightarrow> string list list \<Rightarrow> nat" where
  "product_bits b T vars = foldr (\<lambda>v. max (8 * sizeof (typeof T v))) vars (size_t_bits b)"

definition VALID_SIZE :: "build \<Rightarrow> packet \<Rightarrow> ctype \<Rightarrow> ctype \<Rightarrow> string list list \<Rightarrow> nat \<Rightarrow> bool" where
  "VALID_SIZE b p T I vars max_count =
     (let data_size = unat (sdp_data_size p);
          header = sizeof T - sizeof I * max_count;
          n = sum_list (map (\<lambda>v. cfield T v (sdp_data p)) vars)
      in header \<le> data_size \<and> data_size \<le> sizeof T \<and>
         (n * int (sizeof I)) mod 2 ^ product_bits b T vars = int (data_size - header))"

definition alloc_object :: "heap \<Rightarrow> bool \<Rightarrow> ctype \<Rightarrow> bytes option" where
  "alloc_object h zeroed T = (if zeroed then calloc h (sizeof T) else malloc h (sizeof T))"

text \<open>A \<open>time_t\<close> of the old 32-bit ping, sign-extended into the 64-bit member.\<close>

definition widen :: "string \<Rightarrow> bytes \<Rightarrow> bytes \<Rightarrow> bytes" where
  "widen m data ping =
     set_field TDCS_SuplaPingServer [''now'', m]
       (nat (sfield TDCS_SuplaPingServer_COMPAT [''now'', m] data mod 2 ^ 64)) ping"

text \<open>The results of a branch: the packet, \<open>rd->data\<close> and \<open>call_with_no_data\<close>.\<close>

fun getdata_switch ::
  "build \<Rightarrow> heap \<Rightarrow> getdata_case \<Rightarrow> packet \<Rightarrow> (packet \<times> bytes option \<times> bool) option" where
  "getdata_switch b h No_Data p = Some (p, None, True)"
| "getdata_switch b h (Exact z T) p =
     Some (p, if unat (sdp_data_size p) = sizeof T then alloc_object h z T else None, False)"
| "getdata_switch b h (Counted z T I vars max_count) p =
     Some (p, if VALID_SIZE b p T I vars max_count then alloc_object h z T else None, False)"
| "getdata_switch b h Ping p =
     (let data_size = unat (sdp_data_size p)
      in if data_size = sizeof TDCS_SuplaPingServer \<or> data_size = sizeof TDCS_SuplaPingServer_COMPAT
         then let ping = alloc_object h True TDCS_SuplaPingServer
              in if target b \<noteq> AVR \<and> data_size = sizeof TDCS_SuplaPingServer_COMPAT
                 then (case ping of
                         None \<Rightarrow> None
                       | Some d \<Rightarrow>
                           Some (p, Some (widen ''tv_usec'' (sdp_data p) (widen ''tv_sec'' (sdp_data p) d)), True))
                 else Some (p, ping, False)
         else Some (p, None, False))"
| "getdata_switch b h Firmware_Url p =
     (let data_size = unat (sdp_data_size p)
      in if data_size = sizeof TSD_FirmwareUpdate_UrlResult \<or> data_size = sizeof CChar
         then let url = alloc_object h True TSD_FirmwareUpdate_UrlResult
              in Some (p, if data_size = sizeof CChar
                          then map_option (overlay 0 (replicate (sizeof TSD_FirmwareUpdate_UrlResult) 0)) url
                          else url, False)
         else Some (p, None, False))"
| "getdata_switch b h (Pack g) p = (let (p, d) = g h p in Some (p, d, False))"

text \<open>\<open>rd->rr_id\<close> and \<open>rd->data\<close> are not assigned when no packet is taken.\<close>

definition srpc_getdata ::
  "'u env \<Rightarrow> 'u Tsrpc \<Rightarrow> TsrpcReceivedData \<Rightarrow> u32 \<Rightarrow> ('u Tsrpc \<times> TsrpcReceivedData \<times> int) option" where
  "srpc_getdata e s rd rr_id =
     (let rd = rd\<lparr>rd_call_id := 0\<rparr>;
          s = srpc_lock e s;
          (s, r) = srpc_in_queue_pop e s rr_id
      in if r = SUPLA_RESULT_TRUE then
           let rd = rd\<lparr>rd_call_id := sdp_call_id (sdp s), rd_rr_id := sdp_rr_id (sdp s), rd_data := None\<rparr>
           in (case (case map_of (getdata_cases (tgt e)) (sdp_call_id (sdp s)) of
                       Some c \<Rightarrow> getdata_switch (build_of e) (heap_of e) c (sdp s)
                     | None \<Rightarrow> Some (sdp s, None, False)) of
                 None \<Rightarrow> None
               | Some (p, d, call_with_no_data) \<Rightarrow>
                   let s = s\<lparr>sdp := p\<rparr>;
                       rd = rd\<lparr>rd_data := d\<rparr>
                   in if call_with_no_data
                      then let (s, r) = unlock_r e s SUPLA_RESULT_TRUE in Some (s, rd, r)
                      else (case d of
                              Some block \<Rightarrow>
                                let rd = (if sdp_data_size p > 0
                                          then rd\<lparr>rd_data := Some (overlay 0 (take (unat (sdp_data_size p)) (sdp_data p)) block)\<rparr>
                                          else rd);
                                    (s, r) = unlock_r e s SUPLA_RESULT_TRUE
                                in Some (s, rd, r)
                            | None \<Rightarrow>
                                let (s, r) = unlock_r e s SUPLA_RESULT_DATA_ERROR in Some (s, rd, r)))
         else let (s, r) = unlock_r e s SUPLA_RESULT_FALSE in Some (s, rd, r))"

text \<open>\<open>srpc_rd_free\<close> returns the object it frees, if any, beside the updated descriptor.\<close>

definition srpc_rd_free :: "TsrpcReceivedData \<Rightarrow> TsrpcReceivedData \<times> bytes option" where
  "srpc_rd_free rd = (if rd_call_id rd > 0 then (rd\<lparr>rd_call_id := 0\<rparr>, rd_data rd) else (rd, None))"

section \<open>The abstract format\<close>

text \<open>What a payload must look like to be accepted, over mathematical integers.  \<open>delivered\<close>: the object
  starts with the payload; what follows is zero if the object was zeroed.\<close>

definition counted :: "ctype \<Rightarrow> string list list \<Rightarrow> bytes \<Rightarrow> int" where
  "counted T vars d = sum_list (map (\<lambda>v. cfield T v d) vars)"

fun well_formed :: "getdata_case \<Rightarrow> bytes \<Rightarrow> bool" where
  "well_formed (Exact z T) d \<longleftrightarrow> length d = sizeof T"
| "well_formed (Counted z T I vars max_count) d \<longleftrightarrow>
     (\<exists>n\<le>max_count. counted T vars d = int n \<and> length d = sizeof T - sizeof I * max_count + sizeof I * n)"
| "well_formed Ping d \<longleftrightarrow> length d = sizeof TDCS_SuplaPingServer"
| "well_formed Firmware_Url d \<longleftrightarrow> length d = sizeof TSD_FirmwareUpdate_UrlResult \<or> length d = 1"
| "well_formed _ d \<longleftrightarrow> False"

fun object_type :: "getdata_case \<Rightarrow> ctype option" where
  "object_type (Exact z T) = Some T"
| "object_type (Counted z T I vars max_count) = Some T"
| "object_type Ping = Some TDCS_SuplaPingServer"
| "object_type Firmware_Url = Some TSD_FirmwareUpdate_UrlResult"
| "object_type _ = None"

fun zeroed :: "getdata_case \<Rightarrow> bool" where
  "zeroed (Exact z T) = z"
| "zeroed (Counted z T I vars max_count) = z"
| "zeroed _ = True"

definition delivered :: "getdata_case \<Rightarrow> bytes \<Rightarrow> bytes \<Rightarrow> bool" where
  "delivered c d object \<longleftrightarrow> map_option sizeof (object_type c) = Some (length object) \<and>
     take (length d) object = d \<and>
     (zeroed c \<longrightarrow> drop (length d) object = replicate (length object - length d) 0)"

section \<open>The table\<close>

text \<open>Every branch is consistent with its structure: the counted items are the end of the structure, and
  the members that hold the count lie in front of them.  \<open>no_wrap w\<close>: with a \<open>size_t\<close> of \<open>w\<close> bits the
  product of \<open>VALID_SIZE\<close> cannot wrap around, and the sizes of the structures fit.\<close>

fun case_ok :: "getdata_case \<Rightarrow> bool" where
  "case_ok (Exact z T) \<longleftrightarrow> 0 < sizeof T \<and> sizeof T < 2 ^ 31"
| "case_ok (Counted z T I vars max_count) \<longleftrightarrow>
     0 < sizeof I \<and> sizeof I < 2 ^ 20 \<and> sizeof I * max_count < sizeof T \<and> sizeof T < 2 ^ 31 \<and> length vars \<le> 2 \<and>
     list_all (\<lambda>v. offsetof T v + sizeof (typeof T v) \<le> sizeof T - sizeof I * max_count \<and>
       sizeof (typeof T v) \<le> 4) vars"
| "case_ok (Pack g) \<longleftrightarrow> (\<forall>h p. fst (g h p) = (if snd (g h p) = None then p else p\<lparr>sdp_data_size := 0\<rparr>))"
| "case_ok _ \<longleftrightarrow> True"

fun no_wrap :: "nat \<Rightarrow> getdata_case \<Rightarrow> bool" where
  "no_wrap w (Counted z T I vars max_count) \<longleftrightarrow>
     list_all (\<lambda>v. typeof T v \<notin> {SChar, I16, I32, I64}) vars \<and> sizeof T < 2 ^ w \<and>
     (\<Sum>v\<leftarrow>vars. 256 ^ sizeof (typeof T v) - 1) * sizeof I <
       (2 :: nat) ^ foldr (\<lambda>v. max (8 * sizeof (typeof T v))) vars w"
| "no_wrap w _ \<longleftrightarrow> True"

lemma target_sizes:
  "SUPLA_CHANNELEXTENDEDVALUE_SIZE t \<le> 1024" "600 \<le> SUPLA_MAX_DATA_SIZE t" "SUPLA_MAX_DATA_SIZE t \<le> 10240"
  by (cases t; simp)+

lemma getpack_clears:
  "fst (srpc_getpack h p ps is mc cm gc sc ip cs) =
     (if snd (srpc_getpack h p ps is mc cm gc sc ip cs) = None then p else p\<lparr>sdp_data_size := 0\<rparr>)"
  by (auto simp: srpc_getpack_def Let_def split: if_splits option.splits)

lemmas pack_getters = srpc_getchannelpack_def srpc_getchannelpack_b_def srpc_getchannelpack_c_def
  srpc_getchannelpack_d_def srpc_getchannelpack_e_def srpc_getchannelgroup_pack_def
  srpc_getchannelgroup_pack_b_def srpc_getlocationpack_def srpc_get_scene_pack_def
  srpc_get_scene_state_pack_def

lemma getters_clear:
  "fst (srpc_getchannelpack h p) = (if snd (srpc_getchannelpack h p) = None then p else p\<lparr>sdp_data_size := 0\<rparr>)"
  "fst (srpc_getchannelpack_b h p) = (if snd (srpc_getchannelpack_b h p) = None then p else p\<lparr>sdp_data_size := 0\<rparr>)"
  "fst (srpc_getchannelpack_c h p) = (if snd (srpc_getchannelpack_c h p) = None then p else p\<lparr>sdp_data_size := 0\<rparr>)"
  "fst (srpc_getchannelpack_d h p) = (if snd (srpc_getchannelpack_d h p) = None then p else p\<lparr>sdp_data_size := 0\<rparr>)"
  "fst (srpc_getchannelpack_e h p) = (if snd (srpc_getchannelpack_e h p) = None then p else p\<lparr>sdp_data_size := 0\<rparr>)"
  "fst (srpc_getchannelgroup_pack h p) = (if snd (srpc_getchannelgroup_pack h p) = None then p else p\<lparr>sdp_data_size := 0\<rparr>)"
  "fst (srpc_getchannelgroup_pack_b h p) = (if snd (srpc_getchannelgroup_pack_b h p) = None then p else p\<lparr>sdp_data_size := 0\<rparr>)"
  "fst (srpc_getlocationpack h p) = (if snd (srpc_getlocationpack h p) = None then p else p\<lparr>sdp_data_size := 0\<rparr>)"
  "fst (srpc_get_scene_pack h p) = (if snd (srpc_get_scene_pack h p) = None then p else p\<lparr>sdp_data_size := 0\<rparr>)"
  "fst (srpc_get_scene_state_pack h p) = (if snd (srpc_get_scene_state_pack h p) = None then p else p\<lparr>sdp_data_size := 0\<rparr>)"
  unfolding pack_getters by (rule getpack_clears)+

lemmas table_eval = layout const_defs offsetof_def typeof_def SUPLA_CHANNELEXTENDEDVALUE_PACK_MAXDATASIZE_def

lemma device_ok:
  "list_all (\<lambda>(i, c). case_ok c \<and> (i \<noteq> SUPLA_DS_CALL_SEND_PUSH_NOTIFICATION \<longrightarrow> no_wrap 16 c) \<and> no_wrap 32 c)
     (getdata_common t)"
  "list_all (\<lambda>(i, c). case_ok c \<and> (i \<noteq> SUPLA_DS_CALL_SEND_PUSH_NOTIFICATION \<longrightarrow> no_wrap 16 c) \<and> no_wrap 32 c)
     (getdata_device1 t)"
  "list_all (\<lambda>(i, c). case_ok c \<and> (i \<noteq> SUPLA_DS_CALL_SEND_PUSH_NOTIFICATION \<longrightarrow> no_wrap 16 c) \<and> no_wrap 32 c)
     (getdata_device2 t)"
  using target_sizes [of t]
  by (simp_all add: getdata_common_def getdata_device1_def getdata_device2_def table_eval)
    (simp_all add: struct_defs layout const_defs)

lemma client_ok:
  "list_all (\<lambda>(i, c). case_ok c) (getdata_client1 t)"
  "list_all (\<lambda>(i, c). case_ok c) (getdata_client2 t)"
  "list_all (\<lambda>(i, c). case_ok c) (getdata_client3 t)"
  "list_all (\<lambda>(i, c). case_ok c) (getdata_client4 t)"
  using target_sizes [of t]
  by (simp_all add: getdata_client1_def getdata_client2_def getdata_client3_def getdata_client4_def table_eval getters_clear)
    (simp_all add: struct_defs layout const_defs, linarith?)

lemma getdata_case_ok: "(i, c) \<in> set (getdata_cases t) \<Longrightarrow> case_ok c"
  using device_ok [of t] client_ok [of t]
  by (auto simp: getdata_cases_def list_all_iff split: if_splits)

lemma getdata_no_wrap:
  "(i, c) \<in> set (getdata_cases t) \<Longrightarrow> SRPC_EXCLUDE_CLIENT t \<Longrightarrow>
   no_wrap 32 c \<and> (i \<noteq> SUPLA_DS_CALL_SEND_PUSH_NOTIFICATION \<longrightarrow> no_wrap 16 c)"
  using device_ok [of t] by (auto simp: getdata_cases_def list_all_iff simp del: no_wrap.simps case_ok.simps)

text \<open>The widths a build can have for a call: with 64-bit \<open>size_t\<close> every call is safe, with 32 bits the
  calls of a device, with 16 bits these except the push notification, which has two counted members.\<close>

definition wide_enough :: "build \<Rightarrow> u32 \<Rightarrow> bool" where
  "wide_enough b call_id \<longleftrightarrow> 64 \<le> size_t_bits b \<or>
     SRPC_EXCLUDE_CLIENT (target b) \<and>
       (32 \<le> size_t_bits b \<or> 16 \<le> size_t_bits b \<and> call_id \<noteq> SUPLA_DS_CALL_SEND_PUSH_NOTIFICATION)"

section \<open>The size check\<close>

lemma sum_list_bound:
  "list_all (\<lambda>v. 0 \<le> f v \<and> f v \<le> int (g v)) vs \<Longrightarrow> 0 \<le> sum_list (map f vs) \<and> sum_list (map f vs) \<le> int (\<Sum>v\<leftarrow>vs. g v)"
  by (induction vs) auto

lemma field_bound: "field T v d < 256 ^ sizeof (typeof T v)"
proof -
  have "field T v d < 256 ^ length (seg (offsetof T v) (sizeof (typeof T v)) d)"
    unfolding field_def by (rule le_nat_bound)
  also have "\<dots> \<le> 256 ^ sizeof (typeof T v)" by (rule power_increasing) simp_all
  finally show ?thesis .
qed

lemma cfield_bound: "\<bar>cfield T v d\<bar> < int (256 ^ sizeof (typeof T v))"
proof -
  have "\<bar>if c then if 2 * x < n then int x else int x - int n else int x\<bar> < int n" if "x < n" for c x n
    using that by auto
  then show ?thesis unfolding cfield_def sfield_def Let_def using field_bound by blast
qed

lemma cfield_local:
  "offsetof T v + sizeof (typeof T v) \<le> length d \<Longrightarrow> cfield T v (take (length d) x) = cfield T v x"
  by (simp add: cfield_def sfield_def field_def seg_take)

lemma counted_local:
  "list_all (\<lambda>v. offsetof T v + sizeof (typeof T v) \<le> n) vars \<Longrightarrow> n \<le> m \<Longrightarrow>
   counted T vars (take m x) = counted T vars x"
  unfolding counted_def
  by (induction vars) (auto simp: cfield_def sfield_def field_def seg_take)

text \<open>A product that is small in absolute value is determined by its residue.\<close>

lemma mod_exact:
  assumes "\<bar>x\<bar> < (m :: int) - k" "0 \<le> k" "x mod m = k"
  shows "x = k"
proof (cases "0 \<le> x")
  case True
  then show ?thesis using assms by simp
next
  case False
  then have "x mod m = x + m"
    using assms mod_pos_pos_trivial [of "x + m" m] by simp
  then show ?thesis using False assms by linarith
qed

lemma counted_bound:
  assumes "list_all (\<lambda>v. sizeof (typeof T v) \<le> 4) vars"
  shows "\<bar>counted T vars d\<bar> \<le> int (length vars) * 2 ^ 32"
  using assms unfolding counted_def
proof (induction vars)
  case (Cons v vars)
  have "(256 :: nat) ^ sizeof (typeof T v) \<le> 256 ^ 4" using Cons.prems by (intro power_increasing) simp_all
  then have "int (256 ^ sizeof (typeof T v)) \<le> int (256 ^ 4)" by (simp only: of_nat_le_iff)
  then have "int (256 ^ sizeof (typeof T v)) \<le> 2 ^ 32" by simp
  then have "\<bar>cfield T v d\<bar> \<le> 2 ^ 32" using cfield_bound [of T v d] by linarith
  then show ?case using Cons by (simp add: algebra_simps)
qed simp

lemma counted_bound_unsigned:
  assumes "list_all (\<lambda>v. typeof T v \<notin> {SChar, I16, I32, I64}) vars"
  shows "0 \<le> counted T vars d" "counted T vars d \<le> int (\<Sum>v\<leftarrow>vars. 256 ^ sizeof (typeof T v) - 1)"
proof -
  have "cfield T v d = int (field T v d)" if "typeof T v \<notin> {SChar, I16, I32, I64}" for v
    using that by (simp add: cfield_def)
  moreover have "field T v d \<le> 256 ^ sizeof (typeof T v) - 1" for v
    using field_bound [of T v d] by linarith
  ultimately have "list_all (\<lambda>v. 0 \<le> cfield T v d \<and> cfield T v d \<le> int (256 ^ sizeof (typeof T v) - 1)) vars"
    using assms unfolding list_all_iff by (metis of_nat_0_le_iff of_nat_le_iff)
  from sum_list_bound [OF this]
  show "0 \<le> counted T vars d" "counted T vars d \<le> int (\<Sum>v\<leftarrow>vars. 256 ^ sizeof (typeof T v) - 1)"
    by (simp_all add: counted_def)
qed

lemma product_bits_mono: "w \<le> w' \<Longrightarrow> foldr (\<lambda>v. max (f v)) vs w \<le> foldr (\<lambda>v. max (f v)) vs (w' :: nat)"
  by (induction vs) auto

lemma product_bits_ge: "size_t_bits b \<le> product_bits b T vars"
  unfolding product_bits_def by (induction vars) auto

lemma no_wrap_mono:
  assumes "no_wrap w c" "w \<le> w'"
  shows "no_wrap w' c"
proof (cases c)
  case (Counted z T I vars m)
  have "(2 :: nat) ^ foldr (\<lambda>v. max (8 * sizeof (typeof T v))) vars w \<le> 2 ^ foldr (\<lambda>v. max (8 * sizeof (typeof T v))) vars w'"
    using product_bits_mono [OF assms(2)] by (intro power_increasing) auto
  moreover have "(2 :: nat) ^ w \<le> 2 ^ w'" using assms(2) by (intro power_increasing) auto
  ultimately show ?thesis using assms(1) unfolding Counted no_wrap.simps by (blast intro: less_le_trans)
qed simp_all

lemma wide_enough_no_wrap:
  assumes "(i, c) \<in> set (getdata_cases (target b))" "wide_enough b i"
  shows "64 \<le> size_t_bits b \<or> no_wrap (size_t_bits b) c"
  using assms getdata_no_wrap [OF assms(1)] no_wrap_mono unfolding wide_enough_def by blast

text \<open>On 64-bit builds, and wherever the product fits, the modulus does not matter.\<close>

lemma size_product_exact:
  assumes ok: "case_ok (Counted z T I vars m)" and r: "0 \<le> r" "r < 2 ^ 31"
    and wrap: "64 \<le> size_t_bits b \<or> no_wrap (size_t_bits b) (Counted z T I vars m)"
  shows "(counted T vars d * int (sizeof I)) mod 2 ^ product_bits b T vars = r \<longleftrightarrow>
    counted T vars d * int (sizeof I) = r"
proof -
  define x where "x = counted T vars d * int (sizeof I)"
  define M where "M = (2 :: int) ^ product_bits b T vars"
  have "x mod M = r \<longleftrightarrow> x = r"
  proof (cases "64 \<le> size_t_bits b")
    case True
    have "\<bar>counted T vars d\<bar> \<le> int (length vars) * 2 ^ 32"
      by (rule counted_bound) (use ok in \<open>auto simp: list_all_iff\<close>)
    also have "\<dots> \<le> 2 * 2 ^ 32" using ok by (intro mult_right_mono) auto
    finally have "\<bar>x\<bar> \<le> (2 * 2 ^ 32) * 2 ^ 20"
      unfolding x_def abs_mult using ok by (intro mult_mono) auto
    moreover have M64: "2 ^ 64 \<le> M"
      unfolding M_def using True product_bits_ge [of b T vars] by (intro power_increasing) simp_all
    ultimately have "\<bar>x\<bar> < M - r" using r by simp
    then show ?thesis using mod_exact [of x M r] r M64 by auto
  next
    case False
    then have nw: "no_wrap (size_t_bits b) (Counted z T I vars m)" using wrap by simp
    have u: "0 \<le> counted T vars d" "counted T vars d \<le> int (\<Sum>v\<leftarrow>vars. 256 ^ sizeof (typeof T v) - 1)"
      using counted_bound_unsigned nw by auto
    have "x \<le> int ((\<Sum>v\<leftarrow>vars. 256 ^ sizeof (typeof T v) - 1) * sizeof I)"
      unfolding x_def of_nat_mult by (intro mult_right_mono u) simp
    also have "\<dots> < int (2 ^ product_bits b T vars)"
      using nw unfolding of_nat_less_iff product_bits_def by simp
    finally show ?thesis using u by (simp add: x_def M_def)
  qed
  then show ?thesis by (simp only: x_def M_def)
qed

lemma VALID_SIZE_iff:
  assumes ok: "case_ok (Counted z T I vars m)"
    and wrap: "64 \<le> size_t_bits b \<or> no_wrap (size_t_bits b) (Counted z T I vars m)"
    and d: "d = take (unat (sdp_data_size p)) (sdp_data p)" "length d = unat (sdp_data_size p)"
  shows "VALID_SIZE b p T I vars m \<longleftrightarrow> well_formed (Counted z T I vars m) d"
proof -
  define k where "k = sizeof T - sizeof I * m"
  have ok': "0 < sizeof I" "sizeof T = k + sizeof I * m" "sizeof T < 2 ^ 31"
    "list_all (\<lambda>v. offsetof T v + sizeof (typeof T v) \<le> k) vars"
    using ok by (auto simp: k_def list_all_iff)
  have loc: "k \<le> length d \<Longrightarrow> counted T vars (sdp_data p) = counted T vars d"
    using counted_local [OF ok'(4), of "length d" "sdp_data p"] d by simp
  have "VALID_SIZE b p T I vars m \<longleftrightarrow> k \<le> length d \<and> length d \<le> sizeof T \<and>
      counted T vars d * int (sizeof I) = int (length d - k)"
    unfolding VALID_SIZE_def Let_def d(2) [symmetric] k_def [symmetric] counted_def [symmetric]
    using loc size_product_exact [OF ok _ _ wrap, of "int (length d - k)" d] ok'(3) by auto
  also have "\<dots> \<longleftrightarrow> (\<exists>n\<le>m. counted T vars d = int n \<and> length d = k + sizeof I * n)"
  proof safe
    assume a: "k \<le> length d" "length d \<le> sizeof T" "counted T vars d * int (sizeof I) = int (length d - k)"
    define n where "n = nat (counted T vars d)"
    have "0 \<le> counted T vars d" using a(3) ok'(1) by (metis of_nat_0_le_iff of_nat_0_less_iff zero_le_mult_iff not_less)
    then have n: "counted T vars d = int n" by (simp add: n_def)
    then have e: "length d = k + sizeof I * n" using a(1,3) by (simp flip: of_nat_mult add: mult.commute)
    then have "n \<le> m" using a(2) ok'(1,2) by simp
    then show "\<exists>n\<le>m. counted T vars d = int n \<and> length d = k + sizeof I * n" using n e by blast
  qed (use ok'(2) in \<open>auto simp flip: of_nat_mult simp: mult.commute\<close>)
  finally show ?thesis by (simp add: k_def)
qed

section \<open>Behaviour\<close>

lemma alloc_object_length: "alloc_object h z T = Some d \<Longrightarrow> length d = sizeof T"
  by (auto simp: alloc_object_def length_calloc length_malloc split: if_splits)

lemma alloc_object_zero: "alloc_object h True T = Some d \<Longrightarrow> d = replicate (sizeof T) 0"
  by (auto simp: alloc_object_def calloc_def split: if_splits)

lemma alloc_object_ok: "heap_ok h = (\<lambda>_. True) \<Longrightarrow> \<exists>d. alloc_object h z T = Some d"
  by (simp add: alloc_object_def calloc_def malloc_def realloc_def)

text \<open>The packet that \<open>srpc_getdata\<close> works on, and what it does with it.\<close>

definition getdata_result ::
  "'u env \<Rightarrow> packet \<Rightarrow> (packet \<times> bytes option \<times> int) option" where
  "getdata_result e p =
     (case (case map_of (getdata_cases (tgt e)) (sdp_call_id p) of
              Some c \<Rightarrow> getdata_switch (build_of e) (heap_of e) c p
            | None \<Rightarrow> Some (p, None, False)) of
        None \<Rightarrow> None
      | Some (q, d, nodata) \<Rightarrow>
          Some (q, if nodata then d
                   else map_option (overlay 0 (take (unat (sdp_data_size q)) (sdp_data q))) d,
                if nodata \<or> d \<noteq> None then SUPLA_RESULT_TRUE else SUPLA_RESULT_DATA_ERROR))"

lemma srpc_getdata_eq:
  "srpc_getdata e s rd rr =
     (let (s1, r) = srpc_in_queue_pop e (srpc_lock e s) rr
      in if r = SUPLA_RESULT_TRUE then
           map_option (\<lambda>(q, d, r). (srpc_unlock e (s1\<lparr>sdp := q\<rparr>),
               rd\<lparr>rd_call_id := sdp_call_id (sdp s1), rd_rr_id := sdp_rr_id (sdp s1), rd_data := d\<rparr>, r))
             (getdata_result e (sdp s1))
         else Some (srpc_unlock e s1, rd\<lparr>rd_call_id := 0\<rparr>, SUPLA_RESULT_FALSE))"
  unfolding srpc_getdata_def getdata_result_def
  by (auto simp: Let_def overlay_0 word_gt_0 split: prod.splits option.splits)

lemma unat_eq_8: "unat (w :: u32) = 8 \<longleftrightarrow> w = 8"
  by (simp add: word_unat_eq_iff)

lemma ping_only:
  "list_all (\<lambda>(i, c). c = Ping \<longrightarrow> i = SUPLA_DCS_CALL_PING_SERVER) (getdata_cases t)"
  by (simp add: getdata_cases_def getdata_common_def getdata_device1_def getdata_device2_def getdata_client1_def
      getdata_client2_def getdata_client3_def getdata_client4_def)

lemma ping_case: "map_of (getdata_cases t) SUPLA_DCS_CALL_PING_SERVER = Some Ping"
  by (simp add: getdata_cases_def getdata_common_def const_defs)

lemma getdata_switch_None:
  "getdata_switch b h c p = None \<longleftrightarrow>
     c = Ping \<and> sdp_data_size p = 8 \<and> target b \<noteq> AVR \<and> \<not> heap_ok h (sizeof TDCS_SuplaPingServer)"
  by (cases c) (auto simp: Let_def layout alloc_object_def calloc_def unat_eq_8 split: option.splits prod.splits if_splits)

lemma getdata_result_None:
  "getdata_result e p = None \<longleftrightarrow> sdp_call_id p = SUPLA_DCS_CALL_PING_SERVER \<and> sdp_data_size p = 8 \<and>
     tgt e \<noteq> AVR \<and> \<not> heap_ok (heap_of e) (sizeof TDCS_SuplaPingServer)"
proof -
  have "map_of (getdata_cases (tgt e)) (sdp_call_id p) = Some Ping \<longleftrightarrow> sdp_call_id p = SUPLA_DCS_CALL_PING_SERVER"
    using ping_only [of "tgt e"] ping_case [of "tgt e"] by (auto simp: list_all_iff dest: map_of_SomeD)
  moreover have "getdata_result e p = None \<longleftrightarrow>
      (\<exists>c. map_of (getdata_cases (tgt e)) (sdp_call_id p) = Some c \<and> getdata_switch (build_of e) (heap_of e) c p = None)"
    unfolding getdata_result_def by (auto split: option.split simp del: getdata_switch.simps)
  ultimately show ?thesis by (auto simp: getdata_switch_None)
qed

lemma length_widen:
  "length d = 16 \<Longrightarrow> m = ''tv_sec'' \<or> m = ''tv_usec'' \<Longrightarrow> length (widen m data d) = 16"
  unfolding widen_def set_field_def
  by (subst length_overlay) (auto simp: offsetof_def typeof_def struct_defs)

text \<open>A branch returns the packet unchanged, except that a pack clears its size.\<close>

lemma getdata_switch_packet:
  assumes "getdata_switch b h c p = Some (q, d, nodata)" "case_ok c"
  shows "q = (if (\<exists>g. c = Pack g) \<and> d \<noteq> None then p\<lparr>sdp_data_size := 0\<rparr> else p)"
proof (cases c)
  case (Pack g)
  moreover have "g h p = (q, d)" using assms(1) Pack by (auto split: prod.splits)
  moreover have "fst (g h p) = (if snd (g h p) = None then p else p\<lparr>sdp_data_size := 0\<rparr>)"
    using assms(2) Pack by (simp only: case_ok.simps)
  ultimately show ?thesis by simp
qed (use assms in \<open>auto simp: Let_def split: option.splits prod.splits if_splits\<close>)

lemma getdata_switch_object:
  assumes "getdata_switch b h c p = Some (q, Some d, nodata)" "case_ok c" "object_type c = Some T"
  shows "length d = sizeof T" "unat (sdp_data_size p) \<le> sizeof T"
  using assms
  by (cases c; auto simp: Let_def VALID_SIZE_def length_widen length_overlay layout
      split: option.splits prod.splits if_splits dest!: alloc_object_length)+

lemma getdata_result_switch:
  assumes "getdata_result e p = Some (q, d, r)" "map_of (getdata_cases (tgt e)) (sdp_call_id p) = Some c"
  obtains d0 nodata where "getdata_switch (build_of e) (heap_of e) c p = Some (q, d0, nodata)"
    "d = (if nodata then d0 else map_option (overlay 0 (take (unat (sdp_data_size q)) (sdp_data q))) d0)"
    "case_ok c"
proof -
  have "case_ok c" using assms(2) by (blast dest: map_of_SomeD getdata_case_ok)
  then show ?thesis using assms that unfolding getdata_result_def
    by (auto split: option.splits prod.splits if_splits simp del: getdata_switch.simps case_ok.simps)
qed

lemma getdata_result_object:
  assumes c: "map_of (getdata_cases (tgt e)) (sdp_call_id p) = Some c" "object_type c = Some T"
    and len: "unat (sdp_data_size p) \<le> length (sdp_data p)"
    and res: "getdata_result e p = Some (q, Some d, r)"
  shows "length d = sizeof T" "unat (sdp_data_size p) \<le> sizeof T"
proof -
  obtain x nd where sw0: "getdata_switch (build_of e) (heap_of e) c p = Some (q, x, nd)" "case_ok c"
      "Some d = (if nd then x else map_option (overlay 0 (take (unat (sdp_data_size q)) (sdp_data q))) x)"
    by (rule getdata_result_switch [OF res c(1)])
  then obtain d0 where sw: "getdata_switch (build_of e) (heap_of e) c p = Some (q, Some d0, nd)" "case_ok c"
      "d = (if nd then d0 else overlay 0 (take (unat (sdp_data_size q)) (sdp_data q)) d0)"
    by (cases x) (auto simp del: getdata_switch.simps case_ok.simps split: if_splits)
  have "q = p" using getdata_switch_packet [OF sw(1,2)] c(2) by auto
  with getdata_switch_object [OF sw(1,2) c(2)] sw(3) len
  show "length d = sizeof T" "unat (sdp_data_size p) \<le> sizeof T" by (auto simp: length_overlay)
qed

text \<open>The structures of the packs.\<close>

definition pack_layouts :: "(u32 \<times> ctype \<times> ctype \<times> nat) list" where
  "pack_layouts =
    [(SUPLA_SC_CALL_LOCATIONPACK_UPDATE, TSC_SuplaLocationPack, TSC_SuplaLocation, SUPLA_LOCATIONPACK_MAXCOUNT),
     (SUPLA_SC_CALL_CHANNELPACK_UPDATE, TSC_SuplaChannelPack, TSC_SuplaChannel, SUPLA_CHANNELPACK_MAXCOUNT),
     (SUPLA_SC_CALL_CHANNELPACK_UPDATE_B, TSC_SuplaChannelPack_B, TSC_SuplaChannel_B, SUPLA_CHANNELPACK_MAXCOUNT),
     (SUPLA_SC_CALL_CHANNELPACK_UPDATE_C, TSC_SuplaChannelPack_C, TSC_SuplaChannel_C, SUPLA_CHANNELPACK_MAXCOUNT),
     (SUPLA_SC_CALL_CHANNELPACK_UPDATE_D, TSC_SuplaChannelPack_D, TSC_SuplaChannel_D, SUPLA_CHANNELPACK_MAXCOUNT),
     (SUPLA_SC_CALL_CHANNELPACK_UPDATE_E, TSC_SuplaChannelPack_E, TSC_SuplaChannel_E, SUPLA_CHANNELPACK_MAXCOUNT),
     (SUPLA_SC_CALL_CHANNELGROUP_PACK_UPDATE, TSC_SuplaChannelGroupPack, TSC_SuplaChannelGroup, SUPLA_CHANNELGROUP_PACK_MAXCOUNT),
     (SUPLA_SC_CALL_CHANNELGROUP_PACK_UPDATE_B, TSC_SuplaChannelGroupPack_B, TSC_SuplaChannelGroup_B, SUPLA_CHANNELGROUP_PACK_MAXCOUNT),
     (SUPLA_SC_CALL_SCENE_PACK_UPDATE, TSC_SuplaScenePack, TSC_SuplaScene, SUPLA_SCENE_PACK_MAXCOUNT),
     (SUPLA_SC_CALL_SCENE_STATE_PACK_UPDATE, TSC_SuplaSceneStatePack, TSC_SuplaSceneState, SUPLA_SCENE_STATE_PACK_MAXCOUNT)]"

fun pack_case_ok :: "u32 \<Rightarrow> getdata_case \<Rightarrow> bool" where
  "pack_case_ok i (Pack g) \<longleftrightarrow> (case map_of pack_layouts i of Some (P, I, m) \<Rightarrow> pack_safe g P I m | None \<Rightarrow> False)"
| "pack_case_ok i _ \<longleftrightarrow> True"

lemma pack_lookup:
  "map_of pack_layouts SUPLA_SC_CALL_LOCATIONPACK_UPDATE = Some (TSC_SuplaLocationPack, TSC_SuplaLocation, SUPLA_LOCATIONPACK_MAXCOUNT)"
  "map_of pack_layouts SUPLA_SC_CALL_CHANNELPACK_UPDATE = Some (TSC_SuplaChannelPack, TSC_SuplaChannel, SUPLA_CHANNELPACK_MAXCOUNT)"
  "map_of pack_layouts SUPLA_SC_CALL_CHANNELPACK_UPDATE_B = Some (TSC_SuplaChannelPack_B, TSC_SuplaChannel_B, SUPLA_CHANNELPACK_MAXCOUNT)"
  "map_of pack_layouts SUPLA_SC_CALL_CHANNELPACK_UPDATE_C = Some (TSC_SuplaChannelPack_C, TSC_SuplaChannel_C, SUPLA_CHANNELPACK_MAXCOUNT)"
  "map_of pack_layouts SUPLA_SC_CALL_CHANNELPACK_UPDATE_D = Some (TSC_SuplaChannelPack_D, TSC_SuplaChannel_D, SUPLA_CHANNELPACK_MAXCOUNT)"
  "map_of pack_layouts SUPLA_SC_CALL_CHANNELPACK_UPDATE_E = Some (TSC_SuplaChannelPack_E, TSC_SuplaChannel_E, SUPLA_CHANNELPACK_MAXCOUNT)"
  "map_of pack_layouts SUPLA_SC_CALL_CHANNELGROUP_PACK_UPDATE = Some (TSC_SuplaChannelGroupPack, TSC_SuplaChannelGroup, SUPLA_CHANNELGROUP_PACK_MAXCOUNT)"
  "map_of pack_layouts SUPLA_SC_CALL_CHANNELGROUP_PACK_UPDATE_B = Some (TSC_SuplaChannelGroupPack_B, TSC_SuplaChannelGroup_B, SUPLA_CHANNELGROUP_PACK_MAXCOUNT)"
  "map_of pack_layouts SUPLA_SC_CALL_SCENE_PACK_UPDATE = Some (TSC_SuplaScenePack, TSC_SuplaScene, SUPLA_SCENE_PACK_MAXCOUNT)"
  "map_of pack_layouts SUPLA_SC_CALL_SCENE_STATE_PACK_UPDATE = Some (TSC_SuplaSceneStatePack, TSC_SuplaSceneState, SUPLA_SCENE_STATE_PACK_MAXCOUNT)"
  unfolding pack_layouts_def by (simp_all add: const_defs)

lemma packs_ok_device:
  "list_all (\<lambda>(i, c). pack_case_ok i c) (getdata_common t)"
  "list_all (\<lambda>(i, c). pack_case_ok i c) (getdata_device1 t)"
  "list_all (\<lambda>(i, c). pack_case_ok i c) (getdata_device2 t)"
  unfolding getdata_common_def getdata_device1_def getdata_device2_def
  by (simp_all only: list.pred_inject pack_case_ok.simps prod.case simp_thms)

lemma packs_ok_client:
  "list_all (\<lambda>(i, c). pack_case_ok i c) (getdata_client1 t)"
  "list_all (\<lambda>(i, c). pack_case_ok i c) (getdata_client2 t)"
  "list_all (\<lambda>(i, c). pack_case_ok i c) (getdata_client3 t)"
  "list_all (\<lambda>(i, c). pack_case_ok i c) (getdata_client4 t)"
  unfolding getdata_client1_def getdata_client2_def getdata_client3_def getdata_client4_def
  by (simp_all only: list.pred_inject pack_case_ok.simps pack_lookup srpc_packs_safe prod.case option.case simp_thms)

lemmas packs_ok = packs_ok_device packs_ok_client

lemma getdata_pack_ok: "map_of (getdata_cases t) i = Some c \<Longrightarrow> pack_case_ok i c"
  using packs_ok [of t]
  by (auto simp: getdata_cases_def list_all_iff simp del: pack_case_ok.simps dest!: map_of_SomeD split: if_splits)

lemma getdata_pack_object:
  assumes "map_of (getdata_cases t) i = Some (Pack g)" "8 \<le> length (sdp_data p)" "g h p = (q, Some d)"
  shows "\<exists>P I m. map_of pack_layouts i = Some (P, I, m) \<and> 0 \<le> sfield P [''count''] d \<and>
    sfield P [''count''] d \<le> int m \<and> length d = 8 + sizeof I * nat (sfield P [''count''] d) \<and> sdp_data_size q = 0"
proof -
  obtain P I m where "map_of pack_layouts i = Some (P, I, m)" "pack_safe g P I m"
    using getdata_pack_ok [OF assms(1)] by (auto split: option.splits)
  then show ?thesis using assms(2,3) unfolding pack_safe_def Let_def by blast
qed

lemma getdata_result_packet:
  assumes "getdata_result e p = Some (q, d, r)"
  shows "q = p \<or> q = p\<lparr>sdp_data_size := 0\<rparr>"
proof (cases "map_of (getdata_cases (tgt e)) (sdp_call_id p)")
  case None
  then show ?thesis using assms by (simp add: getdata_result_def)
next
  case (Some c)
  from getdata_result_switch [OF assms Some] getdata_switch_packet show ?thesis by metis
qed

lemma well_formed_length:
  assumes "well_formed c d" "case_ok c" "object_type c = Some T"
  shows "length d \<le> sizeof T"
proof (cases c)
  case (Counted z T' I vars m)
  then obtain n where n: "n \<le> m" "length d = sizeof T' - sizeof I * m + sizeof I * n" using assms(1) by auto
  moreover have "sizeof I * n \<le> sizeof I * m" using n(1) by simp
  moreover have "sizeof I * m < sizeof T'" using assms(2) Counted by simp
  ultimately have "length d \<le> sizeof T'" by linarith
  then show ?thesis using assms(3) Counted by simp
qed (use assms in \<open>auto simp: layout\<close>)

lemma getdata_result_decodes:
  assumes c: "map_of (getdata_cases (tgt e)) (sdp_call_id p) = Some c" "object_type c = Some T"
    and d: "d = take (unat (sdp_data_size p)) (sdp_data p)" "length d = unat (sdp_data_size p)"
    and heap: "heap_ok (heap_of e) = (\<lambda>_. True)"
    and exact: "wide_enough (build_of e) (sdp_call_id p)"
    and ping: "\<not> (c = Ping \<and> length d = 8)"
  shows "\<exists>obj r. getdata_result e p = Some (p, obj, r) \<and>
    (if well_formed c d then r = SUPLA_RESULT_TRUE \<and> (\<exists>ob. obj = Some ob \<and> delivered c d ob)
     else r = SUPLA_RESULT_DATA_ERROR \<and> obj = None)"
proof -
  have mem: "(sdp_call_id p, c) \<in> set (getdata_cases (tgt e))" using c(1) by (rule map_of_SomeD)
  have ok: "case_ok c" by (rule getdata_case_ok [OF mem])
  have wrap: "64 \<le> size_t_bits (build_of e) \<or> no_wrap (size_t_bits (build_of e)) c"
    using wide_enough_no_wrap [OF mem exact] .
  define ob where "ob = alloc_object (heap_of e) (zeroed c) T"
  have sw: "getdata_switch (build_of e) (heap_of e) c p = Some (p, if well_formed c d then ob else None, False)"
  proof (cases c)
    case (Counted z T' I vars m)
    then show ?thesis using c(2) VALID_SIZE_iff [of z T' I vars m "build_of e" d p] ok wrap d
      by (simp add: ob_def del: case_ok.simps no_wrap.simps well_formed.simps(2))
  next
    case Firmware_Url
    have "map_option (overlay 0 (replicate (sizeof T) 0)) (alloc_object (heap_of e) True T) = alloc_object (heap_of e) True T"
      by (cases "alloc_object (heap_of e) True T") (auto simp: overlay_0 dest: alloc_object_zero)
    then show ?thesis using Firmware_Url c(2) d by (auto simp: ob_def Let_def)
  qed (use c(2) d(2) ping in \<open>auto simp: ob_def Let_def layout\<close>)
  have "delivered c d (overlay 0 d b)" if "ob = Some b" "length d \<le> sizeof T" for b
  proof -
    have "length b = sizeof T" using that(1) unfolding ob_def by (rule alloc_object_length)
    moreover have "zeroed c \<longrightarrow> b = replicate (sizeof T) 0"
      using that(1) unfolding ob_def by (cases "zeroed c") (auto dest: alloc_object_zero)
    ultimately show ?thesis using that(2) c(2) by (auto simp: delivered_def overlay_0)
  qed
  moreover obtain b where "ob = Some b" using alloc_object_ok [OF heap] unfolding ob_def by blast
  ultimately show ?thesis unfolding getdata_result_def c(1) using sw d(1) well_formed_length [OF _ ok c(2), of d] by auto
qed

text \<open>The widened ping.\<close>

lemma ping_offsets:
  "offsetof TDCS_SuplaPingServer [''now'', ''tv_sec''] = 0" "typeof TDCS_SuplaPingServer [''now'', ''tv_sec''] = I64"
  "offsetof TDCS_SuplaPingServer [''now'', ''tv_usec''] = 8" "typeof TDCS_SuplaPingServer [''now'', ''tv_usec''] = I64"
  "typeof TDCS_SuplaPingServer_COMPAT [''now'', ''tv_sec''] = I32" "typeof TDCS_SuplaPingServer_COMPAT [''now'', ''tv_usec''] = I32"
  by (simp_all add: offsetof_def typeof_def struct_defs)

lemma sfield_I32_range:
  assumes "typeof T v = I32"
  shows "- (2 ^ 31) \<le> sfield T v d \<and> sfield T v d < 2 ^ 31"
proof -
  have "field T v d < 2 ^ 32" using field_bound [of T v d] assms by simp
  then show ?thesis unfolding sfield_def Let_def by (auto simp: assms)
qed

lemma signed_64:
  assumes "- (2 ^ 31) \<le> x" "x < 2 ^ 31"
  shows "(let v = nat (x mod 2 ^ 64) mod 256 ^ 8 in if 2 * v < 256 ^ 8 then int v else int v - 256 ^ 8) = x"
proof (cases "0 \<le> x")
  case True
  then have "x mod 2 ^ 64 = x" using assms by simp
  then show ?thesis using True assms by (simp add: Let_def)
next
  case False
  then have "x mod 2 ^ 64 = x + 2 ^ 64" using assms mod_pos_pos_trivial [of "x + 2 ^ 64" "2 ^ 64"] by simp
  then show ?thesis using False assms by (simp add: Let_def)
qed

lemma sfield_widen_same:
  assumes "length d = 16" "m = ''tv_sec'' \<or> m = ''tv_usec''"
  shows "sfield TDCS_SuplaPingServer [''now'', m] (widen m data d) = sfield TDCS_SuplaPingServer_COMPAT [''now'', m] data"
proof -
  define x where "x = sfield TDCS_SuplaPingServer_COMPAT [''now'', m] data"
  have r: "- (2 ^ 31) \<le> x" "x < 2 ^ 31"
    using sfield_I32_range [of TDCS_SuplaPingServer_COMPAT "[''now'', m]" data] assms(2) ping_offsets by (auto simp: x_def)
  have "seg (offsetof TDCS_SuplaPingServer [''now'', m]) 8 (widen m data d) = le_bytes 8 (nat (x mod 2 ^ 64))"
    using assms seg_overlay_same [of "offsetof TDCS_SuplaPingServer [''now'', m]" d "le_bytes 8 (nat (x mod 2 ^ 64))"]
    by (auto simp: widen_def set_field_def x_def ping_offsets)
  then have "field TDCS_SuplaPingServer [''now'', m] (widen m data d) = nat (x mod 2 ^ 64) mod 256 ^ 8"
    using assms(2) by (auto simp: field_def ping_offsets le_nat_le_bytes)
  then show ?thesis unfolding sfield_def [of TDCS_SuplaPingServer] using signed_64 [OF r] assms(2)
    by (auto simp: x_def ping_offsets Let_def)
qed

lemma sfield_widen_other:
  assumes "length d = 16"
  shows "sfield TDCS_SuplaPingServer [''now'', ''tv_sec''] (widen ''tv_usec'' data d) =
    sfield TDCS_SuplaPingServer [''now'', ''tv_sec''] d"
proof -
  have "seg 0 8 (widen ''tv_usec'' data d) = seg 0 8 d"
    using assms by (simp add: widen_def set_field_def ping_offsets seg_0)
  then show ?thesis by (simp add: sfield_def field_def ping_offsets)
qed

lemma srpc_in_queue_pop_inv:
  assumes "srpc_inv (tgt e) s" "srpc_in_queue_pop e s rr = (s', r)"
  shows "srpc_inv (tgt e) s'"
proof (cases "srpc_without_queues (tgt e)")
  case True
  then show ?thesis using assms by (simp add: srpc_in_queue_pop_def)
next
  case False
  have qi: "queue_inv (tgt e) (in_queue s)" using assms(1) by (simp add: srpc_inv_def)
  obtain q p where qp: "srpc_queue_pop (tgt e) (in_queue s) (sdp s) rr = (q, p, r)" "s' = s\<lparr>in_queue := q, sdp := p\<rparr>"
    using assms(2) False by (auto simp: srpc_in_queue_pop_def split: prod.splits)
  show ?thesis using srpc_queue_pop_spec [OF qi qp(1)] assms(1) qp(2) by (auto simp: srpc_inv_def)
qed

lemma lck_srpc_in_queue_pop: "srpc_in_queue_pop e s rr = (s', r) \<Longrightarrow> lck s' = lck s"
  by (auto simp: srpc_in_queue_pop_def split: if_splits prod.splits)

section \<open>Properties\<close>

text \<open>C18. Decoding implements the message format for every call that is delivered as one structure (not
  the calls without data, the packs and the old 8-byte ping): when allocation succeeds, a packet whose
  payload has the size its structure and its own item count call for is delivered as an object that
  starts with the payload (followed by zeros where the code allocates with \<open>calloc\<close>); any other
  payload of such a call gives \<open>SUPLA_RESULT_DATA_ERROR\<close> and no object.  The format is stated over
  mathematical integers; the code agrees with it where the arithmetic of its size check cannot wrap
  around: on 64-bit builds for every call, on 32-bit device builds for every call of the device part, and
  on AVR, where \<open>int\<close> and \<open>size_t\<close> have 16 bits, for these except the push notification.\<close>

theorem srpc_getdata_decodes:
  assumes pop: "srpc_in_queue_pop e (srpc_lock e s) rr = (s1, SUPLA_RESULT_TRUE)"
    and p: "p = sdp s1" "packet_wf (tgt e) p" "unat (sdp_data_size p) \<le> SUPLA_MAX_DATA_SIZE (tgt e)"
    and c: "map_of (getdata_cases (tgt e)) (sdp_call_id p) = Some c" "object_type c \<noteq> None"
      "c = Ping \<Longrightarrow> sdp_data_size p \<noteq> 8"
    and heap: "heap_ok (heap_of e) = (\<lambda>_. True)"
    and width: "wide_enough (build_of e) (sdp_call_id p)"
  shows "\<exists>obj r. srpc_getdata e s rd rr =
      Some (srpc_unlock e s1, rd\<lparr>rd_call_id := sdp_call_id p, rd_rr_id := sdp_rr_id p, rd_data := obj\<rparr>, r) \<and>
    (if well_formed c (m_payload (msg_of p))
     then r = SUPLA_RESULT_TRUE \<and> (\<exists>ob. obj = Some ob \<and> delivered c (m_payload (msg_of p)) ob)
     else r = SUPLA_RESULT_DATA_ERROR \<and> obj = None)"
proof -
  define d where "d = take (unat (sdp_data_size p)) (sdp_data p)"
  have d: "length d = unat (sdp_data_size p)" "m_payload (msg_of p) = d"
    using p by (simp_all add: d_def msg_of_def packet_wf_def)
  have "\<not> (c = Ping \<and> length d = 8)" using c(3) d(1) by (auto simp: unat_eq_8)
  moreover obtain T where "object_type c = Some T" using c(2) by auto
  ultimately obtain obj r where res: "getdata_result e p = Some (p, obj, r)"
    "if well_formed c d then r = SUPLA_RESULT_TRUE \<and> (\<exists>ob. obj = Some ob \<and> delivered c d ob)
     else r = SUPLA_RESULT_DATA_ERROR \<and> obj = None"
    using getdata_result_decodes [OF c(1) _ d_def d(1) heap width] by blast
  have "srpc_getdata e s rd rr =
      Some (srpc_unlock e s1, rd\<lparr>rd_call_id := sdp_call_id p, rd_rr_id := sdp_rr_id p, rd_data := obj\<rparr>, r)"
    using pop p(1) res(1) by (simp add: srpc_getdata_eq)
  then show ?thesis unfolding d(2) using res(2) by blast
qed

text \<open>C21. Decoding never writes outside the object it allocated, for every call, every payload the
  packet can hold and every allocator behaviour, on every build (with wrapped size arithmetic too).  For
  a call delivered as one structure the object has the size of the structure and the bytes copied fit.
  For a pack, whose items are expanded one by one with captions of a received length, the block handed
  out has exactly the size of a header and of as many items as its count says, the count is between zero
  and the maximum, and the packet is not copied over it.  A write beyond the end of an object would
  lengthen it.\<close>

theorem srpc_getdata_in_bounds:
  assumes pop: "srpc_in_queue_pop e (srpc_lock e s) rr = (s1, SUPLA_RESULT_TRUE)"
    and p: "packet_wf (tgt e) (sdp s1)" "unat (sdp_data_size (sdp s1)) \<le> SUPLA_MAX_DATA_SIZE (tgt e)"
    and res: "srpc_getdata e s rd rr = Some (s', rd', r)" "rd_data rd' = Some obj"
  shows "\<exists>c. map_of (getdata_cases (tgt e)) (sdp_call_id (sdp s1)) = Some c \<and> r = SUPLA_RESULT_TRUE \<and>
    (case object_type c of
       Some T \<Rightarrow> length obj = sizeof T \<and> unat (sdp_data_size (sdp s1)) \<le> sizeof T
     | None \<Rightarrow> sdp_data_size (sdp s') = 0 \<and>
         (\<exists>P I m. map_of pack_layouts (sdp_call_id (sdp s1)) = Some (P, I, m) \<and>
            0 \<le> sfield P [''count''] obj \<and> sfield P [''count''] obj \<le> int m \<and>
            length obj = 8 + sizeof I * nat (sfield P [''count''] obj)))"
proof -
  obtain q where q: "getdata_result e (sdp s1) = Some (q, Some obj, r)" "sdp s' = q"
    using pop res by (auto simp: srpc_getdata_eq srpc_unlock_def)
  then obtain c where c: "map_of (getdata_cases (tgt e)) (sdp_call_id (sdp s1)) = Some c"
    by (cases "map_of (getdata_cases (tgt e)) (sdp_call_id (sdp s1))") (auto simp: getdata_result_def)
  obtain x nd where sw: "getdata_switch (build_of e) (heap_of e) c (sdp s1) = Some (q, x, nd)" "case_ok c"
      "Some obj = (if nd then x else map_option (overlay 0 (take (unat (sdp_data_size q)) (sdp_data q))) x)"
    by (rule getdata_result_switch [OF q(1) c])
  have r: "r = SUPLA_RESULT_TRUE" using q(1) c sw unfolding getdata_result_def
    by (auto split: if_splits simp del: getdata_switch.simps case_ok.simps)
  have len: "8 \<le> length (sdp_data (sdp s1))" using p(1) target_sizes(2) [of "tgt e"] by (simp add: packet_wf_def)
  show ?thesis
  proof (cases "object_type c")
    case None
    then obtain g where g: "c = Pack g" using sw(1,3) by (cases c) (auto split: if_splits)
    then obtain ob where ob: "x = Some ob" "g (heap_of e) (sdp s1) = (q, Some ob)" "\<not> nd"
      using sw(1,3) by (cases x) (auto split: prod.splits if_splits)
    then show ?thesis using getdata_pack_object [OF c [unfolded g] len ob(2)] sw(3) r c q(2) None
      by (auto simp: overlay_0)
  next
    case (Some T)
    then show ?thesis using r c q getdata_result_object [OF c _ _ q(1)] p by (auto simp: packet_wf_def)
  qed
qed

text \<open>The only way \<open>srpc_getdata\<close> can fail to return is the null pointer it dereferences when the
  allocation for an old 8-byte ping fails; every other call returns for every packet and allocator
  behaviour.\<close>

theorem srpc_getdata_null_ping:
  "srpc_getdata e s rd rr = None \<longleftrightarrow>
     (let (s1, r) = srpc_in_queue_pop e (srpc_lock e s) rr
      in r = SUPLA_RESULT_TRUE \<and> sdp_call_id (sdp s1) = SUPLA_DCS_CALL_PING_SERVER \<and> sdp_data_size (sdp s1) = 8 \<and>
         tgt e \<noteq> AVR \<and> \<not> heap_ok (heap_of e) (sizeof TDCS_SuplaPingServer))"
  by (auto simp: srpc_getdata_eq getdata_result_None split: prod.splits)

text \<open>Decoding keeps the handle invariant and the lock depth, on every branch.\<close>

theorem srpc_getdata_keeps:
  assumes "srpc_getdata e s rd rr = Some (s', rd', r)" and "srpc_inv (tgt e) s"
  shows "srpc_inv (tgt e) s' \<and> lck s' = lck s"
proof -
  obtain s1 r1 where pop: "srpc_in_queue_pop e (srpc_lock e s) rr = (s1, r1)" by fastforce
  have i: "srpc_inv (tgt e) s1" using srpc_in_queue_pop_inv [OF _ pop] assms(2) by simp
  have l: "lck (srpc_unlock e s1) = lck s" using lck_srpc_in_queue_pop [OF pop] by simp
  have "srpc_inv (tgt e) (s1\<lparr>sdp := q\<rparr>)" if "getdata_result e (sdp s1) = Some (q, d, x)" for q d x
    using getdata_result_packet [OF that] i by (auto simp: srpc_inv_def packet_wf_def)
  then show ?thesis using assms(1) pop i l
    by (auto simp: srpc_getdata_eq srpc_unlock_def srpc_inv_def split: if_splits)
qed

text \<open>The old ping with 32-bit times is delivered as a ping with 64-bit times of the same value,
  negative values included.\<close>

theorem srpc_getdata_compat_ping:
  assumes pop: "srpc_in_queue_pop e (srpc_lock e s) rr = (s1, SUPLA_RESULT_TRUE)"
    and p: "packet_wf (tgt e) (sdp s1)" "sdp_call_id (sdp s1) = SUPLA_DCS_CALL_PING_SERVER" "sdp_data_size (sdp s1) = 8"
    and t: "tgt e \<noteq> AVR" and heap: "heap_ok (heap_of e) (sizeof TDCS_SuplaPingServer)"
  shows "\<exists>obj. srpc_getdata e s rd rr = Some (srpc_unlock e s1,
      rd\<lparr>rd_call_id := SUPLA_DCS_CALL_PING_SERVER, rd_rr_id := sdp_rr_id (sdp s1), rd_data := Some obj\<rparr>, SUPLA_RESULT_TRUE) \<and>
    length obj = sizeof TDCS_SuplaPingServer \<and>
    sfield TDCS_SuplaPingServer [''now'', ''tv_sec''] obj =
      sfield TDCS_SuplaPingServer_COMPAT [''now'', ''tv_sec''] (sdp_data (sdp s1)) \<and>
    sfield TDCS_SuplaPingServer [''now'', ''tv_usec''] obj =
      sfield TDCS_SuplaPingServer_COMPAT [''now'', ''tv_usec''] (sdp_data (sdp s1))"
proof -
  define z where "z = replicate 16 (0 :: u8)"
  define a where "a = widen ''tv_sec'' (sdp_data (sdp s1)) z"
  define b where "b = widen ''tv_usec'' (sdp_data (sdp s1)) a"
  have l: "length z = 16" "length a = 16" "length b = 16" by (simp_all add: z_def a_def b_def length_widen)
  have "getdata_result e (sdp s1) = Some (sdp s1, Some b, SUPLA_RESULT_TRUE)"
    using p t heap by (simp add: getdata_result_def ping_case layout alloc_object_def calloc_def z_def a_def b_def)
  then have "srpc_getdata e s rd rr = Some (srpc_unlock e s1,
      rd\<lparr>rd_call_id := SUPLA_DCS_CALL_PING_SERVER, rd_rr_id := sdp_rr_id (sdp s1), rd_data := Some b\<rparr>, SUPLA_RESULT_TRUE)"
    using pop p(2) by (simp add: srpc_getdata_eq)
  moreover have "sfield TDCS_SuplaPingServer [''now'', ''tv_sec''] b = sfield TDCS_SuplaPingServer [''now'', ''tv_sec''] a"
    unfolding b_def by (rule sfield_widen_other [OF l(2)])
  ultimately show ?thesis using sfield_widen_same [OF l(2), of "''tv_usec''" "sdp_data (sdp s1)"]
      sfield_widen_same [OF l(1), of "''tv_sec''" "sdp_data (sdp s1)"] l(3)
    by (intro exI [of _ b]) (simp add: b_def a_def layout)
qed

text \<open>On a 32-bit build with the client part, the item count of a pack is not validated: the product
  \<open>count * sizeof(item)\<close> wraps around, and a channel-value pack that carries no item is delivered with
  the count \<open>-2^31\<close> (a multiple of the modulus because the item size is even).\<close>

theorem srpc_getdata_count_wrap:
  assumes pop: "srpc_in_queue_pop e (srpc_lock e s) rr = (s1, SUPLA_RESULT_TRUE)"
    and e: "build_of e = \<lparr>target = OTHER, size_t_bits = 32\<rparr>" "heap_ok (heap_of e) = (\<lambda>_. True)"
    and p: "sdp_call_id (sdp s1) = SUPLA_SC_CALL_CHANNELVALUE_PACK_UPDATE" "sdp_data_size (sdp s1) = 8"
      "take 8 (sdp_data (sdp s1)) = [0, 0, 0, 0x80, 0, 0, 0, 0]"
  shows "\<exists>obj. srpc_getdata e s rd rr = Some (srpc_unlock e s1,
      rd\<lparr>rd_call_id := SUPLA_SC_CALL_CHANNELVALUE_PACK_UPDATE, rd_rr_id := sdp_rr_id (sdp s1), rd_data := Some obj\<rparr>,
      SUPLA_RESULT_TRUE) \<and>
    sfield TSC_SuplaChannelValuePack [''count''] obj = - (2 ^ 31)"
proof -
  have c: "map_of (getdata_cases OTHER) SUPLA_SC_CALL_CHANNELVALUE_PACK_UPDATE =
      Some (Counted True TSC_SuplaChannelValuePack TSC_SuplaChannelValue [[''count'']] SUPLA_CHANNELVALUE_PACK_MAXCOUNT)"
    by (simp add: getdata_cases_def getdata_common_def getdata_device1_def getdata_device2_def getdata_client1_def
        getdata_client2_def SRPC_EXCLUDE_CLIENT_def const_defs)
  have o: "offsetof TSC_SuplaChannelValuePack [''count''] = 0" "typeof TSC_SuplaChannelValuePack [''count''] = I32"
    by (simp_all add: offsetof_def typeof_def struct_defs)
  have f: "field TSC_SuplaChannelValuePack [''count''] d = 2 ^ 31" if "take 8 d = [0, 0, 0, 0x80, 0, 0, 0, 0]" for d
  proof -
    have "take 4 d = take 4 (take 8 d)" by simp
    then show ?thesis unfolding that by (simp add: field_def o seg_0)
  qed
  have sf: "sfield TSC_SuplaChannelValuePack [''count''] d = - (2 ^ 31)" if "take 8 d = [0, 0, 0, 0x80, 0, 0, 0, 0]" for d
    using f [OF that] by (simp add: sfield_def o)
  define obj where "obj = overlay 0 (take 8 (sdp_data (sdp s1))) (replicate (sizeof TSC_SuplaChannelValuePack) 0)"
  have "VALID_SIZE (build_of e) (sdp s1) TSC_SuplaChannelValuePack TSC_SuplaChannelValue [[''count'']] SUPLA_CHANNELVALUE_PACK_MAXCOUNT"
    using sf [OF p(3)] p(2) by (simp add: VALID_SIZE_def product_bits_def cfield_def o e layout const_defs)
  then have "getdata_result e (sdp s1) = Some (sdp s1, Some obj, SUPLA_RESULT_TRUE)"
    using p(2) e by (simp add: getdata_result_def p(1) c alloc_object_def calloc_def obj_def)
  moreover have "take 8 obj = [0, 0, 0, 0x80, 0, 0, 0, 0]" unfolding obj_def p(3) by (simp add: overlay_0)
  ultimately show ?thesis using pop p(1) sf by (intro exI [of _ obj]) (simp add: srpc_getdata_eq)
qed

text \<open>On AVR the sizes of the title and the text of a push notification are added in 16 bits: a packet
  that carries no text is accepted although it announces a title of 65535 bytes and a text of one.\<close>

lemma VALID_SIZE_push_wrap:
  assumes "size_t_bits b = 16" "sdp_data_size p = of_nat (sizeof TDS_PushNotification - (SUPLA_PN_TITLE_MAXSIZE + SUPLA_PN_BODY_MAXSIZE))"
    and "field TDS_PushNotification [''TitleSize''] (sdp_data p) = 65535" "field TDS_PushNotification [''BodySize''] (sdp_data p) = 1"
  shows "VALID_SIZE b p TDS_PushNotification CChar [[''TitleSize''], [''BodySize'']] (SUPLA_PN_TITLE_MAXSIZE + SUPLA_PN_BODY_MAXSIZE)"
  using assms by (simp add: VALID_SIZE_def product_bits_def cfield_def typeof_def struct_defs layout const_defs)

section \<open>Witnesses\<close>

text \<open>A received packet, and a handle that holds it (in the input queue where the build has one).\<close>

definition received :: "target \<Rightarrow> u32 \<Rightarrow> bytes \<Rightarrow> packet" where
  "received t call_id d =
     (sdp_zero t)\<lparr>sdp_version := 25, sdp_rr_id := 1, sdp_call_id := call_id, sdp_data_size := of_nat (length d),
       sdp_data := overlay 0 d (replicate (SUPLA_MAX_DATA_SIZE t) 0)\<rparr>"

definition holding :: "target \<Rightarrow> packet \<Rightarrow> inbox Tsrpc" where
  "holding t p =
     (if srpc_without_queues t then (fresh t ([], []))\<lparr>sdp := p\<rparr>
      else (fresh t ([], []))\<lparr>in_queue := fst (srpc_queue_push t heap_any (queue_zero t) p)\<rparr>)"

definition rd_blank :: TsrpcReceivedData where
  "rd_blank = \<lparr>rd_call_id = 0, rd_rr_id = 0, rd_data = None\<rparr>"

lemma received_simps [simp]:
  "sdp_call_id (received t c d) = c" "sdp_rr_id (received t c d) = 1"
  "sdp_data_size (received t c d) = of_nat (length d)"
  "length d \<le> SUPLA_MAX_DATA_SIZE t \<Longrightarrow> packet_wf t (received t c d)"
  "k \<le> length d \<Longrightarrow> take k (sdp_data (received t c d)) = take k d"
  by (simp_all add: received_def sdp_zero_def packet_wf_def overlay_0)

lemma holding_pop:
  "\<exists>s1. srpc_in_queue_pop (recorder_env t w heap_any) (srpc_lock (recorder_env t w heap_any) (holding t p)) 0 =
     (s1, SUPLA_RESULT_TRUE) \<and> sdp s1 = p"
proof (cases "srpc_without_queues t")
  case True
  then show ?thesis
    by (simp add: srpc_in_queue_pop_def holding_def srpc_lock_def recorder_env_def)
next
  case False
  obtain q where q: "srpc_queue_push t heap_any (queue_zero t) p = (q, SUPLA_RESULT_TRUE)"
    using False by (cases t) (auto simp: srpc_queue_push_def queue_zero_def heap_any_def Let_def)
  then have i: "queue_inv t q" "queued q = [p]"
    using srpc_queue_push_spec [OF queue_zero_inv(1) q] queue_zero_inv(2) [of t] by simp_all
  obtain q' p' r where pop: "srpc_queue_pop t q (sdp_zero t) 0 = (q', p', r)" by (metis prod_cases3)
  have "r = SUPLA_RESULT_TRUE \<and> p' = p"
    using srpc_queue_pop_spec [OF i(1) pop] i(2) by (auto simp: matches_def Cons_eq_append_conv)
  then show ?thesis using False q pop
    by (simp add: srpc_in_queue_pop_def holding_def srpc_lock_def recorder_env_def fresh_def)
qed

lemma recorder_env_sel [simp]:
  "build_of (recorder_env t w h) = \<lparr>target = t, size_t_bits = w\<rparr>" "heap_of (recorder_env t w h) = h"
  "heap_ok heap_any = (\<lambda>_. True)"
  by (simp_all add: recorder_env_def heap_any_def)

lemma value_case:
  "map_of (getdata_cases t) SUPLA_SD_CALL_CHANNEL_SET_VALUE = Some (Exact True TSD_SuplaChannelNewValue)"
  by (simp add: getdata_cases_def getdata_common_def getdata_device1_def const_defs)

theorem srpc_getdata_decodes_witness:
  "\<exists>s' ob. srpc_getdata (recorder_env DEVICE 32 heap_any)
      (holding DEVICE (received DEVICE SUPLA_SD_CALL_CHANNEL_SET_VALUE (replicate 17 7))) rd_blank 0 =
    Some (s', \<lparr>rd_call_id = SUPLA_SD_CALL_CHANNEL_SET_VALUE, rd_rr_id = 1, rd_data = Some ob\<rparr>, SUPLA_RESULT_TRUE) \<and>
    delivered (Exact True TSD_SuplaChannelNewValue) (replicate 17 7) ob"
proof -
  let ?p = "received DEVICE SUPLA_SD_CALL_CHANNEL_SET_VALUE (replicate 17 7)"
  let ?e = "recorder_env DEVICE 32 heap_any"
  obtain s1 where s1: "srpc_in_queue_pop ?e (srpc_lock ?e (holding DEVICE ?p)) 0 = (s1, SUPLA_RESULT_TRUE)" "?p = sdp s1"
    using holding_pop by metis
  have pl: "m_payload (msg_of ?p) = replicate 17 7" by (simp add: msg_of_def)
  have "\<exists>obj r. srpc_getdata ?e (holding DEVICE ?p) rd_blank 0 =
      Some (srpc_unlock ?e s1, rd_blank\<lparr>rd_call_id := sdp_call_id ?p, rd_rr_id := sdp_rr_id ?p, rd_data := obj\<rparr>, r) \<and>
    (if well_formed (Exact True TSD_SuplaChannelNewValue) (m_payload (msg_of ?p))
     then r = SUPLA_RESULT_TRUE \<and> (\<exists>ob. obj = Some ob \<and> delivered (Exact True TSD_SuplaChannelNewValue) (m_payload (msg_of ?p)) ob)
     else r = SUPLA_RESULT_DATA_ERROR \<and> obj = None)"
    by (rule srpc_getdata_decodes [OF s1]) (simp_all add: value_case wide_enough_def SRPC_EXCLUDE_CLIENT_def)
  then show ?thesis unfolding pl by (auto simp: layout rd_blank_def)
qed

theorem srpc_getdata_in_bounds_witness:
  "\<exists>s' rd' r ob. srpc_getdata (recorder_env DEVICE 32 heap_any)
      (holding DEVICE (received DEVICE SUPLA_SD_CALL_CHANNEL_SET_VALUE (replicate 17 7))) rd_blank 0 = Some (s', rd', r) \<and>
    rd_data rd' = Some ob \<and> length ob = 17"
proof -
  let ?p = "received DEVICE SUPLA_SD_CALL_CHANNEL_SET_VALUE (replicate 17 7)"
  let ?e = "recorder_env DEVICE 32 heap_any"
  obtain s1 where s1: "srpc_in_queue_pop ?e (srpc_lock ?e (holding DEVICE ?p)) 0 = (s1, SUPLA_RESULT_TRUE)" "sdp s1 = ?p"
    using holding_pop by metis
  obtain q ob r where g: "getdata_result ?e ?p = Some (q, Some ob, r)"
    by (simp add: getdata_result_def value_case layout alloc_object_def calloc_def)
  then have res: "srpc_getdata ?e (holding DEVICE ?p) rd_blank 0 =
      Some (srpc_unlock ?e (s1\<lparr>sdp := q\<rparr>), rd_blank\<lparr>rd_call_id := sdp_call_id ?p, rd_rr_id := 1, rd_data := Some ob\<rparr>, r)"
    using s1 by (simp add: srpc_getdata_eq)
  have "length ob = 17"
    using srpc_getdata_in_bounds [OF s1(1) _ _ res, of ob] s1(2) by (auto simp: value_case layout)
  then show ?thesis using res by auto
qed

theorem srpc_getdata_keeps_witness:
  "\<exists>s' rd' r. srpc_getdata (recorder_env DEVICE 32 heap_any) (fresh DEVICE ([], [])) rd_blank 0 = Some (s', rd', r) \<and>
    srpc_inv DEVICE s' \<and> lck s' = None"
proof -
  have "\<exists>s' rd' r. srpc_getdata (recorder_env DEVICE 32 heap_any) (fresh DEVICE ([], [])) rd_blank 0 = Some (s', rd', r)"
    by (simp add: srpc_getdata_eq srpc_in_queue_pop_def getdata_result_def getdata_cases_def getdata_common_def
        getdata_device1_def getdata_device2_def SRPC_EXCLUDE_CLIENT_def const_defs srpc_lock_def fresh_def sdp_zero_def)
  then show ?thesis
    using srpc_getdata_keeps [of "recorder_env DEVICE 32 heap_any" "fresh DEVICE ([], [])" rd_blank 0]
      fresh_inv(1) [of DEVICE "([], []) :: inbox"] by (auto simp: fresh_def)
qed

theorem srpc_getdata_compat_ping_witness:
  "\<exists>s' obj. srpc_getdata (recorder_env DEVICE 32 heap_any)
      (holding DEVICE (received DEVICE SUPLA_DCS_CALL_PING_SERVER (replicate 8 255))) rd_blank 0 =
    Some (s', \<lparr>rd_call_id = SUPLA_DCS_CALL_PING_SERVER, rd_rr_id = 1, rd_data = Some obj\<rparr>, SUPLA_RESULT_TRUE) \<and>
    length obj = 16"
proof -
  let ?p = "received DEVICE SUPLA_DCS_CALL_PING_SERVER (replicate 8 255)"
  let ?e = "recorder_env DEVICE 32 heap_any"
  obtain s1 where s1: "srpc_in_queue_pop ?e (srpc_lock ?e (holding DEVICE ?p)) 0 = (s1, SUPLA_RESULT_TRUE)" "sdp s1 = ?p"
    using holding_pop by metis
  show ?thesis using srpc_getdata_compat_ping [OF s1(1), of rd_blank] s1(2) by (auto simp: layout rd_blank_def)
qed

theorem srpc_getdata_count_wrap_witness:
  "\<exists>s' obj. srpc_getdata (recorder_env OTHER 32 heap_any)
      (holding OTHER (received OTHER SUPLA_SC_CALL_CHANNELVALUE_PACK_UPDATE [0, 0, 0, 0x80, 0, 0, 0, 0])) rd_blank 0 =
    Some (s', \<lparr>rd_call_id = SUPLA_SC_CALL_CHANNELVALUE_PACK_UPDATE, rd_rr_id = 1, rd_data = Some obj\<rparr>, SUPLA_RESULT_TRUE) \<and>
    sfield TSC_SuplaChannelValuePack [''count''] obj = - (2 ^ 31)"
proof -
  let ?p = "received OTHER SUPLA_SC_CALL_CHANNELVALUE_PACK_UPDATE [0, 0, 0, 0x80, 0, 0, 0, 0]"
  let ?e = "recorder_env OTHER 32 heap_any"
  obtain s1 where s1: "srpc_in_queue_pop ?e (srpc_lock ?e (holding OTHER ?p)) 0 = (s1, SUPLA_RESULT_TRUE)" "sdp s1 = ?p"
    using holding_pop by metis
  show ?thesis using srpc_getdata_count_wrap [OF s1(1), of rd_blank] s1(2) by (auto simp: rd_blank_def)
qed

end
