(* ===== verification/Srpc_Send.thy ===== *)
theory Srpc_Send
  imports Srpc_Getdata
begin

text \<open>
  The sending functions of \<open>srpc.c\<close>, one definition per \<open>srpc_*_async_*\<close> function that is not a pack
  (those are in \<open>Srpc_Pack\<close>), in the order of the source.

  An object argument is its bytes.  A pointer that the function tests, or only passes on, is a
  \<open>bytes option\<close>; a pointer that the function dereferences without a test is \<open>bytes\<close>.  A local
  structure, all of whose members are assigned, starts as zeros.  The result is the handle and the
  request identifier, or 0 when nothing is sent.
\<close>

section \<open>Operations\<close>

text \<open>The comparison \<open>size > sizeof(T)\<close> of a signed 32-bit \<open>size\<close> with a \<open>size_t\<close>: where \<open>size_t\<close> is at
  least as wide as \<open>size\<close>, a negative \<open>size\<close> is converted to a huge unsigned value.\<close>

definition size_gt :: "'u env \<Rightarrow> int \<Rightarrow> nat \<Rightarrow> bool" where
  "size_gt e sz n \<longleftrightarrow> int n < sz \<or> sz < 0 \<and> 32 \<le> size_t_bits (build_of e)"

definition srpc_dcs_async_getversion :: "'u env \<Rightarrow> 'u Tsrpc option \<Rightarrow> 'u Tsrpc option \<times> int" where
  "srpc_dcs_async_getversion e srpc = srpc_async_call e srpc SUPLA_DCS_CALL_GETVERSION None 0"

definition srpc_sdc_async_getversion_result :: "'u env \<Rightarrow> 'u Tsrpc option \<Rightarrow> bytes \<Rightarrow> 'u Tsrpc option \<times> int" where
  "srpc_sdc_async_getversion_result e srpc SoftVer =
     (let gvr = replicate (sizeof TSDC_SuplaGetVersionResult) 0;
          gvr = set_field TSDC_SuplaGetVersionResult [''proto_version''] SUPLA_PROTO_VERSION gvr;
          gvr = set_field TSDC_SuplaGetVersionResult [''proto_version_min''] SUPLA_PROTO_VERSION_MIN gvr;
          gvr = overlay (offsetof TSDC_SuplaGetVersionResult [''SoftVer'']) (take SUPLA_SOFTVER_MAXSIZE SoftVer) gvr
      in srpc_async_call e srpc SUPLA_SDC_CALL_GETVERSION_RESULT (Some gvr) (of_nat (sizeof TSDC_SuplaGetVersionResult)))"

definition srpc_sdc_async_versionerror :: "'u env \<Rightarrow> 'u Tsrpc option \<Rightarrow> u8 \<Rightarrow> 'u Tsrpc option \<times> int" where
  "srpc_sdc_async_versionerror e srpc remote_version =
     (let ve = replicate (sizeof TSDC_SuplaVersionError) 0;
          ve = set_field TSDC_SuplaVersionError [''server_version''] SUPLA_PROTO_VERSION ve;
          ve = set_field TSDC_SuplaVersionError [''server_version_min''] SUPLA_PROTO_VERSION_MIN ve
      in srpc_async__call e srpc SUPLA_SDC_CALL_VERSIONERROR (Some ve) (of_nat (sizeof TSDC_SuplaVersionError))
           (Some remote_version))"

text \<open>The clock is an argument: seconds and microseconds, as \<open>system_get_time\<close> or \<open>gettimeofday\<close>
  give them.  Arduino Mega has no clock and sends zeros.\<close>

definition ping_object :: "target \<Rightarrow> int \<times> int \<Rightarrow> bytes" where
  "ping_object t now =
     (let (sec, usec) = (if t = AVR then (0, 0) else now);
          ps = replicate (sizeof TDCS_SuplaPingServer) 0;
          ps = set_field TDCS_SuplaPingServer [''now'', ''tv_sec''] (nat (sec mod 2 ^ 64)) ps
      in set_field TDCS_SuplaPingServer [''now'', ''tv_usec''] (nat (usec mod 2 ^ 64)) ps)"

definition srpc_dcs_async_ping_server :: "'u env \<Rightarrow> 'u Tsrpc option \<Rightarrow> int \<times> int \<Rightarrow> 'u Tsrpc option \<times> int" where
  "srpc_dcs_async_ping_server e srpc now =
     srpc_async_call e srpc SUPLA_DCS_CALL_PING_SERVER (Some (ping_object (tgt e) now))
       (of_nat (sizeof TDCS_SuplaPingServer))"

definition srpc_sdc_async_ping_server_result :: "'u env \<Rightarrow> 'u Tsrpc option \<Rightarrow> int \<times> int \<Rightarrow> 'u Tsrpc option \<times> int" where
  "srpc_sdc_async_ping_server_result e srpc now =
     (if tgt e = OTHER
      then srpc_async_call e srpc SUPLA_SDC_CALL_PING_SERVER_RESULT (Some (ping_object (tgt e) now))
             (of_nat (sizeof TSDC_SuplaPingServerResult))
      else (srpc, 0))"

definition srpc_dcs_async_set_activity_timeout :: "'u env \<Rightarrow> 'u Tsrpc option \<Rightarrow> bytes option \<Rightarrow> 'u Tsrpc option \<times> int" where
  "srpc_dcs_async_set_activity_timeout e srpc dcs_set_activity_timeout =
     srpc_async_call e srpc SUPLA_DCS_CALL_SET_ACTIVITY_TIMEOUT dcs_set_activity_timeout (of_nat (sizeof TDCS_SuplaSetActivityTimeout))"

definition srpc_dcs_async_set_activity_timeout_result :: "'u env \<Rightarrow> 'u Tsrpc option \<Rightarrow> bytes option \<Rightarrow> 'u Tsrpc option \<times> int" where
  "srpc_dcs_async_set_activity_timeout_result e srpc sdc_set_activity_timeout_result =
     srpc_async_call e srpc SUPLA_SDC_CALL_SET_ACTIVITY_TIMEOUT_RESULT sdc_set_activity_timeout_result (of_nat (sizeof TSDC_SuplaSetActivityTimeoutResult))"

definition srpc_dcs_async_get_registration_enabled :: "'u env \<Rightarrow> 'u Tsrpc option \<Rightarrow> 'u Tsrpc option \<times> int" where
  "srpc_dcs_async_get_registration_enabled e srpc = srpc_async_call e srpc SUPLA_DCS_CALL_GET_REGISTRATION_ENABLED None 0"

definition srpc_sdc_async_get_registration_enabled_result :: "'u env \<Rightarrow> 'u Tsrpc option \<Rightarrow> bytes option \<Rightarrow> 'u Tsrpc option \<times> int" where
  "srpc_sdc_async_get_registration_enabled_result e srpc reg_enabled =
     srpc_async_call e srpc SUPLA_SDC_CALL_GET_REGISTRATION_ENABLED_RESULT reg_enabled (of_nat (sizeof TSDC_RegistrationEnabled))"

definition srpc_dcs_async_get_user_localtime :: "'u env \<Rightarrow> 'u Tsrpc option \<Rightarrow> 'u Tsrpc option \<times> int" where
  "srpc_dcs_async_get_user_localtime e srpc = srpc_async_call e srpc SUPLA_DCS_CALL_GET_USER_LOCALTIME None 0"

definition srpc_sdc_async_get_user_localtime_result :: "'u env \<Rightarrow> 'u Tsrpc option \<Rightarrow> bytes option \<Rightarrow> 'u Tsrpc option \<times> int" where
  "srpc_sdc_async_get_user_localtime_result e srpc localtime =
     (case localtime of
        None \<Rightarrow> (srpc, 0)
      | Some d \<Rightarrow>
          if field TSDC_UserLocalTimeResult [''timezoneSize''] d > SUPLA_TIMEZONE_MAXSIZE then (srpc, 0)
          else srpc_async_call e srpc SUPLA_DCS_CALL_GET_USER_LOCALTIME_RESULT localtime (of_nat (sizeof TSDC_UserLocalTimeResult - SUPLA_TIMEZONE_MAXSIZE + field TSDC_UserLocalTimeResult [''timezoneSize''] d)))"

definition srpc_csd_async_get_channel_state :: "'u env \<Rightarrow> 'u Tsrpc option \<Rightarrow> bytes option \<Rightarrow> 'u Tsrpc option \<times> int" where
  "srpc_csd_async_get_channel_state e srpc request =
     srpc_async_call e srpc SUPLA_CSD_CALL_GET_CHANNEL_STATE request (of_nat (sizeof TCSD_ChannelStateRequest))"

definition srpc_csd_async_channel_state_result :: "'u env \<Rightarrow> 'u Tsrpc option \<Rightarrow> bytes option \<Rightarrow> 'u Tsrpc option \<times> int" where
  "srpc_csd_async_channel_state_result e srpc state =
     srpc_async_call e srpc SUPLA_DSC_CALL_CHANNEL_STATE_RESULT state (of_nat (sizeof TDSC_ChannelState))"

definition srpc_dcs_async_set_caption :: "'u env \<Rightarrow> 'u Tsrpc option \<Rightarrow> bytes \<Rightarrow> u32 \<Rightarrow> 'u Tsrpc option \<times> int" where
  "srpc_dcs_async_set_caption e srpc caption call_id =
     (let sz = c_int (sizeof TDCS_SetCaption - SUPLA_CAPTION_MAXSIZE + field TDCS_SetCaption [''CaptionSize''] caption)
      in if size_gt e sz (sizeof TDCS_SetCaption) then (srpc, 0)
         else srpc_async_call e srpc call_id (Some caption) (of_int sz))"

definition srpc_dcs_async_set_channel_caption :: "'u env \<Rightarrow> 'u Tsrpc option \<Rightarrow> bytes \<Rightarrow> 'u Tsrpc option \<times> int" where
  "srpc_dcs_async_set_channel_caption e srpc caption = srpc_dcs_async_set_caption e srpc caption SUPLA_DCS_CALL_SET_CHANNEL_CAPTION"

definition srpc_sc_async_set_caption_result :: "'u env \<Rightarrow> 'u Tsrpc option \<Rightarrow> bytes \<Rightarrow> u32 \<Rightarrow> 'u Tsrpc option \<times> int" where
  "srpc_sc_async_set_caption_result e srpc result call_id =
     (let sz = c_int (sizeof TSCD_SetCaptionResult - SUPLA_CAPTION_MAXSIZE + field TSCD_SetCaptionResult [''CaptionSize''] result)
      in if size_gt e sz (sizeof TSCD_SetCaptionResult) then (srpc, 0)
         else srpc_async_call e srpc call_id (Some result) (of_int sz))"

definition srpc_scd_async_set_channel_caption_result :: "'u env \<Rightarrow> 'u Tsrpc option \<Rightarrow> bytes \<Rightarrow> 'u Tsrpc option \<times> int" where
  "srpc_scd_async_set_channel_caption_result e srpc result = srpc_sc_async_set_caption_result e srpc result SUPLA_SCD_CALL_SET_CHANNEL_CAPTION_RESULT"

definition srpc_sd_async_get_firmware_update_url :: "'u env \<Rightarrow> 'u Tsrpc option \<Rightarrow> bytes option \<Rightarrow> 'u Tsrpc option \<times> int" where
  "srpc_sd_async_get_firmware_update_url e srpc params_p =
     srpc_async_call e srpc SUPLA_DS_CALL_GET_FIRMWARE_UPDATE_URL params_p (of_nat (sizeof TDS_FirmwareUpdateParams))"

definition srpc_ds_async_registerdevice :: "'u env \<Rightarrow> 'u Tsrpc option \<Rightarrow> bytes \<Rightarrow> 'u Tsrpc option \<times> int" where
  "srpc_ds_async_registerdevice e srpc registerdevice =
     (let sz = c_int (sizeof TDS_SuplaRegisterDevice - sizeof TDS_SuplaDeviceChannel * SUPLA_CHANNELMAXCOUNT + sizeof TDS_SuplaDeviceChannel * field TDS_SuplaRegisterDevice [''channel_count''] registerdevice)
      in if size_gt e sz (sizeof TDS_SuplaRegisterDevice) then (srpc, 0)
         else srpc_async_call e srpc SUPLA_DS_CALL_REGISTER_DEVICE (Some registerdevice) (of_int sz))"

definition srpc_ds_async_registerdevice_b :: "'u env \<Rightarrow> 'u Tsrpc option \<Rightarrow> bytes \<Rightarrow> 'u Tsrpc option \<times> int" where
  "srpc_ds_async_registerdevice_b e srpc registerdevice =
     (let sz = c_int (sizeof TDS_SuplaRegisterDevice_B - sizeof TDS_SuplaDeviceChannel_B * SUPLA_CHANNELMAXCOUNT + sizeof TDS_SuplaDeviceChannel_B * field TDS_SuplaRegisterDevice_B [''channel_count''] registerdevice)
      in if size_gt e sz (sizeof TDS_SuplaRegisterDevice_B) then (srpc, 0)
         else srpc_async_call e srpc SUPLA_DS_CALL_REGISTER_DEVICE_B (Some registerdevice) (of_int sz))"

definition srpc_ds_async_registerdevice_c :: "'u env \<Rightarrow> 'u Tsrpc option \<Rightarrow> bytes \<Rightarrow> 'u Tsrpc option \<times> int" where
  "srpc_ds_async_registerdevice_c e srpc registerdevice =
     (let sz = c_int (sizeof TDS_SuplaRegisterDevice_C - sizeof TDS_SuplaDeviceChannel_B * SUPLA_CHANNELMAXCOUNT + sizeof TDS_SuplaDeviceChannel_B * field TDS_SuplaRegisterDevice_C [''channel_count''] registerdevice)
      in if size_gt e sz (sizeof TDS_SuplaRegisterDevice_C) then (srpc, 0)
         else srpc_async_call e srpc SUPLA_DS_CALL_REGISTER_DEVICE_C (Some registerdevice) (of_int sz))"

definition srpc_ds_async_registerdevice_d :: "'u env \<Rightarrow> 'u Tsrpc option \<Rightarrow> bytes \<Rightarrow> 'u Tsrpc option \<times> int" where
  "srpc_ds_async_registerdevice_d e srpc registerdevice =
     (let sz = c_int (sizeof TDS_SuplaRegisterDevice_D - sizeof TDS_SuplaDeviceChannel_B * SUPLA_CHANNELMAXCOUNT + sizeof TDS_SuplaDeviceChannel_B * field TDS_SuplaRegisterDevice_D [''channel_count''] registerdevice)
      in if size_gt e sz (sizeof TDS_SuplaRegisterDevice_D) then (srpc, 0)
         else srpc_async_call e srpc SUPLA_DS_CALL_REGISTER_DEVICE_D (Some registerdevice) (of_int sz))"

definition srpc_ds_async_registerdevice_e :: "'u env \<Rightarrow> 'u Tsrpc option \<Rightarrow> bytes \<Rightarrow> 'u Tsrpc option \<times> int" where
  "srpc_ds_async_registerdevice_e e srpc registerdevice =
     (let sz = c_int (sizeof TDS_SuplaRegisterDevice_E - sizeof TDS_SuplaDeviceChannel_C * SUPLA_CHANNELMAXCOUNT + sizeof TDS_SuplaDeviceChannel_C * field TDS_SuplaRegisterDevice_E [''channel_count''] registerdevice)
      in if size_gt e sz (sizeof TDS_SuplaRegisterDevice_E) then (srpc, 0)
         else srpc_async_call e srpc SUPLA_DS_CALL_REGISTER_DEVICE_E (Some registerdevice) (of_int sz))"

text \<open>Registration in chunks.  The packet header with the registration header, the channels and the tag go
  straight to \<open>data_write\<close>.  \<open>get_channel_data\<close> is the callback that yields the description of a
  channel, \<open>None\<close> for a null pointer.  The two functions of the source differ in the channel
  type and the call.\<close>

function chunk_loop :: "'u env \<Rightarrow> nat \<Rightarrow> (nat \<Rightarrow> bytes option) \<Rightarrow> nat \<Rightarrow> nat \<Rightarrow> 'u \<Rightarrow> 'u" where
  "chunk_loop e channel_size get_channel_data i n u =
     (if i < n then
        chunk_loop e channel_size get_channel_data (Suc i) n
          (case get_channel_data i of
             None \<Rightarrow> u
           | Some d \<Rightarrow> data_write (params e) (take channel_size d) u)
      else u)"
  by pat_completeness auto
termination by (relation "measure (\<lambda>(e, c, g, i, n, u). n - i)") auto

declare chunk_loop.simps [simp del]

definition registerdevice_in_chunks ::
  "'u env \<Rightarrow> 'u Tsrpc option \<Rightarrow> bytes \<Rightarrow> ctype \<Rightarrow> u32 \<Rightarrow> (nat \<Rightarrow> bytes option) \<Rightarrow> 'u Tsrpc option \<times> int" where
  "registerdevice_in_chunks e srpc registerdevice channel call_id get_channel_data =
     (case srpc of
        None \<Rightarrow> (None, SUPLA_RESULT_FALSE)
      | Some s \<Rightarrow>
          let channel_count = field TDS_SuplaRegisterDeviceHeader [''channel_count''] registerdevice;
              full_size = sizeof TDS_SuplaRegisterDeviceHeader + sizeof channel * channel_count;
              (s, allowed) = srpc_call_allowed e s call_id
          in if \<not> allowed then
               (Some (case on_min_version_required (params e) of
                        Some f \<Rightarrow> f s call_id (srpc_call_min_version_required call_id)
                      | None \<Rightarrow> s), SUPLA_RESULT_FALSE)
             else
               let s = (case before_async_call (params e) of Some f \<Rightarrow> f s call_id | None \<Rightarrow> s);
                   s = srpc_lock e s;
                   (spd, p) = sproto_sdp_init (tgt e) (proto s);
                   (p, r) = sproto_set_data (tgt e) p (Some registerdevice)
                              (of_nat (sizeof TDS_SuplaRegisterDeviceHeader)) call_id;
                   s = s\<lparr>proto := spd, sdp := p\<rparr>
               in if r = SUPLA_RESULT_TRUE then
                    let p = p\<lparr>sdp_data_size := of_nat full_size\<rparr>;
                        hd_size = sizeof (TSuplaDataPacket (tgt e)) - SUPLA_MAX_DATA_SIZE (tgt e) +
                                  sizeof TDS_SuplaRegisterDeviceHeader;
                        u = data_write (params e) (take hd_size (sdp_bytes p)) (user s);
                        u = chunk_loop e (sizeof channel) get_channel_data 0 channel_count u;
                        u = data_write (params e) sproto_tag u;
                        (s, result) = unlock_r e (s\<lparr>sdp := p, user := u\<rparr>) (sint (sdp_rr_id p))
                    in (Some s, result)
                  else let (s, result) = unlock_r e s SUPLA_RESULT_FALSE in (Some s, result))"

definition srpc_ds_async_registerdevice_in_chunks ::
  "'u env \<Rightarrow> 'u Tsrpc option \<Rightarrow> bytes \<Rightarrow> (nat \<Rightarrow> bytes option) \<Rightarrow> 'u Tsrpc option \<times> int" where
  "srpc_ds_async_registerdevice_in_chunks e srpc registerdevice get_channel_data =
     registerdevice_in_chunks e srpc registerdevice TDS_SuplaDeviceChannel_D SUPLA_DS_CALL_REGISTER_DEVICE_F
       get_channel_data"

definition srpc_ds_async_registerdevice_in_chunks_g ::
  "'u env \<Rightarrow> 'u Tsrpc option \<Rightarrow> bytes \<Rightarrow> (nat \<Rightarrow> bytes option) \<Rightarrow> 'u Tsrpc option \<times> int" where
  "srpc_ds_async_registerdevice_in_chunks_g e srpc registerdevice get_channel_data =
     registerdevice_in_chunks e srpc registerdevice TDS_SuplaDeviceChannel_E SUPLA_DS_CALL_REGISTER_DEVICE_G
       get_channel_data"

definition srpc_ds_async_registerdevice_f :: "'u env \<Rightarrow> 'u Tsrpc option \<Rightarrow> bytes \<Rightarrow> 'u Tsrpc option \<times> int" where
  "srpc_ds_async_registerdevice_f e srpc registerdevice =
     (let sz = c_int (sizeof TDS_SuplaRegisterDevice_F - sizeof TDS_SuplaDeviceChannel_D * SUPLA_CHANNELMAXCOUNT + sizeof TDS_SuplaDeviceChannel_D * field TDS_SuplaRegisterDevice_F [''channel_count''] registerdevice)
      in if size_gt e sz (sizeof TDS_SuplaRegisterDevice_F) then (srpc, 0)
         else srpc_async_call e srpc SUPLA_DS_CALL_REGISTER_DEVICE_F (Some registerdevice) (of_int sz))"

definition srpc_ds_async_registerdevice_g :: "'u env \<Rightarrow> 'u Tsrpc option \<Rightarrow> bytes \<Rightarrow> 'u Tsrpc option \<times> int" where
  "srpc_ds_async_registerdevice_g e srpc registerdevice =
     (let sz = c_int (sizeof TDS_SuplaRegisterDevice_G - sizeof TDS_SuplaDeviceChannel_E * SUPLA_CHANNELMAXCOUNT + sizeof TDS_SuplaDeviceChannel_E * field TDS_SuplaRegisterDevice_G [''channel_count''] registerdevice)
      in if size_gt e sz (sizeof TDS_SuplaRegisterDevice_G) then (srpc, 0)
         else srpc_async_call e srpc SUPLA_DS_CALL_REGISTER_DEVICE_G (Some registerdevice) (of_int sz))"

definition srpc_sd_async_registerdevice_result :: "'u env \<Rightarrow> 'u Tsrpc option \<Rightarrow> bytes option \<Rightarrow> 'u Tsrpc option \<times> int" where
  "srpc_sd_async_registerdevice_result e srpc registerdevice_result =
     srpc_async_call e srpc SUPLA_SD_CALL_REGISTER_DEVICE_RESULT registerdevice_result (of_nat (sizeof TSD_SuplaRegisterDeviceResult))"

definition srpc_sd_async_registerdevice_result_b :: "'u env \<Rightarrow> 'u Tsrpc option \<Rightarrow> bytes option \<Rightarrow> 'u Tsrpc option \<times> int" where
  "srpc_sd_async_registerdevice_result_b e srpc registerdevice_result =
     (case registerdevice_result of
        None \<Rightarrow> (srpc, 0)
      | Some d \<Rightarrow>
          if field TSD_SuplaRegisterDeviceResult_B [''channel_report_size''] d > CHANNEL_REPORT_MAXSIZE then (srpc, 0)
          else srpc_async_call e srpc SUPLA_SD_CALL_REGISTER_DEVICE_RESULT_B registerdevice_result (of_nat (sizeof TSD_SuplaRegisterDeviceResult_B - CHANNEL_REPORT_MAXSIZE + field TSD_SuplaRegisterDeviceResult_B [''channel_report_size''] d)))"

definition srpc_sd_async_set_channel_value :: "'u env \<Rightarrow> 'u Tsrpc option \<Rightarrow> bytes option \<Rightarrow> 'u Tsrpc option \<times> int" where
  "srpc_sd_async_set_channel_value e srpc val =
     srpc_async_call e srpc SUPLA_SD_CALL_CHANNEL_SET_VALUE val (of_nat (sizeof TSD_SuplaChannelNewValue))"

definition srpc_sd_async_set_channelgroup_value :: "'u env \<Rightarrow> 'u Tsrpc option \<Rightarrow> bytes option \<Rightarrow> 'u Tsrpc option \<times> int" where
  "srpc_sd_async_set_channelgroup_value e srpc val =
     srpc_async_call e srpc SUPLA_SD_CALL_CHANNELGROUP_SET_VALUE val (of_nat (sizeof TSD_SuplaChannelGroupNewValue))"

definition srpc_ds_async_set_channel_result :: "'u env \<Rightarrow> 'u Tsrpc option \<Rightarrow> u8 \<Rightarrow> u32 \<Rightarrow> u8 \<Rightarrow> 'u Tsrpc option \<times> int" where
  "srpc_ds_async_set_channel_result e srpc ChannelNumber SenderID Success =
     (let result = replicate (sizeof TDS_SuplaChannelNewValueResult) 0;
          result = set_field TDS_SuplaChannelNewValueResult [''ChannelNumber''] (unat ChannelNumber) result;
          result = set_field TDS_SuplaChannelNewValueResult [''SenderID''] (unat SenderID) result;
          result = set_field TDS_SuplaChannelNewValueResult [''Success''] (unat Success) result
      in srpc_async_call e srpc SUPLA_DS_CALL_CHANNEL_SET_VALUE_RESULT (Some result)
           (of_nat (sizeof TDS_SuplaChannelNewValueResult)))"

definition srpc_sd_async_get_firmware_update_url_result :: "'u env \<Rightarrow> 'u Tsrpc option \<Rightarrow> bytes \<Rightarrow> 'u Tsrpc option \<times> int" where
  "srpc_sd_async_get_firmware_update_url_result e srpc result =
     srpc_async_call e srpc SUPLA_SD_CALL_GET_FIRMWARE_UPDATE_URL_RESULT (Some result)
       (of_nat (if field TSD_FirmwareUpdate_UrlResult [''exists''] result = 1
                then sizeof TSD_FirmwareUpdate_UrlResult else sizeof CChar))"

definition srpc_ds_async_channel_value_changed :: "'u env \<Rightarrow> 'u Tsrpc option \<Rightarrow> u8 \<Rightarrow> bytes \<Rightarrow> 'u Tsrpc option \<times> int" where
  "srpc_ds_async_channel_value_changed e srpc channel_number val =
     (let ncsc = replicate (sizeof TDS_SuplaDeviceChannelValue) 0;
          ncsc = set_field TDS_SuplaDeviceChannelValue [''ChannelNumber''] (unat channel_number) ncsc;
          ncsc = overlay (offsetof TDS_SuplaDeviceChannelValue [''value'']) (take SUPLA_CHANNELVALUE_SIZE val) ncsc
      in srpc_async_call e srpc SUPLA_DS_CALL_DEVICE_CHANNEL_VALUE_CHANGED (Some ncsc) (of_nat (sizeof TDS_SuplaDeviceChannelValue)))"

definition srpc_ds_async_channel_value_changed_b :: "'u env \<Rightarrow> 'u Tsrpc option \<Rightarrow> u8 \<Rightarrow> bytes \<Rightarrow> u8 \<Rightarrow> 'u Tsrpc option \<times> int" where
  "srpc_ds_async_channel_value_changed_b e srpc channel_number val offline =
     (let ncsc = replicate (sizeof TDS_SuplaDeviceChannelValue_B) 0;
          ncsc = set_field TDS_SuplaDeviceChannelValue_B [''ChannelNumber''] (unat channel_number) ncsc;
          ncsc = set_field TDS_SuplaDeviceChannelValue_B [''Offline''] (if offline \<noteq> 0 then 1 else 0) ncsc;
          ncsc = overlay (offsetof TDS_SuplaDeviceChannelValue_B [''value'']) (take SUPLA_CHANNELVALUE_SIZE val) ncsc
      in srpc_async_call e srpc SUPLA_DS_CALL_DEVICE_CHANNEL_VALUE_CHANGED_B (Some ncsc) (of_nat (sizeof TDS_SuplaDeviceChannelValue_B)))"

definition srpc_ds_async_channel_value_changed_c :: "'u env \<Rightarrow> 'u Tsrpc option \<Rightarrow> u8 \<Rightarrow> bytes \<Rightarrow> u8 \<Rightarrow> u32 \<Rightarrow> 'u Tsrpc option \<times> int" where
  "srpc_ds_async_channel_value_changed_c e srpc channel_number val offline validity_time_sec =
     (let ncsc = replicate (sizeof TDS_SuplaDeviceChannelValue_C) 0;
          ncsc = set_field TDS_SuplaDeviceChannelValue_C [''ChannelNumber''] (unat channel_number) ncsc;
          offline = (if offline > SUPLA_CHANNEL_OFFLINE_FLAG_MAX then SUPLA_CHANNEL_OFFLINE_FLAG_OFFLINE else offline);
          ncsc = set_field TDS_SuplaDeviceChannelValue_C [''Offline''] (unat offline) ncsc;
          ncsc = set_field TDS_SuplaDeviceChannelValue_C [''ValidityTimeSec''] (unat validity_time_sec) ncsc;
          ncsc = overlay (offsetof TDS_SuplaDeviceChannelValue_C [''value'']) (take SUPLA_CHANNELVALUE_SIZE val) ncsc
      in srpc_async_call e srpc SUPLA_DS_CALL_DEVICE_CHANNEL_VALUE_CHANGED_C (Some ncsc) (of_nat (sizeof TDS_SuplaDeviceChannelValue_C)))"

definition srpc_ds_async_channel_extendedvalue_changed :: "'u env \<Rightarrow> 'u Tsrpc option \<Rightarrow> u8 \<Rightarrow> bytes option \<Rightarrow> 'u Tsrpc option \<times> int" where
  "srpc_ds_async_channel_extendedvalue_changed e srpc channel_number val =
     (case val of
        None \<Rightarrow> (srpc, 0)
      | Some d \<Rightarrow>
          if field (TSuplaChannelExtendedValue (tgt e)) [''size''] d > SUPLA_CHANNELEXTENDEDVALUE_SIZE (tgt e) \<or>
             field (TSuplaChannelExtendedValue (tgt e)) [''size''] d = 0 then (srpc, 0)
          else
            let T = TDS_SuplaDeviceChannelExtendedValue (tgt e);
                ncsc = replicate (sizeof T) 0;
                ncsc = set_field T [''ChannelNumber''] (unat channel_number) ncsc;
                ncsc = overlay (offsetof T [''value'']) (take (sizeof (TSuplaChannelExtendedValue (tgt e))) d) ncsc
            in srpc_async_call e srpc SUPLA_DS_CALL_DEVICE_CHANNEL_EXTENDEDVALUE_CHANGED (Some ncsc)
                 (of_nat (sizeof T - (SUPLA_CHANNELEXTENDEDVALUE_SIZE (tgt e) - field T [''value'', ''size''] ncsc))))"

definition srpc_sd_async_device_calcfg_request :: "'u env \<Rightarrow> 'u Tsrpc option \<Rightarrow> bytes option \<Rightarrow> 'u Tsrpc option \<times> int" where
  "srpc_sd_async_device_calcfg_request e srpc request =
     (case request of
        None \<Rightarrow> (srpc, 0)
      | Some d \<Rightarrow>
          if field TSD_DeviceCalCfgRequest [''DataSize''] d > SUPLA_CALCFG_DATA_MAXSIZE then (srpc, 0)
          else srpc_async_call e srpc SUPLA_SD_CALL_DEVICE_CALCFG_REQUEST request (of_nat (sizeof TSD_DeviceCalCfgRequest - SUPLA_CALCFG_DATA_MAXSIZE + field TSD_DeviceCalCfgRequest [''DataSize''] d)))"

definition srpc_ds_async_device_calcfg_result :: "'u env \<Rightarrow> 'u Tsrpc option \<Rightarrow> bytes option \<Rightarrow> 'u Tsrpc option \<times> int" where
  "srpc_ds_async_device_calcfg_result e srpc result =
     (case result of
        None \<Rightarrow> (srpc, 0)
      | Some d \<Rightarrow>
          if field TDS_DeviceCalCfgResult [''DataSize''] d > SUPLA_CALCFG_DATA_MAXSIZE then (srpc, 0)
          else srpc_async_call e srpc SUPLA_DS_CALL_DEVICE_CALCFG_RESULT result (of_nat (sizeof TDS_DeviceCalCfgResult - SUPLA_CALCFG_DATA_MAXSIZE + field TDS_DeviceCalCfgResult [''DataSize''] d)))"

definition srpc_ds_async_get_channel_functions :: "'u env \<Rightarrow> 'u Tsrpc option \<Rightarrow> 'u Tsrpc option \<times> int" where
  "srpc_ds_async_get_channel_functions e srpc = srpc_async_call e srpc SUPLA_DS_CALL_GET_CHANNEL_FUNCTIONS None 0"

definition srpc_sd_async_get_channel_functions_result :: "'u env \<Rightarrow> 'u Tsrpc option \<Rightarrow> bytes option \<Rightarrow> 'u Tsrpc option \<times> int" where
  "srpc_sd_async_get_channel_functions_result e srpc result =
     (case result of
        None \<Rightarrow> (srpc, 0)
      | Some d \<Rightarrow>
          if field TSD_ChannelFunctions [''ChannelCount''] d > SUPLA_CHANNELMAXCOUNT then (srpc, 0)
          else
            let sz = c_int (sizeof TSD_ChannelFunctions - sizeof I32 * SUPLA_CHANNELMAXCOUNT +
                            sizeof I32 * field TSD_ChannelFunctions [''ChannelCount''] d)
            in if size_gt e sz (sizeof TSD_ChannelFunctions) then (srpc, 0)
               else srpc_async_call e srpc SUPLA_SD_CALL_GET_CHANNEL_FUNCTIONS_RESULT result (of_int sz))"

definition srpc_ds_async_get_channel_config_request :: "'u env \<Rightarrow> 'u Tsrpc option \<Rightarrow> bytes option \<Rightarrow> 'u Tsrpc option \<times> int" where
  "srpc_ds_async_get_channel_config_request e srpc request =
     (case request of
        None \<Rightarrow> (srpc, 0)
      | Some d \<Rightarrow> srpc_async_call e srpc SUPLA_DS_CALL_GET_CHANNEL_CONFIG request (of_nat (sizeof TDS_GetChannelConfigRequest)))"

definition srpc_sd_async_get_channel_config_result :: "'u env \<Rightarrow> 'u Tsrpc option \<Rightarrow> bytes option \<Rightarrow> 'u Tsrpc option \<times> int" where
  "srpc_sd_async_get_channel_config_result e srpc config =
     (case config of
        None \<Rightarrow> (srpc, 0)
      | Some d \<Rightarrow>
          if field TSD_ChannelConfig [''ConfigSize''] d > SUPLA_CHANNEL_CONFIG_MAXSIZE then (srpc, 0)
          else srpc_async_call e srpc SUPLA_SD_CALL_GET_CHANNEL_CONFIG_RESULT config (of_nat (sizeof TSD_ChannelConfig - SUPLA_CHANNEL_CONFIG_MAXSIZE + field TSD_ChannelConfig [''ConfigSize''] d)))"

definition srpc_sd_async_set_channel_config_request :: "'u env \<Rightarrow> 'u Tsrpc option \<Rightarrow> bytes option \<Rightarrow> 'u Tsrpc option \<times> int" where
  "srpc_sd_async_set_channel_config_request e srpc config =
     (case config of
        None \<Rightarrow> (srpc, 0)
      | Some d \<Rightarrow>
          if field TSDS_SetChannelConfig [''ConfigSize''] d > SUPLA_CHANNEL_CONFIG_MAXSIZE then (srpc, 0)
          else srpc_async_call e srpc SUPLA_SD_CALL_SET_CHANNEL_CONFIG config (of_nat (sizeof TSDS_SetChannelConfig - SUPLA_CHANNEL_CONFIG_MAXSIZE + field TSDS_SetChannelConfig [''ConfigSize''] d)))"

definition srpc_ds_async_set_channel_config_result :: "'u env \<Rightarrow> 'u Tsrpc option \<Rightarrow> bytes option \<Rightarrow> 'u Tsrpc option \<times> int" where
  "srpc_ds_async_set_channel_config_result e srpc result =
     (case result of
        None \<Rightarrow> (srpc, 0)
      | Some d \<Rightarrow> srpc_async_call e srpc SUPLA_DS_CALL_SET_CHANNEL_CONFIG_RESULT result (of_nat (sizeof TSDS_SetChannelConfigResult)))"

definition srpc_ds_async_set_channel_config_request :: "'u env \<Rightarrow> 'u Tsrpc option \<Rightarrow> bytes option \<Rightarrow> 'u Tsrpc option \<times> int" where
  "srpc_ds_async_set_channel_config_request e srpc config =
     (case config of
        None \<Rightarrow> (srpc, 0)
      | Some d \<Rightarrow>
          if field TSDS_SetChannelConfig [''ConfigSize''] d > SUPLA_CHANNEL_CONFIG_MAXSIZE then (srpc, 0)
          else srpc_async_call e srpc SUPLA_DS_CALL_SET_CHANNEL_CONFIG config (of_nat (sizeof TSDS_SetChannelConfig - SUPLA_CHANNEL_CONFIG_MAXSIZE + field TSDS_SetChannelConfig [''ConfigSize''] d)))"

definition srpc_sd_async_set_channel_config_result :: "'u env \<Rightarrow> 'u Tsrpc option \<Rightarrow> bytes option \<Rightarrow> 'u Tsrpc option \<times> int" where
  "srpc_sd_async_set_channel_config_result e srpc result =
     (case result of
        None \<Rightarrow> (srpc, 0)
      | Some d \<Rightarrow> srpc_async_call e srpc SUPLA_SD_CALL_SET_CHANNEL_CONFIG_RESULT result (of_nat (sizeof TSDS_SetChannelConfigResult)))"

definition srpc_sd_async_channel_config_finished :: "'u env \<Rightarrow> 'u Tsrpc option \<Rightarrow> bytes option \<Rightarrow> 'u Tsrpc option \<times> int" where
  "srpc_sd_async_channel_config_finished e srpc fin =
     (case fin of
        None \<Rightarrow> (srpc, 0)
      | Some d \<Rightarrow> srpc_async_call e srpc SUPLA_SD_CALL_CHANNEL_CONFIG_FINISHED fin (of_nat (sizeof TSD_ChannelConfigFinished)))"

definition srpc_sd_async_set_device_config_request :: "'u env \<Rightarrow> 'u Tsrpc option \<Rightarrow> bytes option \<Rightarrow> 'u Tsrpc option \<times> int" where
  "srpc_sd_async_set_device_config_request e srpc config =
     (case config of
        None \<Rightarrow> (srpc, 0)
      | Some d \<Rightarrow>
          if field TSDS_SetDeviceConfig [''ConfigSize''] d > SUPLA_DEVICE_CONFIG_MAXSIZE then (srpc, 0)
          else srpc_async_call e srpc SUPLA_SD_CALL_SET_DEVICE_CONFIG config (of_nat (sizeof TSDS_SetDeviceConfig - SUPLA_DEVICE_CONFIG_MAXSIZE + field TSDS_SetDeviceConfig [''ConfigSize''] d)))"

definition srpc_ds_async_set_device_config_result :: "'u env \<Rightarrow> 'u Tsrpc option \<Rightarrow> bytes option \<Rightarrow> 'u Tsrpc option \<times> int" where
  "srpc_ds_async_set_device_config_result e srpc result =
     (case result of
        None \<Rightarrow> (srpc, 0)
      | Some d \<Rightarrow> srpc_async_call e srpc SUPLA_DS_CALL_SET_DEVICE_CONFIG_RESULT result (of_nat (sizeof TSDS_SetDeviceConfigResult)))"

definition srpc_ds_async_set_device_config_request :: "'u env \<Rightarrow> 'u Tsrpc option \<Rightarrow> bytes option \<Rightarrow> 'u Tsrpc option \<times> int" where
  "srpc_ds_async_set_device_config_request e srpc config =
     (case config of
        None \<Rightarrow> (srpc, 0)
      | Some d \<Rightarrow>
          if field TSDS_SetDeviceConfig [''ConfigSize''] d > SUPLA_DEVICE_CONFIG_MAXSIZE then (srpc, 0)
          else srpc_async_call e srpc SUPLA_DS_CALL_SET_DEVICE_CONFIG config (of_nat (sizeof TSDS_SetDeviceConfig - SUPLA_DEVICE_CONFIG_MAXSIZE + field TSDS_SetDeviceConfig [''ConfigSize''] d)))"

definition srpc_sd_async_set_device_config_result :: "'u env \<Rightarrow> 'u Tsrpc option \<Rightarrow> bytes option \<Rightarrow> 'u Tsrpc option \<times> int" where
  "srpc_sd_async_set_device_config_result e srpc result =
     (case result of
        None \<Rightarrow> (srpc, 0)
      | Some d \<Rightarrow> srpc_async_call e srpc SUPLA_SD_CALL_SET_DEVICE_CONFIG_RESULT result (of_nat (sizeof TSDS_SetDeviceConfigResult)))"

definition srpc_ds_async_action_trigger :: "'u env \<Rightarrow> 'u Tsrpc option \<Rightarrow> bytes option \<Rightarrow> 'u Tsrpc option \<times> int" where
  "srpc_ds_async_action_trigger e srpc action_trigger =
     (case action_trigger of
        None \<Rightarrow> (srpc, 0)
      | Some d \<Rightarrow> srpc_async_call e srpc SUPLA_DS_CALL_ACTIONTRIGGER action_trigger (of_nat (sizeof TDS_ActionTrigger)))"

definition srpc_ds_async_register_push_notification :: "'u env \<Rightarrow> 'u Tsrpc option \<Rightarrow> bytes option \<Rightarrow> 'u Tsrpc option \<times> int" where
  "srpc_ds_async_register_push_notification e srpc reg =
     (case reg of
        None \<Rightarrow> (srpc, 0)
      | Some d \<Rightarrow> srpc_async_call e srpc SUPLA_DS_CALL_REGISTER_PUSH_NOTIFICATION reg (of_nat (sizeof TDS_RegisterPushNotification)))"

definition srpc_ds_async_send_push_notification :: "'u env \<Rightarrow> 'u Tsrpc option \<Rightarrow> bytes option \<Rightarrow> 'u Tsrpc option \<times> int" where
  "srpc_ds_async_send_push_notification e srpc push =
     (case push of
        None \<Rightarrow> (srpc, 0)
      | Some d \<Rightarrow>
          if field TDS_PushNotification [''BodySize''] d > SUPLA_PN_BODY_MAXSIZE \<or>
             field TDS_PushNotification [''TitleSize''] d > SUPLA_PN_TITLE_MAXSIZE then (srpc, 0)
          else srpc_async_call e srpc SUPLA_DS_CALL_SEND_PUSH_NOTIFICATION push
                 (of_nat (sizeof TDS_PushNotification - SUPLA_PN_BODY_MAXSIZE - SUPLA_PN_TITLE_MAXSIZE +
                          field TDS_PushNotification [''BodySize''] d + field TDS_PushNotification [''TitleSize''] d)))"

definition srpc_ds_async_set_subdevice_details :: "'u env \<Rightarrow> 'u Tsrpc option \<Rightarrow> bytes option \<Rightarrow> 'u Tsrpc option \<times> int" where
  "srpc_ds_async_set_subdevice_details e srpc reg =
     (case reg of
        None \<Rightarrow> (srpc, 0)
      | Some d \<Rightarrow> srpc_async_call e srpc SUPLA_DS_CALL_SET_SUBDEVICE_DETAILS reg (of_nat (sizeof TDS_SubdeviceDetails)))"

definition srpc_cs_async_registerclient :: "'u env \<Rightarrow> 'u Tsrpc option \<Rightarrow> bytes option \<Rightarrow> 'u Tsrpc option \<times> int" where
  "srpc_cs_async_registerclient e srpc registerclient =
     srpc_async_call e srpc SUPLA_CS_CALL_REGISTER_CLIENT registerclient (of_nat (sizeof TCS_SuplaRegisterClient))"

definition srpc_cs_async_registerclient_b :: "'u env \<Rightarrow> 'u Tsrpc option \<Rightarrow> bytes option \<Rightarrow> 'u Tsrpc option \<times> int" where
  "srpc_cs_async_registerclient_b e srpc registerclient =
     srpc_async_call e srpc SUPLA_CS_CALL_REGISTER_CLIENT_B registerclient (of_nat (sizeof TCS_SuplaRegisterClient_B))"

definition srpc_cs_async_registerclient_c :: "'u env \<Rightarrow> 'u Tsrpc option \<Rightarrow> bytes option \<Rightarrow> 'u Tsrpc option \<times> int" where
  "srpc_cs_async_registerclient_c e srpc registerclient =
     srpc_async_call e srpc SUPLA_CS_CALL_REGISTER_CLIENT_C registerclient (of_nat (sizeof TCS_SuplaRegisterClient_C))"

definition srpc_cs_async_registerclient_d :: "'u env \<Rightarrow> 'u Tsrpc option \<Rightarrow> bytes option \<Rightarrow> 'u Tsrpc option \<times> int" where
  "srpc_cs_async_registerclient_d e srpc registerclient =
     srpc_async_call e srpc SUPLA_CS_CALL_REGISTER_CLIENT_D registerclient (of_nat (sizeof TCS_SuplaRegisterClient_D))"

definition srpc_sc_async_registerclient_result :: "'u env \<Rightarrow> 'u Tsrpc option \<Rightarrow> bytes option \<Rightarrow> 'u Tsrpc option \<times> int" where
  "srpc_sc_async_registerclient_result e srpc result =
     srpc_async_call e srpc SUPLA_SC_CALL_REGISTER_CLIENT_RESULT result (of_nat (sizeof TSC_SuplaRegisterClientResult))"

definition srpc_sc_async_registerclient_result_b :: "'u env \<Rightarrow> 'u Tsrpc option \<Rightarrow> bytes option \<Rightarrow> 'u Tsrpc option \<times> int" where
  "srpc_sc_async_registerclient_result_b e srpc result =
     srpc_async_call e srpc SUPLA_SC_CALL_REGISTER_CLIENT_RESULT_B result (of_nat (sizeof TSC_SuplaRegisterClientResult_B))"

definition srpc_sc_async_registerclient_result_c :: "'u env \<Rightarrow> 'u Tsrpc option \<Rightarrow> bytes option \<Rightarrow> 'u Tsrpc option \<times> int" where
  "srpc_sc_async_registerclient_result_c e srpc result =
     srpc_async_call e srpc SUPLA_SC_CALL_REGISTER_CLIENT_RESULT_C result (of_nat (sizeof TSC_SuplaRegisterClientResult_C))"

definition srpc_sc_async_registerclient_result_d :: "'u env \<Rightarrow> 'u Tsrpc option \<Rightarrow> bytes option \<Rightarrow> 'u Tsrpc option \<times> int" where
  "srpc_sc_async_registerclient_result_d e srpc result =
     srpc_async_call e srpc SUPLA_SC_CALL_REGISTER_CLIENT_RESULT_D result (of_nat (sizeof TSC_SuplaRegisterClientResult_D))"

definition srpc_sc_async_location_update :: "'u env \<Rightarrow> 'u Tsrpc option \<Rightarrow> bytes \<Rightarrow> 'u Tsrpc option \<times> int" where
  "srpc_sc_async_location_update e srpc location =
     (let sz = c_int (sizeof TSC_SuplaLocation - SUPLA_LOCATION_CAPTION_MAXSIZE + field TSC_SuplaLocation [''CaptionSize''] location)
      in if size_gt e sz (sizeof TSC_SuplaLocation) then (srpc, 0)
         else srpc_async_call e srpc SUPLA_SC_CALL_LOCATION_UPDATE (Some location) (of_int sz))"

definition srpc_sc_async_channel_value_update :: "'u env \<Rightarrow> 'u Tsrpc option \<Rightarrow> bytes option \<Rightarrow> 'u Tsrpc option \<times> int" where
  "srpc_sc_async_channel_value_update e srpc channel_value =
     srpc_async_call e srpc SUPLA_SC_CALL_CHANNEL_VALUE_UPDATE channel_value (of_nat (sizeof TSC_SuplaChannelValue))"

definition srpc_sc_async_channel_value_update_b :: "'u env \<Rightarrow> 'u Tsrpc option \<Rightarrow> bytes option \<Rightarrow> 'u Tsrpc option \<times> int" where
  "srpc_sc_async_channel_value_update_b e srpc channel_value =
     srpc_async_call e srpc SUPLA_SC_CALL_CHANNEL_VALUE_UPDATE_B channel_value (of_nat (sizeof TSC_SuplaChannelValue_B))"

definition srpc_sc_async_channelgroup_relation_pack_update :: "'u env \<Rightarrow> 'u Tsrpc option \<Rightarrow> bytes \<Rightarrow> 'u Tsrpc option \<times> int" where
  "srpc_sc_async_channelgroup_relation_pack_update e srpc channelgroup_relation_pack =
     (let cnt = sfield TSC_SuplaChannelGroupRelationPack [''count''] channelgroup_relation_pack
      in if cnt < 1 \<or> cnt > int SUPLA_CHANNELGROUP_RELATION_PACK_MAXCOUNT then (srpc, 0)
         else srpc_async_call e srpc SUPLA_SC_CALL_CHANNELGROUP_RELATION_PACK_UPDATE (Some channelgroup_relation_pack)
                (of_nat (sizeof TSC_SuplaChannelGroupRelationPack - sizeof (typeof TSC_SuplaChannelGroupRelationPack [''items'']) + sizeof TSC_SuplaChannelGroupRelation * nat cnt)))"

definition srpc_sc_async_channel_relation_pack_update :: "'u env \<Rightarrow> 'u Tsrpc option \<Rightarrow> bytes \<Rightarrow> 'u Tsrpc option \<times> int" where
  "srpc_sc_async_channel_relation_pack_update e srpc relation_pack =
     (let cnt = sfield TSC_SuplaChannelRelationPack [''count''] relation_pack
      in if cnt < 1 \<or> cnt > int SUPLA_CHANNEL_RELATION_PACK_MAXCOUNT then (srpc, 0)
         else srpc_async_call e srpc SUPLA_SC_CALL_CHANNEL_RELATION_PACK_UPDATE (Some relation_pack)
                (of_nat (sizeof TSC_SuplaChannelRelationPack - sizeof (typeof TSC_SuplaChannelRelationPack [''items'']) + sizeof TSC_SuplaChannelRelation * nat cnt)))"

definition srpc_sc_async_channelvalue_pack_update :: "'u env \<Rightarrow> 'u Tsrpc option \<Rightarrow> bytes \<Rightarrow> 'u Tsrpc option \<times> int" where
  "srpc_sc_async_channelvalue_pack_update e srpc channelvalue_pack =
     (let cnt = sfield TSC_SuplaChannelValuePack [''count''] channelvalue_pack
      in if cnt < 1 \<or> cnt > int SUPLA_CHANNELVALUE_PACK_MAXCOUNT then (srpc, 0)
         else srpc_async_call e srpc SUPLA_SC_CALL_CHANNELVALUE_PACK_UPDATE (Some channelvalue_pack)
                (of_nat (sizeof TSC_SuplaChannelValuePack - sizeof (typeof TSC_SuplaChannelValuePack [''items'']) + sizeof TSC_SuplaChannelValue * nat cnt)))"

definition srpc_sc_async_channelvalue_pack_update_b :: "'u env \<Rightarrow> 'u Tsrpc option \<Rightarrow> bytes \<Rightarrow> 'u Tsrpc option \<times> int" where
  "srpc_sc_async_channelvalue_pack_update_b e srpc channelvalue_pack =
     (let cnt = sfield TSC_SuplaChannelValuePack_B [''count''] channelvalue_pack
      in if cnt < 1 \<or> cnt > int SUPLA_CHANNELVALUE_PACK_MAXCOUNT then (srpc, 0)
         else srpc_async_call e srpc SUPLA_SC_CALL_CHANNELVALUE_PACK_UPDATE_B (Some channelvalue_pack)
                (of_nat (sizeof TSC_SuplaChannelValuePack_B - sizeof (typeof TSC_SuplaChannelValuePack_B [''items'']) + sizeof TSC_SuplaChannelValue_B * nat cnt)))"

definition srpc_sc_async_channelextendedvalue_pack_update :: "'u env \<Rightarrow> 'u Tsrpc option \<Rightarrow> bytes option \<Rightarrow> 'u Tsrpc option \<times> int" where
  "srpc_sc_async_channelextendedvalue_pack_update e srpc extendedvalue_pack =
     (case extendedvalue_pack of
        None \<Rightarrow> (srpc, 0)
      | Some d \<Rightarrow>
          let T = TSC_SuplaChannelExtendedValuePack (tgt e)
          in if sfield T [''count''] d < 1 \<or> sfield T [''count''] d > int SUPLA_CHANNELEXTENDEDVALUE_PACK_MAXCOUNT \<or>
                field T [''pack_size''] d < 1 \<or>
                field T [''pack_size''] d > SUPLA_CHANNELEXTENDEDVALUE_PACK_MAXDATASIZE (tgt e) then (srpc, 0)
             else srpc_async_call e srpc SUPLA_SC_CALL_CHANNELEXTENDEDVALUE_PACK_UPDATE extendedvalue_pack
                    (of_nat (sizeof T - SUPLA_CHANNELEXTENDEDVALUE_PACK_MAXDATASIZE (tgt e) + field T [''pack_size''] d)))"

definition srpc_sc_async_channel_state_pack_update :: "'u env \<Rightarrow> 'u Tsrpc option \<Rightarrow> bytes \<Rightarrow> 'u Tsrpc option \<times> int" where
  "srpc_sc_async_channel_state_pack_update e srpc state_pack =
     (let cnt = sfield TSC_SuplaChannelStatePack [''count''] state_pack
      in if cnt < 1 \<or> cnt > int SUPLA_CHANNEL_STATE_PACK_MAXCOUNT then (srpc, 0)
         else srpc_async_call e srpc SUPLA_SC_CALL_CHANNEL_STATE_PACK_UPDATE (Some state_pack)
                (of_nat (sizeof TSC_SuplaChannelStatePack - sizeof (typeof TSC_SuplaChannelStatePack [''items'']) + sizeof TDSC_ChannelState * nat cnt)))"

definition srpc_cs_async_get_next :: "'u env \<Rightarrow> 'u Tsrpc option \<Rightarrow> 'u Tsrpc option \<times> int" where
  "srpc_cs_async_get_next e srpc = srpc_async_call e srpc SUPLA_CS_CALL_GET_NEXT None 0"

definition srpc_sc_async_event :: "'u env \<Rightarrow> 'u Tsrpc option \<Rightarrow> bytes \<Rightarrow> 'u Tsrpc option \<times> int" where
  "srpc_sc_async_event e srpc event =
     (let sz = c_int (sizeof TSC_SuplaEvent - SUPLA_SENDER_NAME_MAXSIZE + field TSC_SuplaEvent [''SenderNameSize''] event)
      in if size_gt e sz (sizeof TSC_SuplaEvent) then (srpc, 0)
         else srpc_async_call e srpc SUPLA_SC_CALL_EVENT (Some event) (of_int sz))"

definition srpc_cs_async_set_channel_value :: "'u env \<Rightarrow> 'u Tsrpc option \<Rightarrow> bytes option \<Rightarrow> 'u Tsrpc option \<times> int" where
  "srpc_cs_async_set_channel_value e srpc val =
     srpc_async_call e srpc SUPLA_CS_CALL_CHANNEL_SET_VALUE val (of_nat (sizeof TCS_SuplaChannelNewValue))"

definition srpc_cs_async_set_channel_value_b :: "'u env \<Rightarrow> 'u Tsrpc option \<Rightarrow> bytes option \<Rightarrow> 'u Tsrpc option \<times> int" where
  "srpc_cs_async_set_channel_value_b e srpc val =
     srpc_async_call e srpc SUPLA_CS_CALL_CHANNEL_SET_VALUE_B val (of_nat (sizeof TCS_SuplaChannelNewValue_B))"

definition srpc_cs_async_set_value :: "'u env \<Rightarrow> 'u Tsrpc option \<Rightarrow> bytes option \<Rightarrow> 'u Tsrpc option \<times> int" where
  "srpc_cs_async_set_value e srpc val =
     srpc_async_call e srpc SUPLA_CS_CALL_SET_VALUE val (of_nat (sizeof TCS_SuplaNewValue))"

definition srpc_cs_async_oauth_token_request :: "'u env \<Rightarrow> 'u Tsrpc option \<Rightarrow> 'u Tsrpc option \<times> int" where
  "srpc_cs_async_oauth_token_request e srpc = srpc_async_call e srpc SUPLA_CS_CALL_OAUTH_TOKEN_REQUEST None 0"

definition srpc_cs_async_oauth_token_request_result :: "'u env \<Rightarrow> 'u Tsrpc option \<Rightarrow> bytes option \<Rightarrow> 'u Tsrpc option \<times> int" where
  "srpc_cs_async_oauth_token_request_result e srpc result =
     (case result of
        None \<Rightarrow> (srpc, 0)
      | Some d \<Rightarrow>
          if field TSC_OAuthTokenRequestResult [''Token'', ''TokenSize''] d > SUPLA_OAUTH_TOKEN_MAXSIZE then (srpc, 0)
          else srpc_async_call e srpc SUPLA_SC_CALL_OAUTH_TOKEN_REQUEST_RESULT result (of_nat (sizeof TSC_OAuthTokenRequestResult - (SUPLA_OAUTH_TOKEN_MAXSIZE - field TSC_OAuthTokenRequestResult [''Token'', ''TokenSize''] d))))"

definition srpc_cs_async_superuser_authorization_request :: "'u env \<Rightarrow> 'u Tsrpc option \<Rightarrow> bytes option \<Rightarrow> 'u Tsrpc option \<times> int" where
  "srpc_cs_async_superuser_authorization_request e srpc request =
     srpc_async_call e srpc SUPLA_CS_CALL_SUPERUSER_AUTHORIZATION_REQUEST request (of_nat (sizeof TCS_SuperUserAuthorizationRequest))"

definition srpc_cs_async_get_superuser_authorization_result :: "'u env \<Rightarrow> 'u Tsrpc option \<Rightarrow> 'u Tsrpc option \<times> int" where
  "srpc_cs_async_get_superuser_authorization_result e srpc = srpc_async_call e srpc SUPLA_CS_CALL_GET_SUPERUSER_AUTHORIZATION_RESULT None 0"

definition srpc_sc_async_superuser_authorization_result :: "'u env \<Rightarrow> 'u Tsrpc option \<Rightarrow> bytes option \<Rightarrow> 'u Tsrpc option \<times> int" where
  "srpc_sc_async_superuser_authorization_result e srpc result =
     srpc_async_call e srpc SUPLA_SC_CALL_SUPERUSER_AUTHORIZATION_RESULT result (of_nat (sizeof TSC_SuperUserAuthorizationResult))"

definition srpc_cs_async_device_calcfg_request :: "'u env \<Rightarrow> 'u Tsrpc option \<Rightarrow> bytes option \<Rightarrow> 'u Tsrpc option \<times> int" where
  "srpc_cs_async_device_calcfg_request e srpc request =
     (case request of
        None \<Rightarrow> (srpc, 0)
      | Some d \<Rightarrow>
          if field TCS_DeviceCalCfgRequest [''DataSize''] d > SUPLA_CALCFG_DATA_MAXSIZE then (srpc, 0)
          else srpc_async_call e srpc SUPLA_CS_CALL_DEVICE_CALCFG_REQUEST request (of_nat (sizeof TCS_DeviceCalCfgRequest - SUPLA_CALCFG_DATA_MAXSIZE + field TCS_DeviceCalCfgRequest [''DataSize''] d)))"

definition srpc_cs_async_device_calcfg_request_b :: "'u env \<Rightarrow> 'u Tsrpc option \<Rightarrow> bytes option \<Rightarrow> 'u Tsrpc option \<times> int" where
  "srpc_cs_async_device_calcfg_request_b e srpc request =
     (case request of
        None \<Rightarrow> (srpc, 0)
      | Some d \<Rightarrow>
          if field TCS_DeviceCalCfgRequest_B [''DataSize''] d > SUPLA_CALCFG_DATA_MAXSIZE then (srpc, 0)
          else srpc_async_call e srpc SUPLA_CS_CALL_DEVICE_CALCFG_REQUEST_B request (of_nat (sizeof TCS_DeviceCalCfgRequest_B - SUPLA_CALCFG_DATA_MAXSIZE + field TCS_DeviceCalCfgRequest_B [''DataSize''] d)))"

definition srpc_sc_async_device_calcfg_result :: "'u env \<Rightarrow> 'u Tsrpc option \<Rightarrow> bytes option \<Rightarrow> 'u Tsrpc option \<times> int" where
  "srpc_sc_async_device_calcfg_result e srpc result =
     (case result of
        None \<Rightarrow> (srpc, 0)
      | Some d \<Rightarrow>
          if field TSC_DeviceCalCfgResult [''DataSize''] d > SUPLA_CALCFG_DATA_MAXSIZE then (srpc, 0)
          else srpc_async_call e srpc SUPLA_SC_CALL_DEVICE_CALCFG_RESULT result (of_nat (sizeof TSC_DeviceCalCfgResult - SUPLA_CALCFG_DATA_MAXSIZE + field TSC_DeviceCalCfgResult [''DataSize''] d)))"

definition srpc_cs_async_get_channel_basic_cfg :: "'u env \<Rightarrow> 'u Tsrpc option \<Rightarrow> u32 \<Rightarrow> 'u Tsrpc option \<times> int" where
  "srpc_cs_async_get_channel_basic_cfg e srpc ChannelID =
     srpc_async_call e srpc SUPLA_CS_CALL_GET_CHANNEL_BASIC_CFG
       (Some (set_field TCS_ChannelBasicCfgRequest [''ChannelID''] (unat ChannelID)
                (replicate (sizeof TCS_ChannelBasicCfgRequest) 0)))
       (of_nat (sizeof TCS_ChannelBasicCfgRequest))"

definition srpc_sc_async_channel_basic_cfg_result :: "'u env \<Rightarrow> 'u Tsrpc option \<Rightarrow> bytes \<Rightarrow> 'u Tsrpc option \<times> int" where
  "srpc_sc_async_channel_basic_cfg_result e srpc basic_cfg =
     (let sz = c_int (sizeof TSC_ChannelBasicCfg - SUPLA_CHANNEL_CAPTION_MAXSIZE + field TSC_ChannelBasicCfg [''CaptionSize''] basic_cfg)
      in if size_gt e sz (sizeof TSC_ChannelBasicCfg) then (srpc, 0)
         else srpc_async_call e srpc SUPLA_SC_CALL_CHANNEL_BASIC_CFG_RESULT (Some basic_cfg) (of_int sz))"

definition srpc_cs_async_set_channel_function :: "'u env \<Rightarrow> 'u Tsrpc option \<Rightarrow> bytes option \<Rightarrow> 'u Tsrpc option \<times> int" where
  "srpc_cs_async_set_channel_function e srpc func =
     srpc_async_call e srpc SUPLA_CS_CALL_SET_CHANNEL_FUNCTION func (of_nat (sizeof TCS_SetChannelFunction))"

definition srpc_sc_async_set_channel_function_result :: "'u env \<Rightarrow> 'u Tsrpc option \<Rightarrow> bytes option \<Rightarrow> 'u Tsrpc option \<times> int" where
  "srpc_sc_async_set_channel_function_result e srpc result =
     srpc_async_call e srpc SUPLA_SC_CALL_SET_CHANNEL_FUNCTION_RESULT result (of_nat (sizeof TSC_SetChannelFunctionResult))"

definition srpc_cs_async_set_channel_group_caption :: "'u env \<Rightarrow> 'u Tsrpc option \<Rightarrow> bytes \<Rightarrow> 'u Tsrpc option \<times> int" where
  "srpc_cs_async_set_channel_group_caption e srpc caption = srpc_dcs_async_set_caption e srpc caption SUPLA_CS_CALL_SET_CHANNEL_GROUP_CAPTION"

definition srpc_sc_async_set_channel_group_caption_result :: "'u env \<Rightarrow> 'u Tsrpc option \<Rightarrow> bytes \<Rightarrow> 'u Tsrpc option \<times> int" where
  "srpc_sc_async_set_channel_group_caption_result e srpc result = srpc_sc_async_set_caption_result e srpc result SUPLA_SC_CALL_SET_CHANNEL_GROUP_CAPTION_RESULT"

definition srpc_cs_async_set_location_caption :: "'u env \<Rightarrow> 'u Tsrpc option \<Rightarrow> bytes \<Rightarrow> 'u Tsrpc option \<times> int" where
  "srpc_cs_async_set_location_caption e srpc caption = srpc_dcs_async_set_caption e srpc caption SUPLA_CS_CALL_SET_LOCATION_CAPTION"

definition srpc_sc_async_set_location_caption_result :: "'u env \<Rightarrow> 'u Tsrpc option \<Rightarrow> bytes \<Rightarrow> 'u Tsrpc option \<times> int" where
  "srpc_sc_async_set_location_caption_result e srpc result = srpc_sc_async_set_caption_result e srpc result SUPLA_SC_CALL_SET_LOCATION_CAPTION_RESULT"

definition srpc_cs_async_set_scene_caption :: "'u env \<Rightarrow> 'u Tsrpc option \<Rightarrow> bytes \<Rightarrow> 'u Tsrpc option \<times> int" where
  "srpc_cs_async_set_scene_caption e srpc caption = srpc_dcs_async_set_caption e srpc caption SUPLA_CS_CALL_SET_SCENE_CAPTION"

definition srpc_sc_async_set_scene_caption_result :: "'u env \<Rightarrow> 'u Tsrpc option \<Rightarrow> bytes \<Rightarrow> 'u Tsrpc option \<times> int" where
  "srpc_sc_async_set_scene_caption_result e srpc result = srpc_sc_async_set_caption_result e srpc result SUPLA_SC_CALL_SET_SCENE_CAPTION_RESULT"

definition srpc_cs_async_clients_reconnect_request :: "'u env \<Rightarrow> 'u Tsrpc option \<Rightarrow> 'u Tsrpc option \<times> int" where
  "srpc_cs_async_clients_reconnect_request e srpc = srpc_async_call e srpc SUPLA_CS_CALL_CLIENTS_RECONNECT_REQUEST None 0"

definition srpc_sc_async_clients_reconnect_request_result :: "'u env \<Rightarrow> 'u Tsrpc option \<Rightarrow> bytes option \<Rightarrow> 'u Tsrpc option \<times> int" where
  "srpc_sc_async_clients_reconnect_request_result e srpc result =
     srpc_async_call e srpc SUPLA_SC_CALL_CLIENTS_RECONNECT_REQUEST_RESULT result (of_nat (sizeof TSC_ClientsReconnectRequestResult))"

definition srpc_cs_async_set_registration_enabled :: "'u env \<Rightarrow> 'u Tsrpc option \<Rightarrow> bytes option \<Rightarrow> 'u Tsrpc option \<times> int" where
  "srpc_cs_async_set_registration_enabled e srpc reg_enabled =
     srpc_async_call e srpc SUPLA_CS_CALL_SET_REGISTRATION_ENABLED reg_enabled (of_nat (sizeof TCS_SetRegistrationEnabled))"

definition srpc_sc_async_set_registration_enabled_result :: "'u env \<Rightarrow> 'u Tsrpc option \<Rightarrow> bytes option \<Rightarrow> 'u Tsrpc option \<times> int" where
  "srpc_sc_async_set_registration_enabled_result e srpc result =
     srpc_async_call e srpc SUPLA_SC_CALL_SET_REGISTRATION_ENABLED_RESULT result (of_nat (sizeof TSC_SetRegistrationEnabledResult))"

definition srpc_cs_async_device_reconnect_request :: "'u env \<Rightarrow> 'u Tsrpc option \<Rightarrow> bytes option \<Rightarrow> 'u Tsrpc option \<times> int" where
  "srpc_cs_async_device_reconnect_request e srpc request =
     srpc_async_call e srpc SUPLA_CS_CALL_DEVICE_RECONNECT_REQUEST request (of_nat (sizeof TCS_DeviceReconnectRequest))"

definition srpc_sc_async_device_reconnect_request_result :: "'u env \<Rightarrow> 'u Tsrpc option \<Rightarrow> bytes option \<Rightarrow> 'u Tsrpc option \<times> int" where
  "srpc_sc_async_device_reconnect_request_result e srpc result =
     srpc_async_call e srpc SUPLA_SC_CALL_DEVICE_RECONNECT_REQUEST_RESULT result (of_nat (sizeof TSC_DeviceReconnectRequestResult))"

definition srpc_cs_async_timer_arm :: "'u env \<Rightarrow> 'u Tsrpc option \<Rightarrow> bytes option \<Rightarrow> 'u Tsrpc option \<times> int" where
  "srpc_cs_async_timer_arm e srpc request =
     srpc_async_call e srpc SUPLA_CS_CALL_TIMER_ARM request (of_nat (sizeof TCS_TimerArmRequest))"

definition srpc_cs_async_execute_action :: "'u env \<Rightarrow> 'u Tsrpc option \<Rightarrow> bytes option \<Rightarrow> 'u Tsrpc option \<times> int" where
  "srpc_cs_async_execute_action e srpc action =
     (case action of
        None \<Rightarrow> (srpc, 0)
      | Some d \<Rightarrow>
          let sz = c_int (sizeof TCS_Action - SUPLA_ACTION_PARAM_MAXSIZE + field TCS_Action [''ParamSize''] d)
          in if size_gt e sz (sizeof TCS_Action) then (srpc, 0)
             else srpc_async_call e srpc SUPLA_CS_CALL_EXECUTE_ACTION action (of_int sz))"

definition srpc_cs_async_execute_action_with_auth :: "'u env \<Rightarrow> 'u Tsrpc option \<Rightarrow> bytes option \<Rightarrow> 'u Tsrpc option \<times> int" where
  "srpc_cs_async_execute_action_with_auth e srpc action =
     (case action of
        None \<Rightarrow> (srpc, 0)
      | Some d \<Rightarrow>
          let sz = c_int (sizeof TCS_ActionWithAuth - SUPLA_ACTION_PARAM_MAXSIZE + field TCS_ActionWithAuth [''Action'', ''ParamSize''] d)
          in if size_gt e sz (sizeof TCS_ActionWithAuth) then (srpc, 0)
             else srpc_async_call e srpc SUPLA_CS_CALL_EXECUTE_ACTION_WITH_AUTH action (of_int sz))"

definition srpc_sc_async_action_execution_result :: "'u env \<Rightarrow> 'u Tsrpc option \<Rightarrow> bytes option \<Rightarrow> 'u Tsrpc option \<times> int" where
  "srpc_sc_async_action_execution_result e srpc result =
     (case result of
        None \<Rightarrow> (srpc, 0)
      | Some d \<Rightarrow> srpc_async_call e srpc SUPLA_SC_CALL_ACTION_EXECUTION_RESULT result (of_nat (sizeof TSC_ActionExecutionResult)))"

definition srpc_cs_async_get_channel_value_with_auth :: "'u env \<Rightarrow> 'u Tsrpc option \<Rightarrow> bytes option \<Rightarrow> 'u Tsrpc option \<times> int" where
  "srpc_cs_async_get_channel_value_with_auth e srpc vwa =
     (case vwa of
        None \<Rightarrow> (srpc, 0)
      | Some d \<Rightarrow> srpc_async_call e srpc SUPLA_CS_CALL_GET_CHANNEL_VALUE_WITH_AUTH vwa (of_nat (sizeof TCS_GetChannelValueWithAuth)))"

definition srpc_sc_async_get_channel_value_result :: "'u env \<Rightarrow> 'u Tsrpc option \<Rightarrow> bytes option \<Rightarrow> 'u Tsrpc option \<times> int" where
  "srpc_sc_async_get_channel_value_result e srpc result =
     (case result of
        None \<Rightarrow> (srpc, 0)
      | Some d \<Rightarrow>
          let sz = c_int (sizeof (TSC_GetChannelValueResult (tgt e)) - (SUPLA_CHANNELEXTENDEDVALUE_SIZE (tgt e)) + field (TSC_GetChannelValueResult (tgt e)) [''ExtendedValue'', ''size''] d)
          in if size_gt e sz (sizeof (TSC_GetChannelValueResult (tgt e))) then (srpc, 0)
             else srpc_async_call e srpc SUPLA_SC_CALL_GET_CHANNEL_VALUE_RESULT result (of_int sz))"

definition srpc_cs_async_register_pn_client_token :: "'u env \<Rightarrow> 'u Tsrpc option \<Rightarrow> bytes option \<Rightarrow> 'u Tsrpc option \<times> int" where
  "srpc_cs_async_register_pn_client_token e srpc reg =
     (case reg of
        None \<Rightarrow> (srpc, 0)
      | Some d \<Rightarrow>
          if field TCS_RegisterPnClientToken [''Token'', ''TokenSize''] d > SUPLA_PN_CLIENT_TOKEN_MAXSIZE then (srpc, 0)
          else srpc_async_call e srpc SUPLA_CS_CALL_REGISTER_PN_CLIENT_TOKEN reg (of_nat (sizeof TCS_RegisterPnClientToken - SUPLA_PN_CLIENT_TOKEN_MAXSIZE + field TCS_RegisterPnClientToken [''Token'', ''TokenSize''] d)))"

definition srpc_sc_async_register_pn_client_token_result :: "'u env \<Rightarrow> 'u Tsrpc option \<Rightarrow> bytes option \<Rightarrow> 'u Tsrpc option \<times> int" where
  "srpc_sc_async_register_pn_client_token_result e srpc result =
     (case result of
        None \<Rightarrow> (srpc, 0)
      | Some d \<Rightarrow> srpc_async_call e srpc SUPLA_SC_CALL_REGISTER_PN_CLIENT_TOKEN_RESULT result (of_nat (sizeof TSC_RegisterPnClientTokenResult)))"

definition srpc_cs_async_get_channel_config_request :: "'u env \<Rightarrow> 'u Tsrpc option \<Rightarrow> bytes option \<Rightarrow> 'u Tsrpc option \<times> int" where
  "srpc_cs_async_get_channel_config_request e srpc request =
     (case request of
        None \<Rightarrow> (srpc, 0)
      | Some d \<Rightarrow> srpc_async_call e srpc SUPLA_CS_CALL_GET_CHANNEL_CONFIG request (of_nat (sizeof TCS_GetChannelConfigRequest)))"

definition srpc_sc_async_channel_config_update_or_result :: "'u env \<Rightarrow> 'u Tsrpc option \<Rightarrow> bytes option \<Rightarrow> 'u Tsrpc option \<times> int" where
  "srpc_sc_async_channel_config_update_or_result e srpc config =
     (case config of
        None \<Rightarrow> (srpc, 0)
      | Some d \<Rightarrow>
          if field TSC_ChannelConfigUpdateOrResult [''Config'', ''ConfigSize''] d > SUPLA_CHANNEL_CONFIG_MAXSIZE then (srpc, 0)
          else srpc_async_call e srpc SUPLA_SC_CALL_CHANNEL_CONFIG_UPDATE_OR_RESULT config (of_nat (sizeof TSC_ChannelConfigUpdateOrResult - SUPLA_CHANNEL_CONFIG_MAXSIZE + field TSC_ChannelConfigUpdateOrResult [''Config'', ''ConfigSize''] d)))"

definition srpc_cs_async_set_channel_config_request :: "'u env \<Rightarrow> 'u Tsrpc option \<Rightarrow> bytes option \<Rightarrow> 'u Tsrpc option \<times> int" where
  "srpc_cs_async_set_channel_config_request e srpc config =
     (case config of
        None \<Rightarrow> (srpc, 0)
      | Some d \<Rightarrow>
          if field TSCS_ChannelConfig [''ConfigSize''] d > SUPLA_CHANNEL_CONFIG_MAXSIZE then (srpc, 0)
          else srpc_async_call e srpc SUPLA_CS_CALL_SET_CHANNEL_CONFIG config (of_nat (sizeof TSCS_ChannelConfig - SUPLA_CHANNEL_CONFIG_MAXSIZE + field TSCS_ChannelConfig [''ConfigSize''] d)))"

definition srpc_cs_async_get_device_config_request :: "'u env \<Rightarrow> 'u Tsrpc option \<Rightarrow> bytes option \<Rightarrow> 'u Tsrpc option \<times> int" where
  "srpc_cs_async_get_device_config_request e srpc request =
     (case request of
        None \<Rightarrow> (srpc, 0)
      | Some d \<Rightarrow> srpc_async_call e srpc SUPLA_CS_CALL_GET_DEVICE_CONFIG request (of_nat (sizeof TCS_GetDeviceConfigRequest)))"

definition srpc_sc_async_device_config_update_or_result :: "'u env \<Rightarrow> 'u Tsrpc option \<Rightarrow> bytes option \<Rightarrow> 'u Tsrpc option \<times> int" where
  "srpc_sc_async_device_config_update_or_result e srpc config =
     (case config of
        None \<Rightarrow> (srpc, 0)
      | Some d \<Rightarrow>
          if field TSC_DeviceConfigUpdateOrResult [''Config'', ''ConfigSize''] d > SUPLA_DEVICE_CONFIG_MAXSIZE then (srpc, 0)
          else srpc_async_call e srpc SUPLA_SC_CALL_DEVICE_CONFIG_UPDATE_OR_RESULT config (of_nat (sizeof TSC_DeviceConfigUpdateOrResult - SUPLA_DEVICE_CONFIG_MAXSIZE + field TSC_DeviceConfigUpdateOrResult [''Config'', ''ConfigSize''] d)))"

section \<open>What the receiving side accepts\<close>

text \<open>A message is accepted by a receiver when its branch of \<open>srpc_getdata\<close> is well-formed for it.\<close>

definition accepted_by :: "target \<Rightarrow> u32 \<Rightarrow> bytes \<Rightarrow> bool" where
  "accepted_by t call_id d \<longleftrightarrow>
     (case map_of (getdata_cases t) call_id of
        None \<Rightarrow> False
      | Some c \<Rightarrow> if c = No_Data then d = [] else well_formed c d)"

text \<open>The objects a sender may not refuse: the number of items is in the range of the call (from one where
  the count is a signed member, from zero elsewhere).  Two calls have limits beside that range.\<close>

definition must_send :: "u32 \<Rightarrow> bytes \<Rightarrow> bool" where
  "must_send call_id d \<longleftrightarrow>
     (case map_of (getdata_cases OTHER) call_id of
        Some (Counted z T I vars mx) \<Rightarrow>
          (if list_ex (\<lambda>v. typeof T v = I32) vars then 1 else 0) \<le> counted T vars d \<and> counted T vars d \<le> int mx
      | _ \<Rightarrow> True) \<and>
     (call_id = SUPLA_DS_CALL_SEND_PUSH_NOTIFICATION \<longrightarrow>
        field TDS_PushNotification [''TitleSize''] d \<le> SUPLA_PN_TITLE_MAXSIZE \<and>
        field TDS_PushNotification [''BodySize''] d \<le> SUPLA_PN_BODY_MAXSIZE) \<and>
     (call_id = SUPLA_SC_CALL_CHANNELEXTENDEDVALUE_PACK_UPDATE \<longrightarrow>
        1 \<le> field (TSC_SuplaChannelExtendedValuePack OTHER) [''pack_size''] d \<and>
        1 \<le> sfield (TSC_SuplaChannelExtendedValuePack OTHER) [''count''] d \<and>
        sfield (TSC_SuplaChannelExtendedValuePack OTHER) [''count''] d \<le> int SUPLA_CHANNELEXTENDEDVALUE_PACK_MAXCOUNT)"

text \<open>\<open>conforms e call_id T ok f\<close>: given an object of type \<open>T\<close> with \<open>ok\<close>, the sender \<open>f\<close> makes one call
  \<open>call_id\<close> whose payload is the beginning of the object and is accepted by the server; only an object out
  of the limits of the call may be refused, and then nothing is sent and 0 is returned.\<close>

definition conforms ::
  "'u env \<Rightarrow> u32 \<Rightarrow> ctype \<Rightarrow> (bytes \<Rightarrow> bool) \<Rightarrow>
   ('u env \<Rightarrow> 'u Tsrpc option \<Rightarrow> bytes \<Rightarrow> 'u Tsrpc option \<times> int) \<Rightarrow> bool" where
  "conforms e call_id T ok f \<longleftrightarrow>
     (\<forall>s d. length d = sizeof T \<and> ok d \<longrightarrow>
        f e s d = (s, 0) \<and> \<not> must_send call_id d \<or>
        (\<exists>data n. f e s d = srpc_async_call e s call_id data n \<and> payload data n = take (unat n) d \<and>
           (if data = None then n = 0 else unat n \<le> length d) \<and> accepted_by OTHER call_id (payload data n)))"

lemma distinct_cases: "distinct (map fst (getdata_cases OTHER))"
  by (simp add: getdata_cases_def getdata_common_def getdata_device1_def getdata_device2_def getdata_client1_def
      getdata_client2_def getdata_client3_def getdata_client4_def SRPC_EXCLUDE_CLIENT_def const_defs)

lemma accepted_byI:
  assumes "(i, c) \<in> set (getdata_cases OTHER)" "if c = No_Data then d = [] else well_formed c d"
  shows "accepted_by OTHER i d"
  using assms map_of_is_SomeI [OF distinct_cases assms(1)] by (simp add: accepted_by_def)

lemma must_send_limits:
  assumes "(i, Counted z T I vars mx) \<in> set (getdata_cases OTHER)" "must_send i d"
  shows "(if list_ex (\<lambda>v. typeof T v = I32) vars then 1 else 0) \<le> counted T vars d" "counted T vars d \<le> int mx"
  using assms(2) map_of_is_SomeI [OF distinct_cases assms(1)] by (simp_all add: must_send_def)

lemma conforms_none:
  assumes "(i, No_Data) \<in> set (getdata_cases OTHER)" "\<And>s d. f e s d = srpc_async_call e s i None 0"
  shows "conforms e i T ok f"
  unfolding conforms_def using assms accepted_byI [OF assms(1)]
  by (intro allI impI disjI2 exI [of _ None] exI [of _ 0]) (simp add: payload_def)

lemma conforms_prefix:
  assumes m: "(i, c) \<in> set (getdata_cases OTHER)" "c \<noteq> No_Data" and T: "sizeof T < 2 ^ 31"
    and f: "\<And>s d. length d = sizeof T \<Longrightarrow> ok d \<Longrightarrow> f e s d = (s, 0) \<and> \<not> must_send i d \<or>
      (\<exists>k \<le> sizeof T. f e s d = srpc_async_call e s i (Some d) (of_nat k) \<and> well_formed c (take k d))"
  shows "conforms e i T ok f"
  unfolding conforms_def
proof (intro allI impI)
  fix s d assume d: "length d = sizeof T \<and> ok d"
  have "\<exists>data n. f e s d = srpc_async_call e s i data n \<and> payload data n = take (unat n) d \<and>
      (if data = None then n = 0 else unat n \<le> length d) \<and> accepted_by OTHER i (payload data n)"
    if k: "k \<le> sizeof T" "f e s d = srpc_async_call e s i (Some d) (of_nat k)" "well_formed c (take k d)" for k
  proof -
    have n: "unat (of_nat k :: u32) = k" using k(1) T by (intro unat_of_nat_u32) simp
    then have "payload (Some d) (of_nat k) = take k d" by (simp add: payload_def)
    moreover have "accepted_by OTHER i (take k d)" using m k(3) by (intro accepted_byI [OF m(1)]) simp
    ultimately show ?thesis using k(1,2) d n by (intro exI [of _ "Some d"] exI [of _ "of_nat k"]) simp
  qed
  then show "f e s d = (s, 0) \<and> \<not> must_send i d \<or> (\<exists>data n. f e s d = srpc_async_call e s i data n \<and> payload data n = take (unat n) d \<and>
      (if data = None then n = 0 else unat n \<le> length d) \<and> accepted_by OTHER i (payload data n))"
    using f [of d s] d by blast
qed

lemma conforms_exact:
  assumes m: "(i, Exact z T) \<in> set (getdata_cases OTHER)"
    and "\<And>s d. f e s d = srpc_async_call e s i (Some d) (of_nat (sizeof T))"
  shows "conforms e i T ok f"
  using getdata_case_ok [OF m] assms(2) by (intro conforms_prefix [OF m]) auto

text \<open>Senders of a counted structure: on an item count \<open>n\<close> that is in range they send the header and
  \<open>n\<close> items.\<close>

lemma conforms_counted:
  assumes m: "(i, Counted z T I vars mx) \<in> set (getdata_cases OTHER)"
    and f: "\<And>s d. length d = sizeof T \<Longrightarrow> ok d \<Longrightarrow> f e s d = (s, 0) \<and> \<not> must_send i d \<or> (\<exists>n\<le>mx. counted T vars d = int n \<and>
      f e s d = srpc_async_call e s i (Some d) (of_nat (sizeof T - sizeof I * mx + sizeof I * n)))"
  shows "conforms e i T ok f"
proof (rule conforms_prefix [OF m])
  have ok: "case_ok (Counted z T I vars mx)" by (rule getdata_case_ok [OF m])
  have ok': "sizeof I * mx < sizeof T"
      "list_all (\<lambda>v. offsetof T v + sizeof (typeof T v) \<le> sizeof T - sizeof I * mx) vars"
    using ok by (auto simp: list_all_iff)
  show "sizeof T < 2 ^ 31" using ok by simp
  fix s d assume d: "length d = sizeof T" "ok d"
  have "\<exists>k \<le> sizeof T. f e s d = srpc_async_call e s i (Some d) (of_nat k) \<and>
      well_formed (Counted z T I vars mx) (take k d)"
    if n: "n \<le> mx" "counted T vars d = int n"
      "f e s d = srpc_async_call e s i (Some d) (of_nat (sizeof T - sizeof I * mx + sizeof I * n))" for n
  proof -
    define k where "k = sizeof T - sizeof I * mx + sizeof I * n"
    have "sizeof I * n \<le> sizeof I * mx" using n(1) by simp
    then have k: "k \<le> sizeof T" using ok'(1) unfolding k_def by linarith
    have "counted T vars (take k d) = int n"
      using counted_local [OF ok'(2), of k d] n(2) by (simp add: k_def)
    then have "well_formed (Counted z T I vars mx) (take k d)" using n(1) k d(1) by (auto simp: k_def)
    then show ?thesis using n(3) k by (auto simp: k_def)
  qed
  then show "f e s d = (s, 0) \<and> \<not> must_send i d \<or> (\<exists>k \<le> sizeof T. f e s d = srpc_async_call e s i (Some d) (of_nat k) \<and>
      well_formed (Counted z T I vars mx) (take k d))"
    using f [OF d, of s] by blast
qed simp

lemma counted_unsigned: "typeof T v \<in> {UChar, U16, U32} \<Longrightarrow> counted T [v] d = int (field T v d)"
  by (auto simp: counted_def cfield_def)

text \<open>The three forms of the check: a limit on the length member, the signed comparison of the computed
  size, and a range of a signed count.\<close>

lemma conforms_limit:
  assumes m: "(i, Counted z T I [v] mx) \<in> set (getdata_cases OTHER)" "sizeof I = 1" "typeof T v \<in> {UChar, U16, U32}"
    and f: "\<And>s d. f e s d = (if mx < field T v d then (s, 0)
      else srpc_async_call e s i (Some d) (of_nat (sizeof T - mx + field T v d)))"
  shows "conforms e i T ok f"
  by (rule conforms_counted [OF m(1)])
    (auto simp: f m(2) counted_unsigned [OF m(3)] not_less dest!: must_send_limits(2) [OF m(1)])

lemma conforms_checked:
  assumes m: "(i, Counted z T I [v] mx) \<in> set (getdata_cases OTHER)" "typeof T v \<in> {UChar, U16, U32}"
    and b: "sizeof I < 1024" "sizeof T < 2 ^ 30"
      "typeof T v = U32 \<Longrightarrow> sizeof I = 1 \<and> (\<forall>d. ok d \<longrightarrow> field T v d < 2 ^ 30)"
    and f: "\<And>s d. f e s d =
      (let sz = c_int (sizeof T - sizeof I * mx + sizeof I * field T v d)
       in if size_gt e sz (sizeof T) then (s, 0) else srpc_async_call e s i (Some d) (of_int sz))"
  shows "conforms e i T ok f"
proof (rule conforms_counted [OF m(1)])
  fix s d assume d: "length d = sizeof T" "ok d"
  define k where "k = sizeof T - sizeof I * mx + sizeof I * field T v d"
  have ok: "0 < sizeof I" "sizeof I * mx < sizeof T" using getdata_case_ok [OF m(1)] by simp_all
  have "sizeof I * field T v d < 2 ^ 30"
  proof (cases "typeof T v = U32")
    case True
    then show ?thesis using b(3) d(2) by simp
  next
    case False
    then have "field T v d < 65536" using m(2) field_bound [of T v d] by auto
    then have "sizeof I * field T v d \<le> 1024 * 65536" using b(1) by (intro mult_le_mono) simp_all
    then show ?thesis by simp
  qed
  then have "k < 2 ^ 31" using b(2) unfolding k_def by simp
  then have k: "size_gt e (c_int k) (sizeof T) \<longleftrightarrow> sizeof T < k" "(of_int (c_int k) :: u32) = of_nat k"
    by (simp_all add: size_gt_def c_int_small)
  have "field T v d \<le> mx" if "\<not> sizeof T < k"
  proof -
    have "sizeof I * field T v d \<le> sizeof I * mx" using that ok(2) unfolding k_def by linarith
    then show ?thesis using ok(1) by simp
  qed
  moreover have lim: "\<not> sizeof T < k" if "field T v d \<le> mx"
  proof -
    have "sizeof I * field T v d \<le> sizeof I * mx" using that by simp
    then show ?thesis using ok(2) unfolding k_def by linarith
  qed
  ultimately show "f e s d = (s, 0) \<and> \<not> must_send i d \<or> (\<exists>n\<le>mx. counted T [v] d = int n \<and>
      f e s d = srpc_async_call e s i (Some d) (of_nat (sizeof T - sizeof I * mx + sizeof I * n)))"
    using must_send_limits(2) [OF m(1), of d] lim
    unfolding f Let_def k_def [symmetric] k counted_unsigned [OF m(2)] by (auto simp: k_def)
qed

lemma conforms_signed:
  assumes m: "(i, Counted z T I [v] mx) \<in> set (getdata_cases OTHER)" "typeof T v = I32"
    and f: "\<And>s d. f e s d = (if sfield T v d < 1 \<or> int mx < sfield T v d then (s, 0)
      else srpc_async_call e s i (Some d) (of_nat (sizeof T - sizeof I * mx + sizeof I * nat (sfield T v d))))"
  shows "conforms e i T ok f"
proof (rule conforms_counted [OF m(1)])
  fix s d
  have "counted T [v] d = sfield T v d" using m(2) by (simp add: counted_def cfield_def)
  then show "f e s d = (s, 0) \<and> \<not> must_send i d \<or> (\<exists>n\<le>mx. counted T [v] d = int n \<and>
      f e s d = srpc_async_call e s i (Some d) (of_nat (sizeof T - sizeof I * mx + sizeof I * n)))"
    using must_send_limits [OF m(1), of d] m(2)
    by (cases "sfield T v d < 1 \<or> int mx < sfield T v d") (auto simp: f intro!: exI [of _ "nat (sfield T v d)"])
qed

section \<open>The senders of objects\<close>

text \<open>Every sender whose argument is one object (or that has no argument), with its call, the type of its
  object and what is asked of the object: a 32-bit length member must not be near \<open>2^32\<close>, see the last
  property of this theory.  Senders that compose their object from other arguments are treated
  separately.\<close>

type_synonym 'u sender = "'u env \<Rightarrow> 'u Tsrpc option \<Rightarrow> bytes \<Rightarrow> 'u Tsrpc option \<times> int"

definition device_senders :: "target \<Rightarrow> (u32 \<times> ctype \<times> (bytes \<Rightarrow> bool) \<times> 'u sender) list" where
  "device_senders t =
    [(SUPLA_DCS_CALL_GETVERSION, Struct [], \<lambda>_. True, \<lambda>e s d. srpc_dcs_async_getversion e s),
     (SUPLA_DCS_CALL_SET_ACTIVITY_TIMEOUT, TDCS_SuplaSetActivityTimeout, \<lambda>_. True, \<lambda>e s d. srpc_dcs_async_set_activity_timeout e s (Some d)),
     (SUPLA_SDC_CALL_SET_ACTIVITY_TIMEOUT_RESULT, TSDC_SuplaSetActivityTimeoutResult, \<lambda>_. True, \<lambda>e s d. srpc_dcs_async_set_activity_timeout_result e s (Some d)),
     (SUPLA_DCS_CALL_GET_REGISTRATION_ENABLED, Struct [], \<lambda>_. True, \<lambda>e s d. srpc_dcs_async_get_registration_enabled e s),
     (SUPLA_SDC_CALL_GET_REGISTRATION_ENABLED_RESULT, TSDC_RegistrationEnabled, \<lambda>_. True, \<lambda>e s d. srpc_sdc_async_get_registration_enabled_result e s (Some d)),
     (SUPLA_DCS_CALL_GET_USER_LOCALTIME, Struct [], \<lambda>_. True, \<lambda>e s d. srpc_dcs_async_get_user_localtime e s),
     (SUPLA_DCS_CALL_GET_USER_LOCALTIME_RESULT, TSDC_UserLocalTimeResult, \<lambda>_. True, \<lambda>e s d. srpc_sdc_async_get_user_localtime_result e s (Some d)),
     (SUPLA_CSD_CALL_GET_CHANNEL_STATE, TCSD_ChannelStateRequest, \<lambda>_. True, \<lambda>e s d. srpc_csd_async_get_channel_state e s (Some d)),
     (SUPLA_DSC_CALL_CHANNEL_STATE_RESULT, TDSC_ChannelState, \<lambda>_. True, \<lambda>e s d. srpc_csd_async_channel_state_result e s (Some d)),
     (SUPLA_DCS_CALL_SET_CHANNEL_CAPTION, TDCS_SetCaption, \<lambda>d. field TDCS_SetCaption [''CaptionSize''] d < 2 ^ 30, \<lambda>e s d. srpc_dcs_async_set_channel_caption e s d),
     (SUPLA_SCD_CALL_SET_CHANNEL_CAPTION_RESULT, TSCD_SetCaptionResult, \<lambda>d. field TSCD_SetCaptionResult [''CaptionSize''] d < 2 ^ 30, \<lambda>e s d. srpc_scd_async_set_channel_caption_result e s d),
     (SUPLA_DS_CALL_GET_FIRMWARE_UPDATE_URL, TDS_FirmwareUpdateParams, \<lambda>_. True, \<lambda>e s d. srpc_sd_async_get_firmware_update_url e s (Some d)),
     (SUPLA_DS_CALL_REGISTER_DEVICE, TDS_SuplaRegisterDevice, \<lambda>_. True, \<lambda>e s d. srpc_ds_async_registerdevice e s d),
     (SUPLA_DS_CALL_REGISTER_DEVICE_B, TDS_SuplaRegisterDevice_B, \<lambda>_. True, \<lambda>e s d. srpc_ds_async_registerdevice_b e s d),
     (SUPLA_DS_CALL_REGISTER_DEVICE_C, TDS_SuplaRegisterDevice_C, \<lambda>_. True, \<lambda>e s d. srpc_ds_async_registerdevice_c e s d),
     (SUPLA_DS_CALL_REGISTER_DEVICE_D, TDS_SuplaRegisterDevice_D, \<lambda>_. True, \<lambda>e s d. srpc_ds_async_registerdevice_d e s d),
     (SUPLA_DS_CALL_REGISTER_DEVICE_E, TDS_SuplaRegisterDevice_E, \<lambda>_. True, \<lambda>e s d. srpc_ds_async_registerdevice_e e s d),
     (SUPLA_DS_CALL_REGISTER_DEVICE_F, TDS_SuplaRegisterDevice_F, \<lambda>_. True, \<lambda>e s d. srpc_ds_async_registerdevice_f e s d),
     (SUPLA_DS_CALL_REGISTER_DEVICE_G, TDS_SuplaRegisterDevice_G, \<lambda>_. True, \<lambda>e s d. srpc_ds_async_registerdevice_g e s d),
     (SUPLA_SD_CALL_REGISTER_DEVICE_RESULT, TSD_SuplaRegisterDeviceResult, \<lambda>_. True, \<lambda>e s d. srpc_sd_async_registerdevice_result e s (Some d)),
     (SUPLA_SD_CALL_REGISTER_DEVICE_RESULT_B, TSD_SuplaRegisterDeviceResult_B, \<lambda>_. True, \<lambda>e s d. srpc_sd_async_registerdevice_result_b e s (Some d)),
     (SUPLA_SD_CALL_CHANNEL_SET_VALUE, TSD_SuplaChannelNewValue, \<lambda>_. True, \<lambda>e s d. srpc_sd_async_set_channel_value e s (Some d)),
     (SUPLA_SD_CALL_CHANNELGROUP_SET_VALUE, TSD_SuplaChannelGroupNewValue, \<lambda>_. True, \<lambda>e s d. srpc_sd_async_set_channelgroup_value e s (Some d)),
     (SUPLA_SD_CALL_GET_FIRMWARE_UPDATE_URL_RESULT, TSD_FirmwareUpdate_UrlResult, \<lambda>_. True,
      \<lambda>e s d. srpc_sd_async_get_firmware_update_url_result e s d),
     (SUPLA_SD_CALL_DEVICE_CALCFG_REQUEST, TSD_DeviceCalCfgRequest, \<lambda>_. True, \<lambda>e s d. srpc_sd_async_device_calcfg_request e s (Some d)),
     (SUPLA_DS_CALL_DEVICE_CALCFG_RESULT, TDS_DeviceCalCfgResult, \<lambda>_. True, \<lambda>e s d. srpc_ds_async_device_calcfg_result e s (Some d)),
     (SUPLA_DS_CALL_GET_CHANNEL_FUNCTIONS, Struct [], \<lambda>_. True, \<lambda>e s d. srpc_ds_async_get_channel_functions e s),
     (SUPLA_SD_CALL_GET_CHANNEL_FUNCTIONS_RESULT, TSD_ChannelFunctions, \<lambda>_. True,
      \<lambda>e s d. srpc_sd_async_get_channel_functions_result e s (Some d)),
     (SUPLA_DS_CALL_GET_CHANNEL_CONFIG, TDS_GetChannelConfigRequest, \<lambda>_. True, \<lambda>e s d. srpc_ds_async_get_channel_config_request e s (Some d)),
     (SUPLA_SD_CALL_GET_CHANNEL_CONFIG_RESULT, TSD_ChannelConfig, \<lambda>_. True, \<lambda>e s d. srpc_sd_async_get_channel_config_result e s (Some d)),
     (SUPLA_SD_CALL_SET_CHANNEL_CONFIG, TSDS_SetChannelConfig, \<lambda>_. True, \<lambda>e s d. srpc_sd_async_set_channel_config_request e s (Some d)),
     (SUPLA_DS_CALL_SET_CHANNEL_CONFIG_RESULT, TSDS_SetChannelConfigResult, \<lambda>_. True, \<lambda>e s d. srpc_ds_async_set_channel_config_result e s (Some d)),
     (SUPLA_DS_CALL_SET_CHANNEL_CONFIG, TSDS_SetChannelConfig, \<lambda>_. True, \<lambda>e s d. srpc_ds_async_set_channel_config_request e s (Some d)),
     (SUPLA_SD_CALL_SET_CHANNEL_CONFIG_RESULT, TSDS_SetChannelConfigResult, \<lambda>_. True, \<lambda>e s d. srpc_sd_async_set_channel_config_result e s (Some d)),
     (SUPLA_SD_CALL_CHANNEL_CONFIG_FINISHED, TSD_ChannelConfigFinished, \<lambda>_. True, \<lambda>e s d. srpc_sd_async_channel_config_finished e s (Some d)),
     (SUPLA_SD_CALL_SET_DEVICE_CONFIG, TSDS_SetDeviceConfig, \<lambda>_. True, \<lambda>e s d. srpc_sd_async_set_device_config_request e s (Some d)),
     (SUPLA_DS_CALL_SET_DEVICE_CONFIG_RESULT, TSDS_SetDeviceConfigResult, \<lambda>_. True, \<lambda>e s d. srpc_ds_async_set_device_config_result e s (Some d)),
     (SUPLA_DS_CALL_SET_DEVICE_CONFIG, TSDS_SetDeviceConfig, \<lambda>_. True, \<lambda>e s d. srpc_ds_async_set_device_config_request e s (Some d)),
     (SUPLA_SD_CALL_SET_DEVICE_CONFIG_RESULT, TSDS_SetDeviceConfigResult, \<lambda>_. True, \<lambda>e s d. srpc_sd_async_set_device_config_result e s (Some d)),
     (SUPLA_DS_CALL_ACTIONTRIGGER, TDS_ActionTrigger, \<lambda>_. True, \<lambda>e s d. srpc_ds_async_action_trigger e s (Some d)),
     (SUPLA_DS_CALL_REGISTER_PUSH_NOTIFICATION, TDS_RegisterPushNotification, \<lambda>_. True, \<lambda>e s d. srpc_ds_async_register_push_notification e s (Some d)),
     (SUPLA_DS_CALL_SEND_PUSH_NOTIFICATION, TDS_PushNotification, \<lambda>_. True,
      \<lambda>e s d. srpc_ds_async_send_push_notification e s (Some d)),
     (SUPLA_DS_CALL_SET_SUBDEVICE_DETAILS, TDS_SubdeviceDetails, \<lambda>_. True, \<lambda>e s d. srpc_ds_async_set_subdevice_details e s (Some d))]"

lemmas device_senders_defs =
  srpc_dcs_async_getversion_def srpc_dcs_async_set_activity_timeout_def srpc_dcs_async_set_activity_timeout_result_def
  srpc_dcs_async_get_registration_enabled_def srpc_sdc_async_get_registration_enabled_result_def srpc_dcs_async_get_user_localtime_def
  srpc_sdc_async_get_user_localtime_result_def srpc_csd_async_get_channel_state_def srpc_csd_async_channel_state_result_def
  srpc_dcs_async_set_channel_caption_def srpc_scd_async_set_channel_caption_result_def srpc_sd_async_get_firmware_update_url_def
  srpc_ds_async_registerdevice_def srpc_ds_async_registerdevice_b_def srpc_ds_async_registerdevice_c_def
  srpc_ds_async_registerdevice_d_def srpc_ds_async_registerdevice_e_def srpc_ds_async_registerdevice_f_def
  srpc_ds_async_registerdevice_g_def srpc_sd_async_registerdevice_result_def srpc_sd_async_registerdevice_result_b_def
  srpc_sd_async_set_channel_value_def srpc_sd_async_set_channelgroup_value_def srpc_sd_async_get_firmware_update_url_result_def
  srpc_sd_async_device_calcfg_request_def srpc_ds_async_device_calcfg_result_def srpc_ds_async_get_channel_functions_def
  srpc_sd_async_get_channel_functions_result_def srpc_ds_async_get_channel_config_request_def srpc_sd_async_get_channel_config_result_def
  srpc_sd_async_set_channel_config_request_def srpc_ds_async_set_channel_config_result_def srpc_ds_async_set_channel_config_request_def
  srpc_sd_async_set_channel_config_result_def srpc_sd_async_channel_config_finished_def srpc_sd_async_set_device_config_request_def
  srpc_ds_async_set_device_config_result_def srpc_ds_async_set_device_config_request_def srpc_sd_async_set_device_config_result_def
  srpc_ds_async_action_trigger_def srpc_ds_async_register_push_notification_def srpc_ds_async_send_push_notification_def
  srpc_ds_async_set_subdevice_details_def

definition client_senders :: "target \<Rightarrow> (u32 \<times> ctype \<times> (bytes \<Rightarrow> bool) \<times> 'u sender) list" where
  "client_senders t =
    [(SUPLA_CS_CALL_REGISTER_CLIENT, TCS_SuplaRegisterClient, \<lambda>_. True, \<lambda>e s d. srpc_cs_async_registerclient e s (Some d)),
     (SUPLA_CS_CALL_REGISTER_CLIENT_B, TCS_SuplaRegisterClient_B, \<lambda>_. True, \<lambda>e s d. srpc_cs_async_registerclient_b e s (Some d)),
     (SUPLA_CS_CALL_REGISTER_CLIENT_C, TCS_SuplaRegisterClient_C, \<lambda>_. True, \<lambda>e s d. srpc_cs_async_registerclient_c e s (Some d)),
     (SUPLA_CS_CALL_REGISTER_CLIENT_D, TCS_SuplaRegisterClient_D, \<lambda>_. True, \<lambda>e s d. srpc_cs_async_registerclient_d e s (Some d)),
     (SUPLA_SC_CALL_REGISTER_CLIENT_RESULT, TSC_SuplaRegisterClientResult, \<lambda>_. True, \<lambda>e s d. srpc_sc_async_registerclient_result e s (Some d)),
     (SUPLA_SC_CALL_REGISTER_CLIENT_RESULT_B, TSC_SuplaRegisterClientResult_B, \<lambda>_. True, \<lambda>e s d. srpc_sc_async_registerclient_result_b e s (Some d)),
     (SUPLA_SC_CALL_REGISTER_CLIENT_RESULT_C, TSC_SuplaRegisterClientResult_C, \<lambda>_. True, \<lambda>e s d. srpc_sc_async_registerclient_result_c e s (Some d)),
     (SUPLA_SC_CALL_REGISTER_CLIENT_RESULT_D, TSC_SuplaRegisterClientResult_D, \<lambda>_. True, \<lambda>e s d. srpc_sc_async_registerclient_result_d e s (Some d)),
     (SUPLA_SC_CALL_LOCATION_UPDATE, TSC_SuplaLocation, \<lambda>d. field TSC_SuplaLocation [''CaptionSize''] d < 2 ^ 30, \<lambda>e s d. srpc_sc_async_location_update e s d),
     (SUPLA_SC_CALL_CHANNEL_VALUE_UPDATE, TSC_SuplaChannelValue, \<lambda>_. True, \<lambda>e s d. srpc_sc_async_channel_value_update e s (Some d)),
     (SUPLA_SC_CALL_CHANNEL_VALUE_UPDATE_B, TSC_SuplaChannelValue_B, \<lambda>_. True, \<lambda>e s d. srpc_sc_async_channel_value_update_b e s (Some d)),
     (SUPLA_SC_CALL_CHANNELGROUP_RELATION_PACK_UPDATE, TSC_SuplaChannelGroupRelationPack, \<lambda>_. True, \<lambda>e s d. srpc_sc_async_channelgroup_relation_pack_update e s d),
     (SUPLA_SC_CALL_CHANNEL_RELATION_PACK_UPDATE, TSC_SuplaChannelRelationPack, \<lambda>_. True, \<lambda>e s d. srpc_sc_async_channel_relation_pack_update e s d),
     (SUPLA_SC_CALL_CHANNELVALUE_PACK_UPDATE, TSC_SuplaChannelValuePack, \<lambda>_. True, \<lambda>e s d. srpc_sc_async_channelvalue_pack_update e s d),
     (SUPLA_SC_CALL_CHANNELVALUE_PACK_UPDATE_B, TSC_SuplaChannelValuePack_B, \<lambda>_. True, \<lambda>e s d. srpc_sc_async_channelvalue_pack_update_b e s d),
     (SUPLA_SC_CALL_CHANNELEXTENDEDVALUE_PACK_UPDATE, (TSC_SuplaChannelExtendedValuePack t), \<lambda>_. True,
      \<lambda>e s d. srpc_sc_async_channelextendedvalue_pack_update e s (Some d)),
     (SUPLA_SC_CALL_CHANNEL_STATE_PACK_UPDATE, TSC_SuplaChannelStatePack, \<lambda>_. True, \<lambda>e s d. srpc_sc_async_channel_state_pack_update e s d),
     (SUPLA_CS_CALL_GET_NEXT, Struct [], \<lambda>_. True, \<lambda>e s d. srpc_cs_async_get_next e s),
     (SUPLA_SC_CALL_EVENT, TSC_SuplaEvent, \<lambda>d. field TSC_SuplaEvent [''SenderNameSize''] d < 2 ^ 30, \<lambda>e s d. srpc_sc_async_event e s d),
     (SUPLA_CS_CALL_CHANNEL_SET_VALUE, TCS_SuplaChannelNewValue, \<lambda>_. True, \<lambda>e s d. srpc_cs_async_set_channel_value e s (Some d)),
     (SUPLA_CS_CALL_CHANNEL_SET_VALUE_B, TCS_SuplaChannelNewValue_B, \<lambda>_. True, \<lambda>e s d. srpc_cs_async_set_channel_value_b e s (Some d)),
     (SUPLA_CS_CALL_SET_VALUE, TCS_SuplaNewValue, \<lambda>_. True, \<lambda>e s d. srpc_cs_async_set_value e s (Some d)),
     (SUPLA_CS_CALL_OAUTH_TOKEN_REQUEST, Struct [], \<lambda>_. True, \<lambda>e s d. srpc_cs_async_oauth_token_request e s),
     (SUPLA_SC_CALL_OAUTH_TOKEN_REQUEST_RESULT, TSC_OAuthTokenRequestResult, \<lambda>_. True, \<lambda>e s d. srpc_cs_async_oauth_token_request_result e s (Some d)),
     (SUPLA_CS_CALL_SUPERUSER_AUTHORIZATION_REQUEST, TCS_SuperUserAuthorizationRequest, \<lambda>_. True, \<lambda>e s d. srpc_cs_async_superuser_authorization_request e s (Some d)),
     (SUPLA_CS_CALL_GET_SUPERUSER_AUTHORIZATION_RESULT, Struct [], \<lambda>_. True, \<lambda>e s d. srpc_cs_async_get_superuser_authorization_result e s),
     (SUPLA_SC_CALL_SUPERUSER_AUTHORIZATION_RESULT, TSC_SuperUserAuthorizationResult, \<lambda>_. True, \<lambda>e s d. srpc_sc_async_superuser_authorization_result e s (Some d)),
     (SUPLA_CS_CALL_DEVICE_CALCFG_REQUEST, TCS_DeviceCalCfgRequest, \<lambda>_. True, \<lambda>e s d. srpc_cs_async_device_calcfg_request e s (Some d)),
     (SUPLA_CS_CALL_DEVICE_CALCFG_REQUEST_B, TCS_DeviceCalCfgRequest_B, \<lambda>_. True, \<lambda>e s d. srpc_cs_async_device_calcfg_request_b e s (Some d)),
     (SUPLA_SC_CALL_DEVICE_CALCFG_RESULT, TSC_DeviceCalCfgResult, \<lambda>_. True, \<lambda>e s d. srpc_sc_async_device_calcfg_result e s (Some d)),
     (SUPLA_SC_CALL_CHANNEL_BASIC_CFG_RESULT, TSC_ChannelBasicCfg, \<lambda>d. field TSC_ChannelBasicCfg [''CaptionSize''] d < 2 ^ 30, \<lambda>e s d. srpc_sc_async_channel_basic_cfg_result e s d),
     (SUPLA_CS_CALL_SET_CHANNEL_FUNCTION, TCS_SetChannelFunction, \<lambda>_. True, \<lambda>e s d. srpc_cs_async_set_channel_function e s (Some d)),
     (SUPLA_SC_CALL_SET_CHANNEL_FUNCTION_RESULT, TSC_SetChannelFunctionResult, \<lambda>_. True, \<lambda>e s d. srpc_sc_async_set_channel_function_result e s (Some d)),
     (SUPLA_CS_CALL_SET_CHANNEL_GROUP_CAPTION, TDCS_SetCaption, \<lambda>d. field TDCS_SetCaption [''CaptionSize''] d < 2 ^ 30, \<lambda>e s d. srpc_cs_async_set_channel_group_caption e s d),
     (SUPLA_SC_CALL_SET_CHANNEL_GROUP_CAPTION_RESULT, TSCD_SetCaptionResult, \<lambda>d. field TSCD_SetCaptionResult [''CaptionSize''] d < 2 ^ 30, \<lambda>e s d. srpc_sc_async_set_channel_group_caption_result e s d),
     (SUPLA_CS_CALL_SET_LOCATION_CAPTION, TDCS_SetCaption, \<lambda>d. field TDCS_SetCaption [''CaptionSize''] d < 2 ^ 30, \<lambda>e s d. srpc_cs_async_set_location_caption e s d),
     (SUPLA_SC_CALL_SET_LOCATION_CAPTION_RESULT, TSCD_SetCaptionResult, \<lambda>d. field TSCD_SetCaptionResult [''CaptionSize''] d < 2 ^ 30, \<lambda>e s d. srpc_sc_async_set_location_caption_result e s d),
     (SUPLA_CS_CALL_SET_SCENE_CAPTION, TDCS_SetCaption, \<lambda>d. field TDCS_SetCaption [''CaptionSize''] d < 2 ^ 30, \<lambda>e s d. srpc_cs_async_set_scene_caption e s d),
     (SUPLA_SC_CALL_SET_SCENE_CAPTION_RESULT, TSCD_SetCaptionResult, \<lambda>d. field TSCD_SetCaptionResult [''CaptionSize''] d < 2 ^ 30, \<lambda>e s d. srpc_sc_async_set_scene_caption_result e s d),
     (SUPLA_CS_CALL_CLIENTS_RECONNECT_REQUEST, Struct [], \<lambda>_. True, \<lambda>e s d. srpc_cs_async_clients_reconnect_request e s),
     (SUPLA_SC_CALL_CLIENTS_RECONNECT_REQUEST_RESULT, TSC_ClientsReconnectRequestResult, \<lambda>_. True, \<lambda>e s d. srpc_sc_async_clients_reconnect_request_result e s (Some d)),
     (SUPLA_CS_CALL_SET_REGISTRATION_ENABLED, TCS_SetRegistrationEnabled, \<lambda>_. True, \<lambda>e s d. srpc_cs_async_set_registration_enabled e s (Some d)),
     (SUPLA_SC_CALL_SET_REGISTRATION_ENABLED_RESULT, TSC_SetRegistrationEnabledResult, \<lambda>_. True, \<lambda>e s d. srpc_sc_async_set_registration_enabled_result e s (Some d)),
     (SUPLA_CS_CALL_DEVICE_RECONNECT_REQUEST, TCS_DeviceReconnectRequest, \<lambda>_. True, \<lambda>e s d. srpc_cs_async_device_reconnect_request e s (Some d)),
     (SUPLA_SC_CALL_DEVICE_RECONNECT_REQUEST_RESULT, TSC_DeviceReconnectRequestResult, \<lambda>_. True, \<lambda>e s d. srpc_sc_async_device_reconnect_request_result e s (Some d)),
     (SUPLA_CS_CALL_TIMER_ARM, TCS_TimerArmRequest, \<lambda>_. True, \<lambda>e s d. srpc_cs_async_timer_arm e s (Some d)),
     (SUPLA_CS_CALL_EXECUTE_ACTION, TCS_Action, \<lambda>_. True, \<lambda>e s d. srpc_cs_async_execute_action e s (Some d)),
     (SUPLA_CS_CALL_EXECUTE_ACTION_WITH_AUTH, TCS_ActionWithAuth, \<lambda>_. True, \<lambda>e s d. srpc_cs_async_execute_action_with_auth e s (Some d)),
     (SUPLA_SC_CALL_ACTION_EXECUTION_RESULT, TSC_ActionExecutionResult, \<lambda>_. True, \<lambda>e s d. srpc_sc_async_action_execution_result e s (Some d)),
     (SUPLA_CS_CALL_GET_CHANNEL_VALUE_WITH_AUTH, TCS_GetChannelValueWithAuth, \<lambda>_. True, \<lambda>e s d. srpc_cs_async_get_channel_value_with_auth e s (Some d)),
     (SUPLA_SC_CALL_GET_CHANNEL_VALUE_RESULT, (TSC_GetChannelValueResult t), \<lambda>d. field (TSC_GetChannelValueResult t) [''ExtendedValue'', ''size''] d < 2 ^ 30, \<lambda>e s d. srpc_sc_async_get_channel_value_result e s (Some d)),
     (SUPLA_CS_CALL_REGISTER_PN_CLIENT_TOKEN, TCS_RegisterPnClientToken, \<lambda>_. True, \<lambda>e s d. srpc_cs_async_register_pn_client_token e s (Some d)),
     (SUPLA_SC_CALL_REGISTER_PN_CLIENT_TOKEN_RESULT, TSC_RegisterPnClientTokenResult, \<lambda>_. True, \<lambda>e s d. srpc_sc_async_register_pn_client_token_result e s (Some d)),
     (SUPLA_CS_CALL_GET_CHANNEL_CONFIG, TCS_GetChannelConfigRequest, \<lambda>_. True, \<lambda>e s d. srpc_cs_async_get_channel_config_request e s (Some d)),
     (SUPLA_SC_CALL_CHANNEL_CONFIG_UPDATE_OR_RESULT, TSC_ChannelConfigUpdateOrResult, \<lambda>_. True, \<lambda>e s d. srpc_sc_async_channel_config_update_or_result e s (Some d)),
     (SUPLA_CS_CALL_SET_CHANNEL_CONFIG, TSCS_ChannelConfig, \<lambda>_. True, \<lambda>e s d. srpc_cs_async_set_channel_config_request e s (Some d)),
     (SUPLA_CS_CALL_GET_DEVICE_CONFIG, TCS_GetDeviceConfigRequest, \<lambda>_. True, \<lambda>e s d. srpc_cs_async_get_device_config_request e s (Some d)),
     (SUPLA_SC_CALL_DEVICE_CONFIG_UPDATE_OR_RESULT, TSC_DeviceConfigUpdateOrResult, \<lambda>_. True, \<lambda>e s d. srpc_sc_async_device_config_update_or_result e s (Some d))]"

lemmas client_senders_defs =
  srpc_cs_async_registerclient_def srpc_cs_async_registerclient_b_def srpc_cs_async_registerclient_c_def
  srpc_cs_async_registerclient_d_def srpc_sc_async_registerclient_result_def srpc_sc_async_registerclient_result_b_def
  srpc_sc_async_registerclient_result_c_def srpc_sc_async_registerclient_result_d_def srpc_sc_async_location_update_def
  srpc_sc_async_channelgroup_relation_pack_update_def srpc_sc_async_channel_relation_pack_update_def srpc_sc_async_channelvalue_pack_update_def
  srpc_sc_async_channelvalue_pack_update_b_def srpc_sc_async_channelextendedvalue_pack_update_def srpc_sc_async_channel_state_pack_update_def
  srpc_cs_async_get_next_def srpc_sc_async_event_def srpc_cs_async_set_channel_value_def
  srpc_cs_async_set_channel_value_b_def srpc_cs_async_set_value_def srpc_cs_async_oauth_token_request_def
  srpc_cs_async_oauth_token_request_result_def srpc_cs_async_superuser_authorization_request_def srpc_cs_async_get_superuser_authorization_result_def
  srpc_sc_async_superuser_authorization_result_def srpc_cs_async_device_calcfg_request_def srpc_cs_async_device_calcfg_request_b_def
  srpc_sc_async_device_calcfg_result_def srpc_sc_async_channel_basic_cfg_result_def srpc_cs_async_set_channel_function_def
  srpc_sc_async_set_channel_function_result_def srpc_cs_async_set_channel_group_caption_def srpc_sc_async_set_channel_group_caption_result_def
  srpc_cs_async_set_location_caption_def srpc_sc_async_set_location_caption_result_def srpc_cs_async_set_scene_caption_def
  srpc_sc_async_set_scene_caption_result_def srpc_cs_async_clients_reconnect_request_def srpc_sc_async_clients_reconnect_request_result_def
  srpc_cs_async_set_registration_enabled_def srpc_sc_async_set_registration_enabled_result_def srpc_cs_async_device_reconnect_request_def
  srpc_sc_async_device_reconnect_request_result_def srpc_cs_async_timer_arm_def srpc_cs_async_execute_action_with_auth_def
  srpc_cs_async_execute_action_def srpc_sc_async_channel_value_update_def srpc_sc_async_channel_value_update_b_def
  srpc_sc_async_action_execution_result_def srpc_cs_async_get_channel_value_with_auth_def srpc_sc_async_get_channel_value_result_def
  srpc_cs_async_register_pn_client_token_def srpc_sc_async_register_pn_client_token_result_def srpc_cs_async_get_channel_config_request_def
  srpc_sc_async_channel_config_update_or_result_def srpc_cs_async_set_channel_config_request_def srpc_cs_async_get_device_config_request_def
  srpc_sc_async_device_config_update_or_result_def

lemmas getdata_tables = getdata_cases_def getdata_common_def getdata_device1_def getdata_device2_def
  getdata_client1_def getdata_client2_def getdata_client3_def getdata_client4_def SRPC_EXCLUDE_CLIENT_def

text \<open>The branches of the server, by their shape.\<close>

lemma none_cases:
  "(SUPLA_DCS_CALL_GETVERSION, No_Data) \<in> set (getdata_cases OTHER)"
  "(SUPLA_CS_CALL_GET_NEXT, No_Data) \<in> set (getdata_cases OTHER)"
  "(SUPLA_DCS_CALL_GET_REGISTRATION_ENABLED, No_Data) \<in> set (getdata_cases OTHER)"
  "(SUPLA_DCS_CALL_GET_USER_LOCALTIME, No_Data) \<in> set (getdata_cases OTHER)"
  "(SUPLA_DS_CALL_GET_CHANNEL_FUNCTIONS, No_Data) \<in> set (getdata_cases OTHER)"
  "(SUPLA_CS_CALL_OAUTH_TOKEN_REQUEST, No_Data) \<in> set (getdata_cases OTHER)"
  "(SUPLA_CS_CALL_GET_SUPERUSER_AUTHORIZATION_RESULT, No_Data) \<in> set (getdata_cases OTHER)"
  "(SUPLA_CS_CALL_CLIENTS_RECONNECT_REQUEST, No_Data) \<in> set (getdata_cases OTHER)"
  by (simp_all add: getdata_tables)

lemma exact_cases:
  "(SUPLA_SDC_CALL_GETVERSION_RESULT, Exact True TSDC_SuplaGetVersionResult) \<in> set (getdata_cases OTHER)"
  "(SUPLA_SDC_CALL_VERSIONERROR, Exact True TSDC_SuplaVersionError) \<in> set (getdata_cases OTHER)"
  "(SUPLA_SDC_CALL_PING_SERVER_RESULT, Exact True TSDC_SuplaPingServerResult) \<in> set (getdata_cases OTHER)"
  "(SUPLA_DCS_CALL_SET_ACTIVITY_TIMEOUT, Exact True TDCS_SuplaSetActivityTimeout) \<in> set (getdata_cases OTHER)"
  "(SUPLA_SDC_CALL_SET_ACTIVITY_TIMEOUT_RESULT, Exact True TSDC_SuplaSetActivityTimeoutResult) \<in> set (getdata_cases OTHER)"
  "(SUPLA_SDC_CALL_GET_REGISTRATION_ENABLED_RESULT, Exact True TSDC_RegistrationEnabled) \<in> set (getdata_cases OTHER)"
  "(SUPLA_CSD_CALL_GET_CHANNEL_STATE, Exact True TCSD_ChannelStateRequest) \<in> set (getdata_cases OTHER)"
  "(SUPLA_DSC_CALL_CHANNEL_STATE_RESULT, Exact True TDSC_ChannelState) \<in> set (getdata_cases OTHER)"
  "(SUPLA_SD_CALL_REGISTER_DEVICE_RESULT, Exact True TSD_SuplaRegisterDeviceResult) \<in> set (getdata_cases OTHER)"
  "(SUPLA_DS_CALL_DEVICE_CHANNEL_VALUE_CHANGED, Exact True TDS_SuplaDeviceChannelValue) \<in> set (getdata_cases OTHER)"
  "(SUPLA_DS_CALL_DEVICE_CHANNEL_VALUE_CHANGED_B, Exact True TDS_SuplaDeviceChannelValue_B) \<in> set (getdata_cases OTHER)"
  "(SUPLA_DS_CALL_DEVICE_CHANNEL_VALUE_CHANGED_C, Exact True TDS_SuplaDeviceChannelValue_C) \<in> set (getdata_cases OTHER)"
  "(SUPLA_SD_CALL_CHANNEL_SET_VALUE, Exact True TSD_SuplaChannelNewValue) \<in> set (getdata_cases OTHER)"
  "(SUPLA_SD_CALL_CHANNELGROUP_SET_VALUE, Exact True TSD_SuplaChannelGroupNewValue) \<in> set (getdata_cases OTHER)"
  "(SUPLA_DS_CALL_CHANNEL_SET_VALUE_RESULT, Exact True TDS_SuplaChannelNewValueResult) \<in> set (getdata_cases OTHER)"
  "(SUPLA_DS_CALL_GET_FIRMWARE_UPDATE_URL, Exact True TDS_FirmwareUpdateParams) \<in> set (getdata_cases OTHER)"
  "(SUPLA_DS_CALL_GET_CHANNEL_CONFIG, Exact True TDS_GetChannelConfigRequest) \<in> set (getdata_cases OTHER)"
  "(SUPLA_DS_CALL_ACTIONTRIGGER, Exact True TDS_ActionTrigger) \<in> set (getdata_cases OTHER)"
  "(SUPLA_DS_CALL_REGISTER_PUSH_NOTIFICATION, Exact True TDS_RegisterPushNotification) \<in> set (getdata_cases OTHER)"
  "(SUPLA_DS_CALL_SET_CHANNEL_CONFIG_RESULT, Exact False TSDS_SetChannelConfigResult) \<in> set (getdata_cases OTHER)"
  "(SUPLA_SD_CALL_SET_CHANNEL_CONFIG_RESULT, Exact False TSDS_SetChannelConfigResult) \<in> set (getdata_cases OTHER)"
  "(SUPLA_SD_CALL_CHANNEL_CONFIG_FINISHED, Exact False TSD_ChannelConfigFinished) \<in> set (getdata_cases OTHER)"
  "(SUPLA_SD_CALL_SET_DEVICE_CONFIG_RESULT, Exact False TSDS_SetDeviceConfigResult) \<in> set (getdata_cases OTHER)"
  "(SUPLA_DS_CALL_SET_DEVICE_CONFIG_RESULT, Exact False TSDS_SetDeviceConfigResult) \<in> set (getdata_cases OTHER)"
  "(SUPLA_DS_CALL_SET_SUBDEVICE_DETAILS, Exact False TDS_SubdeviceDetails) \<in> set (getdata_cases OTHER)"
  "(SUPLA_CS_CALL_REGISTER_CLIENT, Exact True TCS_SuplaRegisterClient) \<in> set (getdata_cases OTHER)"
  "(SUPLA_CS_CALL_REGISTER_CLIENT_B, Exact True TCS_SuplaRegisterClient_B) \<in> set (getdata_cases OTHER)"
  "(SUPLA_CS_CALL_REGISTER_CLIENT_C, Exact True TCS_SuplaRegisterClient_C) \<in> set (getdata_cases OTHER)"
  "(SUPLA_CS_CALL_REGISTER_CLIENT_D, Exact True TCS_SuplaRegisterClient_D) \<in> set (getdata_cases OTHER)"
  "(SUPLA_SC_CALL_REGISTER_CLIENT_RESULT, Exact True TSC_SuplaRegisterClientResult) \<in> set (getdata_cases OTHER)"
  "(SUPLA_SC_CALL_REGISTER_CLIENT_RESULT_B, Exact True TSC_SuplaRegisterClientResult_B) \<in> set (getdata_cases OTHER)"
  "(SUPLA_SC_CALL_REGISTER_CLIENT_RESULT_C, Exact True TSC_SuplaRegisterClientResult_C) \<in> set (getdata_cases OTHER)"
  "(SUPLA_SC_CALL_REGISTER_CLIENT_RESULT_D, Exact True TSC_SuplaRegisterClientResult_D) \<in> set (getdata_cases OTHER)"
  "(SUPLA_SC_CALL_CHANNEL_VALUE_UPDATE, Exact True TSC_SuplaChannelValue) \<in> set (getdata_cases OTHER)"
  "(SUPLA_SC_CALL_CHANNEL_VALUE_UPDATE_B, Exact True TSC_SuplaChannelValue_B) \<in> set (getdata_cases OTHER)"
  "(SUPLA_CS_CALL_CHANNEL_SET_VALUE, Exact True TCS_SuplaChannelNewValue) \<in> set (getdata_cases OTHER)"
  "(SUPLA_CS_CALL_SET_VALUE, Exact True TCS_SuplaNewValue) \<in> set (getdata_cases OTHER)"
  "(SUPLA_CS_CALL_CHANNEL_SET_VALUE_B, Exact True TCS_SuplaChannelNewValue_B) \<in> set (getdata_cases OTHER)"
  "(SUPLA_CS_CALL_SUPERUSER_AUTHORIZATION_REQUEST, Exact True TCS_SuperUserAuthorizationRequest) \<in> set (getdata_cases OTHER)"
  "(SUPLA_SC_CALL_SUPERUSER_AUTHORIZATION_RESULT, Exact True TSC_SuperUserAuthorizationResult) \<in> set (getdata_cases OTHER)"
  "(SUPLA_CS_CALL_GET_CHANNEL_BASIC_CFG, Exact True TCS_ChannelBasicCfgRequest) \<in> set (getdata_cases OTHER)"
  "(SUPLA_CS_CALL_SET_CHANNEL_FUNCTION, Exact True TCS_SetChannelFunction) \<in> set (getdata_cases OTHER)"
  "(SUPLA_SC_CALL_SET_CHANNEL_FUNCTION_RESULT, Exact True TSC_SetChannelFunctionResult) \<in> set (getdata_cases OTHER)"
  "(SUPLA_SC_CALL_CLIENTS_RECONNECT_REQUEST_RESULT, Exact True TSC_ClientsReconnectRequestResult) \<in> set (getdata_cases OTHER)"
  "(SUPLA_CS_CALL_SET_REGISTRATION_ENABLED, Exact True TCS_SetRegistrationEnabled) \<in> set (getdata_cases OTHER)"
  "(SUPLA_SC_CALL_SET_REGISTRATION_ENABLED_RESULT, Exact True TSC_SetRegistrationEnabledResult) \<in> set (getdata_cases OTHER)"
  "(SUPLA_CS_CALL_DEVICE_RECONNECT_REQUEST, Exact True TCS_DeviceReconnectRequest) \<in> set (getdata_cases OTHER)"
  "(SUPLA_SC_CALL_DEVICE_RECONNECT_REQUEST_RESULT, Exact True TSC_DeviceReconnectRequestResult) \<in> set (getdata_cases OTHER)"
  "(SUPLA_CS_CALL_TIMER_ARM, Exact True TCS_TimerArmRequest) \<in> set (getdata_cases OTHER)"
  "(SUPLA_SC_CALL_ACTION_EXECUTION_RESULT, Exact True TSC_ActionExecutionResult) \<in> set (getdata_cases OTHER)"
  "(SUPLA_CS_CALL_GET_CHANNEL_VALUE_WITH_AUTH, Exact True TCS_GetChannelValueWithAuth) \<in> set (getdata_cases OTHER)"
  "(SUPLA_SC_CALL_REGISTER_PN_CLIENT_TOKEN_RESULT, Exact True TSC_RegisterPnClientTokenResult) \<in> set (getdata_cases OTHER)"
  "(SUPLA_CS_CALL_GET_CHANNEL_CONFIG, Exact True TCS_GetChannelConfigRequest) \<in> set (getdata_cases OTHER)"
  "(SUPLA_CS_CALL_GET_DEVICE_CONFIG, Exact False TCS_GetDeviceConfigRequest) \<in> set (getdata_cases OTHER)"
  by (simp_all add: getdata_tables)

lemma counted_cases:
  "(SUPLA_DCS_CALL_GET_USER_LOCALTIME_RESULT, Counted True TSDC_UserLocalTimeResult CChar [[''timezoneSize'']] SUPLA_TIMEZONE_MAXSIZE) \<in> set (getdata_cases OTHER)"
  "(SUPLA_SCD_CALL_SET_CHANNEL_CAPTION_RESULT, Counted True TSCD_SetCaptionResult CChar [[''CaptionSize'']] SUPLA_CAPTION_MAXSIZE) \<in> set (getdata_cases OTHER)"
  "(SUPLA_DS_CALL_REGISTER_DEVICE, Counted True TDS_SuplaRegisterDevice TDS_SuplaDeviceChannel [[''channel_count'']] SUPLA_CHANNELMAXCOUNT) \<in> set (getdata_cases OTHER)"
  "(SUPLA_DS_CALL_REGISTER_DEVICE_B, Counted True TDS_SuplaRegisterDevice_B TDS_SuplaDeviceChannel_B [[''channel_count'']] SUPLA_CHANNELMAXCOUNT) \<in> set (getdata_cases OTHER)"
  "(SUPLA_DS_CALL_REGISTER_DEVICE_C, Counted True TDS_SuplaRegisterDevice_C TDS_SuplaDeviceChannel_B [[''channel_count'']] SUPLA_CHANNELMAXCOUNT) \<in> set (getdata_cases OTHER)"
  "(SUPLA_DS_CALL_REGISTER_DEVICE_D, Counted True TDS_SuplaRegisterDevice_D TDS_SuplaDeviceChannel_B [[''channel_count'']] SUPLA_CHANNELMAXCOUNT) \<in> set (getdata_cases OTHER)"
  "(SUPLA_DS_CALL_REGISTER_DEVICE_E, Counted True TDS_SuplaRegisterDevice_E TDS_SuplaDeviceChannel_C [[''channel_count'']] SUPLA_CHANNELMAXCOUNT) \<in> set (getdata_cases OTHER)"
  "(SUPLA_DS_CALL_REGISTER_DEVICE_F, Counted True TDS_SuplaRegisterDevice_F TDS_SuplaDeviceChannel_D [[''channel_count'']] SUPLA_CHANNELMAXCOUNT) \<in> set (getdata_cases OTHER)"
  "(SUPLA_DS_CALL_REGISTER_DEVICE_G, Counted True TDS_SuplaRegisterDevice_G TDS_SuplaDeviceChannel_E [[''channel_count'']] SUPLA_CHANNELMAXCOUNT) \<in> set (getdata_cases OTHER)"
  "(SUPLA_SD_CALL_REGISTER_DEVICE_RESULT_B, Counted True TSD_SuplaRegisterDeviceResult_B UChar [[''channel_report_size'']] CHANNEL_REPORT_MAXSIZE) \<in> set (getdata_cases OTHER)"
  "(SUPLA_DS_CALL_DEVICE_CHANNEL_EXTENDEDVALUE_CHANGED, Counted True (TDS_SuplaDeviceChannelExtendedValue OTHER) CChar [[''value'', ''size'']] (SUPLA_CHANNELEXTENDEDVALUE_SIZE OTHER)) \<in> set (getdata_cases OTHER)"
  "(SUPLA_SD_CALL_DEVICE_CALCFG_REQUEST, Counted True TSD_DeviceCalCfgRequest CChar [[''DataSize'']] SUPLA_CALCFG_DATA_MAXSIZE) \<in> set (getdata_cases OTHER)"
  "(SUPLA_DS_CALL_DEVICE_CALCFG_RESULT, Counted True TDS_DeviceCalCfgResult CChar [[''DataSize'']] SUPLA_CALCFG_DATA_MAXSIZE) \<in> set (getdata_cases OTHER)"
  "(SUPLA_SD_CALL_GET_CHANNEL_FUNCTIONS_RESULT, Counted True TSD_ChannelFunctions I32 [[''ChannelCount'']] SUPLA_CHANNELMAXCOUNT) \<in> set (getdata_cases OTHER)"
  "(SUPLA_SD_CALL_GET_CHANNEL_CONFIG_RESULT, Counted True TSD_ChannelConfig CChar [[''ConfigSize'']] SUPLA_CHANNEL_CONFIG_MAXSIZE) \<in> set (getdata_cases OTHER)"
  "(SUPLA_DS_CALL_SET_CHANNEL_CONFIG, Counted False TSDS_SetChannelConfig CChar [[''ConfigSize'']] SUPLA_CHANNEL_CONFIG_MAXSIZE) \<in> set (getdata_cases OTHER)"
  "(SUPLA_SD_CALL_SET_CHANNEL_CONFIG, Counted False TSDS_SetChannelConfig CChar [[''ConfigSize'']] SUPLA_CHANNEL_CONFIG_MAXSIZE) \<in> set (getdata_cases OTHER)"
  "(SUPLA_DS_CALL_SET_DEVICE_CONFIG, Counted False TSDS_SetDeviceConfig CChar [[''ConfigSize'']] SUPLA_DEVICE_CONFIG_MAXSIZE) \<in> set (getdata_cases OTHER)"
  "(SUPLA_SD_CALL_SET_DEVICE_CONFIG, Counted False TSDS_SetDeviceConfig CChar [[''ConfigSize'']] SUPLA_DEVICE_CONFIG_MAXSIZE) \<in> set (getdata_cases OTHER)"
  "(SUPLA_SC_CALL_LOCATION_UPDATE, Counted True TSC_SuplaLocation CChar [[''CaptionSize'']] SUPLA_LOCATION_CAPTION_MAXSIZE) \<in> set (getdata_cases OTHER)"
  "(SUPLA_SC_CALL_CHANNELGROUP_RELATION_PACK_UPDATE, Counted True TSC_SuplaChannelGroupRelationPack TSC_SuplaChannelGroupRelation [[''count'']] SUPLA_CHANNELGROUP_RELATION_PACK_MAXCOUNT) \<in> set (getdata_cases OTHER)"
  "(SUPLA_SC_CALL_CHANNEL_RELATION_PACK_UPDATE, Counted True TSC_SuplaChannelRelationPack TSC_SuplaChannelRelation [[''count'']] SUPLA_CHANNEL_RELATION_PACK_MAXCOUNT) \<in> set (getdata_cases OTHER)"
  "(SUPLA_SC_CALL_CHANNELVALUE_PACK_UPDATE, Counted True TSC_SuplaChannelValuePack TSC_SuplaChannelValue [[''count'']] SUPLA_CHANNELVALUE_PACK_MAXCOUNT) \<in> set (getdata_cases OTHER)"
  "(SUPLA_SC_CALL_CHANNELVALUE_PACK_UPDATE_B, Counted True TSC_SuplaChannelValuePack_B TSC_SuplaChannelValue_B [[''count'']] SUPLA_CHANNELVALUE_PACK_MAXCOUNT) \<in> set (getdata_cases OTHER)"
  "(SUPLA_SC_CALL_CHANNELEXTENDEDVALUE_PACK_UPDATE, Counted True (TSC_SuplaChannelExtendedValuePack OTHER) CChar [[''pack_size'']] (SUPLA_CHANNELEXTENDEDVALUE_PACK_MAXDATASIZE OTHER)) \<in> set (getdata_cases OTHER)"
  "(SUPLA_SC_CALL_CHANNEL_STATE_PACK_UPDATE, Counted True TSC_SuplaChannelStatePack TDSC_ChannelState [[''count'']] SUPLA_CHANNEL_STATE_PACK_MAXCOUNT) \<in> set (getdata_cases OTHER)"
  "(SUPLA_SC_CALL_EVENT, Counted True TSC_SuplaEvent CChar [[''SenderNameSize'']] SUPLA_SENDER_NAME_MAXSIZE) \<in> set (getdata_cases OTHER)"
  "(SUPLA_SC_CALL_OAUTH_TOKEN_REQUEST_RESULT, Counted True TSC_OAuthTokenRequestResult CChar [[''Token'', ''TokenSize'']] SUPLA_OAUTH_TOKEN_MAXSIZE) \<in> set (getdata_cases OTHER)"
  "(SUPLA_CS_CALL_DEVICE_CALCFG_REQUEST, Counted True TCS_DeviceCalCfgRequest CChar [[''DataSize'']] SUPLA_CALCFG_DATA_MAXSIZE) \<in> set (getdata_cases OTHER)"
  "(SUPLA_CS_CALL_DEVICE_CALCFG_REQUEST_B, Counted True TCS_DeviceCalCfgRequest_B CChar [[''DataSize'']] SUPLA_CALCFG_DATA_MAXSIZE) \<in> set (getdata_cases OTHER)"
  "(SUPLA_SC_CALL_DEVICE_CALCFG_RESULT, Counted True TSC_DeviceCalCfgResult CChar [[''DataSize'']] SUPLA_CALCFG_DATA_MAXSIZE) \<in> set (getdata_cases OTHER)"
  "(SUPLA_SC_CALL_CHANNEL_BASIC_CFG_RESULT, Counted True TSC_ChannelBasicCfg CChar [[''CaptionSize'']] SUPLA_CHANNEL_CAPTION_MAXSIZE) \<in> set (getdata_cases OTHER)"
  "(SUPLA_DCS_CALL_SET_CHANNEL_CAPTION, Counted True TDCS_SetCaption CChar [[''CaptionSize'']] SUPLA_CAPTION_MAXSIZE) \<in> set (getdata_cases OTHER)"
  "(SUPLA_CS_CALL_SET_CHANNEL_GROUP_CAPTION, Counted True TDCS_SetCaption CChar [[''CaptionSize'']] SUPLA_CAPTION_MAXSIZE) \<in> set (getdata_cases OTHER)"
  "(SUPLA_CS_CALL_SET_LOCATION_CAPTION, Counted True TDCS_SetCaption CChar [[''CaptionSize'']] SUPLA_CAPTION_MAXSIZE) \<in> set (getdata_cases OTHER)"
  "(SUPLA_CS_CALL_SET_SCENE_CAPTION, Counted True TDCS_SetCaption CChar [[''CaptionSize'']] SUPLA_CAPTION_MAXSIZE) \<in> set (getdata_cases OTHER)"
  "(SUPLA_SC_CALL_SET_CHANNEL_GROUP_CAPTION_RESULT, Counted True TSCD_SetCaptionResult CChar [[''CaptionSize'']] SUPLA_CAPTION_MAXSIZE) \<in> set (getdata_cases OTHER)"
  "(SUPLA_SC_CALL_SET_LOCATION_CAPTION_RESULT, Counted True TSCD_SetCaptionResult CChar [[''CaptionSize'']] SUPLA_CAPTION_MAXSIZE) \<in> set (getdata_cases OTHER)"
  "(SUPLA_SC_CALL_SET_SCENE_CAPTION_RESULT, Counted True TSCD_SetCaptionResult CChar [[''CaptionSize'']] SUPLA_CAPTION_MAXSIZE) \<in> set (getdata_cases OTHER)"
  "(SUPLA_CS_CALL_EXECUTE_ACTION, Counted True TCS_Action CChar [[''ParamSize'']] SUPLA_ACTION_PARAM_MAXSIZE) \<in> set (getdata_cases OTHER)"
  "(SUPLA_CS_CALL_EXECUTE_ACTION_WITH_AUTH, Counted True TCS_ActionWithAuth CChar [[''Action'', ''ParamSize'']] SUPLA_ACTION_PARAM_MAXSIZE) \<in> set (getdata_cases OTHER)"
  "(SUPLA_SC_CALL_GET_CHANNEL_VALUE_RESULT, Counted True (TSC_GetChannelValueResult OTHER) CChar [[''ExtendedValue'', ''size'']] (SUPLA_CHANNELEXTENDEDVALUE_SIZE OTHER)) \<in> set (getdata_cases OTHER)"
  "(SUPLA_CS_CALL_REGISTER_PN_CLIENT_TOKEN, Counted True TCS_RegisterPnClientToken CChar [[''Token'', ''TokenSize'']] SUPLA_PN_CLIENT_TOKEN_MAXSIZE) \<in> set (getdata_cases OTHER)"
  "(SUPLA_CS_CALL_SET_CHANNEL_CONFIG, Counted False TSCS_ChannelConfig CChar [[''ConfigSize'']] SUPLA_CHANNEL_CONFIG_MAXSIZE) \<in> set (getdata_cases OTHER)"
  "(SUPLA_SC_CALL_CHANNEL_CONFIG_UPDATE_OR_RESULT, Counted True TSC_ChannelConfigUpdateOrResult CChar [[''Config'', ''ConfigSize'']] SUPLA_CHANNEL_CONFIG_MAXSIZE) \<in> set (getdata_cases OTHER)"
  "(SUPLA_SC_CALL_DEVICE_CONFIG_UPDATE_OR_RESULT, Counted False TSC_DeviceConfigUpdateOrResult CChar [[''Config'', ''ConfigSize'']] SUPLA_DEVICE_CONFIG_MAXSIZE) \<in> set (getdata_cases OTHER)"
  by (simp_all add: getdata_tables)

lemma counted_types:
  "typeof TSDC_UserLocalTimeResult [''timezoneSize''] = U32"
  "typeof TSCD_SetCaptionResult [''CaptionSize''] = U32"
  "typeof TDS_SuplaRegisterDevice [''channel_count''] = UChar"
  "typeof TDS_SuplaRegisterDevice_B [''channel_count''] = UChar"
  "typeof TDS_SuplaRegisterDevice_C [''channel_count''] = UChar"
  "typeof TDS_SuplaRegisterDevice_D [''channel_count''] = UChar"
  "typeof TDS_SuplaRegisterDevice_E [''channel_count''] = UChar"
  "typeof TDS_SuplaRegisterDevice_F [''channel_count''] = UChar"
  "typeof TDS_SuplaRegisterDevice_G [''channel_count''] = UChar"
  "typeof TSD_SuplaRegisterDeviceResult_B [''channel_report_size''] = U16"
  "typeof (TDS_SuplaDeviceChannelExtendedValue t) [''value'', ''size''] = U32"
  "typeof TSD_DeviceCalCfgRequest [''DataSize''] = U32"
  "typeof TDS_DeviceCalCfgResult [''DataSize''] = U32"
  "typeof TSD_ChannelFunctions [''ChannelCount''] = UChar"
  "typeof TSD_ChannelConfig [''ConfigSize''] = U16"
  "typeof TDS_PushNotification [''TitleSize''] = U16"
  "typeof TDS_PushNotification [''BodySize''] = U16"
  "typeof TSDS_SetChannelConfig [''ConfigSize''] = U16"
  "typeof TSDS_SetDeviceConfig [''ConfigSize''] = U16"
  "typeof TSC_SuplaLocation [''CaptionSize''] = U32"
  "typeof TSC_SuplaChannelGroupRelationPack [''count''] = I32"
  "typeof TSC_SuplaChannelRelationPack [''count''] = I32"
  "typeof TSC_SuplaChannelValuePack [''count''] = I32"
  "typeof TSC_SuplaChannelValuePack_B [''count''] = I32"
  "typeof (TSC_SuplaChannelExtendedValuePack t) [''pack_size''] = U32"
  "typeof TSC_SuplaChannelStatePack [''count''] = I32"
  "typeof TSC_SuplaEvent [''SenderNameSize''] = U32"
  "typeof TSC_OAuthTokenRequestResult [''Token'', ''TokenSize''] = U32"
  "typeof TCS_DeviceCalCfgRequest [''DataSize''] = U32"
  "typeof TCS_DeviceCalCfgRequest_B [''DataSize''] = U32"
  "typeof TSC_DeviceCalCfgResult [''DataSize''] = U32"
  "typeof TSC_ChannelBasicCfg [''CaptionSize''] = U32"
  "typeof TDCS_SetCaption [''CaptionSize''] = U32"
  "typeof TCS_Action [''ParamSize''] = U16"
  "typeof TCS_ActionWithAuth [''Action'', ''ParamSize''] = U16"
  "typeof (TSC_GetChannelValueResult t) [''ExtendedValue'', ''size''] = U32"
  "typeof TCS_RegisterPnClientToken [''Token'', ''TokenSize''] = U16"
  "typeof TSCS_ChannelConfig [''ConfigSize''] = U16"
  "typeof TSC_ChannelConfigUpdateOrResult [''Config'', ''ConfigSize''] = U16"
  "typeof TSC_DeviceConfigUpdateOrResult [''Config'', ''ConfigSize''] = U16"
  by (simp_all add: typeof_def struct_defs)

lemmas conforms_rules = none_cases [THEN conforms_none] exact_cases [THEN conforms_exact]
  counted_cases [THEN conforms_limit] counted_cases [THEN conforms_checked] counted_cases [THEN conforms_signed]

lemma conforms_firmware_url:
  "conforms e SUPLA_SD_CALL_GET_FIRMWARE_UPDATE_URL_RESULT TSD_FirmwareUpdate_UrlResult ok
     (\<lambda>e s d. srpc_sd_async_get_firmware_update_url_result e s d)"
proof (rule conforms_prefix)
  show "(SUPLA_SD_CALL_GET_FIRMWARE_UPDATE_URL_RESULT, Firmware_Url) \<in> set (getdata_cases OTHER)"
    by (simp add: getdata_tables)
  fix s :: "'a Tsrpc option" and d :: bytes assume d: "length d = sizeof TSD_FirmwareUpdate_UrlResult"
  let ?k = "if field TSD_FirmwareUpdate_UrlResult [''exists''] d = 1 then sizeof TSD_FirmwareUpdate_UrlResult else sizeof CChar"
  show "srpc_sd_async_get_firmware_update_url_result e s d = (s, 0) \<and>
        \<not> must_send SUPLA_SD_CALL_GET_FIRMWARE_UPDATE_URL_RESULT d \<or>
      (\<exists>k \<le> sizeof TSD_FirmwareUpdate_UrlResult. srpc_sd_async_get_firmware_update_url_result e s d =
          srpc_async_call e s SUPLA_SD_CALL_GET_FIRMWARE_UPDATE_URL_RESULT (Some d) (of_nat k) \<and>
        well_formed Firmware_Url (take k d))"
    using d by (intro disjI2 exI [of _ ?k]) (simp add: srpc_sd_async_get_firmware_update_url_result_def layout)
qed (simp_all add: layout)

lemma conforms_push_notification:
  "conforms e SUPLA_DS_CALL_SEND_PUSH_NOTIFICATION TDS_PushNotification ok
     (\<lambda>e s d. srpc_ds_async_send_push_notification e s (Some d))"
proof (rule conforms_counted)
  show "(SUPLA_DS_CALL_SEND_PUSH_NOTIFICATION, Counted True TDS_PushNotification CChar [[''TitleSize''], [''BodySize'']]
      (SUPLA_PN_TITLE_MAXSIZE + SUPLA_PN_BODY_MAXSIZE)) \<in> set (getdata_cases OTHER)"
    by (simp add: getdata_tables)
  fix s :: "'a Tsrpc option" and d
  let ?n = "field TDS_PushNotification [''TitleSize''] d + field TDS_PushNotification [''BodySize''] d"
  have "counted TDS_PushNotification [[''TitleSize''], [''BodySize'']] d = int ?n"
    by (simp add: counted_def cfield_def counted_types)
  then show "srpc_ds_async_send_push_notification e s (Some d) = (s, 0) \<and>
        \<not> must_send SUPLA_DS_CALL_SEND_PUSH_NOTIFICATION d \<or>
      (\<exists>n\<le>SUPLA_PN_TITLE_MAXSIZE + SUPLA_PN_BODY_MAXSIZE.
        counted TDS_PushNotification [[''TitleSize''], [''BodySize'']] d = int n \<and>
        srpc_ds_async_send_push_notification e s (Some d) =
        srpc_async_call e s SUPLA_DS_CALL_SEND_PUSH_NOTIFICATION (Some d)
          (of_nat (sizeof TDS_PushNotification - sizeof CChar * (SUPLA_PN_TITLE_MAXSIZE + SUPLA_PN_BODY_MAXSIZE) + sizeof CChar * n)))"
    by (auto simp: srpc_ds_async_send_push_notification_def layout const_defs ac_simps must_send_def intro!: exI [of _ ?n])
qed

lemma conforms_channel_functions:
  "conforms e SUPLA_SD_CALL_GET_CHANNEL_FUNCTIONS_RESULT TSD_ChannelFunctions ok
     (\<lambda>e s d. srpc_sd_async_get_channel_functions_result e s (Some d))"
proof (rule conforms_counted)
  show mem: "(SUPLA_SD_CALL_GET_CHANNEL_FUNCTIONS_RESULT,
      Counted True TSD_ChannelFunctions I32 [[''ChannelCount'']] SUPLA_CHANNELMAXCOUNT) \<in> set (getdata_cases OTHER)"
    by (simp add: getdata_tables)
  fix s :: "'a Tsrpc option" and d
  have "counted TSD_ChannelFunctions [[''ChannelCount'']] d = int (field TSD_ChannelFunctions [''ChannelCount''] d)"
    by (simp add: counted_def cfield_def counted_types)
  then show "srpc_sd_async_get_channel_functions_result e s (Some d) = (s, 0) \<and>
        \<not> must_send SUPLA_SD_CALL_GET_CHANNEL_FUNCTIONS_RESULT d \<or>
      (\<exists>n\<le>SUPLA_CHANNELMAXCOUNT. counted TSD_ChannelFunctions [[''ChannelCount'']] d = int n \<and>
        srpc_sd_async_get_channel_functions_result e s (Some d) =
        srpc_async_call e s SUPLA_SD_CALL_GET_CHANNEL_FUNCTIONS_RESULT (Some d)
          (of_nat (sizeof TSD_ChannelFunctions - sizeof I32 * SUPLA_CHANNELMAXCOUNT + sizeof I32 * n)))"
    using must_send_limits(2) [OF mem, of d]
    by (auto simp: srpc_sd_async_get_channel_functions_result_def size_gt_def layout const_defs Let_def c_int_small)
qed

lemma conforms_extendedvalue_pack:
  assumes "tgt e = OTHER"
  shows "conforms e SUPLA_SC_CALL_CHANNELEXTENDEDVALUE_PACK_UPDATE (TSC_SuplaChannelExtendedValuePack OTHER) ok
     (\<lambda>e s d. srpc_sc_async_channelextendedvalue_pack_update e s (Some d))"
proof (rule conforms_counted)
  show mem: "(SUPLA_SC_CALL_CHANNELEXTENDEDVALUE_PACK_UPDATE, Counted True (TSC_SuplaChannelExtendedValuePack OTHER) CChar
      [[''pack_size'']] (SUPLA_CHANNELEXTENDEDVALUE_PACK_MAXDATASIZE OTHER)) \<in> set (getdata_cases OTHER)"
    by (simp add: getdata_tables)
  fix s :: "'a Tsrpc option" and d
  let ?T = "TSC_SuplaChannelExtendedValuePack OTHER"
  have "counted ?T [[''pack_size'']] d = int (field ?T [''pack_size''] d)"
    by (simp add: counted_def cfield_def counted_types)
  then show "srpc_sc_async_channelextendedvalue_pack_update e s (Some d) = (s, 0) \<and>
        \<not> must_send SUPLA_SC_CALL_CHANNELEXTENDEDVALUE_PACK_UPDATE d \<or>
      (\<exists>n\<le>SUPLA_CHANNELEXTENDEDVALUE_PACK_MAXDATASIZE OTHER. counted ?T [[''pack_size'']] d = int n \<and>
        srpc_sc_async_channelextendedvalue_pack_update e s (Some d) =
        srpc_async_call e s SUPLA_SC_CALL_CHANNELEXTENDEDVALUE_PACK_UPDATE (Some d)
          (of_nat (sizeof ?T - sizeof CChar * SUPLA_CHANNELEXTENDEDVALUE_PACK_MAXDATASIZE OTHER + sizeof CChar * n)))"
    using must_send_limits(2) [OF mem, of d] must_send_def [of SUPLA_SC_CALL_CHANNELEXTENDEDVALUE_PACK_UPDATE d]
    by (auto simp: srpc_sc_async_channelextendedvalue_pack_update_def assms Let_def split: if_splits)
qed

lemma conforms_limit_rev:
  assumes m: "(i, Counted z T I [v] mx) \<in> set (getdata_cases OTHER)" "sizeof I = 1" "typeof T v \<in> {UChar, U16, U32}"
    and f: "\<And>s d. f e s d = (if mx < field T v d then (s, 0)
      else srpc_async_call e s i (Some d) (of_nat (sizeof T - (mx - field T v d))))"
  shows "conforms e i T ok f"
proof (rule conforms_limit [OF m])
  have "mx < sizeof T" using getdata_case_ok [OF m(1)] m(2) by simp
  then show "f e s d = (if mx < field T v d then (s, 0)
      else srpc_async_call e s i (Some d) (of_nat (sizeof T - mx + field T v d)))" for s d
    unfolding f by (cases "mx < field T v d") (simp_all del: of_nat_add)
qed

text \<open>The arrays at the end of the packs with a signed count.\<close>

lemma items_types:
  "typeof TSC_SuplaChannelGroupRelationPack [''items''] =
     Arr TSC_SuplaChannelGroupRelation SUPLA_CHANNELGROUP_RELATION_PACK_MAXCOUNT"
  "typeof TSC_SuplaChannelRelationPack [''items''] = Arr TSC_SuplaChannelRelation SUPLA_CHANNEL_RELATION_PACK_MAXCOUNT"
  "typeof TSC_SuplaChannelValuePack [''items''] = Arr TSC_SuplaChannelValue SUPLA_CHANNELVALUE_PACK_MAXCOUNT"
  "typeof TSC_SuplaChannelValuePack_B [''items''] = Arr TSC_SuplaChannelValue_B SUPLA_CHANNELVALUE_PACK_MAXCOUNT"
  "typeof TSC_SuplaChannelStatePack [''items''] = Arr TDSC_ChannelState SUPLA_CHANNEL_STATE_PACK_MAXCOUNT"
  by (simp_all add: typeof_def TSC_SuplaChannelGroupRelationPack_def TSC_SuplaChannelRelationPack_def
      TSC_SuplaChannelValuePack_def TSC_SuplaChannelValuePack_B_def TSC_SuplaChannelStatePack_def)

lemma list_all_ConsI: "P x \<Longrightarrow> list_all P xs \<Longrightarrow> list_all P (x # xs)"
  by simp

lemmas sender_rules = conforms_firmware_url conforms_push_notification conforms_channel_functions
  conforms_extendedvalue_pack conforms_rules counted_cases [THEN conforms_limit_rev]

lemma device_senders_all: "list_all (\<lambda>(i, T, ok, f). conforms e i T ok f) (device_senders (tgt e))"
  unfolding device_senders_def
  by ((rule list_all_ConsI, (simp only: prod.case),
        (rule sender_rules; (simp add: counted_types layout device_senders_defs srpc_dcs_async_set_caption_def
          srpc_sc_async_set_caption_result_def; fail)))+) simp

lemma client_senders_all:
  assumes "tgt e = OTHER"
  shows "list_all (\<lambda>(i, T, ok, f). conforms e i T ok f) (client_senders (tgt e))"
  unfolding client_senders_def assms
  by ((rule list_all_ConsI, (simp only: prod.case),
        (rule sender_rules; (simp add: assms Let_def items_types counted_types layout client_senders_defs
          srpc_dcs_async_set_caption_def srpc_sc_async_set_caption_result_def; fail)))+) simp

section \<open>Registration in chunks\<close>

text \<open>The channel descriptions that the loop writes, and what a registration in chunks writes in all.\<close>

definition chunk_data :: "nat \<Rightarrow> (nat \<Rightarrow> bytes option) \<Rightarrow> nat \<Rightarrow> bytes list" where
  "chunk_data k g n = map (take k) (List.map_filter g [0..<n])"

definition chunk_head :: "'u Tsrpc \<Rightarrow> u32 \<Rightarrow> nat \<Rightarrow> bytes \<Rightarrow> bytes" where
  "chunk_head s c n rd = (let m = call_msg s c [] in
     sproto_tag @ [m_version m] @ u32_bytes (m_rr_id m) @ u32_bytes c @ u32_bytes (of_nat n) @ rd)"

lemma chunk_loop_writes:
  "i \<le> n \<Longrightarrow> chunk_loop e k g i n u = fold (data_write (params e)) (map (take k) (List.map_filter g [i..<n])) u"
proof (induction "n - i" arbitrary: i u)
  case 0
  then show ?case by (simp add: chunk_loop.simps List.map_filter_def)
next
  case (Suc j)
  then have "i < n" "j = n - Suc i" by auto
  then show ?case using Suc.hyps(1) [of "Suc i"]
    by (subst chunk_loop.simps) (simp add: upt_conv_Cons List.map_filter_simps split: option.split)
qed

lemma in_chunks_writes:
  assumes inv: "srpc_inv (tgt e) s" and "before_async_call (params e) = None"
    and v: "srpc_call_min_version_required c \<le> sp_version (proto s)"
    and rd: "length rd = sizeof TDS_SuplaRegisterDeviceHeader"
  defines "n \<equiv> field TDS_SuplaRegisterDeviceHeader [''channel_count''] rd"
  shows "\<exists>s'. registerdevice_in_chunks e (Some s) rd T c g = (Some s', sint (m_rr_id (call_msg s c []))) \<and>
    user s' = fold (data_write (params e))
      (chunk_head s c (sizeof TDS_SuplaRegisterDeviceHeader + sizeof T * n) rd #
       chunk_data (sizeof T) g n @ [sproto_tag]) (user s) \<and>
    srpc_inv (tgt e) s' \<and> lck s' = lck s \<and> proto s' = fst (sproto_sdp_init (tgt e) (proto s))"
proof -
  let ?k = "sizeof TDS_SuplaRegisterDeviceHeader"
  have k: "?k \<le> SUPLA_MAX_DATA_SIZE (tgt e)" "unat (of_nat ?k :: u32) = ?k"
    by (cases "tgt e"; simp add: layout const_defs) (simp add: layout)
  then have ok: "payload_ok (tgt e) (Some rd) (of_nat ?k)" using rd by (simp add: payload_ok_def)
  have si: "spd_inv (tgt e) (proto s)" using inv by (simp add: srpc_inv_def)
  obtain spd q where i: "sproto_sdp_init (tgt e) (proto s) = (spd, q)" by fastforce
  obtain p r where d: "sproto_set_data (tgt e) q (Some rd) (of_nat ?k) c = (p, r)" by fastforce
  note P = sproto_call_packet(1-3) [OF si ok, of c, unfolded i fst_conv snd_conv d]
    sproto_call_packet(4) [OF si ok, unfolded i fst_conv]
  have r: "r = SUPLA_RESULT_TRUE" and wf: "packet_wf (tgt e) p" "sdp_tag p = sproto_tag" and m: "msg_of p = call_msg s c rd"
    using P(1-3) k(2) rd by (simp_all add: packet_fits_def payload_def)
  have ds: "unat (sdp_data_size p) = ?k"
    using d r k(2) by (auto simp: sproto_set_data_def split: if_splits)
  then have pre: "take ?k (sdp_data p) = rd" using m by (simp add: msg_of_def call_msg_def)
  have w: "take (18 + ?k) (sdp_bytes (p\<lparr>sdp_data_size := of_nat N\<rparr>)) = chunk_head s c N rd" for N
  proof -
    have "sdp_header (p\<lparr>sdp_data_size := of_nat N\<rparr>) @ rd = chunk_head s c N rd"
      using wf m by (simp add: sdp_header_def chunk_head_def Let_def msg_of_def call_msg_def)
    moreover have "length (sdp_header (p\<lparr>sdp_data_size := of_nat N\<rparr>)) = 18"
      using wf by (simp add: length_sdp_header packet_wf_def)
    ultimately show ?thesis using pre by (simp add: sdp_bytes_def)
  qed
  have sz: "sizeof (TSuplaDataPacket (tgt e)) - SUPLA_MAX_DATA_SIZE (tgt e) = 18"
    by (simp add: layout)
  have l: "proto (srpc_lock e s) = proto s" "user (srpc_lock e s) = user s" by (simp_all add: srpc_lock_def)
  show ?thesis
    using assms(2) v r wf P(4) inv m
    by (simp add: registerdevice_in_chunks_def srpc_call_allowed_eq Let_def i d l w sz chunk_loop_writes n_def chunk_data_def
       srpc_unlock_def srpc_inv_def packet_wf_def msg_of_def call_msg_def srpc_lock_def
       del: of_nat_add of_nat_mult)
qed

text \<open>Without null channels the writes are one frame, and the server accepts it.\<close>

lemma map_filter_total: "(\<And>x. x \<in> set xs \<Longrightarrow> g x \<noteq> None) \<Longrightarrow> List.map_filter g xs = map (the \<circ> g) xs"
  by (induction xs) (fastforce simp: List.map_filter_simps)+

lemma chunk_data_total:
  assumes "\<And>i. i < n \<Longrightarrow> \<exists>d. g i = Some d \<and> length d = k"
  shows "chunk_data k g n = map (the \<circ> g) [0..<n]" "length (concat (map (the \<circ> g) [0..<n])) = k * n"
proof -
  have l: "length ((the \<circ> g) i) = k" if "i \<in> set [0..<n]" for i using assms [of i] that by auto
  show "chunk_data k g n = map (the \<circ> g) [0..<n]"
  proof -
    have "List.map_filter g [0..<n] = map (the \<circ> g) [0..<n]"
      by (rule map_filter_total) (use assms in fastforce)
    then show ?thesis using l by (simp add: chunk_data_def)
  qed
  have "map (length \<circ> (the \<circ> g)) [0..<n] = replicate n k"
    using l by (intro nth_equalityI) simp_all
  then show "length (concat (map (the \<circ> g) [0..<n])) = k * n"
    by (simp add: length_concat sum_list_replicate)
qed

lemma chunk_frame:
  assumes "length rd + length (concat ds) = N"
  shows "concat (chunk_head s c N rd # ds @ [sproto_tag]) = encode (call_msg s c (rd @ concat ds))"
  using assms by (auto simp: chunk_head_def encode_def msg_header_def Let_def call_msg_def)

text \<open>The two registration messages and the types of their channels.\<close>

definition chunked :: "(u32 \<times> ctype) set" where
  "chunked = {(SUPLA_DS_CALL_REGISTER_DEVICE_F, TDS_SuplaDeviceChannel_D),
              (SUPLA_DS_CALL_REGISTER_DEVICE_G, TDS_SuplaDeviceChannel_E)}"

lemma chunk_offsets:
  "offsetof TDS_SuplaRegisterDeviceHeader [''channel_count''] = 583"
  "offsetof TDS_SuplaRegisterDevice_F [''channel_count''] = 583"
  "offsetof TDS_SuplaRegisterDevice_G [''channel_count''] = 583"
  "typeof TDS_SuplaRegisterDeviceHeader [''channel_count''] = UChar"
  by (simp_all add: offsetof_def typeof_def TDS_SuplaRegisterDeviceHeader_def TDS_SuplaRegisterDevice_F_def
      TDS_SuplaRegisterDevice_G_def const_defs)

lemma chunks_accepted:
  assumes rd: "length rd = sizeof TDS_SuplaRegisterDeviceHeader"
    and ds: "length ds = sizeof T * field TDS_SuplaRegisterDeviceHeader [''channel_count''] rd"
    and n: "field TDS_SuplaRegisterDeviceHeader [''channel_count''] rd \<le> SUPLA_CHANNELMAXCOUNT"
    and c: "(c, T) \<in> chunked"
  shows "accepted_by OTHER c (rd @ ds)"
proof -
  let ?H = TDS_SuplaRegisterDeviceHeader
  have wf: "well_formed (Counted True R T [[''channel_count'']] SUPLA_CHANNELMAXCOUNT) (rd @ ds)"
    if R: "offsetof R [''channel_count''] = offsetof ?H [''channel_count'']" "typeof R [''channel_count''] = UChar"
      "sizeof R - sizeof T * SUPLA_CHANNELMAXCOUNT = sizeof ?H" for R
  proof -
    have "field R [''channel_count''] (rd @ ds) = field ?H [''channel_count''] rd"
      using R(1,2) rd by (simp add: field_def chunk_offsets layout seg_append_left)
    then show ?thesis using n rd ds R(2,3) by (simp add: counted_unsigned)
  qed
  have "sizeof TDS_SuplaRegisterDevice_F - sizeof TDS_SuplaDeviceChannel_D * SUPLA_CHANNELMAXCOUNT = sizeof ?H"
    "sizeof TDS_SuplaRegisterDevice_G - sizeof TDS_SuplaDeviceChannel_E * SUPLA_CHANNELMAXCOUNT = sizeof ?H"
    by (simp_all add: layout const_defs)
  then show ?thesis
    using c chunk_offsets wf [of TDS_SuplaRegisterDevice_F] wf [of TDS_SuplaRegisterDevice_G] counted_types(8,9)
      accepted_byI [OF counted_cases(8), of "rd @ ds"] accepted_byI [OF counted_cases(9), of "rd @ ds"]
    unfolding chunked_def by (auto simp del: well_formed.simps)
qed

lemma in_chunks_eq:
  "(c, T) \<in> chunked \<Longrightarrow>
    (if c = SUPLA_DS_CALL_REGISTER_DEVICE_F then srpc_ds_async_registerdevice_in_chunks e srpc rd g
     else srpc_ds_async_registerdevice_in_chunks_g e srpc rd g) = registerdevice_in_chunks e srpc rd T c g"
  by (auto simp: chunked_def srpc_ds_async_registerdevice_in_chunks_def
      srpc_ds_async_registerdevice_in_chunks_g_def SUPLA_DS_CALL_REGISTER_DEVICE_F_def SUPLA_DS_CALL_REGISTER_DEVICE_G_def)

text \<open>Registering a device in chunks.  For both functions (calls F and G): when the callback describes
  every channel and the protocol version permits the call, the pieces that are written one after another
  make up exactly one frame, the encoding of one registration message whose payload is the registration
  header followed by the channel descriptions in order; the server accepts that payload, the returned value is
  the request identifier of the frame, and the handle invariant and the lock are kept.\<close>

theorem registerdevice_in_chunks_frame:
  fixes rd :: bytes
  assumes "srpc_inv (tgt e) s" "before_async_call (params e) = None"
    and "(c, T) \<in> chunked" "srpc_call_min_version_required c \<le> sp_version (proto s)"
    and "length rd = sizeof TDS_SuplaRegisterDeviceHeader"
    and "\<forall>i < field TDS_SuplaRegisterDeviceHeader [''channel_count''] rd. \<exists>d. g i = Some d \<and> length d = sizeof T"
    and "field TDS_SuplaRegisterDeviceHeader [''channel_count''] rd \<le> SUPLA_CHANNELMAXCOUNT"
  defines "m \<equiv> call_msg s c (rd @ concat (map (the \<circ> g)
      [0..<field TDS_SuplaRegisterDeviceHeader [''channel_count''] rd]))"
  shows "\<exists>s' ws. (if c = SUPLA_DS_CALL_REGISTER_DEVICE_F then srpc_ds_async_registerdevice_in_chunks e (Some s) rd g
        else srpc_ds_async_registerdevice_in_chunks_g e (Some s) rd g) = (Some s', sint (m_rr_id m)) \<and>
    user s' = fold (data_write (params e)) ws (user s) \<and> concat ws = encode m \<and>
    accepted_by OTHER c (m_payload m) \<and> srpc_inv (tgt e) s' \<and> lck s' = lck s"
proof -
  let ?n = "field TDS_SuplaRegisterDeviceHeader [''channel_count''] rd"
  have D: "chunk_data (sizeof T) g ?n = map (the \<circ> g) [0..<?n]"
    "length (concat (map (the \<circ> g) [0..<?n])) = sizeof T * ?n"
    using assms(6) by (auto intro!: chunk_data_total)
  have "accepted_by OTHER c (m_payload m)"
    using chunks_accepted [OF assms(5) D(2) assms(7,3)] by (simp add: m_def call_msg_def)
  moreover have "m_rr_id m = m_rr_id (call_msg s c [])" by (simp add: m_def call_msg_def)
  moreover have "concat (chunk_head s c (sizeof TDS_SuplaRegisterDeviceHeader + sizeof T * ?n) rd #
      map (the \<circ> g) [0..<?n] @ [sproto_tag]) = encode m"
    unfolding m_def by (rule chunk_frame) (simp only: assms(5) D(2))
  ultimately show ?thesis
    using in_chunks_writes [OF assms(1,2,4,5), of T g]
    unfolding D in_chunks_eq [OF assms(3)] by fastforce
qed

lemma writer_writes: "fold (data_write writer) ws u = u @ concat ws" "before_async_call writer = None"
  "data_write writer d u = u @ d"
  by (induction ws arbitrary: u) (simp_all add: writer_def)

theorem registerdevice_in_chunks_frame_witness:
  "\<exists>s' m. srpc_ds_async_registerdevice_in_chunks (writer_env DEVICE 32 heap_any) (Some (fresh DEVICE []))
      (replicate 583 0 @ [1]) (\<lambda>_. Some (replicate (sizeof TDS_SuplaDeviceChannel_D) 7)) = (Some s', sint (m_rr_id m)) \<and>
    user s' = encode m"
proof -
  let ?rd = "replicate 583 0 @ [1] :: bytes"
  let ?g = "\<lambda>_ :: nat. Some (replicate (sizeof TDS_SuplaDeviceChannel_D) (7 :: u8))"
  have n: "field TDS_SuplaRegisterDeviceHeader [''channel_count''] ?rd = 1"
    by (simp add: field_def chunk_offsets seg_def)
  show ?thesis
    using registerdevice_in_chunks_frame [of "writer_env DEVICE 32 heap_any" "fresh DEVICE []"
      SUPLA_DS_CALL_REGISTER_DEVICE_F TDS_SuplaDeviceChannel_D ?rd ?g]
    by (auto simp: n writer_writes fresh_inv chunked_def srpc_call_min_version_required_def layout sproto_new_def const_defs)
qed

text \<open>A null channel is skipped but still counted in the length of the frame.\<close>

lemma chunk_data_missing:
  assumes "\<And>i d. i < n \<Longrightarrow> g i = Some d \<Longrightarrow> length d = k" "i < n" "g i = None" "0 < k"
  shows "length (concat (chunk_data k g n)) < k * n"
proof -
  define f where "f = (\<lambda>j. case g j of None \<Rightarrow> [] | Some d \<Rightarrow> take k d)"
  have "concat (map (take k) (List.map_filter g xs)) = concat (map f xs)" for xs
    by (induction xs) (auto simp: f_def List.map_filter_simps split: option.split)
  then have "length (concat (chunk_data k g n)) = (\<Sum>j\<leftarrow>[0..<n]. length (f j))"
    by (simp add: chunk_data_def length_concat comp_def)
  also have "\<dots> = (\<Sum>j<n. length (f j))" by (simp add: interv_sum_list_conv_sum_set_nat atLeast0LessThan)
  also have "\<dots> < (\<Sum>j<n. k)"
    by (rule sum_strict_mono_ex1) (use assms in \<open>auto simp: f_def split: option.split\<close>)
  finally show ?thesis by (simp add: mult.commute)
qed

lemma chunk_head_header:
  "chunk_head s c N rd = msg_header (call_msg s c (replicate N 0)) @ rd"
  by (simp add: chunk_head_def msg_header_def call_msg_def Let_def)

lemma parse_short:
  assumes v: "1 \<le> unat (sp_version (proto s))" "unat (sp_version (proto s)) \<le> SUPLA_PROTO_VERSION"
    and N: "N \<le> SUPLA_MAX_DATA_SIZE OTHER" and l: "length xs < N + 5" "5 \<le> length xs"
  shows "parse OTHER (msg_header (call_msg s c (replicate N 0)) @ xs) = Need_More"
proof -
  have "N < 2 ^ 32" using N by (simp add: const_defs)
  note n = le_nat_u32_bytes [OF this]
  show ?thesis
    using assms by (simp add: parse_def Let_def msg_header_segs n call_msg_def SUPLA_PROTO_VERSION_MIN_def)
qed

text \<open>A channel that the callback does not describe breaks the connection: the function skips it but has
  already announced the full length, so for the server the frame is not complete although it has been
  sent with its closing tag, and the next message is read as the rest of it.  The function still
  reports success.\<close>

theorem registerdevice_in_chunks_null_channel:
  fixes rd :: bytes
  assumes "srpc_inv (tgt e) s" "before_async_call (params e) = None"
    and "(c, T) \<in> chunked" "srpc_call_min_version_required c \<le> sp_version (proto s)"
    and "length rd = sizeof TDS_SuplaRegisterDeviceHeader"
    and "\<forall>i < field TDS_SuplaRegisterDeviceHeader [''channel_count''] rd. \<forall>d. g i = Some d \<longrightarrow> length d = sizeof T"
    and "i < field TDS_SuplaRegisterDeviceHeader [''channel_count''] rd" "g i = None"
    and "field TDS_SuplaRegisterDeviceHeader [''channel_count''] rd \<le> SUPLA_CHANNELMAXCOUNT"
  shows "\<exists>s' ws r. (if c = SUPLA_DS_CALL_REGISTER_DEVICE_F then srpc_ds_async_registerdevice_in_chunks e (Some s) rd g
        else srpc_ds_async_registerdevice_in_chunks_g e (Some s) rd g) = (Some s', r) \<and> r \<noteq> 0 \<and>
    user s' = fold (data_write (params e)) (ws @ [sproto_tag]) (user s) \<and>
    parse OTHER (concat (ws @ [sproto_tag])) = Need_More"
proof -
  let ?n = "field TDS_SuplaRegisterDeviceHeader [''channel_count''] rd"
  let ?N = "sizeof TDS_SuplaRegisterDeviceHeader + sizeof T * ?n"
  have T: "0 < sizeof T" "sizeof T \<le> 60" using assms(3) by (auto simp: chunked_def layout)
  have "sizeof T * ?n \<le> 60 * 128" using T(2) assms(9) by (intro mult_le_mono) (simp_all add: const_defs)
  then have N: "?N \<le> SUPLA_MAX_DATA_SIZE OTHER" by (simp add: layout const_defs)
  have "length (concat (chunk_data (sizeof T) g ?n)) < sizeof T * ?n"
    using assms(6-8) T(1) by (intro chunk_data_missing) auto
  then have "parse OTHER (concat ((chunk_head s c ?N rd # chunk_data (sizeof T) g ?n) @ [sproto_tag])) = Need_More"
    using assms(1,5) N parse_short [of s ?N "rd @ concat (chunk_data (sizeof T) g ?n) @ sproto_tag" c]
    by (simp add: chunk_head_header srpc_inv_def spd_inv_def)
  moreover have "sint (m_rr_id (call_msg s c [])) \<noteq> 0"
    by (auto simp: call_msg_def signed_eq_0_iff)
  ultimately show ?thesis
    using in_chunks_writes [OF assms(1,2,4,5), of T g]
    unfolding in_chunks_eq [OF assms(3)] append_Cons [symmetric] by blast
qed

theorem registerdevice_in_chunks_null_channel_witness:
  "\<exists>s' r. srpc_ds_async_registerdevice_in_chunks_g (writer_env DEVICE 32 heap_any) (Some (fresh DEVICE []))
      (replicate 583 0 @ [1]) (\<lambda>_. None) = (Some s', r) \<and> r \<noteq> 0 \<and> parse OTHER (user s') = Need_More"
proof -
  have n: "field TDS_SuplaRegisterDeviceHeader [''channel_count''] (replicate 583 0 @ [1]) = 1"
    by (simp add: field_def chunk_offsets seg_def)
  show ?thesis
    using registerdevice_in_chunks_null_channel [of "writer_env DEVICE 32 heap_any" "fresh DEVICE []"
      SUPLA_DS_CALL_REGISTER_DEVICE_G TDS_SuplaDeviceChannel_E "replicate 583 0 @ [1]" "\<lambda>_. None" 0]
    by (auto simp: n writer_writes fresh_inv chunked_def srpc_call_min_version_required_def layout sproto_new_def const_defs)
qed

section \<open>The senders and the receiver agree\<close>

text \<open>C19. Every function of the library that sends an object agrees with the decoder of the server: on every build,
  each of the 43 senders of the device and common parts and, on the server build, each of the 58 senders of
  the client part, given an object of its type, makes one call with its identifier whose payload is the
  beginning of the object, stays inside the object, and has exactly the size that the branch of
  \<open>srpc_getdata\<close> for that identifier asks for.  It refuses an object, sending nothing and returning 0,
  only if the number of items in it is out of the range of the call (\<open>must_send\<close>).  The tables state one
  condition on the object for the senders of a caption, of a sender name or of an extended value, whose
  32-bit length is added to a size before it is checked: the length is assumed to be below \<open>2^30\<close>; the
  lemma \<open>set_channel_caption_length_wrap\<close> shows what happens near \<open>2^32\<close>.\<close>

theorem senders_conform:
  "list_all (\<lambda>(i, T, ok, f). conforms e i T ok f) (device_senders (tgt e)) \<and>
   (tgt e = OTHER \<longrightarrow> list_all (\<lambda>(i, T, ok, f). conforms e i T ok f) (client_senders (tgt e)))"
  using device_senders_all client_senders_all by blast

text \<open>A caption of three characters is sent with exactly the eleven bytes it needs.\<close>

theorem senders_conform_witness:
  "\<exists>data n. srpc_dcs_async_set_channel_caption (writer_env OTHER 64 heap_any) (Some (fresh OTHER []))
      ([0, 0, 0, 0, 3, 0, 0, 0, 65, 66, 0] @ replicate (SUPLA_CAPTION_MAXSIZE - 3) 0) =
    srpc_async_call (writer_env OTHER 64 heap_any) (Some (fresh OTHER [])) SUPLA_DCS_CALL_SET_CHANNEL_CAPTION data n \<and>
    payload data n = [0, 0, 0, 0, 3, 0, 0, 0, 65, 66, 0]"
proof -
  let ?e = "writer_env OTHER 64 heap_any"
  let ?T = TDCS_SetCaption
  let ?i = SUPLA_DCS_CALL_SET_CHANNEL_CAPTION
  define d :: bytes where "d = [0, 0, 0, 0, 3, 0, 0, 0, 65, 66, 0] @ replicate (SUPLA_CAPTION_MAXSIZE - 3) 0"
  have o: "offsetof ?T [''CaptionSize''] = 4" "typeof ?T [''CaptionSize''] = U32" "sizeof ?T = 8 + SUPLA_CAPTION_MAXSIZE"
    by (simp_all add: offsetof_def typeof_def TDCS_SetCaption_def)
  have d: "length d = sizeof ?T" "take 11 d = [0, 0, 0, 0, 3, 0, 0, 0, 65, 66, 0]" "field ?T [''CaptionSize''] d = 3"
    by (simp_all add: d_def o(3) const_defs) (simp add: field_def o seg_def)
  have c: "map_of (getdata_cases OTHER) ?i = Some (Counted True ?T CChar [[''CaptionSize'']] SUPLA_CAPTION_MAXSIZE)"
    by (intro map_of_is_SomeI [OF distinct_cases]) (simp add: getdata_tables)
  have n: "counted ?T [[''CaptionSize'']] d = 3" by (simp add: counted_def cfield_def o d(3))
  have "must_send ?i d" unfolding must_send_def c using n by (simp add: o const_defs)
  moreover have "conforms ?e ?i ?T (\<lambda>d. field ?T [''CaptionSize''] d < 2 ^ 30) (\<lambda>e s d. srpc_dcs_async_set_channel_caption e s d)"
    using senders_conform [of ?e] unfolding device_senders_def list.pred_inject prod.case by blast
  ultimately obtain data k where r:
    "srpc_dcs_async_set_channel_caption ?e (Some (fresh OTHER [])) d = srpc_async_call ?e (Some (fresh OTHER [])) ?i data k"
    "payload data k = take (unat k) d" "accepted_by OTHER ?i (payload data k)"
    unfolding conforms_def using d by force
  then obtain m where m: "counted ?T [[''CaptionSize'']] (take (unat k) d) = int m" "length (take (unat k) d) = 8 + m"
    by (auto simp: accepted_by_def c o)
  then have "counted ?T [[''CaptionSize'']] (take (unat k) d) = 3"
    using counted_local [of ?T 8 "[[''CaptionSize'']]" "unat k" d] n by (simp add: o)
  then have "length (take (unat k) d) = 11" using m by simp
  then have "take (unat k) d = take 11 d" using d(1) by (auto simp: o min_def split: if_splits)
  then show ?thesis using r(1,2) d(2) unfolding d_def by metis
qed

text \<open>A caption length near \<open>2^32\<close> passes the check of the sender: the sum with the size of the header
  becomes small when it is converted to a signed integer.  The payload is then shorter than the header and
  the server refuses it.\<close>

lemma set_channel_caption_length_wrap:
  assumes d: "length d = sizeof TDCS_SetCaption" and v: "2 ^ 32 - 8 \<le> field TDCS_SetCaption [''CaptionSize''] d"
  defines "k \<equiv> field TDCS_SetCaption [''CaptionSize''] d - (2 ^ 32 - 8)"
  shows "srpc_dcs_async_set_channel_caption e s d =
      srpc_async_call e s SUPLA_DCS_CALL_SET_CHANNEL_CAPTION (Some d) (of_nat k)"
    "\<not> accepted_by OTHER SUPLA_DCS_CALL_SET_CHANNEL_CAPTION (payload (Some d) (of_nat k))"
proof -
  let ?v = "field TDCS_SetCaption [''CaptionSize''] d"
  have b: "?v < 2 ^ 32" using field_bound [of TDCS_SetCaption "[''CaptionSize'']" d] by (simp add: counted_types)
  then have k: "k < 8" "8 + ?v = k + 2 ^ 32" using v by (simp_all add: k_def)
  have "(of_nat (8 + ?v) :: u32) = of_nat k"
    unfolding k(2) word_of_nat_eq_iff by (simp add: take_bit_eq_mod)
  then have "c_int (8 + ?v) = int k" using c_int_small [of k] k(1) unfolding c_int_def by simp
  moreover have h: "sizeof TDCS_SetCaption - SUPLA_CAPTION_MAXSIZE = 8" "8 \<le> sizeof TDCS_SetCaption"
    by (simp_all add: layout const_defs)
  ultimately show "srpc_dcs_async_set_channel_caption e s d =
      srpc_async_call e s SUPLA_DCS_CALL_SET_CHANNEL_CAPTION (Some d) (of_nat k)"
    using k(1) by (simp add: srpc_dcs_async_set_channel_caption_def srpc_dcs_async_set_caption_def Let_def size_gt_def)
  have "map_of (getdata_cases OTHER) SUPLA_DCS_CALL_SET_CHANNEL_CAPTION =
      Some (Counted True TDCS_SetCaption CChar [[''CaptionSize'']] SUPLA_CAPTION_MAXSIZE)"
    by (rule map_of_is_SomeI [OF distinct_cases counted_cases(33)])
  then show "\<not> accepted_by OTHER SUPLA_DCS_CALL_SET_CHANNEL_CAPTION (payload (Some d) (of_nat k))"
    using k(1) h by (auto simp: accepted_by_def payload_def unat_of_nat)
qed

end
