(* ===== verification/Srpc_Evtool.thy ===== *)
theory Srpc_Evtool
  imports Srpc_Send
begin

text \<open>
  The extended-value tools of \<open>srpc.c\<close>: conversions between the structures of electricity meters,
  thermostats and impulse counters and the generic extended value (a type, a size and a byte array), the
  conversions between the three versions of the meter structure, and the multi-value container.

  A pointer argument is a \<open>bytes option\<close>; an output argument is returned updated, with the result of the
  function.  Functions that can read or write outside an object return \<open>None\<close> when they do.
\<close>

section \<open>Operations\<close>

unbundle bit_operations_syntax

text \<open>The three macros.\<close>

abbreviation EM_M :: ctype where "EM_M \<equiv> TElectricityMeter_Measurement"

definition RETURN_EMEXTENDED2EXTENDED ::
  "target \<Rightarrow> ctype \<Rightarrow> nat \<Rightarrow> bytes option \<Rightarrow> bytes option \<Rightarrow> bytes option \<times> int" where
  "RETURN_EMEXTENDED2EXTENDED t T ev_type em_ev ev =
     (case (em_ev, ev) of
        (Some em, Some _) \<Rightarrow>
          if sfield T [''m_count''] em > int (EM_MEASUREMENT_COUNT t) \<or> sfield T [''m_count''] em < 0 then (ev, 0)
          else
            let E = TSuplaChannelExtendedValue t;
                v = replicate (sizeof E) 0;
                v = set_field E [''type''] ev_type v;
                sz = sizeof T - sizeof EM_M * EM_MEASUREMENT_COUNT t + sizeof EM_M * nat (sfield T [''m_count''] em);
                v = set_field E [''size''] sz v
            in if 0 < sz \<and> sz \<le> SUPLA_CHANNELEXTENDEDVALUE_SIZE t
               then (Some (overlay (offsetof E [''value'']) (take sz em) v), 1)
               else (Some (set_field E [''size''] 0 v), 0)
      | _ \<Rightarrow> (ev, 0))"

text \<open>\<open>expected_size\<close> is computed from the signed \<open>m_count\<close> modulo \<open>2^32\<close> and compared with the unsigned
  \<open>size\<close>.\<close>

definition expected_size :: "target \<Rightarrow> ctype \<Rightarrow> bytes \<Rightarrow> u32" where
  "expected_size t T em =
     (if sfield T [''m_count''] em \<le> int (EM_MEASUREMENT_COUNT t)
      then of_nat (sizeof T - sizeof EM_M * EM_MEASUREMENT_COUNT t) +
           of_nat (sizeof EM_M) * of_int (sfield T [''m_count''] em)
      else 0)"

definition RETURN_EXTENDED2EMEXTENDED ::
  "target \<Rightarrow> bytes option \<Rightarrow> ctype \<Rightarrow> nat \<Rightarrow> bytes option \<Rightarrow> bytes option \<times> int" where
  "RETURN_EXTENDED2EMEXTENDED t ev T ev_type em_ev =
     (case (em_ev, ev) of
        (Some _, Some v) \<Rightarrow>
          let E = TSuplaChannelExtendedValue t; sz = field E [''size''] v
          in if field E [''type''] v \<noteq> ev_type \<or> sz = 0 \<or> sz > sizeof T then (em_ev, 0)
             else
               let em = overlay 0 (seg (offsetof E [''value'']) sz v) (replicate (sizeof T) 0)
               in if of_nat sz \<noteq> expected_size t T em then (Some (replicate (sizeof T) 0), 0)
                  else (Some em, 1)
      | _ \<Rightarrow> (em_ev, 0))"

definition copy_member :: "ctype \<Rightarrow> ctype \<Rightarrow> string \<Rightarrow> bytes \<Rightarrow> bytes \<Rightarrow> bytes" where
  "copy_member S D m src dst =
     overlay (offsetof D [m]) (seg (offsetof S [m]) (sizeof (typeof D [m])) src) dst"

definition emev_members :: "string list" where
  "emev_members =
     [''total_forward_active_energy'', ''total_reverse_active_energy'', ''total_forward_reactive_energy'',
      ''total_reverse_reactive_energy'', ''total_cost'', ''price_per_unit'', ''currency'', ''measured_values'',
      ''period'', ''m_count'', ''m'']"

definition EMEV_COPY :: "ctype \<Rightarrow> ctype \<Rightarrow> bytes \<Rightarrow> bytes" where
  "EMEV_COPY S D src = fold (\<lambda>m. copy_member S D m src) emev_members (replicate (sizeof D) 0)"

text \<open>\<open>x->measured_values ^= x->measured_values & bit\<close>.\<close>

definition clear_measured :: "ctype \<Rightarrow> u32 \<Rightarrow> bytes \<Rightarrow> bytes" where
  "clear_measured T b em =
     (let v = of_nat (field T [''measured_values''] em) :: u32
      in set_field T [''measured_values''] (unat (v XOR (v AND b))) em)"

definition srpc_evtool_v1_emextended2extended :: "target \<Rightarrow> bytes option \<Rightarrow> bytes option \<Rightarrow> bytes option \<times> int" where
  "srpc_evtool_v1_emextended2extended t em_ev ev =
     RETURN_EMEXTENDED2EXTENDED t (TElectricityMeter_ExtendedValue t) EV_TYPE_ELECTRICITY_METER_MEASUREMENT_V1 em_ev ev"

definition srpc_evtool_v1_extended2emextended :: "target \<Rightarrow> bytes option \<Rightarrow> bytes option \<Rightarrow> bytes option \<times> int" where
  "srpc_evtool_v1_extended2emextended t ev em_ev =
     RETURN_EXTENDED2EMEXTENDED t ev (TElectricityMeter_ExtendedValue t) EV_TYPE_ELECTRICITY_METER_MEASUREMENT_V1 em_ev"

definition srpc_evtool_emev_v1to2 :: "target \<Rightarrow> bytes option \<Rightarrow> bytes option \<Rightarrow> bytes option \<times> int" where
  "srpc_evtool_emev_v1to2 t v1 v2 =
     (case (v1, v2) of
        (Some s, Some _) \<Rightarrow>
          let D = TElectricityMeter_ExtendedValue_V2 t;
              d = EMEV_COPY (TElectricityMeter_ExtendedValue t) D s;
              d = clear_measured D EM_VAR_FORWARD_ACTIVE_ENERGY_BALANCED d;
              d = clear_measured D EM_VAR_REVERSE_ACTIVE_ENERGY_BALANCED d
          in (Some d, 1)
      | _ \<Rightarrow> (v2, 0))"

definition srpc_evtool_emev_v2to1 :: "target \<Rightarrow> bytes option \<Rightarrow> bytes option \<Rightarrow> bytes option \<times> int" where
  "srpc_evtool_emev_v2to1 t v2 v1 =
     (case (v2, v1) of
        (Some s, Some _) \<Rightarrow>
          let D = TElectricityMeter_ExtendedValue t;
              d = EMEV_COPY (TElectricityMeter_ExtendedValue_V2 t) D s;
              d = clear_measured D EM_VAR_FORWARD_ACTIVE_ENERGY_BALANCED d;
              d = clear_measured D EM_VAR_REVERSE_ACTIVE_ENERGY_BALANCED d
          in (Some d, 1)
      | _ \<Rightarrow> (v1, 0))"

definition srpc_evtool_v2_emextended2extended :: "target \<Rightarrow> bytes option \<Rightarrow> bytes option \<Rightarrow> bytes option \<times> int" where
  "srpc_evtool_v2_emextended2extended t em_ev ev =
     RETURN_EMEXTENDED2EXTENDED t (TElectricityMeter_ExtendedValue_V2 t) EV_TYPE_ELECTRICITY_METER_MEASUREMENT_V2 em_ev ev"

definition srpc_evtool_v2_extended2emextended :: "target \<Rightarrow> bytes option \<Rightarrow> bytes option \<Rightarrow> bytes option \<times> int" where
  "srpc_evtool_v2_extended2emextended t ev em_ev =
     RETURN_EXTENDED2EMEXTENDED t ev (TElectricityMeter_ExtendedValue_V2 t) EV_TYPE_ELECTRICITY_METER_MEASUREMENT_V2 em_ev"

definition balanced_members :: "string list" where
  "balanced_members = [''total_forward_active_energy_balanced'', ''total_reverse_active_energy_balanced'',
     ''total_cost_balanced'']"

definition phase_bits :: "u32 list" where
  "phase_bits = [EM_VAR_VOLTAGE_PHASE_ANGLE_12, EM_VAR_VOLTAGE_PHASE_ANGLE_13, EM_VAR_VOLTAGE_PHASE_SEQUENCE,
     EM_VAR_CURRENT_PHASE_SEQUENCE]"

definition srpc_evtool_emev_v2to3 :: "target \<Rightarrow> bytes option \<Rightarrow> bytes option \<Rightarrow> bytes option \<times> int" where
  "srpc_evtool_emev_v2to3 t v2 v3 =
     (case (v2, v3) of
        (Some s, Some _) \<Rightarrow>
          let S = TElectricityMeter_ExtendedValue_V2 t; D = TElectricityMeter_ExtendedValue_V3 t;
              d = EMEV_COPY S D s;
              d = fold (\<lambda>m. copy_member S D m s) balanced_members d;
              d = fold (clear_measured D) phase_bits d
          in (Some d, 1)
      | _ \<Rightarrow> (v3, 0))"

definition srpc_evtool_emev_v3to2 :: "target \<Rightarrow> bytes option \<Rightarrow> bytes option \<Rightarrow> bytes option \<times> int" where
  "srpc_evtool_emev_v3to2 t v3 v2 =
     (case (v3, v2) of
        (Some s, Some _) \<Rightarrow>
          let S = TElectricityMeter_ExtendedValue_V3 t; D = TElectricityMeter_ExtendedValue_V2 t;
              d = EMEV_COPY S D s;
              d = fold (\<lambda>m. copy_member S D m s) balanced_members d;
              d = fold (clear_measured D) phase_bits d
          in (Some d, 1)
      | _ \<Rightarrow> (v2, 0))"

definition srpc_evtool_v3_emextended2extended :: "target \<Rightarrow> bytes option \<Rightarrow> bytes option \<Rightarrow> bytes option \<times> int" where
  "srpc_evtool_v3_emextended2extended t em_ev ev =
     RETURN_EMEXTENDED2EXTENDED t (TElectricityMeter_ExtendedValue_V3 t) EV_TYPE_ELECTRICITY_METER_MEASUREMENT_V3 em_ev ev"

definition srpc_evtool_v3_extended2emextended :: "target \<Rightarrow> bytes option \<Rightarrow> bytes option \<Rightarrow> bytes option \<times> int" where
  "srpc_evtool_v3_extended2emextended t ev em_ev =
     RETURN_EXTENDED2EMEXTENDED t ev (TElectricityMeter_ExtendedValue_V3 t) EV_TYPE_ELECTRICITY_METER_MEASUREMENT_V3 em_ev"

text \<open>\<open>use_v2\<close> and \<open>use_v1\<close> are the build flags \<open>USE_DEPRECATED_EMEV_V2\<close> and \<open>USE_DEPRECATED_EMEV_V1\<close>.
  With one of them, \<open>ev->type\<close> is read after the first attempt failed, also when \<open>ev\<close> is null.\<close>

definition srpc_evtool_extended2emextended_latest ::
  "target \<Rightarrow> bool \<Rightarrow> bool \<Rightarrow> bytes option \<Rightarrow> bytes option \<Rightarrow> (bytes option \<times> int) option" where
  "srpc_evtool_extended2emextended_latest t use_v2 use_v1 ev em_ev =
     (let (em_ev, r) = srpc_evtool_v3_extended2emextended t ev em_ev
      in if r \<noteq> 0 then Some (em_ev, 1)
         else if ev = None then (if use_v2 \<or> use_v1 then None else Some (em_ev, 0))
         else let ty = field (TSuplaChannelExtendedValue t) [''type''] (the ev)
           in if use_v2 \<and> ty = EV_TYPE_ELECTRICITY_METER_MEASUREMENT_V2 then
                let em_ev2 = Some (replicate (sizeof (TElectricityMeter_ExtendedValue_V2 t)) 0);
                    (em_ev2, r) = srpc_evtool_v2_extended2emextended t ev em_ev2
                in if r = 0 then Some (em_ev, 0)
                   else let (em_ev, r) = srpc_evtool_emev_v2to3 t em_ev2 em_ev
                     in Some (em_ev, if r \<noteq> 0 then 1 else 0)
              else if use_v1 \<and> ty = EV_TYPE_ELECTRICITY_METER_MEASUREMENT_V1 then
                let em_ev1 = Some (replicate (sizeof (TElectricityMeter_ExtendedValue t)) 0);
                    em_ev2 = Some (replicate (sizeof (TElectricityMeter_ExtendedValue_V2 t)) 0);
                    (em_ev1, r) = srpc_evtool_v1_extended2emextended t ev em_ev1
                in if r = 0 then Some (em_ev, 0)
                   else let (em_ev2, r) = srpc_evtool_emev_v1to2 t em_ev1 em_ev2
                     in if r = 0 then Some (em_ev, 0)
                        else let (em_ev, r) = srpc_evtool_emev_v2to3 t em_ev2 em_ev
                          in Some (em_ev, if r \<noteq> 0 then 1 else 0)
              else Some (em_ev, 0))"

definition srpc_evtool_v1_extended2thermostatextended ::
  "target \<Rightarrow> bytes option \<Rightarrow> bytes option \<Rightarrow> bytes option \<times> int" where
  "srpc_evtool_v1_extended2thermostatextended t ev th_ev =
     (case (ev, th_ev) of
        (Some v, Some _) \<Rightarrow>
          let E = TSuplaChannelExtendedValue t; sz = field E [''size''] v
          in if field E [''type''] v \<noteq> EV_TYPE_THERMOSTAT_DETAILS_V1 \<or> sz = 0 \<or> sz > sizeof TThermostat_ExtendedValue
             then (th_ev, 0)
             else (Some (overlay 0 (seg (offsetof E [''value'']) sz v) (replicate (sizeof TThermostat_ExtendedValue) 0)), 1)
      | _ \<Rightarrow> (th_ev, 0))"

text \<open>The members that are dropped from the end of the thermostat structure, while their bits are not set.\<close>

definition thermostat_members :: "(u32 \<times> string) list" where
  "thermostat_members =
     [(THERMOSTAT_FIELD_Schedule, ''Schedule''), (THERMOSTAT_FIELD_Time, ''Time''), (THERMOSTAT_FIELD_Values, ''Values''),
      (THERMOSTAT_FIELD_Flags, ''Flags''), (THERMOSTAT_FIELD_PresetTemperatures, ''PresetTemperature''),
      (THERMOSTAT_FIELD_MeasuredTemperatures, ''MeasuredTemperature'')]"

fun thermostat_size :: "u32 \<Rightarrow> (u32 \<times> string) list \<Rightarrow> nat \<Rightarrow> nat" where
  "thermostat_size flds [] sz = sz"
| "thermostat_size flds ((b, m) # ms) sz =
     (if flds AND b = 0 then thermostat_size flds ms (sz - sizeof (typeof TThermostat_ExtendedValue [m])) else sz)"

definition srpc_evtool_v1_thermostatextended2extended ::
  "target \<Rightarrow> bytes option \<Rightarrow> bytes option \<Rightarrow> bytes option \<times> int" where
  "srpc_evtool_v1_thermostatextended2extended t th_ev ev =
     (case (th_ev, ev) of
        (Some th, Some _) \<Rightarrow>
          let E = TSuplaChannelExtendedValue t;
              v = replicate (sizeof E) 0;
              v = set_field E [''type''] EV_TYPE_THERMOSTAT_DETAILS_V1 v;
              v = set_field E [''size''] 0 v;
              sz = thermostat_size (of_nat (field TThermostat_ExtendedValue [''Fields''] th)) thermostat_members
                     (sizeof TThermostat_ExtendedValue)
          in if sz > 0
             then (Some (overlay (offsetof E [''value'']) (take sz th) (set_field E [''size''] sz v)), 1)
             else (Some v, 0)
      | _ \<Rightarrow> (ev, 0))"

definition srpc_evtool_v1_icextended2extended :: "target \<Rightarrow> bytes option \<Rightarrow> bytes option \<Rightarrow> bytes option \<times> int" where
  "srpc_evtool_v1_icextended2extended t ic_ev ev =
     (case (ic_ev, ev) of
        (Some ic, Some _) \<Rightarrow>
          let E = TSuplaChannelExtendedValue t;
              v = replicate (sizeof E) 0;
              v = set_field E [''type''] EV_TYPE_IMPULSE_COUNTER_DETAILS_V1 v;
              v = set_field E [''size''] (sizeof TSC_ImpulseCounter_ExtendedValue) v
          in (Some (overlay (offsetof E [''value'']) (take (sizeof TSC_ImpulseCounter_ExtendedValue) ic) v), 1)
      | _ \<Rightarrow> (ev, 0))"

definition srpc_evtool_v1_extended2icextended :: "target \<Rightarrow> bytes option \<Rightarrow> bytes option \<Rightarrow> bytes option \<times> int" where
  "srpc_evtool_v1_extended2icextended t ev ic_ev =
     (case (ic_ev, ev) of
        (Some _, Some v) \<Rightarrow>
          let E = TSuplaChannelExtendedValue t; sz = field E [''size''] v
          in if field E [''type''] v \<noteq> EV_TYPE_IMPULSE_COUNTER_DETAILS_V1 \<or> sz = 0 \<or>
                sz \<noteq> sizeof TSC_ImpulseCounter_ExtendedValue then (ic_ev, 0)
             else (Some (overlay 0 (seg (offsetof E [''value'']) sz v) (replicate (sizeof TSC_ImpulseCounter_ExtendedValue) 0)), 1)
      | _ \<Rightarrow> (ic_ev, 0))"

text \<open>A \<open>memcpy\<close> between two objects; \<open>None\<close> when it leaves one of them.\<close>

definition memcpy_at :: "nat \<Rightarrow> nat \<Rightarrow> nat \<Rightarrow> bytes \<Rightarrow> bytes \<Rightarrow> bytes option" where
  "memcpy_at doff soff n src dst =
     (if soff + n \<le> length src \<and> doff + n \<le> length dst then Some (overlay doff (seg soff n src) dst) else None)"

lemma memcpy_at_eq_Some:
  "memcpy_at doff soff n src dst = Some r \<longleftrightarrow>
     soff + n \<le> length src \<and> doff + n \<le> length dst \<and> r = overlay doff (seg soff n src) dst"
  by (auto simp: memcpy_at_def)

abbreviation ev_type :: "target \<Rightarrow> bytes \<Rightarrow> nat" where
  "ev_type t v \<equiv> field (TSuplaChannelExtendedValue t) [''type''] v"

abbreviation ev_size :: "target \<Rightarrow> bytes \<Rightarrow> u32" where
  "ev_size t v \<equiv> of_nat (field (TSuplaChannelExtendedValue t) [''size''] v)"

abbreviation ev_header_size :: u32 where
  "ev_header_size \<equiv> 5"

text \<open>The lemma that the recursive call terminates: after the conversion the type is that of a container.\<close>

lemma ev_layout:
  "offsetof (TSuplaChannelExtendedValue t) [''type''] = 0" "typeof (TSuplaChannelExtendedValue t) [''type''] = CChar"
  "offsetof (TSuplaChannelExtendedValue t) [''size''] = 1" "typeof (TSuplaChannelExtendedValue t) [''size''] = U32"
  "offsetof (TSuplaChannelExtendedValue t) [''value''] = 5"
  by (simp_all add: offsetof_def typeof_def TSuplaChannelExtendedValue_def)

lemma ev_type_kept: "1 \<le> off \<Longrightarrow> off \<le> length v \<Longrightarrow> ev_type t (overlay off src v) = ev_type t v"
  by (simp add: field_def ev_layout seg_overlay_before)

definition set_ev :: "target \<Rightarrow> nat \<Rightarrow> u32 \<Rightarrow> bytes \<Rightarrow> bytes" where
  "set_ev t ty sz v =
     set_field (TSuplaChannelExtendedValue t) [''size''] (unat sz)
       (set_field (TSuplaChannelExtendedValue t) [''type''] ty v)"

lemma length_set_ev [simp]: "5 \<le> length v \<Longrightarrow> length (set_ev t ty sz v) = length v"
  by (simp add: set_ev_def set_field_def ev_layout length_overlay)

lemma ev_type_set_ev: "5 \<le> length v \<Longrightarrow> ty < 256 \<Longrightarrow> ev_type t (set_ev t ty sz v) = ty"
  using seg_overlay_same [of 0 v "le_bytes 1 ty"]
  by (simp add: set_ev_def set_field_def ev_layout ev_type_kept [unfolded ev_layout] length_overlay field_def
      seg_overlay_before le_nat_le_bytes unat_of_nat)

text \<open>The container is extended in place; when the destination holds a single value, it first
  becomes the first value of a container.  \<open>None\<close> stands for a copy outside of the objects.\<close>

function srpc_evtool_value_add ::
  "target \<Rightarrow> bytes option \<Rightarrow> bytes option \<Rightarrow> (bytes option \<times> int) option" where
  "srpc_evtool_value_add t dst srce =
     (case (dst, srce) of
        (Some d, Some s) \<Rightarrow>
          if ev_type t s = EV_TYPE_NONE \<or> ev_size t s = 0 then Some (dst, 0)
          else if ev_type t d = EV_TYPE_NONE then
            map_option (\<lambda>d. (Some d, 1)) (memcpy_at 0 0 (sizeof (TSuplaChannelExtendedValue t)) s d)
          else
            let src_size = ev_header_size + ev_size t s
            in if ev_type t d = EV_TYPE_MULTI_VALUE then
                 if ev_size t d + src_size > of_nat (SUPLA_CHANNELEXTENDEDVALUE_SIZE t) then Some (dst, 0)
                 else map_option (\<lambda>d'. (Some (set_field (TSuplaChannelExtendedValue t) [''size'']
                          (unat (ev_size t d + src_size)) d'), 1))
                        (memcpy_at (5 + unat (ev_size t d)) 0 (unat src_size) s d)
               else
                 let prev_size = ev_header_size + ev_size t d
                 in if prev_size + src_size > of_nat (SUPLA_CHANNELEXTENDEDVALUE_SIZE t) then Some (dst, 0)
                    else
                      (case memcpy_at 0 0 (sizeof (TSuplaChannelExtendedValue t)) d
                              (replicate (sizeof (TSuplaChannelExtendedValue t)) 0) of
                         None \<Rightarrow> None
                       | Some prev \<Rightarrow>
                           (case memcpy_at 5 0 (unat prev_size) prev (set_ev t EV_TYPE_MULTI_VALUE prev_size d) of
                              None \<Rightarrow> None
                            | Some d' \<Rightarrow> srpc_evtool_value_add t (Some d') srce))
      | _ \<Rightarrow> Some (dst, 0))"
  by pat_completeness auto
termination
proof (relation "measure (\<lambda>(t, d, s). case d of None \<Rightarrow> 0 | Some d \<Rightarrow> if ev_type t d = EV_TYPE_MULTI_VALUE then 0 else 1)",
    goal_cases)
  case 1
  then show ?case by simp
next
  case (2 t dst srce x y d s src_size prev_size prev d')
  have d: "5 \<le> length d" using 2(10) by (simp add: memcpy_at_eq_Some layout)
  have "ev_type t d' = ev_type t (set_ev t EV_TYPE_MULTI_VALUE prev_size d)"
    using 2(11) d by (auto simp: memcpy_at_eq_Some intro!: ev_type_kept)
  then have "ev_type t d' = EV_TYPE_MULTI_VALUE"
    using ev_type_set_ev [OF d, of EV_TYPE_MULTI_VALUE] by (simp add: const_defs)
  then show ?case using 2 by auto
qed

declare srpc_evtool_value_add.simps [simp del]

text \<open>Looking for a value in a container.  \<open>n\<close> is a 16-bit counter, \<open>offset\<close> and \<open>size\<close> are unsigned 32-bit; the
  loop ends because \<open>n\<close> runs through all its values.  \<open>Fault\<close> stands for an access outside of the objects,
  \<open>Loop_Exit\<close> for reaching the end.\<close>

datatype get_result = Fault | Loop_Exit | Returns bytes int

function value_get_loop :: "target \<Rightarrow> bytes \<Rightarrow> u16 \<Rightarrow> bytes \<Rightarrow> u32 \<Rightarrow> u32 \<Rightarrow> u16 \<Rightarrow> get_result" where
  "value_get_loop t v index dst sz offset n =
     (if offset < sz then
        if 5 + unat offset + 1 > length v then Fault
        else
          let nxt = drop (5 + unat offset) v
          in if ev_type t nxt = EV_TYPE_NONE then Returns dst 0
             else if 5 + unat offset + 5 > length v then Fault
             else if ev_size t nxt = 0 \<or>
                     ev_size t nxt + offset + ev_header_size > of_nat (SUPLA_CHANNELEXTENDEDVALUE_SIZE t)
             then Returns dst 0
             else if n = index then
               (case memcpy_at 0 (5 + unat offset) (unat (ev_header_size + ev_size t nxt)) v dst of
                  None \<Rightarrow> Fault
                | Some d \<Rightarrow> Returns d 1)
             else value_get_loop t v index dst sz (offset + (ev_header_size + ev_size t nxt)) (n + 1)
      else Loop_Exit)"
  by pat_completeness auto
termination
proof (relation "measure (\<lambda>(t, v, index, dst, sz, offset, n). unat (index - n))", goal_cases)
  case 1
  then show ?case by simp
next
  case (2 t v index dst sz offset n nxt)
  have "index - n \<noteq> 0" using 2(7) by auto
  then have "unat (index - n - 1) < unat (index - n)" by (metis measure_unat)
  then show ?case by (simp add: algebra_simps)
qed

declare value_get_loop.simps [simp del]

definition srpc_evtool_value_get :: "target \<Rightarrow> bytes option \<Rightarrow> u16 \<Rightarrow> bytes option \<Rightarrow> (bytes option \<times> int) option" where
  "srpc_evtool_value_get t ev index dst =
     (case (dst, ev) of
        (Some d, Some v) \<Rightarrow>
          if ev_type t v = EV_TYPE_NONE then Some (dst, 0)
          else
            let sz = (if ev_size t v > of_nat (SUPLA_CHANNELEXTENDEDVALUE_SIZE t)
                      then of_nat (SUPLA_CHANNELEXTENDEDVALUE_SIZE t) else ev_size t v) - ev_header_size
            in (case (if ev_type t v = EV_TYPE_MULTI_VALUE then value_get_loop t v index d sz 0 0 else Loop_Exit) of
                  Fault \<Rightarrow> None
                | Returns d' r \<Rightarrow> Some (Some d', r)
                | Loop_Exit \<Rightarrow>
                    if index = 0
                    then map_option (\<lambda>d. (Some d, 1)) (memcpy_at 0 0 (sizeof (TSuplaChannelExtendedValue t)) v d)
                    else Some (dst, 0))
      | _ \<Rightarrow> Some (dst, 0))"

section \<open>Extended values as type, size and value\<close>

definition ev_make :: "nat \<Rightarrow> nat \<Rightarrow> bytes \<Rightarrow> bytes" where
  "ev_make ty sz val = of_nat ty # le_bytes 4 sz @ val"

lemma length_ev_make [simp]: "length (ev_make ty sz val) = 5 + length val"
  by (simp add: ev_make_def)

lemma ev_make_fields [simp]:
  "ty < 256 \<Longrightarrow> ev_type t (ev_make ty sz val) = ty"
  "sz < 2 ^ 32 \<Longrightarrow> field (TSuplaChannelExtendedValue t) [''size''] (ev_make ty sz val) = sz"
  "seg 5 n (ev_make ty sz val) = take n val"
  "drop 5 (ev_make ty sz val) = val"
  by (simp_all add: field_def ev_layout ev_make_def seg_def le_nat_le_bytes unat_of_nat drop_Cons')

lemma overlay_ev_make [simp]:
  "overlay (5 + off) x (ev_make ty sz val) = ev_make ty sz (overlay off x val)"
  "overlay 5 x (ev_make ty sz val) = ev_make ty sz (overlay 0 x val)"
  by (simp_all add: overlay_def ev_make_def take_Cons' drop_Cons')

lemma of_nat_mod_byte [simp]: "(of_nat (x mod 256) :: u8) = of_nat x"
  by (simp add: word_of_nat_eq_iff take_bit_eq_mod)

lemma set_field_ev_make [simp]:
  "set_field (TSuplaChannelExtendedValue t) [''type''] ty' (ev_make ty sz val) = ev_make ty' sz val"
  "set_field (TSuplaChannelExtendedValue t) [''size''] sz' (ev_make ty sz val) = ev_make ty sz' val"
  by (simp_all add: set_field_def ev_layout overlay_def ev_make_def take_Cons' drop_Cons')

lemma replicate_ev_make: "replicate (5 + n) 0 = ev_make 0 0 (replicate n 0)"
proof -
  have "replicate (5 + n) (0 :: u8) = replicate 5 0 @ replicate n 0" by (simp only: replicate_add)
  moreover have "replicate 5 (0 :: u8) = [0, 0, 0, 0, 0]" by (simp add: numeral_eq_Suc)
  ultimately show ?thesis by (simp add: ev_make_def le_bytes_4)
qed

lemma ev_make_eq:
  assumes "5 \<le> length v"
  shows "v = ev_make (ev_type t v) (field (TSuplaChannelExtendedValue t) [''size''] v) (drop 5 v)"
proof -
  have v: "v = seg 0 1 v @ seg 1 4 v @ drop 5 v"
    using append_take_drop_id [of 1 v] append_take_drop_id [of 4 "drop 1 v"] by (simp add: seg_def)
  have "le_bytes 4 (le_nat (seg 1 4 v)) = seg 1 4 v" "le_bytes 1 (le_nat (seg 0 1 v)) = seg 0 1 v"
    using assms le_bytes_le_nat [of "seg 1 4 v"] le_bytes_le_nat [of "seg 0 1 v"] by auto
  then show ?thesis by (subst v) (simp add: ev_make_def field_def ev_layout)
qed

section \<open>Electricity meters\<close>

text \<open>The three versions of the meter structure with their type codes and conversions.\<close>

definition meters :: "target \<Rightarrow> (ctype \<times> nat) list" where
  "meters t = [(TElectricityMeter_ExtendedValue t, EV_TYPE_ELECTRICITY_METER_MEASUREMENT_V1),
     (TElectricityMeter_ExtendedValue_V2 t, EV_TYPE_ELECTRICITY_METER_MEASUREMENT_V2),
     (TElectricityMeter_ExtendedValue_V3 t, EV_TYPE_ELECTRICITY_METER_MEASUREMENT_V3)]"

lemma sizeof_EM_M: "sizeof EM_M = 62"
  by (simp add: TElectricityMeter_Measurement_def)

lemma meter_layout:
  assumes "(T, ty) \<in> set (meters t)"
  shows "sizeof T - 62 * EM_MEASUREMENT_COUNT t = offsetof T [''m_count''] + 4" "typeof T [''m_count''] = I32"
    "sizeof T \<le> SUPLA_CHANNELEXTENDEDVALUE_SIZE t" "62 * EM_MEASUREMENT_COUNT t \<le> sizeof T" "ty < 256"
  using assms
  by (auto simp: meters_def TElectricityMeter_ExtendedValue_def TElectricityMeter_ExtendedValue_V2_def
      TElectricityMeter_ExtendedValue_V3_def sizeof_EM_M offsetof_def typeof_def const_defs) (cases t; simp)+

lemma EV_size: "sizeof (TSuplaChannelExtendedValue t) = 5 + SUPLA_CHANNELEXTENDEDVALUE_SIZE t"
  by (simp add: layout)

lemma SUPLA_CHANNELEXTENDEDVALUE_SIZE_bound: "SUPLA_CHANNELEXTENDEDVALUE_SIZE t \<le> 1024"
  by (cases t) simp_all

text \<open>The bytes of a meter structure that are sent, for a given number of measurements.\<close>

definition meter_bytes :: "target \<Rightarrow> ctype \<Rightarrow> bytes \<Rightarrow> nat" where
  "meter_bytes t T em = offsetof T [''m_count''] + 4 + 62 * nat (sfield T [''m_count''] em)"

lemma meter_bytes_bound:
  assumes T: "(T, ty) \<in> set (meters t)" and "0 \<le> sfield T [''m_count''] em"
    and "sfield T [''m_count''] em \<le> int (EM_MEASUREMENT_COUNT t)"
  shows "meter_bytes t T em \<le> sizeof T"
proof -
  have "62 * nat (sfield T [''m_count''] em) \<le> 62 * EM_MEASUREMENT_COUNT t" using assms(2,3) by simp
  then show ?thesis using meter_layout(1,4) [OF T] unfolding meter_bytes_def by linarith
qed

lemma EMEXTENDED2EXTENDED_eq:
  assumes T: "(T, ty) \<in> set (meters t)" and em: "length em = sizeof T" and m: "0 \<le> sfield T [''m_count''] em"
    "sfield T [''m_count''] em \<le> int (EM_MEASUREMENT_COUNT t)"
  shows "RETURN_EMEXTENDED2EXTENDED t T ty (Some em) (Some ev) =
    (Some (ev_make ty (meter_bytes t T em) (overlay 0 (take (meter_bytes t T em) em)
       (replicate (SUPLA_CHANNELEXTENDEDVALUE_SIZE t) 0))), 1)"
proof -
  note L = meter_layout [OF T] meter_bytes_bound [OF T m]
  have "meter_bytes t T em \<le> SUPLA_CHANNELEXTENDEDVALUE_SIZE t" "0 < meter_bytes t T em"
    using L by (simp_all add: meter_bytes_def)
  then show ?thesis
    using m L(1) by (simp add: RETURN_EMEXTENDED2EXTENDED_def Let_def sizeof_EM_M EV_size replicate_ev_make
        ev_layout meter_bytes_def)
qed

lemma EXTENDED2EMEXTENDED_eq:
  assumes T: "(T, ty) \<in> set (meters t)" and em: "length em = sizeof T" and m: "0 \<le> sfield T [''m_count''] em"
    "sfield T [''m_count''] em \<le> int (EM_MEASUREMENT_COUNT t)" and k: "k = meter_bytes t T em"
    and val: "take k val = take k em" "k \<le> length val"
  shows "RETURN_EXTENDED2EMEXTENDED t (Some (ev_make ty k val)) T ty (Some buf) =
    (Some (take k em @ replicate (sizeof T - k) 0), 1)"
proof -
  note L = meter_layout [OF T] meter_bytes_bound [OF T m]
  have k0: "0 < k" "k \<le> sizeof T" "k < 2 ^ 32"
    using L SUPLA_CHANNELEXTENDEDVALUE_SIZE_bound [of t] by (simp_all add: k meter_bytes_def)
  let ?em = "take k em @ replicate (sizeof T - k) 0"
  have o: "overlay 0 (take k val) (replicate (sizeof T) 0) = ?em"
    using k0(2) em by (simp add: overlay_0 val)
  have "sfield T [''m_count''] ?em = sfield T [''m_count''] em"
    using L(1,2) k0(2) em by (simp add: sfield_def field_def seg_append_left seg_take k meter_bytes_def)
  then have "expected_size t T ?em = of_nat k"
    using m L(1) by (simp add: expected_size_def sizeof_EM_M k meter_bytes_def of_nat_nat [symmetric] del: of_nat_nat)
  then show ?thesis
    using k0 L(5) by (simp add: RETURN_EXTENDED2EMEXTENDED_def Let_def ev_layout o)
qed

section \<open>Members of a structure\<close>

definition get_member :: "ctype \<Rightarrow> string \<Rightarrow> bytes \<Rightarrow> bytes" where
  "get_member T m bs = seg (offsetof T [m]) (sizeof (typeof T [m])) bs"

lemma field_of_range:
  "field_of fs off m = Some (a, T) \<Longrightarrow> off \<le> a \<and> a + sizeof T \<le> off + sizeof (Struct fs)"
proof (induction fs off m rule: field_of.induct)
  case (2 n t fs off m)
  then show ?case by (cases "n = m") auto
qed simp

lemma field_of_mem: "field_of fs off m = Some (a, T) \<Longrightarrow> m \<in> fst ` set fs"
  by (induction fs off m rule: field_of.induct) (auto split: if_splits)

lemma field_of_None: "field_of fs off m = None \<longleftrightarrow> m \<notin> fst ` set fs"
  by (induction fs off m rule: field_of.induct) auto

lemma field_of_disjoint:
  assumes "field_of fs off m = Some (a, T)" "field_of fs off n = Some (b, U)" "m \<noteq> n"
  shows "a + sizeof T \<le> b \<or> b + sizeof U \<le> a"
  using assms
proof (induction fs off m rule: field_of.induct)
  case (2 k t fs off m)
  consider "k = m" | "k = n" | "k \<noteq> m" "k \<noteq> n" by blast
  then show ?case
  proof cases
    case 1
    then show ?thesis using 2(2-4) field_of_range [of fs "off + sizeof t" n b U] by auto
  next
    case 2
    then show ?thesis using \<open>field_of ((k, t) # fs) off m = _\<close> \<open>field_of ((k, t) # fs) off n = _\<close> \<open>m \<noteq> n\<close>
        field_of_range [of fs "off + sizeof t" m a T] by auto
  next
    case 3
    then show ?thesis using 2 by simp
  qed
qed simp

lemma member_Struct:
  "offsetof (Struct fs) [m] = (case field_of fs 0 m of None \<Rightarrow> 0 | Some (a, T) \<Rightarrow> a)"
  "typeof (Struct fs) [m] = (case field_of fs 0 m of None \<Rightarrow> UChar | Some (a, T) \<Rightarrow> T)"
  by (auto simp: offsetof_def typeof_def split: option.split)

text \<open>Writing a member changes this member only.\<close>

lemma get_member_overlay:
  assumes "m \<in> fst ` set fs" "m' \<in> fst ` set fs" "length dst = sizeof (Struct fs)"
    and "length x = sizeof (typeof (Struct fs) [m])"
  shows "get_member (Struct fs) m' (overlay (offsetof (Struct fs) [m]) x dst) =
    (if m' = m then x else get_member (Struct fs) m' dst)"
proof -
  obtain a T where m: "field_of fs 0 m = Some (a, T)" using assms(1) field_of_None [of fs 0 m] by auto
  obtain b U where m': "field_of fs 0 m' = Some (b, U)" using assms(2) field_of_None [of fs 0 m'] by auto
  have r: "a + sizeof T \<le> length dst" "b + sizeof U \<le> length dst"
    using field_of_range [OF m] field_of_range [OF m'] assms(3) by simp_all
  show ?thesis
  proof (cases "m' = m")
    case True
    then show ?thesis using m r assms(4) seg_overlay_same [of a dst x]
      by (simp add: get_member_def member_Struct)
  next
    case False
    then show ?thesis
      using m m' r assms(4) field_of_disjoint [OF m m']
      by (auto simp: get_member_def member_Struct seg_overlay_before seg_overlay_after)
  qed
qed

lemma length_overlay_member:
  assumes "m \<in> fst ` set fs" "length dst = sizeof (Struct fs)" "length x = sizeof (typeof (Struct fs) [m])"
  shows "length (overlay (offsetof (Struct fs) [m]) x dst) = length dst"
proof -
  obtain a T where m: "field_of fs 0 m = Some (a, T)" using assms(1) field_of_None [of fs 0 m] by auto
  then show ?thesis using field_of_range [OF m] assms(2,3) by (simp add: member_Struct length_overlay)
qed

text \<open>An object is determined by its members.\<close>

lemma field_of_ext:
  assumes "length x = off + sizeof (Struct fs)" "length y = length x" "take off x = take off y" "distinct (map fst fs)"
    and "\<And>m a T. field_of fs off m = Some (a, T) \<Longrightarrow> seg a (sizeof T) x = seg a (sizeof T) y"
  shows "x = y"
  using assms
proof (induction fs arbitrary: off)
  case Nil
  then show ?case by simp
next
  case (Cons f fs)
  obtain k t where f: "f = (k, t)" by fastforce
  have "seg off (sizeof t) x = seg off (sizeof t) y" using Cons.prems(5) [of k off t] f by simp
  then have "take (off + sizeof t) x = take (off + sizeof t) y"
    using Cons.prems(3) by (simp add: seg_def take_add)
  moreover have "seg a (sizeof T) x = seg a (sizeof T) y" if "field_of fs (off + sizeof t) m = Some (a, T)" for m a T
  proof -
    have "k \<noteq> m" using Cons.prems(4) f field_of_mem [OF that] by auto
    then show ?thesis using Cons.prems(5) [of m a T] f that by simp
  qed
  ultimately show ?case
    using Cons.IH [of "off + sizeof t"] Cons.prems(1,2,4) f by simp
qed

lemma struct_ext:
  assumes "length x = sizeof (Struct fs)" "length y = sizeof (Struct fs)" "distinct (map fst fs)"
    and "\<And>m. m \<in> fst ` set fs \<Longrightarrow> get_member (Struct fs) m x = get_member (Struct fs) m y"
  shows "x = y"
proof (rule field_of_ext [of x 0 fs y])
  fix m a T assume m: "field_of fs 0 m = Some (a, T)"
  then show "seg a (sizeof T) x = seg a (sizeof T) y"
    using assms(4) [OF field_of_mem [OF m]] by (simp add: get_member_def member_Struct)
qed (use assms in simp_all)

section \<open>Versions of the meter structure\<close>

lemma length_get_member:
  "m \<in> fst ` set fs \<Longrightarrow> length x = sizeof (Struct fs) \<Longrightarrow>
   length (get_member (Struct fs) m x) = sizeof (typeof (Struct fs) [m])"
  using field_of_None [of fs 0 m] field_of_range [of fs 0 m]
  by (auto simp: get_member_def member_Struct split: option.split)

text \<open>\<open>agree S D ms\<close>: the members \<open>ms\<close> exist in both structures, with the same types.\<close>

definition agree :: "(string \<times> ctype) list \<Rightarrow> (string \<times> ctype) list \<Rightarrow> string list \<Rightarrow> bool" where
  "agree fs gs ms \<longleftrightarrow> list_all (\<lambda>m. m \<in> fst ` set fs \<and> m \<in> fst ` set gs \<and>
     typeof (Struct fs) [m] = typeof (Struct gs) [m]) ms"

lemma copy_members:
  assumes "agree fs gs ms" "length s = sizeof (Struct fs)" "length d = sizeof (Struct gs)"
  shows "length (fold (\<lambda>m. copy_member (Struct fs) (Struct gs) m s) ms d) = sizeof (Struct gs) \<and>
    (\<forall>m' \<in> fst ` set gs. get_member (Struct gs) m' (fold (\<lambda>m. copy_member (Struct fs) (Struct gs) m s) ms d) =
      (if m' \<in> set ms then get_member (Struct fs) m' s else get_member (Struct gs) m' d))"
  using assms
proof (induction ms arbitrary: d)
  case Nil
  then show ?case by simp
next
  case (Cons m ms)
  let ?d = "copy_member (Struct fs) (Struct gs) m s d"
  have m: "m \<in> fst ` set fs" "m \<in> fst ` set gs" "typeof (Struct fs) [m] = typeof (Struct gs) [m]" "agree fs gs ms"
    using Cons.prems(1) by (simp_all add: agree_def)
  have e: "?d = overlay (offsetof (Struct gs) [m]) (get_member (Struct fs) m s) d"
    using m(3) by (simp add: copy_member_def get_member_def)
  have x: "length (get_member (Struct fs) m s) = sizeof (typeof (Struct gs) [m])"
    using length_get_member [OF m(1) Cons.prems(2)] m(3) by simp
  have "length ?d = sizeof (Struct gs)"
    unfolding e using length_overlay_member [OF m(2) Cons.prems(3) x] Cons.prems(3) by simp
  note IH = Cons.IH [OF m(4) Cons.prems(2) this]
  have g: "get_member (Struct gs) m' ?d = (if m' = m then get_member (Struct fs) m s else get_member (Struct gs) m' d)"
    if "m' \<in> fst ` set gs" for m'
    unfolding e using get_member_overlay [OF m(2) that Cons.prems(3) x] .
  show ?case
  proof (intro conjI ballI)
    fix m' assume m': "m' \<in> fst ` set gs"
    then show "get_member (Struct gs) m' (fold (\<lambda>m. copy_member (Struct fs) (Struct gs) m s) (m # ms) d) =
        (if m' \<in> set (m # ms) then get_member (Struct fs) m' s else get_member (Struct gs) m' d)"
      using bspec [OF conjunct2 [OF IH] m'] g [OF m'] by auto
  qed (use IH in simp)
qed

text \<open>Clearing bits of the mask of measured values.\<close>

lemma clear_measured_member:
  assumes "''measured_values'' \<in> fst ` set fs" "typeof (Struct fs) [''measured_values''] = I32"
    and "length x = sizeof (Struct fs)"
  shows "length (clear_measured (Struct fs) b x) = sizeof (Struct fs)"
    "m \<in> fst ` set fs \<Longrightarrow> get_member (Struct fs) m (clear_measured (Struct fs) b x) =
      (if m = ''measured_values''
       then u32_bytes (bytes_u32 (get_member (Struct fs) ''measured_values'' x) AND NOT b)
       else get_member (Struct fs) m x)"
proof -
  have "v XOR (v AND b) = v AND NOT b" for v :: u32
    by (rule bit_word_eqI) (auto simp: bit_simps)
  then have e: "clear_measured (Struct fs) b x = overlay (offsetof (Struct fs) [''measured_values''])
      (u32_bytes (bytes_u32 (get_member (Struct fs) ''measured_values'' x) AND NOT b)) x"
    using assms(2) by (simp add: clear_measured_def set_field_def field_def get_member_def u32_bytes_def bytes_u32_def)
  show "length (clear_measured (Struct fs) b x) = sizeof (Struct fs)"
    unfolding e using length_overlay_member [OF assms(1,3)] assms(2,3) by simp
  show "get_member (Struct fs) m (clear_measured (Struct fs) b x) =
      (if m = ''measured_values''
       then u32_bytes (bytes_u32 (get_member (Struct fs) ''measured_values'' x) AND NOT b)
       else get_member (Struct fs) m x)" if "m \<in> fst ` set fs"
    unfolding e using get_member_overlay [OF assms(1) that assms(3)] assms(2) by simp
qed

definition clear_mask :: "u32 list \<Rightarrow> u32 \<Rightarrow> u32" where
  "clear_mask bits v = fold (\<lambda>b v. v AND NOT b) bits v"

lemma clear_mask_eq: "clear_mask bits v = v AND clear_mask bits (-1)"
  unfolding clear_mask_def
proof (induction bits arbitrary: v)
  case (Cons b bits)
  show ?case
    using Cons.IH [of "v AND NOT b"] Cons.IH [of "- 1 AND NOT b"] by (simp add: and.assoc)
qed simp

lemma clear_mask_idem [simp]: "clear_mask bits (clear_mask bits v) = clear_mask bits v"
  by (simp add: clear_mask_eq [of bits v] clear_mask_eq [of bits "v AND _"] and.assoc)

lemma clear_bits_member:
  assumes "''measured_values'' \<in> fst ` set fs" "typeof (Struct fs) [''measured_values''] = I32"
    and "length x = sizeof (Struct fs)"
  shows "length (fold (clear_measured (Struct fs)) bits x) = sizeof (Struct fs) \<and>
    (\<forall>m \<in> fst ` set fs. get_member (Struct fs) m (fold (clear_measured (Struct fs)) bits x) =
      (if m = ''measured_values''
       then u32_bytes (clear_mask bits (bytes_u32 (get_member (Struct fs) ''measured_values'' x)))
       else get_member (Struct fs) m x))"
  using assms(3)
proof (induction bits arbitrary: x)
  case Nil
  then show ?case using length_get_member [OF assms(1), of x] assms(2)
    by (simp add: clear_mask_def u32_bytes_bytes_u32)
next
  case (Cons b bits)
  note C = clear_measured_member [where b = b, OF assms(1,2) Cons.prems]
  note IH = Cons.IH [OF C(1)]
  show ?case
  proof (intro conjI ballI)
    fix m assume m: "m \<in> fst ` set fs"
    show "get_member (Struct fs) m (fold (clear_measured (Struct fs)) (b # bits) x) =
        (if m = ''measured_values''
         then u32_bytes (clear_mask (b # bits) (bytes_u32 (get_member (Struct fs) ''measured_values'' x)))
         else get_member (Struct fs) m x)"
      using bspec [OF conjunct2 [OF IH] m] C(2) [OF m] C(2) [OF assms(1)] by (simp add: clear_mask_def)
  qed (use IH in simp)
qed

text \<open>All four conversions have this form.\<close>

definition convert :: "ctype \<Rightarrow> ctype \<Rightarrow> string list \<Rightarrow> u32 list \<Rightarrow> bytes \<Rightarrow> bytes" where
  "convert S D ms bits s =
     fold (clear_measured D) bits (fold (\<lambda>m. copy_member S D m s) ms (EMEV_COPY S D s))"

lemma convert_members:
  assumes a: "agree fs gs (emev_members @ ms)" and t: "typeof (Struct gs) [''measured_values''] = I32"
    and s: "length s = sizeof (Struct fs)"
  shows "length (convert (Struct fs) (Struct gs) ms bits s) = sizeof (Struct gs)"
    "m \<in> fst ` set gs \<Longrightarrow> get_member (Struct gs) m (convert (Struct fs) (Struct gs) ms bits s) =
      (if m = ''measured_values''
       then u32_bytes (clear_mask bits (bytes_u32 (get_member (Struct fs) ''measured_values'' s)))
       else if m \<in> set (emev_members @ ms) then get_member (Struct fs) m s
       else get_member (Struct gs) m (replicate (sizeof (Struct gs)) 0))"
proof -
  have mv: "''measured_values'' \<in> fst ` set gs" "''measured_values'' \<in> set (emev_members @ ms)"
    using a by (auto simp: agree_def emev_members_def)
  define d where "d = fold (\<lambda>m. copy_member (Struct fs) (Struct gs) m s) (emev_members @ ms) (replicate (sizeof (Struct gs)) 0)"
  have c: "convert (Struct fs) (Struct gs) ms bits s = fold (clear_measured (Struct gs)) bits d"
    by (simp add: convert_def EMEV_COPY_def d_def)
  note D = copy_members [OF a s, of "replicate (sizeof (Struct gs)) 0", folded d_def]
  have ld: "length d = sizeof (Struct gs)" using D by simp
  note B = clear_bits_member [OF mv(1) t ld, of bits, folded c]
  show "length (convert (Struct fs) (Struct gs) ms bits s) = sizeof (Struct gs)" using B by simp
  have dm: "get_member (Struct gs) m d = (if m \<in> set (emev_members @ ms) then get_member (Struct fs) m s
      else get_member (Struct gs) m (replicate (sizeof (Struct gs)) 0))" if "m \<in> fst ` set gs" for m
    using bspec [OF conjunct2 [OF D] that] by simp
  show "get_member (Struct gs) m (convert (Struct fs) (Struct gs) ms bits s) =
      (if m = ''measured_values''
       then u32_bytes (clear_mask bits (bytes_u32 (get_member (Struct fs) ''measured_values'' s)))
       else if m \<in> set (emev_members @ ms) then get_member (Struct fs) m s
       else get_member (Struct gs) m (replicate (sizeof (Struct gs)) 0))" if "m \<in> fst ` set gs"
    using bspec [OF conjunct2 [OF B] that] dm [OF that] dm [OF mv(1)] mv(2) by simp
qed

lemma convert_back:
  assumes a: "agree fs gs (emev_members @ ms)" "agree gs fs (emev_members @ ms)"
    and t: "typeof (Struct gs) [''measured_values''] = I32" "typeof (Struct fs) [''measured_values''] = I32"
    and c: "fst ` set fs = set (emev_members @ ms)" "distinct (map fst fs)" and s: "length s = sizeof (Struct fs)"
  shows "convert (Struct gs) (Struct fs) ms bits (convert (Struct fs) (Struct gs) ms bits s) =
    fold (clear_measured (Struct fs)) bits s"
proof (rule struct_ext [OF _ _ c(2)])
  let ?d = "convert (Struct fs) (Struct gs) ms bits s"
  have mv: "''measured_values'' \<in> fst ` set gs" "''measured_values'' \<in> fst ` set fs"
    using a by (auto simp: agree_def emev_members_def)
  note F = convert_members [where bits = bits, OF a(1) t(1) s]
  note G = convert_members [where bits = bits, OF a(2) t(2) F(1)]
  note B = clear_bits_member [OF mv(2) t(2) s, of bits]
  show "length (convert (Struct gs) (Struct fs) ms bits ?d) = sizeof (Struct fs)" by (rule G(1))
  show "length (fold (clear_measured (Struct fs)) bits s) = sizeof (Struct fs)" using B by simp
  fix m assume m: "m \<in> fst ` set fs"
  then have m': "m \<in> fst ` set gs" "m \<in> set (emev_members @ ms)"
    using c(1) a(1) by (auto simp: agree_def list_all_iff)
  show "get_member (Struct fs) m (convert (Struct gs) (Struct fs) ms bits ?d) =
      get_member (Struct fs) m (fold (clear_measured (Struct fs)) bits s)"
    using G(2) [OF m] F(2) [OF m'(1)] F(2) [OF mv(1)] bspec [OF conjunct2 [OF B] m] m'(2) by simp
qed

definition balanced_bits :: "u32 list" where
  "balanced_bits = [EM_VAR_FORWARD_ACTIVE_ENERGY_BALANCED, EM_VAR_REVERSE_ACTIVE_ENERGY_BALANCED]"

lemma emev_conversions:
  "srpc_evtool_emev_v1to2 t (Some s) (Some d) =
     (Some (convert (TElectricityMeter_ExtendedValue t) (TElectricityMeter_ExtendedValue_V2 t) [] balanced_bits s), 1)"
  "srpc_evtool_emev_v2to1 t (Some s) (Some d) =
     (Some (convert (TElectricityMeter_ExtendedValue_V2 t) (TElectricityMeter_ExtendedValue t) [] balanced_bits s), 1)"
  "srpc_evtool_emev_v2to3 t (Some s) (Some d) =
     (Some (convert (TElectricityMeter_ExtendedValue_V2 t) (TElectricityMeter_ExtendedValue_V3 t) balanced_members phase_bits s), 1)"
  "srpc_evtool_emev_v3to2 t (Some s) (Some d) =
     (Some (convert (TElectricityMeter_ExtendedValue_V3 t) (TElectricityMeter_ExtendedValue_V2 t) balanced_members phase_bits s), 1)"
  by (simp_all add: srpc_evtool_emev_v1to2_def srpc_evtool_emev_v2to1_def srpc_evtool_emev_v2to3_def
      srpc_evtool_emev_v3to2_def convert_def Let_def balanced_bits_def)

fun members_of :: "ctype \<Rightarrow> (string \<times> ctype) list" where
  "members_of (Struct fs) = fs"
| "members_of _ = []"

lemma meter_structs:
  "TElectricityMeter_ExtendedValue t = Struct (members_of (TElectricityMeter_ExtendedValue t))"
  "TElectricityMeter_ExtendedValue_V2 t = Struct (members_of (TElectricityMeter_ExtendedValue_V2 t))"
  "TElectricityMeter_ExtendedValue_V3 t = Struct (members_of (TElectricityMeter_ExtendedValue_V3 t))"
  by (simp_all add: TElectricityMeter_ExtendedValue_def TElectricityMeter_ExtendedValue_V2_def
      TElectricityMeter_ExtendedValue_V3_def)

lemmas meter_defs = TElectricityMeter_ExtendedValue_def TElectricityMeter_ExtendedValue_V2_def
  TElectricityMeter_ExtendedValue_V3_def

lemma meters_agree:
  "agree (members_of (TElectricityMeter_ExtendedValue t)) (members_of (TElectricityMeter_ExtendedValue_V2 t)) (emev_members @ [])"
  "agree (members_of (TElectricityMeter_ExtendedValue_V2 t)) (members_of (TElectricityMeter_ExtendedValue t)) (emev_members @ [])"
  "agree (members_of (TElectricityMeter_ExtendedValue_V2 t)) (members_of (TElectricityMeter_ExtendedValue_V3 t)) (emev_members @ balanced_members)"
  "agree (members_of (TElectricityMeter_ExtendedValue_V3 t)) (members_of (TElectricityMeter_ExtendedValue_V2 t)) (emev_members @ balanced_members)"
  by (simp_all add: agree_def emev_members_def balanced_members_def meter_defs member_Struct)

lemma meters_measured:
  "typeof (Struct (members_of (TElectricityMeter_ExtendedValue t))) [''measured_values''] = I32"
  "typeof (Struct (members_of (TElectricityMeter_ExtendedValue_V2 t))) [''measured_values''] = I32"
  "typeof (Struct (members_of (TElectricityMeter_ExtendedValue_V3 t))) [''measured_values''] = I32"
  by (simp_all add: meter_defs member_Struct)

lemma meters_members:
  "fst ` set (members_of (TElectricityMeter_ExtendedValue t)) = set (emev_members @ [])"
  "fst ` set (members_of (TElectricityMeter_ExtendedValue_V2 t)) = set (emev_members @ balanced_members)"
  "distinct (map fst (members_of (TElectricityMeter_ExtendedValue t)))"
  "distinct (map fst (members_of (TElectricityMeter_ExtendedValue_V2 t)))"
  by (auto simp: emev_members_def balanced_members_def meter_defs)

lemma v1_v2_v1:
  assumes "length s = sizeof (TElectricityMeter_ExtendedValue t)"
  shows "convert (TElectricityMeter_ExtendedValue_V2 t) (TElectricityMeter_ExtendedValue t) [] balanced_bits
      (convert (TElectricityMeter_ExtendedValue t) (TElectricityMeter_ExtendedValue_V2 t) [] balanced_bits s) =
    fold (clear_measured (TElectricityMeter_ExtendedValue t)) balanced_bits s"
  using convert_back [where s = s and bits = balanced_bits, OF meters_agree(1,2) meters_measured(2,1) meters_members(1,3)] assms
  unfolding meter_structs [symmetric] by simp

lemma v2_v3_v2:
  assumes "length s = sizeof (TElectricityMeter_ExtendedValue_V2 t)"
  shows "convert (TElectricityMeter_ExtendedValue_V3 t) (TElectricityMeter_ExtendedValue_V2 t) balanced_members phase_bits
      (convert (TElectricityMeter_ExtendedValue_V2 t) (TElectricityMeter_ExtendedValue_V3 t) balanced_members phase_bits s) =
    fold (clear_measured (TElectricityMeter_ExtendedValue_V2 t)) phase_bits s"
  using convert_back [where s = s and bits = phase_bits, OF meters_agree(3,4) meters_measured(3,2) meters_members(2,4)] assms
  unfolding meter_structs [symmetric] by simp

section \<open>Properties of the meter tools\<close>

text \<open>C24. Meter values survive the extended value.  For each of the three versions: a structure with a valid number of
  measurements is encoded, with success, into an extended value whose size counts exactly the header and these
  measurements, and decoding it returns the header and the measurements, with zeros for the rest; a
  structure with an invalid number of measurements is refused and the target is left alone.\<close>

theorem srpc_evtool_meter_round_trip:
  assumes "(T, enc, dec) \<in> {
      (TElectricityMeter_ExtendedValue t, srpc_evtool_v1_emextended2extended t, srpc_evtool_v1_extended2emextended t),
      (TElectricityMeter_ExtendedValue_V2 t, srpc_evtool_v2_emextended2extended t, srpc_evtool_v2_extended2emextended t),
      (TElectricityMeter_ExtendedValue_V3 t, srpc_evtool_v3_emextended2extended t, srpc_evtool_v3_extended2emextended t)}"
    and "length em = sizeof T"
  defines "m \<equiv> sfield T [''m_count''] em"
  shows "if 0 \<le> m \<and> m \<le> int (EM_MEASUREMENT_COUNT t)
    then \<exists>v k. enc (Some em) (Some ev) = (Some v, 1) \<and> length v = sizeof (TSuplaChannelExtendedValue t) \<and>
      k = offsetof T [''m''] + sizeof TElectricityMeter_Measurement * nat m \<and> unat (ev_size t v) = k \<and>
      dec (Some v) (Some buf) = (Some (take k em @ replicate (sizeof T - k) 0), 1)
    else enc (Some em) (Some ev) = (Some ev, 0)"
proof -
  obtain ty where ty: "(T, ty) \<in> set (meters t)" and enc: "enc = RETURN_EMEXTENDED2EXTENDED t T ty"
      "dec = (\<lambda>ev. RETURN_EXTENDED2EMEXTENDED t ev T ty)"
    using assms(1)
    by (auto simp: meters_def fun_eq_iff srpc_evtool_v1_emextended2extended_def srpc_evtool_v1_extended2emextended_def
        srpc_evtool_v2_emextended2extended_def srpc_evtool_v2_extended2emextended_def
        srpc_evtool_v3_emextended2extended_def srpc_evtool_v3_extended2emextended_def)
  have off: "offsetof T [''m''] = offsetof T [''m_count''] + 4"
    using ty by (auto simp: meters_def meter_defs member_Struct)
  show ?thesis
  proof (cases "0 \<le> m \<and> m \<le> int (EM_MEASUREMENT_COUNT t)")
    case True
    define k where "k = meter_bytes t T em"
    have k: "k \<le> SUPLA_CHANNELEXTENDEDVALUE_SIZE t" "k \<le> sizeof T" "k < 2 ^ 32"
      using meter_bytes_bound [OF ty, of em] True meter_layout(3) [OF ty] SUPLA_CHANNELEXTENDEDVALUE_SIZE_bound [of t]
      by (simp_all add: k_def m_def)
    let ?v = "ev_make ty k (overlay 0 (take k em) (replicate (SUPLA_CHANNELEXTENDEDVALUE_SIZE t) 0))"
    have "dec (Some ?v) (Some buf) = (Some (take k em @ replicate (sizeof T - k) 0), 1)"
      unfolding enc using True k assms(2)
      by (intro EXTENDED2EMEXTENDED_eq [OF ty]) (simp_all add: m_def k_def overlay_0)
    moreover have "enc (Some em) (Some ev) = (Some ?v, 1)"
      unfolding enc k_def using True by (intro EMEXTENDED2EXTENDED_eq [OF ty assms(2)]) (simp_all add: m_def)
    moreover have "k = offsetof T [''m''] + sizeof TElectricityMeter_Measurement * nat m"
      by (simp add: k_def meter_bytes_def off sizeof_EM_M m_def)
    moreover have "length ?v = sizeof (TSuplaChannelExtendedValue t)"
      using k(1,2) assms(2) by (simp add: EV_size overlay_0)
    ultimately show ?thesis using True k(3) by (auto simp: unat_of_nat)
  next
    case False
    then show ?thesis unfolding enc m_def RETURN_EMEXTENDED2EXTENDED_def by auto
  qed
qed

lemma field_zeros [simp]: "field T p (replicate n 0) = 0" "sfield T p (replicate n 0) = 0"
proof -
  have "le_nat (replicate k 0) = 0" for k by (induction k) simp_all
  then show "field T p (replicate n 0) = 0" by (simp add: field_def seg_def)
  then show "sfield T p (replicate n 0) = 0" by (simp add: sfield_def)
qed

theorem srpc_evtool_meter_round_trip_witness:
  "\<exists>v k. srpc_evtool_v3_emextended2extended OTHER (Some (replicate (sizeof (TElectricityMeter_ExtendedValue_V3 OTHER)) 0))
      (Some []) = (Some v, 1) \<and>
    srpc_evtool_v3_extended2emextended OTHER (Some v) (Some []) = (Some (take k (replicate (sizeof (TElectricityMeter_ExtendedValue_V3 OTHER)) 0) @
      replicate (sizeof (TElectricityMeter_ExtendedValue_V3 OTHER) - k) 0), 1)"
  using srpc_evtool_meter_round_trip [of "TElectricityMeter_ExtendedValue_V3 OTHER" "srpc_evtool_v3_emextended2extended OTHER"
      "srpc_evtool_v3_extended2emextended OTHER" OTHER "replicate (sizeof (TElectricityMeter_ExtendedValue_V3 OTHER)) 0" "[]" "[]"]
  by auto

text \<open>C25. Reading a meter value in the latest format.  On builds that know the older format, an extended value that
  holds a structure of version 2 is returned as a structure of version 3: converting that back to version 2 gives
  the transmitted structure, without the four bits for phase measurements, which version 2 does not have.\<close>

theorem srpc_evtool_latest_v2:
  assumes "length em = sizeof (TElectricityMeter_ExtendedValue_V2 t)" "0 \<le> sfield (TElectricityMeter_ExtendedValue_V2 t) [''m_count''] em"
    and "sfield (TElectricityMeter_ExtendedValue_V2 t) [''m_count''] em \<le> int (EM_MEASUREMENT_COUNT t)"
  shows "\<exists>v k d. srpc_evtool_v2_emextended2extended t (Some em) (Some ev) = (Some v, 1) \<and>
    srpc_evtool_extended2emextended_latest t True use_v1 (Some v) (Some buf) = Some (Some d, 1) \<and>
    srpc_evtool_emev_v3to2 t (Some d) (Some buf2) = (Some (fold (clear_measured (TElectricityMeter_ExtendedValue_V2 t)) phase_bits
      (take k em @ replicate (sizeof (TElectricityMeter_ExtendedValue_V2 t) - k) 0)), 1) \<and>
    k = offsetof (TElectricityMeter_ExtendedValue_V2 t) [''m''] + sizeof TElectricityMeter_Measurement *
      nat (sfield (TElectricityMeter_ExtendedValue_V2 t) [''m_count''] em)"
proof -
  let ?T = "TElectricityMeter_ExtendedValue_V2 t"
  have ty: "(?T, EV_TYPE_ELECTRICITY_METER_MEASUREMENT_V2) \<in> set (meters t)" by (simp add: meters_def)
  define k where "k = meter_bytes t ?T em"
  define v where "v = ev_make EV_TYPE_ELECTRICITY_METER_MEASUREMENT_V2 k (overlay 0 (take k em)
      (replicate (SUPLA_CHANNELEXTENDEDVALUE_SIZE t) 0))"
  define x where "x = take k em @ replicate (sizeof ?T - k) 0"
  have k: "k \<le> sizeof ?T" "k \<le> SUPLA_CHANNELEXTENDEDVALUE_SIZE t"
    using meter_bytes_bound [OF ty assms(2,3)] meter_layout(3) [OF ty] by (simp_all add: k_def)
  have enc: "srpc_evtool_v2_emextended2extended t (Some em) (Some ev) = (Some v, 1)"
    using EMEXTENDED2EXTENDED_eq [OF ty assms] by (simp add: srpc_evtool_v2_emextended2extended_def v_def k_def)
  have dec: "srpc_evtool_v2_extended2emextended t (Some v) (Some b) = (Some x, 1)" for b
    using EXTENDED2EMEXTENDED_eq [OF ty assms k_def, of "overlay 0 (take k em) (replicate (SUPLA_CHANNELEXTENDEDVALUE_SIZE t) 0)" b]
      k assms(1) by (simp add: srpc_evtool_v2_extended2emextended_def v_def x_def overlay_0)
  have v3: "srpc_evtool_v3_extended2emextended t (Some v) (Some buf) = (Some buf, 0)"
    by (simp add: srpc_evtool_v3_extended2emextended_def RETURN_EXTENDED2EMEXTENDED_def v_def const_defs Let_def)
  have ty2: "ev_type t v = EV_TYPE_ELECTRICITY_METER_MEASUREMENT_V2" by (simp add: v_def const_defs)
  define d where "d = convert ?T (TElectricityMeter_ExtendedValue_V3 t) balanced_members phase_bits x"
  have "srpc_evtool_extended2emextended_latest t True use_v1 (Some v) (Some buf) = Some (Some d, 1)"
    by (simp add: srpc_evtool_extended2emextended_latest_def v3 dec ty2 emev_conversions d_def)
  moreover have "srpc_evtool_emev_v3to2 t (Some d) (Some buf2) = (Some (fold (clear_measured ?T) phase_bits x), 1)"
    using v2_v3_v2 [of x t] k(1) assms(1) by (simp add: emev_conversions d_def x_def)
  moreover have "k = offsetof ?T [''m''] + sizeof TElectricityMeter_Measurement * nat (sfield ?T [''m_count''] em)"
    by (simp add: k_def meter_bytes_def sizeof_EM_M TElectricityMeter_ExtendedValue_V2_def member_Struct)
  ultimately show ?thesis using enc unfolding x_def by blast
qed

theorem srpc_evtool_latest_v2_witness:
  "\<exists>v d. srpc_evtool_v2_emextended2extended DEVICE (Some (replicate (sizeof (TElectricityMeter_ExtendedValue_V2 DEVICE)) 0)) (Some []) =
      (Some v, 1) \<and> srpc_evtool_extended2emextended_latest DEVICE True False (Some v) (Some []) = Some (Some d, 1)"
  using srpc_evtool_latest_v2 [of "replicate (sizeof (TElectricityMeter_ExtendedValue_V2 DEVICE)) 0" DEVICE "[]" False "[]" "[]"]
  by auto

section \<open>The multi-value container\<close>

text \<open>Adding values one after another, as long as each addition succeeds.\<close>

fun add_all :: "('v \<Rightarrow> 'v \<Rightarrow> ('v option \<times> int) option) \<Rightarrow> 'v \<Rightarrow> 'v list \<Rightarrow> 'v option" where
  "add_all add d [] = Some d"
| "add_all add d (s # ss) =
     (case add d s of Some (Some d', r) \<Rightarrow> if r = 1 then add_all add d' ss else None | _ \<Rightarrow> None)"

text \<open>What a container promises: a sequence of values, \<open>add\<close> at the end while there is room,
  \<open>get\<close> by position.\<close>

locale sequence_store =
  fixes represents :: "'v \<Rightarrow> 'x list \<Rightarrow> bool"
    and add :: "'v \<Rightarrow> 'v \<Rightarrow> ('v option \<times> int) option"
    and get :: "'v \<Rightarrow> nat \<Rightarrow> 'v \<Rightarrow> ('v option \<times> int) option"
    and fits :: "'x list \<Rightarrow> bool" and max_index :: nat
  assumes fits_prefix: "fits (xs @ ys) \<Longrightarrow> fits xs"
    and add_ok: "represents d xs \<Longrightarrow> represents s [x] \<Longrightarrow> fits (xs @ [x]) \<Longrightarrow>
      \<exists>d'. add d s = Some (Some d', 1) \<and> represents d' (xs @ [x])"
    and add_full: "represents d xs \<Longrightarrow> represents s [x] \<Longrightarrow> \<not> fits (xs @ [x]) \<Longrightarrow> add d s = Some (Some d, 0)"
    and get_ok: "represents v xs \<Longrightarrow> represents b bs \<Longrightarrow> i < length xs \<Longrightarrow> i \<le> max_index \<Longrightarrow>
      \<exists>d. get v i b = Some (Some d, 1) \<and> represents d [xs ! i]"
    and get_none: "represents v xs \<Longrightarrow> represents b bs \<Longrightarrow> length xs \<le> i \<Longrightarrow> i \<le> max_index \<Longrightarrow> get v i b = Some (Some b, 0)"
begin

lemma add_all_represents:
  assumes "represents d xs" "list_all2 (\<lambda>s y. represents s [y]) ss ys" "fits (xs @ ys)"
  shows "\<exists>d'. add_all add d ss = Some d' \<and> represents d' (xs @ ys)"
  using assms
proof (induction ss arbitrary: d xs ys)
  case Nil
  then show ?case by simp
next
  case (Cons s ss)
  obtain y zs where ys: "ys = y # zs" "represents s [y]" "list_all2 (\<lambda>s y. represents s [y]) ss zs"
    using Cons.prems(2) by (auto simp: list_all2_Cons1)
  have "fits ((xs @ [y]) @ zs)" using Cons.prems(3) ys(1) by simp
  moreover from this obtain d' where "add d s = Some (Some d', 1)" "represents d' (xs @ [y])"
    using add_ok [OF Cons.prems(1) ys(2)] fits_prefix by blast
  ultimately show ?case using Cons.IH [of d' "xs @ [y]" zs] ys(1,3) by simp
qed

lemma add_all_get:
  assumes "represents d []" "list_all2 (\<lambda>s y. represents s [y]) ss ys" "fits ys" "represents b bs"
    and "i < length ys" "i \<le> max_index"
  shows "\<exists>d' r. add_all add d ss = Some d' \<and> get d' i b = Some (Some r, 1) \<and> represents r [ys ! i]"
  using add_all_represents [OF assms(1,2)] get_ok assms(3-6) by fastforce

end

text \<open>A value is its type and its payload; in a container it is stored with its header.\<close>

type_synonym ev_item = "nat \<times> bytes"

definition item_bytes :: "ev_item \<Rightarrow> bytes" where
  "item_bytes x = ev_make (fst x) (length (snd x)) (snd x)"

definition ev_total :: "ev_item list \<Rightarrow> nat" where
  "ev_total xs = length (concat (map item_bytes xs))"

definition item_ok :: "target \<Rightarrow> ev_item \<Rightarrow> bool" where
  "item_ok t x \<longleftrightarrow> 0 < fst x \<and> fst x < 256 \<and> fst x \<noteq> EV_TYPE_MULTI_VALUE \<and> snd x \<noteq> [] \<and>
     length (snd x) \<le> SUPLA_CHANNELEXTENDEDVALUE_SIZE t"

definition ev_fits :: "target \<Rightarrow> ev_item list \<Rightarrow> bool" where
  "ev_fits t xs \<longleftrightarrow> length xs \<le> 1 \<or> ev_total xs \<le> SUPLA_CHANNELEXTENDEDVALUE_SIZE t"

definition ev_represents :: "target \<Rightarrow> bytes \<Rightarrow> ev_item list \<Rightarrow> bool" where
  "ev_represents t v xs \<longleftrightarrow> length v = sizeof (TSuplaChannelExtendedValue t) \<and> list_all (item_ok t) xs \<and> ev_fits t xs \<and>
     (case xs of
        [] \<Rightarrow> ev_type t v = EV_TYPE_NONE
      | [x] \<Rightarrow> \<exists>rest. v = item_bytes x @ rest
      | _ \<Rightarrow> \<exists>rest. v = ev_make EV_TYPE_MULTI_VALUE (ev_total xs) (concat (map item_bytes xs) @ rest))"

lemma ev_total_simps [simp]:
  "ev_total [] = 0" "ev_total (x # xs) = 5 + length (snd x) + ev_total xs" "ev_total (xs @ ys) = ev_total xs + ev_total ys"
  by (simp_all add: ev_total_def item_bytes_def)

lemma length_item_bytes [simp]: "length (item_bytes x) = 5 + length (snd x)"
  by (simp add: item_bytes_def)

lemma ev_make_append: "ev_make ty sz val @ rest = ev_make ty sz (val @ rest)"
  by (simp add: ev_make_def)

lemma item_fields:
  assumes "item_ok t x"
  shows "ev_type t (item_bytes x @ rest) = fst x"
    "field (TSuplaChannelExtendedValue t) [''size''] (item_bytes x @ rest) = length (snd x)"
    "0 < length (snd x)" "length (snd x) \<le> 1024"
  using assms SUPLA_CHANNELEXTENDEDVALUE_SIZE_bound [of t]
  by (auto simp: item_ok_def item_bytes_def ev_make_append)

lemma unat_of_nat_small: "a < 2 ^ 31 \<Longrightarrow> unat (of_nat a :: u32) = a"
  by (simp add: unat_of_nat)

lemma of_nat_small:
  assumes "a < 2 ^ 31" "b < 2 ^ 31"
  shows "(of_nat a :: u32) < of_nat b \<longleftrightarrow> a < b" "b \<le> a \<Longrightarrow> (of_nat a :: u32) - of_nat b = of_nat (a - b)"
    "(of_nat a :: u32) = of_nat b \<longleftrightarrow> a = b"
  using assms
  by (simp_all add: word_less_nat_alt unat_of_nat of_nat_diff word_of_nat_eq_iff take_bit_nat_eq_self)

text \<open>One step of the search, at the beginning of a stored value.\<close>

lemma value_get_loop_step:
  assumes v: "v = ev_make ty sz (concat (map item_bytes ys) @ item_bytes z @ rest)"
    and z: "item_ok t z" and tot: "ev_total ys + 5 + length (snd z) \<le> SUPLA_CHANNELEXTENDEDVALUE_SIZE t"
    and dst: "length dst = sizeof (TSuplaChannelExtendedValue t)" and lt: "of_nat (ev_total ys) < sz'"
  shows "value_get_loop t v index dst sz' (of_nat (ev_total ys)) n =
    (if n = index then Returns (overlay 0 (item_bytes z) dst) 1
     else value_get_loop t v index dst sz' (of_nat (ev_total (ys @ [z]))) (n + 1))"
proof -
  note I = item_fields(1,2) [OF z, of rest] item_fields(3,4) [OF z]
  have b: "SUPLA_CHANNELEXTENDEDVALUE_SIZE t \<le> 1024" by (rule SUPLA_CHANNELEXTENDEDVALUE_SIZE_bound)
  have ly: "length (concat (map item_bytes ys)) = ev_total ys" by (simp add: ev_total_def)
  have u: "unat (of_nat (ev_total ys) :: u32) = ev_total ys" using tot b by (simp add: unat_of_nat_small)
  have d: "drop (5 + ev_total ys) v = item_bytes z @ rest"
    unfolding v drop_drop [symmetric] add.commute [of 5] using ly by simp
  have lv: "length v = 5 + ev_total ys + (5 + length (snd z)) + length rest"
    unfolding v using ly by simp
  have hs: "ev_header_size + (of_nat (length (snd z)) :: u32) = of_nat (5 + length (snd z))" by simp
  have s1: "of_nat (length (snd z)) + of_nat (ev_total ys) + ev_header_size = (of_nat (ev_total ys + 5 + length (snd z)) :: u32)"
    by simp
  have s2: "of_nat (ev_total ys) + of_nat (5 + length (snd z)) = (of_nat (ev_total (ys @ [z])) :: u32)" by simp
  have c: "\<not> (of_nat (SUPLA_CHANNELEXTENDEDVALUE_SIZE t) :: u32) < of_nat (ev_total ys + 5 + length (snd z))"
    using tot b by (subst of_nat_small(1)) simp_all
  have nz: "(of_nat (length (snd z)) :: u32) \<noteq> 0"
    using I(3,4) of_nat_small(3) [of "length (snd z)" 0] by simp
  have uh: "unat (of_nat (5 + length (snd z)) :: u32) = 5 + length (snd z)"
    using I(4) by (intro unat_of_nat_small) simp
  have m: "memcpy_at 0 (5 + ev_total ys) (5 + length (snd z)) v dst = Some (overlay 0 (item_bytes z) dst)"
    using lv tot dst d by (simp add: memcpy_at_def seg_def EV_size)
  have ty: "fst z \<noteq> EV_TYPE_NONE" using z by (simp add: item_ok_def const_defs)
  show ?thesis
    apply (subst value_get_loop.simps)
    apply (simp only: lt if_True u d Let_def I(1,2) hs s1 s2 uh m option.case)
    using lv ty nz c by (simp del: of_nat_add of_nat_Suc)
qed

lemma value_get_loop_finds:
  assumes "v = ev_make ty sz (concat (map item_bytes (ys @ zs)) @ rest)" "list_all (item_ok t) (ys @ zs)"
    and "ev_total (ys @ zs) \<le> SUPLA_CHANNELEXTENDEDVALUE_SIZE t" "length dst = sizeof (TSuplaChannelExtendedValue t)"
    and "length ys \<le> unat index" "0 < ev_total (ys @ zs)"
  shows "value_get_loop t v index dst (of_nat (ev_total (ys @ zs)) - 5) (of_nat (ev_total ys)) (of_nat (length ys)) =
    (if unat index < length (ys @ zs) then Returns (overlay 0 (item_bytes ((ys @ zs) ! unat index)) dst) 1 else Loop_Exit)"
  using assms
proof (induction zs arbitrary: ys)
  case Nil
  have "0 < ev_total ys" "ev_total ys \<le> 1024" "5 \<le> ev_total ys"
    using Nil SUPLA_CHANNELEXTENDEDVALUE_SIZE_bound [of t] by (cases ys; simp)+
  then have "\<not> of_nat (ev_total ys) < (of_nat (ev_total ys) - 5 :: u32)"
    using of_nat_small(2) [of "ev_total ys" 5] of_nat_small(1) [of "ev_total ys" "ev_total ys - 5"] by simp
  then show ?case using Nil by (subst value_get_loop.simps) simp
next
  case (Cons z zs)
  let ?sz = "of_nat (ev_total (ys @ z # zs)) - 5 :: u32"
  have z: "item_ok t z" using Cons.prems(2) by simp
  have tot: "ev_total ys + 5 + length (snd z) \<le> SUPLA_CHANNELEXTENDEDVALUE_SIZE t" "ev_total (ys @ z # zs) \<le> 1024"
    using Cons.prems(3) SUPLA_CHANNELEXTENDEDVALUE_SIZE_bound [of t] by simp_all
  have "?sz = of_nat (ev_total (ys @ z # zs) - 5)"
    using of_nat_small(2) [of "ev_total (ys @ z # zs)" 5] tot(2) by simp
  moreover have "ev_total ys < ev_total (ys @ z # zs) - 5" using item_fields(3) [OF z] by simp
  ultimately have lt: "of_nat (ev_total ys) < ?sz"
    using of_nat_small(1) [of "ev_total ys" "ev_total (ys @ z # zs) - 5"] tot(2) by simp
  have v: "v = ev_make ty sz (concat (map item_bytes ys) @ item_bytes z @ concat (map item_bytes zs) @ rest)"
    using Cons.prems(1) by simp
  note step = value_get_loop_step [OF v z tot(1) Cons.prems(4) lt, of index "of_nat (length ys)"]
  show ?case
  proof (cases "of_nat (length ys) = index")
    case True
    have "length ys < 2 ^ 16" using Cons.prems(5) unat_u16_bound [of index] by simp
    then have "unat index = length ys" using True by (simp add: unat_of_nat flip: True)
    then show ?thesis using step True by (simp add: nth_append)
  next
    case False
    have "length ys \<noteq> unat index" using False by auto
    then have "length (ys @ [z]) \<le> unat index" using Cons.prems(5) by simp
    note IH = Cons.IH [of "ys @ [z]", OF _ _ _ Cons.prems(4) this]
    show ?thesis using step False IH Cons.prems(1,2,3,6) by (simp add: add.commute)
  qed
qed

lemma ev_header_add: "ev_header_size + (of_nat n :: u32) = of_nat (5 + n)"
  by simp

lemma overlay_at_end: "length y = length x \<Longrightarrow> overlay (length xs) x (xs @ y @ r) = xs @ x @ r"
  by (simp add: overlay_def)

lemma value_add_multi:
  assumes d: "d = ev_make EV_TYPE_MULTI_VALUE (ev_total xs) (concat (map item_bytes xs) @ rest)"
    "length d = sizeof (TSuplaChannelExtendedValue t)"
    and s: "s = item_bytes x @ r" "length s = sizeof (TSuplaChannelExtendedValue t)" "item_ok t x"
    and tot: "ev_total xs \<le> SUPLA_CHANNELEXTENDEDVALUE_SIZE t"
  shows "srpc_evtool_value_add t (Some d) (Some s) =
    (if ev_total (xs @ [x]) \<le> SUPLA_CHANNELEXTENDEDVALUE_SIZE t
     then Some (Some (ev_make EV_TYPE_MULTI_VALUE (ev_total (xs @ [x]))
       (concat (map item_bytes (xs @ [x])) @ drop (5 + length (snd x)) rest)), 1)
     else Some (Some d, 0))"
proof -
  note I = item_fields(1,2) [OF s(3), of r, folded s(1)] item_fields(3,4) [OF s(3)]
  let ?N = "SUPLA_CHANNELEXTENDEDVALUE_SIZE t"
  have b: "?N \<le> 1024" by (rule SUPLA_CHANNELEXTENDEDVALUE_SIZE_bound)
  have td: "ev_type t d = EV_TYPE_MULTI_VALUE" "field (TSuplaChannelExtendedValue t) [''size''] d = ev_total xs"
    using tot b by (simp_all add: d(1) const_defs)
  have nz: "(of_nat (length (snd x)) :: u32) \<noteq> 0"
    using I(3,4) of_nat_small(3) [of "length (snd x)" 0] by simp
  have ty: "fst x \<noteq> EV_TYPE_NONE" "EV_TYPE_MULTI_VALUE \<noteq> EV_TYPE_NONE" using s(3) by (simp_all add: item_ok_def const_defs)
  have sm: "of_nat (ev_total xs) + (of_nat (5 + length (snd x)) :: u32) = of_nat (ev_total (xs @ [x]))" by simp
  have lt: "(of_nat ?N :: u32) < of_nat (ev_total (xs @ [x])) \<longleftrightarrow> ?N < ev_total (xs @ [x])"
    using tot b I(4) by (intro of_nat_small(1)) simp_all
  have u: "unat (of_nat (ev_total xs) :: u32) = ev_total xs" "unat (of_nat (5 + length (snd x)) :: u32) = 5 + length (snd x)"
    "unat (of_nat (ev_total (xs @ [x])) :: u32) = ev_total (xs @ [x])"
    using tot b I(4) by (intro unat_of_nat_small; simp)+
  have ly: "length (concat (map item_bytes xs)) = ev_total xs" by (simp add: ev_total_def)
  have ov: "overlay (ev_total xs) (item_bytes x) (concat (map item_bytes xs) @ rest) =
      concat (map item_bytes xs) @ item_bytes x @ drop (5 + length (snd x)) rest"
    by (simp add: overlay_def flip: ly)
  have "memcpy_at (5 + ev_total xs) 0 (5 + length (snd x)) s d =
      Some (ev_make EV_TYPE_MULTI_VALUE (ev_total xs) (concat (map item_bytes xs) @ item_bytes x @ drop (5 + length (snd x)) rest))"
    if "ev_total (xs @ [x]) \<le> ?N"
    using that d(2) s(1,2) ov by (simp add: memcpy_at_def d(1) EV_size seg_def)
  then show ?thesis
    apply (subst srpc_evtool_value_add.simps)
    apply (simp only: prod.case option.case I(1,2) td ty nz if_False de_Morgan_disj simp_thms Let_def ev_header_add sm lt u)
    by (simp del: of_nat_add of_nat_Suc add: not_le)
qed

lemma value_add_single:
  assumes d: "d = item_bytes y @ rest" "length d = sizeof (TSuplaChannelExtendedValue t)" "item_ok t y"
    and s: "s = item_bytes x @ r" "length s = sizeof (TSuplaChannelExtendedValue t)" "item_ok t x"
  shows "if ev_total [y, x] \<le> SUPLA_CHANNELEXTENDEDVALUE_SIZE t
    then \<exists>rest'. srpc_evtool_value_add t (Some d) (Some s) =
      Some (Some (ev_make EV_TYPE_MULTI_VALUE (ev_total [y, x]) (concat (map item_bytes [y, x]) @ rest')), 1) \<and>
      length rest' = SUPLA_CHANNELEXTENDEDVALUE_SIZE t - ev_total [y, x]
    else srpc_evtool_value_add t (Some d) (Some s) = Some (Some d, 0)"
proof -
  let ?N = "SUPLA_CHANNELEXTENDEDVALUE_SIZE t"
  let ?k = "5 + length (snd y)"
  note I = item_fields(1,2) [OF s(3), of r, folded s(1)] item_fields(3,4) [OF s(3)]
  note J = item_fields(1,2) [OF d(3), of rest, folded d(1)] item_fields(3,4) [OF d(3)]
  have b: "?N \<le> 1024" by (rule SUPLA_CHANNELEXTENDEDVALUE_SIZE_bound)
  have nz: "(of_nat (length (snd x)) :: u32) \<noteq> 0"
    using I(3,4) of_nat_small(3) [of "length (snd x)" 0] by simp
  have ty: "fst x \<noteq> EV_TYPE_NONE" "fst y \<noteq> EV_TYPE_NONE" "fst y \<noteq> EV_TYPE_MULTI_VALUE"
    using s(3) d(3) by (simp_all add: item_ok_def const_defs)
  have lt: "(of_nat ?N :: u32) < of_nat ?k + of_nat (5 + length (snd x)) \<longleftrightarrow> ?N < ev_total [y, x]"
    using I(4) J(4) b of_nat_small(1) [of ?N "?k + (5 + length (snd x))"] by simp
  have u: "unat (of_nat ?k :: u32) = ?k" using J(4) by (intro unat_of_nat_small) simp
  have prev: "memcpy_at 0 0 (sizeof (TSuplaChannelExtendedValue t)) d (replicate (sizeof (TSuplaChannelExtendedValue t)) 0) = Some d"
    using d(2) by (simp add: memcpy_at_def overlay_0 seg_0)
  define d' where "d' = ev_make EV_TYPE_MULTI_VALUE (ev_total [y]) (concat (map item_bytes [y]) @ drop ?k (snd y @ rest))"
  have se: "set_ev t EV_TYPE_MULTI_VALUE (of_nat ?k) d = ev_make EV_TYPE_MULTI_VALUE ?k (snd y @ rest)"
    unfolding set_ev_def u d(1) item_bytes_def ev_make_append set_field_ev_make ..
  have ld: "length d = ?k + length rest" using d(1) by simp
  have m: "memcpy_at 5 0 ?k d (set_ev t EV_TYPE_MULTI_VALUE (of_nat ?k) d) = Some d'"
    if "ev_total [y, x] \<le> ?N"
    unfolding se using ld d(2) that by (simp add: memcpy_at_def EV_size d'_def overlay_0 d(1) seg_0)
  have ld': "length d' = sizeof (TSuplaChannelExtendedValue t)" if "ev_total [y, x] \<le> ?N"
    using ld d(2) that by (simp add: d'_def EV_size)
  have e: "srpc_evtool_value_add t (Some d) (Some s) =
      (if ev_total [y, x] \<le> ?N then srpc_evtool_value_add t (Some d') (Some s) else Some (Some d, 0))"
  proof (cases "ev_total [y, x] \<le> ?N")
    case True
    then have "\<not> ?N < ev_total [y, x]" by simp
    with True show ?thesis
      by (subst srpc_evtool_value_add.simps)
        (simp only: prod.case option.case I(1,2) J(1,2) ty nz lt if_False if_True de_Morgan_disj simp_thms Let_def
          ev_header_add u prev m [OF True])
  next
    case False
    then have "?N < ev_total [y, x]" by simp
    with False show ?thesis
      by (subst srpc_evtool_value_add.simps)
        (simp only: prod.case option.case I(1,2) J(1,2) ty nz lt if_False if_True de_Morgan_disj simp_thms Let_def
          ev_header_add)
  qed
  have "length (drop (5 + length (snd x)) (drop ?k (snd y @ rest))) = ?N - ev_total [y, x]"
    using ld d(2) by (simp add: EV_size)
  then show ?thesis
    unfolding e using value_add_multi [OF d'_def ld' s] by auto
qed

text \<open>The two operations implement a sequence of values.\<close>

lemma ev_represents_length: "ev_represents t v xs \<Longrightarrow> length v = sizeof (TSuplaChannelExtendedValue t)"
  by (simp add: ev_represents_def)

lemma ev_represents_single:
  "ev_represents t v [x] \<longleftrightarrow> length v = sizeof (TSuplaChannelExtendedValue t) \<and> item_ok t x \<and> (\<exists>r. v = item_bytes x @ r)"
  by (auto simp: ev_represents_def ev_fits_def)

lemma ev_represents_multi:
  "2 \<le> length xs \<Longrightarrow> ev_represents t v xs \<longleftrightarrow> length v = sizeof (TSuplaChannelExtendedValue t) \<and>
     list_all (item_ok t) xs \<and> ev_total xs \<le> SUPLA_CHANNELEXTENDEDVALUE_SIZE t \<and>
     (\<exists>r. v = ev_make EV_TYPE_MULTI_VALUE (ev_total xs) (concat (map item_bytes xs) @ r))"
  by (cases xs; cases "tl xs") (auto simp: ev_represents_def ev_fits_def)

lemma value_add_refines:
  assumes "ev_represents t d xs" and s: "ev_represents t s [x]"
  shows "if ev_fits t (xs @ [x])
    then \<exists>d'. srpc_evtool_value_add t (Some d) (Some s) = Some (Some d', 1) \<and> ev_represents t d' (xs @ [x])
    else srpc_evtool_value_add t (Some d) (Some s) = Some (Some d, 0)"
proof -
  obtain r where s': "s = item_bytes x @ r" "length s = sizeof (TSuplaChannelExtendedValue t)" "item_ok t x"
    using s by (auto simp: ev_represents_single)
  have len: "length d = sizeof (TSuplaChannelExtendedValue t)" by (rule ev_represents_length [OF assms(1)])
  consider "xs = []" | y where "xs = [y]" | "2 \<le> length xs"
    by (cases xs; cases "tl xs") auto
  then show ?thesis
  proof cases
    case 1
    note I = item_fields(1,2) [OF s'(3), of r, folded s'(1)] item_fields(3,4) [OF s'(3)]
    have "ev_type t d = EV_TYPE_NONE"
      using assms(1) 1 by (simp add: ev_represents_def)
    moreover have "(of_nat (length (snd x)) :: u32) \<noteq> 0" "fst x \<noteq> EV_TYPE_NONE"
      using I(3,4) of_nat_small(3) [of "length (snd x)" 0] s'(3) by (simp_all add: item_ok_def const_defs)
    moreover have "memcpy_at 0 0 (sizeof (TSuplaChannelExtendedValue t)) s d = Some s"
      using s'(2) len by (simp add: memcpy_at_def overlay_0 seg_0)
    ultimately have "srpc_evtool_value_add t (Some d) (Some s) = Some (Some s, 1)"
      by (subst srpc_evtool_value_add.simps) (simp add: I(1,2))
    then show ?thesis using 1 s by (simp add: ev_fits_def)
  next
    case 2
    then obtain rest where d: "d = item_bytes y @ rest" "item_ok t y" using assms(1) by (auto simp: ev_represents_single)
    show ?thesis
      using value_add_single [OF d(1) len d(2) s'] 2 d(2) s'(3) len
      by (auto simp: ev_fits_def ev_represents_multi EV_size split: if_splits)
  next
    case 3
    then obtain rest where d: "d = ev_make EV_TYPE_MULTI_VALUE (ev_total xs) (concat (map item_bytes xs) @ rest)"
        "list_all (item_ok t) xs" "ev_total xs \<le> SUPLA_CHANNELEXTENDEDVALUE_SIZE t"
      using assms(1) by (auto simp: ev_represents_multi)
    show ?thesis
      using value_add_multi [OF d(1) len s' d(3)] 3 d(2) s'(3) len
      by (auto simp: ev_fits_def ev_represents_multi EV_size d(1) ev_total_def [symmetric] split: if_splits)
  qed
qed

lemma ev_represents_item:
  assumes "item_ok t x" "length b = sizeof (TSuplaChannelExtendedValue t)"
  shows "ev_represents t (overlay 0 (item_bytes x) b) [x]"
  using assms by (auto simp: ev_represents_single overlay_0 EV_size item_ok_def)

lemma value_get_refines:
  assumes v: "ev_represents t v xs" and b: "length b = sizeof (TSuplaChannelExtendedValue t)"
  shows "if unat index < length xs
    then \<exists>d. srpc_evtool_value_get t (Some v) index (Some b) = Some (Some d, 1) \<and> ev_represents t d [xs ! unat index]
    else srpc_evtool_value_get t (Some v) index (Some b) = Some (Some b, 0)"
proof -
  have len: "length v = sizeof (TSuplaChannelExtendedValue t)" by (rule ev_represents_length [OF v])
  have i0: "index = 0 \<longleftrightarrow> unat index = 0" by (simp add: unsigned_eq_0_iff)
  consider "xs = []" | y where "xs = [y]" | "2 \<le> length xs"
    by (cases xs; cases "tl xs") auto
  then show ?thesis
  proof cases
    case 1
    then show ?thesis using v by (simp add: ev_represents_def srpc_evtool_value_get_def)
  next
    case 2
    then obtain r where y: "v = item_bytes y @ r" "item_ok t y" using v by (auto simp: ev_represents_single)
    have "ev_type t v = fst y" using item_fields(1) [OF y(2), of r] y(1) by simp
    moreover have "fst y \<noteq> EV_TYPE_NONE" "fst y \<noteq> EV_TYPE_MULTI_VALUE" using y(2) by (simp_all add: item_ok_def const_defs)
    moreover have "memcpy_at 0 0 (sizeof (TSuplaChannelExtendedValue t)) v b = Some v"
      using len b by (simp add: memcpy_at_def overlay_0 seg_0)
    ultimately show ?thesis using 2 v i0 by (simp add: srpc_evtool_value_get_def Let_def)
  next
    case 3
    then obtain r where m: "v = ev_make EV_TYPE_MULTI_VALUE (ev_total xs) (concat (map item_bytes ([] @ xs)) @ r)"
        "list_all (item_ok t) ([] @ xs)" "ev_total ([] @ xs) \<le> SUPLA_CHANNELEXTENDEDVALUE_SIZE t"
      using v by (auto simp: ev_represents_multi)
    have bd: "SUPLA_CHANNELEXTENDEDVALUE_SIZE t \<le> 1024" by (rule SUPLA_CHANNELEXTENDEDVALUE_SIZE_bound)
    have pos: "0 < ev_total ([] @ xs)" using 3 by (cases xs) auto
    have f: "ev_type t v = EV_TYPE_MULTI_VALUE" "field (TSuplaChannelExtendedValue t) [''size''] v = ev_total xs"
      using m(1,3) bd by (simp_all add: const_defs)
    have sz: "\<not> (of_nat (SUPLA_CHANNELEXTENDEDVALUE_SIZE t) :: u32) < of_nat (ev_total xs)"
      using m(3) bd by (subst of_nat_small(1)) simp_all
    note L = value_get_loop_finds [OF m(1,2,3) b _ pos, of index]
    have "EV_TYPE_MULTI_VALUE \<noteq> EV_TYPE_NONE" by (simp add: const_defs)
    then have e: "srpc_evtool_value_get t (Some v) index (Some b) =
        (if unat index < length xs then Some (Some (overlay 0 (item_bytes (xs ! unat index)) b), 1) else Some (Some b, 0))"
      using L f sz 3 i0 by (auto simp: srpc_evtool_value_get_def Let_def)
    show ?thesis
      unfolding e using m(2) b by (auto simp: list_all_length intro!: ev_represents_item)
  qed
qed

lemma ev_fits_prefix: "ev_fits t (xs @ ys) \<Longrightarrow> ev_fits t xs"
  by (auto simp: ev_fits_def)

interpretation ev_store: sequence_store "ev_represents t" "\<lambda>d s. srpc_evtool_value_add t (Some d) (Some s)"
  "\<lambda>v i b. srpc_evtool_value_get t (Some v) (of_nat i) (Some b)" "ev_fits t" "2 ^ 16 - 1" for t
proof
  have u: "unat (of_nat i :: u16) = i" if "i \<le> 2 ^ 16 - 1" for i using that by (simp add: unat_of_nat)
  show "\<exists>d. srpc_evtool_value_get t (Some v) (of_nat i) (Some b) = Some (Some d, 1) \<and> ev_represents t d [xs ! i]"
    if "ev_represents t v xs" "ev_represents t b bs" "i < length xs" "i \<le> 2 ^ 16 - 1" for v xs b bs i
    using value_get_refines [OF that(1) ev_represents_length [OF that(2)], of "of_nat i"] that(3) u [OF that(4)] by simp
  show "srpc_evtool_value_get t (Some v) (of_nat i) (Some b) = Some (Some b, 0)"
    if "ev_represents t v xs" "ev_represents t b bs" "length xs \<le> i" "i \<le> 2 ^ 16 - 1" for v xs b bs i
    using value_get_refines [OF that(1) ev_represents_length [OF that(2)], of "of_nat i"] that(3) u [OF that(4)] by simp
qed (use value_add_refines ev_fits_prefix in \<open>force split: if_splits\<close>)+

section \<open>Properties of the container\<close>

text \<open>The multi-value container is a sequence.  Adding a list of single values to an empty extended value one
  after another succeeds for each of them as long as the sizes with their headers sum up to at most the size of the value
  array (a single value needs no header), no copy leaves an object, and afterwards reading position \<open>i\<close>
  returns the \<open>i\<close>-th value with its type, size and payload.\<close>

theorem srpc_evtool_multi_value_refines:
  assumes "ev_represents t d []" "list_all2 (\<lambda>s x. ev_represents t s [x]) ss xs" "ev_fits t xs" "ev_represents t b bs"
    and "i < length xs" "i < 2 ^ 16"
  shows "\<exists>d' r. add_all (\<lambda>d s. srpc_evtool_value_add t (Some d) (Some s)) d ss = Some d' \<and>
    srpc_evtool_value_get t (Some d') (of_nat i) (Some b) = Some (Some r, 1) \<and> ev_represents t r [xs ! i]"
  using ev_store.add_all_get [OF assms(1-5)] assms(6) by simp

lemma ev_represents_zeros: "ev_represents t (replicate (sizeof (TSuplaChannelExtendedValue t)) 0) []"
  by (simp add: ev_represents_def ev_fits_def EV_TYPE_NONE_def)

lemma ev_represents_padded:
  "item_ok t x \<Longrightarrow> ev_represents t (item_bytes x @ replicate (SUPLA_CHANNELEXTENDEDVALUE_SIZE t - length (snd x)) 0) [x]"
  by (auto simp: ev_represents_single EV_size item_ok_def)

theorem srpc_evtool_multi_value_refines_witness:
  "\<exists>d' r. add_all (\<lambda>d s. srpc_evtool_value_add OTHER (Some d) (Some s)) (replicate 1029 0)
      [item_bytes (20, [1, 2]) @ replicate 1022 0, item_bytes (30, [3]) @ replicate 1023 0] = Some d' \<and>
    srpc_evtool_value_get OTHER (Some d') 1 (Some (replicate 1029 0)) = Some (Some r, 1) \<and> ev_represents OTHER r [(30, [3])]"
proof -
  have "ev_represents OTHER (replicate 1029 0) []" using ev_represents_zeros [of OTHER] by (simp add: EV_size)
  moreover have "ev_represents OTHER (item_bytes (20, [1, 2]) @ replicate 1022 0) [(20, [1, 2])]"
    "ev_represents OTHER (item_bytes (30, [3]) @ replicate 1023 0) [(30, [3])]"
    using ev_represents_padded [of OTHER "(20, [1, 2])"] ev_represents_padded [of OTHER "(30, [3])"]
    by (simp_all add: item_ok_def const_defs)
  ultimately show ?thesis
    using srpc_evtool_multi_value_refines [of OTHER "replicate 1029 0"
        "[item_bytes (20, [1, 2]) @ replicate 1022 0, item_bytes (30, [3]) @ replicate 1023 0]"
        "[(20, [1, 2]), (30, [3])]" "replicate 1029 0" "[]" 1]
    by (simp add: ev_fits_def)
qed

text \<open>A received container can make the library copy almost \<open>2^32\<close> bytes: the bounds check of
  \<open>srpc_evtool_value_get\<close> adds the declared size, the offset and the header size in 32 bits.  When the second
  value of a container declares the size \<open>2^32 - 11\<close>, the sum is 0, the check passes and the copy leaves both
  objects, although the container itself has a valid size.\<close>

theorem srpc_evtool_value_get_overrun:
  assumes "v = ev_make EV_TYPE_MULTI_VALUE 12 (item_bytes (ty, [x]) @ ev_make ty' (2 ^ 32 - 11) rest)"
    and "0 < ty" "ty < 256" "ty \<noteq> EV_TYPE_MULTI_VALUE" "0 < ty'" "ty' < 256"
    and "length v = sizeof (TSuplaChannelExtendedValue t)" "length dst = sizeof (TSuplaChannelExtendedValue t)"
  shows "srpc_evtool_value_get t (Some v) 1 (Some dst) = None"
proof -
  have b: "SUPLA_CHANNELEXTENDEDVALUE_SIZE t \<le> 1024" "12 \<le> SUPLA_CHANNELEXTENDEDVALUE_SIZE t" by (cases t; simp)+
  have f: "ev_type t v = EV_TYPE_MULTI_VALUE" "field (TSuplaChannelExtendedValue t) [''size''] v = 12"
    unfolding assms(1) by (simp_all add: const_defs)
  have sz: "\<not> (of_nat (SUPLA_CHANNELEXTENDEDVALUE_SIZE t) :: u32) < of_nat 12"
    using b by (subst of_nat_small(1)) simp_all
  have ok: "item_ok t (ty, [x])" using assms(2-4) b by (simp add: item_ok_def)
  have v: "v = ev_make EV_TYPE_MULTI_VALUE 12 (concat (map item_bytes []) @ item_bytes (ty, [x]) @ ev_make ty' (2 ^ 32 - 11) rest)"
    using assms(1) by simp
  have "value_get_loop t v 1 dst 7 (of_nat (ev_total [])) 0 = value_get_loop t v 1 dst 7 (of_nat (ev_total ([] @ [(ty, [x])]))) (0 + 1)"
    using value_get_loop_step [OF v ok _ assms(8), of 7 1 0] b(2) by simp
  then have "value_get_loop t v 1 dst 7 0 0 = value_get_loop t v 1 dst 7 6 1" by simp
  also have "\<dots> = Fault"
  proof -
    have d: "drop (5 + 6) v = ev_make ty' (2 ^ 32 - 11) rest"
      unfolding assms(1) drop_drop [symmetric] add.commute [of 5] by simp
    have l: "length v = 16 + length rest" unfolding assms(1) by simp
    have t: "ev_type t (ev_make ty' (2 ^ 32 - 11) rest) = ty'"
      "field (TSuplaChannelExtendedValue t) [''size''] (ev_make ty' (2 ^ 32 - 11) rest) = 2 ^ 32 - 11"
      using assms(6) by simp_all
    have w: "(of_nat (2 ^ 32 - 11) :: u32) = - 11" by simp
    have u: "unat (ev_header_size + - 11 :: u32) = 2 ^ 32 - 6" by simp
    have z: "(4294967296 :: u32) = 0"
      using word_of_nat_eq_iff [of 4294967296 0, where ?'a = 32] by (simp add: take_bit_eq_mod)
    have m: "memcpy_at 0 11 4294967290 v dst = None"
      using assms(7,8) b by (simp add: memcpy_at_def EV_size)
    show ?thesis
      apply (subst value_get_loop.simps)
      using d l t assms(5) by (simp add: Let_def w u m z EV_TYPE_NONE_def)
  qed
  finally show ?thesis
    using f sz by (simp add: srpc_evtool_value_get_def Let_def EV_TYPE_NONE_def EV_TYPE_MULTI_VALUE_def)
qed

theorem srpc_evtool_value_get_overrun_witness:
  "srpc_evtool_value_get OTHER (Some (ev_make EV_TYPE_MULTI_VALUE 12 (item_bytes (20, [1]) @ ev_make 20 (2 ^ 32 - 11) (replicate 1013 0))))
     1 (Some (replicate 1029 0)) = None"
  by (rule srpc_evtool_value_get_overrun [OF refl]) (simp_all add: EV_size EV_TYPE_MULTI_VALUE_def)

text \<open>The decoder of meter values accepts a negative number of measurements: the expected size is computed modulo
  \<open>2^32\<close>, so that with the count \<open>- 2^31\<close> an extended value that holds only the header passes all checks.  The encoder
  refuses such a structure.\<close>

theorem srpc_evtool_meter_negative_count:
  assumes "(T, dec) \<in> {(TElectricityMeter_ExtendedValue t, srpc_evtool_v1_extended2emextended t),
      (TElectricityMeter_ExtendedValue_V2 t, srpc_evtool_v2_extended2emextended t),
      (TElectricityMeter_ExtendedValue_V3 t, srpc_evtool_v3_extended2emextended t)}"
    and "ty = (if T = TElectricityMeter_ExtendedValue t then EV_TYPE_ELECTRICITY_METER_MEASUREMENT_V1
      else if T = TElectricityMeter_ExtendedValue_V2 t then EV_TYPE_ELECTRICITY_METER_MEASUREMENT_V2
      else EV_TYPE_ELECTRICITY_METER_MEASUREMENT_V3)"
    and "length h = offsetof T [''m_count'']"
  shows "\<exists>em. dec (Some (ev_make ty (length h + 4) (h @ [0, 0, 0, 128] @ rest))) (Some buf) = (Some em, 1) \<and>
    sfield T [''m_count''] em = - (2 ^ 31)"
proof -
  have ne: "TElectricityMeter_ExtendedValue_V2 t \<noteq> TElectricityMeter_ExtendedValue t"
    "TElectricityMeter_ExtendedValue_V3 t \<noteq> TElectricityMeter_ExtendedValue t"
    "TElectricityMeter_ExtendedValue_V3 t \<noteq> TElectricityMeter_ExtendedValue_V2 t"
    by (simp_all add: meter_defs)
  have T: "(T, ty) \<in> set (meters t)" and dec: "dec = (\<lambda>ev. RETURN_EXTENDED2EMEXTENDED t ev T ty)"
    using assms(1,2) ne
    by (auto simp: meters_def fun_eq_iff srpc_evtool_v1_extended2emextended_def
        srpc_evtool_v2_extended2emextended_def srpc_evtool_v3_extended2emextended_def)
  note L = meter_layout [OF T]
  let ?k = "length h + 4"
  define em where "em = h @ [0, 0, 0, 128] @ replicate (sizeof T - ?k) 0"
  have k: "?k \<le> sizeof T" "?k < 2 ^ 32"
    using L(1,3,4) assms(3) SUPLA_CHANNELEXTENDEDVALUE_SIZE_bound [of t] by simp_all
  have m: "sfield T [''m_count''] em = - (2 ^ 31)"
    using L(2) assms(3) by (simp add: sfield_def field_def em_def seg_append_right Let_def) (simp add: seg_def)
  have "(of_nat 62 :: u32) * of_int (- (2 ^ 31)) = of_int (62 * - (2 ^ 31))" by simp
  also have "\<dots> = 0"
    using word_of_int_eq_iff [of "62 * - (2 ^ 31)" 0, where ?'a = 32] by (simp add: take_bit_eq_mod)
  finally have "expected_size t T em = of_nat ?k"
    using L(1) assms(3) unfolding expected_size_def sizeof_EM_M m by (simp del: of_int_minus of_int_power)
  moreover have "overlay 0 (take ?k (h @ [0, 0, 0, 128] @ rest)) (replicate (sizeof T) 0) = em"
    using k(1) by (simp add: overlay_0 em_def)
  ultimately have "dec (Some (ev_make ty ?k (h @ [0, 0, 0, 128] @ rest))) (Some buf) = (Some em, 1)"
    using k L(5) unfolding dec by (simp add: RETURN_EXTENDED2EMEXTENDED_def Let_def ev_layout)
  then show ?thesis using m by blast
qed

theorem srpc_evtool_meter_negative_count_witness:
  "\<exists>em. srpc_evtool_v3_extended2emextended DEVICE (Some (ev_make 14
      (offsetof (TElectricityMeter_ExtendedValue_V3 DEVICE) [''m_count''] + 4)
      (replicate (offsetof (TElectricityMeter_ExtendedValue_V3 DEVICE) [''m_count'']) 0 @ [0, 0, 0, 128] @ []))) (Some []) = (Some em, 1)"
  using srpc_evtool_meter_negative_count [of "TElectricityMeter_ExtendedValue_V3 DEVICE" "srpc_evtool_v3_extended2emextended DEVICE"
      DEVICE 14 "replicate (offsetof (TElectricityMeter_ExtendedValue_V3 DEVICE) [''m_count'']) 0" "[]" "[]"]
  by (auto simp: meter_defs EV_TYPE_ELECTRICITY_METER_MEASUREMENT_V3_def)

section \<open>Impulse counters and thermostats\<close>

lemma srpc_evtool_ic_round_trip:
  assumes "length ic = sizeof TSC_ImpulseCounter_ExtendedValue"
  shows "\<exists>v. srpc_evtool_v1_icextended2extended t (Some ic) (Some ev) = (Some v, 1) \<and>
    srpc_evtool_v1_extended2icextended t (Some v) (Some buf) = (Some ic, 1)"
proof -
  have s: "sizeof TSC_ImpulseCounter_ExtendedValue = 40" by (simp add: TSC_ImpulseCounter_ExtendedValue_def)
  have "40 \<le> SUPLA_CHANNELEXTENDEDVALUE_SIZE t" by (cases t) simp_all
  then show ?thesis
    using assms s
    by (auto simp: srpc_evtool_v1_icextended2extended_def srpc_evtool_v1_extended2icextended_def Let_def EV_size
        replicate_ev_make ev_layout EV_TYPE_IMPULSE_COUNTER_DETAILS_V1_def overlay_0)
qed

lemma thermostat_size_bounds:
  "thermostat_size f thermostat_members 246 \<le> 246" "1 \<le> thermostat_size f thermostat_members 246"
  by (simp_all add: thermostat_members_def TThermostat_ExtendedValue_def typeof_def TThermostat_Time_def
      TThermostat_Schedule_def)

lemma srpc_evtool_thermostat_round_trip:
  assumes "length th = sizeof TThermostat_ExtendedValue"
  shows "\<exists>v k. srpc_evtool_v1_thermostatextended2extended t (Some th) (Some ev) = (Some v, 1) \<and>
    srpc_evtool_v1_extended2thermostatextended t (Some v) (Some buf) = (Some (take k th @ replicate (length th - k) 0), 1) \<and>
    k = thermostat_size (of_nat (field TThermostat_ExtendedValue [''Fields''] th)) thermostat_members (length th)"
proof -
  have s: "sizeof TThermostat_ExtendedValue = 246"
    by (simp add: TThermostat_ExtendedValue_def TThermostat_Time_def TThermostat_Schedule_def)
  define k where "k = thermostat_size (of_nat (field TThermostat_ExtendedValue [''Fields''] th)) thermostat_members (length th)"
  have k: "k \<le> 246" "1 \<le> k" using thermostat_size_bounds assms s unfolding k_def by simp_all
  have "246 \<le> SUPLA_CHANNELEXTENDEDVALUE_SIZE t" by (cases t) simp_all
  then have "srpc_evtool_v1_thermostatextended2extended t (Some th) (Some ev) =
      (Some (ev_make EV_TYPE_THERMOSTAT_DETAILS_V1 k (overlay 0 (take k th) (replicate (SUPLA_CHANNELEXTENDEDVALUE_SIZE t) 0))), 1)"
    using k assms by (simp add: srpc_evtool_v1_thermostatextended2extended_def Let_def EV_size replicate_ev_make ev_layout k_def)
  moreover have "srpc_evtool_v1_extended2thermostatextended t
      (Some (ev_make EV_TYPE_THERMOSTAT_DETAILS_V1 k (overlay 0 (take k th) (replicate (SUPLA_CHANNELEXTENDEDVALUE_SIZE t) 0)))) (Some buf) =
      (Some (take k th @ replicate (length th - k) 0), 1)"
    using k assms s by (simp add: srpc_evtool_v1_extended2thermostatextended_def Let_def ev_layout EV_TYPE_THERMOSTAT_DETAILS_V1_def overlay_0)
  ultimately show ?thesis using k_def by blast
qed

end
