(* ===== verification/Channel_Types.thy ===== *)
theory Channel_Types
  imports Proto_Structs
begin

text \<open>
  Constants and enumerations of the channel classes: the channel types of \<open>channel_types.h\<close> with their conversion from and to
  the numbers of the protocol (\<open>channel_types.cpp\<close>), the events of \<open>events.h\<close> that channels raise, and the constants of \<open>proto.h\<close>
  that describe channel values.  The collection \<open>chan_consts\<close> evaluates all of them.
\<close>

named_theorems chan_consts \<open>constants of channel values and events\<close>

type_synonym u64 = "64 word"

section \<open>Channel types\<close>

datatype ChannelType = NOT_SET | BINARYSENSOR | DISTANCESENSOR | RELAY | THERMOMETER
  | HUMIDITYSENSOR | HUMIDITYANDTEMPSENSOR | WINDSENSOR | PRESSURESENSOR | RAINSENSOR
  | WEIGHTSENSOR | DIMMER | RGBLEDCONTROLLER | DIMMERANDRGBLED | ELECTRICITY_METER
  | IMPULSE_COUNTER | HVAC | VALVE_OPENCLOSE | VALVE_PERCENTAGE | GENERAL_PURPOSE_MEASUREMENT
  | GENERAL_PURPOSE_METER | ACTIONTRIGGER | CONTAINER

definition SUPLA_CHANNELTYPE_BINARYSENSOR :: u32 where [chan_consts]: "SUPLA_CHANNELTYPE_BINARYSENSOR = 1000"
definition SUPLA_CHANNELTYPE_DISTANCESENSOR :: u32 where [chan_consts]: "SUPLA_CHANNELTYPE_DISTANCESENSOR = 1020"
definition SUPLA_CHANNELTYPE_RELAY :: u32 where [chan_consts]: "SUPLA_CHANNELTYPE_RELAY = 2900"
definition SUPLA_CHANNELTYPE_THERMOMETER :: u32 where [chan_consts]: "SUPLA_CHANNELTYPE_THERMOMETER = 3034"
definition SUPLA_CHANNELTYPE_HUMIDITYSENSOR :: u32 where [chan_consts]: "SUPLA_CHANNELTYPE_HUMIDITYSENSOR = 3036"
definition SUPLA_CHANNELTYPE_HUMIDITYANDTEMPSENSOR :: u32 where [chan_consts]: "SUPLA_CHANNELTYPE_HUMIDITYANDTEMPSENSOR = 3038"
definition SUPLA_CHANNELTYPE_WINDSENSOR :: u32 where [chan_consts]: "SUPLA_CHANNELTYPE_WINDSENSOR = 3042"
definition SUPLA_CHANNELTYPE_PRESSURESENSOR :: u32 where [chan_consts]: "SUPLA_CHANNELTYPE_PRESSURESENSOR = 3044"
definition SUPLA_CHANNELTYPE_RAINSENSOR :: u32 where [chan_consts]: "SUPLA_CHANNELTYPE_RAINSENSOR = 3048"
definition SUPLA_CHANNELTYPE_WEIGHTSENSOR :: u32 where [chan_consts]: "SUPLA_CHANNELTYPE_WEIGHTSENSOR = 3050"
definition SUPLA_CHANNELTYPE_DIMMER :: u32 where [chan_consts]: "SUPLA_CHANNELTYPE_DIMMER = 4000"
definition SUPLA_CHANNELTYPE_RGBLEDCONTROLLER :: u32 where [chan_consts]: "SUPLA_CHANNELTYPE_RGBLEDCONTROLLER = 4010"
definition SUPLA_CHANNELTYPE_DIMMERANDRGBLED :: u32 where [chan_consts]: "SUPLA_CHANNELTYPE_DIMMERANDRGBLED = 4020"
definition SUPLA_CHANNELTYPE_ELECTRICITY_METER :: u32 where [chan_consts]: "SUPLA_CHANNELTYPE_ELECTRICITY_METER = 5000"
definition SUPLA_CHANNELTYPE_IMPULSE_COUNTER :: u32 where [chan_consts]: "SUPLA_CHANNELTYPE_IMPULSE_COUNTER = 5010"
definition SUPLA_CHANNELTYPE_HVAC :: u32 where [chan_consts]: "SUPLA_CHANNELTYPE_HVAC = 6100"
definition SUPLA_CHANNELTYPE_VALVE_OPENCLOSE :: u32 where [chan_consts]: "SUPLA_CHANNELTYPE_VALVE_OPENCLOSE = 7000"
definition SUPLA_CHANNELTYPE_VALVE_PERCENTAGE :: u32 where [chan_consts]: "SUPLA_CHANNELTYPE_VALVE_PERCENTAGE = 7010"
definition SUPLA_CHANNELTYPE_GENERAL_PURPOSE_MEASUREMENT :: u32 where [chan_consts]: "SUPLA_CHANNELTYPE_GENERAL_PURPOSE_MEASUREMENT = 9000"
definition SUPLA_CHANNELTYPE_GENERAL_PURPOSE_METER :: u32 where [chan_consts]: "SUPLA_CHANNELTYPE_GENERAL_PURPOSE_METER = 9010"
definition SUPLA_CHANNELTYPE_ACTIONTRIGGER :: u32 where [chan_consts]: "SUPLA_CHANNELTYPE_ACTIONTRIGGER = 11000"
definition SUPLA_CHANNELTYPE_CONTAINER :: u32 where [chan_consts]: "SUPLA_CHANNELTYPE_CONTAINER = 3200"

fun channelTypeToProtoType :: "ChannelType \<Rightarrow> u32" where
  "channelTypeToProtoType BINARYSENSOR = SUPLA_CHANNELTYPE_BINARYSENSOR"
| "channelTypeToProtoType DISTANCESENSOR = SUPLA_CHANNELTYPE_DISTANCESENSOR"
| "channelTypeToProtoType RELAY = SUPLA_CHANNELTYPE_RELAY"
| "channelTypeToProtoType THERMOMETER = SUPLA_CHANNELTYPE_THERMOMETER"
| "channelTypeToProtoType HUMIDITYSENSOR = SUPLA_CHANNELTYPE_HUMIDITYSENSOR"
| "channelTypeToProtoType HUMIDITYANDTEMPSENSOR = SUPLA_CHANNELTYPE_HUMIDITYANDTEMPSENSOR"
| "channelTypeToProtoType WINDSENSOR = SUPLA_CHANNELTYPE_WINDSENSOR"
| "channelTypeToProtoType PRESSURESENSOR = SUPLA_CHANNELTYPE_PRESSURESENSOR"
| "channelTypeToProtoType RAINSENSOR = SUPLA_CHANNELTYPE_RAINSENSOR"
| "channelTypeToProtoType WEIGHTSENSOR = SUPLA_CHANNELTYPE_WEIGHTSENSOR"
| "channelTypeToProtoType DIMMER = SUPLA_CHANNELTYPE_DIMMER"
| "channelTypeToProtoType RGBLEDCONTROLLER = SUPLA_CHANNELTYPE_RGBLEDCONTROLLER"
| "channelTypeToProtoType DIMMERANDRGBLED = SUPLA_CHANNELTYPE_DIMMERANDRGBLED"
| "channelTypeToProtoType ELECTRICITY_METER = SUPLA_CHANNELTYPE_ELECTRICITY_METER"
| "channelTypeToProtoType IMPULSE_COUNTER = SUPLA_CHANNELTYPE_IMPULSE_COUNTER"
| "channelTypeToProtoType HVAC = SUPLA_CHANNELTYPE_HVAC"
| "channelTypeToProtoType VALVE_OPENCLOSE = SUPLA_CHANNELTYPE_VALVE_OPENCLOSE"
| "channelTypeToProtoType VALVE_PERCENTAGE = SUPLA_CHANNELTYPE_VALVE_PERCENTAGE"
| "channelTypeToProtoType GENERAL_PURPOSE_MEASUREMENT = SUPLA_CHANNELTYPE_GENERAL_PURPOSE_MEASUREMENT"
| "channelTypeToProtoType GENERAL_PURPOSE_METER = SUPLA_CHANNELTYPE_GENERAL_PURPOSE_METER"
| "channelTypeToProtoType ACTIONTRIGGER = SUPLA_CHANNELTYPE_ACTIONTRIGGER"
| "channelTypeToProtoType CONTAINER = SUPLA_CHANNELTYPE_CONTAINER"
| "channelTypeToProtoType NOT_SET = 0"

definition protoTypeToChannelType :: "u32 \<Rightarrow> ChannelType" where
  "protoTypeToChannelType t =
     (if t = SUPLA_CHANNELTYPE_BINARYSENSOR then BINARYSENSOR
      else if t = SUPLA_CHANNELTYPE_DISTANCESENSOR then DISTANCESENSOR
      else if t = SUPLA_CHANNELTYPE_RELAY then RELAY
      else if t = SUPLA_CHANNELTYPE_THERMOMETER then THERMOMETER
      else if t = SUPLA_CHANNELTYPE_HUMIDITYSENSOR then HUMIDITYSENSOR
      else if t = SUPLA_CHANNELTYPE_HUMIDITYANDTEMPSENSOR then HUMIDITYANDTEMPSENSOR
      else if t = SUPLA_CHANNELTYPE_WINDSENSOR then WINDSENSOR
      else if t = SUPLA_CHANNELTYPE_PRESSURESENSOR then PRESSURESENSOR
      else if t = SUPLA_CHANNELTYPE_RAINSENSOR then RAINSENSOR
      else if t = SUPLA_CHANNELTYPE_WEIGHTSENSOR then WEIGHTSENSOR
      else if t = SUPLA_CHANNELTYPE_DIMMER then DIMMER
      else if t = SUPLA_CHANNELTYPE_RGBLEDCONTROLLER then RGBLEDCONTROLLER
      else if t = SUPLA_CHANNELTYPE_DIMMERANDRGBLED then DIMMERANDRGBLED
      else if t = SUPLA_CHANNELTYPE_ELECTRICITY_METER then ELECTRICITY_METER
      else if t = SUPLA_CHANNELTYPE_IMPULSE_COUNTER then IMPULSE_COUNTER
      else if t = SUPLA_CHANNELTYPE_HVAC then HVAC
      else if t = SUPLA_CHANNELTYPE_VALVE_OPENCLOSE then VALVE_OPENCLOSE
      else if t = SUPLA_CHANNELTYPE_VALVE_PERCENTAGE then VALVE_PERCENTAGE
      else if t = SUPLA_CHANNELTYPE_GENERAL_PURPOSE_MEASUREMENT then GENERAL_PURPOSE_MEASUREMENT
      else if t = SUPLA_CHANNELTYPE_GENERAL_PURPOSE_METER then GENERAL_PURPOSE_METER
      else if t = SUPLA_CHANNELTYPE_ACTIONTRIGGER then ACTIONTRIGGER
      else if t = SUPLA_CHANNELTYPE_CONTAINER then CONTAINER
      else NOT_SET)"

section \<open>Functions of channels\<close>

definition SUPLA_CHANNELFNC_CONTROLLINGTHEGATEWAYLOCK :: u32 where [chan_consts]: "SUPLA_CHANNELFNC_CONTROLLINGTHEGATEWAYLOCK = 10"
definition SUPLA_CHANNELFNC_CONTROLLINGTHEGATE :: u32 where [chan_consts]: "SUPLA_CHANNELFNC_CONTROLLINGTHEGATE = 20"
definition SUPLA_CHANNELFNC_CONTROLLINGTHEGARAGEDOOR :: u32 where [chan_consts]: "SUPLA_CHANNELFNC_CONTROLLINGTHEGARAGEDOOR = 30"
definition SUPLA_CHANNELFNC_OPENINGSENSOR_GATEWAY :: u32 where [chan_consts]: "SUPLA_CHANNELFNC_OPENINGSENSOR_GATEWAY = 50"
definition SUPLA_CHANNELFNC_OPENINGSENSOR_GATE :: u32 where [chan_consts]: "SUPLA_CHANNELFNC_OPENINGSENSOR_GATE = 60"
definition SUPLA_CHANNELFNC_OPENINGSENSOR_GARAGEDOOR :: u32 where [chan_consts]: "SUPLA_CHANNELFNC_OPENINGSENSOR_GARAGEDOOR = 70"
definition SUPLA_CHANNELFNC_NOLIQUIDSENSOR :: u32 where [chan_consts]: "SUPLA_CHANNELFNC_NOLIQUIDSENSOR = 80"
definition SUPLA_CHANNELFNC_CONTROLLINGTHEDOORLOCK :: u32 where [chan_consts]: "SUPLA_CHANNELFNC_CONTROLLINGTHEDOORLOCK = 90"
definition SUPLA_CHANNELFNC_OPENINGSENSOR_DOOR :: u32 where [chan_consts]: "SUPLA_CHANNELFNC_OPENINGSENSOR_DOOR = 100"
definition SUPLA_CHANNELFNC_CONTROLLINGTHEROLLERSHUTTER :: u32 where [chan_consts]: "SUPLA_CHANNELFNC_CONTROLLINGTHEROLLERSHUTTER = 110"
definition SUPLA_CHANNELFNC_CONTROLLINGTHEROOFWINDOW :: u32 where [chan_consts]: "SUPLA_CHANNELFNC_CONTROLLINGTHEROOFWINDOW = 115"
definition SUPLA_CHANNELFNC_OPENINGSENSOR_ROLLERSHUTTER :: u32 where [chan_consts]: "SUPLA_CHANNELFNC_OPENINGSENSOR_ROLLERSHUTTER = 120"
definition SUPLA_CHANNELFNC_OPENINGSENSOR_ROOFWINDOW :: u32 where [chan_consts]: "SUPLA_CHANNELFNC_OPENINGSENSOR_ROOFWINDOW = 125"
definition SUPLA_CHANNELFNC_POWERSWITCH :: u32 where [chan_consts]: "SUPLA_CHANNELFNC_POWERSWITCH = 130"
definition SUPLA_CHANNELFNC_LIGHTSWITCH :: u32 where [chan_consts]: "SUPLA_CHANNELFNC_LIGHTSWITCH = 140"
definition SUPLA_CHANNELFNC_OPENINGSENSOR_WINDOW :: u32 where [chan_consts]: "SUPLA_CHANNELFNC_OPENINGSENSOR_WINDOW = 230"
definition SUPLA_CHANNELFNC_HOTELCARDSENSOR :: u32 where [chan_consts]: "SUPLA_CHANNELFNC_HOTELCARDSENSOR = 235"
definition SUPLA_CHANNELFNC_ALARMARMAMENTSENSOR :: u32 where [chan_consts]: "SUPLA_CHANNELFNC_ALARMARMAMENTSENSOR = 236"
definition SUPLA_CHANNELFNC_MAILSENSOR :: u32 where [chan_consts]: "SUPLA_CHANNELFNC_MAILSENSOR = 240"
definition SUPLA_CHANNELFNC_STAIRCASETIMER :: u32 where [chan_consts]: "SUPLA_CHANNELFNC_STAIRCASETIMER = 300"
definition SUPLA_CHANNELFNC_VALVE_OPENCLOSE :: u32 where [chan_consts]: "SUPLA_CHANNELFNC_VALVE_OPENCLOSE = 500"
definition SUPLA_CHANNELFNC_VALVE_PERCENTAGE :: u32 where [chan_consts]: "SUPLA_CHANNELFNC_VALVE_PERCENTAGE = 510"
definition SUPLA_CHANNELFNC_CONTROLLINGTHEFACADEBLIND :: u32 where [chan_consts]: "SUPLA_CHANNELFNC_CONTROLLINGTHEFACADEBLIND = 900"
definition SUPLA_CHANNELFNC_TERRACE_AWNING :: u32 where [chan_consts]: "SUPLA_CHANNELFNC_TERRACE_AWNING = 910"
definition SUPLA_CHANNELFNC_PROJECTOR_SCREEN :: u32 where [chan_consts]: "SUPLA_CHANNELFNC_PROJECTOR_SCREEN = 920"
definition SUPLA_CHANNELFNC_CURTAIN :: u32 where [chan_consts]: "SUPLA_CHANNELFNC_CURTAIN = 930"
definition SUPLA_CHANNELFNC_VERTICAL_BLIND :: u32 where [chan_consts]: "SUPLA_CHANNELFNC_VERTICAL_BLIND = 940"
definition SUPLA_CHANNELFNC_ROLLER_GARAGE_DOOR :: u32 where [chan_consts]: "SUPLA_CHANNELFNC_ROLLER_GARAGE_DOOR = 950"
definition SUPLA_CHANNELFNC_PUMPSWITCH :: u32 where [chan_consts]: "SUPLA_CHANNELFNC_PUMPSWITCH = 960"
definition SUPLA_CHANNELFNC_HEATORCOLDSOURCESWITCH :: u32 where [chan_consts]: "SUPLA_CHANNELFNC_HEATORCOLDSOURCESWITCH = 970"
definition SUPLA_CHANNELFNC_CONTAINER_LEVEL_SENSOR :: u32 where [chan_consts]: "SUPLA_CHANNELFNC_CONTAINER_LEVEL_SENSOR = 990"
definition SUPLA_CHANNELFNC_FLOOD_SENSOR :: u32 where [chan_consts]: "SUPLA_CHANNELFNC_FLOOD_SENSOR = 1000"
definition SUPLA_CHANNELFNC_MOTION_SENSOR :: u32 where [chan_consts]: "SUPLA_CHANNELFNC_MOTION_SENSOR = 1010"
definition SUPLA_CHANNELFNC_BINARY_SENSOR :: u32 where [chan_consts]: "SUPLA_CHANNELFNC_BINARY_SENSOR = 1020"
definition SUPLA_BIT_FUNC_CONTROLLINGTHEROLLERSHUTTER :: u32 where [chan_consts]: "SUPLA_BIT_FUNC_CONTROLLINGTHEROLLERSHUTTER = 16"
definition SUPLA_BIT_FUNC_CONTROLLINGTHEROOFWINDOW :: u32 where [chan_consts]: "SUPLA_BIT_FUNC_CONTROLLINGTHEROOFWINDOW = 32768"
definition SUPLA_BIT_FUNC_CONTROLLINGTHEFACADEBLIND :: u32 where [chan_consts]: "SUPLA_BIT_FUNC_CONTROLLINGTHEFACADEBLIND = 65536"
definition SUPLA_BIT_FUNC_TERRACE_AWNING :: u32 where [chan_consts]: "SUPLA_BIT_FUNC_TERRACE_AWNING = 2097152"
definition SUPLA_BIT_FUNC_PROJECTOR_SCREEN :: u32 where [chan_consts]: "SUPLA_BIT_FUNC_PROJECTOR_SCREEN = 4194304"
definition SUPLA_BIT_FUNC_CURTAIN :: u32 where [chan_consts]: "SUPLA_BIT_FUNC_CURTAIN = 8388608"
definition SUPLA_BIT_FUNC_VERTICAL_BLIND :: u32 where [chan_consts]: "SUPLA_BIT_FUNC_VERTICAL_BLIND = 16777216"
definition SUPLA_BIT_FUNC_ROLLER_GARAGE_DOOR :: u32 where [chan_consts]: "SUPLA_BIT_FUNC_ROLLER_GARAGE_DOOR = 33554432"
definition SUPLA_BIT_FUNC_POWERSWITCH :: u32 where [chan_consts]: "SUPLA_BIT_FUNC_POWERSWITCH = 32"

section \<open>Flags, modes and states\<close>

definition SUPLA_CHANNEL_FLAG_CHANNELSTATE :: u64 where [chan_consts]: "SUPLA_CHANNEL_FLAG_CHANNELSTATE = 65536"
definition SUPLA_CHANNEL_FLAG_WEEKLY_SCHEDULE :: u64 where [chan_consts]: "SUPLA_CHANNEL_FLAG_WEEKLY_SCHEDULE = 268435456"
definition SUPLA_CHANNEL_OFFLINE_FLAG_ONLINE :: u8 where [chan_consts]: "SUPLA_CHANNEL_OFFLINE_FLAG_ONLINE = 0"
definition SUPLA_CHANNEL_OFFLINE_FLAG_ONLINE_BUT_NOT_AVAILABLE :: u8 where [chan_consts]: "SUPLA_CHANNEL_OFFLINE_FLAG_ONLINE_BUT_NOT_AVAILABLE = 2"
definition SUPLA_CHANNEL_OFFLINE_FLAG_OFFLINE_REMOTE_WAKEUP_NOT_SUPPORTED :: u8 where [chan_consts]: "SUPLA_CHANNEL_OFFLINE_FLAG_OFFLINE_REMOTE_WAKEUP_NOT_SUPPORTED = 3"
lemmas offline_flag_consts [chan_consts] = SUPLA_CHANNEL_OFFLINE_FLAG_OFFLINE_def SUPLA_CHANNEL_OFFLINE_FLAG_FIRMWARE_UPDATE_ONGOING_def
definition SUPLA_HVAC_MODE_NOT_SET :: u8 where [chan_consts]: "SUPLA_HVAC_MODE_NOT_SET = 0"
definition SUPLA_HVAC_MODE_OFF :: u8 where [chan_consts]: "SUPLA_HVAC_MODE_OFF = 1"
definition SUPLA_HVAC_MODE_HEAT :: u8 where [chan_consts]: "SUPLA_HVAC_MODE_HEAT = 2"
definition SUPLA_HVAC_MODE_COOL :: u8 where [chan_consts]: "SUPLA_HVAC_MODE_COOL = 3"
definition SUPLA_HVAC_MODE_HEAT_COOL :: u8 where [chan_consts]: "SUPLA_HVAC_MODE_HEAT_COOL = 4"
definition SUPLA_HVAC_MODE_FAN_ONLY :: u8 where [chan_consts]: "SUPLA_HVAC_MODE_FAN_ONLY = 6"
definition SUPLA_HVAC_MODE_DRY :: u8 where [chan_consts]: "SUPLA_HVAC_MODE_DRY = 7"
definition SUPLA_HVAC_MODE_CMD_TURN_ON :: u8 where [chan_consts]: "SUPLA_HVAC_MODE_CMD_TURN_ON = 8"
definition SUPLA_HVAC_MODE_CMD_WEEKLY_SCHEDULE :: u8 where [chan_consts]: "SUPLA_HVAC_MODE_CMD_WEEKLY_SCHEDULE = 9"
definition SUPLA_HVAC_MODE_CMD_SWITCH_TO_MANUAL :: u8 where [chan_consts]: "SUPLA_HVAC_MODE_CMD_SWITCH_TO_MANUAL = 10"
definition SUPLA_HVAC_VALUE_FLAG_SETPOINT_TEMP_HEAT_SET :: u16 where [chan_consts]: "SUPLA_HVAC_VALUE_FLAG_SETPOINT_TEMP_HEAT_SET = 1"
definition SUPLA_HVAC_VALUE_FLAG_SETPOINT_TEMP_COOL_SET :: u16 where [chan_consts]: "SUPLA_HVAC_VALUE_FLAG_SETPOINT_TEMP_COOL_SET = 2"
definition SUPLA_HVAC_VALUE_FLAG_HEATING :: u16 where [chan_consts]: "SUPLA_HVAC_VALUE_FLAG_HEATING = 4"
definition SUPLA_HVAC_VALUE_FLAG_COOLING :: u16 where [chan_consts]: "SUPLA_HVAC_VALUE_FLAG_COOLING = 8"
definition SUPLA_HVAC_VALUE_FLAG_WEEKLY_SCHEDULE :: u16 where [chan_consts]: "SUPLA_HVAC_VALUE_FLAG_WEEKLY_SCHEDULE = 16"
definition SUPLA_HVAC_VALUE_FLAG_COUNTDOWN_TIMER :: u16 where [chan_consts]: "SUPLA_HVAC_VALUE_FLAG_COUNTDOWN_TIMER = 32"
definition SUPLA_HVAC_VALUE_FLAG_FAN_ENABLED :: u16 where [chan_consts]: "SUPLA_HVAC_VALUE_FLAG_FAN_ENABLED = 64"
definition SUPLA_HVAC_VALUE_FLAG_THERMOMETER_ERROR :: u16 where [chan_consts]: "SUPLA_HVAC_VALUE_FLAG_THERMOMETER_ERROR = 128"
definition SUPLA_HVAC_VALUE_FLAG_CLOCK_ERROR :: u16 where [chan_consts]: "SUPLA_HVAC_VALUE_FLAG_CLOCK_ERROR = 256"
definition SUPLA_HVAC_VALUE_FLAG_FORCED_OFF_BY_SENSOR :: u16 where [chan_consts]: "SUPLA_HVAC_VALUE_FLAG_FORCED_OFF_BY_SENSOR = 512"
definition SUPLA_HVAC_VALUE_FLAG_COOL :: u16 where [chan_consts]: "SUPLA_HVAC_VALUE_FLAG_COOL = 1024"
definition SUPLA_HVAC_VALUE_FLAG_WEEKLY_SCHEDULE_TEMPORAL_OVERRIDE :: u16 where [chan_consts]: "SUPLA_HVAC_VALUE_FLAG_WEEKLY_SCHEDULE_TEMPORAL_OVERRIDE = 2048"
definition SUPLA_HVAC_VALUE_FLAG_BATTERY_COVER_OPEN :: u16 where [chan_consts]: "SUPLA_HVAC_VALUE_FLAG_BATTERY_COVER_OPEN = 4096"
definition SUPLA_HVAC_VALUE_FLAG_CALIBRATION_ERROR :: u16 where [chan_consts]: "SUPLA_HVAC_VALUE_FLAG_CALIBRATION_ERROR = 8192"
definition SUPLA_HVAC_VALUE_FLAG_ANTIFREEZE_OVERHEAT_ACTIVE :: u16 where [chan_consts]: "SUPLA_HVAC_VALUE_FLAG_ANTIFREEZE_OVERHEAT_ACTIVE = 16384"
definition CONTAINER_FLAG_WARNING_LEVEL :: u16 where [chan_consts]: "CONTAINER_FLAG_WARNING_LEVEL = 1"
definition CONTAINER_FLAG_ALARM_LEVEL :: u16 where [chan_consts]: "CONTAINER_FLAG_ALARM_LEVEL = 2"
definition CONTAINER_FLAG_INVALID_SENSOR_STATE :: u16 where [chan_consts]: "CONTAINER_FLAG_INVALID_SENSOR_STATE = 4"
definition CONTAINER_FLAG_SOUND_ALARM_ON :: u16 where [chan_consts]: "CONTAINER_FLAG_SOUND_ALARM_ON = 8"
definition SUPLA_VALVE_FLAG_FLOODING :: u8 where [chan_consts]: "SUPLA_VALVE_FLAG_FLOODING = 1"
definition SUPLA_VALVE_FLAG_MANUALLY_CLOSED :: u8 where [chan_consts]: "SUPLA_VALVE_FLAG_MANUALLY_CLOSED = 2"
definition SUPLA_VALVE_FLAG_MOTOR_PROBLEM :: u8 where [chan_consts]: "SUPLA_VALVE_FLAG_MOTOR_PROBLEM = 4"
definition SUPLA_RELAY_FLAG_OVERCURRENT_RELAY_OFF :: u16 where [chan_consts]: "SUPLA_RELAY_FLAG_OVERCURRENT_RELAY_OFF = 1"
definition CHANNEL_SEND_VALUE :: u8 where [chan_consts]: "CHANNEL_SEND_VALUE = 1"
definition CHANNEL_SEND_GET_CONFIG :: u8 where [chan_consts]: "CHANNEL_SEND_GET_CONFIG = 2"
definition CHANNEL_SEND_STATE_INFO :: u8 where [chan_consts]: "CHANNEL_SEND_STATE_INFO = 4"
definition CHANNEL_SEND_INITIAL_CAPTION :: u8 where [chan_consts]: "CHANNEL_SEND_INITIAL_CAPTION = 8"
definition EM_VAR_VOLTAGE :: u32 where [chan_consts]: "EM_VAR_VOLTAGE = 2"
definition EM_VALUE_FLAG_PHASE1_ON :: u8 where [chan_consts]: "EM_VALUE_FLAG_PHASE1_ON = 1"
definition EM_VALUE_FLAG_PHASE2_ON :: u8 where [chan_consts]: "EM_VALUE_FLAG_PHASE2_ON = 2"
definition EM_VALUE_FLAG_PHASE3_ON :: u8 where [chan_consts]: "EM_VALUE_FLAG_PHASE3_ON = 4"

section \<open>Events\<close>

definition ON_PRESS :: u16 where [chan_consts]: "ON_PRESS = 0"
definition ON_RELEASE :: u16 where [chan_consts]: "ON_RELEASE = 1"
definition ON_CHANGE :: u16 where [chan_consts]: "ON_CHANGE = 2"
definition ON_TURN_ON :: u16 where [chan_consts]: "ON_TURN_ON = 17"
definition ON_TURN_OFF :: u16 where [chan_consts]: "ON_TURN_OFF = 18"
definition ON_SECONDARY_CHANNEL_CHANGE :: u16 where [chan_consts]: "ON_SECONDARY_CHANNEL_CHANGE = 19"
definition ON_DIMMER_TURN_ON :: u16 where [chan_consts]: "ON_DIMMER_TURN_ON = 47"
definition ON_DIMMER_TURN_OFF :: u16 where [chan_consts]: "ON_DIMMER_TURN_OFF = 48"
definition ON_DIMMER_BRIGHTNESS_CHANGE :: u16 where [chan_consts]: "ON_DIMMER_BRIGHTNESS_CHANGE = 49"
definition ON_COLOR_TURN_ON :: u16 where [chan_consts]: "ON_COLOR_TURN_ON = 50"
definition ON_COLOR_TURN_OFF :: u16 where [chan_consts]: "ON_COLOR_TURN_OFF = 51"
definition ON_COLOR_BRIGHTNESS_CHANGE :: u16 where [chan_consts]: "ON_COLOR_BRIGHTNESS_CHANGE = 52"
definition ON_RED_TURN_ON :: u16 where [chan_consts]: "ON_RED_TURN_ON = 53"
definition ON_RED_TURN_OFF :: u16 where [chan_consts]: "ON_RED_TURN_OFF = 54"
definition ON_RED_CHANGE :: u16 where [chan_consts]: "ON_RED_CHANGE = 55"
definition ON_GREEN_TURN_ON :: u16 where [chan_consts]: "ON_GREEN_TURN_ON = 56"
definition ON_GREEN_TURN_OFF :: u16 where [chan_consts]: "ON_GREEN_TURN_OFF = 57"
definition ON_GREEN_CHANGE :: u16 where [chan_consts]: "ON_GREEN_CHANGE = 58"
definition ON_BLUE_TURN_ON :: u16 where [chan_consts]: "ON_BLUE_TURN_ON = 59"
definition ON_BLUE_TURN_OFF :: u16 where [chan_consts]: "ON_BLUE_TURN_OFF = 60"
definition ON_BLUE_CHANGE :: u16 where [chan_consts]: "ON_BLUE_CHANGE = 61"
definition ON_WHITE_TEMPERATURE_CHANGE :: u16 where [chan_consts]: "ON_WHITE_TEMPERATURE_CHANGE = 62"
definition ON_CHANNEL_FUNCTION_CHANGE :: u16 where [chan_consts]: "ON_CHANNEL_FUNCTION_CHANGE = 65"
definition ON_HVAC_WEEKLY_SCHEDULE_ENABLED :: u16 where [chan_consts]: "ON_HVAC_WEEKLY_SCHEDULE_ENABLED = 69"
definition ON_HVAC_WEEKLY_SCHEDULE_DISABLED :: u16 where [chan_consts]: "ON_HVAC_WEEKLY_SCHEDULE_DISABLED = 70"
definition ON_HVAC_MODE_OFF :: u16 where [chan_consts]: "ON_HVAC_MODE_OFF = 71"
definition ON_HVAC_MODE_HEAT :: u16 where [chan_consts]: "ON_HVAC_MODE_HEAT = 72"
definition ON_HVAC_MODE_COOL :: u16 where [chan_consts]: "ON_HVAC_MODE_COOL = 73"
definition ON_HVAC_MODE_HEAT_COOL :: u16 where [chan_consts]: "ON_HVAC_MODE_HEAT_COOL = 74"
definition ON_CONTAINER_ALARM_ACTIVE :: u16 where [chan_consts]: "ON_CONTAINER_ALARM_ACTIVE = 77"
definition ON_CONTAINER_ALARM_INACTIVE :: u16 where [chan_consts]: "ON_CONTAINER_ALARM_INACTIVE = 78"
definition ON_CONTAINER_WARNING_ACTIVE :: u16 where [chan_consts]: "ON_CONTAINER_WARNING_ACTIVE = 79"
definition ON_CONTAINER_WARNING_INACTIVE :: u16 where [chan_consts]: "ON_CONTAINER_WARNING_INACTIVE = 80"
definition ON_CONTAINER_INVALID_SENSOR_STATE_ACTIVE :: u16 where [chan_consts]: "ON_CONTAINER_INVALID_SENSOR_STATE_ACTIVE = 81"
definition ON_CONTAINER_INVALID_SENSOR_STATE_INACTIVE :: u16 where [chan_consts]: "ON_CONTAINER_INVALID_SENSOR_STATE_INACTIVE = 82"
definition ON_CONTAINER_SOUND_ALARM_ACTIVE :: u16 where [chan_consts]: "ON_CONTAINER_SOUND_ALARM_ACTIVE = 83"
definition ON_CONTAINER_SOUND_ALARM_INACTIVE :: u16 where [chan_consts]: "ON_CONTAINER_SOUND_ALARM_INACTIVE = 84"
definition ON_OPEN :: u16 where [chan_consts]: "ON_OPEN = 88"
definition ON_CLOSE :: u16 where [chan_consts]: "ON_CLOSE = 89"
definition ON_FLOODING_ACTIVE :: u16 where [chan_consts]: "ON_FLOODING_ACTIVE = 90"
definition ON_FLOODING_INACTIVE :: u16 where [chan_consts]: "ON_FLOODING_INACTIVE = 91"
definition ON_VALVE_MANUALLY_CLOSED_ACTIVE :: u16 where [chan_consts]: "ON_VALVE_MANUALLY_CLOSED_ACTIVE = 92"
definition ON_VALVE_MANUALLY_CLOSED_INACTIVE :: u16 where [chan_consts]: "ON_VALVE_MANUALLY_CLOSED_INACTIVE = 93"
definition ON_MOTOR_PROBLEM_ACTIVE :: u16 where [chan_consts]: "ON_MOTOR_PROBLEM_ACTIVE = 94"
definition ON_MOTOR_PROBLEM_INACTIVE :: u16 where [chan_consts]: "ON_MOTOR_PROBLEM_INACTIVE = 95"

section \<open>One-bit flags\<close>

text \<open>The contract of a flag: a constant with one bit.  Testing, setting and clearing it are reading, setting and clearing that bit.\<close>

unbundle bit_operations_syntax

locale one_bit =
  fixes m :: "'a::len word" and k :: nat
  assumes one_bit: "m = 2 ^ k" and in_range: "k < LENGTH('a)"
begin

lemma nonzero [simp]: "m \<noteq> 0"
  using in_range by (simp add: one_bit)

lemma test [simp]: "w AND m = 0 \<longleftrightarrow> \<not> bit w k"
  by (simp add: one_bit and_exp_eq_0_iff_not_bit)

lemma set_bit_iff [simp]: "bit (w OR m) n \<longleftrightarrow> bit w n \<or> n = k"
  using in_range by (auto simp: one_bit bit_simps)

lemma clear_bit_iff [simp]: "bit (w AND NOT m) n \<longleftrightarrow> bit w n \<and> n \<noteq> k"
  using in_range by (auto simp: one_bit bit_simps dest: bit_imp_le_length)

lemma set_changes: "\<not> bit w k \<Longrightarrow> w \<noteq> w OR m"
  using set_bit_iff [of w k] by metis

lemma clear_changes: "bit w k \<Longrightarrow> w \<noteq> w AND NOT m"
  using clear_bit_iff [of w k] by metis

end

interpretation fl_hvac_setpoint_temp_heat_set: one_bit SUPLA_HVAC_VALUE_FLAG_SETPOINT_TEMP_HEAT_SET 0
  by unfold_locales (simp_all add: chan_consts)

interpretation fl_hvac_setpoint_temp_cool_set: one_bit SUPLA_HVAC_VALUE_FLAG_SETPOINT_TEMP_COOL_SET 1
  by unfold_locales (simp_all add: chan_consts)

interpretation fl_hvac_heating: one_bit SUPLA_HVAC_VALUE_FLAG_HEATING 2
  by unfold_locales (simp_all add: chan_consts)

interpretation fl_hvac_cooling: one_bit SUPLA_HVAC_VALUE_FLAG_COOLING 3
  by unfold_locales (simp_all add: chan_consts)

interpretation fl_hvac_weekly_schedule: one_bit SUPLA_HVAC_VALUE_FLAG_WEEKLY_SCHEDULE 4
  by unfold_locales (simp_all add: chan_consts)

interpretation fl_hvac_countdown_timer: one_bit SUPLA_HVAC_VALUE_FLAG_COUNTDOWN_TIMER 5
  by unfold_locales (simp_all add: chan_consts)

interpretation fl_hvac_fan_enabled: one_bit SUPLA_HVAC_VALUE_FLAG_FAN_ENABLED 6
  by unfold_locales (simp_all add: chan_consts)

interpretation fl_hvac_thermometer_error: one_bit SUPLA_HVAC_VALUE_FLAG_THERMOMETER_ERROR 7
  by unfold_locales (simp_all add: chan_consts)

interpretation fl_hvac_clock_error: one_bit SUPLA_HVAC_VALUE_FLAG_CLOCK_ERROR 8
  by unfold_locales (simp_all add: chan_consts)

interpretation fl_hvac_forced_off_by_sensor: one_bit SUPLA_HVAC_VALUE_FLAG_FORCED_OFF_BY_SENSOR 9
  by unfold_locales (simp_all add: chan_consts)

interpretation fl_hvac_cool: one_bit SUPLA_HVAC_VALUE_FLAG_COOL 10
  by unfold_locales (simp_all add: chan_consts)

interpretation fl_hvac_weekly_schedule_temporal_override: one_bit SUPLA_HVAC_VALUE_FLAG_WEEKLY_SCHEDULE_TEMPORAL_OVERRIDE 11
  by unfold_locales (simp_all add: chan_consts)

interpretation fl_hvac_battery_cover_open: one_bit SUPLA_HVAC_VALUE_FLAG_BATTERY_COVER_OPEN 12
  by unfold_locales (simp_all add: chan_consts)

interpretation fl_hvac_calibration_error: one_bit SUPLA_HVAC_VALUE_FLAG_CALIBRATION_ERROR 13
  by unfold_locales (simp_all add: chan_consts)

interpretation fl_hvac_antifreeze_overheat_active: one_bit SUPLA_HVAC_VALUE_FLAG_ANTIFREEZE_OVERHEAT_ACTIVE 14
  by unfold_locales (simp_all add: chan_consts)

interpretation fl_container_warning_level: one_bit CONTAINER_FLAG_WARNING_LEVEL 0
  by unfold_locales (simp_all add: chan_consts)

interpretation fl_container_alarm_level: one_bit CONTAINER_FLAG_ALARM_LEVEL 1
  by unfold_locales (simp_all add: chan_consts)

interpretation fl_container_invalid_sensor_state: one_bit CONTAINER_FLAG_INVALID_SENSOR_STATE 2
  by unfold_locales (simp_all add: chan_consts)

interpretation fl_container_sound_alarm_on: one_bit CONTAINER_FLAG_SOUND_ALARM_ON 3
  by unfold_locales (simp_all add: chan_consts)

interpretation fl_valve_flooding: one_bit SUPLA_VALVE_FLAG_FLOODING 0
  by unfold_locales (simp_all add: chan_consts)

interpretation fl_valve_manually_closed: one_bit SUPLA_VALVE_FLAG_MANUALLY_CLOSED 1
  by unfold_locales (simp_all add: chan_consts)

interpretation fl_valve_motor_problem: one_bit SUPLA_VALVE_FLAG_MOTOR_PROBLEM 2
  by unfold_locales (simp_all add: chan_consts)

interpretation fl_relay_overcurrent_relay_off: one_bit SUPLA_RELAY_FLAG_OVERCURRENT_RELAY_OFF 0
  by unfold_locales (simp_all add: chan_consts)

interpretation fl_send_value: one_bit CHANNEL_SEND_VALUE 0
  by unfold_locales (simp_all add: chan_consts)

interpretation fl_send_get_config: one_bit CHANNEL_SEND_GET_CONFIG 1
  by unfold_locales (simp_all add: chan_consts)

interpretation fl_send_state_info: one_bit CHANNEL_SEND_STATE_INFO 2
  by unfold_locales (simp_all add: chan_consts)

interpretation fl_send_initial_caption: one_bit CHANNEL_SEND_INITIAL_CAPTION 3
  by unfold_locales (simp_all add: chan_consts)


section \<open>Conversions\<close>

lemma protoType_channelType [simp]: "protoTypeToChannelType (channelTypeToProtoType t) = t"
  by (cases t) (simp_all add: protoTypeToChannelType_def chan_consts)

end
