(* ===== verification/Events.thy ===== *)
theory Events
  imports Channel_Types
begin

text \<open>
  The events that buttons, relays and other controls raise and the actions they understand, numbered as in the enumerations of
  \<open>src/src/supla/events.h\<close> and \<open>src/src/supla/actions.h\<close>; the events of channels are in theory \<open>Channel_Types\<close>.
\<close>

section \<open>Events\<close>

definition ON_HOLD :: u16 where [chan_consts]: "ON_HOLD = 3"
definition ON_CLICK_1 :: u16 where [chan_consts]: "ON_CLICK_1 = 4"
definition ON_CLICK_2 :: u16 where [chan_consts]: "ON_CLICK_2 = 5"
definition ON_CLICK_3 :: u16 where [chan_consts]: "ON_CLICK_3 = 6"
definition ON_CLICK_4 :: u16 where [chan_consts]: "ON_CLICK_4 = 7"
definition ON_CLICK_5 :: u16 where [chan_consts]: "ON_CLICK_5 = 8"
definition ON_CLICK_6 :: u16 where [chan_consts]: "ON_CLICK_6 = 9"
definition ON_CLICK_7 :: u16 where [chan_consts]: "ON_CLICK_7 = 10"
definition ON_CLICK_8 :: u16 where [chan_consts]: "ON_CLICK_8 = 11"
definition ON_CLICK_9 :: u16 where [chan_consts]: "ON_CLICK_9 = 12"
definition ON_CLICK_10 :: u16 where [chan_consts]: "ON_CLICK_10 = 13"
definition ON_CRAZY_CLICKER :: u16 where [chan_consts]: "ON_CRAZY_CLICKER = 14"
definition ON_LONG_CLICK_0 :: u16 where [chan_consts]: "ON_LONG_CLICK_0 = 20"
definition ON_LONG_CLICK_1 :: u16 where [chan_consts]: "ON_LONG_CLICK_1 = 21"
definition ON_LONG_CLICK_2 :: u16 where [chan_consts]: "ON_LONG_CLICK_2 = 22"
definition ON_LONG_CLICK_3 :: u16 where [chan_consts]: "ON_LONG_CLICK_3 = 23"
definition ON_LONG_CLICK_4 :: u16 where [chan_consts]: "ON_LONG_CLICK_4 = 24"
definition ON_LONG_CLICK_5 :: u16 where [chan_consts]: "ON_LONG_CLICK_5 = 25"
definition ON_LONG_CLICK_6 :: u16 where [chan_consts]: "ON_LONG_CLICK_6 = 26"
definition ON_LONG_CLICK_7 :: u16 where [chan_consts]: "ON_LONG_CLICK_7 = 27"
definition ON_LONG_CLICK_8 :: u16 where [chan_consts]: "ON_LONG_CLICK_8 = 28"
definition ON_LONG_CLICK_9 :: u16 where [chan_consts]: "ON_LONG_CLICK_9 = 29"
definition ON_LONG_CLICK_10 :: u16 where [chan_consts]: "ON_LONG_CLICK_10 = 30"
definition CONDITIONAL_ON_PRESS :: u16 where [chan_consts]: "CONDITIONAL_ON_PRESS = 31"
definition CONDITIONAL_ON_RELEASE :: u16 where [chan_consts]: "CONDITIONAL_ON_RELEASE = 32"
definition CONDITIONAL_ON_CHANGE :: u16 where [chan_consts]: "CONDITIONAL_ON_CHANGE = 33"
definition ON_HOLD_RELEASE :: u16 where [chan_consts]: "ON_HOLD_RELEASE = 34"

section \<open>Actions\<close>

definition TURN_ON :: int where [chan_consts]: "TURN_ON = 0"
definition TURN_ON_WITHOUT_TIMER :: int where [chan_consts]: "TURN_ON_WITHOUT_TIMER = 1"
definition TURN_OFF :: int where [chan_consts]: "TURN_OFF = 2"
definition TOGGLE :: int where [chan_consts]: "TOGGLE = 3"
definition TOGGLE_WITH_POSTPONED_COMM :: int where [chan_consts]: "TOGGLE_WITH_POSTPONED_COMM = 4"
definition OPEN :: int where [chan_consts]: "OPEN = 7"
definition CLOSE :: int where [chan_consts]: "CLOSE = 8"
definition ENABLE :: int where [chan_consts]: "ENABLE = 52"
definition DISABLE :: int where [chan_consts]: "DISABLE = 53"
definition LEAVE_CONFIG_MODE_AND_RESET :: int where [chan_consts]: "LEAVE_CONFIG_MODE_AND_RESET = 74"
definition ENTER_CONFIG_MODE_OR_RESET_TO_FACTORY :: int where [chan_consts]: "ENTER_CONFIG_MODE_OR_RESET_TO_FACTORY = 75"

end
