(* ===== verification/Key_Value.thy ===== *)
theory Key_Value
  imports Prelude
begin

text \<open>
  The key-value configuration store of a device (\<open>storage/key_value.cpp\<close>): a linked list of typed elements,
  its operations, and the image in which it is written to flash or to a file.

  The list of elements is an HOL list, its head is \<open>first\<close>.  The type tag and the union of an element are one
  datatype; the size that the code keeps for blobs and strings is the length of the payload.  Integers are words of
  their width; a signed integer is its bit pattern.  A C string argument is the memory it points to, of which the
  bytes up to the first NUL count.
\<close>

section \<open>Elements\<close>

definition SUPLA_STORAGE_KEY_SIZE :: nat where
  "SUPLA_STORAGE_KEY_SIZE = 15"

datatype kv_data =
    DATA_TYPE_NOT_SET
  | DATA_TYPE_UINT8 u8
  | DATA_TYPE_INT8 u8
  | DATA_TYPE_UINT32 u32
  | DATA_TYPE_INT32 u32
  | DATA_TYPE_BLOB bytes
  | DATA_TYPE_STRING bytes

record KeyValueElement =
  kv_key :: bytes
  kv_data :: kv_data

definition new_element :: "bytes \<Rightarrow> KeyValueElement" where
  "new_element keyName = \<lparr>kv_key = strncpy keyName SUPLA_STORAGE_KEY_SIZE, kv_data = DATA_TYPE_NOT_SET\<rparr>"

definition isKeyEqual :: "KeyValueElement \<Rightarrow> bytes \<Rightarrow> bool" where
  "isKeyEqual e keyToCheck \<longleftrightarrow> c_str (kv_key e) = take SUPLA_STORAGE_KEY_SIZE (c_str keyToCheck)"

definition elem_setString :: "KeyValueElement \<Rightarrow> bytes option \<Rightarrow> KeyValueElement \<times> bool" where
  "elem_setString e val =
     (case val of
        None \<Rightarrow> (e, False)
      | Some v \<Rightarrow>
          (case kv_data e of
             DATA_TYPE_NOT_SET \<Rightarrow> (e\<lparr>kv_data := DATA_TYPE_STRING (c_str v @ [0])\<rparr>, True)
           | DATA_TYPE_STRING _ \<Rightarrow> (e\<lparr>kv_data := DATA_TYPE_STRING (c_str v @ [0])\<rparr>, True)
           | _ \<Rightarrow> (e, False)))"

text \<open>The getters return the new content of the caller's buffer or variable, \<open>None\<close> for \<open>false\<close>.  \<open>strncpy\<close> fills the
  whole buffer of \<open>maxSize\<close> bytes.\<close>

definition elem_getString :: "KeyValueElement \<Rightarrow> nat \<Rightarrow> bytes option" where
  "elem_getString e maxSize =
     (case kv_data e of
        DATA_TYPE_STRING s \<Rightarrow> if length s \<le> maxSize then Some ((strncpy s maxSize)[length s - 1 := 0]) else None
      | _ \<Rightarrow> None)"

definition elem_getStringSize :: "KeyValueElement \<Rightarrow> nat" where
  "elem_getStringSize e = (case kv_data e of DATA_TYPE_STRING s \<Rightarrow> length s | _ \<Rightarrow> 0)"

definition elem_setBlob :: "KeyValueElement \<Rightarrow> bytes \<Rightarrow> nat \<Rightarrow> KeyValueElement \<times> bool" where
  "elem_setBlob e val blobSize =
     (case kv_data e of
        DATA_TYPE_NOT_SET \<Rightarrow> (e\<lparr>kv_data := DATA_TYPE_BLOB (take blobSize val)\<rparr>, True)
      | DATA_TYPE_BLOB _ \<Rightarrow> (e\<lparr>kv_data := DATA_TYPE_BLOB (take blobSize val)\<rparr>, True)
      | _ \<Rightarrow> (e, False))"

definition elem_getBlob :: "KeyValueElement \<Rightarrow> nat \<Rightarrow> bytes option" where
  "elem_getBlob e blobSize =
     (case kv_data e of DATA_TYPE_BLOB b \<Rightarrow> if length b = blobSize then Some b else None | _ \<Rightarrow> None)"

definition elem_getBlobSize :: "KeyValueElement \<Rightarrow> nat" where
  "elem_getBlobSize e = (case kv_data e of DATA_TYPE_BLOB b \<Rightarrow> length b | _ \<Rightarrow> 0)"

definition elem_getInt8 :: "KeyValueElement \<Rightarrow> u8 option" where
  "elem_getInt8 e = (case kv_data e of DATA_TYPE_INT8 v \<Rightarrow> Some v | _ \<Rightarrow> None)"

definition elem_getUInt8 :: "KeyValueElement \<Rightarrow> u8 option" where
  "elem_getUInt8 e = (case kv_data e of DATA_TYPE_UINT8 v \<Rightarrow> Some v | _ \<Rightarrow> None)"

definition elem_getInt32 :: "KeyValueElement \<Rightarrow> u32 option" where
  "elem_getInt32 e = (case kv_data e of DATA_TYPE_INT32 v \<Rightarrow> Some v | _ \<Rightarrow> None)"

definition elem_getUInt32 :: "KeyValueElement \<Rightarrow> u32 option" where
  "elem_getUInt32 e = (case kv_data e of DATA_TYPE_UINT32 v \<Rightarrow> Some v | _ \<Rightarrow> None)"

definition elem_setInt8 :: "KeyValueElement \<Rightarrow> u8 \<Rightarrow> KeyValueElement \<times> bool" where
  "elem_setInt8 e v =
     (case kv_data e of
        DATA_TYPE_NOT_SET \<Rightarrow> (e\<lparr>kv_data := DATA_TYPE_INT8 v\<rparr>, True)
      | DATA_TYPE_INT8 _ \<Rightarrow> (e\<lparr>kv_data := DATA_TYPE_INT8 v\<rparr>, True)
      | _ \<Rightarrow> (e, False))"

definition elem_setUInt8 :: "KeyValueElement \<Rightarrow> u8 \<Rightarrow> KeyValueElement \<times> bool" where
  "elem_setUInt8 e v =
     (case kv_data e of
        DATA_TYPE_NOT_SET \<Rightarrow> (e\<lparr>kv_data := DATA_TYPE_UINT8 v\<rparr>, True)
      | DATA_TYPE_UINT8 _ \<Rightarrow> (e\<lparr>kv_data := DATA_TYPE_UINT8 v\<rparr>, True)
      | _ \<Rightarrow> (e, False))"

definition elem_setInt32 :: "KeyValueElement \<Rightarrow> u32 \<Rightarrow> KeyValueElement \<times> bool" where
  "elem_setInt32 e v =
     (case kv_data e of
        DATA_TYPE_NOT_SET \<Rightarrow> (e\<lparr>kv_data := DATA_TYPE_INT32 v\<rparr>, True)
      | DATA_TYPE_INT32 _ \<Rightarrow> (e\<lparr>kv_data := DATA_TYPE_INT32 v\<rparr>, True)
      | _ \<Rightarrow> (e, False))"

definition elem_setUInt32 :: "KeyValueElement \<Rightarrow> u32 \<Rightarrow> KeyValueElement \<times> bool" where
  "elem_setUInt32 e v =
     (case kv_data e of
        DATA_TYPE_NOT_SET \<Rightarrow> (e\<lparr>kv_data := DATA_TYPE_UINT32 v\<rparr>, True)
      | DATA_TYPE_UINT32 _ \<Rightarrow> (e\<lparr>kv_data := DATA_TYPE_UINT32 v\<rparr>, True)
      | _ \<Rightarrow> (e, False))"

fun data_type_code :: "kv_data \<Rightarrow> u8" where
  "data_type_code DATA_TYPE_NOT_SET = 0"
| "data_type_code (DATA_TYPE_UINT8 _) = 1"
| "data_type_code (DATA_TYPE_INT8 _) = 2"
| "data_type_code (DATA_TYPE_UINT32 _) = 3"
| "data_type_code (DATA_TYPE_INT32 _) = 4"
| "data_type_code (DATA_TYPE_BLOB _) = 5"
| "data_type_code (DATA_TYPE_STRING _) = 6"

fun data_size :: "kv_data \<Rightarrow> nat" where
  "data_size (DATA_TYPE_BLOB b) = length b"
| "data_size (DATA_TYPE_STRING s) = length s"
| "data_size _ = 0"

fun data_bytes :: "kv_data \<Rightarrow> bytes" where
  "data_bytes DATA_TYPE_NOT_SET = []"
| "data_bytes (DATA_TYPE_UINT8 v) = [v]"
| "data_bytes (DATA_TYPE_INT8 v) = [v]"
| "data_bytes (DATA_TYPE_UINT32 v) = u32_bytes v"
| "data_bytes (DATA_TYPE_INT32 v) = u32_bytes v"
| "data_bytes (DATA_TYPE_BLOB b) = b"
| "data_bytes (DATA_TYPE_STRING s) = s"

text \<open>The bytes that count as written: none when the block does not fit or the element has no value.  The size is
  stored in 16 bits.\<close>

definition elem_serialize :: "KeyValueElement \<Rightarrow> nat \<Rightarrow> bytes" where
  "elem_serialize e maxSize =
     (let blockSize = SUPLA_STORAGE_KEY_SIZE + 1 + 2 + data_size (kv_data e) +
            (case kv_data e of
               DATA_TYPE_INT8 _ \<Rightarrow> 1
             | DATA_TYPE_UINT8 _ \<Rightarrow> 1
             | DATA_TYPE_INT32 _ \<Rightarrow> 4
             | DATA_TYPE_UINT32 _ \<Rightarrow> 4
             | _ \<Rightarrow> 0)
      in if blockSize > maxSize then []
         else if kv_data e = DATA_TYPE_NOT_SET then []
         else take SUPLA_STORAGE_KEY_SIZE (kv_key e) @ [data_type_code (kv_data e)] @
              le_bytes 2 (data_size (kv_data e)) @ data_bytes (kv_data e))"

section \<open>The store\<close>

type_synonym KeyValue = "KeyValueElement list"

definition removeAllMemory :: "KeyValue \<Rightarrow> KeyValue" where
  "removeAllMemory kv = []"

text \<open>\<open>first->add(element)\<close>: the element becomes the last one.\<close>

definition kv_add :: "KeyValue \<Rightarrow> KeyValueElement \<Rightarrow> KeyValue" where
  "kv_add kv e = kv @ [e]"

text \<open>The outcome of reading an image: \<open>Init_Fault\<close> stands for reading a string beyond its buffer.\<close>

datatype init_result = Init_Fault | Init bool KeyValue

function init_loop :: "bytes \<Rightarrow> KeyValue \<Rightarrow> init_result" where
  "init_loop input kv =
     (if SUPLA_STORAGE_KEY_SIZE + 1 + 2 < length input then
        let e = new_element (take SUPLA_STORAGE_KEY_SIZE input);
            ty = input ! SUPLA_STORAGE_KEY_SIZE;
            sz = le_nat (seg (SUPLA_STORAGE_KEY_SIZE + 1) 2 input);
            rest = drop (SUPLA_STORAGE_KEY_SIZE + 1 + 2) input
        in if ty = 1 then
             if 1 \<le> length rest
             then init_loop (drop 1 rest) (kv_add kv (fst (elem_setUInt8 e (rest ! 0))))
             else Init False kv
           else if ty = 2 then
             if 1 \<le> length rest
             then init_loop (drop 1 rest) (kv_add kv (fst (elem_setInt8 e (rest ! 0))))
             else Init False kv
           else if ty = 3 then
             if 4 \<le> length rest
             then init_loop (drop 4 rest) (kv_add kv (fst (elem_setUInt32 e (bytes_u32 (take 4 rest)))))
             else Init False kv
           else if ty = 4 then
             if 4 \<le> length rest
             then init_loop (drop 4 rest) (kv_add kv (fst (elem_setInt32 e (bytes_u32 (take 4 rest)))))
             else Init False kv
           else if ty = 5 then
             if sz \<le> length rest
             then init_loop (drop sz rest) (kv_add kv (fst (elem_setBlob e (take sz rest) sz)))
             else Init False kv
           else if ty = 6 then
             if sz \<le> length rest
             then if 0 \<in> set (take sz rest)
                  then init_loop (drop sz rest) (kv_add kv (fst (elem_setString e (Some (take sz rest)))))
                  else Init_Fault
             else Init False kv
           else Init False kv
      else Init (input = []) kv)"
  by pat_completeness auto
termination by (relation "measure (\<lambda>(input, kv). length input)") (auto simp: SUPLA_STORAGE_KEY_SIZE_def)

declare init_loop.simps [simp del]

definition initFromMemory :: "KeyValue \<Rightarrow> bytes \<Rightarrow> init_result" where
  "initFromMemory kv input =
     (if kv \<noteq> [] then Init False kv
      else if length input < SUPLA_STORAGE_KEY_SIZE + 1 + 2 then Init False kv
      else init_loop input kv)"

fun serialize_loop :: "KeyValue \<Rightarrow> nat \<Rightarrow> bytes \<Rightarrow> bytes" where
  "serialize_loop [] outputMaxSize out = out"
| "serialize_loop (e # kv) outputMaxSize out =
     serialize_loop kv outputMaxSize (out @ elem_serialize e (outputMaxSize - length out))"

definition serializeToMemory :: "KeyValue \<Rightarrow> nat \<Rightarrow> bytes" where
  "serializeToMemory kv outputMaxSize = serialize_loop kv outputMaxSize []"

fun kv_find :: "KeyValue \<Rightarrow> bytes \<Rightarrow> KeyValueElement option" where
  "kv_find [] k = None"
| "kv_find (e # kv) k = (if isKeyEqual e k then Some e else kv_find kv k)"

text \<open>\<open>findOrCreate\<close> with the update of the element that it returns: a new element becomes the first one.\<close>

fun update_first :: "KeyValue \<Rightarrow> bytes \<Rightarrow> KeyValueElement \<Rightarrow> KeyValue" where
  "update_first [] k e' = []"
| "update_first (e # kv) k e' = (if isKeyEqual e k then e' # kv else e # update_first kv k e')"

definition findOrCreate :: "KeyValue \<Rightarrow> bytes \<Rightarrow> KeyValue \<times> KeyValueElement" where
  "findOrCreate kv k =
     (case kv_find kv k of
        Some e \<Rightarrow> (kv, e)
      | None \<Rightarrow> (new_element k # kv, new_element k))"

definition with_element :: "KeyValue \<Rightarrow> bytes \<Rightarrow> (KeyValueElement \<Rightarrow> KeyValueElement \<times> bool) \<Rightarrow> KeyValue \<times> bool" where
  "with_element kv k f =
     (let (kv, e) = findOrCreate kv k; (e', r) = f e in (update_first kv k e', r))"

definition kv_setString :: "KeyValue \<Rightarrow> bytes \<Rightarrow> bytes option \<Rightarrow> KeyValue \<times> bool" where
  "kv_setString kv k v = with_element kv k (\<lambda>e. elem_setString e v)"

definition kv_getString :: "KeyValue \<Rightarrow> bytes \<Rightarrow> nat \<Rightarrow> bytes option" where
  "kv_getString kv k maxSize = (case kv_find kv k of None \<Rightarrow> None | Some e \<Rightarrow> elem_getString e maxSize)"

definition kv_getStringSize :: "KeyValue \<Rightarrow> bytes \<Rightarrow> nat" where
  "kv_getStringSize kv k = (case kv_find kv k of None \<Rightarrow> 0 | Some e \<Rightarrow> elem_getStringSize e)"

definition kv_setBlob :: "KeyValue \<Rightarrow> bytes \<Rightarrow> bytes \<Rightarrow> nat \<Rightarrow> KeyValue \<times> bool" where
  "kv_setBlob kv k v blobSize = with_element kv k (\<lambda>e. elem_setBlob e v blobSize)"

definition kv_getBlob :: "KeyValue \<Rightarrow> bytes \<Rightarrow> nat \<Rightarrow> bytes option" where
  "kv_getBlob kv k blobSize = (case kv_find kv k of None \<Rightarrow> None | Some e \<Rightarrow> elem_getBlob e blobSize)"

definition kv_getBlobSize :: "KeyValue \<Rightarrow> bytes \<Rightarrow> nat" where
  "kv_getBlobSize kv k = (case kv_find kv k of None \<Rightarrow> 0 | Some e \<Rightarrow> elem_getBlobSize e)"

definition kv_getInt8 :: "KeyValue \<Rightarrow> bytes \<Rightarrow> u8 option" where
  "kv_getInt8 kv k = (case kv_find kv k of None \<Rightarrow> None | Some e \<Rightarrow> elem_getInt8 e)"

definition kv_getUInt8 :: "KeyValue \<Rightarrow> bytes \<Rightarrow> u8 option" where
  "kv_getUInt8 kv k = (case kv_find kv k of None \<Rightarrow> None | Some e \<Rightarrow> elem_getUInt8 e)"

definition kv_getInt32 :: "KeyValue \<Rightarrow> bytes \<Rightarrow> u32 option" where
  "kv_getInt32 kv k = (case kv_find kv k of None \<Rightarrow> None | Some e \<Rightarrow> elem_getInt32 e)"

definition kv_getUInt32 :: "KeyValue \<Rightarrow> bytes \<Rightarrow> u32 option" where
  "kv_getUInt32 kv k = (case kv_find kv k of None \<Rightarrow> None | Some e \<Rightarrow> elem_getUInt32 e)"

definition kv_setInt8 :: "KeyValue \<Rightarrow> bytes \<Rightarrow> u8 \<Rightarrow> KeyValue \<times> bool" where
  "kv_setInt8 kv k v = with_element kv k (\<lambda>e. elem_setInt8 e v)"

definition kv_setUInt8 :: "KeyValue \<Rightarrow> bytes \<Rightarrow> u8 \<Rightarrow> KeyValue \<times> bool" where
  "kv_setUInt8 kv k v = with_element kv k (\<lambda>e. elem_setUInt8 e v)"

definition kv_setInt32 :: "KeyValue \<Rightarrow> bytes \<Rightarrow> u32 \<Rightarrow> KeyValue \<times> bool" where
  "kv_setInt32 kv k v = with_element kv k (\<lambda>e. elem_setInt32 e v)"

definition kv_setUInt32 :: "KeyValue \<Rightarrow> bytes \<Rightarrow> u32 \<Rightarrow> KeyValue \<times> bool" where
  "kv_setUInt32 kv k v = with_element kv k (\<lambda>e. elem_setUInt32 e v)"

fun remove_first :: "KeyValue \<Rightarrow> bytes \<Rightarrow> KeyValue" where
  "remove_first [] k = []"
| "remove_first (e # kv) k = (if isKeyEqual e k then kv else e # remove_first kv k)"

definition eraseKey :: "KeyValue \<Rightarrow> bytes \<Rightarrow> KeyValue \<times> bool" where
  "eraseKey kv k = (case kv_find kv k of None \<Rightarrow> (kv, False) | Some _ \<Rightarrow> (remove_first kv k, True))"

section \<open>The abstract store\<close>

text \<open>A store is a finite map from key names, cut at 15 characters, to typed values.  A value can be replaced by a value
  of the same type only.\<close>

definition norm_key :: "bytes \<Rightarrow> bytes" where
  "norm_key k = take SUPLA_STORAGE_KEY_SIZE (c_str k)"

definition kv_abs :: "KeyValue \<Rightarrow> bytes \<rightharpoonup> kv_data" where
  "kv_abs kv = map_of (map (\<lambda>e. (c_str (kv_key e), kv_data e)) kv)"

text \<open>A stored string ends with its only NUL; keys are different and padded with zeros.\<close>

fun data_ok :: "kv_data \<Rightarrow> bool" where
  "data_ok (DATA_TYPE_STRING s) \<longleftrightarrow> s = c_str s @ [0]"
| "data_ok _ \<longleftrightarrow> True"

definition elem_ok :: "KeyValueElement \<Rightarrow> bool" where
  "elem_ok e \<longleftrightarrow> strncpy (kv_key e) SUPLA_STORAGE_KEY_SIZE = kv_key e \<and> data_ok (kv_data e)"

definition kv_inv :: "KeyValue \<Rightarrow> bool" where
  "kv_inv kv \<longleftrightarrow> distinct (map (\<lambda>e. c_str (kv_key e)) kv) \<and> list_all elem_ok kv"

fun same_type :: "kv_data \<Rightarrow> kv_data \<Rightarrow> bool" where
  "same_type d d' \<longleftrightarrow> d = DATA_TYPE_NOT_SET \<or> data_type_code d = data_type_code d'"

definition spec_set :: "(bytes \<rightharpoonup> kv_data) \<Rightarrow> bytes \<Rightarrow> kv_data \<Rightarrow> (bytes \<rightharpoonup> kv_data) \<times> bool" where
  "spec_set m k d =
     (case m (norm_key k) of
        None \<Rightarrow> (m(norm_key k \<mapsto> d), True)
      | Some d' \<Rightarrow> if same_type d' d then (m(norm_key k \<mapsto> d), True) else (m, False))"

lemma isKeyEqual_iff: "isKeyEqual e k \<longleftrightarrow> c_str (kv_key e) = norm_key k"
  by (simp add: isKeyEqual_def norm_key_def)

lemma new_element_key [simp]:
  "c_str (kv_key (new_element k)) = norm_key k" "kv_data (new_element k) = DATA_TYPE_NOT_SET"
  "strncpy (kv_key (new_element k)) SUPLA_STORAGE_KEY_SIZE = kv_key (new_element k)"
  by (simp_all add: new_element_def c_str_strncpy norm_key_def)

lemma kv_find_abs: "map_option kv_data (kv_find kv k) = kv_abs kv (norm_key k)"
  by (induction kv) (auto simp: kv_abs_def isKeyEqual_iff)

lemma kv_find_Some: "kv_find kv k = Some e \<Longrightarrow> e \<in> set kv \<and> c_str (kv_key e) = norm_key k"
  by (induction kv) (auto simp: isKeyEqual_iff split: if_splits)

lemma update_first_abs:
  assumes f: "kv_find kv k = Some e" and k: "kv_key e' = kv_key e" "elem_ok e'" and inv: "kv_inv kv"
  shows "kv_abs (update_first kv k e') = (kv_abs kv)(norm_key k \<mapsto> kv_data e')" "kv_inv (update_first kv k e')"
proof -
  show "kv_abs (update_first kv k e') = (kv_abs kv)(norm_key k \<mapsto> kv_data e')"
    using f k(1) by (induction kv) (auto simp: kv_abs_def isKeyEqual_iff fun_eq_iff split: if_splits)
  have "map kv_key (update_first kv k e') = map kv_key kv"
    using f k(1) by (induction kv) (auto split: if_splits)
  then have "map c_str (map kv_key (update_first kv k e')) = map c_str (map kv_key kv)" by simp
  moreover have "list_all elem_ok (update_first kv k e')"
    using inv k(2) unfolding kv_inv_def by (induction kv) auto
  ultimately show "kv_inv (update_first kv k e')"
    using inv by (simp add: kv_inv_def comp_def)
qed

text \<open>What the setters do with an element, as one lemma each.\<close>

definition sets :: "(KeyValueElement \<Rightarrow> KeyValueElement \<times> bool) \<Rightarrow> kv_data \<Rightarrow> bool" where
  "sets f d \<longleftrightarrow> data_ok d \<and>
     (\<forall>e. f e = (if same_type (kv_data e) d then (e\<lparr>kv_data := d\<rparr>, True) else (e, False)))"

lemma c_str_nul [simp]: "c_str (c_str v @ [0]) = c_str v"
  using c_str_append_zeros [of v 1] by simp

lemma setters:
  "sets (\<lambda>e. elem_setString e (Some v)) (DATA_TYPE_STRING (c_str v @ [0]))"
  "sets (\<lambda>e. elem_setBlob e v n) (DATA_TYPE_BLOB (take n v))"
  "sets (\<lambda>e. elem_setInt8 e b) (DATA_TYPE_INT8 b)" "sets (\<lambda>e. elem_setUInt8 e b) (DATA_TYPE_UINT8 b)"
  "sets (\<lambda>e. elem_setInt32 e w) (DATA_TYPE_INT32 w)" "sets (\<lambda>e. elem_setUInt32 e w) (DATA_TYPE_UINT32 w)"
  by (auto simp: sets_def elem_setString_def elem_setBlob_def elem_setInt8_def elem_setUInt8_def elem_setInt32_def
      elem_setUInt32_def split: kv_data.splits)

lemma kv_inv_Cons:
  "kv_inv (new_element k # kv) \<longleftrightarrow> kv_abs kv (norm_key k) = None \<and> kv_inv kv"
  by (auto simp: kv_inv_def elem_ok_def kv_abs_def map_of_eq_None_iff image_image)

lemma kv_abs_Cons: "kv_abs (e # kv) = (kv_abs kv)(c_str (kv_key e) \<mapsto> kv_data e)"
  by (simp add: kv_abs_def)

lemma with_element_refines:
  assumes f: "sets f d" and inv: "kv_inv kv" and r: "with_element kv k f = (kv', r)"
  shows "spec_set (kv_abs kv) k d = (kv_abs kv', r)" "kv_inv kv'"
proof -
  define kv1 where "kv1 = fst (findOrCreate kv k)"
  define e where "e = snd (findOrCreate kv k)"
  have fe: "f e = (if same_type (kv_data e) d then (e\<lparr>kv_data := d\<rparr>, True) else (e, False))"
    using f by (simp add: sets_def)
  have kv': "kv' = update_first kv1 k (fst (f e))" "r = snd (f e)"
    using r by (auto simp: with_element_def kv1_def e_def split: prod.splits)
  have e1: "kv_find kv1 k = Some e" "kv_inv kv1"
    and ab: "kv_abs kv1 = (if kv_abs kv (norm_key k) = None then (kv_abs kv)(norm_key k \<mapsto> DATA_TYPE_NOT_SET) else kv_abs kv)"
    and de: "kv_data e = (case kv_abs kv (norm_key k) of None \<Rightarrow> DATA_TYPE_NOT_SET | Some d' \<Rightarrow> d')"
    using inv kv_find_abs [of kv k]
    by (auto simp: findOrCreate_def kv1_def e_def isKeyEqual_iff kv_inv_Cons kv_abs_Cons split: option.splits)
  have "elem_ok e" using e1 kv_find_Some [OF e1(1)] by (auto simp: kv_inv_def list_all_iff)
  then have key: "kv_key (fst (f e)) = kv_key e" "elem_ok (fst (f e))"
    using fe f by (simp_all add: elem_ok_def sets_def)
  note U = update_first_abs [OF e1(1) key e1(2), folded kv'(1)]
  show "kv_inv kv'" by (rule U(2))
  show "spec_set (kv_abs kv) k d = (kv_abs kv', r)"
    unfolding U(1) kv'(2) fe ab spec_set_def using de
    by (auto simp: fun_upd_triv split: option.splits if_splits)
qed

text \<open>A string setter that is given a null pointer leaves the store as it is, or with a new element without a value.\<close>

lemma setString_null_refines:
  assumes "kv_inv kv" "kv_setString kv k None = (kv', r)"
  shows "\<not> r" "kv_inv kv'"
    "kv_abs kv' = (case kv_abs kv (norm_key k) of None \<Rightarrow> (kv_abs kv)(norm_key k \<mapsto> DATA_TYPE_NOT_SET) | Some _ \<Rightarrow> kv_abs kv)"
proof -
  have u: "update_first kv k e = kv" if "kv_find kv k = Some e" for kv e
    using that by (induction kv) (auto split: if_splits)
  show "\<not> r" using assms(2)
    by (auto simp: kv_setString_def with_element_def elem_setString_def split: prod.splits)
  show "kv_inv kv'" "kv_abs kv' = (case kv_abs kv (norm_key k) of None \<Rightarrow> (kv_abs kv)(norm_key k \<mapsto> DATA_TYPE_NOT_SET) | Some _ \<Rightarrow> kv_abs kv)"
    using assms kv_find_abs [of kv k] u
    by (auto simp: kv_setString_def with_element_def elem_setString_def findOrCreate_def isKeyEqual_iff
        kv_inv_Cons kv_abs_Cons split: option.splits)
qed

lemma set_remove_first: "set (remove_first kv k) \<subseteq> set kv"
  by (induction kv) auto

lemma remove_first_abs:
  assumes "kv_inv kv"
  shows "kv_abs (remove_first kv k) = (kv_abs kv)(norm_key k := None)" "kv_inv (remove_first kv k)"
proof -
  have n: "kv_abs kv (norm_key k) = None" if "norm_key k \<notin> (\<lambda>e. c_str (kv_key e)) ` set kv" for kv
    using that by (auto simp: kv_abs_def map_of_eq_None_iff image_image)
  show "kv_abs (remove_first kv k) = (kv_abs kv)(norm_key k := None)"
    using assms by (induction kv) (auto simp: kv_inv_def isKeyEqual_iff kv_abs_Cons fun_eq_iff n [symmetric] kv_abs_def [of "[]"])
  have "distinct (map (\<lambda>e. c_str (kv_key e)) (remove_first kv k))"
    using assms by (induction kv) (auto simp: kv_inv_def dest: subsetD [OF set_remove_first])
  then show "kv_inv (remove_first kv k)"
    using assms set_remove_first [of kv k] by (auto simp: kv_inv_def list_all_iff)
qed

section \<open>Runs of operations\<close>

datatype kv_op =
    Set_String bytes "bytes option" | Set_Blob bytes bytes nat | Set_Int8 bytes u8 | Set_UInt8 bytes u8
  | Set_Int32 bytes u32 | Set_UInt32 bytes u32 | Erase_Key bytes | Remove_All

fun kv_step :: "kv_op \<Rightarrow> KeyValue \<Rightarrow> KeyValue \<times> bool" where
  "kv_step (Set_String k v) kv = kv_setString kv k v"
| "kv_step (Set_Blob k v n) kv = kv_setBlob kv k v n"
| "kv_step (Set_Int8 k v) kv = kv_setInt8 kv k v"
| "kv_step (Set_UInt8 k v) kv = kv_setUInt8 kv k v"
| "kv_step (Set_Int32 k v) kv = kv_setInt32 kv k v"
| "kv_step (Set_UInt32 k v) kv = kv_setUInt32 kv k v"
| "kv_step (Erase_Key k) kv = eraseKey kv k"
| "kv_step Remove_All kv = (removeAllMemory kv, True)"

fun spec_step :: "kv_op \<Rightarrow> (bytes \<rightharpoonup> kv_data) \<Rightarrow> (bytes \<rightharpoonup> kv_data) \<times> bool" where
  "spec_step (Set_String k (Some v)) m = spec_set m k (DATA_TYPE_STRING (c_str v @ [0]))"
| "spec_step (Set_String k None) m =
     (if m (norm_key k) = None then m(norm_key k \<mapsto> DATA_TYPE_NOT_SET) else m, False)"
| "spec_step (Set_Blob k v n) m = spec_set m k (DATA_TYPE_BLOB (take n v))"
| "spec_step (Set_Int8 k v) m = spec_set m k (DATA_TYPE_INT8 v)"
| "spec_step (Set_UInt8 k v) m = spec_set m k (DATA_TYPE_UINT8 v)"
| "spec_step (Set_Int32 k v) m = spec_set m k (DATA_TYPE_INT32 v)"
| "spec_step (Set_UInt32 k v) m = spec_set m k (DATA_TYPE_UINT32 v)"
| "spec_step (Erase_Key k) m = (m(norm_key k := None), m (norm_key k) \<noteq> None)"
| "spec_step Remove_All m = (Map.empty, True)"

lemma kv_step_refines:
  assumes inv: "kv_inv kv" and r: "kv_step op kv = (kv', r)"
  shows "spec_step op (kv_abs kv) = (kv_abs kv', r)" "kv_inv kv'"
proof -
  note W = with_element_refines [OF setters(1) inv] with_element_refines [OF setters(2) inv]
    with_element_refines [OF setters(3) inv] with_element_refines [OF setters(4) inv]
    with_element_refines [OF setters(5) inv] with_element_refines [OF setters(6) inv]
  have "spec_step op (kv_abs kv) = (kv_abs kv', r) \<and> kv_inv kv'"
  proof (cases op)
    case (Set_String k v)
    then show ?thesis
      using r W(1,2) setString_null_refines [OF inv, of k kv' r]
      by (cases v) (auto simp: kv_setString_def split: option.splits)
  next
    case (Erase_Key k)
    then show ?thesis
      using r remove_first_abs [OF inv, of k] kv_find_abs [of kv k, symmetric] inv
      by (auto simp: eraseKey_def fun_upd_triv split: option.splits)
  next
    case Remove_All
    then show ?thesis using r by (auto simp: removeAllMemory_def kv_abs_def kv_inv_def)
  qed (use r W(3-12) in \<open>auto simp: kv_setBlob_def kv_setInt8_def kv_setUInt8_def kv_setInt32_def kv_setUInt32_def\<close>)
  then show "spec_step op (kv_abs kv) = (kv_abs kv', r)" "kv_inv kv'" by simp_all
qed

fun kv_run :: "kv_op list \<Rightarrow> KeyValue \<Rightarrow> KeyValue \<times> bool list" where
  "kv_run [] kv = (kv, [])"
| "kv_run (op # ops) kv = (let (kv, r) = kv_step op kv; (kv, rs) = kv_run ops kv in (kv, r # rs))"

fun spec_run :: "kv_op list \<Rightarrow> (bytes \<rightharpoonup> kv_data) \<Rightarrow> (bytes \<rightharpoonup> kv_data) \<times> bool list" where
  "spec_run [] m = (m, [])"
| "spec_run (op # ops) m = (let (m, r) = spec_step op m; (m, rs) = spec_run ops m in (m, r # rs))"

lemma kv_run_refines:
  "kv_inv kv \<Longrightarrow> kv_run ops kv = (kv', rs) \<Longrightarrow> spec_run ops (kv_abs kv) = (kv_abs kv', rs) \<and> kv_inv kv'"
proof (induction ops arbitrary: kv kv' rs)
  case (Cons op ops)
  obtain kv1 r where s: "kv_step op kv = (kv1, r)" by fastforce
  then show ?case
    using Cons.IH [of kv1] kv_step_refines [OF Cons.prems(1) s] Cons.prems(2)
    by (auto split: prod.splits)
qed simp

text \<open>What the getters return.\<close>

lemma strncpy_nul:
  assumes "s = c_str s @ [0]" "length s \<le> n"
  shows "(strncpy s n)[length s - 1 := 0] = c_str s @ replicate (n - length (c_str s)) 0"
proof -
  have l: "length s = Suc (length (c_str s))" using arg_cong [OF assms(1), of length] by simp
  then obtain j where j: "n - length (c_str s) = Suc j" using assms(2) by (metis Suc_diff_le Suc_le_D le_SucI not_less_eq_eq)
  show ?thesis using l assms(2) j by (simp add: strncpy_def list_update_append)
qed

lemma getters:
  assumes "kv_inv kv"
  shows "kv_getInt8 kv k = Some b \<longleftrightarrow> kv_abs kv (norm_key k) = Some (DATA_TYPE_INT8 b)"
    "kv_getUInt8 kv k = Some b \<longleftrightarrow> kv_abs kv (norm_key k) = Some (DATA_TYPE_UINT8 b)"
    "kv_getInt32 kv k = Some w \<longleftrightarrow> kv_abs kv (norm_key k) = Some (DATA_TYPE_INT32 w)"
    "kv_getUInt32 kv k = Some w \<longleftrightarrow> kv_abs kv (norm_key k) = Some (DATA_TYPE_UINT32 w)"
    "kv_getBlob kv k n = Some bs \<longleftrightarrow> kv_abs kv (norm_key k) = Some (DATA_TYPE_BLOB bs) \<and> length bs = n"
    "kv_getString kv k n = Some bs \<longleftrightarrow> (\<exists>s. kv_abs kv (norm_key k) = Some (DATA_TYPE_STRING s) \<and> length s \<le> n \<and>
       bs = c_str s @ replicate (n - length (c_str s)) 0)"
proof -
  have ok: "data_ok (kv_data e)" if "kv_find kv k = Some e" for e
    using kv_find_Some [OF that] assms by (auto simp: kv_inv_def list_all_iff elem_ok_def)
  show "kv_getString kv k n = Some bs \<longleftrightarrow> (\<exists>s. kv_abs kv (norm_key k) = Some (DATA_TYPE_STRING s) \<and> length s \<le> n \<and>
       bs = c_str s @ replicate (n - length (c_str s)) 0)"
    using ok strncpy_nul
    by (auto simp: kv_getString_def elem_getString_def simp flip: kv_find_abs split: option.splits kv_data.splits)
qed (auto simp: kv_getInt8_def kv_getUInt8_def kv_getInt32_def kv_getUInt32_def kv_getBlob_def elem_getInt8_def
    elem_getUInt8_def elem_getInt32_def elem_getUInt32_def elem_getBlob_def simp flip: kv_find_abs
    split: option.splits kv_data.splits if_splits)

text \<open>C26. The configuration store implements a map.  For every sequence of set, erase and clear operations on an empty store, the
  results reported by the operations and everything that the typed getters return afterwards are those of the abstract
  store: a finite map from key names cut at 15 characters to typed values, where setting a key that holds a value of another type
  is refused and changes nothing.  Strings are returned with their terminator and the rest of the buffer
  filled with zeros, and only when the buffer is large enough.\<close>

theorem key_value_refines:
  "let (kv, rs) = kv_run ops []; (m, rs') = spec_run ops Map.empty in
     rs = rs' \<and> kv_inv kv \<and> kv_abs kv = m \<and>
     (kv_getInt8 kv k = Some b \<longleftrightarrow> m (norm_key k) = Some (DATA_TYPE_INT8 b)) \<and>
     (kv_getUInt8 kv k = Some b \<longleftrightarrow> m (norm_key k) = Some (DATA_TYPE_UINT8 b)) \<and>
     (kv_getInt32 kv k = Some w \<longleftrightarrow> m (norm_key k) = Some (DATA_TYPE_INT32 w)) \<and>
     (kv_getUInt32 kv k = Some w \<longleftrightarrow> m (norm_key k) = Some (DATA_TYPE_UINT32 w)) \<and>
     (kv_getBlob kv k n = Some bs \<longleftrightarrow> m (norm_key k) = Some (DATA_TYPE_BLOB bs) \<and> length bs = n) \<and>
     (kv_getString kv k n = Some bs \<longleftrightarrow> (\<exists>s. m (norm_key k) = Some (DATA_TYPE_STRING s) \<and> length s \<le> n \<and>
        bs = c_str s @ replicate (n - length (c_str s)) 0))"
proof -
  obtain kv rs where r: "kv_run ops [] = (kv, rs)" by fastforce
  have "kv_inv []" "kv_abs [] = Map.empty" by (simp_all add: kv_inv_def kv_abs_def)
  then have R: "spec_run ops Map.empty = (kv_abs kv, rs)" "kv_inv kv" using kv_run_refines [of "[]", OF _ r] by auto
  show ?thesis unfolding r R(1) Let_def prod.case getters [OF R(2)] using R(2) by blast
qed

section \<open>The stored image\<close>

definition kv_block :: "KeyValueElement \<Rightarrow> bytes" where
  "kv_block e = kv_key e @ [data_type_code (kv_data e)] @ le_bytes 2 (data_size (kv_data e)) @ data_bytes (kv_data e)"

text \<open>An element that can be stored: it has a value whose size fits in 16 bits.\<close>

definition storable :: "KeyValueElement \<Rightarrow> bool" where
  "storable e \<longleftrightarrow> elem_ok e \<and> kv_data e \<noteq> DATA_TYPE_NOT_SET \<and> data_size (kv_data e) < 2 ^ 16"

lemma storable_key: "storable e \<Longrightarrow> length (kv_key e) = 15"
  using length_strncpy [of "kv_key e" SUPLA_STORAGE_KEY_SIZE]
  by (simp add: storable_def elem_ok_def SUPLA_STORAGE_KEY_SIZE_def)

lemma length_kv_block: "storable e \<Longrightarrow> length (kv_block e) = 18 + length (data_bytes (kv_data e))"
  by (simp add: kv_block_def storable_key)

lemma elem_serialize_eq:
  "storable e \<Longrightarrow> length (kv_block e) \<le> maxSize \<Longrightarrow> elem_serialize e maxSize = kv_block e"
  by (cases "kv_data e")
    (simp_all add: elem_serialize_def kv_block_def storable_key storable_def SUPLA_STORAGE_KEY_SIZE_def)

lemma serialize_loop_eq:
  assumes "list_all storable kv" "length out + length (concat (map kv_block kv)) \<le> maxSize"
  shows "serialize_loop kv maxSize out = out @ concat (map kv_block kv)"
  using assms by (induction kv arbitrary: out) (simp_all add: elem_serialize_eq)

text \<open>Reading one block.\<close>

lemma init_loop_block:
  assumes e: "storable e" and rest: "data_bytes (kv_data e) \<noteq> [] \<or> rest \<noteq> []"
  shows "init_loop (kv_block e @ rest) kv = init_loop rest (kv @ [e])"
proof -
  have k: "length (kv_key e) = 15" by (rule storable_key [OF e])
  let ?in = "kv_block e @ rest"
  have l: "SUPLA_STORAGE_KEY_SIZE + 1 + 2 < length ?in"
    using rest by (simp add: length_kv_block [OF e] SUPLA_STORAGE_KEY_SIZE_def)
  have f: "take SUPLA_STORAGE_KEY_SIZE ?in = kv_key e" "?in ! SUPLA_STORAGE_KEY_SIZE = data_type_code (kv_data e)"
    "seg (SUPLA_STORAGE_KEY_SIZE + 1) 2 ?in = le_bytes 2 (data_size (kv_data e))"
    "drop (SUPLA_STORAGE_KEY_SIZE + 1 + 2) ?in = data_bytes (kv_data e) @ rest"
    using k by (simp_all add: kv_block_def SUPLA_STORAGE_KEY_SIZE_def seg_def nth_append)
  have sz: "le_nat (le_bytes 2 (data_size (kv_data e))) = data_size (kv_data e)"
    using e by (simp add: le_nat_le_bytes storable_def)
  have n: "new_element (kv_key e) = e\<lparr>kv_data := DATA_TYPE_NOT_SET\<rparr>"
    using e by (simp add: new_element_def storable_def elem_ok_def)
  have step: "init_loop ?in kv =
     (let e' = e\<lparr>kv_data := DATA_TYPE_NOT_SET\<rparr>; ty = data_type_code (kv_data e); s = data_size (kv_data e);
          r = data_bytes (kv_data e) @ rest
      in if ty = 1 then if 1 \<le> length r then init_loop (drop 1 r) (kv_add kv (fst (elem_setUInt8 e' (r ! 0)))) else Init False kv
         else if ty = 2 then if 1 \<le> length r then init_loop (drop 1 r) (kv_add kv (fst (elem_setInt8 e' (r ! 0)))) else Init False kv
         else if ty = 3 then if 4 \<le> length r then init_loop (drop 4 r) (kv_add kv (fst (elem_setUInt32 e' (bytes_u32 (take 4 r))))) else Init False kv
         else if ty = 4 then if 4 \<le> length r then init_loop (drop 4 r) (kv_add kv (fst (elem_setInt32 e' (bytes_u32 (take 4 r))))) else Init False kv
         else if ty = 5 then if s \<le> length r then init_loop (drop s r) (kv_add kv (fst (elem_setBlob e' (take s r) s))) else Init False kv
         else if ty = 6 then if s \<le> length r then if 0 \<in> set (take s r)
             then init_loop (drop s r) (kv_add kv (fst (elem_setString e' (Some (take s r))))) else Init_Fault else Init False kv
         else Init False kv)"
    by (subst init_loop.simps) (simp only: l if_True f sz n Let_def)
  have "init_loop ?in kv = init_loop rest (kv @ [e\<lparr>kv_data := kv_data e\<rparr>])"
  proof (cases "kv_data e")
    case (DATA_TYPE_STRING s)
    then have s: "s = c_str s @ [0]" using e by (simp add: storable_def elem_ok_def)
    then have "0 \<in> set s" by (metis in_set_conv_decomp)
    then show ?thesis using DATA_TYPE_STRING s unfolding step by (simp add: Let_def kv_add_def elem_setString_def)
  qed (use e in \<open>simp_all add: step Let_def kv_add_def elem_setUInt8_def elem_setInt8_def elem_setUInt32_def
        elem_setInt32_def elem_setBlob_def storable_def\<close>)
  then show ?thesis by simp
qed

lemma init_loop_blocks:
  assumes "list_all storable kv" "rest \<noteq> [] \<or> kv \<noteq> [] \<and> data_bytes (kv_data (last kv)) \<noteq> []"
  shows "init_loop (concat (map kv_block kv) @ rest) acc = init_loop rest (acc @ kv)"
  using assms
proof (induction kv arbitrary: acc)
  case (Cons e kv)
  have "data_bytes (kv_data e) \<noteq> [] \<or> concat (map kv_block kv) @ rest \<noteq> []"
    using Cons.prems(2) by (cases kv) (auto simp: kv_block_def)
  then have "init_loop (concat (map kv_block (e # kv)) @ rest) acc = init_loop (concat (map kv_block kv) @ rest) (acc @ [e])"
    using init_loop_block [of e "concat (map kv_block kv) @ rest" acc] Cons.prems(1) by simp
  also have "\<dots> = init_loop rest (acc @ e # kv)"
    using Cons.IH [of "acc @ [e]"] Cons.prems by (cases kv) auto
  finally show ?case .
qed simp

lemma init_loop_end: "init_loop [] kv = Init True kv"
  by (subst init_loop.simps) simp

lemma image_length:
  "kv \<noteq> [] \<Longrightarrow> list_all storable kv \<Longrightarrow> 18 \<le> length (concat (map kv_block kv))"
  by (cases kv) (simp_all add: length_kv_block)

lemma serialized_init:
  assumes "list_all storable kv" "kv \<noteq> []" "data_bytes (kv_data (last kv)) \<noteq> []"
    and "length (concat (map kv_block kv)) \<le> maxSize"
  shows "initFromMemory [] (serializeToMemory kv maxSize) = Init True kv"
proof -
  have "serializeToMemory kv maxSize = concat (map kv_block kv)"
    using serialize_loop_eq [of kv "[]" maxSize] assms(1,4) by (simp add: serializeToMemory_def)
  moreover have "init_loop (concat (map kv_block kv)) [] = Init True kv"
    using init_loop_blocks [of kv "[]" "[]"] assms(1-3) by (simp add: init_loop_end)
  ultimately show ?thesis
    using image_length [OF assms(2,1)] by (simp add: initFromMemory_def SUPLA_STORAGE_KEY_SIZE_def)
qed

text \<open>A saved configuration is read back.  When every element has a value, no value is longer than 65535 bytes, the
  value of the last element is not an empty blob and the image fits into the output, then reading the image
  that \<open>serializeToMemory\<close> writes into an empty store succeeds and yields the same elements in the same order.\<close>

theorem key_value_round_trip:
  assumes "list_all storable kv" "kv \<noteq> []" "data_bytes (kv_data (last kv)) \<noteq> []"
    and "length (concat (map kv_block kv)) \<le> maxSize"
  shows "initFromMemory [] (serializeToMemory kv maxSize) = Init True kv"
  using assms by (rule serialized_init)

definition demo_kv :: KeyValue where
  "demo_kv = fst (kv_run [Set_Int8 [97] 5, Set_String [98] (Some [104, 105, 0])] [])"

lemma demo_kv_eq:
  "demo_kv = [\<lparr>kv_key = 98 # replicate 14 0, kv_data = DATA_TYPE_STRING [104, 105, 0]\<rparr>,
     \<lparr>kv_key = 97 # replicate 14 0, kv_data = DATA_TYPE_INT8 5\<rparr>]"
  by code_simp

lemma c_str_padded: "x \<noteq> 0 \<Longrightarrow> c_str (x # replicate n 0) = [x]"
  by (cases n) (auto simp: c_str_def)

theorem key_value_round_trip_witness: "initFromMemory [] (serializeToMemory demo_kv 100) = Init True demo_kv"
proof (rule key_value_round_trip)
  have "strncpy (x # replicate 14 0) 15 = x # replicate 14 0" if "x \<noteq> 0" for x
    using that by (simp add: strncpy_def c_str_padded)
  then show "list_all storable demo_kv"
    by (simp add: demo_kv_eq storable_def elem_ok_def SUPLA_STORAGE_KEY_SIZE_def c_str_def)
qed (simp_all add: demo_kv_eq kv_block_def)

text \<open>An empty blob in the last place makes the whole image unreadable: the loop of \<open>initFromMemory\<close> asks for at least one
  byte after the header, so the last block is left over and the function reports failure, although all
  elements before it have been read.  New keys are put in front, so the key that was set first is the last one.\<close>

theorem key_value_empty_blob_last:
  assumes "list_all storable kv" "storable e" "kv_data e = DATA_TYPE_BLOB []"
    and "length (concat (map kv_block (kv @ [e]))) \<le> maxSize"
  shows "initFromMemory [] (serializeToMemory (kv @ [e]) maxSize) = Init False kv"
proof -
  have "serializeToMemory (kv @ [e]) maxSize = concat (map kv_block kv) @ kv_block e"
    using serialize_loop_eq [of "kv @ [e]" "[]" maxSize] assms(1,2,4) by (simp add: serializeToMemory_def)
  moreover have "init_loop (concat (map kv_block kv) @ kv_block e) [] = init_loop (kv_block e) kv"
    using init_loop_blocks [of kv "kv_block e" "[]"] assms(1) by (simp add: kv_block_def)
  moreover have "init_loop (kv_block e) kv = Init False kv"
    using length_kv_block [OF assms(2)] assms(3)
    by (subst init_loop.simps) (auto simp: SUPLA_STORAGE_KEY_SIZE_def)
  ultimately show ?thesis
    using length_kv_block [OF assms(2)] by (simp add: initFromMemory_def SUPLA_STORAGE_KEY_SIZE_def)
qed

theorem key_value_empty_blob_last_witness:
  "initFromMemory [] (serializeToMemory (fst (kv_run [Set_Blob [97] [] 0] [])) 100) = Init False []"
proof -
  have e: "fst (kv_run [Set_Blob [97] [] 0] []) = [] @ [\<lparr>kv_key = 97 # replicate 14 0, kv_data = DATA_TYPE_BLOB []\<rparr>]"
    by code_simp
  show ?thesis
    unfolding e
    by (rule key_value_empty_blob_last)
      (simp_all add: storable_def elem_ok_def strncpy_def c_str_padded SUPLA_STORAGE_KEY_SIZE_def kv_block_def)
qed

text \<open>A string block without a terminator is read beyond its buffer.\<close>

lemma key_value_unterminated_string:
  assumes "length key = 15" "0 \<notin> set s" "length s < 2 ^ 16" "s \<noteq> []"
  shows "initFromMemory [] (key @ [6] @ le_bytes 2 (length s) @ s) = Init_Fault"
proof -
  have "le_nat (le_bytes 2 (length s)) = length s" using assms(3) by (simp add: le_nat_le_bytes)
  then show ?thesis
    using assms(1,2,4)
    by (simp add: initFromMemory_def SUPLA_STORAGE_KEY_SIZE_def init_loop.simps [of "key @ _"] seg_def nth_append Let_def)
qed

end
