(* ===== verification/Config.thy ===== *)
theory Config
  imports Key_Value Proto_Const
begin

text \<open>
  The device configuration (\<open>storage/config.cpp\<close>): typed settings over a store of keys and values, delayed saving, the flag that
  a configuration change has to be sent to the server, and the password of the configuration mode.

  \<open>Config\<close> is an abstract class.  Its virtual methods are the record \<open>config_vt\<close>, an argument of every operation; \<open>keyvalue_vt\<close> is
  the record of the class \<open>KeyValue\<close>.  What the class relies on is the locale \<open>config_store\<close>.  The time is an argument \<open>now\<close>, one for
  each call of \<open>millis()\<close>.
\<close>

section \<open>State\<close>

record 's config_vt =
  setString :: "'s \<Rightarrow> bytes \<Rightarrow> bytes option \<Rightarrow> 's \<times> bool"
  getString :: "'s \<Rightarrow> bytes \<Rightarrow> nat \<Rightarrow> bytes option"
  getStringSize :: "'s \<Rightarrow> bytes \<Rightarrow> nat"
  setBlob :: "'s \<Rightarrow> bytes \<Rightarrow> bytes \<Rightarrow> nat \<Rightarrow> 's \<times> bool"
  getBlob :: "'s \<Rightarrow> bytes \<Rightarrow> nat \<Rightarrow> bytes option"
  getInt8 :: "'s \<Rightarrow> bytes \<Rightarrow> u8 option"
  getUInt8 :: "'s \<Rightarrow> bytes \<Rightarrow> u8 option"
  getInt32 :: "'s \<Rightarrow> bytes \<Rightarrow> u32 option"
  setInt8 :: "'s \<Rightarrow> bytes \<Rightarrow> u8 \<Rightarrow> 's \<times> bool"
  setUInt8 :: "'s \<Rightarrow> bytes \<Rightarrow> u8 \<Rightarrow> 's \<times> bool"
  setInt32 :: "'s \<Rightarrow> bytes \<Rightarrow> u32 \<Rightarrow> 's \<times> bool"
  isEncryptionEnabled :: bool

record 's Config =
  store :: 's
  saveDelayTimestamp :: u32
  deviceConfigUpdateDelayTimestamp :: u32
  saveDelayMs :: u16
  deviceConfigChangeFlag :: u8

definition new_config :: "'s \<Rightarrow> 's Config" where
  "new_config s = \<lparr>store = s, saveDelayTimestamp = 0, deviceConfigUpdateDelayTimestamp = 0, saveDelayMs = 0,
     deviceConfigChangeFlag = - 1\<rparr>"

definition SUPLA_CONFIG_MAX_KEY_SIZE :: nat where
  [const_defs]: "SUPLA_CONFIG_MAX_KEY_SIZE = 16"

definition MAX_SSID_SIZE :: nat where
  [const_defs]: "MAX_SSID_SIZE = 33"

definition MAX_WIFI_PASSWORD_SIZE :: nat where
  [const_defs]: "MAX_WIFI_PASSWORD_SIZE = 64"

definition MQTT_USERNAME_MAX_SIZE :: nat where
  [const_defs]: "MQTT_USERNAME_MAX_SIZE = 256"

definition MQTT_PASSWORD_MAX_SIZE :: nat where
  [const_defs]: "MQTT_PASSWORD_MAX_SIZE = 256"

definition SUPLA_CFG_MODE_SALT_SIZE :: nat where
  [const_defs]: "SUPLA_CFG_MODE_SALT_SIZE = 16"

definition SUPLA_CFG_MODE_PASSWORD_SIZE :: nat where
  [const_defs]: "SUPLA_CFG_MODE_PASSWORD_SIZE = 32"

definition SUPLA_MAX_URL_LENGTH :: nat where
  [const_defs]: "SUPLA_MAX_URL_LENGTH = 202"

datatype DeviceMode =
    DEVICE_MODE_NOT_SET | DEVICE_MODE_TEST | DEVICE_MODE_NORMAL | DEVICE_MODE_CONFIG | DEVICE_MODE_SW_UPDATE
  | DEVICE_MODE_OFFLINE | DEVICE_MODE_NOT_CONFIGURED

datatype AutoUpdatePolicy = ForcedOff | Disabled | SecurityOnly | AllUpdates

record SaltPassword =
  salt :: bytes
  passwordSha :: bytes

text \<open>String literals.\<close>

definition str :: "string \<Rightarrow> bytes" where
  "str s = map of_char s"

definition DeviceConfigChangeCfgTag :: bytes where
  "DeviceConfigChangeCfgTag = str ''devcfg_chng''"

definition ChannelFunctionTag :: bytes where
  "ChannelFunctionTag = str ''fnc''"

definition ChannelConfigChangedFlagTag :: bytes where
  "ChannelConfigChangedFlagTag = str ''cfg_chng''"

definition OtaModeTag :: bytes where
  "OtaModeTag = str ''ota_mode''"

text \<open>A call of a setter of the store.\<close>

definition stored :: "'s Config \<Rightarrow> 's \<times> bool \<Rightarrow> 's Config \<times> bool" where
  "stored c r = (c\<lparr>store := fst r\<rparr>, snd r)"

section \<open>Settings\<close>

definition getWiFiSSID :: "'s config_vt \<Rightarrow> 's Config \<Rightarrow> bytes option" where
  "getWiFiSSID vt c = getString vt (store c) (str ''wifissid'') MAX_SSID_SIZE"

definition getWiFiPassword :: "'s config_vt \<Rightarrow> 's Config \<Rightarrow> bytes option" where
  "getWiFiPassword vt c = getString vt (store c) (str ''wifipasswd'') MAX_WIFI_PASSWORD_SIZE"

definition getAltWiFiSSID :: "'s config_vt \<Rightarrow> 's Config \<Rightarrow> bytes option" where
  "getAltWiFiSSID vt c = getString vt (store c) (str ''altwifissid'') MAX_SSID_SIZE"

definition getAltWiFiPassword :: "'s config_vt \<Rightarrow> 's Config \<Rightarrow> bytes option" where
  "getAltWiFiPassword vt c = getString vt (store c) (str ''altwifipasswd'') MAX_WIFI_PASSWORD_SIZE"

definition getDeviceName :: "'s config_vt \<Rightarrow> 's Config \<Rightarrow> bytes option" where
  "getDeviceName vt c = getString vt (store c) (str ''devicename'') SUPLA_DEVICE_NAME_MAXSIZE"

text \<open>A flag: the default, overwritten by \<open>getInt8\<close> when the key is found.\<close>

definition get_flag :: "'s config_vt \<Rightarrow> 's Config \<Rightarrow> bytes \<Rightarrow> u8 \<Rightarrow> bool" where
  "get_flag vt c k dflt = ((case getInt8 vt (store c) k of None \<Rightarrow> dflt | Some v \<Rightarrow> v) = 1)"

definition set_flag :: "'s config_vt \<Rightarrow> 's Config \<Rightarrow> bytes \<Rightarrow> bool \<Rightarrow> 's Config \<times> bool" where
  "set_flag vt c k enabled = stored c (setInt8 vt (store c) k (if enabled then 1 else 0))"

definition isSuplaCommProtocolEnabled :: "'s config_vt \<Rightarrow> 's Config \<Rightarrow> bool" where
  "isSuplaCommProtocolEnabled vt c = get_flag vt c (str ''suplacommproto'') 1"

definition isMqttCommProtocolEnabled :: "'s config_vt \<Rightarrow> 's Config \<Rightarrow> bool" where
  "isMqttCommProtocolEnabled vt c = get_flag vt c (str ''mqttcommproto'') 0"

definition setMqttTlsEnabled :: "'s config_vt \<Rightarrow> 's Config \<Rightarrow> bool \<Rightarrow> 's Config \<times> bool" where
  "setMqttTlsEnabled vt c enabled = set_flag vt c (str ''mqtttls'') enabled"

definition isMqttTlsEnabled :: "'s config_vt \<Rightarrow> 's Config \<Rightarrow> bool" where
  "isMqttTlsEnabled vt c = get_flag vt c (str ''mqtttls'') (if isEncryptionEnabled vt then 1 else 0)"

definition setMqttAuthEnabled :: "'s config_vt \<Rightarrow> 's Config \<Rightarrow> bool \<Rightarrow> 's Config \<times> bool" where
  "setMqttAuthEnabled vt c enabled = set_flag vt c (str ''mqttauth'') enabled"

definition isMqttAuthEnabled :: "'s config_vt \<Rightarrow> 's Config \<Rightarrow> bool" where
  "isMqttAuthEnabled vt c = get_flag vt c (str ''mqttauth'') 1"

definition setMqttRetainEnabled :: "'s config_vt \<Rightarrow> 's Config \<Rightarrow> bool \<Rightarrow> 's Config \<times> bool" where
  "setMqttRetainEnabled vt c enabled = set_flag vt c (str ''mqttretain'') enabled"

definition isMqttRetainEnabled :: "'s config_vt \<Rightarrow> 's Config \<Rightarrow> bool" where
  "isMqttRetainEnabled vt c = get_flag vt c (str ''mqttretain'') 0"

definition getDeviceMode :: "'s config_vt \<Rightarrow> 's Config \<Rightarrow> DeviceMode" where
  "getDeviceMode vt c =
     (case getInt32 vt (store c) (str ''devicemode'') of
        Some result \<Rightarrow>
          if result = 0 then DEVICE_MODE_NOT_SET
          else if result = 1 then DEVICE_MODE_TEST
          else if result = 2 then DEVICE_MODE_NORMAL
          else if result = 3 then DEVICE_MODE_CONFIG
          else if result = 4 then DEVICE_MODE_SW_UPDATE
          else DEVICE_MODE_NOT_SET
      | None \<Rightarrow> DEVICE_MODE_NOT_SET)"

definition getSuplaServer :: "'s config_vt \<Rightarrow> 's Config \<Rightarrow> bytes option" where
  "getSuplaServer vt c = getString vt (store c) (str ''suplaserver'') SUPLA_SERVER_NAME_MAXSIZE"

definition getSuplaServerPort :: "'s config_vt \<Rightarrow> 's Config \<Rightarrow> u32" where
  "getSuplaServerPort vt c =
     (let result = (case getInt32 vt (store c) (str ''suplaport'') of None \<Rightarrow> - 1 | Some v \<Rightarrow> v)
      in if sint result \<le> 0 \<or> sint result > 65536 then - 1 else result)"

definition getEmail :: "'s config_vt \<Rightarrow> 's Config \<Rightarrow> bytes option" where
  "getEmail vt c = getString vt (store c) (str ''email'') SUPLA_EMAIL_MAXSIZE"

definition getGUID :: "'s config_vt \<Rightarrow> 's Config \<Rightarrow> bytes option" where
  "getGUID vt c = getBlob vt (store c) (str ''guid'') SUPLA_GUID_SIZE"

definition getAuthKey :: "'s config_vt \<Rightarrow> 's Config \<Rightarrow> bytes option" where
  "getAuthKey vt c = getBlob vt (store c) (str ''authkey'') SUPLA_AUTHKEY_SIZE"

definition getMqttServer :: "'s config_vt \<Rightarrow> 's Config \<Rightarrow> bytes option" where
  "getMqttServer vt c = getString vt (store c) (str ''mqttserver'') SUPLA_SERVER_NAME_MAXSIZE"

definition getMqttServerPort :: "'s config_vt \<Rightarrow> 's Config \<Rightarrow> u32" where
  "getMqttServerPort vt c =
     (let result = (case getInt32 vt (store c) (str ''mqttport'') of None \<Rightarrow> - 1 | Some v \<Rightarrow> v)
      in if sint result \<le> 0 \<or> sint result > 65536 then if isMqttTlsEnabled vt c then 8883 else 1883 else result)"

definition getMqttUser :: "'s config_vt \<Rightarrow> 's Config \<Rightarrow> bytes option" where
  "getMqttUser vt c = getString vt (store c) (str ''mqttuser'') MQTT_USERNAME_MAX_SIZE"

definition getMqttPassword :: "'s config_vt \<Rightarrow> 's Config \<Rightarrow> bytes option" where
  "getMqttPassword vt c = getString vt (store c) (str ''mqttpasswd'') MQTT_PASSWORD_MAX_SIZE"

definition getMqttQos :: "'s config_vt \<Rightarrow> 's Config \<Rightarrow> u32" where
  "getMqttQos vt c =
     (let result = (case getInt32 vt (store c) (str ''mqttqos'') of None \<Rightarrow> - 1 | Some v \<Rightarrow> v)
      in if sint result < 0 then 0 else result)"

text \<open>The string setters refuse a string that does not fit into the buffer of the getter.\<close>

definition set_limited :: "'s config_vt \<Rightarrow> 's Config \<Rightarrow> bytes \<Rightarrow> nat \<Rightarrow> bytes \<Rightarrow> 's Config \<times> bool" where
  "set_limited vt c k maxSize v =
     (if length (c_str v) > maxSize - 1 then (c, False) else stored c (setString vt (store c) k (Some v)))"

definition setWiFiSSID :: "'s config_vt \<Rightarrow> 's Config \<Rightarrow> bytes \<Rightarrow> 's Config \<times> bool" where
  "setWiFiSSID vt c ssid = set_limited vt c (str ''wifissid'') MAX_SSID_SIZE ssid"

definition setWiFiPassword :: "'s config_vt \<Rightarrow> 's Config \<Rightarrow> bytes \<Rightarrow> 's Config \<times> bool" where
  "setWiFiPassword vt c password = set_limited vt c (str ''wifipasswd'') MAX_WIFI_PASSWORD_SIZE password"

definition setAltWiFiSSID :: "'s config_vt \<Rightarrow> 's Config \<Rightarrow> bytes \<Rightarrow> 's Config \<times> bool" where
  "setAltWiFiSSID vt c ssid = set_limited vt c (str ''altwifissid'') MAX_SSID_SIZE ssid"

definition setAltWiFiPassword :: "'s config_vt \<Rightarrow> 's Config \<Rightarrow> bytes \<Rightarrow> 's Config \<times> bool" where
  "setAltWiFiPassword vt c password = set_limited vt c (str ''altwifipasswd'') MAX_WIFI_PASSWORD_SIZE password"

definition setDeviceName :: "'s config_vt \<Rightarrow> 's Config \<Rightarrow> bytes \<Rightarrow> 's Config \<times> bool" where
  "setDeviceName vt c name = set_limited vt c (str ''devicename'') SUPLA_DEVICE_NAME_MAXSIZE name"

definition setSuplaCommProtocolEnabled :: "'s config_vt \<Rightarrow> 's Config \<Rightarrow> bool \<Rightarrow> 's Config \<times> bool" where
  "setSuplaCommProtocolEnabled vt c enabled = set_flag vt c (str ''suplacommproto'') enabled"

definition setMqttCommProtocolEnabled :: "'s config_vt \<Rightarrow> 's Config \<Rightarrow> bool \<Rightarrow> 's Config \<times> bool" where
  "setMqttCommProtocolEnabled vt c enabled = set_flag vt c (str ''mqttcommproto'') enabled"

definition setDeviceMode :: "'s config_vt \<Rightarrow> 's Config \<Rightarrow> DeviceMode \<Rightarrow> 's Config \<times> bool" where
  "setDeviceMode vt c mode =
     (let val = (case mode of
            DEVICE_MODE_TEST \<Rightarrow> 1
          | DEVICE_MODE_NORMAL \<Rightarrow> 2
          | DEVICE_MODE_CONFIG \<Rightarrow> 3
          | DEVICE_MODE_SW_UPDATE \<Rightarrow> 4
          | _ \<Rightarrow> 0)
      in stored c (setInt32 vt (store c) (str ''devicemode'') val))"

definition setSuplaServer :: "'s config_vt \<Rightarrow> 's Config \<Rightarrow> bytes \<Rightarrow> 's Config \<times> bool" where
  "setSuplaServer vt c server = set_limited vt c (str ''suplaserver'') SUPLA_SERVER_NAME_MAXSIZE server"

definition setSuplaServerPort :: "'s config_vt \<Rightarrow> 's Config \<Rightarrow> u32 \<Rightarrow> 's Config \<times> bool" where
  "setSuplaServerPort vt c port =
     stored c (setInt32 vt (store c) (str ''suplaport'') (if sint port \<le> 0 \<or> sint port > 65536 then 2016 else port))"

definition setEmail :: "'s config_vt \<Rightarrow> 's Config \<Rightarrow> bytes \<Rightarrow> 's Config \<times> bool" where
  "setEmail vt c email = set_limited vt c (str ''email'') SUPLA_EMAIL_MAXSIZE email"

definition setGUID :: "'s config_vt \<Rightarrow> 's Config \<Rightarrow> bytes \<Rightarrow> 's Config \<times> bool" where
  "setGUID vt c guid = stored c (setBlob vt (store c) (str ''guid'') guid SUPLA_GUID_SIZE)"

definition setAuthKey :: "'s config_vt \<Rightarrow> 's Config \<Rightarrow> bytes \<Rightarrow> 's Config \<times> bool" where
  "setAuthKey vt c authkey = stored c (setBlob vt (store c) (str ''authkey'') authkey SUPLA_AUTHKEY_SIZE)"

definition setMqttServer :: "'s config_vt \<Rightarrow> 's Config \<Rightarrow> bytes \<Rightarrow> 's Config \<times> bool" where
  "setMqttServer vt c server = set_limited vt c (str ''mqttserver'') SUPLA_SERVER_NAME_MAXSIZE server"

definition setMqttServerPort :: "'s config_vt \<Rightarrow> 's Config \<Rightarrow> u32 \<Rightarrow> 's Config \<times> bool" where
  "setMqttServerPort vt c port =
     stored c (setInt32 vt (store c) (str ''mqttport'') (if sint port \<le> 0 \<or> sint port > 65536 then 1883 else port))"

definition setMqttUser :: "'s config_vt \<Rightarrow> 's Config \<Rightarrow> bytes \<Rightarrow> 's Config \<times> bool" where
  "setMqttUser vt c usr = set_limited vt c (str ''mqttuser'') MQTT_USERNAME_MAX_SIZE usr"

definition setMqttPassword :: "'s config_vt \<Rightarrow> 's Config \<Rightarrow> bytes \<Rightarrow> 's Config \<times> bool" where
  "setMqttPassword vt c password = set_limited vt c (str ''mqttpasswd'') MQTT_PASSWORD_MAX_SIZE password"

definition setMqttQos :: "'s config_vt \<Rightarrow> 's Config \<Rightarrow> u32 \<Rightarrow> 's Config \<times> bool" where
  "setMqttQos vt c qos =
     stored c (setInt32 vt (store c) (str ''mqttqos'') (if sint qos < 0 then 0 else if sint qos > 2 then 2 else qos))"

definition setMqttPrefix :: "'s config_vt \<Rightarrow> 's Config \<Rightarrow> bytes \<Rightarrow> 's Config \<times> bool" where
  "setMqttPrefix vt c prefix = set_limited vt c (str ''mqttprefix'') 49 prefix"

definition getMqttPrefix :: "'s config_vt \<Rightarrow> 's Config \<Rightarrow> bytes option" where
  "getMqttPrefix vt c = getString vt (store c) (str ''mqttprefix'') 49"

definition getSwUpdateServer :: "'s config_vt \<Rightarrow> 's Config \<Rightarrow> bytes option" where
  "getSwUpdateServer vt c = getString vt (store c) (str ''swupdateurl'') SUPLA_MAX_URL_LENGTH"

definition isSwUpdateSkipCert :: "'s config_vt \<Rightarrow> 's Config \<Rightarrow> bool" where
  "isSwUpdateSkipCert vt c = get_flag vt c (str ''swUpdNoCert'') 0"

definition isSwUpdateBeta :: "'s config_vt \<Rightarrow> 's Config \<Rightarrow> bool" where
  "isSwUpdateBeta vt c = get_flag vt c (str ''swupdatebeta'') 0"

definition setSwUpdateServer :: "'s config_vt \<Rightarrow> 's Config \<Rightarrow> bytes \<Rightarrow> 's Config \<times> bool" where
  "setSwUpdateServer vt c url = set_limited vt c (str ''swupdateurl'') SUPLA_MAX_URL_LENGTH url"

definition setSwUpdateSkipCert :: "'s config_vt \<Rightarrow> 's Config \<Rightarrow> bool \<Rightarrow> 's Config \<times> bool" where
  "setSwUpdateSkipCert vt c enabled = set_flag vt c (str ''swUpdNoCert'') enabled"

definition setSwUpdateBeta :: "'s config_vt \<Rightarrow> 's Config \<Rightarrow> bool \<Rightarrow> 's Config \<times> bool" where
  "setSwUpdateBeta vt c enabled = set_flag vt c (str ''swupdatebeta'') enabled"

definition getCustomCA :: "'s config_vt \<Rightarrow> 's Config \<Rightarrow> nat \<Rightarrow> bytes option" where
  "getCustomCA vt c maxSize = getString vt (store c) (str ''custom_ca'') maxSize"

definition getCustomCASize :: "'s config_vt \<Rightarrow> 's Config \<Rightarrow> nat" where
  "getCustomCASize vt c = getStringSize vt (store c) (str ''custom_ca'')"

definition setCustomCA :: "'s config_vt \<Rightarrow> 's Config \<Rightarrow> bytes option \<Rightarrow> 's Config \<times> bool" where
  "setCustomCA vt c customCA = stored c (setString vt (store c) (str ''custom_ca'') customCA)"

section \<open>Delayed saving and the change flag\<close>

definition saveWithDelay :: "'s Config \<Rightarrow> u16 \<Rightarrow> u32 \<Rightarrow> 's Config" where
  "saveWithDelay c delayMs now =
     (if saveDelayMs c = 0 then c\<lparr>saveDelayMs := delayMs, saveDelayTimestamp := now\<rparr> else c)"

text \<open>The second component of the result tells whether \<open>commit()\<close> is called.\<close>

definition saveIfNeeded :: "'s Config \<Rightarrow> u32 \<Rightarrow> u32 \<Rightarrow> 's Config \<times> bool" where
  "saveIfNeeded c now now' =
     (let (c, committed) =
            (if saveDelayMs c \<noteq> 0 then
               if now - saveDelayTimestamp c > ucast (saveDelayMs c)
               then (c\<lparr>saveDelayMs := 0, saveDelayTimestamp := 0\<rparr>, True)
               else (c, False)
             else (c, False))
      in (if deviceConfigUpdateDelayTimestamp c \<noteq> 0 then
            if now' - deviceConfigUpdateDelayTimestamp c > 1000 then
              let c = (if deviceConfigChangeFlag c = 1 then c\<lparr>deviceConfigChangeFlag := 2\<rparr> else c)
              in c\<lparr>deviceConfigUpdateDelayTimestamp := 0\<rparr>
            else c
          else c, committed))"

definition isDeviceConfigChangeFlagSet :: "'s config_vt \<Rightarrow> 's Config \<Rightarrow> 's Config \<times> bool" where
  "isDeviceConfigChangeFlagSet vt c =
     (let c = (if deviceConfigChangeFlag c = - 1 then
                 let result = (case getUInt8 vt (store c) DeviceConfigChangeCfgTag of None \<Rightarrow> 0 | Some v \<Rightarrow> v);
                     c = c\<lparr>deviceConfigChangeFlag := result\<rparr>
                 in if deviceConfigChangeFlag c = 1 then c\<lparr>deviceConfigChangeFlag := 2\<rparr> else c
               else c)
      in (c, deviceConfigChangeFlag c \<noteq> 0))"

definition isDeviceConfigChangeReadyToSend :: "'s config_vt \<Rightarrow> 's Config \<Rightarrow> 's Config \<times> bool" where
  "isDeviceConfigChangeReadyToSend vt c =
     (let (c, r) = isDeviceConfigChangeFlagSet vt c in (c, r \<and> deviceConfigChangeFlag c = 2))"

definition setDeviceConfigChangeFlag :: "'s config_vt \<Rightarrow> 's Config \<Rightarrow> u32 \<Rightarrow> 's Config \<times> bool" where
  "setDeviceConfigChangeFlag vt c now =
     (let c = c\<lparr>deviceConfigUpdateDelayTimestamp := now, deviceConfigChangeFlag := 1\<rparr>
      in stored c (setUInt8 vt (store c) DeviceConfigChangeCfgTag 1))"

definition clearDeviceConfigChangeFlag :: "'s config_vt \<Rightarrow> 's Config \<Rightarrow> 's Config \<times> bool" where
  "clearDeviceConfigChangeFlag vt c =
     (if deviceConfigChangeFlag c = 2 then
        let c = c\<lparr>deviceConfigUpdateDelayTimestamp := 0, deviceConfigChangeFlag := 0\<rparr>
        in stored c (setUInt8 vt (store c) DeviceConfigChangeCfgTag 0)
      else (c, True))"

section \<open>Channels\<close>

text \<open>The format \<open>"%d_%s"\<close>, cut by \<open>snprintf\<close> to the size of the key buffer.\<close>

fun dec_nat :: "nat \<Rightarrow> bytes" where
  "dec_nat n = (if n < 10 then [of_nat (48 + n)] else dec_nat (n div 10) @ [of_nat (48 + n mod 10)])"

declare dec_nat.simps [simp del]

definition dec_int :: "int \<Rightarrow> bytes" where
  "dec_int i = (if i < 0 then 45 # dec_nat (nat (- i)) else dec_nat (nat i))"

definition generateKey :: "u32 \<Rightarrow> bytes \<Rightarrow> bytes" where
  "generateKey number key = take (SUPLA_CONFIG_MAX_KEY_SIZE - 1) (dec_int (sint number) @ [95] @ c_str key) @ [0]"

definition setChannelConfigChangeFlag :: "'s config_vt \<Rightarrow> 's Config \<Rightarrow> u32 \<Rightarrow> u32 \<Rightarrow> 's Config \<times> bool" where
  "setChannelConfigChangeFlag vt c channelNo configType =
     (if configType = 0
      then stored c (setUInt8 vt (store c) (generateKey channelNo ChannelConfigChangedFlagTag) 1)
      else (c, False))"

definition clearChannelConfigChangeFlag :: "'s config_vt \<Rightarrow> 's Config \<Rightarrow> u32 \<Rightarrow> u32 \<Rightarrow> 's Config \<times> bool" where
  "clearChannelConfigChangeFlag vt c channelNo configType =
     (if configType = 0
      then stored c (setUInt8 vt (store c) (generateKey channelNo ChannelConfigChangedFlagTag) 0)
      else (c, False))"

definition isChannelConfigChangeFlagSet :: "'s config_vt \<Rightarrow> 's Config \<Rightarrow> u32 \<Rightarrow> u32 \<Rightarrow> bool" where
  "isChannelConfigChangeFlagSet vt c channelNo configType \<longleftrightarrow> configType = 0 \<and>
     (case getUInt8 vt (store c) (generateKey channelNo ChannelConfigChangedFlagTag) of None \<Rightarrow> 0 | Some v \<Rightarrow> v) = 1"

definition getChannelFunction :: "'s config_vt \<Rightarrow> 's Config \<Rightarrow> u32 \<Rightarrow> u32" where
  "getChannelFunction vt c channelNo =
     (if sint channelNo < 0 then - 1
      else case getInt32 vt (store c) (generateKey channelNo ChannelFunctionTag) of None \<Rightarrow> - 1 | Some v \<Rightarrow> v)"

definition setChannelFunction :: "'s config_vt \<Rightarrow> 's Config \<Rightarrow> u32 \<Rightarrow> u32 \<Rightarrow> 's Config \<times> bool" where
  "setChannelFunction vt c channelNo channelFunction =
     (if sint channelNo < 0 then (c, False)
      else stored c (setInt32 vt (store c) (generateKey channelNo ChannelFunctionTag) channelFunction))"

section \<open>Completeness\<close>

text \<open>A getter succeeded and its buffer holds a string that is not empty.\<close>

definition present :: "bytes option \<Rightarrow> bool" where
  "present r = (case r of None \<Rightarrow> False | Some buf \<Rightarrow> c_str buf \<noteq> [])"

text \<open>\<open>wifi_required\<close>: there is a network, its interface is not disabled, and it needs a Wi-Fi configuration.\<close>

definition isMinimalConfigReady :: "'s config_vt \<Rightarrow> bool \<Rightarrow> 's Config \<Rightarrow> bool" where
  "isMinimalConfigReady vt wifi_required c =
     (if wifi_required \<and> \<not> present (getWiFiSSID vt c) then False
      else if wifi_required \<and> \<not> present (getWiFiPassword vt c) then False
      else if isSuplaCommProtocolEnabled vt c \<and> \<not> present (getSuplaServer vt c) then False
      else if isSuplaCommProtocolEnabled vt c \<and> \<not> present (getEmail vt c) then False
      else if isMqttCommProtocolEnabled vt c \<and> \<not> present (getMqttServer vt c) then False
      else if isMqttCommProtocolEnabled vt c \<and> isMqttAuthEnabled vt c \<and> \<not> present (getMqttUser vt c) then False
      else if isMqttCommProtocolEnabled vt c \<and> isMqttAuthEnabled vt c \<and> \<not> present (getMqttPassword vt c) then False
      else True)"

section \<open>Passwords and the update policy\<close>

definition isSaltEmpty :: "SaltPassword \<Rightarrow> bool" where
  "isSaltEmpty p \<longleftrightarrow> salt p ! 0 = 0"

definition copySalt :: "SaltPassword \<Rightarrow> SaltPassword \<Rightarrow> SaltPassword" where
  "copySalt p other = p\<lparr>salt := salt other\<rparr>"

definition salt_eq :: "SaltPassword \<Rightarrow> SaltPassword \<Rightarrow> bool" where
  "salt_eq p other \<longleftrightarrow> salt p = salt other \<and> passwordSha p = passwordSha other"

definition salt_clear :: "SaltPassword \<Rightarrow> SaltPassword" where
  "salt_clear p = \<lparr>salt = replicate SUPLA_CFG_MODE_SALT_SIZE 0, passwordSha = replicate SUPLA_CFG_MODE_PASSWORD_SIZE 0\<rparr>"

fun strong_loop :: "bytes \<Rightarrow> bool \<Rightarrow> bool \<Rightarrow> bool \<Rightarrow> bool \<times> bool \<times> bool" where
  "strong_loop [] hasUpper hasLower hasNumber = (hasUpper, hasLower, hasNumber)"
| "strong_loop (p # ps) hasUpper hasLower hasNumber =
     (if 97 \<le> p \<and> p \<le> 122 then strong_loop ps hasUpper True hasNumber
      else if 65 \<le> p \<and> p \<le> 90 then strong_loop ps True hasLower hasNumber
      else if 48 \<le> p \<and> p \<le> 57 then strong_loop ps hasUpper hasLower True
      else strong_loop ps hasUpper hasLower hasNumber)"

definition isPasswordStrong :: "bytes \<Rightarrow> bool" where
  "isPasswordStrong password =
     (if length (c_str password) < 8 then False
      else let (hasUpper, hasLower, hasNumber) = strong_loop (c_str password) False False False
           in hasUpper \<and> hasLower \<and> hasNumber)"

text \<open>The random generator and the key derivation belong to the platform: \<open>rnd i\<close> is the block of the \<open>i\<close>-th call of \<open>fillRandom\<close>.\<close>

partial_function (option) salt_loop :: "(nat \<Rightarrow> bytes) \<Rightarrow> nat \<Rightarrow> SaltPassword \<Rightarrow> SaltPassword option" where
  "salt_loop rnd i result =
     (if isSaltEmpty result then salt_loop rnd (Suc i) (result\<lparr>salt := rnd i\<rparr>) else Some result)"

definition generateSaltPassword ::
  "(nat \<Rightarrow> bytes) \<Rightarrow> (bytes \<Rightarrow> bytes \<Rightarrow> nat \<Rightarrow> nat \<Rightarrow> bytes) \<Rightarrow> bytes option \<Rightarrow> SaltPassword \<Rightarrow> SaltPassword option"
where
  "generateSaltPassword rnd pbkdf2 password result =
     (case password of
        None \<Rightarrow> Some result
      | Some pw \<Rightarrow>
          (case salt_loop rnd 0 result of
             None \<Rightarrow> None
           | Some r \<Rightarrow> Some (r\<lparr>passwordSha := pbkdf2 (c_str pw) (salt r) 5000 SUPLA_CFG_MODE_PASSWORD_SIZE\<rparr>)))"

definition setCfgModeSaltPassword :: "'s config_vt \<Rightarrow> 's Config \<Rightarrow> SaltPassword \<Rightarrow> 's Config \<times> bool" where
  "setCfgModeSaltPassword vt c p =
     stored c (setBlob vt (store c) (str ''cfgpass'') (salt p @ passwordSha p)
       (SUPLA_CFG_MODE_SALT_SIZE + SUPLA_CFG_MODE_PASSWORD_SIZE))"

definition getCfgModeSaltPassword :: "'s config_vt \<Rightarrow> 's Config \<Rightarrow> SaltPassword option" where
  "getCfgModeSaltPassword vt c =
     (case getBlob vt (store c) (str ''cfgpass'') (SUPLA_CFG_MODE_SALT_SIZE + SUPLA_CFG_MODE_PASSWORD_SIZE) of
        None \<Rightarrow> None
      | Some b \<Rightarrow> Some \<lparr>salt = take SUPLA_CFG_MODE_SALT_SIZE b, passwordSha = drop SUPLA_CFG_MODE_SALT_SIZE b\<rparr>)"

definition getAutoUpdatePolicy :: "'s config_vt \<Rightarrow> 's Config \<Rightarrow> AutoUpdatePolicy" where
  "getAutoUpdatePolicy vt c =
     (case getUInt8 vt (store c) OtaModeTag of
        None \<Rightarrow> SecurityOnly
      | Some otaPolicy \<Rightarrow>
          if otaPolicy = 0 then ForcedOff
          else if otaPolicy = 1 then Disabled
          else if otaPolicy = 2 then SecurityOnly
          else if otaPolicy = 3 then AllUpdates
          else SecurityOnly)"

definition setAutoUpdatePolicy :: "'s config_vt \<Rightarrow> 's Config \<Rightarrow> AutoUpdatePolicy \<Rightarrow> 's Config \<times> bool" where
  "setAutoUpdatePolicy vt c policy =
     stored c (setUInt8 vt (store c) OtaModeTag
       (case policy of SecurityOnly \<Rightarrow> 2 | AllUpdates \<Rightarrow> 3 | Disabled \<Rightarrow> 1 | ForcedOff \<Rightarrow> 0))"

section \<open>The store that \<open>KeyValue\<close> provides\<close>

definition keyvalue_vt :: "bool \<Rightarrow> KeyValue config_vt" where
  "keyvalue_vt encryption =
     \<lparr>setString = kv_setString, getString = kv_getString, getStringSize = kv_getStringSize, setBlob = kv_setBlob,
      getBlob = kv_getBlob, getInt8 = kv_getInt8, getUInt8 = kv_getUInt8, getInt32 = kv_getInt32, setInt8 = kv_setInt8,
      setUInt8 = kv_setUInt8, setInt32 = kv_setInt32, isEncryptionEnabled = encryption\<rparr>"

section \<open>Keys\<close>

lemma unat_of_char: "unat (of_char c :: u8) = of_char c"
proof -
  have "(of_char c :: nat) < 256" by (cases c) (simp add: of_char_def horner_sum_bit_eq_take_bit)
  moreover have "(of_char c :: u8) = of_nat (of_char c)" by (simp only: of_nat_of_char)
  ultimately show ?thesis by (simp only: unat_of_nat) simp
qed

lemma of_char_u8_eq [simp]: "(of_char c :: u8) = of_char d \<longleftrightarrow> c = d"
  using unat_of_char [of c] unat_of_char [of d] by (metis of_char_eq_iff)

lemma of_char_u8_eq_0: "(of_char c :: u8) = 0 \<longleftrightarrow> c = CHR 0x00"
proof -
  have "(0 :: u8) = of_char (CHR 0x00)" by code_simp
  then show ?thesis using of_char_u8_eq [of c "CHR 0x00"] by argo
qed

lemma str_eq_iff [simp]: "str s = str t \<longleftrightarrow> s = t"
  by (simp add: str_def inj_map_eq_map inj_def)

lemma take_str: "take n (str s) = str (take n s)"
  by (simp add: str_def take_map)

lemma c_str_str: "CHR 0x00 \<notin> set s \<Longrightarrow> c_str (str s) = str s"
  by (auto simp: c_str_def str_def takeWhile_eq_all_conv of_char_u8_eq_0)

lemma norm_key_str: "CHR 0x00 \<notin> set s \<Longrightarrow> norm_key (str s) = str (take SUPLA_STORAGE_KEY_SIZE s)"
  by (simp add: norm_key_def c_str_str take_str)

text \<open>Decimal numbers.\<close>

definition dec_val :: "bytes \<Rightarrow> nat" where
  "dec_val ds = foldl (\<lambda>a d. 10 * a + (unat d - 48)) 0 ds"

lemma unat_digit: "n < 10 \<Longrightarrow> unat (of_nat (48 + n) :: u8) = 48 + n"
  by (simp add: unat_of_nat del: of_nat_add)

lemma dec_val_dec_nat: "dec_val (dec_nat n) = n"
proof (induction n rule: dec_nat.induct)
  case (1 n)
  show ?case
  proof (cases "n < 10")
    case True
    then show ?thesis by (subst dec_nat.simps) (simp add: dec_val_def unat_digit del: of_nat_add)
  next
    case False
    then have "dec_val (dec_nat n) = 10 * dec_val (dec_nat (n div 10)) + n mod 10"
      by (subst dec_nat.simps) (simp add: dec_val_def unat_digit del: of_nat_add)
    then show ?thesis using 1 False by simp
  qed
qed

lemma dec_nat_digits: "d \<in> set (dec_nat n) \<Longrightarrow> 48 \<le> unat d \<and> unat d \<le> 57"
proof (induction n rule: dec_nat.induct)
  case (1 n)
  have "n mod 10 < 10" by simp
  with 1 show ?case
    by (subst (asm) (2) dec_nat.simps) (auto simp: unat_digit simp del: of_nat_add split: if_splits)
qed

lemma length_dec_nat: "0 < m \<Longrightarrow> n < 10 ^ m \<Longrightarrow> length (dec_nat n) \<le> m"
proof (induction m arbitrary: n rule: nat_induct_non_zero)
  case 1
  then show ?case by (subst dec_nat.simps) simp
next
  case (Suc m)
  then show ?case by (subst dec_nat.simps) (auto simp: less_mult_imp_div_less mult.commute)
qed

lemma dec_nat_not_Nil: "dec_nat n \<noteq> []"
  by (subst dec_nat.simps) simp

lemma dec_int_inj: "dec_int i = dec_int j \<longleftrightarrow> i = j"
proof -
  have d: "dec_nat n \<noteq> 45 # xs" for n xs using dec_nat_digits [of 45 n] by auto
  have i: "dec_nat n = dec_nat m \<longleftrightarrow> n = m" for n m using dec_val_dec_nat by metis
  show ?thesis using d d [symmetric] by (auto simp: dec_int_def i)
qed

lemma dec_int_char: "d \<in> set (dec_int i) \<Longrightarrow> d = 45 \<or> (48 \<le> unat d \<and> unat d \<le> 57)"
  by (auto simp: dec_int_def dest: dec_nat_digits split: if_splits)

lemma length_dec_int: "length (dec_int (sint (w :: u32))) \<le> 11"
proof -
  have "- (2 ^ 31) \<le> sint w" "sint w < 2 ^ 31" using sint_greater_eq [of w] sint_less [of w] by simp_all
  then have "nat (- sint w) < 10 ^ 10" "nat (sint w) < 10 ^ 10" by auto
  then show ?thesis
    using length_dec_nat [of 10 "nat (- sint w)"] length_dec_nat [of 10 "nat (sint w)"] by (simp add: dec_int_def)
qed

lemma norm_key_generateKey:
  assumes "list_all (\<lambda>c. c \<noteq> 0) tag"
  shows "norm_key (generateKey w tag) = take 15 (dec_int (sint w) @ 95 # tag)"
proof -
  have t: "c_str tag = tag" using assms by (auto simp: c_str_def list_all_iff takeWhile_eq_all_conv)
  have "list_all (\<lambda>c. c \<noteq> 0) (dec_int (sint w) @ 95 # tag)"
    using assms dec_int_char [of 0 "sint w"] by (auto simp: list_all_iff)
  then have "list_all (\<lambda>c. c \<noteq> 0) (take 15 (dec_int (sint w) @ 95 # tag))"
    unfolding list_all_iff by (meson in_set_takeD)
  then show ?thesis
    unfolding norm_key_def generateKey_def t SUPLA_STORAGE_KEY_SIZE_def SUPLA_CONFIG_MAX_KEY_SIZE_def
    by (simp add: c_str_stop del: take_append)
qed

text \<open>Keys of different channels differ whatever the tag, and the tags of a channel are told apart by their first letter.\<close>

lemma generateKey_inj:
  assumes t: "list_all (\<lambda>c. c \<noteq> 0) tag" "list_all (\<lambda>c. c \<noteq> 0) tag'"
    and eq: "norm_key (generateKey v tag) = norm_key (generateKey w tag')"
  shows "v = w" "take 3 tag = take 3 tag'"
proof -
  have split: "take 15 (dec_int (sint u) @ 95 # x) = dec_int (sint u) @ 95 # take (14 - length (dec_int (sint u))) x" for u :: u32 and x
    using length_dec_int [of u] by (simp add: take_Cons' Suc_diff_le numeral_eq_Suc)
  have no: "takeWhile (\<lambda>c. c \<noteq> 95) (dec_int i @ 95 # x) = dec_int i" for i x
    using dec_int_char [of 95 i] by (auto simp: takeWhile_append)
  have e: "dec_int (sint v) @ 95 # take (14 - length (dec_int (sint v))) tag = dec_int (sint w) @ 95 # take (14 - length (dec_int (sint w))) tag'"
    using eq by (simp only: norm_key_generateKey t split)
  then have d: "dec_int (sint v) = dec_int (sint w)" by (metis no)
  then show "v = w" by (simp add: dec_int_inj signed_word_eqI)
  define m where "m = 14 - length (dec_int (sint v))"
  have "take m tag = take m tag'" using e d by (simp add: m_def)
  then have "take 3 (take m tag) = take 3 (take m tag')" by simp
  moreover have "3 \<le> m" using length_dec_int [of v] by (simp add: m_def)
  ultimately show "take 3 tag = take 3 tag'" by (simp add: take_take min_absorb1)
qed

section \<open>The interface to the store\<close>

locale config_store =
  fixes vt :: "'s config_vt"
    and inv :: "'s \<Rightarrow> bool"
    and contents_of :: "'s \<Rightarrow> bytes \<rightharpoonup> kv_data"
  assumes set_string: "inv s \<Longrightarrow> setString vt s k (Some v) = (s', r) \<Longrightarrow>
      inv s' \<and> spec_set (contents_of s) k (DATA_TYPE_STRING (c_str v @ [0])) = (contents_of s', r)"
    and set_blob: "inv s \<Longrightarrow> setBlob vt s k v n = (s', r) \<Longrightarrow>
      inv s' \<and> spec_set (contents_of s) k (DATA_TYPE_BLOB (take n v)) = (contents_of s', r)"
    and set_int8: "inv s \<Longrightarrow> setInt8 vt s k b = (s', r) \<Longrightarrow>
      inv s' \<and> spec_set (contents_of s) k (DATA_TYPE_INT8 b) = (contents_of s', r)"
    and set_uint8: "inv s \<Longrightarrow> setUInt8 vt s k b = (s', r) \<Longrightarrow>
      inv s' \<and> spec_set (contents_of s) k (DATA_TYPE_UINT8 b) = (contents_of s', r)"
    and set_int32: "inv s \<Longrightarrow> setInt32 vt s k w = (s', r) \<Longrightarrow>
      inv s' \<and> spec_set (contents_of s) k (DATA_TYPE_INT32 w) = (contents_of s', r)"
    and get_string: "inv s \<Longrightarrow> contents_of s (norm_key k) = map_option (\<lambda>v. DATA_TYPE_STRING (c_str v @ [0])) d \<Longrightarrow>
      getString vt s k n = (case d of None \<Rightarrow> None | Some v \<Rightarrow>
        if length (c_str v) < n then Some (c_str v @ replicate (n - length (c_str v)) 0) else None)"
    and get_blob: "inv s \<Longrightarrow> contents_of s (norm_key k) = map_option DATA_TYPE_BLOB d' \<Longrightarrow>
      getBlob vt s k n = (case d' of None \<Rightarrow> None | Some v \<Rightarrow> if length v = n then Some v else None)"
    and get_int8: "inv s \<Longrightarrow> contents_of s (norm_key k) = map_option DATA_TYPE_INT8 e \<Longrightarrow> getInt8 vt s k = e"
    and get_uint8: "inv s \<Longrightarrow> contents_of s (norm_key k) = map_option DATA_TYPE_UINT8 e \<Longrightarrow> getUInt8 vt s k = e"
    and get_int32: "inv s \<Longrightarrow> contents_of s (norm_key k) = map_option DATA_TYPE_INT32 f \<Longrightarrow> getInt32 vt s k = f"

lemma option_eqI: "(\<And>y. x = Some y \<longleftrightarrow> z = Some y) \<Longrightarrow> x = z"
  by (cases x; cases z) auto

interpretation kv_store: config_store "keyvalue_vt encryption" kv_inv kv_abs for encryption
proof
  note W = with_element_refines [OF setters(1)] with_element_refines [OF setters(2)]
    with_element_refines [OF setters(3)] with_element_refines [OF setters(4)] with_element_refines [OF setters(5)]
  fix s :: KeyValue and k v s' r n b w
  show "kv_inv s \<Longrightarrow> setString (keyvalue_vt encryption) s k (Some v) = (s', r) \<Longrightarrow>
      kv_inv s' \<and> spec_set (kv_abs s) k (DATA_TYPE_STRING (c_str v @ [0])) = (kv_abs s', r)"
    using W(1,2) by (simp add: keyvalue_vt_def kv_setString_def)
  show "kv_inv s \<Longrightarrow> setBlob (keyvalue_vt encryption) s k v n = (s', r) \<Longrightarrow>
      kv_inv s' \<and> spec_set (kv_abs s) k (DATA_TYPE_BLOB (take n v)) = (kv_abs s', r)"
    using W(3,4) by (simp add: keyvalue_vt_def kv_setBlob_def)
  show "kv_inv s \<Longrightarrow> setInt8 (keyvalue_vt encryption) s k b = (s', r) \<Longrightarrow>
      kv_inv s' \<and> spec_set (kv_abs s) k (DATA_TYPE_INT8 b) = (kv_abs s', r)"
    using W(5,6) by (simp add: keyvalue_vt_def kv_setInt8_def)
  show "kv_inv s \<Longrightarrow> setUInt8 (keyvalue_vt encryption) s k b = (s', r) \<Longrightarrow>
      kv_inv s' \<and> spec_set (kv_abs s) k (DATA_TYPE_UINT8 b) = (kv_abs s', r)"
    using W(7,8) by (simp add: keyvalue_vt_def kv_setUInt8_def)
  show "kv_inv s \<Longrightarrow> setInt32 (keyvalue_vt encryption) s k w = (s', r) \<Longrightarrow>
      kv_inv s' \<and> spec_set (kv_abs s) k (DATA_TYPE_INT32 w) = (kv_abs s', r)"
    using W(9,10) by (simp add: keyvalue_vt_def kv_setInt32_def)
next
  fix s :: KeyValue and k n d d' e f
  assume inv: "kv_inv s"
  note G = getters [OF inv]
  show "kv_abs s (norm_key k) = map_option (\<lambda>v. DATA_TYPE_STRING (c_str v @ [0])) d \<Longrightarrow>
      getString (keyvalue_vt encryption) s k n = (case d of None \<Rightarrow> None | Some v \<Rightarrow>
        if length (c_str v) < n then Some (c_str v @ replicate (n - length (c_str v)) 0) else None)"
    by (rule option_eqI) (auto simp: keyvalue_vt_def G(6) Suc_le_eq split: option.splits if_splits)
  show "kv_abs s (norm_key k) = map_option DATA_TYPE_BLOB d' \<Longrightarrow>
      getBlob (keyvalue_vt encryption) s k n = (case d' of None \<Rightarrow> None | Some v \<Rightarrow> if length v = n then Some v else None)"
    by (rule option_eqI) (auto simp: keyvalue_vt_def G(5) split: option.splits if_splits)
  show "kv_abs s (norm_key k) = map_option DATA_TYPE_INT8 e \<Longrightarrow> getInt8 (keyvalue_vt encryption) s k = e"
    by (rule option_eqI) (auto simp: keyvalue_vt_def G(1))
  show "kv_abs s (norm_key k) = map_option DATA_TYPE_UINT8 e \<Longrightarrow> getUInt8 (keyvalue_vt encryption) s k = e"
    by (rule option_eqI) (auto simp: keyvalue_vt_def G(2))
  show "kv_abs s (norm_key k) = map_option DATA_TYPE_INT32 f \<Longrightarrow> getInt32 (keyvalue_vt encryption) s k = f"
    by (rule option_eqI) (auto simp: keyvalue_vt_def G(3))
qed

section \<open>The abstract configuration\<close>

datatype cfg_string =
    WiFiSSID | WiFiPassword | AltWiFiSSID | AltWiFiPassword | DeviceName | SuplaServer | Email | MqttServer
  | MqttUser | MqttPassword | MqttPrefix | SwUpdateServer

datatype cfg_flag = SuplaComm | MqttComm | MqttTls | MqttAuth | MqttRetain | SwUpdateSkipCert | SwUpdateBeta

fun string_size :: "cfg_string \<Rightarrow> nat" where
  "string_size WiFiSSID = 33"
| "string_size WiFiPassword = 64"
| "string_size AltWiFiSSID = 33"
| "string_size AltWiFiPassword = 64"
| "string_size DeviceName = 201"
| "string_size SuplaServer = 65"
| "string_size Email = 256"
| "string_size MqttServer = 65"
| "string_size MqttUser = 256"
| "string_size MqttPassword = 256"
| "string_size MqttPrefix = 49"
| "string_size SwUpdateServer = 202"

fun flag_default :: "bool \<Rightarrow> cfg_flag \<Rightarrow> bool" where
  "flag_default encryption SuplaComm = True"
| "flag_default encryption MqttAuth = True"
| "flag_default encryption MqttTls = encryption"
| "flag_default encryption _ = False"

text \<open>Each setting holds a value of its own or none.\<close>

record cfg_spec =
  sp_string :: "cfg_string \<Rightarrow> bytes option"
  sp_flag :: "cfg_flag \<Rightarrow> bool option"
  sp_mode :: "DeviceMode option"
  sp_supla_port :: "u32 option"
  sp_mqtt_port :: "u32 option"
  sp_qos :: "u32 option"
  sp_guid :: "bytes option"
  sp_authkey :: "bytes option"
  sp_ca :: "bytes option"
  sp_pass :: "bytes option"
  sp_policy :: "AutoUpdatePolicy option"
  sp_function :: "u32 \<Rightarrow> u32 option"
  sp_changed :: "u32 \<Rightarrow> bool option"

definition spec_empty :: cfg_spec where
  "spec_empty = \<lparr>sp_string = (\<lambda>_. None), sp_flag = (\<lambda>_. None), sp_mode = None, sp_supla_port = None, sp_mqtt_port = None,
     sp_qos = None, sp_guid = None, sp_authkey = None, sp_ca = None, sp_pass = None, sp_policy = None,
     sp_function = (\<lambda>_. None), sp_changed = (\<lambda>_. None)\<rparr>"

datatype cfg_op =
    Set_str cfg_string bytes | Set_flag cfg_flag bool | Set_mode DeviceMode | Set_supla_port u32 | Set_mqtt_port u32
  | Set_qos u32 | Set_guid bytes | Set_authkey bytes | Set_ca bytes | Set_pass SaltPassword | Set_policy AutoUpdatePolicy
  | Set_function u32 u32 | Set_changed u32 | Clear_changed u32

fun write_string :: "'s config_vt \<Rightarrow> 's Config \<Rightarrow> cfg_string \<Rightarrow> bytes \<Rightarrow> 's Config \<times> bool" where
  "write_string vt c WiFiSSID = setWiFiSSID vt c"
| "write_string vt c WiFiPassword = setWiFiPassword vt c"
| "write_string vt c AltWiFiSSID = setAltWiFiSSID vt c"
| "write_string vt c AltWiFiPassword = setAltWiFiPassword vt c"
| "write_string vt c DeviceName = setDeviceName vt c"
| "write_string vt c SuplaServer = setSuplaServer vt c"
| "write_string vt c Email = setEmail vt c"
| "write_string vt c MqttServer = setMqttServer vt c"
| "write_string vt c MqttUser = setMqttUser vt c"
| "write_string vt c MqttPassword = setMqttPassword vt c"
| "write_string vt c MqttPrefix = setMqttPrefix vt c"
| "write_string vt c SwUpdateServer = setSwUpdateServer vt c"

fun read_string :: "'s config_vt \<Rightarrow> 's Config \<Rightarrow> cfg_string \<Rightarrow> bytes option" where
  "read_string vt c WiFiSSID = getWiFiSSID vt c"
| "read_string vt c WiFiPassword = getWiFiPassword vt c"
| "read_string vt c AltWiFiSSID = getAltWiFiSSID vt c"
| "read_string vt c AltWiFiPassword = getAltWiFiPassword vt c"
| "read_string vt c DeviceName = getDeviceName vt c"
| "read_string vt c SuplaServer = getSuplaServer vt c"
| "read_string vt c Email = getEmail vt c"
| "read_string vt c MqttServer = getMqttServer vt c"
| "read_string vt c MqttUser = getMqttUser vt c"
| "read_string vt c MqttPassword = getMqttPassword vt c"
| "read_string vt c MqttPrefix = getMqttPrefix vt c"
| "read_string vt c SwUpdateServer = getSwUpdateServer vt c"

fun write_flag :: "'s config_vt \<Rightarrow> 's Config \<Rightarrow> cfg_flag \<Rightarrow> bool \<Rightarrow> 's Config \<times> bool" where
  "write_flag vt c SuplaComm = setSuplaCommProtocolEnabled vt c"
| "write_flag vt c MqttComm = setMqttCommProtocolEnabled vt c"
| "write_flag vt c MqttTls = setMqttTlsEnabled vt c"
| "write_flag vt c MqttAuth = setMqttAuthEnabled vt c"
| "write_flag vt c MqttRetain = setMqttRetainEnabled vt c"
| "write_flag vt c SwUpdateSkipCert = setSwUpdateSkipCert vt c"
| "write_flag vt c SwUpdateBeta = setSwUpdateBeta vt c"

fun read_flag :: "'s config_vt \<Rightarrow> 's Config \<Rightarrow> cfg_flag \<Rightarrow> bool" where
  "read_flag vt c SuplaComm = isSuplaCommProtocolEnabled vt c"
| "read_flag vt c MqttComm = isMqttCommProtocolEnabled vt c"
| "read_flag vt c MqttTls = isMqttTlsEnabled vt c"
| "read_flag vt c MqttAuth = isMqttAuthEnabled vt c"
| "read_flag vt c MqttRetain = isMqttRetainEnabled vt c"
| "read_flag vt c SwUpdateSkipCert = isSwUpdateSkipCert vt c"
| "read_flag vt c SwUpdateBeta = isSwUpdateBeta vt c"

fun cfg_step :: "'s config_vt \<Rightarrow> cfg_op \<Rightarrow> 's Config \<Rightarrow> 's Config \<times> bool" where
  "cfg_step vt (Set_str x v) c = write_string vt c x v"
| "cfg_step vt (Set_flag x b) c = write_flag vt c x b"
| "cfg_step vt (Set_mode m) c = setDeviceMode vt c m"
| "cfg_step vt (Set_supla_port w) c = setSuplaServerPort vt c w"
| "cfg_step vt (Set_mqtt_port w) c = setMqttServerPort vt c w"
| "cfg_step vt (Set_qos w) c = setMqttQos vt c w"
| "cfg_step vt (Set_guid g) c = setGUID vt c g"
| "cfg_step vt (Set_authkey g) c = setAuthKey vt c g"
| "cfg_step vt (Set_ca v) c = setCustomCA vt c (Some v)"
| "cfg_step vt (Set_pass p) c = setCfgModeSaltPassword vt c p"
| "cfg_step vt (Set_policy p) c = setAutoUpdatePolicy vt c p"
| "cfg_step vt (Set_function ch f) c = setChannelFunction vt c ch f"
| "cfg_step vt (Set_changed ch) c = setChannelConfigChangeFlag vt c ch 0"
| "cfg_step vt (Clear_changed ch) c = clearChannelConfigChangeFlag vt c ch 0"

definition valid_port :: "u32 \<Rightarrow> bool" where
  "valid_port w \<longleftrightarrow> 0 < sint w \<and> sint w \<le> 65536"

text \<open>Two modes are not stored.\<close>

definition stored_mode :: "DeviceMode \<Rightarrow> DeviceMode" where
  "stored_mode m = (if m = DEVICE_MODE_OFFLINE \<or> m = DEVICE_MODE_NOT_CONFIGURED then DEVICE_MODE_NOT_SET else m)"

fun cfg_spec_step :: "cfg_op \<Rightarrow> cfg_spec \<Rightarrow> cfg_spec \<times> bool" where
  "cfg_spec_step (Set_str x v) sp =
     (if length (c_str v) < string_size x then (sp\<lparr>sp_string := (sp_string sp)(x \<mapsto> c_str v)\<rparr>, True) else (sp, False))"
| "cfg_spec_step (Set_flag x b) sp = (sp\<lparr>sp_flag := (sp_flag sp)(x \<mapsto> b)\<rparr>, True)"
| "cfg_spec_step (Set_mode m) sp = (sp\<lparr>sp_mode := Some (stored_mode m)\<rparr>, True)"
| "cfg_spec_step (Set_supla_port w) sp = (sp\<lparr>sp_supla_port := Some (if valid_port w then w else 2016)\<rparr>, True)"
| "cfg_spec_step (Set_mqtt_port w) sp = (sp\<lparr>sp_mqtt_port := Some (if valid_port w then w else 1883)\<rparr>, True)"
| "cfg_spec_step (Set_qos w) sp = (sp\<lparr>sp_qos := Some (if sint w < 0 then 0 else if sint w > 2 then 2 else w)\<rparr>, True)"
| "cfg_spec_step (Set_guid g) sp = (sp\<lparr>sp_guid := Some (take 16 g)\<rparr>, True)"
| "cfg_spec_step (Set_authkey g) sp = (sp\<lparr>sp_authkey := Some (take 16 g)\<rparr>, True)"
| "cfg_spec_step (Set_ca v) sp = (sp\<lparr>sp_ca := Some (c_str v)\<rparr>, True)"
| "cfg_spec_step (Set_pass p) sp = (sp\<lparr>sp_pass := Some (take 48 (salt p @ passwordSha p))\<rparr>, True)"
| "cfg_spec_step (Set_policy p) sp = (sp\<lparr>sp_policy := Some p\<rparr>, True)"
| "cfg_spec_step (Set_function ch f) sp =
     (if sint ch < 0 then (sp, False) else (sp\<lparr>sp_function := (sp_function sp)(ch \<mapsto> f)\<rparr>, True))"
| "cfg_spec_step (Set_changed ch) sp = (sp\<lparr>sp_changed := (sp_changed sp)(ch \<mapsto> True)\<rparr>, True)"
| "cfg_spec_step (Clear_changed ch) sp = (sp\<lparr>sp_changed := (sp_changed sp)(ch \<mapsto> False)\<rparr>, True)"

fun cfg_run :: "'s config_vt \<Rightarrow> cfg_op list \<Rightarrow> 's Config \<Rightarrow> 's Config \<times> bool list" where
  "cfg_run vt [] c = (c, [])"
| "cfg_run vt (op # ops) c = (let (c, r) = cfg_step vt op c; (c, rs) = cfg_run vt ops c in (c, r # rs))"

fun cfg_spec_run :: "cfg_op list \<Rightarrow> cfg_spec \<Rightarrow> cfg_spec \<times> bool list" where
  "cfg_spec_run [] sp = (sp, [])"
| "cfg_spec_run (op # ops) sp = (let (sp, r) = cfg_spec_step op sp; (sp, rs) = cfg_spec_run ops sp in (sp, r # rs))"

section \<open>The settings and their keys\<close>

datatype setting =
    Str cfg_string | Flag cfg_flag | Mode | SuplaPort | MqttPort | Qos | Guid | AuthKey | CustomCA | CfgPass | Policy
  | Fnc u32 | Chng u32

fun string_name :: "cfg_string \<Rightarrow> string" where
  "string_name WiFiSSID = ''wifissid''"
| "string_name WiFiPassword = ''wifipasswd''"
| "string_name AltWiFiSSID = ''altwifissid''"
| "string_name AltWiFiPassword = ''altwifipasswd''"
| "string_name DeviceName = ''devicename''"
| "string_name SuplaServer = ''suplaserver''"
| "string_name Email = ''email''"
| "string_name MqttServer = ''mqttserver''"
| "string_name MqttUser = ''mqttuser''"
| "string_name MqttPassword = ''mqttpasswd''"
| "string_name MqttPrefix = ''mqttprefix''"
| "string_name SwUpdateServer = ''swupdateurl''"

fun flag_name :: "cfg_flag \<Rightarrow> string" where
  "flag_name SuplaComm = ''suplacommproto''"
| "flag_name MqttComm = ''mqttcommproto''"
| "flag_name MqttTls = ''mqtttls''"
| "flag_name MqttAuth = ''mqttauth''"
| "flag_name MqttRetain = ''mqttretain''"
| "flag_name SwUpdateSkipCert = ''swUpdNoCert''"
| "flag_name SwUpdateBeta = ''swupdatebeta''"

fun setting_name :: "setting \<Rightarrow> string" where
  "setting_name (Str x) = string_name x"
| "setting_name (Flag x) = flag_name x"
| "setting_name Mode = ''devicemode''"
| "setting_name SuplaPort = ''suplaport''"
| "setting_name MqttPort = ''mqttport''"
| "setting_name Qos = ''mqttqos''"
| "setting_name Guid = ''guid''"
| "setting_name AuthKey = ''authkey''"
| "setting_name CustomCA = ''custom_ca''"
| "setting_name CfgPass = ''cfgpass''"
| "setting_name Policy = ''ota_mode''"
| "setting_name _ = []"

fun setting_key :: "setting \<Rightarrow> bytes" where
  "setting_key (Fnc ch) = generateKey ch ChannelFunctionTag"
| "setting_key (Chng ch) = generateKey ch ChannelConfigChangedFlagTag"
| "setting_key a = str (setting_name a)"

definition fixed_settings :: "setting list" where
  "fixed_settings =
     map Str [WiFiSSID, WiFiPassword, AltWiFiSSID, AltWiFiPassword, DeviceName, SuplaServer, Email, MqttServer,
       MqttUser, MqttPassword, MqttPrefix, SwUpdateServer] @
     map Flag [SuplaComm, MqttComm, MqttTls, MqttAuth, MqttRetain, SwUpdateSkipCert, SwUpdateBeta] @
     [Mode, SuplaPort, MqttPort, Qos, Guid, AuthKey, CustomCA, CfgPass, Policy]"

lemma fixed_setting_iff: "a \<in> set fixed_settings \<longleftrightarrow> (\<forall>ch. a \<noteq> Fnc ch \<and> a \<noteq> Chng ch)"
proof (cases a)
  case (Str x)
  then show ?thesis by (cases x) (simp_all add: fixed_settings_def)
next
  case (Flag x)
  then show ?thesis by (cases x) (simp_all add: fixed_settings_def)
qed (simp_all add: fixed_settings_def)

lemma setting_key_fixed: "a \<in> set fixed_settings \<Longrightarrow> setting_key a = str (setting_name a)"
  by (cases a) (auto simp: fixed_setting_iff)

lemma setting_names:
  "distinct (map setting_name fixed_settings)"
  "list_all (\<lambda>a. length (setting_name a) \<le> 15 \<and> CHR 0x00 \<notin> set (setting_name a) \<and>
     (case setting_name a of [] \<Rightarrow> False | x # _ \<Rightarrow> (97 :: nat) \<le> of_char x)) fixed_settings"
  by code_simp+

lemma norm_key_fixed:
  assumes "a \<in> set fixed_settings"
  shows "norm_key (setting_key a) = str (setting_name a)" "\<exists>x xs. setting_name a = x # xs \<and> (97 :: nat) \<le> of_char x"
proof -
  have *: "length (setting_name a) \<le> 15" "CHR 0x00 \<notin> set (setting_name a)"
    "case setting_name a of [] \<Rightarrow> False | x # _ \<Rightarrow> (97 :: nat) \<le> of_char x"
    using setting_names(2) assms unfolding list_all_iff by blast+
  then show "norm_key (setting_key a) = str (setting_name a)"
    using assms by (simp add: setting_key_fixed norm_key_str SUPLA_STORAGE_KEY_SIZE_def)
  show "\<exists>x xs. setting_name a = x # xs \<and> (97 :: nat) \<le> of_char x"
    using *(3) by (cases "setting_name a") auto
qed

lemma tags_eq: "ChannelFunctionTag = [102, 110, 99]" "ChannelConfigChangedFlagTag = [99, 102, 103, 95, 99, 104, 110, 103]"
  by code_simp+

lemma channel_key_first: "\<exists>d ds. norm_key (generateKey w tag) = d # ds \<and> unat d < 97" if "list_all (\<lambda>c. c \<noteq> 0) tag"
proof -
  obtain d ds where d: "dec_int (sint w) = d # ds" by (cases "dec_int (sint w)") (auto simp: dec_int_def dec_nat_not_Nil split: if_splits)
  then have "unat d < 97" using dec_int_char [of d "sint w"] by auto
  then show ?thesis using d by (simp add: norm_key_generateKey [OF that])
qed

lemma setting_key_inj: "norm_key (setting_key a) = norm_key (setting_key b) \<longleftrightarrow> a = b"
proof -
  have t: "list_all (\<lambda>c. c \<noteq> 0) ChannelFunctionTag" "list_all (\<lambda>c. c \<noteq> 0) ChannelConfigChangedFlagTag"
    by (simp_all add: tags_eq)
  have ff: "norm_key (setting_key a) = norm_key (setting_key b) \<longleftrightarrow> a = b" if "a \<in> set fixed_settings" "b \<in> set fixed_settings" for a b
    using that setting_names(1) by (auto simp: norm_key_fixed distinct_map inj_on_def)
  have fc: "norm_key (setting_key a) \<noteq> norm_key (generateKey ch tag)" if a: "a \<in> set fixed_settings" and t: "list_all (\<lambda>c. c \<noteq> 0) tag" for a ch tag
  proof
    assume "norm_key (setting_key a) = norm_key (generateKey ch tag)"
    then show False
      using norm_key_fixed [OF a] channel_key_first [OF t, of ch] by (auto simp: str_def unat_of_char)
  qed
  have cc: "norm_key (generateKey v tag) = norm_key (generateKey w tag) \<longleftrightarrow> v = w" if "list_all (\<lambda>c. c \<noteq> 0) tag" for v w tag
    using generateKey_inj [OF that that] by auto
  have cd: "norm_key (generateKey v ChannelFunctionTag) \<noteq> norm_key (generateKey w ChannelConfigChangedFlagTag)" for v w
    using generateKey_inj(2) [OF t, of v w] by (auto simp: tags_eq)
  show ?thesis
  proof (cases "a \<in> set fixed_settings"; cases "b \<in> set fixed_settings")
    assume "a \<notin> set fixed_settings" "b \<notin> set fixed_settings"
    then show ?thesis using cc [OF t(1)] cc [OF t(2)] cd cd [symmetric] unfolding fixed_setting_iff by auto
  next
    assume b: "a \<notin> set fixed_settings" "b \<in> set fixed_settings"
    then have "a \<noteq> b" by auto
    then show ?thesis using fc [OF b(2) t(1), symmetric] fc [OF b(2) t(2), symmetric] b(1) by (cases a) (auto simp: fixed_setting_iff)
  next
    assume a: "a \<in> set fixed_settings" "b \<notin> set fixed_settings"
    then have "a \<noteq> b" by auto
    then show ?thesis using fc [OF a(1) t(1)] fc [OF a(1) t(2)] a(2) by (cases b) (auto simp: fixed_setting_iff)
  qed (rule ff)
qed

fun setting_type :: "setting \<Rightarrow> u8" where
  "setting_type (Str _) = 6"
| "setting_type CustomCA = 6"
| "setting_type (Flag _) = 2"
| "setting_type Guid = 5"
| "setting_type AuthKey = 5"
| "setting_type CfgPass = 5"
| "setting_type Policy = 1"
| "setting_type (Chng _) = 1"
| "setting_type _ = 4"

fun mode_code :: "DeviceMode \<Rightarrow> u32" where
  "mode_code DEVICE_MODE_TEST = 1"
| "mode_code DEVICE_MODE_NORMAL = 2"
| "mode_code DEVICE_MODE_CONFIG = 3"
| "mode_code DEVICE_MODE_SW_UPDATE = 4"
| "mode_code _ = 0"

fun policy_code :: "AutoUpdatePolicy \<Rightarrow> u8" where
  "policy_code ForcedOff = 0"
| "policy_code Disabled = 1"
| "policy_code SecurityOnly = 2"
| "policy_code AllUpdates = 3"

fun encode_setting :: "cfg_spec \<Rightarrow> setting \<Rightarrow> kv_data option" where
  "encode_setting sp (Str x) = map_option (\<lambda>v. DATA_TYPE_STRING (c_str v @ [0])) (sp_string sp x)"
| "encode_setting sp (Flag x) = map_option DATA_TYPE_INT8 (map_option (\<lambda>b. if b then 1 else 0) (sp_flag sp x))"
| "encode_setting sp Mode = map_option DATA_TYPE_INT32 (map_option mode_code (sp_mode sp))"
| "encode_setting sp SuplaPort = map_option DATA_TYPE_INT32 (sp_supla_port sp)"
| "encode_setting sp MqttPort = map_option DATA_TYPE_INT32 (sp_mqtt_port sp)"
| "encode_setting sp Qos = map_option DATA_TYPE_INT32 (sp_qos sp)"
| "encode_setting sp Guid = map_option DATA_TYPE_BLOB (sp_guid sp)"
| "encode_setting sp AuthKey = map_option DATA_TYPE_BLOB (sp_authkey sp)"
| "encode_setting sp CustomCA = map_option (\<lambda>v. DATA_TYPE_STRING (c_str v @ [0])) (sp_ca sp)"
| "encode_setting sp CfgPass = map_option DATA_TYPE_BLOB (sp_pass sp)"
| "encode_setting sp Policy = map_option DATA_TYPE_UINT8 (map_option policy_code (sp_policy sp))"
| "encode_setting sp (Fnc ch) = map_option DATA_TYPE_INT32 (sp_function sp ch)"
| "encode_setting sp (Chng ch) = map_option DATA_TYPE_UINT8 (map_option (\<lambda>b. if b then 1 else 0) (sp_changed sp ch))"

text \<open>A store represents an abstract configuration.\<close>

definition cfg_rel :: "(bytes \<rightharpoonup> kv_data) \<Rightarrow> cfg_spec \<Rightarrow> bool" where
  "cfg_rel m sp \<longleftrightarrow> (\<forall>a. m (norm_key (setting_key a)) = encode_setting sp a)"

definition spec_ok :: "cfg_spec \<Rightarrow> bool" where
  "spec_ok sp \<longleftrightarrow>
     (\<forall>x v. sp_string sp x = Some v \<longrightarrow> c_str v = v \<and> length v < string_size x) \<and>
     (\<forall>v. sp_ca sp = Some v \<longrightarrow> c_str v = v) \<and>
     (\<forall>w. sp_supla_port sp = Some w \<longrightarrow> valid_port w) \<and> (\<forall>w. sp_mqtt_port sp = Some w \<longrightarrow> valid_port w) \<and>
     (\<forall>w. sp_qos sp = Some w \<longrightarrow> 0 \<le> sint w) \<and> (\<forall>m. sp_mode sp = Some m \<longrightarrow> stored_mode m = m)"

lemma encode_setting_type: "encode_setting sp a = Some d \<Longrightarrow> data_type_code d = setting_type a"
  by (cases a) auto

lemma spec_set_setting:
  assumes rel: "cfg_rel m sp" and s: "spec_set m (setting_key a) d = (m', r)"
    and d: "data_type_code d = setting_type a" and enc: "encode_setting sp' = (encode_setting sp)(a \<mapsto> d)"
  shows "r \<and> cfg_rel m' sp'"
proof -
  have "m' = m(norm_key (setting_key a) \<mapsto> d) \<and> r"
    using s rel encode_setting_type [of sp a] d by (auto simp: spec_set_def cfg_rel_def split: option.splits if_splits)
  then show ?thesis using rel enc by (auto simp: cfg_rel_def setting_key_inj)
qed

lemma write_string_eq: "write_string vt c x = set_limited vt c (setting_key (Str x)) (string_size x)"
  by (cases x) (simp_all add: fun_eq_iff const_defs setWiFiSSID_def setWiFiPassword_def setAltWiFiSSID_def setAltWiFiPassword_def
      setDeviceName_def setSuplaServer_def setEmail_def setMqttServer_def setMqttUser_def setMqttPassword_def setMqttPrefix_def
      setSwUpdateServer_def)

lemma read_string_eq: "read_string vt c x = getString vt (store c) (setting_key (Str x)) (string_size x)"
  by (cases x) (simp_all add: const_defs getWiFiSSID_def getWiFiPassword_def getAltWiFiSSID_def getAltWiFiPassword_def
      getDeviceName_def getSuplaServer_def getEmail_def getMqttServer_def getMqttUser_def getMqttPassword_def getMqttPrefix_def
      getSwUpdateServer_def)

lemma write_flag_eq: "write_flag vt c x = set_flag vt c (setting_key (Flag x))"
  by (cases x) (simp_all add: fun_eq_iff setSuplaCommProtocolEnabled_def setMqttCommProtocolEnabled_def setMqttTlsEnabled_def
      setMqttAuthEnabled_def setMqttRetainEnabled_def setSwUpdateSkipCert_def setSwUpdateBeta_def)

lemma read_flag_eq:
  "read_flag vt c x = get_flag vt c (setting_key (Flag x)) (if flag_default (isEncryptionEnabled vt) x then 1 else 0)"
  by (cases x) (simp_all add: isSuplaCommProtocolEnabled_def isMqttCommProtocolEnabled_def isMqttTlsEnabled_def
      isMqttAuthEnabled_def isMqttRetainEnabled_def isSwUpdateSkipCert_def isSwUpdateBeta_def)

lemma encode_setting_ext: "(\<And>a. f a = g a) \<Longrightarrow> f = (g :: setting \<Rightarrow> kv_data option)"
  by (rule ext)

lemma encode_setting_upd:
  "encode_setting (sp\<lparr>sp_string := (sp_string sp)(x \<mapsto> c_str v)\<rparr>) = (encode_setting sp)(Str x \<mapsto> DATA_TYPE_STRING (c_str v @ [0]))"
  "encode_setting (sp\<lparr>sp_flag := (sp_flag sp)(y \<mapsto> b)\<rparr>) = (encode_setting sp)(Flag y \<mapsto> DATA_TYPE_INT8 (if b then 1 else 0))"
  "encode_setting (sp\<lparr>sp_mode := Some mo\<rparr>) = (encode_setting sp)(Mode \<mapsto> DATA_TYPE_INT32 (mode_code mo))"
  "encode_setting (sp\<lparr>sp_supla_port := Some w\<rparr>) = (encode_setting sp)(SuplaPort \<mapsto> DATA_TYPE_INT32 w)"
  "encode_setting (sp\<lparr>sp_mqtt_port := Some w\<rparr>) = (encode_setting sp)(MqttPort \<mapsto> DATA_TYPE_INT32 w)"
  "encode_setting (sp\<lparr>sp_qos := Some w\<rparr>) = (encode_setting sp)(Qos \<mapsto> DATA_TYPE_INT32 w)"
  "encode_setting (sp\<lparr>sp_guid := Some v\<rparr>) = (encode_setting sp)(Guid \<mapsto> DATA_TYPE_BLOB v)"
  "encode_setting (sp\<lparr>sp_authkey := Some v\<rparr>) = (encode_setting sp)(AuthKey \<mapsto> DATA_TYPE_BLOB v)"
  "encode_setting (sp\<lparr>sp_ca := Some (c_str v)\<rparr>) = (encode_setting sp)(CustomCA \<mapsto> DATA_TYPE_STRING (c_str v @ [0]))"
  "encode_setting (sp\<lparr>sp_pass := Some v\<rparr>) = (encode_setting sp)(CfgPass \<mapsto> DATA_TYPE_BLOB v)"
  "encode_setting (sp\<lparr>sp_policy := Some p\<rparr>) = (encode_setting sp)(Policy \<mapsto> DATA_TYPE_UINT8 (policy_code p))"
  "encode_setting (sp\<lparr>sp_function := (sp_function sp)(ch \<mapsto> w)\<rparr>) = (encode_setting sp)(Fnc ch \<mapsto> DATA_TYPE_INT32 w)"
  "encode_setting (sp\<lparr>sp_changed := (sp_changed sp)(ch \<mapsto> b)\<rparr>) = (encode_setting sp)(Chng ch \<mapsto> DATA_TYPE_UINT8 (if b then 1 else 0))"
  by (rule encode_setting_ext, case_tac a; simp)+

section \<open>Refinement\<close>

text \<open>What the abstract configuration returns.\<close>

definition spec_buffer :: "cfg_spec \<Rightarrow> cfg_string \<Rightarrow> bytes option" where
  "spec_buffer sp x = map_option (\<lambda>v. v @ replicate (string_size x - length v) 0) (sp_string sp x)"

definition spec_flag :: "bool \<Rightarrow> cfg_spec \<Rightarrow> cfg_flag \<Rightarrow> bool" where
  "spec_flag encryption sp x = (case sp_flag sp x of None \<Rightarrow> flag_default encryption x | Some b \<Rightarrow> b)"

definition sized :: "nat \<Rightarrow> bytes option \<Rightarrow> bytes option" where
  "sized n b = (case b of None \<Rightarrow> None | Some v \<Rightarrow> if length v = n then Some v else None)"

definition filled :: "cfg_spec \<Rightarrow> cfg_string \<Rightarrow> bool" where
  "filled sp x \<longleftrightarrow> (case sp_string sp x of None \<Rightarrow> False | Some v \<Rightarrow> v \<noteq> [])"

definition spec_ready :: "bool \<Rightarrow> bool \<Rightarrow> cfg_spec \<Rightarrow> bool" where
  "spec_ready encryption wifi_required sp \<longleftrightarrow>
     (wifi_required \<longrightarrow> filled sp WiFiSSID \<and> filled sp WiFiPassword) \<and>
     (spec_flag encryption sp SuplaComm \<longrightarrow> filled sp SuplaServer \<and> filled sp Email) \<and>
     (spec_flag encryption sp MqttComm \<longrightarrow> filled sp MqttServer \<and>
        (spec_flag encryption sp MqttAuth \<longrightarrow> filled sp MqttUser \<and> filled sp MqttPassword))"

definition represents :: "('s \<Rightarrow> bool) \<Rightarrow> ('s \<Rightarrow> bytes \<rightharpoonup> kv_data) \<Rightarrow> 's \<Rightarrow> cfg_spec \<Rightarrow> bool" where
  "represents I contents_of s sp \<longleftrightarrow> I s \<and> cfg_rel (contents_of s) sp \<and> spec_ok sp"

lemma string_size_pos: "string_size x - Suc 0 < n \<longleftrightarrow> \<not> n < string_size x"
  by (cases x) auto

lemma one_or_zero [simp]: "((if b then 1 else 0) = (1 :: u8)) = b"
  by simp

text \<open>Every setter makes one call of the store, or none: which setting it writes, and what.\<close>

datatype cfg_write = W_string bytes | W_blob bytes nat | W_int8 u8 | W_uint8 u8 | W_int32 u32

fun write_data :: "'s config_vt \<Rightarrow> 's \<Rightarrow> bytes \<Rightarrow> cfg_write \<Rightarrow> 's \<times> bool" where
  "write_data vt s k (W_string v) = setString vt s k (Some v)"
| "write_data vt s k (W_blob v n) = setBlob vt s k v n"
| "write_data vt s k (W_int8 b) = setInt8 vt s k b"
| "write_data vt s k (W_uint8 b) = setUInt8 vt s k b"
| "write_data vt s k (W_int32 w) = setInt32 vt s k w"

fun written :: "cfg_write \<Rightarrow> kv_data" where
  "written (W_string v) = DATA_TYPE_STRING (c_str v @ [0])"
| "written (W_blob v n) = DATA_TYPE_BLOB (take n v)"
| "written (W_int8 b) = DATA_TYPE_INT8 b"
| "written (W_uint8 b) = DATA_TYPE_UINT8 b"
| "written (W_int32 w) = DATA_TYPE_INT32 w"

fun op_write :: "cfg_op \<Rightarrow> (setting \<times> cfg_write) option" where
  "op_write (Set_str x v) = (if length (c_str v) < string_size x then Some (Str x, W_string v) else None)"
| "op_write (Set_flag x b) = Some (Flag x, W_int8 (if b then 1 else 0))"
| "op_write (Set_mode m) = Some (Mode, W_int32 (mode_code m))"
| "op_write (Set_supla_port w) = Some (SuplaPort, W_int32 (if valid_port w then w else 2016))"
| "op_write (Set_mqtt_port w) = Some (MqttPort, W_int32 (if valid_port w then w else 1883))"
| "op_write (Set_qos w) = Some (Qos, W_int32 (if sint w < 0 then 0 else if sint w > 2 then 2 else w))"
| "op_write (Set_guid g) = Some (Guid, W_blob g 16)"
| "op_write (Set_authkey g) = Some (AuthKey, W_blob g 16)"
| "op_write (Set_ca v) = Some (CustomCA, W_string v)"
| "op_write (Set_pass p) = Some (CfgPass, W_blob (salt p @ passwordSha p) 48)"
| "op_write (Set_policy p) = Some (Policy, W_uint8 (policy_code p))"
| "op_write (Set_function ch f) = (if sint ch < 0 then None else Some (Fnc ch, W_int32 f))"
| "op_write (Set_changed ch) = Some (Chng ch, W_uint8 1)"
| "op_write (Clear_changed ch) = Some (Chng ch, W_uint8 0)"

lemma cfg_step_write:
  "cfg_step vt op c = (case op_write op of None \<Rightarrow> (c, False) | Some (a, w) \<Rightarrow> stored c (write_data vt (store c) (setting_key a) w))"
proof (cases op)
  case (Set_mode m)
  then show ?thesis by (cases m) (simp_all add: setDeviceMode_def)
next
  case (Set_policy p)
  then show ?thesis by (cases p) (simp_all add: setAutoUpdatePolicy_def OtaModeTag_def)
qed (auto simp: write_string_eq set_limited_def string_size_pos write_flag_eq set_flag_def setSuplaServerPort_def
    setMqttServerPort_def setMqttQos_def setGUID_def setAuthKey_def setCustomCA_def setCfgModeSaltPassword_def
    setChannelFunction_def setChannelConfigChangeFlag_def clearChannelConfigChangeFlag_def const_defs valid_port_def)

lemma cfg_spec_step_write:
  "cfg_spec_step op sp = (sp', r) \<Longrightarrow> r = (op_write op \<noteq> None) \<and>
     encode_setting sp' = (case op_write op of None \<Rightarrow> encode_setting sp | Some (a, w) \<Rightarrow> (encode_setting sp)(a \<mapsto> written w))"
proof (cases op)
  case (Set_mode m)
  then show "cfg_spec_step op sp = (sp', r) \<Longrightarrow> ?thesis" by (cases m) (auto simp: encode_setting_upd stored_mode_def)
qed (auto simp: encode_setting_upd split: if_splits)

lemma stored_values [simp]:
  "stored_mode (stored_mode m) = stored_mode m" "valid_port (if valid_port w then w else 2016)"
  "valid_port (if valid_port w then w else 1883)" "0 \<le> sint (if sint w < 0 then 0 else if sint w > 2 then 2 else (w :: u32))"
  by (simp_all add: stored_mode_def valid_port_def)

lemma spec_ok_step: "spec_ok sp \<Longrightarrow> spec_ok (fst (cfg_spec_step op sp))"
proof (cases op)
  case (Set_str x v)
  then show "spec_ok sp \<Longrightarrow> ?thesis" by (simp add: spec_ok_def)
next
  case (Set_function ch f)
  then show "spec_ok sp \<Longrightarrow> ?thesis" by (simp add: spec_ok_def)
qed (simp_all add: spec_ok_def split del: if_split)

lemma op_write_type: "op_write op = Some (a, w) \<Longrightarrow> data_type_code (written w) = setting_type a"
proof (cases op)
  case (Set_str x v)
  then show "op_write op = Some (a, w) \<Longrightarrow> ?thesis" by (auto split: if_splits)
next
  case (Set_function ch f)
  then show "op_write op = Some (a, w) \<Longrightarrow> ?thesis" by (auto split: if_splits)
qed (auto split del: if_split)

context config_store
begin

lemma write_data_law:
  "inv s \<Longrightarrow> write_data vt s k w = (s', r) \<Longrightarrow> inv s' \<and> spec_set (contents_of s) k (written w) = (contents_of s', r)"
  by (cases w; simp only: write_data.simps written.simps; rule set_string set_blob set_int8 set_uint8 set_int32; assumption)

lemma step_refines:
  assumes rel: "represents inv contents_of (store c) sp" and st: "cfg_step vt op c = (c', r)"
    and sp': "cfg_spec_step op sp = (sp', r')"
  shows "r' = r \<and> represents inv contents_of (store c') sp'"
proof (cases "op_write op")
  case None
  then show ?thesis
    using st rel cfg_spec_step_write [OF sp'] spec_ok_step [of sp op] sp'
    by (auto simp: cfg_step_write represents_def cfg_rel_def)
next
  case (Some aw)
  obtain a w where aw: "aw = (a, w)" by (cases aw)
  obtain s' where s': "write_data vt (store c) (setting_key a) w = (s', r)" "store c' = s'"
    using st by (cases "write_data vt (store c) (setting_key a) w") (auto simp: cfg_step_write Some aw stored_def)
  have "inv s'" and law: "spec_set (contents_of (store c)) (setting_key a) (written w) = (contents_of s', r)"
    using write_data_law [OF _ s'(1)] rel by (simp_all add: represents_def)
  moreover have "r \<and> cfg_rel (contents_of s') sp'"
    using rel cfg_spec_step_write [OF sp'] op_write_type [of op a w]
    by (intro spec_set_setting [OF _ law]) (auto simp: represents_def Some aw)
  ultimately show ?thesis
    using rel s'(2) cfg_spec_step_write [OF sp'] spec_ok_step [of sp op] sp' by (auto simp: represents_def Some)
qed

lemma run_refines:
  "represents inv contents_of (store c) sp \<Longrightarrow> cfg_run vt ops c = (c', rs) \<Longrightarrow>
     snd (cfg_spec_run ops sp) = rs \<and> represents inv contents_of (store c') (fst (cfg_spec_run ops sp))"
proof (induction ops arbitrary: c sp rs)
  case (Cons op ops)
  obtain c1 r where s: "cfg_step vt op c = (c1, r)" by fastforce
  obtain sp1 r' where t: "cfg_spec_step op sp = (sp1, r')" by fastforce
  show ?case
    using Cons.IH [of c1 sp1] step_refines [OF Cons.prems(1) s t] Cons.prems(2) s t by (auto split: prod.splits)
qed simp

end

lemma present_buffer: "c_str v = v \<Longrightarrow> present (Some (v @ replicate n 0)) \<longleftrightarrow> v \<noteq> []"
  using c_str_append_zeros [of v n] by (simp add: present_def)

context config_store
begin

lemma reads:
  assumes rel: "represents inv contents_of s sp"
  shows "getString vt s (setting_key (Str x)) (string_size x) = spec_buffer sp x"
    "getString vt s (setting_key CustomCA) n = (case sp_ca sp of None \<Rightarrow> None | Some v \<Rightarrow>
       if length v < n then Some (v @ replicate (n - length v) 0) else None)"
    "getBlob vt s (setting_key Guid) n = sized n (sp_guid sp)"
    "getBlob vt s (setting_key AuthKey) n = sized n (sp_authkey sp)"
    "getBlob vt s (setting_key CfgPass) n = sized n (sp_pass sp)"
    "getInt8 vt s (setting_key (Flag y)) = map_option (\<lambda>b. if b then 1 else 0) (sp_flag sp y)"
    "getUInt8 vt s (setting_key Policy) = map_option policy_code (sp_policy sp)"
    "getUInt8 vt s (setting_key (Chng ch)) = map_option (\<lambda>b. if b then 1 else 0) (sp_changed sp ch)"
    "getInt32 vt s (setting_key Mode) = map_option mode_code (sp_mode sp)"
    "getInt32 vt s (setting_key SuplaPort) = sp_supla_port sp"
    "getInt32 vt s (setting_key MqttPort) = sp_mqtt_port sp"
    "getInt32 vt s (setting_key Qos) = sp_qos sp"
    "getInt32 vt s (setting_key (Fnc ch)) = sp_function sp ch"
proof -
  have i: "inv s" and e: "\<And>a. contents_of s (norm_key (setting_key a)) = encode_setting sp a"
    and ok: "\<And>v x. sp_string sp x = Some v \<Longrightarrow> c_str v = v \<and> length v < string_size x" "\<And>v. sp_ca sp = Some v \<Longrightarrow> c_str v = v"
    using rel by (auto simp: represents_def cfg_rel_def spec_ok_def)
  note L = get_string [OF i] get_blob [OF i] get_int8 [OF i] get_uint8 [OF i] get_int32 [OF i]
  show "getString vt s (setting_key (Str x)) (string_size x) = spec_buffer sp x"
    using L(1) [of "setting_key (Str x)" "sp_string sp x"] ok(1) unfolding e spec_buffer_def by (auto split: option.splits)
  show "getString vt s (setting_key CustomCA) n = (case sp_ca sp of None \<Rightarrow> None | Some v \<Rightarrow>
       if length v < n then Some (v @ replicate (n - length v) 0) else None)"
    using L(1) [of "setting_key CustomCA" "sp_ca sp"] ok(2) unfolding e by (auto split: option.splits)
  show "getBlob vt s (setting_key Guid) n = sized n (sp_guid sp)" "getBlob vt s (setting_key AuthKey) n = sized n (sp_authkey sp)"
    "getBlob vt s (setting_key CfgPass) n = sized n (sp_pass sp)"
    unfolding sized_def by (rule L(2), simp only: e encode_setting.simps)+
  show "getInt8 vt s (setting_key (Flag y)) = map_option (\<lambda>b. if b then 1 else 0) (sp_flag sp y)"
    "getUInt8 vt s (setting_key Policy) = map_option policy_code (sp_policy sp)"
    "getUInt8 vt s (setting_key (Chng ch)) = map_option (\<lambda>b. if b then 1 else 0) (sp_changed sp ch)"
    "getInt32 vt s (setting_key Mode) = map_option mode_code (sp_mode sp)"
    "getInt32 vt s (setting_key SuplaPort) = sp_supla_port sp" "getInt32 vt s (setting_key MqttPort) = sp_mqtt_port sp"
    "getInt32 vt s (setting_key Qos) = sp_qos sp" "getInt32 vt s (setting_key (Fnc ch)) = sp_function sp ch"
    by (rule L(3) L(4) L(5), simp only: e encode_setting.simps)+
qed

lemma getters_refine:
  assumes rel: "represents inv contents_of (store c) sp"
  shows "read_string vt c x = spec_buffer sp x"
    "read_flag vt c y = spec_flag (isEncryptionEnabled vt) sp y"
    "getDeviceMode vt c = (case sp_mode sp of None \<Rightarrow> DEVICE_MODE_NOT_SET | Some m \<Rightarrow> m)"
    "getSuplaServerPort vt c = (case sp_supla_port sp of None \<Rightarrow> - 1 | Some w \<Rightarrow> w)"
    "getMqttServerPort vt c = (case sp_mqtt_port sp of
       None \<Rightarrow> if spec_flag (isEncryptionEnabled vt) sp MqttTls then 8883 else 1883 | Some w \<Rightarrow> w)"
    "getMqttQos vt c = (case sp_qos sp of None \<Rightarrow> 0 | Some w \<Rightarrow> w)"
    "getAutoUpdatePolicy vt c = (case sp_policy sp of None \<Rightarrow> SecurityOnly | Some p \<Rightarrow> p)"
proof -
  note R = reads [OF rel]
  have f: "\<And>y. read_flag vt c y = spec_flag (isEncryptionEnabled vt) sp y"
    unfolding read_flag_eq get_flag_def R(6) spec_flag_def by (auto split: option.splits)
  then show "read_flag vt c y = spec_flag (isEncryptionEnabled vt) sp y" .
  show "read_string vt c x = spec_buffer sp x" unfolding read_string_eq by (rule R(1))
  have ok: "spec_ok sp" using rel by (simp add: represents_def)
  show "getDeviceMode vt c = (case sp_mode sp of None \<Rightarrow> DEVICE_MODE_NOT_SET | Some m \<Rightarrow> m)"
    using R(9) ok by (auto simp: getDeviceMode_def spec_ok_def stored_mode_def split: option.splits) (case_tac x2; simp)+
  show "getSuplaServerPort vt c = (case sp_supla_port sp of None \<Rightarrow> - 1 | Some w \<Rightarrow> w)"
    using R(10) ok by (auto simp: getSuplaServerPort_def spec_ok_def valid_port_def split: option.splits)
  show "getMqttServerPort vt c = (case sp_mqtt_port sp of
       None \<Rightarrow> if spec_flag (isEncryptionEnabled vt) sp MqttTls then 8883 else 1883 | Some w \<Rightarrow> w)"
    using R(11) ok f [of MqttTls] by (auto simp: getMqttServerPort_def spec_ok_def valid_port_def split: option.splits)
  show "getMqttQos vt c = (case sp_qos sp of None \<Rightarrow> 0 | Some w \<Rightarrow> w)"
    using R(12) ok by (auto simp: getMqttQos_def spec_ok_def split: option.splits)
  show "getAutoUpdatePolicy vt c = (case sp_policy sp of None \<Rightarrow> SecurityOnly | Some p \<Rightarrow> p)"
    using R(7) by (auto simp: getAutoUpdatePolicy_def OtaModeTag_def split: option.splits) (case_tac x2; simp)+
qed

lemma more_getters_refine:
  assumes rel: "represents inv contents_of (store c) sp"
  shows "getGUID vt c = sized 16 (sp_guid sp)" "getAuthKey vt c = sized 16 (sp_authkey sp)"
    "getCustomCA vt c n = (case sp_ca sp of None \<Rightarrow> None | Some v \<Rightarrow>
       if length v < n then Some (v @ replicate (n - length v) 0) else None)"
    "getCfgModeSaltPassword vt c = map_option (\<lambda>b. \<lparr>salt = take 16 b, passwordSha = drop 16 b\<rparr>) (sized 48 (sp_pass sp))"
    "getChannelFunction vt c ch = (if sint ch < 0 then - 1 else case sp_function sp ch of None \<Rightarrow> - 1 | Some f \<Rightarrow> f)"
    "isChannelConfigChangeFlagSet vt c ch 0 \<longleftrightarrow> sp_changed sp ch = Some True"
    "isMinimalConfigReady vt wifi_required c \<longleftrightarrow> spec_ready (isEncryptionEnabled vt) wifi_required sp"
proof -
  note R = reads [OF rel]
  show "getGUID vt c = sized 16 (sp_guid sp)" "getAuthKey vt c = sized 16 (sp_authkey sp)"
    "getCustomCA vt c n = (case sp_ca sp of None \<Rightarrow> None | Some v \<Rightarrow>
       if length v < n then Some (v @ replicate (n - length v) 0) else None)"
    "getCfgModeSaltPassword vt c = map_option (\<lambda>b. \<lparr>salt = take 16 b, passwordSha = drop 16 b\<rparr>) (sized 48 (sp_pass sp))"
    "getChannelFunction vt c ch = (if sint ch < 0 then - 1 else case sp_function sp ch of None \<Rightarrow> - 1 | Some f \<Rightarrow> f)"
    using R(2-5,13)
    by (auto simp: getGUID_def getAuthKey_def getCustomCA_def getCfgModeSaltPassword_def getChannelFunction_def const_defs
        split: option.splits)
  show "isChannelConfigChangeFlagSet vt c ch 0 \<longleftrightarrow> sp_changed sp ch = Some True"
    using R(8) by (auto simp: isChannelConfigChangeFlagSet_def split: option.splits)
  have p: "present (read_string vt c x) \<longleftrightarrow> filled sp x" for x
    using rel unfolding getters_refine(1) [OF rel]
    by (auto simp: spec_buffer_def filled_def represents_def spec_ok_def present_buffer present_def [of None] split: option.splits)
  note G = p [of WiFiSSID] p [of WiFiPassword] p [of SuplaServer] p [of Email] p [of MqttServer] p [of MqttUser] p [of MqttPassword]
    getters_refine(2) [OF rel, of SuplaComm] getters_refine(2) [OF rel, of MqttComm] getters_refine(2) [OF rel, of MqttAuth]
  show "isMinimalConfigReady vt wifi_required c \<longleftrightarrow> spec_ready (isEncryptionEnabled vt) wifi_required sp"
    using G by (auto simp: isMinimalConfigReady_def spec_ready_def)
qed

end

lemma represents_empty: "represents kv_inv kv_abs [] spec_empty"
proof -
  have "encode_setting spec_empty a = None" for a by (cases a) (simp_all add: spec_empty_def)
  then show ?thesis
    by (auto simp: represents_def cfg_rel_def spec_ok_def kv_inv_def kv_abs_def spec_empty_def)
qed

text \<open>C27. The device configuration implements independent settings.  For every sequence of setter calls on the configuration of a new device,
  kept in a \<open>KeyValue\<close> store, the results of the setters and everything the getters return afterwards are those of the
  abstract configuration, in which every setting, and the function and the change flag of every channel, has a value of
  its own: the value last set, or the default of that setting.  Strings longer than the buffer of their getter are refused, ports and the
  quality of service are replaced by valid values, and a
  configuration counts as complete when the strings needed for the enabled protocols are present.\<close>

theorem config_refines:
  "let vt = keyvalue_vt encryption; (c, rs) = cfg_run vt ops (new_config []); (sp, rs') = cfg_spec_run ops spec_empty in
     rs = rs' \<and>
     read_string vt c = spec_buffer sp \<and>
     read_flag vt c = spec_flag encryption sp \<and>
     getDeviceMode vt c = (case sp_mode sp of None \<Rightarrow> DEVICE_MODE_NOT_SET | Some m \<Rightarrow> m) \<and>
     getSuplaServerPort vt c = (case sp_supla_port sp of None \<Rightarrow> - 1 | Some w \<Rightarrow> w) \<and>
     getMqttServerPort vt c = (case sp_mqtt_port sp of
       None \<Rightarrow> if spec_flag encryption sp MqttTls then 8883 else 1883 | Some w \<Rightarrow> w) \<and>
     getMqttQos vt c = (case sp_qos sp of None \<Rightarrow> 0 | Some w \<Rightarrow> w) \<and>
     getAutoUpdatePolicy vt c = (case sp_policy sp of None \<Rightarrow> SecurityOnly | Some p \<Rightarrow> p) \<and>
     getGUID vt c = sized 16 (sp_guid sp) \<and>
     getAuthKey vt c = sized 16 (sp_authkey sp) \<and>
     getCustomCA vt c n = (case sp_ca sp of None \<Rightarrow> None | Some v \<Rightarrow>
       if length v < n then Some (v @ replicate (n - length v) 0) else None) \<and>
     getCfgModeSaltPassword vt c = map_option (\<lambda>b. \<lparr>salt = take 16 b, passwordSha = drop 16 b\<rparr>) (sized 48 (sp_pass sp)) \<and>
     getChannelFunction vt c ch = (if sint ch < 0 then - 1 else case sp_function sp ch of None \<Rightarrow> - 1 | Some f \<Rightarrow> f) \<and>
     isChannelConfigChangeFlagSet vt c ch 0 = (sp_changed sp ch = Some True) \<and>
     isMinimalConfigReady vt wifi_required c = spec_ready encryption wifi_required sp"
proof -
  define vt where "vt = keyvalue_vt encryption"
  obtain c rs where r: "cfg_run vt ops (new_config []) = (c, rs)" by fastforce
  obtain sp rs' where s: "cfg_spec_run ops spec_empty = (sp, rs')" by fastforce
  have "represents kv_inv kv_abs (store (new_config [] :: KeyValue Config)) spec_empty"
    using represents_empty by (simp add: new_config_def)
  from kv_store.run_refines [OF this, of encryption, folded vt_def, OF r] have *: "rs = rs'" "represents kv_inv kv_abs (store c) sp"
    by (simp_all add: s)
  have "isEncryptionEnabled vt = encryption" by (simp add: vt_def keyvalue_vt_def)
  then show ?thesis
    unfolding vt_def [symmetric] Let_def r s prod.case
    using *(1) kv_store.getters_refine [OF *(2), of encryption, folded vt_def]
      kv_store.more_getters_refine [OF *(2), of encryption, folded vt_def]
    by (simp add: fun_eq_iff)
qed

section \<open>The change flag as a state machine\<close>

text \<open>The events that concern the flag: a change of the configuration, the confirmation of the server, the periodic
  \<open>saveIfNeeded\<close>, a query, a restart with the stored configuration, and the setters.\<close>

datatype cfg_event = Change u32 | Confirm | Poll u32 u32 | Query | Restart | Setting cfg_op

fun event_step :: "'s config_vt \<Rightarrow> cfg_event \<Rightarrow> 's Config \<Rightarrow> 's Config" where
  "event_step vt (Change now) c = fst (setDeviceConfigChangeFlag vt c now)"
| "event_step vt Confirm c = fst (clearDeviceConfigChangeFlag vt c)"
| "event_step vt (Poll now now') c = fst (saveIfNeeded c now now')"
| "event_step vt Query c = fst (isDeviceConfigChangeFlagSet vt c)"
| "event_step vt Restart c = new_config (store c)"
| "event_step vt (Setting op) c = fst (cfg_step vt op c)"

text \<open>After a restart the stored flag is unread until the first query.\<close>

datatype change_state = Unread bool | Clean | Waiting u32 | Ready

fun pending :: "change_state \<Rightarrow> bool" where
  "pending (Unread p) = p"
| "pending Clean = False"
| "pending _ = True"

fun ready :: "change_state \<Rightarrow> bool" where
  "ready (Unread p) = p"
| "ready Ready = True"
| "ready _ = False"

fun change_step :: "cfg_event \<Rightarrow> change_state \<Rightarrow> change_state" where
  "change_step (Change now) st = Waiting now"
| "change_step Confirm Ready = Clean"
| "change_step Confirm st = st"
| "change_step (Poll now now') (Waiting t) = (if t \<noteq> 0 \<and> now' - t > 1000 then Ready else Waiting t)"
| "change_step (Poll now now') st = st"
| "change_step Query (Unread p) = (if p then Ready else Clean)"
| "change_step Query st = st"
| "change_step Restart st = Unread (pending st)"
| "change_step (Setting op) st = st"

fun change_members :: "change_state \<Rightarrow> u8 \<times> u32" where
  "change_members (Unread _) = (- 1, 0)"
| "change_members Clean = (0, 0)"
| "change_members (Waiting t) = (1, t)"
| "change_members Ready = (2, 0)"

definition change_rel :: "('s \<Rightarrow> bool) \<Rightarrow> ('s \<Rightarrow> bytes \<rightharpoonup> kv_data) \<Rightarrow> 's Config \<Rightarrow> change_state \<Rightarrow> bool" where
  "change_rel I contents_of c st \<longleftrightarrow> I (store c) \<and>
     contents_of (store c) (norm_key DeviceConfigChangeCfgTag) \<in>
       (if pending st then {Some (DATA_TYPE_UINT8 1)} else {None, Some (DATA_TYPE_UINT8 0)}) \<and>
     (deviceConfigChangeFlag c, deviceConfigUpdateDelayTimestamp c) = change_members st"

lemma change_tag_key: "norm_key DeviceConfigChangeCfgTag \<noteq> norm_key (setting_key a)"
proof (cases "a \<in> set fixed_settings")
  case True
  have "''devcfg_chng'' \<notin> set (map setting_name fixed_settings)" by code_simp
  then have "setting_name a \<noteq> ''devcfg_chng''" using True by (metis list.set_map imageI)
  then show ?thesis
    unfolding norm_key_fixed(1) [OF True] DeviceConfigChangeCfgTag_def by (simp add: norm_key_str SUPLA_STORAGE_KEY_SIZE_def)
next
  case False
  have t: "list_all (\<lambda>c. c \<noteq> 0) ChannelFunctionTag" "list_all (\<lambda>c. c \<noteq> 0) ChannelConfigChangedFlagTag"
    by (simp_all add: tags_eq)
  have d: "norm_key DeviceConfigChangeCfgTag = [100, 101, 118, 99, 102, 103, 95, 99, 104, 110, 103]" by code_simp
  have n: "norm_key DeviceConfigChangeCfgTag \<noteq> norm_key (generateKey ch tag)" if "list_all (\<lambda>c. c \<noteq> 0) tag" for ch tag
    using channel_key_first [OF that, of ch] unfolding d by auto
  obtain ch where "a = Fnc ch \<or> a = Chng ch" using False by (auto simp: fixed_setting_iff)
  then show ?thesis using n [OF t(1), of ch] n [OF t(2), of ch] by fastforce
qed

lemma spec_set_other: "norm_key k \<noteq> j \<Longrightarrow> fst (spec_set m k d) j = m j"
  by (auto simp: spec_set_def split: option.splits)

context config_store
begin

lemma set_change:
  assumes "inv s" "contents_of s (norm_key DeviceConfigChangeCfgTag) \<in> {None, Some (DATA_TYPE_UINT8 0), Some (DATA_TYPE_UINT8 1)}"
  shows "inv (fst (setUInt8 vt s DeviceConfigChangeCfgTag b))"
    "contents_of (fst (setUInt8 vt s DeviceConfigChangeCfgTag b)) (norm_key DeviceConfigChangeCfgTag) = Some (DATA_TYPE_UINT8 b)"
proof -
  obtain s' r where s': "setUInt8 vt s DeviceConfigChangeCfgTag b = (s', r)" by fastforce
  show "inv (fst (setUInt8 vt s DeviceConfigChangeCfgTag b))"
    "contents_of (fst (setUInt8 vt s DeviceConfigChangeCfgTag b)) (norm_key DeviceConfigChangeCfgTag) = Some (DATA_TYPE_UINT8 b)"
    using set_uint8 [OF assms(1) s'] assms(2) s' by (auto simp: spec_set_def dest: sym split: option.splits if_splits)
qed

lemma get_change:
  assumes "change_rel inv contents_of c st"
  shows "(case getUInt8 vt (store c) DeviceConfigChangeCfgTag of None \<Rightarrow> 0 | Some v \<Rightarrow> v) = (if pending st then 1 else 0)"
proof -
  define d where "d = contents_of (store c) (norm_key DeviceConfigChangeCfgTag)"
  have i: "inv (store c)" and m: "d \<in> (if pending st then {Some (DATA_TYPE_UINT8 1)} else {None, Some (DATA_TYPE_UINT8 0)})"
    using assms by (simp_all add: change_rel_def d_def)
  note G = get_uint8 [OF i, of DeviceConfigChangeCfgTag, folded d_def]
  show ?thesis
    using m G [of "Some 1"] G [of "Some 0"] G [of None] by (auto split: if_splits)
qed

lemma setting_keeps_change:
  assumes "inv (store c)"
  shows "inv (store (fst (cfg_step vt op c))) \<and>
    contents_of (store (fst (cfg_step vt op c))) (norm_key DeviceConfigChangeCfgTag) =
      contents_of (store c) (norm_key DeviceConfigChangeCfgTag) \<and>
    deviceConfigChangeFlag (fst (cfg_step vt op c)) = deviceConfigChangeFlag c \<and>
    deviceConfigUpdateDelayTimestamp (fst (cfg_step vt op c)) = deviceConfigUpdateDelayTimestamp c"
proof (cases "op_write op")
  case None
  then show ?thesis using assms by (simp add: cfg_step_write)
next
  case (Some aw)
  obtain a w s' r where aw: "aw = (a, w)" and s': "write_data vt (store c) (setting_key a) w = (s', r)" by (metis prod.exhaust)
  have "inv s'" "contents_of s' = fst (spec_set (contents_of (store c)) (setting_key a) (written w))"
    using write_data_law [OF assms s'] by simp_all
  then show ?thesis
    using change_tag_key [of a] by (simp add: cfg_step_write Some aw stored_def s' spec_set_other)
qed

lemma change_step_refines:
  assumes rel: "change_rel inv contents_of c st"
  shows "change_rel inv contents_of (event_step vt ev c) (change_step ev st)"
proof (cases ev)
  case (Change now)
  then show ?thesis
    using rel set_change [of "store c" 1]
    by (auto simp: change_rel_def setDeviceConfigChangeFlag_def stored_def split: if_splits)
next
  case Confirm
  then show ?thesis
    using rel set_change [of "store c" 0]
    by (cases st) (auto simp: change_rel_def clearDeviceConfigChangeFlag_def stored_def)
next
  case (Poll now now')
  then show ?thesis
    using rel by (cases st) (auto simp: change_rel_def saveIfNeeded_def Let_def)
next
  case Query
  then show ?thesis
    using rel get_change [OF rel] by (cases st) (auto simp: change_rel_def isDeviceConfigChangeFlagSet_def Let_def)
next
  case Restart
  then show ?thesis using rel by (auto simp: change_rel_def new_config_def)
next
  case (Setting op)
  then show ?thesis using rel setting_keeps_change [of c op] by (auto simp: change_rel_def)
qed

lemma change_run_refines:
  "change_rel inv contents_of c st \<Longrightarrow> change_rel inv contents_of (fold (event_step vt) evs c) (fold change_step evs st)"
  by (induction evs arbitrary: c st) (simp_all add: change_step_refines)

lemma change_flags:
  assumes rel: "change_rel inv contents_of c st"
  shows "snd (isDeviceConfigChangeFlagSet vt c) = pending st" "snd (isDeviceConfigChangeReadyToSend vt c) = ready st"
  using rel get_change [OF rel]
  by (cases st; auto simp: change_rel_def isDeviceConfigChangeReadyToSend_def isDeviceConfigChangeFlagSet_def Let_def)+

end

lemma change_rel_empty: "change_rel kv_inv kv_abs (new_config []) (Unread False)"
  by (simp add: change_rel_def new_config_def kv_inv_def kv_abs_def)

text \<open>C28. The flag that a changed configuration has to be sent follows the state machine \<open>change_step\<close>, in every run of
  changes, confirmations, polls, queries, setters and restarts that find the store as it was left: both questions about the flag are
  answered as its state says.  A change sets the flag.  A confirmation clears it only in the state \<open>Ready\<close>: not while a newer change
  is waiting, and not after a restart before the flag has been queried (\<open>Unread\<close>).  A change at a clock value other than 0 becomes
  ready at the first poll whose time stamp is more than 1000 ms later on the 32-bit clock with wrap-around; a change at the clock value
  0 does not become ready by polling (\<open>change_at_zero_stuck\<close>).  After a restart a stored change is ready to send without
  any wait.\<close>

theorem config_change_flag:
  "let vt = keyvalue_vt encryption; c = fold (event_step vt) evs (new_config []); st = fold change_step evs (Unread False) in
     snd (isDeviceConfigChangeFlagSet vt c) = pending st \<and> snd (isDeviceConfigChangeReadyToSend vt c) = ready st"
  using kv_store.change_flags [OF kv_store.change_run_refines [OF change_rel_empty]] by (simp add: Let_def)

text \<open>A change at the clock value 0 is never ready, whatever is polled, confirmed, queried or set.\<close>

lemma change_at_zero_stuck:
  assumes "\<forall>ev \<in> set evs. (\<exists>now now'. ev = Poll now now') \<or> ev = Confirm \<or> ev = Query \<or> (\<exists>op. ev = Setting op)"
  shows "fold change_step evs (change_step (Change 0) st) = Waiting 0"
proof -
  have "fold change_step evs (Waiting 0) = Waiting 0"
    using assms by (induction evs) auto
  then show ?thesis by simp
qed

section \<open>Passwords\<close>

text \<open>The password check as a sentence, and when the generation of a salt returns.\<close>

lemma strong_loop_eq:
  "strong_loop ps u l n =
     (u \<or> (\<exists>p \<in> set ps. 65 \<le> p \<and> p \<le> 90), l \<or> (\<exists>p \<in> set ps. 97 \<le> p \<and> p \<le> 122), n \<or> (\<exists>p \<in> set ps. 48 \<le> p \<and> p \<le> 57))"
  by (induction ps arbitrary: u l n) (auto simp: word_le_nat_alt)

lemma isPasswordStrong_iff:
  "isPasswordStrong password \<longleftrightarrow> 8 \<le> length (c_str password) \<and> (\<exists>p \<in> set (c_str password). 65 \<le> p \<and> p \<le> 90) \<and>
     (\<exists>p \<in> set (c_str password). 97 \<le> p \<and> p \<le> 122) \<and> (\<exists>p \<in> set (c_str password). 48 \<le> p \<and> p \<le> 57)"
  by (auto simp: isPasswordStrong_def strong_loop_eq)

lemma salt_loop_returns:
  assumes "rnd j ! 0 \<noteq> 0" "i \<le> j"
  shows "\<exists>r. salt_loop rnd i result = Some r \<and> \<not> isSaltEmpty r \<and> passwordSha r = passwordSha result"
  using assms(2)
proof (induction "Suc j - i" arbitrary: i result)
  case (Suc n)
  show ?case
  proof (cases "isSaltEmpty result")
    case True
    have "\<exists>r. salt_loop rnd (Suc i) (result\<lparr>salt := rnd i\<rparr>) = Some r \<and> \<not> isSaltEmpty r \<and> passwordSha r = passwordSha result"
    proof (cases "i = j")
      case True
      then have "salt_loop rnd (Suc i) (result\<lparr>salt := rnd i\<rparr>) = Some (result\<lparr>salt := rnd i\<rparr>)"
        using assms(1) by (subst salt_loop.simps) (simp add: isSaltEmpty_def)
      then show ?thesis using True assms(1) by (simp add: isSaltEmpty_def)
    next
      case False
      then show ?thesis using Suc(1) [of "Suc i" "result\<lparr>salt := rnd i\<rparr>"] Suc(2,3) by simp
    qed
    then show ?thesis using True by (subst salt_loop.simps) simp
  next
    case False
    then show ?thesis by (subst salt_loop.simps) simp
  qed
qed simp

lemma generateSaltPassword_returns:
  assumes "rnd j ! 0 \<noteq> 0"
  shows "\<exists>r. generateSaltPassword rnd pbkdf2 (Some password) result = Some r \<and> \<not> isSaltEmpty r \<and>
    passwordSha r = pbkdf2 (c_str password) (salt r) 5000 32"
  using salt_loop_returns [of rnd j 0 result, OF assms]
  by (auto simp: generateSaltPassword_def isSaltEmpty_def SUPLA_CFG_MODE_PASSWORD_SIZE_def)

section \<open>Values that survive a restart\<close>

text \<open>A value that the image of the store can hold in any place.\<close>

definition image_ok :: "kv_data \<Rightarrow> bool" where
  "image_ok d \<longleftrightarrow> d \<noteq> DATA_TYPE_NOT_SET \<and> data_size d < 2 ^ 16 \<and> data_bytes d \<noteq> []"

text \<open>The arguments that the setters expect: identifiers and passwords of their full size, a certificate of less than 64 KB.\<close>

fun op_ok :: "cfg_op \<Rightarrow> bool" where
  "op_ok (Set_guid g) \<longleftrightarrow> 16 \<le> length g"
| "op_ok (Set_authkey g) \<longleftrightarrow> 16 \<le> length g"
| "op_ok (Set_pass p) \<longleftrightarrow> length (salt p) = 16 \<and> length (passwordSha p) = 32"
| "op_ok (Set_ca v) \<longleftrightarrow> length (c_str v) < 65535"
| "op_ok _ \<longleftrightarrow> True"

fun event_ok :: "cfg_event \<Rightarrow> bool" where
  "event_ok (Setting op) = op_ok op"
| "event_ok _ = True"

lemma op_write_ok: "op_ok op \<Longrightarrow> op_write op = Some (a, w) \<Longrightarrow> image_ok (written w)"
proof (cases op)
  case (Set_str x v)
  moreover have "string_size x \<le> 256" by (cases x) simp_all
  ultimately show "op_ok op \<Longrightarrow> op_write op = Some (a, w) \<Longrightarrow> ?thesis" by (auto simp: image_ok_def split: if_splits)
qed (auto simp: image_ok_def u32_bytes_def le_bytes_4 split: if_splits)

definition all_ok :: "(bytes \<rightharpoonup> kv_data) \<Rightarrow> bool" where
  "all_ok m \<longleftrightarrow> (\<forall>j e. m j = Some e \<longrightarrow> image_ok e)"

lemma spec_set_ok: "image_ok d \<Longrightarrow> all_ok m \<Longrightarrow> all_ok (fst (spec_set m k d))"
  by (auto simp: all_ok_def spec_set_def split: option.splits if_splits)

context config_store
begin

lemma event_keeps_ok:
  assumes inv: "inv (store c)" and ev: "event_ok ev" and ok: "all_ok (contents_of (store c))"
  shows "inv (store (event_step vt ev c)) \<and> all_ok (contents_of (store (event_step vt ev c)))"
proof -
  have u: "inv (fst (setUInt8 vt (store c) k b)) \<and> all_ok (contents_of (fst (setUInt8 vt (store c) k b)))" for k b
  proof -
    obtain s' r where s': "setUInt8 vt (store c) k b = (s', r)" by fastforce
    have "image_ok (DATA_TYPE_UINT8 b)" by (simp add: image_ok_def)
    from spec_set_ok [OF this ok, of k] set_uint8 [OF inv s'] show ?thesis by (simp add: s')
  qed
  show ?thesis
  proof (cases ev)
    case (Setting op)
    show ?thesis
    proof (cases "op_write op")
      case None
      then show ?thesis using inv ok by (simp add: Setting cfg_step_write)
    next
      case (Some aw)
      obtain a w s' r where aw: "aw = (a, w)" and s': "write_data vt (store c) (setting_key a) w = (s', r)" by (metis prod.exhaust)
      have "image_ok (written w)" using op_write_ok [of op a w] ev by (simp add: Setting Some aw)
      from spec_set_ok [OF this ok, of "setting_key a"] write_data_law [OF inv s'] show ?thesis
        by (simp add: Setting cfg_step_write Some aw stored_def s')
    qed
  qed (use u inv ok in \<open>simp_all add: setDeviceConfigChangeFlag_def clearDeviceConfigChangeFlag_def stored_def saveIfNeeded_def
      isDeviceConfigChangeFlagSet_def new_config_def Let_def\<close>)
qed

lemma run_keeps_ok:
  "inv (store c) \<Longrightarrow> list_all event_ok evs \<Longrightarrow> all_ok (contents_of (store c)) \<Longrightarrow>
     inv (store (fold (event_step vt) evs c)) \<and> all_ok (contents_of (store (fold (event_step vt) evs c)))"
proof (induction evs arbitrary: c)
  case (Cons ev evs)
  then show ?case using event_keeps_ok [of c ev] by simp
qed simp

end

lemma kv_storable:
  assumes inv: "kv_inv kv" and ok: "all_ok (kv_abs kv)"
  shows "list_all storable kv" "kv \<noteq> [] \<Longrightarrow> data_bytes (kv_data (last kv)) \<noteq> []"
proof -
  have "image_ok (kv_data e)" if "e \<in> set kv" for e
  proof -
    have "kv_abs kv (c_str (kv_key e)) = Some (kv_data e)"
      using inv that unfolding kv_abs_def kv_inv_def by (intro map_of_is_SomeI) (auto simp: comp_def)
    then show ?thesis using ok by (simp add: all_ok_def)
  qed
  then show "list_all storable kv" "kv \<noteq> [] \<Longrightarrow> data_bytes (kv_data (last kv)) \<noteq> []"
    using inv by (auto simp: list_all_iff storable_def kv_inv_def image_ok_def)
qed

section \<open>A restart\<close>

text \<open>The configuration is written to an image of at most \<open>maxSize\<close> bytes and read back into a new object.\<close>

definition reboot :: "nat \<Rightarrow> KeyValue Config \<Rightarrow> KeyValue Config option" where
  "reboot maxSize c =
     (case initFromMemory [] (serializeToMemory (store c) maxSize) of
        Init True kv \<Rightarrow> Some (new_config kv)
      | _ \<Rightarrow> None)"

lemma run_reboots:
  assumes "list_all event_ok evs" "c = fold (event_step (keyvalue_vt encryption)) evs (new_config [])"
    "store c \<noteq> []" "length (concat (map kv_block (store c))) \<le> maxSize"
  shows "reboot maxSize c = Some (new_config (store c))"
proof -
  have "kv_inv (store c) \<and> all_ok (kv_abs (store c))"
    unfolding assms(2) using assms(1)
    by (intro kv_store.run_keeps_ok) (simp_all add: new_config_def kv_inv_def kv_abs_def all_ok_def)
  then have "list_all storable (store c)" "data_bytes (kv_data (last (store c))) \<noteq> []"
    using kv_storable assms(3) by auto
  then have "initFromMemory [] (serializeToMemory (store c) maxSize) = Init True (store c)"
    using serialized_init assms(3,4) by blast
  then show ?thesis by (simp add: reboot_def)
qed

end
