(* ===== verification/Local_Action.thy ===== *)
theory Local_Action
  imports Prelude
begin

text \<open>
  Local actions: \<open>src/src/supla/local_action.cpp\<close>.  An object that raises events (\<open>LocalAction\<close>) and an object that handles actions
  (\<open>ActionHandler\<close>) are connected by entries of one global list, in the order in which they were added.

  Objects are identified by numbers: the trigger and the handler of an entry are such numbers, a handler that was destroyed is
  \<open>None\<close>.  The virtual methods of the handlers that the list asks for are arguments: \<open>real\<close> is \<open>getRealClient\<close> and \<open>owned\<close> is
  \<open>deleteClient\<close>.  \<open>runAction\<close> returns the calls of \<open>handleAction\<close> it makes.  The pointer that walks along the list is an
  index.
\<close>

section \<open>Entries\<close>

record ActionHandlerClient =
  trigger :: nat
  client :: "nat option"
  onEvent :: u16
  act :: u16
  enabled :: bool
  alwaysEnabled :: bool

type_synonym clients = "ActionHandlerClient list"

definition new_client :: ActionHandlerClient where
  "new_client = \<lparr>trigger = 0, client = None, onEvent = 0, act = 0, enabled = True, alwaysEnabled = False\<rparr>"

definition isEnabled :: "ActionHandlerClient \<Rightarrow> bool" where
  "isEnabled p = enabled p"

definition enable :: "ActionHandlerClient \<Rightarrow> ActionHandlerClient" where
  "enable p = p\<lparr>enabled := True\<rparr>"

definition disable :: "ActionHandlerClient \<Rightarrow> ActionHandlerClient" where
  "disable p = (if \<not> alwaysEnabled p then p\<lparr>enabled := False\<rparr> else p)"

definition setAlwaysEnabled :: "ActionHandlerClient \<Rightarrow> ActionHandlerClient" where
  "setAlwaysEnabled p = p\<lparr>alwaysEnabled := True, enabled := True\<rparr>"

definition isAlwaysEnabled :: "ActionHandlerClient \<Rightarrow> bool" where
  "isAlwaysEnabled p = alwaysEnabled p"

section \<open>Operations\<close>

definition addAction :: "nat \<Rightarrow> u16 \<Rightarrow> nat \<Rightarrow> u16 \<Rightarrow> bool \<Rightarrow> clients \<Rightarrow> clients" where
  "addAction this action h event always cs =
     (let p = new_client\<lparr>trigger := this, client := Some h, onEvent := event, act := action\<rparr>
      in cs @ [if always then setAlwaysEnabled p else p])"

text \<open>The calls of \<open>handleAction(event, action)\<close> of an event, each with its handler.\<close>

fun runAction :: "nat \<Rightarrow> u16 \<Rightarrow> clients \<Rightarrow> (nat \<times> u16 \<times> u16) list" where
  "runAction this event [] = []"
| "runAction this event (p # ps) =
     (case client p of
        Some h \<Rightarrow>
          if trigger p = this \<and> onEvent p = event \<and> isEnabled p then (h, event, act p) # runAction this event ps
          else runAction this event ps
      | None \<Rightarrow> runAction this event ps)"

fun isEventAlreadyUsed :: "nat \<Rightarrow> u16 \<Rightarrow> bool \<Rightarrow> clients \<Rightarrow> bool" where
  "isEventAlreadyUsed this event ignoreAlwaysEnabled [] = False"
| "isEventAlreadyUsed this event ignoreAlwaysEnabled (p # ps) =
     (if trigger p = this \<and> onEvent p = event \<and> (\<not> ignoreAlwaysEnabled \<or> \<not> isAlwaysEnabled p) then True
      else isEventAlreadyUsed this event ignoreAlwaysEnabled ps)"

fun disableOtherClients :: "nat \<Rightarrow> nat \<Rightarrow> u16 \<Rightarrow> clients \<Rightarrow> clients" where
  "disableOtherClients this h event [] = []"
| "disableOtherClients this h event (p # ps) =
     (if trigger p = this \<and> onEvent p = event \<and> client p \<noteq> Some h then disable p else p) # disableOtherClients this h event ps"

fun enableOtherClients :: "nat \<Rightarrow> nat \<Rightarrow> u16 \<Rightarrow> clients \<Rightarrow> clients" where
  "enableOtherClients this h event [] = []"
| "enableOtherClients this h event (p # ps) =
     (if trigger p = this \<and> onEvent p = event \<and> client p \<noteq> Some h then enable p else p) # enableOtherClients this h event ps"

fun getHandlerForFirstClient :: "nat \<Rightarrow> u16 \<Rightarrow> clients \<Rightarrow> ActionHandlerClient option" where
  "getHandlerForFirstClient this event [] = None"
| "getHandlerForFirstClient this event (p # ps) =
     (if trigger p = this \<and> onEvent p = event then Some p else getHandlerForFirstClient this event ps)"

fun getHandlerForClient :: "nat \<Rightarrow> nat \<Rightarrow> u16 \<Rightarrow> clients \<Rightarrow> ActionHandlerClient option" where
  "getHandlerForClient this h event [] = None"
| "getHandlerForClient this h event (p # ps) =
     (if trigger p = this \<and> client p = Some h \<and> onEvent p = event then Some p else getHandlerForClient this h event ps)"

text \<open>Action and event of \<open>disableAction\<close> and \<open>enableAction\<close> are 32-bit numbers; -1 stands for all.\<close>

definition to_check :: "int \<Rightarrow> u16" where
  "to_check i = (if 0 \<le> i \<and> i \<le> 65535 then of_int i else 0)"

definition selected :: "nat \<Rightarrow> int \<Rightarrow> nat \<Rightarrow> int \<Rightarrow> ActionHandlerClient \<Rightarrow> bool" where
  "selected this action h event p \<longleftrightarrow>
     trigger p = this \<and> (onEvent p = to_check event \<or> event = - 1) \<and> client p = Some h \<and> (act p = to_check action \<or> action = - 1)"

fun disableAction :: "nat \<Rightarrow> int \<Rightarrow> nat \<Rightarrow> int \<Rightarrow> clients \<Rightarrow> clients" where
  "disableAction this action h event [] = []"
| "disableAction this action h event (p # ps) =
     (if selected this action h event p then disable p else p) # disableAction this action h event ps"

fun enableAction :: "nat \<Rightarrow> int \<Rightarrow> nat \<Rightarrow> int \<Rightarrow> clients \<Rightarrow> clients" where
  "enableAction this action h event [] = []"
| "enableAction this action h event (p # ps) =
     (if selected this action h event p then enable p else p) # enableAction this action h event ps"

section \<open>Removing entries\<close>

definition handled_by :: "(nat \<Rightarrow> nat) \<Rightarrow> nat \<Rightarrow> ActionHandlerClient \<Rightarrow> bool" where
  "handled_by real h p \<longleftrightarrow> (case client p of Some h' \<Rightarrow> real h' = h | None \<Rightarrow> False)"

fun NullifyActionsHandledBy :: "(nat \<Rightarrow> nat) \<Rightarrow> nat \<Rightarrow> clients \<Rightarrow> clients" where
  "NullifyActionsHandledBy real h [] = []"
| "NullifyActionsHandledBy real h (p # ps) =
     (if handled_by real h p then p\<lparr>client := None\<rparr> else p) # NullifyActionsHandledBy real h ps"

text \<open>The destructor \<open>~ActionHandler\<close>.  The object is only an \<open>ActionHandler\<close> by then, so the virtual call \<open>getRealClient\<close> on
  it gives the object itself; the other handlers answer as before.\<close>

definition destroy_handler :: "(nat \<Rightarrow> nat) \<Rightarrow> nat \<Rightarrow> clients \<Rightarrow> clients" where
  "destroy_handler real h cs = NullifyActionsHandledBy (real(h := h)) h cs"

text \<open>The destructor of an entry destroys a handler that belongs to it, which clears that handler everywhere, and unlinks the
  entry.\<close>

definition delete_client :: "(nat \<Rightarrow> nat) \<Rightarrow> (nat \<Rightarrow> bool) \<Rightarrow> nat \<Rightarrow> clients \<Rightarrow> clients" where
  "delete_client real owned i cs =
     (let cs = (case client (cs ! i) of
                  Some h \<Rightarrow> if owned h then destroy_handler real h cs else cs
                | None \<Rightarrow> cs)
      in take i cs @ drop (Suc i) cs)"

lemma length_nullify [simp]: "length (NullifyActionsHandledBy real h cs) = length cs" "length (destroy_handler real h cs) = length cs"
proof -
  show "length (NullifyActionsHandledBy real h cs) = length cs" for real by (induction cs) auto
  then show "length (destroy_handler real h cs) = length cs" by (simp add: destroy_handler_def)
qed

lemma length_delete: "i < length cs \<Longrightarrow> length (delete_client real owned i cs) < length cs"
  by (auto simp: delete_client_def Let_def split: option.splits)

text \<open>Both removing loops start again at the beginning of the list after a removal.\<close>

function delete_loop :: "(nat \<Rightarrow> nat) \<Rightarrow> (nat \<Rightarrow> bool) \<Rightarrow> (ActionHandlerClient \<Rightarrow> bool) \<Rightarrow> nat \<Rightarrow> clients \<Rightarrow> clients" where
  "delete_loop real owned P i cs =
     (if i < length cs then
        if P (cs ! i) then delete_loop real owned P 0 (delete_client real owned i cs)
        else delete_loop real owned P (Suc i) cs
      else cs)"
  by pat_completeness auto
termination
  by (relation "inv_image (less_than <*lex*> less_than) (\<lambda>(real, owned, P, i, cs). (length cs, length cs - i))")
     (auto simp: length_delete)

declare delete_loop.simps [simp del]

definition DeleteActionsHandledBy :: "(nat \<Rightarrow> nat) \<Rightarrow> (nat \<Rightarrow> bool) \<Rightarrow> nat \<Rightarrow> clients \<Rightarrow> clients" where
  "DeleteActionsHandledBy real owned h cs =
     delete_loop real owned (handled_by real h) 0 cs"

definition DeleteActionsTriggeredBy :: "(nat \<Rightarrow> nat) \<Rightarrow> (nat \<Rightarrow> bool) \<Rightarrow> nat \<Rightarrow> clients \<Rightarrow> clients" where
  "DeleteActionsTriggeredBy real owned this cs = delete_loop real owned (\<lambda>p. trigger p = this) 0 cs"

section \<open>What an event reaches\<close>

lemma runAction_eq:
  "runAction this event cs =
     map (\<lambda>p. (the (client p), event, act p)) (filter (\<lambda>p. client p \<noteq> None \<and> trigger p = this \<and> onEvent p = event \<and> enabled p) cs)"
  by (induction cs) (auto simp: isEnabled_def split: option.splits)

lemma loops_map:
  "disableOtherClients this h event cs =
     map (\<lambda>p. if trigger p = this \<and> onEvent p = event \<and> client p \<noteq> Some h then disable p else p) cs"
  "enableOtherClients this h event cs =
     map (\<lambda>p. if trigger p = this \<and> onEvent p = event \<and> client p \<noteq> Some h then enable p else p) cs"
  "disableAction this action h ev cs = map (\<lambda>p. if selected this action h ev p then disable p else p) cs"
  "enableAction this action h ev cs = map (\<lambda>p. if selected this action h ev p then enable p else p) cs"
  "NullifyActionsHandledBy real h cs = map (\<lambda>p. if handled_by real h p then p\<lparr>client := None\<rparr> else p) cs"
  by (induction cs) auto

text \<open>The handlers that a destroyed object was reached through: itself and the wrappers around it.\<close>

definition reaches :: "(nat \<Rightarrow> nat) \<Rightarrow> nat \<Rightarrow> nat \<Rightarrow> bool" where
  "reaches real h h' \<longleftrightarrow> h' = h \<or> real h' = h"

lemma destroy_map:
  "destroy_handler real h cs = map (\<lambda>p. if \<exists>h'. client p = Some h' \<and> reaches real h h' then p\<lparr>client := None\<rparr> else p) cs"
  by (auto simp: destroy_handler_def loops_map handled_by_def reaches_def split: option.splits)

section \<open>Runs\<close>

text \<open>The life of the list: connecting, enabling and disabling, and the destruction of a handler (its destructor clears it in all
  entries) or of a trigger (its destructor removes its entries).\<close>

datatype action_op =
    Add_action nat u16 nat u16 bool
  | Disable_others nat nat u16
  | Enable_others nat nat u16
  | Disable_action nat int nat int
  | Enable_action nat int nat int
  | Destroy_handler nat
  | Destroy_trigger nat

fun action_step :: "(nat \<Rightarrow> nat) \<Rightarrow> (nat \<Rightarrow> bool) \<Rightarrow> action_op \<Rightarrow> clients \<Rightarrow> clients" where
  "action_step real owned (Add_action t a h e always) cs = addAction t a h e always cs"
| "action_step real owned (Disable_others t h e) cs = disableOtherClients t h e cs"
| "action_step real owned (Enable_others t h e) cs = enableOtherClients t h e cs"
| "action_step real owned (Disable_action t a h e) cs = disableAction t a h e cs"
| "action_step real owned (Enable_action t a h e) cs = enableAction t a h e cs"
| "action_step real owned (Destroy_handler h) cs = destroy_handler real h cs"
| "action_step real owned (Destroy_trigger t) cs = DeleteActionsTriggeredBy real owned t cs"

text \<open>Everything of an entry but the handler, which destructors may clear.\<close>

definition cleared :: "ActionHandlerClient \<Rightarrow> ActionHandlerClient \<Rightarrow> bool" where
  "cleared p q \<longleftrightarrow> q = p \<or> q = p\<lparr>client := None\<rparr>"

lemma cleared_members: "cleared p q \<Longrightarrow> trigger q = trigger p \<and> onEvent q = onEvent p \<and> act q = act p \<and> enabled q = enabled p"
  by (auto simp: cleared_def)

lemma delete_client_mem:
  "i < length cs \<Longrightarrow> q \<in> set (delete_client real owned i cs) \<Longrightarrow> \<exists>p \<in> set cs. cleared p q"
  by (auto simp: delete_client_def destroy_map cleared_def Let_def dest!: in_set_takeD in_set_dropD split: option.splits if_splits)

lemma delete_loop_mem: "q \<in> set (delete_loop real owned P i cs) \<Longrightarrow> \<exists>p \<in> set cs. cleared p q"
proof (induction real owned P i cs arbitrary: q rule: delete_loop.induct)
  case (1 real owned P i cs)
  show ?case
  proof (cases "i < length cs")
    case False
    with 1(3) show ?thesis by (auto simp: delete_loop.simps [of real owned P i] cleared_def)
  next
    case True
    show ?thesis
    proof (cases "P (cs ! i)")
      case p: True
      then obtain p where "p \<in> set (delete_client real owned i cs)" "cleared p q"
        using 1(1) [OF True p] 1(3) True by (auto simp: delete_loop.simps [of real owned P i])
      with delete_client_mem [OF True this(1)] show ?thesis by (auto simp: cleared_def)
    next
      case False
      with 1(2) [OF True] 1(3) True show ?thesis by (auto simp: delete_loop.simps [of real owned P i])
    qed
  qed
qed

text \<open>The loop leaves exactly the entries that do not fulfil the condition, if destroying an entry changes no other entry.\<close>

lemma delete_loop_filter:
  assumes "\<forall>h. \<not> owned h" "\<forall>p \<in> set (take i cs). \<not> P p"
  shows "delete_loop real owned P i cs = filter (\<lambda>p. \<not> P p) cs"
  using assms
proof (induction real owned P i cs rule: delete_loop.induct)
  case (1 real owned P i cs)
  show ?case
  proof (cases "i < length cs")
    case False
    with 1(4) show ?thesis by (simp add: delete_loop.simps [of real owned P i] filter_id_conv)
  next
    case True
    then have split: "cs = take i cs @ cs ! i # drop (Suc i) cs" by (simp add: id_take_nth_drop)
    show ?thesis
    proof (cases "P (cs ! i)")
      case p: True
      have "delete_client real owned i cs = take i cs @ drop (Suc i) cs"
        using 1(3) by (simp add: delete_client_def split: option.splits)
      moreover have "filter (\<lambda>p. \<not> P p) cs = filter (\<lambda>p. \<not> P p) (take i cs @ drop (Suc i) cs)"
        using p by (subst split) simp
      ultimately show ?thesis
        using 1(1) [OF True p 1(3)] True p by (simp add: delete_loop.simps [of real owned P i])
    next
      case False
      then have "\<forall>p \<in> set (take (Suc i) cs). \<not> P p" using 1(4) True by (auto simp: take_Suc_conv_app_nth)
      with 1(2) [OF True False 1(3)] True False show ?thesis by (simp add: delete_loop.simps [of real owned P i])
    qed
  qed
qed

text \<open>In any case no entry is left that fulfils the condition.\<close>

lemma delete_loop_none:
  assumes "\<forall>p \<in> set (take i cs). \<not> P p"
  shows "\<forall>q \<in> set (delete_loop real owned P i cs). \<not> P q"
  using assms
proof (induction real owned P i cs rule: delete_loop.induct)
  case (1 real owned P i cs)
  consider (over) "\<not> i < length cs" | (hit) "i < length cs" "P (cs ! i)" | (miss) "i < length cs" "\<not> P (cs ! i)" by blast
  then show ?case
  proof cases
    case over
    with 1(3) show ?thesis by (simp add: delete_loop.simps [of real owned P i])
  next
    case hit
    with 1(1) show ?thesis by (simp add: delete_loop.simps [of real owned P i])
  next
    case miss
    then have "\<forall>p \<in> set (take (Suc i) cs). \<not> P p" using 1(3) by (auto simp: take_Suc_conv_app_nth)
    with miss 1(2) show ?thesis by (simp add: delete_loop.simps [of real owned P i])
  qed
qed

text \<open>An entry that no destructor touches survives.\<close>

lemma delete_client_keeps:
  assumes "q \<in> set cs" "i < length cs" "q \<noteq> cs ! i" "\<And>h h'. owned h \<Longrightarrow> client q = Some h' \<Longrightarrow> \<not> reaches real h h'"
  shows "q \<in> set (delete_client real owned i cs)"
proof -
  obtain j where j: "j < length cs" "q = cs ! j" using assms(1) by (auto simp: in_set_conv_nth)
  define cs' where "cs' = (case client (cs ! i) of Some h \<Rightarrow> if owned h then destroy_handler real h cs else cs | None \<Rightarrow> cs)"
  have "length cs' = length cs" "cs' ! j = q"
    using j assms(4) by (auto simp: cs'_def destroy_map split: option.splits)
  moreover have "j \<noteq> i" using j assms(3) by auto
  ultimately have "q \<in> set (take i cs') \<or> q \<in> set (drop (Suc i) cs')"
    using j assms(2) by (cases "j < i") (auto simp: in_set_conv_nth intro: exI [of _ j] exI [of _ "j - Suc i"])
  then show ?thesis by (simp add: delete_client_def cs'_def Let_def)
qed

lemma delete_loop_keeps:
  assumes "q \<in> set cs" "\<not> P q" "\<And>h h'. owned h \<Longrightarrow> client q = Some h' \<Longrightarrow> \<not> reaches real h h'"
  shows "q \<in> set (delete_loop real owned P i cs)"
  using assms
proof (induction real owned P i cs rule: delete_loop.induct)
  case (1 real owned P i cs)
  consider (over) "\<not> i < length cs" | (hit) "i < length cs" "P (cs ! i)" | (miss) "i < length cs" "\<not> P (cs ! i)" by blast
  then show ?case
  proof cases
    case hit
    then have "q \<in> set (delete_client real owned i cs)" using 1(3-5) by (intro delete_client_keeps) auto
    with 1(1) [OF hit] 1(4,5) hit show ?thesis by (simp add: delete_loop.simps [of real owned P i])
  qed (use 1 in \<open>simp_all add: delete_loop.simps [of real owned P i]\<close>)
qed

text \<open>An entry with an always enabled connection is enabled.\<close>

definition clients_inv :: "clients \<Rightarrow> bool" where
  "clients_inv cs \<longleftrightarrow> (\<forall>p \<in> set cs. alwaysEnabled p \<longrightarrow> enabled p)"

lemma action_step_inv: "clients_inv cs \<Longrightarrow> clients_inv (action_step real owned op cs)"
proof (cases op)
  case (Destroy_trigger t)
  assume "clients_inv cs"
  with Destroy_trigger show ?thesis
    by (fastforce simp: clients_inv_def DeleteActionsTriggeredBy_def cleared_def dest!: delete_loop_mem)
qed (auto simp: clients_inv_def addAction_def new_client_def setAlwaysEnabled_def loops_map destroy_map disable_def enable_def Let_def)

text \<open>An operation that does not destroy the ends of a connection.\<close>

fun keeps_connection :: "(nat \<Rightarrow> nat) \<Rightarrow> nat \<Rightarrow> nat \<Rightarrow> action_op \<Rightarrow> bool" where
  "keeps_connection real t h (Destroy_handler h') \<longleftrightarrow> h' \<noteq> h \<and> real h \<noteq> h'"
| "keeps_connection real t h (Destroy_trigger t') \<longleftrightarrow> t' \<noteq> t"
| "keeps_connection real t h _ \<longleftrightarrow> True"

lemma action_step_keeps:
  assumes "p \<in> set cs" "trigger p = t" "client p = Some h" "alwaysEnabled p" "enabled p" "keeps_connection real t h op"
    and "\<And>h'. owned h' \<Longrightarrow> h' \<noteq> h \<and> real h \<noteq> h'"
  shows "p \<in> set (action_step real owned op cs)"
proof (cases op)
  case (Destroy_trigger t')
  have "\<not> reaches real h' h''" if "owned h'" "client p = Some h''" for h' h'' using assms(3,7) that by (auto simp: reaches_def)
  then show ?thesis
    using assms Destroy_trigger by (auto simp: DeleteActionsTriggeredBy_def intro!: delete_loop_keeps)
next
  case (Destroy_handler h')
  then have "\<not> reaches real h' h" using assms(6) by (auto simp: reaches_def)
  then show ?thesis using assms(1,3) Destroy_handler by (auto simp: destroy_map image_iff intro!: bexI [of _ p])
next
  case (Add_action t' a' h' e' always)
  then show ?thesis using assms(1) by (simp add: addAction_def Let_def)
qed (use assms(1,4,5) in \<open>auto simp: loops_map disable_def enable_def image_iff intro!: bexI [of _ p]\<close>)

text \<open>An always enabled connection always delivers.  After a handler is connected to an event with \<open>alwaysEnabled\<close>, and as long as
  neither end is destroyed, every event calls the handler with the chosen action, whatever other connections are made, enabled,
  disabled or destroyed in between.\<close>

theorem always_enabled_delivers:
  assumes "list_all (keeps_connection real t h) ops" "\<And>h'. owned h' \<Longrightarrow> h' \<noteq> h \<and> real h \<noteq> h'"
  shows "(h, e, a) \<in> set (runAction t e (fold (action_step real owned) ops (addAction t a h e True cs)))"
proof -
  define p where "p = setAlwaysEnabled (new_client\<lparr>trigger := t, client := Some h, onEvent := e, act := a\<rparr>)"
  have p: "trigger p = t" "client p = Some h" "alwaysEnabled p" "enabled p" "onEvent p = e" "act p = a"
    by (simp_all add: p_def setAlwaysEnabled_def)
  have "p \<in> set cs \<Longrightarrow> p \<in> set (fold (action_step real owned) ops cs)" for cs
    using assms(1)
  proof (induction ops arbitrary: cs)
    case (Cons op ops)
    then show ?case using action_step_keeps [OF Cons(2) p(1-4), of real op owned] assms(2) by simp
  qed simp
  moreover have "p \<in> set (addAction t a h e True cs)" by (simp add: addAction_def p_def Let_def)
  ultimately have "p \<in> set (fold (action_step real owned) ops (addAction t a h e True cs))" by blast
  then show ?thesis using p by (auto simp: runAction_eq image_iff intro!: exI [of _ p])
qed

theorem always_enabled_delivers_witness:
  "(7, 2, 1) \<in> set (runAction 3 2 (fold (action_step id (\<lambda>_. False)) [Disable_others 3 9 2, Disable_action 3 (-1) 7 (-1), Destroy_handler 8]
     (addAction 3 1 7 2 True [])))"
  by (rule always_enabled_delivers) simp_all

text \<open>What an operation connects.\<close>

fun connects_handler :: "(nat \<Rightarrow> nat) \<Rightarrow> nat \<Rightarrow> action_op \<Rightarrow> bool" where
  "connects_handler real h (Add_action t a h' e always) \<longleftrightarrow> reaches real h h'"
| "connects_handler real h _ \<longleftrightarrow> False"

fun connects_trigger :: "nat \<Rightarrow> action_op \<Rightarrow> bool" where
  "connects_trigger t (Add_action t' a h e always) \<longleftrightarrow> t' = t"
| "connects_trigger t _ \<longleftrightarrow> False"

definition no_way_to :: "(nat \<Rightarrow> nat) \<Rightarrow> nat \<Rightarrow> ActionHandlerClient \<Rightarrow> bool" where
  "no_way_to real h p \<longleftrightarrow> (\<forall>h'. client p = Some h' \<longrightarrow> \<not> reaches real h h')"

lemma action_step_no_handler:
  "\<forall>p \<in> set cs. no_way_to real h p \<Longrightarrow> \<not> connects_handler real h op \<Longrightarrow> \<forall>p \<in> set (action_step real owned op cs). no_way_to real h p"
proof (cases op)
  case (Destroy_trigger t)
  assume "\<forall>p \<in> set cs. no_way_to real h p"
  with Destroy_trigger show ?thesis by (fastforce simp: DeleteActionsTriggeredBy_def cleared_def no_way_to_def dest!: delete_loop_mem)
qed (auto simp: addAction_def setAlwaysEnabled_def loops_map destroy_map disable_def enable_def no_way_to_def Let_def)

lemma action_step_no_trigger:
  "\<forall>p \<in> set cs. trigger p \<noteq> t \<Longrightarrow> \<not> connects_trigger t op \<Longrightarrow> \<forall>p \<in> set (action_step real owned op cs). trigger p \<noteq> t"
proof (cases op)
  case (Destroy_trigger t')
  assume "\<forall>p \<in> set cs. trigger p \<noteq> t"
  with Destroy_trigger show ?thesis by (fastforce simp: DeleteActionsTriggeredBy_def cleared_def dest!: delete_loop_mem)
qed (auto simp: addAction_def setAlwaysEnabled_def loops_map destroy_map disable_def enable_def Let_def)

lemma run_keeps_all:
  assumes "\<And>op cs. \<not> C op \<Longrightarrow> \<forall>p \<in> set cs. Q p \<Longrightarrow> \<forall>p \<in> set (action_step real owned op cs). Q p"
  shows "list_all (\<lambda>op. \<not> C op) ops \<Longrightarrow> \<forall>p \<in> set cs. Q p \<Longrightarrow> \<forall>p \<in> set (fold (action_step real owned) ops cs). Q p"
proof (induction ops arbitrary: cs)
  case (Cons op ops)
  then have "\<not> C op" "list_all (\<lambda>op. \<not> C op) ops" by auto
  with Cons(1) [OF this(2) assms [OF this(1) Cons(3)]] show ?case by simp
qed simp

text \<open>C16. No event reaches a destroyed object.  After the destruction of a handler no event calls it, neither directly nor through a wrapper
  (a condition whose real client it is), and after the destruction of a trigger none of its entries is left; both through every further run in which
  the object is not connected again, directly or through a wrapper.  The loop that removes the entries of the trigger ends.\<close>

theorem no_dangling_actions:
  "(list_all (\<lambda>op. \<not> connects_handler real h op) ops \<longrightarrow>
      (\<forall>(h', e', a) \<in> set (runAction t e (fold (action_step real owned) ops (action_step real owned (Destroy_handler h) cs))).
         h' \<noteq> h \<and> real h' \<noteq> h)) \<and>
   (list_all (\<lambda>op. \<not> connects_trigger t op) ops \<longrightarrow>
      runAction t e (fold (action_step real owned) ops (action_step real owned (Destroy_trigger t) cs)) = [])"
proof -
  have "\<forall>p \<in> set (destroy_handler real h cs). no_way_to real h p" by (auto simp: destroy_map no_way_to_def)
  then have "list_all (\<lambda>op. \<not> connects_handler real h op) ops \<Longrightarrow>
      \<forall>p \<in> set (fold (action_step real owned) ops (destroy_handler real h cs)). no_way_to real h p"
    using run_keeps_all [of "connects_handler real h" "no_way_to real h" real owned ops] action_step_no_handler by blast
  then have "list_all (\<lambda>op. \<not> connects_handler real h op) ops \<longrightarrow>
      (\<forall>(h', e', a) \<in> set (runAction t e (fold (action_step real owned) ops (action_step real owned (Destroy_handler h) cs))).
         h' \<noteq> h \<and> real h' \<noteq> h)"
    by (fastforce simp: runAction_eq no_way_to_def reaches_def)
  moreover have "\<forall>p \<in> set (DeleteActionsTriggeredBy real owned t cs). trigger p \<noteq> t"
    using delete_loop_none [of 0 cs "\<lambda>p. trigger p = t" real owned] by (simp add: DeleteActionsTriggeredBy_def)
  then have "list_all (\<lambda>op. \<not> connects_trigger t op) ops \<Longrightarrow>
      \<forall>p \<in> set (fold (action_step real owned) ops (DeleteActionsTriggeredBy real owned t cs)). trigger p \<noteq> t"
    using run_keeps_all [of "connects_trigger t" "\<lambda>p. trigger p \<noteq> t" real owned ops] action_step_no_trigger by blast
  then have "list_all (\<lambda>op. \<not> connects_trigger t op) ops \<longrightarrow>
      runAction t e (fold (action_step real owned) ops (action_step real owned (Destroy_trigger t) cs)) = []"
    by (auto simp: runAction_eq filter_empty_conv)
  ultimately show ?thesis by blast
qed

text \<open>Object 8 is a condition around handler 7; both are connected to trigger 3 before 7 is destroyed.\<close>

theorem no_dangling_actions_witness:
  "let real = id(8 := 7); owned = (\<lambda>h. h = 8);
       cs = addAction 3 1 8 2 True (addAction 3 1 7 2 True (addAction 3 4 9 2 False []))
   in runAction 3 2 cs = [(9, 2, 4), (7, 2, 1), (8, 2, 1)] \<and>
      (\<forall>(h', e', a) \<in> set (runAction 3 2 (fold (action_step real owned) [Enable_action 3 (-1) 7 (-1), Destroy_trigger 5]
         (action_step real owned (Destroy_handler 7) cs))). h' \<noteq> 7 \<and> real h' \<noteq> 7)"
  using no_dangling_actions [of "id(8 := 7)" 7 "[Enable_action 3 (-1) 7 (-1), Destroy_trigger 5]" 3 2 "\<lambda>h. h = 8"
      "addAction 3 1 8 2 True (addAction 3 1 7 2 True (addAction 3 4 9 2 False []))"]
  by (simp add: addAction_def new_client_def setAlwaysEnabled_def isEnabled_def Let_def)

text \<open>A number that is neither an action nor -1 selects the action with number 0.\<close>

lemma disable_invalid_action:
  assumes "action < - 1 \<or> action > 65535"
  shows "disableAction this action h event cs = disableAction this 0 h event cs"
  using assms by (auto simp: loops_map selected_def to_check_def)

end
