(* ===== verification/Button.thy ===== *)
theory Button
  imports Events Config Local_Action
begin

text \<open>
  Buttons: \<open>src/src/supla/control/simple_button.cpp\<close> (the debounced input) and \<open>src/src/supla/control/button.cpp\<close> (clicks and holding).

  The level of the pin and the time are arguments of each call; within one call of \<open>onTimer\<close> the time does not advance.
  \<open>onTimer\<close> returns the events it raises in order (theory \<open>Local_Action\<close> says which handlers they reach); a handler that calls back
  into the same button takes effect after the call.  \<open>io_ready\<close> says whether the custom input, if there is one, is ready.  The configuration is the
  key-value store of theory \<open>Key_Value\<close>.  The member \<open>btn_int16\<close> is no member of the class: it says whether \<open>int\<close> has 16 bits in this build (AVR).
\<close>

section \<open>The debounced input\<close>

datatype StateResults = PRESSED | RELEASED | TO_PRESSED | TO_RELEASED

record ButtonState =
  debounceDelayMs :: u16
  swNoiseFilterDelayMs :: u16
  debounceTimestampMs :: u32
  filterTimestampMs :: u32
  pin :: int
  newStatusCandidate :: int
  prevState :: int
  pullUp :: bool
  invertLogic :: bool

definition new_ButtonState :: "int \<Rightarrow> bool \<Rightarrow> bool \<Rightarrow> ButtonState" where
  "new_ButtonState p pull inv_logic = \<lparr>debounceDelayMs = 50, swNoiseFilterDelayMs = 20, debounceTimestampMs = 0, filterTimestampMs = 0,
     pin = p, newStatusCandidate = 0, prevState = -1, pullUp = pull, invertLogic = inv_logic\<rparr>"

definition valueOnPress :: "ButtonState \<Rightarrow> int" where
  "valueOnPress s = (if invertLogic s then 0 else 1)"

text \<open>The two members for levels have eight bits.\<close>

definition int8 :: "int \<Rightarrow> int" where
  "int8 n = sint (of_int n :: u8)"

definition getLastState :: "ButtonState \<Rightarrow> StateResults" where
  "getLastState s = (if prevState s = valueOnPress s then PRESSED else RELEASED)"

definition update :: "u32 \<Rightarrow> int \<Rightarrow> ButtonState \<Rightarrow> ButtonState \<times> StateResults" where
  "update curMillis currentState s =
     (if pin s = - 1 then (s, RELEASED)
      else if debounceDelayMs s = 0 \<or> curMillis - debounceTimestampMs s > ucast (debounceDelayMs s) then
        if currentState \<noteq> prevState s then
          if swNoiseFilterDelayMs s \<noteq> 0 \<and> currentState \<noteq> newStatusCandidate s then
            let s = s\<lparr>newStatusCandidate := int8 currentState, filterTimestampMs := curMillis\<rparr> in (s, getLastState s)
          else if curMillis - filterTimestampMs s > ucast (swNoiseFilterDelayMs s) then
            let s = s\<lparr>debounceTimestampMs := curMillis, prevState := int8 currentState\<rparr>
            in (s, if currentState = valueOnPress s then TO_PRESSED else TO_RELEASED)
          else (s, getLastState s)
        else (s\<lparr>newStatusCandidate := prevState s\<rparr>, getLastState s)
      else (s, getLastState s))"

definition ButtonState_init :: "int \<Rightarrow> ButtonState \<Rightarrow> ButtonState" where
  "ButtonState_init level s =
     (if prevState s = - 1 then
        let s = (if pin s \<ge> 0 then s\<lparr>prevState := int8 level\<rparr> else s) in s\<lparr>newStatusCandidate := prevState s\<rparr>
      else s)"

text \<open>The delays are stored in 16 bits.\<close>

definition setSwNoiseFilterDelay :: "u32 \<Rightarrow> ButtonState \<Rightarrow> ButtonState" where
  "setSwNoiseFilterDelay newDelayMs s = s\<lparr>swNoiseFilterDelayMs := ucast newDelayMs\<rparr>"

definition setDebounceDelay :: "u32 \<Rightarrow> ButtonState \<Rightarrow> ButtonState" where
  "setDebounceDelay newDelayMs s = s\<lparr>debounceDelayMs := ucast newDelayMs\<rparr>"

definition simple_onTimer :: "u32 \<Rightarrow> bool \<Rightarrow> int \<Rightarrow> ButtonState \<Rightarrow> ButtonState \<times> u16 list" where
  "simple_onTimer now io_ready level s =
     (let (s, stateResult) = update now level s
      in if \<not> io_ready then (s, [])
         else if stateResult = TO_PRESSED then (s, [ON_PRESS, ON_CHANGE])
         else if stateResult = TO_RELEASED then (s, [ON_RELEASE, ON_CHANGE])
         else (s, []))"

section \<open>The button\<close>

datatype ButtonType = MONOSTABLE | BISTABLE | MOTION_SENSOR | CENTRAL_CONTROL

datatype OnLoadConfigType = LOAD_FULL_CONFIG | LOAD_BUTTON_SETUP_ONLY | DONT_LOAD_CONFIG

record Button =
  btn_state :: ButtonState
  lastStateChangeMs :: u32
  repeatOnHoldMs :: u16
  holdSend :: u16
  holdTimeMs :: u16
  multiclickTimeMs :: u16
  buttonType :: ButtonType
  onLoadConfigType :: OnLoadConfigType
  clickCounter :: u8
  maxMulticlickValueConfigured :: u8
  repeatOnHoldEnabled :: bool
  configButton :: bool
  buttonNumber :: u8
  disabled :: bool
  allowHoldOnPowerOn :: bool
  waitingForRelease :: bool
  btn_int16 :: bool

definition new_Button :: "bool \<Rightarrow> u8 \<Rightarrow> int \<Rightarrow> bool \<Rightarrow> bool \<Rightarrow> Button" where
  "new_Button i16 buttonCounter p pull inv_logic = \<lparr>btn_state = new_ButtonState p pull inv_logic, lastStateChangeMs = 0, repeatOnHoldMs = 0,
     holdSend = 0, holdTimeMs = 0, multiclickTimeMs = 0, buttonType = MONOSTABLE, onLoadConfigType = LOAD_FULL_CONFIG, clickCounter = 0,
     maxMulticlickValueConfigured = 0, repeatOnHoldEnabled = False, configButton = False, buttonNumber = buttonCounter, disabled = False,
     allowHoldOnPowerOn = False, waitingForRelease = False, btn_int16 = i16\<rparr>"

definition isBistable :: "Button \<Rightarrow> bool" where
  "isBistable b \<longleftrightarrow> buttonType b = BISTABLE"

definition isMonostable :: "Button \<Rightarrow> bool" where
  "isMonostable b \<longleftrightarrow> buttonType b = MONOSTABLE"

definition isMotionSensor :: "Button \<Rightarrow> bool" where
  "isMotionSensor b \<longleftrightarrow> buttonType b = MOTION_SENSOR"

definition isCentral :: "Button \<Rightarrow> bool" where
  "isCentral b \<longleftrightarrow> buttonType b = CENTRAL_CONTROL"

text \<open>The events of a change of the input.\<close>

definition edge_events :: "StateResults \<Rightarrow> Button \<Rightarrow> u16 list" where
  "edge_events stateResult b =
     (if stateResult = TO_PRESSED then
        [ON_PRESS, ON_CHANGE] @
        (if clickCounter b \<le> 1 \<and> holdSend b = 0 then [CONDITIONAL_ON_PRESS, CONDITIONAL_ON_CHANGE] else [])
      else if stateResult = TO_RELEASED then
        [ON_RELEASE, ON_CHANGE] @
        (if clickCounter b \<le> 1 \<and> holdSend b = 0 then [CONDITIONAL_ON_RELEASE, CONDITIONAL_ON_CHANGE] else []) @
        (if clickCounter b \<le> 1 \<and> holdSend b > 0 then [ON_HOLD_RELEASE] else [])
      else [])"

definition count_click :: "u32 \<Rightarrow> StateResults \<Rightarrow> Button \<Rightarrow> Button" where
  "count_click now stateResult b =
     (let b = b\<lparr>lastStateChangeMs := now\<rparr>
      in if multiclickTimeMs b > 0 \<and> (stateResult = TO_PRESSED \<or> isBistable b \<or> isMotionSensor b \<or> isCentral b) then
           if clickCounter b \<le> maxMulticlickValueConfigured b then b\<lparr>clickCounter := clickCounter b + 1\<rparr> else b
         else b)"

definition hold_step :: "u32 \<Rightarrow> Button \<Rightarrow> Button \<times> u16 list" where
  "hold_step timeDelta b =
     (if clickCounter b \<le> 1 \<and> holdTimeMs b > 0 \<and>
         timeDelta > ucast (holdTimeMs b) + ucast (holdSend b) * ucast (repeatOnHoldMs b) \<and> (repeatOnHoldEnabled b \<or> holdSend b = 0)
      then (b\<lparr>holdSend := holdSend b + 1\<rparr>, [ON_HOLD]) else (b, []))"

definition click_events :: "u8 \<Rightarrow> u16 list" where
  "click_events n =
     (if n = 1 then [ON_CLICK_1] else if n = 2 then [ON_CLICK_2] else if n = 3 then [ON_CLICK_3] else if n = 4 then [ON_CLICK_4]
      else if n = 5 then [ON_CLICK_5] else if n = 6 then [ON_CLICK_6] else if n = 7 then [ON_CLICK_7] else if n = 8 then [ON_CLICK_8]
      else if n = 9 then [ON_CLICK_9] else if n = 10 then [ON_CLICK_10, ON_CRAZY_CLICKER] else [])"

definition long_click_events :: "u8 \<Rightarrow> u16 list" where
  "long_click_events n =
     (if n = 0 then [ON_LONG_CLICK_0] else if n = 1 then [ON_LONG_CLICK_1] else if n = 2 then [ON_LONG_CLICK_2]
      else if n = 3 then [ON_LONG_CLICK_3] else if n = 4 then [ON_LONG_CLICK_4] else if n = 5 then [ON_LONG_CLICK_5]
      else if n = 6 then [ON_LONG_CLICK_6] else if n = 7 then [ON_LONG_CLICK_7] else if n = 8 then [ON_LONG_CLICK_8]
      else if n = 9 then [ON_LONG_CLICK_9] else if n = 10 then [ON_LONG_CLICK_10] else [])"

definition finish_clicks :: "u32 \<Rightarrow> Button \<Rightarrow> Button \<times> u16 list" where
  "finish_clicks timeDelta b =
     (let b = (if multiclickTimeMs b = 0 then b\<lparr>holdSend := 0, clickCounter := 0\<rparr> else b)
      in if multiclickTimeMs b > 0 \<and> (timeDelta > ucast (multiclickTimeMs b) \<or> maxMulticlickValueConfigured b = clickCounter b) then
           let ev = (if holdSend b = 0 \<and> clickCounter b \<noteq> 255 then click_events (clickCounter b) else long_click_events (clickCounter b));
               b = b\<lparr>clickCounter := 255\<rparr>;
               b = (if timeDelta > ucast (multiclickTimeMs b) then b\<lparr>holdSend := 0, clickCounter := 0\<rparr> else b)
           in (b, ev)
         else (b, []))"

text \<open>The time for which a press may last within a series of clicks; the product is one of type \<open>int\<close>, or \<open>unsigned int\<close> where that has 16 bits.\<close>

definition press_limit :: "Button \<Rightarrow> u32" where
  "press_limit b =
     (if holdTimeMs b \<noteq> 0 then ucast (holdTimeMs b)
      else if btn_int16 b then ucast (3 * multiclickTimeMs b) else 3 * ucast (multiclickTimeMs b))"

text \<open>A call of the timer that sees no change of the input.\<close>

definition idle_step :: "u32 \<Rightarrow> StateResults \<Rightarrow> Button \<Rightarrow> Button \<times> u16 list" where
  "idle_step timeDelta stateResult b =
     (if lastStateChangeMs b \<noteq> 0 then
        if isMonostable b \<and> stateResult = PRESSED then
          let (b, ev) = hold_step timeDelta b
          in if clickCounter b \<ge> 1 \<and> timeDelta > press_limit b
             then (b\<lparr>clickCounter := 0\<rparr>, ev) else (b, ev)
        else if stateResult = RELEASED \<or> isBistable b \<or> isMotionSensor b \<or> isCentral b then finish_clicks timeDelta b
        else (b, [])
      else if allowHoldOnPowerOn b then
        if isMonostable b \<and> stateResult = PRESSED then
          let (b, ev) = hold_step timeDelta b
          in if clickCounter b \<ge> 1 \<and> timeDelta > ucast (multiclickTimeMs b) then (b\<lparr>clickCounter := 0\<rparr>, ev) else (b, ev)
        else (b, [])
      else (b, []))"

definition react :: "u32 \<Rightarrow> StateResults \<Rightarrow> Button \<Rightarrow> Button \<times> u16 list" where
  "react now stateResult b =
     (let timeDelta = now - lastStateChangeMs b;
          ev = edge_events stateResult b
      in if waitingForRelease b \<and> stateResult \<noteq> TO_RELEASED then (b, ev)
         else
           let b = (if waitingForRelease b then b\<lparr>clickCounter := 0, holdSend := 0, lastStateChangeMs := now\<rparr> else b);
               b = b\<lparr>waitingForRelease := False\<rparr>
           in if stateResult = TO_PRESSED \<or> stateResult = TO_RELEASED then (count_click now stateResult b, ev)
              else let (b, ev') = idle_step timeDelta stateResult b in (b, ev @ ev'))"

definition onTimer :: "u32 \<Rightarrow> bool \<Rightarrow> int \<Rightarrow> Button \<Rightarrow> Button \<times> u16 list" where
  "onTimer now io_ready level b =
     (if disabled b then (b, [])
      else
        let (st, stateResult) = update now level (btn_state b);
            b = b\<lparr>btn_state := st\<rparr>
        in if \<not> io_ready then (b, []) else react now stateResult b)"

definition onInit :: "int \<Rightarrow> Button \<Rightarrow> Button" where
  "onInit level b = b\<lparr>btn_state := ButtonState_init level (btn_state b)\<rparr>"

section \<open>Settings of the button\<close>

definition setHoldTime :: "u32 \<Rightarrow> Button \<Rightarrow> Button" where
  "setHoldTime timeMs b = b\<lparr>holdTimeMs := ucast (if timeMs > 0xFFFF then 0xFFFF else timeMs)\<rparr>"

definition setMulticlickTime :: "u32 \<Rightarrow> bool \<Rightarrow> Button \<Rightarrow> Button" where
  "setMulticlickTime timeMs bistableButton b =
     (let b = b\<lparr>multiclickTimeMs := ucast (if timeMs > 0xFFFF then 0xFFFF else timeMs)\<rparr>
      in if bistableButton then b\<lparr>buttonType := BISTABLE\<rparr> else b)"

definition repeatOnHoldEvery :: "u32 \<Rightarrow> Button \<Rightarrow> Button" where
  "repeatOnHoldEvery timeMs b =
     (let timeMs = (if timeMs > 0xFFFF then 0xFFFF else timeMs)
      in b\<lparr>repeatOnHoldMs := ucast timeMs, repeatOnHoldEnabled := timeMs > 0\<rparr>)"

definition setButtonType :: "ButtonType \<Rightarrow> Button \<Rightarrow> Button" where
  "setButtonType t b = b\<lparr>buttonType := t\<rparr>"

definition getMaxMulticlickValue :: "Button \<Rightarrow> u8" where
  "getMaxMulticlickValue b = maxMulticlickValueConfigured b"

definition setButtonNumber :: "u8 \<Rightarrow> Button \<Rightarrow> Button" where
  "setButtonNumber n b = b\<lparr>buttonNumber := n\<rparr>"

definition dontUseOnLoadConfig :: "Button \<Rightarrow> Button" where
  "dontUseOnLoadConfig b = b\<lparr>onLoadConfigType := DONT_LOAD_CONFIG\<rparr>"

definition setOnLoadConfigType :: "OnLoadConfigType \<Rightarrow> Button \<Rightarrow> Button" where
  "setOnLoadConfigType t b = b\<lparr>onLoadConfigType := t\<rparr>"

definition disableRepeatOnHold :: "u32 \<Rightarrow> Button \<Rightarrow> Button" where
  "disableRepeatOnHold threshold b =
     (if threshold = 0 \<or> ucast (repeatOnHoldMs b) < threshold then b\<lparr>repeatOnHoldEnabled := False\<rparr> else b)"

definition enableRepeatOnHold :: "Button \<Rightarrow> Button" where
  "enableRepeatOnHold b = b\<lparr>repeatOnHoldEnabled := repeatOnHoldMs b > 0\<rparr>"

definition disableButton :: "Button \<Rightarrow> Button" where
  "disableButton b = b\<lparr>disabled := True\<rparr>"

definition enableButton :: "u32 \<Rightarrow> Button \<Rightarrow> Button" where
  "enableButton now b = b\<lparr>disabled := False, clickCounter := 0, holdSend := 0, lastStateChangeMs := now\<rparr>"

definition button_handleAction :: "u32 \<Rightarrow> int \<Rightarrow> Button \<Rightarrow> Button" where
  "button_handleAction now action b =
     (if action = TURN_ON \<or> action = ENABLE then enableButton now b
      else if action = TURN_OFF \<or> action = DISABLE then disableButton b
      else if action = TOGGLE then if disabled b then enableButton now b else disableButton b
      else b)"

definition waitForRelease :: "Button \<Rightarrow> Button" where
  "waitForRelease b = b\<lparr>waitingForRelease := True\<rparr>"

definition disableActionsInConfigMode :: "Button \<Rightarrow> bool" where
  "disableActionsInConfigMode b = configButton b"

section \<open>Connections\<close>

text \<open>The number of clicks that an event stands for, if any.\<close>

definition event_clicks :: "u16 \<Rightarrow> u8 option" where
  "event_clicks e =
     (if e = ON_LONG_CLICK_1 \<or> e = ON_CLICK_1 then Some 1 else if e = ON_LONG_CLICK_2 \<or> e = ON_CLICK_2 then Some 2
      else if e = ON_LONG_CLICK_3 \<or> e = ON_CLICK_3 then Some 3 else if e = ON_LONG_CLICK_4 \<or> e = ON_CLICK_4 then Some 4
      else if e = ON_LONG_CLICK_5 \<or> e = ON_CLICK_5 then Some 5 else if e = ON_LONG_CLICK_6 \<or> e = ON_CLICK_6 then Some 6
      else if e = ON_LONG_CLICK_7 \<or> e = ON_CLICK_7 then Some 7 else if e = ON_LONG_CLICK_8 \<or> e = ON_CLICK_8 then Some 8
      else if e = ON_LONG_CLICK_9 \<or> e = ON_CLICK_9 then Some 9
      else if e = ON_CRAZY_CLICKER \<or> e = ON_LONG_CLICK_10 \<or> e = ON_CLICK_10 then Some 10 else None)"

text \<open>\<open>clicks\<close> is \<open>clickCounterValueForEvent\<close>, which keeps its value for entries that stand for no clicks.\<close>

fun multiclick_loop :: "nat \<Rightarrow> u8 \<Rightarrow> u8 \<Rightarrow> clients \<Rightarrow> u8" where
  "multiclick_loop this clicks m [] = m"
| "multiclick_loop this clicks m (p # ps) =
     (let clicks = (if trigger p = this \<and> isEnabled p then case event_clicks (onEvent p) of Some n \<Rightarrow> n | None \<Rightarrow> clicks else clicks)
      in multiclick_loop this clicks (if clicks > m then clicks else m) ps)"

definition evaluateMaxMulticlickValue :: "nat \<Rightarrow> clients \<Rightarrow> Button \<Rightarrow> Button" where
  "evaluateMaxMulticlickValue this cs b = b\<lparr>maxMulticlickValueConfigured := multiclick_loop this 0 0 cs\<rparr>"

definition button_addAction :: "nat \<Rightarrow> u16 \<Rightarrow> nat \<Rightarrow> u16 \<Rightarrow> bool \<Rightarrow> Button \<times> clients \<Rightarrow> Button \<times> clients" where
  "button_addAction this action h event always bc =
     (case bc of (b, cs) \<Rightarrow>
        let cs = addAction this action h event always cs in (evaluateMaxMulticlickValue this cs b, cs))"

definition button_disableAction :: "nat \<Rightarrow> int \<Rightarrow> nat \<Rightarrow> int \<Rightarrow> Button \<times> clients \<Rightarrow> Button \<times> clients" where
  "button_disableAction this action h event bc =
     (case bc of (b, cs) \<Rightarrow>
        let cs = disableAction this action h event cs in (evaluateMaxMulticlickValue this cs b, cs))"

definition button_enableAction :: "nat \<Rightarrow> int \<Rightarrow> nat \<Rightarrow> int \<Rightarrow> Button \<times> clients \<Rightarrow> Button \<times> clients" where
  "button_enableAction this action h event bc =
     (case bc of (b, cs) \<Rightarrow>
        let cs = enableAction this action h event cs in (evaluateMaxMulticlickValue this cs b, cs))"

definition CFG_MODE_ON_HOLD_TIME :: u32 where
  "CFG_MODE_ON_HOLD_TIME = 5000"

definition configureAsConfigButton :: "nat \<Rightarrow> nat \<Rightarrow> Button \<times> clients \<Rightarrow> Button \<times> clients" where
  "configureAsConfigButton this sdc bc =
     (case bc of (b, cs) \<Rightarrow>
        let b = dontUseOnLoadConfig (b\<lparr>configButton := True\<rparr>);
            b = setHoldTime CFG_MODE_ON_HOLD_TIME b;
            b = setMulticlickTime 300 (isBistable b) b;
            bc = button_addAction this (of_int ENTER_CONFIG_MODE_OR_RESET_TO_FACTORY) sdc ON_HOLD True (b, cs)
        in button_addAction this (of_int LEAVE_CONFIG_MODE_AND_RESET) sdc ON_CLICK_1 True bc)"

section \<open>Configuration\<close>

definition BtnTypeTag :: bytes where
  "BtnTypeTag = str ''btn_type''"

definition BtnHoldTag :: bytes where
  "BtnHoldTag = str ''btn_hold''"

definition BtnMulticlickTag :: bytes where
  "BtnMulticlickTag = str ''btn_multiclick''"

definition BtnConfigTag :: bytes where
  "BtnConfigTag = str ''btn_cfg''"

text \<open>The number of the button is a signed byte.\<close>

definition button_key :: "Button \<Rightarrow> bytes \<Rightarrow> bytes" where
  "button_key b tag = generateKey (of_int (sint (buttonNumber b))) tag"

definition load_type :: "Button \<Rightarrow> KeyValue \<Rightarrow> Button \<times> KeyValue \<times> bool" where
  "load_type b cfg =
     (case kv_getInt32 cfg (button_key b BtnTypeTag) of
        Some v \<Rightarrow>
          (if v = 0 then setButtonType MONOSTABLE b else if v = 1 then setButtonType BISTABLE b
           else if v = 2 then setButtonType MOTION_SENSOR b else if v = 3 then setButtonType CENTRAL_CONTROL b else b, cfg, False)
      | None \<Rightarrow>
          (b, fst (kv_setInt32 cfg (button_key b BtnTypeTag)
                 (if isMotionSensor b then 2 else if isBistable b then 1 else if isCentral b then 3 else 0)), True))"

definition limit_time :: "u32 \<Rightarrow> u32" where
  "limit_time v = (let v = (if v < 200 then 200 else v) in if v > 10000 then 10000 else v)"

text \<open>In the branch without a stored time the local variable is still 0, so that nothing is stored.\<close>

definition load_multiclick :: "Button \<Rightarrow> KeyValue \<Rightarrow> Button \<times> KeyValue \<times> bool" where
  "load_multiclick b cfg =
     (let multiclickTimeMsValue = 0
      in case kv_getUInt32 cfg BtnMulticlickTag of
           Some v \<Rightarrow> (setMulticlickTime (limit_time v) (isBistable b) b, cfg, False)
         | None \<Rightarrow>
             if multiclickTimeMsValue > (0 :: u32)
             then (b, fst (kv_setUInt32 cfg BtnMulticlickTag (ucast (multiclickTimeMs b))), True)
             else (b, cfg, False))"

definition load_hold :: "Button \<Rightarrow> KeyValue \<Rightarrow> Button \<times> KeyValue \<times> bool" where
  "load_hold b cfg =
     (case kv_getUInt32 cfg BtnHoldTag of
        Some v \<Rightarrow> (setHoldTime (limit_time v) b, cfg, False)
      | None \<Rightarrow>
          if holdTimeMs b > 0 then (b, fst (kv_setUInt32 cfg BtnHoldTag (ucast (holdTimeMs b))), True) else (b, cfg, False))"

definition load_config_button :: "nat \<Rightarrow> nat \<Rightarrow> KeyValue \<Rightarrow> Button \<times> clients \<Rightarrow> Button \<times> clients" where
  "load_config_button this sdc cfg bc =
     (case bc of (b, cs) \<Rightarrow>
        let v = (case kv_getInt32 cfg (button_key b BtnConfigTag) of
                   Some v \<Rightarrow> v
                 | None \<Rightarrow> (case kv_getInt32 cfg BtnConfigTag of Some v \<Rightarrow> v | None \<Rightarrow> 0))
        in if \<not> isCentral b \<and> v = 0 then
             let bc = button_addAction this (of_int ENTER_CONFIG_MODE_OR_RESET_TO_FACTORY) sdc ON_CLICK_10 True (b\<lparr>configButton := True\<rparr>, cs)
             in button_addAction this (of_int LEAVE_CONFIG_MODE_AND_RESET) sdc ON_CLICK_1 True bc
           else (b, cs))"

text \<open>The last component of the result says whether \<open>saveWithDelay(500)\<close> is called.  \<open>test\<close>: the device is in test mode.\<close>

definition onLoadConfig ::
  "bool \<Rightarrow> nat \<Rightarrow> nat \<Rightarrow> KeyValue option \<Rightarrow> Button \<times> clients \<Rightarrow> (Button \<times> clients) \<times> KeyValue option \<times> bool" where
  "onLoadConfig test this sdc config bc =
     (case bc of (b, cs) \<Rightarrow>
        if test then ((setButtonType MONOSTABLE b, cs), config, False)
        else if onLoadConfigType b = DONT_LOAD_CONFIG then ((b, cs), config, False)
        else
          case config of
            None \<Rightarrow> ((b, cs), None, False)
          | Some cfg \<Rightarrow>
              let (b, cfg, s1) = load_type b cfg;
                  (b, cfg, s2) = load_multiclick b cfg;
                  (b, cfg, s3) = load_hold b cfg;
                  bc = (if onLoadConfigType b = LOAD_FULL_CONFIG then load_config_button this sdc cfg (b, cs) else (b, cs))
              in (bc, Some cfg, s1 \<or> s2 \<or> s3))"

section \<open>The debounced input\<close>

text \<open>Samples are pairs of the time and the level of the pin.  \<open>after_samples\<close> is the state after a sequence of them, \<open>edges\<close> the
  changes that are reported, with their times.\<close>

type_synonym samples = "(nat \<times> int) list"

definition sample :: "nat \<times> int \<Rightarrow> ButtonState \<Rightarrow> ButtonState \<times> StateResults" where
  "sample x s = update (of_nat (fst x)) (snd x) s"

definition after_samples :: "ButtonState \<Rightarrow> samples \<Rightarrow> ButtonState" where
  "after_samples s h = fold (\<lambda>x s. fst (sample x s)) h s"

definition is_edge :: "StateResults \<Rightarrow> bool" where
  "is_edge r \<longleftrightarrow> r = TO_PRESSED \<or> r = TO_RELEASED"

fun edges :: "ButtonState \<Rightarrow> samples \<Rightarrow> (nat \<times> StateResults) list" where
  "edges s [] = []"
| "edges s (x # h) = (let (s', r) = sample x s in (if is_edge r then [(fst x, r)] else []) @ edges s' h)"

definition edge_level :: "ButtonState \<Rightarrow> StateResults \<Rightarrow> int" where
  "edge_level s r = (if r = TO_PRESSED then valueOnPress s else 1 - valueOnPress s)"

text \<open>Times do not decrease, levels are 0 or 1.\<close>

definition samples_ok :: "samples \<Rightarrow> bool" where
  "samples_ok h \<longleftrightarrow> sorted (map fst h) \<and> snd ` set h \<subseteq> {0, 1}"

lemma after_samples_simps [simp]:
  "after_samples s [] = s" "after_samples s (x # h) = after_samples (fst (sample x s)) h"
  "after_samples s (h @ h') = after_samples (after_samples s h) h'"
  by (simp_all add: after_samples_def)

lemma edges_append: "edges s (h @ h') = edges s h @ edges (after_samples s h) h'"
  by (induction h arbitrary: s) (auto simp: Let_def split: prod.splits)

lemma int8_level: "l \<in> {0, 1} \<Longrightarrow> int8 l = l"
  by (auto simp: int8_def)

text \<open>The cases of a sample.\<close>

definition settled :: "nat \<Rightarrow> ButtonState \<Rightarrow> bool" where
  "settled t s \<longleftrightarrow> debounceDelayMs s = 0 \<or> (of_nat t - debounceTimestampMs s :: u32) > ucast (debounceDelayMs s)"

definition filtered :: "nat \<Rightarrow> ButtonState \<Rightarrow> bool" where
  "filtered t s \<longleftrightarrow> (of_nat t - filterTimestampMs s :: u32) > ucast (swNoiseFilterDelayMs s)"

definition levels_ok :: "ButtonState \<Rightarrow> bool" where
  "levels_ok s \<longleftrightarrow> pin s \<noteq> - 1 \<and> prevState s \<in> {0, 1} \<and> newStatusCandidate s \<in> {0, 1} \<and> swNoiseFilterDelayMs s \<noteq> 0"

lemma sample_cases:
  assumes "levels_ok s" "l \<in> {0, 1}"
  obtains (blocked) "\<not> settled t s" "sample (t, l) s = (s, getLastState s)"
  | (same) "settled t s" "l = prevState s" "sample (t, l) s = (s\<lparr>newStatusCandidate := l\<rparr>, getLastState s)"
  | (candidate) "settled t s" "l \<noteq> prevState s" "newStatusCandidate s = prevState s"
      "sample (t, l) s = (s\<lparr>newStatusCandidate := l, filterTimestampMs := of_nat t\<rparr>, getLastState s)"
  | (waiting) "settled t s" "l \<noteq> prevState s" "newStatusCandidate s = l" "\<not> filtered t s" "sample (t, l) s = (s, getLastState s)"
  | (edge) "settled t s" "l \<noteq> prevState s" "newStatusCandidate s = l" "filtered t s"
      "sample (t, l) s = (s\<lparr>debounceTimestampMs := of_nat t, prevState := l\<rparr>, if l = valueOnPress s then TO_PRESSED else TO_RELEASED)"
proof -
  have c: "newStatusCandidate s = prevState s \<or> newStatusCandidate s = l" if "l \<noteq> prevState s"
    using assms that by (auto simp: levels_ok_def)
  have v: "getLastState (s\<lparr>newStatusCandidate := x, filterTimestampMs := y\<rparr>) = getLastState s"
    "valueOnPress (s\<lparr>debounceTimestampMs := y, prevState := x\<rparr>) = valueOnPress s" for x y
    by (simp_all add: getLastState_def valueOnPress_def)
  have p: "pin s \<noteq> - 1" "swNoiseFilterDelayMs s \<noteq> 0" using assms(1) by (simp_all add: levels_ok_def)
  consider "\<not> settled t s" | "settled t s" "l = prevState s" | "settled t s" "l \<noteq> prevState s" "newStatusCandidate s \<noteq> l"
    | "settled t s" "l \<noteq> prevState s" "newStatusCandidate s = l" "\<not> filtered t s"
    | "settled t s" "l \<noteq> prevState s" "newStatusCandidate s = l" "filtered t s" by blast
  then show thesis
  proof cases
    case 1
    then show thesis using p by (intro blocked) (auto simp: sample_def update_def settled_def)
  next
    case 2
    then show thesis using p by (intro same) (auto simp: sample_def update_def settled_def)
  next
    case 3
    then show thesis using p c int8_level [OF assms(2)] v by (intro candidate) (auto simp: sample_def update_def settled_def)
  next
    case 4
    then show thesis using p by (intro waiting) (auto simp: sample_def update_def settled_def filtered_def)
  next
    case 5
    then show thesis using p int8_level [OF assms(2)] v by (intro edge) (auto simp: sample_def update_def settled_def filtered_def Let_def)
  qed
qed

lemma getLastState_no_edge [simp]: "\<not> is_edge (getLastState s)"
  by (simp add: is_edge_def getLastState_def)

lemma sample_keeps:
  assumes "levels_ok s" "l \<in> {0, 1}"
  shows "levels_ok (fst (sample (t, l) s)) \<and> valueOnPress (fst (sample (t, l) s)) = valueOnPress s \<and>
    debounceDelayMs (fst (sample (t, l) s)) = debounceDelayMs s \<and> swNoiseFilterDelayMs (fst (sample (t, l) s)) = swNoiseFilterDelayMs s"
  by (rule sample_cases [OF assms, of t]) (use assms in \<open>auto simp: levels_ok_def valueOnPress_def\<close>)

text \<open>Differences of time stamps: the wrapped difference never exceeds the real one, and equals it within one period of the counter.\<close>

lemma elapsed_wrapped:
  assumes "T \<le> t"
  shows "(of_nat t - of_nat T :: u32) = of_nat (t - T)"
  using assms by (simp add: of_nat_diff)

lemma elapsed_less:
  assumes "T \<le> t" "(ucast d :: u32) < of_nat t - of_nat T"
  shows "unat (d :: u16) < t - T"
proof -
  have "unat (ucast d :: u32) < unat (of_nat (t - T) :: u32)"
    using assms(2) by (simp add: elapsed_wrapped [OF assms(1)] word_less_nat_alt)
  also have "\<dots> \<le> t - T" by (simp add: unat_of_nat)
  finally show ?thesis by simp
qed

lemma elapsed_iff:
  assumes "T \<le> t" "t < 2 ^ 32"
  shows "(ucast (d :: u16) :: u32) < of_nat t - of_nat T \<longleftrightarrow> unat d < t - T"
proof -
  have "unat (of_nat (t - T) :: u32) = t - T" using assms by (simp add: unat_of_nat del: of_nat_diff)
  then show ?thesis
    by (simp add: elapsed_wrapped [OF assms(1)] word_less_nat_alt del: of_nat_diff)
qed

text \<open>What is known after the samples \<open>h\<close> of a state that started with \<open>s0\<close>: the last reported change is the current level, with
  its time, and a candidate was seen in all samples since its time stamp.\<close>

definition last_time :: "samples \<Rightarrow> nat" where
  "last_time h = (if h = [] then 0 else fst (last h))"

definition debounce_inv :: "ButtonState \<Rightarrow> samples \<Rightarrow> ButtonState \<Rightarrow> bool" where
  "debounce_inv s0 h s \<longleftrightarrow>
     levels_ok s \<and> valueOnPress s = valueOnPress s0 \<and> debounceDelayMs s = debounceDelayMs s0 \<and> swNoiseFilterDelayMs s = swNoiseFilterDelayMs s0 \<and>
     (\<exists>T. debounceTimestampMs s = of_nat T \<and> T \<le> last_time h \<and>
        (edges s0 h \<noteq> [] \<longrightarrow> fst (last (edges s0 h)) = T \<and> prevState s = edge_level s0 (snd (last (edges s0 h)))) \<and>
        (newStatusCandidate s \<noteq> prevState s \<longrightarrow> debounceDelayMs s = 0 \<or> unat (debounceDelayMs s) < last_time h - T)) \<and>
     (newStatusCandidate s \<noteq> prevState s \<longrightarrow>
        (\<exists>j < length h. filterTimestampMs s = of_nat (fst (h ! j)) \<and> (\<forall>i \<in> {j..<length h}. snd (h ! i) = newStatusCandidate s)))"

lemma valueOnPress_level: "valueOnPress s \<in> {0, 1}"
  by (simp add: valueOnPress_def)

lemma debounce_inv_start:
  "levels_ok s0 \<Longrightarrow> newStatusCandidate s0 = prevState s0 \<Longrightarrow> debounceTimestampMs s0 = 0 \<Longrightarrow> debounce_inv s0 [] s0"
  by (auto simp: debounce_inv_def last_time_def)

lemma last_time_snoc [simp]: "last_time (h @ [(t, l)]) = t"
  by (simp add: last_time_def)

lemma last_time_le: "sorted (map fst (h @ [(t, l)])) \<Longrightarrow> last_time h \<le> t"
  by (auto simp: last_time_def sorted_append)

lemma candidate_kept:
  assumes "j < length h" "\<forall>i \<in> {j..<length h}. snd (h ! i) = c" "x = c"
  shows "\<forall>i \<in> {j..<length (h @ [(t, x)])}. snd ((h @ [(t, x)]) ! i) = c"
  using assms by (auto simp: nth_append less_Suc_eq)

lemma debounce_inv_step:
  assumes inv: "debounce_inv s0 h s" and s: "s = after_samples s0 h" and ok: "samples_ok (h @ [(t, l)])" and t: "t < 2 ^ 32"
  shows "debounce_inv s0 (h @ [(t, l)]) (fst (sample (t, l) s))"
proof -
  have l: "l \<in> {0, 1}" and le: "last_time h \<le> t" using ok last_time_le by (auto simp: samples_ok_def)
  have lv: "levels_ok s" and con: "valueOnPress s = valueOnPress s0" "debounceDelayMs s = debounceDelayMs s0"
    "swNoiseFilterDelayMs s = swNoiseFilterDelayMs s0" using inv by (simp_all add: debounce_inv_def)
  have con': "valueOnPress (fst (sample (t, l) s)) = valueOnPress s0" "debounceDelayMs (fst (sample (t, l) s)) = debounceDelayMs s0"
    "swNoiseFilterDelayMs (fst (sample (t, l) s)) = swNoiseFilterDelayMs s0" "levels_ok (fst (sample (t, l) s))"
    using sample_keeps [OF lv l, of t] con by simp_all
  obtain T where T: "debounceTimestampMs s = of_nat T" "T \<le> last_time h"
    "edges s0 h \<noteq> [] \<longrightarrow> fst (last (edges s0 h)) = T \<and> prevState s = edge_level s0 (snd (last (edges s0 h)))"
    "newStatusCandidate s \<noteq> prevState s \<longrightarrow> debounceDelayMs s = 0 \<or> unat (debounceDelayMs s) < last_time h - T"
    using inv unfolding debounce_inv_def by blast
  have F: "newStatusCandidate s \<noteq> prevState s \<longrightarrow>
      (\<exists>j < length h. filterTimestampMs s = of_nat (fst (h ! j)) \<and> (\<forall>i \<in> {j..<length h}. snd (h ! i) = newStatusCandidate s))"
    using inv by (simp add: debounce_inv_def)
  have settled: "settled t s \<longleftrightarrow> debounceDelayMs s = 0 \<or> unat (debounceDelayMs s) < t - T"
    using elapsed_iff [of T t] T(1,2) le t by (simp add: settled_def)
  have e: "edges s0 (h @ [(t, l)]) = edges s0 h @ (if is_edge (snd (sample (t, l) s)) then [(t, snd (sample (t, l) s))] else [])"
    by (simp add: edges_append s [symmetric] split: prod.split)
  show ?thesis
  proof (rule sample_cases [OF lv l, of t])
    assume b: "\<not> settled t s" "sample (t, l) s = (s, getLastState s)"
    then have "newStatusCandidate s = prevState s" using settled T(4) le by linarith
    then show ?thesis using b(2) e T le con' lv unfolding debounce_inv_def by (auto intro!: exI [of _ T])
  next
    assume b: "settled t s" "l = prevState s" "sample (t, l) s = (s\<lparr>newStatusCandidate := l\<rparr>, getLastState s)"
    then show ?thesis using e T le con' unfolding debounce_inv_def by (auto intro!: exI [of _ T])
  next
    assume b: "settled t s" "l \<noteq> prevState s" "newStatusCandidate s = prevState s"
      "sample (t, l) s = (s\<lparr>newStatusCandidate := l, filterTimestampMs := of_nat t\<rparr>, getLastState s)"
    have "\<exists>j < length (h @ [(t, l)]). (of_nat t :: u32) = of_nat (fst ((h @ [(t, l)]) ! j)) \<and>
        (\<forall>i \<in> {j..<length (h @ [(t, l)])}. snd ((h @ [(t, l)]) ! i) = l)"
      by (intro exI [of _ "length h"]) simp
    then show ?thesis using b settled e T le con' unfolding debounce_inv_def by (auto intro!: exI [of _ T])
  next
    assume b: "settled t s" "l \<noteq> prevState s" "newStatusCandidate s = l" "\<not> filtered t s" "sample (t, l) s = (s, getLastState s)"
    then obtain j where j: "j < length h" "filterTimestampMs s = of_nat (fst (h ! j))" "\<forall>i \<in> {j..<length h}. snd (h ! i) = l"
      using F by auto
    have "\<exists>j < length (h @ [(t, l)]). filterTimestampMs s = of_nat (fst ((h @ [(t, l)]) ! j)) \<and>
        (\<forall>i \<in> {j..<length (h @ [(t, l)])}. snd ((h @ [(t, l)]) ! i) = l)"
      using j candidate_kept [OF j(1,3) refl, of t] by (intro exI [of _ j]) (auto simp: nth_append)
    then show ?thesis using b settled e T le con' unfolding debounce_inv_def by (auto intro!: exI [of _ T])
  next
    assume b: "settled t s" "l \<noteq> prevState s" "newStatusCandidate s = l" "filtered t s"
      "sample (t, l) s = (s\<lparr>debounceTimestampMs := of_nat t, prevState := l\<rparr>, if l = valueOnPress s then TO_PRESSED else TO_RELEASED)"
    have "l = edge_level s0 (if l = valueOnPress s then TO_PRESSED else TO_RELEASED)"
      using l valueOnPress_level [of s0] con by (auto simp: edge_level_def)
    then show ?thesis using b e con' unfolding debounce_inv_def by (auto simp: is_edge_def intro!: exI [of _ t])
  qed
qed

lemma samples_ok_prefix: "samples_ok (h @ h') \<Longrightarrow> samples_ok h"
  by (auto simp: samples_ok_def sorted_append)

lemma debounce_run_inv:
  assumes "levels_ok s0" "newStatusCandidate s0 = prevState s0" "debounceTimestampMs s0 = 0"
  shows "samples_ok h \<Longrightarrow> \<forall>x \<in> set h. fst x < 2 ^ 32 \<Longrightarrow> debounce_inv s0 h (after_samples s0 h)"
proof (induction h rule: rev_induct)
  case Nil
  then show ?case using debounce_inv_start [OF assms] by simp
next
  case (snoc x h)
  obtain t l where x: "x = (t, l)" by fastforce
  show ?case
    using debounce_inv_step [OF snoc.IH [OF samples_ok_prefix [OF snoc.prems(1)]] refl snoc.prems(1) [unfolded x]] snoc.prems(2) x by auto
qed

text \<open>Two successive changes differ and are more than the debounce delay apart.\<close>

definition apart :: "nat \<Rightarrow> nat \<times> StateResults \<Rightarrow> nat \<times> StateResults \<Rightarrow> bool" where
  "apart d a b \<longleftrightarrow> snd a \<noteq> snd b \<and> fst a + d < fst b"

text \<open>A change is backed by samples of the new level over more than the filter delay.\<close>

definition backed :: "ButtonState \<Rightarrow> samples \<Rightarrow> nat \<times> StateResults \<Rightarrow> bool" where
  "backed s h a \<longleftrightarrow> (\<exists>j k. j < k \<and> k < length h \<and> fst (h ! k) = fst a \<and> fst (h ! j) + unat (swNoiseFilterDelayMs s) < fst a \<and>
     (\<forall>i \<in> {j..k}. snd (h ! i) = edge_level s (snd a)))"

lemma backed_prefix: "backed s h a \<Longrightarrow> backed s (h @ h') a"
  unfolding backed_def by (elim exE, rule_tac x = j in exI, rule_tac x = k in exI) (auto simp: nth_append)

lemma edges_step:
  assumes s0: "levels_ok s0" "newStatusCandidate s0 = prevState s0" "debounceTimestampMs s0 = 0" "debounceDelayMs s0 \<noteq> 0"
    and ok: "samples_ok (h @ [(t, l)])" "\<forall>x \<in> set (h @ [(t, l)]). fst x < 2 ^ 32"
    and e: "edges s0 (h @ [(t, l)]) = edges s0 h @ [a]"
  shows "(edges s0 h \<noteq> [] \<longrightarrow> apart (unat (debounceDelayMs s0)) (last (edges s0 h)) a) \<and> backed s0 (h @ [(t, l)]) a"
proof -
  let ?s = "after_samples s0 h"
  have inv: "debounce_inv s0 h ?s" using debounce_run_inv [OF s0(1-3) samples_ok_prefix [OF ok(1)]] ok(2) by simp
  have lv: "levels_ok ?s" and con: "valueOnPress ?s = valueOnPress s0" "debounceDelayMs ?s = debounceDelayMs s0"
    "swNoiseFilterDelayMs ?s = swNoiseFilterDelayMs s0" using inv by (simp_all add: debounce_inv_def)
  have l: "l \<in> {0, 1}" and le: "last_time h \<le> t" using ok(1) last_time_le by (auto simp: samples_ok_def)
  have "a = (t, snd (sample (t, l) ?s)) \<and> is_edge (snd (sample (t, l) ?s))"
    using e by (auto simp: edges_append split: prod.splits if_splits)
  then obtain s': "settled t ?s" "l \<noteq> prevState ?s" "newStatusCandidate ?s = l" "filtered t ?s"
    and a: "a = (t, if l = valueOnPress s0 then TO_PRESSED else TO_RELEASED)"
    using con by (auto intro: sample_cases [OF lv l, of t])
  have lev: "edge_level s0 (snd a) = l" using a l valueOnPress_level [of s0] by (auto simp: edge_level_def)
  obtain T where T: "debounceTimestampMs ?s = of_nat T" "T \<le> last_time h"
    "edges s0 h \<noteq> [] \<longrightarrow> fst (last (edges s0 h)) = T \<and> prevState ?s = edge_level s0 (snd (last (edges s0 h)))"
    using inv unfolding debounce_inv_def by blast
  have "T \<le> t" using T(2) le by simp
  then have "unat (debounceDelayMs s0) < t - T"
    using elapsed_less [of T t] s' T(1) con s0(4) by (simp add: settled_def)
  then have 1: "edges s0 h \<noteq> [] \<longrightarrow> apart (unat (debounceDelayMs s0)) (last (edges s0 h)) a"
    using T(3) s' lev a by (auto simp: apart_def)
  obtain j where j: "j < length h" "filterTimestampMs ?s = of_nat (fst (h ! j))" "\<forall>i \<in> {j..<length h}. snd (h ! i) = l"
    using inv s' unfolding debounce_inv_def by auto
  have "fst (h ! j) \<le> t" using ok(1) j(1) by (auto simp: samples_ok_def sorted_append)
  then have "fst (h ! j) + unat (swNoiseFilterDelayMs s0) < t"
    using elapsed_less [of "fst (h ! j)" t "swNoiseFilterDelayMs s0"] s' j(2) con by (simp add: filtered_def)
  then have "backed s0 (h @ [(t, l)]) a"
    unfolding backed_def lev using j a by (intro exI [of _ j] exI [of _ "length h"]) (auto simp: nth_append)
  then show ?thesis using 1 by blast
qed

lemma edges_snoc: "\<exists>as. edges s0 (h @ [x]) = edges s0 h @ as \<and> (as = [] \<or> (\<exists>a. as = [a]))"
  by (auto simp: edges_append split: prod.split)

text \<open>C13. The debounced input.  For every sequence of samples of the pin (levels 0 or 1, times that do not decrease, within one period of the
  millisecond counter), with a noise filter and a debounce delay: reported changes alternate between pressed and released, two
  successive changes are more than the debounce delay apart, and at every change all samples of more than the filter delay before it
  had the new level.\<close>

theorem debounced_changes:
  assumes "pin s \<noteq> - 1" "prevState s \<in> {0, 1}" "newStatusCandidate s = prevState s" "debounceTimestampMs s = 0"
    and "swNoiseFilterDelayMs s \<noteq> 0" "debounceDelayMs s \<noteq> 0"
    and "sorted (map fst h)" "snd ` set h \<subseteq> {0, 1}" "\<forall>x \<in> set h. fst x < 2 ^ 32"
  shows "successively (apart (unat (debounceDelayMs s))) (edges s h) \<and> (\<forall>a \<in> set (edges s h). backed s h a)"
proof -
  have s: "levels_ok s" using assms by (simp add: levels_ok_def)
  have "samples_ok h" using assms(7,8) by (simp add: samples_ok_def)
  then show ?thesis using assms(9)
  proof (induction h rule: rev_induct)
    case (snoc x h)
    obtain t l where x: "x = (t, l)" by fastforce
    have IH: "successively (apart (unat (debounceDelayMs s))) (edges s h)" "\<forall>a \<in> set (edges s h). backed s h a"
      using snoc.IH samples_ok_prefix [OF snoc.prems(1)] snoc.prems(2) by simp_all
    have old: "\<forall>a \<in> set (edges s h). backed s (h @ [x]) a" using IH(2) backed_prefix by blast
    obtain as where as: "edges s (h @ [x]) = edges s h @ as" "as = [] \<or> (\<exists>a. as = [a])" using edges_snoc by blast
    then show ?case
      using IH(1) old edges_step [OF s assms(3,4,6) snoc.prems(1) [unfolded x] snoc.prems(2) [unfolded x]] x
      by (auto simp: successively_append_iff)
  qed simp
qed

theorem debounced_changes_witness:
  "let s = ButtonState_init 0 (new_ButtonState 4 False False)
   in edges s [(100, 1), (110, 0), (115, 1), (120, 1), (136, 1), (140, 0), (190, 0), (220, 0)] = [(136, TO_PRESSED), (220, TO_RELEASED)] \<and>
     apart 50 (136, TO_PRESSED) (220, TO_RELEASED)"
proof -
  define s where "s = ButtonState_init 0 (new_ButtonState 4 False False)"
  let ?h = "[(100, 1), (110, 0), (115, 1), (120, 1), (136, 1), (140, 0), (190, 0), (220, 0)] :: samples"
  have e: "edges s ?h = [(136, TO_PRESSED), (220, TO_RELEASED)]" unfolding s_def by code_simp
  have c: "pin s \<noteq> - 1" "prevState s \<in> {0, 1}" "newStatusCandidate s = prevState s" "debounceTimestampMs s = 0"
    "swNoiseFilterDelayMs s \<noteq> 0" "debounceDelayMs s = 50" unfolding s_def by code_simp+
  show ?thesis
    using debounced_changes [of s ?h] c e unfolding s_def [symmetric] Let_def by simp
qed

text \<open>A level that stays is taken over.  \<open>taking l t0 T s\<close>: the level is reported already, or it is the candidate since a time not
  after \<open>t0\<close>.\<close>

definition taking :: "int \<Rightarrow> nat \<Rightarrow> nat \<Rightarrow> ButtonState \<Rightarrow> bool" where
  "taking l t0 T s \<longleftrightarrow> prevState s = l \<or>
     newStatusCandidate s = l \<and> debounceTimestampMs s = of_nat T \<and> (\<exists>t' \<le> t0. filterTimestampMs s = of_nat t')"

lemma taking_step:
  assumes "levels_ok s" "l \<in> {0, 1}" "taking l t0 T s" "T + unat (debounceDelayMs s) < t0" "t0 \<le> t" "t < 2 ^ 32"
  shows "taking l t0 T (fst (sample (t, l) s)) \<and> (t0 + unat (swNoiseFilterDelayMs s) < t \<longrightarrow> prevState (fst (sample (t, l) s)) = l)"
proof (rule sample_cases [OF assms(1,2), of t])
  assume b: "\<not> settled t s" "sample (t, l) s = (s, getLastState s)"
  have "debounceTimestampMs s = of_nat T \<Longrightarrow> settled t s"
    using elapsed_iff [of T t "debounceDelayMs s"] assms(4-6) by (auto simp: settled_def)
  then show ?thesis using b assms(3) by (auto simp: taking_def)
next
  assume b: "settled t s" "l \<noteq> prevState s" "newStatusCandidate s = l" "\<not> filtered t s" "sample (t, l) s = (s, getLastState s)"
  then obtain t' where "t' \<le> t0" "filterTimestampMs s = of_nat t'" using assms(3) by (auto simp: taking_def)
  then show ?thesis
    using b assms(3,5,6) elapsed_iff [of t' t "swNoiseFilterDelayMs s"] by (auto simp: filtered_def)
qed (use assms(3) in \<open>auto simp: taking_def\<close>)

lemma taking_run:
  assumes "levels_ok s" "l \<in> {0, 1}" "taking l t0 T s" "T + unat (debounceDelayMs s) < t0"
    and "\<forall>x \<in> set w. snd x = l \<and> t0 \<le> fst x \<and> fst x < 2 ^ 32"
  shows "taking l t0 T (after_samples s w) \<and>
    (w \<noteq> [] \<and> t0 + unat (swNoiseFilterDelayMs s) < fst (last w) \<longrightarrow> prevState (after_samples s w) = l)"
  using assms
proof (induction w arbitrary: s)
  case (Cons x w)
  obtain t where x: "x = (t, l)" using Cons.prems(5) by (cases x) auto
  let ?s = "fst (sample (t, l) s)"
  have k: "levels_ok ?s" "debounceDelayMs ?s = debounceDelayMs s" "swNoiseFilterDelayMs ?s = swNoiseFilterDelayMs s"
    using sample_keeps [OF Cons.prems(1,2)] by simp_all
  have st: "taking l t0 T ?s" "t0 + unat (swNoiseFilterDelayMs s) < t \<longrightarrow> prevState ?s = l"
    using taking_step [OF Cons.prems(1-4), of t] Cons.prems(5) x by simp_all
  show ?case using Cons.IH [OF k(1) Cons.prems(2) st(1)] Cons.prems(4,5) k st(2) x by simp
qed simp

lemma after_samples_keeps:
  "levels_ok s \<Longrightarrow> snd ` set h \<subseteq> {0, 1} \<Longrightarrow>
    levels_ok (after_samples s h) \<and> valueOnPress (after_samples s h) = valueOnPress s"
proof (induction h arbitrary: s)
  case (Cons x h)
  then show ?case using sample_keeps [of s "snd x" "fst x"] by simp
qed simp

lemma no_edge_timestamp:
  "levels_ok s \<Longrightarrow> snd ` set h \<subseteq> {0, 1} \<Longrightarrow> edges s h = [] \<Longrightarrow> debounceTimestampMs (after_samples s h) = debounceTimestampMs s"
proof (induction h arbitrary: s)
  case (Cons x h)
  obtain t l where x: "x = (t, l)" by fastforce
  have l: "l \<in> {0, 1}" using Cons.prems(2) x by simp
  have e: "\<not> is_edge (snd (sample (t, l) s))" "edges (fst (sample (t, l) s)) h = []"
    using Cons.prems(3) x by (auto split: prod.splits if_splits)
  have "debounceTimestampMs (fst (sample (t, l) s)) = debounceTimestampMs s"
    by (rule sample_cases [OF Cons.prems(1) l, of t]) (use e(1) in \<open>auto simp: is_edge_def split: if_splits\<close>)
  then show ?case using Cons.IH [OF _ _ e(2)] sample_keeps [OF Cons.prems(1) l, of t] Cons.prems(2) x by simp
qed simp

lemma candidate_time:
  assumes "debounce_inv s0 h s" "newStatusCandidate s \<noteq> prevState s" "sorted (map fst (h @ [(t, l)]))"
  shows "\<exists>t' \<le> t. filterTimestampMs s = of_nat t'"
proof -
  obtain j where "j < length h" "filterTimestampMs s = of_nat (fst (h ! j))"
    using assms(1,2) unfolding debounce_inv_def by blast
  moreover have "fst (h ! j) \<le> t" if "j < length h" for j using assms(3) that by (auto simp: sorted_append)
  ultimately show ?thesis by blast
qed

text \<open>C14. The debounced input responds.  When, after any samples, the pin keeps a level from a sample at \<open>t0\<close> on, where \<open>t0\<close> is more than the
  debounce delay after the start and after every change reported so far, then that level is the reported one as soon as a sample comes
  more than the filter delay after \<open>t0\<close>.\<close>

theorem debounce_responds:
  assumes "pin s \<noteq> - 1" "prevState s \<in> {0, 1}" "newStatusCandidate s = prevState s" "debounceTimestampMs s = 0" "swNoiseFilterDelayMs s \<noteq> 0"
    and "sorted (map fst (h @ (t0, l) # w))" "snd ` set (h @ (t0, l) # w) \<subseteq> {0, 1}" "\<forall>x \<in> set (h @ (t0, l) # w). fst x < 2 ^ 32"
    and "\<forall>x \<in> set w. snd x = l" "unat (debounceDelayMs s) < t0" "\<forall>a \<in> set (edges s h). fst a + unat (debounceDelayMs s) < t0"
    and "w \<noteq> []" "t0 + unat (swNoiseFilterDelayMs s) < fst (last w)"
  shows "getLastState (after_samples s (h @ (t0, l) # w)) = (if l = valueOnPress s then PRESSED else RELEASED)"
proof -
  have s: "levels_ok s" using assms(1-5) by (simp add: levels_ok_def)
  let ?s = "after_samples s h" and ?s1 = "after_samples s (h @ [(t0, l)])"
  have ok: "samples_ok (h @ [(t0, l)])" "samples_ok h" using assms(6,7) by (auto simp: samples_ok_def sorted_append)
  have inv: "debounce_inv s h ?s" using debounce_run_inv [OF s assms(3,4) ok(2)] assms(8) by simp
  then have lv: "levels_ok ?s" and con: "valueOnPress ?s = valueOnPress s" "debounceDelayMs ?s = debounceDelayMs s"
    "swNoiseFilterDelayMs ?s = swNoiseFilterDelayMs s" by (simp_all add: debounce_inv_def)
  have l: "l \<in> {0, 1}" using assms(7) by auto
  have Tx: "\<exists>T. debounceTimestampMs ?s = of_nat T \<and> T + unat (debounceDelayMs s) < t0"
  proof (cases "edges s h = []")
    case True
    then have "debounceTimestampMs ?s = 0"
      using no_edge_timestamp [OF s _ True] assms(4,7) by (auto simp: image_subset_iff)
    then show ?thesis using assms(10) by (intro exI [of _ 0]) simp
  next
    case False
    then show ?thesis using inv assms(11) last_in_set [OF False] unfolding debounce_inv_def by (metis prod.collapse)
  qed
  then obtain T where T: "debounceTimestampMs ?s = of_nat T" "T + unat (debounceDelayMs s) < t0" by blast
  have st: "settled t0 ?s" using T elapsed_iff [of T t0] assms(8) con by (auto simp: settled_def)
  have tk: "taking l t0 T (fst (sample (t0, l) ?s))"
    by (rule sample_cases [OF lv l, of t0])
      (use T(1) candidate_time [OF inv, of t0 l] ok(1) st in \<open>auto simp: taking_def samples_ok_def\<close>)
  show ?thesis
    using taking_run [OF _ l tk, of w] sample_keeps [OF lv l, of t0] con T(2) assms(6,8,9,12,13)
      after_samples_keeps [OF s assms(7)]
    by (auto simp: getLastState_def sorted_append)
qed

theorem debounce_responds_witness:
  "let s = ButtonState_init 0 (new_ButtonState 4 False False)
   in getLastState (after_samples s ([(60, 0)] @ (100, 1) # [(110, 1), (121, 1)])) = PRESSED"
proof -
  define s where "s = ButtonState_init 0 (new_ButtonState 4 False False)"
  have c: "pin s \<noteq> - 1" "prevState s \<in> {0, 1}" "newStatusCandidate s = prevState s" "debounceTimestampMs s = 0"
    "swNoiseFilterDelayMs s = 20" "debounceDelayMs s = 50" "valueOnPress s = 1" "edges s [(60, 0)] = []" unfolding s_def by code_simp+
  show ?thesis
    using debounce_responds [of s "[(60, 0)]" 100 1 "[(110, 1), (121, 1)]"] c
    unfolding s_def [symmetric] Let_def by (simp del: edges.simps)
qed

section \<open>Clicks\<close>

text \<open>A run of the timer: times and results of the debounced input; the events of all calls in order.\<close>

type_synonym ticks = "(u32 \<times> StateResults) list"

fun run_ticks :: "Button \<Rightarrow> ticks \<Rightarrow> Button \<times> u16 list" where
  "run_ticks b [] = (b, [])"
| "run_ticks b (x # xs) = (let (b, e) = react (fst x) (snd x) b; (b, es) = run_ticks b xs in (b, e @ es))"

text \<open>\<open>n\<close> clicks: in each, the input is pressed for at most the hold time and, after its release, no call comes later than the multiclick
  time.  The last argument is the time of the last release.\<close>

inductive burst :: "Button \<Rightarrow> nat \<Rightarrow> ticks \<Rightarrow> u32 \<Rightarrow> bool" for b where
  No_click: "burst b 0 [] t"
| Click: "burst b n xs t \<Longrightarrow> t0 \<noteq> 0 \<Longrightarrow> \<forall>x \<in> set ps. snd x = PRESSED \<and> fst x - t0 \<le> press_limit b \<Longrightarrow>
    t1 \<noteq> 0 \<Longrightarrow> \<forall>x \<in> set rs. snd x = RELEASED \<and> fst x - t1 \<le> ucast (multiclickTimeMs b) \<Longrightarrow>
    burst b (Suc n) (xs @ (t0, TO_PRESSED) # ps @ (t1, TO_RELEASED) # rs) t1"

definition plain_events :: "u16 set" where
  "plain_events = {ON_PRESS, ON_RELEASE, ON_CHANGE, CONDITIONAL_ON_PRESS, CONDITIONAL_ON_RELEASE, CONDITIONAL_ON_CHANGE, ON_HOLD_RELEASE}"

definition clicks_in :: "u16 list \<Rightarrow> u16 list" where
  "clicks_in es = filter (\<lambda>e. e \<notin> plain_events) es"

text \<open>A button that waits for clicks.\<close>

definition clickable :: "Button \<Rightarrow> bool" where
  "clickable b \<longleftrightarrow> isMonostable b \<and> multiclickTimeMs b > 0 \<and> \<not> waitingForRelease b \<and> holdSend b = 0 \<and> maxMulticlickValueConfigured b \<le> 10"

definition clicked :: "Button \<Rightarrow> u8 \<Rightarrow> u32 \<Rightarrow> Button" where
  "clicked b c t = b\<lparr>clickCounter := c, lastStateChangeMs := t\<rparr>"

lemma clicked_simps [simp]:
  "clickCounter (clicked b c t) = c" "lastStateChangeMs (clicked b c t) = t" "holdSend (clicked b c t) = holdSend b"
  "holdTimeMs (clicked b c t) = holdTimeMs b" "multiclickTimeMs (clicked b c t) = multiclickTimeMs b"
  "maxMulticlickValueConfigured (clicked b c t) = maxMulticlickValueConfigured b" "waitingForRelease (clicked b c t) = waitingForRelease b"
  "buttonType (clicked b c t) = buttonType b" "btn_int16 (clicked b c t) = btn_int16 b"
  "clicked b c t\<lparr>clickCounter := c'\<rparr> = clicked b c' t" "clicked b c t\<lparr>lastStateChangeMs := t'\<rparr> = clicked b c t'"
  "waitingForRelease b = w \<Longrightarrow> clicked b c t\<lparr>waitingForRelease := w\<rparr> = clicked b c t"
  "holdSend b = h \<Longrightarrow> clicked b c t\<lparr>holdSend := h\<rparr> = clicked b c t"
  by (simp_all add: clicked_def)

lemma clicks_in_simps [simp]: "clicks_in [] = []" "clicks_in (xs @ ys) = clicks_in xs @ clicks_in ys" "clicks_in (edge_events r b) = []"
  by (simp_all add: clicks_in_def edge_events_def plain_events_def)

lemma clicks_in_click: "clicks_in (click_events n) = click_events n"
  by (simp add: clicks_in_def click_events_def plain_events_def chan_consts)

lemma run_ticks_append:
  "run_ticks b (xs @ ys) = (let (b, es) = run_ticks b xs; (b, es') = run_ticks b ys in (b, es @ es'))"
  by (induction xs arbitrary: b) (auto simp: Let_def split: prod.splits)

lemmas type_defs = isMonostable_def isBistable_def isMotionSensor_def isCentral_def

lemma react_press:
  assumes "clickable b" "c < maxMulticlickValueConfigured b"
  shows "\<exists>es. react t0 TO_PRESSED (clicked b c t) = (clicked b (c + 1) t0, es) \<and> clicks_in es = []"
  using assms by (auto simp: react_def count_click_def clickable_def Let_def)

lemma react_release:
  assumes "clickable b"
  shows "\<exists>es. react t1 TO_RELEASED (clicked b c t) = (clicked b c t1, es) \<and> clicks_in es = []"
  using assms by (auto simp: react_def count_click_def clickable_def type_defs Let_def)

lemma react_pressed:
  assumes "clickable b" "t0 \<noteq> 0" "t - t0 \<le> press_limit b"
  shows "react t PRESSED (clicked b c t0) = (clicked b c t0, [])"
proof -
  have "hold_step (t - t0) (clicked b c t0) = (clicked b c t0, [])"
    using assms(1,3) by (auto simp: hold_step_def clickable_def press_limit_def split: if_splits)
  then show ?thesis
    using assms by (auto simp: react_def idle_step_def clickable_def press_limit_def edge_events_def type_defs Let_def)
qed

lemma pressed_ticks:
  assumes "clickable b" "t0 \<noteq> 0" "\<forall>x \<in> set ps. snd x = PRESSED \<and> fst x - t0 \<le> press_limit b"
  shows "run_ticks (clicked b c t0) ps = (clicked b c t0, [])"
  using assms(3) by (induction ps) (auto simp: react_pressed [OF assms(1,2)])

lemma react_released:
  assumes "clickable b" "t1 \<noteq> 0" "t - t1 \<le> ucast (multiclickTimeMs b)"
  shows "react t RELEASED (clicked b c t1) =
    (if c = maxMulticlickValueConfigured b then (clicked b 255 t1, click_events c) else (clicked b c t1, []))"
proof -
  have "maxMulticlickValueConfigured b \<noteq> 255" using assms(1) by (auto simp: clickable_def)
  then show ?thesis
    using assms by (auto simp: react_def idle_step_def finish_clicks_def clickable_def edge_events_def type_defs Let_def not_less)
qed

lemma released_ticks:
  assumes "clickable b" "t1 \<noteq> 0" "\<forall>x \<in> set rs. snd x = RELEASED \<and> fst x - t1 \<le> ucast (multiclickTimeMs b)"
  shows "run_ticks (clicked b c t1) rs =
    (if c = maxMulticlickValueConfigured b \<and> rs \<noteq> [] then (clicked b 255 t1, click_events c) else (clicked b c t1, []))"
  using assms(3)
proof (induction rs arbitrary: c)
  case (Cons x rs)
  have "maxMulticlickValueConfigured b \<noteq> 255" using assms(1) by (auto simp: clickable_def)
  then show ?case using Cons react_released [OF assms(1,2), of "fst x"] by auto
qed simp

lemma react_timeout:
  assumes "clickable b" "t1 \<noteq> 0" "t - t1 > ucast (multiclickTimeMs b)"
  shows "react t RELEASED (clicked b c t1) = (clicked b 0 t1, if c = 255 then [] else click_events c)"
  using assms by (auto simp: react_def idle_step_def finish_clicks_def clickable_def edge_events_def type_defs Let_def long_click_events_def)

text \<open>After \<open>n\<close> clicks the counter is \<open>n\<close> and nothing has been raised, except that the largest number of clicks may have been raised already.\<close>

lemma burst_run:
  assumes "burst b n xs t" "clickable b" "clickCounter b = 0" "n \<le> unat (maxMulticlickValueConfigured b)" "0 < n"
  shows "t \<noteq> 0 \<and> (\<exists>es. (run_ticks b xs = (clicked b (of_nat n) t, es) \<and> clicks_in es = []) \<or>
    (run_ticks b xs = (clicked b 255 t, es) \<and> clicks_in es = click_events (of_nat n) \<and> n = unat (maxMulticlickValueConfigured b)))"
  using assms(1,4,5)
proof (induction rule: burst.induct)
  case (Click n xs t t0 ps t1 rs)
  let ?M = "maxMulticlickValueConfigured b"
  have n: "n < unat ?M" using Click.prems by simp
  then have lt: "(of_nat n :: u8) < ?M" by (simp add: word_less_nat_alt unat_of_nat take_bit_nat_eq_self unsigned_less)
  obtain t' es where es: "run_ticks b xs = (clicked b (of_nat n) t', es)" "clicks_in es = []"
  proof (cases "n = 0")
    case True
    then have "xs = []" using Click.hyps(1) by (auto elim: burst.cases)
    then show ?thesis using that [of "lastStateChangeMs b" "[]"] True assms(3) by (simp add: clicked_def)
  next
    case False
    then show ?thesis using Click.IH n that by force
  qed
  obtain e1 where e1: "react t0 TO_PRESSED (clicked b (of_nat n) t') = (clicked b (of_nat (Suc n)) t0, e1)" "clicks_in e1 = []"
    using react_press [OF assms(2) lt] by (auto simp: add.commute)
  obtain e2 where e2: "react t1 TO_RELEASED (clicked b (of_nat (Suc n)) t0) = (clicked b (of_nat (Suc n)) t1, e2)" "clicks_in e2 = []"
    using react_release [OF assms(2)] by blast
  note ps = pressed_ticks [OF assms(2) Click.hyps(2,3), of "of_nat (Suc n)"]
  note rs = released_ticks [OF assms(2) Click.hyps(4,5), of "of_nat (Suc n)"]
  have M: "Suc n = unat ?M" if "of_nat (Suc n) = ?M"
  proof -
    have "unat ?M < 2 ^ LENGTH(8)" by (rule unsigned_less)
    then have "Suc n < 256" using Click.prems(1) by simp
    then have "unat (of_nat (Suc n) :: u8) = Suc n" by (simp add: unat_of_nat del: of_nat_Suc)
    then show ?thesis using that by (simp del: of_nat_Suc)
  qed
  have run: "run_ticks b (xs @ (t0, TO_PRESSED) # ps @ (t1, TO_RELEASED) # rs) =
      (fst (run_ticks (clicked b (of_nat (Suc n)) t1) rs), es @ e1 @ e2 @ snd (run_ticks (clicked b (of_nat (Suc n)) t1) rs))"
    by (simp add: run_ticks_append es(1) e1(1) e2(1) ps Let_def split: prod.splits del: of_nat_Suc)
  show ?case using run rs M es(2) e1(2) e2(2) Click.hyps(4) by (auto simp: clicks_in_click simp del: of_nat_Suc)
qed simp

lemma clicks_counted:
  assumes "isMonostable b" "multiclickTimeMs b > 0" "\<not> waitingForRelease b" "holdSend b = 0" "clickCounter b = 0"
    and "maxMulticlickValueConfigured b \<le> 10" "0 < n" "n \<le> unat (maxMulticlickValueConfigured b)"
    and "burst b n xs t" "t' - t > ucast (multiclickTimeMs b)"
  shows "\<exists>es. run_ticks b (xs @ [(t', RELEASED)]) = (b\<lparr>lastStateChangeMs := t\<rparr>, es) \<and>
    filter (\<lambda>e. e \<notin> plain_events) es = click_events (of_nat n)"
proof -
  have b: "clickable b" using assms by (simp add: clickable_def)
  have end_state: "clicked b 0 t = b\<lparr>lastStateChangeMs := t\<rparr>" using assms(5) by (simp add: clicked_def)
  have t: "t \<noteq> 0" using burst_run [OF assms(9) b assms(5,8,7)] by blast
  have n: "(of_nat n :: u8) \<noteq> 255"
  proof -
    have "n \<le> 10" using assms(6,8) by (simp add: word_le_nat_alt)
    then have "unat (of_nat n :: u8) = n" by (simp add: unat_of_nat)
    then show ?thesis using \<open>n \<le> 10\<close> by auto
  qed
  consider es where "run_ticks b xs = (clicked b (of_nat n) t, es)" "clicks_in es = []"
    | es where "run_ticks b xs = (clicked b 255 t, es)" "clicks_in es = click_events (of_nat n)"
    using burst_run [OF assms(9) b assms(5,8,7)] by blast
  then show ?thesis
    by cases (use n in \<open>auto simp: run_ticks_append react_timeout [OF b t assms(10)] end_state clicks_in_click clicks_in_def [symmetric]\<close>)
qed

text \<open>The largest number of clicks of the enabled connections.\<close>

definition connected_clicks :: "nat \<Rightarrow> clients \<Rightarrow> u8 set" where
  "connected_clicks this cs = {n. \<exists>p \<in> set cs. trigger p = this \<and> isEnabled p \<and> event_clicks (onEvent p) = Some n}"

lemma multiclick_loop_spec:
  "k \<le> m \<Longrightarrow> (\<forall>n \<in> connected_clicks this cs. n \<le> multiclick_loop this k m cs) \<and> m \<le> multiclick_loop this k m cs \<and>
    (multiclick_loop this k m cs = m \<or> multiclick_loop this k m cs \<in> connected_clicks this cs)"
proof (induction this k m cs rule: multiclick_loop.induct)
  case (2 this k m p ps)
  define k' where "k' = (if trigger p = this \<and> isEnabled p then case event_clicks (onEvent p) of Some n \<Rightarrow> n | None \<Rightarrow> k else k)"
  define r where "r = multiclick_loop this k' (if k' > m then k' else m) ps"
  have r: "multiclick_loop this k m (p # ps) = r" by (simp add: r_def k'_def Let_def)
  have IH: "\<forall>n \<in> connected_clicks this ps. n \<le> r" "(if k' > m then k' else m) \<le> r"
    "r = (if k' > m then k' else m) \<or> r \<in> connected_clicks this ps"
    using 2(1) unfolding r_def k'_def by auto
  have "k' \<le> r" "m \<le> r" using IH(2) by (auto split: if_splits)
  moreover have "k' = k \<or> k' \<in> connected_clicks this (p # ps)" by (auto simp: k'_def connected_clicks_def split: option.split)
  moreover have "n \<in> connected_clicks this (p # ps) \<Longrightarrow> n = k' \<or> n \<in> connected_clicks this ps" for n
    by (auto simp: connected_clicks_def k'_def)
  moreover have "connected_clicks this ps \<subseteq> connected_clicks this (p # ps)" by (auto simp: connected_clicks_def)
  ultimately show ?case unfolding r using IH(1,3) 2(2) by (auto split: if_splits)
qed (simp add: connected_clicks_def)

lemma multiclick_max:
  "n \<in> connected_clicks this cs \<Longrightarrow> n \<le> multiclick_loop this 0 0 cs"
  "multiclick_loop this 0 0 cs \<le> 10"
proof -
  have "event_clicks e = Some m \<Longrightarrow> m \<le> 10" for e m by (auto simp: event_clicks_def split: if_splits)
  then have "m \<in> connected_clicks this cs \<Longrightarrow> m \<le> 10" for m by (auto simp: connected_clicks_def)
  then show "multiclick_loop this 0 0 cs \<le> 10"
    using multiclick_loop_spec [of 0 0 this cs] by (metis order_refl word_zero_le)
  show "n \<in> connected_clicks this cs \<Longrightarrow> n \<le> multiclick_loop this 0 0 cs"
    using multiclick_loop_spec [of 0 0 this cs] by simp
qed

lemma runAction_reaches:
  "p \<in> set cs \<Longrightarrow> client p = Some h \<Longrightarrow> trigger p = this \<Longrightarrow> isEnabled p \<Longrightarrow> (h, onEvent p, act p) \<in> set (runAction this (onEvent p) cs)"
  by (induction cs) (auto split: option.split)

lemma click_event_number: "event_clicks e = Some n \<Longrightarrow> e \<in> set (click_events n) \<Longrightarrow> n \<le> 10 \<and> n \<noteq> 0"
  by (auto simp: event_clicks_def split: if_splits)

text \<open>C15. Counting clicks.  Let a button with a multiclick time wait for clicks, with the number of clicks it listens to evaluated from the list of connections, and
  let an enabled connection of the list wait for \<open>n\<close> clicks.  After \<open>n\<close> clicks, each shorter than the hold time and followed by the next
  within the multiclick time, and a pause longer than it, exactly the event of \<open>n\<close> clicks has been raised, once (for ten clicks together
  with the crazy-clicker event); no other click and no hold event has; the handler of the connection has been called, and the
  button waits for clicks again.\<close>

theorem clicks_reach_handler:
  assumes "isMonostable b" "multiclickTimeMs b > 0" "\<not> waitingForRelease b" "holdSend b = 0" "clickCounter b = 0"
    and "b = evaluateMaxMulticlickValue this cs b"
    and "p \<in> set cs" "trigger p = this" "client p = Some h" "isEnabled p" "event_clicks (onEvent p) = Some (of_nat n)"
    and "onEvent p \<in> set (click_events (of_nat n))" "n < 256"
    and "burst b n xs t" "t' - t > ucast (multiclickTimeMs b)"
  shows "\<exists>es. run_ticks b (xs @ [(t', RELEASED)]) = (b\<lparr>lastStateChangeMs := t\<rparr>, es) \<and>
    filter (\<lambda>e. e \<notin> plain_events) es = click_events (of_nat n) \<and>
    (h, onEvent p, act p) \<in> set (concat (map (\<lambda>e. runAction this e cs) es))"
proof -
  have M: "maxMulticlickValueConfigured b = multiclick_loop this 0 0 cs"
    using arg_cong [OF assms(6), of maxMulticlickValueConfigured] by (simp add: evaluateMaxMulticlickValue_def)
  have "of_nat n \<in> connected_clicks this cs" using assms(7,8,10,11) by (auto simp: connected_clicks_def)
  then have le: "of_nat n \<le> maxMulticlickValueConfigured b" "maxMulticlickValueConfigured b \<le> 10"
    using multiclick_max M by simp_all
  have u: "unat (of_nat n :: u8) = n" using assms(13) by (simp add: unat_of_nat)
  then have n: "n \<le> unat (maxMulticlickValueConfigured b)" using le(1) by (simp add: word_le_nat_alt)
  have "0 < n" using click_event_number [OF assms(11,12)] by (cases n) auto
  then obtain es where es: "run_ticks b (xs @ [(t', RELEASED)]) = (b\<lparr>lastStateChangeMs := t\<rparr>, es)"
    "filter (\<lambda>e. e \<notin> plain_events) es = click_events (of_nat n)"
    using clicks_counted [OF assms(1-5) le(2) _ n assms(14,15)] by blast
  have "onEvent p \<in> set es" using assms(12) es(2) by (metis filter_is_subset subsetD)
  then have "(h, onEvent p, act p) \<in> set (concat (map (\<lambda>e. runAction this e cs) es))"
    using runAction_reaches [OF assms(7,9,8,10)] by auto
  then show ?thesis using es by blast
qed

theorem clicks_reach_handler_witness:
  "let (b, cs) = button_addAction 1 5 7 ON_CLICK_2 False (setMulticlickTime 300 False (new_Button False 0 4 False False), []);
       xs = [(1000, TO_PRESSED), (1050, PRESSED), (1100, TO_RELEASED), (1200, RELEASED), (1300, TO_PRESSED), (1400, TO_RELEASED)]
   in \<exists>es. run_ticks b (xs @ [(1800, RELEASED)]) = (b\<lparr>lastStateChangeMs := 1400\<rparr>, es) \<and>
     filter (\<lambda>e. e \<notin> plain_events) es = [ON_CLICK_2] \<and> (7, ON_CLICK_2, 5) \<in> set (concat (map (\<lambda>e. runAction 1 e cs) es))"
proof -
  define cs where "cs = addAction 1 5 7 ON_CLICK_2 False []"
  define b where "b = evaluateMaxMulticlickValue 1 cs (setMulticlickTime 300 False (new_Button False 0 4 False False))"
  have c: "isMonostable b" "multiclickTimeMs b = 300" "\<not> waitingForRelease b" "holdSend b = 0" "clickCounter b = 0" "holdTimeMs b = 0"
    unfolding b_def cs_def by code_simp+
  have ev: "b = evaluateMaxMulticlickValue 1 cs b" by (simp add: b_def evaluateMaxMulticlickValue_def)
  have p: "hd cs \<in> set cs" "trigger (hd cs) = 1" "client (hd cs) = Some 7" "isEnabled (hd cs)" "onEvent (hd cs) = ON_CLICK_2" "act (hd cs) = 5"
    by (simp_all add: cs_def addAction_def new_client_def isEnabled_def)
  have e: "click_events 2 = [ON_CLICK_2]" "event_clicks ON_CLICK_2 = Some 2" by (simp_all add: click_events_def event_clicks_def chan_consts)
  have "burst b (Suc 0) ([] @ (1000, TO_PRESSED) # [(1050, PRESSED)] @ (1100, TO_RELEASED) # [(1200, RELEASED)]) 1100"
    by (rule Click [OF No_click [of _ 0]]) (simp_all add: press_limit_def c)
  then have "burst b (Suc (Suc 0)) (([] @ (1000, TO_PRESSED) # [(1050, PRESSED)] @ (1100, TO_RELEASED) # [(1200, RELEASED)]) @
      (1300, TO_PRESSED) # [] @ (1400, TO_RELEASED) # []) 1400"
    by (rule Click) simp_all
  then have bu: "burst b 2 [(1000, TO_PRESSED), (1050, PRESSED), (1100, TO_RELEASED), (1200, RELEASED), (1300, TO_PRESSED), (1400, TO_RELEASED)] 1400"
    by (simp add: numeral_2_eq_2)
  have pair: "button_addAction 1 5 7 ON_CLICK_2 False (setMulticlickTime 300 False (new_Button False 0 4 False False), []) = (b, cs)"
    by (simp add: button_addAction_def b_def cs_def Let_def)
  show ?thesis
    using clicks_reach_handler [OF c(1) _ c(3-5) ev p(1-4) _ _ _ bu, of 1800] c(2) p(5,6) e unfolding pair Let_def by simp
qed

section \<open>Holding\<close>

lemma u16_less: "unat (w :: u16) \<le> 65535"
proof -
  have "unat w < 2 ^ LENGTH(16)" by (rule unsigned_less)
  then show ?thesis by simp
qed

text \<open>The time of the next hold event does not overflow.\<close>

lemma hold_limit:
  "unat (ucast (H :: u16) + ucast (S :: u16) * ucast (R :: u16) :: u32) = unat H + unat S * unat R"
proof -
  have "unat S * unat R \<le> 65535 * 65535" by (intro mult_le_mono u16_less)
  then show ?thesis using u16_less [of H] by (simp add: unat_word_ariths)
qed

lemma react_hold:
  fixes t :: u32
  assumes "isMonostable b" "\<not> waitingForRelease b" "lastStateChangeMs b \<noteq> 0" "clickCounter b \<le> 1" "holdTimeMs b > 0"
  defines "d \<equiv> t - lastStateChangeMs b"
  defines "b' \<equiv> b\<lparr>clickCounter := (if clickCounter b \<ge> 1 \<and> d > ucast (holdTimeMs b) then 0 else clickCounter b)\<rparr>"
  shows "react t PRESSED b =
    (if unat (holdTimeMs b) + unat (holdSend b) * unat (repeatOnHoldMs b) < unat d \<and> (repeatOnHoldEnabled b \<or> holdSend b = 0)
     then (b'\<lparr>holdSend := holdSend b + 1\<rparr>, [ON_HOLD]) else (b', []))"
proof -
  have "d > ucast (holdTimeMs b) + ucast (holdSend b) * ucast (repeatOnHoldMs b) \<longleftrightarrow>
      unat (holdTimeMs b) + unat (holdSend b) * unat (repeatOnHoldMs b) < unat d"
    by (simp only: word_less_nat_alt hold_limit)
  then have hs: "hold_step d b =
      (if unat (holdTimeMs b) + unat (holdSend b) * unat (repeatOnHoldMs b) < unat d \<and> (repeatOnHoldEnabled b \<or> holdSend b = 0)
       then (b\<lparr>holdSend := holdSend b + 1\<rparr>, [ON_HOLD]) else (b, []))"
    using assms(4,5) by (simp add: hold_step_def)
  have h: "press_limit b = ucast (holdTimeMs b)" "press_limit (b\<lparr>holdSend := holdSend b + 1\<rparr>) = ucast (holdTimeMs b)"
    using assms(5) by (auto simp: press_limit_def)
  have w: "b\<lparr>waitingForRelease := False\<rparr> = b" using assms(2) by simp
  have "react t PRESSED b = idle_step d PRESSED b"
    using assms(2) by (simp add: react_def edge_events_def Let_def d_def [symmetric] split: prod.split) (simp only: w)
  then show ?thesis using assms(1,3) h unfolding b'_def by (simp add: idle_step_def hs)
qed

lemma snd_run_ticks: "snd (run_ticks b (x # xs)) = snd (react (fst x) (snd x) b) @ snd (run_ticks (fst (react (fst x) (snd x) b)) xs)"
  by (simp split: prod.split)

lemma hold_run:
  assumes "isMonostable b" "\<not> waitingForRelease b" "lastStateChangeMs b \<noteq> 0" "clickCounter b \<le> 1" "holdTimeMs b > 0"
    and "\<forall>x \<in> set ps. snd x = PRESSED" "unat (holdSend b) + length ps < 65536"
  shows "\<exists>k. snd (run_ticks b ps) = replicate k ON_HOLD \<and>
    (\<not> repeatOnHoldEnabled b \<longrightarrow> k \<le> (if holdSend b = 0 then 1 else 0)) \<and>
    (holdSend b = 0 \<longrightarrow> (k = 0 \<longleftrightarrow> (\<forall>x \<in> set ps. unat (fst x - lastStateChangeMs b) \<le> unat (holdTimeMs b)))) \<and>
    (0 < k \<longrightarrow> (\<exists>x \<in> set ps. unat (holdTimeMs b) + (unat (holdSend b) + k - 1) * unat (repeatOnHoldMs b) < unat (fst x - lastStateChangeMs b)))"
  using assms
proof (induction ps arbitrary: b)
  case (Cons x ps)
  let ?d = "fst x - lastStateChangeMs b"
  let ?b = "b\<lparr>clickCounter := (if clickCounter b \<ge> 1 \<and> ?d > ucast (holdTimeMs b) then 0 else clickCounter b)\<rparr>"
  have r: "react (fst x) (snd x) b =
      (if unat (holdTimeMs b) + unat (holdSend b) * unat (repeatOnHoldMs b) < unat ?d \<and> (repeatOnHoldEnabled b \<or> holdSend b = 0)
       then (?b\<lparr>holdSend := holdSend b + 1\<rparr>, [ON_HOLD]) else (?b, []))"
    using react_hold [OF Cons.prems(1-5), of "fst x"] Cons.prems(6) by simp
  have m: "isMonostable ?b" "clickCounter ?b \<le> 1" using Cons.prems(1,4) by (simp_all add: isMonostable_def)
  show ?case
  proof (cases "unat (holdTimeMs b) + unat (holdSend b) * unat (repeatOnHoldMs b) < unat ?d \<and> (repeatOnHoldEnabled b \<or> holdSend b = 0)")
    case True
    let ?b1 = "?b\<lparr>holdSend := holdSend b + 1\<rparr>"
    have u: "unat (holdSend b + 1) = unat (holdSend b) + 1" using Cons.prems(7) by (simp add: unat_word_ariths)
    then have nz: "holdSend b + 1 \<noteq> 0" by (metis Suc_eq_plus1 nat.distinct(1) unat_0)
    have "isMonostable ?b1" using m by (simp add: isMonostable_def)
    then obtain k where k: "snd (run_ticks ?b1 ps) = replicate k ON_HOLD" "\<not> repeatOnHoldEnabled b \<longrightarrow> k = 0"
      "0 < k \<longrightarrow> (\<exists>x \<in> set ps. unat (holdTimeMs b) + (unat (holdSend b) + k) * unat (repeatOnHoldMs b) < unat (fst x - lastStateChangeMs b))"
      using Cons.IH [of ?b1] Cons.prems u nz m by auto
    have "snd (run_ticks b (x # ps)) = replicate (Suc k) ON_HOLD" unfolding snd_run_ticks r if_P [OF True] using k(1) by simp
    then show ?thesis
      using True k(2,3) by (intro exI [of _ "Suc k"]) (cases "k = 0"; auto)
  next
    case False
    obtain k where k: "snd (run_ticks ?b ps) = replicate k ON_HOLD"
      "\<not> repeatOnHoldEnabled b \<longrightarrow> k \<le> (if holdSend b = 0 then 1 else 0)"
      "holdSend b = 0 \<longrightarrow> (k = 0 \<longleftrightarrow> (\<forall>x \<in> set ps. unat (fst x - lastStateChangeMs b) \<le> unat (holdTimeMs b)))"
      "0 < k \<longrightarrow> (\<exists>x \<in> set ps. unat (holdTimeMs b) + (unat (holdSend b) + k - 1) * unat (repeatOnHoldMs b) < unat (fst x - lastStateChangeMs b))"
      using Cons.IH [of ?b] Cons.prems m by auto
    have "snd (run_ticks b (x # ps)) = replicate k ON_HOLD" unfolding snd_run_ticks r if_not_P [OF False] using k(1) by simp
    then show ?thesis using False k(2-4) by (intro exI [of _ k]) auto
  qed
qed auto

text \<open>Holding a button.  While a button is held, only hold events are raised: at least one exactly when some call comes later than the hold time
  after the press, at most one unless repetition is enabled, and the \<open>k\<close>-th only later than the hold time and \<open>k - 1\<close> repetition
  periods after the press.\<close>

theorem hold_events:
  assumes "isMonostable b" "\<not> waitingForRelease b" "lastStateChangeMs b \<noteq> 0" "clickCounter b \<le> 1" "holdTimeMs b > 0" "holdSend b = 0"
    and "\<forall>x \<in> set ps. snd x = PRESSED" "length ps < 65536"
  shows "\<exists>k. snd (run_ticks b ps) = replicate k ON_HOLD \<and>
    (k = 0 \<longleftrightarrow> (\<forall>x \<in> set ps. unat (fst x - lastStateChangeMs b) \<le> unat (holdTimeMs b))) \<and> (\<not> repeatOnHoldEnabled b \<longrightarrow> k \<le> 1) \<and>
    (0 < k \<longrightarrow> (\<exists>x \<in> set ps. unat (holdTimeMs b) + (k - 1) * unat (repeatOnHoldMs b) < unat (fst x - lastStateChangeMs b)))"
  using hold_run [OF assms(1-5,7)] assms(6,8) by fastforce

theorem hold_events_witness:
  "let b = fst (react 1000 TO_PRESSED (setHoldTime 500 (new_Button False 0 4 False False)))
   in snd (run_ticks b [(1400, PRESSED), (1501, PRESSED), (1900, PRESSED)]) = [ON_HOLD]"
proof -
  define b where "b = fst (react 1000 TO_PRESSED (setHoldTime 500 (new_Button False 0 4 False False)))"
  have c: "isMonostable b" "\<not> waitingForRelease b" "lastStateChangeMs b = 1000" "clickCounter b = 0" "holdTimeMs b = 500" "holdSend b = 0"
    "\<not> repeatOnHoldEnabled b" unfolding b_def by code_simp+
  obtain k where k: "snd (run_ticks b [(1400, PRESSED), (1501, PRESSED), (1900, PRESSED)]) = replicate k ON_HOLD" "k \<noteq> 0" "k \<le> 1"
    using hold_events [of b "[(1400, PRESSED), (1501, PRESSED), (1900, PRESSED)]"] c by auto
  then have "k = 1" by simp
  then show ?thesis using k(1) unfolding b_def [symmetric] Let_def by simp
qed

text \<open>The time between clicks is never stored: the branch for a configuration without it tests the wrong variable.\<close>

lemma load_multiclick_never_stores: "snd (load_multiclick b cfg) = (cfg, False)"
  by (simp add: load_multiclick_def split: option.split)

text \<open>Stored times are limited.\<close>

lemma limit_time_bounds: "200 \<le> limit_time v \<and> limit_time v \<le> 10000"
  by (auto simp: limit_time_def Let_def)

end
