(* ===== verification/Channel.thy ===== *)
theory Channel
  imports Channel_Types
begin

text \<open>
  The class \<open>Channel\<close> of \<open>src/src/supla/channels/channel.cpp\<close>: one input or output of the device, with the eight bytes of its value,
  its state and the description sent at registration.

  The record has the members of the class; \<open>ch_value\<close> is the union of the raw value and \<open>hvacValue\<close>.  The field \<open>raised\<close> is the
  sequence of events passed to \<open>runAction\<close>, in order (theory \<open>Local_Action\<close> says which handlers an event reaches); an operation of
  the class becomes a function on the record.  An argument that is a packed structure is given as its bytes.  Overloads of \<open>setNewValue\<close>
  carry the kind of their argument in the name.  The overloads for floating-point numbers are left out.

  The protocol layers a channel reports to are arguments of \<open>sendUpdate\<close>, which returns the calls it makes.
\<close>

unbundle bit_operations_syntax

section \<open>The channel\<close>

record Channel =
  initialCaption :: "bytes option"
  functionsBitmap :: u32
  channelFlags :: u64
  validityTimeSec :: u32
  channelNumber :: int
  defaultFunction :: u16
  changedFields :: u8
  batteryLevel :: u8
  batteryPowered :: u8
  bridgeSignalStrength :: u8
  channelType :: ChannelType
  state :: u8
  defaultIcon :: u8
  subDeviceId :: u8
  ch_value :: bytes
  raised :: "u16 list"

definition Channel_init :: Channel where
  "Channel_init = \<lparr>initialCaption = None, functionsBitmap = 0, channelFlags = 0, validityTimeSec = 0, channelNumber = -1,
     defaultFunction = 0, changedFields = 0, batteryLevel = 255, batteryPowered = 0, bridgeSignalStrength = 255,
     channelType = NOT_SET, state = 0, defaultIcon = 0, subDeviceId = 0,
     ch_value = replicate SUPLA_CHANNELVALUE_SIZE 0, raised = []\<rparr>"

definition run_action :: "u16 \<Rightarrow> Channel \<Rightarrow> Channel" where
  "run_action event c = c\<lparr>raised := raised c @ [event]\<rparr>"

definition run_if :: "bool \<Rightarrow> u16 \<Rightarrow> Channel \<Rightarrow> Channel" where
  "run_if b event c = (if b then run_action event c else c)"

section \<open>Pending updates\<close>

definition setSendValue :: "Channel \<Rightarrow> Channel" where
  "setSendValue c = c\<lparr>changedFields := changedFields c OR CHANNEL_SEND_VALUE\<rparr>"

definition clearSendValue :: "Channel \<Rightarrow> Channel" where
  "clearSendValue c = c\<lparr>changedFields := changedFields c AND NOT CHANNEL_SEND_VALUE\<rparr>"

definition setSendGetConfig :: "Channel \<Rightarrow> Channel" where
  "setSendGetConfig c = c\<lparr>changedFields := changedFields c OR CHANNEL_SEND_GET_CONFIG\<rparr>"

definition clearSendGetConfig :: "Channel \<Rightarrow> Channel" where
  "clearSendGetConfig c = c\<lparr>changedFields := changedFields c AND NOT CHANNEL_SEND_GET_CONFIG\<rparr>"

definition isGetConfigRequested :: "Channel \<Rightarrow> bool" where
  "isGetConfigRequested c \<longleftrightarrow> changedFields c AND CHANNEL_SEND_GET_CONFIG \<noteq> 0"

definition isValueUpdateReady :: "Channel \<Rightarrow> bool" where
  "isValueUpdateReady c \<longleftrightarrow> changedFields c AND CHANNEL_SEND_VALUE \<noteq> 0"

definition setSendInitialCaption :: "Channel \<Rightarrow> Channel" where
  "setSendInitialCaption c = c\<lparr>changedFields := changedFields c OR CHANNEL_SEND_INITIAL_CAPTION\<rparr>"

definition clearSendInitialCaption :: "Channel \<Rightarrow> Channel" where
  "clearSendInitialCaption c = c\<lparr>changedFields := changedFields c AND NOT CHANNEL_SEND_INITIAL_CAPTION\<rparr>"

definition isInitialCaptionUpdateReady :: "Channel \<Rightarrow> bool" where
  "isInitialCaptionUpdateReady c \<longleftrightarrow> changedFields c AND CHANNEL_SEND_INITIAL_CAPTION \<noteq> 0"

definition setSendStateInfo :: "Channel \<Rightarrow> Channel" where
  "setSendStateInfo c = c\<lparr>changedFields := changedFields c OR CHANNEL_SEND_STATE_INFO\<rparr>"

definition clearSendStateInfo :: "Channel \<Rightarrow> Channel" where
  "clearSendStateInfo c = c\<lparr>changedFields := changedFields c AND NOT CHANNEL_SEND_STATE_INFO\<rparr>"

definition isStateInfoUpdateReady :: "Channel \<Rightarrow> bool" where
  "isStateInfoUpdateReady c \<longleftrightarrow> changedFields c AND CHANNEL_SEND_STATE_INFO \<noteq> 0"

definition isUpdateReady :: "Channel \<Rightarrow> bool" where
  "isUpdateReady c \<longleftrightarrow> changedFields c \<noteq> 0"

section \<open>Description of the channel\<close>

definition setType :: "u32 \<Rightarrow> Channel \<Rightarrow> Channel" where
  "setType t c = c\<lparr>channelType := protoTypeToChannelType t\<rparr>"

definition getChannelType :: "Channel \<Rightarrow> u32" where
  "getChannelType c = channelTypeToProtoType (channelType c)"

definition setDefault :: "u32 \<Rightarrow> Channel \<Rightarrow> Channel" where
  "setDefault v c =
     (let v = (if v > 0xFFFF then 0 else v)
      in if v = ucast (defaultFunction c) then c
         else run_action ON_CHANNEL_FUNCTION_CHANGE (c\<lparr>defaultFunction := ucast v\<rparr>))"

definition setDefaultFunction :: "u32 \<Rightarrow> Channel \<Rightarrow> Channel" where
  "setDefaultFunction f c = setDefault f c"

definition getDefaultFunction :: "Channel \<Rightarrow> u32" where
  "getDefaultFunction c = ucast (defaultFunction c)"

definition setFlag :: "u64 \<Rightarrow> Channel \<Rightarrow> Channel" where
  "setFlag flag c = c\<lparr>channelFlags := channelFlags c OR flag\<rparr>"

definition unsetFlag :: "u64 \<Rightarrow> Channel \<Rightarrow> Channel" where
  "unsetFlag flag c = c\<lparr>channelFlags := channelFlags c AND NOT flag\<rparr>"

definition getFlags :: "Channel \<Rightarrow> u64" where
  "getFlags c = channelFlags c"

definition setFuncList :: "u32 \<Rightarrow> Channel \<Rightarrow> Channel" where
  "setFuncList functions c = c\<lparr>functionsBitmap := functions\<rparr>"

definition getFuncList :: "Channel \<Rightarrow> u32" where
  "getFuncList c = functionsBitmap c"

definition addToFuncList :: "u32 \<Rightarrow> Channel \<Rightarrow> Channel" where
  "addToFuncList f c = c\<lparr>functionsBitmap := functionsBitmap c OR f\<rparr>"

definition removeFromFuncList :: "u32 \<Rightarrow> Channel \<Rightarrow> Channel" where
  "removeFromFuncList f c = c\<lparr>functionsBitmap := functionsBitmap c AND NOT f\<rparr>"

definition setActionTriggerCaps :: "u32 \<Rightarrow> Channel \<Rightarrow> Channel" where
  "setActionTriggerCaps caps c = setFuncList caps c"

definition getActionTriggerCaps :: "Channel \<Rightarrow> u32" where
  "getActionTriggerCaps c = getFuncList c"

definition setValidityTimeSec :: "u32 \<Rightarrow> Channel \<Rightarrow> Channel" where
  "setValidityTimeSec t c = c\<lparr>validityTimeSec := t\<rparr>"

definition isSleepingEnabled :: "Channel \<Rightarrow> bool" where
  "isSleepingEnabled c \<longleftrightarrow> validityTimeSec c > 0"

definition isWeeklyScheduleAvailable :: "Channel \<Rightarrow> bool" where
  "isWeeklyScheduleAvailable c \<longleftrightarrow> getFlags c AND SUPLA_CHANNEL_FLAG_WEEKLY_SCHEDULE \<noteq> 0"

definition isChannelStateEnabled :: "Channel \<Rightarrow> bool" where
  "isChannelStateEnabled c \<longleftrightarrow> getFlags c AND SUPLA_CHANNEL_FLAG_CHANNELSTATE \<noteq> 0"

definition setDefaultIcon :: "u8 \<Rightarrow> Channel \<Rightarrow> Channel" where
  "setDefaultIcon iconId c = c\<lparr>defaultIcon := iconId\<rparr>"

definition setSubDeviceId :: "u8 \<Rightarrow> Channel \<Rightarrow> Channel" where
  "setSubDeviceId i c = c\<lparr>subDeviceId := i\<rparr>"

definition setInitialCaption :: "bytes \<Rightarrow> Channel \<Rightarrow> Channel" where
  "setInitialCaption caption c =
     (let c = c\<lparr>initialCaption := None\<rparr>; s = take (SUPLA_CAPTION_MAXSIZE - 1) (c_str caption)
      in if length s > 0 then c\<lparr>initialCaption := Some (s @ [0])\<rparr> else c)"

definition isInitialCaptionSet :: "Channel \<Rightarrow> bool" where
  "isInitialCaptionSet c \<longleftrightarrow> initialCaption c \<noteq> None"

text \<open>A function of the channel is acceptable when it fits the type of the channel; for relays the code tests the bits of the function's
  number in the list of supported functions.\<close>

definition isFunctionValid :: "Channel \<Rightarrow> u32 \<Rightarrow> bool" where
  "isFunctionValid c function =
     (if function = 0 then True
      else case channelType c of
        BINARYSENSOR \<Rightarrow> function \<in>
          {SUPLA_CHANNELFNC_NOLIQUIDSENSOR, SUPLA_CHANNELFNC_OPENINGSENSOR_DOOR, SUPLA_CHANNELFNC_OPENINGSENSOR_WINDOW,
           SUPLA_CHANNELFNC_HOTELCARDSENSOR, SUPLA_CHANNELFNC_ALARMARMAMENTSENSOR, SUPLA_CHANNELFNC_MAILSENSOR,
           SUPLA_CHANNELFNC_OPENINGSENSOR_ROLLERSHUTTER, SUPLA_CHANNELFNC_OPENINGSENSOR_ROOFWINDOW,
           SUPLA_CHANNELFNC_OPENINGSENSOR_GARAGEDOOR, SUPLA_CHANNELFNC_OPENINGSENSOR_GATE, SUPLA_CHANNELFNC_OPENINGSENSOR_GATEWAY,
           SUPLA_CHANNELFNC_CONTAINER_LEVEL_SENSOR, SUPLA_CHANNELFNC_FLOOD_SENSOR, SUPLA_CHANNELFNC_BINARY_SENSOR,
           SUPLA_CHANNELFNC_MOTION_SENSOR}
      | RELAY \<Rightarrow> function \<in>
          {SUPLA_CHANNELFNC_CONTROLLINGTHEGATEWAYLOCK, SUPLA_CHANNELFNC_CONTROLLINGTHEGATE,
           SUPLA_CHANNELFNC_CONTROLLINGTHEGARAGEDOOR, SUPLA_CHANNELFNC_CONTROLLINGTHEDOORLOCK,
           SUPLA_CHANNELFNC_CONTROLLINGTHEROLLERSHUTTER, SUPLA_CHANNELFNC_CONTROLLINGTHEROOFWINDOW, SUPLA_CHANNELFNC_POWERSWITCH,
           SUPLA_CHANNELFNC_LIGHTSWITCH, SUPLA_CHANNELFNC_STAIRCASETIMER, SUPLA_CHANNELFNC_CONTROLLINGTHEFACADEBLIND,
           SUPLA_CHANNELFNC_TERRACE_AWNING, SUPLA_CHANNELFNC_PROJECTOR_SCREEN, SUPLA_CHANNELFNC_CURTAIN,
           SUPLA_CHANNELFNC_VERTICAL_BLIND, SUPLA_CHANNELFNC_ROLLER_GARAGE_DOOR, SUPLA_CHANNELFNC_PUMPSWITCH,
           SUPLA_CHANNELFNC_HEATORCOLDSOURCESWITCH} \<and> getFuncList c AND function \<noteq> 0
      | VALVE_OPENCLOSE \<Rightarrow> function = SUPLA_CHANNELFNC_VALVE_OPENCLOSE
      | VALVE_PERCENTAGE \<Rightarrow> function = SUPLA_CHANNELFNC_VALVE_PERCENTAGE
      | _ \<Rightarrow> True)"

definition isRollerShutterRelayType :: "Channel \<Rightarrow> bool" where
  "isRollerShutterRelayType c \<longleftrightarrow> functionsBitmap c AND
     (SUPLA_BIT_FUNC_CONTROLLINGTHEROLLERSHUTTER OR SUPLA_BIT_FUNC_CONTROLLINGTHEROOFWINDOW OR SUPLA_BIT_FUNC_TERRACE_AWNING OR
      SUPLA_BIT_FUNC_ROLLER_GARAGE_DOOR OR SUPLA_BIT_FUNC_CURTAIN OR SUPLA_BIT_FUNC_PROJECTOR_SCREEN OR SUPLA_BIT_FUNC_VERTICAL_BLIND OR
      SUPLA_BIT_FUNC_CONTROLLINGTHEFACADEBLIND) \<noteq> 0"

section \<open>Connection state and battery\<close>

definition setStateOffline :: "Channel \<Rightarrow> Channel" where
  "setStateOffline c =
     (if state c \<noteq> SUPLA_CHANNEL_OFFLINE_FLAG_OFFLINE then setSendValue (c\<lparr>state := SUPLA_CHANNEL_OFFLINE_FLAG_OFFLINE\<rparr>) else c)"

definition setStateOnline :: "Channel \<Rightarrow> Channel" where
  "setStateOnline c =
     (if state c \<noteq> SUPLA_CHANNEL_OFFLINE_FLAG_ONLINE then setSendValue (c\<lparr>state := SUPLA_CHANNEL_OFFLINE_FLAG_ONLINE\<rparr>) else c)"

definition setStateOnlineAndNotAvailable :: "Channel \<Rightarrow> Channel" where
  "setStateOnlineAndNotAvailable c =
     (if state c \<noteq> SUPLA_CHANNEL_OFFLINE_FLAG_ONLINE_BUT_NOT_AVAILABLE
      then setSendValue (c\<lparr>state := SUPLA_CHANNEL_OFFLINE_FLAG_ONLINE_BUT_NOT_AVAILABLE\<rparr>) else c)"

definition setStateOfflineRemoteWakeupNotSupported :: "Channel \<Rightarrow> Channel" where
  "setStateOfflineRemoteWakeupNotSupported c =
     (if state c \<noteq> SUPLA_CHANNEL_OFFLINE_FLAG_OFFLINE_REMOTE_WAKEUP_NOT_SUPPORTED
      then setSendValue (c\<lparr>state := SUPLA_CHANNEL_OFFLINE_FLAG_OFFLINE_REMOTE_WAKEUP_NOT_SUPPORTED\<rparr>) else c)"

definition setStateFirmwareUpdateOngoing :: "Channel \<Rightarrow> Channel" where
  "setStateFirmwareUpdateOngoing c =
     (if state c \<noteq> SUPLA_CHANNEL_OFFLINE_FLAG_FIRMWARE_UPDATE_ONGOING
      then setSendValue (c\<lparr>state := SUPLA_CHANNEL_OFFLINE_FLAG_FIRMWARE_UPDATE_ONGOING\<rparr>) else c)"

definition isStateOnline :: "Channel \<Rightarrow> bool" where
  "isStateOnline c \<longleftrightarrow> state c = SUPLA_CHANNEL_OFFLINE_FLAG_ONLINE \<or>
     state c = SUPLA_CHANNEL_OFFLINE_FLAG_ONLINE_BUT_NOT_AVAILABLE \<or> state c = SUPLA_CHANNEL_OFFLINE_FLAG_FIRMWARE_UPDATE_ONGOING"

definition isStateOnlineAndNotAvailable :: "Channel \<Rightarrow> bool" where
  "isStateOnlineAndNotAvailable c \<longleftrightarrow> state c = SUPLA_CHANNEL_OFFLINE_FLAG_ONLINE_BUT_NOT_AVAILABLE"

definition isStateOfflineRemoteWakeupNotSupported :: "Channel \<Rightarrow> bool" where
  "isStateOfflineRemoteWakeupNotSupported c \<longleftrightarrow> state c = SUPLA_CHANNEL_OFFLINE_FLAG_OFFLINE_REMOTE_WAKEUP_NOT_SUPPORTED"

definition isStateFirmwareUpdateOngoing :: "Channel \<Rightarrow> bool" where
  "isStateFirmwareUpdateOngoing c \<longleftrightarrow> state c = SUPLA_CHANNEL_OFFLINE_FLAG_FIRMWARE_UPDATE_ONGOING"

definition isBatteryPowered :: "Channel \<Rightarrow> bool" where
  "isBatteryPowered c \<longleftrightarrow> batteryPowered c = 1"

definition isBatteryPoweredFieldEnabled :: "Channel \<Rightarrow> bool" where
  "isBatteryPoweredFieldEnabled c \<longleftrightarrow> batteryPowered c \<noteq> 0"

definition getBatteryLevel :: "Channel \<Rightarrow> u8" where
  "getBatteryLevel c = (if batteryLevel c \<le> 100 then batteryLevel c else 255)"

definition setBatteryPowered :: "bool \<Rightarrow> Channel \<Rightarrow> Channel" where
  "setBatteryPowered b c =
     (let newValue = (if b then 1 else 2)
      in if newValue \<noteq> batteryPowered c then setSendStateInfo (c\<lparr>batteryPowered := newValue\<rparr>) else c)"

definition setBatteryLevel :: "int \<Rightarrow> Channel \<Rightarrow> Channel" where
  "setBatteryLevel level c =
     (if 0 \<le> level \<and> level \<le> 100 then
        if level \<noteq> uint (batteryLevel c) then setSendStateInfo (c\<lparr>batteryLevel := of_int level\<rparr>) else c
      else c)"

definition setBridgeSignalStrength :: "u8 \<Rightarrow> Channel \<Rightarrow> Channel" where
  "setBridgeSignalStrength strength c = c\<lparr>bridgeSignalStrength := strength\<rparr>"

definition isBridgeSignalStrengthAvailable :: "Channel \<Rightarrow> bool" where
  "isBridgeSignalStrengthAvailable c \<longleftrightarrow> bridgeSignalStrength c \<le> 100"

definition onRegistered :: "Channel \<Rightarrow> Channel" where
  "onRegistered c =
     (if channelNumber c < 0 \<or> channelNumber c > 255 then c
      else
        let c = (if isInitialCaptionSet c then setSendInitialCaption c else c);
            c = (if isSleepingEnabled c then
                   let c = setSendValue c in if isChannelStateEnabled c then setSendStateInfo c else c
                 else c)
        in if isChannelStateEnabled c \<and> isStateOnline c \<and> (isBatteryPoweredFieldEnabled c \<or> getBatteryLevel c \<le> 100)
           then setSendStateInfo c else c)"

section \<open>The value\<close>

text \<open>Little-endian members of the value.\<close>

definition get_u16 :: "nat \<Rightarrow> bytes \<Rightarrow> u16" where
  "get_u16 off v = bytes_u16 (seg off 2 v)"

definition put_u16 :: "nat \<Rightarrow> u16 \<Rightarrow> bytes \<Rightarrow> bytes" where
  "put_u16 off w v = overlay off (u16_bytes w) v"

definition setNewValue_raw :: "bytes \<Rightarrow> Channel \<Rightarrow> Channel \<times> bool" where
  "setNewValue_raw newValue c =
     (if ch_value c \<noteq> newValue then (setSendValue (c\<lparr>ch_value := newValue\<rparr>), True) else (c, False))"

text \<open>The overloads for numbers and for the structures of roller shutters and facade blinds differ only in the bytes they store.\<close>

definition changed_value :: "bytes \<Rightarrow> Channel \<Rightarrow> Channel" where
  "changed_value newValue c =
     (let (c, changed) = setNewValue_raw newValue c
      in if changed then run_action ON_SECONDARY_CHANNEL_CHANGE (run_action ON_CHANGE c) else c)"

definition setNewValue_uint64 :: "u64 \<Rightarrow> Channel \<Rightarrow> Channel" where
  "setNewValue_uint64 v c = changed_value (overlay 0 (le_bytes 8 (unat v)) (replicate SUPLA_CHANNELVALUE_SIZE 0)) c"

definition setNewValue_int32 :: "u32 \<Rightarrow> Channel \<Rightarrow> Channel" where
  "setNewValue_int32 v c = changed_value (overlay 0 (le_bytes 4 (unat v)) (replicate SUPLA_CHANNELVALUE_SIZE 0)) c"

definition setNewValue_rollershutter :: "bytes \<Rightarrow> Channel \<Rightarrow> Channel" where
  "setNewValue_rollershutter v c = changed_value (overlay 0 v (replicate SUPLA_CHANNELVALUE_SIZE 0)) c"

definition setNewValue_facadeblind :: "bytes \<Rightarrow> Channel \<Rightarrow> Channel" where
  "setNewValue_facadeblind v c = changed_value (overlay 0 v (replicate SUPLA_CHANNELVALUE_SIZE 0)) c"

definition getValueInt32 :: "Channel \<Rightarrow> u32" where
  "getValueInt32 c = of_nat (le_nat (seg 0 4 (ch_value c)))"

definition getValueInt64 :: "Channel \<Rightarrow> u64" where
  "getValueInt64 c = of_nat (le_nat (seg 0 8 (ch_value c)))"

definition getValueBool :: "Channel \<Rightarrow> bool" where
  "getValueBool c \<longleftrightarrow> ch_value c ! 0 \<noteq> 0"

definition setNewValue_bool :: "bool \<Rightarrow> Channel \<Rightarrow> Channel" where
  "setNewValue_bool newValueState c =
     (let newValue = (ch_value c)[0 := (if newValueState then 1 else 0)];
          (c, changed) = setNewValue_raw newValue c
      in if changed then
           let c = (if getValueBool c then run_action ON_TURN_ON c else run_action ON_TURN_OFF c)
           in run_action ON_SECONDARY_CHANNEL_CHANGE (run_action ON_CHANGE c)
         else c)"

definition getValueRed :: "Channel \<Rightarrow> u8" where "getValueRed c = ch_value c ! 4"
definition getValueGreen :: "Channel \<Rightarrow> u8" where "getValueGreen c = ch_value c ! 3"
definition getValueBlue :: "Channel \<Rightarrow> u8" where "getValueBlue c = ch_value c ! 2"
definition getValueColorBrightness :: "Channel \<Rightarrow> u8" where "getValueColorBrightness c = ch_value c ! 1"
definition getValueBrightness :: "Channel \<Rightarrow> u8" where "getValueBrightness c = ch_value c ! 0"
definition getValueWhiteTemperature :: "Channel \<Rightarrow> u8" where "getValueWhiteTemperature c = ch_value c ! 7"

definition getValueClosingPercentage :: "Channel \<Rightarrow> u8" where
  "getValueClosingPercentage c = (if sint (ch_value c ! 0) \<ge> 0 then ch_value c ! 0 else 0)"

definition getValueIsCalibrating :: "Channel \<Rightarrow> bool" where
  "getValueIsCalibrating c \<longleftrightarrow> sint (ch_value c ! 0) = - 1"

definition getValueTilt :: "Channel \<Rightarrow> u8" where
  "getValueTilt c = (if sint (ch_value c ! 1) \<ge> 0 then ch_value c ! 1 else 0)"

text \<open>Colours and dimmers.  \<open>rgbw_events\<close> lists the events with their conditions, in the order in which the code tests them; \<open>p\<close> is
  the channel before and \<open>c\<close> the channel after the change of the value.\<close>

definition colour_events :: "u8 \<Rightarrow> u8 \<Rightarrow> u8 \<Rightarrow> u8 \<Rightarrow> u16 \<Rightarrow> u16 \<Rightarrow> (bool \<times> u16) list" where
  "colour_events prev now prevColorBright colorBright on off =
     [(prev = 0 \<and> now \<noteq> 0 \<and> prevColorBright \<noteq> 0 \<and> colorBright \<noteq> 0, on),
      (prev \<noteq> 0 \<and> now = 0 \<and> prevColorBright \<noteq> 0 \<and> colorBright \<noteq> 0, off)]"

definition rgbw_events :: "Channel \<Rightarrow> Channel \<Rightarrow> (bool \<times> u16) list" where
  "rgbw_events p c =
     (let dimmerOn = (getValueBrightness p = 0 \<and> getValueBrightness c \<noteq> 0);
          dimmerOff = (getValueBrightness p \<noteq> 0 \<and> getValueBrightness c = 0);
          colorOn = (getValueColorBrightness p = 0 \<and> getValueColorBrightness c \<noteq> 0);
          colorOff = (getValueColorBrightness p \<noteq> 0 \<and> getValueColorBrightness c = 0)
      in [(True, ON_CHANGE), (True, ON_SECONDARY_CHANNEL_CHANGE),
          (dimmerOn, ON_DIMMER_TURN_ON),
          (dimmerOff, ON_DIMMER_TURN_OFF),
          (getValueBrightness p \<noteq> getValueBrightness c, ON_DIMMER_BRIGHTNESS_CHANGE),
          (getValueWhiteTemperature p \<noteq> getValueWhiteTemperature c, ON_WHITE_TEMPERATURE_CHANGE),
          (colorOn, ON_COLOR_TURN_ON),
          (colorOn \<and> getValueRed c \<noteq> 0, ON_RED_TURN_ON),
          (colorOn \<and> getValueGreen c \<noteq> 0, ON_GREEN_TURN_ON),
          (colorOn \<and> getValueBlue c \<noteq> 0, ON_BLUE_TURN_ON),
          (colorOff, ON_COLOR_TURN_OFF),
          (colorOff \<and> getValueRed p \<noteq> 0, ON_RED_TURN_OFF),
          (colorOff \<and> getValueGreen p \<noteq> 0, ON_GREEN_TURN_OFF),
          (colorOff \<and> getValueBlue p \<noteq> 0, ON_BLUE_TURN_OFF),
          (getValueColorBrightness p \<noteq> getValueColorBrightness c, ON_COLOR_BRIGHTNESS_CHANGE)] @
         colour_events (getValueRed p) (getValueRed c) (getValueColorBrightness p) (getValueColorBrightness c) ON_RED_TURN_ON ON_RED_TURN_OFF @
         colour_events (getValueGreen p) (getValueGreen c) (getValueColorBrightness p) (getValueColorBrightness c) ON_GREEN_TURN_ON ON_GREEN_TURN_OFF @
         colour_events (getValueBlue p) (getValueBlue c) (getValueColorBrightness p) (getValueColorBrightness c) ON_BLUE_TURN_ON ON_BLUE_TURN_OFF @
         [(getValueRed p \<noteq> getValueRed c, ON_RED_CHANGE),
          (getValueGreen p \<noteq> getValueGreen c, ON_GREEN_CHANGE),
          (getValueBlue p \<noteq> getValueBlue c, ON_BLUE_CHANGE),
          (dimmerOn \<or> colorOn, ON_TURN_ON),
          (dimmerOff \<or> colorOff, ON_TURN_OFF)])"

fun run_events :: "(bool \<times> u16) list \<Rightarrow> Channel \<Rightarrow> Channel" where
  "run_events [] c = c"
| "run_events ((b, e) # es) c = run_events es (run_if b e c)"

definition setNewValue_rgbw :: "u8 \<Rightarrow> u8 \<Rightarrow> u8 \<Rightarrow> u8 \<Rightarrow> u8 \<Rightarrow> u8 \<Rightarrow> Channel \<Rightarrow> Channel" where
  "setNewValue_rgbw red green blue colorBrightness brightness whiteTemperature c =
     (let (c', changed) = setNewValue_raw [brightness, colorBrightness, blue, green, red, 0, 0, whiteTemperature] c
      in if changed then run_events (rgbw_events c c') c' else c')"

text \<open>The value of an electricity meter is computed from its extended value: the sum of the three energy counters in the unit of
  the short value and one flag per phase with a positive voltage in the last measurement.\<close>

definition em_energy :: "target \<Rightarrow> nat \<Rightarrow> bytes \<Rightarrow> u64" where
  "em_energy t i ev = of_nat (le_nat (seg (offsetof (TElectricityMeter_ExtendedValue_V3 t) [''total_forward_active_energy''] + 8 * i) 8 ev))"

definition em_voltage :: "target \<Rightarrow> nat \<Rightarrow> nat \<Rightarrow> bytes \<Rightarrow> u16" where
  "em_voltage t j i ev =
     get_u16 (offsetof (TElectricityMeter_ExtendedValue_V3 t) [''m''] + sizeof TElectricityMeter_Measurement * j +
       offsetof TElectricityMeter_Measurement [''voltage''] + 2 * i) ev"

text \<open>A measurement count outside the array makes the code read outside the structure; the result is then \<open>None\<close>.\<close>

definition em_value :: "target \<Rightarrow> bytes \<Rightarrow> bytes option" where
  "em_value t emExtValue =
     (let fae_sum = em_energy t 0 emExtValue + em_energy t 1 emExtValue + em_energy t 2 emExtValue;
          energy = u32_bytes (ucast (fae_sum div 1000));
          m_count = sfield (TElectricityMeter_ExtendedValue_V3 t) [''m_count''] emExtValue;
          measured = of_nat (field (TElectricityMeter_ExtendedValue_V3 t) [''measured_values''] emExtValue) :: u32
      in if m_count \<noteq> 0 \<and> measured AND EM_VAR_VOLTAGE \<noteq> 0 then
           if m_count < 0 \<or> m_count > int (EM_MEASUREMENT_COUNT t) then None
           else
             let m = nat m_count - 1;
                 flags = (if em_voltage t m 0 emExtValue > 0 then EM_VALUE_FLAG_PHASE1_ON else 0);
                 flags = (if em_voltage t m 1 emExtValue > 0 then flags OR EM_VALUE_FLAG_PHASE2_ON else flags);
                 flags = (if em_voltage t m 2 emExtValue > 0 then flags OR EM_VALUE_FLAG_PHASE3_ON else flags)
             in Some (flags # energy @ [0, 0, 0])
         else Some (0 # energy @ [0, 0, 0]))"

definition setNewValue_em :: "target \<Rightarrow> bytes \<Rightarrow> Channel \<Rightarrow> Channel option" where
  "setNewValue_em t emExtValue c =
     map_option (\<lambda>rawValue. setSendValue (fst (setNewValue_raw rawValue c))) (em_value t emExtValue)"

section \<open>Containers\<close>

definition container_flags :: "Channel \<Rightarrow> u16" where
  "container_flags c = get_u16 1 (ch_value c)"

definition set_container_flags :: "u16 \<Rightarrow> Channel \<Rightarrow> Channel" where
  "set_container_flags w c = c\<lparr>ch_value := put_u16 1 w (ch_value c)\<rparr>"

definition setContainerFillValue :: "u8 \<Rightarrow> Channel \<Rightarrow> Channel" where
  "setContainerFillValue fillLevel c =
     (let fillLevel = (if sint fillLevel > 100 then -1 else fillLevel);
          fillLevel = (if sint fillLevel < -1 then -1 else fillLevel);
          fillLevel = fillLevel + 1
      in if ch_value c ! 0 = fillLevel then c
         else setSendValue (run_action ON_CHANGE (c\<lparr>ch_value := (ch_value c)[0 := fillLevel]\<rparr>)))"

definition getContainerFillValue :: "Channel \<Rightarrow> u8" where
  "getContainerFillValue c = (let level = ch_value c ! 0 in if level > 0 \<and> level \<le> 101 then level - 1 else -1)"

definition isContainerAlarmActive :: "Channel \<Rightarrow> bool" where
  "isContainerAlarmActive c \<longleftrightarrow> container_flags c AND CONTAINER_FLAG_ALARM_LEVEL \<noteq> 0"

definition isContainerWarningActive :: "Channel \<Rightarrow> bool" where
  "isContainerWarningActive c \<longleftrightarrow> container_flags c AND CONTAINER_FLAG_WARNING_LEVEL \<noteq> 0"

definition isContainerInvalidSensorStateActive :: "Channel \<Rightarrow> bool" where
  "isContainerInvalidSensorStateActive c \<longleftrightarrow> container_flags c AND CONTAINER_FLAG_INVALID_SENSOR_STATE \<noteq> 0"

definition isContainerSoundAlarmOn :: "Channel \<Rightarrow> bool" where
  "isContainerSoundAlarmOn c \<longleftrightarrow> container_flags c AND CONTAINER_FLAG_SOUND_ALARM_ON \<noteq> 0"

definition setContainerAlarm :: "bool \<Rightarrow> Channel \<Rightarrow> Channel" where
  "setContainerAlarm active c =
     (if isContainerAlarmActive c = active then c
      else
        let c = (if active then set_container_flags (container_flags c OR CONTAINER_FLAG_ALARM_LEVEL) c
                 else set_container_flags (container_flags c AND NOT CONTAINER_FLAG_ALARM_LEVEL) c)
        in run_action (if active then ON_CONTAINER_ALARM_ACTIVE else ON_CONTAINER_ALARM_INACTIVE) (setSendValue c))"

definition setContainerWarning :: "bool \<Rightarrow> Channel \<Rightarrow> Channel" where
  "setContainerWarning active c =
     (if isContainerWarningActive c = active then c
      else
        let c = (if active then set_container_flags (container_flags c OR CONTAINER_FLAG_WARNING_LEVEL) c
                 else set_container_flags (container_flags c AND NOT CONTAINER_FLAG_WARNING_LEVEL) c)
        in run_action (if active then ON_CONTAINER_WARNING_ACTIVE else ON_CONTAINER_WARNING_INACTIVE) (setSendValue c))"

definition setContainerInvalidSensorState :: "bool \<Rightarrow> Channel \<Rightarrow> Channel" where
  "setContainerInvalidSensorState invalid c =
     (if isContainerInvalidSensorStateActive c = invalid then c
      else
        let c = (if invalid then set_container_flags (container_flags c OR CONTAINER_FLAG_INVALID_SENSOR_STATE) c
                 else set_container_flags (container_flags c AND NOT CONTAINER_FLAG_INVALID_SENSOR_STATE) c)
        in run_action (if invalid then ON_CONTAINER_INVALID_SENSOR_STATE_ACTIVE else ON_CONTAINER_INVALID_SENSOR_STATE_INACTIVE) (setSendValue c))"

definition setContainerSoundAlarmOn :: "bool \<Rightarrow> Channel \<Rightarrow> Channel" where
  "setContainerSoundAlarmOn soundAlarmOn c =
     (if isContainerSoundAlarmOn c = soundAlarmOn then c
      else
        let c = (if soundAlarmOn then set_container_flags (container_flags c OR CONTAINER_FLAG_SOUND_ALARM_ON) c
                 else set_container_flags (container_flags c AND NOT CONTAINER_FLAG_SOUND_ALARM_ON) c)
        in run_action (if soundAlarmOn then ON_CONTAINER_SOUND_ALARM_ACTIVE else ON_CONTAINER_SOUND_ALARM_INACTIVE) (setSendValue c))"

section \<open>Valves\<close>

definition valve_closed :: "Channel \<Rightarrow> u8" where
  "valve_closed c = ch_value c ! 0"

definition valve_flags :: "Channel \<Rightarrow> u8" where
  "valve_flags c = ch_value c ! 1"

definition set_valve_flags :: "u8 \<Rightarrow> Channel \<Rightarrow> Channel" where
  "set_valve_flags w c = c\<lparr>ch_value := (ch_value c)[1 := w]\<rparr>"

definition setValveOpenState :: "u8 \<Rightarrow> Channel \<Rightarrow> Channel" where
  "setValveOpenState openState c =
     (let openState = (if openState > 100 then 100 else openState);
          newClosed = (if getChannelType c = SUPLA_CHANNELTYPE_VALVE_OPENCLOSE then (if openState > 0 then 0 else 1)
                       else if getChannelType c = SUPLA_CHANNELTYPE_VALVE_PERCENTAGE then 100 - openState
                       else 0)
      in if valve_closed c = newClosed then c
         else
           let runOnOpen = (valve_closed c = 0);
               runOnClose = (valve_closed c \<noteq> 0 \<and> newClosed = 0);
               c = run_action ON_CHANGE (setSendValue (c\<lparr>ch_value := (ch_value c)[0 := newClosed]\<rparr>))
           in run_if runOnClose ON_CLOSE (run_if runOnOpen ON_OPEN c))"

definition getValveOpenState :: "Channel \<Rightarrow> u8" where
  "getValveOpenState c =
     (if getChannelType c = SUPLA_CHANNELTYPE_VALVE_OPENCLOSE then (if valve_closed c = 0 then 100 else 0)
      else if getChannelType c = SUPLA_CHANNELTYPE_VALVE_PERCENTAGE \<and> valve_closed c \<le> 100 then 100 - valve_closed c
      else 0)"

definition isValveOpen :: "Channel \<Rightarrow> bool" where
  "isValveOpen c \<longleftrightarrow> getValveOpenState c > 0"

definition isValveFloodingFlagActive :: "Channel \<Rightarrow> bool" where
  "isValveFloodingFlagActive c \<longleftrightarrow> valve_flags c AND SUPLA_VALVE_FLAG_FLOODING \<noteq> 0"

definition isValveManuallyClosedFlagActive :: "Channel \<Rightarrow> bool" where
  "isValveManuallyClosedFlagActive c \<longleftrightarrow> valve_flags c AND SUPLA_VALVE_FLAG_MANUALLY_CLOSED \<noteq> 0"

definition isValveMotorProblemFlagActive :: "Channel \<Rightarrow> bool" where
  "isValveMotorProblemFlagActive c \<longleftrightarrow> valve_flags c AND SUPLA_VALVE_FLAG_MOTOR_PROBLEM \<noteq> 0"

definition setValveFloodingFlag :: "bool \<Rightarrow> Channel \<Rightarrow> Channel" where
  "setValveFloodingFlag active c =
     (if isValveFloodingFlagActive c = active then c
      else
        let c = (if active then set_valve_flags (valve_flags c OR SUPLA_VALVE_FLAG_FLOODING) c
                 else set_valve_flags (valve_flags c AND NOT SUPLA_VALVE_FLAG_FLOODING) c)
        in run_action (if active then ON_FLOODING_ACTIVE else ON_FLOODING_INACTIVE) (setSendValue c))"

definition setValveManuallyClosedFlag :: "bool \<Rightarrow> Channel \<Rightarrow> Channel" where
  "setValveManuallyClosedFlag active c =
     (if isValveManuallyClosedFlagActive c = active then c
      else
        let c = (if active then set_valve_flags (valve_flags c OR SUPLA_VALVE_FLAG_MANUALLY_CLOSED) c
                 else set_valve_flags (valve_flags c AND NOT SUPLA_VALVE_FLAG_MANUALLY_CLOSED) c)
        in run_action (if active then ON_VALVE_MANUALLY_CLOSED_ACTIVE else ON_VALVE_MANUALLY_CLOSED_INACTIVE) (setSendValue c))"

definition setValveMotorProblemFlag :: "bool \<Rightarrow> Channel \<Rightarrow> Channel" where
  "setValveMotorProblemFlag active c =
     (if isValveMotorProblemFlagActive c = active then c
      else
        let c = (if active then set_valve_flags (valve_flags c OR SUPLA_VALVE_FLAG_MOTOR_PROBLEM) c
                 else set_valve_flags (valve_flags c AND NOT SUPLA_VALVE_FLAG_MOTOR_PROBLEM) c)
        in run_action (if active then ON_MOTOR_PROBLEM_ACTIVE else ON_MOTOR_PROBLEM_INACTIVE) (setSendValue c))"

section \<open>Relays\<close>

definition relay_flags :: "Channel \<Rightarrow> u16" where
  "relay_flags c = get_u16 1 (ch_value c)"

definition setRelayOvercurrentCutOff :: "bool \<Rightarrow> Channel \<Rightarrow> Channel" where
  "setRelayOvercurrentCutOff overcurrent c =
     (if channelType c = RELAY then
        if relay_flags c AND SUPLA_RELAY_FLAG_OVERCURRENT_RELAY_OFF \<noteq> of_bool overcurrent then
          setSendValue (c\<lparr>ch_value := put_u16 1 ((relay_flags c AND NOT SUPLA_RELAY_FLAG_OVERCURRENT_RELAY_OFF) OR
            (if overcurrent then SUPLA_RELAY_FLAG_OVERCURRENT_RELAY_OFF else 0)) (ch_value c)\<rparr>)
        else c
      else c)"

definition isRelayOvercurrentCutOff :: "Channel \<Rightarrow> bool" where
  "isRelayOvercurrentCutOff c \<longleftrightarrow> channelType c = RELAY \<and> relay_flags c AND SUPLA_RELAY_FLAG_OVERCURRENT_RELAY_OFF \<noteq> 0"

section \<open>Heating and cooling\<close>

text \<open>The members of \<open>THVACValue\<close>.\<close>

datatype HvacCoolSubfunctionFlag = HeatSubfunctionOrNotUsed | CoolSubfunction

definition hvac_IsOn :: "bytes \<Rightarrow> u8" where "hvac_IsOn v = v ! 0"
definition hvac_Mode :: "bytes \<Rightarrow> u8" where "hvac_Mode v = v ! 1"
definition hvac_SetpointTemperatureHeat :: "bytes \<Rightarrow> u16" where "hvac_SetpointTemperatureHeat v = get_u16 2 v"
definition hvac_SetpointTemperatureCool :: "bytes \<Rightarrow> u16" where "hvac_SetpointTemperatureCool v = get_u16 4 v"
definition hvac_Flags :: "bytes \<Rightarrow> u16" where "hvac_Flags v = get_u16 6 v"

definition getValueHvac :: "Channel \<Rightarrow> bytes option" where
  "getValueHvac c = (if channelType c = HVAC then Some (ch_value c) else None)"

definition set_hvac_IsOn :: "u8 \<Rightarrow> Channel \<Rightarrow> Channel" where
  "set_hvac_IsOn b c = c\<lparr>ch_value := (ch_value c)[0 := b]\<rparr>"

definition set_hvac_Mode :: "u8 \<Rightarrow> Channel \<Rightarrow> Channel" where
  "set_hvac_Mode b c = c\<lparr>ch_value := (ch_value c)[1 := b]\<rparr>"

definition set_hvac_Heat :: "u16 \<Rightarrow> Channel \<Rightarrow> Channel" where
  "set_hvac_Heat w c = c\<lparr>ch_value := put_u16 2 w (ch_value c)\<rparr>"

definition set_hvac_Cool :: "u16 \<Rightarrow> Channel \<Rightarrow> Channel" where
  "set_hvac_Cool w c = c\<lparr>ch_value := put_u16 4 w (ch_value c)\<rparr>"

definition set_hvac_Flags :: "u16 \<Rightarrow> Channel \<Rightarrow> Channel" where
  "set_hvac_Flags w c = c\<lparr>ch_value := put_u16 6 w (ch_value c)\<rparr>"

subsection \<open>Flags\<close>

definition isHvacFlagSetpointTemperatureCoolSet_in :: "bytes option \<Rightarrow> bool" where
  "isHvacFlagSetpointTemperatureCoolSet_in v = (case v of Some v \<Rightarrow> hvac_Flags v AND SUPLA_HVAC_VALUE_FLAG_SETPOINT_TEMP_COOL_SET \<noteq> 0 | None \<Rightarrow> False)"

definition isHvacFlagSetpointTemperatureCoolSet :: "Channel \<Rightarrow> bool" where
  "isHvacFlagSetpointTemperatureCoolSet c = isHvacFlagSetpointTemperatureCoolSet_in (getValueHvac c)"

definition isHvacFlagSetpointTemperatureHeatSet_in :: "bytes option \<Rightarrow> bool" where
  "isHvacFlagSetpointTemperatureHeatSet_in v = (case v of Some v \<Rightarrow> hvac_Flags v AND SUPLA_HVAC_VALUE_FLAG_SETPOINT_TEMP_HEAT_SET \<noteq> 0 | None \<Rightarrow> False)"

definition isHvacFlagSetpointTemperatureHeatSet :: "Channel \<Rightarrow> bool" where
  "isHvacFlagSetpointTemperatureHeatSet c = isHvacFlagSetpointTemperatureHeatSet_in (getValueHvac c)"

definition isHvacFlagHeating_in :: "bytes option \<Rightarrow> bool" where
  "isHvacFlagHeating_in v = (case v of Some v \<Rightarrow> hvac_Flags v AND SUPLA_HVAC_VALUE_FLAG_HEATING \<noteq> 0 | None \<Rightarrow> False)"

definition isHvacFlagHeating :: "Channel \<Rightarrow> bool" where
  "isHvacFlagHeating c = isHvacFlagHeating_in (getValueHvac c)"

definition isHvacFlagCooling_in :: "bytes option \<Rightarrow> bool" where
  "isHvacFlagCooling_in v = (case v of Some v \<Rightarrow> hvac_Flags v AND SUPLA_HVAC_VALUE_FLAG_COOLING \<noteq> 0 | None \<Rightarrow> False)"

definition isHvacFlagCooling :: "Channel \<Rightarrow> bool" where
  "isHvacFlagCooling c = isHvacFlagCooling_in (getValueHvac c)"

definition isHvacFlagWeeklySchedule_in :: "bytes option \<Rightarrow> bool" where
  "isHvacFlagWeeklySchedule_in v = (case v of Some v \<Rightarrow> hvac_Flags v AND SUPLA_HVAC_VALUE_FLAG_WEEKLY_SCHEDULE \<noteq> 0 | None \<Rightarrow> False)"

definition isHvacFlagWeeklySchedule :: "Channel \<Rightarrow> bool" where
  "isHvacFlagWeeklySchedule c = isHvacFlagWeeklySchedule_in (getValueHvac c)"

definition isHvacFlagFanEnabled_in :: "bytes option \<Rightarrow> bool" where
  "isHvacFlagFanEnabled_in v = (case v of Some v \<Rightarrow> hvac_Flags v AND SUPLA_HVAC_VALUE_FLAG_FAN_ENABLED \<noteq> 0 | None \<Rightarrow> False)"

definition isHvacFlagFanEnabled :: "Channel \<Rightarrow> bool" where
  "isHvacFlagFanEnabled c = isHvacFlagFanEnabled_in (getValueHvac c)"

definition isHvacFlagThermometerError_in :: "bytes option \<Rightarrow> bool" where
  "isHvacFlagThermometerError_in v = (case v of Some v \<Rightarrow> hvac_Flags v AND SUPLA_HVAC_VALUE_FLAG_THERMOMETER_ERROR \<noteq> 0 | None \<Rightarrow> False)"

definition isHvacFlagThermometerError :: "Channel \<Rightarrow> bool" where
  "isHvacFlagThermometerError c = isHvacFlagThermometerError_in (getValueHvac c)"

definition isHvacFlagClockError_in :: "bytes option \<Rightarrow> bool" where
  "isHvacFlagClockError_in v = (case v of Some v \<Rightarrow> hvac_Flags v AND SUPLA_HVAC_VALUE_FLAG_CLOCK_ERROR \<noteq> 0 | None \<Rightarrow> False)"

definition isHvacFlagClockError :: "Channel \<Rightarrow> bool" where
  "isHvacFlagClockError c = isHvacFlagClockError_in (getValueHvac c)"

definition isHvacFlagCountdownTimer_in :: "bytes option \<Rightarrow> bool" where
  "isHvacFlagCountdownTimer_in v = (case v of Some v \<Rightarrow> hvac_Flags v AND SUPLA_HVAC_VALUE_FLAG_COUNTDOWN_TIMER \<noteq> 0 | None \<Rightarrow> False)"

definition isHvacFlagCountdownTimer :: "Channel \<Rightarrow> bool" where
  "isHvacFlagCountdownTimer c = isHvacFlagCountdownTimer_in (getValueHvac c)"

definition isHvacFlagForcedOffBySensor_in :: "bytes option \<Rightarrow> bool" where
  "isHvacFlagForcedOffBySensor_in v = (case v of Some v \<Rightarrow> hvac_Flags v AND SUPLA_HVAC_VALUE_FLAG_FORCED_OFF_BY_SENSOR \<noteq> 0 | None \<Rightarrow> False)"

definition isHvacFlagForcedOffBySensor :: "Channel \<Rightarrow> bool" where
  "isHvacFlagForcedOffBySensor c = isHvacFlagForcedOffBySensor_in (getValueHvac c)"

definition isHvacFlagWeeklyScheduleTemporalOverride_in :: "bytes option \<Rightarrow> bool" where
  "isHvacFlagWeeklyScheduleTemporalOverride_in v = (case v of Some v \<Rightarrow> hvac_Flags v AND SUPLA_HVAC_VALUE_FLAG_WEEKLY_SCHEDULE_TEMPORAL_OVERRIDE \<noteq> 0 | None \<Rightarrow> False)"

definition isHvacFlagWeeklyScheduleTemporalOverride :: "Channel \<Rightarrow> bool" where
  "isHvacFlagWeeklyScheduleTemporalOverride c = isHvacFlagWeeklyScheduleTemporalOverride_in (getValueHvac c)"

definition isHvacFlagBatteryCoverOpen_in :: "bytes option \<Rightarrow> bool" where
  "isHvacFlagBatteryCoverOpen_in v = (case v of Some v \<Rightarrow> hvac_Flags v AND SUPLA_HVAC_VALUE_FLAG_BATTERY_COVER_OPEN \<noteq> 0 | None \<Rightarrow> False)"

definition isHvacFlagBatteryCoverOpen :: "Channel \<Rightarrow> bool" where
  "isHvacFlagBatteryCoverOpen c = isHvacFlagBatteryCoverOpen_in (getValueHvac c)"

definition isHvacFlagCalibrationError_in :: "bytes option \<Rightarrow> bool" where
  "isHvacFlagCalibrationError_in v = (case v of Some v \<Rightarrow> hvac_Flags v AND SUPLA_HVAC_VALUE_FLAG_CALIBRATION_ERROR \<noteq> 0 | None \<Rightarrow> False)"

definition isHvacFlagCalibrationError :: "Channel \<Rightarrow> bool" where
  "isHvacFlagCalibrationError c = isHvacFlagCalibrationError_in (getValueHvac c)"

definition isHvacFlagAntifreezeOverheatActive_in :: "bytes option \<Rightarrow> bool" where
  "isHvacFlagAntifreezeOverheatActive_in v = (case v of Some v \<Rightarrow> hvac_Flags v AND SUPLA_HVAC_VALUE_FLAG_ANTIFREEZE_OVERHEAT_ACTIVE \<noteq> 0 | None \<Rightarrow> False)"

definition isHvacFlagAntifreezeOverheatActive :: "Channel \<Rightarrow> bool" where
  "isHvacFlagAntifreezeOverheatActive c = isHvacFlagAntifreezeOverheatActive_in (getValueHvac c)"

definition getHvacFlagCoolSubfunction_in :: "bytes option \<Rightarrow> HvacCoolSubfunctionFlag" where
  "getHvacFlagCoolSubfunction_in v =
     (case v of
        Some v \<Rightarrow> if hvac_Flags v AND SUPLA_HVAC_VALUE_FLAG_COOL \<noteq> 0 then CoolSubfunction else HeatSubfunctionOrNotUsed
      | None \<Rightarrow> HeatSubfunctionOrNotUsed)"

definition getHvacFlagCoolSubfunction :: "Channel \<Rightarrow> HvacCoolSubfunctionFlag" where
  "getHvacFlagCoolSubfunction c = getHvacFlagCoolSubfunction_in (getValueHvac c)"

definition setHvacFlags :: "u16 \<Rightarrow> Channel \<Rightarrow> Channel" where
  "setHvacFlags flags c =
     (case getValueHvac c of
        Some v \<Rightarrow> if hvac_Flags v \<noteq> flags then set_hvac_Flags flags (setSendValue c) else c
      | None \<Rightarrow> c)"

definition setHvacFlagSetpointTemperatureCoolSet :: "bool \<Rightarrow> Channel \<Rightarrow> Channel" where
  "setHvacFlagSetpointTemperatureCoolSet b c =
     (case getValueHvac c of
        Some v \<Rightarrow>
          if b \<noteq> isHvacFlagSetpointTemperatureCoolSet c then
            let c = setSendValue c;
                flags = hvac_Flags v;
                flags = (if b then flags OR SUPLA_HVAC_VALUE_FLAG_SETPOINT_TEMP_COOL_SET else flags AND NOT SUPLA_HVAC_VALUE_FLAG_SETPOINT_TEMP_COOL_SET)
            in setHvacFlags flags c
          else c
      | None \<Rightarrow> c)"

definition setHvacFlagSetpointTemperatureHeatSet :: "bool \<Rightarrow> Channel \<Rightarrow> Channel" where
  "setHvacFlagSetpointTemperatureHeatSet b c =
     (case getValueHvac c of
        Some v \<Rightarrow>
          if b \<noteq> isHvacFlagSetpointTemperatureHeatSet c then
            let c = setSendValue c;
                flags = hvac_Flags v;
                flags = (if b then flags OR SUPLA_HVAC_VALUE_FLAG_SETPOINT_TEMP_HEAT_SET else flags AND NOT SUPLA_HVAC_VALUE_FLAG_SETPOINT_TEMP_HEAT_SET)
            in setHvacFlags flags c
          else c
      | None \<Rightarrow> c)"

definition setHvacFlagHeating :: "bool \<Rightarrow> Channel \<Rightarrow> Channel" where
  "setHvacFlagHeating b c =
     (case getValueHvac c of
        Some v \<Rightarrow>
          if b \<noteq> isHvacFlagHeating c then
            let c = setSendValue c;
                flags = hvac_Flags v;
                flags = (if b then flags OR SUPLA_HVAC_VALUE_FLAG_HEATING else flags AND NOT SUPLA_HVAC_VALUE_FLAG_HEATING)
            in setHvacFlags flags c
          else c
      | None \<Rightarrow> c)"

definition setHvacFlagCooling :: "bool \<Rightarrow> Channel \<Rightarrow> Channel" where
  "setHvacFlagCooling b c =
     (case getValueHvac c of
        Some v \<Rightarrow>
          if b \<noteq> isHvacFlagCooling c then
            let c = setSendValue c;
                flags = hvac_Flags v;
                flags = (if b then flags OR SUPLA_HVAC_VALUE_FLAG_COOLING else flags AND NOT SUPLA_HVAC_VALUE_FLAG_COOLING)
            in setHvacFlags flags c
          else c
      | None \<Rightarrow> c)"

definition setHvacFlagWeeklySchedule :: "bool \<Rightarrow> Channel \<Rightarrow> Channel" where
  "setHvacFlagWeeklySchedule b c =
     (case getValueHvac c of
        Some v \<Rightarrow>
          if b \<noteq> isHvacFlagWeeklySchedule c then
            let c = setSendValue c;
                flags = hvac_Flags v;
                flags = (if b then flags OR SUPLA_HVAC_VALUE_FLAG_WEEKLY_SCHEDULE else flags AND NOT SUPLA_HVAC_VALUE_FLAG_WEEKLY_SCHEDULE)
            in let c = setHvacFlags flags c
               in if b then run_action ON_HVAC_WEEKLY_SCHEDULE_ENABLED c else run_action ON_HVAC_WEEKLY_SCHEDULE_DISABLED c
          else c
      | None \<Rightarrow> c)"

definition setHvacFlagFanEnabled :: "bool \<Rightarrow> Channel \<Rightarrow> Channel" where
  "setHvacFlagFanEnabled b c =
     (case getValueHvac c of
        Some v \<Rightarrow>
          if b \<noteq> isHvacFlagFanEnabled c then
            let c = setSendValue c;
                flags = hvac_Flags v;
                flags = (if b then flags OR SUPLA_HVAC_VALUE_FLAG_FAN_ENABLED else flags AND NOT SUPLA_HVAC_VALUE_FLAG_FAN_ENABLED)
            in setHvacFlags flags c
          else c
      | None \<Rightarrow> c)"

definition setHvacFlagThermometerError :: "bool \<Rightarrow> Channel \<Rightarrow> Channel" where
  "setHvacFlagThermometerError b c =
     (case getValueHvac c of
        Some v \<Rightarrow>
          if b \<noteq> isHvacFlagThermometerError c then
            let c = setSendValue c;
                flags = hvac_Flags v;
                flags = (if b then flags OR SUPLA_HVAC_VALUE_FLAG_THERMOMETER_ERROR else flags AND NOT SUPLA_HVAC_VALUE_FLAG_THERMOMETER_ERROR)
            in setHvacFlags flags c
          else c
      | None \<Rightarrow> c)"

definition setHvacFlagClockError :: "bool \<Rightarrow> Channel \<Rightarrow> Channel" where
  "setHvacFlagClockError b c =
     (case getValueHvac c of
        Some v \<Rightarrow>
          if b \<noteq> isHvacFlagClockError c then
            let c = setSendValue c;
                flags = hvac_Flags v;
                flags = (if b then flags OR SUPLA_HVAC_VALUE_FLAG_CLOCK_ERROR else flags AND NOT SUPLA_HVAC_VALUE_FLAG_CLOCK_ERROR)
            in setHvacFlags flags c
          else c
      | None \<Rightarrow> c)"

definition setHvacFlagCountdownTimer :: "bool \<Rightarrow> Channel \<Rightarrow> Channel" where
  "setHvacFlagCountdownTimer b c =
     (case getValueHvac c of
        Some v \<Rightarrow>
          if b \<noteq> isHvacFlagCountdownTimer c then
            let c = setSendValue c;
                flags = hvac_Flags v;
                flags = (if b then flags OR SUPLA_HVAC_VALUE_FLAG_COUNTDOWN_TIMER else flags AND NOT SUPLA_HVAC_VALUE_FLAG_COUNTDOWN_TIMER)
            in setHvacFlags flags c
          else c
      | None \<Rightarrow> c)"

definition setHvacFlagForcedOffBySensor :: "bool \<Rightarrow> Channel \<Rightarrow> Channel" where
  "setHvacFlagForcedOffBySensor b c =
     (case getValueHvac c of
        Some v \<Rightarrow>
          if b \<noteq> isHvacFlagForcedOffBySensor c then
            let c = setSendValue c;
                flags = hvac_Flags v;
                flags = (if b then flags OR SUPLA_HVAC_VALUE_FLAG_FORCED_OFF_BY_SENSOR else flags AND NOT SUPLA_HVAC_VALUE_FLAG_FORCED_OFF_BY_SENSOR)
            in setHvacFlags flags c
          else c
      | None \<Rightarrow> c)"

definition setHvacFlagWeeklyScheduleTemporalOverride :: "bool \<Rightarrow> Channel \<Rightarrow> Channel" where
  "setHvacFlagWeeklyScheduleTemporalOverride b c =
     (case getValueHvac c of
        Some v \<Rightarrow>
          if b \<noteq> isHvacFlagWeeklyScheduleTemporalOverride c then
            let c = setSendValue c;
                flags = hvac_Flags v;
                flags = (if b then flags OR SUPLA_HVAC_VALUE_FLAG_WEEKLY_SCHEDULE_TEMPORAL_OVERRIDE else flags AND NOT SUPLA_HVAC_VALUE_FLAG_WEEKLY_SCHEDULE_TEMPORAL_OVERRIDE)
            in setHvacFlags flags c
          else c
      | None \<Rightarrow> c)"

definition setHvacFlagBatteryCoverOpen :: "bool \<Rightarrow> Channel \<Rightarrow> Channel" where
  "setHvacFlagBatteryCoverOpen b c =
     (case getValueHvac c of
        Some v \<Rightarrow>
          if b \<noteq> isHvacFlagBatteryCoverOpen c then
            let c = setSendValue c;
                flags = hvac_Flags v;
                flags = (if b then flags OR SUPLA_HVAC_VALUE_FLAG_BATTERY_COVER_OPEN else flags AND NOT SUPLA_HVAC_VALUE_FLAG_BATTERY_COVER_OPEN)
            in setHvacFlags flags c
          else c
      | None \<Rightarrow> c)"

definition setHvacFlagCalibrationError :: "bool \<Rightarrow> Channel \<Rightarrow> Channel" where
  "setHvacFlagCalibrationError b c =
     (case getValueHvac c of
        Some v \<Rightarrow>
          if b \<noteq> isHvacFlagCalibrationError c then
            let c = setSendValue c;
                flags = hvac_Flags v;
                flags = (if b then flags OR SUPLA_HVAC_VALUE_FLAG_CALIBRATION_ERROR else flags AND NOT SUPLA_HVAC_VALUE_FLAG_CALIBRATION_ERROR)
            in setHvacFlags flags c
          else c
      | None \<Rightarrow> c)"

definition setHvacFlagAntifreezeOverheatActive :: "bool \<Rightarrow> Channel \<Rightarrow> Channel" where
  "setHvacFlagAntifreezeOverheatActive b c =
     (case getValueHvac c of
        Some v \<Rightarrow>
          if b \<noteq> isHvacFlagAntifreezeOverheatActive c then
            let c = setSendValue c;
                flags = hvac_Flags v;
                flags = (if b then flags OR SUPLA_HVAC_VALUE_FLAG_ANTIFREEZE_OVERHEAT_ACTIVE else flags AND NOT SUPLA_HVAC_VALUE_FLAG_ANTIFREEZE_OVERHEAT_ACTIVE)
            in setHvacFlags flags c
          else c
      | None \<Rightarrow> c)"

definition setHvacFlagCoolSubfunction :: "HvacCoolSubfunctionFlag \<Rightarrow> Channel \<Rightarrow> Channel" where
  "setHvacFlagCoolSubfunction flag c =
     (case getValueHvac c of
        Some v \<Rightarrow>
          if flag \<noteq> getHvacFlagCoolSubfunction c then
            let c = setSendValue c;
                flags = hvac_Flags v;
                flags = (if flag = CoolSubfunction then flags OR SUPLA_HVAC_VALUE_FLAG_COOL else flags AND NOT SUPLA_HVAC_VALUE_FLAG_COOL)
            in setHvacFlags flags c
          else c
      | None \<Rightarrow> c)"

subsection \<open>Mode, output and set points\<close>

definition setHvacIsOn :: "bool \<Rightarrow> Channel \<Rightarrow> Channel" where
  "setHvacIsOn isOn c =
     (case getValueHvac c of
        Some v \<Rightarrow>
          if (hvac_IsOn v = 1) \<noteq> isOn then
            let c = (if hvac_IsOn v = 0 \<and> isOn then run_action ON_TURN_ON c
                     else if hvac_IsOn v \<noteq> 0 \<and> \<not> isOn then run_action ON_TURN_OFF c else c);
                c = run_action ON_CHANGE c
            in setSendValue (set_hvac_IsOn (if isOn then 1 else 0) c)
          else c
      | None \<Rightarrow> c)"

definition setHvacIsOnPercent :: "u8 \<Rightarrow> Channel \<Rightarrow> Channel" where
  "setHvacIsOnPercent percent c =
     (let percent = (if percent > 100 then 100 else percent) + 2
      in case getValueHvac c of
           Some v \<Rightarrow>
             if hvac_IsOn v \<noteq> percent then
               let c = (if hvac_IsOn v = 2 \<and> percent \<noteq> 2 then run_action ON_TURN_ON c
                        else if hvac_IsOn v \<noteq> 2 \<and> percent = 2 then run_action ON_TURN_OFF c else c);
                   c = run_action ON_CHANGE c
               in setSendValue (set_hvac_IsOn percent c)
             else c
         | None \<Rightarrow> c)"

definition setHvacMode :: "u8 \<Rightarrow> Channel \<Rightarrow> Channel" where
  "setHvacMode mode c =
     (case getValueHvac c of
        Some v \<Rightarrow>
          if hvac_Mode v \<noteq> mode \<and> mode \<le> SUPLA_HVAC_MODE_DRY then
            let c = set_hvac_Mode mode (setSendValue c)
            in if mode = SUPLA_HVAC_MODE_OFF then run_action ON_HVAC_MODE_OFF c
               else if mode = SUPLA_HVAC_MODE_HEAT then run_action ON_HVAC_MODE_HEAT c
               else if mode = SUPLA_HVAC_MODE_COOL then run_action ON_HVAC_MODE_COOL c
               else if mode = SUPLA_HVAC_MODE_HEAT_COOL then run_action ON_HVAC_MODE_HEAT_COOL c
               else c
          else c
      | None \<Rightarrow> c)"

definition setHvacSetpointTemperatureCool :: "u16 \<Rightarrow> Channel \<Rightarrow> Channel" where
  "setHvacSetpointTemperatureCool temperature c =
     (case getValueHvac c of
        Some v \<Rightarrow>
          if hvac_SetpointTemperatureCool v \<noteq> temperature \<or> \<not> isHvacFlagSetpointTemperatureCoolSet c then
            setHvacFlagSetpointTemperatureCoolSet True (set_hvac_Cool temperature (setSendValue c))
          else c
      | None \<Rightarrow> c)"

definition setHvacSetpointTemperatureHeat :: "u16 \<Rightarrow> Channel \<Rightarrow> Channel" where
  "setHvacSetpointTemperatureHeat temperature c =
     (case getValueHvac c of
        Some v \<Rightarrow>
          if hvac_SetpointTemperatureHeat v \<noteq> temperature \<or> \<not> isHvacFlagSetpointTemperatureHeatSet c then
            setHvacFlagSetpointTemperatureHeatSet True (set_hvac_Heat temperature (setSendValue c))
          else c
      | None \<Rightarrow> c)"

definition clearHvacSetpointTemperatureCool :: "Channel \<Rightarrow> Channel" where
  "clearHvacSetpointTemperatureCool c =
     (case getValueHvac c of
        Some v \<Rightarrow>
          if hvac_SetpointTemperatureCool v \<noteq> 0 \<or> isHvacFlagSetpointTemperatureCoolSet c then
            setHvacFlagSetpointTemperatureCoolSet False (set_hvac_Cool 0 (setSendValue c))
          else c
      | None \<Rightarrow> c)"

definition clearHvacSetpointTemperatureHeat :: "Channel \<Rightarrow> Channel" where
  "clearHvacSetpointTemperatureHeat c =
     (case getValueHvac c of
        Some v \<Rightarrow>
          if hvac_SetpointTemperatureHeat v \<noteq> 0 \<or> isHvacFlagSetpointTemperatureHeatSet c then
            setHvacFlagSetpointTemperatureHeatSet False (set_hvac_Heat 0 (setSendValue c))
          else c
      | None \<Rightarrow> c)"

text \<open>The static overloads work on any \<open>THVACValue\<close>.\<close>

definition setHvacSetpointTemperatureHeat_in :: "u16 \<Rightarrow> bytes \<Rightarrow> bytes" where
  "setHvacSetpointTemperatureHeat_in temperature v =
     (if hvac_SetpointTemperatureHeat v \<noteq> temperature \<or> \<not> isHvacFlagSetpointTemperatureHeatSet_in (Some v) then
        let v = put_u16 2 temperature v in put_u16 6 (hvac_Flags v OR SUPLA_HVAC_VALUE_FLAG_SETPOINT_TEMP_HEAT_SET) v
      else v)"

definition setHvacSetpointTemperatureCool_in :: "u16 \<Rightarrow> bytes \<Rightarrow> bytes" where
  "setHvacSetpointTemperatureCool_in temperature v =
     (if hvac_SetpointTemperatureCool v \<noteq> temperature \<or> \<not> isHvacFlagSetpointTemperatureCoolSet_in (Some v) then
        let v = put_u16 4 temperature v in put_u16 6 (hvac_Flags v OR SUPLA_HVAC_VALUE_FLAG_SETPOINT_TEMP_COOL_SET) v
      else v)"

definition clearHvacState :: "Channel \<Rightarrow> Channel" where
  "clearHvacState c =
     (let c = clearHvacSetpointTemperatureCool c;
          c = clearHvacSetpointTemperatureHeat c;
          c = setHvacMode SUPLA_HVAC_MODE_OFF c;
          c = setHvacFlagWeeklySchedule False c;
          c = setHvacFlagHeating False c;
          c = setHvacFlagCooling False c;
          c = setHvacIsOn False c;
          c = setHvacFlagFanEnabled False c;
          c = setHvacFlagThermometerError False c;
          c = setHvacFlagClockError False c
      in setHvacFlagCountdownTimer False c)"

definition getHvacIsOnRaw :: "Channel \<Rightarrow> u8" where
  "getHvacIsOnRaw c = (case getValueHvac c of Some v \<Rightarrow> hvac_IsOn v | None \<Rightarrow> 0)"

definition getHvacIsOnBool :: "Channel \<Rightarrow> bool" where
  "getHvacIsOnBool c = (case getValueHvac c of Some v \<Rightarrow> hvac_IsOn v = 1 \<or> hvac_IsOn v > 2 | None \<Rightarrow> False)"

definition getHvacIsOnPercent :: "Channel \<Rightarrow> u8" where
  "getHvacIsOnPercent c =
     (case getValueHvac c of Some v \<Rightarrow> if hvac_IsOn v > 2 \<and> hvac_IsOn v \<le> 102 then hvac_IsOn v - 2 else 0 | None \<Rightarrow> 0)"

definition getHvacMode :: "Channel \<Rightarrow> u8" where
  "getHvacMode c = hvac_Mode (ch_value c)"

definition getHvacModeCstr :: "Channel \<Rightarrow> int \<Rightarrow> string" where
  "getHvacModeCstr c mode =
     (let mode = (if mode = -1 then uint (getHvacMode c) else mode)
      in if mode = uint SUPLA_HVAC_MODE_NOT_SET then ''NOT SET''
         else if mode = uint SUPLA_HVAC_MODE_OFF then ''OFF''
         else if mode = uint SUPLA_HVAC_MODE_HEAT then ''HEAT''
         else if mode = uint SUPLA_HVAC_MODE_COOL then ''COOL''
         else if mode = uint SUPLA_HVAC_MODE_HEAT_COOL then ''HEAT_COOL''
         else if mode = uint SUPLA_HVAC_MODE_FAN_ONLY then ''FAN ONLY''
         else if mode = uint SUPLA_HVAC_MODE_DRY then ''DRY''
         else if mode = uint SUPLA_HVAC_MODE_CMD_TURN_ON then ''CMD TURN ON''
         else if mode = uint SUPLA_HVAC_MODE_CMD_WEEKLY_SCHEDULE then ''CMD WEEKLY SCHEDULE''
         else if mode = uint SUPLA_HVAC_MODE_CMD_SWITCH_TO_MANUAL then ''CMD SWITCH TO MANUAL''
         else ''UNKNOWN'')"

definition getHvacSetpointTemperatureCool :: "Channel \<Rightarrow> u16" where
  "getHvacSetpointTemperatureCool c = (case getValueHvac c of Some v \<Rightarrow> hvac_SetpointTemperatureCool v | None \<Rightarrow> 0x8000)"

definition getHvacSetpointTemperatureHeat :: "Channel \<Rightarrow> u16" where
  "getHvacSetpointTemperatureHeat c = (case getValueHvac c of Some v \<Rightarrow> hvac_SetpointTemperatureHeat v | None \<Rightarrow> 0x8000)"

definition getHvacFlags :: "Channel \<Rightarrow> u16" where
  "getHvacFlags c = (case getValueHvac c of Some v \<Rightarrow> hvac_Flags v | None \<Rightarrow> 0)"

definition isHvacValueValid :: "bytes option \<Rightarrow> bool" where
  "isHvacValueValid hv =
     (case hv of
        None \<Rightarrow> False
      | Some v \<Rightarrow>
          if hvac_IsOn v > 102 then False
          else if hvac_Mode v > SUPLA_HVAC_MODE_CMD_SWITCH_TO_MANUAL then False
          else if hvac_Flags v > 0x1FFF then False
          else if hvac_Flags v AND SUPLA_HVAC_VALUE_FLAG_COOLING \<noteq> 0 \<and> hvac_Flags v AND SUPLA_HVAC_VALUE_FLAG_HEATING \<noteq> 0 then False
          else True)"

section \<open>Reporting to the protocols\<close>

text \<open>Calls of a protocol layer, each with the layer it goes to.\<close>

datatype 'p proto_call =
    sendChannelValueChanged 'p int bytes u8 u32
  | sendExtendedChannelValueChanged 'p int bytes
  | setInitialCaption_call 'p u8 bytes
  | getChannelConfig_call 'p int
  | sendChannelStateResult 'p u8

text \<open>\<open>extValue\<close> is what the virtual method \<open>getExtValue\<close> returns, a null pointer for channels without an extended value.\<close>

definition sendUpdate :: "'p list \<Rightarrow> bytes option \<Rightarrow> Channel \<Rightarrow> Channel \<times> 'p proto_call list" where
  "sendUpdate protos extValue c =
     (let n = channelNumber c;
          (c, out) =
            (if isValueUpdateReady c then
               let c = clearSendValue c
               in (c, map (\<lambda>p. sendChannelValueChanged p n (ch_value c) (state c) (validityTimeSec c)) protos @
                      (case extValue of Some ev \<Rightarrow> map (\<lambda>p. sendExtendedChannelValueChanged p n ev) protos | None \<Rightarrow> []))
             else (c, []));
          (c, out) =
            (if isInitialCaptionUpdateReady c then
               let c = clearSendInitialCaption c
               in (c, out @ (case initialCaption c of Some s \<Rightarrow> map (\<lambda>p. setInitialCaption_call p (of_int n) s) protos | None \<Rightarrow> []))
             else (c, out));
          (c, out) =
            (if isGetConfigRequested c then (clearSendGetConfig c, out @ map (\<lambda>p. getChannelConfig_call p n) protos) else (c, out))
      in if isStateInfoUpdateReady c then (clearSendStateInfo c, out @ map (\<lambda>p. sendChannelStateResult p (of_int n)) protos)
         else (c, out))"

text \<open>The description of the channel in the registration message, in the order of the members of the packed structure.\<close>

definition channel_struct :: "Channel \<Rightarrow> bytes" where
  "channel_struct c =
     [of_int (channelNumber c)] @ u32_bytes (getChannelType c) @ u32_bytes (getFuncList c) @ u32_bytes (getDefaultFunction c) @
     le_bytes 8 (unat (getFlags c)) @ [state c] @ u32_bytes (validityTimeSec c) @ ch_value c @ [defaultIcon c]"

definition fillDeviceChannelStruct_D :: "Channel \<Rightarrow> Channel \<times> bytes" where
  "fillDeviceChannelStruct_D c = (clearSendValue c, channel_struct c)"

definition fillDeviceChannelStruct_E :: "Channel \<Rightarrow> Channel \<times> bytes" where
  "fillDeviceChannelStruct_E c = (clearSendValue c, channel_struct c @ [subDeviceId c])"

definition fillRawValue :: "Channel \<Rightarrow> bytes" where
  "fillRawValue c = ch_value c"

section \<open>Basic facts\<close>

text \<open>The bits of \<open>changedFields\<close> are independent.\<close>

lemma send_bits [simp]:
  "isValueUpdateReady (setSendValue c)" "\<not> isValueUpdateReady (clearSendValue c)"
  "isValueUpdateReady (setSendGetConfig c) = isValueUpdateReady c" "isValueUpdateReady (clearSendGetConfig c) = isValueUpdateReady c"
  "isValueUpdateReady (setSendInitialCaption c) = isValueUpdateReady c"
  "isValueUpdateReady (clearSendInitialCaption c) = isValueUpdateReady c"
  "isValueUpdateReady (setSendStateInfo c) = isValueUpdateReady c" "isValueUpdateReady (clearSendStateInfo c) = isValueUpdateReady c"
  "isStateInfoUpdateReady (setSendStateInfo c)" "\<not> isStateInfoUpdateReady (clearSendStateInfo c)"
  "isStateInfoUpdateReady (setSendValue c) = isStateInfoUpdateReady c" "isStateInfoUpdateReady (clearSendValue c) = isStateInfoUpdateReady c"
  "isStateInfoUpdateReady (setSendGetConfig c) = isStateInfoUpdateReady c"
  "isStateInfoUpdateReady (clearSendGetConfig c) = isStateInfoUpdateReady c"
  "isStateInfoUpdateReady (setSendInitialCaption c) = isStateInfoUpdateReady c"
  "isStateInfoUpdateReady (clearSendInitialCaption c) = isStateInfoUpdateReady c"
  by (auto simp: isValueUpdateReady_def setSendValue_def clearSendValue_def setSendGetConfig_def clearSendGetConfig_def
      setSendInitialCaption_def clearSendInitialCaption_def setSendStateInfo_def clearSendStateInfo_def isStateInfoUpdateReady_def)

end
