(* ===== verification/Channel_Laws.thy ===== *)
theory Channel_Laws
  imports Channel
begin

text \<open>
  Laws of the class \<open>Channel\<close>: no operation changes the value or the state of a channel without a report to the
  server (by a transition system of operations and reports), the flags of a thermostat are independent of each other, and values and
  events of the particular kinds of channels.
\<close>

section \<open>No change goes unreported\<close>

text \<open>The operations of the class that change a channel, other than sending, for values of the right size.\<close>

definition channel_ops :: "(Channel \<Rightarrow> Channel) set" where
  "channel_ops =
     {setStateOffline, setStateOnline, setStateOnlineAndNotAvailable, setStateOfflineRemoteWakeupNotSupported,
      setStateFirmwareUpdateOngoing, clearHvacSetpointTemperatureCool, clearHvacSetpointTemperatureHeat, clearHvacState,
      onRegistered, setSendGetConfig} \<union>
     {setNewValue_rollershutter v | v. length v = 8} \<union> {setNewValue_facadeblind v | v. length v = 8} \<union>
     {\<lambda>c. fst (setNewValue_raw v c) | v. length v = 8} \<union> {setNewValue_rgbw r g b cb br wt | r g b cb br wt. True} \<union>
     {\<lambda>c. case setNewValue_em t ev c of Some c' \<Rightarrow> c' | None \<Rightarrow> c | t ev. True} \<union>
     range setHvacFlagSetpointTemperatureCoolSet \<union> range setHvacFlagSetpointTemperatureHeatSet \<union>
     range setHvacFlagHeating \<union> range setHvacFlagCooling \<union> range setHvacFlagWeeklySchedule \<union>
     range setHvacFlagFanEnabled \<union> range setHvacFlagThermometerError \<union> range setHvacFlagClockError \<union>
     range setHvacFlagCountdownTimer \<union> range setHvacFlagForcedOffBySensor \<union>
     range setHvacFlagWeeklyScheduleTemporalOverride \<union> range setHvacFlagBatteryCoverOpen \<union>
     range setHvacFlagCalibrationError \<union> range setHvacFlagAntifreezeOverheatActive \<union>
     range setNewValue_uint64 \<union> range setNewValue_int32 \<union> range setNewValue_bool \<union>
     range setContainerFillValue \<union> range setContainerAlarm \<union> range setContainerWarning \<union>
     range setContainerInvalidSensorState \<union> range setContainerSoundAlarmOn \<union> range setValveOpenState \<union>
     range setValveFloodingFlag \<union> range setValveManuallyClosedFlag \<union> range setValveMotorProblemFlag \<union>
     range setRelayOvercurrentCutOff \<union> range setHvacFlags \<union> range setHvacFlagCoolSubfunction \<union>
     range setHvacIsOn \<union> range setHvacIsOnPercent \<union> range setHvacMode \<union>
     range setHvacSetpointTemperatureCool \<union> range setHvacSetpointTemperatureHeat \<union>
     range setBatteryPowered \<union> range setBatteryLevel \<union> range setBridgeSignalStrength \<union>
     range setDefault \<union> range setDefaultFunction \<union> range setFlag \<union> range unsetFlag \<union>
     range setFuncList \<union> range addToFuncList \<union> range removeFromFuncList \<union>
     range setActionTriggerCaps \<union> range setValidityTimeSec \<union> range setDefaultIcon \<union>
     range setSubDeviceId \<union> range setInitialCaption"

text \<open>An operation reports what it changes: it keeps the size of the value, and afterwards an update is pending unless none was pending
  before and value and state are the same.\<close>

definition reports :: "(Channel \<Rightarrow> Channel) \<Rightarrow> bool" where
  "reports f \<longleftrightarrow> (\<forall>c. length (ch_value c) = 8 \<longrightarrow> length (ch_value (f c)) = 8 \<and>
     (isValueUpdateReady (f c) \<or> (\<not> isValueUpdateReady c \<and> ch_value (f c) = ch_value c \<and> state (f c) = state c)))"

lemma reportsI:
  assumes "\<And>c. length (ch_value c) = 8 \<Longrightarrow> length (ch_value (f c)) = 8"
    and "\<And>c. length (ch_value c) = 8 \<Longrightarrow> isValueUpdateReady (f c) \<or> (\<not> isValueUpdateReady c \<and> ch_value (f c) = ch_value c \<and> state (f c) = state c)"
  shows "reports f"
  using assms by (auto simp: reports_def)

lemma reports_length: "reports f \<Longrightarrow> length (ch_value c) = 8 \<Longrightarrow> length (ch_value (f c)) = 8"
  by (simp add: reports_def)

lemma reports_comp [intro]: "reports f \<Longrightarrow> reports g \<Longrightarrow> reports (\<lambda>c. g (f c))"
  unfolding reports_def by metis

lemma reports_if [intro]: "reports f \<Longrightarrow> reports g \<Longrightarrow> reports (\<lambda>c. if P c then f c else g c)"
  by (simp add: reports_def)

lemma reports_id [intro]: "reports (\<lambda>c. c)"
  unfolding reports_def by auto

text \<open>Members that do not matter for the report.\<close>

definition keeps_report :: "(Channel \<Rightarrow> Channel) \<Rightarrow> bool" where
  "keeps_report f \<longleftrightarrow> (\<forall>c. ch_value (f c) = ch_value c \<and> state (f c) = state c \<and> isValueUpdateReady (f c) = isValueUpdateReady c)"

lemma keeps_reports: "keeps_report f \<Longrightarrow> reports f"
  by (auto simp: keeps_report_def reports_def)

lemma ready_upd [simp]:
  "isValueUpdateReady (c\<lparr>ch_value := v\<rparr>) = isValueUpdateReady c" "isValueUpdateReady (c\<lparr>state := s\<rparr>) = isValueUpdateReady c"
  "isValueUpdateReady (c\<lparr>raised := l\<rparr>) = isValueUpdateReady c" "isValueUpdateReady (c\<lparr>batteryPowered := b\<rparr>) = isValueUpdateReady c"
  "isValueUpdateReady (c\<lparr>batteryLevel := b\<rparr>) = isValueUpdateReady c" "isValueUpdateReady (c\<lparr>bridgeSignalStrength := b\<rparr>) = isValueUpdateReady c"
  "isValueUpdateReady (c\<lparr>defaultFunction := f\<rparr>) = isValueUpdateReady c" "isValueUpdateReady (c\<lparr>channelFlags := w\<rparr>) = isValueUpdateReady c"
  "isValueUpdateReady (c\<lparr>functionsBitmap := u\<rparr>) = isValueUpdateReady c" "isValueUpdateReady (c\<lparr>validityTimeSec := u\<rparr>) = isValueUpdateReady c"
  "isValueUpdateReady (c\<lparr>defaultIcon := b\<rparr>) = isValueUpdateReady c" "isValueUpdateReady (c\<lparr>subDeviceId := b\<rparr>) = isValueUpdateReady c"
  "isValueUpdateReady (c\<lparr>initialCaption := cap\<rparr>) = isValueUpdateReady c"
  by (simp_all add: isValueUpdateReady_def)

lemma send_keeps [simp]:
  "ch_value (setSendValue c) = ch_value c" "state (setSendValue c) = state c" "channelType (setSendValue c) = channelType c"
  "ch_value (setSendStateInfo c) = ch_value c" "state (setSendStateInfo c) = state c"
  "ch_value (setSendInitialCaption c) = ch_value c" "state (setSendInitialCaption c) = state c"
  "ch_value (setSendGetConfig c) = ch_value c" "state (setSendGetConfig c) = state c"
  "ch_value (clearSendValue c) = ch_value c" "state (clearSendValue c) = state c"
  "ch_value (clearSendInitialCaption c) = ch_value c" "state (clearSendInitialCaption c) = state c"
  "ch_value (clearSendGetConfig c) = ch_value c" "state (clearSendGetConfig c) = state c"
  "ch_value (clearSendStateInfo c) = ch_value c" "state (clearSendStateInfo c) = state c"
  by (simp_all add: setSendValue_def setSendStateInfo_def setSendInitialCaption_def setSendGetConfig_def clearSendValue_def
      clearSendInitialCaption_def clearSendGetConfig_def clearSendStateInfo_def)

lemma run_keeps [simp]:
  "ch_value (run_action e c) = ch_value c" "state (run_action e c) = state c" "channelType (run_action e c) = channelType c"
  "isValueUpdateReady (run_action e c) = isValueUpdateReady c"
  "ch_value (run_if b e c) = ch_value c" "state (run_if b e c) = state c" "channelType (run_if b e c) = channelType c"
  "isValueUpdateReady (run_if b e c) = isValueUpdateReady c"
  by (simp_all add: run_action_def run_if_def)

lemma length_put_u16 [simp]: "off + 2 \<le> length v \<Longrightarrow> length (put_u16 off w v) = length v"
  by (simp add: put_u16_def length_overlay)

lemma events_keep [simp]:
  "ch_value (run_events es c) = ch_value c" "state (run_events es c) = state c"
  "isValueUpdateReady (run_events es c) = isValueUpdateReady c"
  by (induction es c rule: run_events.induct) auto

lemma raw_reports: "length v = 8 \<Longrightarrow> reports (\<lambda>c. fst (setNewValue_raw v c))"
  by (rule reportsI) (auto simp: setNewValue_raw_def)

lemma changed_reports: "length v = 8 \<Longrightarrow> reports (changed_value v)"
  by (rule reportsI) (auto simp: changed_value_def setNewValue_raw_def Let_def split: prod.splits)

lemma number_reports: "reports (setNewValue_uint64 w)" "reports (setNewValue_int32 i)"
  "length v = 8 \<Longrightarrow> reports (setNewValue_rollershutter v)" "length v = 8 \<Longrightarrow> reports (setNewValue_facadeblind v)"
  unfolding setNewValue_uint64_def [abs_def] setNewValue_int32_def [abs_def] setNewValue_rollershutter_def [abs_def]
    setNewValue_facadeblind_def [abs_def]
  by (intro changed_reports; simp add: overlay_def SUPLA_CHANNELVALUE_SIZE_def)+

lemma bool_reports: "reports (setNewValue_bool b)"
  by (rule reportsI) (auto simp: setNewValue_bool_def setNewValue_raw_def Let_def split: prod.splits)

lemma rgbw_reports: "reports (setNewValue_rgbw r g b cb br wt)"
  by (rule reportsI) (auto simp: setNewValue_rgbw_def setNewValue_raw_def)

lemma em_value_length: "em_value t ev = Some v \<Longrightarrow> length v = 8"
  unfolding em_value_def Let_def by (auto split: if_splits)

lemma em_reports: "reports (\<lambda>c. case setNewValue_em t ev c of Some c' \<Rightarrow> c' | None \<Rightarrow> c)"
  by (rule reportsI) (auto simp: setNewValue_em_def setNewValue_raw_def dest: em_value_length split: option.splits)

lemma state_reports: "reports setStateOffline" "reports setStateOnline" "reports setStateOnlineAndNotAvailable"
  "reports setStateOfflineRemoteWakeupNotSupported" "reports setStateFirmwareUpdateOngoing"
  by (rule reportsI; auto simp: setStateOffline_def setStateOnline_def setStateOnlineAndNotAvailable_def
      setStateOfflineRemoteWakeupNotSupported_def setStateFirmwareUpdateOngoing_def)+

lemma container_reports: "reports (setContainerFillValue l)" "reports (setContainerAlarm b)" "reports (setContainerWarning b)"
  "reports (setContainerInvalidSensorState b)" "reports (setContainerSoundAlarmOn b)"
  by (rule reportsI; auto simp: setContainerFillValue_def setContainerAlarm_def setContainerWarning_def
      setContainerInvalidSensorState_def setContainerSoundAlarmOn_def set_container_flags_def Let_def)+

lemma valve_reports: "reports (setValveOpenState l)" "reports (setValveFloodingFlag b)" "reports (setValveManuallyClosedFlag b)"
  "reports (setValveMotorProblemFlag b)" "reports (setRelayOvercurrentCutOff b)"
  by (rule reportsI; auto simp: setValveOpenState_def setValveFloodingFlag_def setValveManuallyClosedFlag_def
      setValveMotorProblemFlag_def set_valve_flags_def setRelayOvercurrentCutOff_def Let_def)+

lemma description_reports: "reports (setBatteryPowered b)" "reports (setBatteryLevel i)" "reports (setBridgeSignalStrength s)"
  "reports (setDefault f)" "reports (setDefaultFunction f)" "reports (setFlag w)" "reports (unsetFlag w)" "reports (setFuncList u)"
  "reports (addToFuncList u)" "reports (removeFromFuncList u)" "reports (setActionTriggerCaps u)" "reports (setValidityTimeSec u)"
  "reports (setDefaultIcon s)" "reports (setSubDeviceId s)" "reports (setInitialCaption cap)" "reports setSendGetConfig"
  by (rule keeps_reports; simp add: keeps_report_def setBatteryPowered_def setBatteryLevel_def setBridgeSignalStrength_def setDefault_def
      setDefaultFunction_def setFlag_def unsetFlag_def setFuncList_def addToFuncList_def removeFromFuncList_def setActionTriggerCaps_def
      setValidityTimeSec_def setDefaultIcon_def setSubDeviceId_def setInitialCaption_def Let_def)+

lemma registered_reports: "reports onRegistered"
  by (rule reportsI) (auto simp: onRegistered_def Let_def)

section \<open>Flags of heating and cooling\<close>

lemma get_put_u16 [simp]: "off + 2 \<le> length v \<Longrightarrow> get_u16 off (put_u16 off w v) = w"
  using seg_overlay_same [of off v "u16_bytes w"] by (simp add: get_u16_def put_u16_def)

lemma get_put_u16_other [simp]:
  "off + 2 \<le> length v \<Longrightarrow> p + 2 \<le> off \<or> off + 2 \<le> p \<Longrightarrow> get_u16 p (put_u16 off w v) = get_u16 p v"
  by (auto simp: get_u16_def put_u16_def seg_overlay_before seg_overlay_after)

lemma get_u16_upd [simp]: "p < off \<Longrightarrow> get_u16 off (v[p := b]) = get_u16 off v"
  by (simp add: get_u16_def seg_def)

lemma nth_put_u16 [simp]: "off + 2 \<le> length v \<Longrightarrow> p < off \<Longrightarrow> put_u16 off w v ! p = v ! p"
  by (simp add: put_u16_def overlay_def nth_append)

text \<open>All flag setters have one shape.\<close>

definition hvac_flag_to :: "u16 \<Rightarrow> bool \<Rightarrow> Channel \<Rightarrow> Channel" where
  "hvac_flag_to m b c =
     (if channelType c = HVAC \<and> b \<noteq> (hvac_Flags (ch_value c) AND m \<noteq> 0) then
        set_hvac_Flags (if b then hvac_Flags (ch_value c) OR m else hvac_Flags (ch_value c) AND NOT m) (setSendValue c)
      else c)"

lemma send_twice [simp]: "setSendValue (setSendValue c) = setSendValue c"
  by (simp add: setSendValue_def)

lemma hvac_flag_shape:
  assumes "one_bit m k" "\<And>c. get c = (case getValueHvac c of Some v \<Rightarrow> hvac_Flags v AND m \<noteq> 0 | None \<Rightarrow> False)"
  shows "(case getValueHvac c of Some v \<Rightarrow>
      if b \<noteq> get c then
        let c = setSendValue c; flags = hvac_Flags v; flags = (if b then flags OR m else flags AND NOT m) in setHvacFlags flags c
      else c | None \<Rightarrow> c) = hvac_flag_to m b c"
  using one_bit.set_changes [OF assms(1), of "hvac_Flags (ch_value c)"] one_bit.clear_changes [OF assms(1), of "hvac_Flags (ch_value c)"]
  by (auto simp: assms(2) getValueHvac_def hvac_flag_to_def setHvacFlags_def one_bit.test [OF assms(1)] Let_def split: option.splits)

lemma hvac_setters:
  "setHvacFlagSetpointTemperatureCoolSet b c = hvac_flag_to SUPLA_HVAC_VALUE_FLAG_SETPOINT_TEMP_COOL_SET b c"
  "setHvacFlagSetpointTemperatureHeatSet b c = hvac_flag_to SUPLA_HVAC_VALUE_FLAG_SETPOINT_TEMP_HEAT_SET b c"
  "setHvacFlagHeating b c = hvac_flag_to SUPLA_HVAC_VALUE_FLAG_HEATING b c"
  "setHvacFlagCooling b c = hvac_flag_to SUPLA_HVAC_VALUE_FLAG_COOLING b c"
  "setHvacFlagFanEnabled b c = hvac_flag_to SUPLA_HVAC_VALUE_FLAG_FAN_ENABLED b c"
  "setHvacFlagThermometerError b c = hvac_flag_to SUPLA_HVAC_VALUE_FLAG_THERMOMETER_ERROR b c"
  "setHvacFlagClockError b c = hvac_flag_to SUPLA_HVAC_VALUE_FLAG_CLOCK_ERROR b c"
  "setHvacFlagCountdownTimer b c = hvac_flag_to SUPLA_HVAC_VALUE_FLAG_COUNTDOWN_TIMER b c"
  "setHvacFlagForcedOffBySensor b c = hvac_flag_to SUPLA_HVAC_VALUE_FLAG_FORCED_OFF_BY_SENSOR b c"
  "setHvacFlagWeeklyScheduleTemporalOverride b c = hvac_flag_to SUPLA_HVAC_VALUE_FLAG_WEEKLY_SCHEDULE_TEMPORAL_OVERRIDE b c"
  "setHvacFlagBatteryCoverOpen b c = hvac_flag_to SUPLA_HVAC_VALUE_FLAG_BATTERY_COVER_OPEN b c"
  "setHvacFlagCalibrationError b c = hvac_flag_to SUPLA_HVAC_VALUE_FLAG_CALIBRATION_ERROR b c"
  "setHvacFlagAntifreezeOverheatActive b c = hvac_flag_to SUPLA_HVAC_VALUE_FLAG_ANTIFREEZE_OVERHEAT_ACTIVE b c"
  unfolding setHvacFlagSetpointTemperatureCoolSet_def
    setHvacFlagSetpointTemperatureHeatSet_def
    setHvacFlagHeating_def
    setHvacFlagCooling_def
    setHvacFlagFanEnabled_def
    setHvacFlagThermometerError_def
    setHvacFlagClockError_def
    setHvacFlagCountdownTimer_def
    setHvacFlagForcedOffBySensor_def
    setHvacFlagWeeklyScheduleTemporalOverride_def
    setHvacFlagBatteryCoverOpen_def
    setHvacFlagCalibrationError_def
    setHvacFlagAntifreezeOverheatActive_def
  by (rule hvac_flag_shape, unfold_locales, simp add: isHvacFlagSetpointTemperatureCoolSet_def isHvacFlagSetpointTemperatureCoolSet_in_def
      isHvacFlagSetpointTemperatureHeatSet_def isHvacFlagSetpointTemperatureHeatSet_in_def
      isHvacFlagHeating_def isHvacFlagHeating_in_def
      isHvacFlagCooling_def isHvacFlagCooling_in_def
      isHvacFlagFanEnabled_def isHvacFlagFanEnabled_in_def
      isHvacFlagThermometerError_def isHvacFlagThermometerError_in_def
      isHvacFlagClockError_def isHvacFlagClockError_in_def
      isHvacFlagCountdownTimer_def isHvacFlagCountdownTimer_in_def
      isHvacFlagForcedOffBySensor_def isHvacFlagForcedOffBySensor_in_def
      isHvacFlagWeeklyScheduleTemporalOverride_def isHvacFlagWeeklyScheduleTemporalOverride_in_def
      isHvacFlagBatteryCoverOpen_def isHvacFlagBatteryCoverOpen_in_def
      isHvacFlagCalibrationError_def isHvacFlagCalibrationError_in_def
      isHvacFlagAntifreezeOverheatActive_def isHvacFlagAntifreezeOverheatActive_in_def)+

lemma weekly_setter:
  "setHvacFlagWeeklySchedule b c =
     run_if (channelType c = HVAC \<and> b \<noteq> isHvacFlagWeeklySchedule c)
       (if b then ON_HVAC_WEEKLY_SCHEDULE_ENABLED else ON_HVAC_WEEKLY_SCHEDULE_DISABLED)
       (hvac_flag_to SUPLA_HVAC_VALUE_FLAG_WEEKLY_SCHEDULE b c)"
  using fl_hvac_weekly_schedule.set_changes [of "hvac_Flags (ch_value c)"]
    fl_hvac_weekly_schedule.clear_changes [of "hvac_Flags (ch_value c)"]
  by (auto simp: setHvacFlagWeeklySchedule_def isHvacFlagWeeklySchedule_def isHvacFlagWeeklySchedule_in_def hvac_flag_to_def getValueHvac_def
      setHvacFlags_def run_if_def Let_def split: option.splits)

lemma cool_setter:
  "setHvacFlagCoolSubfunction f c = hvac_flag_to SUPLA_HVAC_VALUE_FLAG_COOL (f = CoolSubfunction) c"
  using fl_hvac_cool.set_changes [of "hvac_Flags (ch_value c)"] fl_hvac_cool.clear_changes [of "hvac_Flags (ch_value c)"]
  by (cases f) (auto simp: setHvacFlagCoolSubfunction_def getHvacFlagCoolSubfunction_def getHvacFlagCoolSubfunction_in_def hvac_flag_to_def
      getValueHvac_def setHvacFlags_def Let_def split: option.splits)

text \<open>Setter, getter and bit of every flag.\<close>

definition hvac_flag_api :: "((bool \<Rightarrow> Channel \<Rightarrow> Channel) \<times> (Channel \<Rightarrow> bool) \<times> nat) list" where
  "hvac_flag_api =
    [(setHvacFlagSetpointTemperatureCoolSet, isHvacFlagSetpointTemperatureCoolSet, 1),
     (setHvacFlagSetpointTemperatureHeatSet, isHvacFlagSetpointTemperatureHeatSet, 0),
     (setHvacFlagHeating, isHvacFlagHeating, 2),
     (setHvacFlagCooling, isHvacFlagCooling, 3),
     (setHvacFlagWeeklySchedule, isHvacFlagWeeklySchedule, 4),
     (setHvacFlagFanEnabled, isHvacFlagFanEnabled, 6),
     (setHvacFlagThermometerError, isHvacFlagThermometerError, 7),
     (setHvacFlagClockError, isHvacFlagClockError, 8),
     (setHvacFlagCountdownTimer, isHvacFlagCountdownTimer, 5),
     (setHvacFlagForcedOffBySensor, isHvacFlagForcedOffBySensor, 9),
     (setHvacFlagWeeklyScheduleTemporalOverride, isHvacFlagWeeklyScheduleTemporalOverride, 11),
     (setHvacFlagBatteryCoverOpen, isHvacFlagBatteryCoverOpen, 12),
     (setHvacFlagCalibrationError, isHvacFlagCalibrationError, 13),
     (setHvacFlagAntifreezeOverheatActive, isHvacFlagAntifreezeOverheatActive, 14),
     (\<lambda>b. setHvacFlagCoolSubfunction (if b then CoolSubfunction else HeatSubfunctionOrNotUsed),
      \<lambda>c. getHvacFlagCoolSubfunction c = CoolSubfunction, 10)]"

text \<open>The parts of a heating value that are not flags.\<close>

definition hvac_rest :: "Channel \<Rightarrow> ChannelType \<times> bytes \<times> nat" where
  "hvac_rest c = (channelType c, take 6 (ch_value c), length (ch_value c))"

definition flag_entry :: "(bool \<Rightarrow> Channel \<Rightarrow> Channel) \<Rightarrow> (Channel \<Rightarrow> bool) \<Rightarrow> nat \<Rightarrow> bool" where
  "flag_entry st is k \<longleftrightarrow>
     (\<forall>c. is c \<longleftrightarrow> channelType c = HVAC \<and> bit (hvac_Flags (ch_value c)) k) \<and>
     (\<forall>b c. channelType c = HVAC \<longrightarrow> length (ch_value c) = 8 \<longrightarrow>
        (\<forall>n. bit (hvac_Flags (ch_value (st b c))) n = (if n = k then b else bit (hvac_Flags (ch_value c)) n)) \<and>
        hvac_rest (st b c) = hvac_rest c \<and> (isValueUpdateReady (st b c) \<longleftrightarrow> isValueUpdateReady c \<or> b \<noteq> is c))"

lemma take_put_u16 [simp]: "off \<le> length v \<Longrightarrow> take off (put_u16 off w v) = take off v"
  by (simp add: put_u16_def)

lemma hvac_flag_to_entry:
  assumes "one_bit m k" "\<And>c. is c \<longleftrightarrow> channelType c = HVAC \<and> bit (hvac_Flags (ch_value c)) k"
  shows "flag_entry (\<lambda>b c. run_if (P b c) (e b) (hvac_flag_to m b c)) is k"
  using one_bit.set_bit_iff [OF assms(1)] one_bit.clear_bit_iff [OF assms(1)]
  by (auto simp: flag_entry_def assms(2) hvac_flag_to_def set_hvac_Flags_def hvac_rest_def hvac_Flags_def one_bit.test [OF assms(1)])

lemma hvac_flag_to_entry':
  assumes "\<And>b c. st b c = hvac_flag_to m b c" "one_bit m k" "\<And>c. is c \<longleftrightarrow> channelType c = HVAC \<and> bit (hvac_Flags (ch_value c)) k"
  shows "flag_entry st is k"
proof -
  have "st = (\<lambda>b c. run_if False 0 (hvac_flag_to m b c))" using assms(1) by (simp add: fun_eq_iff run_if_def)
  with hvac_flag_to_entry [OF assms(2,3), of "\<lambda>_ _. False" "\<lambda>_. 0"] show ?thesis by simp
qed

lemma hvac_getters:
  "isHvacFlagSetpointTemperatureCoolSet c \<longleftrightarrow> channelType c = HVAC \<and> bit (hvac_Flags (ch_value c)) 1"
  "isHvacFlagSetpointTemperatureHeatSet c \<longleftrightarrow> channelType c = HVAC \<and> bit (hvac_Flags (ch_value c)) 0"
  "isHvacFlagHeating c \<longleftrightarrow> channelType c = HVAC \<and> bit (hvac_Flags (ch_value c)) 2"
  "isHvacFlagCooling c \<longleftrightarrow> channelType c = HVAC \<and> bit (hvac_Flags (ch_value c)) 3"
  "isHvacFlagWeeklySchedule c \<longleftrightarrow> channelType c = HVAC \<and> bit (hvac_Flags (ch_value c)) 4"
  "isHvacFlagFanEnabled c \<longleftrightarrow> channelType c = HVAC \<and> bit (hvac_Flags (ch_value c)) 6"
  "isHvacFlagThermometerError c \<longleftrightarrow> channelType c = HVAC \<and> bit (hvac_Flags (ch_value c)) 7"
  "isHvacFlagClockError c \<longleftrightarrow> channelType c = HVAC \<and> bit (hvac_Flags (ch_value c)) 8"
  "isHvacFlagCountdownTimer c \<longleftrightarrow> channelType c = HVAC \<and> bit (hvac_Flags (ch_value c)) 5"
  "isHvacFlagForcedOffBySensor c \<longleftrightarrow> channelType c = HVAC \<and> bit (hvac_Flags (ch_value c)) 9"
  "isHvacFlagWeeklyScheduleTemporalOverride c \<longleftrightarrow> channelType c = HVAC \<and> bit (hvac_Flags (ch_value c)) 11"
  "isHvacFlagBatteryCoverOpen c \<longleftrightarrow> channelType c = HVAC \<and> bit (hvac_Flags (ch_value c)) 12"
  "isHvacFlagCalibrationError c \<longleftrightarrow> channelType c = HVAC \<and> bit (hvac_Flags (ch_value c)) 13"
  "isHvacFlagAntifreezeOverheatActive c \<longleftrightarrow> channelType c = HVAC \<and> bit (hvac_Flags (ch_value c)) 14"
  "getHvacFlagCoolSubfunction c = CoolSubfunction \<longleftrightarrow> channelType c = HVAC \<and> bit (hvac_Flags (ch_value c)) 10"
  by (auto simp: getValueHvac_def getHvacFlagCoolSubfunction_def getHvacFlagCoolSubfunction_in_def isHvacFlagSetpointTemperatureCoolSet_def isHvacFlagSetpointTemperatureCoolSet_in_def
      isHvacFlagSetpointTemperatureHeatSet_def isHvacFlagSetpointTemperatureHeatSet_in_def
      isHvacFlagHeating_def isHvacFlagHeating_in_def
      isHvacFlagCooling_def isHvacFlagCooling_in_def
      isHvacFlagWeeklySchedule_def isHvacFlagWeeklySchedule_in_def
      isHvacFlagFanEnabled_def isHvacFlagFanEnabled_in_def
      isHvacFlagThermometerError_def isHvacFlagThermometerError_in_def
      isHvacFlagClockError_def isHvacFlagClockError_in_def
      isHvacFlagCountdownTimer_def isHvacFlagCountdownTimer_in_def
      isHvacFlagForcedOffBySensor_def isHvacFlagForcedOffBySensor_in_def
      isHvacFlagWeeklyScheduleTemporalOverride_def isHvacFlagWeeklyScheduleTemporalOverride_in_def
      isHvacFlagBatteryCoverOpen_def isHvacFlagBatteryCoverOpen_in_def
      isHvacFlagCalibrationError_def isHvacFlagCalibrationError_in_def
      isHvacFlagAntifreezeOverheatActive_def isHvacFlagAntifreezeOverheatActive_in_def split: option.splits)

lemma weekly_entry: "flag_entry setHvacFlagWeeklySchedule isHvacFlagWeeklySchedule 4"
  unfolding weekly_setter [abs_def]
  by (rule hvac_flag_to_entry [where P = "\<lambda>b c. channelType c = HVAC \<and> b \<noteq> isHvacFlagWeeklySchedule c"]) (unfold_locales, rule hvac_getters)

lemma cool_entry: "flag_entry (\<lambda>b. setHvacFlagCoolSubfunction (if b then CoolSubfunction else HeatSubfunctionOrNotUsed))
    (\<lambda>c. getHvacFlagCoolSubfunction c = CoolSubfunction) 10"
  by (rule hvac_flag_to_entry' [of _ SUPLA_HVAC_VALUE_FLAG_COOL], simp add: cool_setter, unfold_locales, rule hvac_getters)

lemma hvac_entries: "list_all (\<lambda>(st, is, k). flag_entry st is k) hvac_flag_api"
  unfolding hvac_flag_api_def list.pred_inject(2) case_prod_conv
  by (intro conjI; (rule weekly_entry cool_entry list.pred_inject(1) | rule hvac_flag_to_entry', rule hvac_setters, unfold_locales, rule hvac_getters))

text \<open>The flags of a heating channel are independent.  For each of the fifteen flags: setting it makes the getter return the new
  value, no getter of another flag changes, output, mode and set points stay, and an update is pending
  exactly if one was pending or the flag changed.\<close>

theorem hvac_flags_independent:
  assumes "channelType c = HVAC" "length (ch_value c) = SUPLA_CHANNELVALUE_SIZE"
    and "(st, is, k) \<in> set hvac_flag_api" "(st', is', k') \<in> set hvac_flag_api"
  shows "is' (st b c) = (if k' = k then b else is' c) \<and> hvac_rest (st b c) = hvac_rest c \<and>
    (isValueUpdateReady (st b c) \<longleftrightarrow> isValueUpdateReady c \<or> b \<noteq> is c) \<and> distinct (map (\<lambda>(st, is, k). k) hvac_flag_api)"
proof -
  have e: "flag_entry st is k" "flag_entry st' is' k'"
    using hvac_entries assms(3,4) by (auto simp: list_all_iff)
  have h: "hvac_rest (st b c) = hvac_rest c" "isValueUpdateReady (st b c) \<longleftrightarrow> isValueUpdateReady c \<or> b \<noteq> is c"
    "bit (hvac_Flags (ch_value (st b c))) k' = (if k' = k then b else bit (hvac_Flags (ch_value c)) k')"
    using e(1) assms(1,2) by (simp_all add: flag_entry_def SUPLA_CHANNELVALUE_SIZE_def)
  moreover have "channelType (st b c) = HVAC" using h(1) assms(1) by (simp add: hvac_rest_def)
  moreover have "is' c' \<longleftrightarrow> channelType c' = HVAC \<and> bit (hvac_Flags (ch_value c')) k'" for c'
    using e(2) by (simp add: flag_entry_def)
  moreover have "distinct (map (\<lambda>(st, is, k). k) hvac_flag_api)" by (simp add: hvac_flag_api_def)
  ultimately show ?thesis using assms(1) by simp
qed

definition demo_hvac :: Channel where
  "demo_hvac = setHvacMode SUPLA_HVAC_MODE_HEAT (setType SUPLA_CHANNELTYPE_HVAC Channel_init)"

lemma demo_hvac_ok: "channelType demo_hvac = HVAC" "length (ch_value demo_hvac) = SUPLA_CHANNELVALUE_SIZE"
  by (simp_all add: demo_hvac_def setHvacMode_def getValueHvac_def setType_def Channel_init_def protoTypeToChannelType_def chan_consts
      set_hvac_Mode_def setSendValue_def run_action_def hvac_Mode_def SUPLA_CHANNELVALUE_SIZE_def)

theorem hvac_flags_independent_witness:
  "isHvacFlagCooling (setHvacFlagHeating True demo_hvac) = (if 3 = (2 :: nat) then True else isHvacFlagCooling demo_hvac) \<and>
   hvac_rest (setHvacFlagHeating True demo_hvac) = hvac_rest demo_hvac \<and>
   (isValueUpdateReady (setHvacFlagHeating True demo_hvac) \<longleftrightarrow> isValueUpdateReady demo_hvac \<or> True \<noteq> isHvacFlagHeating demo_hvac) \<and>
   distinct (map (\<lambda>(st, is, k). k) hvac_flag_api)"
  by (rule hvac_flags_independent [OF demo_hvac_ok]) (simp_all add: hvac_flag_api_def)

section \<open>Every operation reports its changes\<close>

lemma flag_to_reports: "reports (hvac_flag_to m b)"
  by (rule reportsI) (auto simp: hvac_flag_to_def set_hvac_Flags_def)

lemma run_if_reports: "reports f \<Longrightarrow> reports (\<lambda>c. run_if (P c) e (f c))"
  by (simp add: reports_def)

lemmas reports_ext = arg_cong [of _ _ reports, THEN iffD2, OF ext]

lemma hvac_flag_reports: "reports (setHvacFlagSetpointTemperatureCoolSet b)" "reports (setHvacFlagSetpointTemperatureHeatSet b)"
  "reports (setHvacFlagHeating b)" "reports (setHvacFlagCooling b)" "reports (setHvacFlagFanEnabled b)"
  "reports (setHvacFlagThermometerError b)" "reports (setHvacFlagClockError b)" "reports (setHvacFlagCountdownTimer b)"
  "reports (setHvacFlagForcedOffBySensor b)" "reports (setHvacFlagWeeklyScheduleTemporalOverride b)"
  "reports (setHvacFlagBatteryCoverOpen b)" "reports (setHvacFlagCalibrationError b)" "reports (setHvacFlagAntifreezeOverheatActive b)"
  "reports (setHvacFlagCoolSubfunction f)" "reports (setHvacFlagWeeklySchedule b)"
  by (rule reports_ext, rule hvac_setters, rule flag_to_reports)+
     (rule reports_ext, rule cool_setter, rule flag_to_reports,
      rule reports_ext, rule weekly_setter, intro run_if_reports flag_to_reports)

lemma hvac_value_reports: "reports (setHvacFlags w)" "reports (setHvacIsOn b)" "reports (setHvacIsOnPercent p)" "reports (setHvacMode p)"
  by (rule reportsI; auto simp: setHvacFlags_def getValueHvac_def set_hvac_Flags_def setHvacIsOn_def setHvacIsOnPercent_def setHvacMode_def
      set_hvac_IsOn_def set_hvac_Mode_def Let_def)+

lemma set_point_reports: "reports (\<lambda>c. set_hvac_Cool w (setSendValue c))" "reports (\<lambda>c. set_hvac_Heat w (setSendValue c))"
  by (rule reportsI; simp add: set_hvac_Cool_def set_hvac_Heat_def)+

lemma reports_hvac: "reports f \<Longrightarrow> reports (\<lambda>c. case getValueHvac c of None \<Rightarrow> c | Some v \<Rightarrow> if P v c then f c else c)"
  by (simp add: reports_def getValueHvac_def)

lemma hvac_temperature_reports: "reports (setHvacSetpointTemperatureCool w)" "reports (setHvacSetpointTemperatureHeat w)"
  "reports clearHvacSetpointTemperatureCool" "reports clearHvacSetpointTemperatureHeat"
  unfolding setHvacSetpointTemperatureCool_def [abs_def] setHvacSetpointTemperatureHeat_def [abs_def]
    clearHvacSetpointTemperatureCool_def [abs_def] clearHvacSetpointTemperatureHeat_def [abs_def]
  by (intro reports_hvac reports_comp [OF set_point_reports(1) hvac_flag_reports(1)] reports_comp [OF set_point_reports(2) hvac_flag_reports(2)])+

lemma clear_reports: "reports clearHvacState"
  unfolding clearHvacState_def [abs_def] Let_def
  by (rule reports_comp [OF _ hvac_flag_reports(8)], rule reports_comp [OF _ hvac_flag_reports(7)],
      rule reports_comp [OF _ hvac_flag_reports(6)], rule reports_comp [OF _ hvac_flag_reports(5)],
      rule reports_comp [OF _ hvac_value_reports(2)], rule reports_comp [OF _ hvac_flag_reports(4)],
      rule reports_comp [OF _ hvac_flag_reports(3)], rule reports_comp [OF _ hvac_flag_reports(15)],
      rule reports_comp [OF _ hvac_value_reports(4)], rule reports_comp [OF hvac_temperature_reports(3,4)])

lemmas op_reports = number_reports bool_reports rgbw_reports em_reports raw_reports state_reports container_reports valve_reports
  description_reports registered_reports hvac_flag_reports hvac_value_reports hvac_temperature_reports clear_reports

lemma channel_ops_report: "f \<in> channel_ops \<Longrightarrow> reports f"
  unfolding channel_ops_def by (elim UnE insertE emptyE rangeE CollectE exE conjE; simp add: op_reports)

section \<open>The view of a protocol layer\<close>

text \<open>A layer knows the value and the state from the last message about the channel, or from the registration.  \<open>seen_in\<close> is
  the knowledge of layer \<open>p\<close> after a list of calls.\<close>

fun seen_in :: "'p \<Rightarrow> 'p proto_call list \<Rightarrow> bytes \<times> u8 \<Rightarrow> bytes \<times> u8" where
  "seen_in p [] s = s"
| "seen_in p (sendChannelValueChanged q n v st t # cs) s = seen_in p cs (if q = p then (v, st) else s)"
| "seen_in p (_ # cs) s = seen_in p cs s"

text \<open>Member \<open>value\<close> and \<open>Offline\<close> of the registered description.\<close>

definition seen_registered :: "bytes \<Rightarrow> bytes \<times> u8" where
  "seen_registered d = (seg 26 8 d, d ! 21)"

text \<open>A channel together with the view of one layer, as the program runs: the elements change the channel, the main loop sends
  updates to all layers, and a registration describes the channel.\<close>

inductive channel_step :: "'p \<Rightarrow> 'p list \<Rightarrow> Channel \<times> bytes \<times> u8 \<Rightarrow> Channel \<times> bytes \<times> u8 \<Rightarrow> bool" for p ps where
  operate: "f \<in> channel_ops \<Longrightarrow> channel_step p ps (c, s) (f c, s)"
| send: "sendUpdate ps ev c = (c', out) \<Longrightarrow> channel_step p ps (c, s) (c', seen_in p out s)"
| register_d: "fillDeviceChannelStruct_D c = (c', d) \<Longrightarrow> channel_step p ps (c, s) (c', seen_registered d)"
| register_e: "fillDeviceChannelStruct_E c = (c', d) \<Longrightarrow> channel_step p ps (c, s) (c', seen_registered d)"

inductive_cases channel_stepE: "channel_step p ps (c, s) cs"

definition in_step :: "Channel \<times> bytes \<times> u8 \<Rightarrow> bool" where
  "in_step cs = (case cs of (c, s) \<Rightarrow> length (ch_value c) = SUPLA_CHANNELVALUE_SIZE \<and> (isValueUpdateReady c \<or> s = (ch_value c, state c)))"

lemma seen_in_append: "seen_in p (xs @ ys) s = seen_in p ys (seen_in p xs s)"
  by (induction p xs s rule: seen_in.induct) auto

lemma seen_in_value: "seen_in p (map (\<lambda>p. sendChannelValueChanged p n v st t) ps) s = (if p \<in> set ps then (v, st) else s)"
  by (induction ps arbitrary: s) auto

lemma seen_in_others [simp]: "seen_in p (map (\<lambda>p. sendExtendedChannelValueChanged p n ev) ps) s = s"
  "seen_in p (map (\<lambda>p. setInitialCaption_call p m cap) ps) s = s" "seen_in p (map (\<lambda>p. getChannelConfig_call p n) ps) s = s"
  "seen_in p (map (\<lambda>p. sendChannelStateResult p m) ps) s = s"
  by (induction ps) auto

lemma sendUpdate_seen:
  assumes "sendUpdate ps ev c = (c', out)" "p \<in> set ps"
  shows "ch_value c' = ch_value c \<and> state c' = state c \<and> \<not> isValueUpdateReady c' \<and>
    seen_in p out s = (if isValueUpdateReady c then (ch_value c, state c) else s)"
  using assms
  by (auto simp: sendUpdate_def Let_def seen_in_append seen_in_value split: prod.splits if_splits option.splits)

lemma channel_struct_seen: "length (ch_value c) = 8 \<Longrightarrow> seen_registered (channel_struct c @ r) = (ch_value c, state c)"
  by (simp add: seen_registered_def channel_struct_def seg_def nth_append)

lemma channel_step_in_step: "channel_step p ps cs cs' \<Longrightarrow> p \<in> set ps \<Longrightarrow> in_step cs \<Longrightarrow> in_step cs'"
proof (induction rule: channel_step.induct)
  case (operate f c s)
  then show ?case using channel_ops_report [of f] by (auto simp: in_step_def reports_def SUPLA_CHANNELVALUE_SIZE_def)
next
  case (send ev c c' out s)
  then show ?case using sendUpdate_seen [of ps ev c c' out p s] by (auto simp: in_step_def)
qed (auto simp: in_step_def fillDeviceChannelStruct_D_def fillDeviceChannelStruct_E_def SUPLA_CHANNELVALUE_SIZE_def
  channel_struct_seen channel_struct_seen [where r = "[]", simplified])

lemma channel_steps_in_step: "(channel_step p ps)\<^sup>*\<^sup>* cs cs' \<Longrightarrow> p \<in> set ps \<Longrightarrow> in_step cs \<Longrightarrow> in_step cs'"
  by (induction rule: rtranclp_induct) (blast intro: channel_step_in_step)+

text \<open>C3. No change of a channel is lost.  Start with a registered channel and let the program run in any way: operations of the class
  (all setters of values, states, flags and descriptions), sending of updates and further registrations, in any order.  Then every
  protocol layer either knows the current value and state or an update is pending; after the next \<open>sendUpdate\<close> it knows them.\<close>

theorem channel_no_lost_change:
  assumes "p \<in> set ps" "length (ch_value c0) = SUPLA_CHANNELVALUE_SIZE" "fillDeviceChannelStruct_E c0 = (c1, d)"
    and "(channel_step p ps)\<^sup>*\<^sup>* (c1, seen_registered d) (c, s)"
  shows "(isValueUpdateReady c \<or> s = (ch_value c, state c)) \<and>
    (let (c', out) = sendUpdate ps ev c in seen_in p out s = (ch_value c', state c') \<and> \<not> isValueUpdateReady c')"
proof -
  have "in_step (c1, seen_registered d)"
    using assms(2,3) channel_step_in_step [OF register_e [OF assms(3)] assms(1), of "(ch_value c0, state c0)"]
    by (auto simp: in_step_def)
  then have "in_step (c, s)" using channel_steps_in_step [OF assms(4,1)] by blast
  then show ?thesis
    using sendUpdate_seen [of ps ev c _ _ p s] assms(1) by (auto simp: in_step_def split: prod.splits)
qed

definition demo_relay :: Channel where
  "demo_relay = setType SUPLA_CHANNELTYPE_RELAY Channel_init"

theorem channel_no_lost_change_witness:
  "let c = setStateOffline (setNewValue_bool True (fst (fillDeviceChannelStruct_E demo_relay)));
      (c', out) = sendUpdate [(), ()] None c
   in seen_in () out (seen_registered (snd (fillDeviceChannelStruct_E demo_relay))) = ([1, 0, 0, 0, 0, 0, 0, 0], 1)"
proof -
  define c1 where "c1 = fst (fillDeviceChannelStruct_E demo_relay)"
  define d where "d = snd (fillDeviceChannelStruct_E demo_relay)"
  define c where "c = setStateOffline (setNewValue_bool True c1)"
  have f: "fillDeviceChannelStruct_E demo_relay = (c1, d)" by (simp add: c1_def d_def)
  have l: "length (ch_value demo_relay) = SUPLA_CHANNELVALUE_SIZE" by (simp add: demo_relay_def setType_def Channel_init_def)
  have ops: "setNewValue_bool True \<in> channel_ops" "setStateOffline \<in> channel_ops" by (simp_all add: channel_ops_def)
  have "(channel_step () [(), ()])\<^sup>*\<^sup>* (c1, seen_registered d) (c, seen_registered d)"
    using channel_step.operate [OF ops(1), of "()" "[(), ()]" c1 "seen_registered d"]
      channel_step.operate [OF ops(2), of "()" "[(), ()]" "setNewValue_bool True c1" "seen_registered d"]
    unfolding c_def by (meson rtranclp.rtrancl_into_rtrancl rtranclp.rtrancl_refl)
  from channel_no_lost_change [OF _ l f this, of None]
  have "let (c', out) = sendUpdate [(), ()] None c in seen_in () out (seen_registered d) = (ch_value c', state c')"
    by (auto split: prod.splits)
  moreover have "ch_value c = [1, 0, 0, 0, 0, 0, 0, 0]" "state c = 1" unfolding c_def c1_def by code_simp+
  ultimately show ?thesis
    using sendUpdate_seen [of "[(), ()]" None c _ _ "()"] unfolding c_def [symmetric] c1_def [symmetric] d_def [symmetric]
    by (fastforce split: prod.splits)
qed

section \<open>Values of particular channels\<close>

lemma length_8_E:
  assumes "length v = 8"
  obtains a0 a1 a2 a3 a4 a5 a6 a7 where "v = [a0, a1, a2, a3, a4, a5, a6, a7]"
  using assms by (auto simp: numeral_eq_Suc length_Suc_conv)

text \<open>Numbers are read back as they were set.\<close>

lemma number_round_trip: "getValueInt32 (setNewValue_int32 i c) = i" "getValueInt64 (setNewValue_uint64 w c) = w"
proof -
  have v: "ch_value (changed_value v c) = v" for v
    by (simp add: changed_value_def setNewValue_raw_def)
  show "getValueInt32 (setNewValue_int32 i c) = i"
    using unat_u32_bound [of i]
    by (simp add: getValueInt32_def setNewValue_int32_def v overlay_0 seg_append_left seg_0 le_nat_le_bytes)
  have "unat w < 2 ^ 64" using unsigned_less [of w, where ?'a = nat] by simp
  then show "getValueInt64 (setNewValue_uint64 w c) = w"
    by (simp add: getValueInt64_def setNewValue_uint64_def v overlay_0 seg_append_left seg_0 le_nat_le_bytes)
qed

subsection \<open>Lights\<close>

lemma raised_run_events: "raised (run_events es c) = raised c @ map snd (filter fst es)"
  by (induction es c rule: run_events.induct) (auto simp: run_if_def run_action_def)

lemma raised_raw: "raised (fst (setNewValue_raw v c)) = raised c"
  by (simp add: setNewValue_raw_def setSendValue_def)

text \<open>A colour shines when it and the brightness of the colour part are not zero.\<close>

definition shines :: "u8 \<Rightarrow> u8 \<Rightarrow> bool" where
  "shines colour colorBrightness \<longleftrightarrow> colour \<noteq> 0 \<and> colorBrightness \<noteq> 0"

definition rgbw_new_events :: "u8 \<Rightarrow> u8 \<Rightarrow> u8 \<Rightarrow> u8 \<Rightarrow> u8 \<Rightarrow> u8 \<Rightarrow> Channel \<Rightarrow> u16 list" where
  "rgbw_new_events r g b cb br wt c = drop (length (raised c)) (raised (setNewValue_rgbw r g b cb br wt c))"

lemma rgbw_new_events_eq:
  "rgbw_new_events r g b cb br wt c =
     (let c' = c\<lparr>ch_value := [br, cb, b, g, r, 0, 0, wt]\<rparr>
      in if ch_value c = ch_value c' then [] else map snd (filter fst (rgbw_events c c')))"
proof -
  have "rgbw_events c (setSendValue (c\<lparr>ch_value := v\<rparr>)) = rgbw_events c (c\<lparr>ch_value := v\<rparr>)" for v
    by (simp add: rgbw_events_def getValueBrightness_def getValueWhiteTemperature_def getValueColorBrightness_def getValueRed_def
        getValueGreen_def getValueBlue_def)
  then show ?thesis
    by (simp add: rgbw_new_events_def setNewValue_rgbw_def setNewValue_raw_def raised_run_events setSendValue_def Let_def)
qed

lemma raised_iff: "e \<in> set (map snd (filter fst L)) \<longleftrightarrow> (True, e) \<in> set L"
  by force

fun once :: "(bool \<times> u16) list \<Rightarrow> bool" where
  "once [] = True"
| "once ((b, e) # es) = ((b \<longrightarrow> (True, e) \<notin> set es) \<and> once es)"

lemma once_distinct: "once L \<Longrightarrow> distinct (map snd (filter fst L))"
  by (induction L rule: once.induct) (auto simp: raised_iff)

lemma rgbw_getters:
  assumes "ch_value c = [br, cb, b, g, r, x, y, wt]"
  shows "getValueBrightness c = br" "getValueColorBrightness c = cb" "getValueBlue c = b" "getValueGreen c = g" "getValueRed c = r"
    "getValueWhiteTemperature c = wt"
  using assms by (simp_all add: getValueBrightness_def getValueWhiteTemperature_def getValueColorBrightness_def getValueRed_def
      getValueGreen_def getValueBlue_def)

lemma rgbw_once: "once (rgbw_events p c)"
  by (simp add: rgbw_events_def colour_events_def Let_def) (simp add: chan_consts)

text \<open>The events of a light.  Setting colours and brightness stores them and raises the events that match the change: a colour
  turns on (off) exactly when it starts (stops) to shine, the dimmer and the colour part turn on and off with their
  brightness, a general turn-on (turn-off) is raised exactly when one of the two parts turns on (off), no event is raised twice, and none
  is raised when nothing changes.\<close>

theorem rgbw_events_match:
  assumes "ch_value c = [br0, cb0, b0, g0, r0, x0, y0, wt0]" "es = rgbw_new_events r g b cb br wt c"
  shows "(getValueRed (setNewValue_rgbw r g b cb br wt c), getValueGreen (setNewValue_rgbw r g b cb br wt c),
      getValueBlue (setNewValue_rgbw r g b cb br wt c)) = (r, g, b) \<and>
    (ON_RED_TURN_ON \<in> set es \<longleftrightarrow> \<not> shines r0 cb0 \<and> shines r cb) \<and> (ON_RED_TURN_OFF \<in> set es \<longleftrightarrow> shines r0 cb0 \<and> \<not> shines r cb) \<and>
    (ON_GREEN_TURN_ON \<in> set es \<longleftrightarrow> \<not> shines g0 cb0 \<and> shines g cb) \<and> (ON_GREEN_TURN_OFF \<in> set es \<longleftrightarrow> shines g0 cb0 \<and> \<not> shines g cb) \<and>
    (ON_BLUE_TURN_ON \<in> set es \<longleftrightarrow> \<not> shines b0 cb0 \<and> shines b cb) \<and> (ON_BLUE_TURN_OFF \<in> set es \<longleftrightarrow> shines b0 cb0 \<and> \<not> shines b cb) \<and>
    (ON_TURN_ON \<in> set es \<longleftrightarrow> (br0 = 0 \<and> br \<noteq> 0) \<or> (cb0 = 0 \<and> cb \<noteq> 0)) \<and>
    (ON_TURN_OFF \<in> set es \<longleftrightarrow> (br0 \<noteq> 0 \<and> br = 0) \<or> (cb0 \<noteq> 0 \<and> cb = 0)) \<and>
    (ON_DIMMER_TURN_ON \<in> set es \<longleftrightarrow> br0 = 0 \<and> br \<noteq> 0) \<and> (ON_COLOR_TURN_ON \<in> set es \<longleftrightarrow> cb0 = 0 \<and> cb \<noteq> 0) \<and>
    distinct es \<and> (es = [] \<longleftrightarrow> ch_value (setNewValue_rgbw r g b cb br wt c) = ch_value c)"
proof -
  let ?c = "c\<lparr>ch_value := [br, cb, b, g, r, 0, 0, wt]\<rparr>"
  have v: "ch_value (setNewValue_rgbw r g b cb br wt c) = [br, cb, b, g, r, 0, 0, wt]"
    by (simp add: setNewValue_rgbw_def setNewValue_raw_def)
  have n: "ch_value ?c = [br, cb, b, g, r, 0, 0, wt]" by simp
  show ?thesis
  proof (cases "ch_value c = [br, cb, b, g, r, 0, 0, wt]")
    case True
    then have "es = []" by (simp add: assms(2) rgbw_new_events_eq)
    with True assms(1) show ?thesis by (auto simp: rgbw_getters [OF v] v shines_def)
  next
    case False
    then have es: "es = map snd (filter fst (rgbw_events c ?c))" by (simp add: assms(2) rgbw_new_events_eq)
    have "distinct es" unfolding es by (rule once_distinct [OF rgbw_once])
    moreover have "ON_CHANGE \<in> set es"
      unfolding es raised_iff by (simp add: rgbw_events_def Let_def)
    ultimately show ?thesis
      using False
      unfolding es raised_iff rgbw_getters [OF v] v
      by (auto simp: rgbw_events_def rgbw_getters [OF n] rgbw_getters [OF assms(1)] colour_events_def shines_def Let_def chan_consts)
  qed
qed

theorem rgbw_events_match_witness:
  "ON_RED_TURN_ON \<in> set (rgbw_new_events 9 0 0 5 0 0 Channel_init) \<and> ON_BLUE_TURN_ON \<notin> set (rgbw_new_events 9 0 0 5 0 0 Channel_init)"
proof -
  have "ch_value Channel_init = [0, 0, 0, 0, 0, 0, 0, 0]" by code_simp
  from rgbw_events_match [OF this refl, of 9 0 0 5 0 0] show ?thesis by (simp add: shines_def)
qed

subsection \<open>Containers and valves\<close>

lemma container_flags_upd [simp]: "container_flags (c\<lparr>ch_value := (ch_value c)[0 := b]\<rparr>) = container_flags c"
  by (simp add: container_flags_def)

lemma sint_u8: "sint (l :: u8) = (if uint l < 128 then uint l else uint l - 256)"
proof -
  have b: "0 \<le> uint l" "uint l < 256" using uint_bounded [of l] by auto
  have "sint l = (uint l + 128) mod 256 - 128"
    by (simp add: sint_uint signed_take_bit_eq_take_bit_shift take_bit_eq_mod)
  also have "\<dots> = (if uint l < 128 then uint l else uint l - 256)"
  proof (cases "uint l < 128")
    case False
    have "(uint l + 128) mod 256 = ((uint l - 128) + 256) mod 256" by (simp add: add.commute)
    also have "\<dots> = uint l - 128" using False b by (simp only: mod_add_self2) simp
    finally show ?thesis using False by simp
  qed (use b in simp)
  finally show ?thesis .
qed

lemma uint_minus_1: "uint (l :: u8) = 255 \<longleftrightarrow> l = - 1"
proof -
  have "(- 1 :: u8) = 255" by simp
  then show ?thesis by (simp add: word_uint_eq_iff)
qed

definition stored_level :: "u8 \<Rightarrow> u8" where
  "stored_level l = (if 0 \<le> sint l \<and> sint l \<le> 100 then l else - 1) + 1"

lemma fill_value: "ch_value (setContainerFillValue l c) ! 0 = stored_level l" if "ch_value c \<noteq> []"
proof -
  let ?m = "if sint l > 100 then - 1 else l"
  have "\<not> uint l < - 1" using uint_nonnegative [of l] by linarith
  then have "(if sint ?m < - 1 then - 1 else ?m) + 1 = stored_level l"
    using uint_bounded [of l] uint_minus_1 [of l] by (auto simp: stored_level_def sint_u8 split: if_splits)
  then show ?thesis using that by (simp add: setContainerFillValue_def Let_def)
qed

lemma stored_level_back:
  "(if stored_level l > 0 \<and> stored_level l \<le> 101 then stored_level l - 1 else - 1) = (if 0 \<le> sint l \<and> sint l \<le> 100 then l else - 1)"
proof (cases "0 \<le> sint l \<and> sint l \<le> 100")
  case True
  then have "uint l \<le> 100" using uint_bounded [of l] by (auto simp: sint_u8 split: if_splits)
  then have "uint (l + 1) = uint l + 1" by (simp add: uint_word_ariths)
  with True \<open>uint l \<le> 100\<close> show ?thesis
    by (simp add: stored_level_def word_less_def word_le_def)
next
  case False
  then have "stored_level l = 0" by (auto simp: stored_level_def)
  with False show ?thesis by auto
qed

lemma valve_types: "getChannelType c = SUPLA_CHANNELTYPE_VALVE_OPENCLOSE \<longleftrightarrow> channelType c = VALVE_OPENCLOSE"
  "getChannelType c = SUPLA_CHANNELTYPE_VALVE_PERCENTAGE \<longleftrightarrow> channelType c = VALVE_PERCENTAGE"
  by (cases "channelType c"; simp add: getChannelType_def chan_consts)+

definition new_closed :: "ChannelType \<Rightarrow> u8 \<Rightarrow> u8" where
  "new_closed t q = (if t = VALVE_OPENCLOSE then (if q > 0 then 0 else 1) else if t = VALVE_PERCENTAGE then 100 - min q 100 else 0)"

lemma setValveOpenState_eq:
  "setValveOpenState q c =
     (let newClosed = new_closed (channelType c) q
      in if valve_closed c = newClosed then c
         else run_if (valve_closed c \<noteq> 0 \<and> newClosed = 0) ON_CLOSE (run_if (valve_closed c = 0) ON_OPEN
           (run_action ON_CHANGE (setSendValue (c\<lparr>ch_value := (ch_value c)[0 := newClosed]\<rparr>)))))"
proof -
  have "(if q > 100 then 100 else q) > 0 \<longleftrightarrow> q > 0" by (auto simp: word_less_def)
  moreover have "(if q > 100 then 100 else q) = min q 100" by (auto simp: min_def)
  ultimately have "(if getChannelType c = SUPLA_CHANNELTYPE_VALVE_OPENCLOSE then if (if q > 100 then 100 else q) > 0 then 0 else 1
      else if getChannelType c = SUPLA_CHANNELTYPE_VALVE_PERCENTAGE then 100 - (if q > 100 then 100 else q) else 0) = new_closed (channelType c) q"
    unfolding valve_types new_closed_def by presburger
  then show ?thesis unfolding setValveOpenState_def Let_def by (simp only:)
qed

lemma valve_value:
  shows "ch_value (setValveOpenState q c) = (ch_value c)[0 := new_closed (channelType c) q]"
    "channelType (setValveOpenState q c) = channelType c"
proof -
  have "ch_value c ! 0 = new_closed (channelType c) q \<Longrightarrow> ch_value c = (ch_value c)[0 := new_closed (channelType c) q]" by (metis list_update_id)
  then show "ch_value (setValveOpenState q c) = (ch_value c)[0 := new_closed (channelType c) q]"
    "channelType (setValveOpenState q c) = channelType c"
    by (auto simp: setValveOpenState_eq valve_closed_def Let_def)
qed

text \<open>The fill level of a container and the position of a valve are read back as they were set.  A fill level from 0 to 100 is returned
  unchanged and every other one as -1 (unknown); the alarm flags stay.  A percentage valve returns the opening limited to 100, an open/close valve
  100 for every opening but 0; the flags of the valve stay.\<close>

theorem container_valve_round_trip:
  assumes "length (ch_value c) = SUPLA_CHANNELVALUE_SIZE"
  shows "getContainerFillValue (setContainerFillValue l c) = (if 0 \<le> sint l \<and> sint l \<le> 100 then l else - 1) \<and>
    container_flags (setContainerFillValue l c) = container_flags c \<and>
    (channelType c = VALVE_PERCENTAGE \<longrightarrow> getValveOpenState (setValveOpenState q c) = min q 100) \<and>
    (channelType c = VALVE_OPENCLOSE \<longrightarrow> getValveOpenState (setValveOpenState q c) = (if q = 0 then 0 else 100)) \<and>
    valve_flags (setValveOpenState q c) = valve_flags c"
proof -
  have ne: "ch_value c \<noteq> []" using assms by (auto simp: SUPLA_CHANNELVALUE_SIZE_def)
  have "getContainerFillValue (setContainerFillValue l c) = (if 0 \<le> sint l \<and> sint l \<le> 100 then l else - 1)"
    using stored_level_back [of l] by (simp add: getContainerFillValue_def fill_value [OF ne] Let_def)
  moreover have "container_flags (setContainerFillValue l c) = container_flags c"
    by (simp add: setContainerFillValue_def container_flags_def Let_def)
  moreover have "getValveOpenState (setValveOpenState q c) = min q 100" if "channelType c = VALVE_PERCENTAGE"
  proof -
    have "100 - min q 100 \<le> (100 :: u8)" by (metis min.cobounded2 word_sub_le)
    then show ?thesis using that ne by (simp add: getValveOpenState_def valve_types valve_value valve_closed_def new_closed_def)
  qed
  moreover have "getValveOpenState (setValveOpenState q c) = (if q = 0 then 0 else 100)" if "channelType c = VALVE_OPENCLOSE"
    using that ne by (simp add: getValveOpenState_def valve_types valve_value valve_closed_def new_closed_def word_neq_0_conv)
  moreover have "valve_flags (setValveOpenState q c) = valve_flags c"
    by (simp add: valve_flags_def valve_value)
  ultimately show ?thesis by blast
qed

theorem container_valve_round_trip_witness:
  "getContainerFillValue (setContainerFillValue 55 Channel_init) = (if 0 \<le> sint (55 :: u8) \<and> sint (55 :: u8) \<le> 100 then 55 else - 1)"
  using container_valve_round_trip [of Channel_init 55] by (simp add: Channel_init_def)

section \<open>Behaviour that differs from the names\<close>

text \<open>C40. The events of a valve are swapped.  When an open valve is closed, \<open>setValveOpenState\<close> raises \<open>ON_OPEN\<close>, and when a closed valve is
  opened completely it raises \<open>ON_CLOSE\<close>; never the other way round.\<close>

theorem valve_events_swapped:
  assumes "length (ch_value c) = SUPLA_CHANNELVALUE_SIZE" "channelType c = VALVE_OPENCLOSE" "raised c = []"
  shows "(isValveOpen c \<and> \<not> isValveOpen (setValveOpenState q c) \<longrightarrow> raised (setValveOpenState q c) = [ON_CHANGE, ON_OPEN]) \<and>
    (\<not> isValveOpen c \<and> isValveOpen (setValveOpenState q c) \<longrightarrow> raised (setValveOpenState q c) = [ON_CHANGE, ON_CLOSE])"
proof -
  have ne: "ch_value c \<noteq> []" using assms by (auto simp: SUPLA_CHANNELVALUE_SIZE_def)
  have o: "isValveOpen c \<longleftrightarrow> ch_value c ! 0 = 0" "isValveOpen (setValveOpenState q c) \<longleftrightarrow> q > 0"
    using assms(2) ne by (simp_all add: isValveOpen_def getValveOpenState_def valve_types valve_value valve_closed_def new_closed_def)
  show ?thesis
    unfolding o using assms(2,3)
    by (auto simp: setValveOpenState_eq new_closed_def valve_closed_def run_if_def run_action_def setSendValue_def Let_def)
qed

theorem valve_events_swapped_witness:
  "let c = setType SUPLA_CHANNELTYPE_VALVE_OPENCLOSE Channel_init in
   (isValveOpen c \<and> \<not> isValveOpen (setValveOpenState 0 c) \<longrightarrow> raised (setValveOpenState 0 c) = [ON_CHANGE, ON_OPEN])"
  using valve_events_swapped [of "setType SUPLA_CHANNELTYPE_VALVE_OPENCLOSE Channel_init" 0]
  by (simp add: setType_def Channel_init_def protoTypeToChannelType_def chan_consts)

text \<open>A relay that offers only the power switch rejects the power switch as its function, and a relay that offers only the staircase
  timer accepts it: \<open>isFunctionValid\<close> tests the number of the function where the list has one bit per function.\<close>

lemma relay_function_check:
  assumes "channelType c = RELAY"
  shows "\<not> isFunctionValid (setFuncList SUPLA_BIT_FUNC_POWERSWITCH c) SUPLA_CHANNELFNC_POWERSWITCH"
    "isFunctionValid (setFuncList 0x80 c) SUPLA_CHANNELFNC_POWERSWITCH"
  using assms by (simp_all add: isFunctionValid_def setFuncList_def getFuncList_def chan_consts)

text \<open>A heating value with a calibration error or active frost protection is not valid.  The getters and setters know fifteen flags, but
  \<open>isHvacValueValid\<close> refuses every value with a flag above the thirteenth.\<close>

theorem hvac_error_flag_invalid:
  assumes "channelType c = HVAC" "length (ch_value c) = SUPLA_CHANNELVALUE_SIZE"
  shows "\<not> isHvacValueValid (getValueHvac (setHvacFlagCalibrationError True c)) \<and>
    \<not> isHvacValueValid (getValueHvac (setHvacFlagAntifreezeOverheatActive True c))"
proof -
  have "flag_entry setHvacFlagCalibrationError isHvacFlagCalibrationError 13"
    "flag_entry setHvacFlagAntifreezeOverheatActive isHvacFlagAntifreezeOverheatActive 14"
    using hvac_entries by (simp_all add: hvac_flag_api_def)
  then have "bit (hvac_Flags (ch_value (setHvacFlagCalibrationError True c))) 13"
    "bit (hvac_Flags (ch_value (setHvacFlagAntifreezeOverheatActive True c))) 14"
    "channelType (setHvacFlagCalibrationError True c) = HVAC" "channelType (setHvacFlagAntifreezeOverheatActive True c) = HVAC"
    using assms by (auto simp: flag_entry_def hvac_rest_def SUPLA_CHANNELVALUE_SIZE_def)
  moreover have "w > 0x1FFF" if "bit w n" "13 \<le> n" for w :: u16 and n
  proof (rule ccontr)
    assume "\<not> w > 0x1FFF"
    then have "unat w < 2 ^ 13" by (simp add: word_less_nat_alt)
    also have "\<dots> \<le> 2 ^ n" using that(2) by (rule power_increasing) simp
    finally have "\<not> bit (unat w) n" by (simp add: bit_iff_odd)
    with that(1) show False by (simp add: bit_unsigned_iff)
  qed
  ultimately show ?thesis by (auto simp: isHvacValueValid_def getValueHvac_def)
qed

theorem hvac_error_flag_invalid_witness:
  "\<not> isHvacValueValid (getValueHvac (setHvacFlagCalibrationError True demo_hvac))"
  using hvac_error_flag_invalid [OF demo_hvac_ok] by blast

end
