(* ===== verification/Text_Tools.thy ===== *)
theory Text_Tools
  imports Channel_Types
begin

text \<open>
  Text and number tools: \<open>src/src/supla/tools.cpp\<close>.  Strings are byte lists; a loop that walks along a string is a recursion over the
  list or over an index.  A function that fills an output buffer returns the bytes it writes in front of the
  terminating zero.  The parameter \<open>sc\<close> says whether \<open>char\<close> is signed, which differs between the targets.

  Signed overflow is undefined in C++; the functions that accumulate a signed number do so without bound here, which is the result of
  the program whenever that result fits in 32 bits.
\<close>

section \<open>Numbers\<close>

text \<open>Division of C++: rounds to zero.\<close>

definition c_div :: "int \<Rightarrow> int \<Rightarrow> int" where
  "c_div a b = sgn a * sgn b * (\<bar>a\<bar> div \<bar>b\<bar>)"

definition adjustRange :: "int \<Rightarrow> int \<Rightarrow> int \<Rightarrow> int \<Rightarrow> int \<Rightarrow> int" where
  "adjustRange input inMin inMax outMin outMax = c_div ((input - inMin) * (outMax - outMin)) (inMax - inMin) + outMin"

definition rssiToSignalStrength :: "int \<Rightarrow> int \<Rightarrow> int" where
  "rssiToSignalStrength rssi rssiZero =
     (if rssi > - 50 then 100
      else if rssi \<le> rssiZero then 0
      else c_div ((rssiZero - rssi) * 100) (rssiZero - (- 50)))"

text \<open>The loop of \<open>getBitNumber\<close>; for zero, which the caller excludes, it would run forever (\<open>None\<close>).\<close>

function bit_number_loop :: "u64 \<Rightarrow> nat \<Rightarrow> nat option" where
  "bit_number_loop v position =
     (if v = 0 then None
      else if v AND 1 \<noteq> 1 then bit_number_loop (drop_bit 1 v) (Suc position)
      else Some position)"
  by pat_completeness auto
termination
proof (relation "measure (\<lambda>(v, p). unat v)")
  fix v :: u64
  assume "v \<noteq> 0"
  then have "unat v div 2 < unat v" by (intro div_less_dividend) (auto simp: unat_gt_0)
  then show "((drop_bit 1 v, q), (v, p)) \<in> measure (\<lambda>(v, p). unat v)" for p q
    by (simp add: drop_bit_eq_div unat_div)
qed simp

declare bit_number_loop.simps [simp del]

definition getBitNumber :: "u64 \<Rightarrow> nat option" where
  "getBitNumber v = (if v = 0 \<or> v AND (v - 1) \<noteq> 0 then None else bit_number_loop v 0)"

section \<open>Arrays and hexadecimal numbers\<close>

definition isArrayEmpty :: "bytes \<Rightarrow> bool" where
  "isArrayEmpty buf \<longleftrightarrow> list_all (\<lambda>b. b = 0) buf"

definition hex_char :: "nat \<Rightarrow> u8" where
  "hex_char n = of_char (''0123456789ABCDEF'' ! n)"

fun hex_string_loop :: "u8 \<Rightarrow> nat \<Rightarrow> bytes \<Rightarrow> bytes" where
  "hex_string_loop separator i [] = []"
| "hex_string_loop separator i (b # bs) =
     (let high = unat b div 16; high = (if high > 15 then 15 else high)
      in (if i \<noteq> 0 \<and> separator \<noteq> 0 then [separator] else []) @ [hex_char high, hex_char (unat b mod 16)] @ hex_string_loop separator (Suc i) bs)"

definition generateHexString :: "bytes \<Rightarrow> u8 \<Rightarrow> bytes" where
  "generateHexString input separator = hex_string_loop separator 0 input"

definition hex_digit :: "u8 \<Rightarrow> u32" where
  "hex_digit c =
     (if c \<ge> 65 \<and> c \<le> 70 then ucast c - 55
      else if c \<ge> 97 \<and> c \<le> 102 then ucast c - 87
      else if c \<ge> 48 \<and> c \<le> 57 then ucast c - 48
      else 0)"

fun hex_loop :: "nat \<Rightarrow> u32 \<Rightarrow> bytes \<Rightarrow> u32" where
  "hex_loop i r [] = r"
| "hex_loop i r (c # cs) = hex_loop (Suc i) ((if i \<noteq> 0 then push_bit 4 r else r) + hex_digit c) cs"

definition hexStringToInt :: "bytes \<Rightarrow> int \<Rightarrow> u32" where
  "hexStringToInt str len = hex_loop 0 0 (take (if len = - 1 then length (c_str str) else nat len) str)"

fun hexStringToArray :: "bytes \<Rightarrow> nat \<Rightarrow> bytes" where
  "hexStringToArray input 0 = []"
| "hexStringToArray input (Suc n) = ucast (hexStringToInt input 2) # hexStringToArray (drop 2 input) n"

section \<open>Decimal numbers\<close>

fun uint_loop :: "nat \<Rightarrow> u32 \<Rightarrow> bytes \<Rightarrow> u32" where
  "uint_loop i r [] = r"
| "uint_loop i r (c # cs) =
     (if c < 48 \<or> c > 57 then 0 else uint_loop (Suc i) ((if i \<noteq> 0 then r * 10 else r) + ucast (c - 48)) cs)"

definition stringToUInt :: "bytes \<Rightarrow> int \<Rightarrow> u32" where
  "stringToUInt str len = uint_loop 0 0 (take (if len = - 1 then length (c_str str) else nat len) str)"

fun int_loop :: "nat \<Rightarrow> int \<Rightarrow> bool \<Rightarrow> bytes \<Rightarrow> int" where
  "int_loop i r minusFound [] = (if minusFound then - r else r)"
| "int_loop i r minusFound (c # cs) =
     (if c = 45 then if i = 0 then int_loop (Suc i) r True cs else 0
      else if c < 48 \<or> c > 57 then 0
      else int_loop (Suc i) ((if i \<noteq> 0 then r * 10 else r) + uint (c - 48)) minusFound cs)"

definition stringToInt :: "bytes \<Rightarrow> int \<Rightarrow> int" where
  "stringToInt str len = int_loop 0 0 False (take (if len = - 1 then length (c_str str) else nat len) str)"

text \<open>\<open>floatStringToInt\<close> returns 0 at once for a minus that is not the first character.\<close>

fun float_loop :: "int \<Rightarrow> nat \<Rightarrow> int \<Rightarrow> bool \<Rightarrow> int \<Rightarrow> bytes \<Rightarrow> (int \<times> bool \<times> int) option" where
  "float_loop precision i r minusFound places [] = Some (r, minusFound, places)"
| "float_loop precision i r minusFound places (c # cs) =
     (if c = 45 then if i = 0 then float_loop precision (Suc i) r True places cs else None
      else
        let digit = (c \<ge> 48 \<and> c \<le> 57);
            r' = (if digit then r * 10 + uint c - 48 else r);
            places = (if digit then if places \<ge> 0 then places + 1 else places
                      else if c = 46 \<or> c = 44 then places + 1 else places)
        in if places \<ge> precision then Some (r', minusFound, places)
           else float_loop precision (Suc i) r' minusFound places cs)"

definition floatStringToInt :: "bytes \<Rightarrow> int \<Rightarrow> int" where
  "floatStringToInt str precision =
     (case float_loop precision 0 0 False (- 1) (c_str str) of
        None \<Rightarrow> 0
      | Some (r, minusFound, places) \<Rightarrow>
          let places = (if places < 0 then 0 else places);
              r = r * 10 ^ nat (precision - places)
          in if minusFound then - r else r)"

section \<open>Strings\<close>

definition upper :: "u8 \<Rightarrow> u8" where
  "upper c = (if c \<ge> 97 \<and> c \<le> 122 then c - 32 else c)"

definition char_less :: "bool \<Rightarrow> u8 \<Rightarrow> u8 \<Rightarrow> bool" where
  "char_less sc a b = (if sc then sint a < sint b else a < b)"

fun cmp_insensitive_loop :: "bool \<Rightarrow> bytes \<Rightarrow> bytes \<Rightarrow> nat \<Rightarrow> int" where
  "cmp_insensitive_loop sc s1 s2 0 = 0"
| "cmp_insensitive_loop sc s1 s2 (Suc n) =
     (let c1 = upper (s1 ! 0); c2 = upper (s2 ! 0)
      in if char_less sc c1 c2 then - 1
         else if char_less sc c2 c1 then 1
         else cmp_insensitive_loop sc (drop 1 s1) (drop 1 s2) n)"

text \<open>The arguments are pointers, possibly null.  Equal pointers have equal contents, for which the loop gives the 0 that the code
  returns at once.\<close>

definition strncmpInsensitive :: "bool \<Rightarrow> bytes option \<Rightarrow> bytes option \<Rightarrow> nat \<Rightarrow> int" where
  "strncmpInsensitive sc s1 s2 sz =
     (case (s1, s2) of
        (None, None) \<Rightarrow> 0
      | (None, Some _) \<Rightarrow> - 1
      | (Some _, None) \<Rightarrow> 1
      | (Some a, Some b) \<Rightarrow> cmp_insensitive_loop sc a b sz)"

definition stringAppend :: "bytes \<Rightarrow> bytes \<Rightarrow> nat \<Rightarrow> bytes \<times> nat" where
  "stringAppend output input maxSize =
     (let inputSize = length (c_str input)
      in if inputSize < maxSize then (overlay 0 (c_str input) output, inputSize) else (output, 0))"

section \<open>URL encoding\<close>

text \<open>Decoding in place: \<open>insertPtr\<close> and \<open>parserPtr\<close> are positions in the memory block; the result is \<open>None\<close> when the final zero
  would be written behind the block.\<close>

function url_decode_loop :: "nat \<Rightarrow> nat \<Rightarrow> nat \<Rightarrow> bytes \<Rightarrow> bytes option" where
  "url_decode_loop sz insertPtr parserPtr buffer =
     (if parserPtr < sz \<and> buffer ! parserPtr \<noteq> 0 then
        if buffer ! parserPtr = 43 then url_decode_loop sz (Suc insertPtr) (Suc parserPtr) (buffer[insertPtr := 32])
        else if buffer ! parserPtr = 37 then
          let parserPtr = Suc parserPtr
          in if parserPtr + 1 < sz
             then url_decode_loop sz (Suc insertPtr) (Suc (Suc parserPtr)) (buffer[insertPtr := ucast (hexStringToInt (drop parserPtr buffer) 2)])
             else url_decode_loop sz (Suc insertPtr) (Suc sz) (buffer[insertPtr := 0])
        else url_decode_loop sz (Suc insertPtr) (Suc parserPtr) (buffer[insertPtr := buffer ! parserPtr])
      else if insertPtr < length buffer then Some (buffer[insertPtr := 0])
      else None)"
  by pat_completeness auto
termination by (relation "measure (\<lambda>(sz, i, p, b). Suc sz - p)") auto

declare url_decode_loop.simps [simp del]

definition urlDecodeInplace :: "bytes \<Rightarrow> nat \<Rightarrow> bytes option" where
  "urlDecodeInplace buffer sz = url_decode_loop sz 0 0 buffer"

definition unreserved :: "u8 \<Rightarrow> bool" where
  "unreserved c \<longleftrightarrow> c \<ge> 48 \<and> c \<le> 57 \<or> c \<ge> 65 \<and> c \<le> 90 \<or> c \<ge> 97 \<and> c \<le> 122 \<or> c = 45 \<or> c = 95 \<or> c = 46 \<or> c = 126"

text \<open>\<open>n\<close> is the number of bytes written so far, \<open>lst\<close> the last position of the output buffer.\<close>

fun url_encode_loop :: "int \<Rightarrow> int \<Rightarrow> bytes \<Rightarrow> bytes" where
  "url_encode_loop n lst [] = []"
| "url_encode_loop n lst (c # cs) =
     (if n < lst then
        if unreserved c then c # url_encode_loop (n + 1) lst cs
        else if n + 3 \<le> lst then 37 # generateHexString [c] 0 @ url_encode_loop (n + 3) lst cs
        else []
      else [])"

definition urlEncode :: "bytes \<Rightarrow> int \<Rightarrow> bytes" where
  "urlEncode input outputMaxSize = url_encode_loop 0 (outputMaxSize - 1) (c_str input)"

section \<open>Versions\<close>

definition isdigit :: "u8 \<Rightarrow> bool" where
  "isdigit c \<longleftrightarrow> c \<ge> 48 \<and> c \<le> 57"

fun number_loop :: "int \<Rightarrow> bytes \<Rightarrow> int" where
  "number_loop v [] = v"
| "number_loop v (c # cs) = (if isdigit c then number_loop (v * 10 + (uint c - 48)) cs else v)"

text \<open>What is left of a version after its first number and the characters up to the next digit.\<close>

definition skip_number :: "bytes \<Rightarrow> bytes" where
  "skip_number s = dropWhile (\<lambda>c. \<not> isdigit c) (dropWhile isdigit s)"

lemma skip_number_less: "s \<noteq> [] \<Longrightarrow> length (skip_number s) < length s"
proof (cases s)
  case (Cons c cs)
  show ?thesis
  proof (cases "isdigit c")
    case True
    have "length (skip_number s) \<le> length (dropWhile isdigit cs)" by (simp add: skip_number_def Cons True length_dropWhile_le)
    also have "\<dots> \<le> length cs" by (rule length_dropWhile_le)
    finally show ?thesis by (simp add: Cons)
  next
    case False
    have "length (dropWhile (\<lambda>c. \<not> isdigit c) cs) \<le> length cs" by (rule length_dropWhile_le)
    with False show ?thesis by (simp add: skip_number_def Cons)
  qed
qed simp

lemma skip_number_Nil [simp]: "skip_number [] = []"
  by (simp add: skip_number_def)

function semver_loop :: "bytes \<Rightarrow> bytes \<Rightarrow> int" where
  "semver_loop p1 p2 =
     (if p1 \<noteq> [] \<or> p2 \<noteq> [] then
        let v1 = number_loop 0 p1; v2 = number_loop 0 p2
        in if v1 > v2 then 1 else if v1 < v2 then - 1 else semver_loop (skip_number p1) (skip_number p2)
      else 0)"
  by pat_completeness auto
termination
proof (relation "measure (\<lambda>(p1, p2). length p1 + length p2)")
  fix p1 p2 :: bytes
  assume "p1 \<noteq> [] \<or> p2 \<noteq> []"
  then have "length (skip_number p1) + length (skip_number p2) < length p1 + length p2"
    using skip_number_less [of p1] skip_number_less [of p2] by (cases "p1 = []"; cases "p2 = []") auto
  then show "((skip_number p1, skip_number p2), p1, p2) \<in> measure (\<lambda>(p1, p2). length p1 + length p2)" by simp
qed simp

declare semver_loop.simps [simp del]

definition compareSemVer :: "bytes option \<Rightarrow> bytes option \<Rightarrow> int" where
  "compareSemVer sw1 sw2 = (case (sw1, sw2) of (Some a, Some b) \<Rightarrow> semver_loop (c_str a) (c_str b) | _ \<Rightarrow> 0)"

section \<open>Hexadecimal strings\<close>

lemma all_16: "(\<forall>n < 16 :: nat. P n) \<longleftrightarrow> P 0 \<and> P 1 \<and> P 2 \<and> P 3 \<and> P 4 \<and> P 5 \<and> P 6 \<and> P 7 \<and> P 8 \<and> P 9 \<and> P 10 \<and>
    P 11 \<and> P 12 \<and> P 13 \<and> P 14 \<and> P 15"
  by (simp add: numeral_eq_Suc All_less_Suc conj_ac)

lemma hex_digit_char: "n < 16 \<Longrightarrow> hex_digit (hex_char n) = of_nat n"
proof -
  have "\<forall>n < 16. hex_digit (hex_char n) = of_nat n"
    unfolding all_16 by (intro conjI; code_simp)
  then show "n < 16 \<Longrightarrow> hex_digit (hex_char n) = of_nat n" by blast
qed

lemma hex_char_plain: "n < 16 \<Longrightarrow> hex_char n \<noteq> 0"
proof -
  have "\<forall>n < 16. hex_char n \<noteq> 0" unfolding all_16 by (intro conjI; code_simp)
  then show "n < 16 \<Longrightarrow> hex_char n \<noteq> 0" by blast
qed

lemma nibbles: "unat (b :: u8) div 16 < 16" "unat b mod 16 < 16"
  using unat_u8_bound [of b] by auto

lemma hex_string_loop_byte: "hex_string_loop 0 i (b # bs) = [hex_char (unat b div 16), hex_char (unat b mod 16)] @ hex_string_loop 0 (Suc i) bs"
  using nibbles [of b] by (simp add: Let_def)

lemma hex_byte: "hexStringToInt (hex_char (unat b div 16) # hex_char (unat b mod 16) # r) 2 = ucast (b :: u8)"
proof -
  have "of_nat (unat b div 16) * 16 + of_nat (unat b mod 16) = (of_nat (unat b div 16 * 16 + unat b mod 16) :: u32)"
    by (simp only: of_nat_add of_nat_mult of_nat_numeral)
  also have "\<dots> = ucast b" by (simp only: div_mult_mod_eq of_nat_unat)
  finally show ?thesis using nibbles [of b] by (simp add: hexStringToInt_def hex_digit_char numeral_2_eq_2 push_bit_eq_mult)
qed

lemma ucast_byte [simp]: "(ucast (ucast (b :: u8) :: u32) :: u8) = b"
  by (rule bit_word_eqI) (simp add: bit_simps)

text \<open>A hexadecimal string is read back as the bytes it was made from.\<close>

lemma hex_round_trip: "hexStringToArray (hex_string_loop 0 i bs @ r) (length bs) = bs"
  by (induction bs arbitrary: i) (simp_all add: hex_string_loop_byte hex_byte del: hex_string_loop.simps(2))

section \<open>URL encoding\<close>

text \<open>The number of characters that the encoder takes from its input.\<close>

fun url_taken :: "int \<Rightarrow> int \<Rightarrow> bytes \<Rightarrow> nat" where
  "url_taken n lst [] = 0"
| "url_taken n lst (c # cs) =
     (if n < lst then
        if unreserved c then Suc (url_taken (n + 1) lst cs)
        else if n + 3 \<le> lst then Suc (url_taken (n + 3) lst cs)
        else 0
      else 0)"

lemma url_taken_all: "n + 3 * int (length s) \<le> lst \<Longrightarrow> url_taken n lst s = length s"
  by (induction s arbitrary: n) auto

lemma url_taken_le: "url_taken n lst s \<le> length s"
  by (induction n lst s rule: url_taken.induct) auto

lemma hex_string_one: "generateHexString [c] 0 = [hex_char (unat c div 16), hex_char (unat c mod 16)]"
  unfolding generateHexString_def hex_string_loop_byte by simp

lemma url_encode_length: "n \<le> lst \<Longrightarrow> n + int (length (url_encode_loop n lst s)) \<le> lst"
proof (induction s arbitrary: n)
  case (Cons c s)
  show ?case using Cons.IH [of "n + 1"] Cons.IH [of "n + 3"] Cons.prems by (auto simp: hex_string_one)
qed simp

lemma unreserved_plain: "unreserved c \<Longrightarrow> c \<noteq> 0 \<and> c \<noteq> 37 \<and> c \<noteq> 43"
proof -
  have "\<not> unreserved 0 \<and> \<not> unreserved 37 \<and> \<not> unreserved 43" by code_simp
  then show "unreserved c \<Longrightarrow> c \<noteq> 0 \<and> c \<noteq> 37 \<and> c \<noteq> 43" by auto
qed

lemma drop_update_below: "i \<le> p \<Longrightarrow> drop (Suc p) (xs[i := x]) = drop (Suc p) xs"
  by simp

lemma drop_nthD: "drop p xs = x # r \<Longrightarrow> xs ! p = x \<and> drop (Suc p) xs = r \<and> p < length xs"
  by (metis drop_eq_Nil2 hd_drop_conv_nth leI list.distinct(1) list.sel(1,3) drop_Suc tl_drop)

lemma take_Suc_update: "i < length xs \<Longrightarrow> take (Suc i) (xs[i := x]) = take i xs @ [x]"
  by (simp add: take_Suc_conv_app_nth)

text \<open>Decoding an encoded string: the positions \<open>i\<close> and \<open>p\<close> of the two pointers advance together.\<close>

lemma url_decode_encoded:
  assumes "drop p b = url_encode_loop n lst s @ 0 # r" "i \<le> p" "p + length (url_encode_loop n lst s) < sz"
  shows "\<exists>b'. url_decode_loop sz i p b = Some b' \<and> length b' = length b \<and>
    take (i + url_taken n lst s + 1) b' = take i b @ take (url_taken n lst s) s @ [0]"
  using assms
proof (induction s arbitrary: n p i b)
  case Nil
  then have "b ! p = 0" "i < length b" using drop_nthD [of p b 0 r] by auto
  then show ?case by (auto simp: url_decode_loop.simps [of sz i p] take_Suc_update)
next
  case (Cons c s)
  consider (stop) "url_encode_loop n lst (c # s) = []" "url_taken n lst (c # s) = 0"
    | (plain) "n < lst" "unreserved c" | (escape) "n < lst" "\<not> unreserved c" "n + 3 \<le> lst"
    by (cases "n < lst"; cases "unreserved c"; cases "n + 3 \<le> lst") auto
  then show ?case
  proof cases
    case stop
    then have "b ! p = 0" "i < length b" using Cons.prems drop_nthD [of p b 0 r] by auto
    then show ?thesis using stop by (auto simp: url_decode_loop.simps [of sz i p] take_Suc_update)
  next
    case plain
    let ?b = "b[i := c]"
    have d: "b ! p = c" "drop (Suc p) b = url_encode_loop (n + 1) lst s @ 0 # r" "p < length b"
      using Cons.prems(1) plain drop_nthD [of p b c] by auto
    have "drop (Suc p) ?b = url_encode_loop (n + 1) lst s @ 0 # r" using d(2) Cons.prems(2) by (simp add: drop_update_below)
    then obtain b' where b': "url_decode_loop sz (Suc i) (Suc p) ?b = Some b'" "length b' = length b"
      "take (Suc i + url_taken (n + 1) lst s + 1) b' = take (Suc i) ?b @ take (url_taken (n + 1) lst s) s @ [0]"
      using Cons.IH [of "Suc p" ?b "n + 1" "Suc i"] Cons.prems(2,3) plain by auto
    then show ?thesis
      using d(1,3) plain unreserved_plain [of c] Cons.prems(2,3)
      by (auto simp: url_decode_loop.simps [of sz i p] take_Suc_update)
  next
    case escape
    let ?b = "b[i := c]"
    have d: "b ! p = 37" "drop (Suc p) b = [hex_char (unat c div 16), hex_char (unat c mod 16)] @ url_encode_loop (n + 3) lst s @ 0 # r"
      "p < length b"
      using Cons.prems(1) escape drop_nthD [of p b 37] by (auto simp: hex_string_one)
    have "drop (Suc (Suc (Suc p))) b = url_encode_loop (n + 3) lst s @ 0 # r"
      using d(2) by (metis append_Cons append_Nil drop_Suc list.sel(3) tl_drop)
    then have "drop (Suc (Suc (Suc p))) ?b = url_encode_loop (n + 3) lst s @ 0 # r" using Cons.prems(2) by (simp add: drop_update_below)
    then obtain b' where b': "url_decode_loop sz (Suc i) (Suc (Suc (Suc p))) ?b = Some b'" "length b' = length b"
      "take (Suc i + url_taken (n + 3) lst s + 1) b' = take (Suc i) ?b @ take (url_taken (n + 3) lst s) s @ [0]"
      using Cons.IH [of "Suc (Suc (Suc p))" ?b "n + 3" "Suc i"] Cons.prems(2,3) escape by (auto simp: hex_string_one)
    moreover have "ucast (hexStringToInt (drop (Suc p) b) 2) = c" using d(2) by (simp add: hex_byte)
    moreover have "Suc p + 1 < sz" using Cons.prems(3) escape by (simp add: hex_string_one)
    ultimately show ?thesis
      using d(1,3) escape Cons.prems(2) by (auto simp: url_decode_loop.simps [of sz i p] take_Suc_update Let_def)
  qed
qed

text \<open>URL encoding and decoding.  The encoder never writes more than the size of its output buffer.  Decoding in place what it
  wrote gives back the longest part of the input that fits, whole characters only and without its end; the whole
  input if the buffer has three bytes for each character and one for the end.  The decoder does not write behind the buffer.\<close>

theorem url_round_trip:
  assumes "0 < m" "length buffer = nat m" "take (length (urlEncode s m) + 1) buffer = urlEncode s m @ [0]"
  shows "int (length (urlEncode s m)) < m \<and>
    (\<exists>b k. urlDecodeInplace buffer (nat m) = Some b \<and> c_str b = take k (c_str s) \<and> (3 * int (length (c_str s)) < m \<longrightarrow> c_str b = c_str s))"
proof -
  have l: "int (length (urlEncode s m)) < m"
    using url_encode_length [of 0 "m - 1" "c_str s"] assms(1) by (simp add: urlEncode_def)
  let ?e = "url_encode_loop 0 (m - 1) (c_str s)" and ?k = "url_taken 0 (m - 1) (c_str s)"
  have "drop 0 buffer = ?e @ 0 # drop (length ?e + 1) buffer"
    using assms(3) append_take_drop_id [of "length ?e + 1" buffer] by (simp add: urlEncode_def)
  moreover have "0 + length ?e < nat m" using l by (simp add: urlEncode_def)
  ultimately obtain b where b: "urlDecodeInplace buffer (nat m) = Some b" "take (?k + 1) b = take ?k (c_str s) @ [0]"
    using url_decode_encoded [of 0 buffer 0 "m - 1" "c_str s" "drop (length ?e + 1) buffer" 0 "nat m"]
    unfolding urlDecodeInplace_def by auto
  have "b = take ?k (c_str s) @ 0 # drop (?k + 1) b" using b(2) append_take_drop_id [of "?k + 1" b] by simp
  then have "c_str b = take ?k (c_str s)" using c_str_stop [OF c_str_no_nul [of ?k s]] by metis
  moreover have "?k = length (c_str s)" if "3 * int (length (c_str s)) < m" using that by (intro url_taken_all) simp
  ultimately show ?thesis using l b(1) by auto
qed

theorem url_round_trip_witness:
  "\<exists>b. urlDecodeInplace (urlEncode [97, 32] 8 @ replicate 4 0) (nat 8) = Some b \<and> c_str b = c_str [97, 32]"
proof -
  have "urlEncode [97, 32] 8 = [97, 37, 50, 48]" by code_simp
  then have "take (length (urlEncode [97, 32] 8) + 1) (urlEncode [97, 32] 8 @ replicate 4 0) = urlEncode [97, 32] 8 @ [0]"
    "length (urlEncode [97, 32] 8 @ replicate 4 0) = nat 8" by simp_all
  from url_round_trip [OF _ this(2,1)] show ?thesis by (auto simp: c_str_def)
qed

text \<open>A buffer that is full of characters without an end makes the decoder write one byte behind it.\<close>

lemma url_decode_full:
  assumes "list_all unreserved b" "p \<le> length b"
  shows "url_decode_loop (length b) p p b = None"
  using assms(2)
proof (induction "length b - p" arbitrary: p)
  case (Suc n)
  then have "unreserved (b ! p)" using assms(1) by (simp add: list_all_length)
  moreover have "b[p := b ! p] = b" by simp
  ultimately show ?case
    using Suc unreserved_plain [of "b ! p"] by (subst url_decode_loop.simps) simp
qed (simp add: url_decode_loop.simps)

lemma url_decode_overrun: "list_all unreserved b \<Longrightarrow> urlDecodeInplace b (length b) = None"
  by (simp add: urlDecodeInplace_def url_decode_full)

section \<open>Versions\<close>

text \<open>The numbers of a version.\<close>

function numbers :: "bytes \<Rightarrow> int list" where
  "numbers s = (if s = [] then [] else number_loop 0 s # numbers (skip_number s))"
  by pat_completeness auto
termination by (relation "measure length") (auto simp: skip_number_less)

declare numbers.simps [simp del]

text \<open>Lexicographic comparison in which missing numbers count as zero.\<close>

fun compare_numbers :: "int list \<Rightarrow> int list \<Rightarrow> int" where
  "compare_numbers [] [] = 0"
| "compare_numbers (a # as) [] = (if a > 0 then 1 else if a < 0 then - 1 else compare_numbers as [])"
| "compare_numbers [] (b # bs) = (if 0 > b then 1 else if 0 < b then - 1 else compare_numbers [] bs)"
| "compare_numbers (a # as) (b # bs) = (if a > b then 1 else if a < b then - 1 else compare_numbers as bs)"

lemma numbers_Nil [simp]: "numbers [] = []"
  by (simp add: numbers.simps)

lemma semver_loop_numbers: "semver_loop p1 p2 = compare_numbers (numbers p1) (numbers p2)"
proof (induction p1 p2 rule: semver_loop.induct)
  case (1 p1 p2)
  then show ?case
    by (cases "p1 = []"; cases "p2 = []")
       (auto simp: semver_loop.simps [of p1 p2] semver_loop.simps [of p1 "[]"] semver_loop.simps [of "[]" p2] numbers.simps [of p1] numbers.simps [of p2] semver_loop.simps [of "[]" "[]"] Let_def)
qed

lemma compare_swap: "compare_numbers b a = - compare_numbers a b"
  by (induction a b rule: compare_numbers.induct) auto

text \<open>Position \<open>i\<close> of a version, zero behind its end.\<close>

definition part :: "int list \<Rightarrow> nat \<Rightarrow> int" where
  "part xs i = (if i < length xs then xs ! i else 0)"

lemma part_simps [simp]: "part [] i = 0" "part (x # xs) 0 = x" "part (x # xs) (Suc i) = part xs i"
  by (simp_all add: part_def)

lemma first_difference:
  fixes f g :: "nat \<Rightarrow> int"
  shows "(\<exists>n. (\<forall>i < n. f i = g i) \<and> f n < g n) \<longleftrightarrow>
    f 0 < g 0 \<or> f 0 = g 0 \<and> (\<exists>n. (\<forall>i < n. f (Suc i) = g (Suc i)) \<and> f (Suc n) < g (Suc n))" (is "?l \<longleftrightarrow> ?r")
proof
  assume ?l
  then obtain n where n: "\<forall>i < n. f i = g i" "f n < g n" by blast
  show ?r
  proof (cases n)
    case (Suc m)
    then have "f 0 = g 0" "\<forall>i < m. f (Suc i) = g (Suc i)" using n(1) by simp_all
    with n(2) Suc show ?thesis by blast
  qed (use n in simp)
next
  assume ?r
  then show ?l
  proof (elim disjE conjE exE)
    assume "f 0 < g 0"
    then show ?l by (intro exI [of _ 0]) simp
  next
    fix n
    assume "f 0 = g 0" "\<forall>i < n. f (Suc i) = g (Suc i)" "f (Suc n) < g (Suc n)"
    then show ?l by (intro exI [of _ "Suc n"]) (simp add: All_less_Suc2)
  qed
qed

lemma compare_less: "compare_numbers a b = - 1 \<longleftrightarrow> (\<exists>n. (\<forall>i < n. part a i = part b i) \<and> part a n < part b n)"
proof (induction a b rule: compare_numbers.induct)
  case (2 a as)
  then show ?case by (subst first_difference) auto
next
  case (3 b bs)
  then show ?case by (subst first_difference) auto
next
  case (4 a as b bs)
  then show ?case by (subst first_difference) auto
qed simp

lemma compare_range: "compare_numbers a b \<in> {- 1, 0, 1}"
  by (induction a b rule: compare_numbers.induct) auto

lemma compare_trans:
  assumes "compare_numbers a b = - 1" "compare_numbers b c = - 1"
  shows "compare_numbers a c = - 1"
proof -
  obtain n m where n: "\<forall>i < n. part a i = part b i" "part a n < part b n" and m: "\<forall>i < m. part b i = part c i" "part b m < part c m"
    using assms by (auto simp: compare_less)
  have "(\<forall>i < min n m. part a i = part c i) \<and> part a (min n m) < part c (min n m)"
    using n m by (cases n m rule: linorder_cases) (auto simp: min_def)
  then show ?thesis unfolding compare_less by blast
qed

text \<open>The order of versions.  \<open>compareSemVer\<close> returns for every pair of versions, with the result -1, 0 or 1 of the lexicographic
  comparison of their numbers, where missing numbers count as zero; exchanging the versions negates the result, and being older is
  transitive, so that the newest of several versions is well defined.\<close>

theorem semver_order:
  "compareSemVer (Some a) (Some b) \<in> {- 1, 0, 1} \<and> compareSemVer (Some b) (Some a) = - compareSemVer (Some a) (Some b) \<and>
   (compareSemVer (Some a) (Some b) = - 1 \<longleftrightarrow> (\<exists>n. (\<forall>i < n. part (numbers (c_str a)) i = part (numbers (c_str b)) i) \<and>
      part (numbers (c_str a)) n < part (numbers (c_str b)) n)) \<and>
   (compareSemVer (Some a) (Some b) = - 1 \<and> compareSemVer (Some b) (Some c) = - 1 \<longrightarrow> compareSemVer (Some a) (Some c) = - 1)"
proof -
  have eq: "compareSemVer (Some x) (Some y) = compare_numbers (numbers (c_str x)) (numbers (c_str y))" for x y
    by (simp add: compareSemVer_def semver_loop_numbers)
  show ?thesis unfolding eq by (intro conjI compare_range compare_swap compare_less impI; elim conjE; rule compare_trans)
qed

theorem semver_order_witness:
  "compareSemVer (Some [50, 46, 49]) (Some [50, 46, 49, 48]) = - 1 \<and>
   compareSemVer (Some [50, 46, 49, 48]) (Some [50, 46, 49]) = - compareSemVer (Some [50, 46, 49]) (Some [50, 46, 49, 48])"
proof -
  have "compareSemVer (Some [50, 46, 49]) (Some [50, 46, 49, 48]) = - 1" by code_simp
  with semver_order [of "[50, 46, 49]" "[50, 46, 49, 48]"] show ?thesis by blast
qed

section \<open>Bits and signal strength\<close>

lemma bit_number_loop_pow: "k < 64 \<Longrightarrow> bit_number_loop (2 ^ k) p = Some (p + k)"
proof (induction k arbitrary: p)
  case 0
  then show ?case by (simp add: bit_number_loop.simps)
next
  case (Suc k)
  have "(2 ^ Suc k :: u64) \<noteq> 0" using Suc.prems by (simp del: power_Suc)
  moreover have "(2 ^ Suc k :: u64) AND 1 \<noteq> 1" by (simp add: and_one_eq mod_2_eq_odd)
  moreover have "drop_bit 1 (2 ^ Suc k :: u64) = 2 ^ k"
    using Suc.prems by (intro bit_word_eqI) (auto simp: bit_simps)
  ultimately show ?case using Suc by (subst bit_number_loop.simps) simp
qed

lemma getBitNumber_pow: "k < 64 \<Longrightarrow> getBitNumber (2 ^ k) = Some k"
proof -
  assume k: "k < 64"
  have "(2 ^ k :: u64) AND (2 ^ k - 1) = 0"
    unfolding mask_eq_exp_minus_1 [symmetric] by (rule bit_word_eqI) (auto simp: bit_simps)
  moreover have "(2 ^ k :: u64) \<noteq> 0" using k by simp
  ultimately show ?thesis using bit_number_loop_pow [OF k, of 0] by (simp add: getBitNumber_def)
qed

text \<open>The signal strength is a percentage for every input; no input divides by zero.\<close>

lemma rssi_bounds: "0 \<le> rssiToSignalStrength rssi rssiZero \<and> rssiToSignalStrength rssi rssiZero \<le> 100"
proof (cases "rssi > - 50 \<or> rssi \<le> rssiZero")
  case False
  define a where "a = rssi - rssiZero"
  define b where "b = - rssiZero - 50"
  have ab: "0 < a" "a \<le> b" using False by (simp_all add: a_def b_def)
  have "rssiToSignalStrength rssi rssiZero = (a * 100) div b"
    using False ab by (simp add: rssiToSignalStrength_def c_div_def a_def b_def sgn_if abs_if algebra_simps)
  moreover have "(a * 100) div b \<le> (b * 100) div b" using ab by (intro zdiv_mono1) auto
  ultimately show ?thesis using ab by (simp add: pos_imp_zdiv_nonneg_iff)
qed (auto simp: rssiToSignalStrength_def)

section \<open>Names\<close>

definition SUPLA_MFR_ACSOFTWARE :: u32 where [chan_consts]: "SUPLA_MFR_ACSOFTWARE = 1"
definition SUPLA_MFR_TRANSCOM :: u32 where [chan_consts]: "SUPLA_MFR_TRANSCOM = 2"
definition SUPLA_MFR_LOGI :: u32 where [chan_consts]: "SUPLA_MFR_LOGI = 3"
definition SUPLA_MFR_ZAMEL :: u32 where [chan_consts]: "SUPLA_MFR_ZAMEL = 4"
definition SUPLA_MFR_NICE :: u32 where [chan_consts]: "SUPLA_MFR_NICE = 5"
definition SUPLA_MFR_ITEAD :: u32 where [chan_consts]: "SUPLA_MFR_ITEAD = 6"
definition SUPLA_MFR_DOYLETRATT :: u32 where [chan_consts]: "SUPLA_MFR_DOYLETRATT = 7"
definition SUPLA_MFR_HEATPOL :: u32 where [chan_consts]: "SUPLA_MFR_HEATPOL = 8"
definition SUPLA_MFR_FAKRO :: u32 where [chan_consts]: "SUPLA_MFR_FAKRO = 9"
definition SUPLA_MFR_PEVEKO :: u32 where [chan_consts]: "SUPLA_MFR_PEVEKO = 10"
definition SUPLA_MFR_WEKTA :: u32 where [chan_consts]: "SUPLA_MFR_WEKTA = 11"
definition SUPLA_MFR_STA_SYSTEM :: u32 where [chan_consts]: "SUPLA_MFR_STA_SYSTEM = 12"
definition SUPLA_MFR_DGF :: u32 where [chan_consts]: "SUPLA_MFR_DGF = 13"
definition SUPLA_MFR_COMELIT :: u32 where [chan_consts]: "SUPLA_MFR_COMELIT = 14"
definition SUPLA_MFR_ERGO_ENERGIA :: u32 where [chan_consts]: "SUPLA_MFR_ERGO_ENERGIA = 16"
definition SUPLA_MFR_SOMEF :: u32 where [chan_consts]: "SUPLA_MFR_SOMEF = 17"
definition SUPLA_MFR_AURATON :: u32 where [chan_consts]: "SUPLA_MFR_AURATON = 18"
definition SUPLA_MFR_HPD :: u32 where [chan_consts]: "SUPLA_MFR_HPD = 19"

definition getManufacturer :: "u32 \<Rightarrow> string" where
  "getManufacturer i =
     (if i = SUPLA_MFR_ACSOFTWARE then ''AC SOFTWARE''
      else if i = SUPLA_MFR_TRANSCOM then ''TransCom''
      else if i = SUPLA_MFR_LOGI then ''Logi''
      else if i = SUPLA_MFR_ZAMEL then ''Zamel''
      else if i = SUPLA_MFR_NICE then ''Nice''
      else if i = SUPLA_MFR_ITEAD then ''Itead''
      else if i = SUPLA_MFR_DOYLETRATT then ''Doyle & Tratt''
      else if i = SUPLA_MFR_HEATPOL then ''Heatpol''
      else if i = SUPLA_MFR_FAKRO then ''Fakro''
      else if i = SUPLA_MFR_PEVEKO then ''Peveko''
      else if i = SUPLA_MFR_WEKTA then ''Wekta''
      else if i = SUPLA_MFR_STA_SYSTEM then ''STA-System''
      else if i = SUPLA_MFR_DGF then ''DGF''
      else if i = SUPLA_MFR_COMELIT then ''Comelit''
      else if i = SUPLA_MFR_ERGO_ENERGIA then ''ERGO energia''
      else if i = SUPLA_MFR_SOMEF then ''Somef''
      else if i = SUPLA_MFR_AURATON then ''Auraton''
      else if i = SUPLA_MFR_HPD then ''HPD''
      else ''Unknown'')"

definition getRelayChannelName :: "u32 \<Rightarrow> string" where
  "getRelayChannelName i =
     (if i = SUPLA_CHANNELFNC_POWERSWITCH then ''Power switch''
      else if i = SUPLA_CHANNELFNC_LIGHTSWITCH then ''Light switch''
      else if i = SUPLA_CHANNELFNC_CONTROLLINGTHEGATE then ''Gate''
      else if i = SUPLA_CHANNELFNC_CONTROLLINGTHEDOORLOCK then ''Door lock''
      else if i = SUPLA_CHANNELFNC_CONTROLLINGTHEGARAGEDOOR then ''Garage door''
      else if i = SUPLA_CHANNELFNC_CONTROLLINGTHEGATEWAYLOCK then ''Gateway lock''
      else if i = SUPLA_CHANNELFNC_CONTROLLINGTHEROLLERSHUTTER then ''Roller shutter''
      else if i = SUPLA_CHANNELFNC_CONTROLLINGTHEROOFWINDOW then ''Roof window''
      else if i = SUPLA_CHANNELFNC_TERRACE_AWNING then ''Terrace awning''
      else if i = SUPLA_CHANNELFNC_ROLLER_GARAGE_DOOR then ''Roller garage door''
      else if i = SUPLA_CHANNELFNC_CURTAIN then ''Curtain''
      else if i = SUPLA_CHANNELFNC_PROJECTOR_SCREEN then ''Projector screen''
      else if i = SUPLA_CHANNELFNC_VERTICAL_BLIND then ''Vertical blind''
      else if i = SUPLA_CHANNELFNC_CONTROLLINGTHEFACADEBLIND then ''Facade blind''
      else if i = SUPLA_CHANNELFNC_HEATORCOLDSOURCESWITCH then ''Heater/cooling switch''
      else if i = SUPLA_CHANNELFNC_PUMPSWITCH then ''Pump switch''
      else ''Relay'')"

definition getBinarySensorChannelName :: "u32 \<Rightarrow> string" where
  "getBinarySensorChannelName i =
     (if i = SUPLA_CHANNELFNC_OPENINGSENSOR_GATEWAY then ''Gateway sensor''
      else if i = SUPLA_CHANNELFNC_OPENINGSENSOR_DOOR then ''Door sensor''
      else if i = SUPLA_CHANNELFNC_OPENINGSENSOR_GATE then ''Gate sensor''
      else if i = SUPLA_CHANNELFNC_OPENINGSENSOR_GARAGEDOOR then ''Garage door sensor''
      else if i = SUPLA_CHANNELFNC_NOLIQUIDSENSOR then ''Liquid sensor''
      else if i = SUPLA_CHANNELFNC_FLOOD_SENSOR then ''Flood sensor''
      else if i = SUPLA_CHANNELFNC_CONTAINER_LEVEL_SENSOR then ''Container level sensor''
      else if i = SUPLA_CHANNELFNC_OPENINGSENSOR_ROLLERSHUTTER then ''Roller shutter sensor''
      else if i = SUPLA_CHANNELFNC_OPENINGSENSOR_ROOFWINDOW then ''Roof window sensor''
      else if i = SUPLA_CHANNELFNC_OPENINGSENSOR_WINDOW then ''Window sensor''
      else if i = SUPLA_CHANNELFNC_HOTELCARDSENSOR then ''Hotel card sensor''
      else if i = SUPLA_CHANNELFNC_ALARMARMAMENTSENSOR then ''Alarm armament sensor''
      else if i = SUPLA_CHANNELFNC_MAILSENSOR then ''Mail sensor''
      else if i = SUPLA_CHANNELFNC_MOTION_SENSOR then ''Motion sensor''
      else ''Binary sensor'')"

end
