(* ===== verification/Register_Device.thy ===== *)
theory Register_Device
  imports Channel_Laws Text_Tools "HOL-Library.Multiset"
begin

text \<open>
  The list of channels and the registration header: \<open>Channel::Channel\<close>, \<open>Channel::~Channel\<close> and the numbering of channels in
  \<open>src/src/supla/channels/channel.cpp\<close> and \<open>src/src/supla/device/register_device.cpp\<close>.

  The record has the static state of both files: the list of all channels in the order of their construction (\<open>Channel::firstPtr\<close>),
  the first number for automatic numbering, and the members of \<open>reg_dev\<close>.  A pointer to a channel is its position in the
  list.
\<close>

section \<open>State\<close>

record RegisterDevice =
  channels :: "Channel list"
  startingChannelNumber :: int
  rd_Email :: bytes
  rd_AuthKey :: bytes
  rd_GUID :: bytes
  rd_Name :: bytes
  rd_SoftVer :: bytes
  rd_ServerName :: bytes
  rd_Flags :: u32
  rd_ManufacturerID :: u16
  rd_ProductID :: u16
  rd_channel_count :: u8

definition RegisterDevice_init :: RegisterDevice where
  "RegisterDevice_init = \<lparr>channels = [], startingChannelNumber = 0, rd_Email = replicate SUPLA_EMAIL_MAXSIZE 0,
     rd_AuthKey = replicate SUPLA_AUTHKEY_SIZE 0, rd_GUID = replicate SUPLA_GUID_SIZE 0,
     rd_Name = replicate SUPLA_DEVICE_NAME_MAXSIZE 0, rd_SoftVer = replicate SUPLA_SOFTVER_MAXSIZE 0,
     rd_ServerName = replicate SUPLA_SERVER_NAME_MAXSIZE 0, rd_Flags = 0, rd_ManufacturerID = 0, rd_ProductID = 0, rd_channel_count = 0\<rparr>"

text \<open>The bytes of the packed header.\<close>

definition getRegDevHeaderPtr :: "RegisterDevice \<Rightarrow> bytes" where
  "getRegDevHeaderPtr d = rd_Email d @ rd_AuthKey d @ rd_GUID d @ rd_Name d @ rd_SoftVer d @ rd_ServerName d @
     u32_bytes (rd_Flags d) @ u16_bytes (rd_ManufacturerID d) @ u16_bytes (rd_ProductID d) @ [rd_channel_count d]"

section \<open>Members of the header\<close>

definition rd_setGUID :: "bytes \<Rightarrow> RegisterDevice \<Rightarrow> RegisterDevice" where
  "rd_setGUID GUID d = d\<lparr>rd_GUID := take SUPLA_GUID_SIZE GUID\<rparr>"

definition rd_setAuthKey :: "bytes \<Rightarrow> RegisterDevice \<Rightarrow> RegisterDevice" where
  "rd_setAuthKey AuthKey d = d\<lparr>rd_AuthKey := take SUPLA_AUTHKEY_SIZE AuthKey\<rparr>"

definition fixed_string :: "bytes \<Rightarrow> nat \<Rightarrow> bytes" where
  "fixed_string s n = (strncpy s n)[n - 1 := 0]"

definition setSoftVer :: "bytes \<Rightarrow> RegisterDevice \<Rightarrow> RegisterDevice" where
  "setSoftVer SoftVer d = d\<lparr>rd_SoftVer := fixed_string SoftVer SUPLA_SOFTVER_MAXSIZE\<rparr>"

definition setName :: "bytes \<Rightarrow> RegisterDevice \<Rightarrow> RegisterDevice" where
  "setName Name d = d\<lparr>rd_Name := fixed_string Name SUPLA_DEVICE_NAME_MAXSIZE\<rparr>"

definition rd_setEmail :: "bytes \<Rightarrow> RegisterDevice \<Rightarrow> RegisterDevice" where
  "rd_setEmail email d = d\<lparr>rd_Email := fixed_string email SUPLA_EMAIL_MAXSIZE\<rparr>"

definition supla_suffix :: bytes where
  "supla_suffix = map of_char ''.supla.org''"

definition isSuplaPublicServerConfigured :: "bool \<Rightarrow> RegisterDevice \<Rightarrow> bool" where
  "isSuplaPublicServerConfigured sc d =
     (if rd_ServerName d ! 0 \<noteq> 0 then
        let serverLength = length (c_str (rd_ServerName d)); suffixLength = length supla_suffix
        in if serverLength > suffixLength then
             strncmpInsensitive sc (Some (drop (serverLength - suffixLength) (rd_ServerName d))) (Some supla_suffix) suffixLength = 0
           else False
      else False)"

definition setServerName :: "bool \<Rightarrow> bytes \<Rightarrow> RegisterDevice \<Rightarrow> RegisterDevice" where
  "setServerName sc server d =
     (let d = d\<lparr>rd_ServerName := fixed_string server SUPLA_SERVER_NAME_MAXSIZE\<rparr>
      in if isSuplaPublicServerConfigured sc d then
           if strncmpInsensitive sc (Some server) (Some (map of_char ''srv'')) 3 = 0 \<and> server ! 3 \<ge> 48 \<and> server ! 3 \<le> 57
           then d\<lparr>rd_ServerName := (rd_ServerName d)[1 := 118, 2 := 114]\<rparr>
           else d
         else d)"

definition isGUIDEmpty :: "RegisterDevice \<Rightarrow> bool" where
  "isGUIDEmpty d = isArrayEmpty (rd_GUID d)"

definition isAuthKeyEmpty :: "RegisterDevice \<Rightarrow> bool" where
  "isAuthKeyEmpty d = isArrayEmpty (rd_AuthKey d)"

definition isSoftVerEmpty :: "RegisterDevice \<Rightarrow> bool" where
  "isSoftVerEmpty d \<longleftrightarrow> length (c_str (rd_SoftVer d)) = 0"

definition isNameEmpty :: "RegisterDevice \<Rightarrow> bool" where
  "isNameEmpty d \<longleftrightarrow> length (c_str (rd_Name d)) = 0"

definition isServerNameEmpty :: "RegisterDevice \<Rightarrow> bool" where
  "isServerNameEmpty d \<longleftrightarrow> length (c_str (rd_ServerName d)) = 0"

definition isEmailEmpty :: "RegisterDevice \<Rightarrow> bool" where
  "isEmailEmpty d \<longleftrightarrow> length (c_str (rd_Email d)) = 0"

definition setManufacturerId :: "u16 \<Rightarrow> RegisterDevice \<Rightarrow> RegisterDevice" where
  "setManufacturerId mfrId d = d\<lparr>rd_ManufacturerID := mfrId\<rparr>"

definition setProductId :: "u16 \<Rightarrow> RegisterDevice \<Rightarrow> RegisterDevice" where
  "setProductId productId d = d\<lparr>rd_ProductID := productId\<rparr>"

definition addFlags :: "u32 \<Rightarrow> RegisterDevice \<Rightarrow> RegisterDevice" where
  "addFlags newFlags d = d\<lparr>rd_Flags := rd_Flags d OR newFlags\<rparr>"

definition removeFlags :: "u32 \<Rightarrow> RegisterDevice \<Rightarrow> RegisterDevice" where
  "removeFlags removedFlags d = d\<lparr>rd_Flags := rd_Flags d AND NOT removedFlags\<rparr>"

definition isSleepingDeviceEnabled :: "RegisterDevice \<Rightarrow> bool" where
  "isSleepingDeviceEnabled d \<longleftrightarrow> rd_Flags d AND 0x0020 \<noteq> 0"

definition isPairingSubdeviceEnabled :: "RegisterDevice \<Rightarrow> bool" where
  "isPairingSubdeviceEnabled d \<longleftrightarrow> rd_Flags d AND 0x0200 \<noteq> 0"

definition isRemoteDeviceConfigEnabled :: "RegisterDevice \<Rightarrow> bool" where
  "isRemoteDeviceConfigEnabled d \<longleftrightarrow> rd_Flags d AND 0x0080 \<noteq> 0"

definition isAutomaticFirmwareUpdateEnabled :: "RegisterDevice \<Rightarrow> bool" where
  "isAutomaticFirmwareUpdateEnabled d \<longleftrightarrow> rd_Flags d AND 0x8000 \<noteq> 0"

definition isSetCfgModePasswordEnabled :: "RegisterDevice \<Rightarrow> bool" where
  "isSetCfgModePasswordEnabled d \<longleftrightarrow> rd_Flags d AND 0x10000 \<noteq> 0"

section \<open>Channel numbers\<close>

definition setStartingChannelNumber :: "int \<Rightarrow> RegisterDevice \<Rightarrow> RegisterDevice" where
  "setStartingChannelNumber n d = d\<lparr>startingChannelNumber := (if n < 0 then 0 else n)\<rparr>"

fun max_number_loop :: "int \<Rightarrow> Channel list \<Rightarrow> int" where
  "max_number_loop m [] = m"
| "max_number_loop m (c # cs) = max_number_loop (if channelNumber c > m then channelNumber c else m) cs"

definition getMaxChannelNumberUsed :: "RegisterDevice \<Rightarrow> int" where
  "getMaxChannelNumberUsed d = max_number_loop (- 1) (channels d)"

fun number_used :: "int \<Rightarrow> Channel list \<Rightarrow> bool" where
  "number_used n [] = False"
| "number_used n (c # cs) = (if channelNumber c = n then True else number_used n cs)"

function next_free_loop :: "Channel list \<Rightarrow> int \<Rightarrow> int" where
  "next_free_loop cs candidate =
     (if candidate < int SUPLA_CHANNELMAXCOUNT then
        if \<not> number_used candidate cs then candidate else next_free_loop cs (candidate + 1)
      else - 1)"
  by pat_completeness auto
termination by (relation "measure (\<lambda>(cs, n). nat (int SUPLA_CHANNELMAXCOUNT - n))") auto

declare next_free_loop.simps [simp del]

definition getNextFreeChannelNumber :: "RegisterDevice \<Rightarrow> int" where
  "getNextFreeChannelNumber d = next_free_loop (channels d) (startingChannelNumber d)"

definition isChannelNumberFree :: "RegisterDevice \<Rightarrow> int \<Rightarrow> bool" where
  "isChannelNumberFree d n = (if n \<ge> int SUPLA_CHANNELMAXCOUNT then False else \<not> number_used n (channels d))"

definition addChannel :: "int \<Rightarrow> RegisterDevice \<Rightarrow> RegisterDevice" where
  "addChannel n d = (if n \<ge> int SUPLA_CHANNELMAXCOUNT \<or> n = - 1 then d else d\<lparr>rd_channel_count := rd_channel_count d + 1\<rparr>)"

definition removeChannel :: "int \<Rightarrow> RegisterDevice \<Rightarrow> RegisterDevice" where
  "removeChannel n d = (if n \<ge> int SUPLA_CHANNELMAXCOUNT \<or> n = - 1 then d else d\<lparr>rd_channel_count := rd_channel_count d - 1\<rparr>)"

definition getChannelCount :: "RegisterDevice \<Rightarrow> u8" where
  "getChannelCount d = rd_channel_count d"

text \<open>The member \<open>channelNumber\<close> has 16 bits.\<close>

definition int16 :: "int \<Rightarrow> int" where
  "int16 n = sint (of_int n :: u16)"

text \<open>The constructor puts the channel at the end of the list before it looks for a number.\<close>

definition newChannel :: "int \<Rightarrow> RegisterDevice \<Rightarrow> RegisterDevice" where
  "newChannel number d =
     (let d = d\<lparr>channels := channels d @ [Channel_init]\<rparr>
      in if number = - 1 \<and> getNextFreeChannelNumber d = - 1 then d
         else
           let number = (if number = - 1 then getNextFreeChannelNumber d else number)
           in if \<not> isChannelNumberFree d number then d
              else
                let d = addChannel number (d\<lparr>channels := butlast (channels d) @ [Channel_init\<lparr>channelNumber := int16 number\<rparr>]\<rparr>)
                in d\<lparr>channels := butlast (channels d) @ [setFlag SUPLA_CHANNEL_FLAG_CHANNELSTATE (last (channels d))]\<rparr>)"

definition deleteChannel :: "nat \<Rightarrow> RegisterDevice \<Rightarrow> RegisterDevice" where
  "deleteChannel i d =
     (let d = removeChannel (channelNumber (channels d ! i)) d
      in d\<lparr>channels := take i (channels d) @ drop (Suc i) (channels d)\<rparr>)"

fun GetByChannelNumber :: "Channel list \<Rightarrow> int \<Rightarrow> nat option" where
  "GetByChannelNumber [] n = None"
| "GetByChannelNumber (c # cs) n = (if channelNumber c \<noteq> n then map_option Suc (GetByChannelNumber cs n) else Some 0)"

definition set_number :: "nat \<Rightarrow> int \<Rightarrow> RegisterDevice \<Rightarrow> RegisterDevice" where
  "set_number i n d = d\<lparr>channels := (channels d)[i := (channels d ! i)\<lparr>channelNumber := int16 n\<rparr>]\<rparr>"

text \<open>\<open>setChannelNumber\<close> calls itself for the channel that has the number; the depth of the calls is limited by \<open>fuel\<close>.  The
  callee has the number -1 of the caller out of its way, so one nested call is enough.\<close>

fun setChannelNumber_fuel :: "nat \<Rightarrow> nat \<Rightarrow> int \<Rightarrow> RegisterDevice \<Rightarrow> (RegisterDevice \<times> bool) option" where
  "setChannelNumber_fuel 0 i newChannelNumber d = None"
| "setChannelNumber_fuel (Suc fuel) i newChannelNumber d =
     (let oldChannelNumber = channelNumber (channels d ! i)
      in if newChannelNumber < 0 \<or> oldChannelNumber < 0 then Some (d, False)
         else if newChannelNumber = oldChannelNumber then Some (d, True)
         else if \<not> isChannelNumberFree d newChannelNumber then
           let d = set_number i (- 1) d
           in case GetByChannelNumber (channels d) newChannelNumber of
                Some j \<Rightarrow>
                  (case setChannelNumber_fuel fuel j oldChannelNumber d of
                     Some (d, r) \<Rightarrow> Some (set_number i newChannelNumber d, True)
                   | None \<Rightarrow> None)
              | None \<Rightarrow> Some (set_number i newChannelNumber d, True)
         else Some (set_number i newChannelNumber d, True))"

definition setChannelNumber :: "nat \<Rightarrow> int \<Rightarrow> RegisterDevice \<Rightarrow> (RegisterDevice \<times> bool) option" where
  "setChannelNumber i n d = setChannelNumber_fuel (Suc (length (channels d))) i n d"

section \<open>Description of the channels\<close>

text \<open>The position of the channel that \<open>getChannelPtr_D\<close> and \<open>getChannelPtr_E\<close> reach; behind the end of the
  list the code would read through a null pointer, and the result is \<open>None\<close>.\<close>

definition channel_at :: "nat \<Rightarrow> RegisterDevice \<Rightarrow> nat option" where
  "channel_at index d = (if index < length (channels d) then Some index else None)"

definition getChannelPtr_D :: "int \<Rightarrow> RegisterDevice \<Rightarrow> (RegisterDevice \<times> bytes option) option" where
  "getChannelPtr_D index d =
     (if index \<ge> uint (rd_channel_count d) \<or> index = - 1 then Some (d, None)
      else
        case channel_at (nat index) d of
          None \<Rightarrow> None
        | Some i \<Rightarrow>
            let (c, s) = fillDeviceChannelStruct_D (channels d ! i) in Some (d\<lparr>channels := (channels d)[i := c]\<rparr>, Some s))"

definition getChannelPtr_E :: "int \<Rightarrow> RegisterDevice \<Rightarrow> (RegisterDevice \<times> bytes option) option" where
  "getChannelPtr_E index d =
     (if index \<ge> uint (rd_channel_count d) \<or> index = - 1 then Some (d, None)
      else
        case channel_at (nat index) d of
          None \<Rightarrow> None
        | Some i \<Rightarrow>
            let (c, s) = fillDeviceChannelStruct_E (channels d ! i) in Some (d\<lparr>channels := (channels d)[i := c]\<rparr>, Some s))"

section \<open>Numbers are unique\<close>

definition channel_numbers :: "RegisterDevice \<Rightarrow> int list" where
  "channel_numbers d = map channelNumber (channels d)"

definition given :: "int list \<Rightarrow> int list" where
  "given ns = filter (\<lambda>n. n \<noteq> - 1) ns"

text \<open>The invariant, when renumbering asks for numbers below \<open>lim\<close>: numbers are -1 (none) or below \<open>lim\<close>, no two channels have the
  same number, and the header counts the numbered channels if \<open>lim\<close> is the limit of the device.  The bound \<open>lim\<close> is
  at least that limit, and fits the 16 bits of the member.\<close>

definition lim_ok :: "int \<Rightarrow> bool" where
  "lim_ok lim \<longleftrightarrow> int SUPLA_CHANNELMAXCOUNT \<le> lim \<and> lim \<le> 2 ^ 15"

definition numbers_inv :: "int \<Rightarrow> RegisterDevice \<Rightarrow> bool" where
  "numbers_inv lim d \<longleftrightarrow>
     set (given (channel_numbers d)) \<subseteq> {0..<lim} \<and> distinct (given (channel_numbers d)) \<and>
     (lim = int SUPLA_CHANNELMAXCOUNT \<longrightarrow> unat (rd_channel_count d) = length (given (channel_numbers d))) \<and> 0 \<le> startingChannelNumber d"

lemma lim_ok_simps [simp]: "lim_ok (int SUPLA_CHANNELMAXCOUNT)" "lim_ok 32768"
  by (simp_all add: lim_ok_def SUPLA_CHANNELMAXCOUNT_def)

lemma given_simps [simp]: "given [] = []" "given (xs @ ys) = given xs @ given ys" "given (x # xs) = (if x = - 1 then given xs else x # given xs)"
  by (simp_all add: given_def)

lemma numbers_simps [simp]: "length (channel_numbers d) = length (channels d)" "channel_numbers (d\<lparr>channels := cs\<rparr>) = map channelNumber cs"
  by (simp_all add: channel_numbers_def)

lemma nth_numbers: "i < length (channels d) \<Longrightarrow> channelNumber (channels d ! i) = channel_numbers d ! i"
  by (simp add: channel_numbers_def)

lemma number_used_iff: "number_used n cs \<longleftrightarrow> n \<in> channelNumber ` set cs"
  by (induction cs) auto

lemma GetByChannelNumber_Some: "GetByChannelNumber cs n = Some j \<Longrightarrow> j < length cs \<and> channelNumber (cs ! j) = n"
  by (induction cs n arbitrary: j rule: GetByChannelNumber.induct) (auto split: if_splits)

lemma GetByChannelNumber_None: "GetByChannelNumber cs n = None \<longleftrightarrow> (\<forall>i < length cs. channelNumber (cs ! i) \<noteq> n)"
  by (induction cs n rule: GetByChannelNumber.induct) (auto simp: All_less_Suc2)

lemma next_free_loop_spec:
  "next_free_loop cs n = - 1 \<or> n \<le> next_free_loop cs n \<and> next_free_loop cs n < int SUPLA_CHANNELMAXCOUNT \<and> \<not> number_used (next_free_loop cs n) cs"
proof (induction cs n rule: next_free_loop.induct)
  case (1 cs n)
  then show ?case by (subst (1 2 3 4) next_free_loop.simps) auto
qed

lemma int16_id: "- 32768 \<le> n \<Longrightarrow> n < 32768 \<Longrightarrow> int16 n = n"
proof -
  assume n: "- 32768 \<le> n" "n < 32768"
  have "sint (of_int n :: u16) = signed_take_bit 15 n" by (simp add: signed_of_int)
  also have "\<dots> = n" using n by (simp add: signed_take_bit_int_eq_self)
  finally show "int16 n = n" by (simp add: int16_def)
qed

lemma given_bound: "numbers_inv (int SUPLA_CHANNELMAXCOUNT) d \<Longrightarrow> length (given (channel_numbers d)) \<le> SUPLA_CHANNELMAXCOUNT"
proof -
  assume d: "numbers_inv (int SUPLA_CHANNELMAXCOUNT) d"
  then have "card (set (given (channel_numbers d))) \<le> card {0..<int SUPLA_CHANNELMAXCOUNT}"
    by (intro card_mono) (auto simp: numbers_inv_def)
  then show ?thesis using d by (simp add: numbers_inv_def distinct_card)
qed

text \<open>A new channel comes to the end of the list, with a free number or without a number.\<close>

lemma newChannel_cases:
  assumes "- 1 \<le> n" "0 \<le> startingChannelNumber d"
  shows "\<exists>c. channels (newChannel n d) = channels d @ [c] \<and> startingChannelNumber (newChannel n d) = startingChannelNumber d \<and>
    ch_value c = replicate SUPLA_CHANNELVALUE_SIZE 0 \<and>
    (channelNumber c = - 1 \<and> rd_channel_count (newChannel n d) = rd_channel_count d \<or>
     0 \<le> channelNumber c \<and> channelNumber c < int SUPLA_CHANNELMAXCOUNT \<and> \<not> number_used (channelNumber c) (channels d) \<and>
     rd_channel_count (newChannel n d) = rd_channel_count d + 1)"
proof -
  let ?d = "d\<lparr>channels := channels d @ [Channel_init]\<rparr>"
  let ?n = "if n = - 1 then getNextFreeChannelNumber ?d else n"
  show ?thesis
  proof (cases "n = - 1 \<and> getNextFreeChannelNumber ?d = - 1 \<or> \<not> isChannelNumberFree ?d ?n")
    case True
    then show ?thesis by (auto simp: newChannel_def Let_def Channel_init_def)
  next
    case False
    have free: "isChannelNumberFree ?d ?n" using False by blast
    have r: "0 \<le> ?n" "?n < int SUPLA_CHANNELMAXCOUNT" "\<not> number_used ?n (channels d)"
      using next_free_loop_spec [of "channels ?d" "startingChannelNumber d"] False assms free
      by (auto simp: getNextFreeChannelNumber_def isChannelNumberFree_def number_used_iff nth_append split: if_splits)
    then have "int16 ?n = ?n" by (intro int16_id) (simp_all add: SUPLA_CHANNELMAXCOUNT_def)
    then show ?thesis
      using False r by (auto simp: newChannel_def addChannel_def setFlag_def Channel_init_def Let_def)
  qed
qed

lemma newChannel_inv:
  assumes "numbers_inv lim d" "- 1 \<le> n" "lim_ok lim"
  shows "numbers_inv lim (newChannel n d)"
proof -
  let ?d = "newChannel n d"
  have s: "0 \<le> startingChannelNumber d" using assms by (simp add: numbers_inv_def)
  obtain c where c: "channels ?d = channels d @ [c]" "startingChannelNumber ?d = startingChannelNumber d"
    "channelNumber c = - 1 \<and> rd_channel_count ?d = rd_channel_count d \<or>
     0 \<le> channelNumber c \<and> channelNumber c < int SUPLA_CHANNELMAXCOUNT \<and> \<not> number_used (channelNumber c) (channels d) \<and>
     rd_channel_count ?d = rd_channel_count d + 1"
    using newChannel_cases [OF assms(2) s] by blast
  have num: "channel_numbers ?d = channel_numbers d @ [channelNumber c]" using c by (simp add: channel_numbers_def)
  have fresh: "number_used (channelNumber c) (channels d) \<longleftrightarrow> channelNumber c \<in> set (channel_numbers d)"
    by (simp add: number_used_iff channel_numbers_def)
  have "unat (rd_channel_count d + 1) = Suc (unat (rd_channel_count d))" if "lim = int SUPLA_CHANNELMAXCOUNT"
    using given_bound [OF assms(1) [unfolded that]] assms(1) that
    by (simp add: numbers_inv_def SUPLA_CHANNELMAXCOUNT_def unat_word_ariths(1))
  then show ?thesis
    using c(2,3) fresh assms(1,3) unfolding numbers_inv_def num by (auto simp: given_def lim_ok_def)
qed

lemma drop_nth_split: "i < length xs \<Longrightarrow> \<exists>as bs. xs = as @ xs ! i # bs \<and> length as = i \<and> take i xs @ drop (Suc i) xs = as @ bs"
  by (rule exI [of _ "take i xs"], rule exI [of _ "drop (Suc i) xs"]) (simp add: id_take_nth_drop [symmetric])

lemma deleteChannel_inv:
  assumes "numbers_inv lim d" "i < length (channels d)"
  shows "numbers_inv lim (deleteChannel i d)"
proof -
  obtain as bs where s: "channels d = as @ channels d ! i # bs" "take i (channels d) @ drop (Suc i) (channels d) = as @ bs"
    using drop_nth_split [OF assms(2)] by metis
  let ?n = "channelNumber (channels d ! i)"
  have num: "channel_numbers d = map channelNumber as @ ?n # map channelNumber bs"
    using arg_cong [OF s(1), of "map channelNumber"] by (simp add: channel_numbers_def)
  have rest: "channels (deleteChannel i d) = as @ bs" "startingChannelNumber (deleteChannel i d) = startingChannelNumber d"
    "rd_channel_count (deleteChannel i d) =
      (if ?n \<ge> int SUPLA_CHANNELMAXCOUNT \<or> ?n = - 1 then rd_channel_count d else rd_channel_count d - 1)"
    using s(2) by (auto simp: deleteChannel_def removeChannel_def Let_def)
  have num': "channel_numbers (deleteChannel i d) = map channelNumber as @ map channelNumber bs"
    using rest(1) by (simp add: channel_numbers_def)
  have "unat (rd_channel_count d) = Suc m \<Longrightarrow> unat (rd_channel_count d - 1) = m" for m
    by (subst unat_minus_one) auto
  then show ?thesis
    using assms(1) unfolding numbers_inv_def num num' rest(2,3) by (auto split: if_splits)
qed

text \<open>A change of the number exchanges it with the channel that has the number, if there is one.\<close>

definition exchange :: "nat \<Rightarrow> int \<Rightarrow> int list \<Rightarrow> int list" where
  "exchange i n ns = (map (\<lambda>m. if m = n then ns ! i else m) ns)[i := n]"

lemma numbers_set_number [simp]:
  "channel_numbers (set_number i n d) = (channel_numbers d)[i := int16 n]"
  by (simp add: set_number_def channel_numbers_def map_update)

lemma set_number_rest [simp]:
  "length (channels (set_number i n d)) = length (channels d)"
  "rd_channel_count (set_number i n d) = rd_channel_count d" "startingChannelNumber (set_number i n d) = startingChannelNumber d"
  by (simp_all add: set_number_def)

lemma given_distinctD:
  assumes "distinct (given ns)" "i < length ns" "j < length ns" "ns ! i = ns ! j" "ns ! i \<noteq> - 1"
  shows "i = j"
  using assms
proof (induction ns arbitrary: i j)
  case (Cons n ns)
  have "n \<noteq> - 1 \<Longrightarrow> n \<notin> set ns" using Cons.prems(1) by (auto simp: given_def)
  then show ?case using Cons by (cases i; cases j) (auto split: if_splits)
qed simp

lemma exchange_fresh: "n \<notin> set ns \<Longrightarrow> exchange i n ns = ns[i := n]"
  by (simp add: exchange_def) (subst map_idI, auto)

lemma exchange_swap:
  assumes "distinct (given ns)" "i < length ns" "j < length ns" "ns ! j = n" "n \<noteq> - 1"
  shows "exchange i n ns = ns[j := ns ! i, i := n]"
proof -
  have "map (\<lambda>m. if m = n then ns ! i else m) ns = ns[j := ns ! i]"
  proof (rule nth_equalityI)
    fix k assume "k < length (map (\<lambda>m. if m = n then ns ! i else m) ns)"
    then have k: "k < length ns" by simp
    then have "ns ! k = n \<longleftrightarrow> k = j" using given_distinctD [OF assms(1) k assms(3)] assms(4,5) by auto
    then show "map (\<lambda>m. if m = n then ns ! i else m) ns ! k = ns[j := ns ! i] ! k" using k by (auto simp: nth_list_update)
  qed simp
  then show ?thesis by (simp add: exchange_def)
qed

lemma setChannelNumber_spec:
  assumes "numbers_inv lim d" "lim_ok lim" "i < length (channels d)" "0 \<le> n" "n < lim" "channel_numbers d ! i \<noteq> - 1"
  obtains d' where "setChannelNumber i n d = Some (d', True)" "channel_numbers d' = exchange i n (channel_numbers d)"
    "rd_channel_count d' = rd_channel_count d" "startingChannelNumber d' = startingChannelNumber d"
proof -
  let ?old = "channel_numbers d ! i" and ?d = "set_number i (- 1) d"
  have i: "i < length (channel_numbers d)" using assms(3) by simp
  have mem: "?old \<in> set (given (channel_numbers d))" using i assms(6) by (simp add: given_def)
  then have old: "0 \<le> ?old" "?old < lim" using assms(1) by (auto simp: numbers_inv_def)
  have i16: "int16 n = n" "int16 ?old = ?old" "int16 (- 1) = - 1"
    using assms(2,4,5) old by (auto intro!: int16_id simp: lim_ok_def)
  have dist: "distinct (given (channel_numbers d))" using assms(1) by (simp add: numbers_inv_def)
  have used: "isChannelNumberFree e k \<longleftrightarrow> k < int SUPLA_CHANNELMAXCOUNT \<and> k \<notin> set (channel_numbers e)" for e k
    by (auto simp: isChannelNumberFree_def number_used_iff channel_numbers_def)
  have none: "GetByChannelNumber (channels e) k = None \<longleftrightarrow> k \<notin> set (channel_numbers e)" for e k
    unfolding GetByChannelNumber_None channel_numbers_def by (force simp: in_set_conv_nth)
  have top: "setChannelNumber_fuel (Suc f) k m e = Some (if isChannelNumberFree e m then set_number k m e else set_number k m (set_number k (- 1) e), True)"
    if "0 \<le> m" "0 \<le> channel_numbers e ! k" "k < length (channels e)" "m \<notin> set (channel_numbers e)" "int16 (- 1) = - 1" for f k m e
  proof -
    have "m \<noteq> channel_numbers e ! k" using that(3,4) by auto
    moreover have "m \<notin> set (channel_numbers (set_number k (- 1) e))"
      using that(1,4,5) by (auto dest!: set_update_subset_insert [THEN subsetD])
    ultimately show ?thesis using that(1-3) none [of "set_number k (- 1) e" m] by (simp add: nth_numbers)
  qed
  consider (same) "n = ?old" | (unused) "n \<noteq> ?old" "n \<notin> set (channel_numbers d)" | (swap) "n \<noteq> ?old" "n \<in> set (channel_numbers d)" by blast
  then show thesis
  proof cases
    case same
    then have "setChannelNumber i n d = Some (d, True)"
      using assms(3,4) old by (simp add: setChannelNumber_def nth_numbers)
    moreover have "exchange i n (channel_numbers d) = channel_numbers d" using same i by (simp add: exchange_def map_idI)
    ultimately show thesis using that by simp
  next
    case unused
    then show thesis
      using that top [OF assms(4) old(1) assms(3) unused(2) i16(3), of "length (channels d)"] i16
      by (simp add: exchange_fresh setChannelNumber_def split: if_splits)
  next
    case swap
    obtain j where j: "GetByChannelNumber (channels ?d) n = Some j"
      using swap i i16 assms(4) GetByChannelNumber_None [of "channels ?d" n]
      by (auto simp: in_set_conv_nth nth_numbers nth_list_update) metis
    then have j': "j < length (channel_numbers d)" "j \<noteq> i" "channel_numbers d ! j = n"
      using GetByChannelNumber_Some [OF j] i i16 assms(4) by (auto simp: nth_numbers nth_list_update split: if_splits)
    have fresh: "?old \<notin> set (channel_numbers ?d)"
      using given_distinctD [OF dist i] assms(6) i16 i by (auto simp: in_set_conv_nth nth_list_update split: if_splits)
    obtain m where m: "length (channels d) = Suc m" using assms(3) by (cases "length (channels d)") auto
    define d1 where "d1 = (if isChannelNumberFree ?d ?old then set_number j ?old ?d else set_number j ?old (set_number j (- 1) ?d))"
    have "setChannelNumber_fuel (length (channels d)) j ?old ?d = Some (d1, True)"
      unfolding m d1_def using j' assms(4) i16 by (intro top [OF old(1) _ _ fresh]) (auto simp: nth_list_update)
    then have "setChannelNumber i n d = Some (set_number i n d1, True)"
      using assms(3,4) old swap used [of d n] j by (simp add: setChannelNumber_def nth_numbers)
    moreover have "channel_numbers d1 = (channel_numbers d)[i := - 1, j := ?old]" using i16 by (simp add: d1_def)
    moreover have "exchange i n (channel_numbers d) = (channel_numbers d)[i := - 1, j := ?old, i := n]"
      using exchange_swap [OF dist i j'(1,3)] assms(4) j' by (simp add: list_update_swap)
    ultimately show thesis using that i16 by (simp add: d1_def)
  qed
qed

lemma exchange_mset:
  assumes "distinct (given ns)" "i < length ns" "n \<in> set ns" "n \<noteq> - 1"
  shows "mset (exchange i n ns) = mset ns"
proof -
  obtain j where j: "j < length ns" "ns ! j = n" using assms(3) by (auto simp: in_set_conv_nth)
  show ?thesis using exchange_swap [OF assms(1,2) j assms(4)] mset_swap [OF assms(2) j(1)] j by simp
qed

lemma given_exchange:
  assumes "distinct (given ns)" "i < length ns" "ns ! i \<noteq> - 1" "n \<noteq> - 1"
  shows "distinct (given (exchange i n ns)) \<and> length (given (exchange i n ns)) = length (given ns) \<and>
    set (given (exchange i n ns)) \<subseteq> insert n (set (given ns))"
proof (cases "n \<in> set ns")
  case True
  then have "mset (given (exchange i n ns)) = mset (given ns)"
    using exchange_mset [OF assms(1,2) True assms(4)] by (simp add: given_def)
  then show ?thesis using assms(1) by (metis mset_eq_imp_distinct_iff mset_eq_length mset_eq_setD subset_insertI)
next
  case False
  obtain as bs where s: "ns = as @ ns ! i # bs" "length as = i" using drop_nth_split [OF assms(2)] by metis
  have e: "exchange i n ns = as @ n # bs"
    using exchange_fresh [OF False, of i] s by (metis list_update_length)
  have g: "given ns = given as @ ns ! i # given bs" using arg_cong [OF s(1), of given] assms(3) by simp
  have "n \<notin> set (given as) \<and> n \<notin> set (given bs)" using False arg_cong [OF s(1), of set] by (auto simp: given_def)
  then show ?thesis using assms(1,4) unfolding e g by auto
qed

lemma setChannelNumber_inv:
  assumes "numbers_inv lim d" "lim_ok lim" "i < length (channels d)" "n < lim" "setChannelNumber i n d = Some (d', r)"
  shows "numbers_inv lim d'"
proof (cases "n < 0 \<or> channel_numbers d ! i < 0")
  case True
  then have "d' = d" using assms(3,5) by (auto simp: setChannelNumber_def nth_numbers)
  then show ?thesis using assms(1) by simp
next
  case False
  then obtain e where e: "setChannelNumber i n d = Some (e, True)" "channel_numbers e = exchange i n (channel_numbers d)"
    "rd_channel_count e = rd_channel_count d" "startingChannelNumber e = startingChannelNumber d"
    using setChannelNumber_spec [OF assms(1-3) _ assms(4)] by fastforce
  then have "d' = e" using assms(5) by simp
  then show ?thesis
    using assms(1,3,4) False e given_exchange [of "channel_numbers d" i n] by (auto simp: numbers_inv_def)
qed

section \<open>Runs\<close>

text \<open>The members of the header have their declared sizes, and so has the value of each channel.\<close>

definition sizes_inv :: "RegisterDevice \<Rightarrow> bool" where
  "sizes_inv d \<longleftrightarrow>
     length (rd_Email d) = SUPLA_EMAIL_MAXSIZE \<and> length (rd_AuthKey d) = SUPLA_AUTHKEY_SIZE \<and> length (rd_GUID d) = SUPLA_GUID_SIZE \<and>
     length (rd_Name d) = SUPLA_DEVICE_NAME_MAXSIZE \<and> length (rd_SoftVer d) = SUPLA_SOFTVER_MAXSIZE \<and>
     length (rd_ServerName d) = SUPLA_SERVER_NAME_MAXSIZE \<and> (\<forall>c \<in> set (channels d). length (ch_value c) = SUPLA_CHANNELVALUE_SIZE)"

text \<open>The steps of a device: channels are constructed, destroyed and renumbered, an operation of a channel changes anything but its
  number, and the members of the header are set.  \<open>setChannelNumber\<close> does not check the number it is given; the argument \<open>lim\<close> of the
  relation is a bound on the numbers that the callers ask for, and what holds depends on it.\<close>

inductive device_step :: "int \<Rightarrow> RegisterDevice \<Rightarrow> RegisterDevice \<Rightarrow> bool" for lim where
  New: "- 1 \<le> n \<Longrightarrow> device_step lim d (newChannel n d)"
| Delete: "i < length (channels d) \<Longrightarrow> device_step lim d (deleteChannel i d)"
| Number: "i < length (channels d) \<Longrightarrow> n < lim \<Longrightarrow> setChannelNumber i n d = Some (d', r) \<Longrightarrow> device_step lim d d'"
| Start: "device_step lim d (setStartingChannelNumber n d)"
| Operate: "i < length (channels d) \<Longrightarrow> channelNumber c = channelNumber (channels d ! i) \<Longrightarrow>
    length (ch_value c) = SUPLA_CHANNELVALUE_SIZE \<Longrightarrow> device_step lim d (d\<lparr>channels := (channels d)[i := c]\<rparr>)"
| Guid: "length b = SUPLA_GUID_SIZE \<Longrightarrow> device_step lim d (rd_setGUID b d)"
| AuthKey: "length b = SUPLA_AUTHKEY_SIZE \<Longrightarrow> device_step lim d (rd_setAuthKey b d)"
| SoftVer: "device_step lim d (setSoftVer b d)"
| Name: "device_step lim d (setName b d)"
| Email: "device_step lim d (rd_setEmail b d)"
| Server: "device_step lim d (setServerName sc b d)"
| Manufacturer: "device_step lim d (setManufacturerId m d)"
| Product: "device_step lim d (setProductId m d)"
| Add_flags: "device_step lim d (addFlags f d)"
| Remove_flags: "device_step lim d (removeFlags f d)"

lemma length_fixed_string [simp]: "length (fixed_string s n) = n"
  by (simp add: fixed_string_def length_strncpy)

lemmas header_defs = rd_setGUID_def rd_setAuthKey_def setSoftVer_def setName_def rd_setEmail_def setServerName_def setManufacturerId_def
  setProductId_def addFlags_def removeFlags_def setStartingChannelNumber_def

lemma setServerName_rest [simp]:
  "channels (setServerName sc b d) = channels d" "rd_channel_count (setServerName sc b d) = rd_channel_count d"
  "startingChannelNumber (setServerName sc b d) = startingChannelNumber d"
  "length (rd_ServerName (setServerName sc b d)) = SUPLA_SERVER_NAME_MAXSIZE"
  "rd_Email (setServerName sc b d) = rd_Email d" "rd_AuthKey (setServerName sc b d) = rd_AuthKey d"
  "rd_GUID (setServerName sc b d) = rd_GUID d" "rd_Name (setServerName sc b d) = rd_Name d" "rd_SoftVer (setServerName sc b d) = rd_SoftVer d"
  by (simp_all add: setServerName_def Let_def)

lemma numbers_inv_cong:
  "numbers_inv lim d \<Longrightarrow> channel_numbers d' = channel_numbers d \<Longrightarrow> rd_channel_count d' = rd_channel_count d \<Longrightarrow> 0 \<le> startingChannelNumber d' \<Longrightarrow> numbers_inv lim d'"
  by (simp add: numbers_inv_def)

lemma numbers_inv_start: "numbers_inv lim d \<Longrightarrow> 0 \<le> startingChannelNumber d"
  by (simp add: numbers_inv_def)

lemma device_step_numbers: "device_step lim d d' \<Longrightarrow> lim_ok lim \<Longrightarrow> numbers_inv lim d \<Longrightarrow> numbers_inv lim d'"
proof (induction rule: device_step.induct)
  case (Operate i d c)
  have "map channelNumber ((channels d)[i := c]) = map channelNumber (channels d)"
    using Operate.hyps(1,2) by (metis map_update nth_map list_update_id)
  then show ?case
    using numbers_inv_start [OF Operate.prems(2)] by (intro numbers_inv_cong [OF Operate.prems(2)]) (simp_all add: channel_numbers_def)
next
  case (Server d sc b)
  then show ?case using numbers_inv_start by (intro numbers_inv_cong [OF Server(2)]) (simp_all add: channel_numbers_def)
next
  case (Number i d n d' r)
  then show ?case using setChannelNumber_inv by blast
qed (simp_all add: newChannel_inv deleteChannel_inv, simp_all add: numbers_inv_def channel_numbers_def header_defs)

lemma set_number_sizes: "sizes_inv d \<Longrightarrow> sizes_inv (set_number i n d)"
proof -
  assume d: "sizes_inv d"
  have "\<forall>c \<in> set (channels (set_number i n d)). length (ch_value c) = SUPLA_CHANNELVALUE_SIZE"
  proof (cases "i < length (channels d)")
    case True
    then have "length (ch_value (channels d ! i)) = SUPLA_CHANNELVALUE_SIZE" using d by (simp add: sizes_inv_def)
    then show ?thesis using d by (auto simp: set_number_def sizes_inv_def dest!: set_update_subset_insert [THEN subsetD])
  qed (use d in \<open>simp add: set_number_def sizes_inv_def list_update_beyond\<close>)
  then show ?thesis using d by (simp add: sizes_inv_def set_number_def)
qed

lemma setChannelNumber_sizes: "setChannelNumber_fuel k i n d = Some (d', r) \<Longrightarrow> sizes_inv d \<Longrightarrow> sizes_inv d'"
proof (induction k i n d arbitrary: d' r rule: setChannelNumber_fuel.induct)
  case (2 fuel i n d)
  show ?case
    using "2.prems" "2.IH" by (auto simp: set_number_sizes Let_def split: if_splits option.splits)
qed simp

lemma newChannel_header:
  "rd_Email (newChannel n d) = rd_Email d" "rd_AuthKey (newChannel n d) = rd_AuthKey d" "rd_GUID (newChannel n d) = rd_GUID d"
  "rd_Name (newChannel n d) = rd_Name d" "rd_SoftVer (newChannel n d) = rd_SoftVer d" "rd_ServerName (newChannel n d) = rd_ServerName d"
  by (simp_all add: newChannel_def addChannel_def Let_def)

lemma newChannel_sizes:
  assumes "sizes_inv d" "- 1 \<le> n" "0 \<le> startingChannelNumber d"
  shows "sizes_inv (newChannel n d)"
proof -
  obtain c where "channels (newChannel n d) = channels d @ [c]" "ch_value c = replicate SUPLA_CHANNELVALUE_SIZE 0"
    using newChannel_cases [OF assms(2,3)] by blast
  then show ?thesis using assms(1) by (auto simp: sizes_inv_def newChannel_header)
qed

lemma device_step_sizes: "device_step lim d d' \<Longrightarrow> numbers_inv lim d \<Longrightarrow> sizes_inv d \<Longrightarrow> sizes_inv d'"
proof (induction rule: device_step.induct)
  case (New n d)
  then show ?case by (simp add: newChannel_sizes numbers_inv_start)
next
  case (Delete i d)
  then show ?case
    by (auto simp: sizes_inv_def deleteChannel_def removeChannel_def Let_def dest: in_set_takeD in_set_dropD)
next
  case (Number i d n d' r)
  then show ?case using setChannelNumber_sizes unfolding setChannelNumber_def by blast
next
  case (Operate i d c)
  then show ?case by (auto simp: sizes_inv_def dest!: set_update_subset_insert [THEN subsetD])
next
  case (Server d sc b)
  then show ?case by (simp add: sizes_inv_def)
qed (auto simp: sizes_inv_def header_defs)

definition reg_inv :: "int \<Rightarrow> RegisterDevice \<Rightarrow> bool" where
  "reg_inv lim d \<longleftrightarrow> numbers_inv lim d \<and> sizes_inv d"

lemma reg_inv_init: "reg_inv lim RegisterDevice_init"
  unfolding reg_inv_def numbers_inv_def sizes_inv_def channel_numbers_def RegisterDevice_init_def by simp

lemma device_run_inv:
  assumes "(device_step lim)\<^sup>*\<^sup>* RegisterDevice_init d" "lim_ok lim"
  shows "reg_inv lim d"
  using assms(1)
  by (induction rule: rtranclp_induct)
    (auto simp: reg_inv_init [unfolded reg_inv_def] reg_inv_def assms(2) dest: device_step_numbers device_step_sizes)

lemma max_number_loop_eq: "max_number_loop m cs = Max (insert m (channelNumber ` set cs))"
proof (induction m cs rule: max_number_loop.induct)
  case (2 m c cs)
  have e: "insert m (channelNumber ` set (c # cs)) = insert m (insert (channelNumber c) (channelNumber ` set cs))" by auto
  show ?case unfolding e using 2 by (cases "set cs = {}") (auto simp: max_def)
qed simp

text \<open>C4. Channel numbers are unique.  After any run of the device that constructs channels with automatic or requested numbers (-1 or
  more), destroys them, operates on them and renumbers them, where the numbers that renumbering asks for fit the 16 bits of the member
  (\<open>setChannelNumber\<close> checks no limit): no two channels share a number, looking a number up finds the channel that has it, and
  automatic numbering yields a number that is free and not below the first one, or -1.  If the numbers that renumbering asks for are
  below \<open>SUPLA_CHANNELMAXCOUNT\<close>, then all numbers are below it and the header counts the numbered channels.\<close>

theorem channel_numbers_unique:
  assumes "(device_step (2 ^ 15))\<^sup>*\<^sup>* RegisterDevice_init d"
  shows "distinct (filter (\<lambda>n. n \<noteq> - 1) (channel_numbers d)) \<and> set (channel_numbers d) \<subseteq> {- 1..<2 ^ 15} \<and>
    (\<forall>i < length (channels d). channel_numbers d ! i \<noteq> - 1 \<longrightarrow> GetByChannelNumber (channels d) (channel_numbers d ! i) = Some i) \<and>
    (let n = getNextFreeChannelNumber d in n = - 1 \<or> startingChannelNumber d \<le> n \<and> isChannelNumberFree d n) \<and>
    ((device_step (int SUPLA_CHANNELMAXCOUNT))\<^sup>*\<^sup>* RegisterDevice_init d \<longrightarrow>
       set (channel_numbers d) \<subseteq> {- 1..<int SUPLA_CHANNELMAXCOUNT} \<and> getMaxChannelNumberUsed d < int SUPLA_CHANNELMAXCOUNT \<and>
       unat (getChannelCount d) = length (filter (\<lambda>n. n \<noteq> - 1) (channel_numbers d)))"
proof -
  have d: "numbers_inv (2 ^ 15) d" using device_run_inv [OF assms] by (simp add: reg_inv_def)
  then have n: "set (channel_numbers d) \<subseteq> {- 1..<2 ^ 15}" "distinct (given (channel_numbers d))"
    by (auto simp: numbers_inv_def given_def)
  have "let m = getNextFreeChannelNumber d in m = - 1 \<or> startingChannelNumber d \<le> m \<and> isChannelNumberFree d m"
    using next_free_loop_spec [of "channels d" "startingChannelNumber d"]
    by (auto simp: getNextFreeChannelNumber_def isChannelNumberFree_def Let_def)
  moreover have "GetByChannelNumber (channels d) (channel_numbers d ! i) = Some i" if i: "i < length (channels d)" "channel_numbers d ! i \<noteq> - 1" for i
  proof -
    obtain j where j: "GetByChannelNumber (channels d) (channel_numbers d ! i) = Some j"
      using GetByChannelNumber_None [of "channels d" "channel_numbers d ! i"] i by (metis not_None_eq nth_numbers)
    have j': "j < length (channels d)" "channelNumber (channels d ! j) = channel_numbers d ! i"
      using GetByChannelNumber_Some [OF j] by blast+
    then have "channel_numbers d ! i = channel_numbers d ! j" using nth_numbers [OF j'(1)] by simp
    then have "i = j" using given_distinctD [OF n(2), of i j] i j'(1) by simp
    then show ?thesis using j by simp
  qed
  moreover have "set (channel_numbers d) \<subseteq> {- 1..<int SUPLA_CHANNELMAXCOUNT} \<and> getMaxChannelNumberUsed d < int SUPLA_CHANNELMAXCOUNT \<and>
      unat (getChannelCount d) = length (given (channel_numbers d))"
    if "(device_step (int SUPLA_CHANNELMAXCOUNT))\<^sup>*\<^sup>* RegisterDevice_init d"
  proof -
    have m: "set (channel_numbers d) \<subseteq> {- 1..<int SUPLA_CHANNELMAXCOUNT}" "unat (getChannelCount d) = length (given (channel_numbers d))"
      using device_run_inv [OF that] by (auto simp: reg_inv_def numbers_inv_def given_def getChannelCount_def)
    then show ?thesis
      by (auto simp: getMaxChannelNumberUsed_def max_number_loop_eq channel_numbers_def SUPLA_CHANNELMAXCOUNT_def)
  qed
  ultimately show ?thesis using n unfolding given_def by blast
qed

lemmas run_into = rtranclp.rtrancl_into_rtrancl [where r = "device_step lim" for lim, rotated]

lemmas run_steps = Start [THEN run_into] New [THEN run_into] Delete [THEN run_into]

theorem channel_numbers_unique_witness:
  "let d = deleteChannel 0 (newChannel (- 1) (newChannel 5 (newChannel (- 1) (setStartingChannelNumber 4 RegisterDevice_init))))
   in channel_numbers d = [5, 6] \<and> unat (getChannelCount d) = 2 \<and> GetByChannelNumber (channels d) 6 = Some 1"
proof -
  define d where "d = deleteChannel 0 (newChannel (- 1) (newChannel 5 (newChannel (- 1) (setStartingChannelNumber 4 RegisterDevice_init))))"
  have n: "channel_numbers d = [5, 6]" unfolding d_def by code_simp
  then have l: "length (channels d) = 2" by (simp add: numbers_simps(1) [symmetric] del: numbers_simps)
  have "(device_step lim)\<^sup>*\<^sup>* RegisterDevice_init d" for lim
    unfolding d_def
    by (intro run_steps rtranclp.rtrancl_refl) (simp_all, code_simp)
  from channel_numbers_unique [OF this] this show ?thesis unfolding d_def [symmetric] by (simp add: Let_def n l All_less_Suc numeral_2_eq_2)
qed

text \<open>What the conditions are for: a number at or over the limit is stored (it is not free, and no channel has it); when that channel is
  destroyed, the count of the header stays; and a number that does not fit the member is cut, so that two channels get the same number.\<close>

lemma setChannelNumber_over_limit:
  "map_option (\<lambda>(d, r). (channel_numbers d, r, getChannelCount d, getChannelCount (deleteChannel 0 d)))
     (setChannelNumber 0 300 (newChannel (- 1) RegisterDevice_init)) = Some ([300], True, 1, 1)"
  by code_simp

lemma setChannelNumber_cut:
  "map_option (\<lambda>(d, r). (channel_numbers d, r))
     (setChannelNumber 0 (2 ^ 16 + 1) (newChannel (- 1) (newChannel (- 1) RegisterDevice_init))) = Some ([1, 1], True)"
  by code_simp

text \<open>Changing a channel's number.  In every reachable state and for every numbered channel and number that fits the member, \<open>setChannelNumber\<close>
  returns, reports success and exchanges the numbers of the channel and of the channel that had the number, if there was one;
  all other numbers and the count stay.  A negative number or a channel without a number changes nothing and is reported.\<close>

theorem set_channel_number_exchanges:
  assumes "(device_step (2 ^ 15))\<^sup>*\<^sup>* RegisterDevice_init d" "i < length (channels d)" "n < 2 ^ 15"
  shows "\<exists>d' r. setChannelNumber i n d = Some (d', r) \<and> getChannelCount d' = getChannelCount d \<and>
    (if n < 0 \<or> channel_numbers d ! i = - 1 then d' = d \<and> \<not> r
     else r \<and> channel_numbers d' =
       map (\<lambda>j. if j = i then n else if channel_numbers d ! j = n then channel_numbers d ! i else channel_numbers d ! j)
         [0..<length (channels d)])"
proof (cases "n < 0 \<or> channel_numbers d ! i = - 1")
  case True
  then show ?thesis using assms(2) by (auto simp: setChannelNumber_def nth_numbers)
next
  case False
  have d: "numbers_inv (2 ^ 15) d" using device_run_inv [OF assms(1)] by (simp add: reg_inv_def)
  obtain d' where "setChannelNumber i n d = Some (d', True)" "channel_numbers d' = exchange i n (channel_numbers d)"
    "rd_channel_count d' = rd_channel_count d"
    using setChannelNumber_spec [OF d _ assms(2) _ assms(3)] False by force
  moreover have "exchange i n (channel_numbers d) =
      map (\<lambda>j. if j = i then n else if channel_numbers d ! j = n then channel_numbers d ! i else channel_numbers d ! j) [0..<length (channels d)]"
    by (rule nth_equalityI) (auto simp: exchange_def nth_list_update)
  ultimately show ?thesis using False by (auto simp: getChannelCount_def)
qed

theorem set_channel_number_exchanges_witness:
  "\<exists>d'. setChannelNumber 0 1 (newChannel (- 1) (newChannel (- 1) RegisterDevice_init)) = Some (d', True) \<and> channel_numbers d' = [1, 0]"
proof -
  define d where "d = newChannel (- 1) (newChannel (- 1) RegisterDevice_init)"
  have n: "channel_numbers d = [0, 1]" unfolding d_def by code_simp
  then have l: "length (channels d) = 2" by (simp add: numbers_simps(1) [symmetric] del: numbers_simps)
  have "(device_step (2 ^ 15))\<^sup>*\<^sup>* RegisterDevice_init d"
    unfolding d_def by (intro run_steps rtranclp.rtrancl_refl) simp_all
  from set_channel_number_exchanges [OF this, of 0 1] show ?thesis
    unfolding d_def [symmetric] n l by (auto simp: upt_rec)
qed

end
