(* ===== verification/Channel_Config.thy ===== *)
theory Channel_Config
  imports Register_Device Config
begin

text \<open>
  The exchange of channel configurations with the server: \<open>src/src/supla/element_with_channel_actions.cpp\<close>, and the operations of
  \<open>src/src/supla/element.cpp\<close> it builds on.

  An element owns one channel.  The record has the members of the class and the configuration store of theory \<open>Config\<close>, \<open>None\<close> when the
  device has none; classes of particular elements extend it.  Their virtual methods are the record \<open>element_vt\<close>.  A configuration is the
  bytes of the member \<open>Config\<close> of the message, as many as \<open>ConfigSize\<close> says.  The protocol layers are the list of the results that
  \<open>setChannelConfig\<close> gives in each; \<open>iterateConfigExchange\<close> returns the configuration it passes to them.  Calls that only
  inform the protocol layers (\<open>notifyConfigChange\<close>) are left out.
\<close>

unbundle bit_operations_syntax

section \<open>Sets of configuration types\<close>

definition SUPLA_CONFIG_TYPE_DEFAULT :: u8 where [chan_consts]: "SUPLA_CONFIG_TYPE_DEFAULT = 0"
definition SUPLA_CONFIG_TYPE_WEEKLY_SCHEDULE :: u8 where [chan_consts]: "SUPLA_CONFIG_TYPE_WEEKLY_SCHEDULE = 2"
definition SUPLA_CONFIG_TYPE_ALT_WEEKLY_SCHEDULE :: u8 where [chan_consts]: "SUPLA_CONFIG_TYPE_ALT_WEEKLY_SCHEDULE = 3"
definition SUPLA_CONFIG_TYPE_OCR :: u8 where [chan_consts]: "SUPLA_CONFIG_TYPE_OCR = 4"
definition SUPLA_CONFIG_TYPE_EXTENDED :: u8 where [chan_consts]: "SUPLA_CONFIG_TYPE_EXTENDED = 5"
definition SUPLA_CHANNEL_FLAG_RUNTIME_CHANNEL_CONFIG_UPDATE :: u64 where
  [chan_consts]: "SUPLA_CHANNEL_FLAG_RUNTIME_CHANNEL_CONFIG_UPDATE = 134217728"
definition SUPLA_CONFIG_RESULT_FALSE :: u8 where [chan_consts]: "SUPLA_CONFIG_RESULT_FALSE = 0"
definition SUPLA_CONFIG_RESULT_TRUE :: u8 where [chan_consts]: "SUPLA_CONFIG_RESULT_TRUE = 1"
definition SUPLA_CONFIG_RESULT_DATA_ERROR :: u8 where [chan_consts]: "SUPLA_CONFIG_RESULT_DATA_ERROR = 2"
definition SUPLA_CONFIG_RESULT_TYPE_NOT_SUPPORTED :: u8 where [chan_consts]: "SUPLA_CONFIG_RESULT_TYPE_NOT_SUPPORTED = 3"

text \<open>The member of the bit field for a type; bit 0 is \<open>configFinishedReceived\<close>.\<close>

definition type_bit :: "u8 \<Rightarrow> nat option" where
  "type_bit t =
     (if t = SUPLA_CONFIG_TYPE_DEFAULT then Some 1 else if t = SUPLA_CONFIG_TYPE_WEEKLY_SCHEDULE then Some 2
      else if t = SUPLA_CONFIG_TYPE_ALT_WEEKLY_SCHEDULE then Some 3 else if t = SUPLA_CONFIG_TYPE_OCR then Some 4
      else if t = SUPLA_CONFIG_TYPE_EXTENDED then Some 5 else None)"

definition types_set :: "u8 \<Rightarrow> bool \<Rightarrow> u8 \<Rightarrow> u8" where
  "types_set configType v b =
     (case type_bit configType of Some n \<Rightarrow> (if v then set_bit n b else unset_bit n b) | None \<Rightarrow> b)"

definition types_clear :: "u8 \<Rightarrow> u8 \<Rightarrow> u8" where
  "types_clear configType b = types_set configType False b"

definition types_isSet :: "u8 \<Rightarrow> u8 \<Rightarrow> bool" where
  "types_isSet configType b = (case type_bit configType of Some n \<Rightarrow> bit b n | None \<Rightarrow> False)"

definition setConfigFinishedReceived :: "u8 \<Rightarrow> u8" where
  "setConfigFinishedReceived b = set_bit 0 b"

definition clearConfigFinishedReceived :: "u8 \<Rightarrow> u8" where
  "clearConfigFinishedReceived b = unset_bit 0 b"

definition isConfigFinishedReceived :: "u8 \<Rightarrow> bool" where
  "isConfigFinishedReceived b = bit b 0"

definition types_differ :: "u8 \<Rightarrow> u8 \<Rightarrow> bool" where
  "types_differ a b \<longleftrightarrow> a AND NOT 1 \<noteq> b AND NOT 1"

section \<open>Elements\<close>

datatype ChannelConfigState =
    CfgNone | LocalChangePending | SetChannelConfigSend | SetChannelConfigFailed | WaitForConfigFinished | ResendConfig | LocalChangeSent

datatype ApplyConfigResult = NotSupported | Success | DataError | SetChannelConfigNeeded

record Element =
  channel :: Channel
  channelConfigState :: ChannelConfigState
  setChannelConfigAttempts :: u8
  usedConfigTypes :: u8
  receivedConfigTypes :: u8
  el_config :: "KeyValue Config option"

record 'a element_vt =
  v_setAndSaveFunction :: "u32 \<Rightarrow> u32 \<Rightarrow> 'a Element_scheme \<Rightarrow> 'a Element_scheme \<times> bool"
  v_applyChannelConfig :: "u32 \<Rightarrow> u32 \<Rightarrow> u8 \<Rightarrow> bytes \<Rightarrow> bool \<Rightarrow> 'a Element_scheme \<Rightarrow> 'a Element_scheme \<times> ApplyConfigResult"
  v_fillChannelConfig :: "u8 \<Rightarrow> 'a Element_scheme \<Rightarrow> bytes"

text \<open>The store has the keys of its channel; encryption does not matter here.\<close>

abbreviation cfg_vt :: "KeyValue config_vt" where
  "cfg_vt \<equiv> keyvalue_vt False"

definition el_number :: "'a Element_scheme \<Rightarrow> int" where
  "el_number e = channelNumber (channel e)"

definition with_config :: "(KeyValue Config \<Rightarrow> KeyValue Config) \<Rightarrow> 'a Element_scheme \<Rightarrow> 'a Element_scheme" where
  "with_config f e = e\<lparr>el_config := map_option f (el_config e)\<rparr>"

definition element_setFunction :: "u32 \<Rightarrow> 'a Element_scheme \<Rightarrow> 'a Element_scheme \<times> bool" where
  "element_setFunction newFunction e =
     (if getDefaultFunction (channel e) = newFunction then (e, False)
      else (e\<lparr>channel := setDefaultFunction newFunction (channel e)\<rparr>, True))"

definition loadFunctionFromConfig :: "'a Element_scheme \<Rightarrow> 'a Element_scheme \<times> bool" where
  "loadFunctionFromConfig e =
     (case el_config e of
        None \<Rightarrow> (e, False)
      | Some cfg \<Rightarrow>
          let channelFunc = Config.getChannelFunction cfg_vt cfg (of_int (el_number e))
          in if sint channelFunc \<ge> 0 then
               (if isFunctionValid (channel e) channelFunc then fst (element_setFunction channelFunc e) else e, True)
             else (e, False))"

definition loadConfigChangeFlag :: "'a Element_scheme \<Rightarrow> 'a Element_scheme \<times> bool" where
  "loadConfigChangeFlag e =
     (if el_number e < 0 then (e, False)
      else
        case el_config e of
          None \<Rightarrow> (e, False)
        | Some cfg \<Rightarrow>
            (e\<lparr>channelConfigState :=
                 (if isChannelConfigChangeFlagSet cfg_vt cfg (of_int (el_number e)) 0 then LocalChangePending else CfgNone)\<rparr>, True))"

definition saveConfigChangeFlag :: "u32 \<Rightarrow> 'a Element_scheme \<Rightarrow> 'a Element_scheme" where
  "saveConfigChangeFlag now e =
     (if el_number e < 0 then e
      else
        with_config (\<lambda>cfg.
          let cfg = (if channelConfigState e = CfgNone \<or> channelConfigState e = WaitForConfigFinished
                     then fst (clearChannelConfigChangeFlag cfg_vt cfg (of_int (el_number e)) 0)
                     else fst (setChannelConfigChangeFlag cfg_vt cfg (of_int (el_number e)) 0))
          in saveWithDelay cfg 5000 now) e)"

definition element_setAndSaveFunction :: "u32 \<Rightarrow> u32 \<Rightarrow> 'a Element_scheme \<Rightarrow> 'a Element_scheme \<times> bool" where
  "element_setAndSaveFunction now channelFunction e =
     (let (e, changed) = element_setFunction channelFunction e
      in if changed then
           (with_config (\<lambda>cfg. saveWithDelay (fst (setChannelFunction cfg_vt cfg (of_int (el_number e)) channelFunction)) 5000 now) e, True)
         else (e, False))"

definition isAnyUpdatePending :: "'a Element_scheme \<Rightarrow> bool" where
  "isAnyUpdatePending e \<longleftrightarrow>
     channelConfigState e \<in> {LocalChangePending, SetChannelConfigSend, LocalChangeSent, WaitForConfigFinished, ResendConfig} \<or>
     isUpdateReady (channel e)"

section \<open>The exchange\<close>

definition clearChannelConfigChangedFlag :: "u32 \<Rightarrow> 'a Element_scheme \<Rightarrow> 'a Element_scheme" where
  "clearChannelConfigChangedFlag now e =
     (if channelConfigState e \<noteq> CfgNone \<and> channelConfigState e \<noteq> SetChannelConfigFailed
      then saveConfigChangeFlag now (e\<lparr>channelConfigState := CfgNone\<rparr>) else e)"

definition element_onRegistered :: "'a Element_scheme \<Rightarrow> 'a Element_scheme" where
  "element_onRegistered e =
     (let e = e\<lparr>receivedConfigTypes := 0, setChannelConfigAttempts := 0, channel := Channel.onRegistered (channel e)\<rparr>
      in if channelConfigState e = CfgNone \<or> channelConfigState e = WaitForConfigFinished
         then e\<lparr>channelConfigState := WaitForConfigFinished\<rparr>
         else if channelConfigState e = LocalChangePending then e
         else e\<lparr>channelConfigState := ResendConfig\<rparr>)"

definition handleChannelConfigFinished :: "'a Element_scheme \<Rightarrow> 'a Element_scheme" where
  "handleChannelConfigFinished e =
     (let e = e\<lparr>receivedConfigTypes := setConfigFinishedReceived (receivedConfigTypes e), setChannelConfigAttempts := 0\<rparr>;
          e = (if channelConfigState e = WaitForConfigFinished then e\<lparr>channelConfigState := CfgNone\<rparr> else e)
      in if types_differ (receivedConfigTypes e) (usedConfigTypes e) then e\<lparr>channelConfigState := ResendConfig\<rparr> else e)"

definition triggerSetChannelConfig :: "u8 \<Rightarrow> 'a Element_scheme \<Rightarrow> 'a Element_scheme" where
  "triggerSetChannelConfig configType e =
     (if channelConfigState e \<noteq> SetChannelConfigFailed
      then e\<lparr>channelConfigState := ResendConfig, receivedConfigTypes := types_clear configType (receivedConfigTypes e)\<rparr> else e)"

definition handleChannelConfig ::
  "'a element_vt \<Rightarrow> u32 \<Rightarrow> u32 \<Rightarrow> u8 \<Rightarrow> bytes \<Rightarrow> bool \<Rightarrow> 'a Element_scheme \<Rightarrow> 'a Element_scheme \<times> u8" where
  "handleChannelConfig vt now func ConfigType Config_bytes local e =
     (let e = (if func \<noteq> getDefaultFunction (channel e) then fst (v_setAndSaveFunction vt now func e) else e)
      in if func = 0 then
           (e\<lparr>channelConfigState := CfgNone, receivedConfigTypes := usedConfigTypes e\<rparr>, SUPLA_CONFIG_RESULT_TRUE)
         else if \<not> types_isSet ConfigType (usedConfigTypes e) then (e, SUPLA_CONFIG_RESULT_TYPE_NOT_SUPPORTED)
         else if ConfigType \<noteq> SUPLA_CONFIG_TYPE_OCR \<and> channelConfigState e = LocalChangePending \<and> \<not> local
         then (e, SUPLA_CONFIG_RESULT_TRUE)
         else
           let (e, r) = v_applyChannelConfig vt now func ConfigType Config_bytes local e
           in case r of
                Success \<Rightarrow>
                  (e\<lparr>receivedConfigTypes := types_set ConfigType True (receivedConfigTypes e)\<rparr>, SUPLA_CONFIG_RESULT_TRUE)
              | NotSupported \<Rightarrow>
                  (e\<lparr>receivedConfigTypes := types_set ConfigType True (receivedConfigTypes e)\<rparr>, SUPLA_CONFIG_RESULT_TYPE_NOT_SUPPORTED)
              | SetChannelConfigNeeded \<Rightarrow> (triggerSetChannelConfig ConfigType e, SUPLA_CONFIG_RESULT_TRUE)
              | DataError \<Rightarrow> (e, SUPLA_CONFIG_RESULT_DATA_ERROR))"

definition handleSetChannelConfigResult :: "u32 \<Rightarrow> u8 \<Rightarrow> u8 \<Rightarrow> 'a Element_scheme \<Rightarrow> 'a Element_scheme" where
  "handleSetChannelConfigResult now Result ConfigType e =
     (let success = (Result = SUPLA_CONFIG_RESULT_TRUE);
          e = e\<lparr>receivedConfigTypes := types_set ConfigType True (receivedConfigTypes e)\<rparr>;
          e = (if channelConfigState e = SetChannelConfigSend \<or> channelConfigState e = LocalChangeSent then
                 if types_differ (receivedConfigTypes e) (usedConfigTypes e) then
                   e\<lparr>setChannelConfigAttempts := 0,
                     channelConfigState := (if channelConfigState e = SetChannelConfigSend then ResendConfig else LocalChangePending)\<rparr>
                 else clearChannelConfigChangedFlag now e
               else e)
      in if \<not> success then (clearChannelConfigChangedFlag now e)\<lparr>channelConfigState := SetChannelConfigFailed\<rparr> else e)"

definition getNextConfigType :: "'a Element_scheme \<Rightarrow> u8 option" where
  "getNextConfigType e =
     (if types_differ (receivedConfigTypes e) (usedConfigTypes e) then
        let notRecieved = NOT (receivedConfigTypes e) AND usedConfigTypes e
        in find (\<lambda>i. types_isSet i notRecieved) [0, 1, 2, 3, 4, 5, 6, 7]
      else None)"

text \<open>The loop over the protocol layers; each layer that takes the configuration changes the state.\<close>

definition sent_by :: "bool \<Rightarrow> ChannelConfigState \<Rightarrow> ChannelConfigState" where
  "sent_by r st = (if r then if st = LocalChangePending then LocalChangeSent else SetChannelConfigSend else st)"

definition iterateConfigExchange ::
  "'a element_vt \<Rightarrow> u32 \<Rightarrow> bool list \<Rightarrow> 'a Element_scheme \<Rightarrow> 'a Element_scheme \<times> bool \<times> (u32 \<times> bytes \<times> u8) option" where
  "iterateConfigExchange vt now protos e =
     (if \<not> isConfigFinishedReceived (receivedConfigTypes e) then (e, True, None)
      else if getDefaultFunction (channel e) = 0 then (e, True, None)
      else if channelConfigState e = LocalChangePending \<or> channelConfigState e = ResendConfig then
        case getNextConfigType e of
          None \<Rightarrow> (clearChannelConfigChangedFlag now e, True, None)
        | Some nextConfigType \<Rightarrow>
            if setChannelConfigAttempts e < 3 then
              let e = e\<lparr>setChannelConfigAttempts := setChannelConfigAttempts e + 1\<rparr>;
                  config = v_fillChannelConfig vt nextConfigType e
              in if config \<noteq> [] then
                   let call = (getDefaultFunction (channel e), config, nextConfigType)
                   in if list_ex id protos then
                        (e\<lparr>channelConfigState := fold sent_by protos (channelConfigState e)\<rparr>, False, Some call)
                      else (e, True, Some call)
                 else (e\<lparr>receivedConfigTypes := types_set nextConfigType True (receivedConfigTypes e)\<rparr>, True, None)
            else
              (e\<lparr>receivedConfigTypes := types_set nextConfigType True (receivedConfigTypes e), setChannelConfigAttempts := 0\<rparr>, True, None)
      else (e, True, None))"

definition element_purgeConfig :: "'a Element_scheme \<Rightarrow> 'a Element_scheme" where
  "element_purgeConfig e =
     with_config (\<lambda>cfg.
       let k = generateKey (of_int (el_number e))
       in cfg\<lparr>store := fst (eraseKey (fst (eraseKey (store cfg) (k ChannelFunctionTag))) (k ChannelConfigChangedFlagTag))\<rparr>) e"

text \<open>\<open>ElementWithChannelActions::iterateConnected\<close> for an element without a secondary channel.\<close>

definition element_iterateConnected ::
  "'a element_vt \<Rightarrow> u32 \<Rightarrow> 'p list \<Rightarrow> bool list \<Rightarrow> 'a Element_scheme \<Rightarrow>
     'a Element_scheme \<times> bool \<times> 'p proto_call list \<times> (u32 \<times> bytes \<times> u8) option" where
  "element_iterateConnected vt now layers protos e =
     (if isUpdateReady (channel e) then
        let (c, calls) = sendUpdate layers None (channel e) in (e\<lparr>channel := c\<rparr>, False, calls, None)
      else let (e, r, call) = iterateConfigExchange vt now protos e in (e, r, [], call))"

section \<open>Sets of types\<close>

lemma type_bit_bounds: "type_bit t = Some n \<Longrightarrow> 1 \<le> n \<and> n \<le> 5"
  by (auto simp: type_bit_def split: if_splits)

lemma type_bit_inj: "type_bit t = Some n \<Longrightarrow> type_bit u = Some n \<Longrightarrow> t = u"
  by (auto simp: type_bit_def split: if_splits)

lemma isSet_set [simp]: "types_isSet t (types_set u v b) = (if t = u \<and> type_bit t \<noteq> None then v else types_isSet t b)"
  using type_bit_inj [of t _ u] type_bit_bounds [of u]
  by (auto simp: types_isSet_def types_set_def bit_simps split: option.splits if_splits)

lemma finished_set [simp]: "isConfigFinishedReceived (types_set u v b) = isConfigFinishedReceived b"
  using type_bit_bounds [of u] by (auto simp: isConfigFinishedReceived_def types_set_def bit_simps split: option.splits)

text \<open>Only the bits of the five types and the first bit are used.\<close>

definition types_ok :: "u8 \<Rightarrow> bool" where
  "types_ok b \<longleftrightarrow> \<not> bit b 6 \<and> \<not> bit b 7"

lemma types_ok_set [simp]: "types_ok (types_set u v b) = types_ok b"
  using type_bit_bounds [of u] by (auto simp: types_ok_def types_set_def bit_simps split: option.splits)

lemma all_types: "(\<forall>t. P t \<longrightarrow> type_bit t \<noteq> None) \<Longrightarrow>
    (\<exists>t. P t) \<longleftrightarrow> P SUPLA_CONFIG_TYPE_DEFAULT \<or> P SUPLA_CONFIG_TYPE_WEEKLY_SCHEDULE \<or> P SUPLA_CONFIG_TYPE_ALT_WEEKLY_SCHEDULE \<or>
      P SUPLA_CONFIG_TYPE_OCR \<or> P SUPLA_CONFIG_TYPE_EXTENDED"
  by (auto simp: type_bit_def split: if_splits)

lemma isSet_bits:
  "types_isSet SUPLA_CONFIG_TYPE_DEFAULT b = bit b 1" "types_isSet SUPLA_CONFIG_TYPE_WEEKLY_SCHEDULE b = bit b 2"
  "types_isSet SUPLA_CONFIG_TYPE_ALT_WEEKLY_SCHEDULE b = bit b 3" "types_isSet SUPLA_CONFIG_TYPE_OCR b = bit b 4"
  "types_isSet SUPLA_CONFIG_TYPE_EXTENDED b = bit b 5"
  by (simp_all add: types_isSet_def type_bit_def chan_consts)

lemma isSet_type: "types_isSet t b \<Longrightarrow> type_bit t \<noteq> None"
  by (auto simp: types_isSet_def split: option.splits)

lemma less_8: "(\<exists>n < 8. P n) \<longleftrightarrow> P 0 \<or> P 1 \<or> P 2 \<or> P 3 \<or> P 4 \<or> P 5 \<or> P 6 \<or> P (7 :: nat)"
  by (auto simp: less_Suc_eq numeral_eq_Suc)

lemma u8_eq: "x = y \<longleftrightarrow> (\<forall>n < 8. bit (x :: u8) n = bit y n)"
  by (auto intro: bit_word_eqI)

lemma differ_iff: "types_ok a \<Longrightarrow> types_ok b \<Longrightarrow> types_differ a b \<longleftrightarrow> (\<exists>t. types_isSet t a \<noteq> types_isSet t b)"
proof -
  assume ok: "types_ok a" "types_ok b"
  have one: "bit (1 :: u8) n \<longleftrightarrow> n = 0" for n by (cases n) (simp_all add: bit_Suc)
  have "types_differ a b \<longleftrightarrow> (\<exists>n < 8. bit (a AND NOT 1) n \<noteq> bit (b AND NOT 1) n)"
    unfolding types_differ_def u8_eq by blast
  also have "\<dots> \<longleftrightarrow> (\<exists>n < 8. n \<noteq> 0 \<and> bit a n \<noteq> bit b n)" by (auto simp: bit_simps one)
  also have "\<dots> \<longleftrightarrow> (\<exists>t. types_isSet t a \<noteq> types_isSet t b)"
    unfolding less_8 using ok by (subst all_types) (auto dest: isSet_type simp: isSet_bits types_ok_def)
  finally show ?thesis .
qed

text \<open>The types that are used but not received.\<close>

definition missing :: "'a Element_scheme \<Rightarrow> u8 set" where
  "missing e = {t. types_isSet t (usedConfigTypes e) \<and> \<not> types_isSet t (receivedConfigTypes e)}"

lemma finite_missing [simp]: "finite (missing e)"
  by simp

lemma not_received: "types_isSet t (NOT r AND u) \<longleftrightarrow> types_isSet t u \<and> \<not> types_isSet t r"
proof (cases "type_bit t")
  case (Some n)
  then show ?thesis using type_bit_bounds [OF Some] by (auto simp: types_isSet_def bit_simps)
qed (simp add: types_isSet_def)

lemma getNext_Some: "getNextConfigType e = Some t \<Longrightarrow> t \<in> missing e"
  by (auto simp: getNextConfigType_def missing_def Let_def not_received find_Some_iff split: if_splits)

lemma type_listed: "type_bit t \<noteq> None \<Longrightarrow> t \<in> {0, 1, 2, 3, 4, 5, 6, 7}"
  by (auto simp: type_bit_def chan_consts split: if_splits)

lemma getNext_None:
  assumes "types_ok (usedConfigTypes e)" "types_ok (receivedConfigTypes e)" "getNextConfigType e = None"
  shows "missing e = {}"
proof (rule ccontr)
  assume "missing e \<noteq> {}"
  then obtain t where t: "types_isSet t (usedConfigTypes e)" "\<not> types_isSet t (receivedConfigTypes e)" by (auto simp: missing_def)
  then have "types_differ (receivedConfigTypes e) (usedConfigTypes e)" using differ_iff [OF assms(2,1)] by blast
  then have "\<forall>i \<in> {0, 1, 2, 3, 4, 5, 6, 7}. \<not> types_isSet i (NOT (receivedConfigTypes e) AND usedConfigTypes e)"
    using assms(3) by (auto simp: getNextConfigType_def Let_def split: if_splits)
  then show False using type_listed [OF isSet_type [OF t(1)]] t not_received by blast
qed

text \<open>Nothing is received that is not used.\<close>

definition exchange_ok :: "'a Element_scheme \<Rightarrow> bool" where
  "exchange_ok e \<longleftrightarrow> types_ok (usedConfigTypes e) \<and> types_ok (receivedConfigTypes e) \<and>
     (\<forall>t. types_isSet t (receivedConfigTypes e) \<longrightarrow> types_isSet t (usedConfigTypes e))"

lemma differ_missing: "exchange_ok e \<Longrightarrow> types_differ (receivedConfigTypes e) (usedConfigTypes e) \<longleftrightarrow> missing e \<noteq> {}"
  by (auto simp: exchange_ok_def differ_iff missing_def)

lemma getNext_iff: "exchange_ok e \<Longrightarrow> getNextConfigType e = None \<longleftrightarrow> missing e = {}"
  using getNext_None [of e] getNext_Some [of e] by (cases "getNextConfigType e") (auto simp: exchange_ok_def)

lemma received_one:
  assumes "exchange_ok e" "t \<in> missing e" "usedConfigTypes e' = usedConfigTypes e"
    "receivedConfigTypes e' = types_set t True (receivedConfigTypes e)"
  shows "exchange_ok e' \<and> missing e' = missing e - {t} \<and> isConfigFinishedReceived (receivedConfigTypes e') = isConfigFinishedReceived (receivedConfigTypes e)"
  using assms by (auto simp: exchange_ok_def missing_def dest: isSet_type)

section \<open>The stored flag\<close>

definition flag_key :: "'a Element_scheme \<Rightarrow> bytes" where
  "flag_key e = generateKey (of_int (el_number e)) ChannelConfigChangedFlagTag"

text \<open>The store is intact and the key of the flag holds a byte, if anything.\<close>

definition flag_ok :: "'a Element_scheme \<Rightarrow> bool" where
  "flag_ok e \<longleftrightarrow> 0 \<le> el_number e \<and>
     (\<exists>cfg. el_config e = Some cfg \<and> kv_inv (store cfg) \<and> (\<exists>d. kv_abs (store cfg) (norm_key (flag_key e)) = map_option DATA_TYPE_UINT8 d))"

definition flag_stored :: "'a Element_scheme \<Rightarrow> bool" where
  "flag_stored e \<longleftrightarrow> (\<exists>cfg. el_config e = Some cfg \<and> isChannelConfigChangeFlagSet cfg_vt cfg (of_int (el_number e)) 0)"

lemma set_flag_byte:
  assumes "kv_inv s" "kv_abs s (norm_key k) = map_option DATA_TYPE_UINT8 d"
  shows "kv_inv (fst (setUInt8 cfg_vt s k b)) \<and> kv_abs (fst (setUInt8 cfg_vt s k b)) (norm_key k) = Some (DATA_TYPE_UINT8 b)"
proof -
  obtain s' r where s: "setUInt8 cfg_vt s k b = (s', r)" by fastforce
  have "kv_inv s'" "spec_set (kv_abs s) k (DATA_TYPE_UINT8 b) = (kv_abs s', r)" using kv_store.set_uint8 [OF assms(1) s] by simp_all
  then have "kv_abs s' = (kv_abs s)(norm_key k \<mapsto> DATA_TYPE_UINT8 b)"
    using assms(2) by (cases d) (auto simp: spec_set_def split: if_splits)
  then show ?thesis using \<open>kv_inv s'\<close> s by simp
qed

lemma saveConfigChangeFlag_rest [simp]:
  "channelConfigState (saveConfigChangeFlag now e) = channelConfigState e" "receivedConfigTypes (saveConfigChangeFlag now e) = receivedConfigTypes e"
  "usedConfigTypes (saveConfigChangeFlag now e) = usedConfigTypes e" "channel (saveConfigChangeFlag now e) = channel e"
  "setChannelConfigAttempts (saveConfigChangeFlag now e) = setChannelConfigAttempts e"
  by (simp_all add: saveConfigChangeFlag_def with_config_def)

lemma clearFlag_rest [simp]:
  "receivedConfigTypes (clearChannelConfigChangedFlag now e) = receivedConfigTypes e"
  "usedConfigTypes (clearChannelConfigChangedFlag now e) = usedConfigTypes e" "channel (clearChannelConfigChangedFlag now e) = channel e"
  "channelConfigState (clearChannelConfigChangedFlag now e) =
     (if channelConfigState e = SetChannelConfigFailed then SetChannelConfigFailed else CfgNone)"
  by (simp_all add: clearChannelConfigChangedFlag_def)

lemma saveWithDelay_store [simp]: "store (saveWithDelay cfg d now) = store cfg"
  by (simp add: saveWithDelay_def)

lemma el_number_updates [simp]:
  "el_number (e\<lparr>el_config := c\<rparr>) = el_number e" "el_number (e\<lparr>channelConfigState := s\<rparr>) = el_number e"
  "el_number (e\<lparr>receivedConfigTypes := r\<rparr>) = el_number e" "el_number (e\<lparr>setChannelConfigAttempts := a\<rparr>) = el_number e"
  by (simp_all add: el_number_def)

lemma flag_saved:
  assumes "flag_ok e"
  shows "flag_ok (saveConfigChangeFlag now e)"
    and "flag_stored (saveConfigChangeFlag now e) \<longleftrightarrow> channelConfigState e \<noteq> CfgNone \<and> channelConfigState e \<noteq> WaitForConfigFinished"
proof -
  obtain cfg d where cfg: "0 \<le> el_number e" "el_config e = Some cfg" "kv_inv (store cfg)"
    "kv_abs (store cfg) (norm_key (flag_key e)) = map_option DATA_TYPE_UINT8 d" using assms by (auto simp: flag_ok_def)
  define b :: u8 where "b = (if channelConfigState e = CfgNone \<or> channelConfigState e = WaitForConfigFinished then 0 else 1)"
  define cfg' where "cfg' = saveWithDelay (cfg\<lparr>store := fst (setUInt8 cfg_vt (store cfg) (flag_key e) b)\<rparr>) 5000 now"
  have e': "saveConfigChangeFlag now e = e\<lparr>el_config := Some cfg'\<rparr>"
    using cfg(1,2) by (simp add: saveConfigChangeFlag_def with_config_def cfg'_def clearChannelConfigChangeFlag_def setChannelConfigChangeFlag_def
        stored_def flag_key_def b_def)
  have st: "kv_inv (store cfg')" "kv_abs (store cfg') (norm_key (flag_key e)) = Some (DATA_TYPE_UINT8 b)"
    using set_flag_byte [OF cfg(3,4), of b] by (simp_all add: cfg'_def)
  have n: "el_number (e\<lparr>el_config := Some cfg'\<rparr>) = el_number e" by simp
  then show "flag_ok (saveConfigChangeFlag now e)"
    unfolding e' flag_ok_def flag_key_def n using st cfg(1) by (auto simp: flag_key_def intro: exI [of _ "Some b"])
  have "getUInt8 cfg_vt (store cfg') (flag_key e) = Some b"
    using kv_store.get_uint8 [OF st(1), of "flag_key e" "Some b"] st(2) by simp
  then show "flag_stored (saveConfigChangeFlag now e) \<longleftrightarrow> channelConfigState e \<noteq> CfgNone \<and> channelConfigState e \<noteq> WaitForConfigFinished"
    unfolding e' flag_stored_def n by (simp add: isChannelConfigChangeFlagSet_def flag_key_def b_def)
qed

lemma flag_ok_cong: "flag_ok e \<Longrightarrow> el_config e' = el_config e \<Longrightarrow> channel e' = channel e \<Longrightarrow> flag_ok e'"
  by (simp add: flag_ok_def flag_key_def el_number_def)

lemma flag_ok_updates [simp]:
  "flag_ok (e\<lparr>channelConfigState := s\<rparr>) = flag_ok e" "flag_ok (e\<lparr>receivedConfigTypes := r\<rparr>) = flag_ok e"
  "flag_ok (e\<lparr>setChannelConfigAttempts := a\<rparr>) = flag_ok e"
  by (simp_all add: flag_ok_def flag_key_def)

text \<open>A change that is marked by the state is cleared from the store when the state becomes \<open>None\<close>.\<close>

lemma flag_cleared:
  assumes "flag_ok e" "channelConfigState e \<noteq> CfgNone" "channelConfigState e \<noteq> SetChannelConfigFailed"
  shows "flag_ok (clearChannelConfigChangedFlag now e) \<and> \<not> flag_stored (clearChannelConfigChangedFlag now e)"
  using flag_saved [of "e\<lparr>channelConfigState := CfgNone\<rparr>" now] flag_ok_cong [OF assms(1), of "e\<lparr>channelConfigState := CfgNone\<rparr>"] assms(2,3)
  by (simp add: clearChannelConfigChangedFlag_def)

section \<open>A complete exchange\<close>

text \<open>One round: the device sends a configuration through one protocol layer and the server accepts it.\<close>

definition round :: "'a element_vt \<Rightarrow> u32 \<Rightarrow> 'a Element_scheme \<Rightarrow> 'a Element_scheme" where
  "round vt now e =
     (case iterateConfigExchange vt now [True] e of
        (e, r, Some (f, c, t)) \<Rightarrow> handleSetChannelConfigResult now SUPLA_CONFIG_RESULT_TRUE t e
      | (e, r, None) \<Rightarrow> e)"

text \<open>There is something to send.\<close>

definition sending :: "'a Element_scheme \<Rightarrow> bool" where
  "sending e \<longleftrightarrow> (channelConfigState e = LocalChangePending \<or> channelConfigState e = ResendConfig) \<and>
     isConfigFinishedReceived (receivedConfigTypes e) \<and> getDefaultFunction (channel e) \<noteq> 0 \<and> setChannelConfigAttempts e < 3 \<and>
     exchange_ok e \<and> flag_ok e"

text \<open>The configuration that a round sends, with the function of the channel and its type.\<close>

definition round_call :: "'a element_vt \<Rightarrow> u32 \<Rightarrow> 'a Element_scheme \<Rightarrow> (u32 \<times> bytes \<times> u8) option" where
  "round_call vt now e = snd (snd (iterateConfigExchange vt now [True] e))"

text \<open>The configurations \<open>c\<close> of the types that an element uses: they are not empty and depend only on the settings of the element and on the
  function of its channel.\<close>

definition fills :: "'a element_vt \<Rightarrow> (u8 \<Rightarrow> bytes) \<Rightarrow> 'a Element_scheme \<Rightarrow> bool" where
  "fills vt c e \<longleftrightarrow> (\<forall>t e'. types_isSet t (usedConfigTypes e) \<longrightarrow> Element.more e' = Element.more e \<longrightarrow>
     getDefaultFunction (channel e') = getDefaultFunction (channel e) \<longrightarrow> v_fillChannelConfig vt t e' = c t \<and> c t \<noteq> [])"

definition finished :: "'a Element_scheme \<Rightarrow> bool" where
  "finished e \<longleftrightarrow> channelConfigState e = CfgNone \<and> missing e = {} \<and> \<not> flag_stored e"

lemma clearFlag_more [simp]: "Element.more (clearChannelConfigChangedFlag now e) = Element.more e"
  by (simp add: clearChannelConfigChangedFlag_def saveConfigChangeFlag_def with_config_def)

lemma result_keeps [simp]:
  "Element.more (handleSetChannelConfigResult now r t e) = Element.more e" "channel (handleSetChannelConfigResult now r t e) = channel e"
  "usedConfigTypes (handleSetChannelConfigResult now r t e) = usedConfigTypes e"
  by (simp_all add: handleSetChannelConfigResult_def Let_def)

lemma iterate_keeps [simp]:
  "Element.more (fst (iterateConfigExchange vt now protos e)) = Element.more e" "channel (fst (iterateConfigExchange vt now protos e)) = channel e"
  "usedConfigTypes (fst (iterateConfigExchange vt now protos e)) = usedConfigTypes e"
  by (simp_all add: iterateConfigExchange_def Let_def split: option.split)

lemma round_keeps [simp]:
  "Element.more (round vt now e) = Element.more e" "channel (round vt now e) = channel e" "usedConfigTypes (round vt now e) = usedConfigTypes e"
  using iterate_keeps [of vt now "[True]" e]
  by (cases "iterateConfigExchange vt now [True] e"; auto simp: round_def split: option.split)+

lemma rounds_keep: "Element.more ((round vt now ^^ n) e) = Element.more e"
  by (induction n) auto

lemma round_none:
  assumes "sending e" "missing e = {}"
  shows "finished (round vt now e) \<and> round_call vt now e = None"
proof -
  have n: "getNextConfigType e = None" using assms getNext_iff by (auto simp: sending_def)
  then have "round vt now e = clearChannelConfigChangedFlag now e" "round_call vt now e = None"
    using assms(1) by (simp_all add: round_def round_call_def iterateConfigExchange_def sending_def)
  moreover have "missing (clearChannelConfigChangedFlag now e) = {}" using assms(2) by (simp add: missing_def)
  ultimately show ?thesis using assms(1) flag_cleared [of e now] by (auto simp: sending_def finished_def)
qed

lemma round_some:
  assumes s: "sending e" and fill: "fills vt c e" and m: "missing e \<noteq> {}"
  shows "\<exists>t \<in> missing e. round_call vt now e = Some (getDefaultFunction (channel e), c t, t) \<and>
    (if missing e = {t} then finished (round vt now e) else sending (round vt now e) \<and> missing (round vt now e) = missing e - {t})"
proof -
  have ex: "exchange_ok e" using s by (simp add: sending_def)
  obtain t where n: "getNextConfigType e = Some t" using m getNext_iff [OF ex] by blast
  have t: "t \<in> missing e" by (rule getNext_Some [OF n])
  let ?st = "if channelConfigState e = LocalChangePending then LocalChangeSent else SetChannelConfigSend"
  let ?e0 = "e\<lparr>setChannelConfigAttempts := setChannelConfigAttempts e + 1\<rparr>"
  let ?e1 = "?e0\<lparr>channelConfigState := ?st\<rparr>"
  let ?e2 = "?e1\<lparr>receivedConfigTypes := types_set t True (receivedConfigTypes e)\<rparr>"
  have f: "v_fillChannelConfig vt t ?e0 = c t" "c t \<noteq> []" using fill t by (simp_all add: fills_def missing_def)
  have r: "round vt now e = handleSetChannelConfigResult now SUPLA_CONFIG_RESULT_TRUE t ?e1"
    and call: "round_call vt now e = Some (getDefaultFunction (channel e), c t, t)"
    using s n f by (simp_all add: round_def round_call_def iterateConfigExchange_def sending_def Let_def sent_by_def)
  have e2: "exchange_ok ?e2" "missing ?e2 = missing e - {t}" "isConfigFinishedReceived (receivedConfigTypes ?e2)"
    using received_one [OF ex t, of ?e2] s by (simp_all add: sending_def)
  have "if missing e = {t} then finished (round vt now e) else sending (round vt now e) \<and> missing (round vt now e) = missing e - {t}"
  proof (cases "missing e = {t}")
    case True
    then have "round vt now e = clearChannelConfigChangedFlag now ?e2"
      unfolding r using differ_missing [OF e2(1)] e2(2) by (simp add: handleSetChannelConfigResult_def Let_def)
    moreover have "missing (clearChannelConfigChangedFlag now ?e2) = {}" using True e2(2) by (simp add: missing_def)
    moreover have "flag_ok ?e2" using s by (simp add: sending_def)
    ultimately show ?thesis using True flag_cleared [of ?e2 now] by (simp add: finished_def)
  next
    case False
    then have "missing ?e2 \<noteq> {}" using e2(2) t by auto
    then have last: "round vt now e = ?e2\<lparr>setChannelConfigAttempts := 0, channelConfigState := (if channelConfigState e = LocalChangePending then LocalChangePending else ResendConfig)\<rparr>"
      unfolding r using differ_missing [OF e2(1)] by (simp add: handleSetChannelConfigResult_def Let_def)
    have "sending (round vt now e)" unfolding last sending_def using s e2
      by (simp add: sending_def exchange_ok_def)
    moreover have "missing (round vt now e) = missing e - {t}" unfolding last using e2(2) by (simp add: missing_def)
    ultimately show ?thesis using False by simp
  qed
  then show ?thesis using call t by blast
qed

text \<open>As many rounds as there are missing types finish the exchange, and one when nothing is missing.  They send the configuration of each missing
  type.\<close>

definition sent_calls :: "'a element_vt \<Rightarrow> u32 \<Rightarrow> nat \<Rightarrow> 'a Element_scheme \<Rightarrow> (u32 \<times> bytes \<times> u8) list" where
  "sent_calls vt now n e = concat (map (\<lambda>k. case round_call vt now ((round vt now ^^ k) e) of Some x \<Rightarrow> [x] | None \<Rightarrow> []) [0..<n])"

lemma sent_calls_Suc: "sent_calls vt now (Suc n) e = (case round_call vt now e of Some x \<Rightarrow> [x] | None \<Rightarrow> []) @ sent_calls vt now n (round vt now e)"
proof -
  have "[0..<Suc n] = 0 # map Suc [0..<n]" by (simp add: upt_conv_Cons map_Suc_upt del: upt_Suc)
  then show ?thesis by (simp add: sent_calls_def funpow_swap1 comp_def del: upt_Suc)
qed

lemma rounds_finish:
  assumes "fills vt c e" "sending e" "card (missing e) = n"
  shows "finished ((round vt now ^^ max 1 n) e) \<and>
    set (sent_calls vt now (max 1 n) e) = (\<lambda>t. (getDefaultFunction (channel e), c t, t)) ` missing e"
  using assms
proof (induction n arbitrary: e)
  case 0
  then show ?case using round_none [of e vt now] by (simp add: sent_calls_Suc) (simp add: sent_calls_def)
next
  case (Suc n)
  obtain t where t: "t \<in> missing e" "round_call vt now e = Some (getDefaultFunction (channel e), c t, t)"
      "if missing e = {t} then finished (round vt now e) else sending (round vt now e) \<and> missing (round vt now e) = missing e - {t}"
    using round_some [OF Suc.prems(2,1), of now] Suc.prems(3) by (metis card.empty nat.distinct(1))
  show ?case
  proof (cases n)
    case 0
    then have "missing e = {t}" using Suc.prems(3) t(1) by (metis card_1_singletonE One_nat_def singletonD)
    then show ?thesis using t 0 by (simp add: sent_calls_Suc) (simp add: sent_calls_def)
  next
    case (Suc m)
    have "card (missing e - {t}) = n" using t(1) Suc.prems(3) by simp
    then have r: "sending (round vt now e)" "missing (round vt now e) = missing e - {t}" using t(3) Suc by (auto split: if_splits)
    have "fills vt c (round vt now e)" using Suc.prems(1) by (simp add: fills_def)
    from Suc.IH [OF this r(1)] \<open>card (missing e - {t}) = n\<close> Suc r(2) t
    show ?thesis by (auto simp: funpow_swap1 sent_calls_Suc)
  qed
qed

section \<open>A local change and the configurations of the server\<close>

text \<open>The configurations that the server sends after the registration, by type.\<close>

definition server_configs :: "'a element_vt \<Rightarrow> u32 \<Rightarrow> u32 \<Rightarrow> (u8 \<times> bytes) list \<Rightarrow> 'a Element_scheme \<Rightarrow> 'a Element_scheme" where
  "server_configs vt now func msgs = fold (\<lambda>(t, c) e. fst (handleChannelConfig vt now func t c False e)) msgs"

lemma server_configs_ignored:
  assumes "\<forall>(t, c) \<in> set msgs. t \<noteq> SUPLA_CONFIG_TYPE_OCR" "channelConfigState e = LocalChangePending"
    "getDefaultFunction (channel e) \<noteq> 0"
  shows "server_configs vt now (getDefaultFunction (channel e)) msgs e = e"
  using assms by (induction msgs) (auto simp: server_configs_def handleChannelConfig_def Let_def)

lemma onRegistered_keeps [simp]:
  "channelNumber (Channel.onRegistered c) = channelNumber c" "getDefaultFunction (Channel.onRegistered c) = getDefaultFunction c"
  by (simp_all add: Channel.onRegistered_def Let_def setSendValue_def setSendInitialCaption_def setSendStateInfo_def getDefaultFunction_def)

lemma registered_ready:
  assumes "channelConfigState e = LocalChangePending" "getDefaultFunction (channel e) \<noteq> 0" "types_ok (usedConfigTypes e)" "flag_ok e"
  shows "sending (handleChannelConfigFinished (element_onRegistered e))"
    and "Element.more (handleChannelConfigFinished (element_onRegistered e)) = Element.more e"
    and "missing (handleChannelConfigFinished (element_onRegistered e)) = {t. types_isSet t (usedConfigTypes e)}"
proof -
  let ?e = "handleChannelConfigFinished (element_onRegistered e)"
  have none: "\<not> types_isSet t (set_bit 0 0)" for t
    using type_bit_bounds [of t] by (auto simp: types_isSet_def bit_simps split: option.split)
  have "types_ok (set_bit 0 0)" by (simp add: types_ok_def bit_simps)
  moreover have "flag_ok (e\<lparr>channel := Channel.onRegistered (channel e)\<rparr>)"
    using assms(4) by (simp add: flag_ok_def flag_key_def el_number_def)
  ultimately show "sending ?e" using assms none
    by (simp add: sending_def handleChannelConfigFinished_def element_onRegistered_def Let_def setConfigFinishedReceived_def
        isConfigFinishedReceived_def exchange_ok_def bit_simps)
  show "Element.more ?e = Element.more e"
    by (simp add: handleChannelConfigFinished_def element_onRegistered_def Let_def)
  show "missing ?e = {t. types_isSet t (usedConfigTypes e)}" using none
    by (simp add: missing_def handleChannelConfigFinished_def element_onRegistered_def Let_def setConfigFinishedReceived_def)
qed

text \<open>C12. A setting of an element that was changed on the device while it was offline wins over the server's copy.  From a state with a
  pending local change the device registers and ignores the configurations that the server sends for the function of the channel (those of
  the type for optical readers apart, which it always takes).  After the end of the server's configurations it sends, as long as a protocol
  layer takes each message and the server accepts it, exactly the configurations of the types that the element uses, with the settings that the device
  had, in as many rounds as there are types (and at least one).  Then the exchange is finished, every type counts as exchanged, the flag in the store is
  cleared, and the settings of the element are those that the device had.\<close>

theorem local_change_wins:
  assumes e1: "e1 = handleChannelConfigFinished (server_configs vt now (getDefaultFunction (channel e)) msgs (element_onRegistered e))"
    and n: "n = max 1 (card {t. types_isSet t (usedConfigTypes e)})"
    and "channelConfigState e = LocalChangePending" "getDefaultFunction (channel e) \<noteq> 0" "types_ok (usedConfigTypes e)" "flag_ok e"
    and "\<forall>(t, c) \<in> set msgs. t \<noteq> SUPLA_CONFIG_TYPE_OCR" "fills vt c e"
  shows "let e2 = (round vt now ^^ n) e1 in
    set (sent_calls vt now n e1) = (\<lambda>t. (getDefaultFunction (channel e), c t, t)) ` {t. types_isSet t (usedConfigTypes e)} \<and>
    Element.more e2 = Element.more e \<and> channelConfigState e2 = CfgNone \<and> missing e2 = {} \<and> \<not> flag_stored e2"
proof -
  have r: "channelConfigState (element_onRegistered e) = LocalChangePending" "getDefaultFunction (channel (element_onRegistered e)) =
      getDefaultFunction (channel e)"
    using assms(3) by (simp_all add: element_onRegistered_def Let_def)
  have e1': "e1 = handleChannelConfigFinished (element_onRegistered e)"
    unfolding e1 using server_configs_ignored [OF assms(7) r(1)] r(2) assms(4) by simp
  note ready = registered_ready [OF assms(3-6), folded e1']
  have k: "getDefaultFunction (channel e1) = getDefaultFunction (channel e)" "usedConfigTypes e1 = usedConfigTypes e"
    by (simp_all add: e1' handleChannelConfigFinished_def element_onRegistered_def Let_def)
  have "fills vt c e1" using assms(8) ready(2) by (simp add: fills_def k)
  from rounds_finish [OF this ready(1), of "card {t. types_isSet t (usedConfigTypes e)}" now] ready(2,3) rounds_keep [of n vt now e1]
  show ?thesis unfolding n [symmetric] Let_def finished_def by (simp add: k)
qed

text \<open>An element with the default configuration and a weekly schedule, and a class whose configurations have one byte.\<close>

definition sample_element :: Element where
  "sample_element = \<lparr>channel = Channel_init\<lparr>channelNumber := 3, defaultFunction := 130\<rparr>, channelConfigState = LocalChangePending,
     setChannelConfigAttempts = 0, usedConfigTypes = 6, receivedConfigTypes = 0, el_config = Some (new_config [])\<rparr>"

definition sample_vt :: "unit element_vt" where
  "sample_vt = \<lparr>v_setAndSaveFunction = element_setAndSaveFunction, v_applyChannelConfig = (\<lambda>_ _ _ _ _ e. (e, Success)),
     v_fillChannelConfig = (\<lambda>_ _. [1])\<rparr>"

lemma isSet_cases: "types_isSet t b \<longleftrightarrow> t = SUPLA_CONFIG_TYPE_DEFAULT \<and> bit b 1 \<or> t = SUPLA_CONFIG_TYPE_WEEKLY_SCHEDULE \<and> bit b 2 \<or>
    t = SUPLA_CONFIG_TYPE_ALT_WEEKLY_SCHEDULE \<and> bit b 3 \<or> t = SUPLA_CONFIG_TYPE_OCR \<and> bit b 4 \<or> t = SUPLA_CONFIG_TYPE_EXTENDED \<and> bit b 5"
  by (simp add: types_isSet_def type_bit_def chan_consts)

lemma sample_types: "{t. types_isSet t 2} = {SUPLA_CONFIG_TYPE_DEFAULT}"
  "{t. types_isSet t 6} = {SUPLA_CONFIG_TYPE_DEFAULT, SUPLA_CONFIG_TYPE_WEEKLY_SCHEDULE}"
proof -
  have "bit (2 :: u8) n \<longleftrightarrow> n = 1" "bit (6 :: u8) n \<longleftrightarrow> n = 1 \<or> n = 2" if "n \<in> {1, 2, 3, 4, 5}" for n
    using that by (auto simp: bit_numeral_rec numeral_eq_Suc)
  then show "{t. types_isSet t 2} = {SUPLA_CONFIG_TYPE_DEFAULT}"
    "{t. types_isSet t 6} = {SUPLA_CONFIG_TYPE_DEFAULT, SUPLA_CONFIG_TYPE_WEEKLY_SCHEDULE}"
    by (simp_all add: isSet_cases set_eq_iff)
qed

lemma sample_ok:
  "channelConfigState sample_element = LocalChangePending" "getDefaultFunction (channel sample_element) \<noteq> 0"
  "types_ok (usedConfigTypes sample_element)" "flag_ok sample_element" "v_fillChannelConfig sample_vt t e \<noteq> []"
  "fills sample_vt (\<lambda>_. [1]) sample_element"
  by (simp_all add: fills_def sample_element_def sample_vt_def getDefaultFunction_def Channel_init_def types_ok_def flag_ok_def el_number_def
      new_config_def kv_inv_def kv_abs_def)

theorem local_change_wins_witness:
  "let e1 = handleChannelConfigFinished (server_configs sample_vt 0 130 [(SUPLA_CONFIG_TYPE_DEFAULT, [7])] (element_onRegistered sample_element))
   in channelConfigState ((round sample_vt 0 ^^ 2) e1) = CfgNone \<and>
     set (sent_calls sample_vt 0 2 e1) = {(130, [1], SUPLA_CONFIG_TYPE_DEFAULT), (130, [1], SUPLA_CONFIG_TYPE_WEEKLY_SCHEDULE)}"
proof -
  have f: "getDefaultFunction (channel sample_element) = 130" "usedConfigTypes sample_element = 6"
    by (simp_all add: sample_element_def getDefaultFunction_def)
  have n: "max 1 (card {t. types_isSet t (6 :: u8)}) = 2"
    unfolding sample_types by (simp add: chan_consts)
  have m: "\<forall>(t, c) \<in> set [(SUPLA_CONFIG_TYPE_DEFAULT, [7 :: u8])]. t \<noteq> SUPLA_CONFIG_TYPE_OCR" by (simp add: chan_consts)
  show ?thesis
    using local_change_wins [OF refl refl sample_ok(1-4) m sample_ok(6), of 0, unfolded f n]
    unfolding sample_types by (simp add: Let_def)
qed

section \<open>Failures\<close>

text \<open>No protocol layer takes the configuration.\<close>

definition unsent :: "'a element_vt \<Rightarrow> u32 \<Rightarrow> 'a Element_scheme \<Rightarrow> 'a Element_scheme" where
  "unsent vt now e = fst (iterateConfigExchange vt now [False] e)"

lemma unsent_attempt:
  assumes "sending e" "getNextConfigType e = Some t" "\<And>t e. v_fillChannelConfig vt t e \<noteq> []"
  shows "unsent vt now e = e\<lparr>setChannelConfigAttempts := setChannelConfigAttempts e + 1\<rparr>"
  using assms by (simp add: unsent_def sending_def iterateConfigExchange_def Let_def)

lemma getNext_attempts [simp]: "getNextConfigType (e\<lparr>setChannelConfigAttempts := k\<rparr>) = getNextConfigType e"
  by (simp add: getNextConfigType_def)

text \<open>A configuration that no protocol layer takes is given up: an element with one type to send tries it three times, then counts it as
  exchanged and clears the change, in the store too, although the server never saw it.\<close>

theorem unsent_change_dropped:
  assumes "sending e" "missing e = {t}" "setChannelConfigAttempts e = 0" "\<And>t e. v_fillChannelConfig vt t e \<noteq> []"
  shows "channelConfigState ((unsent vt now ^^ 4) e) = channelConfigState e \<and>
    channelConfigState ((unsent vt now ^^ 5) e) = CfgNone \<and> \<not> flag_stored ((unsent vt now ^^ 5) e)"
proof -
  have ex: "exchange_ok e" using assms(1) by (simp add: sending_def)
  then obtain u where "getNextConfigType e = Some u" using assms(2) getNext_iff by fastforce
  then have n: "getNextConfigType e = Some t" using getNext_Some assms(2) by fastforce
  have a: "unsent vt now (e\<lparr>setChannelConfigAttempts := k\<rparr>) = e\<lparr>setChannelConfigAttempts := k + 1\<rparr>" if "k < 3" for k
    using unsent_attempt [of "e\<lparr>setChannelConfigAttempts := k\<rparr>" t vt now] assms(1,4) n that
    by (simp add: sending_def exchange_ok_def)
  have thrice: "(f ^^ 3) x = f (f (f x))" for f :: "'a Element_scheme \<Rightarrow> 'a Element_scheme" and x by (simp add: eval_nat_numeral)
  have "(unsent vt now ^^ 3) (e\<lparr>setChannelConfigAttempts := 0\<rparr>) = e\<lparr>setChannelConfigAttempts := 3\<rparr>"
    using a [of 0] a [of 1] a [of 2] by (simp add: thrice)
  moreover have "e\<lparr>setChannelConfigAttempts := 0\<rparr> = e" using assms(3) by (cases e) simp
  ultimately have three: "(unsent vt now ^^ 3) e = e\<lparr>setChannelConfigAttempts := 3\<rparr>" by simp
  let ?e = "e\<lparr>receivedConfigTypes := types_set t True (receivedConfigTypes e), setChannelConfigAttempts := 0\<rparr>"
  have "unsent vt now (e\<lparr>setChannelConfigAttempts := 3\<rparr>) = ?e"
    using assms(1) n by (simp add: unsent_def sending_def iterateConfigExchange_def Let_def)
  then have four: "(unsent vt now ^^ 4) e = ?e" using three by (simp add: numeral_eq_Suc)
  have "exchange_ok ?e" "missing ?e = {}" using received_one [OF ex, of t ?e] assms(2) by simp_all
  then have "getNextConfigType ?e = None" using getNext_iff by blast
  then have last: "unsent vt now ?e = clearChannelConfigChangedFlag now ?e"
    using assms(1) by (simp add: unsent_def sending_def iterateConfigExchange_def)
  have "(f ^^ 5) x = f ((f ^^ 4) x)" for f :: "'a Element_scheme \<Rightarrow> 'a Element_scheme" and x by (simp add: eval_nat_numeral)
  from this [of "unsent vt now" e] have five: "(unsent vt now ^^ 5) e = clearChannelConfigChangedFlag now ?e" unfolding four last .
  show ?thesis unfolding five four using assms(1) flag_cleared [of ?e now] by (auto simp: sending_def)
qed

theorem unsent_change_dropped_witness:
  "channelConfigState ((unsent sample_vt 0 ^^ 5) (sample_element\<lparr>usedConfigTypes := 2, receivedConfigTypes := 1\<rparr>)) = CfgNone"
proof -
  let ?e = "sample_element\<lparr>usedConfigTypes := 2, receivedConfigTypes := 1\<rparr>"
  have one: "\<not> types_isSet t 1" for t
    using type_bit_bounds [of t] by (auto simp: types_isSet_def bit_simps split: option.split)
  have "sending ?e" using sample_ok one
    by (simp add: sending_def exchange_ok_def isConfigFinishedReceived_def flag_ok_def flag_key_def el_number_def types_ok_def)
      (simp add: sample_element_def bit_simps)
  moreover have "missing ?e = {SUPLA_CONFIG_TYPE_DEFAULT}"
    unfolding missing_def by (simp add: one sample_types)
  moreover have "setChannelConfigAttempts ?e = 0" by (simp add: sample_element_def)
  ultimately show ?thesis using unsent_change_dropped [of ?e _ sample_vt 0] sample_ok(5) by blast
qed

section \<open>Classes of elements\<close>

text \<open>What a class of elements promises for its configuration: a configuration that one element fills in is accepted by another one of the same kind,
  which then has the same settings; the settings do not depend on the state of the exchange.  \<open>same_kind\<close> says which elements
  can exchange their configurations.\<close>

locale element_class =
  fixes vt :: "'a element_vt"
    and same_kind :: "'a Element_scheme \<Rightarrow> 'a Element_scheme \<Rightarrow> bool"
  assumes same_function: "same_kind e e' \<Longrightarrow> getDefaultFunction (channel e') = getDefaultFunction (channel e)"
    and fill_received: "v_fillChannelConfig vt t (e\<lparr>receivedConfigTypes := b\<rparr>) = v_fillChannelConfig vt t e"
    and apply_filled: "same_kind e e' \<Longrightarrow> v_fillChannelConfig vt t e \<noteq> [] \<Longrightarrow>
      v_applyChannelConfig vt now (getDefaultFunction (channel e)) t (v_fillChannelConfig vt t e) l e' = (e'', res) \<Longrightarrow>
      res = Success \<and> v_fillChannelConfig vt t e'' = v_fillChannelConfig vt t e"
begin

text \<open>The configuration of an element travels to another one through the server.\<close>

lemma config_travels:
  assumes "same_kind e e'" "v_fillChannelConfig vt t e \<noteq> []" "getDefaultFunction (channel e) \<noteq> 0" "types_isSet t (usedConfigTypes e')"
    and "channelConfigState e' \<noteq> LocalChangePending"
    and h: "handleChannelConfig vt now (getDefaultFunction (channel e)) t (v_fillChannelConfig vt t e) False e' = (e'', res)"
  shows "res = SUPLA_CONFIG_RESULT_TRUE \<and> v_fillChannelConfig vt t e'' = v_fillChannelConfig vt t e \<and> types_isSet t (receivedConfigTypes e'')"
proof -
  obtain e1 r where a: "v_applyChannelConfig vt now (getDefaultFunction (channel e)) t (v_fillChannelConfig vt t e) False e' = (e1, r)" by fastforce
  note p = apply_filled [OF assms(1,2) a]
  have "e'' = e1\<lparr>receivedConfigTypes := types_set t True (receivedConfigTypes e1)\<rparr>" "res = SUPLA_CONFIG_RESULT_TRUE"
    using h assms(3-5) same_function [OF assms(1)] p by (simp_all add: handleChannelConfig_def Let_def a)
  then show ?thesis using p fill_received isSet_type [OF assms(4)] by simp
qed

end

end
