(* ===== verification/Storage.thy ===== *)
theory Storage
  imports Prelude
begin

text \<open>
  The storage of a device (\<open>storage/storage.cpp\<close>, \<open>storage/eeprom.cpp\<close>, \<open>crc16.cpp\<close>): reading and writing the memory, special
  sections with checksum and backup copy, and the times at which the state may be saved.

  The virtual methods \<open>readStorage\<close> and \<open>writeStorage\<close> are the record \<open>storage_vt\<close>; the class \<open>Eeprom\<close> provides
  them over the library of the platform, whose two functions are the parameters \<open>rd\<close> and \<open>wr\<close>.  What is expected of that
  library is the locale \<open>byte_cells\<close>; what \<open>Storage\<close> expects of its memory is the locale \<open>storage_memory\<close>.
\<close>

unbundle bit_operations_syntax

section \<open>Checksums\<close>

definition crc16_bit :: "u16 \<Rightarrow> u16" where
  "crc16_bit crc = (if crc AND 1 \<noteq> 0 then drop_bit 1 crc XOR 0xA001 else drop_bit 1 crc)"

definition crc16_update :: "u16 \<Rightarrow> u8 \<Rightarrow> u16" where
  "crc16_update crc a = (crc16_bit ^^ 8) (crc XOR ucast a)"

fun crc16_loop :: "u16 \<Rightarrow> bytes \<Rightarrow> u16" where
  "crc16_loop crc [] = crc"
| "crc16_loop crc (b # bs) = crc16_loop (crc16_update crc b) bs"

definition calculateCrc16 :: "bytes \<Rightarrow> u16" where
  "calculateCrc16 data = crc16_loop 0xFFFF data"

section \<open>Memory\<close>

text \<open>\<open>readStorage\<close> returns the filled buffer and the number of bytes read, \<open>writeStorage\<close> the memory and the number of bytes
  written.\<close>

record 'm storage_vt =
  readStorage :: "'m \<Rightarrow> u32 \<Rightarrow> nat \<Rightarrow> bytes \<times> nat"
  writeStorage :: "'m \<Rightarrow> u32 \<Rightarrow> bytes \<Rightarrow> 'm \<times> nat"

fun eeprom_read_loop :: "('e \<Rightarrow> u32 \<Rightarrow> u8) \<Rightarrow> 'e \<Rightarrow> u32 \<Rightarrow> nat \<Rightarrow> bytes" where
  "eeprom_read_loop rd e offset 0 = []"
| "eeprom_read_loop rd e offset (Suc n) = rd e offset # eeprom_read_loop rd e (offset + 1) n"

fun eeprom_write_loop :: "('e \<Rightarrow> u32 \<Rightarrow> u8 \<Rightarrow> 'e) \<Rightarrow> 'e \<Rightarrow> u32 \<Rightarrow> bytes \<Rightarrow> 'e" where
  "eeprom_write_loop wr e offset [] = e"
| "eeprom_write_loop wr e offset (b # bs) = eeprom_write_loop wr (wr e offset b) (offset + 1) bs"

record 'e Eeprom =
  ee :: 'e
  dataChanged :: bool

definition eeprom_vt :: "('e \<Rightarrow> u32 \<Rightarrow> u8) \<Rightarrow> ('e \<Rightarrow> u32 \<Rightarrow> u8 \<Rightarrow> 'e) \<Rightarrow> 'e Eeprom storage_vt" where
  "eeprom_vt rd wr =
     \<lparr>readStorage = (\<lambda>m offset n. (eeprom_read_loop rd (ee m) offset n, n)),
      writeStorage = (\<lambda>m offset buf. (m\<lparr>dataChanged := True, ee := eeprom_write_loop wr (ee m) offset buf\<rparr>, length buf))\<rparr>"

text \<open>The second component tells whether the cached content is written to flash, on the platforms that cache it.\<close>

definition eeprom_commit :: "'e Eeprom \<Rightarrow> 'e Eeprom \<times> bool" where
  "eeprom_commit m = (m\<lparr>dataChanged := False\<rparr>, dataChanged m)"

section \<open>The storage object\<close>

record SpecialSectionInfo =
  sectionId :: int
  sec_offset :: u32
  sec_size :: nat
  addCrc :: bool
  addBackupCopy :: bool

record 'm Storage =
  mem :: 'm
  storageStartingOffset :: u32
  availableSize :: u32
  saveStatePeriod :: u32
  lastWriteTimestamp :: u32
  sections :: "SpecialSectionInfo list"
  stateChanged :: bool

definition new_storage :: "'m \<Rightarrow> u32 \<Rightarrow> u32 \<Rightarrow> 'm Storage" where
  "new_storage m off avail = \<lparr>mem = m, storageStartingOffset = off, availableSize = avail, saveStatePeriod = 1000,
     lastWriteTimestamp = 0, sections = [], stateChanged = False\<rparr>"

text \<open>\<open>stateChanged\<close> records the call of \<open>notifyUpdate\<close>.\<close>

definition updateStorage :: "'m storage_vt \<Rightarrow> 'm Storage \<Rightarrow> u32 \<Rightarrow> bytes \<Rightarrow> 'm Storage \<times> nat" where
  "updateStorage vt st offset buf =
     (if offset < storageStartingOffset st then (st, 0)
      else if fst (readStorage vt (mem st) offset (length buf)) \<noteq> buf then
        let (m, n) = writeStorage vt (mem st) offset buf in (st\<lparr>stateChanged := True, mem := m\<rparr>, n)
      else (st, length buf))"

definition setStateSavePeriod :: "'m Storage \<Rightarrow> u32 \<Rightarrow> 'm Storage" where
  "setStateSavePeriod st periodMs = (if periodMs < 500 then st\<lparr>saveStatePeriod := 500\<rparr> else st\<lparr>saveStatePeriod := periodMs\<rparr>)"

definition saveStateAllowed :: "'m Storage \<Rightarrow> u32 \<Rightarrow> 'm Storage \<times> bool" where
  "saveStateAllowed st ms =
     (if ms - lastWriteTimestamp st > saveStatePeriod st then (st\<lparr>lastWriteTimestamp := ms\<rparr>, True) else (st, False))"

definition scheduleSave :: "'m Storage \<Rightarrow> u32 \<Rightarrow> u32 \<Rightarrow> u32 \<Rightarrow> 'm Storage" where
  "scheduleSave st now delayMsMax delayMsMin =
     (let nxt = lastWriteTimestamp st + saveStatePeriod st;
          desired = now + delayMsMax;
          tgt = (if sint (nxt - desired) < 0 then nxt else desired);
          tgt = (if delayMsMin \<noteq> 0 then
                   let desired = now + delayMsMin in if sint (tgt - desired) < 0 then desired else tgt
                 else tgt)
      in st\<lparr>lastWriteTimestamp := tgt - saveStatePeriod st\<rparr>)"

section \<open>Special sections\<close>

definition registerSection :: "'m Storage \<Rightarrow> int \<Rightarrow> u32 \<Rightarrow> nat \<Rightarrow> bool \<Rightarrow> bool \<Rightarrow> 'm Storage \<times> bool" where
  "registerSection st sid off sz crc bkp =
     (if bkp \<and> \<not> crc then (st, False)
      else if sid \<in> sectionId ` set (sections st) then (st, False)
      else (st\<lparr>sections := sections st @
              [\<lparr>sectionId = sid, sec_offset = off, sec_size = sz, addCrc = crc, addBackupCopy = bkp\<rparr>]\<rparr>, True))"

fun find_section :: "SpecialSectionInfo list \<Rightarrow> int \<Rightarrow> SpecialSectionInfo option" where
  "find_section [] sid = None"
| "find_section (p # ps) sid = (if sectionId p \<noteq> sid then find_section ps sid else Some p)"

definition entry_offset :: "SpecialSectionInfo \<Rightarrow> nat \<Rightarrow> u32" where
  "entry_offset p entry = sec_offset p + of_nat (entry * (sec_size p + (if addCrc p then 2 else 0)))"

definition entries :: "SpecialSectionInfo \<Rightarrow> nat list" where
  "entries p = [0..<if addBackupCopy p then 2 else 1]"

fun read_entries :: "'m storage_vt \<Rightarrow> 'm \<Rightarrow> SpecialSectionInfo \<Rightarrow> nat list \<Rightarrow> bytes option" where
  "read_entries vt m p [] = None"
| "read_entries vt m p (entry # es) =
     (let offset = entry_offset p entry;
          (buffer, readBytes) = readStorage vt m offset (sec_size p)
      in if readBytes \<noteq> sec_size p then None
         else if addCrc p \<and>
           bytes_u16 (fst (readStorage vt m (offset + of_nat (sec_size p)) 2)) \<noteq> crc16_loop 0xFFFF buffer
         then read_entries vt m p es
         else Some buffer)"

definition readSection :: "'m storage_vt \<Rightarrow> 'm Storage \<Rightarrow> int \<Rightarrow> nat \<Rightarrow> bytes option" where
  "readSection vt st sid sz =
     (case find_section (sections st) sid of
        None \<Rightarrow> None
      | Some p \<Rightarrow> if sec_size p \<noteq> sz then None else read_entries vt (mem st) p (entries p))"

fun write_entries :: "'m storage_vt \<Rightarrow> 'm \<Rightarrow> SpecialSectionInfo \<Rightarrow> bytes \<Rightarrow> nat list \<Rightarrow> 'm \<times> bool" where
  "write_entries vt m p data [] = (m, True)"
| "write_entries vt m p data (entry # es) =
     (let offset = entry_offset p entry
      in if fst (readStorage vt m offset (sec_size p)) \<noteq> data then
           let (m, wroteBytes) = writeStorage vt m offset data
           in if wroteBytes \<noteq> sec_size p then (m, False)
              else if addCrc p then
                write_entries vt (fst (writeStorage vt m (offset + of_nat (sec_size p)) (u16_bytes (crc16_loop 0xFFFF data)))) p data es
              else write_entries vt m p data es
         else write_entries vt m p data es)"

definition writeSection :: "'m storage_vt \<Rightarrow> 'm Storage \<Rightarrow> int \<Rightarrow> bytes \<Rightarrow> 'm Storage \<times> bool" where
  "writeSection vt st sid data =
     (case find_section (sections st) sid of
        None \<Rightarrow> (st, False)
      | Some p \<Rightarrow>
          if sec_size p \<noteq> length data then (st, False)
          else let (m, r) = write_entries vt (mem st) p data (entries p) in (st\<lparr>mem := m\<rparr>, r))"

fun zero_loop :: "'m storage_vt \<Rightarrow> 'm \<Rightarrow> u32 \<Rightarrow> nat \<Rightarrow> 'm" where
  "zero_loop vt m offset 0 = m"
| "zero_loop vt m offset (Suc n) = zero_loop vt (fst (writeStorage vt m offset [0])) (offset + 1) n"

fun delete_entries :: "'m storage_vt \<Rightarrow> 'm \<Rightarrow> SpecialSectionInfo \<Rightarrow> nat list \<Rightarrow> 'm" where
  "delete_entries vt m p [] = m"
| "delete_entries vt m p (entry # es) =
     (let offset = entry_offset p entry;
          m = zero_loop vt m offset (sec_size p);
          m = (if addCrc p then fst (writeStorage vt m (offset + of_nat (sec_size p)) (u16_bytes 0)) else m)
      in delete_entries vt m p es)"

definition deleteSection :: "'m storage_vt \<Rightarrow> 'm Storage \<Rightarrow> int \<Rightarrow> 'm Storage \<times> bool" where
  "deleteSection vt st sid =
     (case find_section (sections st) sid of
        None \<Rightarrow> (st, False)
      | Some p \<Rightarrow> (st\<lparr>mem := delete_entries vt (mem st) p (entries p)\<rparr>, True))"

declare read_entries.simps(2) [simp del] write_entries.simps(2) [simp del] delete_entries.simps(2) [simp del]

section \<open>What is expected of the memory\<close>

text \<open>An EEPROM with a cell for every address.  A platform whose address type is narrower (16 bits on AVR) has these cells for the
  addresses below its size only; the sections have to lie there.\<close>

locale byte_cells =
  fixes rd :: "'e \<Rightarrow> u32 \<Rightarrow> u8"
    and wr :: "'e \<Rightarrow> u32 \<Rightarrow> u8 \<Rightarrow> 'e"
  assumes rd_wr: "rd (wr e a v) b = (if b = a then v else rd e b)"

text \<open>The contents of a range, and the contents of the memory after a range is overwritten.\<close>

definition cells :: "(u32 \<Rightarrow> u8) \<Rightarrow> u32 \<Rightarrow> nat \<Rightarrow> bytes" where
  "cells F off n = map (\<lambda>i. F (off + of_nat i)) [0..<n]"

definition patch :: "(u32 \<Rightarrow> u8) \<Rightarrow> u32 \<Rightarrow> bytes \<Rightarrow> u32 \<Rightarrow> u8" where
  "patch F off bs a = (if unat (a - off) < length bs then bs ! unat (a - off) else F a)"

locale storage_memory =
  fixes vt :: "'m storage_vt"
    and cell :: "'m \<Rightarrow> u32 \<Rightarrow> u8"
  assumes read_law: "readStorage vt m off n = (cells (cell m) off n, n)"
    and write_count: "snd (writeStorage vt m off bs) = length bs"
    and write_law: "length bs < 2 ^ 32 \<Longrightarrow> cell (fst (writeStorage vt m off bs)) = patch (cell m) off bs"

lemma eeprom_read_loop_eq: "eeprom_read_loop rd e off n = cells (rd e) off n"
proof (induction n arbitrary: off)
  case (Suc n)
  then show ?case unfolding cells_def upt_conv_Cons [OF zero_less_Suc] by (simp add: map_Suc_upt [symmetric] add.assoc comp_def del: upt_Suc)
qed (simp add: cells_def)

lemma unat_minus_Suc: "a \<noteq> off \<Longrightarrow> unat (a - off) = Suc (unat (a - (off + 1)))" for a off :: u32
proof -
  assume "a \<noteq> off"
  then have "unat (a - off - 1) = unat (a - off) - 1" "unat (a - off) > 0"
    by (simp_all add: unat_minus_one unat_gt_0)
  then show ?thesis by (simp add: diff_diff_eq)
qed

context byte_cells
begin

lemma eeprom_write_loop_cell:
  "length bs < 2 ^ 32 \<Longrightarrow> rd (eeprom_write_loop wr e off bs) = patch (rd e) off bs"
proof (induction bs arbitrary: e off)
  case (Cons b bs)
  then have IH: "rd (eeprom_write_loop wr (wr e off b) (off + 1) bs) = patch (rd (wr e off b)) (off + 1) bs" by simp
  have "unat (off - (off + 1)) = 2 ^ 32 - 1" by (simp add: unsigned_minus_1_eq_mask mask_eq_exp_minus_1)
  then show ?case
    using Cons.prems unat_minus_Suc [of _ off] by (auto simp: IH patch_def rd_wr fun_eq_iff)
qed (simp add: patch_def fun_eq_iff)

end

sublocale byte_cells \<subseteq> storage_memory "eeprom_vt rd wr" "\<lambda>m. rd (ee m)"
proof
  fix m :: "'e Eeprom" and off :: u32 and n :: nat and bs :: bytes
  show "readStorage (eeprom_vt rd wr) m off n = (cells (rd (ee m)) off n, n)"
    by (simp add: eeprom_vt_def eeprom_read_loop_eq cells_def)
  show "snd (writeStorage (eeprom_vt rd wr) m off bs) = length bs" by (simp add: eeprom_vt_def)
  show "length bs < 2 ^ 32 \<Longrightarrow>
      rd (ee (fst (writeStorage (eeprom_vt rd wr) m off bs))) = patch (rd (ee m)) off bs"
    by (simp add: eeprom_vt_def eeprom_write_loop_cell patch_def fun_eq_iff)
qed

section \<open>Ranges of memory\<close>

lemma length_cells [simp]: "length (cells F off n) = n"
  by (simp add: cells_def)

lemma unat_add_small: "unat off + i < 2 ^ 32 \<Longrightarrow> unat (off + of_nat i) = unat off + i" for off :: u32
  by (simp add: unat_word_ariths unat_of_nat)

lemma unat_sub_less:
  assumes "unat (off :: u32) + n \<le> 2 ^ 32"
  shows "unat (a - off) < n \<longleftrightarrow> unat off \<le> unat a \<and> unat a < unat off + n"
proof (cases "off \<le> a")
  case True
  then have "unat (a - off) = unat a - unat off" "unat off \<le> unat a" by (simp_all add: unat_sub word_le_nat_alt)
  then show ?thesis by auto
next
  case False
  then have l: "unat a < unat off" by (simp add: word_le_nat_alt)
  have "unat (a - off) = 2 ^ 32 + unat a - unat off"
    using l by (simp add: unat_sub_if')
  then show ?thesis using l assms by auto
qed

lemma cells_patch_same:
  assumes "unat off + n \<le> 2 ^ 32" "length bs \<le> n"
  shows "cells (patch F off bs) off n = bs @ drop (length bs) (cells F off n)"
proof (rule nth_equalityI)
  fix i
  assume "i < length (cells (patch F off bs) off n)"
  then have i: "i < n" by simp
  then have "unat (of_nat i :: u32) = i" using assms(1) by (simp add: unat_of_nat)
  then show "cells (patch F off bs) off n ! i = (bs @ drop (length bs) (cells F off n)) ! i"
    using i assms(2) by (auto simp: cells_def patch_def nth_append)
qed (use assms in simp)

lemma cells_patch_other:
  assumes "unat off + length bs \<le> 2 ^ 32" "unat off' + n \<le> 2 ^ 32"
    and "unat off' + n \<le> unat off \<or> unat off + length bs \<le> unat off'"
  shows "cells (patch F off bs) off' n = cells F off' n"
proof -
  have "\<not> unat (off' + of_nat i - off) < length bs" if "i < n" for i
    using that assms(2,3) unat_add_small [of off' i] unat_sub_less [OF assms(1), of "off' + of_nat i"] by auto
  then show ?thesis by (auto simp: cells_def patch_def)
qed

section \<open>A section as four ranges\<close>

text \<open>A section is not empty, and its range of addresses does not wrap around.\<close>

definition copies :: "SpecialSectionInfo \<Rightarrow> nat" where
  "copies p = (if addBackupCopy p then 2 else 1)"

definition entry_size :: "SpecialSectionInfo \<Rightarrow> nat" where
  "entry_size p = sec_size p + (if addCrc p then 2 else 0)"

definition section_ok :: "SpecialSectionInfo \<Rightarrow> bool" where
  "section_ok p \<longleftrightarrow> unat (sec_offset p) + copies p * entry_size p < 2 ^ 32 \<and> 0 < sec_size p"

definition entry_data :: "(u32 \<Rightarrow> u8) \<Rightarrow> SpecialSectionInfo \<Rightarrow> nat \<Rightarrow> bytes" where
  "entry_data F p i = cells F (entry_offset p i) (sec_size p)"

definition entry_crc :: "(u32 \<Rightarrow> u8) \<Rightarrow> SpecialSectionInfo \<Rightarrow> nat \<Rightarrow> bytes" where
  "entry_crc F p i = cells F (entry_offset p i + of_nat (sec_size p)) 2"

definition entry_valid :: "(u32 \<Rightarrow> u8) \<Rightarrow> SpecialSectionInfo \<Rightarrow> nat \<Rightarrow> bool" where
  "entry_valid F p i \<longleftrightarrow> \<not> addCrc p \<or> bytes_u16 (entry_crc F p i) = calculateCrc16 (entry_data F p i)"

lemma length_entry_data [simp]: "length (entry_data F p i) = sec_size p"
  by (simp add: entry_data_def)

lemma length_entry_crc [simp]: "length (entry_crc F p i) = 2"
  by (simp add: entry_crc_def)

lemma entry_offset_nat:
  assumes "section_ok p" "i < copies p"
  shows "i * entry_size p + entry_size p \<le> copies p * entry_size p"
    "0 < entry_size p \<Longrightarrow> unat (entry_offset p i) = unat (sec_offset p) + i * entry_size p"
proof -
  show le: "i * entry_size p + entry_size p \<le> copies p * entry_size p"
    using assms(2) by (metis Suc_leI add.commute mult_Suc mult_le_mono1)
  then show "0 < entry_size p \<Longrightarrow> unat (entry_offset p i) = unat (sec_offset p) + i * entry_size p"
    using assms(1) unat_add_small [of "sec_offset p" "i * entry_size p"]
    by (auto simp: entry_offset_def entry_size_def [symmetric] section_ok_def)
qed

text \<open>Overwriting a prefix of the data or of the checksum of an entry changes nothing else in the section.\<close>

lemma entry_ranges:
  assumes ok: "section_ok p" and i: "i < copies p" and n: "0 < entry_size p"
  shows "unat (entry_offset p i) + sec_size p \<le> 2 ^ 32"
    "addCrc p \<Longrightarrow> unat (entry_offset p i + of_nat (sec_size p)) = unat (entry_offset p i) + sec_size p"
    "addCrc p \<Longrightarrow> unat (entry_offset p i) + sec_size p + 2 \<le> 2 ^ 32"
proof -
  have e: "unat (entry_offset p i) + entry_size p \<le> 2 ^ 32"
    using entry_offset_nat [OF ok i] n ok by (simp add: section_ok_def)
  then show "unat (entry_offset p i) + sec_size p \<le> 2 ^ 32"
    "addCrc p \<Longrightarrow> unat (entry_offset p i) + sec_size p + 2 \<le> 2 ^ 32"
    by (simp_all add: entry_size_def)
  show "addCrc p \<Longrightarrow> unat (entry_offset p i + of_nat (sec_size p)) = unat (entry_offset p i) + sec_size p"
    using e by (intro unat_add_small) (simp add: entry_size_def)
qed

lemma entry_apart:
  assumes "section_ok p" "i < copies p" "j < copies p" "i \<noteq> j" "0 < entry_size p"
  shows "unat (entry_offset p i) + entry_size p \<le> unat (entry_offset p j) \<or>
    unat (entry_offset p j) + entry_size p \<le> unat (entry_offset p i)"
proof -
  have "i * entry_size p + entry_size p \<le> j * entry_size p \<or> j * entry_size p + entry_size p \<le> i * entry_size p"
    using assms(4) by (metis add.commute less_eq_Suc_le linorder_neqE_nat mult_Suc mult_le_mono1)
  then show ?thesis using entry_offset_nat(2) [OF assms(1)] assms(2,3,5) by auto
qed

lemma patch_data:
  fixes F :: "u32 \<Rightarrow> u8"
  assumes ok: "section_ok p" and i: "i < copies p" and n: "0 < entry_size p" and l: "length bs \<le> sec_size p"
  defines "G \<equiv> patch F (entry_offset p i) bs"
  shows "entry_data G p i = bs @ drop (length bs) (entry_data F p i)"
    "addCrc p \<Longrightarrow> entry_crc G p i = entry_crc F p i"
    "j < copies p \<Longrightarrow> j \<noteq> i \<Longrightarrow> entry_data G p j = entry_data F p j"
    "addCrc p \<Longrightarrow> j < copies p \<Longrightarrow> j \<noteq> i \<Longrightarrow> entry_crc G p j = entry_crc F p j"
proof -
  note R = entry_ranges [OF ok i n]
  show "entry_data G p i = bs @ drop (length bs) (entry_data F p i)"
    unfolding entry_data_def G_def using R(1) l by (rule cells_patch_same)
  show "addCrc p \<Longrightarrow> entry_crc G p i = entry_crc F p i"
    unfolding entry_crc_def G_def using R l by (intro cells_patch_other) auto
  assume j: "j < copies p" "j \<noteq> i"
  note S = entry_ranges [OF ok j(1) n] and A = entry_apart [OF ok j(1) i j(2) n]
  show "entry_data G p j = entry_data F p j"
    unfolding entry_data_def G_def using R S A l by (intro cells_patch_other) (auto simp: entry_size_def)
  show "addCrc p \<Longrightarrow> entry_crc G p j = entry_crc F p j"
    unfolding entry_crc_def G_def using R S A l by (intro cells_patch_other) (auto simp: entry_size_def)
qed

lemma patch_crc:
  fixes F :: "u32 \<Rightarrow> u8"
  assumes ok: "section_ok p" and i: "i < copies p" and c: "addCrc p" and l: "length bs \<le> 2"
  defines "G \<equiv> patch F (entry_offset p i + of_nat (sec_size p)) bs"
  shows "entry_crc G p i = bs @ drop (length bs) (entry_crc F p i)"
    "entry_data G p i = entry_data F p i"
    "j < copies p \<Longrightarrow> j \<noteq> i \<Longrightarrow> entry_data G p j = entry_data F p j"
    "j < copies p \<Longrightarrow> j \<noteq> i \<Longrightarrow> entry_crc G p j = entry_crc F p j"
proof -
  have n: "0 < entry_size p" using c by (simp add: entry_size_def)
  note R = entry_ranges [OF ok i n]
  show "entry_crc G p i = bs @ drop (length bs) (entry_crc F p i)"
    unfolding entry_crc_def G_def using R c l by (intro cells_patch_same) simp_all
  show "entry_data G p i = entry_data F p i"
    unfolding entry_data_def G_def using R c l by (intro cells_patch_other) auto
  assume j: "j < copies p" "j \<noteq> i"
  note S = entry_ranges [OF ok j(1) n] and A = entry_apart [OF ok j(1) i j(2) n]
  show "entry_data G p j = entry_data F p j"
    unfolding entry_data_def G_def using R S A c l by (intro cells_patch_other) (auto simp: entry_size_def)
  show "entry_crc G p j = entry_crc F p j"
    unfolding entry_crc_def G_def using R S A c l by (intro cells_patch_other) (auto simp: entry_size_def)
qed

lemma section_pos: "section_ok p \<Longrightarrow> 0 < entry_size p"
  by (simp add: section_ok_def entry_size_def)

lemma section_size_bound: "section_ok p \<Longrightarrow> sec_size p < 2 ^ 32"
  by (auto simp: section_ok_def entry_size_def copies_def split: if_splits)

lemma set_entries: "set (entries p) = {..<copies p}" "distinct (entries p)"
  by (auto simp: entries_def copies_def)

section \<open>Reading and writing a section\<close>

text \<open>A memory that loses its power after \<open>k\<close> more bytes are written.\<close>

definition failing :: "'m storage_vt \<Rightarrow> ('m \<times> nat) storage_vt" where
  "failing vt =
     \<lparr>readStorage = (\<lambda>(m, k). readStorage vt m),
      writeStorage = (\<lambda>(m, k) off bs. ((fst (writeStorage vt m off (take k bs)), k - length bs), length bs))\<rparr>"

definition with_mem :: "'m Storage \<Rightarrow> 'n \<Rightarrow> 'n Storage" where
  "with_mem st m = \<lparr>mem = m, storageStartingOffset = storageStartingOffset st, availableSize = availableSize st,
     saveStatePeriod = saveStatePeriod st, lastWriteTimestamp = lastWriteTimestamp st, sections = sections st,
     stateChanged = stateChanged st\<rparr>"

definition interrupted :: "'m storage_vt \<Rightarrow> nat \<Rightarrow> 'm Storage \<Rightarrow> int \<Rightarrow> bytes \<Rightarrow> 'm Storage" where
  "interrupted vt k st sid data = st\<lparr>mem := fst (mem (fst (writeSection (failing vt) (with_mem st (mem st, k)) sid data)))\<rparr>"

lemma patch_Nil [simp]: "patch F off [] = F"
  by (simp add: patch_def fun_eq_iff)

text \<open>An entry into which the first \<open>k\<close> bytes of data and checksum are written.\<close>

lemma torn_entry:
  fixes F :: "u32 \<Rightarrow> u8" and k :: nat
  assumes ok: "section_ok p" and i: "i < copies p" and c: "addCrc p" and d: "length data = sec_size p"
  defines "G \<equiv> patch (patch F (entry_offset p i) (take k data)) (entry_offset p i + of_nat (sec_size p))
      (take (k - sec_size p) (u16_bytes (calculateCrc16 data)))"
  shows "entry_data G p i = take k data @ drop k (entry_data F p i)"
    "entry_crc G p i = take (k - sec_size p) (u16_bytes (calculateCrc16 data)) @ drop (k - sec_size p) (entry_crc F p i)"
    "j < copies p \<Longrightarrow> j \<noteq> i \<Longrightarrow> entry_data G p j = entry_data F p j"
    "j < copies p \<Longrightarrow> j \<noteq> i \<Longrightarrow> entry_valid G p j = entry_valid F p j"
proof -
  define F1 where "F1 = patch F (entry_offset p i) (take k data)"
  have dr: "drop (min n k) xs = drop k xs" if "length xs = n" for n and xs :: bytes using that by (simp add: min_def)
  note P = patch_data [OF ok i section_pos [OF ok], where F = F and bs = "take k data", folded F1_def]
    and C = patch_crc [OF ok i c, where F = F1 and bs = "take (k - sec_size p) (u16_bytes (calculateCrc16 data))"]
  show "entry_data G p i = take k data @ drop k (entry_data F p i)"
    using P C d dr [OF length_entry_data [of F p i]] by (simp add: G_def F1_def [symmetric])
  show "entry_crc G p i = take (k - sec_size p) (u16_bytes (calculateCrc16 data)) @ drop (k - sec_size p) (entry_crc F p i)"
    using P(2) C(1) c d by (simp add: G_def F1_def [symmetric] min_def)
  show "j < copies p \<Longrightarrow> j \<noteq> i \<Longrightarrow> entry_data G p j = entry_data F p j"
    "j < copies p \<Longrightarrow> j \<noteq> i \<Longrightarrow> entry_valid G p j = entry_valid F p j"
    using P(3,4) C(3,4) c d by (simp_all add: G_def F1_def [symmetric] entry_valid_def)
qed

context storage_memory
begin

lemma read_entries_eq:
  "read_entries vt m p es =
     map_option (entry_data (cell m) p) (List.find (entry_valid (cell m) p) es)"
  by (induction es) (simp_all add: read_entries.simps(2) read_law entry_valid_def entry_data_def entry_crc_def calculateCrc16_def Let_def)

text \<open>Writing one entry, completely or until the power fails.\<close>

lemma failing_entry:
  assumes ok: "section_ok p" and c: "addCrc p" and d: "length data = sec_size p" "entry_data (cell m) p i \<noteq> data"
  shows "\<exists>m'. write_entries (failing vt) (m, k) p data (i # es) = write_entries (failing vt) (m', k - sec_size p - 2) p data es \<and>
    cell m' = patch (patch (cell m) (entry_offset p i) (take k data)) (entry_offset p i + of_nat (sec_size p))
      (take (k - sec_size p) (u16_bytes (calculateCrc16 data)))"
proof -
  have l: "length (take k data) < 2 ^ 32" using section_size_bound [OF ok] d(1) by simp
  have "cells (cell m) (entry_offset p i) (sec_size p) \<noteq> data" using d(2) by (simp add: entry_data_def)
  then have "write_entries (failing vt) (m, k) p data (i # es) = write_entries (failing vt)
      (fst (writeStorage vt (fst (writeStorage vt m (entry_offset p i) (take k data))) (entry_offset p i + of_nat (sec_size p))
        (take (k - sec_size p) (u16_bytes (calculateCrc16 data)))), k - sec_size p - 2) p data es"
    using d(1) c by (simp add: write_entries.simps(2) failing_def read_law Let_def calculateCrc16_def)
  then show ?thesis using l by (intro exI conjI) (assumption, simp add: write_law)
qed

lemma failing_same:
  assumes "entry_data (cell m) p i = data"
  shows "write_entries (failing vt) (m, k) p data (i # es) = write_entries (failing vt) (m, k) p data es"
  using assms by (simp add: write_entries.simps(2) failing_def read_law entry_data_def Let_def)

lemma write_entry:
  assumes ok: "section_ok p" and i: "i < copies p" and d: "length data = sec_size p"
  shows "\<exists>m'. write_entries vt m p data (i # es) = write_entries vt m' p data es \<and>
    entry_data (cell m') p i = data \<and>
    (entry_data (cell m) p i \<noteq> data \<or> entry_valid (cell m) p i \<longrightarrow> entry_valid (cell m') p i) \<and>
    (\<forall>j < copies p. j \<noteq> i \<longrightarrow> entry_data (cell m') p j = entry_data (cell m) p j \<and> entry_valid (cell m') p j = entry_valid (cell m) p j)"
proof (cases "entry_data (cell m) p i = data")
  case True
  then show ?thesis by (intro exI [of _ m]) (simp add: write_entries.simps(2) read_law entry_data_def Let_def)
next
  case False
  then have ne: "cells (cell m) (entry_offset p i) (sec_size p) \<noteq> data" by (simp add: entry_data_def)
  define m1 where "m1 = fst (writeStorage vt m (entry_offset p i) data)"
  define m2 where "m2 = (if addCrc p
    then fst (writeStorage vt m1 (entry_offset p i + of_nat (sec_size p)) (u16_bytes (calculateCrc16 data))) else m1)"
  have c1: "cell m1 = patch (cell m) (entry_offset p i) data"
    using section_size_bound [OF ok] d by (simp add: m1_def write_law)
  have c2: "cell m2 = (if addCrc p then patch (cell m1) (entry_offset p i + of_nat (sec_size p)) (u16_bytes (calculateCrc16 data)) else cell m1)"
    by (simp add: m2_def write_law)
  have w: "write_entries vt m p data (i # es) = write_entries vt m2 p data es"
    using ne d write_count [of m "entry_offset p i" data]
    by (cases "writeStorage vt m (entry_offset p i) data") (simp add: write_entries.simps(2) read_law Let_def m2_def m1_def calculateCrc16_def)
  have P: "entry_data (cell m1) p i = data" "addCrc p \<Longrightarrow> entry_crc (cell m1) p j = entry_crc (cell m) p j"
    "j \<noteq> i \<Longrightarrow> entry_data (cell m1) p j = entry_data (cell m) p j" if "j < copies p" for j
    using patch_data [OF ok i section_pos [OF ok], where F = "cell m" and bs = data] d that unfolding c1 [symmetric] by (cases "j = i"; simp)+
  have "entry_data (cell m2) p i = data" "entry_valid (cell m2) p i"
    "\<forall>j < copies p. j \<noteq> i \<longrightarrow> entry_data (cell m2) p j = entry_data (cell m) p j \<and> entry_valid (cell m2) p j = entry_valid (cell m) p j"
    using P [OF i] P patch_crc [OF ok i, where F = "cell m1" and bs = "u16_bytes (calculateCrc16 data)"]
    by (auto simp: c2 entry_valid_def)
  with w show ?thesis by (intro exI [of _ m2]) simp
qed

lemma write_entries_effect:
  assumes ok: "section_ok p" and d: "length data = sec_size p"
  shows "set es \<subseteq> {..<copies p} \<Longrightarrow> distinct es \<Longrightarrow> write_entries vt m p data es = (m', r) \<Longrightarrow>
    r \<and> (\<forall>i \<in> set es. entry_data (cell m') p i = data \<and>
      (entry_data (cell m) p i \<noteq> data \<or> entry_valid (cell m) p i \<longrightarrow> entry_valid (cell m') p i)) \<and>
    (\<forall>j < copies p. j \<notin> set es \<longrightarrow> entry_data (cell m') p j = entry_data (cell m) p j \<and> entry_valid (cell m') p j = entry_valid (cell m) p j)"
proof (induction es arbitrary: m)
  case (Cons i es)
  then have i: "i < copies p" "i \<notin> set es" by auto
  obtain m1 where m1: "write_entries vt m p data (i # es) = write_entries vt m1 p data es"
    "entry_data (cell m1) p i = data"
    "entry_data (cell m) p i \<noteq> data \<or> entry_valid (cell m) p i \<longrightarrow> entry_valid (cell m1) p i"
    "\<forall>j < copies p. j \<noteq> i \<longrightarrow> entry_data (cell m1) p j = entry_data (cell m) p j \<and> entry_valid (cell m1) p j = entry_valid (cell m) p j"
    using write_entry [OF ok i(1) d, of m es] by blast
  have IH: "r \<and> (\<forall>i \<in> set es. entry_data (cell m') p i = data \<and>
      (entry_data (cell m1) p i \<noteq> data \<or> entry_valid (cell m1) p i \<longrightarrow> entry_valid (cell m') p i)) \<and>
    (\<forall>j < copies p. j \<notin> set es \<longrightarrow> entry_data (cell m') p j = entry_data (cell m1) p j \<and> entry_valid (cell m') p j = entry_valid (cell m1) p j)"
    using Cons.IH [of m1] Cons.prems m1(1) by auto
  have es: "j < copies p \<and> j \<noteq> i" if "j \<in> set es" for j using Cons.prems(1) i(2) that by auto
  have "entry_data (cell m') p i = data \<and> (entry_data (cell m) p i \<noteq> data \<or> entry_valid (cell m) p i \<longrightarrow> entry_valid (cell m') p i)"
    using IH m1(2,3) i by metis
  moreover have "entry_data (cell m') p j = data \<and> (entry_data (cell m) p j \<noteq> data \<or> entry_valid (cell m) p j \<longrightarrow> entry_valid (cell m') p j)"
    if "j \<in> set es" for j using IH m1(4) es [OF that] that by metis
  moreover have "entry_data (cell m') p j = entry_data (cell m) p j \<and> entry_valid (cell m') p j = entry_valid (cell m) p j"
    if "j < copies p" "j \<notin> set (i # es)" for j using IH m1(4) that by simp
  ultimately show ?case using IH by simp
qed auto

lemma section_writes:
  assumes f: "find_section (sections st) sid = Some p" and ok: "section_ok p" and d: "length data = sec_size p"
    and v: "entry_data (cell (mem st)) p 0 \<noteq> data \<or> entry_valid (cell (mem st)) p 0"
  shows "snd (writeSection vt st sid data) \<and> readSection vt (fst (writeSection vt st sid data)) sid (length data) = Some data"
proof -
  obtain m' r where w: "write_entries vt (mem st) p data (entries p) = (m', r)" by fastforce
  have 0: "0 \<in> set (entries p)" by (simp add: set_entries copies_def)
  then have *: "r" "entry_data (cell m') p 0 = data" "entry_valid (cell m') p 0"
    using write_entries_effect [OF ok d _ _ w] v set_entries [of p] by blast+
  have "\<exists>es. entries p = 0 # es" by (simp add: entries_def upt_conv_Cons)
  then have "List.find (entry_valid (cell m') p) (entries p) = Some 0" using *(3) by auto
  then show ?thesis using f d w * by (simp add: writeSection_def readSection_def read_entries_eq)
qed

lemma section_interrupted:
  assumes f: "find_section (sections st) sid = Some p" and ok: "section_ok p" and b: "addCrc p" "addBackupCopy p"
    and d: "length data = sec_size p"
    and old: "\<forall>i < 2. entry_data (cell (mem st)) p i = old \<and> entry_valid (cell (mem st)) p i"
    and crc: "\<forall>j. calculateCrc16 (take j data @ drop j old) = calculateCrc16 old \<longrightarrow> take j data @ drop j old \<in> {old, data}"
  shows "readSection vt (interrupted vt k st sid data) sid (length data) \<in> {Some old, Some data}"
proof -
  define F where "F = cell (mem st)"
  define m2 where "m2 = fst (fst (write_entries (failing vt) (mem st, k) p data [0, 1]))"
  have e: "entries p = [0, 1]" "copies p = 2" using b by (simp_all add: entries_def copies_def upt_conv_Cons)
  have rd: "readSection vt (interrupted vt k st sid data) sid (length data) =
      map_option (entry_data (cell m2) p) (List.find (entry_valid (cell m2) p) [0, 1])"
    using f d e
    by (cases "write_entries (failing vt) (mem st, k) p data [0, 1]")
      (simp add: interrupted_def with_mem_def readSection_def writeSection_def read_entries_eq m2_def)
  have lo: "length old = sec_size p" using old length_entry_data [of F p 0] by (simp add: F_def)
  show ?thesis
  proof (cases "old = data")
    case True
    then have "m2 = mem st" using old failing_same [of "mem st" p _ data k] by (simp add: m2_def)
    then show ?thesis using old unfolding rd by simp
  next
    case False
    have "entry_data (cell (mem st)) p 0 \<noteq> data" using old False by simp
    then obtain m1 where m1: "write_entries (failing vt) (mem st, k) p data [0, 1] = write_entries (failing vt) (m1, k - sec_size p - 2) p data [1]"
      and F1: "cell m1 = patch (patch F (entry_offset p 0) (take k data)) (entry_offset p 0 + of_nat (sec_size p))
        (take (k - sec_size p) (u16_bytes (calculateCrc16 data)))"
      using failing_entry [OF ok b(1) d, of "mem st" 0 k "[1]"] unfolding F_def by blast
    have T: "entry_data (cell m1) p 0 = take k data @ drop k old" "entry_data (cell m1) p 1 = old" "entry_valid (cell m1) p 1"
      "entry_crc (cell m1) p 0 = take (k - sec_size p) (u16_bytes (calculateCrc16 data)) @ drop (k - sec_size p) (entry_crc F p 0)"
      using torn_entry [OF ok _ b(1) d, where i = 0 and F = F and k = k, folded F1] old by (simp_all add: e F_def)
    have "entry_data (cell m1) p 1 \<noteq> data" using T(2) False by simp
    from failing_entry [OF ok b(1) d this, of "k - sec_size p - 2" "[]"]
    obtain m where w: "write_entries (failing vt) (m1, k - sec_size p - 2) p data [1] =
        write_entries (failing vt) (m, k - sec_size p - 2 - sec_size p - 2) p data []"
      and F2: "cell m = patch (patch (cell m1) (entry_offset p 1) (take (k - sec_size p - 2) data))
        (entry_offset p 1 + of_nat (sec_size p)) (take (k - sec_size p - 2 - sec_size p) (u16_bytes (calculateCrc16 data)))"
      by blast
    have m: "m2 = m" by (simp only: m2_def m1 w write_entries.simps(1) fst_conv)
    have U: "entry_data (cell m) p 0 = entry_data (cell m1) p 0" "entry_valid (cell m) p 0 = entry_valid (cell m1) p 0"
      using torn_entry(3,4) [OF ok _ b(1) d, where i = 1 and j = 0 and F = "cell m1" and k = "k - sec_size p - 2", folded F2] by (simp_all add: e)
    show ?thesis
    proof (cases "sec_size p + 2 \<le> k")
      case True
      then have "entry_data (cell m1) p 0 = data" "entry_crc (cell m1) p 0 = u16_bytes (calculateCrc16 data)"
        using T d lo by simp_all
      then show ?thesis unfolding rd m using U by (simp add: entry_valid_def)
    next
      case F: False
      then have same: "cell m = cell m1" using F2 by simp
      have "entry_data (cell m1) p 0 \<in> {old, data}" if "entry_valid (cell m1) p 0"
      proof (cases "k \<le> sec_size p")
        case True
        then have "bytes_u16 (entry_crc F p 0) = calculateCrc16 (take k data @ drop k old)"
          using that b(1) T(1,4) by (simp add: entry_valid_def)
        moreover have "bytes_u16 (entry_crc F p 0) = calculateCrc16 old" using old b(1) by (simp add: entry_valid_def F_def)
        ultimately show ?thesis using crc T(1) by simp
      next
        case False
        then show ?thesis using T(1) d lo by simp
      qed
      then show ?thesis unfolding rd m using T(2,3) by (auto simp: same)
    qed
  qed
qed

end

section \<open>Deleting a section\<close>

lemma crc16_bit_eq_0: "crc16_bit c = 0 \<Longrightarrow> c = 0"
proof -
  assume z: "crc16_bit c = 0"
  have "\<not> bit (drop_bit 1 c) 15" by (auto simp: bit_drop_bit_eq dest: bit_imp_le_length)
  moreover have "bit (0xA001 :: u16) 15" by code_simp
  ultimately have "bit (drop_bit 1 c XOR 0xA001) 15" by (simp add: bit_xor_iff)
  then have "drop_bit 1 c XOR 0xA001 \<noteq> 0" by auto
  then have c: "c AND 1 = 0" "drop_bit 1 c = 0" using z by (auto simp: crc16_bit_def split: if_splits)
  show ?thesis
  proof (rule bit_word_eqI)
    fix n
    have "\<not> bit (c AND 1) 0" "\<And>k. \<not> bit (drop_bit 1 c) k" using c by simp_all
    then show "bit c n = bit 0 n" by (cases n) (simp_all add: bit_and_iff bit_1_iff bit_drop_bit_eq)
  qed
qed

lemma crc16_bits_eq_0: "(crc16_bit ^^ n) c = 0 \<Longrightarrow> c = 0"
  by (induction n) (auto dest: crc16_bit_eq_0)

lemma crc16_zeros: "calculateCrc16 (replicate n 0) \<noteq> 0"
proof -
  have z: "crc16_loop c (replicate n 0) = 0 \<Longrightarrow> c = 0" for c
    by (induction n arbitrary: c) (force simp: crc16_update_def dest: crc16_bits_eq_0)+
  show ?thesis using z [of "0xFFFF"] by (auto simp: calculateCrc16_def)
qed

text \<open>The addresses outside a section, and sections with separate ranges.\<close>

definition outside :: "SpecialSectionInfo \<Rightarrow> u32 \<Rightarrow> bool" where
  "outside p a \<longleftrightarrow> \<not> (unat (sec_offset p) \<le> unat a \<and> unat a < unat (sec_offset p) + copies p * entry_size p)"

definition sections_apart :: "SpecialSectionInfo \<Rightarrow> SpecialSectionInfo \<Rightarrow> bool" where
  "sections_apart p q \<longleftrightarrow>
     unat (sec_offset p) + copies p * entry_size p \<le> unat (sec_offset q) \<or>
     unat (sec_offset q) + copies q * entry_size q \<le> unat (sec_offset p)"

lemma patch_outside:
  "unat off + length bs \<le> 2 ^ 32 \<Longrightarrow> \<not> (unat off \<le> unat a \<and> unat a < unat off + length bs) \<Longrightarrow> patch F off bs a = F a"
  using unat_sub_less [of off "length bs" a] by (auto simp: patch_def)

context storage_memory
begin

lemma zero_loop_cell: "n < 2 ^ 32 \<Longrightarrow> cell (zero_loop vt m off n) = patch (cell m) off (replicate n 0)"
proof (induction n arbitrary: m off)
  case (Suc n)
  have "cell (fst (writeStorage vt m off [0])) = patch (cell m) off [0]" by (simp add: write_law)
  then have IH: "cell (zero_loop vt m off (Suc n)) = patch (patch (cell m) off [0]) (off + 1) (replicate n 0)"
    using Suc by simp
  have "unat (off - (off + 1)) = 2 ^ 32 - 1" by (simp add: unsigned_minus_1_eq_mask mask_eq_exp_minus_1)
  then have "patch (patch F off [0]) (off + 1) (replicate n 0) a = patch F off (replicate (Suc n) 0) a" for F a
    using Suc.prems unat_minus_Suc [of a off] by (cases "a = off") (simp_all add: patch_def)
  then show ?case unfolding IH by (simp add: fun_eq_iff)
qed (simp add: patch_def fun_eq_iff)

lemma delete_entries_effect:
  assumes ok: "section_ok p" and c: "addCrc p"
  shows "set es \<subseteq> {..<copies p} \<Longrightarrow> distinct es \<Longrightarrow>
    (\<forall>i < copies p. entry_data (cell (delete_entries vt m p es)) p i = (if i \<in> set es then replicate (sec_size p) 0 else entry_data (cell m) p i) \<and>
      entry_crc (cell (delete_entries vt m p es)) p i = (if i \<in> set es then u16_bytes 0 else entry_crc (cell m) p i))"
proof (induction es arbitrary: m)
  case (Cons i es)
  then have i: "i < copies p" "i \<notin> set es" by auto
  define m1 where "m1 = zero_loop vt m (entry_offset p i) (sec_size p)"
  define m2 where "m2 = fst (writeStorage vt m1 (entry_offset p i + of_nat (sec_size p)) (u16_bytes 0))"
  have c1: "cell m1 = patch (cell m) (entry_offset p i) (replicate (sec_size p) 0)"
    using section_size_bound [OF ok] by (simp add: m1_def zero_loop_cell)
  have c2: "cell m2 = patch (cell m1) (entry_offset p i + of_nat (sec_size p)) (u16_bytes 0)" by (simp add: m2_def write_law)
  note P = patch_data [OF ok i(1) section_pos [OF ok], where F = "cell m" and bs = "replicate (sec_size p) 0", folded c1]
    and C = patch_crc [OF ok i(1) c, where F = "cell m1" and bs = "u16_bytes 0", folded c2]
  have "entry_data (cell m2) p j = (if j = i then replicate (sec_size p) 0 else entry_data (cell m) p j) \<and>
      entry_crc (cell m2) p j = (if j = i then u16_bytes 0 else entry_crc (cell m) p j)" if "j < copies p" for j
    using P C c that by simp
  moreover have "delete_entries vt m p (i # es) = delete_entries vt m2 p es"
    using c by (simp add: delete_entries.simps(2) m2_def m1_def Let_def)
  moreover have "set es \<subseteq> {..<copies p}" "distinct es" using Cons.prems by auto
  ultimately show ?case using Cons.IH [of m2] i by auto
qed simp

lemma write_same_entries: "\<forall>i \<in> set es. entry_data (cell m) p i = data \<Longrightarrow> write_entries vt m p data es = (m, True)"
  by (induction es) (simp_all add: write_entries.simps(2) read_law entry_data_def)

lemma delete_then_zero:
  assumes f: "find_section (sections st) sid = Some p" and ok: "section_ok p" and c: "addCrc p"
  defines "st1 \<equiv> fst (deleteSection vt st sid)"
  shows "snd (writeSection vt st1 sid (replicate (sec_size p) 0))"
    "readSection vt (fst (writeSection vt st1 sid (replicate (sec_size p) 0))) sid (sec_size p) = None"
proof -
  define m1 where "m1 = delete_entries vt (mem st) p (entries p)"
  have st1: "sections st1 = sections st" "mem st1 = m1" using f by (simp_all add: st1_def deleteSection_def m1_def)
  have D: "entry_data (cell m1) p i = replicate (sec_size p) 0" "entry_crc (cell m1) p i = u16_bytes 0" if "i \<in> set (entries p)" for i
    using delete_entries_effect [OF ok c, of "entries p" "mem st"] that by (auto simp: set_entries m1_def)
  have w: "write_entries vt m1 p (replicate (sec_size p) 0) (entries p) = (m1, True)"
    by (rule write_same_entries) (simp add: D)
  then show "snd (writeSection vt st1 sid (replicate (sec_size p) 0))" using f by (simp add: writeSection_def st1)
  have "\<not> entry_valid (cell m1) p i" if "i \<in> set (entries p)" for i
    using D [OF that] c crc16_zeros [of "sec_size p"] by (simp add: entry_valid_def)
  then have "List.find (entry_valid (cell m1) p) (entries p) = None" by (simp add: find_None_iff)
  then show "readSection vt (fst (writeSection vt st1 sid (replicate (sec_size p) 0))) sid (sec_size p) = None"
    using f w by (simp add: writeSection_def readSection_def st1 read_entries_eq)
qed

lemma write_entries_frame:
  assumes ok: "section_ok p" and d: "length data = sec_size p" and a: "outside p a"
  shows "set es \<subseteq> {..<copies p} \<Longrightarrow> cell (fst (write_entries vt m p data es)) a = cell m a"
proof (induction es arbitrary: m)
  case (Cons i es)
  then have i: "i < copies p" by auto
  note R = entry_ranges [OF ok i section_pos [OF ok]] and O = entry_offset_nat [OF ok i]
  define m1 where "m1 = fst (writeStorage vt m (entry_offset p i) data)"
  define m2 where "m2 = (if addCrc p
    then fst (writeStorage vt m1 (entry_offset p i + of_nat (sec_size p)) (u16_bytes (calculateCrc16 data))) else m1)"
  have off: "unat (entry_offset p i) = unat (sec_offset p) + i * entry_size p" using O(2) section_pos [OF ok] by simp
  have c1: "cell m1 a = cell m a"
    using R(1) d a O(1) off section_size_bound [OF ok] unfolding m1_def
    by (simp add: write_law, intro patch_outside) (auto simp: outside_def entry_size_def)
  have "cell m2 a = cell m1 a"
  proof (cases "addCrc p")
    case True
    then show ?thesis
      using R(2,3) a O(1) off unfolding m2_def
      by (simp add: write_law, intro patch_outside) (auto simp: outside_def entry_size_def)
  qed (simp add: m2_def)
  moreover have "write_entries vt m p data (i # es) =
      (if entry_data (cell m) p i = data then write_entries vt m p data es else write_entries vt m2 p data es)"
    using d write_count [of m "entry_offset p i" data]
    by (cases "writeStorage vt m (entry_offset p i) data")
      (simp add: write_entries.simps(2) read_law entry_data_def Let_def m2_def m1_def calculateCrc16_def)
  ultimately show ?case using Cons c1 by simp
qed simp

lemma other_section:
  assumes f: "find_section (sections st) sid = Some p" "find_section (sections st) sid' = Some q"
    and ok: "section_ok p" "section_ok q" and d: "length data = sec_size p" and ap: "sections_apart p q"
  shows "readSection vt (fst (writeSection vt st sid data)) sid' n = readSection vt st sid' n"
proof -
  define m' where "m' = fst (write_entries vt (mem st) p data (entries p))"
  have fr: "cell m' a = cell (mem st) a" if "outside p a" for a
    using write_entries_frame [OF ok(1) d that, of "entries p"] by (simp add: m'_def set_entries)
  have "entry_data (cell m') q j = entry_data (cell (mem st)) q j \<and> entry_valid (cell m') q j = entry_valid (cell (mem st)) q j"
    if j: "j \<in> set (entries q)" for j
  proof -
    have jc: "j < copies q" using j by (simp add: set_entries)
    note R = entry_ranges [OF ok(2) jc section_pos [OF ok(2)]] and O = entry_offset_nat [OF ok(2) jc]
    have off: "unat (entry_offset q j) = unat (sec_offset q) + j * entry_size q" using O(2) section_pos [OF ok(2)] by simp
    have "outside p (entry_offset q j + of_nat i)" if "i < sec_size q" for i
      using that R(1) O(1) off ap unat_add_small [of "entry_offset q j" i] by (auto simp: outside_def sections_apart_def entry_size_def)
    moreover have "outside p (entry_offset q j + of_nat (sec_size q) + of_nat i)" if "i < 2" "addCrc q" for i
      using that R(2,3) O(1) off ap unat_add_small [of "entry_offset q j + of_nat (sec_size q)" i]
      by (auto simp: outside_def sections_apart_def entry_size_def)
    ultimately have "entry_data (cell m') q j = entry_data (cell (mem st)) q j" "addCrc q \<Longrightarrow> entry_crc (cell m') q j = entry_crc (cell (mem st)) q j"
      by (simp_all add: entry_data_def entry_crc_def cells_def fr)
    then show ?thesis by (auto simp: entry_valid_def)
  qed
  then have "map_option (entry_data (cell m') q) (List.find (entry_valid (cell m') q) es) =
      map_option (entry_data (cell (mem st)) q) (List.find (entry_valid (cell (mem st)) q) es)" if "set es \<subseteq> set (entries q)" for es
    using that by (induction es) auto
  then show ?thesis
    using f by (auto simp: readSection_def writeSection_def read_entries_eq m'_def split: prod.splits)
qed

end

section \<open>Sections over an EEPROM\<close>

text \<open>The functions of an EEPROM library as updates of a function, for the examples.\<close>

definition array_rd :: "(u32 \<Rightarrow> u8) \<Rightarrow> u32 \<Rightarrow> u8" where
  "array_rd f a = f a"

definition array_wr :: "(u32 \<Rightarrow> u8) \<Rightarrow> u32 \<Rightarrow> u8 \<Rightarrow> u32 \<Rightarrow> u8" where
  "array_wr f a v = f(a := v)"

interpretation array_cells: byte_cells array_rd array_wr
  by unfold_locales (simp add: array_rd_def array_wr_def)

definition demo_section :: "bool \<Rightarrow> SpecialSectionInfo" where
  "demo_section bkp = \<lparr>sectionId = 7, sec_offset = 16, sec_size = 2, addCrc = True, addBackupCopy = bkp\<rparr>"

definition demo_storage :: "(u32 \<Rightarrow> u8) \<Rightarrow> (u32 \<Rightarrow> u8) Eeprom Storage" where
  "demo_storage f = fst (registerSection (new_storage \<lparr>ee = f, dataChanged = False\<rparr> 0 100) 7 16 2 True True)"

lemma demo_find: "find_section (sections (demo_storage f)) 7 = Some (demo_section True)"
  by (simp add: demo_storage_def registerSection_def new_storage_def demo_section_def)

lemma demo_ok: "section_ok (demo_section b)"
  by (simp add: section_ok_def demo_section_def copies_def entry_size_def)

context byte_cells
begin

lemma eeprom_memory: "storage_memory (eeprom_vt rd wr) (\<lambda>m. rd (ee m))"
  by unfold_locales

end

text \<open>C30. A special section is read back as it was written.  For a registered section whose address range does not wrap around, over an
  EEPROM in which a cell holds what was last written to it: when the data have the registered size and the section does not already hold the
  same data with a wrong checksum, writing succeeds, reading returns the data, and every section with a separate range reads as before.
  The condition on the checksum is needed, see \<open>section_deleted_zeros\<close>.\<close>

theorem section_round_trip:
  assumes "byte_cells rd wr" "find_section (sections st) sid = Some p" "section_ok p" "length data = sec_size p"
    and "entry_data (rd (ee (mem st))) p 0 \<noteq> data \<or> entry_valid (rd (ee (mem st))) p 0"
    and "find_section (sections st) sid' = Some q" "section_ok q" "sections_apart p q"
  shows "let (st', r) = writeSection (eeprom_vt rd wr) st sid data in
    r \<and> readSection (eeprom_vt rd wr) st' sid (length data) = Some data \<and>
    readSection (eeprom_vt rd wr) st' sid' n = readSection (eeprom_vt rd wr) st sid' n"
proof -
  note M = byte_cells.eeprom_memory [OF assms(1)]
  show ?thesis
    using storage_memory.section_writes [OF M assms(2-5)] storage_memory.other_section [OF M assms(2,6,3,7,4,8), of n]
    by (auto split: prod.splits)
qed

definition demo_two :: "(u32 \<Rightarrow> u8) Eeprom Storage" where
  "demo_two = fst (registerSection (demo_storage (\<lambda>_. 255)) 8 40 3 False False)"

theorem section_round_trip_witness:
  "let (st', r) = writeSection (eeprom_vt array_rd array_wr) demo_two 7 [1, 2] in
    r \<and> readSection (eeprom_vt array_rd array_wr) st' 7 (length [1, 2 :: u8]) = Some [1, 2] \<and>
    readSection (eeprom_vt array_rd array_wr) st' 8 3 = readSection (eeprom_vt array_rd array_wr) demo_two 8 3"
proof (rule section_round_trip)
  show "byte_cells array_rd array_wr" by unfold_locales
  show "find_section (sections demo_two) 7 = Some (demo_section True)"
    "find_section (sections demo_two) 8 = Some \<lparr>sectionId = 8, sec_offset = 40, sec_size = 3, addCrc = False, addBackupCopy = False\<rparr>"
    by (simp_all add: demo_two_def demo_storage_def registerSection_def new_storage_def demo_section_def)
  show "entry_data (array_rd (ee (mem demo_two))) (demo_section True) 0 \<noteq> [1, 2] \<or> entry_valid (array_rd (ee (mem demo_two))) (demo_section True) 0"
    by code_simp
qed (simp_all add: demo_section_def section_ok_def sections_apart_def copies_def entry_size_def)

text \<open>C31. A special section with a checksum and a backup copy survives one power failure.  When both copies hold the old data with their
  checksums, and the power fails after any number of bytes written by \<open>writeSection\<close>, reading the section returns the old or the new
  data, never a mixture; provided that no mixture of new and old data has the checksum of the old data by chance.  Nothing is said about
  a second failure before a write has renewed both copies: the cut may have damaged the backup copy, and the next write begins with the first one.\<close>

theorem section_power_fail:
  assumes "byte_cells rd wr" "find_section (sections st) sid = Some p" "section_ok p" "addCrc p" "addBackupCopy p"
    and "length data = sec_size p"
    and "\<forall>i < 2. entry_data (rd (ee (mem st))) p i = old \<and> entry_valid (rd (ee (mem st))) p i"
    and "\<forall>j. calculateCrc16 (take j data @ drop j old) = calculateCrc16 old \<longrightarrow> take j data @ drop j old \<in> {old, data}"
  shows "readSection (eeprom_vt rd wr) (interrupted (eeprom_vt rd wr) k st sid data) sid (length data) \<in> {Some old, Some data}"
  using storage_memory.section_interrupted [OF byte_cells.eeprom_memory [OF assms(1)] assms(2-8)] .

definition demo_written :: "(u32 \<Rightarrow> u8) Eeprom Storage" where
  "demo_written = fst (writeSection (eeprom_vt array_rd array_wr) (demo_storage (\<lambda>_. 255)) 7 [3, 4])"

lemma demo_written_find: "find_section (sections demo_written) 7 = Some (demo_section True)"
  using demo_find [of "\<lambda>_. 255"]
  by (simp add: demo_written_def writeSection_def split: prod.splits option.splits)

lemma demo_written_entries:
  "\<forall>i < 2. entry_data (array_rd (ee (mem demo_written))) (demo_section True) i = [3, 4] \<and>
     entry_valid (array_rd (ee (mem demo_written))) (demo_section True) i"
proof -
  define m where "m = mem (demo_storage (\<lambda>_. 255))"
  obtain m' r where w: "write_entries (eeprom_vt array_rd array_wr) m (demo_section True) [3, 4] (entries (demo_section True)) = (m', r)"
    by fastforce
  have "sec_size (demo_section True) = 2" "copies (demo_section True) = 2" by (simp_all add: demo_section_def copies_def)
  moreover have "mem demo_written = m'"
    using demo_find [of "\<lambda>_. 255"] w calculation by (simp add: demo_written_def writeSection_def m_def)
  moreover have "entry_data (array_rd (ee m)) (demo_section True) i \<noteq> [3, 4]" for i
  proof -
    have "entry_data (array_rd (ee m)) (demo_section True) i = replicate 2 255"
      by (simp add: m_def demo_storage_def registerSection_def new_storage_def entry_data_def cells_def array_rd_def
          map_replicate_const demo_section_def)
    moreover have "replicate 2 (255 :: u8) \<noteq> [3, 4]" by code_simp
    ultimately show ?thesis by simp
  qed
  ultimately show ?thesis
    using storage_memory.write_entries_effect [OF array_cells.eeprom_memory demo_ok _ _ _ w] by (simp add: set_entries lessThan_def)
qed

theorem section_power_fail_witness:
  "readSection (eeprom_vt array_rd array_wr) (interrupted (eeprom_vt array_rd array_wr) 5 demo_written 7 [1, 2]) 7 (length [1, 2 :: u8])
    \<in> {Some [3, 4], Some [1, 2]}"
proof (rule section_power_fail)
  show "byte_cells array_rd array_wr" by unfold_locales
  show "find_section (sections demo_written) 7 = Some (demo_section True)"
    by (rule demo_written_find)
  show "\<forall>i < 2. entry_data (array_rd (ee (mem demo_written))) (demo_section True) i = [3, 4] \<and>
      entry_valid (array_rd (ee (mem demo_written))) (demo_section True) i"
    by (rule demo_written_entries)
  show "\<forall>j. calculateCrc16 (take j [1, 2] @ drop j [3, 4]) = calculateCrc16 [3, 4] \<longrightarrow> take j [1, 2] @ drop j [3, 4] \<in> {[3, 4], [1, 2]}"
  proof (intro allI impI)
    fix j
    assume h: "calculateCrc16 (take j [1, 2] @ drop j [3, 4]) = calculateCrc16 [3, 4]"
    have "calculateCrc16 [1, 4] \<noteq> calculateCrc16 [3, 4]" by code_simp
    with h show "take j [1, 2] @ drop j [3, 4] \<in> {[3, 4], [1, 2]}"
      by (cases j rule: nat.exhaust; cases "j - 1") auto
  qed
qed (simp_all add: demo_ok, simp_all add: demo_section_def)

text \<open>Writing zeros into a deleted section loses them.  For every section with a checksum, \<open>deleteSection\<close> followed by
  \<open>writeSection\<close> with zeros reports success and \<open>readSection\<close> then fails: the data in memory are the same, so nothing is
  written, also not the checksum, and the checksum of zeros is never the zero that \<open>deleteSection\<close> stored.\<close>

theorem section_deleted_zeros:
  assumes "byte_cells rd wr" "find_section (sections st) sid = Some p" "section_ok p" "addCrc p"
  shows "let st1 = fst (deleteSection (eeprom_vt rd wr) st sid); (st2, r) = writeSection (eeprom_vt rd wr) st1 sid (replicate (sec_size p) 0) in
    r \<and> readSection (eeprom_vt rd wr) st2 sid (sec_size p) = None"
  using storage_memory.delete_then_zero [OF byte_cells.eeprom_memory [OF assms(1)] assms(2-4)] by (auto simp: Let_def split: prod.splits)

theorem section_deleted_zeros_witness:
  "let st1 = fst (deleteSection (eeprom_vt array_rd array_wr) demo_written 7);
      (st2, r) = writeSection (eeprom_vt array_rd array_wr) st1 7 (replicate (sec_size (demo_section True)) 0) in
    r \<and> readSection (eeprom_vt array_rd array_wr) st2 7 (sec_size (demo_section True)) = None"
proof (rule section_deleted_zeros)
  show "byte_cells array_rd array_wr" by unfold_locales
  show "find_section (sections demo_written) 7 = Some (demo_section True)"
    by (rule demo_written_find)
qed (simp_all add: demo_ok, simp_all add: demo_section_def)

section \<open>When the state is saved\<close>

lemma sint_of_int_small: "- (2 ^ 31) \<le> z \<Longrightarrow> z < 2 ^ 31 \<Longrightarrow> sint (of_int z :: u32) = z"
  by (simp add: signed_of_int signed_take_bit_int_eq_self)

text \<open>Times relative to \<open>now\<close>: the last save \<open>x\<close> ms ago and the period \<open>p\<close>.\<close>

definition save_in :: "int \<Rightarrow> int \<Rightarrow> int \<Rightarrow> int \<Rightarrow> int" where
  "save_in x p delayMax delayMin = (let t = min (p - x) delayMax in if delayMin \<noteq> 0 then max t delayMin else t)"

lemma scheduleSave_eq:
  assumes x: "lastWriteTimestamp st = now - of_int x" "0 \<le> x" "x < 2 ^ 29"
    and p: "saveStatePeriod st = of_int p" "0 \<le> p" "p < 2 ^ 29"
    and M: "0 \<le> dM" "dM < 2 ^ 29" "0 \<le> dm" "dm < 2 ^ 29"
  shows "scheduleSave st now (of_int dM) (of_int dm) = st\<lparr>lastWriteTimestamp := now + of_int (save_in x p dM dm - p)\<rparr>"
proof -
  have e1: "lastWriteTimestamp st + saveStatePeriod st - (now + of_int dM) = of_int (p - x - dM)" using x p by simp
  then have s1: "sint (lastWriteTimestamp st + saveStatePeriod st - (now + of_int dM)) = p - x - dM"
    unfolding e1 using x p M by (intro sint_of_int_small) auto
  define t where "t = min (p - x) dM"
  have tgt: "(if sint (lastWriteTimestamp st + saveStatePeriod st - (now + of_int dM)) < 0 then lastWriteTimestamp st + saveStatePeriod st
      else now + of_int dM) = now + of_int t"
    unfolding s1 t_def using x p by (auto simp: min_def)
  have e2: "now + of_int t - (now + of_int dm) = (of_int (t - dm) :: u32)" by simp
  have s2: "sint (now + of_int t - (now + of_int dm)) = t - dm"
    unfolding e2 using x p M by (intro sint_of_int_small) (auto simp: t_def)
  have z: "(of_int dm = (0 :: u32)) \<longleftrightarrow> dm = 0" using M by (simp add: word_of_int_eq_0_iff dvd_eq_mod_eq_0)
  show ?thesis
    unfolding scheduleSave_def Let_def tgt s2 z by (auto simp: save_in_def t_def [symmetric] p max_def)
qed

lemma saveStateAllowed_eq:
  assumes "lastWriteTimestamp st = now + of_int (t - p)" "saveStatePeriod st = of_int p" "0 \<le> p" "p < 2 ^ 29"
    and "- (2 ^ 30) \<le> t" "t \<le> 2 ^ 30" "0 \<le> d" "d < 2 ^ 29"
  shows "snd (saveStateAllowed st (now + of_int d)) \<longleftrightarrow> t < d \<or> d + p < t"
proof -
  define z where "z = (d - t + p) mod 2 ^ 32"
  have "now + of_int d - lastWriteTimestamp st = of_int (d - t + p)" using assms(1) by simp
  then have "uint (now + of_int d - lastWriteTimestamp st) = z"
    by (simp only: z_def unsigned_of_int take_bit_int_def) simp
  moreover have "uint (saveStatePeriod st) = p" using assms(2-4) by (simp add: unsigned_of_int take_bit_int_eq_self)
  ultimately have "snd (saveStateAllowed st (now + of_int d)) \<longleftrightarrow> p < z" by (simp add: saveStateAllowed_def word_less_def)
  also have "\<dots> \<longleftrightarrow> t < d \<or> d + p < t"
  proof (cases "0 \<le> d - t + p")
    case True
    then have "z = d - t + p" unfolding z_def using assms by (intro mod_pos_pos_trivial) auto
    then show ?thesis using True by auto
  next
    case False
    have "z = (d - t + p + 2 ^ 32) mod 2 ^ 32" by (simp add: z_def)
    also have "\<dots> = d - t + p + 2 ^ 32" using False assms by (intro mod_pos_pos_trivial) auto
    finally show ?thesis using False assms by auto
  qed
  finally show ?thesis .
qed

text \<open>C32. A scheduled save happens inside its window.  When the last save, the period and both delays are less than \<open>2 ^ 29\<close> ms, the
  minimum delay is at most the maximum delay and at most the save period, then after \<open>scheduleSave\<close> no save is
  allowed before the minimum delay has passed, and a save is allowed at every moment after the maximum delay; on the 32-bit clock with wrap-around.\<close>

theorem schedule_save_window:
  assumes "now - lastWriteTimestamp st < 2 ^ 29" "saveStatePeriod st < 2 ^ 29" "delayMsMax < 2 ^ 29"
    and "delayMsMin \<le> delayMsMax" "delayMsMin \<le> saveStatePeriod st" "d < 2 ^ 29"
  shows "let st' = scheduleSave st now delayMsMax delayMsMin in
    (delayMsMin \<noteq> 0 \<and> d \<le> delayMsMin \<longrightarrow> \<not> snd (saveStateAllowed st' (now + d))) \<and>
    (delayMsMax < d \<longrightarrow> snd (saveStateAllowed st' (now + d)))"
proof -
  define x where "x = uint (now - lastWriteTimestamp st)"
  define p where "p = uint (saveStatePeriod st)"
  define dM where "dM = uint delayMsMax"
  define dm where "dm = uint delayMsMin"
  have b: "0 \<le> x" "x < 2 ^ 29" "0 \<le> p" "p < 2 ^ 29" "0 \<le> dM" "dM < 2 ^ 29" "0 \<le> dm" "dm \<le> dM" "dm \<le> p" "0 \<le> uint d" "uint d < 2 ^ 29"
    using assms by (simp_all add: x_def p_def dM_def dm_def word_less_def word_le_def)
  have w: "lastWriteTimestamp st = now - of_int x" "saveStatePeriod st = of_int p" "delayMsMax = of_int dM" "delayMsMin = of_int dm" "d = of_int (uint d)"
    by (simp_all add: x_def p_def dM_def dm_def)
  have z: "delayMsMin \<noteq> 0 \<longleftrightarrow> dm \<noteq> 0" by (simp add: dm_def unsigned_eq_0_iff)
  define t where "t = save_in x p dM dm"
  have st': "scheduleSave st now delayMsMax delayMsMin = st\<lparr>lastWriteTimestamp := now + of_int (t - p)\<rparr>"
    unfolding w(3,4) t_def using b by (intro scheduleSave_eq [OF w(1) _ _ w(2)]) auto
  have t: "dm \<noteq> 0 \<longrightarrow> dm \<le> t" "t \<le> dM" "t \<le> p" "- (2 ^ 29) < t" using b by (auto simp: t_def save_in_def Let_def)
  have "snd (saveStateAllowed (scheduleSave st now delayMsMax delayMsMin) (now + of_int (uint d))) \<longleftrightarrow> t < uint d \<or> uint d + p < t"
    unfolding st' using b t w(2) by (intro saveStateAllowed_eq) auto
  then show ?thesis
    unfolding w(5) [symmetric] Let_def using t b z
    by (auto simp: word_less_def word_le_def dM_def dm_def)
qed

theorem schedule_save_window_witness:
  "let st' = scheduleSave (setStateSavePeriod (new_storage () 0 100) 5000) 200 3000 1000 in
    (1000 \<noteq> (0 :: u32) \<and> 900 \<le> (1000 :: u32) \<longrightarrow> \<not> snd (saveStateAllowed st' (200 + 900))) \<and>
    (3000 < (900 :: u32) \<longrightarrow> snd (saveStateAllowed st' (200 + 900)))"
  by (rule schedule_save_window) (simp_all add: setStateSavePeriod_def new_storage_def)

text \<open>A minimum delay longer than the save period is not kept.  If no save is allowed now and a save is
  scheduled with a minimum delay that exceeds the period, then a save is allowed at once: the computed time of the last save lies in the
  future and the unsigned difference wraps around.  Relays ask for 2000 ms while the period of the base class is 1000 ms.\<close>

theorem schedule_save_min_ignored:
  assumes "now - lastWriteTimestamp st \<le> saveStatePeriod st" "saveStatePeriod st < delayMsMin" "delayMsMin \<le> delayMsMax" "delayMsMax < 2 ^ 29"
  shows "\<not> snd (saveStateAllowed st now) \<and> snd (saveStateAllowed (scheduleSave st now delayMsMax delayMsMin) now)"
proof -
  define x where "x = uint (now - lastWriteTimestamp st)"
  define p where "p = uint (saveStatePeriod st)"
  define dM where "dM = uint delayMsMax"
  define dm where "dm = uint delayMsMin"
  have b: "0 \<le> x" "x \<le> p" "0 \<le> p" "p < dm" "dm \<le> dM" "dM < 2 ^ 29"
    using assms by (simp_all add: x_def p_def dM_def dm_def word_less_def word_le_def)
  have w: "lastWriteTimestamp st = now - of_int x" "saveStatePeriod st = of_int p" "delayMsMax = of_int dM" "delayMsMin = of_int dm"
    by (simp_all add: x_def p_def dM_def dm_def)
  define t where "t = save_in x p dM dm"
  have st': "scheduleSave st now delayMsMax delayMsMin = st\<lparr>lastWriteTimestamp := now + of_int (t - p)\<rparr>"
    unfolding w(3,4) t_def using b by (intro scheduleSave_eq [OF w(1) _ _ w(2)]) auto
  have t: "dm \<le> t" "t \<le> dM" using b by (auto simp: t_def save_in_def Let_def)
  have "snd (saveStateAllowed (scheduleSave st now delayMsMax delayMsMin) (now + of_int 0)) \<longleftrightarrow> t < 0 \<or> 0 + p < t"
    unfolding st' using b t w(2) by (intro saveStateAllowed_eq) auto
  moreover have "\<not> snd (saveStateAllowed st now)" using assms(1) by (simp add: saveStateAllowed_def)
  ultimately show ?thesis using t b by simp
qed

theorem schedule_save_min_ignored_witness:
  "\<not> snd (saveStateAllowed (new_storage () 0 100) 200) \<and>
   snd (saveStateAllowed (scheduleSave (new_storage () 0 100) 200 5000 2000) 200)"
  by (rule schedule_save_min_ignored) (simp_all add: new_storage_def)

end
