(* ===== verification/Relay.thy ===== *)
theory Relay
  imports Button Channel_Config Storage
begin

text \<open>
  Relays: \<open>src/src/supla/control/relay.cpp\<close>.

  The record extends the elements of theory \<open>Channel_Config\<close> with the members of the class \<open>Relay\<close>.  The output pin keeps the level that
  was written last (\<open>pin_level\<close>).  The save times of theory \<open>Storage\<close> are the member \<open>storage\<close>, \<open>None\<close> on a device without storage.
  \<open>aggregator\<close> is the aggregator that is registered under the channel number of the relay, with its flag \<open>turnOffWhenEmpty\<close>.  Buttons are
  known by their numbers as objects, as in theory \<open>Local_Action\<close>; their states, the levels of their pins and whether they are ready are arguments.
  Arguments of type \<open>_supla_int_t\<close> are 32-bit words that comparisons read as signed.  The time and the current that the
  meter of the relay measures are arguments.  The member \<open>relay_int16\<close> is no member of the class: it says whether \<open>int\<close> has 16 bits in this
  build (AVR).
\<close>

unbundle bit_operations_syntax

section \<open>State\<close>

definition SUPLA_CHANNEL_FLAG_COUNTDOWN_TIMER_SUPPORTED :: u64 where [chan_consts]: "SUPLA_CHANNEL_FLAG_COUNTDOWN_TIMER_SUPPORTED = 16777216"

definition STATE_ON_INIT_RESTORED_OFF :: int where [chan_consts]: "STATE_ON_INIT_RESTORED_OFF = - 3"
definition STATE_ON_INIT_RESTORED_ON :: int where [chan_consts]: "STATE_ON_INIT_RESTORED_ON = - 2"
definition STATE_ON_INIT_RESTORE :: int where [chan_consts]: "STATE_ON_INIT_RESTORE = - 1"
definition STATE_ON_INIT_OFF :: int where [chan_consts]: "STATE_ON_INIT_OFF = 0"
definition STATE_ON_INIT_ON :: int where [chan_consts]: "STATE_ON_INIT_ON = 1"

definition RELAY_FLAGS_ON :: u8 where [chan_consts]: "RELAY_FLAGS_ON = 1"
definition RELAY_FLAGS_STAIRCASE :: u8 where [chan_consts]: "RELAY_FLAGS_STAIRCASE = 2"
definition RELAY_FLAGS_IMPULSE_FUNCTION :: u8 where [chan_consts]: "RELAY_FLAGS_IMPULSE_FUNCTION = 4"
definition RELAY_FLAGS_OVERCURRENT :: u8 where [chan_consts]: "RELAY_FLAGS_OVERCURRENT = 8"

record Relay = Element +
  durationMs :: u32
  storedTurnOnDurationMs :: u32
  durationTimestamp :: u32
  turnOffDurationForCycle :: u32
  defaultStaircaseDurationMs :: u16
  defaultImpulseDurationMs :: u16
  overcurrentThreshold :: u32
  overcurrentMaxAllowed :: u32
  overcurrentActiveTimestamp :: u32
  overcurrentCheckTimestamp :: u32
  timerUpdateTimestamp :: u32
  postponeCommTimestamp :: u32
  buttonList :: "nat list"
  minimumAllowedDurationMs :: u16
  relay_pin :: int
  defaultRelatedMeterChannelNo :: int
  highIsOn :: bool
  keepTurnOnDurationMs :: bool
  turnOffWhenEmptyAggregator :: bool
  initDone :: bool
  restartTimerOnToggle :: bool
  skipInitialStateSetting :: bool
  stateOnInit :: int
  relayStorageSaveDelay :: u16
  pin_level :: int
  storage :: "unit Storage option"
  aggregator :: "bool option"
  relay_int16 :: bool

text \<open>The constructor, for a channel that the base class has constructed.\<close>

definition new_Relay :: "bool \<Rightarrow> Channel \<Rightarrow> KeyValue Config option \<Rightarrow> unit Storage option \<Rightarrow> int \<Rightarrow> bool \<Rightarrow> u32 \<Rightarrow> Relay" where
  "new_Relay i16 c cfg st p high functions =
     \<lparr>channel = setFuncList functions (setFlag SUPLA_CHANNEL_FLAG_RUNTIME_CHANNEL_CONFIG_UPDATE
        (setFlag SUPLA_CHANNEL_FLAG_COUNTDOWN_TIMER_SUPPORTED (setType SUPLA_CHANNELTYPE_RELAY c))),
      channelConfigState = CfgNone, setChannelConfigAttempts = 0, usedConfigTypes = types_set SUPLA_CONFIG_TYPE_DEFAULT True 0,
      receivedConfigTypes = 0, el_config = cfg,
      durationMs = 0, storedTurnOnDurationMs = 0, durationTimestamp = 0, turnOffDurationForCycle = 0,
      defaultStaircaseDurationMs = 10000, defaultImpulseDurationMs = 500, overcurrentThreshold = 0, overcurrentMaxAllowed = 0,
      overcurrentActiveTimestamp = 0, overcurrentCheckTimestamp = 0, timerUpdateTimestamp = 0, postponeCommTimestamp = 0,
      buttonList = [], minimumAllowedDurationMs = 0, relay_pin = p, defaultRelatedMeterChannelNo = - 1, highIsOn = high,
      keepTurnOnDurationMs = False, turnOffWhenEmptyAggregator = True, initDone = False, restartTimerOnToggle = False,
      skipInitialStateSetting = False, stateOnInit = STATE_ON_INIT_OFF, relayStorageSaveDelay = 5000, pin_level = 0,
      storage = st, aggregator = None, relay_int16 = i16\<rparr>"

section \<open>Switching\<close>

definition pinOnValue :: "Relay \<Rightarrow> int" where
  "pinOnValue r = (if highIsOn r then 1 else 0)"

definition pinOffValue :: "Relay \<Rightarrow> int" where
  "pinOffValue r = (if highIsOn r then 0 else 1)"

definition isOn :: "Relay \<Rightarrow> bool" where
  "isOn r \<longleftrightarrow> relay_pin r \<ge> 0 \<and> pin_level r = pinOnValue r"

definition digitalWrite :: "int \<Rightarrow> Relay \<Rightarrow> Relay" where
  "digitalWrite v r = (if relay_pin r \<ge> 0 then r\<lparr>pin_level := v\<rparr> else r)"

definition isStaircase :: "u32 \<Rightarrow> bool" where
  "isStaircase f \<longleftrightarrow> f = SUPLA_CHANNELFNC_STAIRCASETIMER"

definition isImpulse :: "u32 \<Rightarrow> bool" where
  "isImpulse f \<longleftrightarrow>
     f = SUPLA_CHANNELFNC_CONTROLLINGTHEGATE \<or> f = SUPLA_CHANNELFNC_CONTROLLINGTHEDOORLOCK \<or>
     f = SUPLA_CHANNELFNC_CONTROLLINGTHEGATEWAYLOCK \<or> f = SUPLA_CHANNELFNC_CONTROLLINGTHEGARAGEDOOR"

definition isStaircaseFunction :: "u32 \<Rightarrow> Relay \<Rightarrow> bool" where
  "isStaircaseFunction functionToCheck r \<longleftrightarrow>
     isStaircase (if functionToCheck = 0 then getDefaultFunction (channel r) else functionToCheck)"

definition isImpulseFunction :: "u32 \<Rightarrow> Relay \<Rightarrow> bool" where
  "isImpulseFunction functionToCheck r \<longleftrightarrow>
     isImpulse (if functionToCheck = 0 then getDefaultFunction (channel r) else functionToCheck)"

definition isCyclicMode :: "Relay \<Rightarrow> bool" where
  "isCyclicMode r \<longleftrightarrow> storedTurnOnDurationMs r > 0 \<and> turnOffDurationForCycle r > 0"

definition isFullyInitialized :: "Relay \<Rightarrow> bool" where
  "isFullyInitialized r \<longleftrightarrow> initDone r \<and> \<not> skipInitialStateSetting r"

definition setNewChannelValue :: "bool \<Rightarrow> Relay \<Rightarrow> Relay" where
  "setNewChannelValue v r = r\<lparr>channel := setNewValue_bool v (channel r)\<rparr>"

definition schedule_save :: "u32 \<Rightarrow> Relay \<Rightarrow> Relay" where
  "schedule_save now r =
     r\<lparr>storage := map_option (\<lambda>st. scheduleSave st now (scast (relayStorageSaveDelay r)) 2000) (storage r)\<rparr>"

definition keeps_duration :: "Relay \<Rightarrow> bool" where
  "keeps_duration r \<longleftrightarrow> keepTurnOnDurationMs r \<or> isStaircaseFunction 0 r \<or> isImpulseFunction 0 r"

text \<open>The parameter of \<open>applyDuration\<close> is an \<open>int\<close>: where that has 16 bits, the duration is cut and its sign extended when it
  is stored in 32 bits again.\<close>

definition as_int :: "bool \<Rightarrow> u32 \<Rightarrow> u32" where
  "as_int i16 d = (if i16 then scast (ucast d :: u16) else d)"

definition applyDuration :: "u32 \<Rightarrow> u32 \<Rightarrow> bool \<Rightarrow> Relay \<Rightarrow> Relay" where
  "applyDuration now duration on r =
     (let duration = as_int (relay_int16 r) duration;
          r = (if isCyclicMode r \<and> sint duration > 0 then
                 if on then r\<lparr>storedTurnOnDurationMs := duration\<rparr> else r\<lparr>turnOffDurationForCycle := duration\<rparr>
               else r);
          r = r\<lparr>durationMs := duration\<rparr>;
          r = (if on then
                 let r = (if minimumAllowedDurationMs r > 0 \<and> storedTurnOnDurationMs r = 0
                          then r\<lparr>storedTurnOnDurationMs := durationMs r\<rparr> else r)
                 in if keeps_duration r then r\<lparr>durationMs := storedTurnOnDurationMs r\<rparr> else r
               else r)
      in if durationMs r \<noteq> 0 then r\<lparr>durationTimestamp := now\<rparr> else r\<lparr>durationTimestamp := 0\<rparr>)"

definition turnOn :: "u32 \<Rightarrow> u32 \<Rightarrow> Relay \<Rightarrow> Relay" where
  "turnOn now duration r =
     (if \<not> isFullyInitialized r then r
      else
        let r = applyDuration now duration True r;
            r = digitalWrite (pinOnValue r) r;
            r = r\<lparr>channel := setRelayOvercurrentCutOff False (channel r)\<rparr>
        in schedule_save now (setNewChannelValue True r))"

definition turnOff :: "u32 \<Rightarrow> u32 \<Rightarrow> Relay \<Rightarrow> Relay" where
  "turnOff now duration r =
     (if \<not> isFullyInitialized r then r
      else
        let r = applyDuration now duration False r;
            r = digitalWrite (pinOffValue r) r
        in schedule_save now (setNewChannelValue False r))"

definition relay_toggle :: "u32 \<Rightarrow> u32 \<Rightarrow> Relay \<Rightarrow> Relay" where
  "relay_toggle now duration r =
     (if isOn r then turnOff now (if isCyclicMode r then turnOffDurationForCycle r else duration) r
      else turnOn now (if isCyclicMode r then storedTurnOnDurationMs r else duration) r)"

definition relay_handleAction :: "u32 \<Rightarrow> int \<Rightarrow> Relay \<Rightarrow> Relay" where
  "relay_handleAction now action r =
     (let toggled = (\<lambda>r. if restartTimerOnToggle r \<and> (isStaircaseFunction 0 r \<or> isImpulseFunction 0 r)
                          then turnOn now 0 r else relay_toggle now 0 r)
      in if action = TURN_ON_WITHOUT_TIMER then
           (turnOn now 0 (r\<lparr>storedTurnOnDurationMs := 0\<rparr>))\<lparr>storedTurnOnDurationMs := storedTurnOnDurationMs r\<rparr>
         else if action = TURN_ON then turnOn now 0 r
         else if action = TURN_OFF then turnOff now 0 r
         else if action = TOGGLE_WITH_POSTPONED_COMM then toggled (r\<lparr>postponeCommTimestamp := now\<rparr>)
         else if action = TOGGLE then toggled r
         else r)"

text \<open>The first byte and the duration of a new value from the server; the result is that of the method.\<close>

definition handleNewValueFromServer :: "u32 \<Rightarrow> u8 \<Rightarrow> u32 \<Rightarrow> Relay \<Rightarrow> Relay \<times> int" where
  "handleNewValueFromServer now value0 DurationMS r =
     (let func = getDefaultFunction (channel r);
          zeroDurationAllowed = (func = SUPLA_CHANNELFNC_POWERSWITCH \<or> func = SUPLA_CHANNELFNC_LIGHTSWITCH)
      in if func = SUPLA_CHANNELFNC_PUMPSWITCH \<or> func = SUPLA_CHANNELFNC_HEATORCOLDSOURCESWITCH then (r, 0)
         else if value0 = 1 then
           let DurationMS = (if \<not> zeroDurationAllowed \<and> DurationMS < ucast (minimumAllowedDurationMs r)
                             then ucast (minimumAllowedDurationMs r) else DurationMS);
               r = (if (isImpulseFunction 0 r \<or> isCyclicMode r) \<and> DurationMS > 0 then r\<lparr>storedTurnOnDurationMs := DurationMS\<rparr> else r);
               copyDurationMs = storedTurnOnDurationMs r;
               r = (if isStaircaseFunction 0 r \<and> DurationMS = 0 then r\<lparr>storedTurnOnDurationMs := 0\<rparr> else r);
               r = turnOn now (if isCyclicMode r then storedTurnOnDurationMs r else DurationMS) r
           in (r\<lparr>storedTurnOnDurationMs := copyDurationMs\<rparr>, 1)
         else if value0 = 0 then (if keeps_duration r then turnOff now 0 r else turnOff now DurationMS r, 1)
         else (r, - 1))"

definition fillSuplaChannelNewValue :: "Relay \<Rightarrow> u32 \<Rightarrow> u32" where
  "fillSuplaChannelNewValue r DurationMS = (if keeps_duration r then storedTurnOnDurationMs r else DurationMS)"

section \<open>Configuration\<close>

definition RelayOvercurrentThreshold :: bytes where
  "RelayOvercurrentThreshold = str ''oc_thr''"

definition relay_key :: "Relay \<Rightarrow> bytes" where
  "relay_key r = generateKey (of_int (el_number r)) RelayOvercurrentThreshold"

definition updateRelayHvacAggregator :: "Relay \<Rightarrow> Relay" where
  "updateRelayHvacAggregator r =
     (if getDefaultFunction (channel r) = SUPLA_CHANNELFNC_PUMPSWITCH \<or> getDefaultFunction (channel r) = SUPLA_CHANNELFNC_HEATORCOLDSOURCESWITCH
      then r\<lparr>aggregator := Some (turnOffWhenEmptyAggregator r)\<rparr> else r\<lparr>aggregator := None\<rparr>)"

definition default_duration :: "Relay \<Rightarrow> u32" where
  "default_duration r = (if isStaircaseFunction 0 r then ucast (defaultStaircaseDurationMs r) else ucast (defaultImpulseDurationMs r))"

definition relay_onLoadConfig :: "Relay \<Rightarrow> Relay" where
  "relay_onLoadConfig r =
     (let r = (case el_config r of
                 None \<Rightarrow> r
               | Some cfg \<Rightarrow>
                   let r = updateRelayHvacAggregator (fst (loadConfigChangeFlag (fst (loadFunctionFromConfig r))))
                   in if overcurrentMaxAllowed r > 0 then
                        let v = (case kv_getUInt32 (store cfg) (relay_key r) of Some v \<Rightarrow> v | None \<Rightarrow> 0)
                        in r\<lparr>overcurrentThreshold := (if v > overcurrentMaxAllowed r then overcurrentMaxAllowed r else v)\<rparr>
                      else r)
      in if isStaircaseFunction 0 r \<or> isImpulseFunction 0 r then
           let r = (if storedTurnOnDurationMs r = 0 then r\<lparr>storedTurnOnDurationMs := default_duration r\<rparr> else r)
           in if isStaircaseFunction 0 r then r\<lparr>usedConfigTypes := types_set SUPLA_CONFIG_TYPE_EXTENDED True (usedConfigTypes r)\<rparr> else r
         else r)"

definition relay_onRegistered :: "Relay \<Rightarrow> Relay" where
  "relay_onRegistered r = (element_onRegistered r)\<lparr>timerUpdateTimestamp := 1\<rparr>"

definition relay_saveConfig :: "u32 \<Rightarrow> Relay \<Rightarrow> Relay" where
  "relay_saveConfig now r =
     (case el_config r of
        None \<Rightarrow> r
      | Some _ \<Rightarrow>
          let r = with_config (\<lambda>cfg. cfg\<lparr>store := fst (kv_setUInt32 (store cfg) (relay_key r) (overcurrentThreshold r))\<rparr>) r
          in with_config (\<lambda>cfg. saveWithDelay cfg 5000 now) (saveConfigChangeFlag now r))"

definition setOvercurrentThreshold :: "u32 \<Rightarrow> u32 \<Rightarrow> Relay \<Rightarrow> Relay" where
  "setOvercurrentThreshold now v r =
     (let v = (if v > overcurrentMaxAllowed r then overcurrentMaxAllowed r else v)
      in if overcurrentThreshold r \<noteq> v then
           let r = r\<lparr>overcurrentThreshold := v\<rparr>;
               r = triggerSetChannelConfig (if isStaircaseFunction 0 r then SUPLA_CONFIG_TYPE_EXTENDED else SUPLA_CONFIG_TYPE_DEFAULT) r
           in relay_saveConfig now r
         else r)"

text \<open>\<open>TChannelConfig_StaircaseTimer\<close> has one member of 4 bytes, \<open>TChannelConfig_PowerSwitch\<close> has 42 bytes.\<close>

definition u32_at :: "nat \<Rightarrow> bytes \<Rightarrow> u32" where
  "u32_at n bs = bytes_u32 (seg n 4 bs)"

definition sizeof_StaircaseTimer :: nat where [chan_consts]: "sizeof_StaircaseTimer = 4"
definition sizeof_PowerSwitch :: nat where [chan_consts]: "sizeof_PowerSwitch = 42"

definition power_switch_config :: "u32 \<Rightarrow> u8 \<Rightarrow> bool" where
  "power_switch_config func ConfigType \<longleftrightarrow>
     (func = SUPLA_CHANNELFNC_LIGHTSWITCH \<or> func = SUPLA_CHANNELFNC_POWERSWITCH) \<and> ConfigType = SUPLA_CONFIG_TYPE_DEFAULT \<or>
     func = SUPLA_CHANNELFNC_STAIRCASETIMER \<and> ConfigType = SUPLA_CONFIG_TYPE_EXTENDED"

definition readonly_violation :: "bytes \<Rightarrow> Relay \<Rightarrow> bool" where
  "readonly_violation config r \<longleftrightarrow>
     u32_at 4 config \<noteq> overcurrentMaxAllowed r \<or>
     defaultRelatedMeterChannelNo r \<ge> 0 \<and> (config ! 8 = 0 \<or> uint (config ! 9) \<noteq> defaultRelatedMeterChannelNo r) \<or>
     defaultRelatedMeterChannelNo r = - 1 \<and> config ! 8 = 1"

definition relay_applyChannelConfig ::
  "u32 \<Rightarrow> u32 \<Rightarrow> u8 \<Rightarrow> bytes \<Rightarrow> bool \<Rightarrow> Relay \<Rightarrow> Relay \<times> ApplyConfigResult" where
  "relay_applyChannelConfig now func ConfigType config local r =
     (let r = updateRelayHvacAggregator r
      in if config = [] then (r, if isImpulseFunction 0 r then Success else SetChannelConfigNeeded)
         else if power_switch_config func ConfigType then
           if length config = sizeof_PowerSwitch then
             let violation = readonly_violation config r;
                 r = (if u32_at 0 config \<noteq> overcurrentThreshold r
                      then (setOvercurrentThreshold now (u32_at 0 config) r)\<lparr>overcurrentActiveTimestamp := 0\<rparr> else r)
             in (r, if violation then SetChannelConfigNeeded else Success)
           else (r, Success)
         else if func = SUPLA_CHANNELFNC_STAIRCASETIMER \<and> ConfigType = SUPLA_CONFIG_TYPE_DEFAULT \<and> length config = sizeof_StaircaseTimer then
           let newDurationMs = u32_at 0 config
           in if newDurationMs = 0 \<and> storedTurnOnDurationMs r \<noteq> 0 then (r, SetChannelConfigNeeded)
              else if newDurationMs \<noteq> storedTurnOnDurationMs r then
                (schedule_save now (r\<lparr>storedTurnOnDurationMs := newDurationMs\<rparr>), Success)
              else (r, Success)
         else (r, Success))"

definition relay_fillChannelConfig :: "u8 \<Rightarrow> Relay \<Rightarrow> bytes" where
  "relay_fillChannelConfig configType r =
     (let func = getDefaultFunction (channel r)
      in if configType \<noteq> SUPLA_CONFIG_TYPE_DEFAULT \<and> configType \<noteq> SUPLA_CONFIG_TYPE_EXTENDED then []
         else if isImpulse func then []
         else if func = SUPLA_CHANNELFNC_PUMPSWITCH \<or> func = SUPLA_CHANNELFNC_HEATORCOLDSOURCESWITCH then []
         else if func = SUPLA_CHANNELFNC_STAIRCASETIMER \<and> configType = SUPLA_CONFIG_TYPE_DEFAULT then u32_bytes (storedTurnOnDurationMs r)
         else if power_switch_config func configType then
           u32_bytes (overcurrentThreshold r) @ u32_bytes (overcurrentMaxAllowed r) @
           (if 0 \<le> defaultRelatedMeterChannelNo r \<and> defaultRelatedMeterChannelNo r \<le> 255
            then [1, of_int (defaultRelatedMeterChannelNo r)] else [0, 0]) @ replicate 32 0
         else [])"

text \<open>The duration after a change of the function; \<open>r0\<close> is the relay before the change.\<close>

definition function_duration :: "Relay \<Rightarrow> Relay \<Rightarrow> Relay" where
  "function_duration r0 r =
     (if isStaircaseFunction 0 r \<or> isImpulseFunction 0 r then
        let r = r\<lparr>keepTurnOnDurationMs := True\<rparr>
        in if initDone r then
             let r = (if isStaircaseFunction 0 r \<and> \<not> isStaircaseFunction 0 r0
                      then r\<lparr>storedTurnOnDurationMs := ucast (defaultStaircaseDurationMs r)\<rparr> else r)
             in if isImpulseFunction 0 r \<and> \<not> isImpulseFunction 0 r0
                then r\<lparr>storedTurnOnDurationMs := ucast (defaultImpulseDurationMs r)\<rparr> else r
           else r
      else
        let r = r\<lparr>keepTurnOnDurationMs := False\<rparr>
        in if \<not> isCyclicMode r then r\<lparr>storedTurnOnDurationMs := 0\<rparr> else r)"

definition function_types :: "Relay \<Rightarrow> Relay" where
  "function_types r =
     (if isStaircaseFunction 0 r then r\<lparr>usedConfigTypes := types_set SUPLA_CONFIG_TYPE_EXTENDED True (usedConfigTypes r)\<rparr>
      else r\<lparr>usedConfigTypes := types_clear SUPLA_CONFIG_TYPE_EXTENDED (usedConfigTypes r)\<rparr>)"

definition relay_setAndSaveFunction :: "u32 \<Rightarrow> u32 \<Rightarrow> Relay \<Rightarrow> Relay \<times> bool" where
  "relay_setAndSaveFunction now newFunction r0 =
     (let (r, functionChanged) = element_setAndSaveFunction now newFunction r0;
          r = (if isImpulseFunction 0 r0 \<noteq> isImpulseFunction 0 r then schedule_save now r else r);
          r = (if isStaircaseFunction 0 r0 \<noteq> isStaircaseFunction 0 r then schedule_save now r else r);
          r = function_types (function_duration r0 r)
      in (if functionChanged \<and> getDefaultFunction (channel r0) \<noteq> 0 then turnOff now 0 r else r, functionChanged))"

definition relay_vt :: "unit Relay_ext element_vt" where
  "relay_vt = \<lparr>v_setAndSaveFunction = relay_setAndSaveFunction, v_applyChannelConfig = relay_applyChannelConfig,
     v_fillChannelConfig = relay_fillChannelConfig\<rparr>"

definition relay_purgeConfig :: "Relay \<Rightarrow> Relay" where
  "relay_purgeConfig r = with_config (\<lambda>cfg. cfg\<lparr>store := fst (eraseKey (store cfg) (relay_key r))\<rparr>) (element_purgeConfig r)"

section \<open>Saved state\<close>

definition isCountdownTimerFunctionEnabled :: "Relay \<Rightarrow> bool" where
  "isCountdownTimerFunctionEnabled r \<longleftrightarrow> channelFlags (channel r) AND SUPLA_CHANNEL_FLAG_COUNTDOWN_TIMER_SUPPORTED \<noteq> 0"

text \<open>The duration and the flags that \<open>onSaveState\<close> writes.\<close>

definition relay_onSaveState :: "u32 \<Rightarrow> Relay \<Rightarrow> u32 \<times> u8" where
  "relay_onSaveState now r =
     (let flags = (if isRelayOvercurrentCutOff (channel r) then RELAY_FLAGS_OVERCURRENT else 0);
          (durationForState, flags) =
            (if isStaircaseFunction 0 r then (storedTurnOnDurationMs r, flags OR RELAY_FLAGS_STAIRCASE)
             else if isImpulseFunction 0 r then (storedTurnOnDurationMs r, flags OR RELAY_FLAGS_IMPULSE_FUNCTION)
             else if isCountdownTimerFunctionEnabled r \<and> stateOnInit r < 0 then
               (if durationMs r \<noteq> 0 \<and> durationTimestamp r \<noteq> 0 \<and> now - durationTimestamp r < durationMs r
                then durationMs r - (now - durationTimestamp r) else 0, flags)
             else (storedTurnOnDurationMs r, flags));
          flags = (if stateOnInit r < 0 then flags OR (if isOn r then RELAY_FLAGS_ON else 0) else flags)
      in (durationForState, flags))"

text \<open>The duration and the flags that \<open>onLoadState\<close> reads, 0 where nothing is stored.\<close>

definition load_initial_state :: "u8 \<Rightarrow> Relay \<Rightarrow> Relay" where
  "load_initial_state flags r =
     (if stateOnInit r < 0 then
        r\<lparr>stateOnInit := (if flags AND RELAY_FLAGS_ON \<noteq> 0 then STATE_ON_INIT_RESTORED_ON else STATE_ON_INIT_RESTORED_OFF)\<rparr>
      else r)"

definition load_function :: "u32 \<Rightarrow> u8 \<Rightarrow> Relay \<Rightarrow> Relay" where
  "load_function now flags r =
     (if flags AND RELAY_FLAGS_STAIRCASE \<noteq> 0 then
        if el_config r = None then fst (relay_setAndSaveFunction now SUPLA_CHANNELFNC_STAIRCASETIMER r) else r
      else if flags AND RELAY_FLAGS_IMPULSE_FUNCTION \<noteq> 0 then
        if el_config r = None then fst (relay_setAndSaveFunction now SUPLA_CHANNELFNC_CONTROLLINGTHEGATE r) else r
      else r)"

definition load_cut_off :: "u8 \<Rightarrow> Relay \<Rightarrow> Relay" where
  "load_cut_off flags r = (if flags AND RELAY_FLAGS_OVERCURRENT \<noteq> 0 then r\<lparr>channel := setRelayOvercurrentCutOff True (channel r)\<rparr> else r)"

definition load_timer :: "Relay \<Rightarrow> Relay" where
  "load_timer r =
     (if isStaircaseFunction 0 r \<or> isImpulseFunction 0 r then
        if storedTurnOnDurationMs r = 0 then r\<lparr>storedTurnOnDurationMs := default_duration r\<rparr> else r
      else
        let r = (if stateOnInit r < 0 then r\<lparr>durationMs := storedTurnOnDurationMs r\<rparr> else r)
        in if \<not> isCyclicMode r then r\<lparr>storedTurnOnDurationMs := 0\<rparr> else r)"

definition relay_onLoadState :: "u32 \<Rightarrow> u32 \<times> u8 \<Rightarrow> Relay \<Rightarrow> Relay" where
  "relay_onLoadState now saved r =
     (let (storedDuration, flags) = saved;
          r = (if \<not> isCyclicMode r then r\<lparr>storedTurnOnDurationMs := storedDuration\<rparr> else r)
      in load_timer (load_cut_off flags (load_function now flags (load_initial_state flags r))))"

section \<open>Settings\<close>

definition setDefaultStateOn :: "Relay \<Rightarrow> Relay" where
  "setDefaultStateOn r = r\<lparr>stateOnInit := STATE_ON_INIT_ON\<rparr>"

definition setDefaultStateOff :: "Relay \<Rightarrow> Relay" where
  "setDefaultStateOff r = r\<lparr>stateOnInit := STATE_ON_INIT_OFF\<rparr>"

definition setDefaultStateRestore :: "Relay \<Rightarrow> Relay" where
  "setDefaultStateRestore r = r\<lparr>stateOnInit := STATE_ON_INIT_RESTORE\<rparr>"

definition setStoredTurnOnDurationMs :: "u32 \<Rightarrow> Relay \<Rightarrow> Relay" where
  "setStoredTurnOnDurationMs t r = r\<lparr>storedTurnOnDurationMs := t\<rparr>"

definition attach :: "nat \<Rightarrow> Relay \<Rightarrow> Relay" where
  "attach b r = r\<lparr>buttonList := buttonList r @ [b]\<rparr>"

definition disableCountdownTimerFunction :: "Relay \<Rightarrow> Relay" where
  "disableCountdownTimerFunction r = r\<lparr>channel := unsetFlag SUPLA_CHANNEL_FLAG_COUNTDOWN_TIMER_SUPPORTED (channel r)\<rparr>"

definition enableCountdownTimerFunction :: "Relay \<Rightarrow> Relay" where
  "enableCountdownTimerFunction r = r\<lparr>channel := setFlag SUPLA_CHANNEL_FLAG_COUNTDOWN_TIMER_SUPPORTED (channel r)\<rparr>"

definition setMinimumAllowedDurationMs :: "u32 \<Rightarrow> Relay \<Rightarrow> Relay" where
  "setMinimumAllowedDurationMs t r = r\<lparr>minimumAllowedDurationMs := (if t > 65535 then 65535 else ucast t)\<rparr>"

definition setDefaultRelatedMeterChannelNo :: "int \<Rightarrow> Relay \<Rightarrow> Relay" where
  "setDefaultRelatedMeterChannelNo n r = (if 0 \<le> n \<and> n \<le> 255 then r\<lparr>defaultRelatedMeterChannelNo := n\<rparr> else r)"

definition setOvercurrentMaxAllowed :: "u32 \<Rightarrow> Relay \<Rightarrow> Relay" where
  "setOvercurrentMaxAllowed v r = r\<lparr>overcurrentMaxAllowed := v\<rparr>"

definition setRestartTimerOnToggle :: "bool \<Rightarrow> Relay \<Rightarrow> Relay" where
  "setRestartTimerOnToggle b r = r\<lparr>restartTimerOnToggle := b\<rparr>"

definition enableCyclicMode :: "u32 \<Rightarrow> u32 \<Rightarrow> Relay \<Rightarrow> Relay" where
  "enableCyclicMode turnOnTimeMs turnOffTimeMs r = r\<lparr>storedTurnOnDurationMs := turnOnTimeMs, turnOffDurationForCycle := turnOffTimeMs\<rparr>"

definition disableCyclicMode :: "Relay \<Rightarrow> Relay" where
  "disableCyclicMode r = r\<lparr>storedTurnOnDurationMs := 0, turnOffDurationForCycle := 0\<rparr>"

section \<open>Initialisation\<close>

text \<open>One button of the loop in \<open>onInit\<close>: \<open>this\<close> is the relay as an object, the pair holds \<open>stateOn\<close> and \<open>skipInitialStateSetting\<close>.\<close>

definition init_button ::
  "nat \<Rightarrow> (nat \<Rightarrow> bool) \<Rightarrow> (nat \<Rightarrow> int) \<Rightarrow> nat \<Rightarrow> (bool \<times> bool) \<times> (nat \<Rightarrow> Button) \<times> clients \<Rightarrow> (bool \<times> bool) \<times> (nat \<Rightarrow> Button) \<times> clients" where
  "init_button this io_ready levels i s =
     (case s of ((stateOn, skipped), bs, cs) \<Rightarrow>
        let b = onInit (levels i) (bs i)
        in if isMonostable b then
             let (b, cs) = button_addAction i (of_int TOGGLE) this CONDITIONAL_ON_PRESS False (b, cs)
             in ((stateOn, skipped), bs(i := b), cs)
           else if isBistable b then
             let (b, cs) = button_addAction i (of_int TOGGLE_WITH_POSTPONED_COMM) this CONDITIONAL_ON_CHANGE False (b, cs)
             in ((stateOn, skipped), bs(i := b), cs)
           else if isMotionSensor b \<or> isCentral b then
             let (b, cs) = button_addAction i (of_int TURN_OFF) this ON_RELEASE False
                             (button_addAction i (of_int TURN_ON) this ON_PRESS False (b, cs))
             in ((if \<not> io_ready i then (stateOn, True) else (getLastState (btn_state b) = PRESSED, skipped)), bs(i := b), cs)
           else ((stateOn, skipped), bs(i := b), cs))"

text \<open>The loop of a later call, after a motion sensor was not ready; \<open>None\<close> when one is still not ready.\<close>

fun recheck_buttons :: "(nat \<Rightarrow> bool) \<Rightarrow> (nat \<Rightarrow> Button) \<Rightarrow> nat list \<Rightarrow> bool \<Rightarrow> bool option" where
  "recheck_buttons io_ready bs [] stateOn = Some stateOn"
| "recheck_buttons io_ready bs (i # is) stateOn =
     (if isMotionSensor (bs i) \<or> isCentral (bs i) then
        if io_ready i then recheck_buttons io_ready bs is (getLastState (btn_state (bs i)) = PRESSED) else None
      else recheck_buttons io_ready bs is stateOn)"

definition switch :: "u32 \<Rightarrow> bool \<Rightarrow> u32 \<Rightarrow> Relay \<Rightarrow> Relay" where
  "switch now stateOn duration r = (if stateOn then turnOn now duration r else turnOff now duration r)"

definition finish_init :: "u32 \<Rightarrow> bool \<Rightarrow> bool \<Rightarrow> Relay \<Rightarrow> Relay" where
  "finish_init now lastResetSoft stateOn r =
     (let r = r\<lparr>initDone := True\<rparr>
      in if \<not> skipInitialStateSetting r then
           let duration = durationMs r;
               r = (if \<not> lastResetSoft then switch now stateOn duration r else r)
           in switch now stateOn duration r
         else r)"

definition relay_onInit ::
  "nat \<Rightarrow> u32 \<Rightarrow> bool \<Rightarrow> (nat \<Rightarrow> bool) \<Rightarrow> (nat \<Rightarrow> int) \<Rightarrow> Relay \<times> (nat \<Rightarrow> Button) \<times> clients \<Rightarrow> Relay \<times> (nat \<Rightarrow> Button) \<times> clients" where
  "relay_onInit this now lastResetSoft io_ready levels s =
     (case s of (r, bs, cs) \<Rightarrow>
        let stateOn = (stateOnInit r = STATE_ON_INIT_ON \<or> stateOnInit r = STATE_ON_INIT_RESTORED_ON)
        in if skipInitialStateSetting r then
             case recheck_buttons io_ready bs (buttonList r) stateOn of
               None \<Rightarrow> (r, bs, cs)
             | Some stateOn \<Rightarrow> (finish_init now lastResetSoft stateOn (r\<lparr>skipInitialStateSetting := False\<rparr>), bs, cs)
           else
             let ((stateOn, skipped), bs, cs) = fold (init_button this io_ready levels) (buttonList r) ((stateOn, False), bs, cs)
             in (finish_init now lastResetSoft stateOn (r\<lparr>skipInitialStateSetting := skipped\<rparr>), bs, cs))"

section \<open>Polling\<close>

text \<open>The comparison with \<open>overcurrentThreshold * 1.2\<close> is one of floating-point numbers; the product of a 32-bit number with the constant is
  never rounded across a whole number, so it is the comparison of whole numbers below.\<close>

definition above_limit :: "u32 \<Rightarrow> Relay \<Rightarrow> bool" where
  "above_limit current r \<longleftrightarrow> 5 * uint current > 6 * uint (overcurrentThreshold r)"

definition check_overcurrent :: "u32 \<Rightarrow> u32 \<Rightarrow> Relay \<Rightarrow> Relay" where
  "check_overcurrent now current r =
     (if overcurrentThreshold r > 0 \<and> isOn r then
        if now - overcurrentCheckTimestamp r > 500 then
          let r = r\<lparr>overcurrentCheckTimestamp := now\<rparr>;
              cut = (\<lambda>r. turnOff now 0 (r\<lparr>channel := setRelayOvercurrentCutOff True (channel r)\<rparr>))
          in if above_limit current r then cut r
             else if current \<ge> overcurrentThreshold r then
               if overcurrentActiveTimestamp r \<noteq> 0 \<and> now - overcurrentActiveTimestamp r > 30 * 1000 then cut r
               else if overcurrentActiveTimestamp r = 0 then r\<lparr>overcurrentActiveTimestamp := now\<rparr> else r
             else r\<lparr>overcurrentActiveTimestamp := 0\<rparr>
        else r
      else r\<lparr>overcurrentCheckTimestamp := 0, overcurrentActiveTimestamp := 0\<rparr>)"

definition expire :: "u32 \<Rightarrow> Relay \<Rightarrow> Relay" where
  "expire now r = (if durationMs r \<noteq> 0 \<and> now - durationTimestamp r > durationMs r then relay_toggle now 0 r else r)"

definition relay_iterateAlways ::
  "nat \<Rightarrow> u32 \<Rightarrow> bool \<Rightarrow> (nat \<Rightarrow> bool) \<Rightarrow> (nat \<Rightarrow> int) \<Rightarrow> u32 \<Rightarrow> Relay \<times> (nat \<Rightarrow> Button) \<times> clients \<Rightarrow> Relay \<times> (nat \<Rightarrow> Button) \<times> clients" where
  "relay_iterateAlways this now lastResetSoft io_ready levels current s =
     (let s = (if \<not> isFullyInitialized (fst s) then relay_onInit this now lastResetSoft io_ready levels s else s)
      in if \<not> isFullyInitialized (fst s) then s
         else case s of (r, bs, cs) \<Rightarrow> (check_overcurrent now current (expire now r), bs, cs))"

text \<open>The remaining time and the state that the layers send for the timer.\<close>

definition updateTimerValue :: "u32 \<Rightarrow> Relay \<Rightarrow> u32 \<times> u8" where
  "updateTimerValue now r =
     (if durationMs r \<noteq> 0 \<and> durationTimestamp r \<noteq> 0 \<and> now - durationTimestamp r \<le> durationMs r
      then (durationMs r - (now - durationTimestamp r), if isOn r then 0 else 1) else (0, 0))"

datatype relay_sent = Nothing_sent | Timer_sent u32 u8 | Element_sent "(u32 \<times> bytes \<times> u8) option"

definition relay_iterateConnected ::
  "u32 \<Rightarrow> 'p list \<Rightarrow> bool list \<Rightarrow> Relay \<Rightarrow> Relay \<times> bool \<times> 'p proto_call list \<times> relay_sent" where
  "relay_iterateConnected now layers protos r =
     (if postponeCommTimestamp r \<noteq> 0 \<and> now - postponeCommTimestamp r < 500 then (r, True, [], Nothing_sent)
      else
        let r = r\<lparr>postponeCommTimestamp := 0\<rparr>
        in if timerUpdateTimestamp r \<noteq> durationTimestamp r then
             let r = r\<lparr>timerUpdateTimestamp := durationTimestamp r\<rparr>; (t, st) = updateTimerValue now r
             in (r, False, [], Timer_sent t st)
           else let (r, ret, calls, call) = element_iterateConnected relay_vt now layers protos r in (r, ret, calls, Element_sent call))"

end
