(* ===== verification/Relay_Laws.thy ===== *)
theory Relay_Laws
  imports Relay
begin

text \<open>
  Laws of relays (theory \<open>Relay\<close>): the output and the value that the channel reports, timers, the overcurrent protection, the saved
  state, a button that switches a relay, and the configuration that a relay exchanges with the server, as an instance of the classes of
  theory \<open>Channel_Config\<close>.
\<close>

section \<open>The output and the value of the channel\<close>

text \<open>What the output and its report depend on.\<close>

definition out_view :: "Relay \<Rightarrow> (bool \<times> bool \<times> int) \<times> bool \<times> int \<times> ChannelType \<times> bytes" where
  "out_view r = ((initDone r, skipInitialStateSetting r, relay_pin r), highIsOn r, pin_level r, channelType (channel r), ch_value (channel r))"

definition channel_ok :: "Relay \<Rightarrow> bool" where
  "channel_ok r \<longleftrightarrow> channelType (channel r) = RELAY \<and> length (ch_value (channel r)) = 8"

text \<open>Once the relay is initialised, the channel reports the state of the output, and a relay that is on has no cut-off.\<close>

definition relay_inv :: "Relay \<Rightarrow> bool" where
  "relay_inv r \<longleftrightarrow> channel_ok r \<and>
     (isFullyInitialized r \<and> relay_pin r \<ge> 0 \<longrightarrow>
        (isOn r \<longleftrightarrow> getValueBool (channel r)) \<and> (isOn r \<longrightarrow> \<not> isRelayOvercurrentCutOff (channel r)))"

lemma relay_inv_cong: "out_view r' = out_view r \<Longrightarrow> relay_inv r \<Longrightarrow> relay_inv r'"
  by (auto simp: out_view_def relay_inv_def channel_ok_def isFullyInitialized_def isOn_def pinOnValue_def getValueBool_def
      isRelayOvercurrentCutOff_def relay_flags_def)

lemma channel_ok_cong: "out_view r' = out_view r \<Longrightarrow> channel_ok r \<Longrightarrow> channel_ok r'"
  by (simp add: out_view_def channel_ok_def)

subsection \<open>Operations that leave both alone\<close>

lemma view_updates [simp]:
  "out_view (r\<lparr>channelConfigState := a\<rparr>) = out_view r" "out_view (r\<lparr>setChannelConfigAttempts := b\<rparr>) = out_view r"
  "out_view (r\<lparr>usedConfigTypes := b\<rparr>) = out_view r" "out_view (r\<lparr>receivedConfigTypes := b\<rparr>) = out_view r"
  "out_view (r\<lparr>el_config := c\<rparr>) = out_view r" "out_view (r\<lparr>durationMs := d\<rparr>) = out_view r"
  "out_view (r\<lparr>storedTurnOnDurationMs := d\<rparr>) = out_view r" "out_view (r\<lparr>durationTimestamp := d\<rparr>) = out_view r"
  "out_view (r\<lparr>turnOffDurationForCycle := d\<rparr>) = out_view r" "out_view (r\<lparr>overcurrentThreshold := d\<rparr>) = out_view r"
  "out_view (r\<lparr>overcurrentActiveTimestamp := d\<rparr>) = out_view r" "out_view (r\<lparr>overcurrentCheckTimestamp := d\<rparr>) = out_view r"
  "out_view (r\<lparr>timerUpdateTimestamp := d\<rparr>) = out_view r" "out_view (r\<lparr>postponeCommTimestamp := d\<rparr>) = out_view r"
  "out_view (r\<lparr>keepTurnOnDurationMs := k\<rparr>) = out_view r" "out_view (r\<lparr>storage := s\<rparr>) = out_view r"
  "out_view (r\<lparr>aggregator := g\<rparr>) = out_view r" "out_view (r\<lparr>stateOnInit := i\<rparr>) = out_view r"
  by (simp_all add: out_view_def)

lemma view_channel [simp]:
  "channelType c = channelType (channel r) \<Longrightarrow> ch_value c = ch_value (channel r) \<Longrightarrow> out_view (r\<lparr>channel := c\<rparr>) = out_view r"
  by (simp add: out_view_def)

lemma view_schedule [simp]: "out_view (schedule_save now r) = out_view r"
  by (simp add: schedule_save_def)

lemma view_applyDuration [simp]: "out_view (applyDuration now d b r) = out_view r"
  by (simp add: applyDuration_def Let_def)

lemma view_aggregator [simp]: "out_view (updateRelayHvacAggregator r) = out_view r"
  by (simp add: updateRelayHvacAggregator_def)

lemma view_flag [simp]:
  "out_view (saveConfigChangeFlag now r) = out_view r" "out_view (clearChannelConfigChangedFlag now r) = out_view r"
  "out_view (triggerSetChannelConfig t r) = out_view r"
  by (simp_all add: saveConfigChangeFlag_def with_config_def clearChannelConfigChangedFlag_def triggerSetChannelConfig_def)

lemma view_threshold [simp]: "out_view (setOvercurrentThreshold now v r) = out_view r"
  by (simp add: setOvercurrentThreshold_def relay_saveConfig_def with_config_def Let_def split: option.split)

lemma view_function [simp]:
  "out_view (fst (element_setFunction f r)) = out_view r" "out_view (fst (element_setAndSaveFunction now f r)) = out_view r"
  by (simp_all add: element_setAndSaveFunction_def element_setFunction_def with_config_def setDefaultFunction_def setDefault_def Let_def)

lemma view_apply [simp]: "out_view (fst (relay_applyChannelConfig now f t c l r)) = out_view r"
  by (simp add: relay_applyChannelConfig_def Let_def)

lemma view_exchange [simp]:
  "out_view (handleSetChannelConfigResult now res t r) = out_view r" "out_view (handleChannelConfigFinished r) = out_view r"
  "out_view (fst (iterateConfigExchange relay_vt now protos r)) = out_view r"
  by (simp_all add: handleSetChannelConfigResult_def handleChannelConfigFinished_def iterateConfigExchange_def Let_def split: option.split)

lemma view_registered [simp]: "out_view (relay_onRegistered r) = out_view r"
proof -
  have "channelType (Channel.onRegistered c) = channelType c" "ch_value (Channel.onRegistered c) = ch_value c" for c
    by (simp_all add: Channel.onRegistered_def Let_def setSendValue_def setSendInitialCaption_def setSendStateInfo_def)
  then show ?thesis by (simp add: relay_onRegistered_def element_onRegistered_def Let_def)
qed

lemma view_connected [simp]: "out_view (fst (relay_iterateConnected now layers protos r)) = out_view r"
proof -
  have "channelType (fst (sendUpdate layers ev c)) = channelType c" "ch_value (fst (sendUpdate layers ev c)) = ch_value c" for ev c
    by (simp_all add: sendUpdate_def Let_def clearSendValue_def clearSendInitialCaption_def clearSendGetConfig_def clearSendStateInfo_def)
  then have "out_view (fst (element_iterateConnected relay_vt now layers protos r)) = out_view r" for r
    by (simp add: element_iterateConnected_def Let_def case_prod_unfold)
  then show ?thesis
    by (simp add: relay_iterateConnected_def Let_def case_prod_unfold)
qed

subsection \<open>Switching\<close>

lemma value_bool:
  assumes "length (ch_value c) = 8"
  shows "channelType (setNewValue_bool b c) = channelType c" "length (ch_value (setNewValue_bool b c)) = 8"
    "getValueBool (setNewValue_bool b c) = b" "relay_flags (setNewValue_bool b c) = relay_flags c"
proof -
  have v: "ch_value (setNewValue_bool b c) = (ch_value c)[0 := (if b then 1 else 0)]"
    by (auto simp: setNewValue_bool_def setNewValue_raw_def setSendValue_def run_action_def Let_def)
  show "channelType (setNewValue_bool b c) = channelType c"
    by (auto simp: setNewValue_bool_def setNewValue_raw_def setSendValue_def run_action_def Let_def)
  show "length (ch_value (setNewValue_bool b c)) = 8" "getValueBool (setNewValue_bool b c) = b"
    "relay_flags (setNewValue_bool b c) = relay_flags c"
    using assms by (auto simp: v getValueBool_def relay_flags_def)
qed

lemma cut_off_set:
  assumes "length (ch_value c) = 8" "channelType c = RELAY"
  shows "channelType (setRelayOvercurrentCutOff b c) = RELAY" "length (ch_value (setRelayOvercurrentCutOff b c)) = 8"
    "getValueBool (setRelayOvercurrentCutOff b c) = getValueBool c" "isRelayOvercurrentCutOff (setRelayOvercurrentCutOff b c) = b"
proof -
  have one: "w AND 1 = of_bool (bit w 0)" for w :: u16 by (simp add: and_one_eq mod2_eq_if bit_0)
  have w: "((w AND NOT 1) OR (if b then 1 else 0)) AND 1 = (of_bool b :: u16)" for w
    unfolding one by (simp add: bit_simps)
  have w0: "(w AND - 2) AND 1 = (0 :: u16)" for w unfolding and.assoc by simp
  show "channelType (setRelayOvercurrentCutOff b c) = RELAY" "length (ch_value (setRelayOvercurrentCutOff b c)) = 8"
    "getValueBool (setRelayOvercurrentCutOff b c) = getValueBool c"
    using assms by (simp_all add: setRelayOvercurrentCutOff_def setSendValue_def getValueBool_def)
  have flag: "SUPLA_RELAY_FLAG_OVERCURRENT_RELAY_OFF = 1" by (simp add: chan_consts)
  have "relay_flags (setRelayOvercurrentCutOff b c) AND 1 = of_bool b"
    using assms by (simp add: setRelayOvercurrentCutOff_def setSendValue_def relay_flags_def flag w w0)
  then show "isRelayOvercurrentCutOff (setRelayOvercurrentCutOff b c) = b"
    using \<open>channelType (setRelayOvercurrentCutOff b c) = RELAY\<close> by (simp add: isRelayOvercurrentCutOff_def flag)
qed

lemma initialized_view: "isFullyInitialized r \<longleftrightarrow> fst (fst (out_view r)) \<and> \<not> fst (snd (fst (out_view r)))"
  by (simp add: isFullyInitialized_def out_view_def)

lemma turnOn_spec:
  assumes "channel_ok r" "isFullyInitialized r"
  shows "relay_inv (turnOn now d r)" "isFullyInitialized (turnOn now d r)" "relay_pin (turnOn now d r) = relay_pin r"
    "relay_pin r \<ge> 0 \<Longrightarrow> isOn (turnOn now d r)"
proof -
  define r1 where "r1 = applyDuration now d True r"
  have v: "out_view r1 = out_view r" by (simp add: r1_def)
  then have ok: "channel_ok r1" "isFullyInitialized r1" "relay_pin r1 = relay_pin r"
    using assms channel_ok_cong by (auto simp: initialized_view) (simp add: out_view_def)
  let ?c = "setNewValue_bool True (setRelayOvercurrentCutOff False (channel r1))"
  let ?r = "(digitalWrite (pinOnValue r1) r1)\<lparr>channel := ?c\<rparr>"
  have t: "turnOn now d r = schedule_save now ?r"
    using assms(2) by (simp add: turnOn_def Let_def r1_def setNewChannelValue_def digitalWrite_def)
  note c = cut_off_set [of "channel r1" False] value_bool [of "setRelayOvercurrentCutOff False (channel r1)" True]
  have "relay_inv ?r" "isFullyInitialized ?r" "relay_pin ?r = relay_pin r" "relay_pin r \<ge> 0 \<Longrightarrow> isOn ?r"
    using ok c by (auto simp: relay_inv_def channel_ok_def isOn_def pinOnValue_def digitalWrite_def isFullyInitialized_def
        isRelayOvercurrentCutOff_def)
  then show "relay_inv (turnOn now d r)" "isFullyInitialized (turnOn now d r)" "relay_pin (turnOn now d r) = relay_pin r"
    "relay_pin r \<ge> 0 \<Longrightarrow> isOn (turnOn now d r)"
    unfolding t using relay_inv_cong [of "schedule_save now ?r" ?r]
    by (auto simp: schedule_save_def isFullyInitialized_def isOn_def pinOnValue_def)
qed

lemma turnOff_spec:
  assumes "channel_ok r" "isFullyInitialized r"
  shows "relay_inv (turnOff now d r)" "isFullyInitialized (turnOff now d r)" "relay_pin (turnOff now d r) = relay_pin r"
    "\<not> isOn (turnOff now d r)" "isRelayOvercurrentCutOff (channel (turnOff now d r)) = isRelayOvercurrentCutOff (channel r)"
proof -
  define r1 where "r1 = applyDuration now d False r"
  have v: "out_view r1 = out_view r" by (simp add: r1_def)
  then have ok: "channel_ok r1" "isFullyInitialized r1" "relay_pin r1 = relay_pin r"
    "isRelayOvercurrentCutOff (channel r1) = isRelayOvercurrentCutOff (channel r)"
    using assms channel_ok_cong by (auto simp: initialized_view) (simp_all add: out_view_def isRelayOvercurrentCutOff_def relay_flags_def)
  let ?r = "(digitalWrite (pinOffValue r1) r1)\<lparr>channel := setNewValue_bool False (channel r1)\<rparr>"
  have t: "turnOff now d r = schedule_save now ?r"
    using assms(2) by (simp add: turnOff_def Let_def r1_def setNewChannelValue_def digitalWrite_def)
  note c = value_bool [of "channel r1" False]
  have "relay_inv ?r" "isFullyInitialized ?r" "relay_pin ?r = relay_pin r" "\<not> isOn ?r"
    "isRelayOvercurrentCutOff (channel ?r) = isRelayOvercurrentCutOff (channel r)"
    using ok c by (auto simp: relay_inv_def channel_ok_def isOn_def pinOnValue_def pinOffValue_def digitalWrite_def isFullyInitialized_def
        isRelayOvercurrentCutOff_def)
  then show "relay_inv (turnOff now d r)" "isFullyInitialized (turnOff now d r)" "relay_pin (turnOff now d r) = relay_pin r"
    "\<not> isOn (turnOff now d r)" "isRelayOvercurrentCutOff (channel (turnOff now d r)) = isRelayOvercurrentCutOff (channel r)"
    unfolding t using relay_inv_cong [of "schedule_save now ?r" ?r]
    by (auto simp: schedule_save_def isFullyInitialized_def isOn_def pinOnValue_def)
qed

text \<open>The invariant as a property of the view, so that the simplifier moves it over operations that keep the view.\<close>

definition view_inv :: "(bool \<times> bool \<times> int) \<times> bool \<times> int \<times> ChannelType \<times> bytes \<Rightarrow> bool" where
  "view_inv v \<longleftrightarrow> (\<exists>r. out_view r = v \<and> relay_inv r)"

lemma relay_inv_view: "relay_inv r \<longleftrightarrow> view_inv (out_view r)"
  unfolding view_inv_def using relay_inv_cong by metis

lemma relay_inv_ok: "relay_inv r \<Longrightarrow> channel_ok r"
  by (simp add: relay_inv_def)

lemma inv_turn: "relay_inv r \<Longrightarrow> relay_inv (turnOn now d r)" "relay_inv r \<Longrightarrow> relay_inv (turnOff now d r)"
  using turnOn_spec(1) [of r now d] turnOff_spec(1) [of r now d] relay_inv_ok [of r]
  by (cases "isFullyInitialized r"; simp add: turnOn_def turnOff_def)+

lemma inv_toggle: "relay_inv r \<Longrightarrow> relay_inv (relay_toggle now d r)"
  by (simp add: relay_toggle_def inv_turn)

lemmas view_intros = inv_turn [unfolded relay_inv_view] inv_toggle [unfolded relay_inv_view]

lemma inv_action: "relay_inv r \<Longrightarrow> relay_inv (relay_handleAction now a r)"
  by (simp add: relay_handleAction_def Let_def relay_inv_view view_intros)

lemma inv_new_value: "relay_inv r \<Longrightarrow> relay_inv (fst (handleNewValueFromServer now v d r))"
  by (simp add: handleNewValueFromServer_def Let_def relay_inv_view view_intros)

lemma view_function_parts [simp]: "out_view (function_duration r0 r) = out_view r" "out_view (function_types r) = out_view r"
  by (simp_all add: function_duration_def function_types_def Let_def)

lemma inv_setFunction: "relay_inv r \<Longrightarrow> relay_inv (fst (relay_setAndSaveFunction now f r))"
  by (cases "element_setAndSaveFunction now f r")
    (use view_function(2) [of now f r] in \<open>simp add: relay_setAndSaveFunction_def Let_def relay_inv_view view_intros\<close>)

lemma inv_handleConfig: "relay_inv r \<Longrightarrow> relay_inv (fst (handleChannelConfig relay_vt now f t c l r))"
proof -
  assume i: "relay_inv r"
  define r1 where "r1 = (if f \<noteq> getDefaultFunction (channel r) then fst (relay_setAndSaveFunction now f r) else r)"
  obtain r2 a where ap: "relay_applyChannelConfig now f t c l r1 = (r2, a)" by fastforce
  then have v: "out_view r2 = out_view r1" using view_apply [of now f t c l r1] by simp
  have "relay_inv r1" using i by (simp add: r1_def inv_setFunction)
  moreover have "out_view (fst (handleChannelConfig relay_vt now f t c l r)) = out_view r1"
    using v unfolding handleChannelConfig_def Let_def relay_vt_def element_vt.simps r1_def [symmetric] ap
    by (simp split: ApplyConfigResult.split)
  ultimately show ?thesis by (simp add: relay_inv_view)
qed

lemma inv_switch: "channel_ok r \<Longrightarrow> isFullyInitialized r \<Longrightarrow> relay_inv (switch now b d r) \<and> isFullyInitialized (switch now b d r)"
  by (simp add: switch_def turnOn_spec turnOff_spec)

lemma inv_finish: "channel_ok r \<Longrightarrow> relay_inv (finish_init now soft b r)"
proof -
  assume "channel_ok r"
  then have ok: "channel_ok (r\<lparr>initDone := True\<rparr>)" by (simp add: channel_ok_def)
  show ?thesis
  proof (cases "skipInitialStateSetting r")
    case True
    then show ?thesis using ok by (simp add: finish_init_def relay_inv_def isFullyInitialized_def)
  next
    case False
    then have i: "isFullyInitialized (r\<lparr>initDone := True\<rparr>)" by (simp add: isFullyInitialized_def)
    show ?thesis
      using inv_switch [OF ok i, of now b "durationMs r"] inv_switch [of "switch now b (durationMs r) (r\<lparr>initDone := True\<rparr>)" now b "durationMs r"] False
        relay_inv_ok by (auto simp: finish_init_def Let_def)
  qed
qed

lemma inv_onInit: "channel_ok (fst s) \<Longrightarrow> relay_inv (fst s) \<Longrightarrow> relay_inv (fst (relay_onInit this now soft io_ready levels s))"
proof -
  assume a: "channel_ok (fst s)" "relay_inv (fst s)"
  obtain r bs cs where s: "s = (r, bs, cs)" by (cases s)
  have ok: "channel_ok (r\<lparr>skipInitialStateSetting := k\<rparr>)" for k using a s by (simp add: channel_ok_def)
  show ?thesis
    using a ok inv_finish by (simp add: relay_onInit_def s Let_def case_prod_unfold split: option.split)
qed

lemma inv_cut:
  assumes "relay_inv r" "isFullyInitialized r"
  shows "relay_inv (turnOff now 0 (r\<lparr>channel := setRelayOvercurrentCutOff True (channel r)\<rparr>))"
  using assms cut_off_set [of "channel r" True]
  by (intro turnOff_spec(1)) (auto simp: channel_ok_def isFullyInitialized_def dest: relay_inv_ok)

lemma inv_check: "relay_inv r \<Longrightarrow> isFullyInitialized r \<Longrightarrow> relay_inv (check_overcurrent now current r)"
  using inv_cut [of "r\<lparr>overcurrentCheckTimestamp := now\<rparr>" now]
  by (simp add: check_overcurrent_def Let_def relay_inv_view isFullyInitialized_def)

lemma toggle_initialized: "channel_ok r \<Longrightarrow> isFullyInitialized r \<Longrightarrow> isFullyInitialized (relay_toggle now d r)"
  by (simp add: relay_toggle_def turnOn_spec(2) turnOff_spec(2))

lemma inv_poll: "relay_inv (fst s) \<Longrightarrow> relay_inv (fst (relay_iterateAlways this now soft io_ready levels current s))"
proof -
  assume i: "relay_inv (fst s)"
  define s1 where "s1 = (if \<not> isFullyInitialized (fst s) then relay_onInit this now soft io_ready levels s else s)"
  have i1: "relay_inv (fst s1)" using i inv_onInit relay_inv_ok by (simp add: s1_def)
  obtain r bs cs where s1: "s1 = (r, bs, cs)" by (cases s1)
  have "relay_inv (check_overcurrent now current (expire now r))" if "isFullyInitialized r"
    using that i1 s1 by (intro inv_check) (auto simp: expire_def inv_toggle toggle_initialized dest: relay_inv_ok)
  then show ?thesis using i1 unfolding relay_iterateAlways_def Let_def s1_def [symmetric] s1 by simp
qed

section \<open>Runs\<close>

text \<open>What happens to a relay after its state was loaded.  \<open>Others\<close> is a change of the buttons or of the connections by other objects.\<close>

datatype relay_event =
    Action int
  | New_value u8 u32
  | Poll "nat \<Rightarrow> bool" "nat \<Rightarrow> int" u32
  | Connected "bool list"
  | Registered
  | Server_config u32 u8 bytes bool
  | Config_finished
  | Config_result u8 u8
  | Set_function u32
  | Set_threshold u32
  | Others "nat \<Rightarrow> Button" clients

fun relay_step :: "nat \<Rightarrow> bool \<Rightarrow> u32 \<times> relay_event \<Rightarrow> Relay \<times> (nat \<Rightarrow> Button) \<times> clients \<Rightarrow> Relay \<times> (nat \<Rightarrow> Button) \<times> clients" where
  "relay_step this soft (now, Action a) (r, bc) = (relay_handleAction now a r, bc)"
| "relay_step this soft (now, New_value v d) (r, bc) = (fst (handleNewValueFromServer now v d r), bc)"
| "relay_step this soft (now, Poll io_ready levels current) s = relay_iterateAlways this now soft io_ready levels current s"
| "relay_step this soft (now, Connected protos) (r, bc) = (fst (relay_iterateConnected now [()] protos r), bc)"
| "relay_step this soft (now, Registered) (r, bc) = (relay_onRegistered r, bc)"
| "relay_step this soft (now, Server_config f t c l) (r, bc) = (fst (handleChannelConfig relay_vt now f t c l r), bc)"
| "relay_step this soft (now, Config_finished) (r, bc) = (handleChannelConfigFinished r, bc)"
| "relay_step this soft (now, Config_result res t) (r, bc) = (handleSetChannelConfigResult now res t r, bc)"
| "relay_step this soft (now, Set_function f) (r, bc) = (fst (relay_setAndSaveFunction now f r), bc)"
| "relay_step this soft (now, Set_threshold v) (r, bc) = (setOvercurrentThreshold now v r, bc)"
| "relay_step this soft (now, Others bs cs) (r, bc) = (r, bs, cs)"

lemma inv_step: "relay_inv (fst s) \<Longrightarrow> relay_inv (fst (relay_step this soft ev s))"
proof -
  assume i: "relay_inv (fst s)"
  obtain now e where ev: "ev = (now, e)" by (cases ev)
  obtain r bs cs where s: "s = (r, bs, cs)" by (cases s)
  show ?thesis
    using i inv_action [of r] inv_new_value [of r] inv_poll [of s] inv_handleConfig [of r] inv_setFunction [of r]
    unfolding ev s by (cases e) (simp_all add: relay_inv_view)
qed

lemma inv_run: "relay_inv (fst s) \<Longrightarrow> relay_inv (fst (fold (relay_step this soft) evs s))"
  by (induction evs arbitrary: s) (simp_all add: inv_step)

text \<open>A relay before \<open>onInit\<close>.\<close>

definition unstarted :: "Relay \<Rightarrow> bool" where
  "unstarted r \<longleftrightarrow> \<not> initDone r \<and> channel_ok r"

lemma unstarted_view: "unstarted r \<longleftrightarrow> \<not> fst (fst (out_view r)) \<and> fst (snd (snd (snd (out_view r)))) = RELAY \<and> length (snd (snd (snd (snd (out_view r))))) = 8"
  by (simp add: unstarted_def channel_ok_def out_view_def)

lemma unstarted_new: "length (ch_value c) = 8 \<Longrightarrow> unstarted (new_Relay i16 c cfg st p high functions)"
  by (simp add: unstarted_def new_Relay_def channel_ok_def setFuncList_def setFlag_def setType_def protoTypeToChannelType_def chan_consts)

lemma unstarted_turnOff: "unstarted r \<Longrightarrow> turnOff now d r = r"
  by (simp add: unstarted_def turnOff_def isFullyInitialized_def)

lemma unstarted_setFunction: "unstarted r \<Longrightarrow> unstarted (fst (relay_setAndSaveFunction now f r))"
  by (cases "element_setAndSaveFunction now f r")
    (use view_function(2) [of now f r] unstarted_turnOff in \<open>simp add: relay_setAndSaveFunction_def Let_def unstarted_view\<close>)

lemma unstarted_cut_off: "unstarted r \<Longrightarrow> unstarted (r\<lparr>channel := setRelayOvercurrentCutOff b (channel r)\<rparr>)"
  by (simp add: unstarted_def channel_ok_def cut_off_set)

lemma view_loadConfig [simp]: "out_view (relay_onLoadConfig r) = out_view r"
proof -
  have f: "out_view (fst (loadFunctionFromConfig r)) = out_view r" for r :: Relay
    by (simp add: loadFunctionFromConfig_def Let_def split: option.split)
  have g: "out_view (fst (loadConfigChangeFlag r)) = out_view r" for r :: Relay
    by (simp add: loadConfigChangeFlag_def Let_def split: option.split)
  show ?thesis by (simp add: relay_onLoadConfig_def Let_def f g split: option.split)
qed

lemma unstarted_loadState: "unstarted r \<Longrightarrow> unstarted (relay_onLoadState now saved r)"
proof -
  assume f: "unstarted r"
  obtain d flags where saved: "saved = (d, flags)" by (cases saved)
  define r1 where "r1 = (if \<not> isCyclicMode r then r\<lparr>storedTurnOnDurationMs := d\<rparr> else r)"
  have "unstarted r1" using f by (simp add: r1_def unstarted_view)
  then have "unstarted (load_initial_state flags r1)" by (simp add: load_initial_state_def unstarted_view)
  then have "unstarted (load_function now flags (load_initial_state flags r1))" by (simp add: load_function_def unstarted_setFunction)
  then have "unstarted (load_cut_off flags (load_function now flags (load_initial_state flags r1)))" by (simp add: load_cut_off_def unstarted_cut_off)
  then show ?thesis
    unfolding relay_onLoadState_def saved Let_def prod.case r1_def [symmetric] by (simp add: load_timer_def Let_def unstarted_view)
qed

lemma unstarted_inv: "unstarted r \<Longrightarrow> relay_inv r"
  by (simp add: unstarted_def relay_inv_def isFullyInitialized_def)

text \<open>C5. A relay reports what its output does: whatever state and configuration it starts with, after every run of actions, commands and configurations of
  the server, polls (with their timers and the overcurrent check), changes of the function and of the buttons, once the relay is
  initialised, its channel reports that it is on exactly when the output pin is at the level that means on; and a relay that is on does not
  report an overcurrent cut-off.\<close>

theorem relay_reports_output:
  assumes "unstarted r0" "fold (relay_step this soft) evs (relay_onLoadState now saved (relay_onLoadConfig r0), bc) = (r, bc')"
    and "isFullyInitialized r" "relay_pin r \<ge> 0"
  shows "(getValueBool (channel r) \<longleftrightarrow> pin_level r = pinOnValue r) \<and>
    (getValueBool (channel r) \<longrightarrow> \<not> isRelayOvercurrentCutOff (channel r))"
proof -
  have "unstarted (relay_onLoadConfig r0)" using assms(1) by (simp add: unstarted_view)
  then have "relay_inv (relay_onLoadState now saved (relay_onLoadConfig r0))" by (intro unstarted_inv unstarted_loadState)
  then have "relay_inv r" using inv_run [of "(relay_onLoadState now saved (relay_onLoadConfig r0), bc)" this soft evs] assms(2) by simp
  then show ?thesis using assms(3,4) by (auto simp: relay_inv_def isOn_def)
qed

definition sample_channel :: Channel where
  "sample_channel = Channel_init\<lparr>channelNumber := 3, defaultFunction := 130\<rparr>"

definition sample_relay :: Relay where
  "sample_relay = new_Relay False sample_channel (Some (new_config [])) None 5 True 255"

lemma unstarted_sample: "unstarted sample_relay"
  unfolding sample_relay_def by (rule unstarted_new) (simp add: sample_channel_def Channel_init_def const_defs)

theorem relay_reports_output_witness:
  "\<exists>r. fold (relay_step 0 False) [(10, Poll (\<lambda>_. True) (\<lambda>_. 0) 0), (20, Action TURN_ON)]
      (relay_onLoadState 1 (0, 0) (relay_onLoadConfig sample_relay), (\<lambda>_. new_Button False 0 1 False False), []) = r \<and>
    isFullyInitialized (fst r) \<and> getValueBool (channel (fst r)) \<and> pin_level (fst r) = 1 \<and> \<not> isRelayOvercurrentCutOff (channel (fst r))"
proof -
  define s where "s = fold (relay_step 0 False) [(10, Poll (\<lambda>_. True) (\<lambda>_. 0) 0), (20, Action TURN_ON)]
      (relay_onLoadState 1 (0, 0) (relay_onLoadConfig sample_relay), (\<lambda>_. new_Button False 0 1 False False), [])"
  have s: "isFullyInitialized (fst s)" "relay_pin (fst s) = 5" "pinOnValue (fst s) = 1" "pin_level (fst s) = 1"
    unfolding s_def by code_simp+
  obtain r bc where r: "s = (r, bc)" by (cases s)
  show ?thesis
    using relay_reports_output [OF unstarted_sample s_def [symmetric, unfolded r]] s unfolding s_def [symmetric] r by auto
qed

section \<open>Timers\<close>

lemma apply_threshold [simp]: "overcurrentThreshold (applyDuration now d b r) = overcurrentThreshold r"
  by (simp add: applyDuration_def Let_def)

lemma turn_fields:
  assumes "isFullyInitialized r"
  shows "durationMs (turnOn now d r) = durationMs (applyDuration now d True r)"
    "durationTimestamp (turnOn now d r) = durationTimestamp (applyDuration now d True r)"
    "storedTurnOnDurationMs (turnOn now d r) = storedTurnOnDurationMs (applyDuration now d True r)"
    "turnOffDurationForCycle (turnOn now d r) = turnOffDurationForCycle (applyDuration now d True r)"
    "overcurrentThreshold (turnOn now d r) = overcurrentThreshold r"
    "durationMs (turnOff now d r) = durationMs (applyDuration now d False r)"
    "durationTimestamp (turnOff now d r) = durationTimestamp (applyDuration now d False r)"
    "storedTurnOnDurationMs (turnOff now d r) = storedTurnOnDurationMs (applyDuration now d False r)"
    "turnOffDurationForCycle (turnOff now d r) = turnOffDurationForCycle (applyDuration now d False r)"
    "overcurrentThreshold (turnOff now d r) = overcurrentThreshold r"
  using assms by (simp_all add: turnOn_def turnOff_def Let_def schedule_save_def setNewChannelValue_def digitalWrite_def)

text \<open>Durations that an \<open>int\<close> of the build holds.\<close>

definition fits_int :: "bool \<Rightarrow> u32 \<Rightarrow> bool" where
  "fits_int i16 d \<longleftrightarrow> (i16 \<longrightarrow> d < 2 ^ 15)"

lemma as_int_fits: "fits_int i16 d \<Longrightarrow> as_int i16 d = d"
proof -
  assume f: "fits_int i16 d"
  have "scast (ucast d :: u16) = d" if "d < 2 ^ 15"
  proof -
    have u: "uint d < 2 ^ 15" using that by (simp add: word_less_alt)
    have "sint (ucast d :: u16) = uint d"
      using u signed_take_bit_int_eq_self [of 15 "uint d"] uint_ge_0 [of d] by (simp add: sint_uint unsigned_ucast_eq take_bit_int_eq_self)
    then show ?thesis by (simp add: scast_eq)
  qed
  then show ?thesis using f by (simp add: as_int_def fits_int_def)
qed

lemma as_int_0 [simp]: "as_int i16 0 = 0"
  by (simp add: as_int_def)

lemma turn_int16: "relay_int16 (turnOn now d r) = relay_int16 r" "relay_int16 (turnOff now d r) = relay_int16 r"
  by (simp_all add: turnOn_def turnOff_def applyDuration_def Let_def schedule_save_def setNewChannelValue_def digitalWrite_def)

text \<open>How long \<open>turnOn(d)\<close> keeps a relay on that is not in cyclic mode; 0 is without end.\<close>

definition on_time :: "u32 \<Rightarrow> Relay \<Rightarrow> u32" where
  "on_time d r =
     (let d = as_int (relay_int16 r) d
      in if keeps_duration r then if minimumAllowedDurationMs r > 0 \<and> storedTurnOnDurationMs r = 0 then d else storedTurnOnDurationMs r else d)"

text \<open>Where \<open>int\<close> has 16 bits, a minute becomes a time that never ends in practice: 60000 is stored as -5536, that is more than 49 days.\<close>

lemma minute_on_avr: "relay_int16 r \<Longrightarrow> \<not> keeps_duration r \<Longrightarrow> on_time 60000 r = 4294961760"
  by (simp add: on_time_def as_int_def)

lemma keeps_duration_updates [simp]:
  "keeps_duration (r\<lparr>durationMs := x\<rparr>) = keeps_duration r" "keeps_duration (r\<lparr>storedTurnOnDurationMs := x\<rparr>) = keeps_duration r"
  by (simp_all add: keeps_duration_def isStaircaseFunction_def isImpulseFunction_def)

lemma apply_on:
  assumes "turnOffDurationForCycle r = 0"
  shows "durationMs (applyDuration now d True r) = on_time d r"
    "durationTimestamp (applyDuration now d True r) = (if on_time d r \<noteq> 0 then now else 0)"
    "turnOffDurationForCycle (applyDuration now d True r) = 0"
  using assms by (simp_all add: applyDuration_def Let_def on_time_def isCyclicMode_def)

lemma apply_off:
  assumes "\<not> isCyclicMode r"
  shows "durationMs (applyDuration now d False r) = as_int (relay_int16 r) d"
    "durationTimestamp (applyDuration now d False r) = (if as_int (relay_int16 r) d \<noteq> 0 then now else 0)"
    "turnOffDurationForCycle (applyDuration now d False r) = turnOffDurationForCycle r"
    "storedTurnOnDurationMs (applyDuration now d False r) = storedTurnOnDurationMs r"
  using assms by (simp_all add: applyDuration_def Let_def)

text \<open>A poll of an initialised relay.\<close>

abbreviation poll :: "u32 \<times> u32 \<Rightarrow> Relay \<Rightarrow> Relay" where
  "poll tc r \<equiv> check_overcurrent (fst tc) (snd tc) (expire (fst tc) r)"

lemma iterate_initialized:
  "isFullyInitialized r \<Longrightarrow> relay_iterateAlways this t soft io_ready levels current (r, bc) = (poll (t, current) r, bc)"
  by (cases bc) (simp add: relay_iterateAlways_def)

text \<open>The state of a relay that waits for its timer, and of one that is off for good.\<close>

definition timed_on :: "u32 \<Rightarrow> u32 \<Rightarrow> Relay \<Rightarrow> bool" where
  "timed_on t0 D r \<longleftrightarrow> relay_inv r \<and> isFullyInitialized r \<and> relay_pin r \<ge> 0 \<and> isOn r \<and> turnOffDurationForCycle r = 0 \<and>
     overcurrentThreshold r = 0 \<and> durationMs r = D \<and> durationTimestamp r = t0 \<and> D \<noteq> 0"

definition rests_off :: "Relay \<Rightarrow> bool" where
  "rests_off r \<longleftrightarrow> relay_inv r \<and> isFullyInitialized r \<and> \<not> isOn r \<and> durationMs r = 0"

lemma poll_off: "rests_off r \<Longrightarrow> rests_off (poll tc r)"
  by (auto simp: rests_off_def expire_def check_overcurrent_def relay_inv_view) (simp_all add: isFullyInitialized_def isOn_def pinOnValue_def)

lemma turnOff_rests: "relay_inv r \<Longrightarrow> isFullyInitialized r \<Longrightarrow> \<not> isCyclicMode r \<Longrightarrow> rests_off (turnOff now 0 r)"
  using turnOff_spec [of r now 0] relay_inv_ok [of r] by (simp add: rests_off_def turn_fields apply_off)

lemma poll_waits: "timed_on t0 D r \<Longrightarrow> t - t0 \<le> D \<Longrightarrow> timed_on t0 D (poll (t, current) r)"
proof -
  assume a: "timed_on t0 D r" "t - t0 \<le> D"
  then have "expire t r = r" by (simp add: expire_def timed_on_def)
  moreover have "check_overcurrent t current r = r\<lparr>overcurrentCheckTimestamp := 0, overcurrentActiveTimestamp := 0\<rparr>"
    using a by (simp add: check_overcurrent_def timed_on_def)
  ultimately show ?thesis using a by (simp add: timed_on_def relay_inv_view) (simp add: isFullyInitialized_def isOn_def pinOnValue_def)
qed

lemma poll_expires: "timed_on t0 D r \<Longrightarrow> D < t - t0 \<Longrightarrow> rests_off (poll (t, current) r)"
proof -
  assume a: "timed_on t0 D r" "D < t - t0"
  have "rests_off (turnOff t 0 r)" using a by (intro turnOff_rests) (auto simp: timed_on_def isCyclicMode_def)
  moreover have "poll (t, current) r = (turnOff t 0 r)\<lparr>overcurrentCheckTimestamp := 0, overcurrentActiveTimestamp := 0\<rparr>"
    using a turnOff_spec(4) [of r t 0] relay_inv_ok [of r]
    by (simp add: timed_on_def expire_def relay_toggle_def isCyclicMode_def check_overcurrent_def)
  ultimately show ?thesis by (simp add: rests_off_def relay_inv_view) (simp add: isFullyInitialized_def isOn_def pinOnValue_def)
qed

lemma turnOn_timed:
  assumes "channel_ok r" "isFullyInitialized r" "relay_pin r \<ge> 0" "turnOffDurationForCycle r = 0" "overcurrentThreshold r = 0" "on_time d r \<noteq> 0"
  shows "timed_on t0 (on_time d r) (turnOn t0 d r)"
  using turnOn_spec [OF assms(1,2), of t0 d] assms by (simp add: timed_on_def turn_fields apply_on)

lemma polls_initialized:
  "(\<And>tc r. P r \<Longrightarrow> tc \<in> set tcs \<Longrightarrow> P (poll tc r)) \<Longrightarrow> (\<And>r. P r \<Longrightarrow> isFullyInitialized r) \<Longrightarrow> P r \<Longrightarrow>
    \<exists>r'. fold (relay_step this soft) (map (\<lambda>(t, current). (t, Poll io_ready levels current)) tcs) (r, bc) = (r', bc) \<and> P r'"
proof (induction tcs arbitrary: r)
  case (Cons tc tcs)
  have "isFullyInitialized r" "P (poll tc r)" using Cons.prems by simp_all
  then show ?case using Cons.IH [of "poll tc r"] Cons.prems(1,2) by (cases tc) (simp add: iterate_initialized)
qed simp

definition polls :: "(nat \<Rightarrow> bool) \<Rightarrow> (nat \<Rightarrow> int) \<Rightarrow> (u32 \<times> u32) list \<Rightarrow> (u32 \<times> relay_event) list" where
  "polls io_ready levels = map (\<lambda>(t, current). (t, Poll io_ready levels current))"

text \<open>C7. An impulse has its length.  When an initialised relay with an output pin that is neither in cyclic mode nor has overcurrent protection is
  turned on for a time (the one of the call as an \<open>int\<close> of the build holds it, or the stored one for a staircase timer and for gates and
  doors), then no poll until the end of that time turns it off; the first poll after it does; and no later poll turns it on
  again.  Times are those of the 32-bit clock.\<close>

theorem timed_relay_turns_off:
  assumes "channel_ok r" "isFullyInitialized r" "relay_pin r \<ge> 0" "turnOffDurationForCycle r = 0" "overcurrentThreshold r = 0" "on_time d r \<noteq> 0"
    and "\<forall>(t, current) \<in> set early. t - t0 \<le> on_time d r" "on_time d r < t1 - t0"
  shows "isOn (fst (fold (relay_step this soft) (polls io_ready levels early) (turnOn t0 d r, bc))) \<and>
    \<not> isOn (fst (fold (relay_step this soft) (polls io_ready levels (early @ (t1, c1) # late)) (turnOn t0 d r, bc)))"
proof -
  have on: "timed_on t0 (on_time d r) (turnOn t0 d r)" using turnOn_timed [OF assms(1-6)] .
  obtain r1 where r1: "fold (relay_step this soft) (polls io_ready levels early) (turnOn t0 d r, bc) = (r1, bc)" "timed_on t0 (on_time d r) r1"
    using polls_initialized [of "timed_on t0 (on_time d r)" early, OF _ _ on, of this soft io_ready levels bc] assms(7) poll_waits
    unfolding polls_def by (fastforce simp: timed_on_def)
  have r2: "rests_off (poll (t1, c1) r1)" using poll_expires [OF r1(2) assms(8)] .
  have step: "relay_step this soft (t1, Poll io_ready levels c1) (r1, bc) = (poll (t1, c1) r1, bc)"
    using r1(2) by (simp add: iterate_initialized timed_on_def)
  obtain r3 where r3: "fold (relay_step this soft) (polls io_ready levels late) (poll (t1, c1) r1, bc) = (r3, bc)" "rests_off r3"
    using polls_initialized [of rests_off late, OF _ _ r2, of this soft io_ready levels bc] poll_off
    unfolding polls_def by (auto simp: rests_off_def)
  have "fold (relay_step this soft) (polls io_ready levels (early @ (t1, c1) # late)) (turnOn t0 d r, bc) = (r3, bc)"
    using r1(1) r3(1) step by (simp add: polls_def)
  then show ?thesis using r1 r3 by (simp add: timed_on_def rests_off_def)
qed

definition running_relay :: Relay where
  "running_relay = fst (relay_onInit 0 1 False (\<lambda>_. True) (\<lambda>_. 0) (sample_relay, (\<lambda>_. new_Button False 0 1 False False), []))"

lemma running_ok:
  "channel_ok running_relay" "isFullyInitialized running_relay" "relay_pin running_relay = 5" "turnOffDurationForCycle running_relay = 0"
  "overcurrentThreshold running_relay = 0" "on_time 500 running_relay = 500"
proof -
  have "relay_inv running_relay"
    unfolding running_relay_def using unstarted_sample by (intro inv_onInit) (simp_all add: unstarted_inv unstarted_def)
  then show "channel_ok running_relay" by (rule relay_inv_ok)
  show "isFullyInitialized running_relay" "relay_pin running_relay = 5" "turnOffDurationForCycle running_relay = 0"
    "overcurrentThreshold running_relay = 0" "on_time 500 running_relay = 500" by code_simp+
qed

theorem timed_relay_turns_off_witness:
  "isOn (fst (fold (relay_step 0 False) (polls (\<lambda>_. True) (\<lambda>_. 0) [(300, 0), (510, 0)]) (turnOn 10 500 running_relay, (\<lambda>_. new_Button False 0 1 False False), []))) \<and>
   \<not> isOn (fst (fold (relay_step 0 False) (polls (\<lambda>_. True) (\<lambda>_. 0) ([(300, 0), (510, 0)] @ (511, 0) # [(2000, 0)]))
     (turnOn 10 500 running_relay, (\<lambda>_. new_Button False 0 1 False False), [])))"
  by (rule timed_relay_turns_off) (simp_all add: running_ok)

section \<open>Overcurrent protection\<close>

text \<open>The relay is on with a current at the threshold since \<open>t0\<close>, and the last check was at most 30 s later; or it was cut off.\<close>

definition over_since :: "u32 \<Rightarrow> Relay \<Rightarrow> bool" where
  "over_since t0 r \<longleftrightarrow> relay_inv r \<and> isFullyInitialized r \<and> relay_pin r \<ge> 0 \<and> isOn r \<and> \<not> isCyclicMode r \<and> durationMs r = 0 \<and>
     overcurrentActiveTimestamp r = t0 \<and> t0 \<noteq> 0 \<and> overcurrentCheckTimestamp r - t0 \<le> 30000"

definition cut_off :: "Relay \<Rightarrow> bool" where
  "cut_off r \<longleftrightarrow> rests_off r \<and> isRelayOvercurrentCutOff (channel r)"

lemma cut_rests:
  assumes "relay_inv r" "isFullyInitialized r" "\<not> isCyclicMode r"
  shows "cut_off (turnOff now 0 (r\<lparr>channel := setRelayOvercurrentCutOff True (channel r)\<rparr>))"
proof -
  let ?r = "r\<lparr>channel := setRelayOvercurrentCutOff True (channel r)\<rparr>"
  have c: "channel_ok ?r" "isFullyInitialized ?r" "\<not> isCyclicMode ?r" "isRelayOvercurrentCutOff (channel ?r)"
    using assms cut_off_set [of "channel r" True] relay_inv_ok [of r] by (auto simp: channel_ok_def isFullyInitialized_def isCyclicMode_def)
  then show ?thesis
    using turnOff_spec [of ?r now 0] by (simp add: cut_off_def rests_off_def turn_fields apply_off)
qed

lemma poll_cut_off: "cut_off r \<Longrightarrow> cut_off (poll tc r)"
proof -
  assume a: "cut_off r"
  have "poll tc r = r\<lparr>overcurrentCheckTimestamp := 0, overcurrentActiveTimestamp := 0\<rparr>"
    using a by (simp add: cut_off_def rests_off_def expire_def check_overcurrent_def)
  then show ?thesis using a poll_off [of r tc] by (simp add: cut_off_def)
qed

lemma poll_over:
  assumes "over_since t0 r" "overcurrentThreshold r = thr" "thr \<noteq> 0" "thr \<le> current" "overcurrentCheckTimestamp r - t0 \<le> t - t0" "t - t0 < 2 ^ 31"
  shows "cut_off (poll (t, current) r) \<or>
    over_since t0 (poll (t, current) r) \<and> overcurrentThreshold (poll (t, current) r) = thr \<and> t - t0 \<le> 30500 \<and>
      overcurrentCheckTimestamp (poll (t, current) r) - t0 \<le> t - t0"
proof -
  have e: "expire t r = r" using assms(1) by (simp add: over_since_def expire_def)
  show ?thesis
  proof (cases "500 < t - overcurrentCheckTimestamp r")
    case True
    let ?r = "r\<lparr>overcurrentCheckTimestamp := t\<rparr>"
    have c: "cut_off (turnOff t 0 (?r\<lparr>channel := setRelayOvercurrentCutOff True (channel ?r)\<rparr>))"
      using assms(1) by (intro cut_rests) (auto simp: over_since_def relay_inv_view isFullyInitialized_def isCyclicMode_def)
    have o: "over_since t0 ?r" if "t - t0 \<le> 30000" using that assms(1)
      by (simp add: over_since_def relay_inv_view) (simp add: isFullyInitialized_def isCyclicMode_def isOn_def pinOnValue_def)
    have p: "poll (t, current) r =
        (if above_limit current ?r \<or> 30000 < t - t0 then turnOff t 0 (?r\<lparr>channel := setRelayOvercurrentCutOff True (channel ?r)\<rparr>) else ?r)"
      using True assms(1-4) by (simp add: e check_overcurrent_def Let_def over_since_def word_gt_0)
    have "t - t0 \<le> 30500" if "t - t0 \<le> 30000" using that by (rule order_trans) simp
    then show ?thesis unfolding p using c o assms(2) by auto
  next
    case False
    then have "poll (t, current) r = r" using assms(1-3) by (simp add: e check_overcurrent_def over_since_def word_gt_0)
    moreover have "t - t0 \<le> 30500"
    proof -
      have "a + b \<le> 30500" if "a \<le> 500" "b \<le> 30000" for a b :: u32
        using that by (simp add: word_le_nat_alt unat_word_ariths)
      from this [of "t - overcurrentCheckTimestamp r" "overcurrentCheckTimestamp r - t0"] show ?thesis
        using False assms(1) by (simp add: over_since_def)
    qed
    ultimately show ?thesis using assms by simp
  qed
qed

text \<open>C8. A current at or above the threshold is cut off: when the overcurrent filter of a relay (without timer and cycle) has started at
  \<open>t0\<close> and every poll from then on measures at least the threshold, then after a poll more than 30.5 s later (at most \<open>2 ^ 31\<close> ms)
  the relay is off and reports the cut-off.\<close>

theorem overcurrent_cuts_off:
  assumes "over_since t0 r" "overcurrentThreshold r = thr" "thr \<noteq> 0" "overcurrentCheckTimestamp r = t0"
    and "sorted (map (\<lambda>(t, current). unat (t - t0)) tcs)" "\<forall>(t, current) \<in> set tcs. thr \<le> current \<and> t - t0 < 2 ^ 31"
    and "30500 < fst (last tcs) - t0" "tcs \<noteq> []"
  shows "let r' = fst (fold (relay_step this soft) (polls io_ready levels tcs) (r, bc)) in \<not> isOn r' \<and> isRelayOvercurrentCutOff (channel r')"
proof -
  have step: "relay_step this soft (t, Poll io_ready levels current) (r, bc) = (poll (t, current) r, bc)" if "isFullyInitialized r" for r t current
    using that by (simp add: iterate_initialized)
  have off: "cut_off r \<Longrightarrow> \<exists>r'. fold (relay_step this soft) (polls io_ready levels tcs) (r, bc) = (r', bc) \<and> cut_off r'" for r tcs
    using polls_initialized [of cut_off tcs r this soft io_ready levels bc] poll_cut_off unfolding polls_def
    by (auto simp: cut_off_def rests_off_def)
  have "\<exists>r'. fold (relay_step this soft) (polls io_ready levels tcs) (r, bc) = (r', bc) \<and> cut_off r'"
    if "over_since t0 r" "overcurrentThreshold r = thr" "\<forall>(t, current) \<in> set tcs. overcurrentCheckTimestamp r - t0 \<le> t - t0"
      "sorted (map (\<lambda>(t, current). unat (t - t0)) tcs)" "\<forall>(t, current) \<in> set tcs. thr \<le> current \<and> t - t0 < 2 ^ 31"
      "30500 < fst (last tcs) - t0" "tcs \<noteq> []" for tcs
    using that
  proof (induction tcs arbitrary: r)
    case (Cons tc tcs)
    obtain t current where tc: "tc = (t, current)" by (cases tc)
    have i: "isFullyInitialized r" using Cons.prems(1) by (simp add: over_since_def)
    have f: "fold (relay_step this soft) (polls io_ready levels (tc # tcs)) (r, bc) =
        fold (relay_step this soft) (polls io_ready levels tcs) (poll (t, current) r, bc)"
      using step [OF i] by (simp add: tc polls_def)
    consider "cut_off (poll (t, current) r)" | "over_since t0 (poll (t, current) r)" "overcurrentThreshold (poll (t, current) r) = thr"
        "t - t0 \<le> 30500" "overcurrentCheckTimestamp (poll (t, current) r) - t0 \<le> t - t0"
      using poll_over [OF Cons.prems(1,2) assms(3), of current t] Cons.prems(3,5) tc by auto
    then show ?case
    proof cases
      case 1
      then show ?thesis unfolding f by (rule off)
    next
      case 2
      have "tcs \<noteq> []" using 2(3) Cons.prems(6) tc by auto
      moreover have "\<forall>(t', c) \<in> set tcs. overcurrentCheckTimestamp (poll (t, current) r) - t0 \<le> t' - t0"
        using Cons.prems(4) 2(4) tc by (fastforce simp: word_le_nat_alt)
      ultimately show ?thesis unfolding f using Cons.IH [OF 2(1,2)] Cons.prems(4-6) by simp
    qed
  qed simp
  from this [OF assms(1,2) _ assms(5-8)] assms(4) show ?thesis by (auto simp: cut_off_def rests_off_def)
qed

definition filtering_relay :: Relay where
  "filtering_relay = poll (1000, 1000) (turnOn 100 0 (running_relay\<lparr>overcurrentThreshold := 1000\<rparr>))"

theorem overcurrent_cuts_off_witness:
  "let r' = fst (fold (relay_step 0 False) (polls (\<lambda>_. True) (\<lambda>_. 0) [(20000, 1000), (31501, 1100)])
      (filtering_relay, (\<lambda>_. new_Button False 0 1 False False), []))
   in \<not> isOn r' \<and> isRelayOvercurrentCutOff (channel r')"
proof -
  let ?r = "running_relay\<lparr>overcurrentThreshold := 1000\<rparr>"
  have "channel_ok ?r" "isFullyInitialized ?r" using running_ok by (simp_all add: channel_ok_def isFullyInitialized_def)
  then have on: "relay_inv (turnOn 100 0 ?r)" "isFullyInitialized (turnOn 100 0 ?r)" by (simp_all add: turnOn_spec)
  moreover have "durationMs (turnOn 100 0 ?r) = 0" by code_simp
  ultimately have "relay_inv filtering_relay" unfolding filtering_relay_def by (simp add: inv_check expire_def)
  moreover have "isFullyInitialized filtering_relay" "relay_pin filtering_relay \<ge> 0" "isOn filtering_relay" "\<not> isCyclicMode filtering_relay"
    "durationMs filtering_relay = 0" "overcurrentActiveTimestamp filtering_relay = 1000" "overcurrentCheckTimestamp filtering_relay = 1000"
    "overcurrentThreshold filtering_relay = 1000"
    by code_simp+
  ultimately have o: "over_since 1000 filtering_relay" "overcurrentThreshold filtering_relay = 1000" "overcurrentCheckTimestamp filtering_relay = 1000"
    by (simp_all add: over_since_def)
  show ?thesis by (rule overcurrent_cuts_off [OF o(1,2) _ o(3)]) simp_all
qed

section \<open>Restarts\<close>

text \<open>The functions without a stored duration.\<close>

definition plain_function :: "Relay \<Rightarrow> bool" where
  "plain_function r \<longleftrightarrow> \<not> isStaircase (getDefaultFunction (channel r)) \<and> \<not> isImpulse (getDefaultFunction (channel r))"

text \<open>The time until the timer of a relay ends, 0 without timer.\<close>

definition remaining :: "u32 \<Rightarrow> Relay \<Rightarrow> u32" where
  "remaining now r = (if durationMs r \<noteq> 0 \<and> durationTimestamp r \<noteq> 0 \<and> now - durationTimestamp r < durationMs r
     then durationMs r - (now - durationTimestamp r) else 0)"

lemma flags_bits:
  "((if a then 8 else 0) OR (if b then 1 else 0)) AND (1 :: u8) \<noteq> 0 \<longleftrightarrow> b"
  "((if a then 8 else 0) OR (if b then 1 else 0)) AND (2 :: u8) = 0"
  "((if a then 8 else 0) OR (if b then 1 else 0)) AND (4 :: u8) = 0"
  "((if a then 8 else 0) OR (if b then 1 else 0)) AND (8 :: u8) \<noteq> 0 \<longleftrightarrow> a"
  by (cases a; cases b; simp)+

lemma saved_plain:
  assumes "plain_function r" "isCountdownTimerFunctionEnabled r" "stateOnInit r < 0"
  shows "relay_onSaveState now r = (remaining now r, (if isRelayOvercurrentCutOff (channel r) then 8 else 0) OR (if isOn r then 1 else 0))"
  using assms by (simp add: relay_onSaveState_def Let_def plain_function_def isStaircaseFunction_def isImpulseFunction_def remaining_def chan_consts)

lemma function_cut_off [simp]: "getDefaultFunction (setRelayOvercurrentCutOff b c) = getDefaultFunction c"
  by (simp add: setRelayOvercurrentCutOff_def getDefaultFunction_def setSendValue_def)

text \<open>Loading the state of a relay with such a function, when no cycle is set.\<close>

lemma loaded_plain:
  assumes "plain_function r0" "turnOffDurationForCycle r0 = 0" "stateOnInit r0 < 0"
    and bits: "fl AND RELAY_FLAGS_ON \<noteq> 0 \<longleftrightarrow> b" "fl AND RELAY_FLAGS_STAIRCASE = 0" "fl AND RELAY_FLAGS_IMPULSE_FUNCTION = 0"
      "fl AND RELAY_FLAGS_OVERCURRENT \<noteq> 0 \<longleftrightarrow> a"
    and r: "r = r0\<lparr>storedTurnOnDurationMs := 0, durationMs := d, stateOnInit := (if b then STATE_ON_INIT_RESTORED_ON else STATE_ON_INIT_RESTORED_OFF)\<rparr>"
  shows "relay_onLoadState now (d, fl) r0 = (if a then r\<lparr>channel := setRelayOvercurrentCutOff True (channel r0)\<rparr> else r)"
proof -
  have neg: "STATE_ON_INIT_RESTORED_ON < 0" "STATE_ON_INIT_RESTORED_OFF < 0" by (simp_all add: chan_consts)
  let ?r = "r0\<lparr>storedTurnOnDurationMs := d, stateOnInit := (if b then STATE_ON_INIT_RESTORED_ON else STATE_ON_INIT_RESTORED_OFF)\<rparr>"
  have i: "load_initial_state fl (r0\<lparr>storedTurnOnDurationMs := d\<rparr>) = ?r"
    unfolding load_initial_state_def bits(1) using assms(3) by simp
  have f: "load_function now fl r' = r'" for r' using bits(2,3) by (simp add: load_function_def)
  have c: "load_cut_off fl ?r = (if a then ?r\<lparr>channel := setRelayOvercurrentCutOff True (channel r0)\<rparr> else ?r)"
    unfolding load_cut_off_def bits(4) by simp
  have t: "load_timer r' = r'\<lparr>storedTurnOnDurationMs := 0, durationMs := storedTurnOnDurationMs r'\<rparr>"
    if "plain_function r'" "turnOffDurationForCycle r' = 0" "stateOnInit r' < 0" for r'
    using that by (simp add: load_timer_def Let_def plain_function_def isStaircaseFunction_def isImpulseFunction_def isCyclicMode_def)
  have "relay_onLoadState now (d, fl) r0 = load_timer (load_cut_off fl ?r)"
    using assms(2) i f by (simp add: relay_onLoadState_def Let_def isCyclicMode_def)
  also have "\<dots> = (if a then r\<lparr>channel := setRelayOvercurrentCutOff True (channel r0)\<rparr> else r)"
    unfolding c using t [of ?r] t [of "?r\<lparr>channel := setRelayOvercurrentCutOff True (channel r0)\<rparr>"] assms(1,2) neg
    by (simp add: r plain_function_def)
  finally show ?thesis .
qed

lemma function_bool [simp]: "getDefaultFunction (setNewValue_bool b c) = getDefaultFunction c"
  by (auto simp: setNewValue_bool_def setNewValue_raw_def getDefaultFunction_def setSendValue_def run_action_def Let_def)

lemma apply_keeps [simp]: "keeps_duration (applyDuration now d b r) = keeps_duration r"
  by (simp add: applyDuration_def Let_def keeps_duration_def isStaircaseFunction_def isImpulseFunction_def)

lemma turn_keeps:
  "isFullyInitialized r \<Longrightarrow> keeps_duration (turnOn now d r) = keeps_duration r" "isFullyInitialized r \<Longrightarrow> keeps_duration (turnOff now d r) = keeps_duration r"
  using apply_keeps [of now d True r] apply_keeps [of now d False r]
  by (simp_all add: keeps_duration_def isStaircaseFunction_def isImpulseFunction_def turnOn_def turnOff_def Let_def schedule_save_def
      setNewChannelValue_def digitalWrite_def)

text \<open>Switching a relay without stored durations sets its timer.\<close>

definition switchable :: "Relay \<Rightarrow> bool" where
  "switchable r \<longleftrightarrow> channel_ok r \<and> isFullyInitialized r \<and> relay_pin r \<ge> 0 \<and> turnOffDurationForCycle r = 0 \<and> \<not> keeps_duration r"

lemma switch_switchable:
  assumes "switchable r"
  shows "switchable (switch now b d r)" "isOn (switch now b d r) = b" "fits_int (relay_int16 r) d \<Longrightarrow> durationMs (switch now b d r) = d"
    "fits_int (relay_int16 r) d \<Longrightarrow> durationTimestamp (switch now b d r) = (if d \<noteq> 0 then now else 0)" "relay_inv (switch now b d r)"
    "relay_int16 (switch now b d r) = relay_int16 r"
    "isRelayOvercurrentCutOff (channel (switch now b d r)) = (\<not> b \<and> isRelayOvercurrentCutOff (channel r))"
proof -
  have s: "channel_ok r" "isFullyInitialized r" "relay_pin r \<ge> 0" "turnOffDurationForCycle r = 0" "\<not> keeps_duration r"
    using assms by (simp_all add: switchable_def)
  then have c: "\<not> isCyclicMode r" by (simp add: isCyclicMode_def)
  have o: "on_time d r = as_int (relay_int16 r) d" using s(5) by (simp add: on_time_def)
  note on = turnOn_spec [OF s(1,2), of now d] turn_fields [OF s(2), of now d] apply_on [OF s(4), of now d] turn_keeps [OF s(2), of now d]
  note off = turnOff_spec [OF s(1,2), of now d] apply_off [OF c, of now d]
  show "switchable (switch now b d r)"
    using on off s relay_inv_ok by (cases b) (simp_all add: switch_def switchable_def o)
  show "isOn (switch now b d r) = b" "fits_int (relay_int16 r) d \<Longrightarrow> durationMs (switch now b d r) = d"
    "fits_int (relay_int16 r) d \<Longrightarrow> durationTimestamp (switch now b d r) = (if d \<noteq> 0 then now else 0)" "relay_inv (switch now b d r)"
    using on off s by (cases b; simp add: switch_def o as_int_fits)+
  show "relay_int16 (switch now b d r) = relay_int16 r" by (simp add: switch_def turn_int16)
  show "isRelayOvercurrentCutOff (channel (switch now b d r)) = (\<not> b \<and> isRelayOvercurrentCutOff (channel r))"
    using on off s by (cases b) (auto simp: switch_def relay_inv_def)
qed

lemma finish_switchable:
  assumes "switchable (r\<lparr>initDone := True\<rparr>)" "fits_int (relay_int16 r) (durationMs r)"
  shows "switchable (finish_init now soft b r)" "isOn (finish_init now soft b r) = b" "durationMs (finish_init now soft b r) = durationMs r"
    "durationTimestamp (finish_init now soft b r) = (if durationMs r \<noteq> 0 then now else 0)"
    "isRelayOvercurrentCutOff (channel (finish_init now soft b r)) = (\<not> b \<and> isRelayOvercurrentCutOff (channel r))"
proof -
  have "\<not> skipInitialStateSetting r" using assms by (simp add: switchable_def isFullyInitialized_def)
  then obtain r1 where r1: "switchable r1" "finish_init now soft b r = switch now b (durationMs r) r1" "relay_int16 r1 = relay_int16 r"
      "(\<not> b \<and> isRelayOvercurrentCutOff (channel r1)) = (\<not> b \<and> isRelayOvercurrentCutOff (channel r))"
    using assms(1) switch_switchable [OF assms(1), where now = now and b = b and d = "durationMs r"] by (cases soft) (auto simp: finish_init_def Let_def)
  show "switchable (finish_init now soft b r)" "isOn (finish_init now soft b r) = b" "durationMs (finish_init now soft b r) = durationMs r"
    "durationTimestamp (finish_init now soft b r) = (if durationMs r \<noteq> 0 then now else 0)"
    "isRelayOvercurrentCutOff (channel (finish_init now soft b r)) = (\<not> b \<and> isRelayOvercurrentCutOff (channel r))"
    unfolding r1(2) using switch_switchable [OF r1(1), where now = now and b = b and d = "durationMs r"] r1(3,4) assms(2) by simp_all
qed

text \<open>C10. A relay that restores its state continues after a restart.  When the state of a relay with a function without stored duration, with the
  countdown timer enabled and in the mode that restores the state is saved, and a new relay of the same kind without buttons and not in cyclic mode
  loads it and is initialised, then the new output is on exactly when the old one was, a cut-off is still reported, and a timer
  that was running goes on with the time that was left, if an \<open>int\<close> of the build holds it.\<close>

theorem relay_survives_restart:
  assumes "relay_inv r" "isFullyInitialized r" "relay_pin r \<ge> 0" "plain_function r" "isCountdownTimerFunctionEnabled r" "stateOnInit r < 0"
    and "unstarted r0" "plain_function r0" "\<not> keepTurnOnDurationMs r0" "turnOffDurationForCycle r0 = 0" "stateOnInit r0 < 0" "relay_pin r0 \<ge> 0"
      "buttonList r0 = []" "\<not> skipInitialStateSetting r0" "\<not> isRelayOvercurrentCutOff (channel r0)"
      "fits_int (relay_int16 r0) (remaining now r)"
    and r': "r' = fst (relay_onInit this t soft io_ready levels (relay_onLoadState t' (relay_onSaveState now r) r0, bs, cs))"
  shows "isFullyInitialized r' \<and> isOn r' = isOn r \<and> isRelayOvercurrentCutOff (channel r') = isRelayOvercurrentCutOff (channel r) \<and>
    durationMs r' = remaining now r \<and> durationTimestamp r' = (if remaining now r \<noteq> 0 then t else 0)"
proof -
  let ?a = "isRelayOvercurrentCutOff (channel r)"
  let ?fl = "(if ?a then 8 else 0) OR (if isOn r then 1 else 0) :: u8"
  define r1 where "r1 = r0\<lparr>storedTurnOnDurationMs := 0, durationMs := remaining now r,
      stateOnInit := (if isOn r then STATE_ON_INIT_RESTORED_ON else STATE_ON_INIT_RESTORED_OFF)\<rparr>"
  define r2 where "r2 = (if ?a then r1\<lparr>channel := setRelayOvercurrentCutOff True (channel r0)\<rparr> else r1)"
  have bits: "?fl AND RELAY_FLAGS_ON \<noteq> 0 \<longleftrightarrow> isOn r" "?fl AND RELAY_FLAGS_STAIRCASE = 0" "?fl AND RELAY_FLAGS_IMPULSE_FUNCTION = 0"
    "?fl AND RELAY_FLAGS_OVERCURRENT \<noteq> 0 \<longleftrightarrow> ?a"
    unfolding RELAY_FLAGS_ON_def RELAY_FLAGS_STAIRCASE_def RELAY_FLAGS_IMPULSE_FUNCTION_def RELAY_FLAGS_OVERCURRENT_def
    by (rule flags_bits)+
  have load: "relay_onLoadState t' (relay_onSaveState now r) r0 = r2"
    unfolding saved_plain [OF assms(4-6)] loaded_plain [OF assms(8,10,11) bits r1_def] r2_def ..
  have cut: "isRelayOvercurrentCutOff (channel r2) = ?a" "channel_ok r2"
    using assms(7,15) cut_off_set [of "channel r0" True] by (auto simp: r2_def r1_def unstarted_def channel_ok_def)
  have sw: "switchable (r2\<lparr>initDone := True\<rparr>)"
    using assms(8-14) cut(2)
    by (simp add: switchable_def channel_ok_def isFullyInitialized_def keeps_duration_def isStaircaseFunction_def isImpulseFunction_def plain_function_def r2_def r1_def)
  have st: "stateOnInit r2 = STATE_ON_INIT_ON \<or> stateOnInit r2 = STATE_ON_INIT_RESTORED_ON \<longleftrightarrow> isOn r"
    by (simp add: r2_def r1_def chan_consts)
  have skip: "r2\<lparr>skipInitialStateSetting := False\<rparr> = r2" "buttonList r2 = []" "\<not> skipInitialStateSetting r2" "durationMs r2 = remaining now r"
    using assms(13,14) by (simp_all add: r2_def r1_def)
  have "r' = finish_init t soft (isOn r) r2"
    unfolding r' load relay_onInit_def prod.case Let_def st using skip(2,3) by (simp add: skip(1) del: Relay.update_convs)
  moreover have "?a \<Longrightarrow> \<not> isOn r" using assms(1-3) by (auto simp: relay_inv_def)
  moreover have "fits_int (relay_int16 r2) (durationMs r2)" using assms(16) skip(4) by (simp add: r2_def r1_def)
  ultimately show ?thesis
    using finish_switchable [OF sw, where now = t and soft = soft and b = "isOn r"] cut(1) skip(4) by (auto simp: switchable_def)
qed

theorem relay_survives_restart_witness:
  "let r' = fst (relay_onInit 0 7 False (\<lambda>_. True) (\<lambda>_. 0) (relay_onLoadState 5
      (relay_onSaveState 2100 (turnOn 100 5000 (setDefaultStateRestore running_relay))) (setDefaultStateRestore sample_relay), (\<lambda>_. new_Button False 0 1 False False), []))
   in isOn r' \<and> durationMs r' = 3000 \<and> durationTimestamp r' = 7"
proof -
  let ?old = "turnOn 100 5000 (setDefaultStateRestore running_relay)"
  let ?nw = "setDefaultStateRestore sample_relay"
  have "channel_ok (setDefaultStateRestore running_relay)" "isFullyInitialized (setDefaultStateRestore running_relay)"
    using running_ok(1,2) by (simp_all add: channel_ok_def isFullyInitialized_def setDefaultStateRestore_def)
  then have r: "relay_inv ?old" "isFullyInitialized ?old" by (simp_all add: turnOn_spec)
  have f: "unstarted ?nw" using unstarted_sample by (simp add: unstarted_def channel_ok_def setDefaultStateRestore_def)
  have s: "relay_pin ?old \<ge> 0" "plain_function ?old" "isCountdownTimerFunctionEnabled ?old" "stateOnInit ?old < 0" "isOn ?old" "remaining 2100 ?old = 3000"
    by code_simp+
  have s0: "plain_function ?nw" "\<not> keepTurnOnDurationMs ?nw" "turnOffDurationForCycle ?nw = 0" "stateOnInit ?nw < 0" "relay_pin ?nw \<ge> 0"
    "buttonList ?nw = []" "\<not> skipInitialStateSetting ?nw" "\<not> isRelayOvercurrentCutOff (channel ?nw)"
    by code_simp+
  have fit: "fits_int (relay_int16 ?nw) (remaining 2100 ?old)"
    by (simp add: fits_int_def setDefaultStateRestore_def sample_relay_def new_Relay_def)
  show ?thesis
    using relay_survives_restart [OF r s(1-4) f s0 fit refl, where this = 0 and t = 7 and soft = False and io_ready = "\<lambda>_. True" and
        levels = "\<lambda>_. 0" and t' = 5 and bs = "\<lambda>_. new_Button False 0 1 False False" and cs = "[]"] s(5,6)
    by (simp add: Let_def)
qed



section \<open>A button and a relay\<close>

text \<open>The calls of \<open>handleAction\<close> that reach the relay.\<close>

definition deliver :: "nat \<Rightarrow> u32 \<Rightarrow> (nat \<times> u16 \<times> u16) list \<Rightarrow> Relay \<Rightarrow> Relay" where
  "deliver this now = fold (\<lambda>(h, event, a) r. if h = this then relay_handleAction now (uint a) r else r)"

lemma runAction_app: "runAction i e (cs @ ds) = runAction i e cs @ runAction i e ds"
  by (induction cs) (auto split: option.split)

lemma runAction_handlers: "(h, x) \<in> set (runAction i e cs) \<Longrightarrow> \<exists>p \<in> set cs. client p = Some h"
  by (induction cs) (auto split: option.splits if_splits)

lemma deliver_others: "\<forall>(h, x) \<in> set calls. h \<noteq> this \<Longrightarrow> deliver this now calls r = r"
  unfolding deliver_def by (induction calls) auto

lemma deliver_app: "deliver this now (xs @ ys) r = deliver this now ys (deliver this now xs r)"
  by (simp add: deliver_def)

lemma init_connects:
  assumes "isMonostable (bs i)"
  shows "snd (snd (init_button this io_ready levels i (s, bs, cs))) =
    cs @ [new_client\<lparr>trigger := i, client := Some this, onEvent := CONDITIONAL_ON_PRESS, act := of_int TOGGLE\<rparr>]"
proof -
  have "isMonostable (onInit (levels i) (bs i))" using assms by (simp add: isMonostable_def onInit_def)
  then show ?thesis by (cases s) (simp add: init_button_def Let_def button_addAction_def addAction_def split: prod.split)
qed

lemma press_events:
  assumes "snd (update now level (btn_state b)) = TO_PRESSED" "\<not> disabled b" "clickCounter b \<le> 1" "holdSend b = 0"
  shows "snd (onTimer now True level b) = [ON_PRESS, ON_CHANGE, CONDITIONAL_ON_PRESS, CONDITIONAL_ON_CHANGE]"
proof -
  obtain st where "update now level (btn_state b) = (st, TO_PRESSED)" using assms(1) by (metis prod.collapse)
  then show ?thesis using assms(2-4) by (simp add: onTimer_def react_def edge_events_def Let_def)
qed

lemma toggle_flips:
  assumes "channel_ok r" "isFullyInitialized r" "relay_pin r \<ge> 0"
  shows "isOn (relay_toggle now d r) = (\<not> isOn r)"
  using turnOn_spec [OF assms(1,2)] turnOff_spec [OF assms(1,2)] assms(3) by (simp add: relay_toggle_def)

text \<open>C6. A press of a button switches its relay.  When a relay with one attached monostable button is initialised, among other connections of
  which none leads to it, then whenever the enabled button later detects a press that is neither part of a series of clicks (\<open>clickCounter\<close> is at
  most 1) nor follows holding, the events that it raises reach the relay as one action.  The output of an initialised relay with a pin then
  changes; only a staircase timer or an impulse that restarts its timer on toggle is on afterwards in any case.\<close>

theorem button_press_toggles_relay:
  assumes "unstarted r0" "\<not> skipInitialStateSetting r0" "buttonList r0 = [i]" "isMonostable (bs i)" "\<forall>p \<in> set cs. client p \<noteq> Some this"
    and "relay_onInit this t soft io_ready levels (r0, bs, cs) = (r1, bs1, cs1)"
    and "channel_ok r" "isFullyInitialized r" "relay_pin r \<ge> 0"
    and "snd (update now level (btn_state b)) = TO_PRESSED" "\<not> disabled b" "clickCounter b \<le> 1" "holdSend b = 0"
  shows "isOn (deliver this now (concat (map (\<lambda>e. runAction i e cs1) (snd (onTimer now True level b)))) r) =
    (if restartTimerOnToggle r \<and> (isStaircaseFunction 0 r \<or> isImpulseFunction 0 r) then True else \<not> isOn r)"
proof -
  let ?p = "new_client\<lparr>trigger := i, client := Some this, onEvent := CONDITIONAL_ON_PRESS, act := of_int TOGGLE\<rparr>"
  have cs1: "cs1 = cs @ [?p]"
    using assms(6) init_connects [where bs = bs and i = i, OF assms(4), of this io_ready levels "(stateOnInit r0 = STATE_ON_INIT_ON \<or> stateOnInit r0 = STATE_ON_INIT_RESTORED_ON, False)" cs] assms(2,3)
    by (simp add: relay_onInit_def Let_def case_prod_unfold)
  have others: "deliver this now (runAction i e cs) r' = r'" for e r'
    using assms(5) runAction_handlers by (intro deliver_others) fastforce
  have e: "deliver this now (runAction i e cs1) r' = (if e = CONDITIONAL_ON_PRESS then relay_handleAction now TOGGLE r' else r')" for e r'
    by (simp add: cs1 runAction_app deliver_app others) (simp add: deliver_def new_client_def isEnabled_def TOGGLE_def)
  have "deliver this now (concat (map (\<lambda>e. runAction i e cs1) (snd (onTimer now True level b)))) r = relay_handleAction now TOGGLE r"
    unfolding press_events [OF assms(10-13)] by (simp add: deliver_app e) (simp add: deliver_def chan_consts)
  also have "\<dots> = (if restartTimerOnToggle r \<and> (isStaircaseFunction 0 r \<or> isImpulseFunction 0 r) then turnOn now 0 r else relay_toggle now 0 r)"
    by (simp add: relay_handleAction_def Let_def chan_consts)
  finally show ?thesis using toggle_flips [OF assms(7-9)] turnOn_spec(4) [OF assms(7,8,9)] by auto
qed

theorem button_press_toggles_relay_witness:
  "isOn (deliver 9 230 (concat (map (\<lambda>e. runAction 4 e (snd (snd (relay_onInit 9 1 False (\<lambda>_. True) (\<lambda>_. 0)
      (attach 4 sample_relay, (\<lambda>_. new_Button False 0 1 False False), [])))))
      (snd (onTimer 230 True 1 (fst (onTimer 200 True 1 (onInit 0 (new_Button False 0 1 False False)))))))) running_relay)"
proof -
  let ?b = "fst (onTimer 200 True 1 (onInit 0 (new_Button False 0 1 False False)))"
  have f: "unstarted (attach 4 sample_relay)" using unstarted_sample by (simp add: unstarted_def channel_ok_def attach_def)
  have s: "\<not> skipInitialStateSetting (attach 4 sample_relay)" "buttonList (attach 4 sample_relay) = [4]" "isMonostable (new_Button False 0 1 False False)"
    "\<not> restartTimerOnToggle running_relay" "\<not> isOn running_relay"
    by code_simp+
  have b: "snd (update 230 1 (btn_state ?b)) = TO_PRESSED" "\<not> disabled ?b" "clickCounter ?b \<le> 1" "holdSend ?b = 0"
    by code_simp+
  obtain r1 bs1 cs1 where i: "relay_onInit 9 1 False (\<lambda>_. True) (\<lambda>_. 0) (attach 4 sample_relay, (\<lambda>_. new_Button False 0 1 False False), []) = (r1, bs1, cs1)"
    by (metis prod_cases3)
  show ?thesis
    using button_press_toggles_relay [OF f s(1,2) _ _ i running_ok(1,2) _ b] s(3-5) running_ok(3) unfolding i by simp
qed

section \<open>The configuration of relays\<close>

lemma u32_at_first [simp]: "u32_at 0 (u32_bytes a @ bs) = a" "u32_at 0 (u32_bytes a) = a"
  by (simp_all add: u32_at_def seg_def)

lemma u32_at_second [simp]: "u32_at 4 (u32_bytes a @ u32_bytes b @ bs) = b"
  by (simp add: u32_at_def seg_def)

text \<open>Relays that can exchange their configurations: their functions and the settings that the server must not change agree; the first has
  a threshold within its limit, and a duration if it is a staircase timer.\<close>

definition same_relay_kind :: "Relay \<Rightarrow> Relay \<Rightarrow> bool" where
  "same_relay_kind r r' \<longleftrightarrow> getDefaultFunction (channel r') = getDefaultFunction (channel r) \<and>
     overcurrentMaxAllowed r' = overcurrentMaxAllowed r \<and> defaultRelatedMeterChannelNo r' = defaultRelatedMeterChannelNo r \<and>
     - 1 \<le> defaultRelatedMeterChannelNo r \<and> defaultRelatedMeterChannelNo r \<le> 255 \<and>
     overcurrentThreshold r \<le> overcurrentMaxAllowed r \<and> (isStaircase (getDefaultFunction (channel r)) \<longrightarrow> storedTurnOnDurationMs r \<noteq> 0)"

definition config_view :: "Relay \<Rightarrow> u32 \<times> u32 \<times> u32 \<times> u32 \<times> int" where
  "config_view r = (getDefaultFunction (channel r), storedTurnOnDurationMs r, overcurrentThreshold r, overcurrentMaxAllowed r, defaultRelatedMeterChannelNo r)"

lemma fill_power:
  assumes "power_switch_config (getDefaultFunction (channel r)) t"
  shows "relay_fillChannelConfig t r = u32_bytes (overcurrentThreshold r) @ u32_bytes (overcurrentMaxAllowed r) @
    (if 0 \<le> defaultRelatedMeterChannelNo r \<and> defaultRelatedMeterChannelNo r \<le> 255
     then [1, of_int (defaultRelatedMeterChannelNo r)] else [0, 0]) @ replicate 32 0"
  using assms by (auto simp: relay_fillChannelConfig_def Let_def power_switch_config_def isImpulse_def chan_consts)

lemma fill_staircase:
  assumes "\<not> power_switch_config (getDefaultFunction (channel r)) t"
  shows "relay_fillChannelConfig t r =
    (if getDefaultFunction (channel r) = SUPLA_CHANNELFNC_STAIRCASETIMER \<and> t = SUPLA_CONFIG_TYPE_DEFAULT then u32_bytes (storedTurnOnDurationMs r) else [])"
  using assms by (auto simp: relay_fillChannelConfig_def Let_def isImpulse_def chan_consts)

lemma config_view_threshold:
  "v \<le> overcurrentMaxAllowed r \<Longrightarrow>
    config_view (setOvercurrentThreshold now v r) = (getDefaultFunction (channel r), storedTurnOnDurationMs r, v, overcurrentMaxAllowed r, defaultRelatedMeterChannelNo r)"
  by (auto simp: setOvercurrentThreshold_def relay_saveConfig_def with_config_def saveConfigChangeFlag_def triggerSetChannelConfig_def config_view_def Let_def
      split: option.split)

lemma power_config_length:
  "length (u32_bytes a @ u32_bytes b @ (if m then [1, c] else [0, 0]) @ replicate 32 0) = sizeof_PowerSwitch"
  by (simp add: chan_consts)

lemma relay_apply_filled:
  assumes k: "same_relay_kind r r'" and f: "relay_fillChannelConfig t r \<noteq> []"
    and a: "relay_applyChannelConfig now (getDefaultFunction (channel r)) t (relay_fillChannelConfig t r) l r' = (r'', res)"
  shows "res = Success \<and> relay_fillChannelConfig t r'' = relay_fillChannelConfig t r"
proof -
  let ?func = "getDefaultFunction (channel r)"
  let ?r = "updateRelayHvacAggregator r'"
  have g: "config_view ?r = config_view r'" "getDefaultFunction (channel ?r) = ?func" "overcurrentMaxAllowed ?r = overcurrentMaxAllowed r"
    "defaultRelatedMeterChannelNo ?r = defaultRelatedMeterChannelNo r"
    using k by (simp_all add: config_view_def updateRelayHvacAggregator_def same_relay_kind_def)
  show ?thesis
  proof (cases "power_switch_config ?func t")
    case True
    let ?m = "0 \<le> defaultRelatedMeterChannelNo r \<and> defaultRelatedMeterChannelNo r \<le> 255"
    let ?c = "u32_bytes (overcurrentThreshold r) @ u32_bytes (overcurrentMaxAllowed r) @
      (if ?m then [1, of_int (defaultRelatedMeterChannelNo r)] else [0, 0]) @ replicate 32 0"
    have c: "relay_fillChannelConfig t r = ?c" using fill_power [OF True] .
    have "\<not> readonly_violation ?c ?r"
      using k g(3,4) by (auto simp: readonly_violation_def same_relay_kind_def nth_append uint_word_of_int)
    moreover have "?c \<noteq> []" by (metis f c)
    ultimately have "res = Success" "r'' = ?r \<and> overcurrentThreshold ?r = overcurrentThreshold r \<or>
        r'' = (setOvercurrentThreshold now (overcurrentThreshold r) ?r)\<lparr>overcurrentActiveTimestamp := 0\<rparr>"
      using a True power_config_length by (auto simp: relay_applyChannelConfig_def c Let_def split: if_splits)
    moreover have "config_view (setOvercurrentThreshold now (overcurrentThreshold r) ?r) =
        (?func, storedTurnOnDurationMs ?r, overcurrentThreshold r, overcurrentMaxAllowed r, defaultRelatedMeterChannelNo r)"
      using config_view_threshold [of "overcurrentThreshold r" ?r now] k g by (simp add: same_relay_kind_def)
    ultimately have r'': "res = Success" "getDefaultFunction (channel r'') = ?func" "overcurrentThreshold r'' = overcurrentThreshold r"
      "overcurrentMaxAllowed r'' = overcurrentMaxAllowed r" "defaultRelatedMeterChannelNo r'' = defaultRelatedMeterChannelNo r"
      using g by (auto simp: config_view_def)
    then show ?thesis using fill_power [of r'' t] True c by simp
  next
    case False
    then have st: "?func = SUPLA_CHANNELFNC_STAIRCASETIMER" "t = SUPLA_CONFIG_TYPE_DEFAULT" "relay_fillChannelConfig t r = u32_bytes (storedTurnOnDurationMs r)"
      using f fill_staircase [OF False] by (auto split: if_splits)
    have "u32_bytes (storedTurnOnDurationMs r) \<noteq> []" using f st(3) by simp
    moreover have "storedTurnOnDurationMs r \<noteq> 0" using k st(1) by (simp add: same_relay_kind_def isStaircase_def)
    ultimately have "res = Success \<and> getDefaultFunction (channel r'') = ?func \<and> storedTurnOnDurationMs r'' = storedTurnOnDurationMs r"
      using a g(2) False unfolding st(3) relay_applyChannelConfig_def Let_def
      by (auto simp: st(1,2) sizeof_StaircaseTimer_def schedule_save_def split: if_splits)
    then show ?thesis using fill_staircase [of r'' t] False st by simp
  qed
qed

lemma relay_fill_types: "relay_fillChannelConfig t (r\<lparr>receivedConfigTypes := b\<rparr>) = relay_fillChannelConfig t r"
  by (simp add: relay_fillChannelConfig_def Let_def)

lemma relay_same_function: "same_relay_kind r r' \<Longrightarrow> getDefaultFunction (channel r') = getDefaultFunction (channel r)"
  by (simp add: same_relay_kind_def)

interpretation relay_class: element_class relay_vt same_relay_kind
  by (unfold_locales, unfold relay_vt_def element_vt.simps)
    (erule relay_same_function, rule relay_fill_types, erule (2) relay_apply_filled)

text \<open>C11. The configuration of a relay can be moved to another relay of the same kind: the server's copy of what one relay reported (the duration of
  a staircase timer, the overcurrent settings of a switch) is accepted by the other, which then reports the same configuration, and the type counts as
  exchanged.\<close>

theorem relay_config_travels:
  assumes "same_relay_kind r r'" "relay_fillChannelConfig t r \<noteq> []" "getDefaultFunction (channel r) \<noteq> 0" "types_isSet t (usedConfigTypes r')"
    and "channelConfigState r' \<noteq> LocalChangePending"
    and "handleChannelConfig relay_vt now (getDefaultFunction (channel r)) t (relay_fillChannelConfig t r) False r' = (r'', res)"
  shows "res = SUPLA_CONFIG_RESULT_TRUE \<and> relay_fillChannelConfig t r'' = relay_fillChannelConfig t r \<and> types_isSet t (receivedConfigTypes r'')"
proof -
  have v: "v_fillChannelConfig relay_vt = relay_fillChannelConfig" by (simp add: relay_vt_def)
  show ?thesis using relay_class.config_travels [OF assms(1), unfolded v, OF assms(2-6)] .
qed

theorem relay_config_travels_witness:
  "\<exists>r'' res. handleChannelConfig relay_vt 50 130 SUPLA_CONFIG_TYPE_DEFAULT
      (relay_fillChannelConfig SUPLA_CONFIG_TYPE_DEFAULT (sample_relay\<lparr>overcurrentMaxAllowed := 1600, overcurrentThreshold := 1000\<rparr>)) False
      (setOvercurrentMaxAllowed 1600 sample_relay) = (r'', res) \<and> res = SUPLA_CONFIG_RESULT_TRUE \<and>
    relay_fillChannelConfig SUPLA_CONFIG_TYPE_DEFAULT r'' =
      relay_fillChannelConfig SUPLA_CONFIG_TYPE_DEFAULT (sample_relay\<lparr>overcurrentMaxAllowed := 1600, overcurrentThreshold := 1000\<rparr>)"
proof -
  let ?old = "sample_relay\<lparr>overcurrentMaxAllowed := 1600, overcurrentThreshold := 1000\<rparr>"
  let ?nw = "setOvercurrentMaxAllowed 1600 sample_relay"
  have s: "same_relay_kind ?old ?nw" "relay_fillChannelConfig SUPLA_CONFIG_TYPE_DEFAULT ?old \<noteq> []" "getDefaultFunction (channel ?old) \<noteq> 0"
    "types_isSet SUPLA_CONFIG_TYPE_DEFAULT (usedConfigTypes ?nw)" "channelConfigState ?nw \<noteq> LocalChangePending" "getDefaultFunction (channel ?old) = 130"
    by code_simp+
  obtain r'' res where h: "handleChannelConfig relay_vt 50 130 SUPLA_CONFIG_TYPE_DEFAULT (relay_fillChannelConfig SUPLA_CONFIG_TYPE_DEFAULT ?old) False ?nw = (r'', res)"
    by fastforce
  show ?thesis using relay_config_travels [OF s(1-5), unfolded s(6), OF h] h by blast
qed

text \<open>C39. A threshold above the limit is cut down, but the server is not told: when the server sends a configuration whose threshold exceeds the
  limit of the relay (all other settings being right), the relay stores the limit, accepts the configuration, marks it as exchanged,
  and the next poll of the exchange finds nothing to send and ends it.\<close>

theorem clamped_threshold_not_reported:
  assumes "getDefaultFunction (channel r) = SUPLA_CHANNELFNC_POWERSWITCH" "usedConfigTypes r = 2" "receivedConfigTypes r = 3" "channelConfigState r = CfgNone"
    and "defaultRelatedMeterChannelNo r = - 1" "overcurrentMaxAllowed r < v" "overcurrentThreshold r < overcurrentMaxAllowed r"
    and "handleChannelConfig relay_vt now SUPLA_CHANNELFNC_POWERSWITCH SUPLA_CONFIG_TYPE_DEFAULT
      (u32_bytes v @ u32_bytes (overcurrentMaxAllowed r) @ [0, 0] @ replicate 32 0) False r = (r', res)"
    and "iterateConfigExchange relay_vt now' protos r' = (r'', ret, call)"
  shows "res = SUPLA_CONFIG_RESULT_TRUE \<and> overcurrentThreshold r' = overcurrentMaxAllowed r \<and> call = None \<and> channelConfigState r'' = CfgNone \<and>
    overcurrentThreshold r'' = overcurrentMaxAllowed r"
proof -
  let ?c = "u32_bytes v @ u32_bytes (overcurrentMaxAllowed r) @ [0, 0] @ replicate 32 0"
  let ?r = "updateRelayHvacAggregator r"
  have g: "getDefaultFunction (channel ?r) = SUPLA_CHANNELFNC_POWERSWITCH" "usedConfigTypes ?r = 2" "receivedConfigTypes ?r = 3"
    "channelConfigState ?r = CfgNone" "overcurrentMaxAllowed ?r = overcurrentMaxAllowed r" "overcurrentThreshold ?r = overcurrentThreshold r"
    "defaultRelatedMeterChannelNo ?r = - 1"
    using assms(1-5) by (simp_all add: updateRelayHvacAggregator_def)
  define r1 where "r1 = setOvercurrentThreshold now v ?r"
  have r1: "getDefaultFunction (channel r1) = SUPLA_CHANNELFNC_POWERSWITCH" "usedConfigTypes r1 = 2" "receivedConfigTypes r1 = types_clear SUPLA_CONFIG_TYPE_DEFAULT 3"
    "channelConfigState r1 = ResendConfig" "overcurrentThreshold r1 = overcurrentMaxAllowed r"
    using g assms(6) less_imp_neq [OF assms(7)]
    by (simp_all add: r1_def setOvercurrentThreshold_def relay_saveConfig_def with_config_def saveConfigChangeFlag_def triggerSetChannelConfig_def Let_def
        isStaircaseFunction_def isStaircase_def chan_consts split: option.split)
  have ne: "?c \<noteq> []" "length ?c = sizeof_PowerSwitch" using length_u32_bytes [of v] by (auto simp: sizeof_PowerSwitch_def)
  have viol: "\<not> readonly_violation ?c ?r" using g(5,7) by (simp add: readonly_violation_def nth_append)
  have nv: "v \<noteq> overcurrentThreshold ?r" using g(6) assms(6,7) by auto
  have thr: "u32_at 0 ?c = v" by simp
  have pw: "power_switch_config SUPLA_CHANNELFNC_POWERSWITCH SUPLA_CONFIG_TYPE_DEFAULT" by (simp add: power_switch_config_def)
  define r2 where "r2 = r1\<lparr>overcurrentActiveTimestamp := 0\<rparr>"
  have r2: "relay_applyChannelConfig now SUPLA_CHANNELFNC_POWERSWITCH SUPLA_CONFIG_TYPE_DEFAULT ?c False r = (r2, Success)"
    unfolding relay_applyChannelConfig_def Let_def thr using ne viol pw nv by (simp add: r1_def r2_def)
  have t3: "types_set SUPLA_CONFIG_TYPE_DEFAULT True (types_clear SUPLA_CONFIG_TYPE_DEFAULT 3) = 3" "types_isSet SUPLA_CONFIG_TYPE_DEFAULT 2"
    "isConfigFinishedReceived 3" "\<not> types_differ 3 2" "SUPLA_CHANNELFNC_POWERSWITCH \<noteq> 0"
    by code_simp+
  have "r' = r2\<lparr>receivedConfigTypes := 3\<rparr>" "res = SUPLA_CONFIG_RESULT_TRUE"
    using assms(8) r2 r2_def r1 t3(1,2,5) assms(1,2,4) by (simp_all add: handleChannelConfig_def Let_def relay_vt_def)
  moreover from this have "r'' = clearChannelConfigChangedFlag now' r'" "call = None"
    using assms(9) r2_def r1 t3 by (simp_all add: iterateConfigExchange_def getNextConfigType_def)
  ultimately show ?thesis
    using r1 r2_def by (simp add: clearChannelConfigChangedFlag_def saveConfigChangeFlag_def with_config_def)
qed

theorem clamped_threshold_not_reported_witness:
  "\<exists>r' res r'' ret call.
     handleChannelConfig relay_vt 50 SUPLA_CHANNELFNC_POWERSWITCH SUPLA_CONFIG_TYPE_DEFAULT
       (u32_bytes 2000 @ u32_bytes 1600 @ [0, 0] @ replicate 32 0) False
       (sample_relay\<lparr>overcurrentMaxAllowed := 1600, receivedConfigTypes := 3\<rparr>) = (r', res) \<and>
     iterateConfigExchange relay_vt 60 [True] r' = (r'', ret, call) \<and> call = None \<and> overcurrentThreshold r'' = 1600"
proof -
  let ?r = "sample_relay\<lparr>overcurrentMaxAllowed := 1600, receivedConfigTypes := 3\<rparr>"
  have s: "getDefaultFunction (channel ?r) = SUPLA_CHANNELFNC_POWERSWITCH" "usedConfigTypes ?r = 2" "receivedConfigTypes ?r = 3"
    "channelConfigState ?r = CfgNone" "defaultRelatedMeterChannelNo ?r = - 1" "overcurrentMaxAllowed ?r < 2000"
    "overcurrentThreshold ?r < overcurrentMaxAllowed ?r" "overcurrentMaxAllowed ?r = 1600"
    by code_simp+
  obtain r' res where h: "handleChannelConfig relay_vt 50 SUPLA_CHANNELFNC_POWERSWITCH SUPLA_CONFIG_TYPE_DEFAULT
      (u32_bytes 2000 @ u32_bytes 1600 @ [0, 0] @ replicate 32 0) False ?r = (r', res)" by fastforce
  obtain r'' ret call where i: "iterateConfigExchange relay_vt 60 [True] r' = (r'', ret, call)" by (metis prod_cases3)
  show ?thesis using clamped_threshold_not_reported [OF s(1-7), unfolded s(8), OF h i] h i by blast
qed

end
