(* ===== verification/Valve.thy ===== *)
theory Valve
  imports Events Channel_Config
begin

text \<open>
  Valves: \<open>src/src/supla/control/valve_base.cpp\<close>, with the device of \<open>src/src/supla/control/virtual_valve.cpp\<close>, whose level is the member
  \<open>valveOpenState\<close>; somebody who turns the valve by hand changes that member.

  The record extends the elements of theory \<open>Channel_Config\<close> with the members of the class; the structure \<open>ValveConfig\<close> is the members
  \<open>sensorData\<close>, \<open>closeValveOnFloodType\<close> and \<open>valve_reserved\<close>.  The channels of the device, among them the flood sensors, are the
  argument \<open>cs\<close>.  The notification of the protocol layers at the end of \<open>saveConfig\<close> does not change the valve and is left out.
\<close>

unbundle bit_operations_syntax

section \<open>State\<close>

definition SUPLA_CHANNEL_FLAG_FLOOD_SENSORS_SUPPORTED :: u64 where [chan_consts]: "SUPLA_CHANNEL_FLAG_FLOOD_SENSORS_SUPPORTED = 16"
definition SUPLA_VALVE_SENSOR_MAX :: nat where [chan_consts]: "SUPLA_VALVE_SENSOR_MAX = 20"
definition SUPLA_VALVE_CLOSE_ON_FLOOD_TYPE_NONE :: u8 where [chan_consts]: "SUPLA_VALVE_CLOSE_ON_FLOOD_TYPE_NONE = 0"
definition SUPLA_VALVE_CLOSE_ON_FLOOD_TYPE_ON_CHANGE :: u8 where [chan_consts]: "SUPLA_VALVE_CLOSE_ON_FLOOD_TYPE_ON_CHANGE = 2"

record Valve = Element +
  sensorData :: bytes
  closeValveOnFloodType :: u8
  valve_reserved :: bytes
  lastSensorsCheckTimestamp :: u32
  lastUpdateTimestamp :: u32
  lastCmdTimestamp :: u32
  ignoreManuallyOpenedTimeMs :: u32
  lastOpenLevelState :: u8
  defaultCloseValveOnFloodType :: u8
  previousSensorState :: "bool list"
  valveOpenState :: u8

definition new_Valve :: "Channel \<Rightarrow> KeyValue Config option \<Rightarrow> bool \<Rightarrow> Valve" where
  "new_Valve c cfg openClose =
     \<lparr>channel =
        (let c = setFlag SUPLA_CHANNEL_FLAG_FLOOD_SENSORS_SUPPORTED (setFlag SUPLA_CHANNEL_FLAG_RUNTIME_CHANNEL_CONFIG_UPDATE c)
         in if openClose then setDefaultFunction SUPLA_CHANNELFNC_VALVE_OPENCLOSE (setType SUPLA_CHANNELTYPE_VALVE_OPENCLOSE c)
            else setDefaultFunction SUPLA_CHANNELFNC_VALVE_PERCENTAGE (setType SUPLA_CHANNELTYPE_VALVE_PERCENTAGE c)),
      channelConfigState = CfgNone, setChannelConfigAttempts = 0, usedConfigTypes = types_set SUPLA_CONFIG_TYPE_DEFAULT True 0,
      receivedConfigTypes = 0, el_config = cfg,
      sensorData = replicate SUPLA_VALVE_SENSOR_MAX 255, closeValveOnFloodType = 0, valve_reserved = replicate 31 0,
      lastSensorsCheckTimestamp = 0, lastUpdateTimestamp = 0, lastCmdTimestamp = 0, ignoreManuallyOpenedTimeMs = 30000,
      lastOpenLevelState = 0, defaultCloseValveOnFloodType = SUPLA_VALVE_CLOSE_ON_FLOOD_TYPE_NONE,
      previousSensorState = replicate SUPLA_VALVE_SENSOR_MAX False, valveOpenState = 0\<rparr>"

section \<open>Operation\<close>

text \<open>One sensor of the loop of \<open>isFloodDetected\<close>: its new previous state, and whether it detects a flood.\<close>

definition check_sensor :: "Channel list \<Rightarrow> u8 \<Rightarrow> u8 \<Rightarrow> bool \<Rightarrow> bool \<times> bool" where
  "check_sensor cs floodType sensor previous =
     (if sensor = 255 then (False, False)
      else
        case GetByChannelNumber cs (uint sensor) of
          None \<Rightarrow> (False, False)
        | Some j \<Rightarrow>
            if getChannelType (cs ! j) \<noteq> SUPLA_CHANNELTYPE_BINARYSENSOR then (False, False)
            else if floodType \<le> 1 then (getValueBool (cs ! j), getValueBool (cs ! j))
            else if floodType = 2 then
              if getValueBool (cs ! j) \<and> \<not> previous then (True, True) else (getValueBool (cs ! j), False)
            else (previous, False))"

definition isFloodDetected :: "Channel list \<Rightarrow> Valve \<Rightarrow> Valve \<times> bool" where
  "isFloodDetected cs v =
     (let rs = map2 (check_sensor cs (closeValveOnFloodType v)) (sensorData v) (previousSensorState v)
      in (v\<lparr>previousSensorState := map fst rs\<rparr>, list_ex snd rs))"

definition setValueOnDevice :: "u8 \<Rightarrow> Valve \<Rightarrow> Valve" where
  "setValueOnDevice openLevel v = v\<lparr>valveOpenState := openLevel\<rparr>"

definition getValueOpenStateFromDevice :: "Valve \<Rightarrow> u8" where
  "getValueOpenStateFromDevice v = valveOpenState v"

text \<open>\<open>closeValve\<close> is \<open>setValve(0)\<close>, which does not look at the sensors.\<close>

definition closeValve :: "u32 \<Rightarrow> Valve \<Rightarrow> Valve" where
  "closeValve now v = setValueOnDevice 0 (v\<lparr>lastCmdTimestamp := now\<rparr>)"

definition set_flooding :: "bool \<Rightarrow> Valve \<Rightarrow> Valve" where
  "set_flooding b v = v\<lparr>channel := setValveFloodingFlag b (channel v)\<rparr>"

definition setValve :: "u32 \<Rightarrow> Channel list \<Rightarrow> u8 \<Rightarrow> Valve \<Rightarrow> Valve" where
  "setValve now cs openLevel v =
     (if openLevel > 0 then
        let (v, flood) = isFloodDetected cs v
        in if flood then set_flooding True (closeValve now v)
           else setValueOnDevice openLevel ((set_flooding False v)\<lparr>lastCmdTimestamp := now\<rparr>)
      else setValueOnDevice openLevel (v\<lparr>lastCmdTimestamp := now\<rparr>))"

definition openValve :: "u32 \<Rightarrow> Channel list \<Rightarrow> Valve \<Rightarrow> Valve" where
  "openValve now cs v = setValve now cs 100 v"

definition valve_onInit :: "u32 \<Rightarrow> Valve \<Rightarrow> Valve" where
  "valve_onInit now v = v\<lparr>lastSensorsCheckTimestamp := now\<rparr>"

text \<open>The two halves of \<open>iterateAlways\<close>.\<close>

definition update_level :: "u32 \<Rightarrow> Valve \<Rightarrow> Valve" where
  "update_level now v =
     (if now - lastUpdateTimestamp v > 200 then
        let v = v\<lparr>lastUpdateTimestamp := now\<rparr>;
            currentState = getValueOpenStateFromDevice v;
            v = (if currentState \<noteq> lastOpenLevelState v \<and> (lastCmdTimestamp v = 0 \<or> now - lastCmdTimestamp v > 30000) then
                   v\<lparr>channel := setValveManuallyClosedFlag (currentState = 0) (channel v)\<rparr>
                 else v)
        in v\<lparr>lastOpenLevelState := currentState, channel := setValveOpenState currentState (channel v)\<rparr>
      else v)"

definition check_flood :: "u32 \<Rightarrow> Channel list \<Rightarrow> Valve \<Rightarrow> Valve" where
  "check_flood now cs v =
     (if now - lastSensorsCheckTimestamp v > 1000 then
        let (v, floodDetected) = isFloodDetected cs (v\<lparr>lastSensorsCheckTimestamp := now\<rparr>)
        in if (isValveOpen (channel v) \<or> \<not> isValveFloodingFlagActive (channel v)) \<and> floodDetected
           then set_flooding True (closeValve now v) else v
      else v)"

definition valve_iterateAlways :: "u32 \<Rightarrow> Channel list \<Rightarrow> Valve \<Rightarrow> Valve" where
  "valve_iterateAlways now cs v = check_flood now cs (update_level now v)"

text \<open>The first byte of the new value; the result is whether it is supported.\<close>

definition valve_handleNewValueFromServer :: "u32 \<Rightarrow> Channel list \<Rightarrow> u8 \<Rightarrow> Valve \<Rightarrow> Valve \<times> bool" where
  "valve_handleNewValueFromServer now cs value0 v =
     (if value0 = 0 then (closeValve now v, True)
      else if value0 = 1 then (openValve now cs v, True)
      else (v, False))"

definition valve_handleAction :: "u32 \<Rightarrow> Channel list \<Rightarrow> int \<Rightarrow> Valve \<Rightarrow> Valve" where
  "valve_handleAction now cs action v =
     (if action = OPEN then openValve now cs v
      else if action = CLOSE then closeValve now v
      else if action = TOGGLE then if isValveOpen (channel v) then closeValve now v else openValve now cs v
      else v)"

section \<open>Saved state\<close>

definition valve_onSaveState :: "Valve \<Rightarrow> u8 \<times> u8" where
  "valve_onSaveState v =
     (getValveOpenState (channel v),
      (if isValveFloodingFlagActive (channel v) then SUPLA_VALVE_FLAG_FLOODING else 0) OR
      (if isValveManuallyClosedFlagActive (channel v) then SUPLA_VALVE_FLAG_MANUALLY_CLOSED else 0))"

definition valve_onLoadState :: "u8 \<times> u8 \<Rightarrow> Valve \<Rightarrow> Valve" where
  "valve_onLoadState saved v =
     (let (st, flags) = saved;
          c = setValveOpenState st (channel v);
          c = (if flags AND SUPLA_VALVE_FLAG_FLOODING \<noteq> 0 then setValveFloodingFlag True c else c);
          c = (if flags AND SUPLA_VALVE_FLAG_MANUALLY_CLOSED \<noteq> 0 then setValveManuallyClosedFlag True c else c)
      in v\<lparr>channel := c, lastOpenLevelState := st\<rparr>)"

section \<open>Configuration\<close>

definition ValveCfgTag :: bytes where
  "ValveCfgTag = str ''valve_cfg''"

definition valve_key :: "Valve \<Rightarrow> bytes" where
  "valve_key v = generateKey (of_int (el_number v)) ValveCfgTag"

definition ValveConfig_bytes :: "Valve \<Rightarrow> bytes" where
  "ValveConfig_bytes v = sensorData v @ [closeValveOnFloodType v] @ valve_reserved v"

definition sizeof_ValveConfig :: nat where [chan_consts]: "sizeof_ValveConfig = 52"
definition sizeof_TChannelConfig_Valve :: nat where [chan_consts]: "sizeof_TChannelConfig_Valve = 112"

text \<open>\<open>getBlob\<close> asks for the size of the structure of the protocol; a blob of that size would be written over the smaller structure.  No
  blob of that size is ever stored, so the members after the structure stay as they are.\<close>

definition load_blob :: "bytes \<Rightarrow> Valve \<Rightarrow> Valve" where
  "load_blob bs v = v\<lparr>sensorData := take 20 bs, closeValveOnFloodType := bs ! 20, valve_reserved := seg 21 31 bs\<rparr>"

definition valve_onLoadConfig :: "Valve \<Rightarrow> Valve" where
  "valve_onLoadConfig v =
     (case el_config v of
        None \<Rightarrow> v
      | Some cfg \<Rightarrow>
          let v = fst (loadFunctionFromConfig v);
              v = (case kv_getBlob (store cfg) (valve_key v) sizeof_TChannelConfig_Valve of Some bs \<Rightarrow> load_blob bs v | None \<Rightarrow> v);
              v = fst (loadConfigChangeFlag v)
          in if defaultCloseValveOnFloodType v \<noteq> 0 \<and> closeValveOnFloodType v = 0
             then triggerSetChannelConfig SUPLA_CONFIG_TYPE_DEFAULT (v\<lparr>closeValveOnFloodType := defaultCloseValveOnFloodType v\<rparr>)
             else v)"

definition valve_purgeConfig :: "Valve \<Rightarrow> Valve" where
  "valve_purgeConfig v = with_config (\<lambda>cfg. cfg\<lparr>store := fst (eraseKey (store cfg) (valve_key v))\<rparr>) v"

definition valve_saveConfig :: "u32 \<Rightarrow> bool \<Rightarrow> Valve \<Rightarrow> Valve" where
  "valve_saveConfig now local v =
     (case el_config v of
        None \<Rightarrow> v
      | Some _ \<Rightarrow>
          let v = with_config (\<lambda>cfg. cfg\<lparr>store := fst (kv_setBlob (store cfg) (valve_key v) (ValveConfig_bytes v) sizeof_ValveConfig)\<rparr>) v;
              v = (if local then triggerSetChannelConfig SUPLA_CONFIG_TYPE_DEFAULT v else clearChannelConfigChangedFlag now v)
          in with_config (\<lambda>cfg. saveWithDelay cfg 5000 now) (saveConfigChangeFlag now v))"

text \<open>\<open>TChannelConfig_Valve\<close>: 20 entries of 4 bytes, the type, 31 reserved bytes.\<close>

definition valve_function :: "u32 \<Rightarrow> bool" where
  "valve_function f \<longleftrightarrow> f = SUPLA_CHANNELFNC_VALVE_OPENCLOSE \<or> f = SUPLA_CHANNELFNC_VALVE_PERCENTAGE"

definition sensors_of :: "bytes \<Rightarrow> bytes" where
  "sensors_of config = map (\<lambda>i. if config ! (4 * i) = 0 then 255 else config ! (4 * i + 1)) [0..<SUPLA_VALVE_SENSOR_MAX]"

definition valve_applyChannelConfig :: "u32 \<Rightarrow> u32 \<Rightarrow> u8 \<Rightarrow> bytes \<Rightarrow> bool \<Rightarrow> Valve \<Rightarrow> Valve \<times> ApplyConfigResult" where
  "valve_applyChannelConfig now func ConfigType config local v =
     (if config = [] then (v, SetChannelConfigNeeded)
      else if valve_function func then
        let (v, readonlyViolation) =
              (if ConfigType = 0 \<and> length config = sizeof_TChannelConfig_Valve then
                 let v = v\<lparr>sensorData := sensors_of config\<rparr>; floodType = config ! 80
                 in if defaultCloseValveOnFloodType v \<noteq> 0 \<and> floodType = 0 then
                      let v = (if closeValveOnFloodType v = 0 then v\<lparr>closeValveOnFloodType := defaultCloseValveOnFloodType v\<rparr> else v)
                      in (triggerSetChannelConfig SUPLA_CONFIG_TYPE_DEFAULT v, True)
                    else (if 1 \<le> floodType \<and> floodType \<le> 2 then v\<lparr>closeValveOnFloodType := floodType\<rparr> else v, False)
               else (v, False))
        in (valve_saveConfig now False v, if readonlyViolation then SetChannelConfigNeeded else Success)
      else (v, Success))"

definition sensor_entry :: "u8 \<Rightarrow> bytes" where
  "sensor_entry sensor = [1, sensor, 0, 0]"

definition valve_fillChannelConfig :: "u8 \<Rightarrow> Valve \<Rightarrow> bytes" where
  "valve_fillChannelConfig configType v =
     (if configType = SUPLA_CONFIG_TYPE_DEFAULT \<and> valve_function (getDefaultFunction (channel v)) then
        let entries = concat (map sensor_entry (filter (\<lambda>s. s \<noteq> 255) (sensorData v)))
        in entries @ replicate (80 - length entries) 0 @ [closeValveOnFloodType v] @ replicate 31 0
      else [])"

definition valve_vt :: "unit Valve_ext element_vt" where
  "valve_vt = \<lparr>v_setAndSaveFunction = element_setAndSaveFunction, v_applyChannelConfig = valve_applyChannelConfig,
     v_fillChannelConfig = valve_fillChannelConfig\<rparr>"

text \<open>The first entry that holds the sensor or is free.\<close>

fun add_to_list :: "u8 \<Rightarrow> bytes \<Rightarrow> bytes option" where
  "add_to_list n [] = None"
| "add_to_list n (s # ss) = (if s = n then Some (s # ss) else if s = 255 then Some (n # ss) else map_option ((#) s) (add_to_list n ss))"

definition addSensor :: "u32 \<Rightarrow> Channel list \<Rightarrow> u8 \<Rightarrow> Valve \<Rightarrow> Valve \<times> bool" where
  "addSensor now cs n v =
     (if n = 255 then (v, False)
      else
        case GetByChannelNumber cs (uint n) of
          None \<Rightarrow> (v, False)
        | Some j \<Rightarrow>
            if getChannelType (cs ! j) \<noteq> SUPLA_CHANNELTYPE_BINARYSENSOR then (v, False)
            else
              case add_to_list n (sensorData v) of
                None \<Rightarrow> (v, False)
              | Some ss \<Rightarrow> (if ss = sensorData v then v else valve_saveConfig now True (v\<lparr>sensorData := ss\<rparr>), True))"

fun remove_from_list :: "u8 \<Rightarrow> bytes \<Rightarrow> bytes option" where
  "remove_from_list n [] = None"
| "remove_from_list n (s # ss) = (if s = n then Some (255 # ss) else map_option ((#) s) (remove_from_list n ss))"

definition removeSensor :: "u32 \<Rightarrow> u8 \<Rightarrow> Valve \<Rightarrow> Valve \<times> bool" where
  "removeSensor now n v =
     (if n = 255 then (v, False)
      else
        case remove_from_list n (sensorData v) of
          None \<Rightarrow> (v, False)
        | Some ss \<Rightarrow> (valve_saveConfig now True (v\<lparr>sensorData := ss\<rparr>), True))"

definition setIgnoreManuallyOpenedTimeMs :: "u32 \<Rightarrow> Valve \<Rightarrow> Valve" where
  "setIgnoreManuallyOpenedTimeMs t v = v\<lparr>ignoreManuallyOpenedTimeMs := t\<rparr>"

definition setDefaultCloseValveOnFloodType :: "u8 \<Rightarrow> Valve \<Rightarrow> Valve" where
  "setDefaultCloseValveOnFloodType t v =
     (if t \<le> SUPLA_VALVE_CLOSE_ON_FLOOD_TYPE_ON_CHANGE then
        let v = v\<lparr>defaultCloseValveOnFloodType := t\<rparr>
        in if closeValveOnFloodType v = 0 then v\<lparr>closeValveOnFloodType := t\<rparr> else v
      else v)"

section \<open>Floods\<close>

definition valve_ok :: "Valve \<Rightarrow> bool" where
  "valve_ok v \<longleftrightarrow> (channelType (channel v) = VALVE_OPENCLOSE \<or> channelType (channel v) = VALVE_PERCENTAGE) \<and>
     length (ch_value (channel v)) = 8 \<and> length (previousSensorState v) = length (sensorData v)"

text \<open>A flood sensor of the list reports water.\<close>

definition wet :: "Channel list \<Rightarrow> bytes \<Rightarrow> bool" where
  "wet cs sensors \<longleftrightarrow> (\<exists>s \<in> set sensors. s \<noteq> 255 \<and>
     (\<exists>j. GetByChannelNumber cs (uint s) = Some j \<and> channelType (cs ! j) = BINARYSENSOR \<and> getValueBool (cs ! j)))"

lemma binary_type: "getChannelType c = SUPLA_CHANNELTYPE_BINARYSENSOR \<longleftrightarrow> channelType c = BINARYSENSOR"
  by (cases "channelType c") (simp_all add: getChannelType_def chan_consts)

lemma flood_detected:
  assumes "wet cs (sensorData v)" "closeValveOnFloodType v \<le> 1" "length (previousSensorState v) = length (sensorData v)"
  shows "snd (isFloodDetected cs v)"
proof -
  obtain s j where s: "s \<in> set (sensorData v)" "s \<noteq> 255" "GetByChannelNumber cs (uint s) = Some j" "channelType (cs ! j) = BINARYSENSOR" "getValueBool (cs ! j)"
    using assms(1) by (auto simp: wet_def)
  obtain i where i: "i < length (sensorData v)" "sensorData v ! i = s" using s(1) by (auto simp: in_set_conv_nth)
  have "snd (check_sensor cs (closeValveOnFloodType v) s p)" for p
    using s(2-5) assms(2) by (simp add: check_sensor_def binary_type)
  then show ?thesis
    using i assms(3) by (auto simp: isFloodDetected_def Let_def list_ex_length intro!: exI [of _ i])
qed

lemma flood_state: "fst (isFloodDetected cs v) = v\<lparr>previousSensorState := previousSensorState (fst (isFloodDetected cs v))\<rparr>"
  by (simp add: isFloodDetected_def Let_def)

lemma flood_length: "length (previousSensorState v) = length (sensorData v) \<Longrightarrow> length (previousSensorState (fst (isFloodDetected cs v))) = length (sensorData v)"
  by (simp add: isFloodDetected_def Let_def)

lemma valve_flags_set:
  assumes "length (ch_value c) = 8"
  shows "isValveFloodingFlagActive (setValveFloodingFlag b c) = b" "isValveFloodingFlagActive (setValveManuallyClosedFlag b c) = isValveFloodingFlagActive c"
    "isValveFloodingFlagActive (setValveOpenState l c) = isValveFloodingFlagActive c"
    "length (ch_value (setValveFloodingFlag b c)) = 8" "length (ch_value (setValveManuallyClosedFlag b c)) = 8" "length (ch_value (setValveOpenState l c)) = 8"
    "channelType (setValveFloodingFlag b c) = channelType c" "channelType (setValveManuallyClosedFlag b c) = channelType c"
    "channelType (setValveOpenState l c) = channelType c"
  using assms
  by (auto simp: setValveFloodingFlag_def setValveManuallyClosedFlag_def isValveFloodingFlagActive_def set_valve_flags_def valve_flags_def
      setSendValue_def run_action_def valve_value Let_def)

lemma valve_open:
  assumes "length (ch_value c) = 8" "channelType c = VALVE_OPENCLOSE \<or> channelType c = VALVE_PERCENTAGE"
  shows "isValveOpen (setValveOpenState l c) \<longleftrightarrow> l > 0"
proof -
  have "min l 100 = 0 \<longleftrightarrow> l = 0" "(if l = 0 then 0 else 100) = (0 :: u8) \<longleftrightarrow> l = 0" by (auto simp: min_def)
  then show ?thesis
    using container_valve_round_trip [of c 0 l] assms by (auto simp: isValveOpen_def SUPLA_CHANNELVALUE_SIZE_def word_gt_0)
qed

text \<open>The valve is closed because of a flood.\<close>

definition flooded :: "bytes \<Rightarrow> Valve \<Rightarrow> bool" where
  "flooded sensors v \<longleftrightarrow> valve_ok v \<and> sensorData v = sensors \<and> closeValveOnFloodType v \<le> 1 \<and> valveOpenState v = 0 \<and>
     isValveFloodingFlagActive (channel v)"

lemma closed_by_flood:
  assumes "valve_ok v" "sensorData v = sensors" "closeValveOnFloodType v \<le> 1"
  shows "flooded sensors (set_flooding True (closeValve now v))"
  using assms valve_flags_set [of "channel v"] by (simp add: flooded_def valve_ok_def set_flooding_def closeValve_def setValueOnDevice_def)

lemma flood_ok: "valve_ok v \<Longrightarrow> valve_ok (fst (isFloodDetected cs v))" "sensorData (fst (isFloodDetected cs v)) = sensorData v"
    "closeValveOnFloodType (fst (isFloodDetected cs v)) = closeValveOnFloodType v" "channel (fst (isFloodDetected cs v)) = channel v"
    "valveOpenState (fst (isFloodDetected cs v)) = valveOpenState v"
  by (simp_all add: isFloodDetected_def Let_def valve_ok_def)

lemma flooded_keeps:
  "flooded sensors v \<Longrightarrow> flooded sensors (fst (isFloodDetected cs v))" "flooded sensors v \<Longrightarrow> flooded sensors (closeValve now v)"
  "flooded sensors v \<Longrightarrow> flooded sensors (v\<lparr>lastSensorsCheckTimestamp := t\<rparr>)"
  using flood_ok [where v = v and cs = cs] by (simp_all add: flooded_def closeValve_def setValueOnDevice_def valve_ok_def)

lemma open_refused:
  assumes "valve_ok v" "closeValveOnFloodType v \<le> 1" "wet cs (sensorData v)"
  shows "flooded (sensorData v) (openValve now cs v)"
proof -
  obtain v1 where f: "isFloodDetected cs v = (v1, True)"
    using flood_detected [OF assms(3,2)] assms(1) by (metis prod.collapse valve_ok_def)
  have "flooded (sensorData v) (set_flooding True (closeValve now v1))"
    using flood_ok [where v = v and cs = cs] assms f by (intro closed_by_flood) auto
  then show ?thesis by (simp add: openValve_def setValve_def f)
qed

lemma update_flooded: "flooded sensors v \<Longrightarrow> flooded sensors (update_level now v)"
  using valve_flags_set [of "channel v"] valve_flags_set [of "setValveManuallyClosedFlag True (channel v)"]
  by (auto simp: flooded_def valve_ok_def update_level_def getValueOpenStateFromDevice_def Let_def)

lemma check_flooded: "flooded sensors v \<Longrightarrow> flooded sensors (check_flood now cs v)"
proof -
  assume a: "flooded sensors v"
  obtain v1 f where f: "isFloodDetected cs (v\<lparr>lastSensorsCheckTimestamp := now\<rparr>) = (v1, f)" by fastforce
  have v1: "flooded sensors v1" using flooded_keeps(1) [OF flooded_keeps(3) [OF a], of cs now] f by simp
  then have "flooded sensors (set_flooding True (closeValve now v1))" by (intro closed_by_flood) (simp_all add: flooded_def)
  then show ?thesis using a v1 by (simp add: check_flood_def f)
qed

text \<open>Commands and polls, each at its time and with the channels as they are then.\<close>

datatype valve_event = Valve_action int | Valve_value u8 | Valve_poll

fun valve_step :: "u32 \<times> Channel list \<times> valve_event \<Rightarrow> Valve \<Rightarrow> Valve" where
  "valve_step (now, cs, Valve_action a) v = valve_handleAction now cs a v"
| "valve_step (now, cs, Valve_value x) v = fst (valve_handleNewValueFromServer now cs x v)"
| "valve_step (now, cs, Valve_poll) v = valve_iterateAlways now cs v"

lemma step_flooded:
  assumes "flooded sensors v" "wet cs sensors"
  shows "flooded sensors (valve_step (now, cs, e) v)"
proof -
  have o: "flooded sensors (openValve now cs v)" using open_refused [of v cs now] assms by (simp add: flooded_def)
  have c: "flooded sensors (closeValve now v)" using flooded_keeps(2) [OF assms(1)] .
  show ?thesis
    using o c assms(1) check_flooded [OF update_flooded [OF assms(1), of now], of now cs]
    by (cases e) (simp_all add: valve_handleAction_def valve_handleNewValueFromServer_def valve_iterateAlways_def)
qed

lemma update_level_state:
  assumes "valve_ok v" "now - lastUpdateTimestamp v > 200"
  shows "valve_ok (update_level now v)" "isValveOpen (channel (update_level now v)) \<longleftrightarrow> valveOpenState v > 0"
proof -
  define c where "c = (if valveOpenState v \<noteq> lastOpenLevelState v \<and> (lastCmdTimestamp v = 0 \<or> now - lastCmdTimestamp v > 30000)
    then setValveManuallyClosedFlag (valveOpenState v = 0) (channel v) else channel v)"
  have c: "length (ch_value c) = 8" "channelType c = channelType (channel v)"
    using assms(1) valve_flags_set [of "channel v"] by (simp_all add: c_def valve_ok_def)
  have u: "channel (update_level now v) = setValveOpenState (valveOpenState v) c" "sensorData (update_level now v) = sensorData v"
    "previousSensorState (update_level now v) = previousSensorState v"
    using assms(2) by (simp_all add: update_level_def c_def getValueOpenStateFromDevice_def Let_def)
  show "valve_ok (update_level now v)" using assms(1) valve_flags_set [OF c(1)] c(2) by (simp add: valve_ok_def u)
  show "isValveOpen (channel (update_level now v)) \<longleftrightarrow> valveOpenState v > 0"
    using valve_open [OF c(1)] c(2) assms(1) by (simp add: u valve_ok_def)
qed

lemma update_level_keeps:
  "sensorData (update_level now v) = sensorData v" "closeValveOnFloodType (update_level now v) = closeValveOnFloodType v"
  "valveOpenState (update_level now v) = valveOpenState v" "lastSensorsCheckTimestamp (update_level now v) = lastSensorsCheckTimestamp v"
  by (simp_all add: update_level_def getValueOpenStateFromDevice_def Let_def)

lemma poll_floods:
  assumes "valve_ok v" "closeValveOnFloodType v \<le> 1" "wet cs (sensorData v)"
    and "t0 - lastUpdateTimestamp v > 200" "t0 - lastSensorsCheckTimestamp v > 1000"
  shows "flooded (sensorData v) (valve_iterateAlways t0 cs v)"
proof -
  note u = update_level_state [OF assms(1,4)] and k = update_level_keeps [of t0 v]
  define w where "w = (update_level t0 v)\<lparr>lastSensorsCheckTimestamp := t0\<rparr>"
  have w: "valve_ok w" "sensorData w = sensorData v" "closeValveOnFloodType w = closeValveOnFloodType v"
    "valveOpenState w = valveOpenState v" "isValveOpen (channel w) \<longleftrightarrow> valveOpenState v > 0"
    using u k by (simp_all add: w_def valve_ok_def)
  obtain v1 where f: "isFloodDetected cs w = (v1, True)"
    using flood_detected [of cs w] w assms(2,3) by (cases "isFloodDetected cs w") (simp add: valve_ok_def)
  note keep = flood_ok [where v = w and cs = cs, unfolded f fst_conv]
  have close: "flooded (sensorData v) (set_flooding True (closeValve t0 v1))"
    using keep w assms(2) by (intro closed_by_flood) simp_all
  have stay: "flooded (sensorData v) v1" if "\<not> isValveOpen (channel v1)" "isValveFloodingFlagActive (channel v1)"
    using that keep w assms(2) by (simp add: flooded_def word_gt_0)
  have "valve_iterateAlways t0 cs v =
      (if isValveOpen (channel v1) \<or> \<not> isValveFloodingFlagActive (channel v1) then set_flooding True (closeValve t0 v1) else v1)"
    using k(4) assms(5) f by (simp add: valve_iterateAlways_def check_flood_def w_def)
  then show ?thesis using close stay by simp
qed

text \<open>C9. A flood closes the valve and keeps it closed, when the valve closes on every flood (types 0 and 1 of the configuration).  A poll at
  which both the position and the sensors are due finds a configured sensor wet; then afterwards the valve is closed and reports
  the flood, whatever commands (open, close, toggle, from the server or from local actions) and polls follow, as long as at each of them
  some configured sensor is wet.  A valve that closes on a change only (type 2) is not covered: it can be opened while a sensor is wet.\<close>

theorem flood_keeps_valve_closed:
  assumes "valve_ok v" "closeValveOnFloodType v \<le> 1" "wet cs (sensorData v)"
    and "t0 - lastUpdateTimestamp v > 200" "t0 - lastSensorsCheckTimestamp v > 1000" "\<forall>(t, cs, e) \<in> set evs. wet cs (sensorData v)"
  shows "let v' = fold valve_step evs (valve_iterateAlways t0 cs v) in valveOpenState v' = 0 \<and> isValveFloodingFlagActive (channel v')"
proof -
  have "flooded sensors v1 \<Longrightarrow> \<forall>(t, cs, e) \<in> set evs. wet cs sensors \<Longrightarrow> flooded sensors (fold valve_step evs v1)" for sensors v1 evs
    by (induction evs arbitrary: v1) (auto intro: step_flooded)
  from this [OF poll_floods [OF assms(1-5)] assms(6)] show ?thesis by (simp add: flooded_def)
qed

definition wet_sensor :: Channel where
  "wet_sensor = Channel_init\<lparr>channelNumber := 7, channelType := BINARYSENSOR, ch_value := [1, 0, 0, 0, 0, 0, 0, 0]\<rparr>"

definition sample_valve :: Valve where
  "sample_valve = (new_Valve (Channel_init\<lparr>channelNumber := 2\<rparr>) (Some (new_config [])) True)\<lparr>sensorData := 7 # replicate 19 255, valveOpenState := 100\<rparr>"

theorem flood_keeps_valve_closed_witness:
  "let v' = fold valve_step [(2500, [wet_sensor], Valve_value 1), (2600, [wet_sensor], Valve_action OPEN), (5000, [wet_sensor], Valve_poll)]
      (valve_iterateAlways 2000 [wet_sensor] sample_valve)
   in valveOpenState v' = 0 \<and> isValveFloodingFlagActive (channel v')"
proof -
  have s: "valve_ok sample_valve" "closeValveOnFloodType sample_valve \<le> 1"
    "2000 - lastUpdateTimestamp sample_valve > 200" "2000 - lastSensorsCheckTimestamp sample_valve > 1000"
    by code_simp+
  have w: "wet [wet_sensor] (sensorData sample_valve)"
    unfolding wet_def by (rule bexI [of _ 7]) (simp_all add: wet_sensor_def sample_valve_def getValueBool_def)
  then show ?thesis by (intro flood_keeps_valve_closed [OF s(1,2) w s(3,4)]) simp
qed

section \<open>The saved configuration\<close>

text \<open>The contents of the store of an element at a key, when the store is intact.\<close>

definition holds_data :: "'a Element_scheme \<Rightarrow> bytes \<Rightarrow> kv_data option \<Rightarrow> bool" where
  "holds_data e k d \<longleftrightarrow> (\<exists>cfg. el_config e = Some cfg \<and> kv_inv (store cfg) \<and> kv_abs (store cfg) (norm_key k) = d)"

lemma holds_data_cong: "el_config e' = el_config e \<Longrightarrow> holds_data e' k d = holds_data e k d"
  by (simp add: holds_data_def)

lemma flag_keeps_others:
  assumes "holds_data e k d" "norm_key (flag_key e) \<noteq> norm_key k"
  shows "holds_data (saveConfigChangeFlag now e) k d"
proof -
  obtain cfg where cfg: "el_config e = Some cfg" "kv_inv (store cfg)" "kv_abs (store cfg) (norm_key k) = d" using assms(1) by (auto simp: holds_data_def)
  have "kv_inv (fst (setUInt8 cfg_vt (store cfg) (flag_key e) b)) \<and> kv_abs (fst (setUInt8 cfg_vt (store cfg) (flag_key e) b)) (norm_key k) = d" for b
  proof -
    obtain s' r where s: "setUInt8 cfg_vt (store cfg) (flag_key e) b = (s', r)" by (rule prod.exhaust)
    have "kv_inv s'" and sp: "spec_set (kv_abs (store cfg)) (flag_key e) (DATA_TYPE_UINT8 b) = (kv_abs s', r)"
      using kv_store.set_uint8 [OF cfg(2) s] by simp_all
    then show ?thesis using spec_set_other [OF assms(2), of "kv_abs (store cfg)" "DATA_TYPE_UINT8 b"] sp cfg(3) s by simp
  qed
  then show ?thesis
    using cfg by (simp add: holds_data_def saveConfigChangeFlag_def with_config_def clearChannelConfigChangeFlag_def setChannelConfigChangeFlag_def
        stored_def flag_key_def)
qed

lemma clear_keeps_others:
  "holds_data e k d \<Longrightarrow> norm_key (flag_key e) \<noteq> norm_key k \<Longrightarrow> holds_data (clearChannelConfigChangedFlag now e) k d"
  using flag_keeps_others [of "e\<lparr>channelConfigState := CfgNone\<rparr>" k d now] holds_data_cong [of "e\<lparr>channelConfigState := CfgNone\<rparr>" e]
  by (simp add: clearChannelConfigChangedFlag_def flag_key_def)

lemma trigger_rest [simp]: "el_config (triggerSetChannelConfig t e) = el_config e" "channel (triggerSetChannelConfig t e) = channel e"
  by (simp_all add: triggerSetChannelConfig_def)

lemma valve_key_other: "norm_key (flag_key (e :: Valve)) \<noteq> norm_key (valve_key v)"
  using generateKey_inj(2) [of ChannelConfigChangedFlagTag ValveCfgTag]
  by (auto simp: flag_key_def valve_key_def ChannelConfigChangedFlagTag_def ValveCfgTag_def str_def)

lemma valve_blob_saved:
  assumes "holds_data v (valve_key v) (map_option DATA_TYPE_BLOB d)" "length (sensorData v) = 20" "length (valve_reserved v) = 31"
  shows "holds_data (valve_saveConfig now local v) (valve_key v) (Some (DATA_TYPE_BLOB (ValveConfig_bytes v)))"
proof -
  obtain cfg where cfg: "el_config v = Some cfg" "kv_inv (store cfg)" "kv_abs (store cfg) (norm_key (valve_key v)) = map_option DATA_TYPE_BLOB d"
    using assms(1) by (auto simp: holds_data_def)
  define v1 where "v1 = with_config (\<lambda>cfg. cfg\<lparr>store := fst (kv_setBlob (store cfg) (valve_key v) (ValveConfig_bytes v) sizeof_ValveConfig)\<rparr>) v"
  define v2 where "v2 = (if local then triggerSetChannelConfig SUPLA_CONFIG_TYPE_DEFAULT v1 else clearChannelConfigChangedFlag now v1)"
  obtain s' r where s: "setBlob cfg_vt (store cfg) (valve_key v) (ValveConfig_bytes v) sizeof_ValveConfig = (s', r)" by fastforce
  have "take sizeof_ValveConfig (ValveConfig_bytes v) = ValveConfig_bytes v" using assms(2,3) by (simp add: ValveConfig_bytes_def chan_consts)
  then have "kv_inv s'" and sp: "spec_set (kv_abs (store cfg)) (valve_key v) (DATA_TYPE_BLOB (ValveConfig_bytes v)) = (kv_abs s', r)"
    using kv_store.set_blob [OF cfg(2) s] by simp_all
  moreover have "kv_abs s' = (kv_abs (store cfg))(norm_key (valve_key v) \<mapsto> DATA_TYPE_BLOB (ValveConfig_bytes v))"
    using sp cfg(3) by (cases d) (simp_all add: spec_set_def)
  ultimately have "kv_inv s'" "kv_abs s' (norm_key (valve_key v)) = Some (DATA_TYPE_BLOB (ValveConfig_bytes v))" by simp_all
  then have v1: "holds_data v1 (valve_key v) (Some (DATA_TYPE_BLOB (ValveConfig_bytes v)))"
    using s cfg(1) by (simp add: holds_data_def v1_def with_config_def keyvalue_vt_def)
  then have "holds_data v2 (valve_key v) (Some (DATA_TYPE_BLOB (ValveConfig_bytes v)))"
    using clear_keeps_others [OF _ valve_key_other, of v1] holds_data_cong [of "triggerSetChannelConfig SUPLA_CONFIG_TYPE_DEFAULT v1" v1]
    by (simp add: v2_def)
  then have "holds_data (saveConfigChangeFlag now v2) (valve_key v) (Some (DATA_TYPE_BLOB (ValveConfig_bytes v)))"
    using flag_keeps_others [OF _ valve_key_other] by blast
  moreover have "valve_saveConfig now local v = with_config (\<lambda>cfg. saveWithDelay cfg 5000 now) (saveConfigChangeFlag now v2)"
    using cfg(1) by (simp add: valve_saveConfig_def v2_def v1_def Let_def)
  ultimately show ?thesis by (auto simp: holds_data_def with_config_def)
qed

lemma blob_size:
  assumes "holds_data e k (Some (DATA_TYPE_BLOB bs))" "el_config e = Some cfg"
  shows "kv_getBlob (store cfg) k n = (if length bs = n then Some bs else None)"
  using assms kv_store.get_blob [of "store cfg" k "Some bs" False n] by (auto simp: holds_data_def keyvalue_vt_def)

lemma load_function_keeps:
  "el_config (fst (loadFunctionFromConfig e)) = el_config e" "Element.more (fst (loadFunctionFromConfig e)) = Element.more e"
  "el_number (fst (loadFunctionFromConfig e)) = el_number e"
  by (simp_all add: loadFunctionFromConfig_def element_setFunction_def setDefaultFunction_def setDefault_def run_action_def el_number_def Let_def split: option.split)

lemma load_flag_more: "Element.more (fst (loadConfigChangeFlag e)) = Element.more e"
  by (simp add: loadConfigChangeFlag_def split: option.split)

lemma valve_more: "sensorData v = sensorData w" "closeValveOnFloodType v = closeValveOnFloodType w"
    "defaultCloseValveOnFloodType v = defaultCloseValveOnFloodType w" if "Element.more v = Element.more (w :: Valve)"
  using that by (cases v; cases w; simp)+

text \<open>The time that \<open>setIgnoreManuallyOpenedTimeMs\<close> sets is used nowhere: it commutes with the poll.\<close>

lemma ignore_time_flood:
  "isFloodDetected cs (setIgnoreManuallyOpenedTimeMs t v) = map_prod (setIgnoreManuallyOpenedTimeMs t) id (isFloodDetected cs v)"
  by (simp add: isFloodDetected_def setIgnoreManuallyOpenedTimeMs_def Let_def)

lemma ignore_time_level: "update_level now (setIgnoreManuallyOpenedTimeMs t v) = setIgnoreManuallyOpenedTimeMs t (update_level now v)"
  unfolding setIgnoreManuallyOpenedTimeMs_def by (cases v) (simp add: update_level_def getValueOpenStateFromDevice_def Let_def)

lemma ignore_time_check: "check_flood now cs (setIgnoreManuallyOpenedTimeMs t v) = setIgnoreManuallyOpenedTimeMs t (check_flood now cs v)"
proof -
  obtain v1 f where f: "isFloodDetected cs (v\<lparr>lastSensorsCheckTimestamp := now\<rparr>) = (v1, f)" by (rule prod.exhaust)
  have "(setIgnoreManuallyOpenedTimeMs t v)\<lparr>lastSensorsCheckTimestamp := now\<rparr> = setIgnoreManuallyOpenedTimeMs t (v\<lparr>lastSensorsCheckTimestamp := now\<rparr>)"
    by (cases v) (simp add: setIgnoreManuallyOpenedTimeMs_def)
  then have "isFloodDetected cs ((setIgnoreManuallyOpenedTimeMs t v)\<lparr>lastSensorsCheckTimestamp := now\<rparr>) = (setIgnoreManuallyOpenedTimeMs t v1, f)"
    using f by (simp add: ignore_time_flood)
  moreover have "set_flooding True (closeValve now (setIgnoreManuallyOpenedTimeMs t v1)) = setIgnoreManuallyOpenedTimeMs t (set_flooding True (closeValve now v1))"
    by (cases v1) (simp add: setIgnoreManuallyOpenedTimeMs_def set_flooding_def closeValve_def setValueOnDevice_def)
  ultimately show ?thesis using f by (simp add: check_flood_def) (simp add: setIgnoreManuallyOpenedTimeMs_def)
qed

lemma ignore_time_unused: "valve_iterateAlways now cs (setIgnoreManuallyOpenedTimeMs t v) = setIgnoreManuallyOpenedTimeMs t (valve_iterateAlways now cs v)"
  by (simp add: valve_iterateAlways_def ignore_time_level ignore_time_check)

text \<open>C38. The configuration of a valve does not survive a restart.  After a save, the store holds the structure of 52 bytes with the sensors, and
  reading it with its own size gives it back; but a valve that starts on that store asks for 112 bytes, the size of the structure of the
  protocol, which the key-value store refuses.  The valve then keeps the sensors it was constructed with, and the saved choice
  when to close is lost as well.\<close>

theorem valve_config_not_restored:
  assumes "holds_data v (valve_key v) (map_option DATA_TYPE_BLOB d)" "length (sensorData v) = 20" "length (valve_reserved v) = 31"
    and "el_config (valve_saveConfig now local v) = Some cfg" "el_config w = Some cfg" "el_number w = el_number v"
  shows "kv_getBlob (store cfg) (valve_key v) sizeof_ValveConfig = Some (ValveConfig_bytes v) \<and>
    sensorData (valve_onLoadConfig w) = sensorData w \<and>
    closeValveOnFloodType (valve_onLoadConfig w) =
      (if closeValveOnFloodType w = 0 then defaultCloseValveOnFloodType w else closeValveOnFloodType w)"
proof -
  note b = blob_size [OF valve_blob_saved [OF assms(1-3), of now local] assms(4)]
  have l: "length (ValveConfig_bytes v) = 52" using assms(2,3) by (simp add: ValveConfig_bytes_def)
  have g: "kv_getBlob (store cfg) (valve_key v) sizeof_ValveConfig = Some (ValveConfig_bytes v)" using b l by (simp add: chan_consts)
  define w1 where "w1 = fst (loadFunctionFromConfig w)"
  define w2 where "w2 = fst (loadConfigChangeFlag w1)"
  have "valve_key w1 = valve_key v" using assms(6) load_function_keeps(3) [of w] by (simp add: valve_key_def w1_def)
  then have "kv_getBlob (store cfg) (valve_key w1) sizeof_TChannelConfig_Valve = None" using b l by (simp add: chan_consts)
  then have o: "valve_onLoadConfig w = (if defaultCloseValveOnFloodType w2 \<noteq> 0 \<and> closeValveOnFloodType w2 = 0
      then triggerSetChannelConfig SUPLA_CONFIG_TYPE_DEFAULT (w2\<lparr>closeValveOnFloodType := defaultCloseValveOnFloodType w2\<rparr>) else w2)"
    unfolding valve_onLoadConfig_def Let_def w1_def [symmetric] w2_def using assms(5) by simp
  have m: "sensorData w2 = sensorData w" "closeValveOnFloodType w2 = closeValveOnFloodType w" "defaultCloseValveOnFloodType w2 = defaultCloseValveOnFloodType w"
    using valve_more [of w2 w] load_flag_more [of w1] load_function_keeps(2) [of w] by (simp_all add: w1_def w2_def)
  show ?thesis using g m by (simp add: o triggerSetChannelConfig_def)
qed

definition saved_config :: "KeyValue Config" where
  "saved_config = the (el_config (valve_saveConfig 1000 False sample_valve))"

theorem valve_config_not_restored_witness:
  "sensorData sample_valve = 7 # replicate 19 255 \<and>
   sensorData (valve_onLoadConfig (new_Valve (Channel_init\<lparr>channelNumber := 2\<rparr>) (Some saved_config) True)) = replicate 20 255"
proof -
  have h: "holds_data sample_valve (valve_key sample_valve) (map_option DATA_TYPE_BLOB None)"
    by (simp add: holds_data_def sample_valve_def new_Valve_def new_config_def kv_inv_def kv_abs_def)
  have e: "el_config (valve_saveConfig 1000 False sample_valve) = Some saved_config"
    using valve_blob_saved [OF h, of 1000 False] by (auto simp: saved_config_def holds_data_def sample_valve_def new_Valve_def chan_consts)
  let ?w = "new_Valve (Channel_init\<lparr>channelNumber := 2\<rparr>) (Some saved_config) True"
  have n: "el_config ?w = Some saved_config" "el_number ?w = el_number sample_valve"
    by (simp_all add: sample_valve_def new_Valve_def el_number_def Let_def setDefaultFunction_def setType_def setFlag_def)
  have "length (sensorData sample_valve) = 20" "length (valve_reserved sample_valve) = 31"
    by (simp_all add: sample_valve_def new_Valve_def chan_consts)
  then have "sensorData (valve_onLoadConfig ?w) = sensorData ?w"
    using valve_config_not_restored [OF h _ _ e n] by simp
  then show ?thesis by (simp add: sample_valve_def new_Valve_def chan_consts)
qed

section \<open>The sensors\<close>

lemma add_to_list_spec:
  "add_to_list n ss = Some ss' \<Longrightarrow> n \<noteq> 255 \<Longrightarrow> length ss' = length ss \<and> set ss' - {255} = insert n (set ss - {255})"
  "add_to_list n ss = None \<longleftrightarrow> n \<notin> set ss \<and> 255 \<notin> set ss"
  by (induction n ss arbitrary: ss' rule: add_to_list.induct) (fastforce split: if_splits)+

lemma remove_from_list_spec:
  "remove_from_list n ss = Some ss' \<Longrightarrow> n \<noteq> 255 \<Longrightarrow> length ss' = length ss \<and> count_list ss' n = count_list ss n - 1 \<and> set ss - {n} \<subseteq> set ss'"
  "remove_from_list n ss = None \<longleftrightarrow> n \<notin> set ss"
  by (induction n ss arbitrary: ss' rule: remove_from_list.induct) (fastforce split: if_splits)+

section \<open>The configuration of the server\<close>

definition active :: "Valve \<Rightarrow> bytes" where
  "active v = filter (\<lambda>s. s \<noteq> 255) (sensorData v)"

lemma entries_length [simp]: "length (concat (map sensor_entry fs)) = 4 * length fs"
  by (induction fs) (simp_all add: sensor_entry_def)

lemma entries_nth:
  "i < length fs \<Longrightarrow> concat (map sensor_entry fs) ! (4 * i) = 1 \<and> concat (map sensor_entry fs) ! (4 * i + 1) = fs ! i"
proof (induction fs arbitrary: i)
  case (Cons f fs)
  then show ?case by (cases i) (simp_all add: sensor_entry_def)
qed simp

lemma sensors_of_entries:
  assumes "length fs \<le> 20"
  shows "sensors_of (concat (map sensor_entry fs) @ replicate (80 - 4 * length fs) 0 @ rest) = fs @ replicate (20 - length fs) 255"
proof (rule nth_equalityI)
  fix i assume "i < length (sensors_of (concat (map sensor_entry fs) @ replicate (80 - 4 * length fs) 0 @ rest))"
  then have i: "i < 20" by (simp add: sensors_of_def chan_consts)
  show "sensors_of (concat (map sensor_entry fs) @ replicate (80 - 4 * length fs) 0 @ rest) ! i = (fs @ replicate (20 - length fs) 255) ! i"
  proof (cases "i < length fs")
    case True
    then have "4 * i + 1 < 4 * length fs" by simp
    then show ?thesis using entries_nth [OF True] True i by (simp add: sensors_of_def chan_consts nth_append)
  next
    case False
    then have "4 * i - 4 * length fs < 80 - 4 * length fs" using i by simp
    then show ?thesis using False i by (simp add: sensors_of_def chan_consts nth_append)
  qed
qed (use assms in \<open>simp add: sensors_of_def chan_consts\<close>)

definition same_valve_kind :: "Valve \<Rightarrow> Valve \<Rightarrow> bool" where
  "same_valve_kind v v' \<longleftrightarrow> length (sensorData v) = 20 \<and> closeValveOnFloodType v \<in> {1, 2} \<and>
     getDefaultFunction (channel v') = getDefaultFunction (channel v)"

lemma fill_conv: "valve_function (getDefaultFunction (channel v)) \<Longrightarrow> length (sensorData v) = 20 \<Longrightarrow>
  valve_fillChannelConfig SUPLA_CONFIG_TYPE_DEFAULT v =
    concat (map sensor_entry (active v)) @ replicate (80 - 4 * length (active v)) 0 @ closeValveOnFloodType v # replicate 31 0"
  by (simp add: valve_fillChannelConfig_def active_def)

lemma valve_save_keeps:
  "channel (valve_saveConfig now l v) = channel v" "Element.more (valve_saveConfig now l v) = Element.more v"
  by (simp_all add: valve_saveConfig_def Let_def with_config_def saveConfigChangeFlag_def triggerSetChannelConfig_def split: option.split)

lemma valve_apply_filled:
  assumes k: "same_valve_kind v v'" and f: "valve_fillChannelConfig t v \<noteq> []"
    and a: "valve_applyChannelConfig now (getDefaultFunction (channel v)) t (valve_fillChannelConfig t v) l v' = (v'', res)"
  shows "res = Success \<and> sensorData v'' = active v @ replicate (20 - length (active v)) 255 \<and> closeValveOnFloodType v'' = closeValveOnFloodType v \<and>
    valve_fillChannelConfig t v'' = valve_fillChannelConfig t v"
proof -
  let ?f = "getDefaultFunction (channel v)" and ?c = "valve_fillChannelConfig t v"
  have t: "t = SUPLA_CONFIG_TYPE_DEFAULT" "valve_function ?f" using f by (auto simp: valve_fillChannelConfig_def split: if_splits)
  have c: "?c = concat (map sensor_entry (active v)) @ replicate (80 - 4 * length (active v)) 0 @ closeValveOnFloodType v # replicate 31 0"
    using fill_conv t k by (simp add: same_valve_kind_def)
  have m: "length (active v) \<le> 20" using k length_filter_le [of "\<lambda>s. s \<noteq> 255" "sensorData v"] by (simp add: active_def same_valve_kind_def)
  have l: "length ?c = 112" "?c ! 80 = closeValveOnFloodType v" using m by (simp_all add: c nth_append)
  have s: "sensors_of ?c = active v @ replicate (20 - length (active v)) 255" unfolding c by (rule sensors_of_entries [OF m])
  define w where "w = v'\<lparr>sensorData := sensors_of ?c, closeValveOnFloodType := closeValveOnFloodType v\<rparr>"
  have "valve_applyChannelConfig now ?f t ?c l v' = (valve_saveConfig now False w, Success)"
    using t f l k by (auto simp: valve_applyChannelConfig_def w_def same_valve_kind_def chan_consts)
  then have r: "res = Success" "v'' = valve_saveConfig now False w" using a by simp_all
  have w: "sensorData v'' = sensors_of ?c" "closeValveOnFloodType v'' = closeValveOnFloodType v" "channel v'' = channel v'"
    using valve_save_keeps [of now False w] valve_more [of v'' w] r(2) by (simp_all add: w_def)
  have act: "active v'' = active v" using w(1) s by (simp add: active_def)
  have f'': "valve_function (getDefaultFunction (channel v''))" "length (sensorData v'') = 20"
    using w(1,3) t(2) k m s by (simp_all add: same_valve_kind_def)
  have "valve_fillChannelConfig t v'' = ?c" using fill_conv [OF f''] c act w(2) t(1) by simp
  then show ?thesis using r(1) w s by simp
qed

lemma valve_fill_types: "valve_fillChannelConfig t (v\<lparr>receivedConfigTypes := b\<rparr>) = valve_fillChannelConfig t v"
  by (simp add: valve_fillChannelConfig_def)

lemma valve_same_function: "same_valve_kind v v' \<Longrightarrow> getDefaultFunction (channel v') = getDefaultFunction (channel v)"
  by (simp add: same_valve_kind_def)

interpretation valve_class: element_class valve_vt same_valve_kind
proof (unfold_locales, unfold valve_vt_def element_vt.simps)
  show "\<And>e e'. same_valve_kind e e' \<Longrightarrow> getDefaultFunction (channel e') = getDefaultFunction (channel e)" by (rule valve_same_function)
  show "\<And>t e b. valve_fillChannelConfig t (e\<lparr>receivedConfigTypes := b\<rparr>) = valve_fillChannelConfig t e" by (rule valve_fill_types)
qed (use valve_apply_filled in blast)

lemma valve_config_travels:
  assumes "same_valve_kind v v'" "valve_fillChannelConfig t v \<noteq> []" "getDefaultFunction (channel v) \<noteq> 0" "types_isSet t (usedConfigTypes v')"
    and "channelConfigState v' \<noteq> LocalChangePending"
    and "handleChannelConfig valve_vt now (getDefaultFunction (channel v)) t (valve_fillChannelConfig t v) False v' = (v'', res)"
  shows "res = SUPLA_CONFIG_RESULT_TRUE \<and> valve_fillChannelConfig t v'' = valve_fillChannelConfig t v \<and> types_isSet t (receivedConfigTypes v'')"
proof -
  have v: "v_fillChannelConfig valve_vt = valve_fillChannelConfig" by (simp add: valve_vt_def)
  show ?thesis using valve_class.config_travels [OF assms(1), unfolded v, OF assms(2-6)] .
qed

end
