(* ===== verification/Registration.thy ===== *)
theory Registration
  imports Register_Device Srpc_Send
begin

text \<open>
  The registration step of \<open>src/src/supla/protocol/supla_srpc.cpp\<close>: the header and the channels of theory \<open>Register_Device\<close> are
  sent by the chunked senders of theory \<open>Srpc_Send\<close>.
\<close>

section \<open>Registration\<close>

text \<open>The callback that describes a channel, as the chunked sender of \<open>srpc.c\<close> sees it, and the state of the channels after the sender has
  asked for every channel.\<close>

type_synonym describer = "int \<Rightarrow> RegisterDevice \<Rightarrow> (RegisterDevice \<times> bytes option) option"

definition described :: "describer \<Rightarrow> RegisterDevice \<Rightarrow> nat \<Rightarrow> bytes option" where
  "described get d i = (case get (int i) d of Some (d', s) \<Rightarrow> s | None \<Rightarrow> None)"

definition describe_step :: "describer \<Rightarrow> nat \<Rightarrow> RegisterDevice \<Rightarrow> RegisterDevice" where
  "describe_step get i d = (case get (int i) d of Some (d', s) \<Rightarrow> d' | None \<Rightarrow> d)"

definition after_describing :: "describer \<Rightarrow> nat \<Rightarrow> RegisterDevice \<Rightarrow> RegisterDevice" where
  "after_describing get n d = fold (describe_step get) [0..<n] d"

text \<open>The step of \<open>SuplaSrpc::iterate\<close> that registers the device.\<close>

definition register_device ::
  "'u env \<Rightarrow> int \<Rightarrow> 'u Tsrpc option \<Rightarrow> RegisterDevice \<Rightarrow> ('u Tsrpc option \<times> int) \<times> RegisterDevice" where
  "register_device e version srpc d =
     (let n = unat (rd_channel_count d)
      in if version \<le> 24 then
           (srpc_ds_async_registerdevice_in_chunks e srpc (getRegDevHeaderPtr d) (described getChannelPtr_D d),
            after_describing getChannelPtr_D n d)
         else
           (srpc_ds_async_registerdevice_in_chunks_g e srpc (getRegDevHeaderPtr d) (described getChannelPtr_E d),
            after_describing getChannelPtr_E n d))"

text \<open>Both describers, in one form.\<close>

definition description :: "int \<Rightarrow> Channel \<Rightarrow> bytes" where
  "description version c = channel_struct c @ (if version \<le> 24 then [] else [subDeviceId c])"

definition describer_of :: "int \<Rightarrow> describer" where
  "describer_of version = (if version \<le> 24 then getChannelPtr_D else getChannelPtr_E)"

lemma describer_eq:
  assumes "unat (rd_channel_count d) \<le> length (channels d)"
  shows "describer_of version (int i) d =
    (if i < unat (rd_channel_count d)
     then Some (d\<lparr>channels := (channels d)[i := clearSendValue (channels d ! i)]\<rparr>, Some (description version (channels d ! i)))
     else Some (d, None))"
proof -
  have "uint (rd_channel_count d) \<le> int i \<longleftrightarrow> \<not> i < unat (rd_channel_count d)"
    by (metis not_le of_nat_le_iff uint_nat)
  then show ?thesis
    using assms by (simp add: describer_of_def getChannelPtr_D_def getChannelPtr_E_def channel_at_def description_def fillDeviceChannelStruct_D_def
        fillDeviceChannelStruct_E_def)
qed

lemma described_eq:
  "unat (rd_channel_count d) \<le> length (channels d) \<Longrightarrow>
    described (describer_of version) d i =
      (if i < unat (rd_channel_count d) then Some (description version (channels d ! i)) else None)"
  by (simp add: described_def describer_eq)

lemma clearSendValue_keeps:
  "description version (clearSendValue c) = description version c" "channelNumber (clearSendValue c) = channelNumber c"
  by (simp_all add: description_def channel_struct_def clearSendValue_def getChannelType_def getFuncList_def getDefaultFunction_def getFlags_def)

lemma after_describing_eq:
  assumes "n \<le> unat (rd_channel_count d)" "unat (rd_channel_count d) \<le> length (channels d)"
  shows "after_describing (describer_of version) n d = d\<lparr>channels := map clearSendValue (take n (channels d)) @ drop n (channels d)\<rparr>"
  using assms(1)
proof (induction n)
  case 0
  then show ?case by (simp add: after_describing_def)
next
  case (Suc n)
  let ?d = "d\<lparr>channels := map clearSendValue (take n (channels d)) @ drop n (channels d)\<rparr>"
  have n: "n < length (channels d)" using Suc.prems assms(2) by simp
  then obtain c cs where c: "drop n (channels d) = c # cs" by (metis Cons_nth_drop_Suc)
  then have s: "channels d ! n = c" "take (Suc n) (channels d) = take n (channels d) @ [c]" "drop (Suc n) (channels d) = cs"
    using n by (simp_all add: nth_via_drop take_Suc_conv_app_nth drop_Suc tl_drop)
      (metis list.sel(3) tl_drop)
  have len: "unat (rd_channel_count ?d) \<le> length (channels ?d)" using n assms(2) by simp
  have "after_describing (describer_of version) (Suc n) d = describe_step (describer_of version) n ?d"
    using Suc by (simp add: after_describing_def)
  also have "\<dots> = d\<lparr>channels := map clearSendValue (take (Suc n) (channels d)) @ drop (Suc n) (channels d)\<rparr>"
    using n Suc.prems c s describer_eq [OF len, of version n]
    by (simp add: describe_step_def nth_append list_update_append)
  finally show ?case .
qed

text \<open>The callback does not depend on the channels that have been described before, so that it can be called as a function of the state at the
  start.\<close>

lemma described_stable:
  assumes "n \<le> unat (rd_channel_count d)" "unat (rd_channel_count d) \<le> length (channels d)"
  shows "described (describer_of version) (after_describing (describer_of version) n d) i = described (describer_of version) d i"
proof -
  have "described (describer_of version) (after_describing (describer_of version) n d) i =
      (if i < unat (rd_channel_count d)
       then Some (description version ((map clearSendValue (take n (channels d)) @ drop n (channels d)) ! i)) else None)"
    using assms by (simp add: after_describing_eq described_eq)
  also have "\<dots> = described (describer_of version) d i"
    using assms by (auto simp: described_eq nth_append clearSendValue_keeps min_def)
  finally show ?thesis .
qed

lemma all_numbered_count:
  assumes "numbers_inv (int SUPLA_CHANNELMAXCOUNT) d" "- 1 \<notin> set (channel_numbers d)"
  shows "unat (rd_channel_count d) = length (channels d)"
proof -
  have "given (channel_numbers d) = channel_numbers d" using assms(2) by (auto simp: given_def intro: filter_True)
  then show ?thesis using assms(1) by (simp add: numbers_inv_def)
qed

lemma header_length: "sizes_inv d \<Longrightarrow> length (getRegDevHeaderPtr d) = sizeof TDS_SuplaRegisterDeviceHeader"
  by (simp add: sizes_inv_def getRegDevHeaderPtr_def layout const_defs)

lemma header_count:
  "sizes_inv d \<Longrightarrow> field TDS_SuplaRegisterDeviceHeader [''channel_count''] (getRegDevHeaderPtr d) = unat (rd_channel_count d)"
proof -
  assume d: "sizes_inv d"
  let ?pre = "rd_Email d @ rd_AuthKey d @ rd_GUID d @ rd_Name d @ rd_SoftVer d @ rd_ServerName d @
     u32_bytes (rd_Flags d) @ u16_bytes (rd_ManufacturerID d) @ u16_bytes (rd_ProductID d)"
  have "length ?pre = 583" using d by (simp add: sizes_inv_def const_defs)
  then have "seg 583 1 (?pre @ [rd_channel_count d]) = [rd_channel_count d]" by (simp add: seg_def)
  then show ?thesis by (simp add: getRegDevHeaderPtr_def field_def chunk_offsets)
qed

lemma length_description:
  "length (ch_value c) = SUPLA_CHANNELVALUE_SIZE \<Longrightarrow>
    length (description version c) = sizeof (if version \<le> 24 then TDS_SuplaDeviceChannel_D else TDS_SuplaDeviceChannel_E)"
  by (simp add: description_def channel_struct_def layout const_defs)

text \<open>C2. Registration describes the device.  After any run of the device in which every channel has got a number, the registration
  step of the protocol layer writes exactly one frame, of call F up to protocol version 24 and call G above it.  Its payload is the registration header
  followed by the description of every channel in the order of construction, the server accepts it, the
  returned value is the request identifier of the frame, and afterwards no channel has an unsent value.\<close>

theorem registration_describes_device:
  fixes version :: int
  assumes "(device_step (int SUPLA_CHANNELMAXCOUNT))\<^sup>*\<^sup>* RegisterDevice_init d" "- 1 \<notin> set (channel_numbers d)"
    and "srpc_inv (tgt e) s" "before_async_call (params e) = None"
    and "srpc_call_min_version_required c \<le> sp_version (proto s)"
    and "c = (if version \<le> 24 then SUPLA_DS_CALL_REGISTER_DEVICE_F else SUPLA_DS_CALL_REGISTER_DEVICE_G)"
    and "m = call_msg s c (getRegDevHeaderPtr d @ concat (map (description version) (channels d)))"
  shows "\<exists>s' ws d'. register_device e version (Some s) d = ((Some s', sint (m_rr_id m)), d') \<and>
    user s' = fold (data_write (params e)) ws (user s) \<and> concat ws = encode m \<and>
    accepted_by OTHER c (m_payload m) \<and> srpc_inv (tgt e) s' \<and>
    d' = d\<lparr>channels := map clearSendValue (channels d)\<rparr> \<and> (\<forall>ch \<in> set (channels d'). \<not> isValueUpdateReady ch)"
proof -
  let ?T = "if version \<le> 24 then TDS_SuplaDeviceChannel_D else TDS_SuplaDeviceChannel_E"
  let ?rd = "getRegDevHeaderPtr d"
  let ?g = "described (describer_of version) d"
  have inv: "numbers_inv (int SUPLA_CHANNELMAXCOUNT) d" "sizes_inv d" using device_run_inv [OF assms(1)] by (simp_all add: reg_inv_def)
  have n: "unat (rd_channel_count d) = length (channels d)" by (rule all_numbered_count [OF inv(1) assms(2)])
  have cnt: "field TDS_SuplaRegisterDeviceHeader [''channel_count''] ?rd = length (channels d)"
    using header_count [OF inv(2)] n by simp
  have limit: "length (channels d) \<le> SUPLA_CHANNELMAXCOUNT" using given_bound [OF inv(1)] inv(1) n by (simp add: numbers_inv_def)
  have g: "?g i = Some (description version (channels d ! i))" if "i < length (channels d)" for i
    using that n by (simp add: described_eq)
  have "map (the \<circ> ?g) [0..<length (channels d)] = map (\<lambda>i. description version (channels d ! i)) [0..<length (channels d)]"
    by (simp add: g)
  also have "\<dots> = map (description version) (channels d)"
    using arg_cong [OF map_nth [of "channels d"], of "map (description version)"] by (simp add: comp_def)
  finally have all: "map (the \<circ> ?g) [0..<length (channels d)] = map (description version) (channels d)" .
  have T: "(c, ?T) \<in> chunked" using assms(6) by (simp add: chunked_def)
  have len: "\<forall>i < length (channels d). \<exists>b. ?g i = Some b \<and> length b = sizeof ?T"
    using g inv(2) length_description by (simp add: sizes_inv_def)
  have after: "after_describing (describer_of version) (unat (rd_channel_count d)) d = d\<lparr>channels := map clearSendValue (channels d)\<rparr>"
    using n by (simp add: after_describing_eq)
  have r: "register_device e version (Some s) d =
      (if c = SUPLA_DS_CALL_REGISTER_DEVICE_F then srpc_ds_async_registerdevice_in_chunks e (Some s) ?rd ?g
       else srpc_ds_async_registerdevice_in_chunks_g e (Some s) ?rd ?g, d\<lparr>channels := map clearSendValue (channels d)\<rparr>)"
    unfolding after [symmetric] using assms(6)
    by (simp add: register_device_def Let_def describer_of_def SUPLA_DS_CALL_REGISTER_DEVICE_F_def SUPLA_DS_CALL_REGISTER_DEVICE_G_def)
  show ?thesis
    using registerdevice_in_chunks_frame [OF assms(3,4) T assms(5) header_length [OF inv(2)], of ?g, unfolded cnt all, OF len limit]
    unfolding r assms(7) by fastforce
qed

theorem registration_describes_device_witness:
  "let d = newChannel (- 1) (newChannel (- 1) RegisterDevice_init)
   in \<exists>s' m d'. register_device (writer_env DEVICE 32 heap_any) 25 (Some (fresh DEVICE [])) d = ((Some s', sint (m_rr_id m)), d') \<and>
     user s' = encode m \<and> m_payload m = getRegDevHeaderPtr d @ concat (map (description 25) (channels d))"
proof -
  define d where "d = newChannel (- 1) (newChannel (- 1) RegisterDevice_init)"
  have n: "channel_numbers d = [0, 1]" unfolding d_def by code_simp
  have "(device_step (int SUPLA_CHANNELMAXCOUNT))\<^sup>*\<^sup>* RegisterDevice_init d"
    unfolding d_def by (intro run_steps rtranclp.rtrancl_refl) simp_all
  note run = this
  define m where "m = call_msg (fresh DEVICE ([] :: bytes)) SUPLA_DS_CALL_REGISTER_DEVICE_G (getRegDevHeaderPtr d @ concat (map (description 25) (channels d)))"
  have m: "m_payload m = getRegDevHeaderPtr d @ concat (map (description 25) (channels d))" by (simp add: m_def call_msg_def)
  have v: "srpc_call_min_version_required SUPLA_DS_CALL_REGISTER_DEVICE_G \<le> sp_version (proto (fresh DEVICE []))"
    by (simp add: fresh_def srpc_call_min_version_required_def sproto_new_def const_defs)
  have "- 1 \<notin> set (channel_numbers d)" by (simp add: n)
  from registration_describes_device [OF run this _ _ _ _ m_def, of "writer_env DEVICE 32 heap_any"] v
  have "\<exists>s' ws d'. register_device (writer_env DEVICE 32 heap_any) 25 (Some (fresh DEVICE [])) d = ((Some s', sint (m_rr_id m)), d') \<and>
      user s' = concat ws \<and> concat ws = encode m"
    by (auto simp: writer_writes fresh_inv)
  then show ?thesis unfolding d_def [symmetric] Let_def using m by metis
qed

text \<open>C36. A channel without a number spoils the registration.  When the constructor cannot give a channel a number (the requested
  number is in use or over the limit), the channel stays in the list but is not counted.  The registration, which describes the
  first channels of the list up to the count, then describes it under the number 255, and a later channel that has
  a number is not described at all.\<close>

theorem unnumbered_channel_spoils_registration:
  assumes "(device_step (int SUPLA_CHANNELMAXCOUNT))\<^sup>*\<^sup>* RegisterDevice_init d" "i < unat (getChannelCount d)" "channel_numbers d ! i = - 1"
  shows "(\<exists>b. described getChannelPtr_E d i = Some (255 # b)) \<and>
    (\<exists>j < length (channels d). channel_numbers d ! j \<noteq> - 1 \<and> described getChannelPtr_E d j = None)"
proof -
  let ?n = "unat (getChannelCount d)"
  have inv: "numbers_inv (int SUPLA_CHANNELMAXCOUNT) d" using device_run_inv [OF assms(1)] by (simp add: reg_inv_def)
  then have c: "?n = length (given (channel_numbers d))" by (simp add: numbers_inv_def getChannelCount_def)
  also have "\<dots> \<le> length (channels d)" by (metis given_def length_filter_le numbers_simps(1))
  finally have le: "?n \<le> length (channels d)" .
  have E: "describer_of 25 = getChannelPtr_E" by (simp add: describer_of_def)
  have d: "described getChannelPtr_E d k = (if k < ?n then Some (description 25 (channels d ! k)) else None)" for k
    using described_eq [of d 25 k] le unfolding E getChannelCount_def by simp
  have "channelNumber (channels d ! i) = - 1" using assms(2,3) le by (simp add: nth_numbers)
  then have "\<exists>b. described getChannelPtr_E d i = Some (255 # b)"
    using assms(2) by (simp add: d description_def channel_struct_def)
  moreover have "\<exists>j < length (channels d). channel_numbers d ! j \<noteq> - 1 \<and> described getChannelPtr_E d j = None"
  proof -
    let ?a = "take ?n (channel_numbers d)" and ?b = "drop ?n (channel_numbers d)"
    have "- 1 \<in> set ?a" using assms(2,3) le by (force simp: in_set_conv_nth)
    then have "length (given ?a) < length ?a" unfolding given_def by (rule length_filter_less) simp
    then have "length (given ?a) < ?n" using le by simp
    moreover have "length (given ?a) + length (given ?b) = ?n" using c given_simps(2) [of ?a ?b] by (metis append_take_drop_id length_append)
    ultimately have "given ?b \<noteq> []" by auto
    then obtain k where "k < length ?b" "?b ! k \<noteq> - 1" unfolding given_def filter_empty_conv by (metis in_set_conv_nth)
    then show ?thesis using le by (intro exI [of _ "?n + k"]) (simp add: d)
  qed
  ultimately show ?thesis by blast
qed

theorem unnumbered_channel_spoils_registration_witness:
  "let d = newChannel 1 (newChannel 0 (newChannel 0 RegisterDevice_init))
   in channel_numbers d = [0, - 1, 1] \<and> unat (getChannelCount d) = 2 \<and>
     (\<exists>b. described getChannelPtr_E d 1 = Some (255 # b)) \<and> described getChannelPtr_E d 2 = None"
proof -
  define d where "d = newChannel 1 (newChannel 0 (newChannel 0 RegisterDevice_init))"
  have n: "channel_numbers d = [0, - 1, 1]" "unat (getChannelCount d) = 2" unfolding d_def by code_simp+
  have N: "described getChannelPtr_E d 2 = None" unfolding d_def by code_simp
  have "(device_step (int SUPLA_CHANNELMAXCOUNT))\<^sup>*\<^sup>* RegisterDevice_init d"
    unfolding d_def by (intro run_steps rtranclp.rtrancl_refl) simp_all
  from unnumbered_channel_spoils_registration [OF this, of 1] show ?thesis
    unfolding d_def [symmetric] Let_def using n N by simp
qed

end
