(* ===== verification/Spec2Isabelle.thy ===== *)
theory Spec2Isabelle
  imports Srpc_Evtool Relay_Laws Valve Registration
begin

text \<open>
  A verification development for the SUPLA device library: the protocol library in C (\<open>src/src/supla-common\<close>) and the core of the
  device in C++ (\<open>src/src/supla\<close>).

  \<^bold>\<open>The program.\<close>  A device connects to a server over a byte stream.  The protocol library frames packets, queues them and turns them into typed
  remote calls.  On the device, elements (a relay, a button, a valve) own channels; a channel holds the value that the server sees and the marks of
  what is still to be sent.  The device registers its channels with the server; then each element reports changes of its channel and exchanges its
  configuration with the server.  Elements are connected with each other by local actions: an event of one is an action of another.  Settings
  live in a key-value store, the states of elements in a storage with checksums.

  \<^bold>\<open>The theories\<close>, bottom up; file names are below \<open>src/src\<close>.

  \<^item> \<open>Prelude\<close>: bytes, little-endian numbers, C strings, copies, the heap as an oracle that says which allocations succeed, and the lemmas and
    collections that all components share.
  \<^item> \<open>Proto_Const\<close>, \<open>Proto_Structs\<close>: \<open>supla-common/proto.h\<close>.  Constants are functions of the build target where macros select them; a
    packed structure is a value of type \<open>ctype\<close>, with computed sizes and offsets.
  \<^item> \<open>Sproto\<close>: \<open>supla-common/proto.c\<close>, buffers and framing.  \<open>Lck\<close>, \<open>Eh\<close>: \<open>lck.c\<close> and \<open>eh.c\<close>.
  \<^item> \<open>Srpc_Queue\<close>, \<open>Srpc\<close>, \<open>Srpc_Pack\<close>, \<open>Srpc_Getdata\<close>, \<open>Srpc_Send\<close>, \<open>Srpc_Evtool\<close>: \<open>supla-common/srpc.c\<close>: the packet queues, the
    handle with its iteration, packs of items with captions, the decoder, the sending functions, and the tools for extended values.  The
    callbacks, the clock and the heap are the record \<open>env\<close>.
  \<^item> \<open>Key_Value\<close>, \<open>Config\<close>, \<open>Storage\<close>: \<open>supla/storage/key_value.cpp\<close>, \<open>config.cpp\<close>, \<open>storage.cpp\<close>, \<open>eeprom.cpp\<close> and \<open>supla/crc16.cpp\<close>.
  \<^item> \<open>Channel_Types\<close>, \<open>Channel\<close>, \<open>Channel_Laws\<close>: \<open>supla/channels/channel.cpp\<close> and \<open>channel_types.cpp\<close>: one definition for each method
    that changes or reads a channel; events are recorded in the order in which they are raised.
  \<^item> \<open>Local_Action\<close>: \<open>supla/local_action.cpp\<close>.  \<open>Events\<close>: the numbers of \<open>supla/events.h\<close> and \<open>supla/actions.h\<close>.
  \<^item> \<open>Text_Tools\<close>: \<open>supla/tools.cpp\<close>.
  \<^item> \<open>Register_Device\<close>, \<open>Registration\<close>: \<open>supla/device/register_device.cpp\<close>, the list of channels of \<open>channel.cpp\<close>, and the registration step of
    \<open>supla/protocol/supla_srpc.cpp\<close>.
  \<^item> \<open>Channel_Config\<close>: \<open>supla/element_with_channel_actions.cpp\<close>, the exchange of configurations.
  \<^item> \<open>Button\<close>: \<open>supla/control/simple_button.cpp\<close> and \<open>button.cpp\<close>.  \<open>Relay\<close>, \<open>Relay_Laws\<close>: \<open>supla/control/relay.cpp\<close>.
    \<open>Valve\<close>: \<open>supla/control/valve_base.cpp\<close> on the device of \<open>virtual_valve.cpp\<close>.

  \<^bold>\<open>How the code is represented.\<close>  A class or structure is a record with its members, an enumeration a datatype or numbers, a method a function
  from the state to the new state and the result; machine integers keep their widths, so wrap-around is that of the code.  On AVR \<open>int\<close> and \<open>size_t\<close> have
  16 bits: a build says so (\<open>size_t_bits\<close>), and the records of a button and a relay have a member for it (\<open>btn_int16\<close>, \<open>relay_int16\<close>).  Derived classes extend
  the record of the base class, virtual methods are records of functions (\<open>config_vt\<close>, \<open>storage_vt\<close>, \<open>element_vt\<close>).  The time, input
  pins, and answers of the platform are arguments.  A message to a protocol layer or a call of a handler is returned as a value.  Errors are the result
  codes of the code, or \<open>None\<close> where the C code would leave an object (reads and writes outside of a block have no other value).  Logging has no
  effect on the state and is left out.

  \<^bold>\<open>Loops.\<close>  Loops are recursive functions that terminate, with two kinds of exceptions.  \<open>drain_in\<close> (the loop over received packets) and \<open>salt_loop\<close> (drawing
  random bytes) may run forever for some environments and are partial functions into \<open>option\<close>; that the receive loop returns is proved
  for devices.  \<open>setChannelNumber\<close> calls itself for the channel whose number it takes; it has fuel, one more than the number of channels, and a depth
  of two calls is shown to be enough in every reachable state.

  \<^bold>\<open>Interfaces\<close> are locales, interpreted on the model's own definitions: \<open>byte_stream\<close> and \<open>atomic_byte_stream\<close> (both buffers of \<open>Sproto\<close>),
  \<open>packet_queue\<close> (the queue of \<open>Srpc_Queue\<close>), \<open>wire_pack\<close> (the ten packs), \<open>sequence_store\<close> (multi-value containers), \<open>config_store\<close> (the
  key-value store under the configuration), \<open>byte_cells\<close> and \<open>storage_memory\<close> (EEPROM under the storage), \<open>one_bit\<close> (flags), \<open>element_class\<close>
  (relays and valves under the configuration exchange).

  \<^bold>\<open>What is shown.\<close>
  \<^item> Protocol: every packet of a stream is delivered once and in order; parsing refines an abstract grammar of frames; where its arithmetic cannot wrap around the
    decoder accepts exactly the well-formed messages, and it never writes outside of its objects; packs, meter values and containers round-trip; queues and buffers keep their
    invariants; locks are balanced and
    released around the callbacks; the iteration sends what is queued and returns.
  \<^item> Settings and storage: the key-value store refines a finite map, the configuration refines independent settings with defaults and survives
    a restart; a change is flagged until it is confirmed; a section with two valid copies survives a write that is cut off; saves happen in their window.
  \<^item> Channels: no change of a value is lost on the way to the server; numbers below \<open>2^15\<close> are unique; the registration message describes the device; destroyed
    objects are not called.
  \<^item> Elements: the debounced input neither reports noise nor misses a level that stays; clicks are counted and reach their handlers; a local change of the
    configuration wins over the server and reaches it; a relay reports what its output does, keeps its times, is cut off by an
    overcurrent, survives restarts, and follows its button; a flood closes a valve and keeps it closed (unless it is configured to close
    on a change only).
  \<^item> Errors: where the code does not do what it means to, the behaviour is proved as it is (swapped events of valves, channels without number in the
    registration, the cycle of a relay after a restart, a limited threshold that is not reported, the configuration of a valve that is not restored).

  \<^bold>\<open>Bounds.\<close>  Statements about times on the 32-bit millisecond counter say how far the times may be apart (at most one period of the counter, or half of
  it where the code subtracts in signed arithmetic).

  \<^bold>\<open>Not modelled.\<close>  The main loop (\<open>SuplaDevice.cpp\<close>), the protocol layers above \<open>srpc.c\<close> (\<open>supla_srpc.cpp\<close> apart from the registration
  step, \<open>mqtt.cpp\<close>) and the network, because they are mostly calls of the platform; the other controls and sensors (thermostats, roller
  shutters, lights, meters), which build on the channels and elements modelled here; ports, examples and tests; the notification of the protocol layers at the end of \<open>ValveBase::saveConfig\<close>; floating-point values (a meter or
  thermometer reading is an argument as the integer that the code derives from it); concurrency (the lock is modelled, the interleaving of threads is
  not: methods run to completion, and a handler that calls back into the object that raised the event takes effect after the method).
\<close>

text \<open>C29. A configuration in the key-value store survives a restart.  After any run of setter calls with arguments of the expected sizes,
  changes, confirmations, polls, queries and restarts from an empty store, with at least one entry in the store: writing the store to an image of at least the
  size of its entries and reading back the bytes written succeeds, and every getter then returns what it returned before: strings, flags,
  device mode, ports, quality of service, identifiers, certificate and its size, salted password, update policy, channel functions and the change flags of the channels.
  The device then has a change ready to send exactly if the flag of an unconfirmed change was set.\<close>

theorem config_survives_restart:
  assumes "list_all event_ok evs" "c = fold (event_step vt) evs (new_config [])" "vt = keyvalue_vt encryption"
    "store c \<noteq> []" "length (concat (map kv_block (store c))) \<le> maxSize"
  shows "\<exists>c'. reboot maxSize c = Some c' \<and> read_string vt c' = read_string vt c \<and> read_flag vt c' = read_flag vt c \<and>
    getDeviceMode vt c' = getDeviceMode vt c \<and> getSuplaServerPort vt c' = getSuplaServerPort vt c \<and>
    getMqttServerPort vt c' = getMqttServerPort vt c \<and> getMqttQos vt c' = getMqttQos vt c \<and>
    getGUID vt c' = getGUID vt c \<and> getAuthKey vt c' = getAuthKey vt c \<and>
    getCustomCA vt c' = getCustomCA vt c \<and> getCustomCASize vt c' = getCustomCASize vt c \<and>
    getCfgModeSaltPassword vt c' = getCfgModeSaltPassword vt c \<and> getAutoUpdatePolicy vt c' = getAutoUpdatePolicy vt c \<and>
    getChannelFunction vt c' = getChannelFunction vt c \<and>
    isChannelConfigChangeFlagSet vt c' = isChannelConfigChangeFlagSet vt c \<and>
    snd (isDeviceConfigChangeReadyToSend vt c') = snd (isDeviceConfigChangeFlagSet vt c)"
proof -
  have s: "store (new_config (store c)) = store c" by (simp add: new_config_def)
  have rel: "change_rel kv_inv kv_abs c (fold change_step evs (Unread False))"
    unfolding assms(2,3) by (rule kv_store.change_run_refines [OF change_rel_empty])
  have "event_step vt Restart c = new_config (store c)" by simp
  then have "change_rel kv_inv kv_abs (new_config (store c)) (Unread (pending (fold change_step evs (Unread False))))"
    using kv_store.change_step_refines [OF rel, of encryption Restart] by simp
  then have "snd (isDeviceConfigChangeReadyToSend vt (new_config (store c))) = snd (isDeviceConfigChangeFlagSet vt c)"
    using kv_store.change_flags [OF rel, of encryption] kv_store.change_flags(2) [of _ _ encryption] by (simp add: assms(3))
  then show ?thesis
    using run_reboots [OF assms(1) assms(2) [unfolded assms(3)] assms(4,5)] s
    by (simp add: fun_eq_iff read_string_eq read_flag_eq get_flag_def getDeviceMode_def getSuplaServerPort_def getMqttServerPort_def
        isMqttTlsEnabled_def getMqttQos_def getGUID_def getAuthKey_def getCustomCA_def getCustomCASize_def getCfgModeSaltPassword_def
        getAutoUpdatePolicy_def getChannelFunction_def isChannelConfigChangeFlagSet_def)
qed

theorem config_survives_restart_witness:
  "\<exists>c'. reboot 100 (fold (event_step (keyvalue_vt False)) [Setting (Set_str WiFiSSID [97, 98]), Change 5] (new_config [])) = Some c' \<and>
     read_string (keyvalue_vt False) c' WiFiSSID = Some ([97, 98] @ replicate 31 0) \<and> snd (isDeviceConfigChangeReadyToSend (keyvalue_vt False) c')"
proof -
  define c where "c = fold (event_step (keyvalue_vt False)) [Setting (Set_str WiFiSSID [97, 98]), Change 5] (new_config [])"
  have c: "store c \<noteq> []" "length (concat (map kv_block (store c))) \<le> 100"
    "read_string (keyvalue_vt False) c WiFiSSID = Some ([97, 98] @ replicate 31 0)"
    "snd (isDeviceConfigChangeFlagSet (keyvalue_vt False) c)"
    unfolding c_def by code_simp+
  have "list_all event_ok [Setting (Set_str WiFiSSID [97, 98]), Change 5]" by simp
  from config_survives_restart [OF this c_def refl c(1,2)] show ?thesis
    unfolding c_def [symmetric] using c(3,4) by metis
qed

end
